(* ===== verification/Prelude.thy ===== *)
theory Prelude
  imports Main "HOL-Library.Word" "HOL-Library.Monad_Syntax"
begin

unbundle bit_operations_syntax

text \<open>
  Shared vocabulary of the development: the C integer types of the RV32 target, checked access to
  C objects, little-endian loads and stores, and the word and list facts the components share.

  Conventions used by every component theory.

  \<^item> \<open>uint8_t\<close>, \<open>uint16_t\<close>, \<open>uint32_t\<close> and \<open>uint64_t\<close> are words of their width.  The target is
    the 32-bit N307FD, so \<open>size_t\<close> and \<open>uintptr_t\<close> are 32-bit words as well.
  \<^item> A pointer that the code compares with \<open>NULL\<close> is an option; \<open>None\<close> is \<open>NULL\<close>.  An out
    parameter is passed its old contents and returned with its new ones.
  \<^item> An array is the list of its elements.  A function that touches an array returns in the option
    monad: the value \<open>None\<close> of the whole function says that an access fell outside the object
    (undefined behaviour of C), so "the result is \<open>Some\<close>" is memory safety.
\<close>

type_synonym u8 = "8 word"
type_synonym u16 = "16 word"
type_synonym u32 = "32 word"
type_synonym u64 = "64 word"

text \<open>Signed 32-bit values are carried as the word of the same bits and read with \<open>sint\<close>.\<close>

type_synonym i32 = "32 word"

text \<open>\<open>SIZE_MAX\<close> and \<open>UINT32_MAX\<close> of the target.\<close>

abbreviation SIZE_MAX :: u32 where
  "SIZE_MAX \<equiv> - 1"

abbreviation UINT32_MAX :: u32 where
  "UINT32_MAX \<equiv> - 1"


section \<open>Checked access to arrays\<close>

definition rd :: "'a list \<Rightarrow> u32 \<Rightarrow> 'a option" where
  "rd xs i = (if unat i < length xs then Some (xs ! unat i) else None)"

definition wr :: "'a list \<Rightarrow> u32 \<Rightarrow> 'a \<Rightarrow> 'a list option" where
  "wr xs i v = (if unat i < length xs then Some (xs[unat i := v]) else None)"

lemma rd_Some [simp]: "unat i < length xs \<Longrightarrow> rd xs i = Some (xs ! unat i)"
  by (simp add: rd_def)

lemma wr_Some [simp]: "unat i < length xs \<Longrightarrow> wr xs i v = Some (xs[unat i := v])"
  by (simp add: wr_def)

lemma rd_eq_Some: "rd xs i = Some v \<longleftrightarrow> unat i < length xs \<and> v = xs ! unat i"
  by (auto simp: rd_def)

lemma wr_eq_Some: "wr xs i v = Some ys \<longleftrightarrow> unat i < length xs \<and> ys = xs[unat i := v]"
  by (auto simp: wr_def)

lemma wr_length: "wr xs i v = Some ys \<Longrightarrow> length ys = length xs"
  by (auto simp: wr_eq_Some)


section \<open>Little-endian 32-bit accesses\<close>

text \<open>
  The code reinterprets byte buffers as arrays of \<open>int32_t\<close>.  Such an array is kept as its bytes
  and read and written through the two functions below, the accesses of the little-endian target.
\<close>

definition le32 :: "u8 \<Rightarrow> u8 \<Rightarrow> u8 \<Rightarrow> u8 \<Rightarrow> u32" where
  "le32 b0 b1 b2 b3 =
     ucast b0 OR push_bit 8 (ucast b1) OR push_bit 16 (ucast b2) OR push_bit 24 (ucast b3)"

definition load32 :: "u8 list \<Rightarrow> u32 \<Rightarrow> u32 option" where
  "load32 b i =
     (let k = 4 * unat i in
      if k + 4 \<le> length b then Some (le32 (b ! k) (b ! (k + 1)) (b ! (k + 2)) (b ! (k + 3)))
      else None)"

definition store32 :: "u8 list \<Rightarrow> u32 \<Rightarrow> u32 \<Rightarrow> u8 list option" where
  "store32 b i v =
     (let k = 4 * unat i in
      if k + 4 \<le> length b
      then Some (b[k := ucast v, k + 1 := ucast (drop_bit 8 v), k + 2 := ucast (drop_bit 16 v),
                   k + 3 := ucast (drop_bit 24 v)])
      else None)"

text \<open>The word at a byte offset of an object, the bytes of a word, and bytes stored at an offset.\<close>

definition uload32 :: "u8 list \<Rightarrow> nat \<Rightarrow> u32" where
  "uload32 data k = le32 (data ! k) (data ! (k + 1)) (data ! (k + 2)) (data ! (k + 3))"

definition bytes32 :: "u32 \<Rightarrow> u8 list" where
  "bytes32 v = [ucast v, ucast (drop_bit 8 v), ucast (drop_bit 16 v), ucast (drop_bit 24 v)]"

definition store_at :: "nat \<Rightarrow> u8 list \<Rightarrow> u8 list \<Rightarrow> u8 list" where
  "store_at k bs data = take k data @ bs @ drop (k + length bs) data"


section \<open>Facts on words\<close>

text \<open>Moving a comparison of words to natural numbers.\<close>

lemmas word_nat_cmp = word_less_nat_alt word_le_nat_alt word_unat_eq_iff

lemma unat_Suc_word:
  fixes i n :: u32
  assumes "i < n"
  shows "unat (i + 1) = unat i + 1"
proof -
  have "unat i < unat n" using assms by (simp add: word_less_nat_alt)
  moreover have "unat n < 2 ^ 32" using unsigned_less [of n] by simp
  ultimately have "unat i + unat (1 :: u32) < 2 ^ LENGTH(32)" by simp
  then show ?thesis by (subst unat_add_lem [THEN iffD1]) auto
qed

lemma unat_lt_2_32 [simp]: "unat (w :: u32) < 4294967296"
  using unsigned_less [of w] by simp

lemma u32_max: "unat (x :: u32) \<le> 4294967295"
  using unat_lt_2_32 [of x] by linarith

lemma unat_pred_u32: "t \<noteq> 0 \<Longrightarrow> unat (t - 1 :: u32) = unat t - 1"
  by (simp add: unat_minus_one)

lemma unat_mult_u32: "unat (a :: u32) * unat b < 2 ^ 32 \<Longrightarrow> unat (a * b) = unat a * unat b"
  using unat_mult_lem [of a b] by simp

lemma unat_add_u32: "unat (a :: u32) + unat b < 2 ^ 32 \<Longrightarrow> unat (a + b) = unat a + unat b"
  using unat_add_lem [of a b] by simp

lemma word_of_nat_unat: "of_nat (unat w) = (w :: 'a :: len word)"
  by simp

lemma unat_2p: "n < 32 \<Longrightarrow> unat (2 ^ n :: u32) = 2 ^ n"
proof -
  assume "n < 32"
  then have "(2 :: nat) ^ n < 2 ^ 32" by (rule power_strict_increasing) simp
  moreover have "(2 ^ n :: u32) = of_nat (2 ^ n)" by simp
  then have "unat (2 ^ n :: u32) = 2 ^ n mod 2 ^ 32"
    by (simp only: unat_of_nat) simp
  ultimately show ?thesis by simp
qed

lemma unat_UINT32_MAX [simp]: "unat UINT32_MAX = 4294967295"
  by (simp add: unsigned_minus_1_eq_mask mask_eq_exp_minus_1)

lemma unat_SIZE_MAX_diff: "unat (SIZE_MAX - i) = 4294967295 - unat i"
proof -
  have "unat (SIZE_MAX - i) = unat SIZE_MAX - unat i"
    by (rule unat_sub) (rule word_n1_ge)
  then show ?thesis by (simp only: unat_UINT32_MAX)
qed


text \<open>The bytes of a little-endian value.\<close>

lemma u8_bit_bound: "\<not> n < 8 \<Longrightarrow> \<not> bit (b :: u8) n"
  using bit_imp_le_length [of b n] by auto

lemma bit_le32:
  "bit (le32 b0 b1 b2 b3) n \<longleftrightarrow>
     (if n < 8 then bit b0 n else if n < 16 then bit b1 (n - 8)
      else if n < 24 then bit b2 (n - 16) else bit b3 (n - 24))"
proof -
  consider "n < 8" | "8 \<le> n" "n < 16" | "16 \<le> n" "n < 24" | "24 \<le> n" "n < 32" | "32 \<le> n" by linarith
  then show ?thesis
    by cases (simp_all add: le32_def bit_or_iff bit_push_bit_iff bit_unsigned_iff u8_bit_bound less_diff_conv2)
qed

lemma le32_bytes: "le32 (ucast v) (ucast (drop_bit 8 v)) (ucast (drop_bit 16 v)) (ucast (drop_bit 24 v)) = v"
proof (rule bit_word_eqI)
  fix n assume n: "n < LENGTH(32)"
  consider "n < 8" | "8 \<le> n" "n < 16" | "16 \<le> n" "n < 24" | "24 \<le> n" by linarith
  then show "bit (le32 (ucast v) (ucast (drop_bit 8 v)) (ucast (drop_bit 16 v)) (ucast (drop_bit 24 v))) n
      = bit v n"
    using n by cases (simp_all add: bit_le32 bit_unsigned_iff bit_drop_bit_eq less_diff_conv2)
qed

lemma bytes32_le32: "bytes32 (le32 b0 b1 b2 b3) = [b0, b1, b2, b3]"
  by (auto simp: bytes32_def intro!: bit_word_eqI simp: bit_unsigned_iff bit_drop_bit_eq bit_le32)

lemma uload32_bytes32: "uload32 (bytes32 v) 0 = v"
  unfolding uload32_def bytes32_def by (simp add: le32_bytes numeral_2_eq_2 numeral_3_eq_3 del: One_nat_def)

lemma length_bytes32 [simp]: "length (bytes32 v) = 4"
  by (simp add: bytes32_def)

lemma length_store_at [simp]: "k + length bs \<le> length data \<Longrightarrow> length (store_at k bs data) = length data"
  by (simp add: store_at_def)

text \<open>Reading back what was stored, and what lies beside it.\<close>

lemma nth_store_at:
  assumes "k + length bs \<le> length data" "i < length data"
  shows "store_at k bs data ! i = (if k \<le> i \<and> i < k + length bs then bs ! (i - k) else data ! i)"
  using assms by (auto simp: store_at_def nth_append min_def)

lemma store_at_append:
  assumes "k + length as + length bs \<le> length data"
  shows "store_at k as (store_at (k + length as) bs data) = store_at k (as @ bs) data"
    "store_at (k + length as) bs (store_at k as data) = store_at k (as @ bs) data"
  using assms by (auto intro!: nth_equalityI simp: nth_store_at nth_append)

lemma store_at_Nil [simp]: "store_at k [] data = data"
  by (simp add: store_at_def)

lemma list_update_store_at: "k < length data \<Longrightarrow> data[k := b] = store_at k [b] data"
  by (simp add: store_at_def upd_conv_take_nth_drop)

section \<open>Arithmetic on ring indices\<close>

lemma ring_mod:
  fixes x n :: nat
  assumes "x < 2 * n"
  shows "x mod n = (if x < n then x else x - n)"
proof (cases "x < n")
  case True
  then show ?thesis by simp
next
  case False
  then have "x mod n = (x - n) mod n" by (simp add: le_mod_geq)
  also have "\<dots> = x - n" using assms by simp
  finally show ?thesis using False by simp
qed

end
