(* ===== verification/UartUtils.thy ===== *)
theory UartUtils
  imports Prelude
begin

text \<open>
  The helpers of the UART shell, \<open>application/baremetal/uart/src/utils.c\<close>: parsing of 64-bit values,
  classification of user frames, names.  A C string is the list of its bytes before the final NUL.
  \<open>strtoull\<close> is the function of the C standard, as far as bases 10 and 16 need it.
\<close>

section \<open>Characters and numerals\<close>

definition ascii :: "string \<Rightarrow> u8 list" where
  "ascii = map of_char"

definition is_c_space :: "u8 \<Rightarrow> bool" where
  "is_c_space c \<longleftrightarrow> c = 32 \<or> (9 \<le> c \<and> c \<le> 13)"

definition digit_value :: "u8 \<Rightarrow> nat option" where
  "digit_value c =
     (if 48 \<le> c \<and> c \<le> 57 then Some (unat c - 48)
      else if 97 \<le> c \<and> c \<le> 102 then Some (unat c - 87)
      else if 65 \<le> c \<and> c \<le> 70 then Some (unat c - 55)
      else None)"

definition is_digit :: "nat \<Rightarrow> u8 \<Rightarrow> bool" where
  "is_digit base c \<longleftrightarrow> (case digit_value c of Some d \<Rightarrow> d < base | None \<Rightarrow> False)"

definition digits_value :: "nat \<Rightarrow> u8 list \<Rightarrow> nat" where
  "digits_value base = foldl (\<lambda>n c. n * base + the (digit_value c)) 0"

definition skip_hex_prefix :: "nat \<Rightarrow> u8 list \<Rightarrow> u8 list" where
  "skip_hex_prefix base t =
     (if base = 16 \<and> 3 \<le> length t \<and> t ! 0 = 48 \<and> (t ! 1 = 120 \<or> t ! 1 = 88) \<and> is_digit 16 (t ! 2)
      then drop 2 t else t)"

text \<open>\<open>strtoull(text, &end, base)\<close>: the value, the text from \<open>end\<close> on, and whether \<open>errno\<close> is \<open>ERANGE\<close>.\<close>

definition strtoull :: "u8 list \<Rightarrow> nat \<Rightarrow> u64 \<times> u8 list \<times> bool" where
  "strtoull text base =
     (let t = dropWhile is_c_space text;
          negative = (t \<noteq> [] \<and> hd t = 45);
          t = (if t \<noteq> [] \<and> (hd t = 45 \<or> hd t = 43) then tl t else t);
          t = skip_hex_prefix base t;
          digits = takeWhile (is_digit base) t;
          n = digits_value base digits
      in if digits = [] then (0, text, False)
         else if 2 ^ 64 \<le> n then (- 1, dropWhile (is_digit base) t, True)
         else (if negative then - of_nat n else of_nat n, dropWhile (is_digit base) t, False))"


section \<open>Parsing\<close>

text \<open>The loop of \<open>parse_binary\<close>, from a cursor on.\<close>

fun parse_binary_loop :: "u8 list \<Rightarrow> u64 \<Rightarrow> nat \<Rightarrow> bool \<Rightarrow> (u64 \<times> nat) option" where
  "parse_binary_loop [] val digits previous_digit = Some (val, digits)"
| "parse_binary_loop (c # cursor) val digits previous_digit =
     (if c = 48 \<or> c = 49 then
        if digits = 64 then None
        else parse_binary_loop cursor (push_bit 1 val OR ucast (c - 48)) (digits + 1) True
      else if c = 95 then
        if \<not> previous_digit \<or> cursor = [] \<or> (hd cursor \<noteq> 48 \<and> hd cursor \<noteq> 49) then None
        else parse_binary_loop cursor val digits False
      else None)"

text \<open>The out parameters \<open>high\<close> and \<open>low\<close> are passed old and returned new.\<close>

definition parse_binary :: "u8 list \<Rightarrow> u32 \<times> u32 \<Rightarrow> int \<times> u32 \<times> u32" where
  "parse_binary text out =
     (if text = [] then (- 1, out)
      else case parse_binary_loop text 0 0 False of
        None \<Rightarrow> (- 1, out)
      | Some (val, digits) \<Rightarrow>
          if digits = 0 then (- 1, out) else (0, ucast (drop_bit 32 val), ucast val))"

definition uart_app_parse_u64 :: "u8 list option \<Rightarrow> (u32 \<times> u32) option \<Rightarrow> int \<times> (u32 \<times> u32) option" where
  "uart_app_parse_u64 text out =
     (case (text, out) of
        (Some text, Some (high, low)) \<Rightarrow>
          if text = [] \<or> hd text = 43 \<or> hd text = 45 then (- 1, out)
          else if hd text = 48 \<and> 2 \<le> length text \<and> (text ! 1 = 98 \<or> text ! 1 = 66)
          then map_prod id Some (parse_binary (drop 2 text) (high, low))
          else
            let hex = (hd text = 48 \<and> 2 \<le> length text \<and> (text ! 1 = 120 \<or> text ! 1 = 88))
            in if hex \<and> length text = 2 then (- 1, out)
               else
                 let (parsed, rest, erange) = strtoull text (if hex then 16 else 10)
                 in if erange \<or> rest = text \<or> rest \<noteq> [] then (- 1, out)
                    else (0, Some (ucast (drop_bit 32 parsed), ucast parsed))
      | _ \<Rightarrow> (- 1, out))"


section \<open>Frames\<close>

datatype frame_kind = FRAME_CONFIG | FRAME_INIT | FRAME_WORK | FRAME_SYNC | FRAME_TEST | FRAME_KIND_COUNT

datatype frame_status = FRAME_AVAILABLE | FRAME_UNAVAILABLE | FRAME_INVALID

datatype user_frame_kind = USER_CONFIG | USER_TEST | USER_WORK | USER_CONTROL

text \<open>\<open>expected_frames\<close> may be \<open>NULL\<close>; its old contents do not matter.\<close>

definition uart_app_classify_frame :: "u32 \<Rightarrow> u32 \<Rightarrow> user_frame_kind \<times> u32" where
  "uart_app_classify_frame high low =
     (let ty = drop_bit 30 high AND 3
      in if ty = 0 then (USER_CONFIG, 1)
         else if ty = 1 then (USER_TEST, (low AND 0x3FFF) + 1)
         else if ty = 2 then (USER_WORK, 0)
         else (USER_CONTROL, 0))"

primrec uart_app_frame_name :: "frame_kind \<Rightarrow> string" where
  "uart_app_frame_name FRAME_CONFIG = ''config''"
| "uart_app_frame_name FRAME_INIT = ''init''"
| "uart_app_frame_name FRAME_WORK = ''work''"
| "uart_app_frame_name FRAME_SYNC = ''sync''"
| "uart_app_frame_name FRAME_TEST = ''test''"
| "uart_app_frame_name FRAME_KIND_COUNT = ''unknown''"

primrec uart_app_frame_status_name :: "frame_status \<Rightarrow> string" where
  "uart_app_frame_status_name FRAME_AVAILABLE = ''available''"
| "uart_app_frame_status_name FRAME_UNAVAILABLE = ''unavailable''"
| "uart_app_frame_status_name FRAME_INVALID = ''invalid''"

text \<open>
  \<open>uart_frame.c\<close>: the tables come from generated headers and are a parameter; a kind without its header
  is \<open>None\<close>.  The view is the words, empty when the table is not available.
\<close>

definition frame_view :: "u32 list \<Rightarrow> frame_status \<times> u32 list" where
  "frame_view words =
     (if length words = 0 then (FRAME_UNAVAILABLE, [])
      else if odd (length words) then (FRAME_INVALID, [])
      else (FRAME_AVAILABLE, words))"

definition uart_app_get_frame :: "(frame_kind \<Rightarrow> u32 list option) \<Rightarrow> frame_kind \<Rightarrow> frame_status \<times> u32 list" where
  "uart_app_get_frame tables kind =
     (if kind = FRAME_KIND_COUNT then (FRAME_INVALID, [])
      else case tables kind of Some words \<Rightarrow> frame_view words | None \<Rightarrow> (FRAME_UNAVAILABLE, []))"


section \<open>What is accepted\<close>

text \<open>The numerals of the shell's help: decimal, hexadecimal, and binary with single separators.\<close>

fun binary_digits :: "bool \<Rightarrow> u8 list \<Rightarrow> u8 list option" where
  "binary_digits sep [] = (if sep then None else Some [])"
| "binary_digits sep (c # cs) =
     (if c = 48 \<or> c = 49 then map_option ((#) c) (binary_digits False cs)
      else if c = 95 \<and> \<not> sep then binary_digits True cs else None)"

definition u64_numeral :: "u8 list \<Rightarrow> nat option" where
  "u64_numeral text =
     (if take 2 text = [48, 98] \<or> take 2 text = [48, 66] then
        case binary_digits True (drop 2 text) of
          Some ds \<Rightarrow> if length ds \<le> 64 then Some (digits_value 2 ds) else None
        | None \<Rightarrow> None
      else if take 2 text = [48, 120] \<or> take 2 text = [48, 88] then
        if drop 2 text \<noteq> [] \<and> list_all (is_digit 16) (drop 2 text) then Some (digits_value 16 (drop 2 text)) else None
      else if text \<noteq> [] \<and> list_all (is_digit 10) text then Some (digits_value 10 text) else None)"

lemma double_or: "push_bit 1 w OR 1 = 2 * w + (1 :: u64)"
  by (simp add: or_one_eq)

lemma digits_value_snoc: "digits_value base (ds @ [c]) = digits_value base ds * base + the (digit_value c)"
  by (simp add: digits_value_def)

lemma binary_step:
  "c = 48 \<or> c = 49 \<Longrightarrow> push_bit 1 (of_nat (digits_value 2 acc)) OR ucast (c - 48) =
     (of_nat (digits_value 2 (acc @ [c])) :: u64)"
  by (auto simp: digits_value_snoc digit_value_def double_or [simplified])

lemma binary_loop:
  assumes "length acc \<le> 64" "prev \<or> (cs \<noteq> [] \<and> (hd cs = 48 \<or> hd cs = 49))"
  shows "parse_binary_loop cs (of_nat (digits_value 2 acc)) (length acc) prev =
    (case binary_digits (\<not> prev) cs of
       Some ds \<Rightarrow> if length acc + length ds \<le> 64
                  then Some (of_nat (digits_value 2 (acc @ ds)), length acc + length ds) else None
     | None \<Rightarrow> None)"
  using assms
proof (induction cs arbitrary: acc prev)
  case (Cons c cs)
  consider (digit) "c = 48 \<or> c = 49" | (sep) "c = 95" "prev" | (bad) "c \<noteq> 48" "c \<noteq> 49" "c = 95 \<longrightarrow> \<not> prev" by auto
  then show ?case
  proof cases
    case digit
    show ?thesis
    proof (cases "length acc = 64")
      case True
      with digit show ?thesis by (auto split: option.splits)
    next
      case False
      with Cons.prems(1) have "length (acc @ [c]) \<le> 64" by simp
      from Cons.IH [OF this, of True] digit binary_step [OF digit, of acc] False show ?thesis
        by (auto split: option.splits)
    qed
  next
    case sep
    show ?thesis
    proof (cases "cs \<noteq> [] \<and> (hd cs = 48 \<or> hd cs = 49)")
      case True
      with Cons.IH [OF Cons.prems(1), of False] sep show ?thesis by auto
    next
      case False
      then have "binary_digits True cs = None" by (cases cs) auto
      with False sep show ?thesis by (auto split: option.splits)
    qed
  qed auto
qed simp

lemma digits_value_less:
  assumes "list_all (is_digit base) ds"
  shows "digits_value base ds < base ^ length ds \<or> ds = []"
  using assms
proof (induction ds rule: rev_induct)
  case (snoc c ds)
  then have d: "the (digit_value c) < base" by (auto simp: is_digit_def split: option.splits)
  have "digits_value base ds + 1 \<le> base ^ length ds"
    using snoc by (auto simp: digits_value_def)
  then have "(digits_value base ds + 1) * base \<le> base ^ length ds * base" by (rule mult_le_mono1)
  then have "digits_value base ds * base + the (digit_value c) < base ^ length ds * base" using d by simp
  then show ?case by (simp add: digits_value_snoc mult.commute)
qed simp

lemma binary_digits_ok: "binary_digits sep cs = Some ds \<Longrightarrow> list_all (is_digit 2) ds \<and> (sep \<longrightarrow> ds \<noteq> [])"
  by (induction sep cs arbitrary: ds rule: binary_digits.induct)
    (auto simp: is_digit_def digit_value_def split: if_splits)

lemma u64_halves:
  assumes "n < 2 ^ 64"
  shows "(ucast (drop_bit 32 (of_nat n :: u64)) :: u32) = of_nat (n div 2 ^ 32)"
    "(ucast (of_nat n :: u64) :: u32) = of_nat n"
proof -
  have n: "unat (of_nat n :: u64) = n" using assms by (simp add: unat_of_nat)
  have u: "(ucast w :: u32) = of_nat (unat w)" for w :: u64 by simp
  show "(ucast (of_nat n :: u64) :: u32) = of_nat n"
    "(ucast (drop_bit 32 (of_nat n :: u64)) :: u32) = of_nat (n div 2 ^ 32)"
    unfolding u unat_drop_bit_eq n by (simp_all add: drop_bit_eq_div)
qed

definition u64_words :: "nat \<Rightarrow> u32 \<times> u32" where
  "u64_words n = (of_nat (n div 2 ^ 32), of_nat n)"

lemma binary_value_less:
  assumes "binary_digits True cs = Some ds" "length ds \<le> 64"
  shows "digits_value 2 ds < 2 ^ 64"
proof -
  from binary_digits_ok [OF assms(1)] have ok: "list_all (is_digit 2) ds" "ds \<noteq> []" by auto
  have "digits_value 2 ds < 2 ^ length ds" using digits_value_less [OF ok(1)] ok(2) by simp
  also have "\<dots> \<le> 2 ^ 64" using assms(2) by (rule power_increasing) simp
  finally show ?thesis .
qed

lemma parse_binary_exact:
  "parse_binary text out =
    (case binary_digits True text of
       Some ds \<Rightarrow> if length ds \<le> 64 then (0, u64_words (digits_value 2 ds)) else (- 1, out)
     | None \<Rightarrow> (- 1, out))"
proof (cases "text \<noteq> [] \<and> (hd text = 48 \<or> hd text = 49)")
  case True
  have loop: "parse_binary_loop text 0 0 False =
      (case binary_digits True text of
         Some ds \<Rightarrow> if length ds \<le> 64 then Some (of_nat (digits_value 2 ds), length ds) else None
       | None \<Rightarrow> None)"
    using binary_loop [of "[]" False "text"] True by (simp add: digits_value_def split: option.splits)
  show ?thesis
  proof (cases "binary_digits True text")
    case None
    with loop True show ?thesis by (simp add: parse_binary_def)
  next
    case (Some ds)
    then have "ds \<noteq> []" using binary_digits_ok by blast
    with loop True Some binary_value_less [OF Some] show ?thesis by (simp add: parse_binary_def u64_words_def u64_halves)
  qed
next
  case False
  then have "binary_digits True text = None" by (cases "text") auto
  moreover have "text = [] \<or> parse_binary_loop text 0 0 False = None" using False by (cases "text") auto
  ultimately show ?thesis by (auto simp: parse_binary_def)
qed

lemma takeWhile_drop_all: "dropWhile P xs = [] \<longleftrightarrow> list_all P xs"
  by (simp add: list_all_iff)

lemma strtoull_digits:
  assumes "text \<noteq> []" "\<not> is_c_space (hd text)" "hd text \<noteq> 43" "hd text \<noteq> 45"
    and t: "t = skip_hex_prefix base text"
  shows "(case strtoull text base of (parsed, rest, erange) \<Rightarrow>
      if erange \<or> rest = text \<or> rest \<noteq> [] then (- 1, out)
      else (0, Some (ucast (drop_bit 32 parsed), ucast parsed))) =
    (if t \<noteq> [] \<and> list_all (is_digit base) t \<and> digits_value base t < 2 ^ 64
     then (0 :: int, Some (u64_words (digits_value base t))) else (- 1, out))"
proof -
  have sp: "dropWhile is_c_space text = text" using assms(1,2) by (cases "text") auto
  have all: "takeWhile (is_digit base) t = t" "dropWhile (is_digit base) t = []" if "list_all (is_digit base) t"
    using that by (auto simp: list_all_iff)
  have none: "dropWhile (is_digit base) t \<noteq> []" if "\<not> list_all (is_digit base) t"
    using that by (auto simp: list_all_iff)
  have st: "strtoull text base =
      (if takeWhile (is_digit base) t = [] then (0, text, False)
       else if 2 ^ 64 \<le> digits_value base (takeWhile (is_digit base) t) then (- 1, dropWhile (is_digit base) t, True)
       else (of_nat (digits_value base (takeWhile (is_digit base) t)), dropWhile (is_digit base) t, False))"
    using assms(3,4) by (simp add: strtoull_def sp Let_def t)
  show ?thesis
  proof (cases "list_all (is_digit base) t")
    case True
    show ?thesis
      using st [unfolded all [OF True]] True u64_halves [of "digits_value base t"] assms(1)
      by (auto simp: u64_words_def)
  next
    case False
    with st none show ?thesis by (auto simp: not_le)
  qed
qed

text \<open>The three forms of a numeral.\<close>

lemma parse_binary_case:
  assumes "text = 48 # d # ds" "d = 98 \<or> d = 66"
  shows "uart_app_parse_u64 (Some text) (Some out) =
    (case u64_numeral text of
       Some n \<Rightarrow> if n < 2 ^ 64 then (0, Some (u64_words n)) else (- 1, Some out)
     | None \<Rightarrow> (- 1, Some out))"
proof -
  have eq: "uart_app_parse_u64 (Some text) (Some out) = map_prod id Some (parse_binary ds out)"
    using assms by (cases out) (auto simp: uart_app_parse_u64_def)
  have num: "u64_numeral text = (case binary_digits True ds of
      Some ds \<Rightarrow> if length ds \<le> 64 then Some (digits_value 2 ds) else None | None \<Rightarrow> None)"
    using assms by (auto simp: u64_numeral_def)
  show ?thesis
    unfolding eq num parse_binary_exact using binary_value_less [of ds] by (auto split: option.splits)
qed

lemma parse_hex_case:
  assumes "text = 48 # d # ds" "d = 120 \<or> d = 88"
  shows "uart_app_parse_u64 (Some text) (Some out) =
    (case u64_numeral text of
       Some n \<Rightarrow> if n < 2 ^ 64 then (0, Some (u64_words n)) else (- 1, Some out)
     | None \<Rightarrow> (- 1, Some out))"
proof (cases ds)
  case Nil
  with assms show ?thesis by (cases out) (auto simp: uart_app_parse_u64_def u64_numeral_def)
next
  case ds: (Cons e es)
  have x: "\<not> is_digit 16 d" "\<not> is_c_space 48" using assms by (auto simp: is_digit_def digit_value_def is_c_space_def)
  have t: "skip_hex_prefix 16 text = (if is_digit 16 e then ds else text)"
    using assms ds by (auto simp: skip_hex_prefix_def)
  have eq: "uart_app_parse_u64 (Some text) (Some out) = (case strtoull text 16 of (parsed, rest, erange) \<Rightarrow>
      if erange \<or> rest = text \<or> rest \<noteq> [] then (- 1, Some out)
      else (0, Some (ucast (drop_bit 32 parsed), ucast parsed)))"
    using assms ds by (cases out) (auto simp: uart_app_parse_u64_def split: prod.split)
  have num: "u64_numeral text = (if list_all (is_digit 16) ds then Some (digits_value 16 ds) else None)"
    using assms ds by (auto simp: u64_numeral_def)
  show ?thesis
    unfolding eq num using assms ds x
    by (subst strtoull_digits [OF _ _ _ _ t [symmetric]]) auto
qed

lemma parse_decimal_case:
  assumes "text = c # cs" "\<not> is_c_space c" "c \<noteq> 43" "c \<noteq> 45"
    and "c = 48 \<longrightarrow> (\<forall>d ds. cs = d # ds \<longrightarrow> d \<notin> {98, 66, 120, 88})"
  shows "uart_app_parse_u64 (Some text) (Some out) =
    (case u64_numeral text of
       Some n \<Rightarrow> if n < 2 ^ 64 then (0, Some (u64_words n)) else (- 1, Some out)
     | None \<Rightarrow> (- 1, Some out))"
proof -
  have t: "skip_hex_prefix 10 text = text" by (simp add: skip_hex_prefix_def)
  have eq: "uart_app_parse_u64 (Some text) (Some out) = (case strtoull text 10 of (parsed, rest, erange) \<Rightarrow>
      if erange \<or> rest = text \<or> rest \<noteq> [] then (- 1, Some out)
      else (0, Some (ucast (drop_bit 32 parsed), ucast parsed)))"
    using assms by (cases out; cases cs) (auto simp: uart_app_parse_u64_def split: prod.split)
  have num: "u64_numeral text = (if list_all (is_digit 10) text then Some (digits_value 10 text) else None)"
    using assms by (cases cs) (auto simp: u64_numeral_def)
  show ?thesis
    unfolding eq num using assms by (subst strtoull_digits [OF _ _ _ _ t [symmetric]]) auto
qed

text \<open>C38.  \<open>uart_app_parse_u64\<close> accepts exactly the numerals of the shell's help, decimal, \<open>0x\<close> and
  \<open>0b\<close> with single separators between digits, when their value fits 64 bits, and stores the value's two
  halves; on any other text it fails and stores nothing.\<close>

theorem parse_u64_exact:
  assumes "\<And>c cs. text = c # cs \<Longrightarrow> \<not> is_c_space c"
  shows "uart_app_parse_u64 (Some text) (Some out) =
    (case u64_numeral text of
       Some n \<Rightarrow> if n < 2 ^ 64 then (0, Some (u64_words n)) else (- 1, Some out)
     | None \<Rightarrow> (- 1, Some out))"
proof (cases "text")
  case Nil
  then show ?thesis by (cases out) (simp add: uart_app_parse_u64_def u64_numeral_def)
next
  case (Cons c cs)
  consider "c = 43 \<or> c = 45" | d ds where "c = 48" "cs = d # ds" "d = 98 \<or> d = 66"
    | d ds where "c = 48" "cs = d # ds" "d = 120 \<or> d = 88"
    | "c \<noteq> 43" "c \<noteq> 45" "c = 48 \<longrightarrow> (\<forall>d ds. cs = d # ds \<longrightarrow> d \<notin> {98, 66, 120, 88})"
    by (cases cs) auto
  then show ?thesis
  proof cases
    case 1
    then have "\<not> is_digit 10 c" "c \<noteq> 48" by (auto simp: is_digit_def digit_value_def)
    with 1 show ?thesis by (cases out) (simp add: uart_app_parse_u64_def u64_numeral_def Cons)
  next
    case 2
    then show ?thesis using parse_binary_case [of "text" d ds out] Cons by blast
  next
    case 3
    then show ?thesis using parse_hex_case [of "text" d ds out] Cons by blast
  next
    case 4
    then show ?thesis using parse_decimal_case [OF Cons] assms Cons by blast
  qed
qed

text \<open>The three forms at one value, and a text with a sign behind a space.\<close>

theorem parse_u64_exact_witness:
  "uart_app_parse_u64 (Some (ascii ''0x1_'')) (Some (7, 7)) = (- 1, Some (7, 7)) \<and>
   uart_app_parse_u64 (Some (ascii ''0b1_0'')) (Some (7, 7)) = (0, Some (0, 2)) \<and>
   uart_app_parse_u64 (Some (ascii ''18446744073709551615'')) (Some (7, 7)) = (0, Some (- 1, - 1)) \<and>
   uart_app_parse_u64 (Some (ascii ''18446744073709551616'')) (Some (7, 7)) = (- 1, Some (7, 7))"
  by (subst parse_u64_exact,
      force simp: ascii_def is_c_space_def)+
    (simp add: ascii_def u64_numeral_def is_digit_def digit_value_def digits_value_def u64_words_def)

lemma parse_u64_space_sign:
  "uart_app_parse_u64 (Some (ascii '' -5'')) (Some (7, 7)) = (0, Some (- 1, - 5))"
  by (simp add: ascii_def uart_app_parse_u64_def strtoull_def skip_hex_prefix_def is_c_space_def is_digit_def
      digit_value_def digits_value_def)

end
