(* ===== verification/Ringbuf.thy ===== *)
theory Ringbuf
  imports Prelude
begin

text \<open>
  The single-producer single-consumer byte ring of \<open>Lib/ringbuf.c\<close>.  The record is the struct, its
  storage pointer an option.  The operations are followed by the abstraction to a byte queue, the
  refinement of every operation, the interface \<open>byte_queue\<close> a client of the ring relies on with its
  interpretation, and the interleaving of \<open>rv_ringbuf_get\<close> in the main loop with \<open>rv_ringbuf_put\<close>
  in the receive interrupt as a step relation.
\<close>

section \<open>State and operations\<close>

datatype rv_ringbuf_status =
    RV_RINGBUF_OK
  | RV_RINGBUF_ERR_INVALID
  | RV_RINGBUF_ERR_FULL
  | RV_RINGBUF_ERR_EMPTY

record rv_ringbuf =
  storage :: "u8 list option"
  rb_size :: u32
  head :: u32
  tail :: u32

definition rv_ringbuf_is_valid :: "rv_ringbuf option \<Rightarrow> bool" where
  "rv_ringbuf_is_valid rb =
     (rb \<noteq> None \<and> storage (the rb) \<noteq> None \<and> 2 \<le> rb_size (the rb))"

definition rv_ringbuf_next_index :: "rv_ringbuf \<Rightarrow> u32 \<Rightarrow> u32" where
  "rv_ringbuf_next_index rb index =
     (let index = index + 1 in if rb_size rb \<le> index then 0 else index)"

definition rv_ringbuf_init ::
  "rv_ringbuf option \<Rightarrow> u8 list option \<Rightarrow> u32 \<Rightarrow> rv_ringbuf_status \<times> rv_ringbuf option" where
  "rv_ringbuf_init rb store storage_size =
     (if rb = None \<or> store = None \<or> storage_size < 2 then (RV_RINGBUF_ERR_INVALID, rb)
      else (RV_RINGBUF_OK,
            Some \<lparr>storage = store, rb_size = storage_size, head = 0, tail = 0\<rparr>))"

definition rv_ringbuf_reset :: "rv_ringbuf option \<Rightarrow> rv_ringbuf option" where
  "rv_ringbuf_reset rb =
     (if rv_ringbuf_is_valid rb then map_option (\<lambda>r. r\<lparr>tail := head r\<rparr>) rb else rb)"

definition rv_ringbuf_put ::
  "rv_ringbuf option \<Rightarrow> u8 \<Rightarrow> (rv_ringbuf_status \<times> rv_ringbuf option) option" where
  "rv_ringbuf_put rb byte =
     (if \<not> rv_ringbuf_is_valid rb then Some (RV_RINGBUF_ERR_INVALID, rb)
      else
        let r = the rb;
            h = head r;
            next_head = rv_ringbuf_next_index r h
        in if next_head = tail r then Some (RV_RINGBUF_ERR_FULL, rb)
           else do {
             st \<leftarrow> wr (the (storage r)) h byte;
             Some (RV_RINGBUF_OK, Some (r\<lparr>storage := Some st, head := next_head\<rparr>))
           })"

definition rv_ringbuf_get ::
  "rv_ringbuf option \<Rightarrow> u8 option \<Rightarrow>
   (rv_ringbuf_status \<times> u8 option \<times> rv_ringbuf option) option" where
  "rv_ringbuf_get rb byte =
     (if \<not> rv_ringbuf_is_valid rb \<or> byte = None then Some (RV_RINGBUF_ERR_INVALID, byte, rb)
      else
        let r = the rb; t = tail r
        in if head r = t then Some (RV_RINGBUF_ERR_EMPTY, byte, rb)
           else do {
             b \<leftarrow> rd (the (storage r)) t;
             Some (RV_RINGBUF_OK, Some b, Some (r\<lparr>tail := rv_ringbuf_next_index r t\<rparr>))
           })"

definition rv_ringbuf_available :: "rv_ringbuf option \<Rightarrow> u32" where
  "rv_ringbuf_available rb =
     (if \<not> rv_ringbuf_is_valid rb then 0
      else let r = the rb; h = head r; t = tail r
           in if t \<le> h then h - t else rb_size r - t + h)"


section \<open>Abstraction to a byte queue\<close>

text \<open>
  The invariant between operations: the storage has at least \<open>rb_size\<close> bytes and both indices are
  inside.  The stored bytes are those from \<open>tail\<close> up to \<open>head\<close>, cyclically.
\<close>

definition rb_invar :: "rv_ringbuf \<Rightarrow> bool" where
  "rb_invar r \<longleftrightarrow>
     (\<exists>st. storage r = Some st \<and> unat (rb_size r) \<le> length st) \<and>
     2 \<le> rb_size r \<and> head r < rb_size r \<and> tail r < rb_size r"

definition rb_count :: "rv_ringbuf \<Rightarrow> nat" where
  "rb_count r = (unat (head r) + unat (rb_size r) - unat (tail r)) mod unat (rb_size r)"

definition rb_contents :: "rv_ringbuf \<Rightarrow> u8 list" where
  "rb_contents r =
     map (\<lambda>i. the (storage r) ! ((unat (tail r) + i) mod unat (rb_size r))) [0..<rb_count r]"

lemma length_rb_contents [simp]: "length (rb_contents r) = rb_count r"
  by (simp add: rb_contents_def)

lemma rb_invarE:
  assumes "rb_invar r"
  obtains st where "storage r = Some st" "unat (rb_size r) \<le> length st" "2 \<le> unat (rb_size r)"
    "unat (head r) < unat (rb_size r)" "unat (tail r) < unat (rb_size r)"
  using assms by (auto simp: rb_invar_def word_nat_cmp)

lemma rb_invar_valid: "rb_invar r \<Longrightarrow> rv_ringbuf_is_valid (Some r)"
  by (auto simp: rb_invar_def rv_ringbuf_is_valid_def)

lemma rb_count_eq:
  assumes "rb_invar r"
  shows "rb_count r =
    (if unat (tail r) \<le> unat (head r) then unat (head r) - unat (tail r)
     else unat (rb_size r) - unat (tail r) + unat (head r))"
proof -
  from assms obtain st where
    "unat (head r) < unat (rb_size r)" "unat (tail r) < unat (rb_size r)"
    by (rule rb_invarE)
  then show ?thesis
    unfolding rb_count_def by (subst ring_mod) auto
qed

lemma rb_count_less:
  assumes "rb_invar r" shows "rb_count r < unat (rb_size r)"
  using assms by (auto simp: rb_count_def elim: rb_invarE)

lemma unat_next_index:
  assumes "i < rb_size r"
  shows "unat (rv_ringbuf_next_index r i) = (unat i + 1) mod unat (rb_size r)"
proof -
  have "unat (i + 1) = unat i + 1" using assms by (rule unat_Suc_word)
  moreover have "unat i < unat (rb_size r)" using assms by (simp add: word_less_nat_alt)
  ultimately show ?thesis
    by (auto simp: rv_ringbuf_next_index_def Let_def word_le_nat_alt ring_mod)
qed

lemma next_index_less:
  assumes "i < rb_size r"
  shows "rv_ringbuf_next_index r i < rb_size r"
proof -
  have "0 < unat (rb_size r)" using assms by (simp add: word_less_nat_alt)
  then show ?thesis by (simp add: word_less_nat_alt unat_next_index [OF assms])
qed

text \<open>The head slot is the slot right after the stored bytes.\<close>

lemma head_slot:
  assumes "rb_invar r"
  shows "(unat (tail r) + rb_count r) mod unat (rb_size r) = unat (head r)"
  using assms
  by (elim rb_invarE) (auto simp: rb_count_eq [OF assms] ring_mod)

lemma stored_slot_neq_head:
  assumes "rb_invar r" "i < rb_count r"
  shows "(unat (tail r) + i) mod unat (rb_size r) \<noteq> unat (head r)"
  using assms
  by (elim rb_invarE) (auto simp: rb_count_eq [OF assms(1)] ring_mod split: if_splits)

text \<open>The ring refuses a byte exactly when it holds one byte less than its storage.\<close>

lemma full_iff:
  assumes "rb_invar r"
  shows "rv_ringbuf_next_index r (head r) = tail r \<longleftrightarrow> rb_count r = unat (rb_size r) - 1"
proof -
  have "head r < rb_size r" using assms by (simp add: rb_invar_def)
  then have "rv_ringbuf_next_index r (head r) = tail r \<longleftrightarrow>
      (unat (head r) + 1) mod unat (rb_size r) = unat (tail r)"
    by (simp add: word_unat_eq_iff unat_next_index)
  also have "\<dots> \<longleftrightarrow> rb_count r = unat (rb_size r) - 1"
    using assms by (elim rb_invarE) (auto simp: rb_count_eq [OF assms] ring_mod split: if_splits)
  finally show ?thesis .
qed

lemma empty_iff:
  assumes "rb_invar r"
  shows "head r = tail r \<longleftrightarrow> rb_count r = 0"
  using assms
  by (elim rb_invarE) (auto simp: rb_count_eq [OF assms] word_unat_eq_iff)


section \<open>Every operation refines the queue\<close>

lemma init_refines:
  assumes "2 \<le> n" "unat n \<le> length st"
  shows "\<exists>r. rv_ringbuf_init (Some r0) (Some st) n = (RV_RINGBUF_OK, Some r) \<and>
             rb_invar r \<and> rb_size r = n \<and> rb_contents r = []"
proof -
  have "0 < n" using assms(1) by (auto simp: word_nat_cmp)
  then show ?thesis
    using assms by (auto simp: rv_ringbuf_init_def rb_invar_def rb_contents_def rb_count_def not_less)
qed

lemma reset_refines:
  assumes "rb_invar r"
  shows "\<exists>r'. rv_ringbuf_reset (Some r) = Some r' \<and> rb_invar r' \<and> rb_size r' = rb_size r \<and>
              rb_contents r' = []"
  using assms rb_invar_valid [OF assms]
  by (auto simp: rv_ringbuf_reset_def rb_invar_def rb_contents_def rb_count_def)

lemma put_full:
  assumes "rb_invar r" "rb_count r = unat (rb_size r) - 1"
  shows "rv_ringbuf_put (Some r) b = Some (RV_RINGBUF_ERR_FULL, Some r)"
  using assms by (simp add: rv_ringbuf_put_def rb_invar_valid full_iff Let_def)

lemma put_accepts:
  assumes inv: "rb_invar r" and room: "rb_count r < unat (rb_size r) - 1"
  shows "\<exists>r'. rv_ringbuf_put (Some r) b = Some (RV_RINGBUF_OK, Some r') \<and> rb_invar r' \<and>
              rb_size r' = rb_size r \<and> tail r' = tail r \<and> rb_contents r' = rb_contents r @ [b]"
proof -
  obtain st where st: "storage r = Some st" "unat (rb_size r) \<le> length st"
      "unat (head r) < unat (rb_size r)" "unat (tail r) < unat (rb_size r)"
    using inv by (auto elim: rb_invarE)
  let ?n = "unat (rb_size r)"
  define r' where "r' = r\<lparr>storage := Some (st[unat (head r) := b]),
                          head := rv_ringbuf_next_index r (head r)\<rparr>"
  have hd_lt: "head r < rb_size r" using inv by (simp add: rb_invar_def)
  have put: "rv_ringbuf_put (Some r) b = Some (RV_RINGBUF_OK, Some r')"
    using inv room st by (simp add: rv_ringbuf_put_def rb_invar_valid full_iff Let_def r'_def)
  have inv': "rb_invar r'"
    using inv st next_index_less [OF hd_lt] by (auto simp: rb_invar_def r'_def)
  have nxt: "unat (head r') = (unat (head r) + 1) mod ?n"
    by (simp add: r'_def unat_next_index [OF hd_lt])
  have count: "rb_count r' = rb_count r + 1"
    using st room nxt unfolding rb_count_eq [OF inv] rb_count_eq [OF inv']
    by (auto simp: r'_def ring_mod split: if_splits)
  have "rb_contents r' =
      map (\<lambda>i. st[unat (head r) := b] ! ((unat (tail r) + i) mod ?n)) [0..<rb_count r] @
      [st[unat (head r) := b] ! ((unat (tail r) + rb_count r) mod ?n)]"
    by (simp add: rb_contents_def count) (simp add: r'_def)
  also have "\<dots> = rb_contents r @ [b]"
    using st stored_slot_neq_head [OF inv, THEN not_sym]
    by (simp add: rb_contents_def head_slot [OF inv])
  finally show ?thesis using put inv' by (auto simp: r'_def)
qed

lemma get_empty:
  assumes "rb_invar r" "rb_contents r = []"
  shows "rv_ringbuf_get (Some r) (Some b0) = Some (RV_RINGBUF_ERR_EMPTY, Some b0, Some r)"
proof -
  have "rb_count r = 0" using assms(2) length_rb_contents [of r] by simp
  then show ?thesis
    using assms(1) by (simp add: rv_ringbuf_get_def rb_invar_valid empty_iff Let_def)
qed

lemma contents_step:
  assumes inv: "rb_invar r" and ne: "rb_contents r \<noteq> []"
  shows "rb_invar (r\<lparr>tail := rv_ringbuf_next_index r (tail r)\<rparr>) \<and>
         rb_contents r =
           the (storage r) ! unat (tail r) #
           rb_contents (r\<lparr>tail := rv_ringbuf_next_index r (tail r)\<rparr>)"
proof -
  let ?n = "unat (rb_size r)"
  let ?r = "r\<lparr>tail := rv_ringbuf_next_index r (tail r)\<rparr>"
  obtain st where st: "storage r = Some st" "unat (rb_size r) \<le> length st"
      "unat (head r) < ?n" "unat (tail r) < ?n"
    using inv by (auto elim: rb_invarE)
  have tl_lt: "tail r < rb_size r" using inv by (simp add: rb_invar_def)
  have inv': "rb_invar ?r"
    using inv next_index_less [OF tl_lt] by (auto simp: rb_invar_def)
  have nxt: "unat (tail ?r) = (unat (tail r) + 1) mod ?n"
    by (simp add: unat_next_index [OF tl_lt])
  have pos: "rb_count r \<noteq> 0" using ne by (metis length_rb_contents length_0_conv)
  have count: "rb_count r = Suc (rb_count ?r)"
    using st pos nxt unfolding rb_count_eq [OF inv] rb_count_eq [OF inv']
    by (auto simp: ring_mod split: if_splits)
  have "rb_contents r =
      the (storage r) ! (unat (tail r) mod ?n) #
      map (\<lambda>i. the (storage r) ! ((unat (tail r) + Suc i) mod ?n)) [0..<rb_count ?r]"
    unfolding rb_contents_def count by (subst map_upt_Suc) simp
  also have "\<dots> = the (storage r) ! unat (tail r) # rb_contents ?r"
    using st(4) nxt by (simp add: rb_contents_def mod_add_left_eq)
  finally show ?thesis using inv' by simp
qed

lemma get_delivers:
  assumes inv: "rb_invar r" and ct: "rb_contents r = x # xs"
  shows "\<exists>r'. rv_ringbuf_get (Some r) (Some b0) = Some (RV_RINGBUF_OK, Some x, Some r') \<and>
              rb_invar r' \<and> rb_size r' = rb_size r \<and> rb_contents r' = xs"
proof -
  let ?r = "r\<lparr>tail := rv_ringbuf_next_index r (tail r)\<rparr>"
  have step: "rb_invar ?r" "x = the (storage r) ! unat (tail r)" "xs = rb_contents ?r"
    using contents_step [OF inv] ct by auto
  have ne: "head r \<noteq> tail r"
    using ct length_rb_contents [of r] by (auto simp: empty_iff [OF inv])
  have "rv_ringbuf_get (Some r) (Some b0) = Some (RV_RINGBUF_OK, Some x, Some ?r)"
    using inv ne step(2)
    by (auto simp: rv_ringbuf_get_def rb_invar_valid Let_def elim: rb_invarE)
  then show ?thesis using step by simp
qed

lemma available_eq:
  assumes "rb_invar r"
  shows "unat (rv_ringbuf_available (Some r)) = length (rb_contents r)"
proof -
  obtain st where b: "unat (head r) < unat (rb_size r)" "unat (tail r) < unat (rb_size r)"
    using assms by (auto elim: rb_invarE)
  have sum: "unat (rb_size r - tail r + head r) =
      unat (rb_size r) - unat (tail r) + unat (head r)" if "head r < tail r"
  proof -
    have "unat (rb_size r - tail r) = unat (rb_size r) - unat (tail r)"
      using b by (simp add: unat_sub word_le_nat_alt)
    moreover have "unat (rb_size r) - unat (tail r) + unat (head r) < 4294967296"
      using b that unat_lt_2_32 [of "rb_size r"] unfolding word_less_nat_alt by linarith
    ultimately show ?thesis by (simp add: unat_add_lem [THEN iffD1])
  qed
  show ?thesis
    using sum rb_invar_valid [OF assms] unfolding length_rb_contents rb_count_eq [OF assms]
    by (auto simp: rv_ringbuf_available_def Let_def unat_sub word_le_nat_alt not_le word_less_nat_alt)
qed


section \<open>The byte queue a client sees\<close>

datatype queue_op = Put u8 | Get

text \<open>
  A client run: what each call returned, the status and for \<open>get\<close> the byte behind the pointer, which
  holds \<open>0\<close> before the call.  The specification of the run is a list of at most \<open>room\<close> bytes.
\<close>

fun queue_run ::
  "('q \<Rightarrow> u8 \<Rightarrow> (rv_ringbuf_status \<times> 'q) option) \<Rightarrow>
   ('q \<Rightarrow> u8 option \<Rightarrow> (rv_ringbuf_status \<times> u8 option \<times> 'q) option) \<Rightarrow>
   queue_op list \<Rightarrow> 'q \<Rightarrow> ((rv_ringbuf_status \<times> u8 option) list \<times> 'q) option" where
  "queue_run put get [] q = Some ([], q)"
| "queue_run put get (Put b # ops) q = do {
     (st, q) \<leftarrow> put q b;
     (outs, q) \<leftarrow> queue_run put get ops q;
     Some ((st, None) # outs, q)
   }"
| "queue_run put get (Get # ops) q = do {
     (st, r, q) \<leftarrow> get q (Some 0);
     (outs, q) \<leftarrow> queue_run put get ops q;
     Some ((st, r) # outs, q)
   }"

fun queue_spec :: "nat \<Rightarrow> queue_op list \<Rightarrow> u8 list \<Rightarrow> (rv_ringbuf_status \<times> u8 option) list \<times> u8 list" where
  "queue_spec room [] xs = ([], xs)"
| "queue_spec room (Put b # ops) xs =
     (if length xs < room then apfst (Cons (RV_RINGBUF_OK, None)) (queue_spec room ops (xs @ [b]))
      else apfst (Cons (RV_RINGBUF_ERR_FULL, None)) (queue_spec room ops xs))"
| "queue_spec room (Get # ops) [] = apfst (Cons (RV_RINGBUF_ERR_EMPTY, Some 0)) (queue_spec room ops [])"
| "queue_spec room (Get # ops) (x # xs) = apfst (Cons (RV_RINGBUF_OK, Some x)) (queue_spec room ops xs)"

text \<open>The bytes put with success and the bytes got with success, read off the calls and what they returned.\<close>

fun bytes_in :: "queue_op list \<Rightarrow> (rv_ringbuf_status \<times> u8 option) list \<Rightarrow> u8 list" where
  "bytes_in (Put b # ops) ((st, _) # outs) = (if st = RV_RINGBUF_OK then b # bytes_in ops outs else bytes_in ops outs)"
| "bytes_in (Get # ops) (_ # outs) = bytes_in ops outs"
| "bytes_in _ _ = []"

fun bytes_out :: "queue_op list \<Rightarrow> (rv_ringbuf_status \<times> u8 option) list \<Rightarrow> u8 list" where
  "bytes_out (Put b # ops) (_ # outs) = bytes_out ops outs"
| "bytes_out (Get # ops) ((st, r) # outs) =
     (if st = RV_RINGBUF_OK then the r # bytes_out ops outs else bytes_out ops outs)"
| "bytes_out _ _ = []"

lemma queue_spec_fifo:
  "queue_spec room ops xs = (outs, ys) \<Longrightarrow> xs @ bytes_in ops outs = bytes_out ops outs @ ys"
  by (induction room ops xs arbitrary: outs rule: queue_spec.induct)
    (auto simp: apfst_def map_prod_def split: if_splits prod.splits)

locale byte_queue =
  fixes put :: "'q \<Rightarrow> u8 \<Rightarrow> (rv_ringbuf_status \<times> 'q) option"
    and get :: "'q \<Rightarrow> u8 option \<Rightarrow> (rv_ringbuf_status \<times> u8 option \<times> 'q) option"
    and contents :: "'q \<Rightarrow> u8 list"
    and invar :: "'q \<Rightarrow> bool"
    and room :: "'q \<Rightarrow> nat"
  assumes put_room: "invar q \<Longrightarrow> length (contents q) < room q \<Longrightarrow>
      \<exists>q'. put q b = Some (RV_RINGBUF_OK, q') \<and> invar q' \<and> room q' = room q \<and>
           contents q' = contents q @ [b]"
    and put_no_room: "invar q \<Longrightarrow> \<not> length (contents q) < room q \<Longrightarrow>
      put q b = Some (RV_RINGBUF_ERR_FULL, q)"
    and get_some: "invar q \<Longrightarrow> contents q = x # xs \<Longrightarrow>
      \<exists>q'. get q (Some b0) = Some (RV_RINGBUF_OK, Some x, q') \<and> invar q' \<and> room q' = room q \<and>
           contents q' = xs"
    and get_none: "invar q \<Longrightarrow> contents q = [] \<Longrightarrow>
      get q (Some b0) = Some (RV_RINGBUF_ERR_EMPTY, Some b0, q)"
begin

lemma run_refines:
  "invar q \<Longrightarrow> \<exists>outs q'. queue_run put get ops q = Some (outs, q') \<and> invar q' \<and> room q' = room q \<and>
     queue_spec (room q) ops (contents q) = (outs, contents q')"
proof (induction ops arbitrary: q)
  case Nil
  then show ?case by simp
next
  case (Cons op ops)
  show ?case
  proof (cases op)
    case (Put b)
    show ?thesis
    proof (cases "length (contents q) < room q")
      case True
      obtain q1 where q1: "put q b = Some (RV_RINGBUF_OK, q1)" "invar q1" "room q1 = room q"
          "contents q1 = contents q @ [b]"
        using put_room [OF Cons.prems True, of b] by blast
      with Cons.IH [OF q1(2)] Put True show ?thesis by auto
    next
      case False
      with put_no_room [OF Cons.prems False, of b] Cons.IH [OF Cons.prems] Put
      show ?thesis by auto
    qed
  next
    case Get
    show ?thesis
    proof (cases "contents q")
      case Nil
      with get_none [OF Cons.prems Nil, of 0] Cons.IH [OF Cons.prems] Get
      show ?thesis by auto
    next
      case (Cons x xs)
      obtain q1 where q1: "get q (Some 0) = Some (RV_RINGBUF_OK, Some x, q1)" "invar q1"
          "room q1 = room q" "contents q1 = xs"
        using get_some [OF Cons.prems Cons, of 0] by blast
      with Cons.IH [OF q1(2)] Get Cons show ?thesis by auto
    qed
  qed
qed

lemma put_total: "invar q \<Longrightarrow> \<exists>st q'. put q b = Some (st, q') \<and> invar q' \<and> room q' = room q"
  using put_room [of q b] put_no_room [of q b] by blast

end

definition ring_contents :: "rv_ringbuf option \<Rightarrow> u8 list" where
  "ring_contents q = (case q of None \<Rightarrow> [] | Some r \<Rightarrow> rb_contents r)"

definition ring_invar :: "rv_ringbuf option \<Rightarrow> bool" where
  "ring_invar q = (case q of None \<Rightarrow> False | Some r \<Rightarrow> rb_invar r)"

definition ring_room :: "rv_ringbuf option \<Rightarrow> nat" where
  "ring_room q = (case q of None \<Rightarrow> 0 | Some r \<Rightarrow> unat (rb_size r) - 1)"

lemmas ring_abs_defs = ring_contents_def ring_invar_def ring_room_def

lemma ring_no_room:
  assumes "rb_invar r" "\<not> rb_count r < unat (rb_size r) - 1"
  shows "rb_count r = unat (rb_size r) - 1"
  using assms rb_count_less [OF assms(1)] by simp

interpretation ring: byte_queue rv_ringbuf_put rv_ringbuf_get ring_contents ring_invar ring_room
proof (unfold_locales, goal_cases)
  case (1 q b)
  then obtain r where "q = Some r" "rb_invar r" "rb_count r < unat (rb_size r) - 1"
    by (cases q) (auto simp: ring_abs_defs)
  with put_accepts [of r b] show ?case by (auto simp: ring_abs_defs)
next
  case (2 q b)
  then obtain r where "q = Some r" "rb_invar r" "\<not> rb_count r < unat (rb_size r) - 1"
    by (cases q) (auto simp: ring_abs_defs)
  with put_full [of r b] ring_no_room [of r] show ?case by simp
next
  case (3 q x xs b0)
  then obtain r where "q = Some r" "rb_invar r" "rb_contents r = x # xs"
    by (cases q) (auto simp: ring_abs_defs)
  with get_delivers [of r x xs b0] show ?case by (auto simp: ring_abs_defs)
next
  case (4 q b0)
  then obtain r where "q = Some r" "rb_invar r" "rb_contents r = []"
    by (cases q) (auto simp: ring_abs_defs)
  with get_empty [of r b0] show ?case by simp
qed


section \<open>The interrupt preempting the reader\<close>

text \<open>
  \<open>rv_ringbuf_get\<close> runs in the main loop and \<open>rv_ringbuf_put\<close> in the receive interrupt, which can
  fire between any two memory accesses of the reader but is not itself preempted by it.  The
  reader's program counter names the accesses of \<open>rv_ringbuf_get\<close> in their order: load \<open>tail\<close>, load
  \<open>head\<close> and compare, load the byte, store \<open>tail\<close>.  \<open>accepted\<close> and \<open>delivered\<close> record the bytes
  for which \<open>put\<close> and \<open>get\<close> returned \<open>RV_RINGBUF_OK\<close>.
\<close>

datatype get_pc = GetIdle | TailLoaded u32 | NonEmpty u32 | ByteLoaded u32 u8

record spsc =
  ring :: rv_ringbuf
  pc :: get_pc
  accepted :: "u8 list"
  delivered :: "u8 list"

inductive spsc_step :: "spsc \<Rightarrow> spsc \<Rightarrow> bool" where
  isr_put: "rv_ringbuf_put (Some (ring s)) b = Some (RV_RINGBUF_OK, Some r) \<Longrightarrow>
     spsc_step s (s\<lparr>ring := r, accepted := accepted s @ [b]\<rparr>)"
| isr_full: "rv_ringbuf_put (Some (ring s)) b = Some (RV_RINGBUF_ERR_FULL, Some r) \<Longrightarrow>
     spsc_step s (s\<lparr>ring := r\<rparr>)"
| load_tail: "pc s = GetIdle \<Longrightarrow> spsc_step s (s\<lparr>pc := TailLoaded (tail (ring s))\<rparr>)"
| seen_empty: "pc s = TailLoaded t \<Longrightarrow> head (ring s) = t \<Longrightarrow> spsc_step s (s\<lparr>pc := GetIdle\<rparr>)"
| seen_bytes: "pc s = TailLoaded t \<Longrightarrow> head (ring s) \<noteq> t \<Longrightarrow>
     spsc_step s (s\<lparr>pc := NonEmpty t\<rparr>)"
| load_byte: "pc s = NonEmpty t \<Longrightarrow> rd (the (storage (ring s))) t = Some b \<Longrightarrow>
     spsc_step s (s\<lparr>pc := ByteLoaded t b\<rparr>)"
| store_tail: "pc s = ByteLoaded t b \<Longrightarrow>
     spsc_step s (s\<lparr>ring := (ring s)\<lparr>tail := rv_ringbuf_next_index (ring s) t\<rparr>,
                     pc := GetIdle, delivered := delivered s @ [b]\<rparr>)"

inductive spsc_reachable :: "rv_ringbuf \<Rightarrow> spsc \<Rightarrow> bool" for r0 where
  spsc_start: "spsc_reachable r0 \<lparr>ring = r0, pc = GetIdle, accepted = [], delivered = []\<rparr>"
| spsc_next: "spsc_reachable r0 s \<Longrightarrow> spsc_step s s' \<Longrightarrow> spsc_reachable r0 s'"

fun reader_ok :: "rv_ringbuf \<Rightarrow> get_pc \<Rightarrow> bool" where
  "reader_ok r GetIdle = True"
| "reader_ok r (TailLoaded t) = (t = tail r)"
| "reader_ok r (NonEmpty t) = (t = tail r \<and> rb_contents r \<noteq> [])"
| "reader_ok r (ByteLoaded t b) = (t = tail r \<and> (\<exists>xs. rb_contents r = b # xs))"

definition spsc_inv :: "rv_ringbuf \<Rightarrow> spsc \<Rightarrow> bool" where
  "spsc_inv r0 s \<longleftrightarrow> rb_invar (ring s) \<and> rb_size (ring s) = rb_size r0 \<and> reader_ok (ring s) (pc s) \<and>
     rb_contents r0 @ accepted s = delivered s @ rb_contents (ring s)"

lemma put_OK_accepts:
  assumes "rb_invar r" "rv_ringbuf_put (Some r) b = Some (RV_RINGBUF_OK, Some r')"
  shows "rb_invar r' \<and> rb_size r' = rb_size r \<and> tail r' = tail r \<and>
         rb_contents r' = rb_contents r @ [b]"
proof -
  have "rb_count r < unat (rb_size r) - 1"
    using assms put_full [of r b] ring_no_room [of r] by fastforce
  from put_accepts [OF assms(1) this, of b] assms(2) show ?thesis by auto
qed

lemma put_FULL_same:
  assumes "rb_invar r" "rv_ringbuf_put (Some r) b = Some (RV_RINGBUF_ERR_FULL, Some r')"
  shows "r' = r"
  using assms put_accepts [OF assms(1), of b] put_full [of r b] ring_no_room [of r]
  by (cases "rb_count r < unat (rb_size r) - 1") auto

lemma reader_ok_put:
  assumes "reader_ok r p" "tail r' = tail r" "rb_contents r' = rb_contents r @ [b]"
  shows "reader_ok r' p"
  using assms by (cases p) auto

lemma spsc_step_inv:
  assumes "spsc_step s s'" "spsc_inv r0 s"
  shows "spsc_inv r0 s'"
  using assms
proof (induction rule: spsc_step.induct)
  case (isr_put s b r)
  then show ?case
    using put_OK_accepts [of "ring s" b r] reader_ok_put [of "ring s" "pc s" r b]
    by (simp add: spsc_inv_def)
next
  case (isr_full s b r)
  then show ?case
    using put_FULL_same [of "ring s" b r] by (simp add: spsc_inv_def)
next
  case (seen_bytes s t)
  then have "rb_count (ring s) \<noteq> 0" by (auto simp: spsc_inv_def empty_iff)
  then have "rb_contents (ring s) \<noteq> []" by (metis length_rb_contents length_0_conv)
  with seen_bytes show ?case by (simp add: spsc_inv_def)
next
  case (load_byte s t b)
  then show ?case
    using contents_step [of "ring s"] by (auto simp: spsc_inv_def rd_eq_Some)
next
  case (store_tail s t b)
  then show ?case
    using contents_step [of "ring s"] by (auto simp: spsc_inv_def)
qed (auto simp: spsc_inv_def)

lemma spsc_reachable_inv:
  assumes "spsc_reachable r0 s" "rb_invar r0"
  shows "spsc_inv r0 s"
  using assms
  by (induction rule: spsc_reachable.induct) (auto simp: spsc_inv_def [of r0 "\<lparr>ring = r0, pc = GetIdle, accepted = [], delivered = []\<rparr>"] intro: spsc_step_inv)


section \<open>Properties\<close>

text \<open>C9.  The ring is a bounded FIFO with one byte of its storage reserved.  From any well-formed ring every
  sequence of \<open>rv_ringbuf_put\<close> and \<open>rv_ringbuf_get\<close> calls runs without an out-of-bounds access and returns,
  call for call, what a list of at most size - 1 bytes returns: a byte is accepted at the end exactly when
  there is room and refused with FULL otherwise, the first byte is delivered exactly when there is one and
  EMPTY returned otherwise, and the ring ends with the bytes of that list, well-formed and of the same size.
  So the bytes stored before followed by the bytes accepted are the bytes delivered followed by the bytes
  still stored.\<close>

theorem ringbuf_is_fifo:
  assumes "rb_invar r"
  shows "\<exists>outs r'. queue_run rv_ringbuf_put rv_ringbuf_get ops (Some r) = Some (outs, Some r') \<and>
           queue_spec (unat (rb_size r) - 1) ops (rb_contents r) = (outs, rb_contents r') \<and>
           rb_invar r' \<and> rb_size r' = rb_size r \<and> length (rb_contents r') \<le> unat (rb_size r) - 1 \<and>
           rb_contents r @ bytes_in ops outs = bytes_out ops outs @ rb_contents r'"
proof -
  have "ring_invar (Some r)" using assms by (simp add: ring_invar_def)
  from ring.run_refines [OF this, of ops] obtain outs q where
    q: "queue_run rv_ringbuf_put rv_ringbuf_get ops (Some r) = Some (outs, q)" "ring_invar q"
       "ring_room q = ring_room (Some r)"
       "queue_spec (ring_room (Some r)) ops (ring_contents (Some r)) = (outs, ring_contents q)"
    by blast
  then obtain r' where r': "q = Some r'" "rb_invar r'" by (cases q) (auto simp: ring_invar_def)
  have "rb_size r' = rb_size r"
    using q(3) r' assms by (auto simp: ring_room_def rb_invar_def word_nat_cmp)
  then show ?thesis
    using q r' rb_count_less [OF r'(2)] queue_spec_fifo [OF q(4)] by (auto simp: ring_abs_defs)
qed

text \<open>A ring of three places: two bytes fit, the third is refused, and the first is delivered first.\<close>

theorem ringbuf_is_fifo_witness:
  "\<exists>r'. queue_run rv_ringbuf_put rv_ringbuf_get [Put 5, Put 6, Put 7, Get, Get, Get]
      (Some \<lparr>storage = Some [0, 0, 0], rb_size = 3, head = 2, tail = 2\<rparr>) =
        Some ([(RV_RINGBUF_OK, None), (RV_RINGBUF_OK, None), (RV_RINGBUF_ERR_FULL, None),
               (RV_RINGBUF_OK, Some 5), (RV_RINGBUF_OK, Some 6), (RV_RINGBUF_ERR_EMPTY, Some 0)], Some r') \<and>
      rb_contents r' = []"
proof -
  let ?r = "\<lparr>storage = Some [0, 0, 0], rb_size = 3, head = 2, tail = 2\<rparr>"
  have "rb_invar ?r" "rb_contents ?r = []" by (simp_all add: rb_invar_def rb_contents_def rb_count_def)
  with ringbuf_is_fifo [of ?r "[Put 5, Put 6, Put 7, Get, Get, Get]"] show ?thesis by auto
qed

text \<open>C29.  With the receive interrupt calling \<open>rv_ringbuf_put\<close> between any two memory accesses of a
  \<open>rv_ringbuf_get\<close> in progress, no byte is lost, duplicated or reordered: in every reachable state
  the bytes delivered so far, followed by the bytes in the ring, are the bytes initially stored
  followed by the bytes accepted, and the ring stays well-formed.
\<close>

theorem ringbuf_spsc_no_loss:
  assumes "rb_invar r0" "spsc_reachable r0 s"
  shows "rb_invar (ring s) \<and> rb_contents r0 @ accepted s = delivered s @ rb_contents (ring s)"
  using spsc_reachable_inv [OF assms(2,1)] by (simp add: spsc_inv_def)

theorem ringbuf_spsc_no_loss_witness:
  "\<exists>s. spsc_reachable \<lparr>storage = Some [0, 0], rb_size = 2, head = 0, tail = 0\<rparr> s \<and>
       accepted s = [7] \<and> rb_contents (ring s) = [7]"
proof -
  let ?r = "\<lparr>storage = Some [0, 0], rb_size = 2, head = 0, tail = 0\<rparr>"
  let ?r' = "\<lparr>storage = Some [7, 0], rb_size = 2, head = 1, tail = 0\<rparr>"
  let ?s = "\<lparr>ring = ?r, pc = GetIdle, accepted = [], delivered = []\<rparr>"
  let ?s' = "?s\<lparr>ring := ?r', accepted := accepted ?s @ [7]\<rparr>"
  have put: "rv_ringbuf_put (Some (ring ?s)) 7 = Some (RV_RINGBUF_OK, Some ?r')"
    by (simp add: rv_ringbuf_put_def rv_ringbuf_is_valid_def rv_ringbuf_next_index_def wr_def
        word_le_nat_alt)
  have step: "spsc_step ?s ?s'" by (rule spsc_step.isr_put [OF put])
  have inv: "rb_invar ?r" by (simp add: rb_invar_def)
  have reach: "spsc_reachable ?r ?s'"
    by (rule spsc_reachable.spsc_next [OF spsc_reachable.spsc_start step])
  from ringbuf_spsc_no_loss [OF inv reach]
  have "rb_contents ?r @ [7] = [] @ rb_contents (ring ?s')" by simp
  moreover have "rb_contents ?r = []" by (simp add: rb_contents_def rb_count_def)
  ultimately show ?thesis using reach by (intro exI [of _ ?s']) simp
qed

end
