(* ===== verification/EvalUart.thy ===== *)
theory EvalUart
  imports Ringbuf
begin

text \<open>
  The UART driver \<open>SoC/evalsoc/Common/Source/Drivers/evalsoc_uart.c\<close> over its registers.

  The control registers are ordinary fields.  Reading \<open>RXFIFO\<close> takes a byte out of the device and
  reading \<open>TXFIFO\<close> shows whether it has room, so those two are given by the values successive reads
  return, each with the cycle counter right after the read (the deadline loops of
  \<open>application/baremetal/snn_head/main.c\<close> sample it there): after the listed reads the receive FIFO
  stays empty and the transmit FIFO has room.  \<open>ud_sent\<close> collects the bytes written to \<open>TXFIFO\<close>, and
  \<open>ud_clock\<close> is what the \<open>n\<close>-th separate read of the cycle counter returns.
\<close>

section \<open>Registers\<close>

record uart_dev =
  ud_rx :: "(u32 \<times> u64) list"
  ud_tx :: "(u32 \<times> u64) list"
  ud_sent :: "u8 list"
  TXCTRL :: u32
  RXCTRL :: u32
  IE :: u32
  IP :: u32
  DIV :: u32
  ud_clock :: "nat \<Rightarrow> u64"
  ud_reads :: nat

abbreviation UART_TXEN :: u32 where "UART_TXEN \<equiv> 1"
abbreviation UART_RXEN :: u32 where "UART_RXEN \<equiv> 1"
abbreviation UART_TXFIFO_FULL :: u32 where "UART_TXFIFO_FULL \<equiv> 0x80000000"
abbreviation UART_RXFIFO_EMPTY :: u32 where "UART_RXFIFO_EMPTY \<equiv> 0x80000000"
abbreviation UART_TXCTRL_TXCNT_MASK :: u32 where "UART_TXCTRL_TXCNT_MASK \<equiv> 0x1F0000"
abbreviation UART_TXCTRL_NSTOP_MASK :: u32 where "UART_TXCTRL_NSTOP_MASK \<equiv> 0x6"
abbreviation UART_RXCTRL_RXCNT_MASK :: u32 where "UART_RXCTRL_RXCNT_MASK \<equiv> 0x1F0000"
abbreviation UART_IE_TXIE_MASK :: u32 where "UART_IE_TXIE_MASK \<equiv> 1"
abbreviation UART_IE_RXIE_MASK :: u32 where "UART_IE_RXIE_MASK \<equiv> 2"
abbreviation UART_IP_RXWM :: u32 where "UART_IP_RXWM \<equiv> 2"

datatype UART_STOP_BIT = UART_STOP_BIT_1 | UART_STOP_BIT_2

primrec stop_bit_value :: "UART_STOP_BIT \<Rightarrow> u32" where
  "stop_bit_value UART_STOP_BIT_1 = 0"
| "stop_bit_value UART_STOP_BIT_2 = 1"

definition tx_is_full :: "u32 \<Rightarrow> bool" where
  "tx_is_full v \<longleftrightarrow> v AND UART_TXFIFO_FULL \<noteq> 0"

definition rx_is_empty :: "u32 \<Rightarrow> bool" where
  "rx_is_empty v \<longleftrightarrow> v AND UART_RXFIFO_EMPTY \<noteq> 0"


section \<open>Configuration\<close>

text \<open>Operations on the control registers return \<open>0\<close>, or \<open>-1\<close> for a \<open>NULL\<close> device.\<close>

definition uart_init :: "u32 \<Rightarrow> uart_dev option \<Rightarrow> u32 \<Rightarrow> (i32 \<times> uart_dev option) option" where
  "uart_init SystemCoreClock uart baudrate =
     (case uart of None \<Rightarrow> Some (-1, None)
      | Some d \<Rightarrow> if baudrate = 0 then None
          else Some (0, Some (d\<lparr>DIV := SystemCoreClock div baudrate - 1, TXCTRL := TXCTRL d OR UART_TXEN,
                                RXCTRL := RXCTRL d OR UART_RXEN\<rparr>)))"

definition uart_config_stopbit :: "uart_dev option \<Rightarrow> UART_STOP_BIT \<Rightarrow> i32 \<times> uart_dev option" where
  "uart_config_stopbit uart stopbit =
     (case uart of None \<Rightarrow> (-1, None)
      | Some d \<Rightarrow>
          let stopval = push_bit 1 (stop_bit_value stopbit) AND UART_TXCTRL_NSTOP_MASK
          in (0, Some (d\<lparr>TXCTRL := (TXCTRL d AND NOT UART_TXCTRL_NSTOP_MASK) OR stopval\<rparr>)))"

definition uart_set_tx_watermark :: "uart_dev option \<Rightarrow> u32 \<Rightarrow> i32 \<times> uart_dev option" where
  "uart_set_tx_watermark uart watermark =
     (case uart of None \<Rightarrow> (-1, None)
      | Some d \<Rightarrow>
          let watermark = push_bit 16 watermark AND UART_TXCTRL_TXCNT_MASK
          in (0, Some (d\<lparr>TXCTRL := (TXCTRL d AND NOT UART_TXCTRL_TXCNT_MASK) OR watermark\<rparr>)))"

definition uart_enable_txint :: "uart_dev option \<Rightarrow> i32 \<times> uart_dev option" where
  "uart_enable_txint uart =
     (case uart of None \<Rightarrow> (-1, None) | Some d \<Rightarrow> (0, Some (d\<lparr>IE := IE d OR UART_IE_TXIE_MASK\<rparr>)))"

definition uart_disable_txint :: "uart_dev option \<Rightarrow> i32 \<times> uart_dev option" where
  "uart_disable_txint uart =
     (case uart of None \<Rightarrow> (-1, None) | Some d \<Rightarrow> (0, Some (d\<lparr>IE := IE d AND NOT UART_IE_TXIE_MASK\<rparr>)))"

definition uart_set_rx_watermark :: "uart_dev option \<Rightarrow> u32 \<Rightarrow> i32 \<times> uart_dev option" where
  "uart_set_rx_watermark uart watermark =
     (case uart of None \<Rightarrow> (-1, None)
      | Some d \<Rightarrow>
          let watermark = push_bit 16 watermark AND UART_RXCTRL_RXCNT_MASK
          in (0, Some (d\<lparr>RXCTRL := (RXCTRL d AND NOT UART_RXCTRL_RXCNT_MASK) OR watermark\<rparr>)))"

definition uart_enable_rxint :: "uart_dev option \<Rightarrow> i32 \<times> uart_dev option" where
  "uart_enable_rxint uart =
     (case uart of None \<Rightarrow> (-1, None) | Some d \<Rightarrow> (0, Some (d\<lparr>IE := IE d OR UART_IE_RXIE_MASK\<rparr>)))"

definition uart_disable_rxint :: "uart_dev option \<Rightarrow> i32 \<times> uart_dev option" where
  "uart_disable_rxint uart =
     (case uart of None \<Rightarrow> (-1, None) | Some d \<Rightarrow> (0, Some (d\<lparr>IE := IE d AND NOT UART_IE_RXIE_MASK\<rparr>)))"

definition uart_get_status :: "uart_dev option \<Rightarrow> i32" where
  "uart_get_status uart = (case uart of None \<Rightarrow> -1 | Some d \<Rightarrow> IP d)"

definition uart_clear_status :: "uart_dev option \<Rightarrow> u32 \<Rightarrow> i32 \<times> uart_dev option" where
  "uart_clear_status uart bits =
     (case uart of None \<Rightarrow> (-1, None) | Some d \<Rightarrow> (0, Some (d\<lparr>IP := IP d AND NOT bits\<rparr>)))"


section \<open>Data\<close>

definition tx_wait :: "(u32 \<times> u64) list \<Rightarrow> (u32 \<times> u64) list" where
  "tx_wait polls = tl (dropWhile (tx_is_full \<circ> fst) polls)"

text \<open>The poll that finds room ends the wait; beyond the listed reads there is room.\<close>

definition uart_write :: "uart_dev option \<Rightarrow> u8 \<Rightarrow> i32 \<times> uart_dev option" where
  "uart_write uart val =
     (case uart of None \<Rightarrow> (-1, None)
      | Some d \<Rightarrow> (0, Some (d\<lparr>ud_tx := tx_wait (ud_tx d), ud_sent := ud_sent d @ [val]\<rparr>)))"

text \<open>\<open>None\<close>: no byte ever comes and the loop never ends.  A \<open>NULL\<close> device gives \<open>(uint8_t)-1\<close>.\<close>

definition uart_read :: "uart_dev option \<Rightarrow> (u8 \<times> uart_dev option) option" where
  "uart_read uart =
     (case uart of None \<Rightarrow> Some (-1, None)
      | Some d \<Rightarrow>
          (case dropWhile (rx_is_empty \<circ> fst) (ud_rx d) of
             [] \<Rightarrow> None
           | (reg, _) # polls \<Rightarrow> Some (ucast (reg AND 0xFF), Some (d\<lparr>ud_rx := polls\<rparr>))))"

definition uart_pop_rx_fifo :: "uart_dev \<Rightarrow> u8 \<Rightarrow> i32 \<times> u8 \<times> uart_dev" where
  "uart_pop_rx_fifo d byte =
     (case ud_rx d of
        [] \<Rightarrow> (-1, byte, d)
      | (reg, _) # polls \<Rightarrow>
          let d = d\<lparr>ud_rx := polls\<rparr>
          in if rx_is_empty reg then (-1, byte, d) else (0, ucast (reg AND 0xFF), d))"

lemma pop_shortens: "uart_pop_rx_fifo d b = (0, b', d') \<Longrightarrow> length (ud_rx d') < length (ud_rx d)"
  by (auto simp: uart_pop_rx_fifo_def Let_def split: list.splits if_splits)

text \<open>The loop of \<open>uart_drain_rx_fifo\<close>, with its callback and the callback's context.\<close>

function uart_drain_loop :: "uart_dev \<Rightarrow> u8 \<Rightarrow> (u8 \<Rightarrow> 'c \<Rightarrow> 'c option) \<Rightarrow> 'c \<Rightarrow> (uart_dev \<times> 'c) option" where
  "uart_drain_loop d byte cb ctx =
     (case uart_pop_rx_fifo d byte of
        (status, byte, d) \<Rightarrow>
          if status = 0 then do {
            ctx \<leftarrow> cb byte ctx;
            uart_drain_loop d byte cb ctx
          } else Some (d, ctx))"
  by pat_completeness auto
termination
  by (relation "measure (\<lambda>(d, _). length (ud_rx d))") (auto dest: pop_shortens [OF sym])

definition uart_drain_rx_fifo ::
    "uart_dev option \<Rightarrow> (u8 \<Rightarrow> 'c \<Rightarrow> 'c option) option \<Rightarrow> 'c \<Rightarrow> (i32 \<times> uart_dev option \<times> 'c) option" where
  "uart_drain_rx_fifo uart cb ctx =
     (case (uart, cb) of
        (Some d, Some cb) \<Rightarrow> do {
          (d, ctx) \<leftarrow> uart_drain_loop d 0 cb ctx;
          Some (0, Some d, ctx)
        }
      | _ \<Rightarrow> Some (-1, uart, ctx))"

lemmas [simp del] = uart_drain_loop.simps


section \<open>The receive interrupt of the shell\<close>

text \<open>\<open>application/baremetal/uart/src/uart_app.c\<close> drains the device into its ring.\<close>

definition buffer_uart_byte :: "u8 \<Rightarrow> rv_ringbuf option \<Rightarrow> rv_ringbuf option option" where
  "buffer_uart_byte byte rb = do {
     (_, rb) \<leftarrow> rv_ringbuf_put rb byte;
     Some rb
   }"

definition UART0_IRQHandler ::
    "uart_dev \<Rightarrow> rv_ringbuf option \<Rightarrow> (uart_dev \<times> rv_ringbuf option) option" where
  "UART0_IRQHandler d shell_buf =
     (if uart_get_status (Some d) AND UART_IP_RXWM \<noteq> 0
      then do {
        (_, dev, shell_buf) \<leftarrow> uart_drain_rx_fifo (Some d) (Some buffer_uart_byte) shell_buf;
        Some (the dev, shell_buf)
      }
      else Some (d, shell_buf))"

text \<open>The bytes the device holds: the reads up to the first that finds it empty.\<close>

definition rx_burst :: "(u32 \<times> u64) list \<Rightarrow> u8 list" where
  "rx_burst polls = map (\<lambda>(reg, _). ucast (reg AND 0xFF)) (takeWhile (\<lambda>(reg, _). \<not> rx_is_empty reg) polls)"

text \<open>A drain runs the callback on these bytes and leaves the reads behind the one that found it empty.\<close>

fun burst_into :: "(u8 \<Rightarrow> 'c \<Rightarrow> 'c option) \<Rightarrow> u8 list \<Rightarrow> 'c \<Rightarrow> 'c option" where
  "burst_into cb [] c = Some c"
| "burst_into cb (x # xs) c = do { c \<leftarrow> cb x c; burst_into cb xs c }"

definition after_burst :: "uart_dev \<Rightarrow> uart_dev" where
  "after_burst d = d\<lparr>ud_rx := tl (dropWhile (\<lambda>(reg, _). \<not> rx_is_empty reg) (ud_rx d))\<rparr>"

lemma drain_loop_burst:
  "uart_drain_loop d b cb ctx = map_option (Pair (after_burst d)) (burst_into cb (rx_burst (ud_rx d)) ctx)"
proof (induction "ud_rx d" arbitrary: d b ctx)
  case Nil
  then show ?case
    by (subst uart_drain_loop.simps) (simp add: uart_pop_rx_fifo_def rx_burst_def after_burst_def flip: Nil.hyps)
next
  case (Cons p polls)
  obtain reg t where p: "p = (reg, t)" by fastforce
  note hd = Cons.hyps(2) [symmetric] p
  have "after_burst (d\<lparr>ud_rx := polls\<rparr>) = after_burst d" if "\<not> rx_is_empty reg"
    using that by (simp add: after_burst_def hd)
  with Cons.hyps(1) [of "d\<lparr>ud_rx := polls\<rparr>"] show ?case
    by (subst uart_drain_loop.simps)
      (auto simp: uart_pop_rx_fifo_def hd Let_def rx_burst_def after_burst_def split: Option.bind_splits)
qed

lemma put_room_left:
  assumes "rb_invar r" "rb_count r < unat (rb_size r) - 1"
  obtains r1 where "rv_ringbuf_put (Some r) x = Some (RV_RINGBUF_OK, Some r1)" "rb_invar r1"
    "rb_size r1 = rb_size r" "rb_contents r1 = rb_contents r @ [x]"
  using put_accepts [OF assms, of x] by blast

lemma put_no_room_left:
  assumes "rb_invar r" "\<not> rb_count r < unat (rb_size r) - 1"
  shows "rv_ringbuf_put (Some r) x = Some (RV_RINGBUF_ERR_FULL, Some r)" "rb_count r = unat (rb_size r) - 1"
  using put_full [OF assms(1) ring_no_room [OF assms]] ring_no_room [OF assms] by auto

lemma burst_into_ring:
  assumes "rb_invar r"
  shows "\<exists>r'. burst_into buffer_uart_byte xs (Some r) = Some (Some r') \<and> rb_invar r' \<and> rb_size r' = rb_size r \<and>
    rb_contents r' = take (unat (rb_size r) - 1) (rb_contents r @ xs)"
  using assms
proof (induction xs arbitrary: r)
  case Nil
  with rb_count_less [OF Nil.prems] show ?case by auto
next
  case (Cons x xs)
  show ?case
  proof (cases "rb_count r < unat (rb_size r) - 1")
    case True
    then obtain r1 where "rv_ringbuf_put (Some r) x = Some (RV_RINGBUF_OK, Some r1)" "rb_invar r1"
      "rb_size r1 = rb_size r" "rb_contents r1 = rb_contents r @ [x]"
      using put_room_left [OF Cons.prems True] by metis
    with Cons.IH [of r1] show ?thesis by (auto simp: buffer_uart_byte_def)
  next
    case False
    with Cons.IH [OF Cons.prems] put_no_room_left [OF Cons.prems False] show ?thesis
      by (auto simp: buffer_uart_byte_def)
  qed
qed

text \<open>The receive interrupt moves the bytes waiting in the device into the shell's ring, in order
  of arrival and behind the bytes already there: exactly the bytes for which there is room, and a byte
  that is lost is lost only because the ring is full.\<close>

theorem irq_buffers_bytes:
  assumes "rb_invar r" "IP d AND UART_IP_RXWM \<noteq> 0"
  shows "\<exists>d' r'. UART0_IRQHandler d (Some r) = Some (d', Some r') \<and> rb_invar r' \<and>
    rb_contents r' = take (unat (rb_size r) - 1) (rb_contents r @ rx_burst (ud_rx d))"
  using burst_into_ring [OF assms(1), of "rx_burst (ud_rx d)"] assms(2)
  by (auto simp: UART0_IRQHandler_def uart_get_status_def uart_drain_rx_fifo_def drain_loop_burst)

text \<open>A ring of three places, one taken, and three bytes waiting.\<close>

theorem irq_buffers_bytes_witness:
  "\<exists>d' r'. UART0_IRQHandler
      \<lparr>ud_rx = [(65, 0), (66, 1), (67, 2), (0x80000000, 3)], ud_tx = [], ud_sent = [], TXCTRL = 0, RXCTRL = 0,
       IE = 2, IP = 2, DIV = 0, ud_clock = (\<lambda>_. 0), ud_reads = 0\<rparr>
      (Some \<lparr>storage = Some [64, 0, 0, 0], rb_size = 4, head = 1, tail = 0\<rparr>) = Some (d', Some r') \<and>
    rb_invar r' \<and> rb_contents r' = [64, 65, 66]"
  using irq_buffers_bytes [of "\<lparr>storage = Some [64, 0, 0, 0], rb_size = 4, head = 1, tail = 0\<rparr>"
      "\<lparr>ud_rx = [(65, 0), (66, 1), (67, 2), (0x80000000, 3)], ud_tx = [], ud_sent = [], TXCTRL = 0, RXCTRL = 0,
       IE = 2, IP = 2, DIV = 0, ud_clock = (\<lambda>_. 0), ud_reads = 0\<rparr>"]
  by (simp add: rb_invar_def rb_contents_def rb_count_def rx_burst_def rx_is_empty_def)

end
