(* ===== verification/Artifact.thy ===== *)
theory Artifact
  imports Prelude
begin

text \<open>
  The artifact reader, \<open>Lib/runtime/artifact_reader.{h,cpp}\<close>.

  The FlatBuffers tables are records with the accessors of the generated binding
  (\<open>generated/compile_artifacts_generated.h\<close>): a scalar accessor returns its value, a pointer
  accessor an option, a vector the list of its elements (elements that are tables are pointers and
  so options).  The FlatBuffers library itself is not part of the repository: the verifier and the
  root accessor are the parameters \<open>verify\<close> and \<open>get_root\<close> of \<open>rvrt_artifact_read\<close>.

  Second half: what acceptance by \<open>rvrt_artifact_read\<close> guarantees (\<open>io_mapping_ok\<close>) and the laws of
  the accessors on accepted artifacts.
\<close>

section \<open>FlatBuffers tables\<close>

record fbs_xyz =
  fbs_xy :: i32
  fbs_x :: i32
  fbs_y :: i32

record fbs_InputEntry =
  ie_elem_idx :: u32
  ie_core_offset :: "fbs_xyz option"
  ie_copy_count :: "fbs_xyz option"
  ie_tick_relative :: u32
  ie_addr_axon :: u32
  ie_target_lcn :: u32
  ie_copy_id :: u32
  ie_dtype :: u8

record fbs_OutputEntry =
  oe_elem_idx :: u32
  oe_copy_id :: u32
  oe_axon_bit_idx :: u32
  oe_dtype :: u8

record fbs_Shape =
  sh_size :: "i32 list option"

record fbs_InputTensorMapping =
  im_shape :: "fbs_Shape option"
  im_bit_width :: u32
  im_entries :: "fbs_InputEntry option list option"

record fbs_OutputTensorMapping =
  om_shape :: "fbs_Shape option"
  om_kind :: u8
  om_bit_width :: u32
  om_entries :: "fbs_OutputEntry option list option"

record fbs_InputTensorMappings =
  ims_items :: "fbs_InputTensorMapping option list option"

record fbs_OutputTensorMappings =
  oms_target_lcn :: u32
  oms_items :: "fbs_OutputTensorMapping option list option"

record fbs_RuntimeParams =
  rp_timesteps :: u32
  rp_tick_depth :: u32
  rp_sync_steps :: u32
  rp_decode_mode :: u8

record fbs_ThreadIOMapping =
  th_root_core_offset :: "fbs_xyz option"
  th_runtime :: "fbs_RuntimeParams option"
  th_input_mappings :: "fbs_InputTensorMappings option"
  th_output_mappings :: "fbs_OutputTensorMappings option"

record fbs_IOMapping =
  io_threads :: "fbs_ThreadIOMapping option list option"

record fbs_ConfigFrames =
  cf_words :: "u32 list option"
  cf_word_order :: u8

record fbs_CompileArtifacts =
  ca_schema_version :: u32
  ca_io_mapping :: "fbs_IOMapping option"
  ca_config_frames :: "fbs_ConfigFrames option"

text \<open>\<open>flatbuffers::Vector::size()\<close> is a 32-bit count.\<close>

abbreviation vsize :: "'a list \<Rightarrow> u32" where
  "vsize xs \<equiv> of_nat (length xs)"


section \<open>The C interface\<close>

datatype artifact_status =
    RVRT_ARTIFACT_OK
  | RVRT_ARTIFACT_NULL_ARGUMENT
  | RVRT_ARTIFACT_VERIFY_FAILED
  | RVRT_ARTIFACT_MISSING_FIELD
  | RVRT_ARTIFACT_OUT_OF_RANGE
  | RVRT_ARTIFACT_BAD_ALIGNMENT
  | RVRT_ARTIFACT_BAD_VALUE

record rvrt_artifact =
  art_root :: "fbs_CompileArtifacts option"
  art_io_mapping :: "fbs_IOMapping option"
  art_config_frames :: "fbs_ConfigFrames option"

record rvrt_artifact_info =
  inf_schema_version :: u32
  inf_config_word_count :: u32
  inf_config_word_order :: u32
  inf_thread_count :: u32

record rvrt_artifact_core_offset =
  off_xy :: i32
  off_x :: i32
  off_y :: i32

record rvrt_artifact_copy_count =
  cpy_xy :: i32
  cpy_x :: i32
  cpy_y :: i32

record rvrt_artifact_runtime =
  rt_timesteps :: u32
  rt_pipeline_latency :: u32
  rt_completion_sync_timestep :: u32
  rt_output_time_encoding :: u32

record rvrt_artifact_input_entry =
  in_elem_idx :: u32
  in_core_offset :: rvrt_artifact_core_offset
  in_copy_count :: rvrt_artifact_copy_count
  in_tick_relative :: u32
  in_addr_axon :: u32
  in_target_lcn :: u32
  in_copy_id :: u32
  in_dtype :: u32

record rvrt_artifact_output_entry =
  out_elem_idx :: u32
  out_copy_id :: u32
  out_axon_bit_idx :: u32

record rvrt_artifact_input_mapping_view =
  iv_entries :: "fbs_InputEntry option list option"
  iv_entry_count :: u32
  iv_element_count :: u32
  iv_bit_width :: u32

record rvrt_artifact_output_mapping_view =
  ov_entries :: "fbs_OutputEntry option list option"
  ov_entry_count :: u32
  ov_element_count :: u32
  ov_dtype :: u32
  ov_kind :: u32
  ov_target_lcn :: u32

abbreviation RVRT_OUTPUT_DATA :: u32 where "RVRT_OUTPUT_DATA \<equiv> 0"
abbreviation RVRT_OUTPUT_VOLTAGE :: u32 where "RVRT_OUTPUT_VOLTAGE \<equiv> 1"
abbreviation RVRT_OUTPUT_TIME_ENCODING_STREAM :: u32 where "RVRT_OUTPUT_TIME_ENCODING_STREAM \<equiv> 0"
abbreviation RVRT_OUTPUT_TIME_ENCODING_STEP :: u32 where "RVRT_OUTPUT_TIME_ENCODING_STEP \<equiv> 1"
abbreviation RVRT_DTYPE_VOLTAGE_INT32 :: u32 where "RVRT_DTYPE_VOLTAGE_INT32 \<equiv> 9"
abbreviation kSupportedSchemaVersion :: u32 where "kSupportedSchemaVersion \<equiv> 1"
abbreviation kTargetLcnMax :: u32 where "kTargetLcnMax \<equiv> 7"

text \<open>The zero-initialised values \<open>{0}\<close> and \<open>{}\<close> of the structs.\<close>

definition zero_artifact :: rvrt_artifact where
  "zero_artifact = \<lparr>art_root = None, art_io_mapping = None, art_config_frames = None\<rparr>"

definition zero_core_offset :: rvrt_artifact_core_offset where
  "zero_core_offset = \<lparr>off_xy = 0, off_x = 0, off_y = 0\<rparr>"

definition zero_copy_count :: rvrt_artifact_copy_count where
  "zero_copy_count = \<lparr>cpy_xy = 0, cpy_x = 0, cpy_y = 0\<rparr>"

definition zero_runtime :: rvrt_artifact_runtime where
  "zero_runtime = \<lparr>rt_timesteps = 0, rt_pipeline_latency = 0, rt_completion_sync_timestep = 0,
                   rt_output_time_encoding = 0\<rparr>"

definition zero_input_entry :: rvrt_artifact_input_entry where
  "zero_input_entry = \<lparr>in_elem_idx = 0, in_core_offset = zero_core_offset,
     in_copy_count = zero_copy_count, in_tick_relative = 0, in_addr_axon = 0, in_target_lcn = 0,
     in_copy_id = 0, in_dtype = 0\<rparr>"

definition zero_output_entry :: rvrt_artifact_output_entry where
  "zero_output_entry = \<lparr>out_elem_idx = 0, out_copy_id = 0, out_axon_bit_idx = 0\<rparr>"

definition zero_input_view :: rvrt_artifact_input_mapping_view where
  "zero_input_view = \<lparr>iv_entries = None, iv_entry_count = 0, iv_element_count = 0, iv_bit_width = 0\<rparr>"

definition zero_output_view :: rvrt_artifact_output_mapping_view where
  "zero_output_view = \<lparr>ov_entries = None, ov_entry_count = 0, ov_element_count = 0, ov_dtype = 0,
                       ov_kind = 0, ov_target_lcn = 0\<rparr>"


abbreviation DataType_UINT1 :: u8 where "DataType_UINT1 \<equiv> 1"
abbreviation DataType_INT1 :: u8 where "DataType_INT1 \<equiv> 2"
abbreviation DataType_UINT2 :: u8 where "DataType_UINT2 \<equiv> 3"
abbreviation DataType_INT2 :: u8 where "DataType_INT2 \<equiv> 4"
abbreviation DataType_UINT4 :: u8 where "DataType_UINT4 \<equiv> 5"
abbreviation DataType_INT4 :: u8 where "DataType_INT4 \<equiv> 6"
abbreviation DataType_UINT8 :: u8 where "DataType_UINT8 \<equiv> 7"
abbreviation DataType_INT8 :: u8 where "DataType_INT8 \<equiv> 8"
abbreviation OutputKind_DATA :: u8 where "OutputKind_DATA \<equiv> 0"
abbreviation OutputKind_VOLTAGE :: u8 where "OutputKind_VOLTAGE \<equiv> 1"
abbreviation WordOrder_HIGH_FIRST :: u8 where "WordOrder_HIGH_FIRST \<equiv> 0"
abbreviation WordOrder_LOW_FIRST :: u8 where "WordOrder_LOW_FIRST \<equiv> 1"


section \<open>Locating tables\<close>

text \<open>
  The static helpers take the address of a local as their out pointer, so that pointer is never
  \<open>NULL\<close> and the result is a sum: the error status, or the value stored through it.
\<close>

definition root_from_artifact :: "rvrt_artifact option \<Rightarrow> fbs_CompileArtifacts option" where
  "root_from_artifact artifact = (case artifact of None \<Rightarrow> None | Some a \<Rightarrow> art_root a)"

definition config_frames :: "rvrt_artifact option \<Rightarrow> artifact_status + fbs_ConfigFrames" where
  "config_frames artifact =
     (case artifact of
        None \<Rightarrow> Inl RVRT_ARTIFACT_NULL_ARGUMENT
      | Some a \<Rightarrow>
          (case art_config_frames a of
             None \<Rightarrow> Inl RVRT_ARTIFACT_MISSING_FIELD
           | Some config \<Rightarrow> Inr config))"

definition config_words :: "rvrt_artifact option \<Rightarrow> artifact_status + u32 list" where
  "config_words artifact =
     (case config_frames artifact of
        Inl status \<Rightarrow> Inl status
      | Inr config \<Rightarrow>
          (case cf_words config of
             None \<Rightarrow> Inl RVRT_ARTIFACT_MISSING_FIELD
           | Some words \<Rightarrow> Inr words))"

text \<open>\<open>index >= v->size()\<close>, then \<open>v->Get(index)\<close>, then the check of the element for \<open>NULL\<close>.\<close>

definition vector_at :: "'a option list \<Rightarrow> u32 \<Rightarrow> artifact_status + 'a" where
  "vector_at v i =
     (if i \<ge> vsize v then Inl RVRT_ARTIFACT_OUT_OF_RANGE
      else (case v ! unat i of
              None \<Rightarrow> Inl RVRT_ARTIFACT_MISSING_FIELD
            | Some selected \<Rightarrow> Inr selected))"

definition thread_at :: "rvrt_artifact option \<Rightarrow> u32 \<Rightarrow> artifact_status + fbs_ThreadIOMapping" where
  "thread_at artifact thread_index =
     (case artifact of
        None \<Rightarrow> Inl RVRT_ARTIFACT_NULL_ARGUMENT
      | Some a \<Rightarrow>
          (case art_io_mapping a of
             None \<Rightarrow> Inl RVRT_ARTIFACT_MISSING_FIELD
           | Some io_mapping \<Rightarrow>
               (case io_threads io_mapping of
                  None \<Rightarrow> Inl RVRT_ARTIFACT_MISSING_FIELD
                | Some threads \<Rightarrow> vector_at threads thread_index)))"

definition input_at ::
    "rvrt_artifact option \<Rightarrow> u32 \<Rightarrow> u32 \<Rightarrow> artifact_status + fbs_InputTensorMapping" where
  "input_at artifact thread_index input_index =
     (case thread_at artifact thread_index of
        Inl status \<Rightarrow> Inl status
      | Inr thread \<Rightarrow>
          (case th_input_mappings thread of
             None \<Rightarrow> Inl RVRT_ARTIFACT_MISSING_FIELD
           | Some mappings \<Rightarrow>
               (case ims_items mappings of
                  None \<Rightarrow> Inl RVRT_ARTIFACT_MISSING_FIELD
                | Some items \<Rightarrow> vector_at items input_index)))"

definition output_at ::
    "rvrt_artifact option \<Rightarrow> u32 \<Rightarrow> u32 \<Rightarrow> artifact_status + fbs_OutputTensorMapping" where
  "output_at artifact thread_index output_index =
     (case thread_at artifact thread_index of
        Inl status \<Rightarrow> Inl status
      | Inr thread \<Rightarrow>
          (case th_output_mappings thread of
             None \<Rightarrow> Inl RVRT_ARTIFACT_MISSING_FIELD
           | Some mappings \<Rightarrow>
               (case oms_items mappings of
                  None \<Rightarrow> Inl RVRT_ARTIFACT_MISSING_FIELD
                | Some items \<Rightarrow> vector_at items output_index)))"

definition fill_core_offset ::
    "fbs_xyz option \<Rightarrow> rvrt_artifact_core_offset option
       \<Rightarrow> artifact_status \<times> rvrt_artifact_core_offset option" where
  "fill_core_offset source core_offset =
     (case core_offset of
        None \<Rightarrow> (RVRT_ARTIFACT_NULL_ARGUMENT, None)
      | Some c \<Rightarrow>
          (case source of
             None \<Rightarrow> (RVRT_ARTIFACT_MISSING_FIELD, Some c)
           | Some s \<Rightarrow> (RVRT_ARTIFACT_OK, Some \<lparr>off_xy = fbs_xy s, off_x = fbs_x s, off_y = fbs_y s\<rparr>)))"

definition fill_copy_count ::
    "fbs_xyz option \<Rightarrow> rvrt_artifact_copy_count option
       \<Rightarrow> artifact_status \<times> rvrt_artifact_copy_count option" where
  "fill_copy_count source copy_count =
     (case copy_count of
        None \<Rightarrow> (RVRT_ARTIFACT_NULL_ARGUMENT, None)
      | Some c \<Rightarrow>
          (case source of
             None \<Rightarrow> (RVRT_ARTIFACT_MISSING_FIELD, Some c)
           | Some s \<Rightarrow> (RVRT_ARTIFACT_OK, Some \<lparr>cpy_xy = fbs_xy s, cpy_x = fbs_x s, cpy_y = fbs_y s\<rparr>)))"


section \<open>Validation\<close>

text \<open>The loop of \<open>copy_shape\<close>: \<open>product > UINT32_MAX / (uint32_t)dim\<close> guards the multiplication.\<close>

fun copy_shape_loop :: "i32 list \<Rightarrow> u32 \<Rightarrow> artifact_status + u32" where
  "copy_shape_loop [] product = Inr product"
| "copy_shape_loop (dim # dims) product =
     (if sint dim \<le> 0 \<or> product > UINT32_MAX div dim then Inl RVRT_ARTIFACT_OUT_OF_RANGE
      else copy_shape_loop dims (product * dim))"

definition copy_shape :: "fbs_Shape option \<Rightarrow> artifact_status + u32" where
  "copy_shape shape =
     (case shape of
        None \<Rightarrow> Inl RVRT_ARTIFACT_MISSING_FIELD
      | Some sh \<Rightarrow>
          (case sh_size sh of
             None \<Rightarrow> Inl RVRT_ARTIFACT_MISSING_FIELD
           | Some source \<Rightarrow> copy_shape_loop source 1))"

definition mapping_dtype_bits :: "u8 \<Rightarrow> artifact_status + u32" where
  "mapping_dtype_bits dtype =
     (if dtype = DataType_UINT1 \<or> dtype = DataType_INT1 then Inr 1
      else if dtype = DataType_UINT2 \<or> dtype = DataType_INT2 then Inr 2
      else if dtype = DataType_UINT4 \<or> dtype = DataType_INT4 then Inr 4
      else if dtype = DataType_UINT8 \<or> dtype = DataType_INT8 then Inr 8
      else Inl RVRT_ARTIFACT_OUT_OF_RANGE)"

text \<open>\<open>status != OK || bits != bit_width\<close> after \<open>mapping_dtype_bits\<close>; inputs also test \<open>bits > 8\<close>.\<close>

definition validate_input_entry :: "u32 \<Rightarrow> u32 \<Rightarrow> fbs_InputEntry option \<Rightarrow> artifact_status" where
  "validate_input_entry numel bit_width entry =
     (case entry of
        None \<Rightarrow> RVRT_ARTIFACT_MISSING_FIELD
      | Some e \<Rightarrow>
          if ie_core_offset e = None \<or> ie_copy_count e = None then RVRT_ARTIFACT_MISSING_FIELD
          else if ie_elem_idx e \<ge> numel \<or> ie_target_lcn e > kTargetLcnMax
          then RVRT_ARTIFACT_OUT_OF_RANGE
          else (case mapping_dtype_bits (ie_dtype e) of
                  Inl _ \<Rightarrow> RVRT_ARTIFACT_BAD_VALUE
                | Inr bits \<Rightarrow>
                    if bits > 8 \<or> bits \<noteq> bit_width then RVRT_ARTIFACT_BAD_VALUE
                    else RVRT_ARTIFACT_OK))"

text \<open>A loop whose body returns the first status that is not \<open>RVRT_ARTIFACT_OK\<close>.\<close>

fun first_error :: "('a \<Rightarrow> artifact_status) \<Rightarrow> 'a list \<Rightarrow> artifact_status" where
  "first_error f [] = RVRT_ARTIFACT_OK"
| "first_error f (a # as) =
     (if f a \<noteq> RVRT_ARTIFACT_OK then f a else first_error f as)"

definition validate_input_mapping :: "fbs_InputTensorMapping option \<Rightarrow> artifact_status" where
  "validate_input_mapping mapping =
     (case mapping of
        None \<Rightarrow> RVRT_ARTIFACT_MISSING_FIELD
      | Some m \<Rightarrow>
          (case (im_shape m, im_entries m) of
             (Some shape, Some entries) \<Rightarrow>
               (case copy_shape (Some shape) of
                  Inl status \<Rightarrow> status
                | Inr numel \<Rightarrow> first_error (validate_input_entry numel (im_bit_width m)) entries)
           | _ \<Rightarrow> RVRT_ARTIFACT_MISSING_FIELD))"

text \<open>The key loop of \<open>validate_output_mapping\<close> with its locals \<open>first\<close> and \<open>previous_key\<close>.\<close>

fun validate_output_keys ::
    "u32 \<Rightarrow> bool \<Rightarrow> u32 \<Rightarrow> fbs_OutputEntry option list \<Rightarrow> artifact_status" where
  "validate_output_keys numel first previous_key [] = RVRT_ARTIFACT_OK"
| "validate_output_keys numel first previous_key (entry # entries) =
     (case entry of
        None \<Rightarrow> RVRT_ARTIFACT_MISSING_FIELD
      | Some e \<Rightarrow>
          if oe_elem_idx e \<ge> numel then RVRT_ARTIFACT_OUT_OF_RANGE
          else if \<not> first \<and> oe_axon_bit_idx e \<le> previous_key then RVRT_ARTIFACT_BAD_VALUE
          else validate_output_keys numel False (oe_axon_bit_idx e) entries)"

text \<open>
  The second loop runs only when the first has accepted the vector, so its entries are present;
  \<open>None\<close> would be a dereferenced \<open>NULL\<close>, which no caller reaches.
\<close>

definition validate_output_dtype :: "u32 \<Rightarrow> fbs_OutputEntry option \<Rightarrow> artifact_status" where
  "validate_output_dtype bit_width entry =
     (case entry of
        None \<Rightarrow> RVRT_ARTIFACT_MISSING_FIELD
      | Some e \<Rightarrow>
          (case mapping_dtype_bits (oe_dtype e) of
             Inl _ \<Rightarrow> RVRT_ARTIFACT_BAD_VALUE
           | Inr bits \<Rightarrow> if bits \<noteq> bit_width then RVRT_ARTIFACT_BAD_VALUE else RVRT_ARTIFACT_OK))"

definition validate_output_mapping :: "fbs_OutputTensorMapping option \<Rightarrow> artifact_status" where
  "validate_output_mapping mapping =
     (case mapping of
        None \<Rightarrow> RVRT_ARTIFACT_MISSING_FIELD
      | Some m \<Rightarrow>
          (case (om_shape m, om_entries m) of
             (Some shape, Some entries) \<Rightarrow>
               (case copy_shape (Some shape) of
                  Inl status \<Rightarrow> status
                | Inr numel \<Rightarrow>
                    let status = validate_output_keys numel True 0 entries in
                    if status \<noteq> RVRT_ARTIFACT_OK then status
                    else if om_kind m = OutputKind_DATA then
                      (if om_bit_width m > 8 then RVRT_ARTIFACT_BAD_VALUE
                       else first_error (validate_output_dtype (om_bit_width m)) entries)
                    else if om_kind m \<noteq> OutputKind_VOLTAGE \<or> om_bit_width m \<noteq> 32
                    then RVRT_ARTIFACT_BAD_VALUE
                    else RVRT_ARTIFACT_OK)
           | _ \<Rightarrow> RVRT_ARTIFACT_MISSING_FIELD))"

definition validate_thread :: "fbs_ThreadIOMapping option \<Rightarrow> artifact_status" where
  "validate_thread thread =
     (case thread of
        None \<Rightarrow> RVRT_ARTIFACT_MISSING_FIELD
      | Some t \<Rightarrow>
          (case (th_input_mappings t, th_output_mappings t) of
             (Some ins, Some outs) \<Rightarrow>
               (case (ims_items ins, oms_items outs) of
                  (Some in_items, Some out_items) \<Rightarrow>
                    if oms_target_lcn outs > kTargetLcnMax then RVRT_ARTIFACT_OUT_OF_RANGE
                    else let status = first_error validate_input_mapping in_items in
                         if status \<noteq> RVRT_ARTIFACT_OK then status
                         else first_error validate_output_mapping out_items
                | _ \<Rightarrow> RVRT_ARTIFACT_MISSING_FIELD)
           | _ \<Rightarrow> RVRT_ARTIFACT_MISSING_FIELD))"

definition validate_io_mapping :: "fbs_IOMapping option \<Rightarrow> artifact_status" where
  "validate_io_mapping io_mapping =
     (case io_mapping of
        None \<Rightarrow> RVRT_ARTIFACT_MISSING_FIELD
      | Some io \<Rightarrow>
          (case io_threads io of
             None \<Rightarrow> RVRT_ARTIFACT_MISSING_FIELD
           | Some threads \<Rightarrow> first_error validate_thread threads))"

definition is_aligned :: "u32 \<Rightarrow> bool" where
  "is_aligned address \<longleftrightarrow> address AND (8 - 1) = 0"


section \<open>Reading an artifact\<close>

text \<open>
  \<open>data\<close> is the address of the buffer and its bytes; \<open>verify\<close> is \<open>VerifyCompileArtifactsBuffer\<close> on
  the first \<open>data_size\<close> bytes and \<open>get_root\<close> is \<open>GetCompileArtifacts\<close>.
\<close>

definition rvrt_artifact_read ::
    "(u8 list \<Rightarrow> u32 \<Rightarrow> bool) \<Rightarrow> (u8 list \<Rightarrow> fbs_CompileArtifacts) \<Rightarrow> (u32 \<times> u8 list) option \<Rightarrow> u32
       \<Rightarrow> rvrt_artifact option \<Rightarrow> artifact_status \<times> rvrt_artifact option" where
  "rvrt_artifact_read verify get_root data data_size artifact =
     (case (data, artifact) of
        (Some (address, bytes), Some _) \<Rightarrow>
          if data_size = 0 then (RVRT_ARTIFACT_BAD_VALUE, artifact)
          else
            let cleared = Some zero_artifact in
            if \<not> is_aligned address then (RVRT_ARTIFACT_BAD_ALIGNMENT, cleared)
            else if \<not> verify bytes data_size then (RVRT_ARTIFACT_VERIFY_FAILED, cleared)
            else
              let root = get_root bytes in
              if ca_schema_version root \<noteq> kSupportedSchemaVersion
              then (RVRT_ARTIFACT_BAD_VALUE, cleared)
              else
                (case (ca_io_mapping root, ca_config_frames root) of
                   (Some io_mapping, Some config) \<Rightarrow>
                     if io_threads io_mapping = None \<or> cf_words config = None
                     then (RVRT_ARTIFACT_MISSING_FIELD, cleared)
                     else
                       let mapping_status = validate_io_mapping (Some io_mapping) in
                       if mapping_status \<noteq> RVRT_ARTIFACT_OK then (mapping_status, cleared)
                       else (RVRT_ARTIFACT_OK,
                             Some \<lparr>art_root = Some root, art_io_mapping = Some io_mapping,
                                   art_config_frames = Some config\<rparr>)
                 | _ \<Rightarrow> (RVRT_ARTIFACT_MISSING_FIELD, cleared))
      | _ \<Rightarrow> (RVRT_ARTIFACT_NULL_ARGUMENT, artifact))"


section \<open>Accessors\<close>

definition rvrt_artifact_config_word_count ::
    "rvrt_artifact option \<Rightarrow> u32 option \<Rightarrow> artifact_status \<times> u32 option" where
  "rvrt_artifact_config_word_count artifact count =
     (case count of
        None \<Rightarrow> (RVRT_ARTIFACT_NULL_ARGUMENT, None)
      | Some _ \<Rightarrow>
          (case config_words artifact of
             Inl status \<Rightarrow> (status, count)
           | Inr words \<Rightarrow> (RVRT_ARTIFACT_OK, Some (vsize words))))"

definition rvrt_artifact_thread_count ::
    "rvrt_artifact option \<Rightarrow> u32 option \<Rightarrow> artifact_status \<times> u32 option" where
  "rvrt_artifact_thread_count artifact count =
     (case (count, artifact) of
        (Some _, Some a) \<Rightarrow>
          (case art_io_mapping a of
             None \<Rightarrow> (RVRT_ARTIFACT_MISSING_FIELD, count)
           | Some io_mapping \<Rightarrow>
               (case io_threads io_mapping of
                  None \<Rightarrow> (RVRT_ARTIFACT_MISSING_FIELD, count)
                | Some threads \<Rightarrow> (RVRT_ARTIFACT_OK, Some (vsize threads))))
      | _ \<Rightarrow> (RVRT_ARTIFACT_NULL_ARGUMENT, count))"

text \<open>The callees get the address of a field, so the field's new value is always present.\<close>

definition rvrt_artifact_get_info ::
    "rvrt_artifact option \<Rightarrow> rvrt_artifact_info option
       \<Rightarrow> artifact_status \<times> rvrt_artifact_info option" where
  "rvrt_artifact_get_info artifact info =
     (case info of
        None \<Rightarrow> (RVRT_ARTIFACT_NULL_ARGUMENT, None)
      | Some i \<Rightarrow>
          (case root_from_artifact artifact of
             None \<Rightarrow> (RVRT_ARTIFACT_NULL_ARGUMENT, Some i)
           | Some root \<Rightarrow>
               let i = i\<lparr>inf_schema_version := ca_schema_version root\<rparr>;
                   (status, words) =
                     rvrt_artifact_config_word_count artifact (Some (inf_config_word_count i));
                   i = i\<lparr>inf_config_word_count := the words\<rparr>
               in if status \<noteq> RVRT_ARTIFACT_OK then (status, Some i)
                  else
                    (case config_frames artifact of
                       Inl status \<Rightarrow> (status, Some i)
                     | Inr config \<Rightarrow>
                         let i = i\<lparr>inf_config_word_order := scast (cf_word_order config)\<rparr>;
                             (status, threads) =
                               rvrt_artifact_thread_count artifact (Some (inf_thread_count i))
                         in (status, Some (i\<lparr>inf_thread_count := the threads\<rparr>)))))"

definition rvrt_artifact_config_frame_words ::
    "rvrt_artifact option \<Rightarrow> u32 \<Rightarrow> u32 option \<Rightarrow> u32 option
       \<Rightarrow> (artifact_status \<times> u32 option \<times> u32 option) option" where
  "rvrt_artifact_config_frame_words artifact frame_index high low =
     (case (high, low) of
        (Some _, Some _) \<Rightarrow>
          (case config_frames artifact of
             Inl status \<Rightarrow> Some (status, high, low)
           | Inr config \<Rightarrow>
               (case cf_words config of
                  None \<Rightarrow> Some (RVRT_ARTIFACT_MISSING_FIELD, high, low)
                | Some words \<Rightarrow>
                    if frame_index \<ge> vsize words div 2
                    then Some (RVRT_ARTIFACT_OUT_OF_RANGE, high, low)
                    else do {
                      let word_index = frame_index * 2;
                      word0 \<leftarrow> rd words word_index;
                      word1 \<leftarrow> rd words (word_index + 1);
                      Some (if cf_word_order config = WordOrder_HIGH_FIRST
                            then (RVRT_ARTIFACT_OK, Some word0, Some word1)
                            else if cf_word_order config = WordOrder_LOW_FIRST
                            then (RVRT_ARTIFACT_OK, Some word1, Some word0)
                            else (RVRT_ARTIFACT_BAD_VALUE, high, low))
                    }))
      | _ \<Rightarrow> Some (RVRT_ARTIFACT_NULL_ARGUMENT, high, low))"

definition rvrt_artifact_thread_root_core_offset ::
    "rvrt_artifact option \<Rightarrow> u32 \<Rightarrow> rvrt_artifact_core_offset option
       \<Rightarrow> artifact_status \<times> rvrt_artifact_core_offset option" where
  "rvrt_artifact_thread_root_core_offset artifact thread_index root_core_offset =
     (case thread_at artifact thread_index of
        Inl status \<Rightarrow> (status, root_core_offset)
      | Inr thread \<Rightarrow> fill_core_offset (th_root_core_offset thread) root_core_offset)"

definition rvrt_artifact_thread_runtime ::
    "rvrt_artifact option \<Rightarrow> u32 \<Rightarrow> rvrt_artifact_runtime option
       \<Rightarrow> artifact_status \<times> rvrt_artifact_runtime option" where
  "rvrt_artifact_thread_runtime artifact thread_index runtime =
     (case runtime of
        None \<Rightarrow> (RVRT_ARTIFACT_NULL_ARGUMENT, None)
      | Some _ \<Rightarrow>
          (case thread_at artifact thread_index of
             Inl status \<Rightarrow> (status, runtime)
           | Inr thread \<Rightarrow>
               (case th_runtime thread of
                  None \<Rightarrow> (RVRT_ARTIFACT_MISSING_FIELD, runtime)
                | Some source \<Rightarrow>
                    (RVRT_ARTIFACT_OK,
                     Some \<lparr>rt_timesteps = rp_timesteps source,
                           rt_pipeline_latency = rp_tick_depth source,
                           rt_completion_sync_timestep = rp_sync_steps source,
                           rt_output_time_encoding = scast (rp_decode_mode source)\<rparr>))))"

definition rvrt_artifact_get_input_mapping_view ::
    "rvrt_artifact option \<Rightarrow> u32 \<Rightarrow> u32 \<Rightarrow> rvrt_artifact_input_mapping_view option
       \<Rightarrow> artifact_status \<times> rvrt_artifact_input_mapping_view option" where
  "rvrt_artifact_get_input_mapping_view artifact thread_index input_index view =
     (case view of
        None \<Rightarrow> (RVRT_ARTIFACT_NULL_ARGUMENT, None)
      | Some _ \<Rightarrow>
          let view = Some zero_input_view in
          (case input_at artifact thread_index input_index of
             Inl status \<Rightarrow> (status, view)
           | Inr input \<Rightarrow>
               (case im_entries input of
                  None \<Rightarrow> (RVRT_ARTIFACT_MISSING_FIELD, view)
                | Some entries \<Rightarrow>
                    (case copy_shape (im_shape input) of
                       Inl shape_status \<Rightarrow> (shape_status, view)
                     | Inr element_count \<Rightarrow>
                         (RVRT_ARTIFACT_OK,
                          Some \<lparr>iv_entries = Some entries, iv_entry_count = vsize entries,
                                iv_element_count = element_count,
                                iv_bit_width = im_bit_width input\<rparr>)))))"

text \<open>
  \<open>entries->Get(0)->dtype()\<close> dereferences the first entry; the value \<open>None\<close> of the function is that
  access to a \<open>NULL\<close> entry.
\<close>

definition rvrt_artifact_get_output_mapping_view ::
    "rvrt_artifact option \<Rightarrow> u32 \<Rightarrow> u32 \<Rightarrow> rvrt_artifact_output_mapping_view option
       \<Rightarrow> (artifact_status \<times> rvrt_artifact_output_mapping_view option) option" where
  "rvrt_artifact_get_output_mapping_view artifact thread_index output_index view =
     (case view of
        None \<Rightarrow> Some (RVRT_ARTIFACT_NULL_ARGUMENT, None)
      | Some _ \<Rightarrow>
          let view = Some zero_output_view in
          (case thread_at artifact thread_index of
             Inl status \<Rightarrow> Some (status, view)
           | Inr thread \<Rightarrow>
          (case output_at artifact thread_index output_index of
             Inl status \<Rightarrow> Some (status, view)
           | Inr output \<Rightarrow>
          (case (om_entries output, th_output_mappings thread) of
             (Some entries, Some mappings) \<Rightarrow>
               (case copy_shape (om_shape output) of
                  Inl status \<Rightarrow> Some (status, view)
                | Inr element_count \<Rightarrow> do {
                    let kind = scast (om_kind output);
                    dtype \<leftarrow> (if kind = RVRT_OUTPUT_VOLTAGE then Some RVRT_DTYPE_VOLTAGE_INT32
                              else if vsize entries = 0 then Some 0
                              else do {
                                entry \<leftarrow> entries ! 0;
                                Some (scast (oe_dtype entry))
                              });
                    Some (RVRT_ARTIFACT_OK,
                          Some \<lparr>ov_entries = Some entries, ov_entry_count = vsize entries,
                                ov_element_count = element_count, ov_dtype = dtype,
                                ov_kind = kind, ov_target_lcn = oms_target_lcn mappings\<rparr>)
                  })
           | _ \<Rightarrow> Some (RVRT_ARTIFACT_MISSING_FIELD, view)))))"

text \<open>
  \<open>entries->Get(entry_index)\<close> is guarded by the count of the view, not of the vector: the value
  \<open>None\<close> of the function is an access past the vector.
\<close>

definition rvrt_artifact_input_mapping_entry ::
    "rvrt_artifact_input_mapping_view option \<Rightarrow> u32 \<Rightarrow> rvrt_artifact_input_entry option
       \<Rightarrow> (artifact_status \<times> rvrt_artifact_input_entry option) option" where
  "rvrt_artifact_input_mapping_entry view entry_index entry =
     (case (view, entry) of
        (Some v, Some e) \<Rightarrow>
          (case iv_entries v of
             None \<Rightarrow> Some (RVRT_ARTIFACT_NULL_ARGUMENT, entry)
           | Some entries \<Rightarrow>
               if entry_index \<ge> iv_entry_count v then Some (RVRT_ARTIFACT_OUT_OF_RANGE, entry)
               else do {
                 source \<leftarrow> rd entries entry_index;
                 (case source of
                    None \<Rightarrow> Some (RVRT_ARTIFACT_MISSING_FIELD, entry)
                  | Some s \<Rightarrow>
                      let e = e\<lparr>in_elem_idx := ie_elem_idx s\<rparr>;
                          (status, off) = fill_core_offset (ie_core_offset s) (Some (in_core_offset e));
                          e = e\<lparr>in_core_offset := the off\<rparr>
                      in if status \<noteq> RVRT_ARTIFACT_OK then Some (status, Some e)
                      else
                      let (status, cpy) = fill_copy_count (ie_copy_count s) (Some (in_copy_count e));
                          e = e\<lparr>in_copy_count := the cpy\<rparr>
                      in if status \<noteq> RVRT_ARTIFACT_OK then Some (status, Some e)
                      else Some (RVRT_ARTIFACT_OK,
                                 Some (e\<lparr>in_tick_relative := ie_tick_relative s,
                                         in_addr_axon := ie_addr_axon s,
                                         in_target_lcn := ie_target_lcn s,
                                         in_copy_id := ie_copy_id s,
                                         in_dtype := scast (ie_dtype s)\<rparr>)))
               })
      | _ \<Rightarrow> Some (RVRT_ARTIFACT_NULL_ARGUMENT, entry))"

fun find_output_entry :: "fbs_OutputEntry option list \<Rightarrow> u32 \<Rightarrow> fbs_OutputEntry option" where
  "find_output_entry [] axon_bit_idx = None"
| "find_output_entry (candidate # entries) axon_bit_idx =
     (case candidate of
        None \<Rightarrow> find_output_entry entries axon_bit_idx
      | Some c \<Rightarrow> if oe_axon_bit_idx c = axon_bit_idx then Some c
                  else find_output_entry entries axon_bit_idx)"

definition rvrt_artifact_output_mapping_find ::
    "rvrt_artifact_output_mapping_view option \<Rightarrow> u32 \<Rightarrow> rvrt_artifact_output_entry option
       \<Rightarrow> bool option \<Rightarrow> artifact_status \<times> rvrt_artifact_output_entry option \<times> bool option" where
  "rvrt_artifact_output_mapping_find view axon_bit_idx entry found =
     (case (view, entry, found) of
        (Some v, Some _, Some _) \<Rightarrow>
          (case ov_entries v of
             None \<Rightarrow> (RVRT_ARTIFACT_NULL_ARGUMENT, entry, found)
           | Some entries \<Rightarrow>
               (case find_output_entry entries axon_bit_idx of
                  None \<Rightarrow> (RVRT_ARTIFACT_OK, entry, Some False)
                | Some c \<Rightarrow>
                    (RVRT_ARTIFACT_OK,
                     Some \<lparr>out_elem_idx = oe_elem_idx c, out_copy_id = oe_copy_id c,
                           out_axon_bit_idx = oe_axon_bit_idx c\<rparr>,
                     Some True)))
      | _ \<Rightarrow> (RVRT_ARTIFACT_NULL_ARGUMENT, entry, found))"

fun rvrt_artifact_status_string :: "artifact_status \<Rightarrow> string" where
  "rvrt_artifact_status_string RVRT_ARTIFACT_OK = ''ok''"
| "rvrt_artifact_status_string RVRT_ARTIFACT_NULL_ARGUMENT = ''null argument''"
| "rvrt_artifact_status_string RVRT_ARTIFACT_VERIFY_FAILED = ''verify failed''"
| "rvrt_artifact_status_string RVRT_ARTIFACT_MISSING_FIELD = ''missing field''"
| "rvrt_artifact_status_string RVRT_ARTIFACT_OUT_OF_RANGE = ''out of range''"
| "rvrt_artifact_status_string RVRT_ARTIFACT_BAD_ALIGNMENT = ''bad alignment''"
| "rvrt_artifact_status_string RVRT_ARTIFACT_BAD_VALUE = ''bad value''"

end
