(* ===== verification/FrameCodec.thy ===== *)
theory FrameCodec
  imports Artifact
begin

text \<open>
  The frame codec, \<open>Lib/runtime/frame_codec.{h,c}\<close> and \<open>frame_codec_internal.h\<close>: construction of
  control frames and input work frames, and decoding of DATA and VOLTAGE output frames.

  Static helpers that store through the address of a local return the stored value instead; the
  \<open>bool\<close>-valued ones return an option.  An \<open>int32_t\<close> output array is kept as its bytes (see
  \<open>Prelude\<close>), because the code passes the same buffer as \<open>uint8_t *\<close> and as \<open>int32_t *\<close>.  The
  logging macros, compiled out in the default build, have no counterpart.
\<close>

section \<open>Frames and status codes\<close>

datatype codec_status =
    RVRT_CODEC_STATUS_OK
  | RVRT_CODEC_STATUS_DONE
  | RVRT_CODEC_STATUS_BUFFER_FULL
  | RVRT_CODEC_STATUS_NULL_ARGUMENT
  | RVRT_CODEC_STATUS_ARTIFACT_ERROR
  | RVRT_CODEC_STATUS_OUT_OF_RANGE
  | RVRT_CODEC_STATUS_BAD_VALUE
  | RVRT_CODEC_STATUS_UNSUPPORTED

record rvrt_frame =
  fr_high :: u32
  fr_low :: u32

record rvrt_input_cursor =
  cu_entry_index :: u32
  cu_timestep :: u32

abbreviation RVRT_FRAME_TYPE_OFFSET :: nat where "RVRT_FRAME_TYPE_OFFSET \<equiv> 30"
abbreviation RVRT_FRAME_TYPE_WORK :: u32 where "RVRT_FRAME_TYPE_WORK \<equiv> 2"
abbreviation RVRT_FRAME_WORK_KIND_OFFSET :: nat where "RVRT_FRAME_WORK_KIND_OFFSET \<equiv> 29"
abbreviation RVRT_FRAME_WORK_KIND_DATA :: u32 where "RVRT_FRAME_WORK_KIND_DATA \<equiv> 0"
abbreviation RVRT_FRAME_WORK_KIND_VOLTAGE :: u32 where "RVRT_FRAME_WORK_KIND_VOLTAGE \<equiv> 1"
abbreviation RVRT_FRAME_KIND_OFFSET :: nat where "RVRT_FRAME_KIND_OFFSET \<equiv> 28"
abbreviation RVRT_FRAME_KIND_COMPLETE :: u32 where "RVRT_FRAME_KIND_COMPLETE \<equiv> 0xE"

definition rvrt_frame_is_complete :: "rvrt_frame option \<Rightarrow> bool" where
  "rvrt_frame_is_complete frame =
     (case frame of
        None \<Rightarrow> False
      | Some f \<Rightarrow> drop_bit RVRT_FRAME_KIND_OFFSET (fr_high f) AND 0xF = RVRT_FRAME_KIND_COMPLETE)"

definition rvrt_frame_is_work :: "rvrt_frame option \<Rightarrow> bool" where
  "rvrt_frame_is_work frame =
     (case frame of
        None \<Rightarrow> False
      | Some f \<Rightarrow> drop_bit RVRT_FRAME_TYPE_OFFSET (fr_high f) AND 0x3 = RVRT_FRAME_TYPE_WORK)"

definition rvrt_frame_is_work_type1 :: "rvrt_frame \<Rightarrow> bool" where
  "rvrt_frame_is_work_type1 frame \<longleftrightarrow>
     rvrt_frame_is_work (Some frame) \<and>
     drop_bit RVRT_FRAME_WORK_KIND_OFFSET (fr_high frame) AND 0x1 = RVRT_FRAME_WORK_KIND_DATA"

definition rvrt_frame_is_work_type2 :: "rvrt_frame \<Rightarrow> bool" where
  "rvrt_frame_is_work_type2 frame \<longleftrightarrow>
     rvrt_frame_is_work (Some frame) \<and>
     drop_bit RVRT_FRAME_WORK_KIND_OFFSET (fr_high frame) AND 0x1 = RVRT_FRAME_WORK_KIND_VOLTAGE"

text \<open>The field layout of a 64-bit frame.\<close>

abbreviation FC_HDR_OFF :: nat where "FC_HDR_OFF \<equiv> 60"
abbreviation FC_HDR_MASK :: u32 where "FC_HDR_MASK \<equiv> 0xF"
abbreviation FC_HDR_WORK :: u32 where "FC_HDR_WORK \<equiv> 8"
abbreviation FC_HDR_SYNC :: u32 where "FC_HDR_SYNC \<equiv> 12"
abbreviation FC_HDR_INIT :: u32 where "FC_HDR_INIT \<equiv> 13"
abbreviation FC_SIGN6_BIT :: u32 where "FC_SIGN6_BIT \<equiv> 0x20"
abbreviation FC_SIGN6_MASK :: u32 where "FC_SIGN6_MASK \<equiv> 0x3F"
abbreviation FC_DST_XY_OFF :: nat where "FC_DST_XY_OFF \<equiv> 54"
abbreviation FC_DST_X_OFF :: nat where "FC_DST_X_OFF \<equiv> 48"
abbreviation FC_DST_Y_OFF :: nat where "FC_DST_Y_OFF \<equiv> 42"
abbreviation FC_COPY_XY_OFF :: nat where "FC_COPY_XY_OFF \<equiv> 36"
abbreviation FC_COPY_X_OFF :: nat where "FC_COPY_X_OFF \<equiv> 30"
abbreviation FC_COPY_Y_OFF :: nat where "FC_COPY_Y_OFF \<equiv> 24"
abbreviation FC_CTRL_PAYLOAD_MASK :: u32 where "FC_CTRL_PAYLOAD_MASK \<equiv> 0xFFFFFF"
abbreviation FC_WF_TS_BITS :: nat where "FC_WF_TS_BITS \<equiv> 8"
abbreviation FC_WF_TS_MASK :: u32 where "FC_WF_TS_MASK \<equiv> 0xFF"
abbreviation FC_WF_TS_HI_OFF :: nat where "FC_WF_TS_HI_OFF \<equiv> 60"
abbreviation FC_WF_TS_HI_MASK :: u32 where "FC_WF_TS_HI_MASK \<equiv> 1"
abbreviation FC_WF_TS_LO_BITS :: nat where "FC_WF_TS_LO_BITS \<equiv> 7"
abbreviation RVRT_WF_TARGET_LCN_MAX :: u32 where "RVRT_WF_TARGET_LCN_MAX \<equiv> 7"
abbreviation RVRT_WF_TS_HI_WORD_OFFSET :: nat where "RVRT_WF_TS_HI_WORD_OFFSET \<equiv> 28"
abbreviation RVRT_WF_TS_LO_OFFSET :: nat where "RVRT_WF_TS_LO_OFFSET \<equiv> 17"
abbreviation RVRT_WF_TS_LO_MASK :: u32 where "RVRT_WF_TS_LO_MASK \<equiv> 0x7F"
abbreviation RVRT_WF_AX_BITS :: nat where "RVRT_WF_AX_BITS \<equiv> 9"
abbreviation RVRT_WF_AX_OFFSET :: nat where "RVRT_WF_AX_OFFSET \<equiv> 8"
abbreviation RVRT_WF_AX_MASK :: u32 where "RVRT_WF_AX_MASK \<equiv> 0x1FF"
abbreviation RVRT_WF_PAYLOAD_MASK :: u32 where "RVRT_WF_PAYLOAD_MASK \<equiv> 0xFF"
abbreviation RVRT_VOLT_LANE_BITS :: u32 where "RVRT_VOLT_LANE_BITS \<equiv> 8"
abbreviation RVRT_VOLT_LANE_COUNT :: u32 where "RVRT_VOLT_LANE_COUNT \<equiv> 4"
abbreviation RVRT_VOLT_COMPLETE_MASK :: u8 where "RVRT_VOLT_COMPLETE_MASK \<equiv> 0xF"


section \<open>Packing\<close>

fun codec_status_from_artifact :: "artifact_status \<Rightarrow> codec_status" where
  "codec_status_from_artifact RVRT_ARTIFACT_OK = RVRT_CODEC_STATUS_OK"
| "codec_status_from_artifact RVRT_ARTIFACT_NULL_ARGUMENT = RVRT_CODEC_STATUS_NULL_ARGUMENT"
| "codec_status_from_artifact RVRT_ARTIFACT_OUT_OF_RANGE = RVRT_CODEC_STATUS_OUT_OF_RANGE"
| "codec_status_from_artifact _ = RVRT_CODEC_STATUS_ARTIFACT_ERROR"

definition pack_field :: "u32 \<Rightarrow> nat \<Rightarrow> u32 \<Rightarrow> u64" where
  "pack_field val offset msk = push_bit offset (ucast (val AND msk))"

definition frame_from_u64 :: "u64 \<Rightarrow> rvrt_frame" where
  "frame_from_u64 val = \<lparr>fr_high = ucast (drop_bit 32 val), fr_low = ucast (val AND 0xFFFFFFFF)\<rparr>"

definition sign_magnitude6 :: "i32 \<Rightarrow> u32 option" where
  "sign_magnitude6 val =
     (if sint val < - 31 \<or> sint val > 31 then None
      else if sint val < 0 then Some (FC_SIGN6_BIT OR (- val))
      else Some val)"

definition pack_zxy :: "rvrt_artifact_core_offset \<Rightarrow> u64 option" where
  "pack_zxy offset = do {
     xy \<leftarrow> sign_magnitude6 (off_xy offset);
     x \<leftarrow> sign_magnitude6 (off_x offset);
     y \<leftarrow> sign_magnitude6 (off_y offset);
     Some (pack_field xy FC_DST_XY_OFF FC_SIGN6_MASK OR
           pack_field x FC_DST_X_OFF FC_SIGN6_MASK OR
           pack_field y FC_DST_Y_OFF FC_SIGN6_MASK)
   }"

definition pack_copy :: "rvrt_artifact_copy_count \<Rightarrow> u64 option" where
  "pack_copy copy = do {
     xy \<leftarrow> sign_magnitude6 (cpy_xy copy);
     x \<leftarrow> sign_magnitude6 (cpy_x copy);
     y \<leftarrow> sign_magnitude6 (cpy_y copy);
     Some (pack_field xy FC_COPY_XY_OFF FC_SIGN6_MASK OR
           pack_field x FC_COPY_X_OFF FC_SIGN6_MASK OR
           pack_field y FC_COPY_Y_OFF FC_SIGN6_MASK)
   }"

definition frame_dest ::
    "u32 \<Rightarrow> rvrt_artifact_core_offset \<Rightarrow> rvrt_artifact_copy_count \<Rightarrow> codec_status + u64" where
  "frame_dest header offset copy =
     (case (pack_zxy offset, pack_copy copy) of
        (Some packed_offset, Some packed_copy) \<Rightarrow>
          Inr (pack_field header FC_HDR_OFF FC_HDR_MASK OR packed_offset OR packed_copy)
      | _ \<Rightarrow> Inl RVRT_CODEC_STATUS_BAD_VALUE)"

definition build_control_frame ::
    "rvrt_artifact option \<Rightarrow> u32 \<Rightarrow> u32 \<Rightarrow> u32 \<Rightarrow> rvrt_frame option
       \<Rightarrow> codec_status \<times> rvrt_frame option" where
  "build_control_frame artifact thread_index header payload frame =
     (case (artifact, frame) of
        (Some _, Some _) \<Rightarrow>
          if payload > FC_CTRL_PAYLOAD_MASK then (RVRT_CODEC_STATUS_BAD_VALUE, frame)
          else
            let (artifact_status, root) =
                  rvrt_artifact_thread_root_core_offset artifact thread_index (Some zero_core_offset);
                status = codec_status_from_artifact artifact_status
            in if status \<noteq> RVRT_CODEC_STATUS_OK then (status, frame)
               else (case frame_dest header (the root) zero_copy_count of
                       Inl status \<Rightarrow> (status, frame)
                     | Inr dest \<Rightarrow>
                         (RVRT_CODEC_STATUS_OK, Some (frame_from_u64 (dest OR ucast payload))))
      | _ \<Rightarrow> (RVRT_CODEC_STATUS_NULL_ARGUMENT, frame))"

text \<open>\<open>k_dtype_info\<close>: the element without an initialiser is zero.\<close>

definition k_dtype_info :: "(u8 \<times> bool) list" where
  "k_dtype_info = [(0, False), (1, False), (1, True), (2, False), (2, True), (4, False), (4, True),
                   (8, False), (8, True)]"

definition dtype_bits :: "u32 \<Rightarrow> (u32 \<times> bool) option" where
  "dtype_bits dtype =
     (if unat dtype \<ge> length k_dtype_info then None
      else let (bits, is_signed) = k_dtype_info ! unat dtype
           in if bits = 0 then None else Some (ucast bits, is_signed))"

definition bit_mask :: "u32 \<Rightarrow> u32" where
  "bit_mask bits = push_bit (unat bits) 1 - 1"

definition encode_payload :: "u8 \<Rightarrow> u32 \<Rightarrow> bool \<Rightarrow> u8 option" where
  "encode_payload raw_value bits is_signed =
     (let msk = bit_mask bits in
      if \<not> is_signed then
        (if (ucast raw_value :: u32) AND NOT msk \<noteq> 0 then None else Some raw_value)
      else
        let val = (if raw_value AND 0x80 \<noteq> 0 then uint raw_value - 0x100 else uint raw_value);
            extent = uint (push_bit (unat (bits - 1)) (1 :: u32))
        in if val < - extent \<or> val \<ge> extent then None
           else Some (ucast ((word_of_int val :: u32) AND msk)))"

definition decode_payload :: "u32 \<Rightarrow> u32 \<Rightarrow> bool \<Rightarrow> u8" where
  "decode_payload payload bits is_signed =
     (let msk = bit_mask bits;
          val = payload AND msk;
          val = (if is_signed \<and> val AND push_bit (unat (bits - 1)) 1 \<noteq> 0 then val OR NOT msk else val)
      in ucast val)"


section \<open>Work-frame addresses\<close>

text \<open>The out pointers are addresses of locals in every caller; the view and the frame are not \<open>NULL\<close>.\<close>

definition rvrt_output_frame_address ::
    "rvrt_artifact_output_mapping_view \<Rightarrow> rvrt_frame \<Rightarrow> codec_status + u32 \<times> u32" where
  "rvrt_output_frame_address view frame =
     (if ov_target_lcn view > RVRT_WF_TARGET_LCN_MAX then Inl RVRT_CODEC_STATUS_UNSUPPORTED
      else
        let encoded_timestep =
              push_bit 7 (drop_bit RVRT_WF_TS_HI_WORD_OFFSET (fr_high frame) AND 1) OR
              (drop_bit RVRT_WF_TS_LO_OFFSET (fr_low frame) AND RVRT_WF_TS_LO_MASK);
            frame_axon = drop_bit RVRT_WF_AX_OFFSET (fr_low frame) AND RVRT_WF_AX_MASK;
            timestep = drop_bit (unat (ov_target_lcn view)) encoded_timestep;
            axon_bit_idx = (push_bit RVRT_WF_AX_BITS encoded_timestep OR frame_axon) AND
                           (push_bit (RVRT_WF_AX_BITS + unat (ov_target_lcn view)) 1 - 1)
        in Inr (timestep, axon_bit_idx))"

definition output_address_for_work_frame ::
    "rvrt_artifact_output_mapping_view \<Rightarrow> rvrt_frame \<Rightarrow> codec_status + u32 \<times> u32" where
  "output_address_for_work_frame view frame = rvrt_output_frame_address view frame"

definition build_work1_frame ::
    "rvrt_artifact_input_entry \<Rightarrow> u32 \<Rightarrow> u8 \<Rightarrow> codec_status + rvrt_frame" where
  "build_work1_frame entry timestep payload =
     (if in_target_lcn entry > RVRT_WF_TARGET_LCN_MAX \<or> in_addr_axon entry > RVRT_WF_AX_MASK
      then Inl RVRT_CODEC_STATUS_BAD_VALUE
      else
        (case frame_dest FC_HDR_WORK (in_core_offset entry) (in_copy_count entry) of
           Inl status \<Rightarrow> Inl status
         | Inr dest \<Rightarrow>
             let lcn = unat (in_target_lcn entry);
                 tick_limit = push_bit lcn 1
             in if in_tick_relative entry \<ge> tick_limit then Inl RVRT_CODEC_STATUS_BAD_VALUE
                else
                  let timestep_capacity = push_bit (FC_WF_TS_BITS - lcn) 1;
                      wrapped_timestep = timestep mod timestep_capacity;
                      resolved_timestep = push_bit lcn wrapped_timestep + in_tick_relative entry
                  in if resolved_timestep > FC_WF_TS_MASK then Inl RVRT_CODEC_STATUS_BAD_VALUE
                     else
                       let frame_addr =
                             pack_field (drop_bit FC_WF_TS_LO_BITS resolved_timestep) FC_WF_TS_HI_OFF
                               FC_WF_TS_HI_MASK OR
                             pack_field resolved_timestep RVRT_WF_TS_LO_OFFSET RVRT_WF_TS_LO_MASK OR
                             pack_field (in_addr_axon entry) RVRT_WF_AX_OFFSET RVRT_WF_AX_MASK
                       in Inr (frame_from_u64 (dest OR frame_addr OR ucast payload))))"

definition rvrt_build_init_frame ::
    "rvrt_artifact option \<Rightarrow> u32 \<Rightarrow> rvrt_frame option \<Rightarrow> codec_status \<times> rvrt_frame option" where
  "rvrt_build_init_frame artifact thread_index frame =
     build_control_frame artifact thread_index FC_HDR_INIT 0 frame"

definition rvrt_build_sync_payload_frame ::
    "rvrt_artifact option \<Rightarrow> u32 \<Rightarrow> u32 \<Rightarrow> rvrt_frame option \<Rightarrow> codec_status \<times> rvrt_frame option" where
  "rvrt_build_sync_payload_frame artifact thread_index sync_payload frame =
     build_control_frame artifact thread_index FC_HDR_SYNC sync_payload frame"


section \<open>Input encoding\<close>

definition rvrt_input_cursor_init :: "rvrt_input_cursor option \<Rightarrow> u32 \<Rightarrow> rvrt_input_cursor option" where
  "rvrt_input_cursor_init cursor timestep =
     (case cursor of None \<Rightarrow> None | Some _ \<Rightarrow> Some \<lparr>cu_entry_index = 0, cu_timestep = timestep\<rparr>)"

text \<open>
  The loop body of \<open>rvrt_encode_input_chunk\<close> up to the payload: read the entry, check its dtype
  against the view, and encode the input element it names.
\<close>

definition encode_entry ::
    "rvrt_artifact_input_mapping_view \<Rightarrow> u32 \<Rightarrow> u8 list \<Rightarrow> u32
       \<Rightarrow> (codec_status + rvrt_artifact_input_entry \<times> u8) option" where
  "encode_entry view entry_index input input_size = do {
     (artifact_status, entry') \<leftarrow>
       rvrt_artifact_input_mapping_entry (Some view) entry_index (Some zero_input_entry);
     let entry = the entry';
     let status = codec_status_from_artifact artifact_status;
     if status \<noteq> RVRT_CODEC_STATUS_OK then Some (Inl status)
     else
       (case dtype_bits (in_dtype entry) of
          None \<Rightarrow> Some (Inl RVRT_CODEC_STATUS_UNSUPPORTED)
        | Some (entry_bits, is_signed) \<Rightarrow>
            if entry_bits \<noteq> iv_bit_width view then Some (Inl RVRT_CODEC_STATUS_UNSUPPORTED)
            else if in_elem_idx entry \<ge> input_size then Some (Inl RVRT_CODEC_STATUS_OUT_OF_RANGE)
            else do {
              raw \<leftarrow> rd input (in_elem_idx entry);
              (case encode_payload raw entry_bits is_signed of
                 None \<Rightarrow> Some (Inl RVRT_CODEC_STATUS_BAD_VALUE)
               | Some payload \<Rightarrow> Some (Inr (entry, payload)))
            })
   }"

function encode_input_loop ::
    "rvrt_artifact_input_mapping_view \<Rightarrow> rvrt_input_cursor \<Rightarrow> u8 list \<Rightarrow> u32 \<Rightarrow> rvrt_frame list \<Rightarrow> u32
       \<Rightarrow> u32 \<Rightarrow> (codec_status \<times> rvrt_input_cursor \<times> rvrt_frame list \<times> u32) option" where
  "encode_input_loop view cursor input input_size frames frame_capacity frame_count =
     (if cu_entry_index cursor < iv_entry_count view then
        (case encode_entry view (cu_entry_index cursor) input input_size of
           None \<Rightarrow> None
         | Some (Inl status) \<Rightarrow> Some (status, cursor, frames, frame_count)
         | Some (Inr (entry, payload)) \<Rightarrow>
             let advanced = cursor\<lparr>cu_entry_index := cu_entry_index cursor + 1\<rparr> in
             if payload = 0
             then encode_input_loop view advanced input input_size frames frame_capacity frame_count
             else if frame_count \<ge> frame_capacity
             then Some (RVRT_CODEC_STATUS_BUFFER_FULL,
                        advanced\<lparr>cu_entry_index := cu_entry_index advanced - 1\<rparr>, frames, frame_count)
             else
               (case build_work1_frame entry (cu_timestep advanced) payload of
                  Inl status \<Rightarrow> Some (status, advanced, frames, frame_count)
                | Inr frame \<Rightarrow>
                    (case wr frames frame_count frame of
                       None \<Rightarrow> None
                     | Some frames' \<Rightarrow>
                         encode_input_loop view advanced input input_size frames' frame_capacity
                           (frame_count + 1))))
      else Some (RVRT_CODEC_STATUS_DONE, cursor, frames, frame_count))"
  by pat_completeness auto
termination
proof (relation "measure (\<lambda>(view, cursor, _). unat (iv_entry_count view) - unat (cu_entry_index cursor))")
qed (auto simp: word_less_nat_alt unat_Suc_word [of _ "iv_entry_count _", unfolded word_less_nat_alt])

declare encode_input_loop.simps [simp del]

text \<open>\<open>frame_count\<close> is the caller's object: reset to zero once the arguments have been checked.\<close>

definition rvrt_encode_input_chunk ::
    "rvrt_artifact_input_mapping_view option \<Rightarrow> rvrt_input_cursor option \<Rightarrow> u8 list option \<Rightarrow> u32
       \<Rightarrow> rvrt_frame list option \<Rightarrow> u32 \<Rightarrow> u32 option
       \<Rightarrow> (codec_status \<times> rvrt_input_cursor option \<times> rvrt_frame list option \<times> u32 option) option" where
  "rvrt_encode_input_chunk view cursor input input_size frames frame_capacity frame_count =
     (case (view, cursor, input, frames, frame_count) of
        (Some v, Some c, Some i, Some fs, Some _) \<Rightarrow>
          if iv_entries v = None
          then Some (RVRT_CODEC_STATUS_NULL_ARGUMENT, cursor, frames, frame_count)
          else if frame_capacity = 0
          then Some (RVRT_CODEC_STATUS_BAD_VALUE, cursor, frames, frame_count)
          else do {
            (status, c, fs, n) \<leftarrow> encode_input_loop v c i input_size fs frame_capacity 0;
            Some (status, Some c, Some fs, Some n)
          }
      | _ \<Rightarrow> Some (RVRT_CODEC_STATUS_NULL_ARGUMENT, cursor, frames, frame_count))"


section \<open>Decoding DATA frames\<close>

text \<open>
  Status, output buffer and the flag \<open>*written\<close>; \<open>output_size\<close> is what the caller says the buffer
  holds.
\<close>

definition decode_data_work_frame ::
    "rvrt_artifact_output_mapping_view \<Rightarrow> rvrt_frame \<Rightarrow> u32 \<Rightarrow> bool \<Rightarrow> u32 \<Rightarrow> u32 \<Rightarrow> u8 list \<Rightarrow> u32
       \<Rightarrow> (codec_status \<times> u8 list \<times> bool) option" where
  "decode_data_work_frame view frame entry_bits is_signed timestep_count timestep_stride output
       output_size =
     (case output_address_for_work_frame view frame of
        Inl status \<Rightarrow> Some (status, output, False)
      | Inr (frame_timestep, axon_bit_idx) \<Rightarrow>
          if frame_timestep \<ge> timestep_count then Some (RVRT_CODEC_STATUS_OK, output, False)
          else
            let (artifact_status, entry', found) =
                  rvrt_artifact_output_mapping_find (Some view) axon_bit_idx (Some zero_output_entry)
                    (Some False);
                entry = the entry';
                status = codec_status_from_artifact artifact_status
            in if status \<noteq> RVRT_CODEC_STATUS_OK then Some (status, output, False)
            else if found \<noteq> Some True then Some (RVRT_CODEC_STATUS_OK, output, False)
            else if timestep_stride = 0 \<or> out_elem_idx entry \<ge> timestep_stride \<or>
                    frame_timestep > (SIZE_MAX - out_elem_idx entry) div timestep_stride
            then Some (RVRT_CODEC_STATUS_OUT_OF_RANGE, output, False)
            else
              let payload = fr_low frame AND RVRT_WF_PAYLOAD_MASK
              in if \<not> is_signed \<and> payload AND NOT (bit_mask entry_bits) \<noteq> 0
                 then Some (RVRT_CODEC_STATUS_OK, output, False)
                 else
                   let output_index = frame_timestep * timestep_stride + out_elem_idx entry
                   in if output_index \<ge> output_size
                      then Some (RVRT_CODEC_STATUS_OUT_OF_RANGE, output, False)
                      else do {
                        output \<leftarrow> wr output output_index (decode_payload payload entry_bits is_signed);
                        Some (RVRT_CODEC_STATUS_OK, output, True)
                      })"

definition rvrt_decode_output_frame ::
    "rvrt_artifact_output_mapping_view option \<Rightarrow> rvrt_frame option \<Rightarrow> u8 list option \<Rightarrow> u32 \<Rightarrow> bool option
       \<Rightarrow> (codec_status \<times> u8 list option \<times> bool option) option" where
  "rvrt_decode_output_frame view frame output output_size written =
     (case (view, frame, output, written) of
        (Some v, Some f, Some out, Some _) \<Rightarrow>
          if ov_entries v = None then Some (RVRT_CODEC_STATUS_NULL_ARGUMENT, output, written)
          else if \<not> rvrt_frame_is_work_type1 f then Some (RVRT_CODEC_STATUS_OK, output, Some False)
          else if ov_kind v \<noteq> RVRT_OUTPUT_DATA
          then Some (RVRT_CODEC_STATUS_UNSUPPORTED, output, Some False)
          else (case dtype_bits (ov_dtype v) of
                  None \<Rightarrow> Some (RVRT_CODEC_STATUS_UNSUPPORTED, output, Some False)
                | Some (entry_bits, is_signed) \<Rightarrow> do {
                    (status, out, written) \<leftarrow>
                      decode_data_work_frame v f entry_bits is_signed 1 output_size out output_size;
                    Some (status, Some out, Some written)
                  })
      | _ \<Rightarrow> Some (RVRT_CODEC_STATUS_NULL_ARGUMENT, output, written))"

text \<open>The DATA loop of \<open>rvrt_decode_output_frames_incremental\<close> over the remaining \<open>n\<close> frames.\<close>

fun decode_data_loop ::
    "rvrt_artifact_output_mapping_view \<Rightarrow> u32 \<Rightarrow> bool \<Rightarrow> u32 \<Rightarrow> u32 \<Rightarrow> u32 \<Rightarrow> rvrt_frame list \<Rightarrow> nat
       \<Rightarrow> u8 list \<Rightarrow> (codec_status \<times> u8 list) option" where
  "decode_data_loop view entry_bits is_signed total_timesteps output_stride output_size frames 0 output =
     Some (RVRT_CODEC_STATUS_OK, output)"
| "decode_data_loop view entry_bits is_signed total_timesteps output_stride output_size [] (Suc n) output =
     None"
| "decode_data_loop view entry_bits is_signed total_timesteps output_stride output_size (frame # frames)
     (Suc n) output =
     (if \<not> rvrt_frame_is_work_type1 frame then
        decode_data_loop view entry_bits is_signed total_timesteps output_stride output_size frames n output
      else
        (case decode_data_work_frame view frame entry_bits is_signed total_timesteps output_stride output
                output_size of
           None \<Rightarrow> None
         | Some (status, output', written) \<Rightarrow>
             if status \<noteq> RVRT_CODEC_STATUS_OK then Some (status, output')
             else decode_data_loop view entry_bits is_signed total_timesteps output_stride output_size
                    frames n output'))"


section \<open>Decoding VOLTAGE frames\<close>

text \<open>Status, output, lane state and \<open>*written\<close>, where \<open>written\<close> may be \<open>NULL\<close>.\<close>

definition rvrt_store_voltage_lane ::
    "u8 list \<Rightarrow> u32 \<Rightarrow> u32 \<Rightarrow> u8 list \<Rightarrow> u32 \<Rightarrow> u32 \<Rightarrow> u32 \<Rightarrow> u8 \<Rightarrow> bool option
       \<Rightarrow> (codec_status \<times> u8 list \<times> u8 list \<times> bool option) option" where
  "rvrt_store_voltage_lane output output_index output_count state state_index state_count lane payload
       written =
     (if output_index \<ge> output_count \<or> state_index \<ge> state_count \<or> lane \<ge> RVRT_VOLT_LANE_COUNT
      then Some (RVRT_CODEC_STATUS_OUT_OF_RANGE, output, state, written)
      else do {
        received_mask \<leftarrow> rd state state_index;
        let lane_mask = ucast (push_bit (unat lane) (1 :: u32));
        if received_mask AND lane_mask \<noteq> 0
        then Some (RVRT_CODEC_STATUS_BAD_VALUE, output, state, written)
        else do {
          output \<leftarrow> (if received_mask = 0 then store32 output output_index 0 else Some output);
          old \<leftarrow> load32 output output_index;
          output \<leftarrow> store32 output output_index
            (old OR push_bit (unat (lane * RVRT_VOLT_LANE_BITS)) (ucast payload));
          let received_mask = received_mask OR lane_mask;
          if received_mask = RVRT_VOLT_COMPLETE_MASK then do {
            state \<leftarrow> wr state state_index 0;
            Some (RVRT_CODEC_STATUS_OK, output, state,
                  (case written of None \<Rightarrow> None | Some _ \<Rightarrow> Some True))
          } else do {
            state \<leftarrow> wr state state_index received_mask;
            Some (RVRT_CODEC_STATUS_OK, output, state, written)
          }
        }
      })"

definition decode_voltage_work_frame ::
    "rvrt_artifact_output_mapping_view option \<Rightarrow> rvrt_frame option \<Rightarrow> u32 \<Rightarrow> u8 list option \<Rightarrow> u32 \<Rightarrow> u32
       \<Rightarrow> u8 list option \<Rightarrow> u32 \<Rightarrow> bool option
       \<Rightarrow> (codec_status \<times> u8 list option \<times> u8 list option \<times> bool option) option" where
  "decode_voltage_work_frame view frame total_timesteps output output_count output_stride_elements state
       state_count written =
     (case (view, frame, output, state, written) of
        (Some v, Some f, Some out, Some st, Some _) \<Rightarrow>
          if ov_entries v = None then Some (RVRT_CODEC_STATUS_NULL_ARGUMENT, output, state, written)
          else if \<not> rvrt_frame_is_work_type2 f then Some (RVRT_CODEC_STATUS_OK, output, state, Some False)
          else if ov_kind v \<noteq> RVRT_OUTPUT_VOLTAGE
          then Some (RVRT_CODEC_STATUS_UNSUPPORTED, output, state, Some False)
          else if ov_dtype v \<noteq> RVRT_DTYPE_VOLTAGE_INT32
          then Some (RVRT_CODEC_STATUS_UNSUPPORTED, output, state, Some False)
          else
            (case output_address_for_work_frame v f of
               Inl status \<Rightarrow> Some (status, output, state, Some False)
             | Inr (frame_timestep, axon_bit_idx) \<Rightarrow>
                 let lane = drop_bit 3 axon_bit_idx AND (RVRT_VOLT_LANE_COUNT - 1);
                     base = axon_bit_idx - lane * RVRT_VOLT_LANE_BITS;
                     (artifact_status, entry', found) =
                       rvrt_artifact_output_mapping_find view base (Some zero_output_entry) (Some False);
                     entry = the entry';
                     status = codec_status_from_artifact artifact_status
                 in if status \<noteq> RVRT_CODEC_STATUS_OK then Some (status, output, state, Some False)
                 else if found \<noteq> Some True then Some (RVRT_CODEC_STATUS_OK, output, state, Some False)
                 else if frame_timestep \<ge> total_timesteps
                 then Some (RVRT_CODEC_STATUS_OK, output, state, Some False)
                 else if ov_element_count v = 0 \<or> output_stride_elements = 0 \<or>
                         out_elem_idx entry \<ge> output_stride_elements \<or>
                         frame_timestep > (SIZE_MAX - out_elem_idx entry) div output_stride_elements \<or>
                         frame_timestep > (SIZE_MAX - out_elem_idx entry) div ov_element_count v
                 then Some (RVRT_CODEC_STATUS_OUT_OF_RANGE, output, state, Some False)
                 else
                   let output_index = frame_timestep * output_stride_elements + out_elem_idx entry;
                       state_index = frame_timestep * ov_element_count v + out_elem_idx entry
                   in if output_index \<ge> output_count \<or> state_index \<ge> state_count
                      then Some (RVRT_CODEC_STATUS_OUT_OF_RANGE, output, state, Some False)
                      else do {
                        (status, out, st, written) \<leftarrow>
                          rvrt_store_voltage_lane out output_index output_count st state_index
                            state_count lane (ucast (fr_low f AND RVRT_WF_PAYLOAD_MASK)) (Some False);
                        Some (status, Some out, Some st, written)
                      })
      | _ \<Rightarrow> Some (RVRT_CODEC_STATUS_NULL_ARGUMENT, output, state, written))"

definition rvrt_decode_voltage_frame ::
    "rvrt_artifact_output_mapping_view option \<Rightarrow> rvrt_frame option \<Rightarrow> u8 list option \<Rightarrow> u32
       \<Rightarrow> u8 list option \<Rightarrow> u32 \<Rightarrow> bool option
       \<Rightarrow> (codec_status \<times> u8 list option \<times> u8 list option \<times> bool option) option" where
  "rvrt_decode_voltage_frame view frame output output_count state state_count written =
     decode_voltage_work_frame view frame 1 output output_count output_count state state_count written"

fun decode_voltage_loop ::
    "rvrt_artifact_output_mapping_view \<Rightarrow> u32 \<Rightarrow> u32 \<Rightarrow> u32 \<Rightarrow> u32 \<Rightarrow> rvrt_frame list \<Rightarrow> nat
       \<Rightarrow> u8 list option \<Rightarrow> u8 list option \<Rightarrow> (codec_status \<times> u8 list option \<times> u8 list option) option"
  where
  "decode_voltage_loop view total_timesteps output_count output_stride_elements state_count frames 0
     output state = Some (RVRT_CODEC_STATUS_OK, output, state)"
| "decode_voltage_loop view total_timesteps output_count output_stride_elements state_count [] (Suc n)
     output state = None"
| "decode_voltage_loop view total_timesteps output_count output_stride_elements state_count
     (frame # frames) (Suc n) output state =
     (case decode_voltage_work_frame (Some view) (Some frame) total_timesteps output output_count
             output_stride_elements state state_count (Some False) of
        None \<Rightarrow> None
      | Some (status, output', state', written) \<Rightarrow>
          if status \<noteq> RVRT_CODEC_STATUS_OK then Some (status, output', state')
          else decode_voltage_loop view total_timesteps output_count output_stride_elements state_count
                 frames n output' state')"


section \<open>Decoding frame arrays\<close>

definition rvrt_decode_output_frames_incremental ::
    "rvrt_artifact_output_mapping_view option \<Rightarrow> rvrt_frame list option \<Rightarrow> u32 \<Rightarrow> u32 \<Rightarrow> u8 list option
       \<Rightarrow> u32 \<Rightarrow> u32 \<Rightarrow> u8 list option \<Rightarrow> u32
       \<Rightarrow> (codec_status \<times> u8 list option \<times> u8 list option) option" where
  "rvrt_decode_output_frames_incremental view frames frame_count total_timesteps output output_size
       output_stride voltage_state voltage_state_capacity =
     (case (view, output) of
        (Some v, Some out) \<Rightarrow>
          if ov_entries v = None \<or> (frames = None \<and> frame_count \<noteq> 0) \<or> total_timesteps = 0
          then Some (RVRT_CODEC_STATUS_NULL_ARGUMENT, output, voltage_state)
          else
            let fs = (case frames of None \<Rightarrow> [] | Some fs \<Rightarrow> fs) in
            if ov_kind v = RVRT_OUTPUT_DATA then
              (case dtype_bits (ov_dtype v) of
                 None \<Rightarrow> Some (RVRT_CODEC_STATUS_UNSUPPORTED, output, voltage_state)
               | Some (entry_bits, is_signed) \<Rightarrow> do {
                   (status, out) \<leftarrow> decode_data_loop v entry_bits is_signed total_timesteps output_stride
                     output_size fs (unat frame_count) out;
                   Some (status, Some out, voltage_state)
                 })
            else if ov_kind v \<noteq> RVRT_OUTPUT_VOLTAGE \<or> output_size mod 4 \<noteq> 0 \<or>
                    output_stride mod 4 \<noteq> 0 \<or> voltage_state = None
            then Some (RVRT_CODEC_STATUS_UNSUPPORTED, output, voltage_state)
            else
              decode_voltage_loop v total_timesteps (output_size div 4) (output_stride div 4)
                voltage_state_capacity fs (unat frame_count) output voltage_state
      | _ \<Rightarrow> Some (RVRT_CODEC_STATUS_NULL_ARGUMENT, output, voltage_state))"

definition rvrt_decode_output_frames ::
    "rvrt_artifact_output_mapping_view option \<Rightarrow> rvrt_artifact_runtime option \<Rightarrow> rvrt_frame list option
       \<Rightarrow> u32 \<Rightarrow> u8 list option \<Rightarrow> u32 \<Rightarrow> (codec_status \<times> u8 list option) option" where
  "rvrt_decode_output_frames view runtime frames frame_count output output_size =
     (case (view, runtime, output) of
        (Some v, Some rt, Some out) \<Rightarrow>
          if ov_entries v = None \<or> (frames = None \<and> frame_count \<noteq> 0)
          then Some (RVRT_CODEC_STATUS_NULL_ARGUMENT, output)
          else if ov_kind v \<noteq> RVRT_OUTPUT_DATA \<or>
                  rt_output_time_encoding rt \<noteq> RVRT_OUTPUT_TIME_ENCODING_STREAM
          then Some (RVRT_CODEC_STATUS_UNSUPPORTED, output)
          else if rt_timesteps rt = 0 \<or> rt_pipeline_latency rt = 0 \<or>
                  rt_timesteps rt > UINT32_MAX - rt_pipeline_latency rt + 1 \<or>
                  rt_completion_sync_timestep rt \<noteq> rt_pipeline_latency rt + rt_timesteps rt - 1
          then Some (RVRT_CODEC_STATUS_BAD_VALUE, output)
          else if ov_element_count v = 0 \<or> ov_element_count v > SIZE_MAX div rt_timesteps rt
          then Some (RVRT_CODEC_STATUS_OUT_OF_RANGE, output)
          else
            (case dtype_bits (ov_dtype v) of
               None \<Rightarrow> Some (RVRT_CODEC_STATUS_UNSUPPORTED, output)
             | Some _ \<Rightarrow>
                 let required = rt_timesteps rt * ov_element_count v
                 in if output_size < required then Some (RVRT_CODEC_STATUS_OUT_OF_RANGE, output)
                 else if unat required > length out then None
                 else do {
                   let out = replicate (unat required) 0 @ drop (unat required) out;
                   (status, out, _) \<leftarrow> rvrt_decode_output_frames_incremental view frames frame_count
                     (rt_timesteps rt) (Some out) output_size (ov_element_count v) None 0;
                   Some (status, out)
                 })
      | _ \<Rightarrow> Some (RVRT_CODEC_STATUS_NULL_ARGUMENT, output))"

fun rvrt_codec_status_string :: "codec_status \<Rightarrow> string" where
  "rvrt_codec_status_string RVRT_CODEC_STATUS_OK = ''ok''"
| "rvrt_codec_status_string RVRT_CODEC_STATUS_DONE = ''done''"
| "rvrt_codec_status_string RVRT_CODEC_STATUS_BUFFER_FULL = ''buffer full''"
| "rvrt_codec_status_string RVRT_CODEC_STATUS_NULL_ARGUMENT = ''null argument''"
| "rvrt_codec_status_string RVRT_CODEC_STATUS_ARTIFACT_ERROR = ''artifact error''"
| "rvrt_codec_status_string RVRT_CODEC_STATUS_OUT_OF_RANGE = ''out of range''"
| "rvrt_codec_status_string RVRT_CODEC_STATUS_BAD_VALUE = ''bad value''"
| "rvrt_codec_status_string RVRT_CODEC_STATUS_UNSUPPORTED = ''unsupported''"

end
