(* ===== verification/Noc.thy ===== *)
theory Noc
  imports FrameCodec
begin

text \<open>
  The NoC FIFO driver, \<open>SoC/evalsoc/Common/Source/Drivers/evalsoc_noc.c\<close> and the inline functions
  of \<open>evalsoc_noc.h\<close>, in the bare-metal configuration (\<open>NOC_FREERTOS_CRITICAL == 0\<close>).

  The hardware is the record \<open>noc_hw\<close>: the log of the words stored to the downlink FIFO, the words
  the uplink FIFO will deliver, the pending register, the enable byte of the NoC interrupt at the
  ECLIC and the \<open>mstatus\<close> register.  The memory barriers order accesses that the model executes in
  program order.  What a load from an empty uplink FIFO does is not in the repository: such a
  read has no result here (\<open>None\<close>).
\<close>

record noc_hw =
  hw_down :: "u32 list"
  hw_up :: "u32 list"
  hw_pending :: u32
  hw_irq_enable :: u8
  hw_mstatus :: u32

abbreviation MSTATUS_MIE :: u32 where "MSTATUS_MIE \<equiv> 8"

definition disable_irq :: "noc_hw \<Rightarrow> noc_hw" where
  "disable_irq hw = hw\<lparr>hw_mstatus := hw_mstatus hw AND NOT MSTATUS_MIE\<rparr>"

definition enable_irq :: "noc_hw \<Rightarrow> noc_hw" where
  "enable_irq hw = hw\<lparr>hw_mstatus := hw_mstatus hw OR MSTATUS_MIE\<rparr>"

text \<open>The lock state is the saved \<open>mstatus\<close>; \<open>os_state\<close> is unused without FreeRTOS.\<close>

definition noc_enter_critical :: "noc_hw \<Rightarrow> u32 \<times> noc_hw" where
  "noc_enter_critical hw = (hw_mstatus hw, disable_irq hw)"

definition noc_exit_critical :: "u32 \<Rightarrow> noc_hw \<Rightarrow> noc_hw" where
  "noc_exit_critical state hw =
     (if state AND MSTATUS_MIE \<noteq> 0 then enable_irq hw else disable_irq hw)"

definition noc_enter_critical_from_isr :: "noc_hw \<Rightarrow> u32 \<times> noc_hw" where
  "noc_enter_critical_from_isr hw = (hw_mstatus hw, disable_irq hw)"

definition noc_exit_critical_from_isr :: "u32 \<Rightarrow> noc_hw \<Rightarrow> noc_hw" where
  "noc_exit_critical_from_isr state hw =
     (if state AND MSTATUS_MIE \<noteq> 0 then enable_irq hw else disable_irq hw)"

definition noc_fifo_write_words_unlocked :: "u32 \<Rightarrow> u32 \<Rightarrow> noc_hw \<Rightarrow> noc_hw" where
  "noc_fifo_write_words_unlocked fifo_word0 fifo_word1 hw =
     (let hw = hw\<lparr>hw_down := hw_down hw @ [fifo_word0]\<rparr>;
          hw = hw\<lparr>hw_down := hw_down hw @ [fifo_word1]\<rparr>
      in hw)"

definition noc_fifo_write_words :: "u32 \<Rightarrow> u32 \<Rightarrow> noc_hw \<Rightarrow> noc_hw" where
  "noc_fifo_write_words fifo_word0 fifo_word1 hw =
     (let (state, hw) = noc_enter_critical hw;
          hw = noc_fifo_write_words_unlocked fifo_word0 fifo_word1 hw
      in noc_exit_critical state hw)"

definition noc_fifo_write_words_from_isr :: "u32 \<Rightarrow> u32 \<Rightarrow> noc_hw \<Rightarrow> noc_hw" where
  "noc_fifo_write_words_from_isr fifo_word0 fifo_word1 hw =
     (let (state, hw) = noc_enter_critical_from_isr hw;
          hw = noc_fifo_write_words_unlocked fifo_word0 fifo_word1 hw
      in noc_exit_critical_from_isr state hw)"

definition noc_fifo_write_frame_words :: "u32 \<Rightarrow> u32 \<Rightarrow> noc_hw \<Rightarrow> noc_hw" where
  "noc_fifo_write_frame_words frame_high32 frame_low32 hw =
     noc_fifo_write_words frame_low32 frame_high32 hw"

definition noc_fifo_write_frame_words_unlocked :: "u32 \<Rightarrow> u32 \<Rightarrow> noc_hw \<Rightarrow> noc_hw" where
  "noc_fifo_write_frame_words_unlocked frame_high32 frame_low32 hw =
     noc_fifo_write_words_unlocked frame_low32 frame_high32 hw"

definition noc_fifo_write_frame_words_from_isr :: "u32 \<Rightarrow> u32 \<Rightarrow> noc_hw \<Rightarrow> noc_hw" where
  "noc_fifo_write_frame_words_from_isr frame_high32 frame_low32 hw =
     noc_fifo_write_words_from_isr frame_low32 frame_high32 hw"

definition noc_fifo_write_frame64 :: "u64 \<Rightarrow> noc_hw \<Rightarrow> noc_hw" where
  "noc_fifo_write_frame64 frame hw =
     (let hi32 = ucast (drop_bit 32 frame); lo32 = ucast (frame AND 0xFFFFFFFF)
      in noc_fifo_write_frame_words hi32 lo32 hw)"

definition noc_fifo_write_frame64_unlocked :: "u64 \<Rightarrow> noc_hw \<Rightarrow> noc_hw" where
  "noc_fifo_write_frame64_unlocked frame hw =
     (let hi32 = ucast (drop_bit 32 frame); lo32 = ucast (frame AND 0xFFFFFFFF)
      in noc_fifo_write_frame_words_unlocked hi32 lo32 hw)"

definition noc_fifo_write_frame64_from_isr :: "u64 \<Rightarrow> noc_hw \<Rightarrow> noc_hw" where
  "noc_fifo_write_frame64_from_isr frame hw =
     (let hi32 = ucast (drop_bit 32 frame); lo32 = ucast (frame AND 0xFFFFFFFF)
      in noc_fifo_write_frame_words_from_isr hi32 lo32 hw)"

text \<open>One load from the uplink FIFO.\<close>

definition up_fifo_load :: "noc_hw \<Rightarrow> (u32 \<times> noc_hw) option" where
  "up_fifo_load hw =
     (case hw_up hw of [] \<Rightarrow> None | w # ws \<Rightarrow> Some (w, hw\<lparr>hw_up := ws\<rparr>))"

definition noc_fifo_read_words ::
    "u32 option \<Rightarrow> u32 option \<Rightarrow> noc_hw \<Rightarrow> (int \<times> u32 option \<times> u32 option \<times> noc_hw) option" where
  "noc_fifo_read_words fifo_word0 fifo_word1 hw =
     (if fifo_word0 = None \<or> fifo_word1 = None then Some (- 1, fifo_word0, fifo_word1, hw)
      else do {
        (w0, hw) \<leftarrow> up_fifo_load hw;
        (w1, hw) \<leftarrow> up_fifo_load hw;
        Some (0, Some w0, Some w1, hw)
      })"

definition noc_fifo_read_frame_words ::
    "u32 option \<Rightarrow> u32 option \<Rightarrow> noc_hw \<Rightarrow> (int \<times> u32 option \<times> u32 option \<times> noc_hw) option" where
  "noc_fifo_read_frame_words frame_high32 frame_low32 hw =
     noc_fifo_read_words frame_high32 frame_low32 hw"

definition noc_irq_pending :: "noc_hw \<Rightarrow> u32" where
  "noc_irq_pending hw = hw_pending hw"

definition noc_irq_is_enabled :: "noc_hw \<Rightarrow> bool" where
  "noc_irq_is_enabled hw \<longleftrightarrow> hw_irq_enable hw \<noteq> 0"

definition noc_irq_ack :: "noc_hw \<Rightarrow> noc_hw" where
  "noc_irq_ack hw = hw\<lparr>hw_pending := 0\<rparr>"

definition noc_irq_enable :: "noc_hw \<Rightarrow> noc_hw" where
  "noc_irq_enable hw = hw\<lparr>hw_irq_enable := 1\<rparr>"

definition noc_irq_disable :: "noc_hw \<Rightarrow> noc_hw" where
  "noc_irq_disable hw = hw\<lparr>hw_irq_enable := 0\<rparr>"


section \<open>Laws of the driver\<close>

definition frame_words :: "rvrt_frame \<Rightarrow> u32 list" where
  "frame_words f = [fr_low f, fr_high f]"

lemma mstatus_or_mie: "m AND 8 \<noteq> 0 \<Longrightarrow> (m AND NOT 8) OR 8 = (m :: u32)"
proof -
  assume "m AND 8 \<noteq> 0"
  then have "bit m 3" using and_exp_eq_0_iff_not_bit [of m 3] by simp
  then show ?thesis
    by (intro bit_word_eqI) (auto simp: bit_simps, use bit_exp_iff [of 3, where 'a = int] in auto)
qed

lemma mstatus_and_not_mie: "m AND 8 = 0 \<Longrightarrow> (m AND NOT 8) AND NOT 8 = (m :: u32)"
proof -
  assume "m AND 8 = 0"
  then have "\<not> bit m 3" using and_exp_eq_0_iff_not_bit [of m 3] by simp
  then show ?thesis
    by (intro bit_word_eqI) (auto simp: bit_simps, use bit_exp_iff [of 3, where 'a = int] in auto)
qed

lemma mstatus_restore:
  "m AND 8 \<noteq> 0 \<Longrightarrow> (m AND - 9) OR 8 = (m :: u32)" "m AND 8 = 0 \<Longrightarrow> m AND - 9 = (m :: u32)"
  using mstatus_or_mie [of m] mstatus_and_not_mie [of m] by (simp_all add: and.assoc)

lemma noc_locked_write_eq:
  "noc_fifo_write_words w0 w1 hw = hw\<lparr>hw_down := hw_down hw @ [w0, w1]\<rparr>"
  "noc_fifo_write_words_from_isr w0 w1 hw = hw\<lparr>hw_down := hw_down hw @ [w0, w1]\<rparr>"
  "noc_fifo_write_words_unlocked w0 w1 hw = hw\<lparr>hw_down := hw_down hw @ [w0, w1]\<rparr>"
  by (simp_all add: noc_fifo_write_words_def noc_fifo_write_words_from_isr_def
      noc_fifo_write_words_unlocked_def noc_enter_critical_def noc_exit_critical_def
      noc_enter_critical_from_isr_def noc_exit_critical_from_isr_def enable_irq_def disable_irq_def
      Let_def mstatus_restore)

text \<open>Every downlink write, locked, unlocked or from the ISR, as two words or as one 64-bit frame,
  appends exactly the two words of the frame, low word first, and leaves the interrupt state,
  the uplink and the pending register as they were: the critical section restores \<open>mstatus\<close>
  whether interrupts were on or off.\<close>

theorem noc_write_frame_exact:
  "noc_fifo_write_frame_words (fr_high f) (fr_low f) hw = hw\<lparr>hw_down := hw_down hw @ frame_words f\<rparr> \<and>
   noc_fifo_write_frame_words_unlocked (fr_high f) (fr_low f) hw = hw\<lparr>hw_down := hw_down hw @ frame_words f\<rparr> \<and>
   noc_fifo_write_frame_words_from_isr (fr_high f) (fr_low f) hw = hw\<lparr>hw_down := hw_down hw @ frame_words f\<rparr> \<and>
   noc_fifo_write_frame64 v hw = hw\<lparr>hw_down := hw_down hw @ frame_words (frame_from_u64 v)\<rparr> \<and>
   noc_fifo_write_frame64_unlocked v hw = noc_fifo_write_frame64 v hw \<and>
   noc_fifo_write_frame64_from_isr v hw = noc_fifo_write_frame64 v hw"
  by (simp add: noc_fifo_write_frame_words_def noc_fifo_write_frame_words_unlocked_def
      noc_fifo_write_frame_words_from_isr_def noc_fifo_write_frame64_def
      noc_fifo_write_frame64_unlocked_def noc_fifo_write_frame64_from_isr_def noc_locked_write_eq
      frame_words_def frame_from_u64_def Let_def)

lemma noc_write_unlocked_eq:
  "noc_fifo_write_frame_words_unlocked h l hw = hw\<lparr>hw_down := hw_down hw @ [l, h]\<rparr>"
  "noc_fifo_write_frame_words h l hw = hw\<lparr>hw_down := hw_down hw @ [l, h]\<rparr>"
  by (simp_all add: noc_fifo_write_frame_words_unlocked_def noc_fifo_write_frame_words_def
      noc_locked_write_eq)

lemma noc_read_eq:
  "noc_fifo_read_frame_words (Some a) (Some b) hw =
     (case hw_up hw of h # l # ws \<Rightarrow> Some (0, Some h, Some l, hw\<lparr>hw_up := ws\<rparr>) | _ \<Rightarrow> None)"
  by (auto simp: noc_fifo_read_frame_words_def noc_fifo_read_words_def up_fifo_load_def
      split: list.split)

lemmas noc_irq_defs = noc_irq_ack_def noc_irq_enable_def noc_irq_disable_def noc_irq_is_enabled_def

end
