(* ===== verification/UartShell.thy ===== *)
theory UartShell
  imports UartUtils EvalUart Noc
begin

text \<open>
  The interactive shell, \<open>application/baremetal/uart/src/uart_app.c\<close> and \<open>main.c\<close>, with debug logging
  compiled out.

  The record is \<open>uart_app_t\<close> and the static variables beside it, the NoC hardware, the cycle counter
  (its \<open>n\<close>-th reading is \<open>sh_clock n\<close>) and what has been printed, one constructor per message.  The
  storage of the ring is inside the struct; it is the storage of the ring record here.  Output to the
  terminal has no other effect.
\<close>

section \<open>State\<close>

datatype timing_kind = TIMING_NONE | TIMING_COMPUTE | TIMING_RESPONSE

datatype shell_msg =
    Msg_cycles bool u32 u32
  | Msg_data u32 u32 u32
  | Msg_receive_complete
  | Msg_newline
  | Msg_erase
  | Msg_cancel
  | Msg_echo u8
  | Msg_response_timeout frame_kind
  | Msg_sending frame_kind nat
  | Msg_transmit_timeout frame_kind
  | Msg_config_sent
  | Msg_sent frame_kind
  | Msg_nothing_sent frame_kind frame_status
  | Msg_response_pending frame_kind
  | Msg_bad_test_frame
  | Msg_help
  | Msg_user_help
  | Msg_status u32 bool u32 bool "(frame_kind \<times> frame_status \<times> nat) list"
  | Msg_log_disabled
  | Msg_user_argc
  | Msg_user_value
  | Msg_sending_user u32 u32 user_frame_kind
  | Msg_cleared
  | Msg_unknown_snn "u8 list"
  | Msg_invalid "u8 list"
  | Msg_init_failed
  | Msg_uart_irq_failed i32
  | Msg_noc_irq_failed i32
  | Msg_read u32
  | Msg_ready
  | Msg_prompt

record shell =
  sh_buf :: rv_ringbuf
  sh_rx_frame_count :: u32
  sh_rx_data_ready :: u8
  sh_response_pending :: u8
  sh_pending_kind :: frame_kind
  sh_expected :: u32
  sh_timing :: timing_kind
  sh_start_cycles :: u64
  sh_end_cycles :: u64
  sh_command :: "u8 list"
  sh_command_length :: nat
  sh_prompt_printed :: u8
  sh_hw :: noc_hw
  sh_clock :: "nat \<Rightarrow> u64"
  sh_reads :: nat
  sh_out :: "shell_msg list"

abbreviation RX_BUF_STORAGE_SIZE :: u32 where "RX_BUF_STORAGE_SIZE \<equiv> 513"
abbreviation UART_APP_CMD_BUF_SIZE :: nat where "UART_APP_CMD_BUF_SIZE \<equiv> 128"
abbreviation NOC_COMPLETE_KIND :: u32 where "NOC_COMPLETE_KIND \<equiv> 0xE"
abbreviation RESPONSE_TIMEOUT_MS :: u32 where "RESPONSE_TIMEOUT_MS \<equiv> 2000"
abbreviation CONFIG_SEND_TIMEOUT_MS :: u32 where "CONFIG_SEND_TIMEOUT_MS \<equiv> 5000"
abbreviation WORK_RESPONSE_TIMEOUT_MS :: u32 where "WORK_RESPONSE_TIMEOUT_MS \<equiv> 3000"

definition printf :: "shell_msg \<Rightarrow> shell \<Rightarrow> shell" where
  "printf msg s = s\<lparr>sh_out := sh_out s @ [msg]\<rparr>"

definition get_cycle :: "shell \<Rightarrow> u64 \<times> shell" where
  "get_cycle s = (sh_clock s (sh_reads s), s\<lparr>sh_reads := Suc (sh_reads s)\<rparr>)"

definition output_critical_enter :: "shell \<Rightarrow> shell" where
  "output_critical_enter s = s\<lparr>sh_hw := noc_irq_disable (sh_hw s)\<rparr>"

definition output_critical_exit :: "shell \<Rightarrow> shell" where
  "output_critical_exit s = s\<lparr>sh_hw := noc_irq_enable (sh_hw s)\<rparr>"

definition print_cycles :: "bool \<Rightarrow> u64 \<Rightarrow> u64 \<Rightarrow> shell \<Rightarrow> shell" where
  "print_cycles compute start finish s =
     (let delta = finish - start; high = ucast (drop_bit 32 delta); low = ucast delta
      in printf (Msg_cycles compute high low) s)"


section \<open>The NoC interrupt\<close>

definition handle_noc_frame :: "u32 \<Rightarrow> u32 \<Rightarrow> shell \<Rightarrow> bool \<times> shell" where
  "handle_noc_frame high low s =
     (let response_kind = drop_bit 28 high AND 0xF;
          index = sh_rx_frame_count s + 1;
          s = s\<lparr>sh_rx_frame_count := index\<rparr>;
          s = printf (Msg_data index high low) s;
          s = (if response_kind = NOC_COMPLETE_KIND then printf Msg_receive_complete s else s)
      in if sh_expected s \<noteq> 0 \<and> index \<ge> sh_expected s
         then (True, s\<lparr>sh_expected := 0\<rparr>)
         else (sh_expected s = 0 \<and> response_kind = NOC_COMPLETE_KIND, s))"

text \<open>The loop reads until a frame stops it; \<open>None\<close>: the uplink had no more words.\<close>

function noc_frames_loop :: "shell \<Rightarrow> (bool \<times> shell) option" where
  "noc_frames_loop s =
     (case noc_fifo_read_frame_words (Some 0) (Some 0) (sh_hw s) of
        None \<Rightarrow> None
      | Some (result, high, low, hw) \<Rightarrow>
          if result \<noteq> 0 then Some (False, s\<lparr>sh_hw := hw\<rparr>)
          else
            let (stop, s) = handle_noc_frame (the high) (the low) (s\<lparr>sh_hw := hw\<rparr>)
            in if stop then Some (True, s) else noc_frames_loop s)"
  by pat_completeness auto
termination
  by (relation "measure (\<lambda>s. length (hw_up (sh_hw s)))")
    (auto simp: noc_read_eq handle_noc_frame_def printf_def Let_def split: list.splits if_splits)

definition shell_noc_handler :: "shell \<Rightarrow> shell option" where
  "shell_noc_handler s = do {
     let s = s\<lparr>sh_hw := noc_irq_disable (noc_irq_ack (sh_hw s))\<rparr>;
     (stop, s) \<leftarrow> noc_frames_loop s;
     let s = (if stop then
                let (now, s) = get_cycle s
                in s\<lparr>sh_end_cycles := now, sh_response_pending := 0, sh_rx_data_ready := 1\<rparr>
              else s);
     Some (s\<lparr>sh_hw := noc_irq_enable (sh_hw s)\<rparr>)
   }"


section \<open>The command line\<close>

text \<open>\<open>strncpy(dst, src, n)\<close> from an array \<open>src\<close>.\<close>

definition strncpy :: "u8 list \<Rightarrow> u8 list \<Rightarrow> nat \<Rightarrow> u8 list" where
  "strncpy dst src n =
     (let text = take n (takeWhile (\<lambda>c. c \<noteq> 0) src)
      in text @ replicate (n - length text) 0 @ drop n dst)"

text \<open>One byte of the line; a finished line is \<open>Some\<close> of the caller's buffer and the result.\<close>

definition shell_byte :: "u8 \<Rightarrow> u8 list \<Rightarrow> shell \<Rightarrow> ((u8 list \<times> int) option \<times> shell) option" where
  "shell_byte data buffer s =
     (if data = 13 \<or> data = 10 then
        if 0 < sh_command_length s then do {
          command \<leftarrow> wr (sh_command s) (of_nat (sh_command_length s)) 0;
          let result = int (sh_command_length s);
          let buffer = strncpy buffer command (length buffer - 1);
          buffer \<leftarrow> wr buffer (of_nat (length buffer - 1)) 0;
          Some (Some (buffer, result), printf Msg_newline (s\<lparr>sh_command := command, sh_command_length := 0\<rparr>))
        } else Some (None, s)
      else if data = 8 \<or> data = 0x7F then
        if 0 < sh_command_length s
        then Some (None, printf Msg_erase (s\<lparr>sh_command_length := sh_command_length s - 1\<rparr>))
        else Some (None, s)
      else if data = 3 then Some (None, printf Msg_cancel (s\<lparr>sh_command_length := 0\<rparr>))
      else if 32 \<le> data \<and> data \<le> 126 then
        if sh_command_length s < UART_APP_CMD_BUF_SIZE - 1 then do {
          command \<leftarrow> wr (sh_command s) (of_nat (sh_command_length s)) data;
          Some (None, printf (Msg_echo data)
            (s\<lparr>sh_command := command, sh_command_length := sh_command_length s + 1\<rparr>))
        } else Some (None, s)
      else Some (None, s))"

text \<open>The loop of \<open>uart_app_poll_command\<close>; \<open>rounds\<close> bounds the bytes it takes out of the ring.\<close>

fun poll_loop :: "nat \<Rightarrow> u8 list \<Rightarrow> shell \<Rightarrow> (int \<times> u8 list \<times> shell) option" where
  "poll_loop 0 buffer s = None"
| "poll_loop (Suc rounds) buffer s = do {
     (status, data, rb) \<leftarrow> rv_ringbuf_get (Some (sh_buf s)) (Some 0);
     let s = s\<lparr>sh_buf := the rb\<rparr>;
     if status \<noteq> RV_RINGBUF_OK then Some (- 1, buffer, s)
     else do {
       (line, s) \<leftarrow> shell_byte (the data) buffer s;
       case line of Some (buffer, result) \<Rightarrow> Some (result, buffer, s) | None \<Rightarrow> poll_loop rounds buffer s
     }
   }"

definition uart_app_poll_command :: "nat \<Rightarrow> u8 list \<Rightarrow> shell \<Rightarrow> (int \<times> u8 list \<times> shell) option" where
  "uart_app_poll_command rounds buffer s = do {
     let s = output_critical_enter s;
     (result, buffer, s) \<leftarrow> poll_loop rounds buffer s;
     Some (result, buffer, output_critical_exit s)
   }"


section \<open>Responses\<close>

definition response_timeout_ms :: "frame_kind \<Rightarrow> u32" where
  "response_timeout_ms kind = (if kind = FRAME_WORK then WORK_RESPONSE_TIMEOUT_MS else RESPONSE_TIMEOUT_MS)"

definition timeout_cycles :: "u32 \<Rightarrow> u32 \<Rightarrow> u64" where
  "timeout_cycles SystemCoreClock timeout_ms = ucast (SystemCoreClock div 1000) * ucast timeout_ms"

definition response_timed_out :: "u32 \<Rightarrow> shell \<Rightarrow> bool \<times> shell" where
  "response_timed_out clk s =
     (let (now, s) = get_cycle s;
          elapsed = now - sh_start_cycles s;
          limit = timeout_cycles clk (response_timeout_ms (sh_pending_kind s))
      in (sh_response_pending s \<noteq> 0 \<and> elapsed > limit, s))"

definition release_timed_out_response :: "u32 \<Rightarrow> shell \<Rightarrow> shell" where
  "release_timed_out_response clk s =
     (case response_timed_out clk s of (timed_out, s) \<Rightarrow>
        if \<not> timed_out then s
        else
          let s = printf (Msg_response_timeout (sh_pending_kind s)) s
          in s\<lparr>sh_response_pending := 0, sh_expected := 0, sh_timing := TIMING_NONE\<rparr>)"

definition response_busy :: "u32 \<Rightarrow> frame_kind \<Rightarrow> shell \<Rightarrow> bool \<times> shell" where
  "response_busy clk kind s =
     (if kind \<noteq> FRAME_INIT \<and> kind \<noteq> FRAME_SYNC then (False, s)
      else
        let s = release_timed_out_response clk s
        in if sh_response_pending s = 0 then (sh_rx_data_ready s \<noteq> 0, s)
           else if sh_rx_data_ready s \<noteq> 0 then (True, s)
           else if sh_pending_kind s = FRAME_WORK \<and> kind = FRAME_SYNC then (False, s)
           else (True, s))"

definition begin_response :: "frame_kind \<Rightarrow> u32 \<Rightarrow> timing_kind \<Rightarrow> shell \<Rightarrow> shell" where
  "begin_response kind expected timing s =
     (let s = s\<lparr>sh_rx_frame_count := 0, sh_rx_data_ready := 0, sh_expected := expected, sh_pending_kind := kind,
            sh_response_pending := 1, sh_timing := timing\<rparr>;
          (now, s) = get_cycle s
      in s\<lparr>sh_start_cycles := now\<rparr>)"


section \<open>Sending\<close>

text \<open>The loop of \<open>send_view\<close>; the words come in pairs, high first.\<close>

fun send_view_loop :: "u32 \<Rightarrow> frame_kind \<Rightarrow> u64 \<Rightarrow> u32 list \<Rightarrow> shell \<Rightarrow> bool \<times> shell" where
  "send_view_loop clk kind tx_start (high # low # words) s =
     (let s = s\<lparr>sh_hw := noc_fifo_write_frame_words_unlocked high low (sh_hw s)\<rparr>
      in if kind = FRAME_CONFIG then
           let (now, s) = get_cycle s
           in if now - tx_start > timeout_cycles clk CONFIG_SEND_TIMEOUT_MS then (True, s)
              else send_view_loop clk kind tx_start words s
         else send_view_loop clk kind tx_start words s)"
| "send_view_loop clk kind tx_start words s = (False, s)"

definition send_view :: "u32 \<Rightarrow> frame_kind \<Rightarrow> u32 list \<Rightarrow> shell \<Rightarrow> bool \<times> shell" where
  "send_view clk kind view_words s =
     (let s = printf (Msg_sending kind (length view_words div 2)) s;
          (tx_start, s) = get_cycle s;
          (tx_state, hw) = noc_enter_critical (sh_hw s);
          s = s\<lparr>sh_hw := hw\<rparr>;
          (transmit_timeout, s) = send_view_loop clk kind tx_start view_words s;
          s = (if kind \<noteq> FRAME_CONFIG \<and> sh_response_pending s \<noteq> 0
               then let (now, s) = get_cycle s in s\<lparr>sh_start_cycles := now\<rparr> else s);
          s = s\<lparr>sh_hw := noc_exit_critical tx_state (sh_hw s)\<rparr>
      in if transmit_timeout then (False, printf (Msg_transmit_timeout kind) s)
         else (True, printf (if kind = FRAME_CONFIG then Msg_config_sent else Msg_sent kind) s))"

definition send_frame :: "u32 \<Rightarrow> (frame_kind \<Rightarrow> u32 list option) \<Rightarrow> frame_kind \<Rightarrow> shell \<Rightarrow> shell" where
  "send_frame clk tables kind s =
     (let (status, view_words) = uart_app_get_frame tables kind
      in if status \<noteq> FRAME_AVAILABLE then printf (Msg_nothing_sent kind status) s
         else
           let (busy, s) = response_busy clk kind s
           in if busy then printf (Msg_response_pending kind) s
              else
                let work_response_in_flight = (sh_response_pending s \<noteq> 0 \<and> sh_pending_kind s = FRAME_WORK)
                in if kind = FRAME_TEST \<and>
                      (length view_words \<noteq> 2 \<or> drop_bit 30 (view_words ! 0) AND 3 \<noteq> 1)
                   then printf Msg_bad_test_frame s
                   else
                     let s = (if kind = FRAME_TEST
                              then begin_response kind ((view_words ! 1 AND 0x3FFF) + 1) TIMING_RESPONSE s
                              else if kind \<noteq> FRAME_CONFIG \<and> \<not> (work_response_in_flight \<and> kind = FRAME_SYNC)
                              then begin_response kind 0
                                     (if kind = FRAME_WORK then TIMING_COMPUTE else TIMING_RESPONSE) s
                              else s)
                     in snd (send_view clk kind view_words s))"

definition print_status :: "(frame_kind \<Rightarrow> u32 list option) \<Rightarrow> shell \<Rightarrow> shell" where
  "print_status tables s =
     printf (Msg_status (rv_ringbuf_available (Some (sh_buf s))) (sh_rx_data_ready s \<noteq> 0) (sh_rx_frame_count s)
         (sh_response_pending s \<noteq> 0)
         (map (\<lambda>kind. case uart_app_get_frame tables kind of (status, ws) \<Rightarrow> (kind, status, length ws))
            [FRAME_CONFIG, FRAME_INIT, FRAME_WORK, FRAME_SYNC, FRAME_TEST])) s"

text \<open>\<open>argv\<close> is the list of the arguments, the command's name first.\<close>

definition send_user_frame :: "u8 list list \<Rightarrow> shell \<Rightarrow> shell" where
  "send_user_frame argv s =
     (if length argv \<noteq> 2 then printf Msg_user_help (printf Msg_user_argc s)
      else if argv ! 1 = ascii ''help'' then printf Msg_user_help s
      else case uart_app_parse_u64 (Some (argv ! 1)) (Some (0, 0)) of (result, out) \<Rightarrow>
        if result \<noteq> 0 then printf Msg_user_value s
        else
          let (high, low) = the out;
              (kind, expected) = uart_app_classify_frame high low;
              s = printf (Msg_sending_user high low kind) s;
              s = begin_response (if kind = USER_WORK then FRAME_WORK else FRAME_INIT) expected
                    (if kind = USER_WORK then TIMING_COMPUTE else TIMING_RESPONSE) s;
              (tx_state, hw) = noc_enter_critical (sh_hw s);
              s = s\<lparr>sh_hw := noc_fifo_write_frame_words_unlocked high low hw\<rparr>;
              (now, s) = get_cycle s;
              s = s\<lparr>sh_start_cycles := now\<rparr>
          in s\<lparr>sh_hw := noc_exit_critical tx_state (sh_hw s)\<rparr>)"


section \<open>Commands\<close>

text \<open>The tokens \<open>strtok(copy, " \t")\<close> yields.\<close>

fun strtok_all :: "u8 list \<Rightarrow> u8 list \<Rightarrow> u8 list list" where
  "strtok_all [] acc = (if acc = [] then [] else [rev acc])"
| "strtok_all (c # cs) acc =
     (if c = 32 \<or> c = 9 then (if acc = [] then strtok_all cs [] else rev acc # strtok_all cs [])
      else strtok_all cs (c # acc))"

definition snn_command :: "u32 \<Rightarrow> (frame_kind \<Rightarrow> u32 list option) \<Rightarrow> u8 list \<Rightarrow> shell \<Rightarrow> shell" where
  "snn_command clk tables arg s =
     (if arg = ascii ''config'' then send_frame clk tables FRAME_CONFIG s
      else if arg = ascii ''init'' then send_frame clk tables FRAME_INIT s
      else if arg = ascii ''work'' \<or> arg = ascii ''input'' then send_frame clk tables FRAME_WORK s
      else if arg = ascii ''sync'' then send_frame clk tables FRAME_SYNC s
      else if arg = ascii ''test'' then send_frame clk tables FRAME_TEST s
      else if arg = ascii ''status'' then print_status tables s
      else printf (Msg_unknown_snn arg) s)"

definition clear_command :: "shell \<Rightarrow> shell" where
  "clear_command s =
     printf Msg_cleared
       (s\<lparr>sh_buf := the (rv_ringbuf_reset (Some (sh_buf s))), sh_command_length := 0, sh_rx_frame_count := 0,
          sh_rx_data_ready := 0, sh_response_pending := 0, sh_expected := 0, sh_timing := TIMING_NONE,
          sh_start_cycles := 0, sh_end_cycles := 0\<rparr>)"

text \<open>\<open>cmd\<close> is the caller's array; at most ten arguments are kept.\<close>

definition uart_app_process_command ::
    "u32 \<Rightarrow> (frame_kind \<Rightarrow> u32 list option) \<Rightarrow> u8 list option \<Rightarrow> shell \<Rightarrow> shell" where
  "uart_app_process_command clk tables cmd s =
     (case cmd of
        None \<Rightarrow> s
      | Some cmd \<Rightarrow>
          let copy = take (UART_APP_CMD_BUF_SIZE - 1) (takeWhile (\<lambda>c. c \<noteq> 0) cmd);
              tokens = strtok_all copy [];
              argv = take 10 tokens;
              argc = length argv;
              extra = (10 < length tokens)
          in if takeWhile (\<lambda>c. c \<noteq> 0) cmd = [] \<or> argc = 0 then s
             else
               let s = output_critical_enter s;
                   s = (if argv ! 0 = ascii ''help'' \<and> argc = 1 then printf Msg_help s
                        else if argv ! 0 = ascii ''status'' \<and> argc = 1 then print_status tables s
                        else if argv ! 0 = ascii ''clear'' \<and> argc = 1 then clear_command s
                        else if argv ! 0 = ascii ''log'' \<and> argc = 2 then printf Msg_log_disabled s
                        else if argv ! 0 = ascii ''snn'' \<and> argc = 2 then snn_command clk tables (argv ! 1) s
                        else if argv ! 0 = ascii ''user'' \<and> \<not> extra then send_user_frame argv s
                        else printf (Msg_invalid cmd) s)
               in output_critical_exit s)"


section \<open>Start-up and service\<close>

text \<open>
  The results of the two \<open>ECLIC_Register_IRQ\<close> calls are parameters; on success the call enables the source.
\<close>

definition zero_storage :: "u8 list" where
  "zero_storage = replicate (unat RX_BUF_STORAGE_SIZE) 0"

definition uart_app_init :: "i32 \<Rightarrow> i32 \<Rightarrow> uart_dev \<Rightarrow> shell \<Rightarrow> int \<times> uart_dev \<times> shell" where
  "uart_app_init uart_irq noc_irq d s =
     (let rb0 = \<lparr>storage = None, rb_size = 0, head = 0, tail = 0\<rparr>;
          s = s\<lparr>sh_rx_frame_count := 0, sh_rx_data_ready := 0, sh_response_pending := 0,
            sh_pending_kind := FRAME_CONFIG, sh_expected := 0, sh_timing := TIMING_NONE, sh_start_cycles := 0,
            sh_end_cycles := 0\<rparr>;
          (result, rb) = rv_ringbuf_init (Some rb0) (Some zero_storage) RX_BUF_STORAGE_SIZE;
          s = s\<lparr>sh_buf := the rb\<rparr>
      in if result \<noteq> RV_RINGBUF_OK then (- 1, d, printf Msg_init_failed s)
         else
           let d = the (snd (uart_set_rx_watermark (Some d) 1));
               d = the (snd (uart_enable_rxint (Some d)))
           in if uart_irq \<noteq> 0 then (- 1, d, printf (Msg_uart_irq_failed uart_irq) s)
              else if noc_irq \<noteq> 0 then (- 1, d, printf (Msg_noc_irq_failed noc_irq) s)
              else (0, d, s\<lparr>sh_hw := enable_irq (noc_irq_enable (sh_hw s))\<rparr>))"

definition uart_app_service_received_data :: "u32 \<Rightarrow> shell \<Rightarrow> int \<times> shell" where
  "uart_app_service_received_data clk s =
     (let s = output_critical_enter s;
          s = release_timed_out_response clk s
      in if sh_rx_data_ready s = 0 then (0, output_critical_exit s)
         else
           let s = printf (Msg_read (sh_rx_frame_count s)) s;
               s = (case sh_timing s of
                      TIMING_COMPUTE \<Rightarrow> print_cycles True (sh_start_cycles s) (sh_end_cycles s) s
                    | TIMING_RESPONSE \<Rightarrow> print_cycles False (sh_start_cycles s) (sh_end_cycles s) s
                    | TIMING_NONE \<Rightarrow> s);
               s = s\<lparr>sh_rx_data_ready := 0, sh_timing := TIMING_NONE\<rparr>
           in (1, output_critical_exit s))"

definition uart_app_print_prompt :: "shell \<Rightarrow> shell" where
  "uart_app_print_prompt s =
     (let s = output_critical_enter s;
          s = (if sh_prompt_printed s = 0 then (printf Msg_ready s)\<lparr>sh_prompt_printed := 1\<rparr> else s);
          s = printf Msg_prompt s
      in output_critical_exit s)"

text \<open>One round of the loop of \<open>main.c\<close>, uninterrupted.\<close>

definition main_round ::
    "nat \<Rightarrow> u32 \<Rightarrow> (frame_kind \<Rightarrow> u32 list option) \<Rightarrow> u8 list \<Rightarrow> shell \<Rightarrow> (u8 list \<times> shell) option" where
  "main_round rounds clk tables cmd_buf s = do {
     (cmd_len, cmd_buf, s) \<leftarrow> uart_app_poll_command rounds cmd_buf s;
     let s = (if 0 < cmd_len then uart_app_process_command clk tables (Some cmd_buf) s else s);
     let (served, s) = uart_app_service_received_data clk s;
     let s = (if served \<noteq> 0 \<or> 0 < cmd_len then uart_app_print_prompt s else s);
     Some (cmd_buf, s)
   }"

end
