(* ===== verification/UartShell_Laws.thy ===== *)
theory UartShell_Laws
  imports UartShell
begin

text \<open>
  Laws of the shell: the line editor, the state of the response it waits for under every interleaving of
  commands and interrupts, and when a command is allowed to reach the chip.
\<close>

section \<open>The line editor\<close>

text \<open>The editor on the bytes typed so far: a finished line, the line being typed, the bytes left.\<close>

fun edit_line :: "u8 list \<Rightarrow> u8 list \<Rightarrow> u8 list option \<times> u8 list \<times> u8 list" where
  "edit_line line [] = (None, line, [])"
| "edit_line line (c # cs) =
     (if c = 13 \<or> c = 10 then if line = [] then edit_line [] cs else (Some line, [], cs)
      else if c = 8 \<or> c = 0x7F then edit_line (butlast line) cs
      else if c = 3 then edit_line [] cs
      else if 32 \<le> c \<and> c \<le> 126 \<and> length line < 127 then edit_line (line @ [c]) cs
      else edit_line line cs)"

definition shell_line :: "shell \<Rightarrow> u8 list" where
  "shell_line s = take (sh_command_length s) (sh_command s)"

definition line_ok :: "shell \<Rightarrow> bool" where
  "line_ok s \<longleftrightarrow> rb_invar (sh_buf s) \<and> rb_size (sh_buf s) = RX_BUF_STORAGE_SIZE \<and> length (sh_command s) = 128 \<and>
     sh_command_length s \<le> 127 \<and> (\<forall>c \<in> set (shell_line s). c \<noteq> 0)"

lemma shell_line_append:
  assumes "length (sh_command s) = 128" "sh_command_length s \<le> 127"
  shows "take (Suc (sh_command_length s)) ((sh_command s)[sh_command_length s := c]) = shell_line s @ [c]"
  using assms by (simp add: shell_line_def take_Suc_conv_app_nth)

lemma shell_line_back:
  assumes "length (sh_command s) = 128" "sh_command_length s \<le> 127"
  shows "take (sh_command_length s - 1) (sh_command s) = butlast (shell_line s)"
  using assms by (simp add: shell_line_def butlast_take)

lemma strncpy_line:
  assumes "length buffer = n" "length line < n" "\<forall>c \<in> set line. c \<noteq> 0"
  shows "strncpy buffer (line @ 0 # junk) (n - 1) = line @ replicate (n - 1 - length line) 0 @ drop (n - 1) buffer"
proof -
  have "takeWhile (\<lambda>c. c \<noteq> 0) (line @ 0 # junk) = line" using assms(3) by (simp add: takeWhile_append2)
  then show ?thesis using assms(2) by (simp add: strncpy_def)
qed

text \<open>One byte.\<close>

lemma shell_byte_line:
  assumes ok: "line_ok s" and buf: "length buffer = 128"
    and fin: "c = 13 \<or> c = 10" "shell_line s \<noteq> []"
  shows "\<exists>buffer' s'. shell_byte c buffer s = Some (Some (buffer', int (length (shell_line s))), s') \<and>
    line_ok s' \<and> shell_line s' = [] \<and> sh_buf s' = sh_buf s \<and> length buffer' = 128 \<and>
    takeWhile (\<lambda>c. c \<noteq> 0) buffer' = shell_line s"
proof -
  let ?n = "sh_command_length s"
  have n: "length (sh_command s) = 128" "?n \<le> 127" "0 < ?n" "length (shell_line s) = ?n"
    using ok fin(2) by (auto simp: line_ok_def shell_line_def)
  have u: "unat (of_nat ?n :: u32) = ?n" using n by (simp add: unat_of_nat)
  have cmd: "(sh_command s)[?n := 0] = shell_line s @ 0 # drop (Suc ?n) (sh_command s)"
    using n by (simp add: shell_line_def upd_conv_take_nth_drop)
  have str: "strncpy buffer ((sh_command s)[?n := 0]) 127 = shell_line s @ replicate (127 - ?n) 0 @ drop 127 buffer"
    using strncpy_line [of buffer 128 "shell_line s" "drop (Suc ?n) (sh_command s)"] buf n ok
    by (simp add: cmd line_ok_def)
  have len: "length (shell_line s @ replicate (127 - ?n) 0 @ drop 127 buffer) = 128" using n buf by simp
  let ?b = "(shell_line s @ replicate (127 - ?n) 0 @ drop 127 buffer)[127 := 0]"
  have "?b = shell_line s @ replicate (127 - ?n) 0 @ [0]"
    using n buf by (simp add: list_update_append drop_Cons' list_eq_iff_nth_eq nth_append)
  then have "takeWhile (\<lambda>c. c \<noteq> 0) ?b = shell_line s"
    using ok n by (cases "127 - ?n") (simp_all add: line_ok_def takeWhile_append2)
  then show ?thesis
    using ok fin n u str len buf
    by (simp add: shell_byte_def printf_def line_ok_def shell_line_def)
qed

lemma shell_byte_edit:
  assumes ok: "line_ok s" and more: "\<not> ((c = 13 \<or> c = 10) \<and> shell_line s \<noteq> [])"
  shows "\<exists>s'. shell_byte c buffer s = Some (None, s') \<and> line_ok s' \<and> sh_buf s' = sh_buf s \<and>
    edit_line (shell_line s) (c # cs) = edit_line (shell_line s') cs"
proof -
  let ?n = "sh_command_length s"
  have n: "length (sh_command s) = 128" "?n \<le> 127" "length (shell_line s) = ?n" "?n = 0 \<longleftrightarrow> shell_line s = []"
    using ok by (auto simp: line_ok_def shell_line_def)
  have u: "unat (of_nat ?n :: u32) = ?n" using n by (simp add: unat_of_nat)
  consider (nl) "c = 13 \<or> c = 10" "shell_line s = []" | (bs) "c = 8 \<or> c = 0x7F" | (int) "c = 3"
    | (char) "32 \<le> c" "c \<le> 126" "?n < 127"
    | (skip) "c \<noteq> 13" "c \<noteq> 10" "c \<noteq> 8" "c \<noteq> 0x7F" "c \<noteq> 3" "\<not> (32 \<le> c \<and> c \<le> 126 \<and> ?n < 127)"
    using more by blast
  then show ?thesis
  proof cases
    case nl
    then show ?thesis using ok n by (auto simp: shell_byte_def)
  next
    case bs
    let ?s = "printf Msg_erase (s\<lparr>sh_command_length := ?n - 1\<rparr>)"
    have line: "shell_line ?s = butlast (shell_line s)"
      using shell_line_back [OF n(1,2)] by (simp add: printf_def shell_line_def)
    then have "line_ok ?s" using ok by (auto simp: line_ok_def printf_def dest: in_set_butlastD)
    with bs line ok n show ?thesis by (cases "0 < ?n") (auto simp: shell_byte_def printf_def)
  next
    case int
    let ?s = "printf Msg_cancel (s\<lparr>sh_command_length := 0\<rparr>)"
    have "shell_line ?s = []" "line_ok ?s" using ok by (auto simp: line_ok_def printf_def shell_line_def)
    with int show ?thesis by (auto simp: shell_byte_def printf_def)
  next
    case char
    let ?s = "printf (Msg_echo c) (s\<lparr>sh_command := (sh_command s)[?n := c], sh_command_length := ?n + 1\<rparr>)"
    have ne: "c \<noteq> 13" "c \<noteq> 10" "c \<noteq> 8" "c \<noteq> 0x7F" "c \<noteq> 3" "c \<noteq> 0" using char(1,2) by auto
    have line: "shell_line ?s = shell_line s @ [c]"
      using shell_line_append [OF n(1,2)] by (simp add: printf_def shell_line_def)
    then have "line_ok ?s" using ok ne char(3) by (auto simp: line_ok_def printf_def)
    with char ne line n u show ?thesis by (auto simp: shell_byte_def printf_def)
  next
    case skip
    then show ?thesis using ok n by (auto simp: shell_byte_def)
  qed
qed


lemma poll_loop_edits:
  assumes "line_ok s" "length buffer = 128" "rb_count (sh_buf s) < rounds"
    and "edit_line (shell_line s) (rb_contents (sh_buf s)) = (fin, line, rest)"
  shows "\<exists>buffer' s'. poll_loop rounds buffer s =
      Some (case fin of None \<Rightarrow> - 1 | Some l \<Rightarrow> int (length l), buffer', s') \<and>
    line_ok s' \<and> shell_line s' = line \<and> rb_contents (sh_buf s') = rest \<and> length buffer' = 128 \<and>
    (\<forall>l. fin = Some l \<longrightarrow> takeWhile (\<lambda>c. c \<noteq> 0) buffer' = l)"
  using assms
proof (induction rounds arbitrary: s buffer)
  case (Suc rounds)
  have inv: "rb_invar (sh_buf s)" using Suc.prems(1) by (simp add: line_ok_def)
  show ?case
  proof (cases "rb_contents (sh_buf s)")
    case Nil
    from get_empty [OF inv Nil] Suc.prems Nil show ?thesis by auto
  next
    case (Cons c cs)
    from get_delivers [OF inv Cons] obtain r where r:
      "rv_ringbuf_get (Some (sh_buf s)) (Some 0) = Some (RV_RINGBUF_OK, Some c, Some r)" "rb_invar r"
      "rb_size r = rb_size (sh_buf s)" "rb_contents r = cs" by blast
    let ?s = "s\<lparr>sh_buf := r\<rparr>"
    have line: "shell_line ?s = shell_line s" by (simp add: shell_line_def)
    have ok: "line_ok ?s" using Suc.prems(1) r line by (simp add: line_ok_def)
    show ?thesis
    proof (cases "(c = 13 \<or> c = 10) \<and> shell_line s \<noteq> []")
      case True
      with shell_byte_line [OF ok Suc.prems(2), of c] line obtain buffer' s' where
        "shell_byte c buffer ?s = Some (Some (buffer', int (length (shell_line s))), s')" "line_ok s'"
        "shell_line s' = []" "sh_buf s' = r" "length buffer' = 128"
        "takeWhile (\<lambda>c. c \<noteq> 0) buffer' = shell_line s" by auto
      moreover have "fin = Some (shell_line s)" "line = []" "rest = cs" using Suc.prems(4) Cons True by auto
      ultimately show ?thesis using r by simp
    next
      case False
      with shell_byte_edit [OF ok, of c buffer cs] line obtain s' where
        s': "shell_byte c buffer ?s = Some (None, s')" "line_ok s'" "sh_buf s' = r"
        "edit_line (shell_line s) (c # cs) = edit_line (shell_line s') cs" by auto
      have "rb_count (sh_buf s) = Suc (length cs)" using Cons by (metis length_Cons length_rb_contents)
      then have "rb_count (sh_buf s') < rounds" using Suc.prems(3) s'(3) r(4) by (metis Suc_less_SucD length_rb_contents)
      from Suc.IH [OF s'(2) Suc.prems(2) this] Suc.prems(4) Cons s' r show ?thesis by auto
    qed
  qed
qed simp

lemma line_ok_hw [simp]: "line_ok (s\<lparr>sh_hw := hw\<rparr>) = line_ok s" "shell_line (s\<lparr>sh_hw := hw\<rparr>) = shell_line s"
  by (simp_all add: line_ok_def shell_line_def)

lemma poll_edits_lemma:
  assumes "line_ok s" "length buffer = 128" "rb_count (sh_buf s) < rounds"
    and "edit_line (shell_line s) (rb_contents (sh_buf s)) = (fin, line, rest)"
  shows "\<exists>buffer' s'. uart_app_poll_command rounds buffer s =
      Some (case fin of None \<Rightarrow> - 1 | Some l \<Rightarrow> int (length l), buffer', s') \<and>
    line_ok s' \<and> shell_line s' = line \<and> rb_contents (sh_buf s') = rest \<and> length buffer' = 128 \<and>
    (\<forall>l. fin = Some l \<longrightarrow> takeWhile (\<lambda>c. c \<noteq> 0) buffer' = l)"
proof -
  let ?s = "output_critical_enter s"
  have "line_ok ?s" "rb_count (sh_buf ?s) < rounds"
    "edit_line (shell_line ?s) (rb_contents (sh_buf ?s)) = (fin, line, rest)"
    using assms by (simp_all add: output_critical_enter_def)
  from poll_loop_edits [OF this(1) assms(2) this(2,3)] show ?thesis
    by (auto simp: uart_app_poll_command_def output_critical_exit_def)
qed

text \<open>C39.  Polling the shell is the line editor: from the bytes waiting in the ring it takes what completes
  a line, with backspace, interrupt and the limit of 127 characters applied; the caller's buffer then holds
  the line as a C string and the result is its length.  Without a complete line it returns \<open>-1\<close> and the
  line goes on with the next poll.  No access leaves a buffer, and one round per waiting byte and one
  more are enough.\<close>

theorem poll_edits_lines:
  assumes "line_ok s" "length buffer = 128" "rb_count (sh_buf s) < rounds"
    and "edit_line (shell_line s) (rb_contents (sh_buf s)) = (fin, line, rest)"
  shows "\<exists>buffer' s'. uart_app_poll_command rounds buffer s =
      Some (case fin of None \<Rightarrow> - 1 | Some l \<Rightarrow> int (length l), buffer', s') \<and>
    line_ok s' \<and> shell_line s' = line \<and> rb_contents (sh_buf s') = rest \<and> length buffer' = 128 \<and>
    (\<forall>l. fin = Some l \<longrightarrow> takeWhile (\<lambda>c. c \<noteq> 0) buffer' = l)"
  by (rule poll_edits_lemma [OF assms])

text \<open>\<open>helx\<close>, backspace, \<open>p\<close>, return, and one byte of the next line.\<close>

definition demo_shell :: "u8 list \<Rightarrow> shell" where
  "demo_shell typed = \<lparr>sh_buf = \<lparr>storage = Some (typed @ replicate (513 - length typed) 0), rb_size = 513,
       head = of_nat (length typed), tail = 0\<rparr>,
     sh_rx_frame_count = 0, sh_rx_data_ready = 0, sh_response_pending = 0, sh_pending_kind = FRAME_CONFIG,
     sh_expected = 0, sh_timing = TIMING_NONE, sh_start_cycles = 0, sh_end_cycles = 0,
     sh_command = replicate 128 0, sh_command_length = 0, sh_prompt_printed = 1,
     sh_hw = \<lparr>hw_down = [], hw_up = [], hw_pending = 0, hw_irq_enable = 1, hw_mstatus = 8\<rparr>,
     sh_clock = of_nat, sh_reads = 0, sh_out = []\<rparr>"

lemma demo_shell_ring:
  assumes "length typed < 513"
  shows "rb_invar (sh_buf (demo_shell typed))" "rb_contents (sh_buf (demo_shell typed)) = typed"
    "rb_count (sh_buf (demo_shell typed)) = length typed"
proof -
  have u: "unat (of_nat (length typed) :: u32) = length typed" using assms by (simp add: unat_of_nat)
  then have lt: "(of_nat (length typed) :: u32) < 513" using assms by (simp add: word_less_nat_alt)
  show cnt: "rb_count (sh_buf (demo_shell typed)) = length typed"
    using assms u by (simp add: rb_count_def demo_shell_def)
  show "rb_invar (sh_buf (demo_shell typed))" using assms lt by (simp add: rb_invar_def demo_shell_def)
  show "rb_contents (sh_buf (demo_shell typed)) = typed"
    unfolding rb_contents_def cnt using assms
    by (intro nth_equalityI) (simp_all add: demo_shell_def nth_append)
qed

theorem poll_edits_lines_witness:
  "\<exists>buffer' s'. uart_app_poll_command 8 (replicate 128 0) (demo_shell [104, 101, 108, 120, 8, 112, 13]) =
      Some (4, buffer', s') \<and> takeWhile (\<lambda>c. c \<noteq> 0) buffer' = [104, 101, 108, 112] \<and>
    rb_contents (sh_buf s') = []"
proof -
  let ?s = "demo_shell [104, 101, 108, 120, 8, 112, 13]"
  note ring = demo_shell_ring [of "[104, 101, 108, 120, 8, 112, 13]"]
  have empty: "shell_line ?s = []" by (simp add: shell_line_def demo_shell_def)
  have ok: "line_ok ?s"
    using ring empty by (simp add: line_ok_def) (simp add: demo_shell_def)
  show ?thesis
    using poll_edits_lines [OF ok, of "replicate 128 0" 8 "Some [104, 101, 108, 112]" "[]" "[]"] ring
    by (simp add: empty) blast
qed


section \<open>The awaited response\<close>

text \<open>
  A response is awaited or ready, never both; frames are counted only for an awaited response, and an
  awaited response is being timed.
\<close>

definition response_ok :: "shell \<Rightarrow> bool" where
  "response_ok s \<longleftrightarrow>
     (sh_response_pending s \<noteq> 0 \<longrightarrow> sh_rx_data_ready s = 0 \<and> sh_timing s \<noteq> TIMING_NONE) \<and>
     (sh_expected s \<noteq> 0 \<longrightarrow> sh_response_pending s \<noteq> 0)"

definition shell_ok :: "shell \<Rightarrow> bool" where
  "shell_ok s \<longleftrightarrow> line_ok s \<and> response_ok s \<and> noc_irq_is_enabled (sh_hw s)"

text \<open>What the operations leave alone: the editor's state, and the state of the response.\<close>

definition line_part :: "shell \<Rightarrow> rv_ringbuf \<times> u8 list \<times> nat" where
  "line_part s = (sh_buf s, sh_command s, sh_command_length s)"

definition response_part :: "shell \<Rightarrow> u8 \<times> u8 \<times> u32 \<times> timing_kind" where
  "response_part s = (sh_rx_data_ready s, sh_response_pending s, sh_expected s, sh_timing s)"

lemma line_ok_part: "line_part s' = line_part s \<Longrightarrow> line_ok s' = line_ok s"
  by (simp add: line_part_def line_ok_def shell_line_def)

lemma response_ok_part: "response_part s' = response_part s \<Longrightarrow> response_ok s' = response_ok s"
  by (simp add: response_part_def response_ok_def)

lemmas part_defs = line_part_def response_part_def

lemma printf_parts [simp]:
  "line_part (printf m s) = line_part s" "response_part (printf m s) = response_part s"
  "sh_hw (printf m s) = sh_hw s" "sh_response_pending (printf m s) = sh_response_pending s"
  "sh_pending_kind (printf m s) = sh_pending_kind s" "sh_rx_data_ready (printf m s) = sh_rx_data_ready s"
  by (simp_all add: printf_def part_defs)

lemma get_cycle_parts:
  assumes "get_cycle s = (now, s')"
  shows "line_part s' = line_part s" "response_part s' = response_part s" "sh_hw s' = sh_hw s"
    "sh_pending_kind s' = sh_pending_kind s" "sh_response_pending s' = sh_response_pending s"
    "sh_rx_data_ready s' = sh_rx_data_ready s" "sh_start_cycles s' = sh_start_cycles s"
  using assms by (auto simp: get_cycle_def part_defs)

lemma hw_parts [simp]:
  "line_part (s\<lparr>sh_hw := hw\<rparr>) = line_part s" "response_part (s\<lparr>sh_hw := hw\<rparr>) = response_part s"
  "line_part (s\<lparr>sh_start_cycles := t\<rparr>) = line_part s" "response_part (s\<lparr>sh_start_cycles := t\<rparr>) = response_part s"
  "line_part (s\<lparr>sh_reads := n\<rparr>) = line_part s" "response_part (s\<lparr>sh_reads := n\<rparr>) = response_part s"
  by (simp_all add: part_defs)

lemma ok_frame [simp]:
  "response_ok (printf m s) = response_ok s" "line_ok (printf m s) = line_ok s"
  "response_ok (s\<lparr>sh_hw := hw\<rparr>) = response_ok s" "response_ok (s\<lparr>sh_start_cycles := t\<rparr>) = response_ok s"
  "response_ok (s\<lparr>sh_reads := n\<rparr>) = response_ok s"
  by (simp_all add: response_ok_def line_ok_def shell_line_def printf_def)

lemma release_parts:
  "line_part (release_timed_out_response clk s) = line_part s"
  "sh_hw (release_timed_out_response clk s) = sh_hw s"
  "response_ok s \<Longrightarrow> response_ok (release_timed_out_response clk s)"
  by (auto simp: release_timed_out_response_def response_timed_out_def get_cycle_def printf_def part_defs
      response_ok_def Let_def)

lemma response_busy_parts:
  assumes "response_busy clk kind s = (busy, s')"
  shows "line_part s' = line_part s" "sh_hw s' = sh_hw s" "response_ok s \<Longrightarrow> response_ok s'"
  using assms release_parts [where clk = clk and s = s] by (auto simp: response_busy_def Let_def split: if_splits)

lemma begin_response_parts:
  "line_part (begin_response kind expected timing s) = line_part s"
  "sh_hw (begin_response kind expected timing s) = sh_hw s"
  "timing \<noteq> TIMING_NONE \<Longrightarrow> response_ok (begin_response kind expected timing s)"
  by (simp_all add: begin_response_def get_cycle_def part_defs response_ok_def)

text \<open>Only what is sent changes the hardware: whole frames, low word first.\<close>

fun frame_pairs :: "u32 list \<Rightarrow> u32 list" where
  "frame_pairs (high # low # words) = low # high # frame_pairs words"
| "frame_pairs words = []"

lemma send_view_loop_parts:
  "send_view_loop clk kind t ws s = (late, s') \<Longrightarrow>
     line_part s' = line_part s \<and> response_part s' = response_part s \<and>
     (\<exists>n. sh_hw s' = (sh_hw s)\<lparr>hw_down := hw_down (sh_hw s) @ take (2 * n) (frame_pairs ws)\<rparr> \<and>
          (kind \<noteq> FRAME_CONFIG \<longrightarrow> \<not> late \<and> take (2 * n) (frame_pairs ws) = frame_pairs ws))"
proof (induction clk kind t ws s rule: send_view_loop.induct)
  case (1 clk kind t high low ws s)
  let ?s = "s\<lparr>sh_hw := noc_fifo_write_frame_words_unlocked high low (sh_hw s)\<rparr>"
  show ?case
  proof (cases "kind = FRAME_CONFIG")
    case config: True
    obtain now s1 where now: "get_cycle ?s = (now, s1)" by fastforce
    note parts = get_cycle_parts [OF now]
    show ?thesis
    proof (cases "now - t > timeout_cycles clk CONFIG_SEND_TIMEOUT_MS")
      case True
      with 1 config now parts show ?thesis
        by (auto simp: Let_def noc_write_unlocked_eq intro!: exI [of _ 1])
    next
      case False
      from 1(1) [OF refl config now [symmetric] refl False] 1(3) config now False parts
      obtain n where "line_part s' = line_part s" "response_part s' = response_part s"
        "sh_hw s' = (sh_hw s1)\<lparr>hw_down := hw_down (sh_hw s1) @ take (2 * n) (frame_pairs ws)\<rparr>"
        by (auto simp: Let_def)
      with parts config show ?thesis
        by (intro conjI exI [of _ "Suc n"]) (auto simp: noc_write_unlocked_eq)
    qed
  next
    case False
    from 1(2) [OF refl False] 1(3) False obtain n where "line_part s' = line_part s"
      "response_part s' = response_part s" "\<not> late" "take (2 * n) (frame_pairs ws) = frame_pairs ws"
      "sh_hw s' = (sh_hw ?s)\<lparr>hw_down := hw_down (sh_hw ?s) @ take (2 * n) (frame_pairs ws)\<rparr>"
      by (auto simp: Let_def)
    then show ?thesis
      by (intro conjI exI [of _ "Suc n"]) (auto simp: noc_write_unlocked_eq)
  qed
qed (auto intro: exI [of _ 0])

lemma send_view_parts:
  assumes "send_view clk kind ws s = (sent, s')"
  shows "line_part s' = line_part s" "response_part s' = response_part s"
    "hw_irq_enable (sh_hw s') = hw_irq_enable (sh_hw s)"
    "kind \<noteq> FRAME_CONFIG \<Longrightarrow> sent \<and> hw_down (sh_hw s') = hw_down (sh_hw s) @ frame_pairs ws"
proof -
  obtain tx s1 where c: "get_cycle (printf (Msg_sending kind (length ws div 2)) s) = (tx, s1)" by fastforce
  obtain late s2 where l: "send_view_loop clk kind tx ws (s1\<lparr>sh_hw := disable_irq (sh_hw s1)\<rparr>) = (late, s2)" by fastforce
  note 1 = get_cycle_parts [OF c] and 2 = send_view_loop_parts [OF l]
  let ?s3 = "if kind \<noteq> FRAME_CONFIG \<and> sh_response_pending s2 \<noteq> 0
    then let (now, s) = get_cycle s2 in s\<lparr>sh_start_cycles := now\<rparr> else s2"
  have 3: "line_part ?s3 = line_part s2" "response_part ?s3 = response_part s2" "sh_hw ?s3 = sh_hw s2"
    by (auto simp: get_cycle_def part_defs)
  have s': "s' = printf (if late then Msg_transmit_timeout kind
        else if kind = FRAME_CONFIG then Msg_config_sent else Msg_sent kind)
      (?s3\<lparr>sh_hw := noc_exit_critical (hw_mstatus (sh_hw s1)) (sh_hw s2)\<rparr>)" "sent = (\<not> late)"
    using assms c l 3(3) unfolding send_view_def Let_def noc_enter_critical_def by (auto split: if_splits)
  show "line_part s' = line_part s" "response_part s' = response_part s"
    using s' 1 2 3 by (auto simp: printf_parts)
  show "hw_irq_enable (sh_hw s') = hw_irq_enable (sh_hw s)"
    "kind \<noteq> FRAME_CONFIG \<Longrightarrow> sent \<and> hw_down (sh_hw s') = hw_down (sh_hw s) @ frame_pairs ws"
    using s' 1 2 by (auto simp: noc_exit_critical_def enable_irq_def disable_irq_def)
qed


text \<open>
  When a frame of the tables is sent: the table is there, the command is not held back, and a test frame is one
  test request.  Then every word of it reaches the chip.
\<close>

definition frame_allowed :: "u32 \<Rightarrow> (frame_kind \<Rightarrow> u32 list option) \<Rightarrow> frame_kind \<Rightarrow> shell \<Rightarrow> bool" where
  "frame_allowed clk tables kind s \<longleftrightarrow>
     (case uart_app_get_frame tables kind of (status, ws) \<Rightarrow>
        status = FRAME_AVAILABLE \<and> \<not> fst (response_busy clk kind s) \<and>
        (kind = FRAME_TEST \<longrightarrow> length ws = 2 \<and> drop_bit 30 (ws ! 0) AND 3 = 1))"

lemma send_frame_laws:
  "line_part (send_frame clk tables kind s) = line_part s"
  "response_ok s \<Longrightarrow> response_ok (send_frame clk tables kind s)"
  "hw_irq_enable (sh_hw (send_frame clk tables kind s)) = hw_irq_enable (sh_hw s)"
  "\<not> frame_allowed clk tables kind s \<Longrightarrow> sh_hw (send_frame clk tables kind s) = sh_hw s"
  "frame_allowed clk tables kind s \<Longrightarrow> kind \<noteq> FRAME_CONFIG \<Longrightarrow>
     hw_down (sh_hw (send_frame clk tables kind s)) =
       hw_down (sh_hw s) @ frame_pairs (snd (uart_app_get_frame tables kind))"
proof -
  obtain status ws where f: "uart_app_get_frame tables kind = (status, ws)" by fastforce
  obtain busy s1 where b: "response_busy clk kind s = (busy, s1)" by fastforce
  note busy = response_busy_parts [OF b]
  let ?flight = "sh_response_pending s1 \<noteq> 0 \<and> sh_pending_kind s1 = FRAME_WORK"
  let ?bad = "kind = FRAME_TEST \<and> (length ws \<noteq> 2 \<or> drop_bit 30 (ws ! 0) AND 3 \<noteq> 1)"
  define s2 where "s2 = (if kind = FRAME_TEST then begin_response kind ((ws ! 1 AND 0x3FFF) + 1) TIMING_RESPONSE s1
    else if kind \<noteq> FRAME_CONFIG \<and> \<not> (?flight \<and> kind = FRAME_SYNC)
    then begin_response kind 0 (if kind = FRAME_WORK then TIMING_COMPUTE else TIMING_RESPONSE) s1 else s1)"
  obtain sent s3 where v: "send_view clk kind ws s2 = (sent, s3)" by fastforce
  have eq: "send_frame clk tables kind s =
      (if status \<noteq> FRAME_AVAILABLE then printf (Msg_nothing_sent kind status) s
       else if busy then printf (Msg_response_pending kind) s1
       else if ?bad then printf Msg_bad_test_frame s1 else s3)"
    using f b v unfolding send_frame_def s2_def by (auto simp: Let_def)
  have 2: "line_part s2 = line_part s1" "sh_hw s2 = sh_hw s1" "response_ok s1 \<Longrightarrow> response_ok s2"
    by (simp_all add: s2_def begin_response_parts)
  note 3 = send_view_parts [OF v]
  have ok: "response_ok s3" if "response_ok s" using busy(3) [OF that] 2(3) response_ok_part [OF 3(2)] by simp
  have allowed: "frame_allowed clk tables kind s \<longleftrightarrow> status = FRAME_AVAILABLE \<and> \<not> busy \<and> \<not> ?bad"
    using f b by (auto simp: frame_allowed_def)
  show "line_part (send_frame clk tables kind s) = line_part s"
    "hw_irq_enable (sh_hw (send_frame clk tables kind s)) = hw_irq_enable (sh_hw s)"
    unfolding eq using busy 2 3 by (auto simp: if_split)
  show "response_ok s \<Longrightarrow> response_ok (send_frame clk tables kind s)"
    unfolding eq using busy(3) ok by (auto simp: if_split)
  show "\<not> frame_allowed clk tables kind s \<Longrightarrow> sh_hw (send_frame clk tables kind s) = sh_hw s"
    unfolding eq allowed using busy(2) by auto
  show "frame_allowed clk tables kind s \<Longrightarrow> kind \<noteq> FRAME_CONFIG \<Longrightarrow>
     hw_down (sh_hw (send_frame clk tables kind s)) =
       hw_down (sh_hw s) @ frame_pairs (snd (uart_app_get_frame tables kind))"
    unfolding eq allowed using busy(2) 2(2) 3(4) f by auto
qed

lemma send_user_frame_laws:
  "line_part (send_user_frame argv s) = line_part s"
  "response_ok s \<Longrightarrow> response_ok (send_user_frame argv s)"
  "hw_irq_enable (sh_hw (send_user_frame argv s)) = hw_irq_enable (sh_hw s)"
proof -
  obtain result out where p: "uart_app_parse_u64 (Some (argv ! 1)) (Some (0, 0)) = (result, out)" by fastforce
  obtain high low where hl: "the out = (high, low)" by fastforce
  obtain kind expected where c: "uart_app_classify_frame high low = (kind, expected)" by fastforce
  let ?b = "begin_response (if kind = USER_WORK then FRAME_WORK else FRAME_INIT) expected
    (if kind = USER_WORK then TIMING_COMPUTE else TIMING_RESPONSE) (printf (Msg_sending_user high low kind) s)"
  have b: "line_part ?b = line_part s" "response_ok ?b" "sh_hw ?b = sh_hw s"
    by (simp_all add: begin_response_parts)
  have eq: "send_user_frame argv s =
      (if length argv \<noteq> 2 then printf Msg_user_help (printf Msg_user_argc s)
       else if argv ! 1 = ascii ''help'' then printf Msg_user_help s
       else if result \<noteq> 0 then printf Msg_user_value s
       else (?b\<lparr>sh_hw := noc_exit_critical (hw_mstatus (sh_hw s))
                 (noc_fifo_write_frame_words_unlocked high low (disable_irq (sh_hw s))),
               sh_start_cycles := sh_clock ?b (sh_reads ?b), sh_reads := Suc (sh_reads ?b)\<rparr>))"
    using b(3) unfolding send_user_frame_def p by (simp add: hl c Let_def noc_enter_critical_def get_cycle_def)
  show "line_part (send_user_frame argv s) = line_part s"
    unfolding eq using b(1) by simp
  show "response_ok s \<Longrightarrow> response_ok (send_user_frame argv s)"
    unfolding eq using b(2) by simp
  show "hw_irq_enable (sh_hw (send_user_frame argv s)) = hw_irq_enable (sh_hw s)"
    unfolding eq by (simp add: noc_write_unlocked_eq noc_exit_critical_def enable_irq_def disable_irq_def)
qed


lemma clear_laws: "line_ok s \<Longrightarrow> line_ok (clear_command s) \<and> response_ok (clear_command s)"
proof -
  assume ok: "line_ok s"
  then have "rb_invar (sh_buf s)" by (simp add: line_ok_def)
  from reset_refines [OF this] obtain r where
    "rv_ringbuf_reset (Some (sh_buf s)) = Some r" "rb_invar r" "rb_size r = rb_size (sh_buf s)" by blast
  with ok show ?thesis
    by (simp add: clear_command_def) (simp add: line_ok_def response_ok_def shell_line_def)
qed

lemma clear_hw: "sh_hw (clear_command s) = sh_hw s"
  by (simp add: clear_command_def)

lemma print_status_ok [simp]:
  "line_ok (print_status tables s) = line_ok s" "response_ok (print_status tables s) = response_ok s"
  "sh_hw (print_status tables s) = sh_hw s"
  by (simp_all add: print_status_def)

lemma snn_command_ok:
  assumes "line_ok s" "response_ok s"
  shows "line_ok (snn_command clk tables arg s)" "response_ok (snn_command clk tables arg s)"
    "hw_irq_enable (sh_hw (snn_command clk tables arg s)) = hw_irq_enable (sh_hw s)"
  using assms send_frame_laws(2,3) line_ok_part [OF send_frame_laws(1)]
  by (simp_all add: snn_command_def)

lemma critical_ok [simp]:
  "line_ok (output_critical_enter s) = line_ok s" "response_ok (output_critical_enter s) = response_ok s"
  "line_ok (output_critical_exit s) = line_ok s" "response_ok (output_critical_exit s) = response_ok s"
  "noc_irq_is_enabled (sh_hw (output_critical_exit s))"
  by (simp_all add: output_critical_enter_def output_critical_exit_def noc_irq_is_enabled_def noc_irq_enable_def)

lemma process_ok:
  assumes "shell_ok s"
  shows "shell_ok (uart_app_process_command clk tables cmd s)"
proof (cases cmd)
  case None
  with assms show ?thesis by (simp add: uart_app_process_command_def)
next
  case (Some c)
  let ?argv = "take 10 (strtok_all (take 127 (takeWhile (\<lambda>c. c \<noteq> 0) c)) [])"
  let ?s = "output_critical_enter s"
  have s: "shell_ok s" "line_ok ?s" "response_ok ?s" using assms by (simp_all add: shell_ok_def)
  define s' where "s' = (if ?argv ! 0 = ascii ''help'' \<and> length ?argv = 1 then printf Msg_help ?s
      else if ?argv ! 0 = ascii ''status'' \<and> length ?argv = 1 then print_status tables ?s
      else if ?argv ! 0 = ascii ''clear'' \<and> length ?argv = 1 then clear_command ?s
      else if ?argv ! 0 = ascii ''log'' \<and> length ?argv = 2 then printf Msg_log_disabled ?s
      else if ?argv ! 0 = ascii ''snn'' \<and> length ?argv = 2 then snn_command clk tables (?argv ! 1) ?s
      else if ?argv ! 0 = ascii ''user'' \<and> \<not> 10 < length (strtok_all (take 127 (takeWhile (\<lambda>c. c \<noteq> 0) c)) [])
      then send_user_frame ?argv ?s else printf (Msg_invalid c) ?s)"
  have eq: "uart_app_process_command clk tables cmd s = s \<or>
      uart_app_process_command clk tables cmd s = output_critical_exit s'"
  proof (cases "takeWhile (\<lambda>c. c \<noteq> 0) c = [] \<or> length ?argv = 0")
    case True
    have num: "(UART_APP_CMD_BUF_SIZE :: nat) - 1 = 127" by simp
    show ?thesis unfolding Some uart_app_process_command_def Let_def option.case num if_P [OF True] by blast
  next
    case False
    have num: "(UART_APP_CMD_BUF_SIZE :: nat) - 1 = 127" by simp
    show ?thesis unfolding Some uart_app_process_command_def s'_def Let_def option.case num if_not_P [OF False] by blast
  qed
  have "line_ok s'" "response_ok s'"
    using s(2,3) clear_laws [OF s(2)] snn_command_ok [OF s(2,3)] send_user_frame_laws(2) [OF s(3)]
      line_ok_part [OF send_user_frame_laws(1) [of ?argv ?s]]
    unfolding s'_def by auto
  with eq assms show ?thesis by (auto simp: shell_ok_def)
qed

lemma service_ok:
  assumes "shell_ok s"
  shows "shell_ok (snd (uart_app_service_received_data clk s))"
proof -
  let ?r = "release_timed_out_response clk (output_critical_enter s)"
  have r: "line_ok ?r" "response_ok ?r"
    using assms line_ok_part [OF release_parts(1)] release_parts(3) by (simp_all add: shell_ok_def)
  have cyc: "line_ok (print_cycles a b c s) = line_ok s" "sh_response_pending (print_cycles a b c s) = sh_response_pending s"
    "sh_expected (print_cycles a b c s) = sh_expected s" for a b c s
    by (simp_all add: print_cycles_def printf_def line_ok_def shell_line_def Let_def)
  show ?thesis
  proof (cases "sh_rx_data_ready ?r = 0")
    case True
    with r show ?thesis by (simp add: uart_app_service_received_data_def shell_ok_def Let_def)
  next
    case False
    with r(2) have idle: "sh_response_pending ?r = 0" "sh_expected ?r = 0" by (auto simp: response_ok_def)
    let ?s = "printf (Msg_read (sh_rx_frame_count ?r)) ?r"
    define t where "t = (case sh_timing ?s of
        TIMING_COMPUTE \<Rightarrow> print_cycles True (sh_start_cycles ?s) (sh_end_cycles ?s) ?s
      | TIMING_RESPONSE \<Rightarrow> print_cycles False (sh_start_cycles ?s) (sh_end_cycles ?s) ?s
      | TIMING_NONE \<Rightarrow> ?s)"
    have t: "line_ok t" "sh_response_pending t = 0" "sh_expected t = 0"
      using r(1) idle by (auto simp: t_def cyc split: timing_kind.split) (simp_all add: printf_def)
    have "snd (uart_app_service_received_data clk s) =
        output_critical_exit (t\<lparr>sh_rx_data_ready := 0, sh_timing := TIMING_NONE\<rparr>)"
      using False unfolding uart_app_service_received_data_def Let_def t_def by simp
    with t show ?thesis
      by (simp add: shell_ok_def) (simp add: line_ok_def shell_line_def response_ok_def)
  qed
qed


text \<open>The interrupt of the NoC: a finished response is no longer awaited nor counted.\<close>

lemma handle_frame_parts:
  assumes "handle_noc_frame high low s = (stop, s')"
  shows "line_part s' = line_part s" "sh_hw s' = sh_hw s" "sh_response_pending s' = sh_response_pending s"
    "sh_rx_data_ready s' = sh_rx_data_ready s" "sh_timing s' = sh_timing s"
    "sh_expected s' = (if stop then 0 else sh_expected s)"
  using assms by (auto simp: handle_noc_frame_def printf_def line_part_def Let_def split: if_splits)

lemma frames_loop_parts:
  "noc_frames_loop s = Some (stop, s') \<Longrightarrow>
     line_part s' = line_part s \<and> sh_response_pending s' = sh_response_pending s \<and>
     sh_rx_data_ready s' = sh_rx_data_ready s \<and> sh_timing s' = sh_timing s \<and>
     sh_expected s' = (if stop then 0 else sh_expected s)"
proof (induction s rule: noc_frames_loop.induct)
  case (1 s)
  from 1(2) obtain result high low hw where rd:
    "noc_fifo_read_frame_words (Some 0) (Some 0) (sh_hw s) = Some (result, high, low, hw)"
    by (subst (asm) noc_frames_loop.simps) (auto split: option.splits)
  then have zero: "result = 0" by (auto simp: noc_read_eq split: list.splits)
  obtain stop1 s1 where h: "handle_noc_frame (the high) (the low) (s\<lparr>sh_hw := hw\<rparr>) = (stop1, s1)" by fastforce
  note parts = handle_frame_parts [OF h]
  have loop: "noc_frames_loop s = (if stop1 then Some (True, s1) else noc_frames_loop s1)"
    using rd zero h by (subst noc_frames_loop.simps) simp
  show ?case
  proof (cases stop1)
    case True
    with 1(2) loop parts show ?thesis by auto
  next
    case False
    from 1(1) [OF rd refl refl refl _ refl] h zero False 1(2) loop
    have "line_part s' = line_part s1 \<and> sh_response_pending s' = sh_response_pending s1 \<and>
       sh_rx_data_ready s' = sh_rx_data_ready s1 \<and> sh_timing s' = sh_timing s1 \<and>
       sh_expected s' = (if stop then 0 else sh_expected s1)"
      by auto
    with parts False show ?thesis by auto
  qed
qed

lemma handler_ok:
  assumes "shell_noc_handler s = Some s'" "line_ok s" "response_ok s"
  shows "shell_ok s'"
proof -
  from assms(1) obtain stop s1 where l:
    "noc_frames_loop (s\<lparr>sh_hw := noc_irq_disable (noc_irq_ack (sh_hw s))\<rparr>) = Some (stop, s1)"
    and s': "s' = (if stop then (snd (get_cycle s1))\<lparr>sh_end_cycles := fst (get_cycle s1), sh_response_pending := 0,
        sh_rx_data_ready := 1\<rparr> else s1)\<lparr>sh_hw := noc_irq_enable (sh_hw s1)\<rparr>"
    by (auto simp: shell_noc_handler_def get_cycle_def Let_def split: bind_splits)
  note parts = frames_loop_parts [OF l]
  have line: "line_part s' = line_part s" using parts s' by (simp add: get_cycle_def line_part_def)
  show ?thesis
    using assms(2,3) parts line_ok_part [OF line]
    by (auto simp: shell_ok_def response_ok_def s' get_cycle_def noc_irq_enable_def noc_irq_is_enabled_def)
qed

lemma shell_byte_parts:
  assumes "shell_byte c buffer s = Some (l, s')"
  shows "response_part s' = response_part s" "sh_hw s' = sh_hw s"
  using assms
  by (auto simp: shell_byte_def printf_def response_part_def Let_def split: if_splits bind_splits)

lemma poll_loop_parts:
  "poll_loop rounds buffer s = Some (r, buffer', s') \<Longrightarrow> response_part s' = response_part s"
proof (induction rounds arbitrary: buffer s)
  case (Suc rounds)
  from Suc.prems obtain status data rb where g:
    "rv_ringbuf_get (Some (sh_buf s)) (Some 0) = Some (status, data, rb)"
    by (auto split: bind_splits)
  let ?s = "s\<lparr>sh_buf := the rb\<rparr>"
  have same: "response_part ?s = response_part s" by (simp add: response_part_def)
  show ?case
  proof (cases "status = RV_RINGBUF_OK")
    case True
    with Suc.prems g obtain line s1 where b: "shell_byte (the data) buffer ?s = Some (line, s1)"
      by (auto split: bind_splits)
    note parts = shell_byte_parts [OF b]
    show ?thesis
    proof (cases line)
      case None
      with Suc.prems g b True have "poll_loop rounds buffer s1 = Some (r, buffer', s')" by simp
      from Suc.IH [OF this] parts same show ?thesis by simp
    next
      case (Some x)
      with Suc.prems g b True have "s' = s1" by (cases x) simp
      with parts same show ?thesis by simp
    qed
  next
    case False
    with Suc.prems g same show ?thesis by simp
  qed
qed simp

lemma poll_ok:
  assumes "shell_ok s" "length buffer = 128" "rb_count (sh_buf s) < rounds"
  shows "\<exists>r buffer' s'. uart_app_poll_command rounds buffer s = Some (r, buffer', s') \<and> shell_ok s' \<and>
    length buffer' = 128"
proof -
  let ?s = "output_critical_enter s"
  obtain fin line rest where e: "edit_line (shell_line s) (rb_contents (sh_buf s)) = (fin, line, rest)"
    by (metis prod_cases3)
  have s: "line_ok s" "response_ok s" using assms(1) by (simp_all add: shell_ok_def)
  from poll_edits_lemma [OF s(1) assms(2,3) e] obtain r buffer' s' where
    p: "uart_app_poll_command rounds buffer s = Some (r, buffer', s')" "line_ok s'" "length buffer' = 128"
    by blast
  then obtain s1 where l: "poll_loop rounds buffer ?s = Some (r, buffer', s1)" "s' = output_critical_exit s1"
    by (auto simp: uart_app_poll_command_def split: bind_splits)
  have "response_ok s1" using response_ok_part [OF poll_loop_parts [OF l(1)]] s(2) by simp
  with p l(2) show ?thesis by (simp add: shell_ok_def)
qed

section \<open>Every interleaving\<close>

text \<open>
  The shell in its world: bytes arrive at the ring, the chip sends words, its interrupt runs when it is
  enabled, and the main loop calls its four operations, in any order and on any command.
\<close>

inductive shell_step :: "u32 \<Rightarrow> (frame_kind \<Rightarrow> u32 list option) \<Rightarrow> shell \<Rightarrow> shell \<Rightarrow> bool"
  for clk :: u32 and tables :: "frame_kind \<Rightarrow> u32 list option" where
  uart_irq: "rv_ringbuf_put (Some (sh_buf s)) b = Some (status, Some rb) \<Longrightarrow>
    shell_step clk tables s (s\<lparr>sh_buf := rb\<rparr>)"
| chip_sends: "shell_step clk tables s
    (s\<lparr>sh_hw := (sh_hw s)\<lparr>hw_up := hw_up (sh_hw s) @ ws, hw_pending := 1\<rparr>\<rparr>)"
| noc_irq: "noc_irq_is_enabled (sh_hw s) \<Longrightarrow> noc_irq_pending (sh_hw s) \<noteq> 0 \<Longrightarrow>
    shell_noc_handler s = Some s' \<Longrightarrow> shell_step clk tables s s'"
| poll: "length buffer = 128 \<Longrightarrow> rb_count (sh_buf s) < rounds \<Longrightarrow>
    uart_app_poll_command rounds buffer s = Some (r, buffer', s') \<Longrightarrow> shell_step clk tables s s'"
| command: "shell_step clk tables s (uart_app_process_command clk tables cmd s)"
| service: "shell_step clk tables s (snd (uart_app_service_received_data clk s))"
| prompt: "shell_step clk tables s (uart_app_print_prompt s)"

lemma step_ok:
  assumes "shell_step clk tables s s'" "shell_ok s"
  shows "shell_ok s'"
  using assms
proof (induction rule: shell_step.cases)
  case (uart_irq s b status rb)
  then have inv: "rb_invar (sh_buf s)" by (simp add: shell_ok_def line_ok_def)
  have "rb_invar rb \<and> rb_size rb = rb_size (sh_buf s)"
  proof (cases "rb_count (sh_buf s) < unat (rb_size (sh_buf s)) - 1")
    case True
    from put_accepts [OF inv this, of b] uart_irq show ?thesis by auto
  next
    case False
    with rb_count_less [OF inv] have "rb_count (sh_buf s) = unat (rb_size (sh_buf s)) - 1" by simp
    from put_full [OF inv this, of b] uart_irq inv show ?thesis by auto
  qed
  with uart_irq show ?case by (simp add: shell_ok_def) (simp add: line_ok_def shell_line_def response_ok_def)
next
  case (chip_sends s ws)
  then show ?case by (simp add: shell_ok_def noc_irq_is_enabled_def)
next
  case (noc_irq s s')
  then show ?case using handler_ok [of s s'] by (simp add: shell_ok_def)
next
  case (poll buffer s rounds r buffer' s')
  then show ?case using poll_ok [of s buffer rounds] by auto
next
  case (command s cmd)
  then show ?case using process_ok by simp
next
  case (service s)
  then show ?case using service_ok by simp
next
  case (prompt s)
  then show ?case
    by (simp add: uart_app_print_prompt_def Let_def shell_ok_def)
      (simp add: printf_def line_ok_def shell_line_def response_ok_def output_critical_enter_def)
qed


text \<open>Start-up: the static variables are zero.\<close>

lemma init_ok:
  assumes "uart_app_init 0 0 d s = (result, d', s')" "length (sh_command s) = 128" "sh_command_length s = 0"
  shows "result = 0 \<and> shell_ok s'"
proof -
  obtain r where r: "rv_ringbuf_init (Some \<lparr>storage = None, rb_size = 0, head = 0, tail = 0\<rparr>)
      (Some zero_storage) RX_BUF_STORAGE_SIZE = (RV_RINGBUF_OK, Some r)"
    "rb_invar r" "rb_size r = RX_BUF_STORAGE_SIZE"
    using init_refines [of RX_BUF_STORAGE_SIZE zero_storage] by (auto simp: zero_storage_def)
  have "result = 0" and s': "s' = s\<lparr>sh_rx_frame_count := 0, sh_rx_data_ready := 0, sh_response_pending := 0,
      sh_pending_kind := FRAME_CONFIG, sh_expected := 0, sh_timing := TIMING_NONE, sh_start_cycles := 0,
      sh_end_cycles := 0, sh_buf := r, sh_hw := enable_irq (noc_irq_enable (sh_hw s))\<rparr>"
    using assms(1) r by (simp_all add: uart_app_init_def Let_def)
  then show ?thesis
    using r assms(2,3)
    by (simp add: shell_ok_def line_ok_def shell_line_def response_ok_def noc_irq_is_enabled_def enable_irq_def
        noc_irq_enable_def)
qed

lemma shell_stays_ok:
  assumes "(shell_step clk tables)\<^sup>*\<^sup>* s s'" "shell_ok s"
  shows "shell_ok s'"
  using assms by (induction rule: rtranclp_induct) (auto intro: step_ok)

text \<open>C26.  In every state the shell can reach after start-up, whatever is typed, whatever the chip sends and
  whenever the interrupts run between the steps of the main loop: the ring and the line buffer are
  intact, the NoC interrupt is on, a response is awaited or ready but never both, frames are counted
  only for an awaited response, and an awaited response is timed.\<close>

theorem shell_reachable_ok:
  assumes "uart_app_init 0 0 d s0 = (result, d', s)" "length (sh_command s0) = 128" "sh_command_length s0 = 0"
    and "(shell_step clk tables)\<^sup>*\<^sup>* s s'"
  shows "rb_invar (sh_buf s') \<and> sh_command_length s' \<le> 127 \<and> noc_irq_is_enabled (sh_hw s') \<and>
    (sh_response_pending s' \<noteq> 0 \<longrightarrow> sh_rx_data_ready s' = 0 \<and> sh_timing s' \<noteq> TIMING_NONE) \<and>
    (sh_expected s' \<noteq> 0 \<longrightarrow> sh_response_pending s' \<noteq> 0)"
proof -
  have "shell_ok s'" using shell_stays_ok [OF assms(4)] init_ok [OF assms(1-3)] by blast
  then show ?thesis unfolding shell_ok_def line_ok_def response_ok_def by blast
qed

text \<open>Start-up, then the command \<open>user 1\<close>, a configuration word that expects one frame.\<close>

definition demo_dev :: uart_dev where
  "demo_dev = \<lparr>ud_rx = [], ud_tx = [], ud_sent = [], TXCTRL = 1, RXCTRL = 1, IE = 0, IP = 0, DIV = 8,
     ud_clock = (\<lambda>_. 0), ud_reads = 0\<rparr>"

definition demo_user :: "shell \<Rightarrow> shell" where
  "demo_user s = uart_app_process_command 16000000 (\<lambda>_. None) (Some (ascii ''user 1'')) s"

lemma demo_user_pending:
  "sh_response_pending (demo_user s) = 1 \<and> sh_expected (demo_user s) = 1 \<and> sh_pending_kind (demo_user s) = FRAME_INIT \<and>
   sh_start_cycles (demo_user s) = sh_clock s (Suc (sh_reads s)) \<and> sh_reads (demo_user s) = Suc (Suc (sh_reads s)) \<and>
   sh_clock (demo_user s) = sh_clock s"
proof -
  have cmd: "ascii ''user 1'' = [117, 115, 101, 114, 32, 49]" by (simp add: ascii_def)
  have tokens: "strtok_all (take 127 (takeWhile (\<lambda>c. c \<noteq> 0) (ascii ''user 1''))) [] = [[117, 115, 101, 114], [49]]"
    by (simp add: cmd)
  have parse: "uart_app_parse_u64 (Some [49]) (Some (0, 0)) = (0, Some (0, 1))"
    by (simp add: uart_app_parse_u64_def strtoull_def skip_hex_prefix_def is_c_space_def is_digit_def digit_value_def
        digits_value_def)
  have proc: "demo_user s = output_critical_exit (send_user_frame [[117, 115, 101, 114], [49]] (output_critical_enter s))"
    unfolding demo_user_def uart_app_process_command_def Let_def
    using tokens by (simp add: cmd) (simp add: ascii_def)
  show ?thesis
    unfolding proc
    by (simp add: send_user_frame_def parse ascii_def uart_app_classify_frame_def begin_response_def get_cycle_def
        printf_def noc_enter_critical_def output_critical_exit_def output_critical_enter_def Let_def)
qed

theorem shell_reachable_ok_witness:
  "let s' = demo_user (snd (snd (uart_app_init 0 0 demo_dev (demo_shell []))))
   in sh_response_pending s' = 1 \<and> sh_expected s' = 1 \<and> sh_rx_data_ready s' = 0 \<and> sh_timing s' \<noteq> TIMING_NONE"
proof -
  obtain result d' s where init: "uart_app_init 0 0 demo_dev (demo_shell []) = (result, d', s)" by (metis prod_cases3)
  have "shell_step 16000000 (\<lambda>_. None) s (demo_user s)" unfolding demo_user_def by (rule shell_step.command)
  then have reach: "(shell_step 16000000 (\<lambda>_. None))\<^sup>*\<^sup>* s (demo_user s)" by blast
  have "length (sh_command (demo_shell [])) = 128" "sh_command_length (demo_shell []) = 0"
    by (simp_all only: demo_shell_def shell.simps length_replicate)
  from shell_reachable_ok [OF init this reach] demo_user_pending [of s] show ?thesis
    by (simp add: init)
qed

text \<open>C27.  Nothing overtakes an awaited response: in a reachable state \<open>INIT\<close> and \<open>SYNC\<close> leave the chip and the
  awaited response alone while it has not timed out, except for the \<open>SYNC\<close> that closes an awaited
  \<open>WORK\<close>; a command that is not held back sends its frame whole, each word pair low word first.\<close>

theorem response_not_overtaken:
  assumes "shell_ok s" "sh_response_pending s \<noteq> 0" "\<not> fst (response_timed_out clk s)" "kind = FRAME_INIT \<or> kind = FRAME_SYNC"
    and "uart_app_get_frame tables kind = (FRAME_AVAILABLE, ws)"
  shows "if kind = FRAME_SYNC \<and> sh_pending_kind s = FRAME_WORK
    then hw_down (sh_hw (send_frame clk tables kind s)) = hw_down (sh_hw s) @ frame_pairs ws
    else sh_hw (send_frame clk tables kind s) = sh_hw s \<and>
      response_part (send_frame clk tables kind s) = response_part s"
proof -
  obtain timed s1 where t: "response_timed_out clk s = (timed, s1)" by fastforce
  have s1: "response_part s1 = response_part s" "sh_hw s1 = sh_hw s" "sh_pending_kind s1 = sh_pending_kind s"
    "release_timed_out_response clk s = s1"
    using t assms(3)
    by (auto simp: response_timed_out_def release_timed_out_response_def get_cycle_def response_part_def Let_def)
  have ready: "sh_rx_data_ready s1 = 0" "sh_response_pending s1 \<noteq> 0"
    using assms(1,2) s1(1) by (auto simp: shell_ok_def response_ok_def response_part_def)
  have busy: "response_busy clk kind s = (\<not> (sh_pending_kind s = FRAME_WORK \<and> kind = FRAME_SYNC), s1)"
    using assms(4) s1(3,4) ready by (auto simp: response_busy_def)
  show ?thesis
  proof (cases "kind = FRAME_SYNC \<and> sh_pending_kind s = FRAME_WORK")
    case True
    then have "frame_allowed clk tables kind s" using busy assms(5) by (simp add: frame_allowed_def)
    from send_frame_laws(5) [OF this] True assms(5) show ?thesis by simp
  next
    case False
    then have "send_frame clk tables kind s = printf (Msg_response_pending kind) s1"
      using busy assms(5) by (auto simp: send_frame_def)
    with False s1 show ?thesis by auto
  qed
qed

text \<open>\<open>INIT\<close> right after the command above.\<close>

theorem response_not_overtaken_witness:
  "sh_hw (send_frame 16000000 (\<lambda>_. Some [1, 2]) FRAME_INIT (demo_user (demo_shell []))) =
   sh_hw (demo_user (demo_shell []))"
proof -
  let ?s = "demo_user (demo_shell [])"
  have empty: "shell_line (demo_shell []) = []" by (simp only: demo_shell_def shell_line_def shell.simps take_0)
  have flags: "sh_response_pending (demo_shell []) = 0" "sh_expected (demo_shell []) = 0"
    "rb_size (sh_buf (demo_shell [])) = RX_BUF_STORAGE_SIZE" "length (sh_command (demo_shell [])) = 128"
    "sh_command_length (demo_shell []) = 0" "hw_irq_enable (sh_hw (demo_shell [])) = 1"
    by (simp_all only: demo_shell_def shell.simps rv_ringbuf.simps length_replicate noc_hw.simps)
  have clock: "sh_clock (demo_shell []) = of_nat" "sh_reads (demo_shell []) = 0"
    by (simp_all only: demo_shell_def shell.simps)
  have "shell_ok (demo_shell [])"
    using demo_shell_ring(1) [of "[]"] empty flags
    by (simp add: shell_ok_def line_ok_def response_ok_def noc_irq_is_enabled_def)
  then have ok: "shell_ok ?s" unfolding demo_user_def by (rule process_ok)
  have "sh_start_cycles ?s = 1 \<and> sh_reads ?s = 2 \<and> sh_clock ?s = of_nat \<and> sh_pending_kind ?s = FRAME_INIT"
    using demo_user_pending [of "demo_shell []"] clock by simp
  then have "\<not> fst (response_timed_out 16000000 ?s)"
    by (simp add: response_timed_out_def get_cycle_def timeout_cycles_def response_timeout_ms_def)
  from response_not_overtaken [OF ok _ this, of FRAME_INIT "\<lambda>_. Some [1, 2]" "[1, 2]"] demo_user_pending [of "demo_shell []"]
  show ?thesis by (simp add: uart_app_get_frame_def frame_view_def)
qed

end
