(* ===== verification/Relay.thy ===== *)
theory Relay
  imports EvalUart Noc
begin

text \<open>
  The transparent bridge between the host's UART and the chip, \<open>application/baremetal/relay/main.c\<close>,
  with debug logging compiled out.

  The record is \<open>relay_state_t\<close>, whose ring owns its storage, with the two devices and the local variables
  of \<open>main\<close>.  The build flag \<open>RELAY_HOST_HIGH_FIRST\<close> is the parameter \<open>high_first\<close>; the table of a
  configuration header is the parameter of \<open>send_config_frames\<close>.  The loop of \<open>main\<close> is a step function
  over a program counter, one access to the memory it shares with the interrupts in each step, and
  \<open>relay_step\<close> puts the interrupts, the host and the chip between any two of these steps.
\<close>

section \<open>State\<close>

record relay =
  rl_rx :: rv_ringbuf
  rl_timestep_finished :: u8
  rl_uart_rx_overflow :: u8
  rl_noc_error :: u8
  rl_uart :: uart_dev
  rl_noc :: noc_hw
  rl_frame_bytes :: "u8 list"
  rl_frame_byte_index :: u32

abbreviation RELAY_FRAME_BYTES :: u32 where "RELAY_FRAME_BYTES \<equiv> 8"
abbreviation RELAY_RX_STORAGE_SIZE :: u32 where "RELAY_RX_STORAGE_SIZE \<equiv> 4096"
abbreviation RELAY_FIFO_WATERMARK :: u32 where "RELAY_FIFO_WATERMARK \<equiv> 1"


section \<open>Frames on the wire\<close>

definition decode_be_u32 :: "u8 list \<Rightarrow> u32 option" where
  "decode_be_u32 bytes = do {
     b0 \<leftarrow> rd bytes 0;
     b1 \<leftarrow> rd bytes 1;
     b2 \<leftarrow> rd bytes 2;
     b3 \<leftarrow> rd bytes 3;
     Some (push_bit 24 (ucast b0) OR push_bit 16 (ucast b1) OR push_bit 8 (ucast b2) OR ucast b3)
   }"

definition encode_be_u32 :: "u32 \<Rightarrow> u8 list" where
  "encode_be_u32 value =
     [ucast (drop_bit 24 value), ucast (drop_bit 16 value), ucast (drop_bit 8 value), ucast value]"

text \<open>The high and the low word of the frame.\<close>

definition decode_host_frame :: "bool \<Rightarrow> u8 list \<Rightarrow> (u32 \<times> u32) option" where
  "decode_host_frame high_first bytes =
     (if high_first then do {
        high \<leftarrow> decode_be_u32 bytes;
        low \<leftarrow> decode_be_u32 (drop 4 bytes);
        Some (high, low)
      } else do {
        low \<leftarrow> decode_be_u32 bytes;
        high \<leftarrow> decode_be_u32 (drop 4 bytes);
        Some (high, low)
      })"

definition encode_host_frame :: "bool \<Rightarrow> u32 \<Rightarrow> u32 \<Rightarrow> u8 list" where
  "encode_host_frame high_first high low =
     (if high_first then encode_be_u32 high @ encode_be_u32 low
      else encode_be_u32 low @ encode_be_u32 high)"

definition uart_write_frame :: "bool \<Rightarrow> u32 \<Rightarrow> u32 \<Rightarrow> uart_dev \<Rightarrow> uart_dev" where
  "uart_write_frame high_first high low d =
     foldl (\<lambda>d byte. the (snd (uart_write (Some d) byte))) d (encode_host_frame high_first high low)"

definition is_sync_frame :: "u32 \<Rightarrow> bool" where
  "is_sync_frame high \<longleftrightarrow> drop_bit 28 high AND 0xF = 0xC"

definition is_complete_frame :: "u32 \<Rightarrow> bool" where
  "is_complete_frame high \<longleftrightarrow> drop_bit 28 high AND 0xF = 0xE"

definition is_test_response_header :: "u32 \<Rightarrow> u32 \<Rightarrow> bool" where
  "is_test_response_header high low \<longleftrightarrow> drop_bit 30 high AND 0x3 = 1 \<and> drop_bit 23 low AND 1 = 0"


section \<open>Interrupts\<close>

text \<open>The callback of the drain; its context is the relay state.\<close>

definition relay_buffer_byte :: "u8 \<Rightarrow> relay \<Rightarrow> relay option" where
  "relay_buffer_byte byte s = do {
     (status, rb) \<leftarrow> rv_ringbuf_put (Some (rl_rx s)) byte;
     let s = s\<lparr>rl_rx := the rb\<rparr>;
     Some (if status \<noteq> RV_RINGBUF_OK then s\<lparr>rl_uart_rx_overflow := 1\<rparr> else s)
   }"

definition relay_uart_irq :: "relay \<Rightarrow> relay option" where
  "relay_uart_irq s =
     (if uart_get_status (Some (rl_uart s)) AND UART_IP_RXWM \<noteq> 0
      then do {
        (_, dev, s) \<leftarrow> uart_drain_rx_fifo (Some (rl_uart s)) (Some relay_buffer_byte) s;
        Some (s\<lparr>rl_uart := the dev\<rparr>)
      }
      else Some s)"

text \<open>One pass of the loop of the handler: whether it was the last, and the two local variables.  \<open>None\<close>:
  the uplink has no more words.\<close>

definition noc_forward_once :: "bool \<Rightarrow> bool \<Rightarrow> u32 \<Rightarrow> relay \<Rightarrow> (bool \<times> bool \<times> u32 \<times> relay) option" where
  "noc_forward_once high_first test_response_active frames_remaining s =
     (case noc_fifo_read_frame_words (Some 0) (Some 0) (rl_noc s) of
        None \<Rightarrow> None
      | Some (result, high, low, hw) \<Rightarrow>
          let s = s\<lparr>rl_noc := hw\<rparr>
          in if result \<noteq> 0 then Some (True, test_response_active, frames_remaining, s\<lparr>rl_noc_error := 1\<rparr>)
             else
               let s = s\<lparr>rl_uart := uart_write_frame high_first (the high) (the low) (rl_uart s)\<rparr>;
                   read_finish = is_complete_frame (the high);
                   (active, remaining) =
                     (if is_test_response_header (the high) (the low) then (True, the low AND 0x3FFF)
                      else (test_response_active, frames_remaining));
                   (finish, left) =
                     (if active then if remaining = 0 then (True, remaining) else (read_finish, remaining - 1)
                      else (read_finish, remaining))
               in Some (finish, active, left, s))"

lemma forward_once_shortens:
  assumes "noc_forward_once high_first active remaining s = Some (finish, active', left, s')"
  shows "length (hw_up (rl_noc s')) < length (hw_up (rl_noc s))"
  using assms
  by (auto simp: noc_forward_once_def noc_read_eq Let_def split: list.splits if_splits)

function noc_forward_loop :: "bool \<Rightarrow> bool \<Rightarrow> u32 \<Rightarrow> relay \<Rightarrow> relay option" where
  "noc_forward_loop high_first test_response_active frames_remaining s =
     (case noc_forward_once high_first test_response_active frames_remaining s of
        None \<Rightarrow> None
      | Some (read_finish, active, left, s) \<Rightarrow>
          if read_finish then Some s else noc_forward_loop high_first active left s)"
  by pat_completeness auto
termination
  by (relation "measure (\<lambda>(_, _, _, s). length (hw_up (rl_noc s)))") (auto dest: forward_once_shortens)

lemmas [simp del] = noc_forward_loop.simps

text \<open>What the handler does before the loop and after it.\<close>

definition relay_noc_enter :: "relay \<Rightarrow> relay" where
  "relay_noc_enter s = s\<lparr>rl_noc := noc_irq_disable (noc_irq_ack (rl_noc s))\<rparr>"

definition relay_noc_leave :: "relay \<Rightarrow> relay" where
  "relay_noc_leave s =
     (let s = s\<lparr>rl_timestep_finished := 1\<rparr>
      in s\<lparr>rl_noc := noc_irq_enable (noc_irq_ack (rl_noc s))\<rparr>)"

definition relay_noc_handler :: "bool \<Rightarrow> relay \<Rightarrow> relay option" where
  "relay_noc_handler high_first s =
     map_option relay_noc_leave (noc_forward_loop high_first False 0 (relay_noc_enter s))"


section \<open>Start and main loop\<close>

text \<open>The table is a sequence of high and low words; an odd one does not compile.\<close>

fun config_frame_loop :: "u32 list \<Rightarrow> noc_hw \<Rightarrow> noc_hw" where
  "config_frame_loop (high # low # ws) hw =
     config_frame_loop ws (noc_fifo_write_frame_words_unlocked high low hw)"
| "config_frame_loop _ hw = hw"

definition send_config_frames :: "u32 list option \<Rightarrow> relay \<Rightarrow> relay" where
  "send_config_frames config_frame s =
     (case config_frame of
        None \<Rightarrow> s
      | Some ws \<Rightarrow>
          let hw = noc_irq_disable (rl_noc s);
              (state, hw) = noc_enter_critical hw;
              hw = config_frame_loop ws hw;
              hw = noc_exit_critical state hw;
              hw = noc_irq_enable hw
          in s\<lparr>rl_noc := hw\<rparr>)"

text \<open>The results of the two registrations are parameters; a registration that succeeds enables its source.\<close>

definition relay_init :: "int \<Rightarrow> int \<Rightarrow> relay \<Rightarrow> int \<times> relay" where
  "relay_init register_uart register_noc s =
     (let (status, rb) = rv_ringbuf_init (Some (rl_rx s)) (storage (rl_rx s)) RELAY_RX_STORAGE_SIZE;
          s = s\<lparr>rl_rx := the rb\<rparr>
      in if status \<noteq> RV_RINGBUF_OK then (- 1, s)
         else
           let (watermark_status, dev) = uart_set_rx_watermark (Some (rl_uart s)) RELAY_FIFO_WATERMARK
           in if watermark_status \<noteq> 0 then (- 1, s\<lparr>rl_uart := the dev\<rparr>)
              else
                let (enable_status, dev) = uart_enable_rxint dev;
                    s = s\<lparr>rl_uart := the dev\<rparr>
                in if enable_status \<noteq> 0 then (- 1, s)
                   else if register_uart \<noteq> 0 then (- 1, s)
                   else if register_noc \<noteq> 0 then (- 1, s)
                   else (0, s\<lparr>rl_noc := enable_irq (noc_irq_enable (rl_noc s))\<rparr>))"

text \<open>
  The loop of \<open>main\<close>.  A call of \<open>rv_ringbuf_get\<close> is four accesses: it loads \<open>tail\<close>, compares \<open>head\<close>, loads
  the byte and stores \<open>tail\<close>.  The write of a frame is a critical section, hence one step.
\<close>

datatype main_pc =
    NextByte | TailSeen u32 | BytesSeen u32 | ByteSeen u32 u8
  | NoByte | OverflowSeen
  | HaveByte u8
  | FrameRead u32 u32 | FinishCleared u32 u32 | SendFrame u32 u32
  | AwaitFinish | Finished | ErrorSeen | FrameDone

fun relay_main_step :: "bool \<Rightarrow> main_pc \<Rightarrow> relay \<Rightarrow> (main_pc \<times> relay) option" where
  "relay_main_step high_first NextByte s =
     Some (if rv_ringbuf_is_valid (Some (rl_rx s)) then TailSeen (tail (rl_rx s)) else NoByte, s)"
| "relay_main_step high_first (TailSeen t) s =
     Some (if head (rl_rx s) = t then NoByte else BytesSeen t, s)"
| "relay_main_step high_first (BytesSeen t) s = do {
     byte \<leftarrow> rd (the (storage (rl_rx s))) t;
     Some (ByteSeen t byte, s)
   }"
| "relay_main_step high_first (ByteSeen t byte) s =
     Some (HaveByte byte, s\<lparr>rl_rx := (rl_rx s)\<lparr>tail := rv_ringbuf_next_index (rl_rx s) t\<rparr>\<rparr>)"
| "relay_main_step high_first NoByte s =
     Some (if rl_uart_rx_overflow s \<noteq> 0 then OverflowSeen else NextByte, s)"
| "relay_main_step high_first OverflowSeen s = Some (NextByte, s\<lparr>rl_uart_rx_overflow := 0\<rparr>)"
| "relay_main_step high_first (HaveByte byte) s = do {
     bytes \<leftarrow> wr (rl_frame_bytes s) (rl_frame_byte_index s) byte;
     let s = s\<lparr>rl_frame_bytes := bytes, rl_frame_byte_index := rl_frame_byte_index s + 1\<rparr>;
     if rl_frame_byte_index s \<noteq> RELAY_FRAME_BYTES then Some (NextByte, s)
     else do {
       (high, low) \<leftarrow> decode_host_frame high_first (rl_frame_bytes s);
       Some (FrameRead high low, s)
     }
   }"
| "relay_main_step high_first (FrameRead high low) s =
     Some (if is_sync_frame high then (FinishCleared high low, s\<lparr>rl_timestep_finished := 0\<rparr>)
           else (SendFrame high low, s))"
| "relay_main_step high_first (FinishCleared high low) s = Some (SendFrame high low, s\<lparr>rl_noc_error := 0\<rparr>)"
| "relay_main_step high_first (SendFrame high low) s =
     (let s = s\<lparr>rl_noc := noc_fifo_write_frame_words high low (rl_noc s)\<rparr>
      in Some (if is_sync_frame high then (AwaitFinish, s) else (NextByte, s\<lparr>rl_frame_byte_index := 0\<rparr>)))"
| "relay_main_step high_first AwaitFinish s =
     Some (if rl_timestep_finished s = 0 then AwaitFinish else Finished, s)"
| "relay_main_step high_first Finished s = Some (if rl_noc_error s \<noteq> 0 then ErrorSeen else FrameDone, s)"
| "relay_main_step high_first ErrorSeen s = Some (FrameDone, s\<lparr>rl_noc_error := 0\<rparr>)"
| "relay_main_step high_first FrameDone s =
     Some (NextByte, s\<lparr>rl_timestep_finished := 0, rl_frame_byte_index := 0\<rparr>)"


section \<open>The relay among its interrupts, the host and the chip\<close>

text \<open>
  The NoC handler preempts the main loop, and the receive interrupt, whose level is higher, preempts
  both.  Words may reach the uplink while the handler reads it.

  The last four fields are a record of what happened: the bytes the host's line put into the UART, the
  words the chip put into the uplink, for every receive interrupt the room the ring had and the bytes it
  took out of the UART, and how often the main loop found the overflow flag set.
\<close>

datatype noc_pc = NocIdle | NocForward bool u32 | NocDone

record relay_system =
  sy_relay :: relay
  sy_main :: main_pc
  sy_noc :: noc_pc
  sy_host :: "u8 list"
  sy_chip :: "u32 list"
  sy_bursts :: "(nat \<times> u8 list) list"
  sy_overflows :: nat

text \<open>The bytes among a sequence of reads of the receive FIFO, those that find it empty left out.\<close>

definition line_bytes :: "(u32 \<times> u64) list \<Rightarrow> u8 list" where
  "line_bytes polls = map (\<lambda>(reg, _). ucast (reg AND 0xFF)) (filter (\<lambda>(reg, _). \<not> rx_is_empty reg) polls)"

definition ring_free :: "rv_ringbuf \<Rightarrow> nat" where
  "ring_free r = unat (rb_size r) - 1 - rb_count r"

definition uart_taken :: "relay \<Rightarrow> u8 list" where
  "uart_taken s = (if IP (rl_uart s) AND UART_IP_RXWM = 0 then [] else rx_burst (ud_rx (rl_uart s)))"

inductive relay_step :: "bool \<Rightarrow> relay_system \<Rightarrow> relay_system \<Rightarrow> bool" for high_first :: bool where
  arrive: "s = sy_relay y \<Longrightarrow>
    relay_step high_first y
      (y\<lparr>sy_relay := s\<lparr>rl_uart := (rl_uart s)\<lparr>ud_rx := ud_rx (rl_uart s) @ polls, IP := ip\<rparr>\<rparr>,
         sy_host := sy_host y @ line_bytes polls\<rparr>)"
| uart_irq: "relay_uart_irq (sy_relay y) = Some s \<Longrightarrow>
    relay_step high_first y
      (y\<lparr>sy_relay := s, sy_bursts := sy_bursts y @ [(ring_free (rl_rx (sy_relay y)), uart_taken (sy_relay y))]\<rparr>)"
| chip_sends: "s = sy_relay y \<Longrightarrow>
    relay_step high_first y
      (y\<lparr>sy_relay := s\<lparr>rl_noc := (rl_noc s)\<lparr>hw_up := hw_up (rl_noc s) @ ws, hw_pending := 1\<rparr>\<rparr>,
         sy_chip := sy_chip y @ ws\<rparr>)"
| noc_enter: "sy_noc y = NocIdle \<Longrightarrow> noc_irq_is_enabled (rl_noc (sy_relay y)) \<Longrightarrow>
    noc_irq_pending (rl_noc (sy_relay y)) \<noteq> 0 \<Longrightarrow>
    relay_step high_first y (y\<lparr>sy_relay := relay_noc_enter (sy_relay y), sy_noc := NocForward False 0\<rparr>)"
| noc_forward: "sy_noc y = NocForward active remaining \<Longrightarrow>
    noc_forward_once high_first active remaining (sy_relay y) = Some (read_finish, active', remaining', s) \<Longrightarrow>
    relay_step high_first y
      (y\<lparr>sy_relay := s, sy_noc := (if read_finish then NocDone else NocForward active' remaining')\<rparr>)"
| noc_leave: "sy_noc y = NocDone \<Longrightarrow>
    relay_step high_first y (y\<lparr>sy_relay := relay_noc_leave (sy_relay y), sy_noc := NocIdle\<rparr>)"
| main_step: "sy_noc y = NocIdle \<Longrightarrow> relay_main_step high_first (sy_main y) (sy_relay y) = Some (q, s) \<Longrightarrow>
    relay_step high_first y
      (y\<lparr>sy_relay := s, sy_main := q,
         sy_overflows := sy_overflows y + (if q = OverflowSeen then 1 else 0)\<rparr>)"

inductive relay_run :: "bool \<Rightarrow> relay_system \<Rightarrow> relay_system \<Rightarrow> bool" for high_first :: bool and y0 :: relay_system where
  run_start: "relay_run high_first y0 y0"
| run_step: "relay_run high_first y0 y \<Longrightarrow> relay_step high_first y y' \<Longrightarrow> relay_run high_first y0 y'"

text \<open>The system when \<open>main\<close> reaches its loop, with nothing received and nothing left to read.\<close>

definition relay_system_at :: "relay \<Rightarrow> relay_system" where
  "relay_system_at s = \<lparr>sy_relay = s, sy_main = NextByte, sy_noc = NocIdle, sy_host = [], sy_chip = [],
     sy_bursts = [], sy_overflows = 0\<rparr>"

end
