(* ===== verification/Relay_Laws.thy ===== *)
theory Relay_Laws
  imports Relay
begin

text \<open>
  The relay is transparent: whatever interrupts come between the accesses of its main loop, the bytes that
  found room are the frames sent to the chip and what is still buffered, a byte is lost only to a full
  ring and that is reported, and the frames read from the chip are the bytes written to the host.
\<close>

section \<open>The wire format\<close>

lemma be_round_trip:
  "decode_be_u32 (encode_be_u32 v @ xs) = Some v"
proof -
  have "push_bit 24 (ucast (ucast (drop_bit 24 v) :: u8)) OR push_bit 16 (ucast (ucast (drop_bit 16 v) :: u8)) OR
      push_bit 8 (ucast (ucast (drop_bit 8 v) :: u8)) OR ucast (ucast v :: u8) = (v :: u32)" (is "?l = v")
  proof (rule bit_word_eqI)
    fix n assume "n < LENGTH(32)"
    then consider "n < 8" | "8 \<le> n" "n < 16" | "16 \<le> n" "n < 24" | "24 \<le> n" "n < 32" by fastforce
    then show "bit ?l n = bit v n"
      by cases (auto simp: bit_simps dest: bit_imp_le_length)
  qed
  then show ?thesis by (simp add: decode_be_u32_def encode_be_u32_def)
qed

lemma be_bytes:
  assumes "length bs = 4"
  shows "\<exists>v. decode_be_u32 bs = Some v \<and> encode_be_u32 v = bs"
proof -
  from assms obtain b0 b1 b2 b3 where bs: "bs = [b0, b1, b2, b3]"
    by (auto simp: length_Suc_conv numeral_eq_Suc)
  let ?v = "push_bit 24 (ucast b0) OR push_bit 16 (ucast b1) OR push_bit 8 (ucast b2) OR ucast b3 :: u32"
  have byte: "ucast (drop_bit k ?v) = b" if "(k, b) \<in> {(24, b0), (16, b1), (8, b2), (0, b3)}" for k b
  proof (rule bit_word_eqI)
    fix n assume "n < LENGTH(8)"
    then show "bit (ucast (drop_bit k ?v) :: u8) n = bit b n"
      using that by (auto simp: bit_simps dest: bit_imp_le_length)
  qed
  have "encode_be_u32 ?v = [b0, b1, b2, b3]"
    using byte [of 24 b0] byte [of 16 b1] byte [of 8 b2] byte [of 0 b3] by (simp add: encode_be_u32_def)
  then show ?thesis by (simp add: bs decode_be_u32_def)
qed

text \<open>The bytes of a frame.\<close>

definition host_bytes :: "bool \<Rightarrow> rvrt_frame \<Rightarrow> u8 list" where
  "host_bytes high_first f = encode_host_frame high_first (fr_high f) (fr_low f)"

lemma length_encode_be [simp]: "length (encode_be_u32 v) = 4"
  by (simp add: encode_be_u32_def)

lemma length_host_frame [simp]: "length (encode_host_frame high_first high low) = 8"
  by (simp add: encode_host_frame_def)

lemma host_frame_decodes:
  "decode_host_frame high_first (encode_host_frame high_first high low) = Some (high, low)"
  using be_round_trip [of _ "[]"] by (simp add: decode_host_frame_def encode_host_frame_def be_round_trip)

lemma host_frame_of_bytes:
  assumes "length bs = 8"
  shows "\<exists>high low. decode_host_frame high_first bs = Some (high, low) \<and> encode_host_frame high_first high low = bs"
proof -
  from assms obtain v w where
    "decode_be_u32 (take 4 bs) = Some v" "encode_be_u32 v = take 4 bs"
    "decode_be_u32 (drop 4 bs) = Some w" "encode_be_u32 w = drop 4 bs"
    using be_bytes [of "take 4 bs"] be_bytes [of "drop 4 bs"] by auto
  moreover from this have "decode_be_u32 bs = Some v"
    using be_round_trip [of v "drop 4 bs"] by simp
  ultimately show ?thesis by (cases high_first) (simp_all add: decode_host_frame_def encode_host_frame_def)
qed


section \<open>Writing a frame to the host\<close>

lemma uart_write_sent:
  "ud_sent (foldl (\<lambda>d byte. the (snd (uart_write (Some d) byte))) d bs) = ud_sent d @ bs \<and>
   ud_rx (foldl (\<lambda>d byte. the (snd (uart_write (Some d) byte))) d bs) = ud_rx d \<and>
   IP (foldl (\<lambda>d byte. the (snd (uart_write (Some d) byte))) d bs) = IP d"
  by (induction bs arbitrary: d) (simp_all add: uart_write_def)

lemma uart_write_frame_sent [simp]:
  "ud_sent (uart_write_frame high_first high low d) = ud_sent d @ encode_host_frame high_first high low"
  "ud_rx (uart_write_frame high_first high low d) = ud_rx d"
  "IP (uart_write_frame high_first high low d) = IP d"
  by (simp_all add: uart_write_frame_def uart_write_sent)


section \<open>The receive interrupt\<close>

text \<open>A state that differs in the fields the receive interrupt writes.\<close>

definition rx_only :: "relay \<Rightarrow> relay \<Rightarrow> bool" where
  "rx_only s s' \<longleftrightarrow> s' = s\<lparr>rl_rx := rl_rx s', rl_uart_rx_overflow := rl_uart_rx_overflow s', rl_uart := rl_uart s'\<rparr> \<and>
     ud_sent (rl_uart s') = ud_sent (rl_uart s)"

lemma rx_onlyI:
  assumes "s' = s\<lparr>rl_rx := r, rl_uart_rx_overflow := ov, rl_uart := d\<rparr>" "ud_sent d = ud_sent (rl_uart s)"
  shows "rx_only s s'"
  using assms by (cases s) (simp add: rx_only_def)

lemma rx_only_refl [simp]: "rx_only s s"
  by (cases s) (simp add: rx_only_def)

lemma rx_only_trans: "rx_only s s1 \<Longrightarrow> rx_only s1 s2 \<Longrightarrow> rx_only s s2"
  by (cases s; cases s1; cases s2) (simp add: rx_only_def)

lemma line_bytes_append [simp]: "line_bytes (xs @ ys) = line_bytes xs @ line_bytes ys"
  by (simp add: line_bytes_def)

lemma line_bytes_burst:
  "line_bytes polls = rx_burst polls @ line_bytes (tl (dropWhile (\<lambda>(reg, _). \<not> rx_is_empty reg) polls))"
  by (induction polls) (auto simp: line_bytes_def rx_burst_def)

lemma buffer_byte_room:
  assumes "rb_invar (rl_rx s)" "rb_count (rl_rx s) < unat (rb_size (rl_rx s)) - 1"
  obtains r where "relay_buffer_byte x s = Some (s\<lparr>rl_rx := r\<rparr>)" "rb_invar r" "rb_size r = rb_size (rl_rx s)"
    "rb_contents r = rb_contents (rl_rx s) @ [x]" "rb_count r = Suc (rb_count (rl_rx s))" "tail r = tail (rl_rx s)"
proof -
  obtain r where put: "rv_ringbuf_put (Some (rl_rx s)) x = Some (RV_RINGBUF_OK, Some r)" "rb_invar r"
    "rb_size r = rb_size (rl_rx s)" "rb_contents r = rb_contents (rl_rx s) @ [x]" "tail r = tail (rl_rx s)"
    using put_accepts [OF assms] by metis
  have "rb_count r = Suc (rb_count (rl_rx s))" using arg_cong [OF put(4), of length] by simp
  with put that show thesis by (simp add: relay_buffer_byte_def)
qed

lemma buffer_byte_full:
  assumes "rb_invar (rl_rx s)" "\<not> rb_count (rl_rx s) < unat (rb_size (rl_rx s)) - 1"
  shows "relay_buffer_byte x s = Some (s\<lparr>rl_uart_rx_overflow := 1\<rparr>)"
  using put_no_room_left(1) [OF assms, of x] by (cases s) (simp add: relay_buffer_byte_def)

lemma burst_into_relay:
  assumes "rb_invar (rl_rx s)"
  shows "\<exists>s'. burst_into relay_buffer_byte xs s = Some s' \<and> rx_only s s' \<and>
    rb_invar (rl_rx s') \<and> rb_size (rl_rx s') = rb_size (rl_rx s) \<and> tail (rl_rx s') = tail (rl_rx s) \<and>
    rb_contents (rl_rx s') = rb_contents (rl_rx s) @ take (unat (rb_size (rl_rx s)) - 1 - rb_count (rl_rx s)) xs \<and>
    rl_uart_rx_overflow s' =
      (if length xs \<le> unat (rb_size (rl_rx s)) - 1 - rb_count (rl_rx s) then rl_uart_rx_overflow s else 1)"
  using assms
proof (induction xs arbitrary: s)
  case Nil
  then show ?case by (intro exI [of _ s]) simp
next
  case (Cons x xs)
  show ?case
  proof (cases "rb_count (rl_rx s) < unat (rb_size (rl_rx s)) - 1")
    case True
    obtain r where put: "relay_buffer_byte x s = Some (s\<lparr>rl_rx := r\<rparr>)" "rb_invar r"
      "rb_size r = rb_size (rl_rx s)" "rb_contents r = rb_contents (rl_rx s) @ [x]"
      "rb_count r = Suc (rb_count (rl_rx s))" "tail r = tail (rl_rx s)" by (rule buffer_byte_room [OF Cons.prems True])
    have only: "rx_only s (s\<lparr>rl_rx := r\<rparr>)" by (cases s) (simp add: rx_only_def)
    from Cons.IH [of "s\<lparr>rl_rx := r\<rparr>"] put(2) obtain s' where
      "burst_into relay_buffer_byte xs (s\<lparr>rl_rx := r\<rparr>) = Some s'" "rx_only (s\<lparr>rl_rx := r\<rparr>) s'"
      "rb_invar (rl_rx s')" "rb_size (rl_rx s') = rb_size r" "tail (rl_rx s') = tail r"
      "rb_contents (rl_rx s') = rb_contents r @ take (unat (rb_size r) - 1 - rb_count r) xs"
      "rl_uart_rx_overflow s' = (if length xs \<le> unat (rb_size r) - 1 - rb_count r then rl_uart_rx_overflow s else 1)"
      by auto
    moreover have "unat (rb_size (rl_rx s)) - 1 - rb_count (rl_rx s) = Suc (unat (rb_size r) - 1 - rb_count r)"
      using True put(3, 5) by simp
    ultimately show ?thesis using put rx_only_trans [OF only] by auto
  next
    case False
    note full = buffer_byte_full [OF Cons.prems False] put_no_room_left(2) [OF Cons.prems False]
    have only: "rx_only s (s\<lparr>rl_uart_rx_overflow := 1\<rparr>)" by (cases s) (simp add: rx_only_def)
    from Cons.IH [of "s\<lparr>rl_uart_rx_overflow := 1\<rparr>"] Cons.prems full(2) obtain s' where
      "burst_into relay_buffer_byte xs (s\<lparr>rl_uart_rx_overflow := 1\<rparr>) = Some s'"
      "rx_only (s\<lparr>rl_uart_rx_overflow := 1\<rparr>) s'" "rb_invar (rl_rx s')" "rb_size (rl_rx s') = rb_size (rl_rx s)"
      "tail (rl_rx s') = tail (rl_rx s)" "rb_contents (rl_rx s') = rb_contents (rl_rx s)" "rl_uart_rx_overflow s' = 1"
      by auto
    then show ?thesis using full rx_only_trans [OF only] by auto
  qed
qed

lemma uart_irq_lemma:
  assumes "rb_invar (rl_rx s)"
  shows "\<exists>s'. relay_uart_irq s = Some s' \<and> rx_only s s' \<and> rb_invar (rl_rx s') \<and>
    rb_contents (rl_rx s') = rb_contents (rl_rx s) @ take (ring_free (rl_rx s)) (uart_taken s) \<and>
    rl_uart_rx_overflow s' =
      (if length (uart_taken s) \<le> ring_free (rl_rx s) then rl_uart_rx_overflow s else 1) \<and>
    tail (rl_rx s') = tail (rl_rx s) \<and>
    line_bytes (ud_rx (rl_uart s)) = uart_taken s @ line_bytes (ud_rx (rl_uart s'))"
proof (cases "IP (rl_uart s) AND UART_IP_RXWM = 0")
  case True
  then show ?thesis using assms by (simp add: relay_uart_irq_def uart_get_status_def uart_taken_def)
next
  case False
  obtain s1 where b: "burst_into relay_buffer_byte (uart_taken s) s = Some s1" "rx_only s s1"
    "rb_invar (rl_rx s1)" "tail (rl_rx s1) = tail (rl_rx s)"
    "rb_contents (rl_rx s1) = rb_contents (rl_rx s) @ take (ring_free (rl_rx s)) (uart_taken s)"
    "rl_uart_rx_overflow s1 = (if length (uart_taken s) \<le> ring_free (rl_rx s) then rl_uart_rx_overflow s else 1)"
    using burst_into_relay [OF assms, of "uart_taken s"] by (auto simp: ring_free_def)
  have "relay_uart_irq s = Some (s1\<lparr>rl_uart := after_burst (rl_uart s)\<rparr>)"
    using False b(1)
    by (simp add: relay_uart_irq_def uart_get_status_def uart_drain_rx_fifo_def drain_loop_burst uart_taken_def)
  moreover have "rx_only s (s1\<lparr>rl_uart := after_burst (rl_uart s)\<rparr>)"
    using b(2) by (cases s; cases s1) (simp add: rx_only_def after_burst_def)
  moreover have "line_bytes (ud_rx (rl_uart s)) = uart_taken s @ line_bytes (ud_rx (after_burst (rl_uart s)))"
    using False by (subst line_bytes_burst) (simp add: uart_taken_def after_burst_def)
  ultimately show ?thesis using b(3-6) by simp
qed


section \<open>Forwarding to the host\<close>

definition up_words :: "rvrt_frame \<Rightarrow> u32 list" where
  "up_words f = [fr_high f, fr_low f]"

text \<open>The state after \<open>us\<close> was read from the uplink and written to the host.\<close>

definition forwarded :: "bool \<Rightarrow> rvrt_frame list \<Rightarrow> relay \<Rightarrow> relay \<Rightarrow> bool" where
  "forwarded high_first us s s' \<longleftrightarrow>
     hw_up (rl_noc s) = concat (map up_words us) @ hw_up (rl_noc s') \<and>
     ud_sent (rl_uart s') = ud_sent (rl_uart s) @ concat (map (host_bytes high_first) us) \<and>
     hw_down (rl_noc s') = hw_down (rl_noc s) \<and>
     s' = s\<lparr>rl_noc := rl_noc s', rl_uart := rl_uart s'\<rparr>"

lemma forwarded_Nil: "forwarded high_first [] s s"
  by (cases s) (simp add: forwarded_def)

lemma forwarded_Cons:
  assumes "hw_up (rl_noc s) = fr_high f # fr_low f # ws"
    and "forwarded high_first us (s\<lparr>rl_noc := (rl_noc s)\<lparr>hw_up := ws\<rparr>,
      rl_uart := uart_write_frame high_first (fr_high f) (fr_low f) (rl_uart s)\<rparr>) s'"
  shows "forwarded high_first (f # us) s s'"
  using assms by (cases s; cases s') (simp add: forwarded_def up_words_def host_bytes_def)

text \<open>What the loop does with the next frame.\<close>

definition burst_next :: "bool \<Rightarrow> u32 \<Rightarrow> rvrt_frame \<Rightarrow> bool \<times> bool \<times> u32" where
  "burst_next active remaining f =
     (let (active, remaining) = (if is_test_response_header (fr_high f) (fr_low f) then (True, fr_low f AND 0x3FFF)
                                 else (active, remaining))
      in if active then if remaining = 0 then (True, active, remaining)
                        else (is_complete_frame (fr_high f), active, remaining - 1)
         else (is_complete_frame (fr_high f), active, remaining))"

lemma forward_once_eq:
  assumes "hw_up (rl_noc s) = fr_high f # fr_low f # ws"
  shows "noc_forward_once high_first active remaining s =
    (case burst_next active remaining f of (finish, active, left) \<Rightarrow>
       Some (finish, active, left, s\<lparr>rl_noc := (rl_noc s)\<lparr>hw_up := ws\<rparr>,
         rl_uart := uart_write_frame high_first (fr_high f) (fr_low f) (rl_uart s)\<rparr>))"
  using assms by (simp add: noc_forward_once_def noc_read_eq burst_next_def Let_def)

lemma forward_loop_step:
  assumes "hw_up (rl_noc s) = fr_high f # fr_low f # ws"
  shows "noc_forward_loop high_first active remaining s =
    (let s' = s\<lparr>rl_noc := (rl_noc s)\<lparr>hw_up := ws\<rparr>,
           rl_uart := uart_write_frame high_first (fr_high f) (fr_low f) (rl_uart s)\<rparr>;
         (finish, active, left) = burst_next active remaining f
     in if finish then Some s' else noc_forward_loop high_first active left s')"
  unfolding noc_forward_loop.simps [of high_first active remaining s] forward_once_eq [OF assms]
  by (cases "burst_next active remaining f") (simp add: Let_def)

lemma forward_loop_empty:
  assumes "\<nexists>h l ws. hw_up (rl_noc s) = h # l # ws"
  shows "noc_forward_loop high_first active remaining s = None"
  using assms by (subst noc_forward_loop.simps) (auto simp: noc_forward_once_def noc_read_eq split: list.split)

text \<open>A response: frames that neither complete nor announce, then the frame that completes; or a frame
  that announces \<open>n\<close> frames, and these.\<close>

definition plain_frame :: "rvrt_frame \<Rightarrow> bool" where
  "plain_frame f \<longleftrightarrow> \<not> is_complete_frame (fr_high f) \<and> \<not> is_test_response_header (fr_high f) (fr_low f)"

definition work_response :: "rvrt_frame list \<Rightarrow> bool" where
  "work_response us \<longleftrightarrow> us \<noteq> [] \<and> list_all plain_frame (butlast us) \<and> is_complete_frame (fr_high (last us))"

definition test_response :: "rvrt_frame list \<Rightarrow> bool" where
  "test_response us \<longleftrightarrow>
     (case us of [] \<Rightarrow> False
      | f # fs \<Rightarrow> is_test_response_header (fr_high f) (fr_low f) \<and> unat (fr_low f AND 0x3FFF) = length fs \<and>
          list_all plain_frame (butlast fs) \<and>
          (fs \<noteq> [] \<longrightarrow> \<not> is_test_response_header (fr_high (last fs)) (fr_low (last fs))))"

lemma header_not_complete: "is_test_response_header h l \<Longrightarrow> \<not> is_complete_frame h"
proof
  assume "is_test_response_header h l" "is_complete_frame h"
  then have "drop_bit 30 h AND 3 = 1" "drop_bit 28 h AND 0xF = 0xE"
    by (simp_all add: is_test_response_header_def is_complete_frame_def)
  then have "bit (drop_bit 30 h AND 3) 1 = bit (1 :: u32) 1" "bit (drop_bit 28 h AND 0xF) 3 = bit (0xE :: u32) 3" by simp_all
  then show False by (simp add: bit_simps)
qed

lemma frames_words_Cons:
  "concat (map up_words (f # us)) @ ws = fr_high f # fr_low f # concat (map up_words us) @ ws"
  by (simp add: up_words_def)

lemma forward_work:
  assumes "work_response us" "hw_up (rl_noc s) = concat (map up_words us) @ ws"
  shows "\<exists>s'. noc_forward_loop high_first False n s = Some s' \<and> forwarded high_first us s s'"
  using assms
proof (induction us arbitrary: s)
  case Nil
  then show ?case by (simp add: work_response_def)
next
  case (Cons f us)
  note up = Cons.prems(2) [unfolded frames_words_Cons]
  let ?s = "s\<lparr>rl_noc := (rl_noc s)\<lparr>hw_up := concat (map up_words us) @ ws\<rparr>,
    rl_uart := uart_write_frame high_first (fr_high f) (fr_low f) (rl_uart s)\<rparr>"
  show ?case
  proof (cases "us = []")
    case True
    then have "is_complete_frame (fr_high f)" using Cons.prems(1) by (simp add: work_response_def)
    moreover from this have "\<not> is_test_response_header (fr_high f) (fr_low f)" using header_not_complete by blast
    ultimately have "noc_forward_loop high_first False n s = Some ?s"
      by (simp add: forward_loop_step [OF up] burst_next_def)
    with forwarded_Cons [OF up forwarded_Nil] True show ?thesis by simp
  next
    case False
    then have "plain_frame f" "work_response us" using Cons.prems(1) by (simp_all add: work_response_def)
    then have "noc_forward_loop high_first False n s = noc_forward_loop high_first False n ?s"
      by (simp add: forward_loop_step [OF up] burst_next_def plain_frame_def)
    with Cons.IH [OF \<open>work_response us\<close>, of ?s] forwarded_Cons [OF up] show ?thesis by auto
  qed
qed

lemma forward_payload:
  assumes "fs \<noteq> []" "unat n + 1 = length fs" "list_all plain_frame (butlast fs)"
    "\<not> is_test_response_header (fr_high (last fs)) (fr_low (last fs))"
    "hw_up (rl_noc s) = concat (map up_words fs) @ ws"
  shows "\<exists>s'. noc_forward_loop high_first True n s = Some s' \<and> forwarded high_first fs s s'"
  using assms
proof (induction fs arbitrary: s n)
  case Nil
  then show ?case by simp
next
  case (Cons f fs)
  note up = Cons.prems(5) [unfolded frames_words_Cons]
  let ?s = "s\<lparr>rl_noc := (rl_noc s)\<lparr>hw_up := concat (map up_words fs) @ ws\<rparr>,
    rl_uart := uart_write_frame high_first (fr_high f) (fr_low f) (rl_uart s)\<rparr>"
  show ?case
  proof (cases "fs = []")
    case True
    then have "n = 0" using Cons.prems(2) by (simp add: unat_eq_0)
    then have "noc_forward_loop high_first True n s = Some ?s"
      using Cons.prems(4) True by (simp add: forward_loop_step [OF up] burst_next_def)
    with forwarded_Cons [OF up forwarded_Nil] True show ?thesis by simp
  next
    case False
    then have n: "n \<noteq> 0" "unat (n - 1) + 1 = length fs"
      using Cons.prems(2) unat_pred_u32 [of n] by (auto simp: unat_eq_0 [symmetric])
    have "plain_frame f" using Cons.prems(3) False by simp
    then have "noc_forward_loop high_first True n s = noc_forward_loop high_first True (n - 1) ?s"
      using n by (simp add: forward_loop_step [OF up] burst_next_def plain_frame_def)
    with Cons.IH [OF False n(2), of ?s] Cons.prems(3,4) False forwarded_Cons [OF up] show ?thesis by auto
  qed
qed

lemma forward_test:
  assumes "test_response us" "hw_up (rl_noc s) = concat (map up_words us) @ ws"
  shows "\<exists>s'. noc_forward_loop high_first False n s = Some s' \<and> forwarded high_first us s s'"
proof -
  from assms(1) obtain f fs where us: "us = f # fs" and hd: "is_test_response_header (fr_high f) (fr_low f)"
    "unat (fr_low f AND 0x3FFF) = length fs" "list_all plain_frame (butlast fs)"
    "fs \<noteq> [] \<longrightarrow> \<not> is_test_response_header (fr_high (last fs)) (fr_low (last fs))"
    by (auto simp: test_response_def split: list.splits)
  note up = assms(2) [unfolded us frames_words_Cons]
  let ?s = "s\<lparr>rl_noc := (rl_noc s)\<lparr>hw_up := concat (map up_words fs) @ ws\<rparr>,
    rl_uart := uart_write_frame high_first (fr_high f) (fr_low f) (rl_uart s)\<rparr>"
  let ?n = "fr_low f AND 0x3FFF"
  show ?thesis
  proof (cases "fs = []")
    case True
    then have "?n = 0" using hd(2) by (simp add: unat_eq_0)
    then have "noc_forward_loop high_first False n s = Some ?s"
      using hd(1) by (simp add: forward_loop_step [OF up] burst_next_def)
    with forwarded_Cons [OF up forwarded_Nil] True us show ?thesis by simp
  next
    case False
    then have n: "?n \<noteq> 0" "unat (?n - 1) + 1 = length fs"
      using hd(2) unat_pred_u32 [of ?n] by (auto simp: unat_eq_0 [symmetric])
    have "noc_forward_loop high_first False n s = noc_forward_loop high_first True (?n - 1) ?s"
      using n(1) hd(1) header_not_complete [OF hd(1)] by (simp add: forward_loop_step [OF up] burst_next_def)
    moreover obtain s' where "noc_forward_loop high_first True (?n - 1) ?s = Some s'" "forwarded high_first fs ?s s'"
      using forward_payload [OF False n(2) hd(3), of ?s ws high_first] hd(4) False by auto
    ultimately show ?thesis using forwarded_Cons [OF up] us by auto
  qed
qed

lemma handler_of_loop:
  assumes "noc_forward_loop high_first False 0 (relay_noc_enter s) = Some s1"
    "forwarded high_first us (relay_noc_enter s) s1"
  shows "\<exists>s'. relay_noc_handler high_first s = Some s' \<and>
    s' = s\<lparr>rl_noc := rl_noc s', rl_uart := rl_uart s', rl_timestep_finished := 1\<rparr> \<and>
    hw_up (rl_noc s) = concat (map up_words us) @ hw_up (rl_noc s') \<and>
    ud_sent (rl_uart s') = ud_sent (rl_uart s) @ concat (map (host_bytes high_first) us) \<and>
    hw_down (rl_noc s') = hw_down (rl_noc s) \<and> noc_irq_is_enabled (rl_noc s') \<and> noc_irq_pending (rl_noc s') = 0"
  using assms
  by (cases s; cases s1)
    (auto simp: relay_noc_handler_def relay_noc_enter_def relay_noc_leave_def forwarded_def noc_irq_defs
      noc_irq_pending_def)

text \<open>A response of the chip is forwarded whole: the frames up to the one that completes, or the header
  of a test response and the frames it announces, are written to the host byte for byte in order, nothing
  behind them is read, and the interrupt is left acknowledged and enabled, with the end of the timestep
  signalled to the main loop.\<close>

theorem relay_forwards_response:
  assumes "work_response us \<or> test_response us" "hw_up (rl_noc s) = concat (map up_words us) @ rest"
  shows "\<exists>s'. relay_noc_handler high_first s = Some s' \<and> hw_up (rl_noc s') = rest \<and>
    ud_sent (rl_uart s') = ud_sent (rl_uart s) @ concat (map (host_bytes high_first) us) \<and>
    hw_down (rl_noc s') = hw_down (rl_noc s) \<and> rl_timestep_finished s' = 1 \<and> rl_noc_error s' = rl_noc_error s \<and>
    noc_irq_is_enabled (rl_noc s') \<and> noc_irq_pending (rl_noc s') = 0"
proof -
  let ?s = "relay_noc_enter s"
  have "hw_up (rl_noc ?s) = concat (map up_words us) @ rest" using assms(2) by (simp add: relay_noc_enter_def noc_irq_defs)
  then obtain s1 where "noc_forward_loop high_first False 0 ?s = Some s1" "forwarded high_first us ?s s1"
    using forward_work [of us ?s] forward_test [of us ?s] assms(1) by blast
  from handler_of_loop [OF this] obtain s' where s': "relay_noc_handler high_first s = Some s'"
    "s' = s\<lparr>rl_noc := rl_noc s', rl_uart := rl_uart s', rl_timestep_finished := 1\<rparr>"
    "hw_up (rl_noc s) = concat (map up_words us) @ hw_up (rl_noc s')"
    "ud_sent (rl_uart s') = ud_sent (rl_uart s) @ concat (map (host_bytes high_first) us)"
    "hw_down (rl_noc s') = hw_down (rl_noc s)" "noc_irq_is_enabled (rl_noc s')" "noc_irq_pending (rl_noc s') = 0"
    by blast
  have "rl_timestep_finished s' = 1" "rl_noc_error s' = rl_noc_error s"
    by (subst s'(2), cases s, simp)+
  with s' assms(2) show ?thesis by simp
qed


section \<open>The main loop among the interrupts\<close>

text \<open>The program counters between the write of a SYNC frame and the next byte.\<close>

fun main_waits :: "main_pc \<Rightarrow> bool" where
  "main_waits AwaitFinish = True"
| "main_waits Finished = True"
| "main_waits ErrorSeen = True"
| "main_waits FrameDone = True"
| "main_waits _ = False"

text \<open>The bytes that left the ring and are in no frame sent.\<close>

fun in_frame :: "main_pc \<Rightarrow> relay \<Rightarrow> u8 list" where
  "in_frame (HaveByte b) s = take (unat (rl_frame_byte_index s)) (rl_frame_bytes s) @ [b]"
| "in_frame (FrameRead h l) s = rl_frame_bytes s"
| "in_frame (FinishCleared h l) s = rl_frame_bytes s"
| "in_frame (SendFrame h l) s = rl_frame_bytes s"
| "in_frame p s = (if main_waits p then [] else take (unat (rl_frame_byte_index s)) (rl_frame_bytes s))"

definition relay_pending :: "main_pc \<Rightarrow> relay \<Rightarrow> u8 list" where
  "relay_pending p s = in_frame p s @ rb_contents (rl_rx s)"

text \<open>What a program counter says of the state; no interrupt makes it false.\<close>

fun frame_read :: "bool \<Rightarrow> main_pc \<Rightarrow> relay \<Rightarrow> bool" where
  "frame_read high_first (FrameRead h l) s \<longleftrightarrow> encode_host_frame high_first h l = rl_frame_bytes s"
| "frame_read high_first (FinishCleared h l) s \<longleftrightarrow> encode_host_frame high_first h l = rl_frame_bytes s"
| "frame_read high_first (SendFrame h l) s \<longleftrightarrow> encode_host_frame high_first h l = rl_frame_bytes s"
| "frame_read high_first p s \<longleftrightarrow> main_waits p \<or> unat (rl_frame_byte_index s) < 8"

fun ring_read :: "main_pc \<Rightarrow> rv_ringbuf \<Rightarrow> bool" where
  "ring_read (TailSeen t) r \<longleftrightarrow> t = tail r"
| "ring_read (BytesSeen t) r \<longleftrightarrow> t = tail r \<and> rb_contents r \<noteq> []"
| "ring_read (ByteSeen t b) r \<longleftrightarrow> t = tail r \<and> (\<exists>xs. rb_contents r = b # xs)"
| "ring_read _ r \<longleftrightarrow> True"

definition relay_ok :: "bool \<Rightarrow> main_pc \<Rightarrow> relay \<Rightarrow> bool" where
  "relay_ok high_first p s \<longleftrightarrow> rb_invar (rl_rx s) \<and> length (rl_frame_bytes s) = 8 \<and>
     frame_read high_first p s \<and> ring_read p (rl_rx s)"

lemma ring_read_more:
  assumes "ring_read p r" "tail r' = tail r" "rb_contents r' = rb_contents r @ xs"
  shows "ring_read p r'"
  using assms by (cases p) auto

lemma frame_parts_cong:
  assumes "rl_frame_bytes s' = rl_frame_bytes s" "rl_frame_byte_index s' = rl_frame_byte_index s"
  shows "frame_read high_first p s' = frame_read high_first p s" "in_frame p s' = in_frame p s"
  using assms by (cases p; simp)+

text \<open>What a step of the main loop does: it moves \<open>ds\<close> from the pending bytes to the chip.\<close>

definition main_moves :: "bool \<Rightarrow> main_pc \<Rightarrow> relay \<Rightarrow> rvrt_frame list \<Rightarrow> main_pc \<Rightarrow> relay \<Rightarrow> bool" where
  "main_moves high_first p s ds q s' \<longleftrightarrow>
     relay_ok high_first q s' \<and> rl_uart s' = rl_uart s \<and> hw_up (rl_noc s') = hw_up (rl_noc s) \<and>
     relay_pending p s = concat (map (host_bytes high_first) ds) @ relay_pending q s' \<and>
     hw_down (rl_noc s') = hw_down (rl_noc s) @ concat (map frame_words ds) \<and>
     (main_waits q \<longrightarrow> main_waits p \<and> ds = [] \<or> ds \<noteq> [] \<and> is_sync_frame (fr_high (last ds))) \<and>
     rl_uart_rx_overflow s' = (if p = OverflowSeen then 0 else rl_uart_rx_overflow s) \<and>
     (q = OverflowSeen \<longrightarrow> rl_uart_rx_overflow s \<noteq> 0)"

lemmas main_moves_defs = main_moves_def relay_ok_def relay_pending_def

lemma store_tail_moves:
  assumes "relay_ok high_first (ByteSeen t b) s"
  shows "main_moves high_first (ByteSeen t b) s [] (HaveByte b)
    (s\<lparr>rl_rx := (rl_rx s)\<lparr>tail := rv_ringbuf_next_index (rl_rx s) t\<rparr>\<rparr>)"
  using assms contents_step [of "rl_rx s"] by (auto simp: main_moves_defs)

lemma have_byte_moves:
  assumes "relay_ok high_first (HaveByte b) s"
  shows "\<exists>q s'. relay_main_step high_first (HaveByte b) s = Some (q, s') \<and>
    main_moves high_first (HaveByte b) s [] q s'"
proof -
  let ?i = "unat (rl_frame_byte_index s)" and ?bytes = "(rl_frame_bytes s)[unat (rl_frame_byte_index s) := b]"
  let ?s = "s\<lparr>rl_frame_bytes := ?bytes, rl_frame_byte_index := rl_frame_byte_index s + 1\<rparr>"
  have ok: "rb_invar (rl_rx s)" "length (rl_frame_bytes s) = 8" "?i < 8"
    using assms by (simp_all add: relay_ok_def)
  from ok(3) have "rl_frame_byte_index s < 8" by (simp add: word_less_nat_alt)
  from unat_Suc_word [OF this] have next_i: "unat (rl_frame_byte_index s + 1) = ?i + 1" .
  have tk: "take (?i + 1) ?bytes = take ?i (rl_frame_bytes s) @ [b]"
    using ok(2,3) by (simp add: take_Suc_conv_app_nth)
  show ?thesis
  proof (cases "rl_frame_byte_index s + 1 = 8")
    case False
    then have "?i + 1 < 8" using ok(3) next_i by (auto simp: word_unat_eq_iff)
    moreover have "relay_main_step high_first (HaveByte b) s = Some (NextByte, ?s)"
      using ok(2,3) False by simp
    ultimately show ?thesis using ok next_i tk
      by (intro exI [of _ NextByte] exI [of _ ?s]) (simp add: main_moves_defs)
  next
    case True
    then have i7: "?i = 7" using next_i by simp
    then have bytes: "?bytes = take ?i (rl_frame_bytes s) @ [b]" using tk ok(2) by simp
    obtain high low where dec: "decode_host_frame high_first ?bytes = Some (high, low)"
      "encode_host_frame high_first high low = ?bytes"
      using host_frame_of_bytes [of ?bytes high_first] ok(2) by auto
    have "relay_main_step high_first (HaveByte b) s = Some (FrameRead high low, ?s)"
      using ok(2,3) True dec(1) by simp
    moreover have "main_moves high_first (HaveByte b) s [] (FrameRead high low) ?s"
      using ok bytes dec(2) i7 by (simp add: main_moves_defs)
    ultimately show ?thesis by blast
  qed
qed

lemma send_frame_moves:
  assumes "relay_ok high_first (SendFrame h l) s"
  shows "\<exists>q s'. relay_main_step high_first (SendFrame h l) s = Some (q, s') \<and>
    main_moves high_first (SendFrame h l) s [\<lparr>fr_high = h, fr_low = l\<rparr>] q s'"
  using assms
  by (cases s) (auto simp: main_moves_defs host_bytes_def frame_words_def noc_write_unlocked_eq Let_def)

lemma quiet_step_moves:
  assumes "relay_ok high_first p s" "p \<in> {NextByte, NoByte, OverflowSeen, AwaitFinish, Finished, ErrorSeen, FrameDone} \<or>
    (\<exists>h l. p = FrameRead h l \<or> p = FinishCleared h l)"
  shows "\<exists>q s'. relay_main_step high_first p s = Some (q, s') \<and> main_moves high_first p s [] q s'"
  using assms by (cases p) (auto simp: main_moves_defs rb_invar_valid)

lemma main_step_moves:
  assumes "relay_ok high_first p s"
  shows "\<exists>q s' ds. relay_main_step high_first p s = Some (q, s') \<and> main_moves high_first p s ds q s'"
proof (cases p)
  case (HaveByte b)
  with have_byte_moves assms show ?thesis by blast
next
  case (SendFrame h l)
  with send_frame_moves assms show ?thesis by blast
next
  case (ByteSeen t b)
  with store_tail_moves assms show ?thesis by (fastforce simp del: fun_upd_apply)
next
  case (BytesSeen t)
  then have "rb_invar (rl_rx s)" "rb_contents (rl_rx s) \<noteq> []" "t = tail (rl_rx s)"
    using assms by (simp_all add: relay_ok_def)
  with contents_step [OF this(1,2)] assms BytesSeen show ?thesis
    by (intro exI [of _ "ByteSeen t (the (storage (rl_rx s)) ! unat t)"] exI [of _ s] exI [of _ "[]"])
      (auto simp: main_moves_defs elim: rb_invarE)
next
  case (TailSeen t)
  then have "rb_contents (rl_rx s) = [] \<longleftrightarrow> head (rl_rx s) = t"
    using assms empty_iff [of "rl_rx s"] length_0_conv [of "rb_contents (rl_rx s)"] by (auto simp: relay_ok_def)
  with assms TailSeen show ?thesis
    by (intro exI [of _ "if head (rl_rx s) = t then NoByte else BytesSeen t"] exI [of _ s] exI [of _ "[]"])
      (simp add: main_moves_defs)
qed (use quiet_step_moves [OF assms] in blast)+


section \<open>Transparency\<close>

text \<open>What a receive interrupt kept of the bytes it took, and when it lost some.\<close>

fun burst_kept :: "nat \<times> u8 list \<Rightarrow> u8 list" where
  "burst_kept (room, bytes) = take room bytes"

fun burst_lost :: "nat \<times> u8 list \<Rightarrow> bool" where
  "burst_lost (room, bytes) \<longleftrightarrow> room < length bytes"

text \<open>The account of a run, with the frames \<open>ds\<close> sent down and the frames \<open>us\<close> sent up.\<close>

definition accounted :: "bool \<Rightarrow> relay \<Rightarrow> rvrt_frame list \<Rightarrow> rvrt_frame list \<Rightarrow> relay_system \<Rightarrow> bool" where
  "accounted high_first s0 ds us y \<longleftrightarrow>
     (let s = sy_relay y
      in sy_host y = concat (map snd (sy_bursts y)) @ line_bytes (ud_rx (rl_uart s)) \<and>
         concat (map burst_kept (sy_bursts y)) =
           concat (map (host_bytes high_first) ds) @ relay_pending (sy_main y) s \<and>
         hw_down (rl_noc s) = hw_down (rl_noc s0) @ concat (map frame_words ds) \<and>
         sy_chip y = concat (map up_words us) @ hw_up (rl_noc s) \<and>
         ud_sent (rl_uart s) = ud_sent (rl_uart s0) @ concat (map (host_bytes high_first) us) \<and>
         (main_waits (sy_main y) \<longrightarrow> ds \<noteq> [] \<and> is_sync_frame (fr_high (last ds))) \<and>
         ((\<exists>b\<in>set (sy_bursts y). burst_lost b) \<longleftrightarrow> rl_uart_rx_overflow s \<noteq> 0 \<or> 0 < sy_overflows y))"

definition system_ok :: "bool \<Rightarrow> relay \<Rightarrow> relay_system \<Rightarrow> bool" where
  "system_ok high_first s0 y \<longleftrightarrow> relay_ok high_first (sy_main y) (sy_relay y) \<and>
     (sy_main y = OverflowSeen \<longrightarrow> 0 < sy_overflows y) \<and> (\<exists>ds us. accounted high_first s0 ds us y)"

lemma system_okI:
  assumes "relay_ok high_first (sy_main y) (sy_relay y)" "sy_main y = OverflowSeen \<Longrightarrow> 0 < sy_overflows y"
    "accounted high_first s0 ds us y"
  shows "system_ok high_first s0 y"
  using assms by (auto simp: system_ok_def)

lemma system_okE:
  assumes "system_ok high_first s0 y"
  obtains ds us where "relay_ok high_first (sy_main y) (sy_relay y)" "sy_main y = OverflowSeen \<longrightarrow> 0 < sy_overflows y"
    "accounted high_first s0 ds us y"
  using assms by (auto simp: system_ok_def)

text \<open>A state that differs in what the NoC handler writes.\<close>

lemma noc_keeps:
  assumes "rl_rx s' = rl_rx s" "rl_frame_bytes s' = rl_frame_bytes s" "rl_frame_byte_index s' = rl_frame_byte_index s"
  shows "relay_ok high_first p s' = relay_ok high_first p s" "relay_pending p s' = relay_pending p s"
  using assms frame_parts_cong [OF assms(2,3)] by (simp_all add: relay_ok_def relay_pending_def)

lemma uart_irq_ok:
  assumes "system_ok high_first s0 y" "relay_uart_irq (sy_relay y) = Some s'"
  shows "system_ok high_first s0
    (y\<lparr>sy_relay := s', sy_bursts := sy_bursts y @ [(ring_free (rl_rx (sy_relay y)), uart_taken (sy_relay y))]\<rparr>)"
proof -
  let ?s = "sy_relay y"
  from assms(1) obtain ds us where y: "relay_ok high_first (sy_main y) ?s"
    "sy_main y = OverflowSeen \<longrightarrow> 0 < sy_overflows y" "accounted high_first s0 ds us y" by (rule system_okE)
  from y(1) have "rb_invar (rl_rx ?s)" by (simp add: relay_ok_def)
  from uart_irq_lemma [OF this] assms(2) have s': "rx_only ?s s'" "rb_invar (rl_rx s')"
    "rb_contents (rl_rx s') = rb_contents (rl_rx ?s) @ take (ring_free (rl_rx ?s)) (uart_taken ?s)"
    "rl_uart_rx_overflow s' =
      (if length (uart_taken ?s) \<le> ring_free (rl_rx ?s) then rl_uart_rx_overflow ?s else 1)"
    "tail (rl_rx s') = tail (rl_rx ?s)"
    "line_bytes (ud_rx (rl_uart ?s)) = uart_taken ?s @ line_bytes (ud_rx (rl_uart s'))" by auto
  have f: "rl_noc s' = rl_noc ?s" "rl_frame_bytes s' = rl_frame_bytes ?s"
    "rl_frame_byte_index s' = rl_frame_byte_index ?s" "ud_sent (rl_uart s') = ud_sent (rl_uart ?s)"
    using s'(1) by (cases ?s; cases s'; simp add: rx_only_def)+
  have "relay_ok high_first (sy_main y) s'"
    using y(1) s'(2) f(2) ring_read_more [OF _ s'(5,3)] frame_parts_cong [OF f(2,3)] by (simp add: relay_ok_def)
  moreover have "relay_pending (sy_main y) s' =
      relay_pending (sy_main y) ?s @ take (ring_free (rl_rx ?s)) (uart_taken ?s)"
    using s'(3) frame_parts_cong [OF f(2,3)] by (simp add: relay_pending_def)
  ultimately show ?thesis using y(2,3) s'(4,6) f
    by (intro system_okI [of _ _ _ ds us]) (auto simp: accounted_def Let_def)
qed

lemma forward_ok:
  assumes "system_ok high_first s0 y"
    "noc_forward_once high_first active remaining (sy_relay y) = Some (read_finish, active', remaining', s')"
  shows "system_ok high_first s0 (y\<lparr>sy_relay := s', sy_noc := n\<rparr>)"
proof -
  let ?s = "sy_relay y"
  from assms(1) obtain ds us where y: "relay_ok high_first (sy_main y) ?s"
    "sy_main y = OverflowSeen \<longrightarrow> 0 < sy_overflows y" "accounted high_first s0 ds us y" by (rule system_okE)
  obtain h l ws where hl: "hw_up (rl_noc ?s) = h # l # ws"
    using assms(2) by (auto simp: noc_forward_once_def noc_read_eq split: list.splits)
  let ?f = "\<lparr>fr_high = h, fr_low = l\<rparr>"
  from hl have "hw_up (rl_noc ?s) = fr_high ?f # fr_low ?f # ws" by simp
  from forward_once_eq [OF this, of high_first active remaining] assms(2)
  have s': "s' = ?s\<lparr>rl_noc := (rl_noc ?s)\<lparr>hw_up := ws\<rparr>, rl_uart := uart_write_frame high_first h l (rl_uart ?s)\<rparr>"
    by (auto split: prod.splits)
  have "accounted high_first s0 ds (us @ [?f]) (y\<lparr>sy_relay := s', sy_noc := n\<rparr>)"
    using y(3) hl noc_keeps(2) [of s' ?s] by (simp add: accounted_def Let_def s' up_words_def host_bytes_def)
  then show ?thesis
    using y(1,2) noc_keeps(1) [of s' ?s] by (intro system_okI) (simp_all add: s')
qed

lemma main_ok:
  assumes "system_ok high_first s0 y" "relay_main_step high_first (sy_main y) (sy_relay y) = Some (q, s')"
  shows "system_ok high_first s0
    (y\<lparr>sy_relay := s', sy_main := q, sy_overflows := sy_overflows y + (if q = OverflowSeen then 1 else 0)\<rparr>)"
proof -
  from assms(1) obtain ds us where y: "relay_ok high_first (sy_main y) (sy_relay y)"
    "sy_main y = OverflowSeen \<longrightarrow> 0 < sy_overflows y" "accounted high_first s0 ds us y" by (rule system_okE)
  from main_step_moves [OF y(1)] assms(2) obtain es where
    es: "main_moves high_first (sy_main y) (sy_relay y) es q s'" by auto
  have "accounted high_first s0 (ds @ es) us
      (y\<lparr>sy_relay := s', sy_main := q, sy_overflows := sy_overflows y + (if q = OverflowSeen then 1 else 0)\<rparr>)"
    using y(2,3) es by (auto simp: accounted_def main_moves_def Let_def)
  then show ?thesis using es by (intro system_okI) (simp_all add: main_moves_def)
qed

lemma relay_step_ok:
  assumes "relay_step high_first y y'" "system_ok high_first s0 y"
  shows "system_ok high_first s0 y'"
  using assms
proof (induction rule: relay_step.induct)
  case (arrive s y polls ip)
  from arrive.prems obtain ds us where y: "relay_ok high_first (sy_main y) (sy_relay y)"
    "sy_main y = OverflowSeen \<longrightarrow> 0 < sy_overflows y" "accounted high_first s0 ds us y" by (rule system_okE)
  let ?s = "s\<lparr>rl_uart := (rl_uart s)\<lparr>ud_rx := ud_rx (rl_uart s) @ polls, IP := ip\<rparr>\<rparr>"
  have "relay_ok high_first p ?s = relay_ok high_first p s" "relay_pending p ?s = relay_pending p s" for p
    by (rule noc_keeps; simp)+
  with y show ?case using arrive.hyps
    by (intro system_okI [of _ _ _ ds us]) (simp_all add: accounted_def Let_def)
next
  case (chip_sends s y ws)
  from chip_sends.prems obtain ds us where y: "relay_ok high_first (sy_main y) (sy_relay y)"
    "sy_main y = OverflowSeen \<longrightarrow> 0 < sy_overflows y" "accounted high_first s0 ds us y" by (rule system_okE)
  let ?s = "s\<lparr>rl_noc := (rl_noc s)\<lparr>hw_up := hw_up (rl_noc s) @ ws, hw_pending := 1\<rparr>\<rparr>"
  have "relay_ok high_first p ?s = relay_ok high_first p s" "relay_pending p ?s = relay_pending p s" for p
    by (rule noc_keeps; simp)+
  with y show ?case using chip_sends.hyps
    by (intro system_okI [of _ _ _ ds us]) (simp_all add: accounted_def Let_def)
next
  case (noc_enter y)
  from noc_enter.prems obtain ds us where y: "relay_ok high_first (sy_main y) (sy_relay y)"
    "sy_main y = OverflowSeen \<longrightarrow> 0 < sy_overflows y" "accounted high_first s0 ds us y" by (rule system_okE)
  let ?s = "relay_noc_enter (sy_relay y)"
  have "relay_ok high_first p ?s = relay_ok high_first p (sy_relay y)"
    "relay_pending p ?s = relay_pending p (sy_relay y)" for p
    by (rule noc_keeps; simp add: relay_noc_enter_def)+
  with y show ?case
    by (intro system_okI [of _ _ _ ds us])
      (simp_all add: accounted_def Let_def relay_noc_enter_def noc_irq_defs)
next
  case (noc_leave y)
  from noc_leave.prems obtain ds us where y: "relay_ok high_first (sy_main y) (sy_relay y)"
    "sy_main y = OverflowSeen \<longrightarrow> 0 < sy_overflows y" "accounted high_first s0 ds us y" by (rule system_okE)
  let ?s = "relay_noc_leave (sy_relay y)"
  have "relay_ok high_first p ?s = relay_ok high_first p (sy_relay y)"
    "relay_pending p ?s = relay_pending p (sy_relay y)" for p
    by (rule noc_keeps; simp add: relay_noc_leave_def)+
  with y show ?case
    by (intro system_okI [of _ _ _ ds us])
      (simp_all add: accounted_def Let_def relay_noc_leave_def noc_irq_defs)
next
  case (uart_irq y s)
  from uart_irq_ok [OF uart_irq.prems uart_irq.hyps] show ?case .
next
  case (noc_forward y active remaining read_finish active' remaining' s)
  from forward_ok [OF noc_forward.prems noc_forward.hyps(2)] show ?case .
next
  case (main_step y q s)
  from main_ok [OF main_step.prems main_step.hyps(2)] show ?case .
qed

text \<open>The state \<open>main\<close> enters its loop with; \<open>relay_init\<close> and the configuration frames leave it so.\<close>

definition relay_started :: "relay \<Rightarrow> bool" where
  "relay_started s \<longleftrightarrow> rb_invar (rl_rx s) \<and> rb_contents (rl_rx s) = [] \<and> length (rl_frame_bytes s) = 8 \<and>
     rl_frame_byte_index s = 0 \<and> rl_uart_rx_overflow s = 0 \<and> hw_up (rl_noc s) = [] \<and>
     line_bytes (ud_rx (rl_uart s)) = []"

lemma config_frame_loop_up: "hw_up (config_frame_loop ws hw) = hw_up hw"
  by (induction ws hw rule: config_frame_loop.induct) (simp_all add: noc_write_unlocked_eq)

lemma relay_init_starts:
  assumes "relay_init register_uart register_noc s = (0, s')" "storage (rl_rx s) = Some st" "4096 \<le> length st"
    "length (rl_frame_bytes s) = 8" "rl_frame_byte_index s = 0" "rl_uart_rx_overflow s = 0" "hw_up (rl_noc s) = []"
    "line_bytes (ud_rx (rl_uart s)) = []"
  shows "relay_started (send_config_frames config_frame s')"
proof -
  obtain r where "rv_ringbuf_init (Some (rl_rx s)) (Some st) 4096 = (RV_RINGBUF_OK, Some r)" "rb_invar r"
    "rb_contents r = []" using init_refines [of 4096 st "rl_rx s"] assms(3) by auto
  with assms have "relay_started s'"
    by (auto simp: relay_init_def relay_started_def Let_def uart_set_rx_watermark_def uart_enable_rxint_def
        enable_irq_def noc_irq_enable_def split: if_splits)
  then show ?thesis
    by (auto simp: relay_started_def send_config_frames_def noc_enter_critical_def noc_exit_critical_def
        config_frame_loop_up enable_irq_def disable_irq_def noc_irq_defs Let_def split: option.split)
qed

lemma relay_run_ok:
  assumes "relay_run high_first (relay_system_at s0) y" "relay_started s0"
  shows "system_ok high_first s0 y"
  using assms(1)
proof (induction rule: relay_run.induct)
  case run_start
  have "accounted high_first s0 [] [] (relay_system_at s0)" "relay_ok high_first NextByte s0"
    using assms(2)
    by (simp_all add: accounted_def relay_started_def relay_system_at_def relay_pending_def relay_ok_def)
  then show ?case by (intro system_okI) (simp_all add: relay_system_at_def)
next
  case (run_step y y')
  then show ?case using relay_step_ok by blast
qed

lemma main_step_defined: "relay_ok high_first p s \<Longrightarrow> relay_main_step high_first p s \<noteq> None"
  using main_step_moves [of high_first p s] by auto

lemma uart_irq_defined: "relay_ok high_first p s \<Longrightarrow> relay_uart_irq s \<noteq> None"
  using uart_irq_lemma [of s] by (auto simp: relay_ok_def)

lemma burst_kept_all: "\<not> burst_lost b \<Longrightarrow> burst_kept b = snd b"
  by (cases b) simp

lemma bursts_kept_all:
  "\<forall>b\<in>set bs. \<not> burst_lost b \<Longrightarrow> concat (map burst_kept bs) = concat (map snd bs)"
  by (induction bs) (simp_all add: burst_kept_all)

text \<open>C5.  The relay is transparent.  From the start of its loop, whatever the host and the chip send and
  wherever between the accesses of the main loop and of the NoC handler the receive interrupt comes, or
  between those of the main loop the NoC interrupt: every byte the line brought was taken from the UART by
  a receive interrupt or is still in the UART; of the bytes each interrupt took, the first ones, as many as
  the ring had room for, and no others are, in order, the frames sent down to the chip in the host's word
  order and the bytes in the ring or in the unfinished frame; a byte was lost exactly when the overflow flag
  is set or was found set by the main loop, so with no overflow seen the chip was sent what the host sent;
  the words the chip sent are the frames written to the host and the words not yet read; while the relay
  holds back, the frame it sent last is a SYNC; and neither the main loop nor the interrupt has an access
  out of bounds.\<close>

theorem relay_transparent:
  assumes "relay_run high_first (relay_system_at s0) y" "relay_started s0"
  shows "\<exists>ds us. let s = sy_relay y in
    sy_host y = concat (map snd (sy_bursts y)) @ line_bytes (ud_rx (rl_uart s)) \<and>
    concat (map burst_kept (sy_bursts y)) = concat (map (host_bytes high_first) ds) @ relay_pending (sy_main y) s \<and>
    ((\<exists>b\<in>set (sy_bursts y). burst_lost b) \<longleftrightarrow> rl_uart_rx_overflow s \<noteq> 0 \<or> 0 < sy_overflows y) \<and>
    (rl_uart_rx_overflow s = 0 \<and> sy_overflows y = 0 \<longrightarrow>
       sy_host y = concat (map (host_bytes high_first) ds) @ relay_pending (sy_main y) s @ line_bytes (ud_rx (rl_uart s))) \<and>
    hw_down (rl_noc s) = hw_down (rl_noc s0) @ concat (map frame_words ds) \<and>
    sy_chip y = concat (map up_words us) @ hw_up (rl_noc s) \<and>
    ud_sent (rl_uart s) = ud_sent (rl_uart s0) @ concat (map (host_bytes high_first) us) \<and>
    (main_waits (sy_main y) \<longrightarrow> ds \<noteq> [] \<and> is_sync_frame (fr_high (last ds))) \<and>
    relay_main_step high_first (sy_main y) s \<noteq> None \<and> relay_uart_irq s \<noteq> None"
proof -
  obtain ds us where y: "relay_ok high_first (sy_main y) (sy_relay y)" "accounted high_first s0 ds us y"
    using relay_run_ok [OF assms] by (rule system_okE)
  note y(2) [unfolded accounted_def Let_def] main_step_defined [OF y(1)] uart_irq_defined [OF y(1)]
  then show ?thesis using bursts_kept_all [of "sy_bursts y"]
    by (intro exI [of _ ds] exI [of _ us]) (auto simp: Let_def)
qed


section \<open>Examples\<close>

text \<open>A relay with a ring of sixteen bytes.\<close>

definition demo_relay :: "relay" where
  "demo_relay = \<lparr>rl_rx = \<lparr>storage = Some [0, 0, 0, 0, 0, 0, 0, 0, 0, 0, 0, 0, 0, 0, 0, 0], rb_size = 16, head = 0, tail = 0\<rparr>,
     rl_timestep_finished = 0, rl_uart_rx_overflow = 0, rl_noc_error = 0,
     rl_uart = \<lparr>ud_rx = [], ud_tx = [], ud_sent = [], TXCTRL = 0, RXCTRL = 0, IE = 2, IP = 0, DIV = 0,
       ud_clock = (\<lambda>_. 0), ud_reads = 0\<rparr>,
     rl_noc = \<lparr>hw_down = [], hw_up = [], hw_pending = 0, hw_irq_enable = 1, hw_mstatus = 8\<rparr>,
     rl_frame_bytes = [0, 0, 0, 0, 0, 0, 0, 0], rl_frame_byte_index = 0\<rparr>"

lemma demo_relay_started: "relay_started demo_relay"
  by (simp add: demo_relay_def relay_started_def rb_invar_def rb_contents_def rb_count_def line_bytes_def)

text \<open>A script of steps and its execution.\<close>

datatype relay_event = Arrive "u8 list" | UartIrq | ChipSends "u32 list" | NocEnter | NocForwardOne | NocLeave | MainStep

fun exec_event :: "relay_event \<Rightarrow> relay_system \<Rightarrow> relay_system option" where
  "exec_event (Arrive bs) y =
     (let s = sy_relay y; polls = map (\<lambda>b. (ucast b, 0)) bs
      in Some (y\<lparr>sy_relay := s\<lparr>rl_uart := (rl_uart s)\<lparr>ud_rx := ud_rx (rl_uart s) @ polls, IP := 2\<rparr>\<rparr>,
                 sy_host := sy_host y @ line_bytes polls\<rparr>))"
| "exec_event UartIrq y = do {
     s \<leftarrow> relay_uart_irq (sy_relay y);
     Some (y\<lparr>sy_relay := s, sy_bursts := sy_bursts y @ [(ring_free (rl_rx (sy_relay y)), uart_taken (sy_relay y))]\<rparr>)
   }"
| "exec_event (ChipSends ws) y =
     (let s = sy_relay y
      in Some (y\<lparr>sy_relay := s\<lparr>rl_noc := (rl_noc s)\<lparr>hw_up := hw_up (rl_noc s) @ ws, hw_pending := 1\<rparr>\<rparr>,
                 sy_chip := sy_chip y @ ws\<rparr>))"
| "exec_event NocEnter y =
     (if sy_noc y = NocIdle \<and> noc_irq_is_enabled (rl_noc (sy_relay y)) \<and> noc_irq_pending (rl_noc (sy_relay y)) \<noteq> 0
      then Some (y\<lparr>sy_relay := relay_noc_enter (sy_relay y), sy_noc := NocForward False 0\<rparr>) else None)"
| "exec_event NocForwardOne y =
     (case sy_noc y of
        NocForward active remaining \<Rightarrow> do {
          (read_finish, active, remaining, s) \<leftarrow> noc_forward_once True active remaining (sy_relay y);
          Some (y\<lparr>sy_relay := s, sy_noc := (if read_finish then NocDone else NocForward active remaining)\<rparr>)
        }
      | _ \<Rightarrow> None)"
| "exec_event NocLeave y =
     (if sy_noc y = NocDone then Some (y\<lparr>sy_relay := relay_noc_leave (sy_relay y), sy_noc := NocIdle\<rparr>) else None)"
| "exec_event MainStep y =
     (if sy_noc y = NocIdle
      then do {
        (p, s) \<leftarrow> relay_main_step True (sy_main y) (sy_relay y);
        Some (y\<lparr>sy_relay := s, sy_main := p, sy_overflows := sy_overflows y + (if p = OverflowSeen then 1 else 0)\<rparr>)
      }
      else None)"

fun exec_events :: "relay_event list \<Rightarrow> relay_system \<Rightarrow> relay_system option" where
  "exec_events [] y = Some y"
| "exec_events (e # es) y = do { y \<leftarrow> exec_event e y; exec_events es y }"

lemma exec_event_step:
  assumes "exec_event e y = Some y'"
  shows "relay_step True y y'"
proof (cases e)
  case NocForwardOne
  then obtain active remaining fin active' remaining' s where n: "sy_noc y = NocForward active remaining"
    "noc_forward_once True active remaining (sy_relay y) = Some (fin, active', remaining', s)"
    "y' = y\<lparr>sy_relay := s, sy_noc := (if fin then NocDone else NocForward active' remaining')\<rparr>"
    using assms by (auto simp del: if_split split: Option.bind_splits noc_pc.splits)
  show ?thesis using relay_step.noc_forward [OF n(1,2)] n(3) by simp
next
  case MainStep
  then obtain q s where n: "sy_noc y = NocIdle" "relay_main_step True (sy_main y) (sy_relay y) = Some (q, s)"
    "y' = y\<lparr>sy_relay := s, sy_main := q, sy_overflows := sy_overflows y + (if q = OverflowSeen then 1 else 0)\<rparr>"
    using assms by (auto split: Option.bind_splits if_split_asm)
  show ?thesis using relay_step.main_step [OF n(1,2)] n(3) by simp
qed (use assms in \<open>auto simp: Let_def intro: relay_step.intros split: Option.bind_splits if_split_asm\<close>)

lemma exec_events_run:
  "relay_run True y0 y \<Longrightarrow> exec_events es y = Some y' \<Longrightarrow> relay_run True y0 y'"
proof (induction es arbitrary: y)
  case (Cons e es)
  then obtain y1 where "exec_event e y = Some y1" "exec_events es y1 = Some y'" by (auto split: Option.bind_splits)
  with Cons.IH relay_run.run_step [OF Cons.prems(1) exec_event_step] show ?case by blast
qed simp

text \<open>
  A SYNC frame for the third timestep and two bytes of the next frame arrive.  While the main loop takes
  the first byte out of the ring, seven more bytes come, for which there are five places.  The SYNC is
  sent, the chip answers, and its answer is forwarded.
\<close>

definition demo_script :: "relay_event list" where
  "demo_script = [Arrive [0xC0, 0, 0, 0, 0, 0, 0, 3, 0x80, 1], UartIrq, MainStep, MainStep, MainStep,
     Arrive [2, 3, 4, 5, 6, 7, 8], UartIrq] @ replicate 42 MainStep @
     [ChipSends [0xE0000000, 3], NocEnter, NocForwardOne, NocLeave] @ replicate 3 MainStep"

lemma demo_script_value:
  "map_option (\<lambda>y. (sy_bursts y, hw_down (rl_noc (sy_relay y)), ud_sent (rl_uart (sy_relay y)),
       relay_pending (sy_main y) (sy_relay y), rl_uart_rx_overflow (sy_relay y)))
     (exec_events demo_script (relay_system_at demo_relay)) =
   Some ([(15, [0xC0, 0, 0, 0, 0, 0, 0, 3, 0x80, 1]), (5, [2, 3, 4, 5, 6, 7, 8])], [3, 0xC0000000],
     [0xE0, 0, 0, 0, 0, 0, 0, 3], [0x80, 1, 2, 3, 4, 5, 6], 1)"
  by code_simp

theorem relay_transparent_witness:
  "\<exists>y ds us. relay_run True (relay_system_at demo_relay) y \<and>
     sy_bursts y = [(15, [0xC0, 0, 0, 0, 0, 0, 0, 3, 0x80, 1]), (5, [2, 3, 4, 5, 6, 7, 8])] \<and>
     rl_uart_rx_overflow (sy_relay y) = 1 \<and>
     [0xC0, 0, 0, 0, 0, 0, 0, 3, 0x80, 1, 2, 3, 4, 5, 6] =
       concat (map (host_bytes True) ds) @ relay_pending (sy_main y) (sy_relay y) \<and>
     relay_pending (sy_main y) (sy_relay y) = [0x80, 1, 2, 3, 4, 5, 6] \<and>
     concat (map frame_words ds) = [3, 0xC0000000] \<and> concat (map (host_bytes True) us) = [0xE0, 0, 0, 0, 0, 0, 0, 3]"
proof -
  obtain y where y: "exec_events demo_script (relay_system_at demo_relay) = Some y"
    "sy_bursts y = [(15, [0xC0, 0, 0, 0, 0, 0, 0, 3, 0x80, 1]), (5, [2, 3, 4, 5, 6, 7, 8])]"
    "hw_down (rl_noc (sy_relay y)) = [3, 0xC0000000]" "ud_sent (rl_uart (sy_relay y)) = [0xE0, 0, 0, 0, 0, 0, 0, 3]"
    "relay_pending (sy_main y) (sy_relay y) = [0x80, 1, 2, 3, 4, 5, 6]" "rl_uart_rx_overflow (sy_relay y) = 1"
    using demo_script_value by auto
  have run: "relay_run True (relay_system_at demo_relay) y" by (rule exec_events_run [OF relay_run.run_start y(1)])
  have "hw_down (rl_noc demo_relay) = []" "ud_sent (rl_uart demo_relay) = []" by (simp_all add: demo_relay_def)
  with relay_transparent [OF run demo_relay_started] y(2-6) obtain ds us where
    "[0xC0, 0, 0, 0, 0, 0, 0, 3, 0x80, 1, 2, 3, 4, 5, 6] =
      concat (map (host_bytes True) ds) @ relay_pending (sy_main y) (sy_relay y)"
    "concat (map frame_words ds) = [3, 0xC0000000]" "concat (map (host_bytes True) us) = [0xE0, 0, 0, 0, 0, 0, 0, 3]"
    by (auto simp: Let_def)
  with run y(2,5,6) show ?thesis by blast
qed

text \<open>A test response of two frames, the second of which looks like work.\<close>

theorem relay_forwards_response_witness:
  "\<exists>s'. relay_noc_handler False
      (demo_relay\<lparr>rl_noc := (rl_noc demo_relay)\<lparr>hw_up := [0x40000000, 1, 0x80000000, 7, 5, 6]\<rparr>\<rparr>) = Some s' \<and>
     hw_up (rl_noc s') = [5, 6] \<and> ud_sent (rl_uart s') = [0, 0, 0, 1, 0x40, 0, 0, 0, 0, 0, 0, 7, 0x80, 0, 0, 0]"
proof -
  let ?us = "[\<lparr>fr_high = 0x40000000, fr_low = 1\<rparr>, \<lparr>fr_high = 0x80000000, fr_low = 7\<rparr>]"
  have "work_response ?us \<or> test_response ?us"
    by (simp add: test_response_def is_test_response_header_def)
  have bytes: "concat (map (host_bytes False) ?us) = [0, 0, 0, 1, 0x40, 0, 0, 0, 0, 0, 0, 7, 0x80, 0, 0, 0]"
    by code_simp
  from relay_forwards_response [OF \<open>work_response ?us \<or> test_response ?us\<close>, of
      "demo_relay\<lparr>rl_noc := (rl_noc demo_relay)\<lparr>hw_up := [0x40000000, 1, 0x80000000, 7, 5, 6]\<rparr>\<rparr>" "[5, 6]" False]
  show ?thesis unfolding bytes by (auto simp: up_words_def demo_relay_def)
qed

text \<open>
  The handler takes a frame of a test response for a frame that completes when its top bits say so: of
  the three frames announced here the last is left in the uplink.
\<close>

theorem relay_payload_cut:
  "map_option (\<lambda>s'. (hw_up (rl_noc s'), ud_sent (rl_uart s'), rl_timestep_finished s'))
     (relay_noc_handler True
       (demo_relay\<lparr>rl_noc := (rl_noc demo_relay)\<lparr>hw_up := [0x40000000, 2, 0xE0000000, 7, 0, 8]\<rparr>\<rparr>)) =
   Some ([0, 8], [0x40, 0, 0, 0, 0, 0, 0, 2, 0xE0, 0, 0, 0, 0, 0, 0, 7], 1)"
  by code_simp

end
