(* ===== verification/SnnUart.thy ===== *)
theory SnnUart
  imports Prelude
begin

text \<open>
  The NSNN framing of the SNN Head service, \<open>application/baremetal/snn_head/src/snn_head_uart.c\<close> and
  \<open>include/snn_head_uart.h\<close>, in the release build (\<open>SNN_HEAD_TIMING == 0\<close>).

  The UART, the clock and the inference are callbacks of the code and stay parameters here: \<open>read\<close> gives
  the bytes it has put into the caller's buffer, and the callbacks thread their context.  A float32
  object is its 32 bits; the input tensor is kept as the bytes of its array, because the code receives
  it as bytes and decodes it in place.  A 48-byte array is a list of length 48.
\<close>

section \<open>Wire types\<close>

datatype uart_result = SNN_HEAD_UART_OK | SNN_HEAD_UART_ERR_TIMEOUT | SNN_HEAD_UART_ERR_IO
  | SNN_HEAD_UART_ERR_HEADER | SNN_HEAD_UART_ERR_PAYLOAD | SNN_HEAD_UART_ERR_SHAPE
  | SNN_HEAD_UART_ERR_INFERENCE | SNN_HEAD_UART_ERR_ARGUMENT

abbreviation SNN_HEAD_UART_HEADER_SIZE :: u16 where "SNN_HEAD_UART_HEADER_SIZE \<equiv> 48"
abbreviation SNN_HEAD_UART_VERSION :: u8 where "SNN_HEAD_UART_VERSION \<equiv> 1"
abbreviation SNN_HEAD_UART_BATCH_SIZE :: u16 where "SNN_HEAD_UART_BATCH_SIZE \<equiv> 1"
abbreviation SNN_HEAD_TIMESTEPS :: u16 where "SNN_HEAD_TIMESTEPS \<equiv> 8"
abbreviation SNN_HEAD_INPUT_DIM :: u16 where "SNN_HEAD_INPUT_DIM \<equiv> 768"
abbreviation SNN_HEAD_ACTION_DIM :: u16 where "SNN_HEAD_ACTION_DIM \<equiv> 7"
abbreviation SNN_HEAD_INPUT_FLOAT_COUNT :: nat where "SNN_HEAD_INPUT_FLOAT_COUNT \<equiv> 6144"
abbreviation SNN_HEAD_ACTION_FLOAT_COUNT :: nat where "SNN_HEAD_ACTION_FLOAT_COUNT \<equiv> 56"
abbreviation SNN_HEAD_UART_INPUT_PAYLOAD_BYTES :: u32 where "SNN_HEAD_UART_INPUT_PAYLOAD_BYTES \<equiv> 24576"
abbreviation SNN_HEAD_UART_RESULT_PAYLOAD_BYTES :: u32 where "SNN_HEAD_UART_RESULT_PAYLOAD_BYTES \<equiv> 224"

abbreviation SNN_HEAD_UART_TYPE_INPUT :: u8 where "SNN_HEAD_UART_TYPE_INPUT \<equiv> 1"
abbreviation SNN_HEAD_UART_TYPE_INPUT_ACK :: u8 where "SNN_HEAD_UART_TYPE_INPUT_ACK \<equiv> 2"
abbreviation SNN_HEAD_UART_TYPE_RESULT :: u8 where "SNN_HEAD_UART_TYPE_RESULT \<equiv> 3"
abbreviation SNN_HEAD_UART_TYPE_ERROR :: u8 where "SNN_HEAD_UART_TYPE_ERROR \<equiv> 4"

abbreviation SNN_HEAD_UART_STATUS_BAD_HEADER :: u32 where "SNN_HEAD_UART_STATUS_BAD_HEADER \<equiv> 1"
abbreviation SNN_HEAD_UART_STATUS_BAD_PAYLOAD :: u32 where "SNN_HEAD_UART_STATUS_BAD_PAYLOAD \<equiv> 2"
abbreviation SNN_HEAD_UART_STATUS_BAD_SHAPE :: u32 where "SNN_HEAD_UART_STATUS_BAD_SHAPE \<equiv> 3"
abbreviation SNN_HEAD_UART_STATUS_INFERENCE_FAILED :: u32 where "SNN_HEAD_UART_STATUS_INFERENCE_FAILED \<equiv> 4"

abbreviation SNN_HEAD_UART_DTYPE_NONE :: u16 where "SNN_HEAD_UART_DTYPE_NONE \<equiv> 0"
abbreviation SNN_HEAD_UART_DTYPE_FLOAT32_LE :: u16 where "SNN_HEAD_UART_DTYPE_FLOAT32_LE \<equiv> 1"

record uart_header =
  uh_version :: u8
  uh_type :: u8
  uh_header_size :: u16
  uh_seq :: u32
  uh_length :: u32
  uh_crc :: u32
  uh_status :: u32
  uh_d0 :: u16
  uh_d1 :: u16
  uh_d2 :: u16
  uh_dtype :: u16
  uh_cycles :: u64
  uh_hz :: u32

definition zero_header :: uart_header where
  "zero_header = \<lparr>uh_version = 0, uh_type = 0, uh_header_size = 0, uh_seq = 0, uh_length = 0, uh_crc = 0,
     uh_status = 0, uh_d0 = 0, uh_d1 = 0, uh_d2 = 0, uh_dtype = 0, uh_cycles = 0, uh_hz = 0\<rparr>"

text \<open>The callbacks; a \<open>NULL\<close> function pointer is \<open>None\<close>.\<close>

record 'c uart_io =
  io_read :: "(u32 \<Rightarrow> u64 \<Rightarrow> 'c \<Rightarrow> (uart_result \<times> u8 list \<times> 'c) option) option"
  io_write :: "(u8 list \<Rightarrow> u64 \<Rightarrow> 'c \<Rightarrow> (uart_result \<times> 'c) option) option"
  io_now :: "('c \<Rightarrow> u64 \<times> 'c) option"
  io_hz :: "('c \<Rightarrow> u32) option"

text \<open>\<open>infer(ctx, input, action, cycles)\<close>: the floats in, the verdict, the floats out and the cycles.\<close>

type_synonym 'i infer_fn = "'i \<Rightarrow> u32 list \<Rightarrow> u32 list \<Rightarrow> bool \<times> u32 list \<times> u64 \<times> 'i"


section \<open>Little-endian fields and the CRC\<close>

definition uart_magic :: "u8 list" where
  "uart_magic = [78, 83, 78, 78]"

definition uload16 :: "u8 list \<Rightarrow> nat \<Rightarrow> u16" where
  "uload16 data k = ucast (data ! k) OR push_bit 8 (ucast (data ! (k + 1)))"

definition uload64 :: "u8 list \<Rightarrow> nat \<Rightarrow> u64" where
  "uload64 data k = ucast (uload32 data k) OR push_bit 32 (ucast (uload32 data (k + 4)))"

definition bytes16 :: "u16 \<Rightarrow> u8 list" where
  "bytes16 v = [ucast v, ucast (drop_bit 8 v)]"

definition bytes64 :: "u64 \<Rightarrow> u8 list" where
  "bytes64 v = bytes32 (ucast v) @ bytes32 (ucast (drop_bit 32 v))"

abbreviation SNN_HEAD_UART_CRC_POLY :: u32 where "SNN_HEAD_UART_CRC_POLY \<equiv> 0xedb88320"

definition crc_bit :: "u32 \<Rightarrow> u32" where
  "crc_bit crc = (if crc AND 1 \<noteq> 0 then drop_bit 1 crc XOR SNN_HEAD_UART_CRC_POLY else drop_bit 1 crc)"

definition crc_byte :: "u32 \<Rightarrow> u8 \<Rightarrow> u32" where
  "crc_byte crc b = (crc_bit ^^ 8) (crc XOR ucast b)"

definition snn_head_uart_crc32 :: "u8 list \<Rightarrow> u32" where
  "snn_head_uart_crc32 data = foldl crc_byte UINT32_MAX data XOR UINT32_MAX"


section \<open>Headers\<close>

definition snn_head_uart_header_encode :: "u8 list \<Rightarrow> uart_header \<Rightarrow> u8 list" where
  "snn_head_uart_header_encode raw h =
     (let raw = store_at 0 uart_magic raw;
          raw = store_at 4 [uh_version h] raw;
          raw = store_at 5 [uh_type h] raw;
          raw = store_at 6 (bytes16 (uh_header_size h)) raw;
          raw = store_at 8 (bytes32 (uh_seq h)) raw;
          raw = store_at 12 (bytes32 (uh_length h)) raw;
          raw = store_at 16 (bytes32 (uh_crc h)) raw;
          raw = store_at 20 (bytes32 (uh_status h)) raw;
          raw = store_at 24 (bytes16 (uh_d0 h)) raw;
          raw = store_at 26 (bytes16 (uh_d1 h)) raw;
          raw = store_at 28 (bytes16 (uh_d2 h)) raw;
          raw = store_at 30 (bytes16 (uh_dtype h)) raw;
          raw = store_at 32 (bytes64 (uh_cycles h)) raw;
          raw = store_at 40 (bytes32 (uh_hz h)) raw
      in store_at 44 (bytes32 (snn_head_uart_crc32 (take 44 raw))) raw)"

text \<open>The fields are stored before they are checked, so the caller sees them in any case.\<close>

definition snn_head_uart_header_decode ::
    "u8 list option \<Rightarrow> uart_header option \<Rightarrow> uart_result \<times> uart_header option" where
  "snn_head_uart_header_decode raw header =
     (case (raw, header) of
        (Some raw, Some _) \<Rightarrow>
          let h = \<lparr>uh_version = raw ! 4, uh_type = raw ! 5, uh_header_size = uload16 raw 6,
                   uh_seq = uload32 raw 8, uh_length = uload32 raw 12, uh_crc = uload32 raw 16,
                   uh_status = uload32 raw 20, uh_d0 = uload16 raw 24, uh_d1 = uload16 raw 26,
                   uh_d2 = uload16 raw 28, uh_dtype = uload16 raw 30, uh_cycles = uload64 raw 32,
                   uh_hz = uload32 raw 40\<rparr>
          in (if take 4 raw \<noteq> uart_magic \<or> uh_version h \<noteq> SNN_HEAD_UART_VERSION \<or>
                 uh_header_size h \<noteq> SNN_HEAD_UART_HEADER_SIZE \<or>
                 uload32 raw 44 \<noteq> snn_head_uart_crc32 (take 44 raw)
              then SNN_HEAD_UART_ERR_HEADER else SNN_HEAD_UART_OK, Some h)
      | _ \<Rightarrow> (SNN_HEAD_UART_ERR_ARGUMENT, header))"


section \<open>Tensors\<close>

text \<open>\<open>wire\<close> must hold \<open>4 * count\<close> bytes, and \<open>values\<close> \<open>count\<close> floats: \<open>None\<close> otherwise.\<close>

fun encode_float32_loop :: "u8 list \<Rightarrow> u32 list \<Rightarrow> nat \<Rightarrow> nat \<Rightarrow> u8 list option" where
  "encode_float32_loop wire values index 0 = Some wire"
| "encode_float32_loop wire values index (Suc n) =
     (if index < length values \<and> 4 * index + 4 \<le> length wire
      then encode_float32_loop (store_at (4 * index) (bytes32 (values ! index)) wire) values (index + 1) n
      else None)"

definition snn_head_uart_encode_float32_le :: "u8 list \<Rightarrow> u32 list \<Rightarrow> nat \<Rightarrow> u8 list option" where
  "snn_head_uart_encode_float32_le wire values count = encode_float32_loop wire values 0 count"

text \<open>
  Decoding where \<open>wire\<close> and \<open>values\<close> are the same memory, the only way the code calls it: the bits are
  loaded from the bytes of element \<open>index\<close> and its float object, the same bytes, is stored.
\<close>

fun decode_float32_loop :: "u8 list \<Rightarrow> nat \<Rightarrow> nat \<Rightarrow> u8 list option" where
  "decode_float32_loop buf index 0 = Some buf"
| "decode_float32_loop buf index (Suc n) =
     (if 4 * index + 4 \<le> length buf
      then decode_float32_loop (store_at (4 * index) (bytes32 (uload32 buf (4 * index))) buf) (index + 1) n
      else None)"

definition snn_head_uart_decode_float32_le :: "u8 list \<Rightarrow> nat \<Rightarrow> u8 list option" where
  "snn_head_uart_decode_float32_le buf count = decode_float32_loop buf 0 count"

text \<open>The float objects of an array of bytes.\<close>

definition floats_of :: "u8 list \<Rightarrow> nat \<Rightarrow> u32 list" where
  "floats_of buf count = map (\<lambda>i. uload32 buf (4 * i)) [0..<count]"

definition isfinite32 :: "u32 \<Rightarrow> bool" where
  "isfinite32 bits \<longleftrightarrow> drop_bit 23 bits AND 0xFF \<noteq> 0xFF"

definition all_finite :: "u32 list \<Rightarrow> nat \<Rightarrow> bool" where
  "all_finite values count = list_all isfinite32 (take count values)"


section \<open>A transaction\<close>

definition deadline_after_ms :: "'c uart_io \<Rightarrow> u32 \<Rightarrow> 'c \<Rightarrow> u64 \<times> 'c" where
  "deadline_after_ms io timeout_ms c =
     (let ticks = (ucast timeout_ms * ucast ((the (io_hz io)) c) + 999) div 1000;
          (now, c) = (the (io_now io)) c
      in (now + (if ticks \<noteq> 0 then ticks else 1), c))"

definition send_header :: "'c uart_io \<Rightarrow> uart_header \<Rightarrow> u64 \<Rightarrow> 'c \<Rightarrow> (uart_result \<times> 'c) option" where
  "send_header io header deadline c =
     (the (io_write io)) (snn_head_uart_header_encode (replicate 48 0) header) deadline c"

definition kmp_table :: "nat list" where
  "kmp_table = [0, 0, 1, 1]"

text \<open>The inner loop: fall back while the byte does not extend the match.\<close>

function kmp_fall :: "nat \<Rightarrow> u8 \<Rightarrow> nat" where
  "kmp_fall matched byte =
     (if 0 < matched \<and> matched < 4 \<and> byte \<noteq> uart_magic ! matched
      then kmp_fall (kmp_table ! (matched - 1)) byte else matched)"
  by pat_completeness auto
termination
  by (relation "measure fst") (auto simp: kmp_table_def less_Suc_eq numeral_eq_Suc)

definition kmp_step :: "nat \<Rightarrow> u8 \<Rightarrow> nat" where
  "kmp_step matched byte =
     (let matched = kmp_fall matched byte
      in if byte = uart_magic ! matched then matched + 1 else matched)"

text \<open>
  The scan for the magic: \<open>rounds\<close> bounds the bytes read, a run that outlives it has no result.
  \<open>SnnUart_Laws\<close> shows that one round per byte that arrives, and one more, always suffice.
\<close>

fun magic_scan :: "nat \<Rightarrow> 'c uart_io \<Rightarrow> u64 \<Rightarrow> nat \<Rightarrow> 'c \<Rightarrow> (uart_result \<times> 'c) option" where
  "magic_scan 0 io deadline matched c = (if matched < 4 then None else Some (SNN_HEAD_UART_OK, c))"
| "magic_scan (Suc rounds) io deadline matched c =
     (if matched < 4
      then do {
        (result, bytes, c) \<leftarrow> (the (io_read io)) 1 deadline c;
        if result \<noteq> SNN_HEAD_UART_OK then Some (result, c)
        else magic_scan rounds io deadline (kmp_step matched (hd bytes)) c
      }
      else Some (SNN_HEAD_UART_OK, c))"

definition read_header ::
    "nat \<Rightarrow> 'c uart_io \<Rightarrow> u8 list \<Rightarrow> u64 \<Rightarrow> 'c \<Rightarrow> (uart_result \<times> u8 list \<times> 'c) option" where
  "read_header rounds io raw deadline c = do {
     (result, c) \<leftarrow> magic_scan rounds io deadline 0 c;
     if result \<noteq> SNN_HEAD_UART_OK then Some (result, raw, c)
     else do {
       let raw = store_at 0 uart_magic raw;
       (result, bytes, c) \<leftarrow> (the (io_read io)) 44 deadline c;
       Some (result, store_at 4 bytes raw, c)
     }
   }"

definition reply_error ::
    "'c uart_io \<Rightarrow> u32 \<Rightarrow> u32 \<Rightarrow> uart_result \<Rightarrow> u64 \<Rightarrow> 'c \<Rightarrow> (uart_result \<times> 'c) option" where
  "reply_error io seq status cause deadline c = do {
     let header = zero_header\<lparr>uh_version := SNN_HEAD_UART_VERSION, uh_type := SNN_HEAD_UART_TYPE_ERROR,
       uh_header_size := SNN_HEAD_UART_HEADER_SIZE, uh_seq := seq, uh_status := status,
       uh_dtype := SNN_HEAD_UART_DTYPE_NONE\<rparr>;
     (result, c) \<leftarrow> send_header io header deadline c;
     Some (if result = SNN_HEAD_UART_OK then cause else result, c)
   }"

definition valid_input_shape :: "uart_header \<Rightarrow> bool" where
  "valid_input_shape h \<longleftrightarrow> uh_d0 h = SNN_HEAD_UART_BATCH_SIZE \<and> uh_d1 h = SNN_HEAD_TIMESTEPS \<and>
     uh_d2 h = SNN_HEAD_INPUT_DIM \<and> uh_dtype h = SNN_HEAD_UART_DTYPE_FLOAT32_LE"

text \<open>The caller's buffers and the context of the inference, carried through a transaction.\<close>

record 'i uart_bufs =
  ub_input :: "u8 list"
  ub_action :: "u32 list"
  ub_wire :: "u8 list"
  ub_infer :: 'i

type_synonym ('c, 'i) uart_step = "(uart_result \<times> 'i uart_bufs \<times> 'c) option"

text \<open>The part after a payload was accepted: acknowledge, infer, reply.\<close>

definition uart_infer_and_reply ::
    "'c uart_io \<Rightarrow> 'i infer_fn \<Rightarrow> u32 \<Rightarrow> u64 \<Rightarrow> uart_header \<Rightarrow> 'i uart_bufs \<Rightarrow> 'c \<Rightarrow> ('c, 'i) uart_step" where
  "uart_infer_and_reply io infer io_timeout_ms deadline input_header b c = do {
     let ack = zero_header\<lparr>uh_version := SNN_HEAD_UART_VERSION, uh_type := SNN_HEAD_UART_TYPE_INPUT_ACK,
       uh_header_size := SNN_HEAD_UART_HEADER_SIZE, uh_seq := uh_seq input_header,
       uh_d0 := SNN_HEAD_UART_BATCH_SIZE, uh_d1 := SNN_HEAD_TIMESTEPS, uh_d2 := SNN_HEAD_INPUT_DIM,
       uh_dtype := SNN_HEAD_UART_DTYPE_FLOAT32_LE\<rparr>;
     (result, c) \<leftarrow> send_header io ack deadline c;
     if result \<noteq> SNN_HEAD_UART_OK then Some (result, b, c)
     else
       let (success, action, cycles, i) =
             infer (ub_infer b) (floats_of (ub_input b) SNN_HEAD_INPUT_FLOAT_COUNT) (ub_action b);
           b = b\<lparr>ub_action := action, ub_infer := i\<rparr>
       in if \<not> success \<or> \<not> all_finite action SNN_HEAD_ACTION_FLOAT_COUNT
          then do {
            let (response_deadline, c) = deadline_after_ms io io_timeout_ms c;
            (result, c) \<leftarrow> reply_error io (uh_seq input_header) SNN_HEAD_UART_STATUS_INFERENCE_FAILED
              SNN_HEAD_UART_ERR_INFERENCE response_deadline c;
            Some (result, b, c)
          }
          else do {
            wire \<leftarrow> snn_head_uart_encode_float32_le (ub_wire b) action SNN_HEAD_ACTION_FLOAT_COUNT;
            let b = b\<lparr>ub_wire := wire\<rparr>;
            let (response_deadline, c) = deadline_after_ms io io_timeout_ms c;
            let payload = take (unat SNN_HEAD_UART_RESULT_PAYLOAD_BYTES) wire;
            let output = zero_header\<lparr>uh_version := SNN_HEAD_UART_VERSION, uh_type := SNN_HEAD_UART_TYPE_RESULT,
              uh_header_size := SNN_HEAD_UART_HEADER_SIZE, uh_seq := uh_seq input_header,
              uh_length := SNN_HEAD_UART_RESULT_PAYLOAD_BYTES, uh_crc := snn_head_uart_crc32 payload,
              uh_d0 := SNN_HEAD_UART_BATCH_SIZE, uh_d1 := SNN_HEAD_TIMESTEPS, uh_d2 := SNN_HEAD_ACTION_DIM,
              uh_dtype := SNN_HEAD_UART_DTYPE_FLOAT32_LE, uh_cycles := cycles, uh_hz := (the (io_hz io)) c\<rparr>;
            (result, c) \<leftarrow> send_header io output response_deadline c;
            if result \<noteq> SNN_HEAD_UART_OK then Some (result, b, c)
            else do {
              (result, c) \<leftarrow> (the (io_write io)) payload response_deadline c;
              Some (result, b, c)
            }
          }
   }"

text \<open>The caller's \<open>input\<close> must hold the payload.\<close>

definition read_payload ::
    "'c uart_io \<Rightarrow> u32 \<Rightarrow> u64 \<Rightarrow> 'i uart_bufs \<Rightarrow> 'c \<Rightarrow> (uart_result \<times> 'i uart_bufs \<times> 'c) option" where
  "read_payload io n deadline b c =
     (if unat n \<le> length (ub_input b) then do {
        (result, bytes, c) \<leftarrow> (the (io_read io)) n deadline c;
        Some (result, b\<lparr>ub_input := store_at 0 bytes (ub_input b)\<rparr>, c)
      } else None)"

text \<open>A payload of the right length has arrived: check it, decode it in place, go on.\<close>

definition uart_accept_payload ::
    "'c uart_io \<Rightarrow> 'i infer_fn \<Rightarrow> u32 \<Rightarrow> u64 \<Rightarrow> uart_header \<Rightarrow> 'i uart_bufs \<Rightarrow> 'c \<Rightarrow> ('c, 'i) uart_step" where
  "uart_accept_payload io infer io_timeout_ms deadline input_header b c =
     (let fail = (\<lambda>status cause b c. do {
            (result, c) \<leftarrow> reply_error io (uh_seq input_header) status cause deadline c;
            Some (result, b, c)
          })
      in if \<not> valid_input_shape input_header
         then fail SNN_HEAD_UART_STATUS_BAD_SHAPE SNN_HEAD_UART_ERR_SHAPE b c
         else if snn_head_uart_crc32 (take (unat SNN_HEAD_UART_INPUT_PAYLOAD_BYTES) (ub_input b)) \<noteq> uh_crc input_header
         then fail SNN_HEAD_UART_STATUS_BAD_PAYLOAD SNN_HEAD_UART_ERR_PAYLOAD b c
         else do {
           decoded \<leftarrow> snn_head_uart_decode_float32_le (ub_input b) SNN_HEAD_INPUT_FLOAT_COUNT;
           let b = b\<lparr>ub_input := decoded\<rparr>;
           if \<not> all_finite (floats_of (ub_input b) SNN_HEAD_INPUT_FLOAT_COUNT) SNN_HEAD_INPUT_FLOAT_COUNT
           then fail SNN_HEAD_UART_STATUS_BAD_PAYLOAD SNN_HEAD_UART_ERR_PAYLOAD b c
           else uart_infer_and_reply io infer io_timeout_ms deadline input_header b c
         })"

definition uart_process_checked ::
    "nat \<Rightarrow> 'c uart_io \<Rightarrow> 'i infer_fn \<Rightarrow> u32 \<Rightarrow> 'i uart_bufs \<Rightarrow> 'c \<Rightarrow> ('c, 'i) uart_step" where
  "uart_process_checked rounds io infer io_timeout_ms b c = do {
     let (deadline, c) = deadline_after_ms io io_timeout_ms c;
     (result, raw, c) \<leftarrow> read_header rounds io (replicate 48 0) deadline c;
     if result \<noteq> SNN_HEAD_UART_OK then Some (result, b, c)
     else
       let raw_seq = uload32 raw 8;
           raw_length = uload32 raw 12;
           (result, header) = snn_head_uart_header_decode (Some raw) (Some zero_header);
           input_header = the header;
           fail = (\<lambda>seq status cause b c. do {
             (result, c) \<leftarrow> reply_error io seq status cause deadline c;
             Some (result, b, c)
           })
       in if result \<noteq> SNN_HEAD_UART_OK \<or> uh_type input_header \<noteq> SNN_HEAD_UART_TYPE_INPUT
          then do {
            (result, b, c) \<leftarrow> (if raw_length \<le> SNN_HEAD_UART_INPUT_PAYLOAD_BYTES
              then read_payload io raw_length deadline b c else Some (SNN_HEAD_UART_OK, b, c));
            if result \<noteq> SNN_HEAD_UART_OK then Some (result, b, c)
            else fail raw_seq SNN_HEAD_UART_STATUS_BAD_HEADER SNN_HEAD_UART_ERR_HEADER b c
          }
          else if uh_length input_header > SNN_HEAD_UART_INPUT_PAYLOAD_BYTES
          then fail (uh_seq input_header) SNN_HEAD_UART_STATUS_BAD_PAYLOAD SNN_HEAD_UART_ERR_PAYLOAD b c
          else if uh_length input_header \<noteq> SNN_HEAD_UART_INPUT_PAYLOAD_BYTES
          then do {
            (result, b, c) \<leftarrow> read_payload io (uh_length input_header) deadline b c;
            if result \<noteq> SNN_HEAD_UART_OK then Some (result, b, c)
            else fail (uh_seq input_header) SNN_HEAD_UART_STATUS_BAD_PAYLOAD SNN_HEAD_UART_ERR_PAYLOAD b c
          }
          else do {
            (result, b, c) \<leftarrow> read_payload io SNN_HEAD_UART_INPUT_PAYLOAD_BYTES deadline b c;
            if result \<noteq> SNN_HEAD_UART_OK then Some (result, b, c)
            else uart_accept_payload io infer io_timeout_ms deadline input_header b c
          }
   }"

text \<open>The buffers are passed as pointers: \<open>None\<close> is a \<open>NULL\<close> among them.\<close>

definition snn_head_uart_process_one ::
    "nat \<Rightarrow> 'c uart_io option \<Rightarrow> 'i uart_bufs option \<Rightarrow> 'i infer_fn option \<Rightarrow> u32 \<Rightarrow> 'c
       \<Rightarrow> (uart_result \<times> 'i uart_bufs option \<times> 'c) option" where
  "snn_head_uart_process_one rounds io bufs infer io_timeout_ms c =
     (case (io, bufs, infer) of
        (Some io, Some b, Some infer) \<Rightarrow>
          if io_read io = None \<or> io_write io = None \<or> io_now io = None \<or> io_hz io = None \<or>
             io_timeout_ms = 0 \<or> (the (io_hz io)) c = 0
          then Some (SNN_HEAD_UART_ERR_ARGUMENT, bufs, c)
          else do {
            (result, b, c) \<leftarrow> uart_process_checked rounds io infer io_timeout_ms b c;
            Some (result, Some b, c)
          }
      | _ \<Rightarrow> Some (SNN_HEAD_UART_ERR_ARGUMENT, bufs, c))"

end
