(* ===== verification/SnnService.thy ===== *)
theory SnnService
  imports SnnUart_Laws EvalUart
begin

text \<open>
  The SNN Head service: \<open>application/baremetal/snn_head/main.c\<close> binds the framing of \<open>SnnUart\<close> to the
  UART and the cycle counter.  The interface \<open>uart_link\<close> says what the framing needs of its callbacks;
  a transaction is proved against it once, and \<open>main.c\<close>'s callbacks are shown to provide it.
\<close>

section \<open>The callbacks of main.c\<close>

fun uart_read_loop :: "(u32 \<times> u64) list \<Rightarrow> u64 \<Rightarrow> nat \<Rightarrow> (uart_result \<times> u8 list \<times> (u32 \<times> u64) list) option" where
  "uart_read_loop polls deadline 0 = Some (SNN_HEAD_UART_OK, [], polls)"
| "uart_read_loop [] deadline (Suc n) = None"
| "uart_read_loop ((reg, cycle) # polls) deadline (Suc n) =
     (if cycle \<ge> deadline then Some (SNN_HEAD_UART_ERR_TIMEOUT, [], polls)
      else if rx_is_empty reg then uart_read_loop polls deadline (Suc n)
      else do {
        (result, bytes, polls) \<leftarrow> uart_read_loop polls deadline n;
        Some (result, ucast reg # bytes, polls)
      })"

text \<open>The third component is what has been put into the caller's buffer.\<close>

definition uart_read_bytes :: "u32 \<Rightarrow> u64 \<Rightarrow> uart_dev \<Rightarrow> (uart_result \<times> u8 list \<times> uart_dev) option" where
  "uart_read_bytes n deadline d = do {
     (result, bytes, polls) \<leftarrow> uart_read_loop (ud_rx d) deadline (unat n);
     Some (result, bytes, d\<lparr>ud_rx := polls\<rparr>)
   }"

text \<open>One byte: wait until the FIFO has room, or until a full reading comes after the deadline.\<close>

fun uart_wait_room :: "(u32 \<times> u64) list \<Rightarrow> u64 \<Rightarrow> bool \<times> (u32 \<times> u64) list" where
  "uart_wait_room [] deadline = (True, [])"
| "uart_wait_room ((reg, cycle) # polls) deadline =
     (if tx_is_full reg then
        if cycle \<ge> deadline then (False, polls) else uart_wait_room polls deadline
      else (True, polls))"

fun uart_write_bytes :: "u8 list \<Rightarrow> u64 \<Rightarrow> uart_dev \<Rightarrow> (uart_result \<times> uart_dev) option" where
  "uart_write_bytes [] deadline d = Some (SNN_HEAD_UART_OK, d)"
| "uart_write_bytes (x # data) deadline d =
     (case uart_wait_room (ud_tx d) deadline of
        (False, polls) \<Rightarrow> Some (SNN_HEAD_UART_ERR_TIMEOUT, d\<lparr>ud_tx := polls\<rparr>)
      | (True, polls) \<Rightarrow> uart_write_bytes data deadline (d\<lparr>ud_tx := polls, ud_sent := ud_sent d @ [x]\<rparr>))"

definition uart_now :: "uart_dev \<Rightarrow> u64 \<times> uart_dev" where
  "uart_now d = (ud_clock d (ud_reads d), d\<lparr>ud_reads := Suc (ud_reads d)\<rparr>)"

definition read_hz :: "u32 \<Rightarrow> uart_dev \<Rightarrow> u32" where
  "read_hz SystemCoreClock d = SystemCoreClock"

definition snn_head_io :: "u32 \<Rightarrow> uart_dev uart_io" where
  "snn_head_io SystemCoreClock = \<lparr>io_read = Some uart_read_bytes, io_write = Some uart_write_bytes,
     io_now = Some uart_now, io_hz = Some (read_hz SystemCoreClock)\<rparr>"

text \<open>\<open>run_complete_chain\<close> without timing; the chain itself is a parameter.\<close>

definition run_complete_chain :: "('i \<Rightarrow> u32 list \<Rightarrow> u32 list \<Rightarrow> bool \<times> u32 list \<times> 'i) \<Rightarrow> 'i infer_fn" where
  "run_complete_chain snn_head_run_chunk i input action =
     (case snn_head_run_chunk i input action of (success, action, i) \<Rightarrow> (success, action, 0, i))"


section \<open>What a transaction answers\<close>

definition frame :: "u8 \<Rightarrow> u32 \<Rightarrow> u32 \<Rightarrow> u32 \<Rightarrow> u32 \<Rightarrow> u16 \<times> u16 \<times> u16 \<Rightarrow> u16 \<Rightarrow> u64 \<Rightarrow> u32 \<Rightarrow> u8 list" where
  "frame ty seq len crc status dims dtype cycles hz =
     snn_head_uart_header_encode (replicate 48 0)
       \<lparr>uh_version = SNN_HEAD_UART_VERSION, uh_type = ty, uh_header_size = SNN_HEAD_UART_HEADER_SIZE, uh_seq = seq,
        uh_length = len, uh_crc = crc, uh_status = status, uh_d0 = fst dims, uh_d1 = fst (snd dims),
        uh_d2 = snd (snd dims), uh_dtype = dtype, uh_cycles = cycles, uh_hz = hz\<rparr>"

definition error_frame :: "u32 \<Rightarrow> u32 \<Rightarrow> u8 list" where
  "error_frame seq status =
     frame SNN_HEAD_UART_TYPE_ERROR seq 0 0 status (0, 0, 0) SNN_HEAD_UART_DTYPE_NONE 0 0"

definition ack_frame :: "u32 \<Rightarrow> u8 list" where
  "ack_frame seq = frame SNN_HEAD_UART_TYPE_INPUT_ACK seq 0 0 0
     (SNN_HEAD_UART_BATCH_SIZE, SNN_HEAD_TIMESTEPS, SNN_HEAD_INPUT_DIM) SNN_HEAD_UART_DTYPE_FLOAT32_LE 0 0"

definition result_frame :: "u32 \<Rightarrow> u32 list \<Rightarrow> u64 \<Rightarrow> u32 \<Rightarrow> u8 list" where
  "result_frame seq action cycles hz =
     (let payload = concat (map bytes32 (take SNN_HEAD_ACTION_FLOAT_COUNT action))
      in frame SNN_HEAD_UART_TYPE_RESULT seq SNN_HEAD_UART_RESULT_PAYLOAD_BYTES (snn_head_uart_crc32 payload) 0
           (SNN_HEAD_UART_BATCH_SIZE, SNN_HEAD_TIMESTEPS, SNN_HEAD_ACTION_DIM) SNN_HEAD_UART_DTYPE_FLOAT32_LE cycles hz
         @ payload)"

text \<open>
  The protocol as a function of the bytes the client sends: the verdict and every byte of the answer.
  \<open>xs\<close> is all that arrives before the line goes silent, \<open>b\<close> the state of the caller before the call.
\<close>

definition serve_input :: "'i infer_fn \<Rightarrow> u32 \<Rightarrow> 'i \<Rightarrow> u32 list \<Rightarrow> uart_header \<Rightarrow> u8 list \<Rightarrow> uart_result \<times> u8 list" where
  "serve_input infer hz i action0 h payload =
     (let input = floats_of payload SNN_HEAD_INPUT_FLOAT_COUNT in
      if \<not> valid_input_shape h
      then (SNN_HEAD_UART_ERR_SHAPE, error_frame (uh_seq h) SNN_HEAD_UART_STATUS_BAD_SHAPE)
      else if snn_head_uart_crc32 payload \<noteq> uh_crc h \<or> \<not> list_all isfinite32 input
      then (SNN_HEAD_UART_ERR_PAYLOAD, error_frame (uh_seq h) SNN_HEAD_UART_STATUS_BAD_PAYLOAD)
      else case infer i input action0 of (success, action, cycles, _) \<Rightarrow>
        if success \<and> list_all isfinite32 (take SNN_HEAD_ACTION_FLOAT_COUNT action)
        then (SNN_HEAD_UART_OK, ack_frame (uh_seq h) @ result_frame (uh_seq h) action cycles hz)
        else (SNN_HEAD_UART_ERR_INFERENCE,
              ack_frame (uh_seq h) @ error_frame (uh_seq h) SNN_HEAD_UART_STATUS_INFERENCE_FAILED))"

definition serve_body :: "'i infer_fn \<Rightarrow> u32 \<Rightarrow> 'i \<Rightarrow> u32 list \<Rightarrow> uart_result \<Rightarrow> uart_header \<Rightarrow> u8 list \<Rightarrow> uart_result \<times> u8 list" where
  "serve_body infer hz i action0 verdict h body =
     (let n = unat (uh_length h) in
      if n \<le> 24576 \<and> length body < n then (SNN_HEAD_UART_ERR_TIMEOUT, [])
      else if verdict \<noteq> SNN_HEAD_UART_OK \<or> uh_type h \<noteq> SNN_HEAD_UART_TYPE_INPUT
      then (SNN_HEAD_UART_ERR_HEADER, error_frame (uh_seq h) SNN_HEAD_UART_STATUS_BAD_HEADER)
      else if n \<noteq> 24576
      then (SNN_HEAD_UART_ERR_PAYLOAD, error_frame (uh_seq h) SNN_HEAD_UART_STATUS_BAD_PAYLOAD)
      else serve_input infer hz i action0 h (take 24576 body))"

definition nsnn_serve :: "'i infer_fn \<Rightarrow> u32 \<Rightarrow> 'i \<Rightarrow> u32 list \<Rightarrow> u8 list \<Rightarrow> uart_result \<times> u8 list" where
  "nsnn_serve infer hz i action0 xs =
     (case find_magic xs of
        None \<Rightarrow> (SNN_HEAD_UART_ERR_TIMEOUT, [])
      | Some rest \<Rightarrow>
          if length rest < 44 then (SNN_HEAD_UART_ERR_TIMEOUT, [])
          else let (verdict, header) =
                  snn_head_uart_header_decode (Some (uart_magic @ take 44 rest)) (Some zero_header)
               in serve_body infer hz i action0 verdict (the header) (drop 44 rest))"


section \<open>Tensors in place\<close>

lemma store_load: "k + 4 \<le> length buf \<Longrightarrow> store_at k (bytes32 (uload32 buf k)) buf = buf"
proof -
  assume k: "k + 4 \<le> length buf"
  then have "drop k buf = buf ! k # buf ! (k + 1) # buf ! (k + 2) # buf ! (k + 3) # drop (k + 4) buf"
    by (simp add: Cons_nth_drop_Suc numeral_eq_Suc)
  then have "bytes32 (uload32 buf k) @ drop (k + 4) buf = drop k buf"
    by (simp add: uload32_def bytes32_le32)
  then show ?thesis by (simp add: store_at_def)
qed

text \<open>On the little-endian target the in-place decoding leaves the buffer as it is.\<close>

lemma decode_in_place: "4 * (index + n) \<le> length buf \<Longrightarrow> decode_float32_loop buf index n = Some buf"
  by (induction n arbitrary: index) (simp_all add: store_load)

lemma encode_loop:
  assumes "4 * (index + n) \<le> length wire" "index + n \<le> length values"
  shows "encode_float32_loop wire values index n =
    Some (take (4 * index) wire @ concat (map bytes32 (take n (drop index values))) @ drop (4 * (index + n)) wire)"
  using assms
proof (induction n arbitrary: index wire)
  case (Suc n)
  let ?w = "store_at (4 * index) (bytes32 (values ! index)) wire"
  have len: "length ?w = length wire" using Suc.prems by (simp add: store_at_def)
  have w: "take (4 * (index + 1)) ?w = take (4 * index) wire @ bytes32 (values ! index)"
    "drop (4 * (index + 1 + n)) ?w = drop (4 * (index + Suc n)) wire"
    using Suc.prems by (simp_all add: store_at_def algebra_simps)
  have hd: "take (Suc n) (drop index values) = values ! index # take n (drop (index + 1) values)"
    using Suc.prems(2) by (simp add: Cons_nth_drop_Suc [symmetric])
  show ?case
    using Suc.IH [of "index + 1" ?w] Suc.prems w hd by (simp add: len)
qed simp

lemma encode_all:
  assumes "length wire = 4 * n" "n \<le> length values"
  shows "snn_head_uart_encode_float32_le wire values n = Some (concat (map bytes32 (take n values)))"
  using encode_loop [of 0 n wire "values"] assms by (simp add: snn_head_uart_encode_float32_le_def)

lemma length_floats_of [simp]: "length (floats_of buf n) = n"
  by (simp add: floats_of_def)

lemma length_wire [simp]: "length (concat (map bytes32 vs)) = 4 * length vs"
  by (induction vs) simp_all


lemma decode_fields:
  "\<exists>verdict h. snn_head_uart_header_decode (Some raw) (Some h0) = (verdict, Some h) \<and>
     uload32 raw 8 = uh_seq h \<and> uload32 raw 12 = uh_length h"
  by (simp add: snn_head_uart_header_decode_def Let_def)


section \<open>The link and a transaction over it\<close>

text \<open>
  \<open>rx\<close> is what the client sends before it falls silent, \<open>tx\<close> what has been sent to it.  A state is
  \<open>timely\<close> when the bytes of \<open>rx\<close> come and the transmitter drains before any deadline of the
  transaction (\<open>fair\<close>) passes, and every such deadline passes once the line is silent.
\<close>

locale uart_link =
  fixes io :: "'c uart_io" and rx tx :: "'c \<Rightarrow> u8 list" and timely :: "'c \<Rightarrow> bool"
    and fair :: "u64 \<Rightarrow> bool" and timeout_ms hz :: u32
  assumes bound: "io_read io \<noteq> None" "io_write io \<noteq> None" "io_now io \<noteq> None" "io_hz io \<noteq> None"
    and hz: "the (io_hz io) c = hz"
    and reads: "timely c \<Longrightarrow> fair dl \<Longrightarrow> unat n \<le> length (rx c) \<Longrightarrow>
      \<exists>c'. the (io_read io) n dl c = Some (SNN_HEAD_UART_OK, take (unat n) (rx c), c') \<and> timely c' \<and>
           rx c' = drop (unat n) (rx c) \<and> tx c' = tx c"
    and silent: "timely c \<Longrightarrow> fair dl \<Longrightarrow> length (rx c) < unat n \<Longrightarrow>
      \<exists>bs c'. the (io_read io) n dl c = Some (SNN_HEAD_UART_ERR_TIMEOUT, bs, c') \<and> tx c' = tx c"
    and sends: "timely c \<Longrightarrow> fair dl \<Longrightarrow>
      \<exists>c'. the (io_write io) bs dl c = Some (SNN_HEAD_UART_OK, c') \<and> timely c' \<and> rx c' = rx c \<and> tx c' = tx c @ bs"
    and deadline: "timely c \<Longrightarrow>
      \<exists>dl c'. deadline_after_ms io timeout_ms c = (dl, c') \<and> fair dl \<and> timely c' \<and> rx c' = rx c \<and> tx c' = tx c"
begin

lemma scan:
  assumes "timely c" "fair dl" "length (rx c) < rounds" "m \<le> 4"
  shows "\<exists>c'. magic_scan rounds io dl m c =
      Some (if kmp_run m (rx c) = None then SNN_HEAD_UART_ERR_TIMEOUT else SNN_HEAD_UART_OK, c') \<and> tx c' = tx c \<and>
    (\<forall>rest. kmp_run m (rx c) = Some rest \<longrightarrow> timely c' \<and> rx c' = rest)"
  using assms
proof (induction rounds arbitrary: c m)
  case (Suc rounds)
  show ?case
  proof (cases "m < 4")
    case False
    with Suc.prems show ?thesis by (simp add: kmp_run.simps)
  next
    case m: True
    show ?thesis
    proof (cases "rx c")
      case Nil
      with silent [OF Suc.prems(1,2), of 1] obtain bs c' where
        "the (io_read io) 1 dl c = Some (SNN_HEAD_UART_ERR_TIMEOUT, bs, c')" "tx c' = tx c" by auto
      with m Nil show ?thesis by (simp add: kmp_run.simps)
    next
      case (Cons x xs)
      with reads [OF Suc.prems(1,2), of 1] obtain c' where
        c': "the (io_read io) 1 dl c = Some (SNN_HEAD_UART_OK, [x], c')" "timely c'" "rx c' = xs" "tx c' = tx c" by auto
      have "m = 0 \<or> m = Suc 0 \<or> m = 2 \<or> m = 3" using m by linarith
      then have "kmp_step m x \<le> 4" by (auto simp: kmp_step_simps)
      moreover have "kmp_run m (rx c) = kmp_run (kmp_step m x) xs" using m Cons by (subst kmp_run.simps) simp
      ultimately show ?thesis
        using Suc.IH [OF c'(2) Suc.prems(2), of "kmp_step m x"] Suc.prems(3) m Cons c' by simp
    qed
  qed
qed simp

lemma send:
  assumes "timely c" "fair dl"
  shows "\<exists>c'. send_header io h dl c = Some (SNN_HEAD_UART_OK, c') \<and> timely c' \<and> rx c' = rx c \<and>
    tx c' = tx c @ snn_head_uart_header_encode (replicate 48 0) h"
  using sends [OF assms] by (simp add: send_header_def)

lemma error_reply:
  assumes "timely c" "fair dl"
  shows "\<exists>c'. reply_error io seq status cause dl c = Some (cause, c') \<and> timely c' \<and> rx c' = rx c \<and>
    tx c' = tx c @ error_frame seq status"
proof -
  obtain c' where "send_header io (zero_header\<lparr>uh_version := SNN_HEAD_UART_VERSION,
      uh_type := SNN_HEAD_UART_TYPE_ERROR, uh_header_size := SNN_HEAD_UART_HEADER_SIZE, uh_seq := seq,
      uh_status := status, uh_dtype := SNN_HEAD_UART_DTYPE_NONE\<rparr>) dl c = Some (SNN_HEAD_UART_OK, c')"
    "timely c'" "rx c' = rx c" "tx c' = tx c @ error_frame seq status"
    using send [OF assms] unfolding error_frame_def frame_def zero_header_def
    by (simp only: uart_header.simps fst_conv snd_conv) blast
  then show ?thesis by (simp add: reply_error_def)
qed


text \<open>The header field by field, as the code writes it and as \<open>frame\<close> does.\<close>

lemma ack_header:
  "zero_header\<lparr>uh_version := SNN_HEAD_UART_VERSION, uh_type := SNN_HEAD_UART_TYPE_INPUT_ACK,
     uh_header_size := SNN_HEAD_UART_HEADER_SIZE, uh_seq := seq, uh_d0 := SNN_HEAD_UART_BATCH_SIZE,
     uh_d1 := SNN_HEAD_TIMESTEPS, uh_d2 := SNN_HEAD_INPUT_DIM, uh_dtype := SNN_HEAD_UART_DTYPE_FLOAT32_LE\<rparr> = h \<Longrightarrow>
   snn_head_uart_header_encode (replicate 48 0) h = ack_frame seq"
  by (auto simp: ack_frame_def frame_def zero_header_def)

lemma result_header:
  "zero_header\<lparr>uh_version := SNN_HEAD_UART_VERSION, uh_type := SNN_HEAD_UART_TYPE_RESULT,
     uh_header_size := SNN_HEAD_UART_HEADER_SIZE, uh_seq := seq, uh_length := SNN_HEAD_UART_RESULT_PAYLOAD_BYTES,
     uh_crc := snn_head_uart_crc32 (concat (map bytes32 (take SNN_HEAD_ACTION_FLOAT_COUNT action))),
     uh_d0 := SNN_HEAD_UART_BATCH_SIZE, uh_d1 := SNN_HEAD_TIMESTEPS, uh_d2 := SNN_HEAD_ACTION_DIM,
     uh_dtype := SNN_HEAD_UART_DTYPE_FLOAT32_LE, uh_cycles := cycles, uh_hz := hz\<rparr> = h \<Longrightarrow>
   snn_head_uart_header_encode (replicate 48 0) h @ concat (map bytes32 (take SNN_HEAD_ACTION_FLOAT_COUNT action)) =
     result_frame seq action cycles hz"
  by (auto simp: result_frame_def frame_def zero_header_def)

lemma infer_reply:
  assumes "timely c" "fair dl" "length (ub_wire b) = 224" "length (ub_action b) = 56"
    and "floats_of (ub_input b) SNN_HEAD_INPUT_FLOAT_COUNT = input"
    and "infer (ub_infer b) input (ub_action b) = (success, action, cycles, i)" "length action = 56"
  shows "\<exists>b' c'. uart_infer_and_reply io infer timeout_ms dl h b c =
      Some (if success \<and> list_all isfinite32 (take SNN_HEAD_ACTION_FLOAT_COUNT action) then SNN_HEAD_UART_OK
            else SNN_HEAD_UART_ERR_INFERENCE, b', c') \<and>
    tx c' = tx c @ ack_frame (uh_seq h) @
      (if success \<and> list_all isfinite32 (take SNN_HEAD_ACTION_FLOAT_COUNT action)
       then result_frame (uh_seq h) action cycles hz
       else error_frame (uh_seq h) SNN_HEAD_UART_STATUS_INFERENCE_FAILED)"
proof -
  let ?ack = "zero_header\<lparr>uh_version := SNN_HEAD_UART_VERSION, uh_type := SNN_HEAD_UART_TYPE_INPUT_ACK,
     uh_header_size := SNN_HEAD_UART_HEADER_SIZE, uh_seq := uh_seq h, uh_d0 := SNN_HEAD_UART_BATCH_SIZE,
     uh_d1 := SNN_HEAD_TIMESTEPS, uh_d2 := SNN_HEAD_INPUT_DIM, uh_dtype := SNN_HEAD_UART_DTYPE_FLOAT32_LE\<rparr>"
  obtain c1 where c1: "send_header io ?ack dl c = Some (SNN_HEAD_UART_OK, c1)" "timely c1"
    "tx c1 = tx c @ ack_frame (uh_seq h)"
    using send [OF assms(1,2), of ?ack] unfolding ack_header [OF refl] by blast
  obtain dl2 c2 where c2: "deadline_after_ms io timeout_ms c1 = (dl2, c2)" "fair dl2" "timely c2" "tx c2 = tx c1"
    using deadline [OF c1(2)] by blast
  show ?thesis
  proof (cases "success \<and> list_all isfinite32 (take SNN_HEAD_ACTION_FLOAT_COUNT action)")
    case False
    obtain c3 where c3: "reply_error io (uh_seq h) SNN_HEAD_UART_STATUS_INFERENCE_FAILED SNN_HEAD_UART_ERR_INFERENCE
        dl2 c2 = Some (SNN_HEAD_UART_ERR_INFERENCE, c3)"
      "tx c3 = tx c2 @ error_frame (uh_seq h) SNN_HEAD_UART_STATUS_INFERENCE_FAILED"
      using error_reply [OF c2(3,2)] by blast
    show ?thesis
      using False c1 c2 c3 assms(5-7) by (simp add: uart_infer_and_reply_def all_finite_def)
  next
    case True
    let ?payload = "concat (map bytes32 (take SNN_HEAD_ACTION_FLOAT_COUNT action))"
    let ?out = "zero_header\<lparr>uh_version := SNN_HEAD_UART_VERSION, uh_type := SNN_HEAD_UART_TYPE_RESULT,
     uh_header_size := SNN_HEAD_UART_HEADER_SIZE, uh_seq := uh_seq h, uh_length := SNN_HEAD_UART_RESULT_PAYLOAD_BYTES,
     uh_crc := snn_head_uart_crc32 ?payload,
     uh_d0 := SNN_HEAD_UART_BATCH_SIZE, uh_d1 := SNN_HEAD_TIMESTEPS, uh_d2 := SNN_HEAD_ACTION_DIM,
     uh_dtype := SNN_HEAD_UART_DTYPE_FLOAT32_LE, uh_cycles := cycles, uh_hz := hz\<rparr>"
    obtain c3 where c3: "send_header io ?out dl2 c2 = Some (SNN_HEAD_UART_OK, c3)" "timely c3"
      "tx c3 = tx c2 @ snn_head_uart_header_encode (replicate 48 0) ?out"
      using send [OF c2(3,2), of ?out] by blast
    obtain c4 where c4: "the (io_write io) ?payload dl2 c3 = Some (SNN_HEAD_UART_OK, c4)" "tx c4 = tx c3 @ ?payload"
      using sends [OF c3(2) c2(2)] by blast
    have "tx c4 = tx c @ ack_frame (uh_seq h) @ result_frame (uh_seq h) action cycles hz"
      using c1(3) c2(4) c3(3) c4(2) result_header [where seq = "uh_seq h" and action = action and cycles = cycles, OF refl] by simp
    moreover have "snn_head_uart_encode_float32_le (ub_wire b) action SNN_HEAD_ACTION_FLOAT_COUNT = Some ?payload"
      using encode_all [of "ub_wire b" 56 action] assms(3,7) by simp
    moreover have "take 224 ?payload = ?payload" using assms(7) by simp
    ultimately show ?thesis
      using True c1(1) c2(1) c3(1) c4(1) assms(5-7) hz
      by (simp add: uart_infer_and_reply_def all_finite_def)
  qed
qed

lemma header_in:
  assumes "timely c" "fair dl" "length (rx c) < rounds"
  shows "\<exists>result raw c'. read_header rounds io (replicate 48 0) dl c = Some (result, raw, c') \<and> tx c' = tx c \<and>
    (case find_magic (rx c) of
       None \<Rightarrow> result = SNN_HEAD_UART_ERR_TIMEOUT
     | Some rest \<Rightarrow>
         if length rest < 44 then result = SNN_HEAD_UART_ERR_TIMEOUT
         else result = SNN_HEAD_UART_OK \<and> raw = uart_magic @ take 44 rest \<and> timely c' \<and> rx c' = drop 44 rest)"
proof -
  have eq: "kmp_run 0 (rx c) = find_magic (rx c)" by (simp add: kmp_run_prefix)
  obtain c1 where c1: "magic_scan rounds io dl 0 c =
      Some (if find_magic (rx c) = None then SNN_HEAD_UART_ERR_TIMEOUT else SNN_HEAD_UART_OK, c1)" "tx c1 = tx c"
    "\<And>rest. find_magic (rx c) = Some rest \<Longrightarrow> timely c1 \<and> rx c1 = rest"
    using scan [OF assms, of 0] unfolding eq by auto
  show ?thesis
  proof (cases "find_magic (rx c)")
    case None
    with c1 show ?thesis by (simp add: read_header_def)
  next
    case (Some rest)
    have t: "timely c1" "rx c1 = rest" using c1(3) [OF Some] by auto
    show ?thesis
    proof (cases "length rest < 44")
      case True
      with silent [OF t(1) assms(2), of 44] t(2) Some c1 show ?thesis by (auto simp: read_header_def)
    next
      case False
      with reads [OF t(1) assms(2), of 44] t(2) obtain c2 where
        "the (io_read io) 44 dl c1 = Some (SNN_HEAD_UART_OK, take 44 rest, c2)" "timely c2" "rx c2 = drop 44 rest"
        "tx c2 = tx c1" by auto
      with False Some c1 show ?thesis by (simp add: read_header_def store_at_def)
    qed
  qed
qed

lemma payload_in:
  assumes "timely c" "fair dl" "unat n \<le> length (ub_input b)"
  shows "\<exists>result b' c'. read_payload io n dl b c = Some (result, b', c') \<and> tx c' = tx c \<and>
    (if length (rx c) < unat n then result = SNN_HEAD_UART_ERR_TIMEOUT
     else result = SNN_HEAD_UART_OK \<and> timely c' \<and> rx c' = drop (unat n) (rx c) \<and>
       b' = b\<lparr>ub_input := take (unat n) (rx c) @ drop (unat n) (ub_input b)\<rparr>)"
proof (cases "length (rx c) < unat n")
  case True
  with silent [OF assms(1,2) True] assms(3) show ?thesis by (auto simp: read_payload_def)
next
  case False
  then have n: "unat n \<le> length (rx c)" by simp
  from reads [OF assms(1,2) n] assms(3) n show ?thesis
    by (auto simp: read_payload_def store_at_def min_absorb2)
qed

lemma serve_input_link:
  assumes "timely c" "fair dl" "length (ub_wire b) = 224" "length (ub_action b) = 56"
    and "ub_input b = payload" "length payload = 24576"
    and len: "\<And>i input action. length action = 56 \<Longrightarrow> length (fst (snd (infer i input action))) = 56"
  shows "\<exists>b' c'. uart_accept_payload io infer timeout_ms dl h b c =
      Some (fst (serve_input infer hz (ub_infer b) (ub_action b) h payload), b', c') \<and>
     tx c' = tx c @ snd (serve_input infer hz (ub_infer b) (ub_action b) h payload)"
proof -
  have same: "b\<lparr>ub_input := payload\<rparr> = b" using assms(5) by simp
  have dec: "snn_head_uart_decode_float32_le payload SNN_HEAD_INPUT_FLOAT_COUNT = Some payload"
    using decode_in_place [of 0 SNN_HEAD_INPUT_FLOAT_COUNT payload] assms(6)
    by (simp add: snn_head_uart_decode_float32_le_def)
  have whole: "take (unat SNN_HEAD_UART_INPUT_PAYLOAD_BYTES) payload = payload" using assms(6) by simp
  let ?input = "floats_of payload SNN_HEAD_INPUT_FLOAT_COUNT"
  have fin: "all_finite ?input SNN_HEAD_INPUT_FLOAT_COUNT = list_all isfinite32 ?input"
    by (simp add: all_finite_def)
  obtain success action cycles i where inf: "infer (ub_infer b) ?input (ub_action b) = (success, action, cycles, i)"
    by (metis prod_cases4)
  have alen: "length action = 56" using len [OF assms(4), of "ub_infer b" ?input] inf by simp
  consider (shape) "\<not> valid_input_shape h"
    | (payload) "valid_input_shape h" "snn_head_uart_crc32 payload \<noteq> uh_crc h \<or> \<not> list_all isfinite32 ?input"
    | (go) "valid_input_shape h" "snn_head_uart_crc32 payload = uh_crc h" "list_all isfinite32 ?input" by blast
  then show ?thesis
  proof cases
    case shape
    with error_reply [OF assms(1,2), of "uh_seq h" SNN_HEAD_UART_STATUS_BAD_SHAPE SNN_HEAD_UART_ERR_SHAPE]
    show ?thesis by (auto simp: uart_accept_payload_def serve_input_def Let_def)
  next
    case payload
    with error_reply [OF assms(1,2), of "uh_seq h" SNN_HEAD_UART_STATUS_BAD_PAYLOAD SNN_HEAD_UART_ERR_PAYLOAD]
    show ?thesis unfolding assms(5) whole dec uart_accept_payload_def by (auto simp: serve_input_def Let_def fin same)
  next
    case go
    have flo: "floats_of (ub_input b) SNN_HEAD_INPUT_FLOAT_COUNT = ?input" using assms(5) by simp
    from go infer_reply [where infer = infer and h = h, OF assms(1-4) flo inf alen] assms(5)
    show ?thesis unfolding assms(5) whole dec uart_accept_payload_def by (auto simp: serve_input_def Let_def fin same inf)
  qed
qed

lemma input_bytes:
  fixes n :: u32
  shows "n \<le> SNN_HEAD_UART_INPUT_PAYLOAD_BYTES \<longleftrightarrow> unat n \<le> 24576"
    and "n = SNN_HEAD_UART_INPUT_PAYLOAD_BYTES \<longleftrightarrow> unat n = 24576"
    and "SNN_HEAD_UART_INPUT_PAYLOAD_BYTES < n \<longleftrightarrow> \<not> unat n \<le> 24576"
  by (auto simp: word_le_nat_alt word_less_nat_alt word_unat_eq_iff)

lemma body_serves:
  assumes dl: "deadline_after_ms io timeout_ms c = (dl, c1)" "fair dl"
    and hdr: "read_header rounds io (replicate 48 0) dl c1 = Some (SNN_HEAD_UART_OK, raw, c2)" "timely c2"
    and dec: "snn_head_uart_header_decode (Some raw) (Some zero_header) = (verdict, Some h)"
      "uload32 raw 8 = uh_seq h" "uload32 raw 12 = uh_length h"
    and bufs: "length (ub_input b) = 24576" "length (ub_wire b) = 224" "length (ub_action b) = 56"
    and len: "\<And>i input action. length action = 56 \<Longrightarrow> length (fst (snd (infer i input action))) = 56"
  defines "reply \<equiv> serve_body infer hz (ub_infer b) (ub_action b) verdict h (rx c2)"
  shows "\<exists>b' c'. uart_process_checked rounds io infer timeout_ms b c = Some (fst reply, b', c') \<and>
      tx c' = tx c2 @ snd reply"
proof -
  let ?n = "uh_length h"
  let ?bad = "verdict \<noteq> SNN_HEAD_UART_OK \<or> uh_type h \<noteq> SNN_HEAD_UART_TYPE_INPUT"
  note go = uart_process_checked_def dl hdr(1) dec Let_def input_bytes reply_def serve_body_def
  note refused = error_reply [OF _ dl(2), of _ "uh_seq h" SNN_HEAD_UART_STATUS_BAD_HEADER SNN_HEAD_UART_ERR_HEADER]
    error_reply [OF _ dl(2), of _ "uh_seq h" SNN_HEAD_UART_STATUS_BAD_PAYLOAD SNN_HEAD_UART_ERR_PAYLOAD]
  show ?thesis
  proof (cases "unat ?n \<le> 24576")
    case False
    with refused [OF hdr(2)] show ?thesis by (cases ?bad) (auto simp: go)
  next
    case small: True
    then have "unat ?n \<le> length (ub_input b)" using bufs by simp
    from payload_in [OF hdr(2) dl(2) this] obtain r b3 c3 where c3:
      "read_payload io ?n dl b c2 = Some (r, b3, c3)" "tx c3 = tx c2"
      "if length (rx c2) < unat ?n then r = SNN_HEAD_UART_ERR_TIMEOUT
       else r = SNN_HEAD_UART_OK \<and> timely c3 \<and> rx c3 = drop (unat ?n) (rx c2) \<and>
         b3 = b\<lparr>ub_input := take (unat ?n) (rx c2) @ drop (unat ?n) (ub_input b)\<rparr>" by blast
    have full: "read_payload io SNN_HEAD_UART_INPUT_PAYLOAD_BYTES dl b c2 = Some (r, b3, c3)" if "unat ?n = 24576"
      using c3(1) input_bytes(2) [of ?n] that by simp
    consider (short) "length (rx c2) < unat ?n"
      | (refuse) "\<not> length (rx c2) < unat ?n" "?bad \<or> unat ?n \<noteq> 24576"
      | (serve) "\<not> length (rx c2) < unat ?n" "\<not> ?bad" "unat ?n = 24576" by blast
    then show ?thesis
    proof cases
      case short
      with c3 small full show ?thesis by (cases ?bad; cases "unat ?n = 24576") (simp_all add: go)
    next
      case refuse
      with c3(3) have "r = SNN_HEAD_UART_OK" "timely c3" by auto
      with refuse small c3(1,2) refused [of c3] show ?thesis by (cases ?bad) (auto simp: go)
    next
      case serve
      with c3(3) have in3: "r = SNN_HEAD_UART_OK" "timely c3" "ub_input b3 = take 24576 (rx c2)"
        "length (take 24576 (rx c2)) = 24576" "ub_wire b3 = ub_wire b" "ub_action b3 = ub_action b" "ub_infer b3 = ub_infer b"
        using bufs by auto
      then have wire: "length (ub_wire b3) = 224" "length (ub_action b3) = 56" using bufs by auto
      note fin = serve_input_link [where infer = infer and h = h, OF in3(2) dl(2) wire in3(3,4) len]
      show ?thesis using fin serve in3 full c3(2) by (simp add: go)
    qed
  qed
qed

text \<open>The whole transaction.\<close>

lemma process_serves:
  assumes c: "timely c" "length (rx c) < rounds" and timeout: "timeout_ms \<noteq> 0" "hz \<noteq> 0"
    and bufs: "length (ub_input b) = 24576" "length (ub_wire b) = 224" "length (ub_action b) = 56"
    and len: "\<And>i input action. length action = 56 \<Longrightarrow> length (fst (snd (infer i input action))) = 56"
  shows "\<exists>b' c'. snn_head_uart_process_one rounds (Some io) (Some b) (Some infer) timeout_ms c =
      Some (fst (nsnn_serve infer hz (ub_infer b) (ub_action b) (rx c)), Some b', c') \<and>
    tx c' = tx c @ snd (nsnn_serve infer hz (ub_infer b) (ub_action b) (rx c))"
proof -
  let ?serve = "nsnn_serve infer hz (ub_infer b) (ub_action b) (rx c)"
  obtain dl c1 where c1: "deadline_after_ms io timeout_ms c = (dl, c1)" "fair dl" "timely c1" "rx c1 = rx c" "tx c1 = tx c"
    using deadline [OF c(1)] by blast
  have "length (rx c1) < rounds" using c(2) c1(4) by simp
  from header_in [OF c1(3,2) this] obtain result raw c2 where c2:
    "read_header rounds io (replicate 48 0) dl c1 = Some (result, raw, c2)" "tx c2 = tx c"
    "case find_magic (rx c) of None \<Rightarrow> result = SNN_HEAD_UART_ERR_TIMEOUT
     | Some rest \<Rightarrow> if length rest < 44 then result = SNN_HEAD_UART_ERR_TIMEOUT
         else result = SNN_HEAD_UART_OK \<and> raw = uart_magic @ take 44 rest \<and> timely c2 \<and> rx c2 = drop 44 rest"
    unfolding c1(4,5) by blast
  have start: "snn_head_uart_process_one rounds (Some io) (Some b) (Some infer) timeout_ms c =
      map_option (\<lambda>(r, b, c). (r, Some b, c)) (uart_process_checked rounds io infer timeout_ms b c)"
    using bound timeout
    by (auto simp: snn_head_uart_process_one_def hz split: Option.bind_splits)
  have "\<exists>b' c'. uart_process_checked rounds io infer timeout_ms b c = Some (fst ?serve, b', c') \<and>
      tx c' = tx c @ snd ?serve"
  proof (cases "\<exists>rest. find_magic (rx c) = Some rest \<and> 44 \<le> length rest")
    case False
    then have "result = SNN_HEAD_UART_ERR_TIMEOUT" "?serve = (SNN_HEAD_UART_ERR_TIMEOUT, [])"
      using c2(3) by (auto simp: nsnn_serve_def split: option.splits if_splits)
    with c1 c2 show ?thesis by (simp add: uart_process_checked_def)
  next
    case True
    then obtain rest where rest: "find_magic (rx c) = Some rest" "\<not> length rest < 44" by auto
    with c2(3) have hdr: "result = SNN_HEAD_UART_OK" "raw = uart_magic @ take 44 rest" "timely c2" "rx c2 = drop 44 rest"
      by auto
    obtain verdict h where dec:
      "snn_head_uart_header_decode (Some raw) (Some zero_header) = (verdict, Some h)"
      and f: "uload32 raw 8 = uh_seq h" "uload32 raw 12 = uh_length h"
      using decode_fields by blast
    have "?serve = serve_body infer hz (ub_infer b) (ub_action b) verdict h (rx c2)"
      using rest dec unfolding hdr(2,4) nsnn_serve_def by (simp add: Let_def serve_body_def)
    with body_serves [where infer = infer, OF c1(1,2) c2(1) [unfolded hdr(1)] hdr(3) dec f bufs len] c2(2)
    show ?thesis by simp
  qed
  then show ?thesis unfolding start by auto
qed

end


section \<open>The callbacks provide the link\<close>

definition poll_bytes :: "(u32 \<times> u64) list \<Rightarrow> u8 list" where
  "poll_bytes polls = map (\<lambda>(reg, _). ucast reg) (filter (\<lambda>(reg, _). \<not> rx_is_empty reg) polls)"

definition arrivals :: "uart_dev \<Rightarrow> u8 list" where
  "arrivals d = poll_bytes (butlast (ud_rx d))"

definition timeout_ticks :: "u32 \<Rightarrow> u32 \<Rightarrow> u64" where
  "timeout_ticks SystemCoreClock timeout_ms =
     (let ticks = (ucast timeout_ms * ucast SystemCoreClock + 999) div 1000 in if ticks \<noteq> 0 then ticks else 1)"

text \<open>
  The device answers before \<open>lo\<close>, until the last read of the receive FIFO, which comes at \<open>hi\<close> or later;
  every deadline computed from the clock lies between the two.
\<close>

definition uart_timely :: "u32 \<Rightarrow> u32 \<Rightarrow> u64 \<Rightarrow> u64 \<Rightarrow> uart_dev \<Rightarrow> bool" where
  "uart_timely SystemCoreClock timeout_ms lo hi d \<longleftrightarrow>
     (\<forall>k. lo \<le> ud_clock d k + timeout_ticks SystemCoreClock timeout_ms \<and>
          ud_clock d k + timeout_ticks SystemCoreClock timeout_ms \<le> hi) \<and>
     ud_rx d \<noteq> [] \<and> (\<forall>(reg, t) \<in> set (butlast (ud_rx d)). t < lo) \<and> hi \<le> snd (last (ud_rx d)) \<and>
     (\<forall>(reg, t) \<in> set (ud_tx d). t < lo)"

lemma read_loop_ok:
  assumes "\<forall>(reg, t) \<in> set pre. t < lo" "lo \<le> dl" "n \<le> length (poll_bytes pre)"
  shows "\<exists>pre'. uart_read_loop (pre @ [p]) dl n = Some (SNN_HEAD_UART_OK, take n (poll_bytes pre), pre' @ [p]) \<and>
    (\<forall>(reg, t) \<in> set pre'. t < lo) \<and> poll_bytes pre' = drop n (poll_bytes pre)"
  using assms
proof (induction pre arbitrary: n)
  case (Cons q pre)
  obtain reg t where q: "q = (reg, t)" by fastforce
  have t: "\<not> dl \<le> t" using Cons.prems(1,2) q by auto
  show ?case
  proof (cases n)
    case 0
    then show ?thesis using Cons.prems(1) by (intro exI [of _ "q # pre"]) simp
  next
    case (Suc m)
    show ?thesis
    proof (cases "rx_is_empty reg")
      case True
      with Cons.IH [of n] Cons.prems Suc q t show ?thesis by (simp add: poll_bytes_def)
    next
      case False
      with Cons.IH [of m] Cons.prems Suc q t show ?thesis by (fastforce simp: poll_bytes_def)
    qed
  qed
qed (auto simp: poll_bytes_def intro: exI [of _ "[]"])

lemma read_loop_silent:
  assumes "\<forall>(reg, t) \<in> set pre. t < lo" "lo \<le> dl" "dl \<le> snd p" "length (poll_bytes pre) < n"
  shows "\<exists>bs polls. uart_read_loop (pre @ [p]) dl n = Some (SNN_HEAD_UART_ERR_TIMEOUT, bs, polls)"
  using assms
proof (induction pre arbitrary: n)
  case Nil
  then show ?case by (cases p; cases n) simp_all
next
  case (Cons q pre)
  obtain reg t where q: "q = (reg, t)" by fastforce
  have t: "\<not> dl \<le> t" using Cons.prems(1,2) q by auto
  obtain m where n: "n = Suc m" using Cons.prems(4) by (cases n) auto
  show ?case
  proof (cases "rx_is_empty reg")
    case True
    with Cons.IH [of n] Cons.prems q t n show ?thesis by (simp add: poll_bytes_def)
  next
    case False
    with Cons.IH [of m] Cons.prems q t n show ?thesis by (fastforce simp: poll_bytes_def)
  qed
qed

lemma wait_room_ok:
  assumes "\<forall>(reg, t) \<in> set polls. t < lo" "lo \<le> dl"
  shows "\<exists>polls'. uart_wait_room polls dl = (True, polls') \<and> (\<forall>(reg, t) \<in> set polls'. t < lo)"
  using assms by (induction polls) force+

lemma write_bytes_ok:
  assumes "\<forall>(reg, t) \<in> set (ud_tx d). t < lo" "lo \<le> dl"
  shows "\<exists>polls. uart_write_bytes bs dl d = Some (SNN_HEAD_UART_OK, d\<lparr>ud_tx := polls, ud_sent := ud_sent d @ bs\<rparr>) \<and>
    (\<forall>(reg, t) \<in> set polls. t < lo)"
  using assms
proof (induction bs arbitrary: d)
  case Nil
  then show ?case by (intro exI [of _ "ud_tx d"]) simp
next
  case (Cons x bs)
  from wait_room_ok [OF Cons.prems] obtain polls where p: "uart_wait_room (ud_tx d) dl = (True, polls)"
    "\<forall>(reg, t) \<in> set polls. t < lo" by blast
  from Cons.IH [of "d\<lparr>ud_tx := polls, ud_sent := ud_sent d @ [x]\<rparr>"] Cons.prems(2) p show ?case by simp
qed

lemma uart_link_main:
  "uart_link (snn_head_io SystemCoreClock) arrivals ud_sent (uart_timely SystemCoreClock timeout_ms lo hi)
     (\<lambda>dl. lo \<le> dl \<and> dl \<le> hi) timeout_ms SystemCoreClock"
proof
  fix d dl and n :: u32
  assume t: "uart_timely SystemCoreClock timeout_ms lo hi d" and f: "lo \<le> dl \<and> dl \<le> hi"
  then have split: "ud_rx d = butlast (ud_rx d) @ [last (ud_rx d)]" by (simp add: uart_timely_def)
  from t have pre: "\<forall>(reg, t) \<in> set (butlast (ud_rx d)). t < lo" by (simp add: uart_timely_def)
  {
    assume "unat n \<le> length (arrivals d)"
    then have "unat n \<le> length (poll_bytes (butlast (ud_rx d)))" by (simp add: arrivals_def)
    from read_loop_ok [OF pre conjunct1 [OF f] this, of "last (ud_rx d)"] obtain pre' where
      "uart_read_loop (ud_rx d) dl (unat n) =
         Some (SNN_HEAD_UART_OK, take (unat n) (arrivals d), pre' @ [last (ud_rx d)])"
      "\<forall>(reg, t) \<in> set pre'. t < lo" "poll_bytes pre' = drop (unat n) (arrivals d)"
      unfolding split [symmetric] arrivals_def by blast
    with t show "\<exists>c'. the (io_read (snn_head_io SystemCoreClock)) n dl d =
        Some (SNN_HEAD_UART_OK, take (unat n) (arrivals d), c') \<and> uart_timely SystemCoreClock timeout_ms lo hi c' \<and>
        arrivals c' = drop (unat n) (arrivals d) \<and> ud_sent c' = ud_sent d"
      by (simp add: snn_head_io_def uart_read_bytes_def uart_timely_def arrivals_def)
  next
    assume "length (arrivals d) < unat n"
    then have "length (poll_bytes (butlast (ud_rx d))) < unat n" by (simp add: arrivals_def)
    moreover have "dl \<le> snd (last (ud_rx d))" using t f by (auto simp: uart_timely_def)
    ultimately obtain bs polls where
      "uart_read_loop (ud_rx d) dl (unat n) = Some (SNN_HEAD_UART_ERR_TIMEOUT, bs, polls)"
      using read_loop_silent [OF pre conjunct1 [OF f], of "last (ud_rx d)" "unat n"]
      unfolding split [symmetric] by blast
    then show "\<exists>bs c'. the (io_read (snn_head_io SystemCoreClock)) n dl d =
        Some (SNN_HEAD_UART_ERR_TIMEOUT, bs, c') \<and> ud_sent c' = ud_sent d"
      by (simp add: snn_head_io_def uart_read_bytes_def)
  }
next
  fix d dl and bs :: "u8 list"
  assume t: "uart_timely SystemCoreClock timeout_ms lo hi d" and f: "lo \<le> dl \<and> dl \<le> hi"
  from t have "\<forall>(reg, t) \<in> set (ud_tx d). t < lo" by (simp add: uart_timely_def)
  from write_bytes_ok [OF this conjunct1 [OF f], of bs] t
  show "\<exists>c'. the (io_write (snn_head_io SystemCoreClock)) bs dl d = Some (SNN_HEAD_UART_OK, c') \<and>
      uart_timely SystemCoreClock timeout_ms lo hi c' \<and> arrivals c' = arrivals d \<and> ud_sent c' = ud_sent d @ bs"
    by (auto simp: snn_head_io_def uart_timely_def arrivals_def)
next
  fix d
  assume "uart_timely SystemCoreClock timeout_ms lo hi d"
  then show "\<exists>dl c'. deadline_after_ms (snn_head_io SystemCoreClock) timeout_ms d = (dl, c') \<and>
      (lo \<le> dl \<and> dl \<le> hi) \<and> uart_timely SystemCoreClock timeout_ms lo hi c' \<and> arrivals c' = arrivals d \<and>
      ud_sent c' = ud_sent d"
    by (simp add: deadline_after_ms_def snn_head_io_def uart_now_def read_hz_def uart_timely_def arrivals_def
        timeout_ticks_def Let_def)
qed (simp_all add: snn_head_io_def read_hz_def)

interpretation main_link: uart_link "snn_head_io SystemCoreClock" arrivals ud_sent
  "uart_timely SystemCoreClock timeout_ms lo hi" "\<lambda>dl. lo \<le> dl \<and> dl \<le> hi" timeout_ms SystemCoreClock
  for SystemCoreClock timeout_ms :: u32 and lo hi :: u64
  by (rule uart_link_main)


section \<open>The service on the wire\<close>

text \<open>A request of the client: the header and the tensor.\<close>

definition request :: "u32 \<Rightarrow> u8 list \<Rightarrow> u8 list" where
  "request seq payload =
     frame SNN_HEAD_UART_TYPE_INPUT seq SNN_HEAD_UART_INPUT_PAYLOAD_BYTES (snn_head_uart_crc32 payload) 0
       (SNN_HEAD_UART_BATCH_SIZE, SNN_HEAD_TIMESTEPS, SNN_HEAD_INPUT_DIM) SNN_HEAD_UART_DTYPE_FLOAT32_LE 0 0 @ payload"

lemma request_magic: "\<exists>rest. length rest = 44 \<and> frame ty seq len crc status dims dtype cycles hz = uart_magic @ rest"
proof -
  have "\<exists>rest. header_bytes h @ bytes32 c = uart_magic @ rest" for h c by (simp add: header_bytes_def)
  then obtain rest where r: "frame ty seq len crc status dims dtype cycles hz = uart_magic @ rest"
    unfolding frame_def encode_eq [OF length_replicate] by blast
  moreover have "length (frame ty seq len crc status dims dtype cycles hz) = 48"
    unfolding frame_def encode_eq [OF length_replicate] by simp
  ultimately show ?thesis by simp
qed

lemma serve_request:
  assumes sync: "\<forall>k < length noise. take 4 (drop k (noise @ request seq payload @ after)) \<noteq> uart_magic"
    and payload: "length payload = 24576" "list_all isfinite32 (floats_of payload SNN_HEAD_INPUT_FLOAT_COUNT)"
    and inf: "infer i (floats_of payload SNN_HEAD_INPUT_FLOAT_COUNT) action0 = (success, action, cycles, i')"
  shows "nsnn_serve infer hz i action0 (noise @ request seq payload @ after) =
    (if success \<and> list_all isfinite32 (take SNN_HEAD_ACTION_FLOAT_COUNT action)
     then (SNN_HEAD_UART_OK, ack_frame seq @ result_frame seq action cycles hz)
     else (SNN_HEAD_UART_ERR_INFERENCE, ack_frame seq @ error_frame seq SNN_HEAD_UART_STATUS_INFERENCE_FAILED))"
proof -
  let ?h = "\<lparr>uh_version = SNN_HEAD_UART_VERSION, uh_type = SNN_HEAD_UART_TYPE_INPUT,
    uh_header_size = SNN_HEAD_UART_HEADER_SIZE, uh_seq = seq, uh_length = SNN_HEAD_UART_INPUT_PAYLOAD_BYTES,
    uh_crc = snn_head_uart_crc32 payload, uh_status = 0, uh_d0 = SNN_HEAD_UART_BATCH_SIZE,
    uh_d1 = SNN_HEAD_TIMESTEPS, uh_d2 = SNN_HEAD_INPUT_DIM, uh_dtype = SNN_HEAD_UART_DTYPE_FLOAT32_LE,
    uh_cycles = 0, uh_hz = 0\<rparr>"
  obtain rest where rest: "length rest = 44" "request seq payload = uart_magic @ rest @ payload"
    "snn_head_uart_header_encode (replicate 48 0) ?h = uart_magic @ rest"
    using request_magic unfolding request_def frame_def by fastforce
  have found: "find_magic (noise @ request seq payload @ after) = Some (rest @ payload @ after)"
    unfolding find_magic_some using sync rest(2) by auto
  have dec: "snn_head_uart_header_decode (Some (uart_magic @ rest)) (Some zero_header) = (SNN_HEAD_UART_OK, Some ?h)"
    using decode_encode [OF length_replicate, of 0 ?h zero_header] unfolding rest(3) by simp
  have shape: "valid_input_shape ?h" by (simp add: valid_input_shape_def)
  show ?thesis
    unfolding nsnn_serve_def serve_body_def found using rest(1) payload inf
    by (cases "success \<and> list_all isfinite32 (take SNN_HEAD_ACTION_FLOAT_COUNT action)")
      (simp_all add: dec serve_input_def shape Let_def)
qed

lemma poll_bytes_map: "poll_bytes (map (\<lambda>x. (ucast x, t)) xs) = xs"
proof -
  have top: "bit (0x80000000 :: u32) n \<Longrightarrow> n = 31" for n
    using bit_exp_iff [where ?'a = "32 word", of 31 n] by simp
  have "(ucast x :: u32) AND 0x80000000 = 0" for x :: u8
  proof (rule bit_word_eqI)
    fix n
    have "\<not> bit x 31" by (auto dest: bit_imp_le_length)
    then show "bit ((ucast x :: u32) AND 0x80000000) n = bit 0 n"
      using top [of n] by (auto simp: bit_and_iff bit_unsigned_iff)
  qed
  then have "\<not> rx_is_empty (ucast (x :: u8))" for x by (simp add: rx_is_empty_def)
  moreover have "(ucast (ucast x :: u32) :: u8) = x" for x by (rule bit_word_eqI) (auto simp: bit_unsigned_iff)
  ultimately show ?thesis by (induction xs) (simp_all add: poll_bytes_def)
qed

text \<open>A device on which nothing arrives.\<close>

definition silent_dev :: uart_dev where
  "silent_dev = \<lparr>ud_rx = [(UART_RXFIFO_EMPTY, 5), (UART_RXFIFO_EMPTY, 2000000)], ud_tx = [(UART_TXFIFO_FULL, 7)],
     ud_sent = [1], TXCTRL = 1, RXCTRL = 1, IE = 0, IP = 0, DIV = 8, ud_clock = (\<lambda>_. 0), ud_reads = 0\<rparr>"

text \<open>The magic scan is the plain search for the first occurrence: on a device that answers in
  time it stops right behind the first \<open>NSNN\<close> that arrives, overlapping prefixes included, and times out
  when there is none.\<close>

theorem scan_stops_at_first_magic:
  assumes "uart_timely SystemCoreClock timeout_ms lo hi d" "length (arrivals d) < rounds"
    and "lo \<le> deadline" "deadline \<le> hi"
  shows "case find_magic (arrivals d) of
      None \<Rightarrow> \<exists>d'. magic_scan rounds (snn_head_io SystemCoreClock) deadline 0 d = Some (SNN_HEAD_UART_ERR_TIMEOUT, d')
    | Some rest \<Rightarrow> \<exists>d'. magic_scan rounds (snn_head_io SystemCoreClock) deadline 0 d = Some (SNN_HEAD_UART_OK, d') \<and>
        arrivals d' = rest"
  using main_link.scan [OF assms(1) _ assms(2), of deadline 0] assms(3,4) kmp_run_prefix [of 0 "arrivals d"]
  by (auto split: option.splits)

text \<open>The overlap \<open>N S NSNN\<close>: a search that dropped its prefix would miss it.\<close>

theorem scan_stops_at_first_magic_witness:
  "\<exists>d'. magic_scan 8 (snn_head_io 1000000) 100 0
      (silent_dev\<lparr>ud_rx := map (\<lambda>x :: u8. (ucast x, 3)) [78, 83, 78, 83, 78, 78, 9] @ [(0, 2000000)]\<rparr>) =
      Some (SNN_HEAD_UART_OK, d') \<and> arrivals d' = [9]"
proof -
  let ?d = "silent_dev\<lparr>ud_rx := map (\<lambda>x :: u8. (ucast x, 3)) [78, 83, 78, 83, 78, 78, 9] @ [(0, 2000000)]\<rparr>"
  have arr: "arrivals ?d = [78, 83, 78, 83, 78, 78, 9]"
    using poll_bytes_map [of 3 "[78, 83, 78, 83, 78, 78, 9]"] by (simp add: arrivals_def)
  have timely: "uart_timely 1000000 1000 10 1000000 ?d"
    by (simp add: silent_dev_def uart_timely_def timeout_ticks_def)
  show ?thesis
    using scan_stops_at_first_magic [OF timely, of 8 100] unfolding arr by (simp add: uart_magic_def)
qed

text \<open>C7.  \<open>main.c\<close> serves the protocol: on a device that answers in time and then falls silent, whatever
  bytes arrive, one call of \<open>snn_head_uart_process_one\<close> returns, and its verdict and every byte it sends
  are those the protocol function gives for the arriving bytes.  One round of the magic scan per
  arriving byte, and one more, are enough.\<close>

theorem service_refines_protocol:
  assumes "uart_timely SystemCoreClock timeout_ms lo hi d" "length (arrivals d) < rounds"
    and "timeout_ms \<noteq> 0" "SystemCoreClock \<noteq> 0"
    and "length (ub_input b) = 24576" "length (ub_wire b) = 224" "length (ub_action b) = 56"
    and "\<And>i input action. length action = 56 \<Longrightarrow> length (fst (snd (chain i input action))) = 56"
  shows "\<exists>b' d'. snn_head_uart_process_one rounds (Some (snn_head_io SystemCoreClock)) (Some b)
        (Some (run_complete_chain chain)) timeout_ms d =
      Some (fst (nsnn_serve (run_complete_chain chain) SystemCoreClock (ub_infer b) (ub_action b) (arrivals d)),
            Some b', d') \<and>
    ud_sent d' = ud_sent d @
      snd (nsnn_serve (run_complete_chain chain) SystemCoreClock (ub_infer b) (ub_action b) (arrivals d))"
  by (rule main_link.process_serves [OF assms(1-7)])
    (simp add: run_complete_chain_def split_def assms(8))

text \<open>Buffers of the sizes of \<open>main.c\<close> and a chain that always answers 1.0.\<close>

definition demo_bufs :: "unit uart_bufs" where
  "demo_bufs = \<lparr>ub_input = replicate 24576 0, ub_action = replicate 56 0, ub_wire = replicate 224 0, ub_infer = ()\<rparr>"

definition demo_chain :: "unit \<Rightarrow> u32 list \<Rightarrow> u32 list \<Rightarrow> bool \<times> u32 list \<times> unit" where
  "demo_chain i input action = (True, map (\<lambda>_. 0x3F800000) action, i)"

theorem service_refines_protocol_witness:
  "\<exists>b' d'. snn_head_uart_process_one 1 (Some (snn_head_io 1000000)) (Some demo_bufs)
      (Some (run_complete_chain demo_chain)) 1000 silent_dev = Some (SNN_HEAD_UART_ERR_TIMEOUT, Some b', d') \<and>
    ud_sent d' = [1]"
proof -
  have none: "arrivals silent_dev = []" by (simp add: silent_dev_def arrivals_def poll_bytes_def rx_is_empty_def)
  have sent: "ud_sent silent_dev = [1]" by (simp add: silent_dev_def)
  have timely: "uart_timely 1000000 1000 10 1000000 silent_dev"
    by (simp add: silent_dev_def uart_timely_def timeout_ticks_def)
  show ?thesis
    using service_refines_protocol [of 1000000 1000 10 1000000 silent_dev 1 demo_bufs demo_chain] timely none
    by (simp add: demo_bufs_def demo_chain_def nsnn_serve_def serve_body_def sent)
qed

text \<open>A well-formed request is answered, also behind noise on the line: after bytes in which no
  frame starts, a request with a finite tensor and its CRC gets the acknowledgement of its sequence
  number and then the result, the bytes of the chain's action behind a header with their CRC.\<close>

theorem request_answered:
  assumes "uart_timely SystemCoreClock timeout_ms lo hi d" "length (arrivals d) < rounds"
    and "timeout_ms \<noteq> 0" "SystemCoreClock \<noteq> 0"
    and "length (ub_input b) = 24576" "length (ub_wire b) = 224" "length (ub_action b) = 56"
    and "\<And>i input action. length action = 56 \<Longrightarrow> length (fst (snd (chain i input action))) = 56"
    and "arrivals d = noise @ request seq payload @ after"
    and "\<forall>k < length noise. take 4 (drop k (arrivals d)) \<noteq> uart_magic"
    and "length payload = 24576" "list_all isfinite32 (floats_of payload SNN_HEAD_INPUT_FLOAT_COUNT)"
    and "chain (ub_infer b) (floats_of payload SNN_HEAD_INPUT_FLOAT_COUNT) (ub_action b) = (True, action, i)"
    and "list_all isfinite32 action"
  shows "\<exists>b' d'. snn_head_uart_process_one rounds (Some (snn_head_io SystemCoreClock)) (Some b)
        (Some (run_complete_chain chain)) timeout_ms d = Some (SNN_HEAD_UART_OK, Some b', d') \<and>
    ud_sent d' = ud_sent d @ ack_frame seq @ result_frame seq action 0 SystemCoreClock"
proof -
  have fin: "list_all isfinite32 (take SNN_HEAD_ACTION_FLOAT_COUNT action)"
    using assms(14) by (auto simp: list_all_iff dest: in_set_takeD)
  have inf: "run_complete_chain chain (ub_infer b) (floats_of payload SNN_HEAD_INPUT_FLOAT_COUNT) (ub_action b) =
      (True, action, 0, i)"
    using assms(13) by (simp add: run_complete_chain_def)
  have serve: "nsnn_serve (run_complete_chain chain) SystemCoreClock (ub_infer b) (ub_action b) (arrivals d) =
      (SNN_HEAD_UART_OK, ack_frame seq @ result_frame seq action 0 SystemCoreClock)"
    unfolding assms(9) using fin
    by (simp add: serve_request [where infer = "run_complete_chain chain" and i = "ub_infer b",
        OF assms(10) [unfolded assms(9)] assms(11,12) inf])
  have len: "length (fst (snd (run_complete_chain chain i input action))) = 56" if "length action = 56"
    for i input action
    using assms(8) [OF that] by (simp add: run_complete_chain_def split_def)
  show ?thesis
    using main_link.process_serves [where infer = "run_complete_chain chain" and b = b, OF assms(1-7) len]
    unfolding serve by simp
qed

text \<open>A byte of noise, then a request.\<close>

definition request_dev :: uart_dev where
  "request_dev = silent_dev\<lparr>ud_rx := map (\<lambda>x. (ucast x, 3)) (78 # request 7 (replicate 24576 0)) @ [(0, 2000000)],
     ud_sent := []\<rparr>"

lemma floats_of_zeros: "4 * n \<le> m \<Longrightarrow> floats_of (replicate m 0) n = replicate n 0"
  by (auto simp: floats_of_def uload32_def le32_def intro!: nth_equalityI)

lemma request_dev_line:
  "arrivals request_dev = [78] @ request 7 (replicate 24576 0) @ []"
  "length (arrivals request_dev) < 24626"
  "\<forall>k < length [78 :: u8]. take 4 (drop k (arrivals request_dev)) \<noteq> uart_magic"
  "uart_timely 1000000 1000 10 1000000 request_dev"
  "list_all isfinite32 (floats_of (replicate 24576 0) SNN_HEAD_INPUT_FLOAT_COUNT)"
proof -
  let ?z = "replicate 24576 (0 :: u8)"
  have arr: "arrivals request_dev = 78 # request 7 ?z"
    using poll_bytes_map [of 3 "78 # request 7 ?z"] by (simp add: request_dev_def arrivals_def)
  then show "arrivals request_dev = [78] @ request 7 ?z @ []" by simp
  obtain hd where "length hd = 44" "frame SNN_HEAD_UART_TYPE_INPUT 7 SNN_HEAD_UART_INPUT_PAYLOAD_BYTES
      (snn_head_uart_crc32 ?z) 0 (SNN_HEAD_UART_BATCH_SIZE, SNN_HEAD_TIMESTEPS, SNN_HEAD_INPUT_DIM)
      SNN_HEAD_UART_DTYPE_FLOAT32_LE 0 0 = uart_magic @ hd"
    using request_magic by blast
  then obtain rest where rest: "request 7 ?z = uart_magic @ rest" "length rest = 24620"
    by (simp add: request_def)
  show "length (arrivals request_dev) < 24626" "\<forall>k < length [78 :: u8]. take 4 (drop k (arrivals request_dev)) \<noteq> uart_magic"
    unfolding arr rest(1) using rest(2) by (simp_all add: uart_magic_def)
  show "uart_timely 1000000 1000 10 1000000 request_dev"
    by (auto simp: request_dev_def silent_dev_def uart_timely_def timeout_ticks_def)
  show "list_all isfinite32 (floats_of ?z SNN_HEAD_INPUT_FLOAT_COUNT)"
    by (simp add: floats_of_zeros list_all_iff isfinite32_def)
qed

theorem request_answered_witness:
  "\<exists>b' d'. snn_head_uart_process_one 24626 (Some (snn_head_io 1000000)) (Some demo_bufs)
      (Some (run_complete_chain demo_chain)) 1000 request_dev = Some (SNN_HEAD_UART_OK, Some b', d') \<and>
    ud_sent d' = ack_frame 7 @ result_frame 7 (replicate 56 0x3F800000) 0 1000000"
  using request_answered [where SystemCoreClock = 1000000 and timeout_ms = 1000 and lo = 10 and hi = 1000000
      and d = request_dev and rounds = 24626 and b = demo_bufs and chain = demo_chain and noise = "[78]" and seq = 7
      and payload = "replicate 24576 0" and after = "[]" and action = "replicate 56 0x3F800000" and i = "()"]
    request_dev_line
  by (simp add: demo_bufs_def demo_chain_def isfinite32_def list_all_iff request_dev_def)

end
