(* ===== verification/Session.thy ===== *)
theory Session
  imports Noc
begin

text \<open>
  The PAICORE session, \<open>Lib/runtime/session.{h,c}\<close>, in the default build (\<open>RVRT_ENABLE_STATS == 0\<close>,
  logging compiled out).

  The world is the NoC hardware, the global \<open>g_active_session\<close>, the session objects and frame
  buffers by address, and the memory that receive handlers change.  A handler gets its user data and
  the frame and returns its status and the new memory; the value \<open>None\<close> is undefined behaviour inside it.

  Interrupts.  The NoC ISR can run only between \<open>noc_irq_enable\<close> in \<open>start_rx_barrier\<close> and the
  \<open>noc_irq_disable\<close> that ends the wait.  \<open>wait_rx_barrier\<close> runs against an environment that says what
  the cycle counter returns and at which points an interrupt is taken: before a poll of
  \<open>completed\<close>, or between the read of the cycle counter and \<open>noc_irq_disable\<close> on the timeout path.
  The environment is finite: a wait that outlives it has no result (\<open>None\<close>).  An ISR between the
  start of the barrier and the store of the control frame has the same effect as one before the
  first poll, since the ISR never writes the downlink.
\<close>

section \<open>State\<close>

datatype session_status =
    RVRT_SESSION_OK
  | RVRT_SESSION_TIMEOUT
  | RVRT_SESSION_BUFFER_TOO_SMALL
  | RVRT_SESSION_OVERFLOW
  | RVRT_SESSION_HARDWARE_ERROR
  | RVRT_SESSION_RUNTIME_ERROR
  | RVRT_SESSION_SYNC_MODE_ERROR
  | RVRT_SESSION_SCHEDULE_UNSUPPORTED
  | RVRT_SESSION_FAULTED
  | RVRT_SESSION_BUSY

datatype sync_mode =
    RVRT_SESSION_SYNC_MODE_UNSET
  | RVRT_SESSION_SYNC_MODE_RAW_PAYLOAD
  | RVRT_SESSION_SYNC_MODE_TIMELINE

type_synonym ('u, 'm) rx_handler = "'u option \<Rightarrow> rvrt_frame \<Rightarrow> 'm \<Rightarrow> (session_status \<times> 'm) option"

record ('u, 'm) rx_barrier =
  bar_active :: bool
  bar_completed :: bool
  bar_overflow :: bool
  bar_hardware_error :: bool
  bar_rx_count :: u32
  bar_handler :: "('u, 'm) rx_handler option"
  bar_user_data :: "'u option"
  bar_handler_status :: session_status

text \<open>Pointers to artifacts carry the address of the object, buffers are named by theirs.\<close>

record session_config =
  cfg_artifact :: "(nat \<times> rvrt_artifact) option"
  cfg_thread_index :: u32
  cfg_rx_frames :: "nat option"
  cfg_rx_capacity :: u32

record ('u, 'm) session =
  se_artifact :: "(nat \<times> rvrt_artifact) option"
  se_thread_index :: u32
  se_rx_frames :: "nat option"
  se_rx_capacity :: u32
  se_sync_mode :: sync_mode
  se_completed_timesteps :: u32
  se_faulted :: bool
  se_barrier :: "('u, 'm) rx_barrier"

record ('u, 'm) world =
  w_hw :: noc_hw
  w_active :: "nat option"
  w_session :: "nat \<Rightarrow> ('u, 'm) session"
  w_buf :: "nat \<Rightarrow> rvrt_frame list"
  w_mem :: 'm
  w_clock :: u32

definition zero_barrier :: "('u, 'm) rx_barrier" where
  "zero_barrier = \<lparr>bar_active = False, bar_completed = False, bar_overflow = False,
     bar_hardware_error = False, bar_rx_count = 0, bar_handler = None, bar_user_data = None,
     bar_handler_status = RVRT_SESSION_OK\<rparr>"

text \<open>\<open>memset(session, 0, sizeof *session)\<close>.\<close>

definition zero_session :: "('u, 'm) session" where
  "zero_session = \<lparr>se_artifact = None, se_thread_index = 0, se_rx_frames = None, se_rx_capacity = 0,
     se_sync_mode = RVRT_SESSION_SYNC_MODE_UNSET, se_completed_timesteps = 0, se_faulted = False,
     se_barrier = zero_barrier\<rparr>"

abbreviation set_session :: "nat \<Rightarrow> ('u, 'm) session \<Rightarrow> ('u, 'm) world \<Rightarrow> ('u, 'm) world" where
  "set_session p s w \<equiv> w\<lparr>w_session := (w_session w)(p := s)\<rparr>"

definition upd_session ::
    "nat \<Rightarrow> (('u, 'm) session \<Rightarrow> ('u, 'm) session) \<Rightarrow> ('u, 'm) world \<Rightarrow> ('u, 'm) world" where
  "upd_session p f w = w\<lparr>w_session := (w_session w)(p := f (w_session w p))\<rparr>"

definition upd_barrier ::
    "nat \<Rightarrow> (('u, 'm) rx_barrier \<Rightarrow> ('u, 'm) rx_barrier) \<Rightarrow> ('u, 'm) world \<Rightarrow> ('u, 'm) world" where
  "upd_barrier p f w = upd_session p (\<lambda>s. s\<lparr>se_barrier := f (se_barrier s)\<rparr>) w"

definition upd_hw :: "(noc_hw \<Rightarrow> noc_hw) \<Rightarrow> ('u, 'm) world \<Rightarrow> ('u, 'm) world" where
  "upd_hw f w = w\<lparr>w_hw := f (w_hw w)\<rparr>"

abbreviation barrier_of :: "('u, 'm) world \<Rightarrow> nat \<Rightarrow> ('u, 'm) rx_barrier" where
  "barrier_of w p \<equiv> se_barrier (w_session w p)"

text \<open>What the environment does during one wait.\<close>

record wait_poll =
  wp_irq :: bool
  wp_cycle :: u64
  wp_irq_late :: bool

record wait_env =
  we_start :: u64
  we_polls :: "wait_poll list"


section \<open>Ownership\<close>

text \<open>\<open>ECLIC_Register_IRQ\<close> is its result and, on success, the enabling of the source.\<close>

definition register_irq :: "int \<Rightarrow> nat \<Rightarrow> ('u, 'm) world \<Rightarrow> session_status \<times> ('u, 'm) world" where
  "register_irq register_result session w =
     (if w_active w \<noteq> None then (RVRT_SESSION_BUSY, w)
      else
        let w = upd_hw noc_irq_disable w;
            w = w\<lparr>w_active := Some session\<rparr>;
            w = (if register_result = 0 then upd_hw noc_irq_enable w else w)
        in if register_result \<noteq> 0 then (RVRT_SESSION_RUNTIME_ERROR, w\<lparr>w_active := None\<rparr>)
           else (RVRT_SESSION_OK, upd_hw enable_irq w))"

definition clear_rx_barrier :: "('u, 'm) rx_barrier \<Rightarrow> ('u, 'm) rx_barrier" where
  "clear_rx_barrier b = b\<lparr>bar_active := False, bar_completed := False, bar_overflow := False,
     bar_hardware_error := False, bar_rx_count := 0, bar_handler := None, bar_user_data := None,
     bar_handler_status := RVRT_SESSION_OK\<rparr>"

definition clear_sync_epoch :: "('u, 'm) session \<Rightarrow> ('u, 'm) session" where
  "clear_sync_epoch s = s\<lparr>se_sync_mode := RVRT_SESSION_SYNC_MODE_UNSET, se_completed_timesteps := 0\<rparr>"

definition rvrt_session_init ::
    "int \<Rightarrow> nat option \<Rightarrow> session_config option \<Rightarrow> ('u, 'm) world \<Rightarrow> session_status \<times> ('u, 'm) world" where
  "rvrt_session_init register_result session config w =
     (case (session, config) of
        (Some p, Some c) \<Rightarrow>
          (case cfg_artifact c of
             None \<Rightarrow> (RVRT_SESSION_RUNTIME_ERROR, w)
           | Some art \<Rightarrow>
               if cfg_rx_frames c = None \<or> cfg_rx_capacity c = 0 then (RVRT_SESSION_RUNTIME_ERROR, w)
               else if w_active w \<noteq> None then (RVRT_SESSION_BUSY, w)
               else if fst (rvrt_artifact_thread_runtime (Some (snd art)) (cfg_thread_index c)
                              (Some zero_runtime)) \<noteq> RVRT_ARTIFACT_OK
               then (RVRT_SESSION_RUNTIME_ERROR, w)
               else
                 let s = zero_session\<lparr>se_artifact := Some art, se_thread_index := cfg_thread_index c,
                            se_rx_frames := cfg_rx_frames c, se_rx_capacity := cfg_rx_capacity c,
                            se_faulted := False\<rparr>;
                     s = clear_sync_epoch s;
                     s = s\<lparr>se_barrier := clear_rx_barrier (se_barrier s)\<rparr>;
                     (status, w) = register_irq register_result p (set_session p s w)
                 in if status \<noteq> RVRT_SESSION_OK then (status, set_session p zero_session w)
                    else (status, w))
      | _ \<Rightarrow> (RVRT_SESSION_RUNTIME_ERROR, w))"

definition rvrt_session_deinit :: "nat option \<Rightarrow> ('u, 'm) world \<Rightarrow> session_status \<times> ('u, 'm) world" where
  "rvrt_session_deinit session w =
     (case session of
        None \<Rightarrow> (RVRT_SESSION_RUNTIME_ERROR, w)
      | Some p \<Rightarrow>
          if w_active w \<noteq> None \<and> w_active w \<noteq> Some p then (RVRT_SESSION_BUSY, w)
          else if w_active w = Some p \<and> bar_active (barrier_of w p) then (RVRT_SESSION_BUSY, w)
          else
            let w = upd_hw noc_irq_disable w;
                w = upd_hw noc_irq_ack w;
                w = (if w_active w = Some p then w\<lparr>w_active := None\<rparr> else w)
            in (RVRT_SESSION_OK, set_session p zero_session w))"


section \<open>The interrupt service routine\<close>

text \<open>\<open>session->rx_frames[index] = *frame\<close>: \<open>None\<close> is a store past the caller's buffer.\<close>

definition receive_rx_barrier_frame ::
    "nat \<Rightarrow> rvrt_frame \<Rightarrow> ('u, 'm) world \<Rightarrow> ('u, 'm) world option" where
  "receive_rx_barrier_frame p frame w =
     (let b = barrier_of w p;
          is_complete = rvrt_frame_is_complete (Some frame)
      in case bar_handler b of
           Some handler \<Rightarrow>
             if \<not> is_complete then
               (if bar_handler_status b = RVRT_SESSION_OK then do {
                  (status, mem) \<leftarrow> handler (bar_user_data b) frame (w_mem w);
                  Some (upd_barrier p (\<lambda>b. b\<lparr>bar_handler_status := status\<rparr>) (w\<lparr>w_mem := mem\<rparr>))
                } else Some w)
             else Some (upd_barrier p (\<lambda>b. b\<lparr>bar_completed := True\<rparr>) w)
         | None \<Rightarrow>
             let index = bar_rx_count b in
             if index \<ge> se_rx_capacity (w_session w p)
             then Some (upd_barrier p (\<lambda>b. b\<lparr>bar_overflow := True, bar_hardware_error := True,
                                             bar_completed := True\<rparr>) w)
             else do {
               buf \<leftarrow> se_rx_frames (w_session w p);
               frames \<leftarrow> wr (w_buf w buf) index frame;
               let w = w\<lparr>w_buf := (w_buf w)(buf := frames)\<rparr>;
               let w = upd_barrier p (\<lambda>b. b\<lparr>bar_rx_count := index + 1\<rparr>) w;
               Some (if is_complete then upd_barrier p (\<lambda>b. b\<lparr>bar_completed := True\<rparr>) w else w)
             })"

lemma receive_keeps_hw:
  "receive_rx_barrier_frame p f w = Some w' \<Longrightarrow> w_hw w' = w_hw w"
  by (auto simp: receive_rx_barrier_frame_def Let_def upd_barrier_def upd_session_def
      split: option.splits if_splits bind_splits)

text \<open>The loop \<open>while (!rx_barrier->completed)\<close>; every round consumes two words of the uplink.\<close>

function noc_rx_loop :: "nat \<Rightarrow> ('u, 'm) world \<Rightarrow> ('u, 'm) world option" where
  "noc_rx_loop p w =
     (if bar_completed (barrier_of w p) then Some w
      else
        (case noc_fifo_read_frame_words (Some 0) (Some 0) (w_hw w) of
           None \<Rightarrow> None
         | Some (result, high, low, hw) \<Rightarrow>
             if result \<noteq> 0
             then Some (upd_barrier p (\<lambda>b. b\<lparr>bar_hardware_error := True, bar_completed := True\<rparr>)
                          (w\<lparr>w_hw := hw\<rparr>))
             else
               (case receive_rx_barrier_frame p \<lparr>fr_high = the high, fr_low = the low\<rparr> (w\<lparr>w_hw := hw\<rparr>) of
                  None \<Rightarrow> None
                | Some w \<Rightarrow> noc_rx_loop p w)))"
  by pat_completeness auto
termination
  by (relation "measure (\<lambda>(p, w). length (hw_up (w_hw w)))")
    (auto simp: noc_read_eq receive_keeps_hw split: list.splits)

declare noc_rx_loop.simps [simp del]

definition paicore_noc_handler :: "('u, 'm) world \<Rightarrow> ('u, 'm) world option" where
  "paicore_noc_handler w =
     (let session = w_active w;
          w = upd_hw noc_irq_ack w;
          w = upd_hw noc_irq_disable w
      in case session of
           None \<Rightarrow> Some w
         | Some p \<Rightarrow> if \<not> bar_active (barrier_of w p) then Some w else noc_rx_loop p w)"

text \<open>
  A point at which the environment may raise the NoC interrupt: it is taken when the source and
  \<open>mstatus.MIE\<close> are enabled.  Entry and exit of the trap save and restore \<open>mstatus\<close> and the trap CSRs.
\<close>

definition irq_point :: "bool \<Rightarrow> ('u, 'm) world \<Rightarrow> ('u, 'm) world option" where
  "irq_point irq w =
     (if irq \<and> noc_irq_is_enabled (w_hw w) \<and> hw_mstatus (w_hw w) AND MSTATUS_MIE \<noteq> 0
      then paicore_noc_handler w else Some w)"


section \<open>The receive barrier\<close>

definition start_rx_barrier ::
    "nat \<Rightarrow> ('u, 'm) rx_handler option \<Rightarrow> 'u option \<Rightarrow> ('u, 'm) world \<Rightarrow> ('u, 'm) world" where
  "start_rx_barrier p handler user_data w =
     (let w = upd_hw noc_irq_disable w;
          w = upd_hw noc_irq_ack w;
          w = upd_barrier p clear_rx_barrier w;
          w = upd_barrier p (\<lambda>b. b\<lparr>bar_handler := handler, bar_user_data := user_data\<rparr>) w;
          w = upd_barrier p (\<lambda>b. b\<lparr>bar_active := True\<rparr>) w
      in upd_hw noc_irq_enable w)"

text \<open>The end of the wait, after the loop was left through \<open>completed\<close>.\<close>

definition wait_rx_finish :: "nat \<Rightarrow> ('u, 'm) world \<Rightarrow> session_status \<times> ('u, 'm) world" where
  "wait_rx_finish p w =
     (let w = upd_hw noc_irq_disable w;
          w = upd_barrier p (\<lambda>b. b\<lparr>bar_active := False\<rparr>) w;
          b = barrier_of w p
      in if bar_overflow b then (RVRT_SESSION_OVERFLOW, w)
         else if bar_hardware_error b then (RVRT_SESSION_HARDWARE_ERROR, w)
         else if bar_handler_status b \<noteq> RVRT_SESSION_OK then (bar_handler_status b, w)
         else (RVRT_SESSION_OK, w))"

fun wait_rx_loop ::
    "nat \<Rightarrow> u64 \<Rightarrow> u64 \<Rightarrow> wait_poll list \<Rightarrow> ('u, 'm) world \<Rightarrow> (session_status \<times> ('u, 'm) world) option"
  where
  "wait_rx_loop p start_cycles limit_cycles [] w = None"
| "wait_rx_loop p start_cycles limit_cycles (poll # polls) w =
     (case irq_point (wp_irq poll) w of
        None \<Rightarrow> None
      | Some w \<Rightarrow>
          if bar_completed (barrier_of w p) then Some (wait_rx_finish p w)
          else if wp_cycle poll - start_cycles > limit_cycles then
            (case irq_point (wp_irq_late poll) w of
               None \<Rightarrow> None
             | Some w \<Rightarrow>
                 let w = upd_hw noc_irq_disable w in
                 if bar_completed (barrier_of w p) then Some (wait_rx_finish p w)
                 else Some (RVRT_SESSION_TIMEOUT,
                            upd_barrier p (\<lambda>b. b\<lparr>bar_active := False, bar_hardware_error := True\<rparr>) w))
          else wait_rx_loop p start_cycles limit_cycles polls w)"

definition wait_rx_barrier ::
    "nat \<Rightarrow> u32 \<Rightarrow> wait_env \<Rightarrow> ('u, 'm) world \<Rightarrow> (session_status \<times> ('u, 'm) world) option" where
  "wait_rx_barrier p timeout_ms env w =
     (let start_cycles = we_start env;
          limit_cycles = ucast (w_clock w div 1000) * ucast timeout_ms
      in wait_rx_loop p start_cycles limit_cycles (we_polls env) w)"

text \<open>The out parameters are \<open>None\<close> for \<open>NULL\<close>; \<open>*rx_frames\<close> is a pointer and so an option itself.\<close>

definition run_control_barrier ::
    "nat \<Rightarrow> rvrt_frame \<Rightarrow> u32 \<Rightarrow> bool \<Rightarrow> nat option option \<Rightarrow> u32 option \<Rightarrow> ('u, 'm) rx_handler option
       \<Rightarrow> 'u option \<Rightarrow> wait_env \<Rightarrow> ('u, 'm) world
       \<Rightarrow> (session_status \<times> nat option option \<times> u32 option \<times> ('u, 'm) world) option" where
  "run_control_barrier p control_frame timeout_ms is_sync_barrier rx_frames rx_frame_count handler
       user_data env w = do {
     let w = start_rx_barrier p handler user_data w;
     let w = upd_hw (noc_fifo_write_frame_words (fr_high control_frame) (fr_low control_frame)) w;
     (status, w) \<leftarrow> wait_rx_barrier p timeout_ms env w;
     let rx_frames = (case rx_frames of None \<Rightarrow> None | Some _ \<Rightarrow> Some (se_rx_frames (w_session w p)));
     let rx_frame_count = (case rx_frame_count of None \<Rightarrow> None | Some _ \<Rightarrow> Some (bar_rx_count (barrier_of w p)));
     let w = (if status \<noteq> RVRT_SESSION_OK then
                let w = upd_hw noc_irq_disable w;
                    w = upd_barrier p (\<lambda>b. b\<lparr>bar_active := False, bar_handler := None,
                                            bar_user_data := None\<rparr>) w
                in upd_session p (\<lambda>s. s\<lparr>se_faulted := True\<rparr>) w
              else w);
     Some (status, rx_frames, rx_frame_count, w)
   }"


section \<open>Transport operations\<close>

text \<open>The loop over the configuration frames, \<open>n\<close> of them left from index \<open>i\<close>.\<close>

fun load_config_loop ::
    "rvrt_artifact option \<Rightarrow> u32 \<Rightarrow> nat \<Rightarrow> noc_hw \<Rightarrow> (artifact_status \<times> noc_hw) option" where
  "load_config_loop artifact i 0 hw = Some (RVRT_ARTIFACT_OK, hw)"
| "load_config_loop artifact i (Suc n) hw =
     (case rvrt_artifact_config_frame_words artifact i (Some 0) (Some 0) of
        None \<Rightarrow> None
      | Some (artifact_status, high, low) \<Rightarrow>
          if artifact_status \<noteq> RVRT_ARTIFACT_OK then Some (artifact_status, hw)
          else load_config_loop artifact (i + 1) n
                 (noc_fifo_write_frame_words_unlocked (the high) (the low) hw))"

definition rvrt_session_load_config ::
    "nat option \<Rightarrow> ('u, 'm) world \<Rightarrow> (session_status \<times> ('u, 'm) world) option" where
  "rvrt_session_load_config session w =
     (case session of
        None \<Rightarrow> Some (RVRT_SESSION_RUNTIME_ERROR, w)
      | Some p \<Rightarrow>
          let s = w_session w p in
          (case se_artifact s of
             None \<Rightarrow> Some (RVRT_SESSION_RUNTIME_ERROR, w)
           | Some (addr, artifact) \<Rightarrow>
               if se_faulted s then Some (RVRT_SESSION_FAULTED, w)
               else if bar_active (se_barrier s) then Some (RVRT_SESSION_RUNTIME_ERROR, w)
               else
                 let (artifact_status, count) = rvrt_artifact_config_word_count (Some artifact) (Some 0);
                     word_count = the count
                 in if artifact_status \<noteq> RVRT_ARTIFACT_OK \<or> word_count = 0 \<or> word_count mod 2 \<noteq> 0
                    then Some (RVRT_SESSION_RUNTIME_ERROR, w)
                    else
                      let irq_was_enabled = noc_irq_is_enabled (w_hw w);
                          hw = noc_irq_disable (w_hw w);
                          frame_count = word_count div 2
                      in (case load_config_loop (Some artifact) 0 (unat frame_count) hw of
                            None \<Rightarrow> None
                          | Some (status, hw) \<Rightarrow>
                              let hw = (if irq_was_enabled then noc_irq_enable hw else hw)
                              in Some (if status \<noteq> RVRT_ARTIFACT_OK then RVRT_SESSION_RUNTIME_ERROR
                                       else RVRT_SESSION_OK, w\<lparr>w_hw := hw\<rparr>))))"

fun send_frames_loop :: "rvrt_frame list \<Rightarrow> nat \<Rightarrow> noc_hw \<Rightarrow> noc_hw option" where
  "send_frames_loop frames 0 hw = Some hw"
| "send_frames_loop [] (Suc n) hw = None"
| "send_frames_loop (f # frames) (Suc n) hw =
     send_frames_loop frames n (noc_fifo_write_frame_words_unlocked (fr_high f) (fr_low f) hw)"

definition rvrt_session_send_frames ::
    "nat option \<Rightarrow> rvrt_frame list option \<Rightarrow> u32 \<Rightarrow> ('u, 'm) world \<Rightarrow> (session_status \<times> ('u, 'm) world) option"
  where
  "rvrt_session_send_frames session frames frame_count w =
     (case session of
        None \<Rightarrow> Some (RVRT_SESSION_RUNTIME_ERROR, w)
      | Some p \<Rightarrow>
          let s = w_session w p in
          if se_artifact s = None \<or> (frame_count \<noteq> 0 \<and> frames = None)
          then Some (RVRT_SESSION_RUNTIME_ERROR, w)
          else if se_faulted s then Some (RVRT_SESSION_FAULTED, w)
          else if bar_active (se_barrier s) then Some (RVRT_SESSION_RUNTIME_ERROR, w)
          else
            let irq_was_enabled = noc_irq_is_enabled (w_hw w);
                hw = noc_irq_disable (w_hw w)
            in (case send_frames_loop (case frames of None \<Rightarrow> [] | Some fs \<Rightarrow> fs) (unat frame_count) hw of
                  None \<Rightarrow> None
                | Some hw \<Rightarrow>
                    let hw = (if irq_was_enabled then noc_irq_enable hw else hw)
                    in Some (RVRT_SESSION_OK, w\<lparr>w_hw := hw\<rparr>)))"


section \<open>Barriers\<close>

definition discard_reset_frame :: "('u, 'm) rx_handler" where
  "discard_reset_frame user_data frame mem = Some (RVRT_SESSION_OK, mem)"

definition zero_frame :: rvrt_frame where
  "zero_frame = \<lparr>fr_high = 0, fr_low = 0\<rparr>"

definition rvrt_session_reset_model ::
    "nat option \<Rightarrow> u32 \<Rightarrow> wait_env \<Rightarrow> ('u, 'm) world \<Rightarrow> (session_status \<times> ('u, 'm) world) option" where
  "rvrt_session_reset_model session timeout_ms env w =
     (case session of
        None \<Rightarrow> Some (RVRT_SESSION_RUNTIME_ERROR, w)
      | Some p \<Rightarrow>
          let s = w_session w p in
          (case se_artifact s of
             None \<Rightarrow> Some (RVRT_SESSION_RUNTIME_ERROR, w)
           | Some (addr, artifact) \<Rightarrow>
               if se_rx_frames s = None \<or> se_rx_capacity s = 0 then Some (RVRT_SESSION_RUNTIME_ERROR, w)
               else if se_faulted s then Some (RVRT_SESSION_FAULTED, w)
               else if bar_active (se_barrier s) then Some (RVRT_SESSION_RUNTIME_ERROR, w)
               else
                 (case rvrt_build_init_frame (Some artifact) (se_thread_index s) (Some zero_frame) of
                    (codec_status, init_frame) \<Rightarrow>
                      if codec_status \<noteq> RVRT_CODEC_STATUS_OK then Some (RVRT_SESSION_RUNTIME_ERROR, w)
                      else do {
                        (status, _, _, w) \<leftarrow> run_control_barrier p (the init_frame) timeout_ms False None None
                          (Some discard_reset_frame) None env w;
                        Some (status, if status = RVRT_SESSION_OK then upd_session p clear_sync_epoch w else w)
                      })))"

definition sync_wait_payload_impl ::
    "nat option \<Rightarrow> u32 \<Rightarrow> u32 \<Rightarrow> nat option option \<Rightarrow> u32 option \<Rightarrow> ('u, 'm) rx_handler option \<Rightarrow> 'u option
       \<Rightarrow> wait_env \<Rightarrow> ('u, 'm) world
       \<Rightarrow> (session_status \<times> nat option option \<times> u32 option \<times> ('u, 'm) world) option" where
  "sync_wait_payload_impl session sync_payload timeout_ms rx_frames rx_frame_count handler user_data env w =
     (case session of
        None \<Rightarrow> Some (RVRT_SESSION_RUNTIME_ERROR, rx_frames, rx_frame_count, w)
      | Some p \<Rightarrow>
          let s = w_session w p in
          (case se_artifact s of
             None \<Rightarrow> Some (RVRT_SESSION_RUNTIME_ERROR, rx_frames, rx_frame_count, w)
           | Some (addr, artifact) \<Rightarrow>
               if se_rx_frames s = None \<or> se_rx_capacity s = 0 \<or>
                  ((rx_frames = None \<or> rx_frame_count = None) \<and> (case handler of None \<Rightarrow> True | Some _ \<Rightarrow> False))
               then Some (RVRT_SESSION_RUNTIME_ERROR, rx_frames, rx_frame_count, w)
               else if se_faulted s then Some (RVRT_SESSION_FAULTED, rx_frames, rx_frame_count, w)
               else if bar_active (se_barrier s)
               then Some (RVRT_SESSION_RUNTIME_ERROR, rx_frames, rx_frame_count, w)
               else
                 let rx_frames = (case rx_frames of None \<Rightarrow> None | Some _ \<Rightarrow> Some None);
                     rx_frame_count = (case rx_frame_count of None \<Rightarrow> None | Some _ \<Rightarrow> Some 0)
                 in (case rvrt_build_sync_payload_frame (Some artifact) (se_thread_index s) sync_payload
                            (Some zero_frame) of
                       (codec_status, sync_frame) \<Rightarrow>
                         if codec_status \<noteq> RVRT_CODEC_STATUS_OK
                         then Some (RVRT_SESSION_RUNTIME_ERROR, rx_frames, rx_frame_count, w)
                         else run_control_barrier p (the sync_frame) timeout_ms True rx_frames rx_frame_count
                                handler user_data env w)))"

definition rvrt_session_sync_wait_payload ::
    "nat option \<Rightarrow> u32 \<Rightarrow> u32 \<Rightarrow> nat option option \<Rightarrow> u32 option \<Rightarrow> wait_env \<Rightarrow> ('u, 'm) world
       \<Rightarrow> (session_status \<times> nat option option \<times> u32 option \<times> ('u, 'm) world) option" where
  "rvrt_session_sync_wait_payload session sync_payload timeout_ms rx_frames rx_frame_count env w =
     (case session of
        None \<Rightarrow> Some (RVRT_SESSION_RUNTIME_ERROR, rx_frames, rx_frame_count, w)
      | Some p \<Rightarrow>
          if se_faulted (w_session w p) then Some (RVRT_SESSION_FAULTED, rx_frames, rx_frame_count, w)
          else if se_sync_mode (w_session w p) = RVRT_SESSION_SYNC_MODE_TIMELINE
          then Some (RVRT_SESSION_SYNC_MODE_ERROR, rx_frames, rx_frame_count, w)
          else do {
            (status, rx_frames, rx_frame_count, w) \<leftarrow>
              sync_wait_payload_impl session sync_payload timeout_ms rx_frames rx_frame_count None None env w;
            Some (status, rx_frames, rx_frame_count,
                  if status = RVRT_SESSION_OK
                  then upd_session p (\<lambda>s. s\<lparr>se_sync_mode := RVRT_SESSION_SYNC_MODE_RAW_PAYLOAD\<rparr>) w else w)
          })"

definition sync_wait_until_impl ::
    "nat option \<Rightarrow> u32 \<Rightarrow> u32 \<Rightarrow> nat option option \<Rightarrow> u32 option \<Rightarrow> ('u, 'm) rx_handler option \<Rightarrow> 'u option
       \<Rightarrow> wait_env \<Rightarrow> ('u, 'm) world
       \<Rightarrow> (session_status \<times> nat option option \<times> u32 option \<times> ('u, 'm) world) option" where
  "sync_wait_until_impl session completed_timesteps timeout_ms rx_frames rx_frame_count handler user_data
       env w =
     (case session of
        None \<Rightarrow> Some (RVRT_SESSION_RUNTIME_ERROR, rx_frames, rx_frame_count, w)
      | Some p \<Rightarrow>
          let s = w_session w p in
          if se_faulted s then Some (RVRT_SESSION_FAULTED, rx_frames, rx_frame_count, w)
          else if se_sync_mode s = RVRT_SESSION_SYNC_MODE_RAW_PAYLOAD \<or>
                  (se_sync_mode s = RVRT_SESSION_SYNC_MODE_TIMELINE \<and>
                   completed_timesteps \<le> se_completed_timesteps s)
          then Some (RVRT_SESSION_SYNC_MODE_ERROR, rx_frames, rx_frame_count, w)
          else do {
            let sync_payload = (if se_sync_mode s = RVRT_SESSION_SYNC_MODE_TIMELINE
                                then completed_timesteps - se_completed_timesteps s
                                else completed_timesteps);
            (status, rx_frames, rx_frame_count, w) \<leftarrow>
              sync_wait_payload_impl session sync_payload timeout_ms rx_frames rx_frame_count handler
                user_data env w;
            Some (status, rx_frames, rx_frame_count,
                  if status = RVRT_SESSION_OK
                  then upd_session p (\<lambda>s. s\<lparr>se_sync_mode := RVRT_SESSION_SYNC_MODE_TIMELINE,
                                            se_completed_timesteps := completed_timesteps\<rparr>) w
                  else w)
          })"

definition rvrt_session_sync_wait_until ::
    "nat option \<Rightarrow> u32 \<Rightarrow> u32 \<Rightarrow> nat option option \<Rightarrow> u32 option \<Rightarrow> wait_env \<Rightarrow> ('u, 'm) world
       \<Rightarrow> (session_status \<times> nat option option \<times> u32 option \<times> ('u, 'm) world) option" where
  "rvrt_session_sync_wait_until session completed_timesteps timeout_ms rx_frames rx_frame_count env w =
     sync_wait_until_impl session completed_timesteps timeout_ms rx_frames rx_frame_count None None env w"

definition rvrt_session_sync_wait_until_with_rx_handler ::
    "nat option \<Rightarrow> u32 \<Rightarrow> u32 \<Rightarrow> ('u, 'm) rx_handler option \<Rightarrow> 'u option \<Rightarrow> wait_env \<Rightarrow> ('u, 'm) world
       \<Rightarrow> (session_status \<times> ('u, 'm) world) option" where
  "rvrt_session_sync_wait_until_with_rx_handler session completed_timesteps timeout_ms handler user_data
       env w =
     (case handler of
        None \<Rightarrow> Some (RVRT_SESSION_RUNTIME_ERROR, w)
      | Some _ \<Rightarrow> do {
          (status, _, _, w) \<leftarrow>
            sync_wait_until_impl session completed_timesteps timeout_ms None None handler user_data env w;
          Some (status, w)
        })"

text \<open>Without statistics \<open>rvrt_session_get_stats\<close> reports a zeroed record.\<close>

record session_stats =
  st_enabled :: bool
  st_sent_frames :: u32
  st_config_frames :: u32
  st_input_frames :: u32
  st_rx_frames :: u32
  st_output_work_frames :: u32
  st_complete_frames :: u32
  st_sync_barriers :: u32
  st_overflow :: bool
  st_hardware_error :: bool
  st_sync_wait_cycles :: u64
  st_config_submit_cycles :: u64
  st_input_encode_cycles :: u64
  st_input_submit_cycles :: u64
  st_init_wait_cycles :: u64
  st_rx_irq_service_cycles :: u64
  st_rx_irq_count :: u32

definition zero_stats :: session_stats where
  "zero_stats = \<lparr>st_enabled = False, st_sent_frames = 0, st_config_frames = 0, st_input_frames = 0,
     st_rx_frames = 0, st_output_work_frames = 0, st_complete_frames = 0, st_sync_barriers = 0,
     st_overflow = False, st_hardware_error = False, st_sync_wait_cycles = 0,
     st_config_submit_cycles = 0, st_input_encode_cycles = 0, st_input_submit_cycles = 0,
     st_init_wait_cycles = 0, st_rx_irq_service_cycles = 0, st_rx_irq_count = 0\<rparr>"

definition rvrt_session_get_stats ::
    "nat option \<Rightarrow> session_stats option \<Rightarrow> ('u, 'm) world \<Rightarrow> session_status \<times> session_stats option" where
  "rvrt_session_get_stats session stats w =
     (case (session, stats) of
        (Some p, Some _) \<Rightarrow>
          if se_artifact (w_session w p) = None then (RVRT_SESSION_RUNTIME_ERROR, stats)
          else (RVRT_SESSION_OK, Some zero_stats)
      | _ \<Rightarrow> (RVRT_SESSION_RUNTIME_ERROR, stats))"

fun rvrt_session_status_string :: "session_status \<Rightarrow> string" where
  "rvrt_session_status_string RVRT_SESSION_OK = ''ok''"
| "rvrt_session_status_string RVRT_SESSION_TIMEOUT = ''timeout''"
| "rvrt_session_status_string RVRT_SESSION_BUFFER_TOO_SMALL = ''buffer too small''"
| "rvrt_session_status_string RVRT_SESSION_OVERFLOW = ''overflow''"
| "rvrt_session_status_string RVRT_SESSION_HARDWARE_ERROR = ''hardware error''"
| "rvrt_session_status_string RVRT_SESSION_RUNTIME_ERROR = ''runtime error''"
| "rvrt_session_status_string RVRT_SESSION_SYNC_MODE_ERROR = ''sync mode error''"
| "rvrt_session_status_string RVRT_SESSION_SCHEDULE_UNSUPPORTED = ''schedule unsupported''"
| "rvrt_session_status_string RVRT_SESSION_FAULTED = ''session faulted''"
| "rvrt_session_status_string RVRT_SESSION_BUSY = ''session busy''"

end
