(* ===== verification/SessionIo.thy ===== *)
theory SessionIo
  imports Session
begin

text \<open>
  Input submission, \<open>Lib/runtime/session_io.c\<close>: the loop that encodes a timestep in chunks of the
  caller's workspace and sends each chunk.  The workspace is the buffer of frames the caller passes;
  its final contents are returned.
\<close>

text \<open>
  The loop \<open>while (1)\<close> with a bound on its rounds: a run that outlives the bound has no result.
  \<open>SessionIo_Laws\<close> shows that as many rounds as the input has frames, plus one, always suffice.
\<close>

fun send_input_loop ::
    "nat \<Rightarrow> nat \<Rightarrow> rvrt_artifact_input_mapping_view \<Rightarrow> rvrt_input_cursor \<Rightarrow> u8 list \<Rightarrow> u32 \<Rightarrow> rvrt_frame list
       \<Rightarrow> u32 \<Rightarrow> ('u, 'm) world \<Rightarrow> (session_status \<times> rvrt_frame list \<times> ('u, 'm) world) option" where
  "send_input_loop 0 p mapping cursor input input_size workspace workspace_capacity w = None"
| "send_input_loop (Suc rounds) p mapping cursor input input_size workspace workspace_capacity w =
     (case rvrt_encode_input_chunk (Some mapping) (Some cursor) (Some input) input_size (Some workspace)
             workspace_capacity (Some 0) of
        None \<Rightarrow> None
      | Some (codec_status, cursor', workspace', count) \<Rightarrow>
          let frame_count = the count in
          if (codec_status \<noteq> RVRT_CODEC_STATUS_DONE \<and> codec_status \<noteq> RVRT_CODEC_STATUS_BUFFER_FULL) \<or>
             (codec_status = RVRT_CODEC_STATUS_BUFFER_FULL \<and> frame_count = 0)
          then Some (RVRT_SESSION_RUNTIME_ERROR, the workspace', w)
          else
            (case rvrt_session_send_frames (Some p) workspace' frame_count w of
               None \<Rightarrow> None
             | Some (send_status, w) \<Rightarrow>
                 if send_status \<noteq> RVRT_SESSION_OK then Some (send_status, the workspace', w)
                 else if codec_status = RVRT_CODEC_STATUS_DONE
                 then Some (RVRT_SESSION_OK, the workspace', w)
                 else send_input_loop rounds p mapping (the cursor') input input_size (the workspace')
                        workspace_capacity w))"

definition rvrt_session_send_input_timestep ::
    "nat \<Rightarrow> nat option \<Rightarrow> rvrt_artifact_input_mapping_view option \<Rightarrow> u32 \<Rightarrow> u8 list option \<Rightarrow> u32
       \<Rightarrow> rvrt_frame list option \<Rightarrow> u32 \<Rightarrow> ('u, 'm) world
       \<Rightarrow> (session_status \<times> rvrt_frame list option \<times> ('u, 'm) world) option" where
  "rvrt_session_send_input_timestep rounds session mapping timestep input input_size workspace
       workspace_capacity w =
     (case (session, mapping, input, workspace) of
        (Some p, Some m, Some i, Some ws) \<Rightarrow>
          if workspace_capacity = 0 then Some (RVRT_SESSION_RUNTIME_ERROR, workspace, w)
          else if se_faulted (w_session w p) then Some (RVRT_SESSION_FAULTED, workspace, w)
          else do {
            let cursor = the (rvrt_input_cursor_init (Some \<lparr>cu_entry_index = 0, cu_timestep = 0\<rparr>) timestep);
            (status, ws, w) \<leftarrow> send_input_loop rounds p m cursor i input_size ws workspace_capacity w;
            Some (status, Some ws, w)
          }
      | _ \<Rightarrow> Some (RVRT_SESSION_RUNTIME_ERROR, workspace, w))"

end
