(* ===== verification/Runner.thy ===== *)
theory Runner
  imports SessionIo
begin

text \<open>
  The sample runner, \<open>Lib/runtime/paicore_runner.{c,h}\<close>, in the default build
  (\<open>RVRT_ENABLE_STATS == 0\<close>, logging compiled out).

  The memory of the samples is one list of bytes indexed by address, so that input and output may
  overlap as the code allows; a sample pointer is an address.  A region handed to the codec is the
  part of the list it covers, and what the codec returns is put back.  The lane state of VOLTAGE
  outputs is a separate buffer named by an identifier.  The session embedded in the runner is the
  session object of the world with the runner's identifier, which also names \<open>&runner->artifact\<close>.
\<close>

section \<open>State\<close>

record runner_mem =
  mm_bytes :: "u8 list"
  mm_state :: "nat \<Rightarrow> u8 list"

record paicore_runner =
  rn_artifact :: rvrt_artifact
  rn_input_view :: rvrt_artifact_input_mapping_view
  rn_output_view :: rvrt_artifact_output_mapping_view
  rn_runtime :: rvrt_artifact_runtime
  rn_voltage_state :: "nat option"
  rn_voltage_state_capacity :: u32
  rn_timeout_ms :: u32
  rn_encode_frame_capacity :: u32
  rn_input_row_bytes :: u32
  rn_output_row_bytes :: u32
  rn_has_fast_data_layout :: bool
  rn_has_fast_voltage_layout :: bool

definition zero_runner :: paicore_runner where
  "zero_runner = \<lparr>rn_artifact = zero_artifact, rn_input_view = zero_input_view,
     rn_output_view = zero_output_view, rn_runtime = zero_runtime, rn_voltage_state = None,
     rn_voltage_state_capacity = 0, rn_timeout_ms = 0, rn_encode_frame_capacity = 0,
     rn_input_row_bytes = 0, rn_output_row_bytes = 0, rn_has_fast_data_layout = False,
     rn_has_fast_voltage_layout = False\<rparr>"

text \<open>\<open>artifact_data\<close> carries its address, its bytes and \<open>artifact_size\<close>.\<close>

record deploy_config =
  dp_artifact_data :: "(u32 \<times> u8 list) option"
  dp_artifact_size :: u32
  dp_frame_buffer :: "nat option"
  dp_frame_capacity :: u32
  dp_voltage_state :: "nat option"
  dp_voltage_state_capacity :: u32
  dp_timeout_ms :: u32

record decode_context =
  dc_runner :: "paicore_runner option"
  dc_output :: u32
  dc_output_capacity :: u32
  dc_output_stride :: u32
  dc_submitted_timesteps :: u32

text \<open>The bytes of a region, and a region put back.\<close>

definition region :: "u32 \<Rightarrow> u32 \<Rightarrow> u8 list \<Rightarrow> u8 list" where
  "region a n bytes = take (unat n) (drop (unat a) bytes)"

definition put_region :: "u32 \<Rightarrow> u8 list \<Rightarrow> u8 list \<Rightarrow> u8 list" where
  "put_region a xs bytes = take (unat a) bytes @ xs @ drop (unat a + length xs) bytes"

text \<open>\<open>memset(p, 0, n)\<close> on the first \<open>n\<close> elements of a buffer.\<close>

definition zero_prefix :: "u32 \<Rightarrow> u8 list \<Rightarrow> u8 list option" where
  "zero_prefix n xs =
     (if unat n \<le> length xs then Some (replicate (unat n) 0 @ drop (unat n) xs) else None)"

definition zero_region :: "u32 \<Rightarrow> u32 \<Rightarrow> u8 list \<Rightarrow> u8 list option" where
  "zero_region a n bytes =
     (if unat a + unat n \<le> length bytes then Some (put_region a (replicate (unat n) 0) bytes) else None)"

abbreviation RUN_VOLT_LANE_ADDR_SHIFT :: nat where "RUN_VOLT_LANE_ADDR_SHIFT \<equiv> 3"
abbreviation RUN_VOLT_LANE_STRIDE :: u32 where "RUN_VOLT_LANE_STRIDE \<equiv> 8"
abbreviation RUN_VOLT_GROUP_SIZE :: u32 where "RUN_VOLT_GROUP_SIZE \<equiv> 8"
abbreviation RUN_VOLT_GROUP_PITCH :: u32 where "RUN_VOLT_GROUP_PITCH \<equiv> 32"
abbreviation RUN_VOLT_GROUP_SIZE_SHIFT :: nat where "RUN_VOLT_GROUP_SIZE_SHIFT \<equiv> 3"
abbreviation RUN_VOLT_GROUP_PITCH_SHIFT :: nat where "RUN_VOLT_GROUP_PITCH_SHIFT \<equiv> 5"
abbreviation RUN_DATA_UINT1 :: u32 where "RUN_DATA_UINT1 \<equiv> 1"


section \<open>Layouts\<close>

text \<open>The key the fast layouts expect for an element.\<close>

definition expected_axon :: "bool \<Rightarrow> u32 \<Rightarrow> u32" where
  "expected_axon is_voltage element =
     (if is_voltage
      then push_bit RUN_VOLT_GROUP_PITCH_SHIFT (drop_bit RUN_VOLT_LANE_ADDR_SHIFT element) OR
           (element AND (RUN_VOLT_GROUP_SIZE - 1))
      else element)"

text \<open>
  The loop over the elements, \<open>n\<close> of them left from \<open>element\<close>: the early return, or \<open>None\<close> when every
  element has its expected key.
\<close>

fun fast_layout_loop ::
    "rvrt_artifact_output_mapping_view \<Rightarrow> bool \<Rightarrow> u32 \<Rightarrow> nat \<Rightarrow> session_status option" where
  "fast_layout_loop view is_voltage element 0 = None"
| "fast_layout_loop view is_voltage element (Suc n) =
     (let axon = expected_axon is_voltage element;
          (status, entry, found) =
            rvrt_artifact_output_mapping_find (Some view) axon (Some zero_output_entry) (Some False)
      in if status \<noteq> RVRT_ARTIFACT_OK \<or> found \<noteq> Some True then Some RVRT_SESSION_RUNTIME_ERROR
         else if out_elem_idx (the entry) \<noteq> element \<or> out_axon_bit_idx (the entry) \<noteq> axon
         then Some RVRT_SESSION_OK
         else fast_layout_loop view is_voltage (element + 1) n)"

definition configure_fast_layout :: "paicore_runner \<Rightarrow> session_status \<times> paicore_runner" where
  "configure_fast_layout runner =
     (let runner = runner\<lparr>rn_has_fast_data_layout := False, rn_has_fast_voltage_layout := False\<rparr>;
          view = rn_output_view runner;
          is_data = (ov_kind view = RVRT_OUTPUT_DATA \<and> ov_dtype view = RUN_DATA_UINT1);
          is_voltage = (ov_kind view = RVRT_OUTPUT_VOLTAGE \<and> ov_dtype view = RVRT_DTYPE_VOLTAGE_INT32)
      in if (\<not> is_data \<and> \<not> is_voltage) \<or> ov_entry_count view \<noteq> ov_element_count view \<or>
            ov_element_count view = 0
         then (RVRT_SESSION_OK, runner)
         else (case fast_layout_loop view is_voltage 0 (unat (ov_element_count view)) of
                 Some status \<Rightarrow> (status, runner)
               | None \<Rightarrow> (RVRT_SESSION_OK,
                          runner\<lparr>rn_has_fast_data_layout := is_data,
                                 rn_has_fast_voltage_layout := is_voltage\<rparr>)))"


section \<open>Receive handlers\<close>

definition runner_validate_frame_timestep :: "decode_context \<Rightarrow> rvrt_frame \<Rightarrow> session_status" where
  "runner_validate_frame_timestep decode frame =
     (if \<not> rvrt_frame_is_work (Some frame) then RVRT_SESSION_OK
      else (case rvrt_output_frame_address (rn_output_view (the (dc_runner decode))) frame of
              Inl _ \<Rightarrow> RVRT_SESSION_OK
            | Inr (timestep, axon_bit_idx) \<Rightarrow>
                if timestep < dc_submitted_timesteps decode then RVRT_SESSION_OK
                else RVRT_SESSION_RUNTIME_ERROR))"

text \<open>A stride of zero is a division by zero: the value \<open>None\<close>.\<close>

definition runner_decode_data_fast_frame ::
    "paicore_runner \<Rightarrow> rvrt_frame \<Rightarrow> u8 list \<Rightarrow> u32 \<Rightarrow> u32 \<Rightarrow> u32 \<Rightarrow> (codec_status \<times> u8 list) option" where
  "runner_decode_data_fast_frame runner frame output output_capacity output_stride submitted_timesteps =
     (if \<not> rvrt_frame_is_work (Some frame) \<or>
         drop_bit RVRT_FRAME_WORK_KIND_OFFSET (fr_high frame) AND 1 \<noteq> RVRT_FRAME_WORK_KIND_DATA
      then Some (RVRT_CODEC_STATUS_OK, output)
      else
        (case rvrt_output_frame_address (rn_output_view runner) frame of
           Inl _ \<Rightarrow> Some (RVRT_CODEC_STATUS_OK, output)
         | Inr (timestep, axon_bit_idx) \<Rightarrow>
             if timestep \<ge> submitted_timesteps then Some (RVRT_CODEC_STATUS_OUT_OF_RANGE, output)
             else if timestep \<ge> rt_timesteps (rn_runtime runner) \<or>
                     axon_bit_idx \<ge> ov_element_count (rn_output_view runner)
             then Some (RVRT_CODEC_STATUS_OK, output)
             else if output_stride = 0 then None
             else if timestep > (SIZE_MAX - axon_bit_idx) div output_stride
             then Some (RVRT_CODEC_STATUS_OK, output)
             else
               let payload = fr_low frame AND 0xFF
               in if payload AND NOT 1 \<noteq> 0 then Some (RVRT_CODEC_STATUS_OK, output)
                  else
                    let output_index = timestep * output_stride + axon_bit_idx
                    in if output_index \<ge> output_capacity
                       then Some (RVRT_CODEC_STATUS_OUT_OF_RANGE, output)
                       else do {
                         output \<leftarrow> wr output output_index (ucast payload);
                         Some (RVRT_CODEC_STATUS_OK, output)
                       }))"

definition runner_decode_voltage_fast_frame ::
    "paicore_runner \<Rightarrow> rvrt_frame \<Rightarrow> u8 list \<Rightarrow> u32 \<Rightarrow> u32 \<Rightarrow> u32 \<Rightarrow> u8 list
       \<Rightarrow> (codec_status \<times> u8 list \<times> u8 list) option" where
  "runner_decode_voltage_fast_frame runner frame output output_capacity output_stride submitted_timesteps
       voltage_state =
     (if \<not> rvrt_frame_is_work (Some frame) \<or>
         drop_bit RVRT_FRAME_WORK_KIND_OFFSET (fr_high frame) AND 1 \<noteq> RVRT_FRAME_WORK_KIND_VOLTAGE
      then Some (RVRT_CODEC_STATUS_OK, output, voltage_state)
      else
        (case rvrt_output_frame_address (rn_output_view runner) frame of
           Inl _ \<Rightarrow> Some (RVRT_CODEC_STATUS_OK, output, voltage_state)
         | Inr (timestep, axon_bit_idx) \<Rightarrow>
             if timestep \<ge> submitted_timesteps
             then Some (RVRT_CODEC_STATUS_OUT_OF_RANGE, output, voltage_state)
             else if timestep \<ge> rt_timesteps (rn_runtime runner)
             then Some (RVRT_CODEC_STATUS_OK, output, voltage_state)
             else
               let group = drop_bit RUN_VOLT_GROUP_PITCH_SHIFT axon_bit_idx;
                   within_group = axon_bit_idx AND (RUN_VOLT_GROUP_PITCH - 1);
                   element = push_bit RUN_VOLT_GROUP_SIZE_SHIFT group OR
                             (within_group AND (RUN_VOLT_LANE_STRIDE - 1));
                   lane = drop_bit RUN_VOLT_LANE_ADDR_SHIFT within_group
               in if lane \<ge> RVRT_VOLT_LANE_COUNT \<or> element \<ge> ov_element_count (rn_output_view runner)
                  then Some (RVRT_CODEC_STATUS_OK, output, voltage_state)
                  else
                    let output_index = timestep * (output_stride div 4) + element;
                        state_index = timestep * ov_element_count (rn_output_view runner) + element
                    in do {
                      (status, output, voltage_state, _) \<leftarrow>
                        rvrt_store_voltage_lane output output_index (output_capacity div 4) voltage_state
                          state_index (rn_voltage_state_capacity runner) lane
                          (ucast (fr_low frame AND RVRT_WF_PAYLOAD_MASK)) None;
                      Some (status, output, voltage_state)
                    }))"

definition runner_handle_codec_result :: "codec_status \<Rightarrow> session_status" where
  "runner_handle_codec_result status =
     (if status = RVRT_CODEC_STATUS_OK then RVRT_SESSION_OK else RVRT_SESSION_RUNTIME_ERROR)"

text \<open>The state buffer of the runner; \<open>NULL\<close> when it has none.\<close>

definition runner_state :: "paicore_runner \<Rightarrow> runner_mem \<Rightarrow> u8 list option" where
  "runner_state runner mem = map_option (mm_state mem) (rn_voltage_state runner)"

definition put_state :: "paicore_runner \<Rightarrow> u8 list option \<Rightarrow> runner_mem \<Rightarrow> runner_mem" where
  "put_state runner state mem =
     (case (rn_voltage_state runner, state) of
        (Some b, Some st) \<Rightarrow> mem\<lparr>mm_state := (mm_state mem)(b := st)\<rparr>
      | _ \<Rightarrow> mem)"

definition put_output :: "decode_context \<Rightarrow> u8 list \<Rightarrow> runner_mem \<Rightarrow> runner_mem" where
  "put_output decode output mem = mem\<lparr>mm_bytes := put_region (dc_output decode) output (mm_bytes mem)\<rparr>"

definition decode_output :: "decode_context \<Rightarrow> runner_mem \<Rightarrow> u8 list" where
  "decode_output decode mem = region (dc_output decode) (dc_output_capacity decode) (mm_bytes mem)"

definition runner_handle_generic_frame :: "(decode_context, runner_mem) rx_handler" where
  "runner_handle_generic_frame user_data frame mem =
     (case user_data of
        None \<Rightarrow> Some (RVRT_SESSION_RUNTIME_ERROR, mem)
      | Some decode \<Rightarrow>
          (case dc_runner decode of
             None \<Rightarrow> Some (RVRT_SESSION_RUNTIME_ERROR, mem)
           | Some runner \<Rightarrow>
               let timestamp_status = runner_validate_frame_timestep decode frame
               in if timestamp_status \<noteq> RVRT_SESSION_OK then Some (timestamp_status, mem)
                  else do {
                    (status, output, state) \<leftarrow>
                      rvrt_decode_output_frames_incremental (Some (rn_output_view runner)) (Some [frame]) 1
                        (rt_timesteps (rn_runtime runner)) (Some (decode_output decode mem))
                        (dc_output_capacity decode) (dc_output_stride decode) (runner_state runner mem)
                        (rn_voltage_state_capacity runner);
                    Some (runner_handle_codec_result status,
                          put_state runner state (put_output decode (the output) mem))
                  }))"

text \<open>A fast VOLTAGE frame without a state buffer would write through \<open>NULL\<close>.\<close>

definition runner_handle_voltage_fast_frame :: "(decode_context, runner_mem) rx_handler" where
  "runner_handle_voltage_fast_frame user_data frame mem =
     (case user_data of
        None \<Rightarrow> Some (RVRT_SESSION_RUNTIME_ERROR, mem)
      | Some decode \<Rightarrow>
          (case dc_runner decode of
             None \<Rightarrow> Some (RVRT_SESSION_RUNTIME_ERROR, mem)
           | Some runner \<Rightarrow> do {
               (status, output, state) \<leftarrow>
                 runner_decode_voltage_fast_frame runner frame (decode_output decode mem)
                   (dc_output_capacity decode) (dc_output_stride decode) (dc_submitted_timesteps decode)
                   (case runner_state runner mem of None \<Rightarrow> [] | Some st \<Rightarrow> st);
               Some (runner_handle_codec_result status,
                     put_state runner (Some state) (put_output decode output mem))
             }))"

definition runner_handle_data_fast_frame :: "(decode_context, runner_mem) rx_handler" where
  "runner_handle_data_fast_frame user_data frame mem =
     (case user_data of
        None \<Rightarrow> Some (RVRT_SESSION_RUNTIME_ERROR, mem)
      | Some decode \<Rightarrow>
          (case dc_runner decode of
             None \<Rightarrow> Some (RVRT_SESSION_RUNTIME_ERROR, mem)
           | Some runner \<Rightarrow> do {
               (status, output) \<leftarrow>
                 runner_decode_data_fast_frame runner frame (decode_output decode mem)
                   (dc_output_capacity decode) (dc_output_stride decode) (dc_submitted_timesteps decode);
               Some (runner_handle_codec_result status, put_output decode output mem)
             }))"

definition runner_rx_frame_handler :: "paicore_runner \<Rightarrow> (decode_context, runner_mem) rx_handler" where
  "runner_rx_frame_handler runner =
     (if rn_has_fast_data_layout runner then runner_handle_data_fast_frame
      else if rn_has_fast_voltage_layout runner then runner_handle_voltage_fast_frame
      else runner_handle_generic_frame)"



section \<open>Regions and schedules\<close>

definition runner_session_failure :: "string \<Rightarrow> u32 \<Rightarrow> session_status \<Rightarrow> session_status" where
  "runner_session_failure operation completed_timesteps status = status"

definition sample_region_fits :: "u32 \<Rightarrow> u32 \<Rightarrow> u32 \<Rightarrow> u32 \<Rightarrow> bool" where
  "sample_region_fits total_size row_size stride timesteps =
     (if row_size = 0 \<or> stride < row_size \<or> timesteps = 0 then False
      else
        let rows_before_last = timesteps - 1
        in rows_before_last \<le> (SIZE_MAX - row_size) div stride \<and>
           rows_before_last * stride + row_size \<le> total_size)"

definition sample_regions_overlap :: "u32 \<Rightarrow> u32 \<Rightarrow> u32 \<Rightarrow> u32 \<Rightarrow> bool" where
  "sample_regions_overlap left_begin left_size right_begin right_size =
     (if left_size = 0 \<or> right_size = 0 \<or> left_begin > UINT32_MAX - left_size \<or>
         right_begin > UINT32_MAX - right_size
      then left_size \<noteq> 0 \<and> right_size \<noteq> 0
      else left_begin < right_begin + right_size \<and> right_begin < left_begin + left_size)"

text \<open>The loop over the input entries, \<open>n\<close> of them left from \<open>index\<close>.\<close>

fun input_schedule_loop ::
    "rvrt_artifact_input_mapping_view \<Rightarrow> u32 \<Rightarrow> u32 \<Rightarrow> nat \<Rightarrow> session_status option" where
  "input_schedule_loop view total_timesteps index 0 = Some RVRT_SESSION_OK"
| "input_schedule_loop view total_timesteps index (Suc n) =
     (case rvrt_artifact_input_mapping_entry (Some view) index (Some zero_input_entry) of
        None \<Rightarrow> None
      | Some (status, entry) \<Rightarrow>
          if status \<noteq> RVRT_ARTIFACT_OK then Some RVRT_SESSION_RUNTIME_ERROR
          else if in_target_lcn (the entry) \<ge> 8 then Some RVRT_SESSION_RUNTIME_ERROR
          else if in_tick_relative (the entry) \<ge> push_bit (unat (in_target_lcn (the entry))) 1
          then Some RVRT_SESSION_RUNTIME_ERROR
          else if total_timesteps > push_bit (unat (8 - in_target_lcn (the entry))) 1
          then Some RVRT_SESSION_SCHEDULE_UNSUPPORTED
          else input_schedule_loop view total_timesteps (index + 1) n)"

definition validate_input_schedule ::
    "rvrt_artifact_input_mapping_view option \<Rightarrow> u32 \<Rightarrow> session_status option" where
  "validate_input_schedule view total_timesteps =
     (case view of
        None \<Rightarrow> Some RVRT_SESSION_RUNTIME_ERROR
      | Some v \<Rightarrow>
          if iv_entries v = None \<or> iv_entry_count v = 0 then Some RVRT_SESSION_RUNTIME_ERROR
          else input_schedule_loop v total_timesteps 0 (unat (iv_entry_count v)))"

definition voltage_state_capacity :: "u32 \<Rightarrow> u32 \<Rightarrow> u32 option \<Rightarrow> bool \<times> u32 option" where
  "voltage_state_capacity timesteps element_count required_out =
     (if timesteps = 0 \<or> element_count = 0 \<or> timesteps > UINT32_MAX div element_count \<or>
         required_out = None
      then (False, required_out)
      else (True, Some (timesteps * element_count)))"


section \<open>Deployment\<close>

text \<open>
  \<open>failure_status\<close> holds the result of \<open>rvrt_session_init\<close>, that is \<open>OK\<close>, from there on, and the
  jumps to \<open>runtime_error\<close> that do not set it return it: the model returns \<open>init_status\<close> there as the
  code does.  \<open>memset(runner, 0, sizeof *runner)\<close> clears the embedded session with the runner.  The label
  \<open>runtime_error\<close>: deinitialise the session if it was initialised, clear, and return the failure.
\<close>

definition runner_deploy_fail ::
    "nat \<Rightarrow> bool \<Rightarrow> session_status \<Rightarrow> ('u, 'm) world \<Rightarrow> session_status \<times> paicore_runner \<times> ('u, 'm) world" where
  "runner_deploy_fail p session_initialized failure_status w =
     (let w = (if session_initialized then snd (rvrt_session_deinit (Some p) w) else w)
      in (failure_status, zero_runner, set_session p zero_session w))"

text \<open>The checks on the metadata of the artifact, and the size of an output row.\<close>

definition runner_artifact_ok ::
    "rvrt_artifact_runtime \<Rightarrow> rvrt_artifact_input_mapping_view \<Rightarrow> rvrt_artifact_output_mapping_view \<Rightarrow> bool"
  where
  "runner_artifact_ok rt iv ov \<longleftrightarrow>
     \<not> (rt_timesteps rt = 0 \<or> rt_pipeline_latency rt = 0 \<or>
        rt_output_time_encoding rt \<noteq> RVRT_OUTPUT_TIME_ENCODING_STREAM \<or>
        rt_timesteps rt > UINT32_MAX - rt_pipeline_latency rt + 1 \<or>
        rt_completion_sync_timestep rt \<noteq> rt_pipeline_latency rt + rt_timesteps rt - 1 \<or>
        rt_completion_sync_timestep rt > 0xFFFFFF \<or> iv_element_count iv = 0 \<or>
        ov_element_count ov = 0 \<or> ov_target_lcn ov > 7)"

definition runner_output_row_bytes :: "rvrt_artifact_output_mapping_view \<Rightarrow> u32 option" where
  "runner_output_row_bytes ov =
     (if ov_kind ov = RVRT_OUTPUT_DATA then Some (ov_element_count ov)
      else if ov_kind ov = RVRT_OUTPUT_VOLTAGE then
        (if ov_element_count ov > SIZE_MAX div 4 then None else Some (ov_element_count ov * 4))
      else None)"

text \<open>
  From the claimed session to the configuration transfer, where only the runner changes: \<open>Inl\<close> is a jump
  to \<open>runtime_error\<close> with that \<open>failure_status\<close>, \<open>Inr\<close> the prepared runner.
\<close>

definition runner_deploy_prepare ::
    "deploy_config \<Rightarrow> session_status \<Rightarrow> paicore_runner \<Rightarrow> (session_status + paicore_runner) option" where
  "runner_deploy_prepare cfg failure_status r =
     (let artifact = Some (rn_artifact r);
          (runtime_status, rt) = rvrt_artifact_thread_runtime artifact 0 (Some (rn_runtime r))
      in if runtime_status \<noteq> RVRT_ARTIFACT_OK then Some (Inl failure_status)
         else
      let (input_status, iv) = rvrt_artifact_get_input_mapping_view artifact 0 0 (Some (rn_input_view r))
      in if input_status \<noteq> RVRT_ARTIFACT_OK then Some (Inl failure_status)
         else do {
           (output_status, ov) \<leftarrow> rvrt_artifact_get_output_mapping_view artifact 0 0 (Some (rn_output_view r));
           if output_status \<noteq> RVRT_ARTIFACT_OK \<or> \<not> runner_artifact_ok (the rt) (the iv) (the ov)
           then Some (Inl failure_status)
           else
             let r = r\<lparr>rn_runtime := the rt, rn_input_view := the iv, rn_output_view := the ov,
                       rn_input_row_bytes := iv_element_count (the iv)\<rparr>
             in (case runner_output_row_bytes (the ov) of
                   None \<Rightarrow> Some (Inl failure_status)
                 | Some row_bytes \<Rightarrow> do {
                     let r = r\<lparr>rn_output_row_bytes := row_bytes\<rparr>;
                     input_window_status \<leftarrow> validate_input_schedule (Some (the iv)) (rt_timesteps (the rt));
                     if input_window_status \<noteq> RVRT_SESSION_OK then Some (Inl input_window_status)
                     else
                       let required = voltage_state_capacity (rt_timesteps (the rt)) (ov_element_count (the ov)) (Some 0)
                       in if ov_kind (the ov) = RVRT_OUTPUT_VOLTAGE \<and>
                             (\<not> fst required \<or> dp_voltage_state cfg = None \<or>
                              dp_voltage_state_capacity cfg < the (snd required))
                          then Some (Inl RVRT_SESSION_BUFFER_TOO_SMALL)
                          else
                            (case configure_fast_layout r of
                               (layout_status, r) \<Rightarrow>
                                 if layout_status \<noteq> RVRT_SESSION_OK then Some (Inl failure_status)
                                 else Some (Inr (r\<lparr>rn_voltage_state := dp_voltage_state cfg,
                                                   rn_voltage_state_capacity := dp_voltage_state_capacity cfg,
                                                   rn_timeout_ms := dp_timeout_ms cfg,
                                                   rn_encode_frame_capacity := dp_frame_capacity cfg\<rparr>)))
                   })
         })"

definition rvrt_paicore_runner_deploy ::
    "(u8 list \<Rightarrow> u32 \<Rightarrow> bool) \<Rightarrow> (u8 list \<Rightarrow> fbs_CompileArtifacts) \<Rightarrow> int \<Rightarrow> (nat \<times> paicore_runner) option
       \<Rightarrow> deploy_config option \<Rightarrow> ('u, 'm) world
       \<Rightarrow> (session_status \<times> paicore_runner option \<times> ('u, 'm) world) option" where
  "rvrt_paicore_runner_deploy verify get_root register_result runner config w =
     (case (runner, config) of
        (Some (p, r0), Some cfg) \<Rightarrow>
          let (release_status, w) = rvrt_session_deinit (Some p) w
          in if release_status \<noteq> RVRT_SESSION_OK then Some (release_status, Some r0, w)
          else
            let w = set_session p zero_session w;
                r = zero_runner;
                fail = (\<lambda>initialized st w. case runner_deploy_fail p initialized st w of
                          (st, r, w) \<Rightarrow> Some (st, Some r, w))
            in if dp_artifact_data cfg = None \<or> dp_frame_buffer cfg = None \<or> dp_frame_capacity cfg = 0 \<or>
                  dp_timeout_ms cfg = 0
               then fail False RVRT_SESSION_RUNTIME_ERROR w
               else
            let (artifact_status, artifact) =
                  rvrt_artifact_read verify get_root (dp_artifact_data cfg) (dp_artifact_size cfg) (Some (rn_artifact r))
            in if artifact_status \<noteq> RVRT_ARTIFACT_OK then fail False RVRT_SESSION_RUNTIME_ERROR w
               else
            let r = r\<lparr>rn_artifact := the artifact\<rparr>;
                session_config = \<lparr>cfg_artifact = Some (p, the artifact), cfg_thread_index = 0,
                  cfg_rx_frames = dp_frame_buffer cfg, cfg_rx_capacity = dp_frame_capacity cfg\<rparr>;
                (failure_status, w) = rvrt_session_init register_result (Some p) (Some session_config) w
            in if failure_status \<noteq> RVRT_SESSION_OK then fail False failure_status w
               else
                 (case runner_deploy_prepare cfg failure_status r of
                    None \<Rightarrow> None
                  | Some (Inl failure_status) \<Rightarrow> fail True failure_status w
                  | Some (Inr r) \<Rightarrow>
                      (case rvrt_session_load_config (Some p) w of
                         None \<Rightarrow> None
                       | Some (load_status, w) \<Rightarrow>
                           if load_status \<noteq> RVRT_SESSION_OK then fail True load_status w
                           else Some (RVRT_SESSION_OK, Some r, w)))
      | _ \<Rightarrow> Some (RVRT_SESSION_RUNTIME_ERROR, map_option snd runner, w))"

definition rvrt_paicore_runner_release ::
    "(nat \<times> paicore_runner) option \<Rightarrow> ('u, 'm) world
       \<Rightarrow> session_status \<times> paicore_runner option \<times> ('u, 'm) world" where
  "rvrt_paicore_runner_release runner w =
     (case runner of
        None \<Rightarrow> (RVRT_SESSION_RUNTIME_ERROR, None, w)
      | Some (p, r) \<Rightarrow>
          let (status, w) = rvrt_session_deinit (Some p) w
          in if status = RVRT_SESSION_OK then (status, Some zero_runner, set_session p zero_session w)
             else (status, Some r, w))"

text \<open>\<open>runner->session.artifact != &runner->artifact\<close>.\<close>

definition runner_deployed :: "nat \<Rightarrow> ('u, 'm) world \<Rightarrow> bool" where
  "runner_deployed p w \<longleftrightarrow> map_option fst (se_artifact (w_session w p)) = Some p"

definition rvrt_paicore_runner_get_stats ::
    "(nat \<times> paicore_runner) option \<Rightarrow> session_stats option \<Rightarrow> ('u, 'm) world
       \<Rightarrow> session_status \<times> session_stats option" where
  "rvrt_paicore_runner_get_stats runner stats w =
     (case runner of
        None \<Rightarrow> (RVRT_SESSION_RUNTIME_ERROR, stats)
      | Some (p, r) \<Rightarrow>
          if \<not> runner_deployed p w then (RVRT_SESSION_RUNTIME_ERROR, stats)
          else rvrt_session_get_stats (Some p) stats w)"



section \<open>Samples\<close>

type_synonym rworld = "(decode_context, runner_mem) world"

text \<open>The environment of a sample: the wait of the reset and the waits of the barriers in order.\<close>

record sample_env =
  sv_reset :: wait_env
  sv_sync :: "nat \<Rightarrow> wait_env"

text \<open>
  One round of the timestep loop: the input row is encoded through the session's frame buffer and
  sent, the output row is cleared, and the barrier of the timestep scatters what is received.  The
  result \<open>Inl\<close> is the return from inside the loop.
\<close>

definition runner_timestep ::
    "nat \<Rightarrow> sample_env \<Rightarrow> nat \<Rightarrow> paicore_runner \<Rightarrow> u32 \<Rightarrow> u32 \<Rightarrow> decode_context \<Rightarrow> u32 \<Rightarrow> rworld
       \<Rightarrow> (session_status \<times> decode_context \<times> rworld) option" where
  "runner_timestep rounds env p runner input input_stride decode timestep w = do {
     let input_row = region (input + timestep * input_stride) (rn_input_row_bytes runner) (mm_bytes (w_mem w));
     let buf = se_rx_frames (w_session w p);
     (status, ws, w) \<leftarrow> rvrt_session_send_input_timestep rounds (Some p) (Some (rn_input_view runner)) timestep
       (Some input_row) (rn_input_row_bytes runner) (map_option (w_buf w) buf) (rn_encode_frame_capacity runner) w;
     let w = (case (buf, ws) of (Some b, Some frames) \<Rightarrow> w\<lparr>w_buf := (w_buf w)(b := frames)\<rparr> | _ \<Rightarrow> w);
     if status \<noteq> RVRT_SESSION_OK
     then Some (runner_session_failure ''send'' timestep status, decode, w)
     else do {
       bytes \<leftarrow> zero_region (dc_output decode + timestep * dc_output_stride decode)
         (rn_output_row_bytes runner) (mm_bytes (w_mem w));
       let w = w\<lparr>w_mem := (w_mem w)\<lparr>mm_bytes := bytes\<rparr>\<rparr>;
       let completed_timesteps = timestep + 1;
       let decode = decode\<lparr>dc_submitted_timesteps := completed_timesteps\<rparr>;
       (status, w) \<leftarrow> rvrt_session_sync_wait_until_with_rx_handler (Some p) completed_timesteps
         (rn_timeout_ms runner) (Some (runner_rx_frame_handler runner)) (Some decode)
         (sv_sync env (unat timestep)) w;
       Some (if status \<noteq> RVRT_SESSION_OK then runner_session_failure ''sync'' completed_timesteps status
             else status, decode, w)
     }
   }"

text \<open>The loop over the timesteps, \<open>n\<close> of them left.\<close>

fun runner_timestep_loop ::
    "nat \<Rightarrow> sample_env \<Rightarrow> nat \<Rightarrow> paicore_runner \<Rightarrow> u32 \<Rightarrow> u32 \<Rightarrow> decode_context \<Rightarrow> u32 \<Rightarrow> nat \<Rightarrow> rworld
       \<Rightarrow> (session_status \<times> decode_context \<times> rworld) option" where
  "runner_timestep_loop rounds env p runner input input_stride decode timestep 0 w =
     Some (RVRT_SESSION_OK, decode, w)"
| "runner_timestep_loop rounds env p runner input input_stride decode timestep (Suc n) w =
     (case runner_timestep rounds env p runner input input_stride decode timestep w of
        None \<Rightarrow> None
      | Some (status, decode, w) \<Rightarrow>
          if status \<noteq> RVRT_SESSION_OK then Some (status, decode, w)
          else runner_timestep_loop rounds env p runner input input_stride decode (timestep + 1) n w)"

text \<open>The part of a sample after its arguments were accepted: reset, timesteps, completion barrier.\<close>

definition runner_sample_body ::
    "nat \<Rightarrow> sample_env \<Rightarrow> nat \<Rightarrow> paicore_runner \<Rightarrow> u32 \<Rightarrow> u32 \<Rightarrow> u32 \<Rightarrow> u32 \<Rightarrow> u32 \<Rightarrow> rworld
       \<Rightarrow> (session_status \<times> rworld) option" where
  "runner_sample_body rounds env p runner input input_stride output output_capacity output_stride w = do {
     (status, w) \<leftarrow> rvrt_session_reset_model (Some p) (rn_timeout_ms runner) (sv_reset env) w;
     if status \<noteq> RVRT_SESSION_OK then Some (runner_session_failure ''reset'' 0 status, w)
     else do {
       let decode = \<lparr>dc_runner = Some runner, dc_output = output, dc_output_capacity = output_capacity,
                     dc_output_stride = output_stride, dc_submitted_timesteps = 0\<rparr>;
       let rt = rn_runtime runner;
       (status, decode, w) \<leftarrow> runner_timestep_loop rounds env p runner input input_stride decode 0
         (unat (rt_timesteps rt)) w;
       if status \<noteq> RVRT_SESSION_OK then Some (status, w)
       else if rt_completion_sync_timestep rt > rt_timesteps rt then do {
         (status, w) \<leftarrow> rvrt_session_sync_wait_until_with_rx_handler (Some p)
           (rt_completion_sync_timestep rt) (rn_timeout_ms runner) (Some (runner_rx_frame_handler runner))
           (Some decode) (sv_sync env (unat (rt_timesteps rt))) w;
         Some (if status \<noteq> RVRT_SESSION_OK
               then runner_session_failure ''completion sync'' (rt_completion_sync_timestep rt) status
               else RVRT_SESSION_OK, w)
       }
       else Some (RVRT_SESSION_OK, w)
     }
   }"

text \<open>Without statistics the timing argument is ignored, and the two entry points are one function.\<close>

definition rvrt_paicore_runner_run_sample_profiled ::
    "nat \<Rightarrow> sample_env \<Rightarrow> (nat \<times> paicore_runner) option \<Rightarrow> u32 option \<Rightarrow> u32 \<Rightarrow> u32 \<Rightarrow> u32 option \<Rightarrow> u32 \<Rightarrow> u32
       \<Rightarrow> rworld \<Rightarrow> (session_status \<times> rworld) option" where
  "rvrt_paicore_runner_run_sample_profiled rounds env runner input input_capacity input_stride output
       output_capacity output_stride w =
     (case (runner, input, output) of
        (Some (p, r), Some inp, Some out) \<Rightarrow>
          if \<not> runner_deployed p w \<or> iv_entries (rn_input_view r) = None \<or>
             ov_entries (rn_output_view r) = None \<or> rn_encode_frame_capacity r = 0
          then Some (RVRT_SESSION_RUNTIME_ERROR, w)
          else
            let in_stride = (if input_stride = 0 then rn_input_row_bytes r else input_stride);
                out_stride = (if output_stride = 0 then rn_output_row_bytes r else output_stride);
                timesteps = rt_timesteps (rn_runtime r)
            in if \<not> sample_region_fits input_capacity (rn_input_row_bytes r) in_stride timesteps \<or>
                  \<not> sample_region_fits output_capacity (rn_output_row_bytes r) out_stride timesteps
               then Some (RVRT_SESSION_BUFFER_TOO_SMALL, w)
               else
                 let input_region_size = (timesteps - 1) * in_stride + rn_input_row_bytes r;
                     output_region_size = (timesteps - 1) * out_stride + rn_output_row_bytes r
                 in if sample_regions_overlap inp input_region_size out output_region_size \<and>
                       (inp \<noteq> out \<or> in_stride \<noteq> out_stride)
                    then Some (RVRT_SESSION_RUNTIME_ERROR, w)
                    else if ov_kind (rn_output_view r) = RVRT_OUTPUT_VOLTAGE then
                      (let (fits, required) = voltage_state_capacity timesteps
                             (ov_element_count (rn_output_view r)) (Some 0)
                       in if out mod 4 \<noteq> 0 \<or> output_capacity mod 4 \<noteq> 0 \<or> out_stride mod 4 \<noteq> 0 \<or>
                             \<not> fits \<or> rn_voltage_state r = None \<or>
                             rn_voltage_state_capacity r < the required
                          then Some (RVRT_SESSION_RUNTIME_ERROR, w)
                          else do {
                            let b = the (rn_voltage_state r);
                            st \<leftarrow> zero_prefix (the required) (mm_state (w_mem w) b);
                            let w = w\<lparr>w_mem := (w_mem w)\<lparr>mm_state := (mm_state (w_mem w))(b := st)\<rparr>\<rparr>;
                            runner_sample_body rounds env p r inp in_stride out output_capacity out_stride w
                          })
                    else runner_sample_body rounds env p r inp in_stride out output_capacity out_stride w
      | _ \<Rightarrow> Some (RVRT_SESSION_RUNTIME_ERROR, w))"

definition rvrt_paicore_runner_run_sample ::
    "nat \<Rightarrow> sample_env \<Rightarrow> (nat \<times> paicore_runner) option \<Rightarrow> u32 option \<Rightarrow> u32 \<Rightarrow> u32 \<Rightarrow> u32 option \<Rightarrow> u32 \<Rightarrow> u32
       \<Rightarrow> rworld \<Rightarrow> (session_status \<times> rworld) option" where
  "rvrt_paicore_runner_run_sample rounds env runner input input_capacity input_stride output output_capacity
       output_stride w =
     rvrt_paicore_runner_run_sample_profiled rounds env runner input input_capacity input_stride output
       output_capacity output_stride w"

end
