(* ===== verification/Nn.thy ===== *)
theory Nn
  imports Prelude
begin

text \<open>
  The tensor kernels \<open>Lib/nn_quant.c\<close>, \<open>Lib/nn_fc.c\<close> and \<open>Lib/nn_layernorm.c\<close>.

  The memory is one list of bytes and a pointer an address in it, so that a kernel may work in place;
  constant tables (weights, biases, scales) are lists of their elements.  A \<open>float\<close> is its 32 bits, and
  the arithmetic on floats is the record \<open>float_ops\<close>: a kernel does not depend on what the operations
  compute, and whether \<open>a * b + c\<close> is contracted to one rounding is the compiler's choice.  The value
  \<open>None\<close> of a kernel is an access outside the memory or to a misaligned word, or an \<open>int32_t\<close> overflow.
\<close>

section \<open>Floats and memory\<close>

record float_ops =
  fo_add :: "u32 \<Rightarrow> u32 \<Rightarrow> u32"
  fo_sub :: "u32 \<Rightarrow> u32 \<Rightarrow> u32"
  fo_mul :: "u32 \<Rightarrow> u32 \<Rightarrow> u32"
  fo_div :: "u32 \<Rightarrow> u32 \<Rightarrow> u32"
  fo_mul_add :: "u32 \<Rightarrow> u32 \<Rightarrow> u32 \<Rightarrow> u32"
  fo_sqrt :: "u32 \<Rightarrow> u32"
  fo_rint :: "u32 \<Rightarrow> u32"
  fo_less :: "u32 \<Rightarrow> u32 \<Rightarrow> bool"
  fo_to_s8 :: "u32 \<Rightarrow> u8"
  fo_of_s32 :: "u32 \<Rightarrow> u32"
  fo_of_u32 :: "u32 \<Rightarrow> u32"

abbreviation F32_ZERO :: u32 where "F32_ZERO \<equiv> 0"
abbreviation F32_ONE :: u32 where "F32_ONE \<equiv> 0x3F800000"
abbreviation F32_127 :: u32 where "F32_127 \<equiv> 0x42FE0000"
abbreviation F32_MINUS_127 :: u32 where "F32_MINUS_127 \<equiv> 0xC2FE0000"
abbreviation RV_QUANTIZE_MIN_SCALE :: u32 where "RV_QUANTIZE_MIN_SCALE \<equiv> 0x2B8CBCCC"
abbreviation RV_LAYERNORM_DEFAULT_EPS :: u32 where "RV_LAYERNORM_DEFAULT_EPS \<equiv> 0x3727C5AC"

definition mload8 :: "u8 list \<Rightarrow> nat \<Rightarrow> u8 option" where
  "mload8 mem a = (if a < length mem then Some (mem ! a) else None)"

definition mstore8 :: "u8 list \<Rightarrow> nat \<Rightarrow> u8 \<Rightarrow> u8 list option" where
  "mstore8 mem a b = (if a < length mem then Some (mem[a := b]) else None)"

definition mload32 :: "u8 list \<Rightarrow> nat \<Rightarrow> u32 option" where
  "mload32 mem a = (if a mod 4 = 0 \<and> a + 4 \<le> length mem then Some (uload32 mem a) else None)"

definition mstore32 :: "u8 list \<Rightarrow> nat \<Rightarrow> u32 \<Rightarrow> u8 list option" where
  "mstore32 mem a v = (if a mod 4 = 0 \<and> a + 4 \<le> length mem then Some (store_at a (bytes32 v) mem) else None)"


section \<open>Quantisation\<close>

definition sanitize_scale :: "float_ops \<Rightarrow> u32 \<Rightarrow> u32" where
  "sanitize_scale fo scale = (if fo_less fo scale RV_QUANTIZE_MIN_SCALE then RV_QUANTIZE_MIN_SCALE else scale)"

text \<open>The result is the byte of the \<open>int8_t\<close>; \<open>- 127\<close> is the byte \<open>129\<close>.\<close>

definition quantize_s8_value :: "float_ops \<Rightarrow> u32 \<Rightarrow> u32 \<Rightarrow> u8" where
  "quantize_s8_value fo x scale =
     (let v = fo_rint fo (fo_div fo x scale)
      in if fo_less fo F32_127 v then 127
         else if fo_less fo v F32_MINUS_127 then - 127
         else fo_to_s8 fo v)"

fun quantize_loop :: "float_ops \<Rightarrow> nat \<Rightarrow> nat \<Rightarrow> u32 \<Rightarrow> nat \<Rightarrow> nat \<Rightarrow> u8 list \<Rightarrow> u8 list option" where
  "quantize_loop fo x q scale i 0 mem = Some mem"
| "quantize_loop fo x q scale i (Suc n) mem = do {
     v \<leftarrow> mload32 mem (x + 4 * i);
     mem \<leftarrow> mstore8 mem (q + i) (quantize_s8_value fo v scale);
     quantize_loop fo x q scale (i + 1) n mem
   }"

definition rv_quantize_s8 ::
    "float_ops \<Rightarrow> u32 option \<Rightarrow> u32 option \<Rightarrow> u32 \<Rightarrow> u32 \<Rightarrow> u8 list \<Rightarrow> u8 list option" where
  "rv_quantize_s8 fo x q n scale mem =
     (case (x, q) of
        (Some x, Some q) \<Rightarrow>
          if n = 0 then Some mem
          else quantize_loop fo (unat x) (unat q) (sanitize_scale fo scale) 0 (unat n) mem
      | _ \<Rightarrow> Some mem)"

text \<open>The loops over the columns of a row and over the rows.\<close>

fun dequantize_cols ::
    "float_ops \<Rightarrow> nat \<Rightarrow> nat \<Rightarrow> nat \<Rightarrow> u32 list \<Rightarrow> nat \<Rightarrow> nat \<Rightarrow> u8 list \<Rightarrow> u8 list option" where
  "dequantize_cols fo acc y row_base output_scale c 0 mem = Some mem"
| "dequantize_cols fo acc y row_base output_scale c (Suc n) mem = do {
     v \<leftarrow> mload32 mem (acc + 4 * (row_base + c));
     s \<leftarrow> (if c < length output_scale then Some (output_scale ! c) else None);
     mem \<leftarrow> mstore32 mem (y + 4 * (row_base + c)) (fo_mul fo (fo_of_s32 fo v) s);
     dequantize_cols fo acc y row_base output_scale (c + 1) n mem
   }"

fun dequantize_rows ::
    "float_ops \<Rightarrow> nat \<Rightarrow> nat \<Rightarrow> nat \<Rightarrow> u32 list \<Rightarrow> nat \<Rightarrow> nat \<Rightarrow> u8 list \<Rightarrow> u8 list option" where
  "dequantize_rows fo acc y cols output_scale r 0 mem = Some mem"
| "dequantize_rows fo acc y cols output_scale r (Suc n) mem = do {
     mem \<leftarrow> dequantize_cols fo acc y (r * cols) output_scale 0 cols mem;
     dequantize_rows fo acc y cols output_scale (r + 1) n mem
   }"

definition rv_dequantize_s32 ::
    "float_ops \<Rightarrow> u32 option \<Rightarrow> u32 option \<Rightarrow> u32 \<Rightarrow> u32 \<Rightarrow> u32 list option \<Rightarrow> u8 list \<Rightarrow> u8 list option" where
  "rv_dequantize_s32 fo acc y rows cols output_scale mem =
     (case (acc, y, output_scale) of
        (Some acc, Some y, Some output_scale) \<Rightarrow>
          if rows = 0 \<or> cols = 0 then Some mem
          else dequantize_rows fo (unat acc) (unat y) (unat cols) output_scale 0 (unat rows) mem
      | _ \<Rightarrow> Some mem)"


section \<open>Fully connected layer\<close>

text \<open>The accumulator as the integer it stands for; leaving \<open>int32_t\<close> is undefined.\<close>

definition s32_value :: "int \<Rightarrow> int option" where
  "s32_value v = (if - 2147483648 \<le> v \<and> v < 2147483648 then Some v else None)"

fun fc_dot_loop :: "nat \<Rightarrow> nat \<Rightarrow> nat \<Rightarrow> nat \<Rightarrow> u8 list \<Rightarrow> int \<Rightarrow> int option" where
  "fc_dot_loop xr wo i 0 mem s = Some s"
| "fc_dot_loop xr wo i (Suc n) mem s = do {
     xv \<leftarrow> mload8 mem (xr + i);
     wv \<leftarrow> mload8 mem (wo + i);
     s \<leftarrow> s32_value (s + sint xv * sint wv);
     fc_dot_loop xr wo (i + 1) n mem s
   }"

fun fc_out_loop ::
    "nat \<Rightarrow> nat \<Rightarrow> i32 list option \<Rightarrow> nat \<Rightarrow> nat \<Rightarrow> nat \<Rightarrow> nat \<Rightarrow> u8 list \<Rightarrow> u8 list option" where
  "fc_out_loop xr weight bias ar in_features oi 0 mem = Some mem"
| "fc_out_loop xr weight bias ar in_features oi (Suc n) mem = do {
     b \<leftarrow> (case bias of None \<Rightarrow> Some 0 | Some bs \<Rightarrow> if oi < length bs then Some (sint (bs ! oi)) else None);
     sum \<leftarrow> fc_dot_loop xr (weight + oi * in_features) 0 in_features mem b;
     mem \<leftarrow> mstore32 mem (ar + 4 * oi) (word_of_int sum);
     fc_out_loop xr weight bias ar in_features (oi + 1) n mem
   }"

fun fc_row_loop ::
    "nat \<Rightarrow> nat \<Rightarrow> i32 list option \<Rightarrow> nat \<Rightarrow> nat \<Rightarrow> nat \<Rightarrow> nat \<Rightarrow> nat \<Rightarrow> u8 list \<Rightarrow> u8 list option" where
  "fc_row_loop x weight bias acc in_features out_features r 0 mem = Some mem"
| "fc_row_loop x weight bias acc in_features out_features r (Suc n) mem = do {
     mem \<leftarrow> fc_out_loop (x + r * in_features) weight bias (acc + 4 * (r * out_features)) in_features 0 out_features mem;
     fc_row_loop x weight bias acc in_features out_features (r + 1) n mem
   }"

definition rv_fc_s8_s32 ::
    "u32 option \<Rightarrow> u32 option \<Rightarrow> i32 list option \<Rightarrow> u32 option \<Rightarrow> u32 \<Rightarrow> u32 \<Rightarrow> u32 \<Rightarrow> u8 list \<Rightarrow> u8 list option" where
  "rv_fc_s8_s32 x weight bias acc rows in_features out_features mem =
     (case (x, weight, acc) of
        (Some x, Some weight, Some acc) \<Rightarrow>
          if rows = 0 \<or> in_features = 0 \<or> out_features = 0 then Some mem
          else fc_row_loop (unat x) (unat weight) bias (unat acc) (unat in_features) (unat out_features) 0
                 (unat rows) mem
      | _ \<Rightarrow> Some mem)"

definition rv_fc_s8_s32_row ::
    "u32 option \<Rightarrow> u32 option \<Rightarrow> i32 list option \<Rightarrow> u32 option \<Rightarrow> u32 \<Rightarrow> u32 \<Rightarrow> u8 list \<Rightarrow> u8 list option" where
  "rv_fc_s8_s32_row x weight bias acc in_features out_features mem =
     rv_fc_s8_s32 x weight bias acc 1 in_features out_features mem"


section \<open>Layer normalisation\<close>

text \<open>
  The two reductions have one shape: four partial results, the elements in groups of four, the rest of
  the row into the first.  \<open>step s x\<close> adds the element \<open>x\<close> to the partial result \<open>s\<close>.
\<close>

type_synonym lanes = "u32 \<times> u32 \<times> u32 \<times> u32"

function reduce_groups ::
    "(u32 \<Rightarrow> u32 \<Rightarrow> u32) \<Rightarrow> nat \<Rightarrow> nat \<Rightarrow> u8 list \<Rightarrow> nat \<Rightarrow> lanes \<Rightarrow> (nat \<times> lanes) option" where
  "reduce_groups step xr dim mem i (s0, s1, s2, s3) =
     (if dim - i \<ge> 4 then do {
        x0 \<leftarrow> mload32 mem (xr + 4 * i);
        x1 \<leftarrow> mload32 mem (xr + 4 * (i + 1));
        x2 \<leftarrow> mload32 mem (xr + 4 * (i + 2));
        x3 \<leftarrow> mload32 mem (xr + 4 * (i + 3));
        reduce_groups step xr dim mem (i + 4) (step s0 x0, step s1 x1, step s2 x2, step s3 x3)
      } else Some (i, s0, s1, s2, s3))"
  by pat_completeness auto
termination
  by (relation "measure (\<lambda>(_, _, dim, _, i, _). dim - i)") auto

lemmas [simp del] = reduce_groups.simps

fun reduce_rest :: "(u32 \<Rightarrow> u32 \<Rightarrow> u32) \<Rightarrow> nat \<Rightarrow> u8 list \<Rightarrow> nat \<Rightarrow> nat \<Rightarrow> u32 \<Rightarrow> u32 option" where
  "reduce_rest step xr mem i 0 s0 = Some s0"
| "reduce_rest step xr mem i (Suc n) s0 = do {
     x \<leftarrow> mload32 mem (xr + 4 * i);
     reduce_rest step xr mem (i + 1) n (step s0 x)
   }"

definition reduce_row :: "float_ops \<Rightarrow> (u32 \<Rightarrow> u32 \<Rightarrow> u32) \<Rightarrow> nat \<Rightarrow> nat \<Rightarrow> u8 list \<Rightarrow> u32 option" where
  "reduce_row fo step xr dim mem = do {
     (i, s0, s1, s2, s3) \<leftarrow> reduce_groups step xr dim mem 0 (F32_ZERO, F32_ZERO, F32_ZERO, F32_ZERO);
     s0 \<leftarrow> reduce_rest step xr mem i (dim - i) s0;
     Some (fo_add fo (fo_add fo s0 s1) (fo_add fo s2 s3))
   }"

definition var_step :: "float_ops \<Rightarrow> u32 \<Rightarrow> u32 \<Rightarrow> u32 \<Rightarrow> u32" where
  "var_step fo mean s x = (let d = fo_sub fo x mean in fo_mul_add fo d d s)"

text \<open>An element of an optional table, or the value used without one.\<close>

definition table_at :: "u32 list option \<Rightarrow> u32 \<Rightarrow> nat \<Rightarrow> u32 option" where
  "table_at t d i = (case t of None \<Rightarrow> Some d | Some xs \<Rightarrow> if i < length xs then Some (xs ! i) else None)"

fun affine_loop ::
    "float_ops \<Rightarrow> nat \<Rightarrow> nat \<Rightarrow> u32 \<Rightarrow> u32 \<Rightarrow> u32 list option \<Rightarrow> u32 list option \<Rightarrow> nat \<Rightarrow> nat
       \<Rightarrow> u8 list \<Rightarrow> u8 list option" where
  "affine_loop fo xr yr mean rstd weight bias i 0 mem = Some mem"
| "affine_loop fo xr yr mean rstd weight bias i (Suc n) mem = do {
     x \<leftarrow> mload32 mem (xr + 4 * i);
     let norm = fo_mul fo (fo_sub fo x mean) rstd;
     g \<leftarrow> table_at weight F32_ONE i;
     b \<leftarrow> table_at bias F32_ZERO i;
     mem \<leftarrow> mstore32 mem (yr + 4 * i) (fo_mul_add fo norm g b);
     affine_loop fo xr yr mean rstd weight bias (i + 1) n mem
   }"

definition layernorm_row ::
    "float_ops \<Rightarrow> nat \<Rightarrow> nat \<Rightarrow> u32 \<Rightarrow> u32 list option \<Rightarrow> u32 list option \<Rightarrow> u32 \<Rightarrow> u8 list \<Rightarrow> u8 list option" where
  "layernorm_row fo xr yr dim weight bias eps mem = do {
     sum \<leftarrow> reduce_row fo (fo_add fo) xr (unat dim) mem;
     let mean = fo_div fo sum (fo_of_u32 fo dim);
     var_sum \<leftarrow> reduce_row fo (var_step fo mean) xr (unat dim) mem;
     let variance = fo_div fo var_sum (fo_of_u32 fo dim);
     let rstd = fo_div fo F32_ONE (fo_sqrt fo (fo_add fo variance eps));
     affine_loop fo xr yr mean rstd weight bias 0 (unat dim) mem
   }"

fun layernorm_rows ::
    "float_ops \<Rightarrow> nat \<Rightarrow> nat \<Rightarrow> u32 \<Rightarrow> u32 list option \<Rightarrow> u32 list option \<Rightarrow> u32 \<Rightarrow> nat \<Rightarrow> nat
       \<Rightarrow> u8 list \<Rightarrow> u8 list option" where
  "layernorm_rows fo x y dim weight bias eps r 0 mem = Some mem"
| "layernorm_rows fo x y dim weight bias eps r (Suc n) mem = do {
     mem \<leftarrow> layernorm_row fo (x + 4 * (r * unat dim)) (y + 4 * (r * unat dim)) dim weight bias eps mem;
     layernorm_rows fo x y dim weight bias eps (r + 1) n mem
   }"

definition rv_layernorm_f32 ::
    "float_ops \<Rightarrow> u32 option \<Rightarrow> u32 option \<Rightarrow> u32 \<Rightarrow> u32 \<Rightarrow> u32 list option \<Rightarrow> u32 list option \<Rightarrow> u32
       \<Rightarrow> u8 list \<Rightarrow> u8 list option" where
  "rv_layernorm_f32 fo x y rows dim weight bias eps mem =
     (case (x, y) of
        (Some x, Some y) \<Rightarrow>
          if dim = 0 then Some mem
          else layernorm_rows fo (unat x) (unat y) dim weight bias eps 0 (unat rows) mem
      | _ \<Rightarrow> Some mem)"

definition rv_layernorm_f32_row ::
    "float_ops \<Rightarrow> u32 option \<Rightarrow> u32 option \<Rightarrow> u32 \<Rightarrow> u32 list option \<Rightarrow> u32 list option \<Rightarrow> u8 list \<Rightarrow> u8 list option" where
  "rv_layernorm_f32_row fo x y dim weight bias mem =
     rv_layernorm_f32 fo x y 1 dim weight bias RV_LAYERNORM_DEFAULT_EPS mem"

end
