(* ===== verification/SnnHead.thy ===== *)
theory SnnHead
  imports Runner Nn
begin

text \<open>
  The five layers of the SNN head, \<open>application/baremetal/snn_head/src/snn_head.c\<close>,
  \<open>snn_head_fc1_lif.c\<close>, \<open>snn_head_block_lif.c\<close>, \<open>snn_head_fc2.c\<close>, \<open>snn_head_fc3.c\<close> and
  \<open>snn_head_internal.h\<close>, without profiling and dumps.

  The record \<open>snn_head\<close> holds the linked objects: the addresses of the shared workspace and of the
  accumulator on the stack of fc3, the identifiers of the frame buffer and of the lane state, the tables of
  \<open>snn_head_params.c\<close> and the embedded artifacts, each with the value of its size symbol.  The record
  \<open>head_env\<close> is the environment: the FlatBuffers entry points, and for each layer the address of its runner
  on the stack, the result of the interrupt registration and the waits of its sample.
\<close>

section \<open>Objects\<close>

datatype snn_head_layer_id =
    SNN_HEAD_LAYER_FC1_LIF
  | SNN_HEAD_LAYER_BLOCK0
  | SNN_HEAD_LAYER_BLOCK1
  | SNN_HEAD_LAYER_FC2
  | SNN_HEAD_LAYER_FC3

record snn_artifact =
  sa_start :: "(u32 \<times> u8 list) option"
  sa_size_symbol :: u32

record snn_head =
  tensor_workspace :: u32
  fc3_acc :: u32
  layer_frame_buf :: nat
  fc2_voltage_state :: nat
  ln1_weight :: "u32 list"
  ln1_bias :: "u32 list"
  fc1_activation_scale :: u32
  block0_ln_weight :: "u32 list"
  block0_ln_bias :: "u32 list"
  block0_activation_scale :: u32
  block1_ln_weight :: "u32 list"
  block1_ln_bias :: "u32 list"
  block1_activation_scale :: u32
  ln2_weight :: "u32 list"
  ln2_bias :: "u32 list"
  fc2_activation_scale :: u32
  fc2_output_scale :: "u32 list"
  fc3_activation_scale :: u32
  fc3_output_scale :: "u32 list"
  fc1_lif_artifact :: snn_artifact
  block0_lif_artifact :: snn_artifact
  block1_lif_artifact :: snn_artifact
  fc2_artifact :: snn_artifact
  fc3_artifact :: snn_artifact

record head_env =
  he_verify :: "u8 list \<Rightarrow> u32 \<Rightarrow> bool"
  he_get_root :: "u8 list \<Rightarrow> fbs_CompileArtifacts"
  he_runner :: "snn_head_layer_id \<Rightarrow> nat"
  he_register :: "snn_head_layer_id \<Rightarrow> int"
  he_rounds :: nat
  he_sample :: "snn_head_layer_id \<Rightarrow> sample_env"

record layer_context =
  lc_artifact :: rvrt_artifact
  lc_runtime :: rvrt_artifact_runtime
  lc_input_view :: rvrt_artifact_input_mapping_view
  lc_output_view :: rvrt_artifact_output_mapping_view

record layer_contract =
  ct_input_entries :: u32
  ct_input_bit_width :: u32
  ct_output_entries :: u32
  ct_output_elements :: u32
  ct_output_kind :: u32
  ct_output_dtype :: u32

abbreviation SNN_HEAD_STEPS :: u32 where "SNN_HEAD_STEPS \<equiv> 8"
abbreviation SNN_HEAD_INPUT_WIDTH :: u32 where "SNN_HEAD_INPUT_WIDTH \<equiv> 768"
abbreviation SNN_HEAD_HIDDEN_DIM :: u32 where "SNN_HEAD_HIDDEN_DIM \<equiv> 1536"
abbreviation SNN_HEAD_ACTION_WIDTH :: u32 where "SNN_HEAD_ACTION_WIDTH \<equiv> 7"
abbreviation SNN_HEAD_VOLTAGE_STRIDE_BYTES :: u32 where "SNN_HEAD_VOLTAGE_STRIDE_BYTES \<equiv> 6144"
abbreviation SNN_HEAD_FRAME_BUF_FRAMES :: u32 where "SNN_HEAD_FRAME_BUF_FRAMES \<equiv> 256"
abbreviation SNN_HEAD_TIMEOUT_MS :: u32 where "SNN_HEAD_TIMEOUT_MS \<equiv> 2000"
abbreviation SNN_HEAD_ARTIFACT_TICK_DEPTH :: u32 where "SNN_HEAD_ARTIFACT_TICK_DEPTH \<equiv> 1"
abbreviation SNN_HEAD_DTYPE_UINT1 :: u32 where "SNN_HEAD_DTYPE_UINT1 \<equiv> 1"
abbreviation SNN_HEAD_DTYPE_INT32 :: u32 where "SNN_HEAD_DTYPE_INT32 \<equiv> 9"

definition SNN_HEAD_FC1_LIF_CONTRACT :: layer_contract where
  "SNN_HEAD_FC1_LIF_CONTRACT = \<lparr>ct_input_entries = SNN_HEAD_INPUT_WIDTH, ct_input_bit_width = 8,
     ct_output_entries = SNN_HEAD_HIDDEN_DIM, ct_output_elements = SNN_HEAD_HIDDEN_DIM,
     ct_output_kind = RVRT_OUTPUT_DATA, ct_output_dtype = SNN_HEAD_DTYPE_UINT1\<rparr>"

definition SNN_HEAD_BLOCK_LIF_CONTRACT :: layer_contract where
  "SNN_HEAD_BLOCK_LIF_CONTRACT = \<lparr>ct_input_entries = SNN_HEAD_HIDDEN_DIM, ct_input_bit_width = 8,
     ct_output_entries = SNN_HEAD_HIDDEN_DIM, ct_output_elements = SNN_HEAD_HIDDEN_DIM,
     ct_output_kind = RVRT_OUTPUT_DATA, ct_output_dtype = SNN_HEAD_DTYPE_UINT1\<rparr>"

definition SNN_HEAD_FC2_CONTRACT :: layer_contract where
  "SNN_HEAD_FC2_CONTRACT = \<lparr>ct_input_entries = SNN_HEAD_HIDDEN_DIM, ct_input_bit_width = 8,
     ct_output_entries = SNN_HEAD_HIDDEN_DIM, ct_output_elements = SNN_HEAD_HIDDEN_DIM,
     ct_output_kind = RVRT_OUTPUT_VOLTAGE, ct_output_dtype = SNN_HEAD_DTYPE_INT32\<rparr>"

definition SNN_HEAD_FC3_CONTRACT :: layer_contract where
  "SNN_HEAD_FC3_CONTRACT = \<lparr>ct_input_entries = SNN_HEAD_HIDDEN_DIM, ct_input_bit_width = 8,
     ct_output_entries = SNN_HEAD_ACTION_WIDTH, ct_output_elements = SNN_HEAD_ACTION_WIDTH,
     ct_output_kind = RVRT_OUTPUT_VOLTAGE, ct_output_dtype = SNN_HEAD_DTYPE_INT32\<rparr>"

definition zero_context :: layer_context where
  "zero_context = \<lparr>lc_artifact = zero_artifact, lc_runtime = zero_runtime, lc_input_view = zero_input_view,
     lc_output_view = zero_output_view\<rparr>"


section \<open>Helpers\<close>

definition snn_head_runner_status_ok :: "session_status \<Rightarrow> bool" where
  "snn_head_runner_status_ok status \<longleftrightarrow> status = RVRT_SESSION_OK"

text \<open>The size symbol is given by its address.\<close>

definition snn_head_artifact_size :: "u32 \<Rightarrow> u32" where
  "snn_head_artifact_size size_symbol = size_symbol"

definition snn_head_read_layer_artifact ::
    "head_env \<Rightarrow> snn_artifact \<Rightarrow> layer_context option \<Rightarrow> (bool \<times> layer_context option) option" where
  "snn_head_read_layer_artifact env artifact context =
     (case context of
        None \<Rightarrow> Some (False, None)
      | Some c \<Rightarrow>
          if sa_start artifact = None \<or> sa_size_symbol artifact = 0 then Some (False, Some c)
          else
            let (st, a) = rvrt_artifact_read (he_verify env) (he_get_root env) (sa_start artifact)
                  (snn_head_artifact_size (sa_size_symbol artifact)) (Some (lc_artifact c));
                c = c\<lparr>lc_artifact := the a\<rparr>
            in if st \<noteq> RVRT_ARTIFACT_OK then Some (False, Some c)
               else
            let (st, rt) = rvrt_artifact_thread_runtime (Some (lc_artifact c)) 0 (Some (lc_runtime c));
                c = c\<lparr>lc_runtime := the rt\<rparr>
            in if st \<noteq> RVRT_ARTIFACT_OK then Some (False, Some c)
               else
            let (st, iv) = rvrt_artifact_get_input_mapping_view (Some (lc_artifact c)) 0 0 (Some (lc_input_view c));
                c = c\<lparr>lc_input_view := the iv\<rparr>
            in if st \<noteq> RVRT_ARTIFACT_OK then Some (False, Some c)
               else do {
                 (st, ov) \<leftarrow> rvrt_artifact_get_output_mapping_view (Some (lc_artifact c)) 0 0 (Some (lc_output_view c));
                 Some (st = RVRT_ARTIFACT_OK, Some (c\<lparr>lc_output_view := the ov\<rparr>))
               })"

definition snn_head_validate_layer_artifact :: "layer_context option \<Rightarrow> layer_contract option \<Rightarrow> bool" where
  "snn_head_validate_layer_artifact context contract =
     (case (context, contract) of
        (Some c, Some k) \<Rightarrow>
          if rt_timesteps (lc_runtime c) \<noteq> SNN_HEAD_STEPS \<or>
             rt_pipeline_latency (lc_runtime c) \<noteq> SNN_HEAD_ARTIFACT_TICK_DEPTH \<or>
             rt_completion_sync_timestep (lc_runtime c) \<noteq> SNN_HEAD_STEPS \<or>
             rt_output_time_encoding (lc_runtime c) \<noteq> RVRT_OUTPUT_TIME_ENCODING_STREAM
          then False
          else if iv_entry_count (lc_input_view c) \<noteq> ct_input_entries k \<or>
                  iv_element_count (lc_input_view c) \<noteq> ct_input_entries k \<or>
                  iv_bit_width (lc_input_view c) \<noteq> ct_input_bit_width k
          then False
          else if ov_entry_count (lc_output_view c) \<noteq> ct_output_entries k \<or>
                  ov_element_count (lc_output_view c) \<noteq> ct_output_elements k \<or>
                  ov_kind (lc_output_view c) \<noteq> ct_output_kind k \<or>
                  ov_dtype (lc_output_view c) \<noteq> ct_output_dtype k
          then False
          else True
      | _ \<Rightarrow> False)"

text \<open>The two calls at the head of every layer, on a cleared context.\<close>

definition layer_artifact_ok :: "head_env \<Rightarrow> snn_artifact \<Rightarrow> layer_contract \<Rightarrow> bool option" where
  "layer_artifact_ok env artifact contract = do {
     (read_ok, context) \<leftarrow> snn_head_read_layer_artifact env artifact (Some zero_context);
     Some (read_ok \<and> snn_head_validate_layer_artifact context (Some contract))
   }"

definition snn_head_run_paicore_layer ::
    "head_env \<Rightarrow> snn_head_layer_id \<Rightarrow> deploy_config \<Rightarrow> u32 \<Rightarrow> u32 \<Rightarrow> u32 \<Rightarrow> u32 \<Rightarrow> u32 \<Rightarrow> u32 \<Rightarrow> rworld
       \<Rightarrow> (bool \<times> rworld) option" where
  "snn_head_run_paicore_layer env layer config input input_capacity input_stride output output_capacity
       output_stride w =
     (let p = he_runner env layer;
          w = set_session p zero_session w
      in do {
        (deploy_status, runner, w) \<leftarrow> rvrt_paicore_runner_deploy (he_verify env) (he_get_root env)
          (he_register env layer) (Some (p, zero_runner)) (Some config) w;
        if \<not> snn_head_runner_status_ok deploy_status then Some (False, w)
        else do {
          (run_status, w) \<leftarrow> rvrt_paicore_runner_run_sample (he_rounds env) (he_sample env layer)
            (Some (p, the runner)) (Some input) input_capacity input_stride (Some output) output_capacity
            output_stride w;
          if \<not> snn_head_runner_status_ok run_status
          then (let (_, _, w) = rvrt_paicore_runner_release (Some (p, the runner)) w in Some (False, w))
          else
            (let (release_status, _, w) = rvrt_paicore_runner_release (Some (p, the runner)) w
             in Some (snn_head_runner_status_ok release_status, w))
        }
      })"


section \<open>Moving tensors in the workspace\<close>

text \<open>\<open>memcpy\<close> of overlapping objects is undefined; \<open>memmove\<close> is not.\<close>

definition memmove_bytes :: "nat \<Rightarrow> nat \<Rightarrow> nat \<Rightarrow> u8 list \<Rightarrow> u8 list option" where
  "memmove_bytes dst src n mem =
     (if dst + n \<le> length mem \<and> src + n \<le> length mem then Some (store_at dst (take n (drop src mem)) mem) else None)"

definition memcpy_bytes :: "nat \<Rightarrow> nat \<Rightarrow> nat \<Rightarrow> u8 list \<Rightarrow> u8 list option" where
  "memcpy_bytes dst src n mem =
     (if dst + n \<le> src \<or> src + n \<le> dst then memmove_bytes dst src n mem else None)"

text \<open>Rows of \<open>n\<close> bytes, \<open>src_stride\<close> apart, moved \<open>dst_stride\<close> apart, the last row first.\<close>

fun spread_rows :: "nat \<Rightarrow> nat \<Rightarrow> nat \<Rightarrow> nat \<Rightarrow> nat \<Rightarrow> u8 list \<Rightarrow> u8 list option" where
  "spread_rows base dst_stride src_stride n 0 mem = Some mem"
| "spread_rows base dst_stride src_stride n (Suc row) mem = do {
     mem \<leftarrow> memmove_bytes (base + row * dst_stride) (base + row * src_stride) n mem;
     spread_rows base dst_stride src_stride n row mem
   }"

text \<open>Bytes widened to floats in place, the last element first.\<close>

fun widen_bytes :: "float_ops \<Rightarrow> nat \<Rightarrow> nat \<Rightarrow> u8 list \<Rightarrow> u8 list option" where
  "widen_bytes fo base 0 mem = Some mem"
| "widen_bytes fo base (Suc elem) mem = do {
     v \<leftarrow> mload8 mem (base + elem);
     mem \<leftarrow> mstore32 mem (base + 4 * elem) (fo_of_u32 fo (ucast v));
     widen_bytes fo base elem mem
   }"

text \<open>A kernel on the memory of the world.\<close>

definition on_bytes :: "(u8 list \<Rightarrow> u8 list option) \<Rightarrow> rworld \<Rightarrow> rworld option" where
  "on_bytes f w = map_option (\<lambda>bytes. w\<lparr>w_mem := (w_mem w)\<lparr>mm_bytes := bytes\<rparr>\<rparr>) (f (mm_bytes (w_mem w)))"


section \<open>The layers\<close>

definition layer_config :: "snn_head \<Rightarrow> snn_artifact \<Rightarrow> (nat \<times> u32) option \<Rightarrow> deploy_config" where
  "layer_config h artifact voltage =
     \<lparr>dp_artifact_data = sa_start artifact, dp_artifact_size = snn_head_artifact_size (sa_size_symbol artifact),
      dp_frame_buffer = Some (layer_frame_buf h), dp_frame_capacity = SNN_HEAD_FRAME_BUF_FRAMES,
      dp_voltage_state = map_option fst voltage,
      dp_voltage_state_capacity = (case voltage of None \<Rightarrow> 0 | Some (b, capacity) \<Rightarrow> capacity),
      dp_timeout_ms = SNN_HEAD_TIMEOUT_MS\<rparr>"

definition snn_head_run_fc1_lif :: "float_ops \<Rightarrow> head_env \<Rightarrow> snn_head \<Rightarrow> u32 \<Rightarrow> rworld \<Rightarrow> (bool \<times> rworld) option" where
  "snn_head_run_fc1_lif fo env h input w = do {
     let ws = tensor_workspace h;
     w \<leftarrow> on_bytes (memcpy_bytes (unat ws) (unat input) 24576) w;
     w \<leftarrow> on_bytes (rv_layernorm_f32 fo (Some ws) (Some ws) SNN_HEAD_STEPS SNN_HEAD_INPUT_WIDTH
            (Some (ln1_weight h)) (Some (ln1_bias h)) RV_LAYERNORM_DEFAULT_EPS) w;
     w \<leftarrow> on_bytes (rv_quantize_s8 fo (Some ws) (Some ws) 6144 (fc1_activation_scale h)) w;
     w \<leftarrow> on_bytes (spread_rows (unat ws) 1536 768 768 8) w;
     artifact_ok \<leftarrow> layer_artifact_ok env (fc1_lif_artifact h) SNN_HEAD_FC1_LIF_CONTRACT;
     if \<not> artifact_ok then Some (False, w)
     else do {
       (layer_ok, w) \<leftarrow> snn_head_run_paicore_layer env SNN_HEAD_LAYER_FC1_LIF
         (layer_config h (fc1_lif_artifact h) None) ws 12288 SNN_HEAD_HIDDEN_DIM ws 12288 SNN_HEAD_HIDDEN_DIM w;
       if \<not> layer_ok then Some (False, w)
       else do {
         w \<leftarrow> on_bytes (widen_bytes fo (unat ws) 12288) w;
         Some (True, w)
       }
     }
   }"

definition snn_head_run_block_lif ::
    "float_ops \<Rightarrow> head_env \<Rightarrow> snn_head \<Rightarrow> u32 list \<Rightarrow> u32 list \<Rightarrow> snn_head_layer_id \<Rightarrow> u32 \<Rightarrow> snn_artifact
       \<Rightarrow> layer_contract \<Rightarrow> rworld \<Rightarrow> (bool \<times> rworld) option" where
  "snn_head_run_block_lif fo env h ln_weight ln_bias layer activation_scale artifact contract w = do {
     let ws = tensor_workspace h;
     w \<leftarrow> on_bytes (rv_layernorm_f32 fo (Some ws) (Some ws) SNN_HEAD_STEPS SNN_HEAD_HIDDEN_DIM
            (Some ln_weight) (Some ln_bias) RV_LAYERNORM_DEFAULT_EPS) w;
     w \<leftarrow> on_bytes (rv_quantize_s8 fo (Some ws) (Some ws) 12288 activation_scale) w;
     artifact_ok \<leftarrow> layer_artifact_ok env artifact contract;
     if \<not> artifact_ok then Some (False, w)
     else do {
       (layer_ok, w) \<leftarrow> snn_head_run_paicore_layer env layer (layer_config h artifact None)
         ws 12288 SNN_HEAD_HIDDEN_DIM ws 12288 SNN_HEAD_HIDDEN_DIM w;
       if \<not> layer_ok then Some (False, w)
       else do {
         w \<leftarrow> on_bytes (widen_bytes fo (unat ws) 12288) w;
         Some (True, w)
       }
     }
   }"

definition snn_head_run_fc2 :: "float_ops \<Rightarrow> head_env \<Rightarrow> snn_head \<Rightarrow> rworld \<Rightarrow> (bool \<times> rworld) option" where
  "snn_head_run_fc2 fo env h w = do {
     let ws = tensor_workspace h;
     w \<leftarrow> on_bytes (rv_layernorm_f32 fo (Some ws) (Some ws) SNN_HEAD_STEPS SNN_HEAD_HIDDEN_DIM
            (Some (ln2_weight h)) (Some (ln2_bias h)) RV_LAYERNORM_DEFAULT_EPS) w;
     w \<leftarrow> on_bytes (rv_quantize_s8 fo (Some ws) (Some ws) 12288 (fc2_activation_scale h)) w;
     w \<leftarrow> on_bytes (spread_rows (unat ws) 6144 1536 1536 8) w;
     artifact_ok \<leftarrow> layer_artifact_ok env (fc2_artifact h) SNN_HEAD_FC2_CONTRACT;
     if \<not> artifact_ok then Some (False, w)
     else do {
       (layer_ok, w) \<leftarrow> snn_head_run_paicore_layer env SNN_HEAD_LAYER_FC2
         (layer_config h (fc2_artifact h) (Some (fc2_voltage_state h, 12288)))
         ws 49152 SNN_HEAD_VOLTAGE_STRIDE_BYTES ws 49152 SNN_HEAD_VOLTAGE_STRIDE_BYTES w;
       if \<not> layer_ok then Some (False, w)
       else do {
         w \<leftarrow> on_bytes (rv_dequantize_s32 fo (Some ws) (Some ws) SNN_HEAD_STEPS SNN_HEAD_HIDDEN_DIM
                (Some (fc2_output_scale h))) w;
         Some (True, w)
       }
     }
   }"

definition snn_head_run_fc3 :: "float_ops \<Rightarrow> head_env \<Rightarrow> snn_head \<Rightarrow> u32 \<Rightarrow> rworld \<Rightarrow> (bool \<times> rworld) option" where
  "snn_head_run_fc3 fo env h action w = do {
     let ws = tensor_workspace h;
     w \<leftarrow> on_bytes (rv_quantize_s8 fo (Some ws) (Some ws) 12288 (fc3_activation_scale h)) w;
     artifact_ok \<leftarrow> layer_artifact_ok env (fc3_artifact h) SNN_HEAD_FC3_CONTRACT;
     if \<not> artifact_ok then Some (False, w)
     else do {
       (layer_ok, w) \<leftarrow> snn_head_run_paicore_layer env SNN_HEAD_LAYER_FC3
         (layer_config h (fc3_artifact h) (Some (fc2_voltage_state h, 12288)))
         ws 12288 SNN_HEAD_HIDDEN_DIM (fc3_acc h) 224 28 w;
       if \<not> layer_ok then Some (False, w)
       else do {
         w \<leftarrow> on_bytes (rv_dequantize_s32 fo (Some (fc3_acc h)) (Some action) SNN_HEAD_STEPS SNN_HEAD_ACTION_WIDTH
                (Some (fc3_output_scale h))) w;
         Some (True, w)
       }
     }
   }"

text \<open>A layer that fails ends the chain.\<close>

definition and_then :: "(bool \<times> rworld) option \<Rightarrow> (rworld \<Rightarrow> (bool \<times> rworld) option) \<Rightarrow> (bool \<times> rworld) option" where
  "and_then first rest = do { (layer_ok, w) \<leftarrow> first; if \<not> layer_ok then Some (False, w) else rest w }"

definition snn_head_run_chunk ::
    "float_ops \<Rightarrow> head_env \<Rightarrow> snn_head \<Rightarrow> u32 option \<Rightarrow> u32 option \<Rightarrow> rworld \<Rightarrow> (bool \<times> rworld) option" where
  "snn_head_run_chunk fo env h input action w =
     (case (input, action) of
        (Some input, Some action) \<Rightarrow>
          and_then (snn_head_run_fc1_lif fo env h input w) (\<lambda>w.
          and_then (snn_head_run_block_lif fo env h (block0_ln_weight h) (block0_ln_bias h) SNN_HEAD_LAYER_BLOCK0
              (block0_activation_scale h) (block0_lif_artifact h) SNN_HEAD_BLOCK_LIF_CONTRACT w) (\<lambda>w.
          and_then (snn_head_run_block_lif fo env h (block1_ln_weight h) (block1_ln_bias h) SNN_HEAD_LAYER_BLOCK1
              (block1_activation_scale h) (block1_lif_artifact h) SNN_HEAD_BLOCK_LIF_CONTRACT w) (\<lambda>w.
          and_then (snn_head_run_fc2 fo env h w) (\<lambda>w.
            snn_head_run_fc3 fo env h action w))))
      | _ \<Rightarrow> Some (False, w))"

end
