(* ===== verification/Nn_Laws.thy ===== *)
theory Nn_Laws
  imports Nn
begin

text \<open>
  The kernels compute the functions their headers state, also where input and output share memory: the
  reference functions below work on lists, and a kernel leaves in memory what the reference gives for
  the values that were there before.
\<close>

section \<open>Words in memory\<close>

definition words_at :: "u8 list \<Rightarrow> nat \<Rightarrow> nat \<Rightarrow> u32 list" where
  "words_at mem a n = map (\<lambda>i. uload32 mem (a + 4 * i)) [0..<n]"

definition put_words :: "nat \<Rightarrow> u32 list \<Rightarrow> u8 list \<Rightarrow> u8 list" where
  "put_words a ws mem = store_at a (concat (map bytes32 ws)) mem"

lemma length_words_at [simp]: "length (words_at mem a n) = n"
  by (simp add: words_at_def)

lemma nth_words_at [simp]: "i < n \<Longrightarrow> words_at mem a n ! i = uload32 mem (a + 4 * i)"
  by (simp add: words_at_def)

lemma length_word_bytes [simp]: "length (concat (map bytes32 ws)) = 4 * length ws"
  by (induction ws) simp_all

lemma length_put_words [simp]: "a + 4 * length ws \<le> length mem \<Longrightarrow> length (put_words a ws mem) = length mem"
  by (simp add: put_words_def)

lemma uload32_off:
  assumes "k + length bs \<le> length mem" "a + 4 \<le> length mem" "a + 4 \<le> k \<or> k + length bs \<le> a"
  shows "uload32 (store_at k bs mem) a = uload32 mem a"
  using assms by (auto simp: uload32_def nth_store_at)

lemma words_at_off:
  assumes "k + length bs \<le> length mem" "a + 4 * n \<le> length mem" "a + 4 * n \<le> k \<or> k + length bs \<le> a"
  shows "words_at (store_at k bs mem) a n = words_at mem a n"
  using assms by (auto simp: words_at_def uload32_off)

lemma words_at_add: "words_at mem a (m + n) = words_at mem a m @ words_at mem (a + 4 * m) n"
  by (rule nth_equalityI) (auto simp: nth_append algebra_simps)

lemma words_at_Suc: "words_at mem a (Suc n) = uload32 mem a # words_at mem (a + 4) n"
  using words_at_add [of mem a 1 n] by (simp add: words_at_def)


section \<open>Forward loops\<close>

text \<open>
  A loop that reads word \<open>i\<close> of its input and then writes \<open>w\<close> bytes of its output.  As long as an output
  is no wider than an input and does not start after it, no word is overwritten before it is read.
\<close>

fun forward_map :: "(nat \<Rightarrow> u32 \<Rightarrow> u8 list) \<Rightarrow> nat \<Rightarrow> nat \<Rightarrow> nat \<Rightarrow> nat \<Rightarrow> nat \<Rightarrow> u8 list \<Rightarrow> u8 list" where
  "forward_map g w src dst i 0 mem = mem"
| "forward_map g w src dst i (Suc n) mem =
     forward_map g w src dst (i + 1) n (store_at (dst + w * i) (g i (uload32 mem (src + 4 * i))) mem)"

definition forward_safe :: "nat \<Rightarrow> nat \<Rightarrow> nat \<Rightarrow> bool" where
  "forward_safe src dst n \<longleftrightarrow> dst \<le> src \<or> src + 4 * n \<le> dst"

lemma length_outputs:
  "(\<And>i v. length (g i v) = w) \<Longrightarrow> length (concat (map (\<lambda>k. g k (f k)) ks)) = w * length ks"
  by (induction ks) simp_all

lemma forward_map_eq:
  assumes "w \<le> 4" "\<And>i v. length (g i v) = w"
  shows "src + 4 * (i + n) \<le> length mem \<Longrightarrow> dst + w * (i + n) \<le> length mem \<Longrightarrow> forward_safe src dst (i + n) \<Longrightarrow>
    forward_map g w src dst i n mem =
      store_at (dst + w * i) (concat (map (\<lambda>k. g k (uload32 mem (src + 4 * k))) [i..<i + n])) mem"
proof (induction n arbitrary: i mem)
  case 0
  then show ?case by simp
next
  case (Suc n)
  let ?b = "g i (uload32 mem (src + 4 * i))" and ?a = "dst + w * i"
  let ?mem = "store_at ?a ?b mem"
  have fit: "?a + length ?b \<le> length mem" using Suc.prems(2) assms(2) by (simp add: algebra_simps)
  have w: "w * i \<le> 4 * i" using assms(1) by (rule mult_right_mono) simp
  have reads: "uload32 ?mem (src + 4 * k) = uload32 mem (src + 4 * k)" if k: "k \<in> set [i + 1..<i + 1 + n]" for k
  proof (rule uload32_off [OF fit])
    from k have k: "i + 1 \<le> k" "k < i + 1 + n" by auto
    then show "src + 4 * k + 4 \<le> length mem" using Suc.prems(1) by simp
    from Suc.prems(3) have "dst \<le> src \<or> src + 4 * i + 4 * n + 4 \<le> dst" by (auto simp: forward_safe_def)
    then show "src + 4 * k + 4 \<le> ?a \<or> ?a + length ?b \<le> src + 4 * k"
    proof
      assume "dst \<le> src"
      with k w assms(1) have "?a + w \<le> src + 4 * k" by linarith
      then show ?thesis by (simp add: assms(2))
    next
      assume "src + 4 * i + 4 * n + 4 \<le> dst"
      with k have "src + 4 * k + 4 \<le> dst" by linarith
      then show ?thesis by simp
    qed
  qed
  then have outs: "map (\<lambda>k. g k (uload32 ?mem (src + 4 * k))) [i + 1..<i + 1 + n] =
      map (\<lambda>k. g k (uload32 mem (src + 4 * k))) [i + 1..<i + 1 + n]" by (intro map_cong) simp_all
  have "forward_map g w src dst i (Suc n) mem = forward_map g w src dst (i + 1) n ?mem" by simp
  also have "\<dots> = store_at (dst + w * (i + 1)) (concat (map (\<lambda>k. g k (uload32 ?mem (src + 4 * k))) [i + 1..<i + 1 + n])) ?mem"
    using Suc.prems fit by (intro Suc.IH) simp_all
  also have "\<dots> = store_at (?a + length ?b) (concat (map (\<lambda>k. g k (uload32 mem (src + 4 * k))) [i + 1..<i + 1 + n])) ?mem"
    unfolding outs by (simp add: assms(2) algebra_simps)
  also have "\<dots> = store_at ?a (?b @ concat (map (\<lambda>k. g k (uload32 mem (src + 4 * k))) [i + 1..<i + 1 + n])) mem"
    using Suc.prems(2) assms(2) length_outputs [of g w, OF assms(2)]
    by (intro store_at_append(2)) (simp add: algebra_simps)
  also have "?b @ concat (map (\<lambda>k. g k (uload32 mem (src + 4 * k))) [i + 1..<i + 1 + n]) =
      concat (map (\<lambda>k. g k (uload32 mem (src + 4 * k))) [i..<i + Suc n])"
    by (subst upt_conv_Cons [of i "i + Suc n"]) simp_all
  finally show ?case .
qed


section \<open>Quantisation\<close>

lemma quantize_loop_map:
  "x mod 4 = 0 \<Longrightarrow> x + 4 * (i + n) \<le> length mem \<Longrightarrow> q + (i + n) \<le> length mem \<Longrightarrow>
   quantize_loop fo x q scale i n mem = Some (forward_map (\<lambda>_ v. [quantize_s8_value fo v scale]) 1 x q i n mem)"
proof (induction n arbitrary: i mem)
  case (Suc n)
  have "(x + 4 * i) mod 4 = 0" using Suc.prems(1) by presburger
  with Suc show ?case
    by (simp add: mload32_def mstore8_def list_update_store_at)
qed simp

lemma aligned_u32: "x mod 4 = 0 \<Longrightarrow> unat (x :: u32) mod 4 = 0"
  using unat_mod_distrib [of x 4] by simp

definition quantized :: "float_ops \<Rightarrow> u32 \<Rightarrow> u32 list \<Rightarrow> u8 list" where
  "quantized fo scale ws = map (\<lambda>v. quantize_s8_value fo v (sanitize_scale fo scale)) ws"

lemma quantize_lemma:
  assumes "x mod 4 = 0" "unat x + 4 * unat n \<le> length mem" "unat q + unat n \<le> length mem"
    "forward_safe (unat x) (unat q) (unat n)"
  shows "rv_quantize_s8 fo (Some x) (Some q) n scale mem =
    Some (store_at (unat q) (quantized fo scale (words_at mem (unat x) (unat n))) mem)"
proof -
  let ?g = "\<lambda>_ v. [quantize_s8_value fo v (sanitize_scale fo scale)]"
  have "rv_quantize_s8 fo (Some x) (Some q) n scale mem =
      Some (forward_map ?g 1 (unat x) (unat q) 0 (unat n) mem)"
    using quantize_loop_map [OF aligned_u32 [OF assms(1)], of 0 "unat n" mem "unat q"] assms(2,3)
    by (simp add: rv_quantize_s8_def)
  also have "forward_map ?g 1 (unat x) (unat q) 0 (unat n) mem =
      store_at (unat q) (concat (map (\<lambda>k. ?g k (uload32 mem (unat x + 4 * k))) [0..<unat n])) mem"
    using forward_map_eq [of 1 ?g "unat x" 0 "unat n" mem "unat q"] assms(2-4) by simp
  also have "concat (map (\<lambda>k. ?g k (uload32 mem (unat x + 4 * k))) [0..<unat n]) =
      quantized fo scale (words_at mem (unat x) (unat n))"
    by (simp add: quantized_def words_at_def o_def)
  finally show ?thesis .
qed


section \<open>Dequantisation\<close>

definition dequantized :: "float_ops \<Rightarrow> u32 list \<Rightarrow> u32 list \<Rightarrow> u32 list" where
  "dequantized fo scale ws =
     map (\<lambda>k. fo_mul fo (fo_of_s32 fo (ws ! k)) (scale ! (k mod length scale))) [0..<length ws]"

lemma length_dequantized [simp]: "length (dequantized fo scale ws) = length ws"
  by (simp add: dequantized_def)

text \<open>The loops over rows and columns are one loop over the elements.\<close>

definition deq_out :: "float_ops \<Rightarrow> u32 list \<Rightarrow> nat \<Rightarrow> nat \<Rightarrow> u32 \<Rightarrow> u8 list" where
  "deq_out fo scale cols k v = bytes32 (fo_mul fo (fo_of_s32 fo v) (scale ! (k mod cols)))"

lemma length_deq_out [simp]: "length (deq_out fo scale cols k v) = 4"
  by (simp add: deq_out_def)

lemma forward_map_add:
  "forward_map g w src dst i (m + n) mem = forward_map g w src dst (i + m) n (forward_map g w src dst i m mem)"
  by (induction m arbitrary: i mem) simp_all

lemma length_forward_map:
  assumes "\<And>i v. length (g i v) = w"
  shows "dst + w * (i + n) \<le> length mem \<Longrightarrow> length (forward_map g w src dst i n mem) = length mem"
proof (induction n arbitrary: i mem)
  case (Suc n)
  have "dst + w * i + length (g i (uload32 mem (src + 4 * i))) \<le> length mem"
    using Suc.prems by (simp add: assms algebra_simps)
  moreover have "dst + w * (i + 1 + n) \<le> length mem" using Suc.prems by (simp add: algebra_simps)
  ultimately show ?case using Suc.IH [of "i + 1"] by simp
qed simp

lemma dequantize_cols_map:
  assumes "acc mod 4 = 0" "y mod 4 = 0" "length scale = cols"
  shows "c + n = cols \<Longrightarrow> acc + 4 * (b + cols) \<le> length mem \<Longrightarrow> y + 4 * (b + cols) \<le> length mem \<Longrightarrow>
    b mod cols = 0 \<Longrightarrow>
    dequantize_cols fo acc y b scale c n mem = Some (forward_map (deq_out fo scale cols) 4 acc y (b + c) n mem)"
proof (induction n arbitrary: c mem)
  case (Suc n)
  have al: "(acc + 4 * (b + c)) mod 4 = 0" "(y + 4 * (b + c)) mod 4 = 0" using assms by presburger+
  have c: "c < cols" using Suc.prems(1) by simp
  then have "(b + c) mod cols = c" using Suc.prems(4) by (metis mod_add_left_eq add_0 mod_less)
  then have out: "bytes32 (fo_mul fo (fo_of_s32 fo v) (scale ! c)) = deq_out fo scale cols (b + c) v" for v
    by (simp add: deq_out_def)
  show ?case using Suc al c assms(3) by (simp add: mload32_def mstore32_def out algebra_simps)
qed simp

lemma dequantize_rows_map:
  assumes "acc mod 4 = 0" "y mod 4 = 0" "length scale = cols"
  shows "acc + 4 * ((r + n) * cols) \<le> length mem \<Longrightarrow> y + 4 * ((r + n) * cols) \<le> length mem \<Longrightarrow>
    dequantize_rows fo acc y cols scale r n mem =
      Some (forward_map (deq_out fo scale cols) 4 acc y (r * cols) (n * cols) mem)"
proof (induction n arbitrary: r mem)
  case (Suc n)
  let ?m = "forward_map (deq_out fo scale cols) 4 acc y (r * cols) cols mem"
  have fit: "acc + 4 * (r * cols + cols) \<le> length mem" "y + 4 * (r * cols + cols) \<le> length mem"
    using Suc.prems by (simp_all add: algebra_simps)
  have "dequantize_cols fo acc y (r * cols) scale 0 cols mem = Some ?m"
    using dequantize_cols_map [OF assms, of 0 cols "r * cols" mem fo] fit by simp
  moreover have "length ?m = length mem" by (rule length_forward_map) (use fit in simp_all)
  ultimately show ?case
    using Suc.IH [of "r + 1" ?m] Suc.prems
    by (simp add: forward_map_add algebra_simps)
qed simp

lemma dequantize_lemma:
  assumes "acc mod 4 = 0" "y mod 4 = 0" "length scale = unat cols" "cols \<noteq> 0" "rows \<noteq> 0"
    and "unat acc + 4 * (unat rows * unat cols) \<le> length mem" "unat y + 4 * (unat rows * unat cols) \<le> length mem"
    and "forward_safe (unat acc) (unat y) (unat rows * unat cols)"
  shows "rv_dequantize_s32 fo (Some acc) (Some y) rows cols (Some scale) mem =
    Some (put_words (unat y) (dequantized fo scale (words_at mem (unat acc) (unat rows * unat cols))) mem)"
proof -
  let ?n = "unat rows * unat cols" and ?g = "deq_out fo scale (unat cols)"
  have "rv_dequantize_s32 fo (Some acc) (Some y) rows cols (Some scale) mem =
      Some (forward_map ?g 4 (unat acc) (unat y) 0 ?n mem)"
    using dequantize_rows_map [OF aligned_u32 aligned_u32, OF assms(1-3), of 0 "unat rows" mem fo] assms(4-7)
    by (simp add: rv_dequantize_s32_def)
  also have "forward_map ?g 4 (unat acc) (unat y) 0 ?n mem =
      store_at (unat y) (concat (map (\<lambda>k. ?g k (uload32 mem (unat acc + 4 * k))) [0..<?n])) mem"
    using forward_map_eq [of 4 ?g "unat acc" 0 ?n mem "unat y"] assms(6-8) by simp
  also have "map (\<lambda>k. ?g k (uload32 mem (unat acc + 4 * k))) [0..<?n] =
      map bytes32 (dequantized fo scale (words_at mem (unat acc) ?n))"
    by (simp add: dequantized_def deq_out_def assms(3))
  finally show ?thesis by (simp add: put_words_def)
qed


section \<open>Fully connected layer\<close>

text \<open>The integer the layer computes.\<close>

definition dot_s8 :: "u8 list \<Rightarrow> nat \<Rightarrow> nat \<Rightarrow> nat \<Rightarrow> int" where
  "dot_s8 mem x w n = (\<Sum>i < n. sint (mem ! (x + i)) * sint (mem ! (w + i)))"

lemma s8_product: "\<bar>sint (a :: u8) * sint (b :: u8)\<bar> \<le> 16384"
proof -
  have "- 128 \<le> sint a" "sint a \<le> 127" "- 128 \<le> sint b" "sint b \<le> 127"
    using sint_range_size [of a] sint_range_size [of b] by (simp_all add: word_size)
  then have "\<bar>sint a\<bar> \<le> 128" "\<bar>sint b\<bar> \<le> 128" by linarith+
  then have "\<bar>sint a\<bar> * \<bar>sint b\<bar> \<le> 128 * 128" by (intro mult_mono) simp_all
  then show ?thesis by (simp add: abs_mult)
qed

lemma s32_value_fits: "\<bar>v\<bar> + 16384 * int n < 2147483648 \<Longrightarrow> s32_value v = Some v"
  unfolding s32_value_def by (simp add: abs_if split: if_splits)

lemma fc_dot_loop_sum:
  "xr + (i + n) \<le> length mem \<Longrightarrow> wo + (i + n) \<le> length mem \<Longrightarrow> \<bar>s\<bar> + 16384 * int n < 2147483648 \<Longrightarrow>
   fc_dot_loop xr wo i n mem s = Some (s + (\<Sum>k = i..<i + n. sint (mem ! (xr + k)) * sint (mem ! (wo + k))))"
proof (induction n arbitrary: i s)
  case (Suc n)
  let ?p = "sint (mem ! (xr + i)) * sint (mem ! (wo + i))"
  from Suc.prems(3) have "\<bar>s\<bar> + 16384 + 16384 * int n < 2147483648" by simp
  then have "\<bar>s + ?p\<bar> + 16384 * int n < 2147483648"
    using s8_product [of "mem ! (xr + i)" "mem ! (wo + i)"] abs_triangle_ineq [of s ?p] by linarith
  moreover from this have "s32_value (s + ?p) = Some (s + ?p)" by (rule s32_value_fits)
  moreover have "(\<Sum>k = i..<i + Suc n. sint (mem ! (xr + k)) * sint (mem ! (wo + k))) =
      ?p + (\<Sum>k = i + 1..<i + 1 + n. sint (mem ! (xr + k)) * sint (mem ! (wo + k)))"
    by (subst sum.atLeast_Suc_lessThan) simp_all
  ultimately show ?case using Suc.IH [of "i + 1" "s + ?p"] Suc.prems(1,2) by (simp add: mload8_def)
qed simp

definition fc_bias :: "i32 list option \<Rightarrow> nat \<Rightarrow> int" where
  "fc_bias bias k = (case bias of None \<Rightarrow> 0 | Some bs \<Rightarrow> sint (bs ! k))"

definition bias_fits :: "i32 list option \<Rightarrow> nat \<Rightarrow> nat \<Rightarrow> bool" where
  "bias_fits bias in_features out_features \<longleftrightarrow>
     (case bias of None \<Rightarrow> 16384 * int in_features < 2147483648
      | Some bs \<Rightarrow> out_features \<le> length bs \<and>
          list_all (\<lambda>b. \<bar>sint b\<bar> + 16384 * int in_features < 2147483648) (take out_features bs))"

text \<open>The outputs of one row.\<close>

definition fc_row :: "i32 list option \<Rightarrow> u8 list \<Rightarrow> nat \<Rightarrow> nat \<Rightarrow> nat \<Rightarrow> nat \<Rightarrow> u32 list" where
  "fc_row bias mem xr weight in_features out_features =
     map (\<lambda>k. word_of_int (fc_bias bias k + dot_s8 mem xr (weight + k * in_features) in_features)) [0..<out_features]"

lemma length_fc_row [simp]: "length (fc_row bias mem xr weight m k) = k"
  by (simp add: fc_row_def)

definition apart :: "nat \<Rightarrow> nat \<Rightarrow> nat \<Rightarrow> nat \<Rightarrow> bool" where
  "apart a n b k \<longleftrightarrow> a + n \<le> b \<or> b + k \<le> a"

lemma dot_s8_off:
  assumes "k + length bs \<le> length mem" "x + n \<le> length mem" "w + n \<le> length mem"
    "apart x n k (length bs)" "apart w n k (length bs)"
  shows "dot_s8 (store_at k bs mem) x w n = dot_s8 mem x w n"
  using assms unfolding dot_s8_def apart_def by (intro sum.cong refl) (auto simp: nth_store_at)

lemma fc_bias_at:
  assumes "bias_fits bias m k" "oi < k"
  shows "(case bias of None \<Rightarrow> Some 0 | Some bs \<Rightarrow> if oi < length bs then Some (sint (bs ! oi)) else None) =
      Some (fc_bias bias oi)" "\<bar>fc_bias bias oi\<bar> + 16384 * int m < 2147483648"
proof -
  show "(case bias of None \<Rightarrow> Some 0 | Some bs \<Rightarrow> if oi < length bs then Some (sint (bs ! oi)) else None) =
      Some (fc_bias bias oi)"
    using assms by (auto simp: bias_fits_def fc_bias_def split: option.splits)
  show "\<bar>fc_bias bias oi\<bar> + 16384 * int m < 2147483648"
  proof (cases bias)
    case None
    then show ?thesis using assms(1) by (simp add: bias_fits_def fc_bias_def)
  next
    case (Some bs)
    then have "bs ! oi \<in> set (take k bs)" using assms by (auto simp: bias_fits_def in_set_conv_nth)
    then show ?thesis using Some assms(1) by (auto simp: bias_fits_def fc_bias_def list_all_iff)
  qed
qed

lemma fc_row_off:
  assumes "a + length bs \<le> length mem" "xr + m \<le> length mem" "weight + k * m \<le> length mem"
    "apart xr m a (length bs)" "apart weight (k * m) a (length bs)"
  shows "fc_row bias (store_at a bs mem) xr weight m k = fc_row bias mem xr weight m k"
  unfolding fc_row_def
proof (intro map_cong refl arg_cong [where f = word_of_int] arg_cong2 [where f = "(+)"] dot_s8_off)
  fix j assume "j \<in> set [0..<k]"
  then have "(j + 1) * m \<le> k * m" by (intro mult_right_mono) auto
  then have j: "weight + j * m + m \<le> weight + k * m" by simp
  then show "weight + j * m + m \<le> length mem" using assms(3) by linarith
  have "weight \<le> weight + j * m" by simp
  with j show "apart (weight + j * m) m a (length bs)" using assms(5) unfolding apart_def by linarith
qed (use assms in simp_all)

lemma fc_out_loop_row:
  assumes "bias_fits bias m k" "ar mod 4 = 0"
  shows "oi + n = k \<Longrightarrow> xr + m \<le> length mem \<Longrightarrow> weight + k * m \<le> length mem \<Longrightarrow> ar + 4 * k \<le> length mem \<Longrightarrow>
    apart xr m ar (4 * k) \<Longrightarrow> apart weight (k * m) ar (4 * k) \<Longrightarrow>
    fc_out_loop xr weight bias ar m oi n mem =
      Some (put_words (ar + 4 * oi) (drop oi (fc_row bias mem xr weight m k)) mem)"
proof (induction n arbitrary: oi mem)
  case 0
  then show ?case by (simp add: put_words_def)
next
  case (Suc n)
  have oi: "oi < k" using Suc.prems(1) by simp
  then have "(oi + 1) * m \<le> k * m" by (intro mult_right_mono) simp_all
  then have w: "weight + oi * m + m \<le> weight + k * m" by simp
  let ?v = "fc_bias bias oi + dot_s8 mem xr (weight + oi * m) m"
  have "fc_dot_loop xr (weight + oi * m) 0 m mem (fc_bias bias oi) = Some ?v"
    using fc_dot_loop_sum [of xr 0 m mem "weight + oi * m" "fc_bias bias oi"] fc_bias_at(2) [OF assms(1) oi] Suc.prems(2,3) w
    by (simp add: dot_s8_def atLeast0LessThan)
  moreover have fit: "ar + 4 * oi + 4 \<le> length mem" using oi Suc.prems(4) by linarith
  let ?mem = "store_at (ar + 4 * oi) (bytes32 (word_of_int ?v)) mem"
  have len: "length ?mem = length mem" using fit by simp
  have "ar \<le> ar + 4 * oi" "ar + 4 * oi + 4 \<le> ar + 4 * k" using oi by simp_all
  then have ap: "apart xr m (ar + 4 * oi) 4" "apart weight (k * m) (ar + 4 * oi) 4"
    using Suc.prems(5,6) unfolding apart_def by linarith+
  have rows: "fc_row bias ?mem xr weight m k = fc_row bias mem xr weight m k"
    using fc_row_off [of "ar + 4 * oi" "bytes32 (word_of_int ?v)" mem xr m weight k bias] fit Suc.prems(2,3) ap
    unfolding length_bytes32 by blast
  have "fc_out_loop xr weight bias ar m (oi + 1) n ?mem =
      Some (put_words (ar + 4 * (oi + 1)) (drop (oi + 1) (fc_row bias mem xr weight m k)) ?mem)"
    using Suc.IH [of "oi + 1" ?mem] Suc.prems len unfolding rows by simp
  moreover have "drop oi (fc_row bias mem xr weight m k) = word_of_int ?v # drop (oi + 1) (fc_row bias mem xr weight m k)"
    using oi by (simp add: Cons_nth_drop_Suc [symmetric] fc_row_def)
  moreover have "put_words (ar + 4 * (oi + 1)) ws ?mem = put_words (ar + 4 * oi) (word_of_int ?v # ws) mem"
    if "length ws = k - (oi + 1)" for ws
    using store_at_append(2) [of "ar + 4 * oi" "bytes32 (word_of_int ?v)" "concat (map bytes32 ws)" mem] that oi Suc.prems(4)
    by (simp add: put_words_def algebra_simps)
  ultimately show ?case
    using fc_bias_at(1) [OF assms(1) oi] fit assms(2) by (simp add: mstore32_def)
qed

text \<open>The outputs of all rows.\<close>

definition fc_rows :: "i32 list option \<Rightarrow> u8 list \<Rightarrow> nat \<Rightarrow> nat \<Rightarrow> nat \<Rightarrow> nat \<Rightarrow> nat \<Rightarrow> nat \<Rightarrow> u32 list" where
  "fc_rows bias mem x weight m k r n = concat (map (\<lambda>j. fc_row bias mem (x + j * m) weight m k) [r..<r + n])"

lemma length_fc_rows [simp]: "length (fc_rows bias mem x weight m k r n) = n * k"
  by (simp add: fc_rows_def length_concat o_def sum_list_triv)

lemma fc_row_loop_rows:
  assumes "bias_fits bias m k" "acc mod 4 = 0"
  shows "x + (r + n) * m \<le> length mem \<Longrightarrow> weight + k * m \<le> length mem \<Longrightarrow> acc + 4 * ((r + n) * k) \<le> length mem \<Longrightarrow>
    apart x ((r + n) * m) acc (4 * ((r + n) * k)) \<Longrightarrow> apart weight (k * m) acc (4 * ((r + n) * k)) \<Longrightarrow>
    fc_row_loop x weight bias acc m k r n mem =
      Some (put_words (acc + 4 * (r * k)) (fc_rows bias mem x weight m k r n) mem)"
proof (induction n arbitrary: r mem)
  case 0
  then show ?case by (simp add: put_words_def fc_rows_def)
next
  case (Suc n)
  let ?N = "r + Suc n"
  let ?ws = "fc_row bias mem (x + r * m) weight m k" and ?a = "acc + 4 * (r * k)"
  let ?mem = "put_words ?a ?ws mem"
  have "(r + 1) * m \<le> ?N * m" "(r + 1) * k \<le> ?N * k" by (intro mult_right_mono; simp)+
  then have r: "x + r * m + m \<le> x + ?N * m" "?a + 4 * k \<le> acc + 4 * (?N * k)" by simp_all
  have ap: "apart (x + r * m) m ?a (4 * k)" "apart weight (k * m) ?a (4 * k)"
    using Suc.prems(4,5) r unfolding apart_def by linarith+
  have "?a mod 4 = 0" using assms(2) by presburger
  from fc_out_loop_row [OF assms(1) this, of 0 k "x + r * m" mem weight] have
    row: "fc_out_loop (x + r * m) weight bias ?a m 0 k mem = Some ?mem"
    using ap r Suc.prems(1-3) by (simp add: algebra_simps)
  have off: "fc_row bias ?mem (x + j * m) weight m k = fc_row bias mem (x + j * m) weight m k" if "j < ?N" for j
  proof -
    have "(j + 1) * m \<le> ?N * m" using that by (intro mult_right_mono) simp_all
    then have j: "x + j * m + m \<le> x + ?N * m" by simp
    have "x \<le> x + j * m" by simp
    with j have "apart (x + j * m) m ?a (4 * k)" using Suc.prems(4) r(2) unfolding apart_def by linarith
    moreover have "x + j * m + m \<le> length mem" "?a + 4 * k \<le> length mem"
      using j r Suc.prems(1,3) by linarith+
    ultimately show ?thesis
      using fc_row_off [of ?a "concat (map bytes32 ?ws)" mem "x + j * m" m weight k bias] Suc.prems(2) ap(2)
      by (simp add: put_words_def)
  qed
  have rows: "fc_rows bias ?mem x weight m k (r + 1) n = fc_rows bias mem x weight m k (r + 1) n"
    unfolding fc_rows_def by (intro arg_cong [where f = concat] map_cong refl off) auto
  have "?a + 4 * k \<le> length mem" using r(2) Suc.prems(3) by linarith
  then have len: "length ?mem = length mem" by simp
  have "fc_row_loop x weight bias acc m k (r + 1) n ?mem =
      Some (put_words (acc + 4 * ((r + 1) * k)) (fc_rows bias ?mem x weight m k (r + 1) n) ?mem)"
    using Suc.prems len by (intro Suc.IH) simp_all
  moreover have "put_words (acc + 4 * ((r + 1) * k)) ws ?mem = put_words ?a (?ws @ ws) mem" if "length ws = n * k" for ws
    using store_at_append(2) [of ?a "concat (map bytes32 ?ws)" "concat (map bytes32 ws)" mem] that Suc.prems(3)
    by (simp add: put_words_def algebra_simps)
  moreover have "fc_rows bias mem x weight m k r (Suc n) = ?ws @ fc_rows bias mem x weight m k (r + 1) n"
    by (simp add: fc_rows_def upt_conv_Cons del: upt_Suc)
  ultimately show ?case using row rows by simp
qed

lemma fc_lemma:
  assumes "bias_fits bias (unat in_features) (unat out_features)" "acc mod 4 = 0"
    and "rows \<noteq> 0" "in_features \<noteq> 0" "out_features \<noteq> 0"
    and "unat x + unat rows * unat in_features \<le> length mem"
    and "unat weight + unat out_features * unat in_features \<le> length mem"
    and "unat acc + 4 * (unat rows * unat out_features) \<le> length mem"
    and "apart (unat x) (unat rows * unat in_features) (unat acc) (4 * (unat rows * unat out_features))"
    and "apart (unat weight) (unat out_features * unat in_features) (unat acc) (4 * (unat rows * unat out_features))"
  shows "rv_fc_s8_s32 (Some x) (Some weight) bias (Some acc) rows in_features out_features mem =
    Some (put_words (unat acc)
      (fc_rows bias mem (unat x) (unat weight) (unat in_features) (unat out_features) 0 (unat rows)) mem)"
  using fc_row_loop_rows [OF assms(1) aligned_u32 [OF assms(2)], of "unat x" 0 "unat rows" mem "unat weight"] assms(3-)
  by (simp add: rv_fc_s8_s32_def)


section \<open>Layer normalisation\<close>

text \<open>The reductions on a list.\<close>

fun lane_fold :: "(u32 \<Rightarrow> u32 \<Rightarrow> u32) \<Rightarrow> u32 list \<Rightarrow> lanes \<Rightarrow> lanes" where
  "lane_fold step (x0 # x1 # x2 # x3 # xs) (s0, s1, s2, s3) =
     lane_fold step xs (step s0 x0, step s1 x1, step s2 x2, step s3 x3)"
| "lane_fold step xs (s0, s1, s2, s3) = (foldl step s0 xs, s1, s2, s3)"

definition lane_sum :: "float_ops \<Rightarrow> (u32 \<Rightarrow> u32 \<Rightarrow> u32) \<Rightarrow> u32 list \<Rightarrow> u32" where
  "lane_sum fo step xs =
     (case lane_fold step xs (F32_ZERO, F32_ZERO, F32_ZERO, F32_ZERO) of
        (s0, s1, s2, s3) \<Rightarrow> fo_add fo (fo_add fo s0 s1) (fo_add fo s2 s3))"

definition ln_mean :: "float_ops \<Rightarrow> u32 list \<Rightarrow> u32" where
  "ln_mean fo xs = fo_div fo (lane_sum fo (fo_add fo) xs) (fo_of_u32 fo (of_nat (length xs)))"

definition ln_rstd :: "float_ops \<Rightarrow> u32 \<Rightarrow> u32 list \<Rightarrow> u32" where
  "ln_rstd fo eps xs =
     (let variance = fo_div fo (lane_sum fo (var_step fo (ln_mean fo xs)) xs) (fo_of_u32 fo (of_nat (length xs)))
      in fo_div fo F32_ONE (fo_sqrt fo (fo_add fo variance eps)))"

text \<open>The normalised row.\<close>

definition table_value :: "u32 list option \<Rightarrow> u32 \<Rightarrow> nat \<Rightarrow> u32" where
  "table_value t d i = (case t of None \<Rightarrow> d | Some xs \<Rightarrow> xs ! i)"

definition normalized :: "float_ops \<Rightarrow> u32 list option \<Rightarrow> u32 list option \<Rightarrow> u32 \<Rightarrow> u32 list \<Rightarrow> u32 list" where
  "normalized fo weight bias eps xs =
     map (\<lambda>i. fo_mul_add fo (fo_mul fo (fo_sub fo (xs ! i) (ln_mean fo xs)) (ln_rstd fo eps xs))
                (table_value weight F32_ONE i) (table_value bias F32_ZERO i)) [0..<length xs]"

lemma length_normalized [simp]: "length (normalized fo weight bias eps xs) = length xs"
  by (simp add: normalized_def)

lemma reduce_rest_fold:
  "xr mod 4 = 0 \<Longrightarrow> xr + 4 * (i + n) \<le> length mem \<Longrightarrow>
   reduce_rest step xr mem i n s = Some (foldl step s (words_at mem (xr + 4 * i) n))"
proof (induction n arbitrary: i s)
  case (Suc n)
  have "(xr + 4 * i) mod 4 = 0" using Suc.prems(1) by presburger
  with Suc show ?case by (simp add: mload32_def words_at_Suc algebra_simps)
qed (simp add: words_at_def)

lemma lane_fold_short: "length xs < 4 \<Longrightarrow> lane_fold step xs (s0, s1, s2, s3) = (foldl step s0 xs, s1, s2, s3)"
  by (cases "(step, xs, (s0, s1, s2, s3))" rule: lane_fold.cases) auto

lemma reduce_groups_fold:
  assumes "xr mod 4 = 0"
  shows "xr + 4 * dim \<le> length mem \<Longrightarrow> i \<le> dim \<Longrightarrow>
    do { (i, s0, s1, s2, s3) \<leftarrow> reduce_groups step xr dim mem i s;
         s0 \<leftarrow> reduce_rest step xr mem i (dim - i) s0;
         Some (s0, s1, s2, s3) } = Some (lane_fold step (words_at mem (xr + 4 * i) (dim - i)) s)"
proof (induction "dim - i" arbitrary: i s rule: less_induct)
  case less
  obtain s0 s1 s2 s3 where s: "s = (s0, s1, s2, s3)" by (metis prod_cases4)
  show ?case
  proof (cases "dim - i \<ge> 4")
    case False
    then have "reduce_groups step xr dim mem i s = Some (i, s)"
      by (simp add: s reduce_groups.simps)
    moreover have "reduce_rest step xr mem i (dim - i) s0 = Some (foldl step s0 (words_at mem (xr + 4 * i) (dim - i)))"
      using less.prems by (intro reduce_rest_fold [OF assms]) simp
    ultimately show ?thesis using False by (simp add: s lane_fold_short)
  next
    case True
    define n where "n = dim - (i + 4)"
    have d: "dim - i = Suc (Suc (Suc (Suc n)))" "n = dim - (i + 4)" "i + 4 \<le> dim" using True by (simp_all add: n_def)
    have al: "(xr + 4 * (i + j)) mod 4 = 0" for j using assms by presburger
    let ?x = "\<lambda>j. uload32 mem (xr + 4 * (i + j))"
    have ld: "mload32 mem (xr + 4 * (i + j)) = Some (?x j)" if "j < 4" for j
      using that al d(3) less.prems(1) by (simp add: mload32_def)
    have "reduce_groups step xr dim mem i s =
        reduce_groups step xr dim mem (i + 4) (step s0 (?x 0), step s1 (?x 1), step s2 (?x 2), step s3 (?x 3))"
      using True ld [of 0] ld [of 1] ld [of 2] ld [of 3]
      by (subst s, subst reduce_groups.simps) simp
    moreover have "words_at mem (xr + 4 * i) (dim - i) = ?x 0 # ?x 1 # ?x 2 # ?x 3 # words_at mem (xr + 4 * (i + 4)) n"
      unfolding d(1) words_at_Suc by (simp add: algebra_simps)
    ultimately show ?thesis
      using less.hyps [of "i + 4" "(step s0 (?x 0), step s1 (?x 1), step s2 (?x 2), step s3 (?x 3))"] d less.prems
      by (simp add: s)
  qed
qed

lemma reduce_row_sum:
  assumes "xr mod 4 = 0" "xr + 4 * dim \<le> length mem"
  shows "reduce_row fo step xr dim mem = Some (lane_sum fo step (words_at mem xr dim))"
proof -
  let ?z = "(F32_ZERO, F32_ZERO, F32_ZERO, F32_ZERO)"
  have "reduce_row fo step xr dim mem =
      do { (s0, s1, s2, s3) \<leftarrow> do { (i, s0, s1, s2, s3) \<leftarrow> reduce_groups step xr dim mem 0 ?z;
             s0 \<leftarrow> reduce_rest step xr mem i (dim - i) s0; Some (s0, s1, s2, s3) };
           Some (fo_add fo (fo_add fo s0 s1) (fo_add fo s2 s3)) }"
    by (simp add: reduce_row_def split: Option.bind_split prod.split)
  also have "\<dots> = Some (lane_sum fo step (words_at mem xr dim))"
    using reduce_groups_fold [OF assms, of 0 step ?z] by (simp add: lane_sum_def split: prod.split)
  finally show ?thesis .
qed

text \<open>The output of a row.\<close>

definition ln_out :: "float_ops \<Rightarrow> u32 \<Rightarrow> u32 \<Rightarrow> u32 list option \<Rightarrow> u32 list option \<Rightarrow> nat \<Rightarrow> u32 \<Rightarrow> u8 list" where
  "ln_out fo mean rstd weight bias i v =
     bytes32 (fo_mul_add fo (fo_mul fo (fo_sub fo v mean) rstd) (table_value weight F32_ONE i) (table_value bias F32_ZERO i))"

lemma length_ln_out [simp]: "length (ln_out fo mean rstd weight bias i v) = 4"
  by (simp add: ln_out_def)

definition table_fits :: "u32 list option \<Rightarrow> nat \<Rightarrow> bool" where
  "table_fits t n \<longleftrightarrow> (case t of None \<Rightarrow> True | Some xs \<Rightarrow> n \<le> length xs)"

lemma table_at_value: "table_fits t n \<Longrightarrow> i < n \<Longrightarrow> table_at t d i = Some (table_value t d i)"
  by (auto simp: table_fits_def table_at_def table_value_def split: option.splits)

lemma affine_loop_map:
  assumes "xr mod 4 = 0" "yr mod 4 = 0" "table_fits weight dim" "table_fits bias dim"
  shows "i + n = dim \<Longrightarrow> xr + 4 * dim \<le> length mem \<Longrightarrow> yr + 4 * dim \<le> length mem \<Longrightarrow>
    affine_loop fo xr yr mean rstd weight bias i n mem = Some (forward_map (ln_out fo mean rstd weight bias) 4 xr yr i n mem)"
proof (induction n arbitrary: i mem)
  case (Suc n)
  have al: "(xr + 4 * i) mod 4 = 0" "(yr + 4 * i) mod 4 = 0" using assms by presburger+
  have "i < dim" using Suc.prems(1) by simp
  with assms(3,4) have "table_at weight F32_ONE i = Some (table_value weight F32_ONE i)"
    "table_at bias F32_ZERO i = Some (table_value bias F32_ZERO i)" by (auto intro: table_at_value)
  with Suc al show ?case by (simp add: mload32_def mstore32_def ln_out_def)
qed simp

lemma layernorm_row_normalized:
  assumes "xr mod 4 = 0" "yr mod 4 = 0" "table_fits weight (unat dim)" "table_fits bias (unat dim)"
    "xr + 4 * unat dim \<le> length mem" "yr + 4 * unat dim \<le> length mem" "forward_safe xr yr (unat dim)"
  shows "layernorm_row fo xr yr dim weight bias eps mem =
    Some (put_words yr (normalized fo weight bias eps (words_at mem xr (unat dim))) mem)"
proof -
  let ?xs = "words_at mem xr (unat dim)"
  let ?g = "ln_out fo (ln_mean fo ?xs) (ln_rstd fo eps ?xs) weight bias"
  have mean: "ln_mean fo ?xs = fo_div fo (lane_sum fo (fo_add fo) ?xs) (fo_of_u32 fo dim)"
    by (simp add: ln_mean_def)
  have "layernorm_row fo xr yr dim weight bias eps mem =
      affine_loop fo xr yr (ln_mean fo ?xs) (ln_rstd fo eps ?xs) weight bias 0 (unat dim) mem"
    using reduce_row_sum [OF assms(1,5)] by (simp add: layernorm_row_def mean [symmetric] ln_rstd_def Let_def)
  also have "\<dots> = Some (forward_map ?g 4 xr yr 0 (unat dim) mem)"
    using assms by (intro affine_loop_map [where dim = "unat dim"]) simp_all
  also have "forward_map ?g 4 xr yr 0 (unat dim) mem =
      store_at yr (concat (map (\<lambda>k. ?g k (uload32 mem (xr + 4 * k))) [0..<unat dim])) mem"
    using forward_map_eq [of 4 ?g xr 0 "unat dim" mem yr] assms(5-7) by simp
  also have "map (\<lambda>k. ?g k (uload32 mem (xr + 4 * k))) [0..<unat dim] = map bytes32 (normalized fo weight bias eps ?xs)"
    by (simp add: normalized_def ln_out_def)
  finally show ?thesis by (simp add: put_words_def)
qed

text \<open>The output of rows \<open>r\<close> up to \<open>r + n\<close>.\<close>

definition normalized_rows ::
    "float_ops \<Rightarrow> u32 list option \<Rightarrow> u32 list option \<Rightarrow> u32 \<Rightarrow> u8 list \<Rightarrow> nat \<Rightarrow> nat \<Rightarrow> nat \<Rightarrow> nat \<Rightarrow> u32 list" where
  "normalized_rows fo weight bias eps mem x dim r n =
     concat (map (\<lambda>j. normalized fo weight bias eps (words_at mem (x + 4 * (j * dim)) dim)) [r..<r + n])"

lemma length_normalized_rows [simp]: "length (normalized_rows fo weight bias eps mem x dim r n) = n * dim"
  by (simp add: normalized_rows_def length_concat o_def sum_list_triv)

lemma layernorm_rows_normalized:
  assumes "x mod 4 = 0" "y mod 4 = 0" "table_fits weight (unat dim)" "table_fits bias (unat dim)"
  shows "x + 4 * ((r + n) * unat dim) \<le> length mem \<Longrightarrow> y + 4 * ((r + n) * unat dim) \<le> length mem \<Longrightarrow>
    forward_safe x y ((r + n) * unat dim) \<Longrightarrow>
    layernorm_rows fo x y dim weight bias eps r n mem =
      Some (put_words (y + 4 * (r * unat dim)) (normalized_rows fo weight bias eps mem x (unat dim) r n) mem)"
proof (induction n arbitrary: r mem)
  case 0
  then show ?case by (simp add: put_words_def normalized_rows_def)
next
  case (Suc n)
  let ?d = "unat dim" and ?N = "r + Suc n"
  let ?x = "x + 4 * (r * ?d)" and ?y = "y + 4 * (r * ?d)"
  let ?ws = "normalized fo weight bias eps (words_at mem ?x ?d)"
  let ?mem = "put_words ?y ?ws mem"
  have "(r + 1) * ?d \<le> ?N * ?d" by (intro mult_right_mono) simp_all
  then have r: "?x + 4 * ?d \<le> x + 4 * (?N * ?d)" "?y + 4 * ?d \<le> y + 4 * (?N * ?d)" by simp_all
  have safe: "y \<le> x \<or> x + 4 * (?N * ?d) \<le> y" using Suc.prems(3) by (simp add: forward_safe_def)
  then have "forward_safe ?x ?y ?d" using r unfolding forward_safe_def by linarith
  moreover have "?x mod 4 = 0" "?y mod 4 = 0" using assms by presburger+
  ultimately have row: "layernorm_row fo ?x ?y dim weight bias eps mem = Some ?mem"
    using r Suc.prems(1,2) assms(3,4) by (intro layernorm_row_normalized) linarith+
  have fit: "?y + 4 * ?d \<le> length mem" using r(2) Suc.prems(2) by linarith
  then have len: "length ?mem = length mem" by simp
  have off: "words_at ?mem (x + 4 * (j * ?d)) ?d = words_at mem (x + 4 * (j * ?d)) ?d" if "r < j" "j < ?N" for j
  proof -
    have "(r + 1) * ?d \<le> j * ?d" "(j + 1) * ?d \<le> ?N * ?d" using that by (intro mult_right_mono; simp)+
    then have j: "?x + 4 * ?d \<le> x + 4 * (j * ?d)" "x + 4 * (j * ?d) + 4 * ?d \<le> x + 4 * (?N * ?d)" by simp_all
    have "x + 4 * (j * ?d) + 4 * ?d \<le> ?y \<or> ?y + 4 * ?d \<le> x + 4 * (j * ?d)" using safe j by linarith
    then show ?thesis using words_at_off [of ?y "concat (map bytes32 ?ws)" mem "x + 4 * (j * ?d)" ?d] fit j(2) Suc.prems(1)
      by (simp add: put_words_def)
  qed
  have rows: "normalized_rows fo weight bias eps ?mem x ?d (r + 1) n = normalized_rows fo weight bias eps mem x ?d (r + 1) n"
    unfolding normalized_rows_def
    by (intro arg_cong [where f = concat] map_cong refl arg_cong [where f = "normalized fo weight bias eps"] off) auto
  have "layernorm_rows fo x y dim weight bias eps (r + 1) n ?mem =
      Some (put_words (y + 4 * ((r + 1) * ?d)) (normalized_rows fo weight bias eps ?mem x ?d (r + 1) n) ?mem)"
    using Suc.prems len by (intro Suc.IH) simp_all
  moreover have "put_words (y + 4 * ((r + 1) * ?d)) ws ?mem = put_words ?y (?ws @ ws) mem" if "length ws = n * ?d" for ws
    using store_at_append(2) [of ?y "concat (map bytes32 ?ws)" "concat (map bytes32 ws)" mem] that Suc.prems(2)
    by (simp add: put_words_def algebra_simps)
  moreover have "normalized_rows fo weight bias eps mem x ?d r (Suc n) = ?ws @ normalized_rows fo weight bias eps mem x ?d (r + 1) n"
    by (simp add: normalized_rows_def upt_conv_Cons del: upt_Suc)
  ultimately show ?case using row rows by simp
qed

lemma layernorm_lemma:
  assumes "x mod 4 = 0" "y mod 4 = 0" "dim \<noteq> 0" "table_fits weight (unat dim)" "table_fits bias (unat dim)"
    and "unat x + 4 * (unat rows * unat dim) \<le> length mem" "unat y + 4 * (unat rows * unat dim) \<le> length mem"
    and "forward_safe (unat x) (unat y) (unat rows * unat dim)"
  shows "rv_layernorm_f32 fo (Some x) (Some y) rows dim weight bias eps mem =
    Some (put_words (unat y) (normalized_rows fo weight bias eps mem (unat x) (unat dim) 0 (unat rows)) mem)"
  using layernorm_rows_normalized [OF aligned_u32 aligned_u32, OF assms(1,2,4,5), of 0 "unat rows" mem fo eps] assms(3,6-8)
  by (simp add: rv_layernorm_f32_def)


section \<open>The kernels in place\<close>

text \<open>A word read back from words that were stored.\<close>

lemma uload32_put_words:
  assumes "a + 4 * length ws \<le> length mem" "i < length ws"
  shows "uload32 (put_words a ws mem) (a + 4 * i) = ws ! i"
proof -
  have "uload32 (store_at a (concat (map bytes32 ws)) mem) (a + 4 * i) = uload32 (concat (map bytes32 ws)) (4 * i)"
    using assms by (simp add: uload32_def nth_store_at)
  also have "\<dots> = ws ! i" using assms(2)
  proof (induction ws arbitrary: i)
    case (Cons w ws)
    show ?case
    proof (cases i)
      case 0
      then show ?thesis using uload32_bytes32 [of w] by (simp add: uload32_def nth_append)
    next
      case (Suc j)
      then have "uload32 (concat (map bytes32 (w # ws))) (4 * i) = uload32 (concat (map bytes32 ws)) (4 * j)"
        by (simp add: uload32_def nth_append add.commute)
      then show ?thesis using Cons.IH [of j] Cons.prems Suc by simp
    qed
  qed simp
  finally show ?thesis by (simp add: put_words_def)
qed

lemma put_words_frame:
  assumes "a + 4 * length ws \<le> length mem" "j < length mem" "j < a \<or> a + 4 * length ws \<le> j"
  shows "put_words a ws mem ! j = mem ! j"
  using assms by (auto simp: put_words_def nth_store_at)

lemma nth_concat_rows:
  assumes "\<And>j. length (f j) = k" "r < n" "i < k"
  shows "concat (map f [0..<n]) ! (r * k + i) = f r ! i"
  using assms(2)
proof (induction n)
  case (Suc n)
  have len: "length (concat (map f [0..<n])) = n * k" by (induction n) (simp_all add: assms(1))
  show ?case
  proof (cases "r = n")
    case True
    then show ?thesis using assms(3) by (simp add: nth_append len)
  next
    case False
    with Suc.prems have r: "r < n" by simp
    then have "r * k + k \<le> n * k" using mult_right_mono [of "r + 1" n k] by simp
    with assms(3) have "r * k + i < n * k" by linarith
    then show ?thesis using Suc.IH [OF r] by (simp add: nth_append len)
  qed
qed simp

lemma nth_normalized_rows:
  "r < n \<Longrightarrow> i < dim \<Longrightarrow> normalized_rows fo weight bias eps mem x dim 0 n ! (r * dim + i) =
     normalized fo weight bias eps (words_at mem (x + 4 * (r * dim)) dim) ! i"
  by (simp add: normalized_rows_def nth_concat_rows)

lemma nth_fc_rows:
  "r < n \<Longrightarrow> i < k \<Longrightarrow> fc_rows bias mem x weight m k 0 n ! (r * k + i) = fc_row bias mem (x + r * m) weight m k ! i"
  by (simp add: fc_rows_def nth_concat_rows)

lemma dot_s8_range: "\<bar>dot_s8 mem x w n\<bar> \<le> 16384 * int n"
proof (induction n)
  case (Suc n)
  let ?p = "sint (mem ! (x + n)) * sint (mem ! (w + n))"
  have "dot_s8 mem x w (Suc n) = dot_s8 mem x w n + ?p" by (simp add: dot_s8_def)
  then show ?case
    using Suc s8_product [of "mem ! (x + n)" "mem ! (w + n)"] abs_triangle_ineq [of "dot_s8 mem x w n" ?p] by simp
qed (simp add: dot_s8_def)

lemma sint_in_range: "\<bar>v\<bar> < 2147483648 \<Longrightarrow> sint (word_of_int v :: u32) = v"
  by (simp add: sint_sbintrunc' signed_take_bit_int_eq_self)

text \<open>Quantisation may work in place: when the bytes do not start behind the floats they come from, or
  lie behind all of them, every byte is the quantised float that was there before the call, and no other
  byte changes.\<close>

theorem nn_quantize_in_place:
  assumes "x mod 4 = 0" "unat x + 4 * unat n \<le> length mem" "unat q + unat n \<le> length mem"
    and "unat q \<le> unat x \<or> unat x + 4 * unat n \<le> unat q"
  shows "\<exists>mem'. rv_quantize_s8 fo (Some x) (Some q) n scale mem = Some mem' \<and> length mem' = length mem \<and>
    (\<forall>i < unat n. mem' ! (unat q + i) = quantize_s8_value fo (uload32 mem (unat x + 4 * i)) (sanitize_scale fo scale)) \<and>
    (\<forall>j < length mem. j < unat q \<or> unat q + unat n \<le> j \<longrightarrow> mem' ! j = mem ! j)"
proof -
  let ?q = "quantized fo scale (words_at mem (unat x) (unat n))"
  have run: "rv_quantize_s8 fo (Some x) (Some q) n scale mem = Some (store_at (unat q) ?q mem)"
    by (rule quantize_lemma) (use assms in \<open>auto simp: forward_safe_def\<close>)
  have len: "length ?q = unat n" by (simp add: quantized_def)
  show ?thesis
    using run assms(3) len by (intro exI [of _ "store_at (unat q) ?q mem"]) (auto simp: nth_store_at quantized_def)
qed

text \<open>C21.  So may layer normalisation: every row of the result is the normalised row that was there before
  the call, computed with the four partial sums of the unrolled loop, and no other byte changes.\<close>

theorem nn_layernorm_in_place:
  assumes "x mod 4 = 0" "y mod 4 = 0" "dim \<noteq> 0" "table_fits weight (unat dim)" "table_fits bias (unat dim)"
    and "unat x + 4 * (unat rows * unat dim) \<le> length mem" "unat y + 4 * (unat rows * unat dim) \<le> length mem"
    and "unat y \<le> unat x \<or> unat x + 4 * (unat rows * unat dim) \<le> unat y"
  shows "\<exists>mem'. rv_layernorm_f32 fo (Some x) (Some y) rows dim weight bias eps mem = Some mem' \<and> length mem' = length mem \<and>
    (\<forall>r < unat rows. \<forall>i < unat dim. uload32 mem' (unat y + 4 * (r * unat dim + i)) =
       normalized fo weight bias eps (words_at mem (unat x + 4 * (r * unat dim)) (unat dim)) ! i) \<and>
    (\<forall>j < length mem. j < unat y \<or> unat y + 4 * (unat rows * unat dim) \<le> j \<longrightarrow> mem' ! j = mem ! j)"
proof -
  let ?ws = "normalized_rows fo weight bias eps mem (unat x) (unat dim) 0 (unat rows)"
  have run: "rv_layernorm_f32 fo (Some x) (Some y) rows dim weight bias eps mem = Some (put_words (unat y) ?ws mem)"
    by (rule layernorm_lemma) (use assms in \<open>auto simp: forward_safe_def\<close>)
  have fit: "unat y + 4 * length ?ws \<le> length mem" using assms(7) by simp
  have "uload32 (put_words (unat y) ?ws mem) (unat y + 4 * (r * unat dim + i)) =
      normalized fo weight bias eps (words_at mem (unat x + 4 * (r * unat dim)) (unat dim)) ! i"
    if "r < unat rows" "i < unat dim" for r i
  proof -
    have "r * unat dim + unat dim \<le> unat rows * unat dim" using mult_right_mono [of "r + 1" "unat rows" "unat dim"] that(1) by simp
    with that(2) have "r * unat dim + i < length ?ws" by simp
    from uload32_put_words [OF fit this] show ?thesis unfolding nth_normalized_rows [OF that] .
  qed
  then show ?thesis
    using run fit put_words_frame [OF fit] by (intro exI [of _ "put_words (unat y) ?ws mem"]) simp
qed

text \<open>C40.  The fully connected layer is exact: when the bias of every output leaves room for the largest
  possible dot product, no accumulator overflows, and each is the bias plus the dot product over the
  integers.\<close>

theorem nn_fc_exact:
  assumes "bias_fits bias (unat in_features) (unat out_features)" "acc mod 4 = 0"
    and "rows \<noteq> 0" "in_features \<noteq> 0" "out_features \<noteq> 0"
    and "unat x + unat rows * unat in_features \<le> length mem"
    and "unat weight + unat out_features * unat in_features \<le> length mem"
    and "unat acc + 4 * (unat rows * unat out_features) \<le> length mem"
    and "apart (unat x) (unat rows * unat in_features) (unat acc) (4 * (unat rows * unat out_features))"
    and "apart (unat weight) (unat out_features * unat in_features) (unat acc) (4 * (unat rows * unat out_features))"
  shows "\<exists>mem'. rv_fc_s8_s32 (Some x) (Some weight) bias (Some acc) rows in_features out_features mem = Some mem' \<and>
    (\<forall>r < unat rows. \<forall>k < unat out_features.
       sint (uload32 mem' (unat acc + 4 * (r * unat out_features + k))) =
         fc_bias bias k + (\<Sum>i < unat in_features. sint (mem ! (unat x + r * unat in_features + i)) *
           sint (mem ! (unat weight + k * unat in_features + i))))"
proof -
  let ?m = "unat in_features" and ?k = "unat out_features"
  let ?ws = "fc_rows bias mem (unat x) (unat weight) ?m ?k 0 (unat rows)"
  have fit: "unat acc + 4 * length ?ws \<le> length mem" using assms(8) by simp
  have "sint (uload32 (put_words (unat acc) ?ws mem) (unat acc + 4 * (r * ?k + k))) =
      fc_bias bias k + dot_s8 mem (unat x + r * ?m) (unat weight + k * ?m) ?m"
    if r: "r < unat rows" and k: "k < ?k" for r k
  proof -
    have "r * ?k + ?k \<le> unat rows * ?k" using mult_right_mono [of "r + 1" "unat rows" ?k] r by simp
    with k have "r * ?k + k < length ?ws" by simp
    from uload32_put_words [OF fit this]
    have "uload32 (put_words (unat acc) ?ws mem) (unat acc + 4 * (r * ?k + k)) = fc_row bias mem (unat x + r * ?m) (unat weight) ?m ?k ! k"
      unfolding nth_fc_rows [OF r k] .
    also have "\<dots> = word_of_int (fc_bias bias k + dot_s8 mem (unat x + r * ?m) (unat weight + k * ?m) ?m)"
      using k by (simp add: fc_row_def)
    also have "sint \<dots> = fc_bias bias k + dot_s8 mem (unat x + r * ?m) (unat weight + k * ?m) ?m"
      by (rule sint_in_range)
        (use dot_s8_range [of mem "unat x + r * ?m" "unat weight + k * ?m" ?m] fc_bias_at(2) [OF assms(1) k] in linarith)
    finally show ?thesis .
  qed
  then show ?thesis using fc_lemma [OF assms] by (auto simp: dot_s8_def)
qed


text \<open>Concrete operations for the applications below: integers in the place of floats.\<close>

definition demo_floats :: float_ops where
  "demo_floats = \<lparr>fo_add = (+), fo_sub = (-), fo_mul = (*), fo_div = (\<lambda>a b. if b = 0 then 0 else a div b),
     fo_mul_add = (\<lambda>a b c. a * b + c), fo_sqrt = (\<lambda>a. a), fo_rint = (\<lambda>a. a), fo_less = (<),
     fo_to_s8 = ucast, fo_of_s32 = (\<lambda>a. a), fo_of_u32 = (\<lambda>a. a)\<rparr>"

definition demo_kernel_mem :: "u8 list" where
  "demo_kernel_mem = [1, 0, 0, 0, 2, 0, 0, 0, 255, 3, 0, 0, 9, 9, 9, 9]"

lemma length_demo_kernel_mem [simp]: "length demo_kernel_mem = 16"
  by (simp add: demo_kernel_mem_def)

theorem nn_quantize_in_place_witness:
  "\<exists>mem'. rv_quantize_s8 demo_floats (Some 0) (Some 0) 3 F32_ONE demo_kernel_mem = Some mem' \<and> length mem' = 16 \<and>
     mem' ! 15 = 9"
  using nn_quantize_in_place [of 0 3 demo_kernel_mem 0 demo_floats F32_ONE]
  by (auto simp: demo_kernel_mem_def dest: spec [of _ 15])

theorem nn_layernorm_in_place_witness:
  "\<exists>mem'. rv_layernorm_f32 demo_floats (Some 4) (Some 0) 1 2 None (Some [5, 6]) 7 demo_kernel_mem = Some mem' \<and>
     uload32 mem' 4 = normalized demo_floats None (Some [5, 6]) 7 (words_at demo_kernel_mem 4 2) ! 1"
  using nn_layernorm_in_place [of 4 0 2 None "Some [5, 6]" 1 demo_kernel_mem demo_floats 7]
  by (auto simp: table_fits_def dest: spec [of _ 1])

theorem nn_fc_exact_witness:
  "\<exists>mem'. rv_fc_s8_s32 (Some 0) (Some 8) (Some [- 5]) (Some 12) 1 2 1 demo_kernel_mem = Some mem' \<and>
     sint (uload32 mem' 12) = - 6"
proof -
  have sum: "(\<Sum>i < 2. f i) = f 0 + f (1 :: nat)" for f :: "nat \<Rightarrow> int" by (simp add: numeral_2_eq_2)
  show ?thesis
    using nn_fc_exact [of "Some [- 5]" 2 1 12 1 0 demo_kernel_mem 8]
    by (auto simp: bias_fits_def apart_def fc_bias_def sum demo_kernel_mem_def)
qed

end
