(* ===== verification/Artifact_Laws.thy ===== *)
theory Artifact_Laws
  imports Artifact
begin

text \<open>
  What the artifact reader promises: the exact meaning of \<open>copy_shape\<close>, the contract
  \<open>io_mapping_ok\<close> that \<open>rvrt_artifact_read\<close> establishes, and the laws of the accessors on an
  accepted artifact.
\<close>

section \<open>Shapes\<close>

text \<open>The abstract meaning of a shape: the product of its dimensions as natural numbers.\<close>

definition numel_of :: "i32 list \<Rightarrow> nat" where
  "numel_of dims = prod_list (map unat dims)"

definition dims_ok :: "i32 list \<Rightarrow> bool" where
  "dims_ok dims \<longleftrightarrow> list_all (\<lambda>d. 0 < sint d) dims \<and> numel_of dims < 2 ^ 32"

lemma sint_pos_unat: "0 < sint (d :: u32) \<Longrightarrow> 0 < unat d"
  by (metis gr0I less_irrefl sint_0 unat_eq_zero)

lemma mult_overflow_guard:
  fixes p d :: u32
  assumes "0 < unat d"
  shows "p > UINT32_MAX div d \<longleftrightarrow> unat p * unat d \<ge> 2 ^ 32"
proof -
  have "unat (UINT32_MAX div d) = (2 ^ 32 - 1) div unat d"
    by (simp add: unat_div)
  then have "p > UINT32_MAX div d \<longleftrightarrow> (2 ^ 32 - 1) div unat d < unat p"
    by (simp add: word_less_nat_alt)
  also have "\<dots> \<longleftrightarrow> 2 ^ 32 - 1 < unat p * unat d"
    using assms by (simp add: div_less_iff_less_mult)
  finally show ?thesis by auto
qed

lemma copy_shape_loop_spec:
  "copy_shape_loop ds p =
     (if list_all (\<lambda>d. 0 < sint d) ds \<and> unat p * numel_of ds < 2 ^ 32
      then Inr (of_nat (unat p * numel_of ds)) else Inl RVRT_ARTIFACT_OUT_OF_RANGE)"
proof (induction ds arbitrary: p)
  case Nil
  then show ?case by (simp add: numel_of_def)
next
  case (Cons d ds)
  have numel: "numel_of (d # ds) = unat d * numel_of ds" by (simp add: numel_of_def)
  show ?case
  proof (cases "0 < sint d")
    case False
    then show ?thesis by simp
  next
    case pos: True
    then have d: "0 < unat d" by (rule sint_pos_unat)
    show ?thesis
    proof (cases "unat p * unat d < 2 ^ 32")
      case True
      then have "unat (p * d) = unat p * unat d" by (rule unat_mult_u32)
      then show ?thesis
        using Cons.IH [of "p * d"] True mult_overflow_guard [OF d, of p] pos numel
        by (simp add: mult.assoc not_le)
    next
      case False
      have "numel_of ds > 0" if "list_all (\<lambda>d. 0 < sint d) ds"
        using that by (induction ds) (auto simp: numel_of_def dest: sint_pos_unat)
      then have "\<not> (list_all (\<lambda>d. 0 < sint d) ds \<and> unat p * (unat d * numel_of ds) < 2 ^ 32)"
        using False by (metis One_nat_def Suc_leI mult.assoc mult_le_mono2 mult.right_neutral
            order.strict_trans1)
      then show ?thesis
        using False mult_overflow_guard [OF d, of p] pos numel by (auto simp: not_less)
    qed
  qed
qed

text \<open>A shape is accepted exactly when it is present, every dimension is positive and the
  mathematical product of the dimensions is below \<open>2^32\<close>; then the element count is that product.
  A scalar (rank 0) counts one element.\<close>

theorem copy_shape_exact:
  "copy_shape shape =
     (case shape of
        None \<Rightarrow> Inl RVRT_ARTIFACT_MISSING_FIELD
      | Some sh \<Rightarrow>
          (case sh_size sh of
             None \<Rightarrow> Inl RVRT_ARTIFACT_MISSING_FIELD
           | Some dims \<Rightarrow> if dims_ok dims then Inr (of_nat (numel_of dims))
                          else Inl RVRT_ARTIFACT_OUT_OF_RANGE))"
  by (simp add: copy_shape_def dims_ok_def copy_shape_loop_spec split: option.split)


section \<open>The contract of an accepted artifact\<close>

text \<open>The payload width of a \<open>DataType\<close>: the pairs unsigned/signed of width 1, 2, 4 and 8.\<close>

definition dtype_width :: "u8 \<Rightarrow> nat option" where
  "dtype_width d = (if 1 \<le> d \<and> d \<le> 8 then Some (2 ^ ((unat d - 1) div 2)) else None)"

definition shape_count :: "fbs_Shape option \<Rightarrow> nat option" where
  "shape_count shape =
     (case shape of
        None \<Rightarrow> None
      | Some sh \<Rightarrow>
          (case sh_size sh of
             None \<Rightarrow> None
           | Some dims \<Rightarrow> if dims_ok dims then Some (numel_of dims) else None))"

definition input_entry_ok :: "nat \<Rightarrow> nat \<Rightarrow> fbs_InputEntry option \<Rightarrow> bool" where
  "input_entry_ok numel width entry =
     (case entry of
        None \<Rightarrow> False
      | Some e \<Rightarrow> ie_core_offset e \<noteq> None \<and> ie_copy_count e \<noteq> None \<and>
          unat (ie_elem_idx e) < numel \<and> unat (ie_target_lcn e) \<le> 7 \<and>
          dtype_width (ie_dtype e) = Some width)"

definition input_mapping_ok :: "fbs_InputTensorMapping option \<Rightarrow> bool" where
  "input_mapping_ok mapping =
     (case mapping of
        None \<Rightarrow> False
      | Some m \<Rightarrow>
          (case (shape_count (im_shape m), im_entries m) of
             (Some numel, Some entries) \<Rightarrow>
               list_all (input_entry_ok numel (unat (im_bit_width m))) entries
           | _ \<Rightarrow> False))"

definition output_keys :: "fbs_OutputEntry option list \<Rightarrow> u32 list" where
  "output_keys entries = map (\<lambda>e. oe_axon_bit_idx (the e)) entries"

definition output_entry_ok :: "nat \<Rightarrow> fbs_OutputEntry option \<Rightarrow> bool" where
  "output_entry_ok numel entry =
     (case entry of None \<Rightarrow> False | Some e \<Rightarrow> unat (oe_elem_idx e) < numel)"

definition output_mapping_ok :: "fbs_OutputTensorMapping option \<Rightarrow> bool" where
  "output_mapping_ok mapping =
     (case mapping of
        None \<Rightarrow> False
      | Some m \<Rightarrow>
          (case (shape_count (om_shape m), om_entries m) of
             (Some numel, Some entries) \<Rightarrow>
               list_all (output_entry_ok numel) entries \<and>
               sorted_wrt (<) (output_keys entries) \<and>
               (om_kind m = OutputKind_DATA \<and> unat (om_bit_width m) \<le> 8 \<and>
                  list_all (\<lambda>e. dtype_width (oe_dtype (the e)) = Some (unat (om_bit_width m))) entries
                \<or> om_kind m = OutputKind_VOLTAGE \<and> om_bit_width m = 32)
           | _ \<Rightarrow> False))"

definition thread_ok :: "fbs_ThreadIOMapping option \<Rightarrow> bool" where
  "thread_ok thread =
     (case thread of
        None \<Rightarrow> False
      | Some t \<Rightarrow>
          (case (th_input_mappings t, th_output_mappings t) of
             (Some ins, Some outs) \<Rightarrow>
               (case (ims_items ins, oms_items outs) of
                  (Some in_items, Some out_items) \<Rightarrow>
                    unat (oms_target_lcn outs) \<le> 7 \<and> list_all input_mapping_ok in_items \<and>
                    list_all output_mapping_ok out_items
                | _ \<Rightarrow> False)
           | _ \<Rightarrow> False))"

definition io_mapping_ok :: "fbs_IOMapping option \<Rightarrow> bool" where
  "io_mapping_ok io_mapping =
     (case io_mapping of
        None \<Rightarrow> False
      | Some io \<Rightarrow> (case io_threads io of None \<Rightarrow> False | Some threads \<Rightarrow> list_all thread_ok threads))"


section \<open>Validation decides the contract\<close>

lemma first_error_OK: "first_error f xs = RVRT_ARTIFACT_OK \<longleftrightarrow> list_all (\<lambda>x. f x = RVRT_ARTIFACT_OK) xs"
  by (induction xs) auto

lemma u8_cases9:
  fixes d :: u8
  assumes "d \<le> 8"
  shows "d = 0 \<or> d = 1 \<or> d = 2 \<or> d = 3 \<or> d = 4 \<or> d = 5 \<or> d = 6 \<or> d = 7 \<or> d = 8"
proof -
  have "unat d \<le> 8" using assms by (simp add: word_le_nat_alt)
  then have "unat d \<in> {0, 1, 2, 3, 4, 5, 6, 7, 8}" by auto
  then show ?thesis by (auto simp: word_unat_eq_iff)
qed

lemma mapping_dtype_bits_spec:
  "mapping_dtype_bits d =
     (case dtype_width d of None \<Rightarrow> Inl RVRT_ARTIFACT_OUT_OF_RANGE | Some w \<Rightarrow> Inr (of_nat w))"
proof (cases "d \<le> 8")
  case True
  from u8_cases9 [OF this] show ?thesis
    by (elim disjE) (simp_all add: mapping_dtype_bits_def dtype_width_def word_le_nat_alt)
next
  case False
  then show ?thesis by (auto simp: mapping_dtype_bits_def dtype_width_def word_le_nat_alt)
qed

lemma dtype_width_le: "dtype_width d = Some w \<Longrightarrow> 1 \<le> w \<and> w \<le> 8"
proof -
  assume w: "dtype_width d = Some w"
  then have "d \<le> 8" by (simp add: dtype_width_def split: if_splits)
  from u8_cases9 [OF this] w show "1 \<le> w \<and> w \<le> 8"
    by (elim disjE) (auto simp: dtype_width_def word_le_nat_alt)
qed

lemma of_nat_u32_eq: "n < 2 ^ 32 \<Longrightarrow> (of_nat n :: u32) = w \<longleftrightarrow> n = unat w"
  by (auto simp: word_unat_eq_iff unat_of_nat)

lemma copy_shape_count:
  "copy_shape shape =
     (case shape_count shape of
        Some numel \<Rightarrow> Inr (of_nat numel)
      | None \<Rightarrow> (case shape of
                   Some sh \<Rightarrow> if sh_size sh = None then Inl RVRT_ARTIFACT_MISSING_FIELD
                              else Inl RVRT_ARTIFACT_OUT_OF_RANGE
                 | None \<Rightarrow> Inl RVRT_ARTIFACT_MISSING_FIELD))"
  by (simp add: copy_shape_def shape_count_def dims_ok_def copy_shape_loop_spec split: option.split)

lemma shape_count_lt: "shape_count shape = Some n \<Longrightarrow> n < 2 ^ 32"
  by (auto simp: shape_count_def dims_ok_def split: option.splits if_splits)

lemma validate_input_entry_OK:
  assumes "numel < 2 ^ 32"
  shows "validate_input_entry (of_nat numel) bw entry = RVRT_ARTIFACT_OK \<longleftrightarrow>
         input_entry_ok numel (unat bw) entry"
proof (cases entry)
  case None
  then show ?thesis by (simp add: validate_input_entry_def input_entry_ok_def)
next
  case (Some e)
  show ?thesis
  proof (cases "dtype_width (ie_dtype e)")
    case None
    with Some show ?thesis
      by (simp add: validate_input_entry_def input_entry_ok_def mapping_dtype_bits_spec)
  next
    case w: (Some w)
    then have "w \<le> 8" by (auto dest: dtype_width_le)
    then have "w < 2 ^ 32" "\<not> (of_nat w :: u32) > 8"
      by (auto simp: word_less_nat_alt unat_of_nat)
    with Some w assms show ?thesis
      by (auto simp: validate_input_entry_def input_entry_ok_def mapping_dtype_bits_spec
          of_nat_u32_eq word_less_nat_alt word_le_nat_alt unat_of_nat)
  qed
qed

lemma validate_input_mapping_OK:
  "validate_input_mapping mapping = RVRT_ARTIFACT_OK \<longleftrightarrow> input_mapping_ok mapping"
proof (cases mapping)
  case None
  then show ?thesis by (simp add: validate_input_mapping_def input_mapping_ok_def)
next
  case (Some m)
  show ?thesis
  proof (cases "shape_count (im_shape m)")
    case None
    with Some show ?thesis
      by (auto simp: validate_input_mapping_def input_mapping_ok_def copy_shape_count
          split: option.split)
  next
    case n: (Some numel)
    then have "im_shape m \<noteq> None" by (auto simp: shape_count_def split: option.splits)
    with Some n shape_count_lt [OF n] show ?thesis
      by (auto simp: validate_input_mapping_def input_mapping_ok_def copy_shape_count
          first_error_OK validate_input_entry_OK split: option.split)
  qed
qed

lemma validate_output_keys_OK:
  assumes "numel < 2 ^ 32"
  shows "validate_output_keys (of_nat numel) first prev es = RVRT_ARTIFACT_OK \<longleftrightarrow>
         list_all (output_entry_ok numel) es \<and> sorted_wrt (<) (output_keys es) \<and>
         (first \<or> (\<forall>k \<in> set (output_keys es). prev < k))"
proof (induction es arbitrary: first prev)
  case Nil
  then show ?case by (simp add: output_keys_def)
next
  case (Cons entry es)
  show ?case
  proof (cases entry)
    case None
    then show ?thesis by (simp add: output_entry_ok_def)
  next
    case (Some e)
    have "of_nat numel \<le> oe_elem_idx e \<longleftrightarrow> \<not> unat (oe_elem_idx e) < numel"
      using assms by (auto simp: word_le_nat_alt unat_of_nat)
    with Some Cons.IH show ?thesis
      by (auto simp: output_entry_ok_def output_keys_def not_le intro: order.strict_trans)
  qed
qed

lemma validate_output_dtype_OK:
  "validate_output_dtype bw (Some e) = RVRT_ARTIFACT_OK \<longleftrightarrow>
   dtype_width (oe_dtype e) = Some (unat bw)"
proof (cases "dtype_width (oe_dtype e)")
  case (Some w)
  then have "w < 2 ^ 32" by (auto dest: dtype_width_le)
  with Some show ?thesis
    by (auto simp: validate_output_dtype_def mapping_dtype_bits_spec of_nat_u32_eq)
qed (simp add: validate_output_dtype_def mapping_dtype_bits_spec)

lemma validate_output_dtypes_OK:
  assumes "list_all (output_entry_ok numel) es"
  shows "first_error (validate_output_dtype bw) es = RVRT_ARTIFACT_OK \<longleftrightarrow>
         list_all (\<lambda>e. dtype_width (oe_dtype (the e)) = Some (unat bw)) es"
  unfolding first_error_OK
proof (rule list.pred_cong [OF refl])
  fix e assume "e \<in> set es"
  with assms obtain e' where "e = Some e'"
    by (auto simp: list_all_iff output_entry_ok_def split: option.splits)
  then show "(validate_output_dtype bw e = RVRT_ARTIFACT_OK) =
             (dtype_width (oe_dtype (the e)) = Some (unat bw))"
    by (simp add: validate_output_dtype_OK)
qed

lemma validate_output_mapping_OK:
  "validate_output_mapping mapping = RVRT_ARTIFACT_OK \<longleftrightarrow> output_mapping_ok mapping"
proof (cases mapping)
  case None
  then show ?thesis by (simp add: validate_output_mapping_def output_mapping_ok_def)
next
  case (Some m)
  show ?thesis
  proof (cases "shape_count (om_shape m)")
    case None
    with Some show ?thesis
      by (auto simp: validate_output_mapping_def output_mapping_ok_def copy_shape_count
          split: option.split)
  next
    case n: (Some numel)
    then obtain sh where sh: "om_shape m = Some sh"
      by (auto simp: shape_count_def split: option.splits)
    show ?thesis
    proof (cases "om_entries m")
      case None
      with Some n sh show ?thesis
        by (simp add: validate_output_mapping_def output_mapping_ok_def)
    next
      case es: (Some es)
      let ?keys = "validate_output_keys (of_nat numel) True 0 es"
      have keys: "?keys = RVRT_ARTIFACT_OK \<longleftrightarrow>
          list_all (output_entry_ok numel) es \<and> sorted_wrt (<) (output_keys es)"
        by (simp add: validate_output_keys_OK shape_count_lt [OF n, simplified])
      have width: "om_bit_width m > 8 \<longleftrightarrow> \<not> unat (om_bit_width m) \<le> 8"
        by (simp add: word_less_nat_alt not_le)
      have dt: "?keys = RVRT_ARTIFACT_OK \<Longrightarrow>
          (first_error (validate_output_dtype (om_bit_width m)) es = RVRT_ARTIFACT_OK) =
          list_all (\<lambda>e. dtype_width (oe_dtype (the e)) = Some (unat (om_bit_width m))) es"
        using keys validate_output_dtypes_OK by blast
      show ?thesis
      proof (cases "?keys = RVRT_ARTIFACT_OK")
        case True
        with Some n sh es keys dt width show ?thesis
          by (auto simp: validate_output_mapping_def output_mapping_ok_def copy_shape_count Let_def)
      next
        case False
        with Some n sh es keys show ?thesis
          by (auto simp: validate_output_mapping_def output_mapping_ok_def copy_shape_count Let_def)
      qed
    qed
  qed
qed

lemma validate_thread_OK: "validate_thread t = RVRT_ARTIFACT_OK \<longleftrightarrow> thread_ok t"
proof -
  have "oms_target_lcn outs > kTargetLcnMax \<longleftrightarrow> \<not> unat (oms_target_lcn outs) \<le> 7" for outs
    by (simp add: word_less_nat_alt not_le)
  then show ?thesis
    by (auto simp: validate_thread_def thread_ok_def Let_def first_error_OK
        validate_input_mapping_OK validate_output_mapping_OK list_all_iff split: option.split)
qed

lemma validate_io_mapping_OK: "validate_io_mapping io = RVRT_ARTIFACT_OK \<longleftrightarrow> io_mapping_ok io"
  by (auto simp: validate_io_mapping_def io_mapping_ok_def first_error_OK validate_thread_OK
      list_all_iff split: option.split)


section \<open>Reading\<close>

lemma is_aligned_iff: "is_aligned address \<longleftrightarrow> 8 dvd unat address"
proof -
  have "address AND (8 - 1) = take_bit 3 address"
    by (simp add: take_bit_eq_mask mask_eq_exp_minus_1)
  moreover have "unat (take_bit 3 address) = unat address mod 8"
    by (simp add: take_bit_eq_mod unat_mod)
  ultimately show ?thesis
    by (simp add: is_aligned_def word_unat_eq_iff dvd_eq_mod_eq_0)
qed

text \<open>What a reader may rely on once \<open>rvrt_artifact_read\<close> has accepted the bytes.\<close>

definition accepted :: "rvrt_artifact \<Rightarrow> bool" where
  "accepted a \<longleftrightarrow> art_root a \<noteq> None \<and> io_mapping_ok (art_io_mapping a) \<and>
     (case art_config_frames a of None \<Rightarrow> False | Some config \<Rightarrow> cf_words config \<noteq> None)"

definition read_contract ::
    "(u8 list \<Rightarrow> u32 \<Rightarrow> bool) \<Rightarrow> (u8 list \<Rightarrow> fbs_CompileArtifacts) \<Rightarrow> u32 \<Rightarrow> u8 list \<Rightarrow> u32 \<Rightarrow> bool"
  where
  "read_contract verify get_root address bytes n \<longleftrightarrow>
     n \<noteq> 0 \<and> 8 dvd unat address \<and> verify bytes n \<and> ca_schema_version (get_root bytes) = 1 \<and>
     io_mapping_ok (ca_io_mapping (get_root bytes)) \<and>
     (case ca_config_frames (get_root bytes) of None \<Rightarrow> False | Some c \<Rightarrow> cf_words c \<noteq> None)"

definition artifact_of :: "fbs_CompileArtifacts \<Rightarrow> rvrt_artifact" where
  "artifact_of root = \<lparr>art_root = Some root, art_io_mapping = ca_io_mapping root,
                       art_config_frames = ca_config_frames root\<rparr>"

lemma artifact_read_lemma:
  "let r = rvrt_artifact_read verify get_root (Some (address, bytes)) n (Some a0);
       ok = read_contract verify get_root address bytes n
   in (fst r = RVRT_ARTIFACT_OK) = ok \<and>
      snd r = Some (if ok then artifact_of (get_root bytes) else if n = 0 then a0 else zero_artifact)"
proof -
  let ?root = "get_root bytes"
  have io: "io_mapping_ok (Some io) \<Longrightarrow> io_threads io \<noteq> None" for io
    by (auto simp: io_mapping_ok_def split: option.splits)
  show ?thesis
  proof (cases "read_contract verify get_root address bytes n")
    case True
    then obtain io c where "ca_io_mapping ?root = Some io" "ca_config_frames ?root = Some c"
      "io_mapping_ok (Some io)" "cf_words c \<noteq> None" "n \<noteq> 0" "is_aligned address"
      "verify bytes n" "ca_schema_version ?root = 1"
      by (auto simp: read_contract_def is_aligned_iff io_mapping_ok_def split: option.splits)
    then show ?thesis
      using True io validate_io_mapping_OK [of "Some io"]
      by (simp add: rvrt_artifact_read_def Let_def artifact_of_def)
  next
    case False
    then have "fst (rvrt_artifact_read verify get_root (Some (address, bytes)) n (Some a0)) \<noteq>
               RVRT_ARTIFACT_OK"
      by (auto simp: rvrt_artifact_read_def Let_def read_contract_def is_aligned_iff
          validate_io_mapping_OK split: option.splits)
    moreover from this have
      "snd (rvrt_artifact_read verify get_root (Some (address, bytes)) n (Some a0)) =
       Some (if n = 0 then a0 else zero_artifact)"
      by (auto simp: rvrt_artifact_read_def Let_def split: option.splits if_splits)
    ultimately show ?thesis using False by (simp add: Let_def)
  qed
qed

text \<open>C28.  \<open>rvrt_artifact_read\<close> accepts a buffer exactly when it is not empty, aligned, verified,
  of the supported schema, carries config words, and every mapping of every thread satisfies the
  reader's contract (elements inside the shape, LCN at most 7, payload widths equal to the
  declared width, strictly increasing output keys).  An accepted artifact points to the tables of
  the buffer.  A refusal clears the caller's artifact, except when the arguments are refused before anything is
  looked at: for an empty buffer (a size of 0) the result is BAD_VALUE, for a NULL pointer NULL_ARGUMENT, and
  the caller's object is left as it was.\<close>

theorem artifact_read_decides_contract:
  "(let r = rvrt_artifact_read verify get_root (Some (address, bytes)) n (Some a0);
        ok = read_contract verify get_root address bytes n
    in (fst r = RVRT_ARTIFACT_OK) = ok \<and>
       snd r = Some (if ok then artifact_of (get_root bytes) else if n = 0 then a0 else zero_artifact)) \<and>
   rvrt_artifact_read verify get_root (Some (address, bytes)) 0 (Some a0) = (RVRT_ARTIFACT_BAD_VALUE, Some a0) \<and>
   rvrt_artifact_read verify get_root None n a = (RVRT_ARTIFACT_NULL_ARGUMENT, a) \<and>
   rvrt_artifact_read verify get_root data n None = (RVRT_ARTIFACT_NULL_ARGUMENT, None)"
  using artifact_read_lemma [of verify get_root address bytes n a0]
  by (auto simp: rvrt_artifact_read_def split: option.split)

lemma read_contract_accepted:
  "read_contract verify get_root address bytes n \<Longrightarrow> accepted (artifact_of (get_root bytes))"
  by (simp add: read_contract_def accepted_def artifact_of_def)


section \<open>Accessors on accepted artifacts\<close>

lemma vector_at_all:
  assumes "list_all P v" "vector_at v i = Inr t"
  shows "P (Some t)"
proof -
  from assms(2) have i: "i < vsize v" and t: "v ! unat i = Some t"
    by (auto simp: vector_at_def not_le split: if_splits option.splits)
  from i have "unat i < length v"
    by (metis le_unat_uoi linorder_not_le nat_neq_iff order_less_le_trans unat_mono)
  with assms(1) t show ?thesis by (metis list_all_length)
qed

lemma vector_at_error:
  assumes "list_all P v" "\<not> P None" "vector_at v i = Inl status"
  shows "status = RVRT_ARTIFACT_OUT_OF_RANGE"
proof (rule ccontr)
  assume "status \<noteq> RVRT_ARTIFACT_OUT_OF_RANGE"
  with assms(3) have i: "i < vsize v" and "v ! unat i = None"
    by (auto simp: vector_at_def not_le split: if_splits option.splits)
  moreover from i have "unat i < length v"
    by (metis le_unat_uoi linorder_not_le nat_neq_iff order_less_le_trans unat_mono)
  ultimately show False using assms(1,2) by (metis list_all_length)
qed

lemma thread_at_ok:
  assumes "accepted a"
  shows "thread_at (Some a) t = Inr thread \<Longrightarrow> thread_ok (Some thread)"
    and "thread_at (Some a) t = Inl status \<Longrightarrow> status = RVRT_ARTIFACT_OUT_OF_RANGE"
proof -
  from assms obtain io threads where io: "art_io_mapping a = Some io" "io_threads io = Some threads"
      and all: "list_all thread_ok threads"
    by (auto simp: accepted_def io_mapping_ok_def split: option.splits)
  show "thread_ok (Some thread)" if "thread_at (Some a) t = Inr thread"
    using that io all by (auto simp: thread_at_def intro: vector_at_all)
  show "status = RVRT_ARTIFACT_OUT_OF_RANGE" if "thread_at (Some a) t = Inl status"
    using that io all vector_at_error [OF all] by (simp add: thread_at_def thread_ok_def)
qed

lemma input_at_ok:
  assumes "accepted a"
  shows "input_at (Some a) t i = Inr m \<Longrightarrow> input_mapping_ok (Some m)"
    and "input_at (Some a) t i = Inl status \<Longrightarrow> status = RVRT_ARTIFACT_OUT_OF_RANGE"
proof -
  consider (err) "thread_at (Some a) t = Inl RVRT_ARTIFACT_OUT_OF_RANGE"
    | (ok) thread where "thread_at (Some a) t = Inr thread" "thread_ok (Some thread)"
    using thread_at_ok [OF assms] by (cases "thread_at (Some a) t") auto
  then have *: "(\<forall>m. input_at (Some a) t i = Inr m \<longrightarrow> input_mapping_ok (Some m)) \<and>
      (\<forall>s. input_at (Some a) t i = Inl s \<longrightarrow> s = RVRT_ARTIFACT_OUT_OF_RANGE)"
  proof cases
    case err
    then show ?thesis by (simp add: input_at_def)
  next
    case ok
    then obtain ins items where "th_input_mappings thread = Some ins" "ims_items ins = Some items"
        and all: "list_all input_mapping_ok items"
      by (auto simp: thread_ok_def split: option.splits)
    then have "input_at (Some a) t i = vector_at items i" using ok by (simp add: input_at_def)
    then show ?thesis
      using vector_at_all [OF all] vector_at_error [OF all] by (auto simp: input_mapping_ok_def)
  qed
  then show "input_at (Some a) t i = Inr m \<Longrightarrow> input_mapping_ok (Some m)"
    and "input_at (Some a) t i = Inl status \<Longrightarrow> status = RVRT_ARTIFACT_OUT_OF_RANGE" by auto
qed

lemma output_at_ok:
  assumes "accepted a"
  shows "output_at (Some a) t i = Inr m \<Longrightarrow> output_mapping_ok (Some m)"
    and "output_at (Some a) t i = Inl status \<Longrightarrow> status = RVRT_ARTIFACT_OUT_OF_RANGE"
proof -
  consider (err) "thread_at (Some a) t = Inl RVRT_ARTIFACT_OUT_OF_RANGE"
    | (ok) thread where "thread_at (Some a) t = Inr thread" "thread_ok (Some thread)"
    using thread_at_ok [OF assms] by (cases "thread_at (Some a) t") auto
  then have *: "(\<forall>m. output_at (Some a) t i = Inr m \<longrightarrow> output_mapping_ok (Some m)) \<and>
      (\<forall>s. output_at (Some a) t i = Inl s \<longrightarrow> s = RVRT_ARTIFACT_OUT_OF_RANGE)"
  proof cases
    case err
    then show ?thesis by (simp add: output_at_def)
  next
    case ok
    then obtain outs items where "th_output_mappings thread = Some outs" "oms_items outs = Some items"
        and all: "list_all output_mapping_ok items"
      by (auto simp: thread_ok_def split: option.splits)
    then have "output_at (Some a) t i = vector_at items i" using ok by (simp add: output_at_def)
    then show ?thesis
      using vector_at_all [OF all] vector_at_error [OF all] by (auto simp: output_mapping_ok_def)
  qed
  then show "output_at (Some a) t i = Inr m \<Longrightarrow> output_mapping_ok (Some m)"
    and "output_at (Some a) t i = Inl status \<Longrightarrow> status = RVRT_ARTIFACT_OUT_OF_RANGE" by auto
qed


definition input_view_ok :: "rvrt_artifact_input_mapping_view \<Rightarrow> bool" where
  "input_view_ok v =
     (case iv_entries v of
        None \<Rightarrow> False
      | Some es \<Rightarrow> iv_entry_count v = vsize es \<and>
                   list_all (input_entry_ok (unat (iv_element_count v)) (unat (iv_bit_width v))) es)"

definition output_view_ok :: "rvrt_artifact_output_mapping_view \<Rightarrow> bool" where
  "output_view_ok v =
     (case ov_entries v of
        None \<Rightarrow> False
      | Some es \<Rightarrow> ov_entry_count v = vsize es \<and>
                   list_all (output_entry_ok (unat (ov_element_count v))) es \<and>
                   sorted_wrt (<) (output_keys es) \<and> unat (ov_target_lcn v) \<le> 7 \<and>
                   (ov_kind v = RVRT_OUTPUT_VOLTAGE \<and> ov_dtype v = RVRT_DTYPE_VOLTAGE_INT32
                    \<or> ov_kind v = RVRT_OUTPUT_DATA \<and> (vsize es = (0 :: u32) \<and> ov_dtype v = 0 \<or>
                        1 \<le> ov_dtype v \<and> ov_dtype v \<le> 8)))"

lemma get_input_mapping_view_ok:
  assumes "accepted a"
  shows "rvrt_artifact_get_input_mapping_view (Some a) t i (Some v0) = (st, Some v) \<Longrightarrow>
         st = RVRT_ARTIFACT_OK \<and> input_view_ok v \<or> st = RVRT_ARTIFACT_OUT_OF_RANGE"
proof (cases "input_at (Some a) t i")
  case (Inl s)
  then show "rvrt_artifact_get_input_mapping_view (Some a) t i (Some v0) = (st, Some v) \<Longrightarrow> ?thesis"
    using input_at_ok(2) [OF assms] by (simp add: rvrt_artifact_get_input_mapping_view_def)
next
  case (Inr m)
  then have "input_mapping_ok (Some m)" using input_at_ok(1) [OF assms] by blast
  then obtain numel es where n: "shape_count (im_shape m) = Some numel" "im_entries m = Some es"
      "list_all (input_entry_ok numel (unat (im_bit_width m))) es"
    by (auto simp: input_mapping_ok_def split: option.splits)
  moreover have "unat (of_nat numel :: u32) = numel"
    using shape_count_lt [OF n(1)] by (simp add: unat_of_nat)
  ultimately show "rvrt_artifact_get_input_mapping_view (Some a) t i (Some v0) = (st, Some v) \<Longrightarrow> ?thesis"
    using Inr by (auto simp: rvrt_artifact_get_input_mapping_view_def copy_shape_count input_view_ok_def)
qed

text \<open>The entry the accessor copies out of the table.\<close>

definition entry_of :: "fbs_InputEntry \<Rightarrow> rvrt_artifact_input_entry" where
  "entry_of s = \<lparr>in_elem_idx = ie_elem_idx s,
     in_core_offset = (case ie_core_offset s of
        Some c \<Rightarrow> \<lparr>off_xy = fbs_xy c, off_x = fbs_x c, off_y = fbs_y c\<rparr> | None \<Rightarrow> zero_core_offset),
     in_copy_count = (case ie_copy_count s of
        Some c \<Rightarrow> \<lparr>cpy_xy = fbs_xy c, cpy_x = fbs_x c, cpy_y = fbs_y c\<rparr> | None \<Rightarrow> zero_copy_count),
     in_tick_relative = ie_tick_relative s, in_addr_axon = ie_addr_axon s,
     in_target_lcn = ie_target_lcn s, in_copy_id = ie_copy_id s, in_dtype = scast (ie_dtype s)\<rparr>"

definition entry_in_range :: "rvrt_artifact_input_mapping_view \<Rightarrow> rvrt_artifact_input_entry \<Rightarrow> bool" where
  "entry_in_range v e \<longleftrightarrow> in_elem_idx e < iv_element_count v \<and> in_target_lcn e \<le> kTargetLcnMax \<and>
     1 \<le> in_dtype e \<and> in_dtype e \<le> 8 \<and> 2 ^ ((unat (in_dtype e) - 1) div 2) = unat (iv_bit_width v)"

lemma vsize_index: "i < vsize xs \<Longrightarrow> unat i < length xs"
  by (metis le_unat_uoi linorder_not_le nat_neq_iff order_less_le_trans unat_mono)

lemma scast_dtype:
  assumes "dtype_width d = Some w"
  shows "1 \<le> (scast d :: u32) \<and> (scast d :: u32) \<le> 8 \<and> 2 ^ ((unat (scast d :: u32) - 1) div 2) = w"
proof -
  have "d \<le> 8" using assms by (simp add: dtype_width_def split: if_splits)
  from u8_cases9 [OF this] assms show ?thesis
    by (elim disjE) (auto simp: dtype_width_def word_le_nat_alt)
qed

lemma input_mapping_entry_ok:
  assumes "input_view_ok v" "k < iv_entry_count v"
  obtains es s where "iv_entries v = Some es" "es ! unat k = Some s" "unat k < length es"
    "rvrt_artifact_input_mapping_entry (Some v) k (Some e0) = Some (RVRT_ARTIFACT_OK, Some (entry_of s))"
    "entry_in_range v (entry_of s)"
proof -
  from assms obtain es where es: "iv_entries v = Some es" "iv_entry_count v = vsize es"
      "list_all (input_entry_ok (unat (iv_element_count v)) (unat (iv_bit_width v))) es"
    by (auto simp: input_view_ok_def split: option.splits)
  with assms have k: "unat k < length es" by (simp add: vsize_index)
  with es(3) have "input_entry_ok (unat (iv_element_count v)) (unat (iv_bit_width v)) (es ! unat k)"
    by (metis list_all_length)
  then obtain s where s: "es ! unat k = Some s" and ok:
      "ie_core_offset s \<noteq> None" "ie_copy_count s \<noteq> None"
      "unat (ie_elem_idx s) < unat (iv_element_count v)" "unat (ie_target_lcn s) \<le> 7"
      "dtype_width (ie_dtype s) = Some (unat (iv_bit_width v))"
    by (auto simp: input_entry_ok_def split: option.splits)
  show ?thesis
  proof (rule that [OF es(1) s k])
    show "rvrt_artifact_input_mapping_entry (Some v) k (Some e0) =
          Some (RVRT_ARTIFACT_OK, Some (entry_of s))"
      using assms(2) es k s ok(1,2)
      by (auto simp: rvrt_artifact_input_mapping_entry_def fill_core_offset_def
          fill_copy_count_def entry_of_def Let_def not_le)
    show "entry_in_range v (entry_of s)"
      using ok(3,4) scast_dtype [OF ok(5)]
      by (simp add: entry_in_range_def entry_of_def word_less_nat_alt word_le_nat_alt)
  qed
qed

lemma get_output_mapping_view_ok:
  assumes "accepted a"
  obtains st v where
    "rvrt_artifact_get_output_mapping_view (Some a) t i (Some v0) = Some (st, Some v)"
    "st = RVRT_ARTIFACT_OK \<and> output_view_ok v \<or> st = RVRT_ARTIFACT_OUT_OF_RANGE"
proof (cases "thread_at (Some a) t")
  case (Inl s)
  then show ?thesis
    using that thread_at_ok(2) [OF assms] by (simp add: rvrt_artifact_get_output_mapping_view_def)
next
  case thr: (Inr thread)
  show ?thesis
  proof (cases "output_at (Some a) t i")
    case (Inl s)
    then show ?thesis
      using that thr output_at_ok(2) [OF assms]
      by (simp add: rvrt_artifact_get_output_mapping_view_def)
  next
    case (Inr m)
    then have "output_mapping_ok (Some m)" using output_at_ok(1) [OF assms] by blast
    then obtain numel es where n: "shape_count (om_shape m) = Some numel" "om_entries m = Some es"
        "list_all (output_entry_ok numel) es" "sorted_wrt (<) (output_keys es)"
        "om_kind m = OutputKind_DATA \<and>
           list_all (\<lambda>e. dtype_width (oe_dtype (the e)) = Some (unat (om_bit_width m))) es
         \<or> om_kind m = OutputKind_VOLTAGE"
      by (auto simp: output_mapping_ok_def split: option.splits)
    have numel: "unat (of_nat numel :: u32) = numel"
      using shape_count_lt [OF n(1)] by (simp add: unat_of_nat)
    from thread_at_ok(1) [OF assms thr] obtain outs where
        outs: "th_output_mappings thread = Some outs" "unat (oms_target_lcn outs) \<le> 7"
      by (auto simp: thread_ok_def split: option.splits)
    from n(5) show ?thesis
    proof
      assume volt: "om_kind m = OutputKind_VOLTAGE"
      show ?thesis
        by (rule that) (use thr Inr n numel outs volt in \<open>auto simp: output_view_ok_def
            rvrt_artifact_get_output_mapping_view_def copy_shape_count\<close>)
    next
      assume data: "om_kind m = OutputKind_DATA \<and>
           list_all (\<lambda>e. dtype_width (oe_dtype (the e)) = Some (unat (om_bit_width m))) es"
      show ?thesis
      proof (cases "vsize es = (0 :: u32)")
        case True
        show ?thesis
          by (rule that) (use thr Inr n numel outs data True in \<open>auto simp: output_view_ok_def
              rvrt_artifact_get_output_mapping_view_def copy_shape_count\<close>)
      next
        case False
        then obtain e es' where es: "es = e # es'" by (cases es) auto
        with n(3) obtain e' where e': "e = Some e'"
          by (auto simp: output_entry_ok_def split: option.splits)
        with data es have "dtype_width (oe_dtype e') = Some (unat (om_bit_width m))" by simp
        from scast_dtype [OF this] show ?thesis
          by (intro that) (use thr Inr n numel outs data False es e' in \<open>auto simp: output_view_ok_def
              rvrt_artifact_get_output_mapping_view_def copy_shape_count\<close>)
      qed
    qed
  qed
qed

text \<open>The key of an accepted vector determines the entry.\<close>

lemma find_output_entry_Some:
  "find_output_entry es key = Some c \<Longrightarrow> Some c \<in> set es \<and> oe_axon_bit_idx c = key"
  by (induction es) (auto split: option.splits if_splits)

lemma keys_unique:
  assumes "sorted_wrt (<) (output_keys es)" "Some c \<in> set es" "Some d \<in> set es"
    "oe_axon_bit_idx c = oe_axon_bit_idx d"
  shows "c = d"
proof -
  from assms(2,3) obtain i j where ij: "i < length es" "es ! i = Some c" "j < length es" "es ! j = Some d"
    by (metis in_set_conv_nth)
  have "i = j"
  proof (rule ccontr)
    assume "i \<noteq> j"
    then consider "i < j" | "j < i" by linarith
    then show False
      using assms(1,4) ij by cases (auto simp: sorted_wrt_iff_nth_less output_keys_def, fastforce+)
  qed
  with ij show ?thesis by simp
qed

lemma find_output_entry_iff:
  assumes "sorted_wrt (<) (output_keys es)"
  shows "find_output_entry es key = Some c \<longleftrightarrow> Some c \<in> set es \<and> oe_axon_bit_idx c = key"
proof
  assume c: "Some c \<in> set es \<and> oe_axon_bit_idx c = key"
  then have "find_output_entry es key \<noteq> None"
    by (induction es) (auto split: option.splits)
  then obtain d where d: "find_output_entry es key = Some d" by auto
  with find_output_entry_Some [OF d] keys_unique [OF assms] c show "find_output_entry es key = Some c"
    by blast
qed (rule find_output_entry_Some)


section \<open>A small artifact\<close>

text \<open>
  One thread with an input tensor of two 8-bit elements, a DATA output of two 8-bit elements and a
  VOLTAGE output of one element; used where a theorem is applied to concrete values.
\<close>

definition demo_in_entry :: "u32 \<Rightarrow> u32 \<Rightarrow> fbs_InputEntry" where
  "demo_in_entry idx axon =
     \<lparr>ie_elem_idx = idx, ie_core_offset = Some \<lparr>fbs_xy = 0, fbs_x = 1, fbs_y = - 1\<rparr>,
      ie_copy_count = Some \<lparr>fbs_xy = 0, fbs_x = 0, fbs_y = 0\<rparr>, ie_tick_relative = 0,
      ie_addr_axon = axon, ie_target_lcn = 1, ie_copy_id = 0, ie_dtype = DataType_UINT8\<rparr>"

definition demo_out_entry :: "u32 \<Rightarrow> u32 \<Rightarrow> fbs_OutputEntry" where
  "demo_out_entry idx key =
     \<lparr>oe_elem_idx = idx, oe_copy_id = 0, oe_axon_bit_idx = key, oe_dtype = DataType_UINT8\<rparr>"

definition demo_thread :: fbs_ThreadIOMapping where
  "demo_thread =
     \<lparr>th_root_core_offset = Some \<lparr>fbs_xy = 0, fbs_x = 0, fbs_y = 0\<rparr>,
      th_runtime = Some \<lparr>rp_timesteps = 2, rp_tick_depth = 1, rp_sync_steps = 3, rp_decode_mode = 1\<rparr>,
      th_input_mappings = Some \<lparr>ims_items = Some
        [Some \<lparr>im_shape = Some \<lparr>sh_size = Some [1, 2]\<rparr>, im_bit_width = 8,
               im_entries = Some [Some (demo_in_entry 0 5), Some (demo_in_entry 1 6)]\<rparr>]\<rparr>,
      th_output_mappings = Some \<lparr>oms_target_lcn = 1, oms_items = Some
        [Some \<lparr>om_shape = Some \<lparr>sh_size = Some [2]\<rparr>, om_kind = OutputKind_DATA, om_bit_width = 8,
               om_entries = Some [Some (demo_out_entry 0 3), Some (demo_out_entry 1 515)]\<rparr>,
         Some \<lparr>om_shape = Some \<lparr>sh_size = Some [1]\<rparr>, om_kind = OutputKind_VOLTAGE, om_bit_width = 32,
               om_entries = Some [Some (demo_out_entry 0 8), Some (demo_out_entry 0 16),
                                  Some (demo_out_entry 0 24), Some (demo_out_entry 0 32)]\<rparr>]\<rparr>\<rparr>"

definition demo_root :: fbs_CompileArtifacts where
  "demo_root =
     \<lparr>ca_schema_version = 1, ca_io_mapping = Some \<lparr>io_threads = Some [Some demo_thread]\<rparr>,
      ca_config_frames = Some \<lparr>cf_words = Some [1, 2, 3, 4], cf_word_order = WordOrder_HIGH_FIRST\<rparr>\<rparr>"

definition demo_artifact :: rvrt_artifact where
  "demo_artifact = artifact_of demo_root"

lemmas demo_defs = demo_artifact_def demo_root_def demo_thread_def demo_in_entry_def
  demo_out_entry_def artifact_of_def

lemma demo_accepted: "accepted demo_artifact"
  by (simp add: accepted_def demo_defs io_mapping_ok_def thread_ok_def input_mapping_ok_def
      output_mapping_ok_def shape_count_def dims_ok_def numel_of_def input_entry_ok_def
      output_entry_ok_def output_keys_def dtype_width_def)

lemma demo_input_view:
  "rvrt_artifact_get_input_mapping_view (Some demo_artifact) 0 0 (Some zero_input_view) =
   (RVRT_ARTIFACT_OK,
    Some \<lparr>iv_entries = Some [Some (demo_in_entry 0 5), Some (demo_in_entry 1 6)],
          iv_entry_count = 2, iv_element_count = 2, iv_bit_width = 8\<rparr>)"
  by (simp add: rvrt_artifact_get_input_mapping_view_def input_at_def thread_at_def vector_at_def
      demo_defs copy_shape_def)

definition demo_out_entries :: "fbs_OutputEntry option list" where
  "demo_out_entries = [Some (demo_out_entry 0 3), Some (demo_out_entry 1 515)]"

definition demo_out_view :: rvrt_artifact_output_mapping_view where
  "demo_out_view = \<lparr>ov_entries = Some demo_out_entries, ov_entry_count = 2, ov_element_count = 2,
                    ov_dtype = 7, ov_kind = 0, ov_target_lcn = 1\<rparr>"

lemma demo_out_view_entries: "ov_entries demo_out_view = Some demo_out_entries"
  by (simp add: demo_out_view_def)

lemma demo_output_view:
  "rvrt_artifact_get_output_mapping_view (Some demo_artifact) 0 0 (Some zero_output_view) =
   Some (RVRT_ARTIFACT_OK, Some demo_out_view)"
  by (simp add: rvrt_artifact_get_output_mapping_view_def output_at_def thread_at_def vector_at_def
      demo_defs copy_shape_def demo_out_view_def demo_out_entries_def)


section \<open>Properties of the accessors\<close>

text \<open>C34.  The reader's boundary carries over to the accessors: on an accepted artifact the input
  view of a mapping is produced unless an index is out of range, and every entry below its count
  is readable, addresses an element of the declared shape, has an LCN of at most 7 and a
  \<open>DataType\<close> of exactly the declared width.\<close>

theorem input_view_contract:
  assumes "accepted a"
    and "rvrt_artifact_get_input_mapping_view (Some a) t i (Some v0) = (st, Some v)"
    and "st \<noteq> RVRT_ARTIFACT_OUT_OF_RANGE"
    and "k < iv_entry_count v"
  shows "st = RVRT_ARTIFACT_OK \<and>
         (\<exists>e. rvrt_artifact_input_mapping_entry (Some v) k (Some e0) = Some (RVRT_ARTIFACT_OK, Some e) \<and>
              entry_in_range v e)"
  using get_input_mapping_view_ok [OF assms(1,2)] assms(3,4) input_mapping_entry_ok [of v k e0]
  by blast

theorem input_view_contract_witness:
  "\<exists>v e. rvrt_artifact_get_input_mapping_view (Some demo_artifact) 0 0 (Some zero_input_view) =
            (RVRT_ARTIFACT_OK, Some v) \<and>
         rvrt_artifact_input_mapping_entry (Some v) 1 (Some zero_input_entry) =
            Some (RVRT_ARTIFACT_OK, Some e) \<and> entry_in_range v e"
  using input_view_contract [OF demo_accepted demo_input_view, of 1 zero_input_entry] demo_input_view
  by simp

text \<open>On an accepted artifact the output view never dereferences a missing entry, it fails
  only when an index is out of range, and on the view the lookup is exact: a key is found if and
  only if an entry of the table has it, the entry is unique, and the copy returned is that entry
  with its element index inside the output tensor.\<close>

theorem output_lookup_exact:
  assumes "accepted a"
  shows "\<exists>st v. rvrt_artifact_get_output_mapping_view (Some a) t i (Some v0) = Some (st, Some v) \<and>
    (st = RVRT_ARTIFACT_OUT_OF_RANGE \<or>
     st = RVRT_ARTIFACT_OK \<and> (\<exists>es. ov_entries v = Some es \<and> (\<forall>key e0 f0.
        (case find_output_entry es key of
           None \<Rightarrow> (\<nexists>c. Some c \<in> set es \<and> oe_axon_bit_idx c = key) \<and>
             rvrt_artifact_output_mapping_find (Some v) key (Some e0) (Some f0) =
               (RVRT_ARTIFACT_OK, Some e0, Some False)
         | Some c \<Rightarrow> {d. Some d \<in> set es \<and> oe_axon_bit_idx d = key} = {c} \<and>
             oe_elem_idx c < ov_element_count v \<and>
             rvrt_artifact_output_mapping_find (Some v) key (Some e0) (Some f0) =
               (RVRT_ARTIFACT_OK, Some \<lparr>out_elem_idx = oe_elem_idx c, out_copy_id = oe_copy_id c,
                                        out_axon_bit_idx = key\<rparr>, Some True)))))"
proof -
  obtain st v where v: "rvrt_artifact_get_output_mapping_view (Some a) t i (Some v0) = Some (st, Some v)"
    "st = RVRT_ARTIFACT_OK \<and> output_view_ok v \<or> st = RVRT_ARTIFACT_OUT_OF_RANGE"
    using get_output_mapping_view_ok [OF assms] by blast
  show ?thesis
  proof (cases "st = RVRT_ARTIFACT_OUT_OF_RANGE")
    case True
    with v(1) show ?thesis by blast
  next
    case False
    with v have ok: "st = RVRT_ARTIFACT_OK" "output_view_ok v" by auto
    then obtain es where es: "ov_entries v = Some es" "sorted_wrt (<) (output_keys es)"
        "list_all (output_entry_ok (unat (ov_element_count v))) es"
      by (auto simp: output_view_ok_def split: option.splits)
    have bound: "Some c \<in> set es \<Longrightarrow> oe_elem_idx c < ov_element_count v" for c
      using es(3) by (auto simp: list_all_iff output_entry_ok_def word_less_nat_alt split: option.splits)
    note iff = find_output_entry_iff [OF es(2)]
    have "(case find_output_entry es key of
           None \<Rightarrow> (\<nexists>c. Some c \<in> set es \<and> oe_axon_bit_idx c = key) \<and>
             rvrt_artifact_output_mapping_find (Some v) key (Some e0) (Some f0) =
               (RVRT_ARTIFACT_OK, Some e0, Some False)
         | Some c \<Rightarrow> {d. Some d \<in> set es \<and> oe_axon_bit_idx d = key} = {c} \<and>
             oe_elem_idx c < ov_element_count v \<and>
             rvrt_artifact_output_mapping_find (Some v) key (Some e0) (Some f0) =
               (RVRT_ARTIFACT_OK, Some \<lparr>out_elem_idx = oe_elem_idx c, out_copy_id = oe_copy_id c,
                                        out_axon_bit_idx = key\<rparr>, Some True))" for key e0 f0
    proof (cases "find_output_entry es key")
      case None
      then show ?thesis using es(1) iff [of key]
        by (auto simp: rvrt_artifact_output_mapping_find_def)
    next
      case (Some c)
      then have "{d. Some d \<in> set es \<and> oe_axon_bit_idx d = key} = {c}"
        by (simp add: iff [symmetric])
      then show ?thesis using es(1) Some bound [of c] find_output_entry_Some [OF Some]
        by (simp add: rvrt_artifact_output_mapping_find_def)
    qed
    then show ?thesis using v(1) ok(1) es(1) by blast
  qed
qed

theorem output_lookup_exact_witness:
  "\<exists>v e. rvrt_artifact_get_output_mapping_view (Some demo_artifact) 0 0 (Some zero_output_view) =
            Some (RVRT_ARTIFACT_OK, Some v) \<and>
         rvrt_artifact_output_mapping_find (Some v) 515 (Some zero_output_entry) (Some False) =
            (RVRT_ARTIFACT_OK, Some e, Some True) \<and> out_elem_idx e = 1"
proof -
  have found: "find_output_entry demo_out_entries 515 = Some (demo_out_entry 1 515)"
    by (simp add: demo_out_entries_def demo_out_entry_def)
  obtain v es where v: "Some (RVRT_ARTIFACT_OK, Some demo_out_view) = Some (RVRT_ARTIFACT_OK, Some v)"
      "ov_entries v = Some es" and
    rule: "(case find_output_entry es 515 of
           None \<Rightarrow> (\<nexists>c. Some c \<in> set es \<and> oe_axon_bit_idx c = 515) \<and>
             rvrt_artifact_output_mapping_find (Some v) 515 (Some zero_output_entry) (Some False) =
               (RVRT_ARTIFACT_OK, Some zero_output_entry, Some False)
         | Some c \<Rightarrow> {d. Some d \<in> set es \<and> oe_axon_bit_idx d = 515} = {c} \<and>
             oe_elem_idx c < ov_element_count v \<and>
             rvrt_artifact_output_mapping_find (Some v) 515 (Some zero_output_entry) (Some False) =
               (RVRT_ARTIFACT_OK, Some \<lparr>out_elem_idx = oe_elem_idx c, out_copy_id = oe_copy_id c,
                                        out_axon_bit_idx = 515\<rparr>, Some True))"
    using output_lookup_exact [OF demo_accepted, of 0 0 zero_output_view, unfolded demo_output_view]
    by blast
  have "v = demo_out_view" "es = demo_out_entries"
    using v demo_out_view_entries by auto
  with rule found demo_output_view show ?thesis by (auto simp: demo_out_entry_def)
qed

end
