(* ===== verification/Frame_Fields.thy ===== *)
theory Frame_Fields
  imports FrameCodec Artifact_Laws
begin

text \<open>
  Fields of frames: the sign-magnitude code of the routing coordinates, the payload codec for every
  \<open>DataType\<close>, and the bit layout that \<open>pack_field\<close> gives control and work frames.
\<close>

section \<open>Signed six-bit fields\<close>

definition sm6_value :: "u32 \<Rightarrow> int" where
  "sm6_value w = (if bit w 5 then - uint (take_bit 5 w) else uint (take_bit 5 w))"

lemma small_word_take_bit: "uint (u :: u32) < 2 ^ n \<Longrightarrow> take_bit n u = u"
  by (simp add: word_uint_eq_iff unsigned_take_bit_eq take_bit_int_eq_self)

lemma uint_neg_of_sint:
  fixes v :: u32
  assumes "sint v < 0"
  shows "uint (- v) = - sint v"
proof -
  have "- (2 ^ 31) \<le> sint v" using sint_greater_eq [of v] by simp
  with assms have "(- sint v) mod 2 ^ 32 = - sint v" by (intro mod_pos_pos_trivial) auto
  moreover have "uint (- v) = (- sint v) mod 2 ^ 32"
    using uint_word_of_int [of "- sint v", where 'a = 32] by simp
  ultimately show ?thesis by simp
qed

lemma uint_of_sint_nonneg:
  fixes v :: u32
  assumes "0 \<le> sint v"
  shows "uint v = sint v"
proof -
  have "sint v < 2 ^ 31" using sint_less [of v] by simp
  with assms have "sint v mod 2 ^ 32 = sint v" by (intro mod_pos_pos_trivial) auto
  moreover have "uint v = sint v mod 2 ^ 32"
    using uint_word_of_int [of "sint v", where 'a = 32] by simp
  ultimately show ?thesis by simp
qed

lemma sign_magnitude6_spec:
  "case sign_magnitude6 v of
     None \<Rightarrow> sint v < - 31 \<or> 31 < sint v
   | Some w \<Rightarrow> - 31 \<le> sint v \<and> sint v \<le> 31 \<and> w < 64 \<and> sm6_value w = sint v"
proof -
  consider (out) "sint v < - 31 \<or> 31 < sint v" | (neg) "- 31 \<le> sint v" "sint v < 0"
    | (nonneg) "0 \<le> sint v" "sint v \<le> 31" by linarith
  then show ?thesis
  proof cases
    case out
    then show ?thesis by (auto simp: sign_magnitude6_def)
  next
    case neg
    let ?u = "- v"
    have u: "uint ?u = - sint v" using neg by (simp add: uint_neg_of_sint)
    then have t: "take_bit 5 ?u = ?u" "take_bit 6 ?u = ?u" using neg by (auto intro!: small_word_take_bit)
    then have "take_bit 6 (0x20 OR ?u) = 0x20 OR ?u" by (simp add: take_bit_or)
    then have "0x20 OR ?u < 64"
      using unsigned_take_bit_eq [of 6 "0x20 OR ?u", where 'a = int]
        take_bit_int_less_exp [of 6 "uint (0x20 OR ?u)"] by (simp add: word_less_def)
    moreover have "take_bit 5 (0x20 OR ?u) = ?u" using t by (simp add: take_bit_or)
    moreover have "bit (0x20 OR ?u) 5" by (simp add: bit_or_iff)
    ultimately show ?thesis using neg u by (simp add: sign_magnitude6_def sm6_value_def)
  next
    case nonneg
    then have u: "uint v = sint v" by (simp add: uint_of_sint_nonneg)
    then have t: "take_bit 5 v = v" using nonneg by (intro small_word_take_bit) auto
    then have "\<not> bit v 5" by (metis bit_take_bit_iff less_irrefl)
    moreover have "v < 64" using u nonneg by (simp add: word_less_def)
    ultimately show ?thesis using nonneg u t by (simp add: sign_magnitude6_def sm6_value_def)
  qed
qed

section \<open>Payloads\<close>

lemma dtype_bits_cases:
  assumes "dtype_bits d = Some (bits, sg)"
  shows "bits \<in> {1, 2, 4, 8}"
proof -
  have "unat d < 9" using assms by (auto simp: dtype_bits_def k_dtype_info_def split: if_splits)
  then have "unat d \<in> {0, 1, 2, 3, 4, 5, 6, 7, 8}" by auto
  with assms show ?thesis by (auto simp: dtype_bits_def k_dtype_info_def)
qed

lemma bit_mask_eq: "bit_mask bits = mask (unat bits)"
  by (simp add: bit_mask_def mask_eq_decr_exp push_bit_of_1)

lemma sint_u8: "(if raw AND 0x80 \<noteq> 0 then uint raw - 0x100 else uint raw) = sint (raw :: u8)"
proof -
  have "raw AND 0x80 = 0 \<longleftrightarrow> \<not> bit raw 7"
    using and_exp_eq_0_iff_not_bit [of raw 7] by simp
  moreover have "sint raw = uint raw - 256 * of_bool (bit raw 7)"
    by (simp add: sint_uint signed_take_bit_eq_take_bit_minus bit_uint_iff take_bit_int_eq_self_iff
        uint_lt2p [where 'a = 8, simplified])
  ultimately show ?thesis by simp
qed

definition dtype_range :: "u32 \<Rightarrow> bool \<Rightarrow> u8 \<Rightarrow> bool" where
  "dtype_range bits sg raw =
     (if sg then - (2 ^ (unat bits - 1)) \<le> sint raw \<and> sint raw < 2 ^ (unat bits - 1)
      else unat raw < 2 ^ unat bits)"

lemma encode_payload_spec:
  assumes "bits \<in> {1, 2, 4, 8}"
  shows "encode_payload raw bits sg =
    (if dtype_range bits sg raw
     then Some (if sg then ucast (take_bit (unat bits) (word_of_int (sint raw) :: u32)) else raw)
     else None)"
proof (cases sg)
  case True
  from assms have "uint (push_bit (unat (bits - 1)) (1 :: u32)) = 2 ^ (unat bits - 1)" by auto
  with True show ?thesis
    by (simp add: encode_payload_def sint_u8 dtype_range_def Let_def bit_mask_eq take_bit_eq_mask not_le
        not_less)
next
  case False
  have "(ucast raw :: u32) AND NOT (mask (unat bits)) = 0 \<longleftrightarrow> take_bit (unat bits) (ucast raw :: u32) = ucast raw"
    by (metis (no_types) bit.conj_cancel_right bit.de_Morgan_disj take_bit_eq_mask
        and.left_idem and.right_idem and_eq_not_not_or word_bw_assocs(1) word_log_esimps(1)
        word_ao_absorbs(2) bit.conj_disj_distrib bit.disj_cancel_right bit.conj_one_right or.right_neutral)
  also have "\<dots> \<longleftrightarrow> unat raw < 2 ^ unat bits"
  proof -
    have "unat raw < 2 ^ 32" using unsigned_less [of raw, where 'a = nat] by simp
    moreover have "unat bits \<le> 32" using assms by auto
    ultimately show ?thesis
      by (simp add: word_unat_eq_iff unsigned_take_bit_eq unsigned_ucast_eq take_bit_nat_eq_self_iff
          take_bit_nat_eq_self min_absorb1)
  qed
  finally show ?thesis using False
    by (simp add: encode_payload_def dtype_range_def Let_def bit_mask_eq)
qed


lemma take_bit_word_bound:
  assumes "take_bit n w = (w :: 'a :: len word)"
  shows "unat w < 2 ^ n"
proof -
  have "unat (take_bit n w) < 2 ^ n" by (simp add: unsigned_take_bit_eq)
  with assms show ?thesis by simp
qed

lemma decode_payload_bit:
  assumes "bits \<in> {1, 2, 4, 8}" "i < 8"
  shows "bit (decode_payload q bits sg) i \<longleftrightarrow>
         (if i < unat bits then bit q i else sg \<and> bit q (unat bits - 1))"
proof -
  let ?b = "unat bits"
  have b: "1 \<le> ?b" "?b \<le> 8" using assms(1) by auto
  have shift: "push_bit (unat (bits - 1)) 1 = (2 ^ (?b - 1) :: u32)"
    using assms(1) by (auto simp: push_bit_of_1)
  have sign: "(q AND mask ?b) AND 2 ^ (?b - 1) = 0 \<longleftrightarrow> \<not> bit q (?b - 1)"
    using b and_exp_eq_0_iff_not_bit [of "q AND mask ?b" "?b - 1"]
    by (auto simp: bit_and_iff bit_mask_iff)
  show ?thesis
    unfolding decode_payload_def bit_mask_eq Let_def shift sign
    using assms(2) b by (auto simp: bit_simps)
qed

text \<open>The payload of a byte in range has its low bits, and the byte's sign fills what the decoder puts above.\<close>

abbreviation (input) payload_of :: "u32 \<Rightarrow> bool \<Rightarrow> u8 \<Rightarrow> u8" where
  "payload_of bits sg raw \<equiv> if sg then ucast (take_bit (unat bits) (word_of_int (sint raw) :: u32)) else raw"

lemma payload_low_bits:
  assumes "bits \<in> {1, 2, 4, 8}" "dtype_range bits sg raw"
  shows "bit (payload_of bits sg raw) i \<longleftrightarrow> i < unat bits \<and> bit raw i"
proof (cases sg)
  case True
  then show ?thesis using assms(1) by (auto simp: bit_simps)
next
  case False
  with assms(2) have "take_bit (unat bits) raw = raw"
    by (simp add: dtype_range_def word_unat_eq_iff unsigned_take_bit_eq take_bit_nat_eq_self)
  with False show ?thesis by (metis bit_take_bit_iff)
qed

lemma range_high_bits:
  assumes "bits \<in> {1, 2, 4, 8}" "dtype_range bits sg raw" "\<not> i < unat bits" "i < 8"
  shows "bit raw i \<longleftrightarrow> sg \<and> bit raw (unat bits - 1)"
proof (cases sg)
  case True
  with assms(2) have "signed_take_bit (unat bits - 1) (sint raw) = sint raw"
    by (simp add: dtype_range_def signed_take_bit_int_eq_self)
  then have "bit (sint raw) i \<longleftrightarrow> bit (sint raw) (unat bits - 1)"
    using assms(3) bit_signed_take_bit_iff [of "unat bits - 1" "sint raw" i] by (simp add: min_absorb1)
  moreover have "1 \<le> unat bits" "unat bits \<le> 8" using assms(1) by auto
  ultimately show ?thesis using True assms(4) by (simp add: bit_simps)
next
  case False
  then show ?thesis using payload_low_bits [OF assms(1,2), of i] assms(3) by simp
qed

lemma payload_decodes:
  assumes bits: "bits \<in> {1, 2, 4, 8}" and range: "dtype_range bits sg raw"
  shows "decode_payload (ucast (payload_of bits sg raw)) bits sg = raw"
proof (rule bit_word_eqI)
  let ?b = "unat bits" and ?p = "payload_of bits sg raw"
  have b: "1 \<le> ?b" "?b \<le> 8" using bits by auto
  note bit_p = payload_low_bits [OF bits range]
  fix i assume "i < LENGTH(8)"
  then have i: "i < 8" by simp
  have up: "bit (ucast ?p :: u32) k \<longleftrightarrow> bit ?p k" if "k < 8" for k
    using that by (simp add: bit_ucast_iff)
  show "bit (decode_payload (ucast ?p) bits sg) i = bit raw i"
  proof (cases "i < ?b")
    case True
    then show ?thesis using bits i by (simp add: decode_payload_bit up bit_p del: if_split)
  next
    case False
    then show ?thesis using range_high_bits [OF bits range False i] bits i b up [of "?b - 1"] bit_p [of "?b - 1"]
      by (simp add: decode_payload_bit del: if_split)
  qed
qed

lemma payload_spec:
  "case dtype_bits d of
     None \<Rightarrow> d = 0 \<or> 8 < d
   | Some (bits, sg) \<Rightarrow>
       (case encode_payload raw bits sg of
          None \<Rightarrow> \<not> dtype_range bits sg raw
        | Some payload \<Rightarrow> dtype_range bits sg raw \<and> unat payload < 2 ^ unat bits \<and>
                          decode_payload (ucast payload) bits sg = raw)"
proof (cases "dtype_bits d")
  case None
  have "d = 0 \<or> 8 < d"
  proof (rule ccontr)
    assume "\<not> (d = 0 \<or> 8 < d)"
    then have "unat d \<in> {1, 2, 3, 4, 5, 6, 7, 8}" by (auto simp: word_less_nat_alt word_unat_eq_iff)
    with None show False by (auto simp: dtype_bits_def k_dtype_info_def)
  qed
  with None show ?thesis by simp
next
  case (Some bs)
  then obtain bits sg where bs: "dtype_bits d = Some (bits, sg)" by (cases bs) auto
  from dtype_bits_cases [OF this] have bits: "bits \<in> {1, 2, 4, 8}" .
  show ?thesis
  proof (cases "dtype_range bits sg raw")
    case False
    with bs bits show ?thesis by (simp add: encode_payload_spec)
  next
    case True
    have "take_bit (unat bits) (payload_of bits sg raw) = payload_of bits sg raw"
      by (rule bit_word_eqI) (simp add: bit_take_bit_iff payload_low_bits [OF bits True] del: if_split)
    then have "unat (payload_of bits sg raw) < 2 ^ unat bits" by (rule take_bit_word_bound)
    with payload_decodes [OF bits True] show ?thesis using True bits bs by (simp add: encode_payload_spec)
  qed
qed

text \<open>For every supported \<open>DataType\<close>, encoding accepts exactly the input bytes in the range of
  the type, the payload fits the declared width, and decoding the payload gives the byte back.\<close>

theorem payload_round_trip:
  "case dtype_bits d of
     None \<Rightarrow> d = 0 \<or> 8 < d
   | Some (bits, sg) \<Rightarrow>
       (case encode_payload raw bits sg of
          None \<Rightarrow> \<not> dtype_range bits sg raw
        | Some payload \<Rightarrow> dtype_range bits sg raw \<and> unat payload < 2 ^ unat bits \<and>
                          decode_payload (ucast payload) bits sg = raw)"
  by (rule payload_spec)

section \<open>Field layout\<close>

lemma bit_mask_numerals:
  "bit (3 :: int) n \<longleftrightarrow> n < 2"
  "bit (15 :: int) n \<longleftrightarrow> n < 4"
  "bit (63 :: int) n \<longleftrightarrow> n < 6"
  "bit (127 :: int) n \<longleftrightarrow> n < 7"
  "bit (255 :: int) n \<longleftrightarrow> n < 8"
  "bit (511 :: int) n \<longleftrightarrow> n < 9"
  "bit (16777215 :: int) n \<longleftrightarrow> n < 24"
  "bit (4294967295 :: int) n \<longleftrightarrow> n < 32"
proof -
  have m: "bit (2 ^ k - 1 :: int) n \<longleftrightarrow> n < k" for k
    using bit_mask_iff [of k n, where 'a = int] by (simp add: mask_eq_exp_minus_1)
  show "bit (3 :: int) n \<longleftrightarrow> n < 2" using m [of 2] by simp
  show "bit (15 :: int) n \<longleftrightarrow> n < 4" using m [of 4] by simp
  show "bit (63 :: int) n \<longleftrightarrow> n < 6" using m [of 6] by simp
  show "bit (127 :: int) n \<longleftrightarrow> n < 7" using m [of 7] by simp
  show "bit (255 :: int) n \<longleftrightarrow> n < 8" using m [of 8] by simp
  show "bit (511 :: int) n \<longleftrightarrow> n < 9" using m [of 9] by simp
  show "bit (16777215 :: int) n \<longleftrightarrow> n < 24" using m [of 24] by simp
  show "bit (4294967295 :: int) n \<longleftrightarrow> n < 32" using m [of 32] by simp
qed

lemma bit_pack_field:
  "bit (pack_field x off m) n \<longleftrightarrow> off \<le> n \<and> n < 64 \<and> bit x (n - off) \<and> bit m (n - off)"
  by (auto simp: pack_field_def bit_simps dest: bit_imp_le_length)

lemma bit_frame_high: "bit (fr_high (frame_from_u64 v)) n \<longleftrightarrow> n < 32 \<and> bit v (n + 32)"
  by (auto simp: frame_from_u64_def bit_simps add.commute)

lemma bit_frame_low: "bit (fr_low (frame_from_u64 v)) n \<longleftrightarrow> n < 32 \<and> bit v n"
  by (auto simp: frame_from_u64_def bit_simps bit_mask_numerals)

text \<open>The header, routing and copy fields that \<open>frame_dest\<close> fills, then the fields below.\<close>

definition dest_bits :: "u32 \<Rightarrow> u32 \<Rightarrow> u32 \<Rightarrow> u32 \<Rightarrow> u32 \<Rightarrow> u32 \<Rightarrow> u32 \<Rightarrow> u64" where
  "dest_bits h xy x y cxy cx cy =
     pack_field h FC_HDR_OFF FC_HDR_MASK OR
     (pack_field xy FC_DST_XY_OFF FC_SIGN6_MASK OR pack_field x FC_DST_X_OFF FC_SIGN6_MASK OR
      pack_field y FC_DST_Y_OFF FC_SIGN6_MASK) OR
     (pack_field cxy FC_COPY_XY_OFF FC_SIGN6_MASK OR pack_field cx FC_COPY_X_OFF FC_SIGN6_MASK OR
      pack_field cy FC_COPY_Y_OFF FC_SIGN6_MASK)"

lemmas layout_bits = bit_frame_high bit_frame_low bit_pack_field bit_and_iff bit_or_iff bit_drop_bit_eq
  bit_push_bit_iff bit_mask_numerals bit_unsigned_iff

lemma bit_dest_bits:
  "bit (dest_bits h xy x y cxy cx cy) n \<longleftrightarrow>
     (if n < 24 then False
      else if n < 30 then bit cy (n - 24)
      else if n < 36 then bit cx (n - 30)
      else if n < 42 then bit cxy (n - 36)
      else if n < 48 then bit y (n - 42)
      else if n < 54 then bit x (n - 48)
      else if n < 60 then bit xy (n - 54)
      else n < 64 \<and> bit h (n - 60))"
proof -
  consider "n < 24" | "24 \<le> n" "n < 30" | "30 \<le> n" "n < 36" | "36 \<le> n" "n < 42" | "42 \<le> n" "n < 48"
    | "48 \<le> n" "n < 54" | "54 \<le> n" "n < 60" | "60 \<le> n" "n < 64" | "64 \<le> n"
    by linarith
  then show ?thesis
    by cases (simp_all add: dest_bits_def bit_or_iff bit_pack_field bit_mask_numerals less_diff_conv2)
qed

definition work_bits :: "u32 \<Rightarrow> u32 \<Rightarrow> u8 \<Rightarrow> u64" where
  "work_bits t ax p =
     (pack_field (drop_bit FC_WF_TS_LO_BITS t) FC_WF_TS_HI_OFF FC_WF_TS_HI_MASK OR
      pack_field t RVRT_WF_TS_LO_OFFSET RVRT_WF_TS_LO_MASK OR
      pack_field ax RVRT_WF_AX_OFFSET RVRT_WF_AX_MASK) OR ucast p"

lemma bit_work_bits:
  "bit (work_bits t ax p) n \<longleftrightarrow>
     (if n < 8 then bit p n
      else if n < 17 then bit ax (n - 8)
      else if n < 24 then bit t (n - 17)
      else n = 60 \<and> bit t 7)"
proof -
  consider "n < 8" | "8 \<le> n" "n < 17" | "17 \<le> n" "n < 24" | "24 \<le> n" "n < 60" | "n = 60" | "60 < n"
    by linarith
  then show ?thesis
    by cases (auto simp: work_bits_def bit_or_iff bit_pack_field bit_mask_numerals bit_drop_bit_eq
      bit_unsigned_iff less_diff_conv2 bit_1_iff dest: bit_imp_le_length)
qed

end
