(* ===== verification/Frame_Laws.thy ===== *)
theory Frame_Laws
  imports Frame_Fields
begin

text \<open>
  What the frame codec promises: the meaning of the frames it builds, the round trip between
  the address an encoder packs and the address a decoder extracts, the equivalence of chunked and
  one-shot input encoding, the exact effect of decoding DATA frames, and the assembly of VOLTAGE
  lanes in any order.
\<close>

section \<open>Destination fields\<close>

definition sm6_range :: "i32 \<Rightarrow> bool" where
  "sm6_range v \<longleftrightarrow> - 31 \<le> sint v \<and> sint v \<le> 31"

definition sm6_code :: "i32 \<Rightarrow> u32" where
  "sm6_code v = (if sint v < 0 then 0x20 OR - v else v)"

lemma sign_magnitude6_eq:
  "sign_magnitude6 v = (if sm6_range v then Some (sm6_code v) else None)"
  by (auto simp: sign_magnitude6_def sm6_range_def sm6_code_def)

definition dest_ok :: "rvrt_artifact_core_offset \<Rightarrow> rvrt_artifact_copy_count \<Rightarrow> bool" where
  "dest_ok offset copy \<longleftrightarrow>
     sm6_range (off_xy offset) \<and> sm6_range (off_x offset) \<and> sm6_range (off_y offset) \<and>
     sm6_range (cpy_xy copy) \<and> sm6_range (cpy_x copy) \<and> sm6_range (cpy_y copy)"

lemma frame_dest_eq:
  "frame_dest header offset copy =
     (if dest_ok offset copy
      then Inr (dest_bits header (sm6_code (off_xy offset)) (sm6_code (off_x offset))
             (sm6_code (off_y offset)) (sm6_code (cpy_xy copy)) (sm6_code (cpy_x copy))
             (sm6_code (cpy_y copy)))
      else Inl RVRT_CODEC_STATUS_BAD_VALUE)"
  by (auto simp: frame_dest_def dest_ok_def pack_zxy_def pack_copy_def sign_magnitude6_eq dest_bits_def)

text \<open>The six routing fields read back from a frame.\<close>

definition frame_word :: "rvrt_frame \<Rightarrow> u64" where
  "frame_word f = push_bit 32 (ucast (fr_high f)) OR ucast (fr_low f)"

definition frame_sm6 :: "rvrt_frame \<Rightarrow> nat \<Rightarrow> int" where
  "frame_sm6 f off = sm6_value (ucast (take_bit 6 (drop_bit off (frame_word f))))"

lemma bit_frame_word: "bit (frame_word (frame_from_u64 v)) n \<longleftrightarrow> bit v n"
  by (auto simp: frame_word_def bit_or_iff bit_push_bit_iff bit_unsigned_iff bit_frame_high bit_frame_low
      dest: bit_imp_le_length)

lemma frame_word_from [simp]: "frame_word (frame_from_u64 v) = v"
  by (rule bit_word_eqI) (simp add: bit_frame_word)

lemma sm6_code:
  assumes "sm6_range v"
  shows "sm6_value (sm6_code v) = sint v" "bit (sm6_code v) n \<Longrightarrow> n < 6"
proof -
  have s: "sign_magnitude6 v = Some (sm6_code v)" using assms by (simp add: sign_magnitude6_eq)
  have *: "sm6_code v < 64 \<and> sm6_value (sm6_code v) = sint v"
    using sign_magnitude6_spec [of v] s by simp
  then show "sm6_value (sm6_code v) = sint v" by simp
  assume b: "bit (sm6_code v) n"
  have "unat (sm6_code v) < 2 ^ 6" using * by (simp add: word_less_nat_alt)
  then have "take_bit 6 (sm6_code v) = sm6_code v"
    by (simp add: word_unat_eq_iff unsigned_take_bit_eq take_bit_nat_eq_self)
  with b show "n < 6" by (metis bit_take_bit_iff)
qed

definition dest_fields :: "rvrt_frame \<Rightarrow> rvrt_artifact_core_offset \<Rightarrow> rvrt_artifact_copy_count \<Rightarrow> bool" where
  "dest_fields f offset copy \<longleftrightarrow>
     frame_sm6 f 54 = sint (off_xy offset) \<and> frame_sm6 f 48 = sint (off_x offset) \<and>
     frame_sm6 f 42 = sint (off_y offset) \<and> frame_sm6 f 36 = sint (cpy_xy copy) \<and>
     frame_sm6 f 30 = sint (cpy_x copy) \<and> frame_sm6 f 24 = sint (cpy_y copy)"

lemma frame_sm6_eq:
  assumes "sm6_range v" "\<And>n. n < 6 \<Longrightarrow> bit w (off + n) = bit (sm6_code v) n"
  shows "frame_sm6 (frame_from_u64 w) off = sint v"
proof -
  have "ucast (take_bit 6 (drop_bit off w)) = sm6_code v"
    by (rule bit_word_eqI)
      (use assms(2) sm6_code(2) [OF assms(1)] in \<open>auto simp: bit_simps dest: bit_imp_le_length\<close>)
  then show ?thesis using sm6_code(1) [OF assms(1)] by (simp add: frame_sm6_def)
qed

lemma dest_fields_eq:
  assumes "dest_ok offset copy"
    and w: "\<And>n. 24 \<le> n \<Longrightarrow> n < 60 \<Longrightarrow> bit w n =
      bit (dest_bits h (sm6_code (off_xy offset)) (sm6_code (off_x offset))
             (sm6_code (off_y offset)) (sm6_code (cpy_xy copy)) (sm6_code (cpy_x copy))
             (sm6_code (cpy_y copy))) n"
  shows "dest_fields (frame_from_u64 w) offset copy"
  using assms(1) unfolding dest_fields_def dest_ok_def
  by (intro conjI frame_sm6_eq) (simp_all add: w bit_dest_bits)


section \<open>Input work frames\<close>

text \<open>The timestep field: the application timestep wrapped to the bits the LCN leaves, then the tick.\<close>

definition work_timestep :: "rvrt_artifact_input_entry \<Rightarrow> u32 \<Rightarrow> nat" where
  "work_timestep e ts =
     (unat ts mod 2 ^ (8 - unat (in_target_lcn e))) * 2 ^ unat (in_target_lcn e) + unat (in_tick_relative e)"

definition work_entry_ok :: "rvrt_artifact_input_entry \<Rightarrow> bool" where
  "work_entry_ok e \<longleftrightarrow> unat (in_target_lcn e) \<le> 7 \<and> unat (in_addr_axon e) < 512 \<and>
     unat (in_tick_relative e) < 2 ^ unat (in_target_lcn e) \<and>
     dest_ok (in_core_offset e) (in_copy_count e)"

definition work_frame :: "rvrt_artifact_input_entry \<Rightarrow> u32 \<Rightarrow> u8 \<Rightarrow> rvrt_frame" where
  "work_frame e ts payload =
     frame_from_u64
       (dest_bits FC_HDR_WORK (sm6_code (off_xy (in_core_offset e))) (sm6_code (off_x (in_core_offset e)))
          (sm6_code (off_y (in_core_offset e))) (sm6_code (cpy_xy (in_copy_count e)))
          (sm6_code (cpy_x (in_copy_count e))) (sm6_code (cpy_y (in_copy_count e)))
        OR work_bits (of_nat (work_timestep e ts)) (in_addr_axon e) payload)"


lemma work_timestep_bound:
  assumes "unat (in_target_lcn e) \<le> 7" "unat (in_tick_relative e) < 2 ^ unat (in_target_lcn e)"
  shows "work_timestep e ts < 256"
proof -
  let ?l = "unat (in_target_lcn e)"
  have "unat ts mod 2 ^ (8 - ?l) \<le> 2 ^ (8 - ?l) - 1" by (simp add: less_Suc_eq_le [symmetric])
  then have "(unat ts mod 2 ^ (8 - ?l)) * 2 ^ ?l \<le> (2 ^ (8 - ?l) - 1) * 2 ^ ?l" by simp
  also have "\<dots> = 2 ^ (8 - ?l) * 2 ^ ?l - 2 ^ ?l" by (simp add: diff_mult_distrib)
  also have "\<dots> = 256 - 2 ^ ?l" using assms(1) by (simp flip: power_add)
  finally have "(unat ts mod 2 ^ (8 - ?l)) * 2 ^ ?l \<le> 256 - 2 ^ ?l" .
  moreover have "2 ^ ?l \<le> (2 :: nat) ^ 7" using assms(1) by (intro power_increasing) auto
  ultimately show ?thesis using assms(2) by (simp add: work_timestep_def)
qed

lemma resolved_timestep_eq:
  assumes "unat (in_target_lcn e) \<le> 7" "unat (in_tick_relative e) < 2 ^ unat (in_target_lcn e)"
  shows "push_bit (unat (in_target_lcn e)) (ts mod 2 ^ (8 - unat (in_target_lcn e))) + in_tick_relative e
         = (of_nat (work_timestep e ts) :: u32)"
proof -
  let ?l = "unat (in_target_lcn e)"
  have "unat (ts mod 2 ^ (8 - ?l)) = unat ts mod 2 ^ (8 - ?l)"
    using assms(1) by (simp add: unat_mod unat_2p)
  then have "ts mod 2 ^ (8 - ?l) = of_nat (unat ts mod 2 ^ (8 - ?l))"
    by (metis word_of_nat_unat)
  then show ?thesis by (simp add: push_bit_eq_mult work_timestep_def mult.commute)
qed

lemma build_work1_frame_eq:
  "build_work1_frame e ts payload =
     (if work_entry_ok e then Inr (work_frame e ts payload) else Inl RVRT_CODEC_STATUS_BAD_VALUE)"
proof (cases "unat (in_target_lcn e) \<le> 7 \<and> unat (in_addr_axon e) < 512")
  case False
  then show ?thesis
    by (auto simp: build_work1_frame_def work_entry_ok_def word_less_nat_alt)
next
  case guard: True
  then have guard': "\<not> (in_target_lcn e > RVRT_WF_TARGET_LCN_MAX \<or> in_addr_axon e > RVRT_WF_AX_MASK)"
    by (auto simp: word_less_nat_alt)
  show ?thesis
  proof (cases "dest_ok (in_core_offset e) (in_copy_count e)")
    case False
    with guard' show ?thesis by (simp add: build_work1_frame_def frame_dest_eq work_entry_ok_def)
  next
    case dest: True
    let ?l = "unat (in_target_lcn e)"
    have tick: "in_tick_relative e \<ge> 2 ^ ?l \<longleftrightarrow> \<not> unat (in_tick_relative e) < 2 ^ ?l"
      using guard by (simp add: word_le_nat_alt unat_2p not_less)
    show ?thesis
    proof (cases "unat (in_tick_relative e) < 2 ^ ?l")
      case False
      with guard' dest tick show ?thesis
        by (simp add: build_work1_frame_def frame_dest_eq work_entry_ok_def Let_def)
    next
      case True
      have "\<not> (of_nat (work_timestep e ts) :: u32) > FC_WF_TS_MASK"
        using work_timestep_bound [of e ts] guard True by (simp add: word_less_nat_alt unat_of_nat)
      with guard guard' dest tick True show ?thesis
        by (simp add: build_work1_frame_def frame_dest_eq work_entry_ok_def Let_def
            resolved_timestep_eq work_frame_def work_bits_def or.assoc)
    qed
  qed
qed

lemma bit_work_frame_low:
  "bit (fr_low (work_frame e ts p)) n \<longleftrightarrow>
     n < 32 \<and> (if n < 8 then bit p n
      else if n < 17 then bit (in_addr_axon e) (n - 8)
      else if n < 24 then bit (of_nat (work_timestep e ts) :: u32) (n - 17)
      else bit (dest_bits FC_HDR_WORK (sm6_code (off_xy (in_core_offset e)))
          (sm6_code (off_x (in_core_offset e)))
          (sm6_code (off_y (in_core_offset e))) (sm6_code (cpy_xy (in_copy_count e)))
          (sm6_code (cpy_x (in_copy_count e))) (sm6_code (cpy_y (in_copy_count e)))) n)"
proof -
  consider "n < 8" | "8 \<le> n" "n < 17" | "17 \<le> n" "n < 24" | "24 \<le> n" "n < 32" | "32 \<le> n" by linarith
  then show ?thesis
    by cases (simp_all add: work_frame_def bit_frame_low bit_or_iff bit_work_bits bit_dest_bits)
qed

lemma bit_exp_numerals: "bit (8 :: int) n \<longleftrightarrow> n = 3" "bit (128 :: int) n \<longleftrightarrow> n = 7"
  using bit_exp_iff [of 3 n, where 'a = int] bit_exp_iff [of 7 n, where 'a = int] by auto

lemma bit_work_frame_top:
  assumes "28 \<le> n" "n < 32"
  shows "bit (fr_high (work_frame e ts p)) n \<longleftrightarrow>
     n = 31 \<or> n = 28 \<and> bit (of_nat (work_timestep e ts) :: u32) 7"
  using assms
  by (auto simp: work_frame_def bit_frame_high bit_or_iff bit_work_bits bit_dest_bits bit_exp_numerals)

lemma work_frame_kinds:
  "rvrt_frame_is_work_type1 (work_frame e ts p)" "\<not> rvrt_frame_is_work_type2 (work_frame e ts p)"
  "\<not> rvrt_frame_is_complete (Some (work_frame e ts p))"
proof -
  let ?h = "fr_high (work_frame e ts p)"
  have bits: "bit ?h 31" "\<not> bit ?h 30" "\<not> bit ?h 29"
    by (simp_all add: bit_work_frame_top)
  have "drop_bit 30 ?h AND 0x3 = 2"
    by (rule bit_word_eqI)
      (use bits in \<open>auto simp: bit_and_iff bit_drop_bit_eq bit_mask_numerals numeral_eq_Suc less_Suc_eq\<close>)
  moreover have "drop_bit 29 ?h AND 0x1 = 0"
    by (rule bit_word_eqI) (use bits in \<open>auto simp: bit_and_iff bit_drop_bit_eq bit_1_iff intro: gr_zeroI\<close>)
  moreover have "drop_bit 28 ?h AND 0xF \<noteq> 0xE"
  proof
    assume "drop_bit 28 ?h AND 0xF = 0xE"
    then have "bit (drop_bit 28 ?h AND 0xF) 1 = bit (0xE :: u32) 1" by simp
    then show False using bits by (simp add: bit_and_iff bit_drop_bit_eq)
  qed
  ultimately show "rvrt_frame_is_work_type1 (work_frame e ts p)"
    "\<not> rvrt_frame_is_work_type2 (work_frame e ts p)"
    "\<not> rvrt_frame_is_complete (Some (work_frame e ts p))"
    by (simp_all add: rvrt_frame_is_work_type1_def rvrt_frame_is_work_type2_def rvrt_frame_is_work_def
        rvrt_frame_is_complete_def)
qed


lemma bit_small_word:
  assumes "unat (w :: u32) < 2 ^ k" "bit w n"
  shows "n < k"
proof -
  have "take_bit k w = w"
    using assms(1) by (simp add: word_unat_eq_iff unsigned_take_bit_eq take_bit_nat_eq_self)
  with assms(2) show ?thesis by (metis bit_take_bit_iff)
qed

lemma work_frame_encoded_timestep:
  assumes "work_entry_ok e"
  shows "push_bit 7 (drop_bit 28 (fr_high (work_frame e ts p)) AND 1) OR
         (drop_bit 17 (fr_low (work_frame e ts p)) AND 0x7F) = of_nat (work_timestep e ts)"
    (is "?lhs = ?t")
proof (rule bit_word_eqI)
  fix n assume n: "n < LENGTH(32)"
  have small: "bit ?t k \<Longrightarrow> k < 8" for k
    using bit_small_word [of ?t 8 k] work_timestep_bound [of e ts] assms
    by (simp add: work_entry_ok_def unat_of_nat)
  consider "n < 7" | "n = 7" | "7 < n" by linarith
  then show "bit ?lhs n = bit ?t n"
    using n small [of n]
    by cases (auto simp: bit_or_iff bit_push_bit_iff bit_and_iff bit_drop_bit_eq bit_1_iff
        bit_mask_numerals bit_exp_numerals bit_work_frame_low bit_work_frame_top)
qed

lemma work_frame_axon:
  assumes "work_entry_ok e"
  shows "drop_bit 8 (fr_low (work_frame e ts p)) AND 0x1FF = in_addr_axon e"
proof (rule bit_word_eqI)
  fix n assume "n < LENGTH(32)"
  then show "bit (drop_bit 8 (fr_low (work_frame e ts p)) AND 0x1FF) n = bit (in_addr_axon e) n"
    using bit_small_word [of "in_addr_axon e" 9 n] assms
    by (auto simp: work_entry_ok_def bit_and_iff bit_drop_bit_eq bit_mask_numerals bit_work_frame_low)
qed

lemma work_frame_payload: "fr_low (work_frame e ts p) AND 0xFF = ucast p"
proof (rule bit_word_eqI)
  fix n assume "n < LENGTH(32)"
  then show "bit (fr_low (work_frame e ts p) AND 0xFF) n = bit (ucast p :: u32) n"
    by (auto simp: bit_and_iff bit_mask_numerals bit_work_frame_low bit_unsigned_iff
        dest: bit_imp_le_length)
qed

lemma work_timestep_split:
  assumes "work_entry_ok e"
  shows "work_timestep e ts div 2 ^ unat (in_target_lcn e) = unat ts mod 2 ^ (8 - unat (in_target_lcn e))"
    "work_timestep e ts mod 2 ^ unat (in_target_lcn e) = unat (in_tick_relative e)"
  using assms by (simp_all add: work_entry_ok_def work_timestep_def)

lemma work_frame_address:
  assumes ok: "work_entry_ok e" and lcn: "ov_target_lcn v = in_target_lcn e"
  shows "rvrt_output_frame_address v (work_frame e ts p) =
         Inr (of_nat (unat ts mod 2 ^ (8 - unat (in_target_lcn e))),
              in_tick_relative e * 512 + in_addr_axon e)"
proof -
  let ?l = "unat (in_target_lcn e)" and ?t = "of_nat (work_timestep e ts) :: u32"
  have l: "?l \<le> 7" using ok by (simp add: work_entry_ok_def)
  then have nlcn: "\<not> in_target_lcn e > RVRT_WF_TARGET_LCN_MAX" by (simp add: word_less_nat_alt)
  have ut: "unat ?t = work_timestep e ts"
    using work_timestep_bound [of e ts] ok by (simp add: work_entry_ok_def unat_of_nat)
  have ts: "drop_bit ?l ?t = of_nat (unat ts mod 2 ^ (8 - ?l))"
    using work_timestep_split(1) [OF ok, of ts] ut l
    by (simp add: word_unat_eq_iff drop_bit_eq_div unat_div unat_2p unat_of_nat
        mod_less_eq_dividend [THEN le_less_trans])
  have tick: "take_bit ?l ?t = in_tick_relative e"
    using work_timestep_split(2) [OF ok, of ts] ut l
    by (simp add: word_unat_eq_iff take_bit_eq_mod unat_mod unat_2p)
  have ax: "bit (in_addr_axon e) k \<Longrightarrow> k < 9" for k
    using ok bit_small_word [of "in_addr_axon e" 9 k] by (simp add: work_entry_ok_def)
  have "(push_bit 9 ?t OR in_addr_axon e) AND mask (9 + ?l) = push_bit 9 (take_bit ?l ?t) OR in_addr_axon e"
    by (rule bit_word_eqI) (use ax l in \<open>auto simp: bit_simps intro: trans_less_add1\<close>)
  also have "\<dots> = push_bit 9 (in_tick_relative e) + in_addr_axon e"
    unfolding tick
    by (subst disjunctive_add) (use ax in \<open>auto simp: bit_simps dest!: ax\<close>)
  finally have "(push_bit 9 ?t OR in_addr_axon e) AND (push_bit (9 + ?l) 1 - 1) =
      in_tick_relative e * 512 + in_addr_axon e"
    by (simp add: mask_eq_exp_minus_1 push_bit_of_1 push_bit_eq_mult)
  with nlcn ts show ?thesis
    unfolding rvrt_output_frame_address_def lcn Let_def work_frame_encoded_timestep [OF ok]
      work_frame_axon [OF ok] by simp
qed

text \<open>C17.  \<open>build_work1_frame\<close> produces a frame exactly when the LCN is at most 7, the axon below
  512, the tick below \<open>2^LCN\<close> and the six routing values are in the range of their fields; any other
  entry is \<open>BAD_VALUE\<close>.  The frame is a DATA work frame, not a completion, its routing fields
  read back as the entry's offsets and copy counts and its low byte is the payload; and the address
  extraction of the decoder, on a view of the same LCN, recovers the timestep modulo
  \<open>2^(8-LCN)\<close> and the flat axon index made of the tick and the axon.\<close>

theorem work_frame_round_trip:
  "case build_work1_frame e ts payload of
     Inl status \<Rightarrow> status = RVRT_CODEC_STATUS_BAD_VALUE \<and> \<not> work_entry_ok e
   | Inr f \<Rightarrow> work_entry_ok e \<and>
       rvrt_frame_is_work_type1 f \<and> \<not> rvrt_frame_is_work_type2 f \<and> \<not> rvrt_frame_is_complete (Some f) \<and>
       dest_fields f (in_core_offset e) (in_copy_count e) \<and>
       fr_low f AND RVRT_WF_PAYLOAD_MASK = ucast payload \<and>
       rvrt_output_frame_address (v\<lparr>ov_target_lcn := in_target_lcn e\<rparr>) f =
         Inr (of_nat (unat ts mod 2 ^ (8 - unat (in_target_lcn e))),
              in_tick_relative e * 512 + in_addr_axon e)"
proof (cases "work_entry_ok e")
  case True
  then have "dest_ok (in_core_offset e) (in_copy_count e)" by (simp add: work_entry_ok_def)
  then have "dest_fields (work_frame e ts payload) (in_core_offset e) (in_copy_count e)"
    unfolding work_frame_def
    by (rule dest_fields_eq) (simp add: bit_or_iff bit_work_bits)
  with True show ?thesis
    by (simp add: build_work1_frame_eq work_frame_kinds work_frame_payload work_frame_address)
qed (simp add: build_work1_frame_eq)


section \<open>Control frames\<close>

lemma control_bits:
  assumes "payload \<le> FC_CTRL_PAYLOAD_MASK" "header = FC_HDR_SYNC \<or> header = FC_HDR_INIT"
    and "dest_ok c zero_copy_count"
  defines "f \<equiv> frame_from_u64
    (dest_bits header (sm6_code (off_xy c)) (sm6_code (off_x c)) (sm6_code (off_y c))
       (sm6_code (cpy_xy zero_copy_count)) (sm6_code (cpy_x zero_copy_count))
       (sm6_code (cpy_y zero_copy_count)) OR ucast payload)"
  shows "drop_bit 28 (fr_high f) = header" "fr_low f AND 0xFFFFFF = payload"
    "dest_fields f c zero_copy_count"
proof -
  have p: "bit payload n \<Longrightarrow> n < 24" for n
    using assms(1) bit_small_word [of payload 24 n] by (simp add: word_le_nat_alt)
  show "drop_bit 28 (fr_high f) = header"
  proof (rule bit_word_eqI)
    fix n assume "n < LENGTH(32)"
    moreover have "bit header n \<Longrightarrow> n < 4"
      using assms(2) bit_small_word [of header 4 n] by auto
    ultimately show "bit (drop_bit 28 (fr_high f)) n = bit header n"
      using p [of "28 + n + 32"]
      by (auto simp: f_def bit_drop_bit_eq bit_frame_high bit_or_iff bit_dest_bits bit_unsigned_iff)
  qed
  show "fr_low f AND 0xFFFFFF = payload"
  proof (rule bit_word_eqI)
    fix n assume "n < LENGTH(32)"
    then show "bit (fr_low f AND 0xFFFFFF) n = bit payload n"
      using p [of n]
      by (auto simp: f_def bit_and_iff bit_mask_numerals bit_frame_low bit_or_iff bit_dest_bits
          bit_unsigned_iff)
  qed
  show "dest_fields f c zero_copy_count"
    unfolding f_def
    by (rule dest_fields_eq [OF assms(3), of _ header])
      (use p in \<open>auto simp: bit_or_iff bit_unsigned_iff dest: p\<close>)
qed

definition control_frame_ok :: "rvrt_frame \<Rightarrow> u32 \<Rightarrow> u32 \<Rightarrow> rvrt_artifact_core_offset \<Rightarrow> bool" where
  "control_frame_ok f header payload c \<longleftrightarrow>
     drop_bit 28 (fr_high f) = header \<and> fr_low f AND 0xFFFFFF = payload \<and>
     dest_fields f c zero_copy_count \<and> \<not> rvrt_frame_is_work (Some f) \<and>
     \<not> rvrt_frame_is_complete (Some f)"

lemma control_not_work:
  assumes "drop_bit 28 (fr_high f) = header" "header = FC_HDR_SYNC \<or> header = FC_HDR_INIT"
  shows "\<not> rvrt_frame_is_work (Some f)" "\<not> rvrt_frame_is_complete (Some f)"
proof -
  have "drop_bit 30 (fr_high f) = drop_bit 2 (drop_bit 28 (fr_high f))" by simp
  then have "drop_bit 30 (fr_high f) = drop_bit 2 header" using assms(1) by simp
  with assms(2) show "\<not> rvrt_frame_is_work (Some f)"
    by (auto simp: rvrt_frame_is_work_def)
  from assms show "\<not> rvrt_frame_is_complete (Some f)"
    by (auto simp: rvrt_frame_is_complete_def)
qed

lemma control_frame_spec:
  assumes "header = FC_HDR_SYNC \<or> header = FC_HDR_INIT"
  shows "case build_control_frame (Some a) t header payload (Some f0) of (st, f') \<Rightarrow>
    if st = RVRT_CODEC_STATUS_OK
    then payload \<le> FC_CTRL_PAYLOAD_MASK \<and> (\<exists>f c. f' = Some f \<and>
           rvrt_artifact_thread_root_core_offset (Some a) t (Some zero_core_offset) =
             (RVRT_ARTIFACT_OK, Some c) \<and> control_frame_ok f header payload c)
    else f' = Some f0"
proof (cases "payload > FC_CTRL_PAYLOAD_MASK")
  case True
  then show ?thesis by (simp add: build_control_frame_def)
next
  case False
  obtain ast root where r: "rvrt_artifact_thread_root_core_offset (Some a) t (Some zero_core_offset) =
      (ast, root)" by force
  show ?thesis
  proof (cases "ast = RVRT_ARTIFACT_OK")
    case err: False
    then have "codec_status_from_artifact ast \<noteq> RVRT_CODEC_STATUS_OK" by (cases ast) auto
    with False r show ?thesis by (simp add: build_control_frame_def)
  next
    case True
    with r obtain c where c: "root = Some c"
      by (auto simp: rvrt_artifact_thread_root_core_offset_def fill_core_offset_def
          split: sum.splits option.splits)
    show ?thesis
    proof (cases "dest_ok c zero_copy_count")
      case False
      with \<open>\<not> payload > _\<close> r c True show ?thesis
        by (simp add: build_control_frame_def frame_dest_eq)
    next
      case ok: True
      note bits = control_bits [OF _ assms ok, of payload]
      from False have p: "payload \<le> FC_CTRL_PAYLOAD_MASK" by simp
      show ?thesis
        using False r c True ok assms bits [OF p] control_not_work [OF bits(1) [OF p] assms]
        by (simp add: build_control_frame_def frame_dest_eq control_frame_ok_def)
    qed
  qed
qed

text \<open>A synchronization frame is built only for a payload of at most 24 bits and a thread
  with an encodable root; it then carries header 12 in its top nibble, the payload in its low 24 bits,
  the thread root as destination and no copies, and the decoder takes it neither for a work frame
  nor for a completion.  On any error the caller's frame is untouched.\<close>

theorem sync_frame_layout:
  "case rvrt_build_sync_payload_frame (Some a) t payload (Some f0) of (st, f') \<Rightarrow>
    if st = RVRT_CODEC_STATUS_OK
    then payload \<le> FC_CTRL_PAYLOAD_MASK \<and> (\<exists>f c. f' = Some f \<and>
           rvrt_artifact_thread_root_core_offset (Some a) t (Some zero_core_offset) =
             (RVRT_ARTIFACT_OK, Some c) \<and> control_frame_ok f FC_HDR_SYNC payload c)
    else f' = Some f0"
  unfolding rvrt_build_sync_payload_frame_def by (rule control_frame_spec) simp


section \<open>Chunked encoding\<close>

text \<open>The frames from entry \<open>k\<close> on, \<open>m\<close> entries, without a capacity: the one-shot encoder.\<close>

fun encode_from ::
    "rvrt_artifact_input_mapping_view \<Rightarrow> u32 \<Rightarrow> u8 list \<Rightarrow> u32 \<Rightarrow> nat \<Rightarrow> u32
       \<Rightarrow> (codec_status \<times> rvrt_frame list) option" where
  "encode_from view ts input n 0 k = Some (RVRT_CODEC_STATUS_DONE, [])"
| "encode_from view ts input n (Suc m) k =
     (case encode_entry view k input n of
        None \<Rightarrow> None
      | Some (Inl status) \<Rightarrow> Some (status, [])
      | Some (Inr (entry, payload)) \<Rightarrow>
          if payload = 0 then encode_from view ts input n m (k + 1)
          else (case build_work1_frame entry ts payload of
                  Inl status \<Rightarrow> Some (status, [])
                | Inr frame \<Rightarrow>
                    (case encode_from view ts input n m (k + 1) of
                       None \<Rightarrow> None
                     | Some (status, frames) \<Rightarrow> Some (status, frame # frames))))"

definition encode_rest ::
    "rvrt_artifact_input_mapping_view \<Rightarrow> rvrt_input_cursor \<Rightarrow> u8 list \<Rightarrow> u32
       \<Rightarrow> (codec_status \<times> rvrt_frame list) option" where
  "encode_rest view c input n =
     encode_from view (cu_timestep c) input n
       (unat (iv_entry_count view) - unat (cu_entry_index c)) (cu_entry_index c)"

text \<open>What a chunk delivers: the whole rest, or as many frames as fit and a cursor at what is left.\<close>

definition chunk_post ::
    "rvrt_artifact_input_mapping_view \<Rightarrow> u8 list \<Rightarrow> u32 \<Rightarrow> nat \<Rightarrow> codec_status \<Rightarrow> rvrt_frame list
       \<Rightarrow> codec_status \<Rightarrow> rvrt_input_cursor \<Rightarrow> rvrt_frame list \<Rightarrow> bool" where
  "chunk_post view input n room st fs st1 c1 out \<longleftrightarrow>
     st1 \<noteq> RVRT_CODEC_STATUS_BUFFER_FULL \<and> st1 = st \<and> out = fs
   \<or> st1 = RVRT_CODEC_STATUS_BUFFER_FULL \<and> length out = room \<and>
     (\<exists>fs'. encode_rest view c1 input n = Some (st, fs') \<and> fs = out @ fs')"

lemma encode_entry_not_full:
  "encode_entry view k input n = Some (Inl st) \<Longrightarrow> st \<noteq> RVRT_CODEC_STATUS_BUFFER_FULL"
  by (auto simp: encode_entry_def Let_def split: option.splits if_splits prod.splits bind_splits
      elim!: codec_status_from_artifact.elims)


abbreviation advance :: "rvrt_input_cursor \<Rightarrow> rvrt_input_cursor" where
  "advance c \<equiv> c\<lparr>cu_entry_index := cu_entry_index c + 1\<rparr>"

lemma encode_rest_done:
  "\<not> cu_entry_index c < iv_entry_count view \<Longrightarrow>
   encode_rest view c input n = Some (RVRT_CODEC_STATUS_DONE, [])"
  by (simp add: encode_rest_def word_less_nat_alt)

lemma encode_rest_step:
  assumes "cu_entry_index c < iv_entry_count view"
  shows "encode_rest view c input n =
     (case encode_entry view (cu_entry_index c) input n of
        None \<Rightarrow> None
      | Some (Inl status) \<Rightarrow> Some (status, [])
      | Some (Inr (entry, payload)) \<Rightarrow>
          if payload = 0 then encode_rest view (advance c) input n
          else (case build_work1_frame entry (cu_timestep c) payload of
                  Inl status \<Rightarrow> Some (status, [])
                | Inr frame \<Rightarrow>
                    (case encode_rest view (advance c) input n of
                       None \<Rightarrow> None
                     | Some (status, frames) \<Rightarrow> Some (status, frame # frames))))"
proof -
  have count: "unat (iv_entry_count view) - unat (cu_entry_index c) =
        Suc (unat (iv_entry_count view) - unat (cu_entry_index c + 1))"
    using assms unat_Suc_word [OF assms] by (simp add: word_less_nat_alt)
  have next_rest: "encode_rest view (advance c) input n =
      encode_from view (cu_timestep c) input n
        (unat (iv_entry_count view) - unat (cu_entry_index c + 1)) (cu_entry_index c + 1)"
    by (simp add: encode_rest_def)
  show ?thesis
    unfolding next_rest encode_rest_def [of view c] count encode_from.simps by (rule refl)
qed

lemma encode_rest_not_full:
  "encode_rest view c input n = Some (st, fs) \<Longrightarrow> st \<noteq> RVRT_CODEC_STATUS_BUFFER_FULL"
proof -
  have "encode_from view ts input n m k = Some (st, fs) \<Longrightarrow> st \<noteq> RVRT_CODEC_STATUS_BUFFER_FULL"
    for ts m k fs
    by (induction m arbitrary: k fs)
      (auto simp: build_work1_frame_eq dest: encode_entry_not_full
        split: option.splits sum.splits if_splits)
  then show "encode_rest view c input n = Some (st, fs) \<Longrightarrow> st \<noteq> RVRT_CODEC_STATUS_BUFFER_FULL"
    by (simp add: encode_rest_def)
qed

lemma advance_back: "(advance c)\<lparr>cu_entry_index := cu_entry_index (advance c) - 1\<rparr> = c"
  by simp

lemma take_drop_Suc:
  assumes "a < b" "b \<le> length xs"
  shows "drop a (take b xs) = xs ! a # drop (Suc a) (take b xs)"
  using assms by (metis (no_types, lifting) Cons_nth_drop_Suc length_take min.absorb2 nth_take)

text \<open>A frame written at the end of the output joins the chunk that follows it.\<close>

lemma chunk_post_written:
  assumes "chunk_post view input n (unat cap - unat (cnt + 1)) st fs' st1 c1 (drop (unat cnt + 1) (take (unat cnt1) buf1))"
    and fs: "fs = f # fs'" and kept: "take (unat cnt + 1) buf1 = take (unat cnt + 1) (buf[unat cnt := f])"
    and len: "unat cnt < length buf" and count: "unat cnt + 1 \<le> unat cnt1" "unat cnt1 \<le> length buf1"
    and room: "unat cnt < unat cap" "unat (cnt + 1) = unat cnt + 1"
  shows "take (unat cnt) buf1 = take (unat cnt) buf"
    and "chunk_post view input n (unat cap - unat cnt) st fs st1 c1 (drop (unat cnt) (take (unat cnt1) buf1))"
proof -
  show "take (unat cnt) buf1 = take (unat cnt) buf"
    using arg_cong [OF kept, of "take (unat cnt)"] by (simp add: take_update_cancel)
  have "buf1 ! unat cnt = f" using kept len by (metis less_add_one nth_list_update_eq nth_take)
  then have out: "drop (unat cnt) (take (unat cnt1) buf1) = f # drop (unat cnt + 1) (take (unat cnt1) buf1)"
    using take_drop_Suc [of "unat cnt" "unat cnt1" buf1] count by simp
  show "chunk_post view input n (unat cap - unat cnt) st fs st1 c1 (drop (unat cnt) (take (unat cnt1) buf1))"
    using assms(1) room unfolding chunk_post_def out fs by (auto simp: Suc_diff_Suc)
qed

lemma encode_input_loop_chunk:
  assumes "encode_rest view c input n = Some (st, fs)"
    and "unat cnt \<le> unat cap" "unat cap \<le> length buf"
  shows "\<exists>st1 c1 buf1 cnt1. encode_input_loop view c input n buf cap cnt = Some (st1, c1, buf1, cnt1) \<and>
     length buf1 = length buf \<and> unat cnt \<le> unat cnt1 \<and> unat cnt1 \<le> unat cap \<and>
     cu_timestep c1 = cu_timestep c \<and> take (unat cnt) buf1 = take (unat cnt) buf \<and>
     chunk_post view input n (unat cap - unat cnt) st fs st1 c1 (drop (unat cnt) (take (unat cnt1) buf1))"
  using assms
proof (induction view c input n buf cap cnt arbitrary: fs rule: encode_input_loop.induct)
  case (1 view c input n buf cap cnt)
  show ?case
  proof (cases "cu_entry_index c < iv_entry_count view")
    case False
    with "1.prems" show ?thesis
      by (subst encode_input_loop.simps) (auto simp: encode_rest_done chunk_post_def)
  next
    case more: True
    note rest = encode_rest_step [OF more, of input n]
    from "1.prems"(1) rest obtain r where r: "encode_entry view (cu_entry_index c) input n = Some r"
      by (auto split: option.splits)
    show ?thesis
    proof (cases r)
      case (Inl status)
      with "1.prems" rest r more encode_rest_not_full [OF "1.prems"(1)] show ?thesis
        by (subst encode_input_loop.simps) (auto simp: chunk_post_def)
    next
      case (Inr ep)
      obtain e p where ep: "ep = (e, p)" by (cases ep)
      show ?thesis
      proof (cases "p = 0")
        case True
        with "1.prems"(1) rest r Inr ep have rest': "encode_rest view (advance c) input n = Some (st, fs)"
          by simp
        show ?thesis
          using "1.IH"(1) [OF more r Inr ep [symmetric] refl True rest' "1.prems"(2,3)] more r Inr ep True
          by (subst encode_input_loop.simps) simp
      next
        case nonzero: False
        show ?thesis
        proof (cases "cnt \<ge> cap")
          case True
          then have eq: "cnt = cap" using "1.prems"(2) by (simp add: word_le_nat_alt word_unat_eq_iff)
          show ?thesis
            using more r Inr ep nonzero True "1.prems" eq
            by (subst encode_input_loop.simps) (simp add: Let_def advance_back chunk_post_def)
        next
          case room: False
          then have lt: "unat cnt < unat cap" by (simp add: word_le_nat_alt)
          show ?thesis
          proof (cases "build_work1_frame e (cu_timestep c) p")
            case err: (Inl status)
            with "1.prems" rest r more Inr ep nonzero room encode_rest_not_full [OF "1.prems"(1)]
            show ?thesis
              by (subst encode_input_loop.simps) (auto simp: chunk_post_def)
          next
            case frame: (Inr f)
            let ?buf = "buf[unat cnt := f]"
            have w: "wr buf cnt f = Some ?buf" using lt "1.prems"(3) by simp
            have cnt: "unat (cnt + 1) = unat cnt + 1"
              using room unat_Suc_word [of cnt cap] by (simp add: not_le)
            from "1.prems"(1) rest r Inr ep nonzero frame obtain fs' where
              fs': "encode_rest view (advance c) input n = Some (st, fs')" "fs = f # fs'"
              by (auto split: option.splits)
            have "unat (cnt + 1) \<le> unat cap" "unat cap \<le> length ?buf"
              using lt cnt "1.prems"(3) by simp_all
            from "1.IH"(2) [OF more r Inr ep [symmetric] refl nonzero room _ w fs'(1) this] frame
            obtain st1 c1 buf1 cnt1 where ih:
              "encode_input_loop view (advance c) input n ?buf cap (cnt + 1) = Some (st1, c1, buf1, cnt1)"
              "length buf1 = length buf" "unat cnt + 1 \<le> unat cnt1" "unat cnt1 \<le> unat cap"
              "cu_timestep c1 = cu_timestep c"
              "take (unat cnt + 1) buf1 = take (unat cnt + 1) ?buf"
              "chunk_post view input n (unat cap - unat (cnt + 1)) st fs' st1 c1
                 (drop (unat cnt + 1) (take (unat cnt1) buf1))"
              by (auto simp: cnt)
            note chunk = chunk_post_written [OF ih(7) fs'(2) ih(6) _ ih(3) _ _ cnt]
            have "take (unat cnt) buf1 = take (unat cnt) buf"
              "chunk_post view input n (unat cap - unat cnt) st fs st1 c1 (drop (unat cnt) (take (unat cnt1) buf1))"
              by (rule chunk; use ih(2,4) lt "1.prems"(3) in simp)+
            moreover
            have "encode_input_loop view c input n buf cap cnt = Some (st1, c1, buf1, cnt1)"
              using more r Inr ep nonzero room frame w ih(1)
              by (subst encode_input_loop.simps) (simp add: Let_def)
            ultimately show ?thesis using ih(2-5) by auto
          qed
        qed
      qed
    qed
  qed
qed


text \<open>The input view of the small artifact.\<close>

definition demo_in_entries :: "fbs_InputEntry option list" where
  "demo_in_entries = [Some (demo_in_entry 0 5), Some (demo_in_entry 1 6)]"

definition demo_in_view :: rvrt_artifact_input_mapping_view where
  "demo_in_view = \<lparr>iv_entries = Some demo_in_entries, iv_entry_count = 2, iv_element_count = 2,
                   iv_bit_width = 8\<rparr>"

lemma demo_in_view_ok: "input_view_ok demo_in_view"
  by (simp add: input_view_ok_def demo_in_view_def demo_in_entries_def input_entry_ok_def
      demo_in_entry_def dtype_width_def)

lemma demo_in_view_entries: "iv_entries demo_in_view \<noteq> None"
  by (simp add: demo_in_view_def)

section \<open>One-shot encoding of an accepted view\<close>

text \<open>The frames an input stands for: one per mapped element that is not zero, in table order.\<close>

definition payload_of :: "u32 \<Rightarrow> bool \<Rightarrow> u8 \<Rightarrow> u8" where
  "payload_of bits sg raw = (if sg then ucast (take_bit (unat bits) (word_of_int (sint raw) :: u32)) else raw)"

fun input_frames :: "u32 \<Rightarrow> u8 list \<Rightarrow> fbs_InputEntry list \<Rightarrow> codec_status \<times> rvrt_frame list" where
  "input_frames ts input [] = (RVRT_CODEC_STATUS_DONE, [])"
| "input_frames ts input (s # ss) =
     (case dtype_bits (scast (ie_dtype s)) of
        None \<Rightarrow> (RVRT_CODEC_STATUS_UNSUPPORTED, [])
      | Some (bits, sg) \<Rightarrow>
          let raw = input ! unat (ie_elem_idx s) in
          if \<not> dtype_range bits sg raw then (RVRT_CODEC_STATUS_BAD_VALUE, [])
          else if raw = 0 then input_frames ts input ss
          else if \<not> work_entry_ok (entry_of s) then (RVRT_CODEC_STATUS_BAD_VALUE, [])
          else let (st, fs) = input_frames ts input ss
               in (st, work_frame (entry_of s) ts (payload_of bits sg raw) # fs))"

lemma decode_payload_0: "bits \<in> {1, 2, 4, 8} \<Longrightarrow> decode_payload 0 bits sg = 0"
  by (rule bit_word_eqI) (simp add: decode_payload_bit)

lemma payload_of_0:
  assumes "bits \<in> {1, 2, 4, 8}" "dtype_range bits sg raw" "dtype_bits d = Some (bits, sg)"
  shows "payload_of bits sg raw = 0 \<longleftrightarrow> raw = 0"
proof
  have e: "encode_payload raw bits sg = Some (payload_of bits sg raw)"
    using assms(2) by (simp add: encode_payload_spec [OF assms(1)] payload_of_def)
  have r: "decode_payload (ucast (payload_of bits sg raw)) bits sg = raw"
    using payload_spec [of d raw] e assms(3) by simp
  show "raw = 0" if "payload_of bits sg raw = 0"
    using r that decode_payload_0 [OF assms(1)] by simp
  show "payload_of bits sg raw = 0" if "raw = 0"
    using that by (simp add: payload_of_def)
qed

lemma dtype_bits_in_range:
  assumes "entry_in_range v e"
  obtains sg where "dtype_bits (in_dtype e) = Some (iv_bit_width v, sg)"
proof -
  from assms have "unat (in_dtype e) \<in> {1, 2, 3, 4, 5, 6, 7, 8}"
    by (auto simp: entry_in_range_def word_le_nat_alt)
  then have "dtype_bits (in_dtype e) =
      Some (of_nat (2 ^ ((unat (in_dtype e) - 1) div 2)), even (unat (in_dtype e)))"
    by (auto simp: dtype_bits_def k_dtype_info_def)
  moreover have "(of_nat (2 ^ ((unat (in_dtype e) - 1) div 2)) :: u32) = iv_bit_width v"
    using assms unfolding entry_in_range_def by (simp only: word_of_nat_unat)
  ultimately have "dtype_bits (in_dtype e) = Some (iv_bit_width v, even (unat (in_dtype e)))"
    by (simp only:)
  then show ?thesis by (rule that)
qed

lemma encode_entry_accepted:
  assumes "input_view_ok v" "k < iv_entry_count v" "iv_element_count v \<le> n" "unat n \<le> length input"
    and es: "iv_entries v = Some es"
  obtains s sg where "es ! unat k = Some s" "unat k < length es"
    "dtype_bits (scast (ie_dtype s)) = Some (iv_bit_width v, sg)"
    "encode_entry v k input n =
       Some (if dtype_range (iv_bit_width v) sg (input ! unat (ie_elem_idx s))
             then Inr (entry_of s, payload_of (iv_bit_width v) sg (input ! unat (ie_elem_idx s)))
             else Inl RVRT_CODEC_STATUS_BAD_VALUE)"
proof -
  from input_mapping_entry_ok [OF assms(1,2), of zero_input_entry] es
  obtain s where s: "es ! unat k = Some s" "unat k < length es"
      "rvrt_artifact_input_mapping_entry (Some v) k (Some zero_input_entry) =
         Some (RVRT_ARTIFACT_OK, Some (entry_of s))" "entry_in_range v (entry_of s)"
    by auto
  from dtype_bits_in_range [OF s(4)] obtain sg where
    sg: "dtype_bits (in_dtype (entry_of s)) = Some (iv_bit_width v, sg)" by blast
  from dtype_bits_cases [OF sg] have w: "iv_bit_width v \<in> {1, 2, 4, 8}" .
  have idx: "in_elem_idx (entry_of s) < n"
    using s(4) assms(3) by (auto simp: entry_in_range_def)
  then have len: "unat (in_elem_idx (entry_of s)) < length input"
    using assms(4) by (simp add: word_less_nat_alt)
  show ?thesis
  proof (rule that [OF s(1,2)])
    show "dtype_bits (scast (ie_dtype s)) = Some (iv_bit_width v, sg)"
      using sg by (simp add: entry_of_def)
    show "encode_entry v k input n =
       Some (if dtype_range (iv_bit_width v) sg (input ! unat (ie_elem_idx s))
             then Inr (entry_of s, payload_of (iv_bit_width v) sg (input ! unat (ie_elem_idx s)))
             else Inl RVRT_CODEC_STATUS_BAD_VALUE)"
      using s(3) sg idx len encode_payload_spec [OF w]
      by (simp add: encode_entry_def Let_def not_le payload_of_def) (simp add: entry_of_def)
  qed
qed

lemma encode_from_accepted:
  assumes "input_view_ok v" "iv_element_count v \<le> n" "unat n \<le> length input"
    and es: "iv_entries v = Some es"
  shows "unat k + m = unat (iv_entry_count v) \<Longrightarrow>
    encode_from v ts input n m k =
      Some (input_frames ts input (map the (take m (drop (unat k) es))))"
proof (induction m arbitrary: k)
  case 0
  then show ?case by simp
next
  case (Suc m)
  then have k: "k < iv_entry_count v" by (simp add: word_less_nat_alt)
  from encode_entry_accepted [OF assms(1) k assms(2,3) es] obtain s sg where
    s: "es ! unat k = Some s" "unat k < length es"
    "dtype_bits (scast (ie_dtype s)) = Some (iv_bit_width v, sg)"
    "encode_entry v k input n =
       Some (if dtype_range (iv_bit_width v) sg (input ! unat (ie_elem_idx s))
             then Inr (entry_of s, payload_of (iv_bit_width v) sg (input ! unat (ie_elem_idx s)))
             else Inl RVRT_CODEC_STATUS_BAD_VALUE)" by blast
  have w: "iv_bit_width v \<in> {1, 2, 4, 8}" using dtype_bits_cases [OF s(3)] .
  have "unat (k + 1) = unat k + 1" using unat_Suc_word [OF k] .
  then have ih: "encode_from v ts input n m (k + 1) =
      Some (input_frames ts input (map the (take m (drop (Suc (unat k)) es))))"
    using Suc.IH [of "k + 1"] Suc.prems by simp
  have list: "map the (take (Suc m) (drop (unat k) es)) = s # map the (take m (drop (Suc (unat k)) es))"
    using s(1,2) by (metis Cons_nth_drop_Suc list.map(2) option.sel take_Suc_Cons)
  show ?case
    unfolding list using s(3,4) ih payload_of_0 [OF w _ s(3)]
    by (auto simp: build_work1_frame_eq Let_def split: prod.splits)
qed

text \<open>On an accepted input view, and an input that covers the tensor, encoding reads no memory
  outside the input and stands for exactly one frame per mapped nonzero element, in table order, each
  the work frame of its entry with the element's payload; it stops with \<open>BAD_VALUE\<close> at the first
  element out of the range of its type or entry whose address does not fit, and with \<open>DONE\<close>
  otherwise.\<close>

theorem encode_accepted_view:
  assumes "input_view_ok v" "iv_entries v = Some es"
    and "iv_element_count v \<le> n" "unat n \<le> length input"
  shows "encode_rest v \<lparr>cu_entry_index = 0, cu_timestep = ts\<rparr> input n =
         Some (input_frames ts input (map the (take (unat (iv_entry_count v)) es)))"
  using encode_from_accepted [OF assms(1,3,4,2), of 0 "unat (iv_entry_count v)" ts]
  by (simp add: encode_rest_def)

theorem encode_accepted_view_witness:
  "encode_rest demo_in_view \<lparr>cu_entry_index = 0, cu_timestep = 3\<rparr> [7, 0] 2 =
     Some (RVRT_CODEC_STATUS_DONE, [work_frame (entry_of (demo_in_entry 0 5)) 3 7])"
proof -
  have "work_entry_ok (entry_of (demo_in_entry 0 5))"
    by (simp add: work_entry_ok_def entry_of_def demo_in_entry_def dest_ok_def sm6_range_def)
  moreover have "iv_entries demo_in_view = Some demo_in_entries" by (simp add: demo_in_view_def)
  note encode_accepted_view [OF demo_in_view_ok this, of 2 "[7, 0]" 3]
  ultimately show ?thesis
    by (simp add: demo_in_view_def demo_in_entries_def)
      (simp add: demo_in_entry_def dtype_bits_def k_dtype_info_def dtype_range_def payload_of_def)
qed


section \<open>Chunks\<close>

lemma encode_chunk_lemma:
  assumes "iv_entries v \<noteq> None" "encode_rest v c input n = Some (st, fs)"
    and "cap \<noteq> 0" "unat cap \<le> length buf"
  shows "\<exists>st1 c1 buf1 m.
     rvrt_encode_input_chunk (Some v) (Some c) (Some input) n (Some buf) cap (Some m0) =
       Some (st1, Some c1, Some buf1, Some m) \<and>
     length buf1 = length buf \<and> unat m \<le> unat cap \<and> cu_timestep c1 = cu_timestep c \<and>
     chunk_post v input n (unat cap) st fs st1 c1 (take (unat m) buf1)"
proof -
  from encode_input_loop_chunk [OF assms(2), of 0 cap buf] assms(4)
  obtain st1 c1 buf1 m where
    "encode_input_loop v c input n buf cap 0 = Some (st1, c1, buf1, m)"
    "length buf1 = length buf" "unat m \<le> unat cap" "cu_timestep c1 = cu_timestep c"
    "chunk_post v input n (unat cap) st fs st1 c1 (take (unat m) buf1)"
    by auto
  with assms(1,3) show ?thesis by (auto simp: rvrt_encode_input_chunk_def)
qed

text \<open>C4.  Chunked encoding delivers exactly the frames of the one-shot encoding, for any capacity: a
  call that is not \<open>BUFFER_FULL\<close> returns the final status and all remaining frames; a call that is
  \<open>BUFFER_FULL\<close> has filled the buffer with the next frames and leaves the cursor where the
  encoding of exactly the frames not yet delivered begins.  The buffer is never overrun and the
  cursor keeps its timestep.\<close>

theorem encode_chunk_delivers_rest:
  assumes "iv_entries v \<noteq> None" "encode_rest v c input n = Some (st, fs)"
    and "cap \<noteq> 0" "unat cap \<le> length buf"
  shows "\<exists>st1 c1 buf1 m.
     rvrt_encode_input_chunk (Some v) (Some c) (Some input) n (Some buf) cap (Some m0) =
       Some (st1, Some c1, Some buf1, Some m) \<and>
     length buf1 = length buf \<and> unat m \<le> unat cap \<and> cu_timestep c1 = cu_timestep c \<and>
     chunk_post v input n (unat cap) st fs st1 c1 (take (unat m) buf1)"
  by (rule encode_chunk_lemma [OF assms])

text \<open>Two frames through a buffer of one: the first call is full after the first frame.\<close>

theorem encode_chunk_delivers_rest_witness:
  "\<exists>c1. rvrt_encode_input_chunk (Some demo_in_view) (Some \<lparr>cu_entry_index = 0, cu_timestep = 3\<rparr>)
     (Some [7, 9]) 2 (Some [\<lparr>fr_high = 0, fr_low = 0\<rparr>]) 1 (Some 5) =
       Some (RVRT_CODEC_STATUS_BUFFER_FULL, Some c1, Some [work_frame (entry_of (demo_in_entry 0 5)) 3 7], Some 1)"
proof -
  let ?f0 = "work_frame (entry_of (demo_in_entry 0 5)) 3 7" and ?f1 = "work_frame (entry_of (demo_in_entry 1 6)) 3 9"
  have ok: "work_entry_ok (entry_of (demo_in_entry 0 5))" "work_entry_ok (entry_of (demo_in_entry 1 6))"
    by (simp_all add: work_entry_ok_def entry_of_def demo_in_entry_def dest_ok_def sm6_range_def)
  have "iv_entries demo_in_view = Some demo_in_entries" by (simp add: demo_in_view_def)
  from encode_from_accepted [OF demo_in_view_ok _ _ this, of 2 "[7, 9]" 0 2 3] ok
  have "encode_rest demo_in_view \<lparr>cu_entry_index = 0, cu_timestep = 3\<rparr> [7, 9] 2 =
      Some (RVRT_CODEC_STATUS_DONE, [?f0, ?f1])"
    by (simp add: encode_rest_def demo_in_view_def demo_in_entries_def)
      (simp add: demo_in_entry_def dtype_bits_def k_dtype_info_def dtype_range_def payload_of_def)
  from encode_chunk_delivers_rest [OF demo_in_view_entries this, of 1 "[\<lparr>fr_high = 0, fr_low = 0\<rparr>]" 5]
  obtain st1 c1 buf1 m where r:
    "rvrt_encode_input_chunk (Some demo_in_view) (Some \<lparr>cu_entry_index = 0, cu_timestep = 3\<rparr>)
     (Some [7, 9]) 2 (Some [\<lparr>fr_high = 0, fr_low = 0\<rparr>]) 1 (Some 5) =
       Some (st1, Some c1, Some buf1, Some m)" "length buf1 = 1" "unat m \<le> 1"
    "chunk_post demo_in_view [7, 9] 2 1 RVRT_CODEC_STATUS_DONE [?f0, ?f1] st1 c1 (take (unat m) buf1)"
    by auto
  from r(2) obtain b where b: "buf1 = [b]" by (cases buf1) auto
  from r(3,4) b have "st1 = RVRT_CODEC_STATUS_BUFFER_FULL" "take (unat m) [b] = [?f0]" "unat m = 1"
    by (cases "unat m"; auto simp: chunk_post_def)+
  moreover from this have "m = 1" by (simp add: word_unat_eq_iff)
  ultimately show ?thesis using r(1) b by auto
qed

end
