(* ===== verification/Session_Laws.thy ===== *)
theory Session_Laws
  imports SessionIo Frame_Laws
begin

text \<open>
  What a session promises: the frames an interrupt collects, the outcome of a wait, the timeline,
  exclusive ownership, and the rejection of every transport operation after a fault.
\<close>

lemmas upd_defs = upd_barrier_def upd_session_def upd_hw_def

section \<open>Receiving\<close>

text \<open>The uplink delivers the high word of a frame first.\<close>

definition up_words :: "rvrt_frame list \<Rightarrow> u32 list" where
  "up_words fs = concat (map (\<lambda>f. [fr_high f, fr_low f]) fs)"

lemma up_words_simps [simp]:
  "up_words [] = []" "up_words (f # fs) = fr_high f # fr_low f # up_words fs"
  "up_words (fs @ gs) = up_words fs @ up_words gs"
  by (simp_all add: up_words_def)

abbreviation set_up :: "u32 list \<Rightarrow> ('u, 'm) world \<Rightarrow> ('u, 'm) world" where
  "set_up ws w \<equiv> w\<lparr>w_hw := (w_hw w)\<lparr>hw_up := ws\<rparr>\<rparr>"

lemma frame_eta [simp]: "\<lparr>fr_high = fr_high f, fr_low = fr_low f\<rparr> = f"
  by (cases f) simp

lemma noc_rx_loop_completed: "bar_completed (barrier_of w p) \<Longrightarrow> noc_rx_loop p w = Some w"
  by (subst noc_rx_loop.simps) simp

lemma noc_rx_loop_frame:
  assumes "\<not> bar_completed (barrier_of w p)" "hw_up (w_hw w) = fr_high f # fr_low f # ws"
  shows "noc_rx_loop p w =
    (case receive_rx_barrier_frame p f (set_up ws w) of None \<Rightarrow> None | Some w' \<Rightarrow> noc_rx_loop p w')"
  using assms by (subst noc_rx_loop.simps) (simp add: noc_read_eq)

text \<open>Collecting into the caller's buffer.\<close>

definition collected ::
    "nat \<Rightarrow> nat \<Rightarrow> rvrt_frame list \<Rightarrow> u32 list \<Rightarrow> ('u, 'm) world \<Rightarrow> ('u, 'm) world" where
  "collected p buf fs ws w =
     upd_barrier p (\<lambda>b. b\<lparr>bar_rx_count := bar_rx_count b + of_nat (length fs)\<rparr>)
       (set_up ws (w\<lparr>w_buf := (w_buf w)(buf := take (unat (bar_rx_count (barrier_of w p))) (w_buf w buf) @ fs @
          drop (unat (bar_rx_count (barrier_of w p)) + length fs) (w_buf w buf))\<rparr>))"

definition collecting :: "nat \<Rightarrow> nat \<Rightarrow> ('u, 'm) world \<Rightarrow> bool" where
  "collecting p buf w \<longleftrightarrow> \<not> bar_completed (barrier_of w p) \<and> bar_handler (barrier_of w p) = None \<and>
     se_rx_frames (w_session w p) = Some buf \<and>
     unat (se_rx_capacity (w_session w p)) \<le> length (w_buf w buf)"

lemma receive_collect:
  assumes "collecting p buf w" "bar_rx_count (barrier_of w p) < se_rx_capacity (w_session w p)"
  shows "receive_rx_barrier_frame p f (set_up ws w) =
    Some (if rvrt_frame_is_complete (Some f)
          then upd_barrier p (\<lambda>b. b\<lparr>bar_completed := True\<rparr>) (collected p buf [f] ws w)
          else collected p buf [f] ws w)"
proof -
  let ?n = "unat (bar_rx_count (barrier_of w p))"
  have n: "?n < length (w_buf w buf)"
    using assms by (simp add: collecting_def word_less_nat_alt)
  then have "(w_buf w buf)[?n := f] = take ?n (w_buf w buf) @ [f] @ drop (?n + 1) (w_buf w buf)"
    by (simp add: upd_conv_take_nth_drop)
  with assms n show ?thesis
    by (simp add: receive_rx_barrier_frame_def Let_def collecting_def not_le collected_def upd_defs)
qed

lemma collected_collected:
  assumes "unat (bar_rx_count (barrier_of w p)) + length fs + length gs \<le> length (w_buf w buf)"
    "unat (bar_rx_count (barrier_of w p)) + length fs < 2 ^ 32"
  shows "collected p buf gs ws (collected p buf fs ws' w) = collected p buf (fs @ gs) ws w"
proof -
  let ?c = "bar_rx_count (barrier_of w p)"
  have "unat (?c + of_nat (length fs)) = unat ?c + length fs"
    using assms(2) by (simp add: unat_add_u32 unat_of_nat)
  with assms(1) show ?thesis
    by (simp add: collected_def upd_defs ac_simps)
qed

lemma noc_rx_loop_collects:
  assumes "collecting p buf w" "hw_up (w_hw w) = up_words (fs @ [c]) @ ws"
    and "list_all (\<lambda>f. \<not> rvrt_frame_is_complete (Some f)) fs" "rvrt_frame_is_complete (Some c)"
    and "unat (bar_rx_count (barrier_of w p)) + length fs < unat (se_rx_capacity (w_session w p))"
  shows "noc_rx_loop p w =
    Some (upd_barrier p (\<lambda>b. b\<lparr>bar_completed := True\<rparr>) (collected p buf (fs @ [c]) ws w))"
  using assms
proof (induction fs arbitrary: w)
  case Nil
  then have "receive_rx_barrier_frame p c (set_up ws w) =
      Some (upd_barrier p (\<lambda>b. b\<lparr>bar_completed := True\<rparr>) (collected p buf [c] ws w))"
    by (subst receive_collect) (auto simp: word_less_nat_alt)
  with Nil show ?case
    by (subst noc_rx_loop_frame [of _ _ c ws])
      (auto simp: collecting_def noc_rx_loop_completed upd_defs)
next
  case (Cons f fs)
  let ?n = "unat (bar_rx_count (barrier_of w p))"
  let ?w = "collected p buf [f] (up_words (fs @ [c]) @ ws) w"
  have room: "bar_rx_count (barrier_of w p) < se_rx_capacity (w_session w p)"
    using Cons.prems(5) by (simp add: word_less_nat_alt)
  have n1: "unat (bar_rx_count (barrier_of w p) + 1) = ?n + 1"
    using unat_Suc_word [OF room] .
  have cap: "?n + length fs + 1 < unat (se_rx_capacity (w_session w p))" using Cons.prems(5) by simp
  then have len: "?n + length fs + 1 < length (w_buf w buf)" using Cons.prems(1)
    by (auto simp: collecting_def)
  have "?n + length fs + 1 < 4294967296"
    using cap unat_lt_2_32 [of "se_rx_capacity (w_session w p)"] by linarith
  then have len32: "?n + length [f] < 2 ^ 32" by simp
  have "receive_rx_barrier_frame p f (set_up (up_words (fs @ [c]) @ ws) w) = Some ?w"
    using Cons.prems(1,3) room by (subst receive_collect) auto
  then have "noc_rx_loop p w = noc_rx_loop p ?w"
    using Cons.prems(1,2) by (subst noc_rx_loop_frame [of _ _ f "up_words (fs @ [c]) @ ws"])
      (auto simp: collecting_def)
  also have "\<dots> = Some (upd_barrier p (\<lambda>b. b\<lparr>bar_completed := True\<rparr>) (collected p buf (fs @ [c]) ws ?w))"
  proof (rule Cons.IH)
    show "collecting p buf ?w" using Cons.prems(1) len
      by (auto simp: collecting_def collected_def upd_defs)
    show "hw_up (w_hw ?w) = up_words (fs @ [c]) @ ws" by (simp add: collected_def upd_defs)
    show "unat (bar_rx_count (barrier_of ?w p)) + length fs < unat (se_rx_capacity (w_session ?w p))"
      using Cons.prems(5) n1 by (simp add: collected_def upd_defs)
  qed (use Cons.prems in auto)
  also have "collected p buf (fs @ [c]) ws ?w = collected p buf (f # fs @ [c]) ws w"
    using collected_collected [of w p "[f]" "fs @ [c]" buf ws] len len32 by simp
  finally show ?case by simp
qed


lemma noc_rx_loop_overflows:
  assumes "collecting p buf w" "hw_up (w_hw w) = up_words (fs @ [g]) @ ws"
    and "list_all (\<lambda>f. \<not> rvrt_frame_is_complete (Some f)) fs"
    and "unat (bar_rx_count (barrier_of w p)) + length fs = unat (se_rx_capacity (w_session w p))"
  shows "noc_rx_loop p w =
    Some (upd_barrier p (\<lambda>b. b\<lparr>bar_overflow := True, bar_hardware_error := True, bar_completed := True\<rparr>)
            (collected p buf fs ws w))"
  using assms
proof (induction fs arbitrary: w)
  case Nil
  then have "\<not> bar_rx_count (barrier_of w p) < se_rx_capacity (w_session w p)"
    by (simp add: word_less_nat_alt)
  with Nil have "receive_rx_barrier_frame p g (set_up ws w) =
      Some (upd_barrier p (\<lambda>b. b\<lparr>bar_overflow := True, bar_hardware_error := True, bar_completed := True\<rparr>)
        (set_up ws w))"
    by (simp add: receive_rx_barrier_frame_def Let_def collecting_def not_less upd_defs)
  moreover have "collected p buf [] ws w = set_up ws w"
    using Nil by (simp add: collected_def upd_defs collecting_def)
  ultimately show ?case using Nil
    by (subst noc_rx_loop_frame [of _ _ g ws])
      (auto simp: collecting_def noc_rx_loop_completed upd_defs)
next
  case (Cons f fs)
  let ?n = "unat (bar_rx_count (barrier_of w p))"
  let ?w = "collected p buf [f] (up_words (fs @ [g]) @ ws) w"
  have room: "bar_rx_count (barrier_of w p) < se_rx_capacity (w_session w p)"
    using Cons.prems(4) by (simp add: word_less_nat_alt)
  have n1: "unat (bar_rx_count (barrier_of w p) + 1) = ?n + 1"
    using unat_Suc_word [OF room] .
  have cap: "?n + length fs + 1 = unat (se_rx_capacity (w_session w p))" using Cons.prems(4) by simp
  then have len: "?n + length fs + 1 \<le> length (w_buf w buf)" using Cons.prems(1)
    by (auto simp: collecting_def)
  have "?n + length fs + 1 < 4294967296"
    using cap unat_lt_2_32 [of "se_rx_capacity (w_session w p)"] by linarith
  then have len32: "?n + length [f] < 2 ^ 32" by simp
  have "receive_rx_barrier_frame p f (set_up (up_words (fs @ [g]) @ ws) w) = Some ?w"
    using Cons.prems(1,3) room by (subst receive_collect) auto
  then have "noc_rx_loop p w = noc_rx_loop p ?w"
    using Cons.prems(1,2) by (subst noc_rx_loop_frame [of _ _ f "up_words (fs @ [g]) @ ws"])
      (auto simp: collecting_def)
  also have "\<dots> = Some (upd_barrier p (\<lambda>b. b\<lparr>bar_overflow := True, bar_hardware_error := True,
      bar_completed := True\<rparr>) (collected p buf fs ws ?w))"
  proof (rule Cons.IH)
    show "collecting p buf ?w" using Cons.prems(1) len
      by (auto simp: collecting_def collected_def upd_defs)
    show "hw_up (w_hw ?w) = up_words (fs @ [g]) @ ws" by (simp add: collected_def upd_defs)
    show "unat (bar_rx_count (barrier_of ?w p)) + length fs = unat (se_rx_capacity (w_session ?w p))"
      using Cons.prems(4) n1 by (simp add: collected_def upd_defs)
  qed (use Cons.prems in auto)
  also have "collected p buf fs ws ?w = collected p buf (f # fs) ws w"
    using collected_collected [of w p "[f]" fs buf ws] len len32 by simp
  finally show ?case by simp
qed

text \<open>With a handler: frames go to it until its first error, the completion ends the loop.\<close>

fun handler_fold ::
    "('u, 'm) rx_handler \<Rightarrow> 'u option \<Rightarrow> rvrt_frame list \<Rightarrow> session_status \<times> 'm \<Rightarrow> (session_status \<times> 'm) option"
  where
  "handler_fold h ud [] sm = Some sm"
| "handler_fold h ud (f # fs) sm =
     (if fst sm = RVRT_SESSION_OK
      then (case h ud f (snd sm) of None \<Rightarrow> None | Some sm' \<Rightarrow> handler_fold h ud fs sm')
      else Some sm)"

lemma handler_fold_error: "st \<noteq> RVRT_SESSION_OK \<Longrightarrow> handler_fold h ud fs (st, m) = Some (st, m)"
  by (cases fs) auto

lemma noc_rx_loop_handles:
  assumes "\<not> bar_completed (barrier_of w p)" "bar_handler (barrier_of w p) = Some h"
    and "hw_up (w_hw w) = up_words (fs @ [c]) @ ws"
    and "list_all (\<lambda>f. \<not> rvrt_frame_is_complete (Some f)) fs" "rvrt_frame_is_complete (Some c)"
    and "handler_fold h (bar_user_data (barrier_of w p)) fs (bar_handler_status (barrier_of w p), w_mem w) =
         Some (st, m)"
  shows "noc_rx_loop p w =
    Some (upd_barrier p (\<lambda>b. b\<lparr>bar_handler_status := st, bar_completed := True\<rparr>)
            ((set_up ws w)\<lparr>w_mem := m\<rparr>))"
  using assms
proof (induction fs arbitrary: w)
  case Nil
  then have "receive_rx_barrier_frame p c (set_up ws w) =
      Some (upd_barrier p (\<lambda>b. b\<lparr>bar_completed := True\<rparr>) (set_up ws w))"
    by (simp add: receive_rx_barrier_frame_def Let_def upd_defs)
  moreover have "st = bar_handler_status (barrier_of w p)" "m = w_mem w" using Nil.prems(6) by simp_all
  ultimately show ?case using Nil.prems(1-5)
    by (subst noc_rx_loop_frame [of _ _ c ws]) (auto simp: noc_rx_loop_completed upd_defs)
next
  case (Cons f fs)
  let ?ws = "up_words (fs @ [c]) @ ws" and ?b = "barrier_of w p"
  show ?case
  proof (cases "bar_handler_status ?b = RVRT_SESSION_OK")
    case True
    with Cons.prems(6) obtain st1 m1 where h: "h (bar_user_data ?b) f (w_mem w) = Some (st1, m1)"
        "handler_fold h (bar_user_data ?b) fs (st1, m1) = Some (st, m)"
      by (auto split: option.splits)
    let ?w = "upd_barrier p (\<lambda>b. b\<lparr>bar_handler_status := st1\<rparr>) ((set_up ?ws w)\<lparr>w_mem := m1\<rparr>)"
    have "noc_rx_loop p w = noc_rx_loop p ?w"
      using Cons.prems(1-4) True h(1)
      by (subst noc_rx_loop_frame [of _ _ f ?ws])
        (auto simp: receive_rx_barrier_frame_def Let_def upd_defs)
    also have "\<dots> = Some (upd_barrier p (\<lambda>b. b\<lparr>bar_handler_status := st, bar_completed := True\<rparr>)
            ((set_up ws ?w)\<lparr>w_mem := m\<rparr>))"
      by (rule Cons.IH) (use Cons.prems h(2) in \<open>auto simp: upd_defs\<close>)
    finally show ?thesis by (simp add: upd_defs)
  next
    case False
    then have sm: "st = bar_handler_status ?b" "m = w_mem w" using Cons.prems(6) by simp_all
    let ?w = "set_up ?ws w"
    have "noc_rx_loop p w = noc_rx_loop p ?w"
      using Cons.prems(1-4) False
      by (subst noc_rx_loop_frame [of _ _ f ?ws]) (auto simp: receive_rx_barrier_frame_def Let_def)
    also have "\<dots> = Some (upd_barrier p (\<lambda>b. b\<lparr>bar_handler_status := st, bar_completed := True\<rparr>)
            ((set_up ws ?w)\<lparr>w_mem := m\<rparr>))"
      by (rule Cons.IH) (use Cons.prems False sm in \<open>auto simp: handler_fold_error\<close>)
    finally show ?thesis by (simp add: upd_defs)
  qed
qed


section \<open>Waiting\<close>

definition barrier_outcome :: "('u, 'm) rx_barrier \<Rightarrow> session_status" where
  "barrier_outcome b =
     (if bar_overflow b then RVRT_SESSION_OVERFLOW
      else if bar_hardware_error b then RVRT_SESSION_HARDWARE_ERROR
      else bar_handler_status b)"

lemma wait_rx_finish_eq:
  "wait_rx_finish p w =
     (barrier_outcome (barrier_of w p),
      upd_barrier p (\<lambda>b. b\<lparr>bar_active := False\<rparr>) (upd_hw noc_irq_disable w))"
  by (simp add: wait_rx_finish_def barrier_outcome_def upd_defs Let_def)

lemma wait_status_lemma:
  "case wait_rx_barrier p timeout env w of
     None \<Rightarrow> True
   | Some (st, w') \<Rightarrow>
       \<not> bar_active (barrier_of w' p) \<and> \<not> noc_irq_is_enabled (w_hw w') \<and>
       (if bar_completed (barrier_of w' p) then st = barrier_outcome (barrier_of w' p)
        else st = RVRT_SESSION_TIMEOUT \<and> bar_hardware_error (barrier_of w' p))"
proof -
  have "case wait_rx_loop p start limit polls w of
     None \<Rightarrow> True
   | Some (st, w') \<Rightarrow>
       \<not> bar_active (barrier_of w' p) \<and> \<not> noc_irq_is_enabled (w_hw w') \<and>
       (if bar_completed (barrier_of w' p) then st = barrier_outcome (barrier_of w' p)
        else st = RVRT_SESSION_TIMEOUT \<and> bar_hardware_error (barrier_of w' p))" for start limit polls
  proof (induction p start limit polls w rule: wait_rx_loop.induct)
    case (1 p start limit w)
    then show ?case by simp
  next
    case (2 p start limit poll polls w)
    show ?case
    proof (cases "irq_point (wp_irq poll) w")
      case None
      then show ?thesis by simp
    next
      case (Some w1)
      show ?thesis
      proof (cases "bar_completed (barrier_of w1 p)")
        case True
        with Some show ?thesis
          by (simp add: wait_rx_finish_eq upd_defs noc_irq_defs barrier_outcome_def)
      next
        case False
        show ?thesis
        proof (cases "wp_cycle poll - start > limit")
          case True
          with Some False show ?thesis
            by (auto simp: Let_def wait_rx_finish_eq upd_defs noc_irq_defs barrier_outcome_def
                split: option.split)
        next
          case within: False
          from 2 [OF Some False within] Some False within show ?thesis by simp
        qed
      qed
    qed
  qed
  then show ?thesis by (simp add: wait_rx_barrier_def Let_def)
qed

text \<open>C11.  Whatever the cycle counter returns and whenever the interrupt strikes, a wait that returns
  leaves the barrier inactive and the NoC interrupt off, and its status is exact: if the completion
  was recorded, even between the last read of the counter and the disabling of the interrupt, the
  status is the outcome of the barrier; \<open>TIMEOUT\<close> otherwise, with the barrier marked as failed.\<close>

theorem wait_status_exact:
  "case wait_rx_barrier p timeout env w of
     None \<Rightarrow> True
   | Some (st, w') \<Rightarrow>
       \<not> bar_active (barrier_of w' p) \<and> \<not> noc_irq_is_enabled (w_hw w') \<and>
       (if bar_completed (barrier_of w' p) then st = barrier_outcome (barrier_of w' p)
        else st = RVRT_SESSION_TIMEOUT \<and> bar_hardware_error (barrier_of w' p))"
  by (rule wait_status_lemma)

definition silent_poll :: "wait_poll \<Rightarrow> bool" where
  "silent_poll poll \<longleftrightarrow> \<not> wp_irq poll \<and> \<not> wp_irq_late poll"

definition wait_limit :: "u32 \<Rightarrow> ('u, 'm) world \<Rightarrow> u64" where
  "wait_limit timeout_ms w = ucast (w_clock w div 1000) * ucast timeout_ms"

lemma wait_loop_silent:
  assumes "list_all silent_poll polls" "\<exists>poll \<in> set polls. wp_cycle poll - start > limit"
    and "\<not> bar_completed (barrier_of w p)"
  shows "wait_rx_loop p start limit polls w = Some (RVRT_SESSION_TIMEOUT,
     upd_barrier p (\<lambda>b. b\<lparr>bar_active := False, bar_hardware_error := True\<rparr>) (upd_hw noc_irq_disable w))"
  using assms
proof (induction polls)
  case (Cons poll polls)
  then have "irq_point (wp_irq poll) w = Some w" "irq_point (wp_irq_late poll) w = Some w"
    by (auto simp: silent_poll_def irq_point_def)
  with Cons show ?case by (auto simp: Let_def upd_defs)
qed simp

lemma wait_silent_times_out_lemma:
  assumes "list_all silent_poll (we_polls env)" "\<not> bar_completed (barrier_of w p)"
    and "\<exists>poll \<in> set (we_polls env). wp_cycle poll - we_start env > wait_limit timeout w"
  shows "wait_rx_barrier p timeout env w = Some (RVRT_SESSION_TIMEOUT,
     upd_barrier p (\<lambda>b. b\<lparr>bar_active := False, bar_hardware_error := True\<rparr>) (upd_hw noc_irq_disable w))"
  using wait_loop_silent [OF assms(1) _ assms(2)] assms(3)
  by (simp add: wait_rx_barrier_def wait_limit_def)

text \<open>C35.  A chip that never answers cannot hang the runtime: if no interrupt comes, a wait returns as
  soon as the cycle counter has advanced past the limit at a poll, with \<open>TIMEOUT\<close>, the interrupt
  off and the barrier failed; nothing else changes.\<close>

theorem wait_silent_times_out:
  assumes "list_all silent_poll (we_polls env)" "\<not> bar_completed (barrier_of w p)"
    and "\<exists>poll \<in> set (we_polls env). wp_cycle poll - we_start env > wait_limit timeout w"
  shows "wait_rx_barrier p timeout env w = Some (RVRT_SESSION_TIMEOUT,
     upd_barrier p (\<lambda>b. b\<lparr>bar_active := False, bar_hardware_error := True\<rparr>) (upd_hw noc_irq_disable w))"
  by (rule wait_silent_times_out_lemma [OF assms])

text \<open>A small world: session 0 is live, with a buffer of four frames.\<close>

definition demo_session :: "(unit, unit) session" where
  "demo_session = zero_session\<lparr>se_artifact := Some (0, demo_artifact), se_rx_frames := Some 0,
                               se_rx_capacity := 4\<rparr>"

definition demo_world :: "u32 list \<Rightarrow> (unit, unit) world" where
  "demo_world ws =
     \<lparr>w_hw = \<lparr>hw_down = [], hw_up = ws, hw_pending = 0, hw_irq_enable = 1, hw_mstatus = 8\<rparr>,
      w_active = Some 0, w_session = (\<lambda>_. zero_session)(0 := demo_session),
      w_buf = (\<lambda>_. replicate 4 zero_frame), w_mem = (), w_clock = 16000000\<rparr>"

theorem wait_silent_times_out_witness:
  "fst (the (wait_rx_barrier 0 2 \<lparr>we_start = 0, we_polls =
     [\<lparr>wp_irq = False, wp_cycle = 32000, wp_irq_late = False\<rparr>,
      \<lparr>wp_irq = False, wp_cycle = 32001, wp_irq_late = False\<rparr>]\<rparr> (demo_world []))) = RVRT_SESSION_TIMEOUT"
  by (subst wait_silent_times_out)
    (simp_all add: silent_poll_def demo_world_def demo_session_def zero_session_def zero_barrier_def
      wait_limit_def)

text \<open>A wait that is interrupted before the deadline.\<close>

definition interrupted_env :: "u32 \<Rightarrow> wait_env \<Rightarrow> ('u, 'm) world \<Rightarrow> bool" where
  "interrupted_env timeout env w \<longleftrightarrow>
     (\<exists>qs poll rest. we_polls env = qs @ poll # rest \<and> wp_irq poll \<and>
        list_all (\<lambda>q. \<not> wp_irq q \<and> \<not> wp_cycle q - we_start env > wait_limit timeout w) qs)"

lemma wait_interrupted:
  assumes "interrupted_env timeout env w" "\<not> bar_completed (barrier_of w p)"
    and "noc_irq_is_enabled (w_hw w)" "hw_mstatus (w_hw w) AND MSTATUS_MIE \<noteq> 0"
    and "paicore_noc_handler w = Some w'" "bar_completed (barrier_of w' p)"
  shows "wait_rx_barrier p timeout env w = Some (wait_rx_finish p w')"
proof -
  obtain qs poll rest where env: "we_polls env = qs @ poll # rest" "wp_irq poll"
      "list_all (\<lambda>q. \<not> wp_irq q \<and> \<not> wp_cycle q - we_start env > wait_limit timeout w) qs"
    using assms(1) by (auto simp: interrupted_env_def)
  have "wait_rx_loop p start limit (qs @ poll # rest) w = Some (wait_rx_finish p w')"
    if "list_all (\<lambda>q. \<not> wp_irq q \<and> \<not> wp_cycle q - start > limit) qs" for start limit
    using that
  proof (induction qs)
    case Nil
    then show ?case using assms(3-6) env(2) by (simp add: irq_point_def)
  next
    case (Cons q qs)
    then show ?case using assms(2) by (simp add: irq_point_def)
  qed
  from this [OF env(3) [unfolded wait_limit_def]] show ?thesis
    by (simp add: wait_rx_barrier_def env(1))
qed


section \<open>Control barriers\<close>

text \<open>The world in which the ISR of a barrier starts to read.\<close>

definition armed_barrier :: "('u, 'm) rx_handler option \<Rightarrow> 'u option \<Rightarrow> ('u, 'm) rx_barrier" where
  "armed_barrier h ud = \<lparr>bar_active = True, bar_completed = False, bar_overflow = False,
     bar_hardware_error = False, bar_rx_count = 0, bar_handler = h, bar_user_data = ud,
     bar_handler_status = RVRT_SESSION_OK\<rparr>"

definition armed ::
    "nat \<Rightarrow> ('u, 'm) rx_handler option \<Rightarrow> 'u option \<Rightarrow> rvrt_frame \<Rightarrow> u8 \<Rightarrow> ('u, 'm) world \<Rightarrow> ('u, 'm) world" where
  "armed p h ud f en w =
     w\<lparr>w_session := (w_session w)(p := (w_session w p)\<lparr>se_barrier := armed_barrier h ud\<rparr>),
       w_hw := (w_hw w)\<lparr>hw_pending := 0, hw_irq_enable := en, hw_down := hw_down (w_hw w) @ frame_words f\<rparr>\<rparr>"

lemma start_and_send:
  "upd_hw (noc_fifo_write_frame_words (fr_high f) (fr_low f)) (start_rx_barrier p h ud w) = armed p h ud f 1 w"
  by (cases "barrier_of w p")
    (simp add: start_rx_barrier_def armed_def upd_defs noc_write_unlocked_eq frame_words_def noc_irq_defs
      clear_rx_barrier_def armed_barrier_def Let_def)

lemma handler_armed:
  assumes "w_active w = Some p"
  shows "paicore_noc_handler (armed p h ud f 1 w) = noc_rx_loop p (armed p h ud f 0 w)"
  using assms
  by (cases "w_hw w")
    (simp add: paicore_noc_handler_def armed_def upd_defs noc_irq_defs armed_barrier_def Let_def)

definition settle :: "nat \<Rightarrow> session_status \<Rightarrow> ('u, 'm) world \<Rightarrow> ('u, 'm) world" where
  "settle p st w =
     (let w = upd_barrier p (\<lambda>b. b\<lparr>bar_active := False\<rparr>) (upd_hw noc_irq_disable w)
      in if st = RVRT_SESSION_OK then w
         else upd_session p (\<lambda>s. s\<lparr>se_barrier := (se_barrier s)\<lparr>bar_handler := None, bar_user_data := None\<rparr>,
                se_faulted := True\<rparr>) w)"

lemma run_control_barrier_interrupted:
  assumes "w_active w = Some p" "hw_mstatus (w_hw w) AND MSTATUS_MIE \<noteq> 0"
    and "interrupted_env timeout env w"
    and "noc_rx_loop p (armed p h ud f 0 w) = Some w'" "bar_completed (barrier_of w' p)"
  shows "run_control_barrier p f timeout sync rxf rxc h ud env w =
    (let st = barrier_outcome (barrier_of w' p)
     in Some (st, map_option (\<lambda>_. se_rx_frames (w_session w' p)) rxf,
              map_option (\<lambda>_. bar_rx_count (barrier_of w' p)) rxc, settle p st w'))"
proof -
  have env: "interrupted_env timeout env (armed p h ud f 1 w)"
    using assms(3) by (simp add: interrupted_env_def armed_def wait_limit_def)
  have "paicore_noc_handler (armed p h ud f 1 w) = Some w'"
    using handler_armed [OF assms(1)] assms(4) by simp
  from wait_interrupted [OF env _ _ _ this assms(5)] assms(2)
  have "wait_rx_barrier p timeout env (armed p h ud f 1 w) = Some (wait_rx_finish p w')"
    by (simp add: armed_def armed_barrier_def noc_irq_defs)
  then show ?thesis
    unfolding run_control_barrier_def Let_def start_and_send
    by (simp add: wait_rx_finish_eq settle_def Let_def upd_defs noc_irq_defs map_option_case
        split: option.split)
qed

lemma run_control_barrier_silent:
  assumes "list_all silent_poll (we_polls env)"
    and "\<exists>poll \<in> set (we_polls env). wp_cycle poll - we_start env > wait_limit timeout w"
  shows "\<exists>rxf' rxc' w'. run_control_barrier p f timeout sync rxf rxc h ud env w =
           Some (RVRT_SESSION_TIMEOUT, rxf', rxc', w') \<and>
         se_faulted (w_session w' p) \<and> \<not> bar_active (barrier_of w' p) \<and> \<not> noc_irq_is_enabled (w_hw w')"
proof -
  have "\<exists>poll \<in> set (we_polls env). wp_cycle poll - we_start env > wait_limit timeout (armed p h ud f 1 w)"
    using assms(2) by (simp add: wait_limit_def armed_def)
  from wait_silent_times_out_lemma [OF assms(1) _ this, of p]
  have "wait_rx_barrier p timeout env (armed p h ud f 1 w) = Some (RVRT_SESSION_TIMEOUT,
     upd_barrier p (\<lambda>b. b\<lparr>bar_active := False, bar_hardware_error := True\<rparr>)
       (upd_hw noc_irq_disable (armed p h ud f 1 w)))"
    by (simp add: armed_def armed_barrier_def)
  then show ?thesis
    unfolding run_control_barrier_def Let_def start_and_send
    by (simp add: upd_defs noc_irq_defs)
qed

end
