(* ===== verification/Session_Api.thy ===== *)
theory Session_Api
  imports Session_Laws
begin

text \<open>
  The laws of the session operations: what a barrier sends and collects, the timeline, ownership,
  faults, the transfer of the configuration and of an input timestep.
\<close>

section \<open>Waits send nothing\<close>

lemma receive_keeps:
  assumes "receive_rx_barrier_frame p f w = Some w'"
  shows "w_active w' = w_active w" "se_artifact (w_session w' q) = se_artifact (w_session w q)"
    "se_thread_index (w_session w' q) = se_thread_index (w_session w q)"
    "se_rx_frames (w_session w' q) = se_rx_frames (w_session w q)"
    "se_rx_capacity (w_session w' q) = se_rx_capacity (w_session w q)"
    "se_sync_mode (w_session w' q) = se_sync_mode (w_session w q)"
    "se_completed_timesteps (w_session w' q) = se_completed_timesteps (w_session w q)"
    "se_faulted (w_session w' q) = se_faulted (w_session w q)"
    "q \<noteq> p \<Longrightarrow> w_session w' q = w_session w q" "w_clock w' = w_clock w"
  using assms
  by (auto simp: receive_rx_barrier_frame_def Let_def upd_defs split: option.splits if_splits bind_splits)

text \<open>What an operation on session \<open>p\<close> may not touch while it waits.\<close>

definition same_but_barrier :: "nat \<Rightarrow> ('u, 'm) world \<Rightarrow> ('u, 'm) world \<Rightarrow> bool" where
  "same_but_barrier p w w' \<longleftrightarrow>
     w_active w' = w_active w \<and> w_clock w' = w_clock w \<and>
     hw_down (w_hw w') = hw_down (w_hw w) \<and> hw_mstatus (w_hw w') = hw_mstatus (w_hw w) \<and>
     (\<forall>q. q \<noteq> p \<longrightarrow> w_session w' q = w_session w q) \<and>
     (\<exists>b. w_session w' p = (w_session w p)\<lparr>se_barrier := b\<rparr>)"

lemma same_refl: "same_but_barrier p w w"
  by (auto simp: same_but_barrier_def intro: exI [of _ "barrier_of w p"])

lemma same_trans: "same_but_barrier p w1 w2 \<Longrightarrow> same_but_barrier p w2 w3 \<Longrightarrow> same_but_barrier p w1 w3"
  by (auto simp: same_but_barrier_def)

lemma same_active: "same_but_barrier p w1 w2 \<Longrightarrow> w_active w2 = w_active w1"
  by (simp add: same_but_barrier_def)

lemma same_irq:
  "same_but_barrier p w (upd_hw noc_irq_disable w)" "same_but_barrier p w (upd_hw noc_irq_ack w)"
  "same_but_barrier p w (upd_hw noc_irq_enable w)" "same_but_barrier p w (set_up ws w)"
  "same_but_barrier p w (upd_barrier p g w)"
  by (auto simp: same_but_barrier_def upd_defs noc_irq_defs intro: exI [of _ "barrier_of w p"])

lemma same_receive:
  assumes "receive_rx_barrier_frame p f w = Some w'"
  shows "same_but_barrier p w w'"
proof -
  have "w_session w' p = (w_session w p)\<lparr>se_barrier := barrier_of w' p\<rparr>"
    by (rule session.equality) (use receive_keeps(2-8) [OF assms, of p] in simp_all)
  moreover have "w_session w' q = w_session w q" if "q \<noteq> p" for q
    using receive_keeps(9) [OF assms that] .
  ultimately show ?thesis
    using receive_keeps(1,10) [OF assms] receive_keeps_hw [OF assms]
    by (auto simp: same_but_barrier_def)
qed

lemma same_rx_loop: "noc_rx_loop p w = Some w' \<Longrightarrow> same_but_barrier p w w'"
proof (induction p w rule: noc_rx_loop.induct)
  case (1 p w)
  show ?case
  proof (cases "bar_completed (barrier_of w p)")
    case True
    with 1(2) show ?thesis by (simp add: noc_rx_loop_completed same_refl)
  next
    case False
    with 1(2) obtain h l ws where up: "hw_up (w_hw w) = h # l # ws"
      by (subst (asm) noc_rx_loop.simps) (auto simp: noc_read_eq split: list.splits)
    let ?w = "w\<lparr>w_hw := (w_hw w)\<lparr>hw_up := ws\<rparr>\<rparr>" and ?f = "\<lparr>fr_high = h, fr_low = l\<rparr>"
    from 1(2) False up obtain w1 where
      w1: "receive_rx_barrier_frame p ?f ?w = Some w1" "noc_rx_loop p w1 = Some w'"
      by (subst (asm) noc_rx_loop.simps) (auto simp: noc_read_eq split: option.splits)
    have "noc_fifo_read_frame_words (Some 0) (Some 0) (w_hw w) =
        Some (0, Some h, Some l, (w_hw w)\<lparr>hw_up := ws\<rparr>)" by (simp add: noc_read_eq up)
    from "1.IH" [OF False this refl refl refl, of w1] w1
    have "same_but_barrier p w1 w'" by simp
    then show ?thesis using same_irq(4) same_receive [OF w1(1)] same_trans by blast
  qed
qed

lemma same_handler:
  assumes "paicore_noc_handler w = Some w'" "w_active w = Some p \<or> w_active w = None"
  shows "same_but_barrier p w w'"
proof -
  let ?w = "upd_hw noc_irq_disable (upd_hw noc_irq_ack w)"
  have "same_but_barrier p w ?w" using same_irq same_trans by blast
  with assms show ?thesis
    by (auto simp: paicore_noc_handler_def Let_def split: if_splits dest!: same_rx_loop intro: same_trans)
qed


lemma same_finish: "same_but_barrier p w (snd (wait_rx_finish p w))"
  using same_irq same_trans by (fastforce simp: wait_rx_finish_eq)

lemma same_wait:
  assumes "wait_rx_barrier p timeout env w = Some (st, w')" "w_active w = Some p \<or> w_active w = None"
  shows "same_but_barrier p w w'"
proof -
  have point: "same_but_barrier p w1 w2 \<and> (w_active w2 = Some p \<or> w_active w2 = None)"
    if "irq_point b w1 = Some w2" "w_active w1 = Some p \<or> w_active w1 = None" for b w1 w2
  proof -
    have "same_but_barrier p w1 w2"
      using that same_handler [of w1 w2 p] by (auto simp: irq_point_def same_refl split: if_splits)
    with same_active [OF this] that(2) show ?thesis by simp
  qed
  have "same_but_barrier p w w'" if "wait_rx_loop p start limit polls w = Some (st, w')"
      "w_active w = Some p \<or> w_active w = None" for start limit polls w
    using that
  proof (induction polls arbitrary: w)
    case (Cons poll polls)
    from Cons.prems(1) obtain w1 where w1: "irq_point (wp_irq poll) w = Some w1"
      by (auto split: option.splits)
    note p1 = point [OF w1 Cons.prems(2)]
    show ?case
    proof (cases "bar_completed (barrier_of w1 p)")
      case True
      with Cons.prems(1) w1 have "w' = snd (wait_rx_finish p w1)" by (simp add: prod_eq_iff)
      then show ?thesis using p1 same_finish same_trans by blast
    next
      case False
      show ?thesis
      proof (cases "wp_cycle poll - start > limit")
        case True
        with Cons.prems(1) w1 False obtain w2 where w2: "irq_point (wp_irq_late poll) w1 = Some w2"
          by (auto split: option.splits)
        let ?w = "upd_hw noc_irq_disable w2"
        from Cons.prems(1) w1 False True w2 have "w' = snd (wait_rx_finish p ?w) \<or>
            w' = upd_barrier p (\<lambda>b. b\<lparr>bar_active := False, bar_hardware_error := True\<rparr>) ?w"
          by (auto simp: Let_def prod_eq_iff split: if_splits)
        moreover have "same_but_barrier p w ?w"
          using p1 point [OF w2] same_irq(1) same_trans by blast
        ultimately show ?thesis using same_finish same_irq(5) same_trans by blast
      next
        case within: False
        with Cons.prems(1) w1 False have "wait_rx_loop p start limit polls w1 = Some (st, w')" by simp
        from Cons.IH [OF this] p1 show ?thesis by (auto intro: same_trans)
      qed
    qed
  qed simp
  from this [OF _ assms(2)] assms(1) show ?thesis by (simp add: wait_rx_barrier_def Let_def)
qed


section \<open>One barrier\<close>

text \<open>What every barrier does that returns, with any environment.\<close>

lemma run_control_barrier_effect:
  assumes "run_control_barrier p f timeout sync rxf rxc h ud env w = Some (st, rxf', rxc', w')"
    and "w_active w = Some p \<or> w_active w = None"
  shows "hw_down (w_hw w') = hw_down (w_hw w) @ frame_words f"
    "hw_mstatus (w_hw w') = hw_mstatus (w_hw w)" "\<not> noc_irq_is_enabled (w_hw w')"
    "w_active w' = w_active w" "\<And>q. q \<noteq> p \<Longrightarrow> w_session w' q = w_session w q"
    "\<exists>b. \<not> bar_active b \<and> w_session w' p = (w_session w p)\<lparr>se_barrier := b,
       se_faulted := (se_faulted (w_session w p) \<or> st \<noteq> RVRT_SESSION_OK)\<rparr>"
    "w_clock w' = w_clock w"
proof -
  from assms(1) obtain w1 where w1: "wait_rx_barrier p timeout env (armed p h ud f 1 w) = Some (st, w1)"
    and w': "w' = (if st \<noteq> RVRT_SESSION_OK then
        upd_session p (\<lambda>s. s\<lparr>se_faulted := True\<rparr>)
         (upd_barrier p (\<lambda>b. b\<lparr>bar_active := False, bar_handler := None, bar_user_data := None\<rparr>)
           (upd_hw noc_irq_disable w1)) else w1)"
    unfolding run_control_barrier_def Let_def start_and_send by (auto split: bind_splits)
  have same: "same_but_barrier p (armed p h ud f 1 w) w1"
    by (rule same_wait [OF w1]) (use assms(2) in \<open>simp add: armed_def\<close>)
  have st: "\<not> bar_active (barrier_of w1 p)" "\<not> noc_irq_is_enabled (w_hw w1)"
    using wait_status_lemma [of p timeout env "armed p h ud f 1 w"] w1 by simp_all
  from same obtain b where b: "w_session w1 p = (w_session w p)\<lparr>se_barrier := b\<rparr>"
    by (auto simp: same_but_barrier_def armed_def)
  show "hw_down (w_hw w') = hw_down (w_hw w) @ frame_words f" "hw_mstatus (w_hw w') = hw_mstatus (w_hw w)"
    "w_active w' = w_active w" "w_clock w' = w_clock w"
    using same by (simp_all add: w' same_but_barrier_def armed_def upd_defs noc_irq_defs)
  show "\<not> noc_irq_is_enabled (w_hw w')"
    using st by (simp_all add: w' upd_defs noc_irq_defs)
  show "w_session w' q = w_session w q" if "q \<noteq> p" for q
    using same that by (simp add: w' same_but_barrier_def armed_def upd_defs)
  have "w_session w' p = (w_session w p)\<lparr>se_barrier := barrier_of w' p,
       se_faulted := (se_faulted (w_session w p) \<or> st \<noteq> RVRT_SESSION_OK)\<rparr>"
    by (rule session.equality) (simp_all add: w' b upd_defs)
  moreover have "\<not> bar_active (barrier_of w' p)" using st by (simp add: w' upd_defs)
  ultimately show "\<exists>b. \<not> bar_active b \<and> w_session w' p = (w_session w p)\<lparr>se_barrier := b,
       se_faulted := (se_faulted (w_session w p) \<or> st \<noteq> RVRT_SESSION_OK)\<rparr>" by blast
qed



section \<open>The timeline\<close>

definition sync_frame_for :: "rvrt_artifact \<Rightarrow> u32 \<Rightarrow> u32 \<Rightarrow> rvrt_frame \<Rightarrow> bool" where
  "sync_frame_for a t d f \<longleftrightarrow>
     (\<exists>c. rvrt_artifact_thread_root_core_offset (Some a) t (Some zero_core_offset) =
            (RVRT_ARTIFACT_OK, Some c) \<and> control_frame_ok f FC_HDR_SYNC d c)"

lemma sync_frame_forI:
  assumes "rvrt_build_sync_payload_frame (Some a) t d (Some zero_frame) = (RVRT_CODEC_STATUS_OK, f')"
  shows "\<exists>f. f' = Some f \<and> sync_frame_for a t d f"
  using control_frame_spec [where header = FC_HDR_SYNC and a = a and t = t and payload = d and ?f0.0 = zero_frame] assms
  by (auto simp: rvrt_build_sync_payload_frame_def sync_frame_for_def)

text \<open>A sync that succeeds has sent one sync frame with its payload, and has changed nothing of the
  session but the barrier.\<close>

lemma sync_impl_effect:
  assumes "sync_wait_payload_impl (Some p) d timeout rxf rxc h ud env w = Some (RVRT_SESSION_OK, rxf', rxc', w')"
    and "w_active w = Some p \<or> w_active w = None"
  shows "\<exists>addr a f. se_artifact (w_session w p) = Some (addr, a) \<and>
     sync_frame_for a (se_thread_index (w_session w p)) d f \<and>
     hw_down (w_hw w') = hw_down (w_hw w) @ frame_words f \<and> w_active w' = w_active w \<and>
     (\<exists>b. \<not> bar_active b \<and> w_session w' p = (w_session w p)\<lparr>se_barrier := b\<rparr>) \<and>
     \<not> se_faulted (w_session w p)"
proof -
  let ?s = "w_session w p"
  from assms(1) obtain addr a where a: "se_artifact ?s = Some (addr, a)"
    by (auto simp: sync_wait_payload_impl_def Let_def split: option.splits)
  obtain cst f' where f': "rvrt_build_sync_payload_frame (Some a) (se_thread_index ?s) d (Some zero_frame) =
      (cst, f')" by force
  from assms(1) a f' have nf: "\<not> se_faulted ?s" and "cst = RVRT_CODEC_STATUS_OK"
    and run: "\<exists>rxf rxc. run_control_barrier p (the f') timeout True rxf rxc h ud env w =
        Some (RVRT_SESSION_OK, rxf', rxc', w')"
    by (auto simp: sync_wait_payload_impl_def Let_def split: if_splits)
  with f' sync_frame_forI obtain f where f: "f' = Some f" "sync_frame_for a (se_thread_index ?s) d f"
    by blast
  from run f obtain rxf0 rxc0 where
    r: "run_control_barrier p f timeout True rxf0 rxc0 h ud env w = Some (RVRT_SESSION_OK, rxf', rxc', w')"
    by auto
  from nf have "w_session w p = (w_session w p)\<lparr>se_faulted := False\<rparr>" by (cases "w_session w p") simp
  with run_control_barrier_effect [OF r assms(2)] nf
  have "\<exists>b. \<not> bar_active b \<and> w_session w' p = (w_session w p)\<lparr>se_barrier := b\<rparr>"
    by (cases "w_session w p") simp
  with a f nf run_control_barrier_effect [OF r assms(2)] show ?thesis by auto
qed

fun deltas :: "u32 \<Rightarrow> u32 list \<Rightarrow> u32 list" where
  "deltas prev [] = []"
| "deltas prev (t # ts) = (t - prev) # deltas t ts"

text \<open>A run of \<open>rvrt_session_sync_wait_until\<close> calls that all succeed: targets, timeouts, environments.\<close>

fun timeline_run ::
    "nat \<Rightarrow> (u32 \<times> u32 \<times> wait_env) list \<Rightarrow> ('u, 'm) world \<Rightarrow> ('u, 'm) world option" where
  "timeline_run p [] w = Some w"
| "timeline_run p ((target, timeout, env) # calls) w =
     (case rvrt_session_sync_wait_until (Some p) target timeout (Some None) (Some 0) env w of
        None \<Rightarrow> None
      | Some (st, _, _, w') \<Rightarrow> if st = RVRT_SESSION_OK then timeline_run p calls w' else None)"

definition timeline_at :: "nat \<Rightarrow> u32 \<Rightarrow> ('u, 'm) world \<Rightarrow> bool" where
  "timeline_at p n w \<longleftrightarrow> se_sync_mode (w_session w p) = RVRT_SESSION_SYNC_MODE_TIMELINE \<and>
     se_completed_timesteps (w_session w p) = n"

lemma sync_until_effect:
  assumes "sync_wait_until_impl (Some p) target timeout rxf rxc h ud env w =
      Some (RVRT_SESSION_OK, rxf', rxc', w')"
    and "w_active w = Some p \<or> w_active w = None"
    and "timeline_at p prev w \<or> se_sync_mode (w_session w p) = RVRT_SESSION_SYNC_MODE_UNSET \<and> prev = 0"
  shows "\<exists>addr a f. se_artifact (w_session w p) = Some (addr, a) \<and>
     sync_frame_for a (se_thread_index (w_session w p)) (target - prev) f \<and>
     hw_down (w_hw w') = hw_down (w_hw w) @ frame_words f \<and> w_active w' = w_active w \<and>
     timeline_at p target w' \<and> se_artifact (w_session w' p) = Some (addr, a) \<and>
     se_thread_index (w_session w' p) = se_thread_index (w_session w p) \<and>
     (timeline_at p prev w \<longrightarrow> prev < target)"
proof -
  let ?d = "if se_sync_mode (w_session w p) = RVRT_SESSION_SYNC_MODE_TIMELINE
            then target - se_completed_timesteps (w_session w p) else target"
  have d: "?d = target - prev" using assms(3) by (auto simp: timeline_at_def)
  from assms(1) obtain w1 where
    w1: "sync_wait_payload_impl (Some p) ?d timeout rxf rxc h ud env w = Some (RVRT_SESSION_OK, rxf', rxc', w1)"
    and w': "w' = upd_session p (\<lambda>s. s\<lparr>se_sync_mode := RVRT_SESSION_SYNC_MODE_TIMELINE,
                                         se_completed_timesteps := target\<rparr>) w1"
    by (auto simp: sync_wait_until_impl_def Let_def split: if_splits bind_splits)
  have less: "timeline_at p prev w \<longrightarrow> prev < target"
    using assms(1) by (auto simp: sync_wait_until_impl_def timeline_at_def not_le Let_def split: if_splits)
  from sync_impl_effect [OF w1 assms(2)] less show ?thesis
    by (auto simp: d w' upd_defs timeline_at_def)
qed

lemma timeline_run_lemma:
  assumes "timeline_run p calls w = Some w'" "w_active w = Some p \<or> w_active w = None"
    and "timeline_at p prev w \<or> se_sync_mode (w_session w p) = RVRT_SESSION_SYNC_MODE_UNSET \<and> prev = 0"
    and "se_artifact (w_session w p) = Some (addr, a)" "se_thread_index (w_session w p) = t"
  shows "\<exists>frames. hw_down (w_hw w') = hw_down (w_hw w) @ concat (map frame_words frames) \<and>
     list_all2 (sync_frame_for a t) (deltas prev (map fst calls)) frames \<and>
     sorted_wrt (<) (map fst calls) \<and>
     (timeline_at p prev w \<longrightarrow> list_all (\<lambda>t. prev < t) (map fst calls)) \<and>
     sum_list (map unat (deltas prev (map fst calls))) + unat prev = unat (last (prev # map fst calls))"
  using assms
proof (induction calls arbitrary: w prev)
  case Nil
  then show ?case by (auto intro: exI [of _ "[]"])
next
  case (Cons call calls)
  obtain target timeout env where call: "call = (target, timeout, env)" by (cases call) auto
  from Cons.prems(1) obtain rxf rxc w1 where
    w1: "sync_wait_until_impl (Some p) target timeout (Some None) (Some 0) None None env w =
           Some (RVRT_SESSION_OK, rxf, rxc, w1)" "timeline_run p calls w1 = Some w'"
    by (auto simp: call rvrt_session_sync_wait_until_def split: option.splits if_splits)
  from sync_until_effect [OF w1(1) Cons.prems(2,3)] Cons.prems(4,5) obtain f where
    f: "sync_frame_for a t (target - prev) f" "hw_down (w_hw w1) = hw_down (w_hw w) @ frame_words f"
      "w_active w1 = w_active w" "timeline_at p target w1" "se_artifact (w_session w1 p) = Some (addr, a)"
      "se_thread_index (w_session w1 p) = t" "timeline_at p prev w \<longrightarrow> prev < target"
    by auto
  from Cons.IH [OF w1(2) _ _ f(5,6), of target] f(3,4) Cons.prems(2) obtain frames where
    ih: "hw_down (w_hw w') = hw_down (w_hw w1) @ concat (map frame_words frames)"
      "list_all2 (sync_frame_for a t) (deltas target (map fst calls)) frames"
      "sorted_wrt (<) (map fst calls)" "list_all (\<lambda>t. target < t) (map fst calls)"
      "sum_list (map unat (deltas target (map fst calls))) + unat target = unat (last (target # map fst calls))"
    by auto
  have "prev \<le> target" using f(7) Cons.prems(3) by auto
  then have "unat (target - prev) + unat prev = unat target"
    by (simp add: unat_sub_if_size word_le_nat_alt)
  moreover have "timeline_at p prev w \<longrightarrow> list_all (\<lambda>t. prev < t) (map fst calls)"
    using f(7) ih(4) by (auto simp: list_all_iff intro: less_trans)
  ultimately show ?case
    using f ih by (intro exI [of _ "f # frames"]) (auto simp: call list_all_iff)
qed

text \<open>C30.  The timeline never drifts: whatever the timing and the interrupts, a run of
  \<open>sync_wait_until\<close> calls that all return \<open>OK\<close> from a fresh epoch has strictly increasing targets
  and has sent exactly one sync frame per call, whose 24-bit payloads are the differences of
  consecutive targets and add up, without wrap-around, to the last target.\<close>

theorem timeline_payloads_telescope:
  assumes "timeline_run p calls w = Some w'" "w_active w = Some p"
    and "se_sync_mode (w_session w p) = RVRT_SESSION_SYNC_MODE_UNSET"
    and "se_artifact (w_session w p) = Some (addr, a)"
  shows "\<exists>frames. hw_down (w_hw w') = hw_down (w_hw w) @ concat (map frame_words frames) \<and>
     list_all2 (sync_frame_for a (se_thread_index (w_session w p))) (deltas 0 (map fst calls)) frames \<and>
     sorted_wrt (<) (map fst calls) \<and>
     sum_list (map unat (deltas 0 (map fst calls))) = unat (last (0 # map fst calls))"
  using timeline_run_lemma [OF assms(1) _ _ assms(4) refl, of 0] assms(2,3) by auto


text \<open>A chip that answers a barrier: frames that are no completions, then a completion.\<close>

definition answers ::
    "u32 \<Rightarrow> wait_env \<Rightarrow> ('u, 'm) world \<Rightarrow> rvrt_frame list \<Rightarrow> rvrt_frame \<Rightarrow> u32 list \<Rightarrow> bool" where
  "answers timeout env w fs c rest \<longleftrightarrow>
     hw_up (w_hw w) = up_words (fs @ [c]) @ rest \<and>
     list_all (\<lambda>f. \<not> rvrt_frame_is_complete (Some f)) fs \<and> rvrt_frame_is_complete (Some c) \<and>
     hw_mstatus (w_hw w) AND MSTATUS_MIE \<noteq> 0 \<and> interrupted_env timeout env w"

text \<open>A live session between operations.\<close>

definition ready :: "nat \<Rightarrow> nat \<Rightarrow> nat \<Rightarrow> rvrt_artifact \<Rightarrow> ('u, 'm) world \<Rightarrow> bool" where
  "ready p buf addr a w \<longleftrightarrow> w_active w = Some p \<and> se_artifact (w_session w p) = Some (addr, a) \<and>
     se_rx_frames (w_session w p) = Some buf \<and> se_rx_capacity (w_session w p) \<noteq> 0 \<and>
     unat (se_rx_capacity (w_session w p)) \<le> length (w_buf w buf) \<and>
     \<not> se_faulted (w_session w p) \<and> \<not> bar_active (barrier_of w p)"

lemma armed_simps [simp]:
  "barrier_of (armed p h ud f en w) p = armed_barrier h ud" "w_buf (armed p h ud f en w) = w_buf w"
  "se_rx_frames (w_session (armed p h ud f en w) p) = se_rx_frames (w_session w p)"
  "se_rx_capacity (w_session (armed p h ud f en w) p) = se_rx_capacity (w_session w p)"
  "se_sync_mode (w_session (armed p h ud f en w) p) = se_sync_mode (w_session w p)"
  "hw_up (w_hw (armed p h ud f en w)) = hw_up (w_hw w)" "w_mem (armed p h ud f en w) = w_mem w"
  "hw_down (w_hw (armed p h ud f en w)) = hw_down (w_hw w) @ frame_words f"
  by (simp_all add: armed_def)

lemma barrier_collects:
  assumes "ready p buf addr a w" "answers timeout env w fs c rest"
    and "length fs < unat (se_rx_capacity (w_session w p))"
  shows "\<exists>w'. run_control_barrier p f timeout sync (Some x) (Some y) None None env w =
     Some (RVRT_SESSION_OK, Some (Some buf), Some (of_nat (length fs + 1)), w') \<and>
     take (length fs + 1) (w_buf w' buf) = fs @ [c] \<and> hw_up (w_hw w') = rest \<and>
     length (w_buf w' buf) = length (w_buf w buf) \<and> w_mem w' = w_mem w"
proof -
  let ?w = "armed p None None f 0 w"
  let ?w' = "upd_barrier p (\<lambda>b. b\<lparr>bar_completed := True\<rparr>) (collected p buf (fs @ [c]) rest ?w)"
  have "noc_rx_loop p ?w = Some ?w'"
    by (rule noc_rx_loop_collects)
      (use assms in \<open>auto simp: ready_def answers_def collecting_def armed_barrier_def\<close>)
  moreover have "bar_completed (barrier_of ?w' p)" by (simp add: upd_defs)
  moreover have "w_active w = Some p" "hw_mstatus (w_hw w) AND MSTATUS_MIE \<noteq> 0"
    "interrupted_env timeout env w"
    using assms by (simp_all add: ready_def answers_def)
  ultimately have "run_control_barrier p f timeout sync (Some x) (Some y) None None env w =
    (let st = barrier_outcome (barrier_of ?w' p)
     in Some (st, map_option (\<lambda>_. se_rx_frames (w_session ?w' p)) (Some x),
              map_option (\<lambda>_. bar_rx_count (barrier_of ?w' p)) (Some y), settle p st ?w'))"
    by (intro run_control_barrier_interrupted)
  then show ?thesis
    using assms by (auto simp: collected_def upd_defs armed_barrier_def barrier_outcome_def ready_def
        settle_def Let_def noc_irq_defs)
qed

text \<open>A raw synchronization that the chip answers before the deadline succeeds: it has sent exactly one
  sync frame, the caller's buffer starts with exactly the frames received, in order and completion
  included, and the count says how many; the session is in raw mode and ready again, and the words
  after the completion stay in the uplink FIFO.\<close>

theorem sync_payload_collects:
  assumes "ready p buf addr a w" "answers timeout env w fs c rest"
    and "length fs < unat (se_rx_capacity (w_session w p))"
    and "se_sync_mode (w_session w p) \<noteq> RVRT_SESSION_SYNC_MODE_TIMELINE"
    and "rvrt_build_sync_payload_frame (Some a) (se_thread_index (w_session w p)) payload (Some zero_frame) =
         (RVRT_CODEC_STATUS_OK, Some f)"
  shows "\<exists>w'. rvrt_session_sync_wait_payload (Some p) payload timeout (Some x) (Some y) env w =
       Some (RVRT_SESSION_OK, Some (Some buf), Some (of_nat (length fs + 1)), w') \<and>
     take (length fs + 1) (w_buf w' buf) = fs @ [c] \<and> hw_up (w_hw w') = rest \<and>
     hw_down (w_hw w') = hw_down (w_hw w) @ frame_words f \<and>
     se_sync_mode (w_session w' p) = RVRT_SESSION_SYNC_MODE_RAW_PAYLOAD \<and>
     \<not> se_faulted (w_session w' p) \<and> \<not> bar_active (barrier_of w' p)"
proof -
  from barrier_collects [OF assms(1-3)] obtain w' where
    w': "run_control_barrier p f timeout True (Some None) (Some 0) None None env w =
        Some (RVRT_SESSION_OK, Some (Some buf), Some (of_nat (length fs + 1)), w')"
      "take (length fs + 1) (w_buf w' buf) = fs @ [c]" "hw_up (w_hw w') = rest" by blast
  have "sync_wait_payload_impl (Some p) payload timeout (Some x) (Some y) None None env w =
      Some (RVRT_SESSION_OK, Some (Some buf), Some (of_nat (length fs + 1)), w')"
    using assms(1,5) w'(1) by (simp add: sync_wait_payload_impl_def ready_def)
  moreover have "w_active w = Some p \<or> w_active w = None" using assms(1) by (simp add: ready_def)
  note run_control_barrier_effect [OF w'(1) this]
  ultimately show ?thesis
    using assms(1,4) w'(2,3)
    by (auto simp: rvrt_session_sync_wait_payload_def ready_def upd_defs)
qed

text \<open>The small world with a chip that answers one work frame and the completion.\<close>

definition demo_work :: rvrt_frame where "demo_work = \<lparr>fr_high = 0x80000000, fr_low = 7\<rparr>"
definition demo_complete :: rvrt_frame where
  "demo_complete = \<lparr>fr_high = push_bit 28 RVRT_FRAME_KIND_COMPLETE, fr_low = 0\<rparr>"
definition demo_env :: wait_env where
  "demo_env = \<lparr>we_start = 0, we_polls = [\<lparr>wp_irq = False, wp_cycle = 9, wp_irq_late = False\<rparr>,
                                       \<lparr>wp_irq = True, wp_cycle = 0, wp_irq_late = False\<rparr>]\<rparr>"

lemma demo_answers:
  "answers 2 demo_env (demo_world (up_words [demo_work, demo_complete] @ rest)) [demo_work] demo_complete rest"
proof -
  have "\<exists>qs poll rest. we_polls demo_env = qs @ poll # rest \<and> wp_irq poll \<and>
      list_all (\<lambda>q. \<not> wp_irq q \<and> \<not> wp_cycle q - we_start demo_env > 32000) qs"
    by (rule exI [of _ "[hd (we_polls demo_env)]"], rule exI [of _ "we_polls demo_env ! 1"])
      (simp add: demo_env_def)
  then show ?thesis
    by (simp add: answers_def interrupted_env_def wait_limit_def demo_world_def demo_work_def
        demo_complete_def rvrt_frame_is_complete_def)
qed

lemma demo_ready: "ready 0 0 0 demo_artifact (demo_world ws)"
  by (simp add: ready_def demo_world_def demo_session_def zero_session_def zero_barrier_def)

lemma demo_sync_frame:
  assumes "d \<le> FC_CTRL_PAYLOAD_MASK"
  shows "\<exists>f. rvrt_build_sync_payload_frame (Some demo_artifact) 0 d (Some zero_frame) =
    (RVRT_CODEC_STATUS_OK, Some f)"
proof -
  have "\<exists>c. rvrt_artifact_thread_root_core_offset (Some demo_artifact) 0 (Some zero_core_offset) =
      (RVRT_ARTIFACT_OK, Some c) \<and> dest_ok c zero_copy_count"
    by (simp add: rvrt_artifact_thread_root_core_offset_def thread_at_def vector_at_def demo_defs
        fill_core_offset_def dest_ok_def sm6_range_def zero_copy_count_def)
  with assms show ?thesis
    by (auto simp: rvrt_build_sync_payload_frame_def build_control_frame_def frame_dest_eq)
qed

theorem sync_payload_collects_witness:
  "\<exists>w'. rvrt_session_sync_wait_payload (Some 0) 3 2 (Some None) (Some 0) demo_env
       (demo_world (up_words [demo_work, demo_complete] @ [9, 9])) =
     Some (RVRT_SESSION_OK, Some (Some 0), Some 2, w') \<and>
     take 2 (w_buf w' 0) = [demo_work, demo_complete] \<and> hw_up (w_hw w') = [9, 9]"
proof -
  obtain f where "rvrt_build_sync_payload_frame (Some demo_artifact) 0 3 (Some zero_frame) =
      (RVRT_CODEC_STATUS_OK, Some f)" using demo_sync_frame [of 3] by auto
  then have f: "rvrt_build_sync_payload_frame (Some demo_artifact)
      (se_thread_index (w_session (demo_world (up_words [demo_work, demo_complete] @ [9, 9])) 0)) 3
      (Some zero_frame) = (RVRT_CODEC_STATUS_OK, Some f)"
    by (simp add: demo_world_def demo_session_def zero_session_def)
  let ?w = "demo_world (up_words [demo_work, demo_complete] @ [9, 9])"
  have "se_rx_capacity (w_session ?w 0) = 4" "se_sync_mode (w_session ?w 0) = RVRT_SESSION_SYNC_MODE_UNSET"
    by (simp_all add: demo_world_def demo_session_def zero_session_def)
  with sync_payload_collects [OF demo_ready demo_answers _ _ f, of None 0]
  obtain w' where "rvrt_session_sync_wait_payload (Some 0) 3 2 (Some None) (Some 0) demo_env ?w =
      Some (RVRT_SESSION_OK, Some (Some 0), Some 2, w')"
    "take (length [demo_work] + 1) (w_buf w' 0) = [demo_work, demo_complete]" "hw_up (w_hw w') = [9, 9]"
    by (auto simp del: up_words_simps)
  moreover have "length [demo_work] + 1 = 2" by simp
  ultimately show ?thesis by metis
qed

theorem timeline_payloads_telescope_witness:
  "\<exists>w' f. timeline_run 0 [(5, 2, demo_env)] (demo_world (up_words [demo_work, demo_complete])) = Some w' \<and>
     hw_down (w_hw w') = frame_words f \<and> sync_frame_for demo_artifact 0 5 f"
proof -
  let ?w = "demo_world (up_words [demo_work, demo_complete] @ [])"
  have s: "se_thread_index (w_session ?w 0) = 0" "se_sync_mode (w_session ?w 0) = RVRT_SESSION_SYNC_MODE_UNSET"
    by (simp_all add: demo_world_def demo_session_def zero_session_def)
  obtain f where f: "rvrt_build_sync_payload_frame (Some demo_artifact) 0 5 (Some zero_frame) =
      (RVRT_CODEC_STATUS_OK, Some f)" using demo_sync_frame [of 5] by auto
  from barrier_collects [OF demo_ready demo_answers, where f = f and sync = True and x = None and y = 0
    and rest = "[]"]
  obtain w1 where "run_control_barrier 0 f 2 True (Some None) (Some 0) None None demo_env ?w =
      Some (RVRT_SESSION_OK, Some (Some 0), Some 2, w1)"
    by (auto simp: demo_world_def demo_session_def)
  with f s demo_ready [of "up_words [demo_work, demo_complete] @ []"]
  have "sync_wait_payload_impl (Some 0) 5 2 (Some None) (Some 0) None None demo_env ?w =
      Some (RVRT_SESSION_OK, Some (Some 0), Some 2, w1)"
    by (simp add: sync_wait_payload_impl_def ready_def)
  with s demo_ready [of "up_words [demo_work, demo_complete] @ []"]
  obtain w' where run: "timeline_run 0 [(5, 2, demo_env)] ?w = Some w'"
    by (simp add: rvrt_session_sync_wait_until_def sync_wait_until_impl_def ready_def)
  from timeline_payloads_telescope [OF this _ s(2), of 0 demo_artifact] demo_ready [of "up_words [demo_work, demo_complete] @ []"]
  obtain frames where "hw_down (w_hw w') = concat (map frame_words frames)"
      "list_all2 (sync_frame_for demo_artifact 0) [5] frames"
    by (auto simp: ready_def demo_world_def demo_session_def zero_session_def)
  then show ?thesis using run by (auto simp: list_all2_Cons1)
qed


section \<open>Barriers with a handler\<close>

lemma barrier_handles:
  assumes "ready p buf addr a w" "answers timeout env w fs c rest"
    and "handler_fold h ud fs (RVRT_SESSION_OK, w_mem w) = Some (st, m)"
  shows "\<exists>w'. run_control_barrier p f timeout sync rxf rxc (Some h) ud env w =
     Some (st, map_option (\<lambda>_. Some buf) rxf, map_option (\<lambda>_. 0) rxc, w') \<and>
     w_mem w' = m \<and> w_buf w' = w_buf w \<and> hw_up (w_hw w') = rest"
proof -
  let ?w = "armed p (Some h) ud f 0 w"
  let ?w' = "upd_barrier p (\<lambda>b. b\<lparr>bar_handler_status := st, bar_completed := True\<rparr>)
            ((set_up rest ?w)\<lparr>w_mem := m\<rparr>)"
  have "noc_rx_loop p ?w = Some ?w'"
    by (rule noc_rx_loop_handles)
      (use assms in \<open>auto simp: ready_def answers_def armed_barrier_def\<close>)
  moreover have "bar_completed (barrier_of ?w' p)" by (simp add: upd_defs)
  moreover have "w_active w = Some p" "hw_mstatus (w_hw w) AND MSTATUS_MIE \<noteq> 0"
    "interrupted_env timeout env w"
    using assms by (simp_all add: ready_def answers_def)
  ultimately have "run_control_barrier p f timeout sync rxf rxc (Some h) ud env w =
    (let st = barrier_outcome (barrier_of ?w' p)
     in Some (st, map_option (\<lambda>_. se_rx_frames (w_session ?w' p)) rxf,
              map_option (\<lambda>_. bar_rx_count (barrier_of ?w' p)) rxc, settle p st ?w'))"
    by (intro run_control_barrier_interrupted)
  then show ?thesis
    using assms by (simp add: upd_defs armed_barrier_def barrier_outcome_def ready_def settle_def Let_def
        noc_irq_defs)
qed

text \<open>What a barrier expects of a receive handler: on memory in good order it returns, and keeps the order.\<close>

locale rx_sink =
  fixes h :: "('u, 'm) rx_handler" and ud :: "'u option" and good :: "'m \<Rightarrow> bool"
  assumes accepts: "good m \<Longrightarrow> \<exists>st m'. h ud f m = Some (st, m') \<and> good m'"
begin

lemma fold_total:
  "good (snd sm) \<Longrightarrow> \<exists>st m. handler_fold h ud fs sm = Some (st, m) \<and> good m"
proof (induction fs arbitrary: sm)
  case Nil
  then show ?case by (cases sm) simp
next
  case (Cons f fs)
  from accepts [OF Cons.prems, of f] obtain st m where "h ud f (snd sm) = Some (st, m)" "good m" by blast
  with Cons.IH [of "(st, m)"] Cons.prems show ?case by (cases sm) auto
qed

text \<open>Whatever the chip sends before its completion, the barrier returns and the memory stays in order.\<close>

lemma barrier_total:
  assumes "ready p buf addr a w" "answers timeout env w fs c rest" "good (w_mem w)"
  shows "\<exists>st w' m. handler_fold h ud fs (RVRT_SESSION_OK, w_mem w) = Some (st, m) \<and>
     run_control_barrier p f timeout sync rxf rxc (Some h) ud env w =
       Some (st, map_option (\<lambda>_. Some buf) rxf, map_option (\<lambda>_. 0) rxc, w') \<and>
     w_mem w' = m \<and> good m \<and> w_buf w' = w_buf w \<and> hw_up (w_hw w') = rest"
  using fold_total [of "(RVRT_SESSION_OK, w_mem w)" fs] barrier_handles [OF assms(1,2)] assms(3)
  by fastforce

end

interpretation discard: rx_sink discard_reset_frame None "\<lambda>m. m = m0"
  by unfold_locales (simp add: discard_reset_frame_def)

lemma discard_fold: "handler_fold discard_reset_frame ud fs (RVRT_SESSION_OK, m) = Some (RVRT_SESSION_OK, m)"
  by (induction fs) (simp_all add: discard_reset_frame_def)

text \<open>A model reset that the chip answers discards every stale frame before the completion, however
  many: it never overflows the session's buffer, changes no memory, sends one init frame, and starts
  a fresh synchronization epoch in which both synchronization modes are open again.\<close>

theorem reset_discards_stale_frames:
  assumes "ready p buf addr a w" "answers timeout env w fs c rest"
    and "rvrt_build_init_frame (Some a) (se_thread_index (w_session w p)) (Some zero_frame) =
         (RVRT_CODEC_STATUS_OK, Some f)"
  shows "\<exists>w'. rvrt_session_reset_model (Some p) timeout env w = Some (RVRT_SESSION_OK, w') \<and>
     w_mem w' = w_mem w \<and> w_buf w' = w_buf w \<and> hw_up (w_hw w') = rest \<and>
     hw_down (w_hw w') = hw_down (w_hw w) @ frame_words f \<and>
     se_sync_mode (w_session w' p) = RVRT_SESSION_SYNC_MODE_UNSET \<and>
     se_completed_timesteps (w_session w' p) = 0 \<and> ready p buf addr a w'"
proof -
  from discard.barrier_total [where ?m0.0 = "w_mem w" and f = f and sync = False and rxf = None
      and rxc = None, OF assms(1,2) refl]
  obtain w' where w': "run_control_barrier p f timeout False None None (Some discard_reset_frame) None env w =
      Some (RVRT_SESSION_OK, None, None, w')" "w_mem w' = w_mem w" "w_buf w' = w_buf w" "hw_up (w_hw w') = rest"
    by (auto simp: discard_fold)
  have "w_active w = Some p \<or> w_active w = None" using assms(1) by (simp add: ready_def)
  note eff = run_control_barrier_effect [OF w'(1) this]
  show ?thesis
    using assms(1,3) w' eff
    by (auto simp: rvrt_session_reset_model_def ready_def upd_defs clear_sync_epoch_def)
qed

theorem reset_discards_stale_frames_witness:
  "\<exists>w'. rvrt_session_reset_model (Some 0) 2 demo_env
       (demo_world (up_words [demo_work, demo_complete] @ [])) = Some (RVRT_SESSION_OK, w') \<and>
     w_buf w' 0 = replicate 4 zero_frame"
proof -
  let ?w = "demo_world (up_words [demo_work, demo_complete] @ [])"
  have "\<exists>c. rvrt_artifact_thread_root_core_offset (Some demo_artifact) 0 (Some zero_core_offset) =
      (RVRT_ARTIFACT_OK, Some c) \<and> dest_ok c zero_copy_count"
    by (simp add: rvrt_artifact_thread_root_core_offset_def thread_at_def vector_at_def demo_defs
        fill_core_offset_def dest_ok_def sm6_range_def zero_copy_count_def)
  then obtain f where
    f: "rvrt_build_init_frame (Some demo_artifact) (se_thread_index (w_session ?w 0)) (Some zero_frame) =
      (RVRT_CODEC_STATUS_OK, Some f)"
    by (auto simp: rvrt_build_init_frame_def build_control_frame_def frame_dest_eq demo_world_def
        demo_session_def zero_session_def)
  from reset_discards_stale_frames [OF demo_ready demo_answers f] show ?thesis
    by (auto simp: demo_world_def)
qed

end
