(* ===== verification/SessionIo_Laws.thy ===== *)
theory SessionIo_Laws
  imports Session_Api
begin

text \<open>
  Laws of the transfers from the host to the chip: the configuration, raw frames and the input of a
  timestep.
\<close>

section \<open>What a transfer changes\<close>

text \<open>Only the downlink grows; the NoC interrupt stays enabled or disabled as it was.\<close>

definition sent :: "rvrt_frame list \<Rightarrow> ('u, 'm) world \<Rightarrow> ('u, 'm) world \<Rightarrow> bool" where
  "sent fs w w' \<longleftrightarrow> (\<exists>e. (e \<noteq> 0) = noc_irq_is_enabled (w_hw w) \<and>
     w' = w\<lparr>w_hw := (w_hw w)\<lparr>hw_down := hw_down (w_hw w) @ concat (map frame_words fs), hw_irq_enable := e\<rparr>\<rparr>)"

lemma sent_none: "sent [] w w"
  by (auto simp: sent_def noc_irq_defs intro!: exI [of _ "hw_irq_enable (w_hw w)"])

lemma sent_trans: "sent fs w1 w2 \<Longrightarrow> sent gs w2 w3 \<Longrightarrow> sent (fs @ gs) w1 w3"
  by (auto simp: sent_def noc_irq_defs)

lemma sent_same:
  assumes "sent fs w w'"
  shows "w_session w' = w_session w" "w_active w' = w_active w" "w_buf w' = w_buf w" "w_mem w' = w_mem w"
  using assms by (auto simp: sent_def)

lemma sent_critical:
  assumes "hw = (noc_irq_disable (w_hw w))\<lparr>hw_down := hw_down (w_hw w) @ concat (map frame_words fs)\<rparr>"
  shows "sent fs w (w\<lparr>w_hw := (if noc_irq_is_enabled (w_hw w) then noc_irq_enable hw else hw)\<rparr>)"
  using assms unfolding sent_def
  by (cases "w_hw w") (auto simp: noc_irq_defs intro!: exI [of _ "if hw_irq_enable (w_hw w) = 0 then 0 else 1"])

lemma send_frames_loop_eq:
  "n \<le> length fs \<Longrightarrow>
   send_frames_loop fs n hw = Some (hw\<lparr>hw_down := hw_down hw @ concat (map frame_words (take n fs))\<rparr>)"
proof (induction fs n hw rule: send_frames_loop.induct)
  case (3 f fs n hw)
  then show ?case by (simp add: noc_write_unlocked_eq frame_words_def)
qed simp_all

text \<open>A session on which transfers are possible.\<close>

definition idle :: "nat \<Rightarrow> ('u, 'm) world \<Rightarrow> bool" where
  "idle p w \<longleftrightarrow> se_artifact (w_session w p) \<noteq> None \<and> \<not> se_faulted (w_session w p) \<and>
     \<not> bar_active (barrier_of w p)"

lemma idle_sent: "sent fs w w' \<Longrightarrow> idle p w' = idle p w"
  by (simp add: idle_def sent_same)

lemma send_frames_idle:
  assumes "idle p w" "unat n \<le> length fs"
  shows "\<exists>w'. rvrt_session_send_frames (Some p) (Some fs) n w = Some (RVRT_SESSION_OK, w') \<and>
     sent (take (unat n) fs) w w'"
proof -
  have "sent (take (unat n) fs) w (w\<lparr>w_hw := (if noc_irq_is_enabled (w_hw w)
      then noc_irq_enable ((noc_irq_disable (w_hw w))\<lparr>hw_down := hw_down (w_hw w) @ concat (map frame_words (take (unat n) fs))\<rparr>)
      else (noc_irq_disable (w_hw w))\<lparr>hw_down := hw_down (w_hw w) @ concat (map frame_words (take (unat n) fs))\<rparr>)\<rparr>)"
    by (rule sent_critical) simp
  moreover have "hw_down (noc_irq_disable (w_hw w)) = hw_down (w_hw w)" by (simp add: noc_irq_defs)
  ultimately show ?thesis
    using assms by (cases "noc_irq_is_enabled (w_hw w)")
      (auto simp: rvrt_session_send_frames_def idle_def Let_def send_frames_loop_eq)
qed


section \<open>The configuration\<close>

fun config_frames_of :: "fbs_ConfigFrames \<Rightarrow> u32 list \<Rightarrow> rvrt_frame list" where
  "config_frames_of cfg (w0 # w1 # ws) =
     (if cf_word_order cfg = WordOrder_HIGH_FIRST then \<lparr>fr_high = w0, fr_low = w1\<rparr>
      else \<lparr>fr_high = w1, fr_low = w0\<rparr>) # config_frames_of cfg ws"
| "config_frames_of cfg _ = []"

lemma length_config_frames_of: "length (config_frames_of cfg ws) = length ws div 2"
  by (induction cfg ws rule: config_frames_of.induct) auto

lemma nth_config_frames_of:
  "k < length ws div 2 \<Longrightarrow> config_frames_of cfg ws ! k =
     (if cf_word_order cfg = WordOrder_HIGH_FIRST then \<lparr>fr_high = ws ! (2 * k), fr_low = ws ! (2 * k + 1)\<rparr>
      else \<lparr>fr_high = ws ! (2 * k + 1), fr_low = ws ! (2 * k)\<rparr>)"
proof (induction cfg ws arbitrary: k rule: config_frames_of.induct)
  case (1 cfg w0 w1 ws)
  then show ?case by (cases k) auto
qed auto

definition config_of :: "rvrt_artifact \<Rightarrow> fbs_ConfigFrames \<Rightarrow> u32 list \<Rightarrow> bool" where
  "config_of a cfg words \<longleftrightarrow> art_root a \<noteq> None \<and> art_config_frames a = Some cfg \<and>
     cf_words cfg = Some words \<and> length words < 2 ^ 32"

lemma config_frame_words_at:
  assumes "config_of a cfg words" "unat i < length words div 2"
  shows "rvrt_artifact_config_frame_words (Some a) i (Some 0) (Some 0) =
    (if cf_word_order cfg = WordOrder_HIGH_FIRST \<or> cf_word_order cfg = WordOrder_LOW_FIRST
     then Some (RVRT_ARTIFACT_OK, Some (fr_high (config_frames_of cfg words ! unat i)),
                Some (fr_low (config_frames_of cfg words ! unat i)))
     else Some (RVRT_ARTIFACT_BAD_VALUE, Some 0, Some 0))"
proof -
  have n: "unat (vsize words) = length words"
    using assms(1) by (simp add: config_of_def unat_of_nat)
  then have ok: "i < vsize words div 2" using assms(2) by (simp add: word_less_nat_alt unat_div)
  have lt: "2 * unat i + 1 < length words" using assms(2) by linarith
  then have "2 * unat i + 1 < 2 ^ 32" using assms(1) by (simp add: config_of_def)
  then have "unat (i * 2) = 2 * unat i" "unat (i * 2 + 1) = 2 * unat i + 1"
    by (simp_all add: unat_word_ariths)
  then have "rd words (i * 2) = Some (words ! (2 * unat i))"
    "rd words (i * 2 + 1) = Some (words ! (2 * unat i + 1))"
    using lt by (simp_all add: rd_def)
  then show ?thesis
    using assms ok nth_config_frames_of [OF assms(2), of cfg]
    by (auto simp: rvrt_artifact_config_frame_words_def config_frames_def config_of_def not_le)
qed


lemma load_config_loop_sends:
  assumes "config_of a cfg words" "cf_word_order cfg = WordOrder_HIGH_FIRST \<or> cf_word_order cfg = WordOrder_LOW_FIRST"
  shows "unat i + n = length words div 2 \<Longrightarrow>
    load_config_loop (Some a) i n hw = Some (RVRT_ARTIFACT_OK,
      hw\<lparr>hw_down := hw_down hw @ concat (map frame_words (drop (unat i) (config_frames_of cfg words)))\<rparr>)"
proof (induction n arbitrary: i hw)
  case 0
  then show ?case by (simp add: length_config_frames_of)
next
  case (Suc n)
  then have i: "unat i < length words div 2" by simp
  have "length words div 2 \<le> length words" by simp
  also have "\<dots> < 2 ^ 32" using assms(1) by (simp add: config_of_def)
  finally have "length words div 2 < 2 ^ 32" .
  with i have "unat (i + 1) = unat i + 1" by (simp add: unat_word_ariths)
  moreover have "drop (unat i) (config_frames_of cfg words) =
      config_frames_of cfg words ! unat i # drop (Suc (unat i)) (config_frames_of cfg words)"
    using i by (simp add: Cons_nth_drop_Suc length_config_frames_of)
  ultimately show ?case
    using Suc.IH [of "i + 1"] Suc.prems assms(2)
    by (simp add: config_frame_words_at [OF assms(1) i] noc_write_unlocked_eq frame_words_def)
qed

lemma load_config_loop_bad_order:
  assumes "config_of a cfg words" "cf_word_order cfg \<noteq> WordOrder_HIGH_FIRST" "cf_word_order cfg \<noteq> WordOrder_LOW_FIRST"
    and "length words \<ge> 2"
  shows "load_config_loop (Some a) 0 (Suc n) hw = Some (RVRT_ARTIFACT_BAD_VALUE, hw)"
proof -
  have "unat (0 :: u32) < length words div 2" using assms(4) by simp
  from config_frame_words_at [OF assms(1) this] assms(2,3) show ?thesis by simp
qed

lemma load_config_lemma:
  assumes "idle p w" "se_artifact (w_session w p) = Some (addr, a)" "config_of a cfg words"
  shows "\<exists>st w'. rvrt_session_load_config (Some p) w = Some (st, w') \<and>
    (if words \<noteq> [] \<and> even (length words) \<and>
        (cf_word_order cfg = WordOrder_HIGH_FIRST \<or> cf_word_order cfg = WordOrder_LOW_FIRST)
     then st = RVRT_SESSION_OK \<and> sent (config_frames_of cfg words) w w'
     else st = RVRT_SESSION_RUNTIME_ERROR \<and> sent [] w w')"
proof -
  let ?hw = "noc_irq_disable (w_hw w)"
  let ?n = "length words div 2"
  have len: "length words < 2 ^ 32" using assms(3) by (simp add: config_of_def)
  then have n: "unat (vsize words) = length words" by (simp add: unat_of_nat)
  then have n2: "unat (vsize words div 2) = ?n" by (simp add: unat_div)
  have bad: "vsize words = (0 :: u32) \<longleftrightarrow> words = []"
    using n by (metis list.size(3) length_0_conv unat_eq_zero)
  have odd: "vsize words mod (2 :: u32) \<noteq> 0 \<longleftrightarrow> odd (length words)"
    using n by (simp add: word_unat_eq_iff unat_mod odd_iff_mod_2_eq_one even_iff_mod_2_eq_zero)
  have count: "rvrt_artifact_config_word_count (Some a) (Some 0) = (RVRT_ARTIFACT_OK, Some (vsize words))"
    using assms(3) by (simp add: rvrt_artifact_config_word_count_def config_words_def config_frames_def
        config_of_def)
  note defs = rvrt_session_load_config_def Let_def count
  show ?thesis
  proof (cases "words = [] \<or> odd (length words)")
    case True
    then show ?thesis using assms(1,2) bad odd sent_none
      by (auto simp: defs idle_def)
  next
    case False
    then have two: "length words \<ge> 2" by (cases words) (auto simp: Suc_le_eq)
    then obtain m where m: "?n = Suc m" by (cases ?n) auto
    show ?thesis
    proof (cases "cf_word_order cfg = WordOrder_HIGH_FIRST \<or> cf_word_order cfg = WordOrder_LOW_FIRST")
      case True
      have "load_config_loop (Some a) 0 ?n ?hw = Some (RVRT_ARTIFACT_OK,
          ?hw\<lparr>hw_down := hw_down (w_hw w) @ concat (map frame_words (config_frames_of cfg words))\<rparr>)"
        using load_config_loop_sends [OF assms(3) True, of 0 ?n ?hw] by (simp add: noc_irq_defs)
      moreover note sent_critical [OF refl, where w = w and fs = "config_frames_of cfg words"]
      ultimately show ?thesis using assms(1,2) False bad odd True n2
        by (cases "noc_irq_is_enabled (w_hw w)") (auto simp: defs idle_def)
    next
      case order: False
      then have "load_config_loop (Some a) 0 ?n ?hw = Some (RVRT_ARTIFACT_BAD_VALUE, ?hw)"
        unfolding m using load_config_loop_bad_order [OF assms(3) _ _ two] by blast
      moreover have "sent [] w (w\<lparr>w_hw := (if noc_irq_is_enabled (w_hw w) then noc_irq_enable ?hw else ?hw)\<rparr>)"
        by (rule sent_critical) (simp add: noc_irq_defs)
      ultimately show ?thesis using assms(1,2) False bad odd order n2
        by (cases "noc_irq_is_enabled (w_hw w)") (auto simp: defs idle_def)
    qed
  qed
qed

text \<open>Loading the configuration sends every configuration frame of the artifact exactly once, in
  order, with the words of each frame arranged by the artifact's declared word order, and nothing
  else.  An empty table, an odd number of words or an unknown word order sends nothing.  Either
  way the interrupt is left enabled or disabled as it was found.\<close>

theorem load_config_sends_all_frames:
  assumes "idle p w" "se_artifact (w_session w p) = Some (addr, a)" "config_of a cfg words"
  shows "\<exists>st w'. rvrt_session_load_config (Some p) w = Some (st, w') \<and>
    (if words \<noteq> [] \<and> even (length words) \<and>
        (cf_word_order cfg = WordOrder_HIGH_FIRST \<or> cf_word_order cfg = WordOrder_LOW_FIRST)
     then st = RVRT_SESSION_OK \<and> sent (config_frames_of cfg words) w w'
     else st = RVRT_SESSION_RUNTIME_ERROR \<and> sent [] w w')"
  by (rule load_config_lemma [OF assms])

theorem load_config_sends_all_frames_witness:
  "\<exists>w'. rvrt_session_load_config (Some 0) (demo_world []) = Some (RVRT_SESSION_OK, w') \<and>
     hw_down (w_hw w') = [2, 1, 4, 3]"
proof -
  have "idle 0 (demo_world [])" "se_artifact (w_session (demo_world []) 0) = Some (0, demo_artifact)"
    by (simp_all add: idle_def demo_world_def demo_session_def zero_session_def zero_barrier_def)
  moreover have "config_of demo_artifact \<lparr>cf_words = Some [1, 2, 3, 4], cf_word_order = WordOrder_HIGH_FIRST\<rparr> [1, 2, 3, 4]"
    by (simp add: config_of_def demo_defs)
  ultimately obtain st w' where "rvrt_session_load_config (Some 0) (demo_world []) = Some (st, w') \<and>
    st = RVRT_SESSION_OK \<and> sent [\<lparr>fr_high = 1, fr_low = 2\<rparr>, \<lparr>fr_high = 3, fr_low = 4\<rparr>] (demo_world []) w'"
    using load_config_sends_all_frames [of 0 "demo_world []" 0 demo_artifact] by fastforce
  then show ?thesis by (auto simp: sent_def frame_words_def demo_world_def)
qed



section \<open>The input of a timestep\<close>

lemma send_chunk:
  assumes "idle p w" "unat m \<le> length ws"
  shows "\<exists>w'. rvrt_session_send_frames (Some p) (Some ws) m w = Some (RVRT_SESSION_OK, w') \<and>
     sent (take (unat m) ws) w w' \<and> idle p w'"
proof -
  from send_frames_idle [OF assms] obtain w' where
    "rvrt_session_send_frames (Some p) (Some ws) m w = Some (RVRT_SESSION_OK, w')" "sent (take (unat m) ws) w w'"
    by blast
  with idle_sent [OF this(2)] assms(1) show ?thesis by auto
qed

lemma send_input_loop_delivers:
  assumes "iv_entries v \<noteq> None" "cap \<noteq> 0"
  shows "encode_rest v c input n = Some (st, fs) \<Longrightarrow> unat cap \<le> length ws \<Longrightarrow> idle p w \<Longrightarrow>
    length fs < rounds \<Longrightarrow>
    \<exists>st' ws' w' k. send_input_loop rounds p v c input n ws cap w = Some (st', ws', w') \<and>
      length ws' = length ws \<and> sent (take k fs) w w' \<and>
      (if st = RVRT_CODEC_STATUS_DONE then st' = RVRT_SESSION_OK \<and> take k fs = fs
       else st' = RVRT_SESSION_RUNTIME_ERROR)"
proof (induction rounds arbitrary: c fs ws w)
  case (Suc rounds)
  have not_full: "st \<noteq> RVRT_CODEC_STATUS_BUFFER_FULL"
    using encode_rest_not_full Suc.prems(1) by blast
  from encode_chunk_lemma [OF assms(1) Suc.prems(1) assms(2) Suc.prems(2), of 0]
  obtain st1 c1 ws1 m where chunk:
    "rvrt_encode_input_chunk (Some v) (Some c) (Some input) n (Some ws) cap (Some 0) =
       Some (st1, Some c1, Some ws1, Some m)"
    "length ws1 = length ws" "unat m \<le> unat cap"
    "chunk_post v input n (unat cap) st fs st1 c1 (take (unat m) ws1)" by blast
  have m: "unat m \<le> length ws1" using chunk(2,3) Suc.prems(2) by simp
  from send_chunk [OF Suc.prems(3) m] obtain w1 where
    w1: "rvrt_session_send_frames (Some p) (Some ws1) m w = Some (RVRT_SESSION_OK, w1)"
      "sent (take (unat m) ws1) w w1" "idle p w1" by blast
  show ?case
  proof (cases "st1 = RVRT_CODEC_STATUS_BUFFER_FULL")
    case False
    with chunk(4) have post: "st1 = st" "take (unat m) ws1 = fs" by (auto simp: chunk_post_def)
    show ?thesis
    proof (cases "st = RVRT_CODEC_STATUS_DONE")
      case True
      with chunk post w1 show ?thesis
        by (intro exI [of _ RVRT_SESSION_OK] exI [of _ ws1] exI [of _ w1] exI [of _ "length fs"])
          (simp add: Let_def)
    next
      case err: False
      with chunk post False show ?thesis
        by (intro exI [of _ RVRT_SESSION_RUNTIME_ERROR] exI [of _ ws1] exI [of _ w] exI [of _ 0])
          (simp add: Let_def sent_none)
    qed
  next
    case True
    with chunk(4) not_full obtain fs' where rest: "encode_rest v c1 input n = Some (st, fs')"
        "fs = take (unat m) ws1 @ fs'" "length (take (unat m) ws1) = unat cap"
      by (auto simp: chunk_post_def)
    have cap: "0 < unat cap" using assms(2) by (simp add: word_neq_0_conv unat_gt_0)
    with rest(3) m have "m \<noteq> 0" by auto
    have "length fs' < rounds" using Suc.prems(4) rest(2,3) cap by simp
    moreover have "unat cap \<le> length ws1" using Suc.prems(2) chunk(2) by simp
    ultimately obtain st' ws' w' k where ih:
      "send_input_loop rounds p v c1 input n ws1 cap w1 = Some (st', ws', w')"
      "length ws' = length ws1" "sent (take k fs') w1 w'"
      "if st = RVRT_CODEC_STATUS_DONE then st' = RVRT_SESSION_OK \<and> take k fs' = fs'
       else st' = RVRT_SESSION_RUNTIME_ERROR"
      using Suc.IH [OF rest(1) _ w1(3), of ws1] by blast
    have "send_input_loop (Suc rounds) p v c input n ws cap w = Some (st', ws', w')"
      using chunk(1) True \<open>m \<noteq> 0\<close> w1(1) ih(1) by (simp add: Let_def)
    moreover have "take (unat cap + k) fs = take (unat m) ws1 @ take k fs'"
    proof -
      have "unat m = unat cap" using rest(3) m by simp
      with rest(2) m show ?thesis by (simp add: take_append)
    qed
    ultimately show ?thesis
      using ih(2-4) chunk(2) sent_trans [OF w1(2) ih(3)] rest(2)
      by (intro exI [of _ st'] exI [of _ ws'] exI [of _ w'] exI [of _ "unat cap + k"]) auto
  qed
qed simp

lemma send_input_lemma:
  assumes "idle p w" "input_view_ok v" "iv_entries v = Some es"
    and "iv_element_count v \<le> n" "unat n \<le> length input"
    and "cap \<noteq> 0" "unat cap \<le> length ws" "length es < rounds"
  shows "\<exists>st' ws' w' k.
    rvrt_session_send_input_timestep rounds (Some p) (Some v) ts (Some input) n (Some ws) cap w =
      Some (st', Some ws', w') \<and> length ws' = length ws \<and>
    (case input_frames ts input (map the (take (unat (iv_entry_count v)) es)) of (st, fs) \<Rightarrow>
       sent (take k fs) w w' \<and>
       (if st = RVRT_CODEC_STATUS_DONE then st' = RVRT_SESSION_OK \<and> take k fs = fs
        else st' = RVRT_SESSION_RUNTIME_ERROR))"
proof -
  let ?c = "\<lparr>cu_entry_index = 0, cu_timestep = ts\<rparr>"
  obtain st fs where fs: "input_frames ts input (map the (take (unat (iv_entry_count v)) es)) = (st, fs)"
    by force
  have enc: "encode_rest v ?c input n = Some (st, fs)"
    using encode_from_accepted [OF assms(2,4,5,3), of 0 "unat (iv_entry_count v)" ts] fs
    by (simp add: encode_rest_def)
  have "length (snd (input_frames ts input ss)) \<le> length ss" for ss
    by (induction ss) (auto simp: Let_def split: option.splits prod.splits)
  from this [of "map the (take (unat (iv_entry_count v)) es)"] fs assms(8)
  have rounds: "length fs < rounds" by simp
  have "iv_entries v \<noteq> None" using assms(3) by simp
  from send_input_loop_delivers [OF this assms(6) enc assms(7,1) rounds] obtain st' ws' w' k where
    r: "send_input_loop rounds p v ?c input n ws cap w = Some (st', ws', w')" "length ws' = length ws"
      "sent (take k fs) w w'"
      "if st = RVRT_CODEC_STATUS_DONE then st' = RVRT_SESSION_OK \<and> take k fs = fs
       else st' = RVRT_SESSION_RUNTIME_ERROR" by blast
  have "rvrt_session_send_input_timestep rounds (Some p) (Some v) ts (Some input) n (Some ws) cap w =
      Some (st', Some ws', w')"
    using assms(1,6) r(1)
    by (simp add: rvrt_session_send_input_timestep_def rvrt_input_cursor_init_def idle_def)
  with r(2-4) show ?thesis unfolding fs prod.case by blast
qed

text \<open>C36.  Sending the input of a timestep over an accepted view always ends, within one round per
  frame and one more, whatever the capacity of the workspace, and if every mapped element can be
  encoded it has sent exactly the frames of the input, in table order, each of them once; nothing else
  is sent.  If an element cannot be encoded, the call fails and what it sent is a prefix of those
  frames.\<close>

theorem send_input_delivers_frames:
  assumes "idle p w" "input_view_ok v" "iv_entries v = Some es"
    and "iv_element_count v \<le> n" "unat n \<le> length input"
    and "cap \<noteq> 0" "unat cap \<le> length ws" "length es < rounds"
  shows "\<exists>st' ws' w' k.
    rvrt_session_send_input_timestep rounds (Some p) (Some v) ts (Some input) n (Some ws) cap w =
      Some (st', Some ws', w') \<and> length ws' = length ws \<and>
    (case input_frames ts input (map the (take (unat (iv_entry_count v)) es)) of (st, fs) \<Rightarrow>
       sent (take k fs) w w' \<and>
       (if st = RVRT_CODEC_STATUS_DONE then st' = RVRT_SESSION_OK \<and> take k fs = fs
        else st' = RVRT_SESSION_RUNTIME_ERROR))"
  by (rule send_input_lemma [OF assms])

theorem send_input_delivers_frames_witness:
  "\<exists>ws' w'. rvrt_session_send_input_timestep 3 (Some 0) (Some demo_in_view) 3 (Some [7, 9]) 2
       (Some [zero_frame]) 1 (demo_world []) = Some (RVRT_SESSION_OK, Some ws', w') \<and>
     hw_down (w_hw w') = frame_words (work_frame (entry_of (demo_in_entry 0 5)) 3 7) @
       frame_words (work_frame (entry_of (demo_in_entry 1 6)) 3 9)"
proof -
  have "work_entry_ok (entry_of (demo_in_entry 0 5))" "work_entry_ok (entry_of (demo_in_entry 1 6))"
    by (simp_all add: work_entry_ok_def entry_of_def demo_in_entry_def dest_ok_def sm6_range_def)
  then have "input_frames 3 [7, 9] (map the (take (unat (iv_entry_count demo_in_view)) demo_in_entries)) =
      (RVRT_CODEC_STATUS_DONE, [work_frame (entry_of (demo_in_entry 0 5)) 3 7,
                                work_frame (entry_of (demo_in_entry 1 6)) 3 9])"
    by (simp add: demo_in_view_def demo_in_entries_def)
      (simp add: demo_in_entry_def dtype_bits_def k_dtype_info_def dtype_range_def payload_of_def)
  moreover have "idle 0 (demo_world [])"
    by (simp add: idle_def demo_world_def demo_session_def zero_session_def zero_barrier_def)
  moreover have "iv_entries demo_in_view = Some demo_in_entries" "iv_element_count demo_in_view = 2"
    "length demo_in_entries < 3"
    by (simp_all add: demo_in_view_def demo_in_entries_def)
  ultimately obtain ws' w' where
    "rvrt_session_send_input_timestep 3 (Some 0) (Some demo_in_view) 3 (Some [7, 9]) 2
       (Some [zero_frame]) 1 (demo_world []) = Some (RVRT_SESSION_OK, Some ws', w')"
    "sent [work_frame (entry_of (demo_in_entry 0 5)) 3 7, work_frame (entry_of (demo_in_entry 1 6)) 3 9]
       (demo_world []) w'"
    using send_input_delivers_frames [of 0 "demo_world []" demo_in_view demo_in_entries 2 "[7, 9]" 1
        "[zero_frame]" 3 3] demo_in_view_ok
    by fastforce
  then show ?thesis by (auto simp: sent_def demo_world_def)
qed

end
