(* ===== verification/Session_Calls.thy ===== *)
theory Session_Calls
  imports SessionIo_Laws
begin

text \<open>
  The session module as a transition system: any program that calls its operations, in any order, on
  any session objects, with stray interrupts between the calls and a chip that sends what it likes.
  Exclusive ownership, the absence of open barriers between calls and the effect of faults are
  invariants of its reachable worlds.
\<close>

section \<open>Calls\<close>

datatype ('u, 'm) session_call =
    Call_Init int "nat option" "session_config option"
  | Call_Deinit "nat option"
  | Call_Load_Config "nat option"
  | Call_Send_Frames "nat option" "rvrt_frame list option" u32
  | Call_Send_Input nat "nat option" "rvrt_artifact_input_mapping_view option" u32 "u8 list option" u32
      "rvrt_frame list option" u32
  | Call_Reset_Model "nat option" u32 wait_env
  | Call_Sync_Payload "nat option" u32 u32 "nat option option" "u32 option" wait_env
  | Call_Sync_Until "nat option" u32 u32 "nat option option" "u32 option" wait_env
  | Call_Sync_Handler "nat option" u32 u32 "('u, 'm) rx_handler option" "'u option" wait_env
  | Stray_Interrupt
  | Chip_Sends "u32 list"

fun perform :: "('u, 'm) session_call \<Rightarrow> ('u, 'm) world \<Rightarrow> (session_status \<times> ('u, 'm) world) option" where
  "perform (Call_Init r p cfg) w = Some (rvrt_session_init r p cfg w)"
| "perform (Call_Deinit p) w = Some (rvrt_session_deinit p w)"
| "perform (Call_Load_Config p) w = rvrt_session_load_config p w"
| "perform (Call_Send_Frames p frames n) w = rvrt_session_send_frames p frames n w"
| "perform (Call_Send_Input rounds p v ts input n ws cap) w =
     map_option (\<lambda>(st, _, w'). (st, w')) (rvrt_session_send_input_timestep rounds p v ts input n ws cap w)"
| "perform (Call_Reset_Model p timeout env) w = rvrt_session_reset_model p timeout env w"
| "perform (Call_Sync_Payload p d timeout rxf rxc env) w =
     map_option (\<lambda>(st, _, _, w'). (st, w')) (rvrt_session_sync_wait_payload p d timeout rxf rxc env w)"
| "perform (Call_Sync_Until p n timeout rxf rxc env) w =
     map_option (\<lambda>(st, _, _, w'). (st, w')) (rvrt_session_sync_wait_until p n timeout rxf rxc env w)"
| "perform (Call_Sync_Handler p n timeout h ud env) w =
     rvrt_session_sync_wait_until_with_rx_handler p n timeout h ud env w"
| "perform Stray_Interrupt w = map_option (Pair RVRT_SESSION_OK) (irq_point True w)"
| "perform (Chip_Sends ws) w =
     Some (RVRT_SESSION_OK, w\<lparr>w_hw := (w_hw w)\<lparr>hw_up := hw_up (w_hw w) @ ws, hw_pending := 1\<rparr>\<rparr>)"

inductive session_reachable :: "('u, 'm) world \<Rightarrow> bool" where
  boot: "w_active w = None \<Longrightarrow> w_session w = (\<lambda>_. zero_session) \<Longrightarrow> session_reachable w"
| call: "session_reachable w \<Longrightarrow> perform c w = Some (st, w') \<Longrightarrow> session_reachable w'"


section \<open>The invariant\<close>

definition live :: "('u, 'm) session \<Rightarrow> bool" where
  "live s \<longleftrightarrow> se_artifact s \<noteq> None \<and> se_rx_frames s \<noteq> None \<and> se_rx_capacity s \<noteq> 0 \<and>
     \<not> bar_active (se_barrier s)"

definition sessions_ok :: "('u, 'm) world \<Rightarrow> bool" where
  "sessions_ok w \<longleftrightarrow> (\<forall>p. if w_active w = Some p then live (w_session w p) else w_session w p = zero_session)"

lemma live_zero: "\<not> live zero_session" "se_artifact zero_session = None"
  by (simp_all add: live_def zero_session_def)

lemma sessions_ok_artifact:
  "sessions_ok w \<Longrightarrow> se_artifact (w_session w p) = Some x \<Longrightarrow> w_active w = Some p"
  by (cases "w_active w = Some p") (auto simp: sessions_ok_def live_zero dest!: spec [of _ p])

text \<open>Operations that leave the owner alone and close the barrier preserve the invariant.\<close>

definition tame :: "nat \<Rightarrow> ('u, 'm) world \<Rightarrow> ('u, 'm) world \<Rightarrow> bool" where
  "tame p w w' \<longleftrightarrow> w_active w' = w_active w \<and> (\<forall>q. q \<noteq> p \<longrightarrow> w_session w' q = w_session w q) \<and>
     (live (w_session w p) \<longrightarrow> live (w_session w' p))"

lemma tame_refl: "tame p w w"
  by (simp add: tame_def)

lemma tame_ok: "tame p w w' \<Longrightarrow> w_active w = Some p \<Longrightarrow> sessions_ok w \<Longrightarrow> sessions_ok w'"
  by (auto simp: tame_def sessions_ok_def split: if_splits)

lemma tame_sent: "sent fs w w' \<Longrightarrow> tame p w w'"
  by (simp add: tame_def sent_same)

lemma tame_hw: "tame p w (w\<lparr>w_hw := hw\<rparr>)"
  by (simp add: tame_def)

lemma tame_barrier:
  assumes "run_control_barrier p f timeout sync rxf rxc h ud env w = Some (st, rxf', rxc', w')"
    and "w_active w = Some p"
  shows "tame p w w'"
proof -
  have "w_active w = Some p \<or> w_active w = None" using assms(2) by simp
  note eff = run_control_barrier_effect [OF assms(1) this]
  then show ?thesis by (auto simp: tame_def live_def)
qed

lemma tame_upd_session:
  assumes "tame p w w'" "\<And>s. live s \<Longrightarrow> live (g s)"
  shows "tame p w (upd_session p g w')"
  using assms by (auto simp: tame_def upd_session_def)

lemma live_sync_fields [simp]:
  "live (s\<lparr>se_sync_mode := m, se_completed_timesteps := n\<rparr>) = live s"
  "live (s\<lparr>se_sync_mode := m\<rparr>) = live s" "live (clear_sync_epoch s) = live s"
  by (simp_all add: live_def clear_sync_epoch_def)

lemma tame_sync_impl:
  assumes "sync_wait_payload_impl (Some p) d timeout rxf rxc h ud env w = Some (st, rxf', rxc', w')"
    and "sessions_ok w"
  shows "tame p w w'"
  using assms(1)
  by (auto simp: sync_wait_payload_impl_def Let_def tame_refl split: option.splits if_splits prod.splits
      dest: tame_barrier [OF _ sessions_ok_artifact [OF assms(2)]])

lemma tame_until_impl:
  assumes "sync_wait_until_impl (Some p) n timeout rxf rxc h ud env w = Some (st, rxf', rxc', w')"
    and "sessions_ok w"
  shows "tame p w w'"
  using assms(1)
  by (auto simp: sync_wait_until_impl_def Let_def tame_refl split: if_splits bind_splits
      intro!: tame_upd_session dest: tame_sync_impl [OF _ assms(2)])

lemma tame_payload:
  assumes "rvrt_session_sync_wait_payload (Some p) d timeout rxf rxc env w = Some (st, rxf', rxc', w')"
    and "sessions_ok w"
  shows "tame p w w'"
  using assms(1)
  by (auto simp: rvrt_session_sync_wait_payload_def tame_refl split: if_splits bind_splits
      intro!: tame_upd_session dest: tame_sync_impl [OF _ assms(2)])

lemma tame_reset:
  assumes "rvrt_session_reset_model (Some p) timeout env w = Some (st, w')" "sessions_ok w"
  shows "tame p w w'"
  using assms(1)
  by (auto simp: rvrt_session_reset_model_def Let_def tame_refl
      split: option.splits if_splits prod.splits bind_splits
      intro!: tame_upd_session dest: tame_barrier [OF _ sessions_ok_artifact [OF assms(2)]])

lemma tame_send_frames:
  "rvrt_session_send_frames (Some p) fs n w = Some (st, w') \<Longrightarrow> tame p w w'"
  by (auto simp: rvrt_session_send_frames_def Let_def tame_refl tame_hw split: if_splits option.splits)

lemma tame_trans: "tame p w1 w2 \<Longrightarrow> tame p w2 w3 \<Longrightarrow> tame p w1 w3"
  by (simp add: tame_def)

lemma tame_send_input_loop:
  "send_input_loop rounds p v c input n ws cap w = Some (st, ws', w') \<Longrightarrow> tame p w w'"
proof (induction rounds p v c input n ws cap w rule: send_input_loop.induct)
  case (2 rounds p v c input n ws cap w)
  from "2.prems" show ?case
    by (auto simp: Let_def tame_refl split: option.splits if_splits prod.splits
        dest: tame_send_frames intro: tame_trans [OF tame_send_frames "2.IH"])
qed simp


lemma send_input_no_artifact:
  assumes "send_input_loop rounds p v c input n ws cap w = Some (st, ws', w')"
    and "se_artifact (w_session w p) = None"
  shows "w' = w"
  using assms
  by (cases rounds)
    (auto simp: Let_def rvrt_session_send_frames_def split: option.splits if_splits prod.splits)

lemma init_cases:
  "snd (rvrt_session_init r p cfg w) = w \<or>
   w_active w = None \<and> (let w' = snd (rvrt_session_init r p cfg w) in
     \<exists>q. w_active w' = None \<and> w_session w' = (w_session w)(q := zero_session) \<or>
         w_active w' = Some q \<and> live (w_session w' q) \<and> (\<forall>p. p \<noteq> q \<longrightarrow> w_session w' p = w_session w p))"
  by (auto simp: rvrt_session_init_def register_irq_def Let_def upd_hw_def live_def zero_session_def
      clear_sync_epoch_def clear_rx_barrier_def split: option.splits)

lemma sessions_ok_init:
  assumes "sessions_ok w" shows "sessions_ok (snd (rvrt_session_init r p cfg w))"
  using init_cases [of r p cfg w] assms by (auto simp: sessions_ok_def Let_def)

lemma sessions_ok_deinit:
  assumes "sessions_ok w" shows "sessions_ok (snd (rvrt_session_deinit p w))"
  using assms
  by (auto simp: rvrt_session_deinit_def Let_def sessions_ok_def upd_hw_def split: option.splits if_splits)

lemma no_open_barrier: "sessions_ok w \<Longrightarrow> \<not> bar_active (barrier_of w p)"
  by (cases "w_active w = Some p")
    (auto simp: sessions_ok_def live_def zero_session_def zero_barrier_def dest!: spec [of _ p])

lemma stray_interrupt_eq:
  assumes "sessions_ok w"
  shows "irq_point irq w = Some w \<or>
     irq_point irq w = Some (upd_hw noc_irq_disable (upd_hw noc_irq_ack w))"
  using no_open_barrier [OF assms]
  by (auto simp: irq_point_def paicore_noc_handler_def Let_def upd_hw_def split: option.split)

lemma sessions_ok_tame:
  assumes "sessions_ok w" "w' = w \<or> (\<exists>q. tame q w w' \<and> se_artifact (w_session w q) \<noteq> None)"
  shows "sessions_ok w'"
  using assms(2)
proof (elim disjE exE conjE)
  fix q assume "tame q w w'" "se_artifact (w_session w q) \<noteq> None"
  then show ?thesis using tame_ok [OF _ _ assms(1)] sessions_ok_artifact [OF assms(1)] by blast
qed (use assms(1) in simp)

lemma until_impl_ok:
  assumes "sessions_ok w" "sync_wait_until_impl p n timeout rxf rxc h ud env w = Some (st, rxf', rxc', w')"
  shows "sessions_ok w'"
proof (cases p)
  case None
  with assms show ?thesis by (simp add: sync_wait_until_impl_def)
next
  case (Some q)
  have "w' = w \<or> tame q w w' \<and> se_artifact (w_session w q) \<noteq> None"
  proof (cases "se_artifact (w_session w q) = None")
    case True
    with assms(2) Some show ?thesis
      by (auto simp: sync_wait_until_impl_def sync_wait_payload_impl_def Let_def split: if_splits)
  qed (use assms Some tame_until_impl in blast)
  then show ?thesis using assms(1) sessions_ok_tame by blast
qed

lemma send_input_timestep_ok:
  assumes "sessions_ok w" "rvrt_session_send_input_timestep rounds p v ts input n ws cap w = Some (st, ws1, w')"
  shows "sessions_ok w'"
proof -
  have "w' = w \<or> (\<exists>q ws1 v c input cap ws'. send_input_loop rounds q v c input n ws' cap w = Some (st, ws1, w'))"
    using assms(2) by (auto simp: rvrt_session_send_input_timestep_def Let_def split: option.splits if_splits bind_splits)
  then have "w' = w \<or> (\<exists>q. tame q w w' \<and> se_artifact (w_session w q) \<noteq> None)"
  proof (elim disjE exE)
    fix q ws1 v c input cap ws'
    assume "send_input_loop rounds q v c input n ws' cap w = Some (st, ws1, w')"
    from tame_send_input_loop [OF this] send_input_no_artifact [OF this]
    show ?thesis by (cases "se_artifact (w_session w q) = None") auto
  qed simp
  with assms(1) show ?thesis by (rule sessions_ok_tame)
qed

lemma reset_model_ok:
  assumes "sessions_ok w" "rvrt_session_reset_model p timeout env w = Some (st, w')"
  shows "sessions_ok w'"
proof (cases p)
  case None
  with assms show ?thesis by (simp add: rvrt_session_reset_model_def)
next
  case (Some q)
  have "w' = w \<or> tame q w w' \<and> se_artifact (w_session w q) \<noteq> None"
  proof (cases "se_artifact (w_session w q) = None")
    case True
    with assms(2) show ?thesis by (simp add: Some rvrt_session_reset_model_def)
  qed (use assms Some tame_reset in blast)
  then show ?thesis using assms(1) sessions_ok_tame by blast
qed

lemma wait_payload_ok:
  assumes "sessions_ok w" "rvrt_session_sync_wait_payload p d timeout rxf rxc env w = Some (st, rxf', rxc', w')"
  shows "sessions_ok w'"
proof (cases p)
  case None
  with assms show ?thesis by (simp add: rvrt_session_sync_wait_payload_def)
next
  case (Some q)
  have "w' = w \<or> tame q w w' \<and> se_artifact (w_session w q) \<noteq> None"
  proof (cases "se_artifact (w_session w q) = None")
    case True
    with assms(2) show ?thesis
      by (auto simp: Some rvrt_session_sync_wait_payload_def sync_wait_payload_impl_def split: if_splits)
  qed (use assms Some tame_payload in blast)
  then show ?thesis using assms(1) sessions_ok_tame by blast
qed

lemma sessions_ok_hw: "sessions_ok w \<Longrightarrow> w' = w \<or> w' = w\<lparr>w_hw := hw\<rparr> \<Longrightarrow> sessions_ok w'"
  by (auto simp: sessions_ok_def)

lemma perform_ok:
  assumes "sessions_ok w" "perform c w = Some (st, w')"
  shows "sessions_ok w'"
proof (cases c)
  case (Call_Init r p cfg)
  with assms sessions_ok_init [OF assms(1), of r p cfg] show ?thesis by simp
next
  case (Call_Deinit p)
  with assms sessions_ok_deinit [OF assms(1), of p] show ?thesis by simp
next
  case (Call_Load_Config p)
  with assms have "\<exists>hw. w' = w \<or> w' = w\<lparr>w_hw := hw\<rparr>"
    by (auto simp: rvrt_session_load_config_def Let_def split: option.splits if_splits prod.splits)
  with assms(1) show ?thesis using sessions_ok_hw by blast
next
  case (Call_Send_Frames p fs n)
  with assms have "\<exists>hw. w' = w \<or> w' = w\<lparr>w_hw := hw\<rparr>"
    by (auto simp: rvrt_session_send_frames_def Let_def split: option.splits if_splits)
  with assms(1) show ?thesis using sessions_ok_hw by blast
next
  case (Call_Send_Input rounds p v ts input n ws cap)
  with assms show ?thesis by (auto intro: send_input_timestep_ok split: bind_splits)
next
  case (Call_Reset_Model p timeout env)
  with assms show ?thesis by (auto intro: reset_model_ok)
next
  case (Call_Sync_Payload p d timeout rxf rxc env)
  with assms show ?thesis by (auto intro: wait_payload_ok split: bind_splits)
next
  case (Call_Sync_Until p n timeout rxf rxc env)
  with assms show ?thesis
    by (auto simp: rvrt_session_sync_wait_until_def intro: until_impl_ok split: bind_splits)
next
  case (Call_Sync_Handler p n timeout h ud env)
  with assms show ?thesis
    by (auto simp: rvrt_session_sync_wait_until_with_rx_handler_def intro: until_impl_ok split: option.splits bind_splits)
next
  case Stray_Interrupt
  with assms stray_interrupt_eq [OF assms(1), of True] have
    "w' = w \<or> w' = upd_hw noc_irq_disable (upd_hw noc_irq_ack w)" by auto
  with assms(1) show ?thesis by (auto simp: sessions_ok_def upd_hw_def)
next
  case (Chip_Sends ws)
  with assms show ?thesis by (auto simp: sessions_ok_def)
qed


lemma reachable_ok: "session_reachable w \<Longrightarrow> sessions_ok w"
  by (induction rule: session_reachable.induct) (simp add: sessions_ok_def, erule (1) perform_ok)

text \<open>C16.  In every reachable world at most one session owns the chip and it is live, with an
  artifact, a receive buffer and no open barrier; every other session object is zero.  While there is an
  owner every attempt to initialise a session fails and changes nothing, and an interrupt between
  two calls at most acknowledges and disables itself: it consumes no frame and touches no session,
  buffer or memory.\<close>

theorem session_exclusive_ownership:
  assumes "session_reachable w"
  shows "(if w_active w = Some p then live (w_session w p) else w_session w p = zero_session) \<and>
    (w_active w = None \<or> fst (rvrt_session_init r q cfg w) \<noteq> RVRT_SESSION_OK \<and>
       snd (rvrt_session_init r q cfg w) = w) \<and>
    (irq_point irq w = Some w \<or>
     irq_point irq w = Some (w\<lparr>w_hw := (w_hw w)\<lparr>hw_pending := 0, hw_irq_enable := 0\<rparr>\<rparr>))"
proof -
  note ok = reachable_ok [OF assms]
  have "w_active w = None \<or> fst (rvrt_session_init r q cfg w) \<noteq> RVRT_SESSION_OK \<and>
       snd (rvrt_session_init r q cfg w) = w"
    by (auto simp: rvrt_session_init_def split: option.split)
  with ok stray_interrupt_eq [OF ok, of irq] show ?thesis
    by (simp add: sessions_ok_def upd_hw_def noc_irq_defs)
qed

text \<open>The calls that would use the transport of session \<open>p\<close>.\<close>

fun transport_of :: "('u, 'm) session_call \<Rightarrow> nat option" where
  "transport_of (Call_Load_Config p) = p"
| "transport_of (Call_Send_Frames p frames n) = p"
| "transport_of (Call_Send_Input rounds p v ts input n ws cap) = p"
| "transport_of (Call_Reset_Model p timeout env) = p"
| "transport_of (Call_Sync_Payload p d timeout rxf rxc env) = p"
| "transport_of (Call_Sync_Until p n timeout rxf rxc env) = p"
| "transport_of (Call_Sync_Handler p n timeout h ud env) = p"
| "transport_of _ = None"

lemma faulted_inert:
  assumes "se_faulted (w_session w p)" "transport_of c = Some p"
  shows "\<exists>st. perform c w = Some (st, w) \<and> st \<noteq> RVRT_SESSION_OK"
  using assms
  by (cases c) (auto simp: rvrt_session_load_config_def rvrt_session_send_frames_def
      rvrt_session_send_input_timestep_def rvrt_session_reset_model_def rvrt_session_sync_wait_payload_def
      rvrt_session_sync_wait_until_def rvrt_session_sync_wait_until_with_rx_handler_def
      sync_wait_until_impl_def Let_def split: option.split)

lemma not_owner_inert:
  assumes "sessions_ok w" "w_active w = Some p" "transport_of c = Some q" "q \<noteq> p"
  shows "\<exists>st. perform c w = Some (st, w) \<and> st \<noteq> RVRT_SESSION_OK \<or> perform c w = None"
proof -
  have z: "w_session w q = zero_session" using assms by (auto simp: sessions_ok_def)
  show ?thesis
  proof (cases c)
    case (Call_Send_Input rounds q' v ts input n ws cap)
    with assms(3) z show ?thesis
      by (cases rounds; cases v; cases input; cases ws)
        (auto simp: zero_session_def rvrt_session_send_input_timestep_def rvrt_session_send_frames_def Let_def
          split: option.split)
  qed (use assms(3) z in \<open>auto simp: zero_session_def rvrt_session_load_config_def
      rvrt_session_send_frames_def rvrt_session_reset_model_def rvrt_session_sync_wait_payload_def
      rvrt_session_sync_wait_until_def rvrt_session_sync_wait_until_with_rx_handler_def
      sync_wait_until_impl_def sync_wait_payload_impl_def Let_def split: option.split\<close>)
qed


lemma fault_stays:
  assumes "session_reachable w" "se_faulted (w_session w p)" "perform c w = Some (st, w')"
  shows "if transport_of c = Some p then st \<noteq> RVRT_SESSION_OK \<and> w' = w
         else if c = Call_Deinit (Some p) then w_session w' p = zero_session \<and> w_active w' = None
         else se_faulted (w_session w' p)"
proof -
  note ok = reachable_ok [OF assms(1)]
  have p: "w_active w = Some p"
    using ok assms(2) by (auto simp: sessions_ok_def zero_session_def split: if_splits dest!: spec [of _ p])
  show ?thesis
  proof (cases "transport_of c")
    case (Some q)
    show ?thesis
    proof (cases "q = p")
      case True
      with faulted_inert [OF assms(2), of c] Some assms(3) show ?thesis by auto
    next
      case False
      from not_owner_inert [OF ok p Some False] assms(2,3) Some False show ?thesis by (cases c) auto
    qed
  next
    case None
    show ?thesis
    proof (cases c)
      case (Call_Init r q cfg)
      have "snd (rvrt_session_init r q cfg w) = w" using init_cases [of r q cfg w] p by simp
      with Call_Init assms(2,3) show ?thesis by simp
    next
      case (Call_Deinit q)
      with assms(2,3) p no_open_barrier [OF ok, of p] show ?thesis
        by (auto simp: rvrt_session_deinit_def Let_def upd_hw_def split: option.splits if_splits)
    next
      case Stray_Interrupt
      with assms(2,3) stray_interrupt_eq [OF ok, of True] show ?thesis by (auto simp: upd_hw_def)
    qed (use None assms(2,3) in \<open>auto simp: rvrt_session_load_config_def rvrt_session_send_frames_def
      rvrt_session_send_input_timestep_def rvrt_session_reset_model_def rvrt_session_sync_wait_payload_def
      rvrt_session_sync_wait_until_def rvrt_session_sync_wait_until_with_rx_handler_def
      sync_wait_until_impl_def Let_def split: option.splits\<close>)
  qed
qed

text \<open>The calls that wait for the chip, and what such a call did: it was refused without a trace, or it has
  sent its control frame, and then the session is faulted exactly when the wait failed.\<close>

fun waits_for_chip :: "('u, 'm) session_call \<Rightarrow> bool" where
  "waits_for_chip (Call_Reset_Model p timeout env) = True"
| "waits_for_chip (Call_Sync_Payload p d timeout rxf rxc env) = True"
| "waits_for_chip (Call_Sync_Until p n timeout rxf rxc env) = True"
| "waits_for_chip (Call_Sync_Handler p n timeout h ud env) = True"
| "waits_for_chip _ = False"

definition wait_failures :: "session_status set" where
  "wait_failures = {RVRT_SESSION_TIMEOUT, RVRT_SESSION_OVERFLOW, RVRT_SESSION_HARDWARE_ERROR}"

definition wait_effect :: "nat \<Rightarrow> session_status \<Rightarrow> ('u, 'm) world \<Rightarrow> ('u, 'm) world \<Rightarrow> bool" where
  "wait_effect p st w w' \<longleftrightarrow> w' = w \<and> st \<noteq> RVRT_SESSION_OK \<and> st \<notin> wait_failures \<or>
     hw_down (w_hw w') \<noteq> hw_down (w_hw w) \<and>
     se_faulted (w_session w' p) = (se_faulted (w_session w p) \<or> st \<noteq> RVRT_SESSION_OK)"

lemma wait_effect_refused: "st \<in> {RVRT_SESSION_RUNTIME_ERROR, RVRT_SESSION_FAULTED, RVRT_SESSION_SYNC_MODE_ERROR} \<Longrightarrow>
    wait_effect p st w w"
  by (auto simp: wait_effect_def wait_failures_def)

lemma wait_effect_barrier:
  assumes "run_control_barrier p f timeout sync rxf rxc h ud env w = Some (st, rxf', rxc', w')" "w_active w = Some p"
  shows "wait_effect p st w w'"
proof -
  have "w_active w = Some p \<or> w_active w = None" using assms(2) by simp
  note eff = run_control_barrier_effect [OF assms(1) this]
  then show ?thesis by (auto simp: wait_effect_def frame_words_def)
qed

lemma wait_effect_sync_fields:
  assumes "wait_effect p st w w'" "st = RVRT_SESSION_OK" "\<And>s. se_faulted (g s) = se_faulted s"
  shows "wait_effect p st w (upd_session p g w')"
  using assms by (simp add: wait_effect_def upd_session_def)

lemma sync_impl_wait:
  assumes "sync_wait_payload_impl (Some p) d timeout rxf rxc h ud env w = Some (st, rxf', rxc', w')" "sessions_ok w"
  shows "wait_effect p st w w'"
  using assms(1)
  by (auto simp: sync_wait_payload_impl_def Let_def split: option.splits if_splits prod.splits
      intro: wait_effect_refused dest: wait_effect_barrier [OF _ sessions_ok_artifact [OF assms(2)]])

lemma until_impl_wait:
  assumes "sync_wait_until_impl (Some p) n timeout rxf rxc h ud env w = Some (st, rxf', rxc', w')" "sessions_ok w"
  shows "wait_effect p st w w'"
  using assms(1)
  by (auto simp: sync_wait_until_impl_def Let_def split: if_splits bind_splits
      intro: wait_effect_refused intro!: wait_effect_sync_fields dest: sync_impl_wait [OF _ assms(2)])

lemma payload_wait:
  assumes "rvrt_session_sync_wait_payload (Some p) d timeout rxf rxc env w = Some (st, rxf', rxc', w')" "sessions_ok w"
  shows "wait_effect p st w w'"
  using assms(1)
  by (auto simp: rvrt_session_sync_wait_payload_def split: if_splits bind_splits
      intro: wait_effect_refused intro!: wait_effect_sync_fields dest: sync_impl_wait [OF _ assms(2)])

lemma reset_wait:
  assumes "rvrt_session_reset_model (Some p) timeout env w = Some (st, w')" "sessions_ok w"
  shows "wait_effect p st w w'"
  using assms(1)
  by (auto simp: rvrt_session_reset_model_def Let_def clear_sync_epoch_def
      split: option.splits if_splits prod.splits bind_splits
      intro: wait_effect_refused intro!: wait_effect_sync_fields
      dest: wait_effect_barrier [OF _ sessions_ok_artifact [OF assms(2)]])

lemma perform_wait:
  assumes "sessions_ok w" "waits_for_chip c" "transport_of c = Some p" "perform c w = Some (st, w')"
  shows "wait_effect p st w w'"
  using assms(2-4)
  by (cases c) (auto simp: rvrt_session_sync_wait_until_def rvrt_session_sync_wait_until_with_rx_handler_def
      split: option.splits bind_splits intro: wait_effect_refused reset_wait [OF _ assms(1)] payload_wait [OF _ assms(1)]
        until_impl_wait [OF _ assms(1)])

text \<open>A program: its calls one after the other.\<close>

fun perform_all :: "('u, 'm) session_call list \<Rightarrow> ('u, 'm) world \<Rightarrow> ('u, 'm) world option" where
  "perform_all [] w = Some w"
| "perform_all (c # cs) w = do { (_, w) \<leftarrow> perform c w; perform_all cs w }"

lemma fault_stays_all:
  assumes "session_reachable w" "se_faulted (w_session w p)" "Call_Deinit (Some p) \<notin> set cs" "perform_all cs w = Some w'"
  shows "session_reachable w' \<and> se_faulted (w_session w' p)"
  using assms
proof (induction cs arbitrary: w)
  case (Cons c cs)
  then obtain st w1 where w1: "perform c w = Some (st, w1)" "perform_all cs w1 = Some w'"
    by (auto split: bind_splits)
  have "se_faulted (w_session w1 p)"
    using fault_stays [OF Cons.prems(1,2) w1(1)] Cons.prems(2,3) by (auto split: if_splits)
  with Cons.IH [OF call [OF Cons.prems(1) w1(1)]] Cons.prems(3) w1(2) show ?case by simp
qed simp

text \<open>C37.  A failed wait faults its session, and the fault is final.  In every reachable world, a call that
  resets or synchronises session \<open>p\<close> and returns has faulted it exactly when it was faulted before or the
  call has sent its control frame and does not return OK; a timeout, an overflow and a hardware error are
  such failures.  From then on, whatever the program calls and the chip does, as long as the session is
  not deinitialised it stays faulted: every transport operation on it returns an error and changes nothing
  at all, so nothing is sent; and the deinitialisation of the session ends this and frees the chip.\<close>

theorem fault_is_final:
  assumes "session_reachable w" "waits_for_chip c" "transport_of c = Some p" "perform c w = Some (st, w1)"
  shows "(se_faulted (w_session w1 p) \<longleftrightarrow> se_faulted (w_session w p) \<or>
      st \<noteq> RVRT_SESSION_OK \<and> hw_down (w_hw w1) \<noteq> hw_down (w_hw w)) \<and>
    (st \<in> {RVRT_SESSION_TIMEOUT, RVRT_SESSION_OVERFLOW, RVRT_SESSION_HARDWARE_ERROR} \<longrightarrow> se_faulted (w_session w1 p)) \<and>
    (se_faulted (w_session w1 p) \<and> Call_Deinit (Some p) \<notin> set cs \<and> perform_all cs w1 = Some w2 \<longrightarrow>
       se_faulted (w_session w2 p) \<and>
       (transport_of d = Some p \<longrightarrow> (\<exists>st'. perform d w2 = Some (st', w2) \<and> st' \<noteq> RVRT_SESSION_OK)) \<and>
       (\<exists>w3. perform (Call_Deinit (Some p)) w2 = Some (RVRT_SESSION_OK, w3) \<and> w_session w3 p = zero_session \<and>
          w_active w3 = None))"
proof -
  note eff = perform_wait [OF reachable_ok [OF assms(1)] assms(2-4)]
  have final: "se_faulted (w_session w2 p) \<and>
       (transport_of d = Some p \<longrightarrow> (\<exists>st'. perform d w2 = Some (st', w2) \<and> st' \<noteq> RVRT_SESSION_OK)) \<and>
       (\<exists>w3. perform (Call_Deinit (Some p)) w2 = Some (RVRT_SESSION_OK, w3) \<and> w_session w3 p = zero_session \<and>
          w_active w3 = None)"
    if "se_faulted (w_session w1 p)" "Call_Deinit (Some p) \<notin> set cs" "perform_all cs w1 = Some w2"
  proof -
    from fault_stays_all [OF call [OF assms(1,4)] that] have w2: "session_reachable w2" "se_faulted (w_session w2 p)"
      by simp_all
    note ok = reachable_ok [OF w2(1)]
    have "w_active w2 = Some p"
      using ok w2(2) by (auto simp: sessions_ok_def zero_session_def split: if_splits dest!: spec [of _ p])
    with no_open_barrier [OF ok, of p] have "\<exists>w3. perform (Call_Deinit (Some p)) w2 = Some (RVRT_SESSION_OK, w3) \<and>
        w_session w3 p = zero_session \<and> w_active w3 = None"
      by (simp add: rvrt_session_deinit_def Let_def upd_hw_def)
    with w2(2) faulted_inert [OF w2(2), of d] show ?thesis by blast
  qed
  from eff show ?thesis using final by (auto simp: wait_effect_def wait_failures_def)
qed

text \<open>A world after a boot and an initialisation, and after a wait that timed out.\<close>

definition demo_boot :: "(unit, unit) world" where
  "demo_boot = (demo_world [])\<lparr>w_active := None, w_session := (\<lambda>_. zero_session)\<rparr>"

definition demo_config :: session_config where
  "demo_config = \<lparr>cfg_artifact = Some (0, demo_artifact), cfg_thread_index = 0, cfg_rx_frames = Some 0,
                  cfg_rx_capacity = 4\<rparr>"

lemma demo_init:
  "\<exists>w. perform (Call_Init 0 (Some 0) (Some demo_config)) demo_boot = Some (RVRT_SESSION_OK, w) \<and>
     w_active w = Some 0 \<and> se_artifact (w_session w 0) = Some (0, demo_artifact) \<and>
     se_thread_index (w_session w 0) = 0 \<and> ready 0 0 0 demo_artifact w \<and> w_clock w = 16000000"
proof -
  have "fst (rvrt_artifact_thread_runtime (Some demo_artifact) 0 (Some zero_runtime)) = RVRT_ARTIFACT_OK"
    by (simp add: rvrt_artifact_thread_runtime_def thread_at_def vector_at_def demo_defs)
  then show ?thesis
    by (simp add: rvrt_session_init_def register_irq_def demo_boot_def demo_config_def demo_world_def Let_def
        upd_hw_def zero_session_def zero_barrier_def clear_sync_epoch_def clear_rx_barrier_def ready_def
        enable_irq_def noc_irq_defs)
qed

lemma demo_boot_reachable: "session_reachable demo_boot"
  by (rule boot) (simp_all add: demo_boot_def)

theorem session_exclusive_ownership_witness:
  "\<exists>w :: (unit, unit) world. session_reachable w \<and> w_active w = Some 0 \<and>
     fst (rvrt_session_init 0 (Some 1) (Some demo_config) w) \<noteq> RVRT_SESSION_OK"
proof -
  obtain w where "perform (Call_Init 0 (Some 0) (Some demo_config)) demo_boot = Some (RVRT_SESSION_OK, w)"
    "w_active w = Some 0" using demo_init by blast
  moreover from this have "session_reachable w" using demo_boot_reachable call by blast
  ultimately show ?thesis
    using session_exclusive_ownership [of w 0 0 "Some 1" "Some demo_config" False] by auto
qed

text \<open>The wait times out; the program then synchronises again and loads the configuration.\<close>

theorem fault_is_final_witness:
  "\<exists>(w :: (unit, unit) world) w1 w2 st. session_reachable w \<and> \<not> se_faulted (w_session w 0) \<and>
     perform (Call_Sync_Until (Some 0) 5 2 (Some None) (Some 0)
       \<lparr>we_start = 0, we_polls = [\<lparr>wp_irq = False, wp_cycle = 32001, wp_irq_late = False\<rparr>]\<rparr>) w =
       Some (RVRT_SESSION_TIMEOUT, w1) \<and> se_faulted (w_session w1 0) \<and>
     perform_all [Chip_Sends [1, 2], Stray_Interrupt] w1 = Some w2 \<and> se_faulted (w_session w2 0) \<and>
     perform (Call_Load_Config (Some 0)) w2 = Some (st, w2) \<and> st \<noteq> RVRT_SESSION_OK"
proof -
  obtain w where w: "perform (Call_Init 0 (Some 0) (Some demo_config)) demo_boot = Some (RVRT_SESSION_OK, w)"
    "se_thread_index (w_session w 0) = 0" "ready 0 0 0 demo_artifact w" "w_clock w = 16000000"
    using demo_init by blast
  let ?env = "\<lparr>we_start = 0, we_polls = [\<lparr>wp_irq = False, wp_cycle = 32001, wp_irq_late = False\<rparr>]\<rparr>"
  let ?c = "Call_Sync_Until (Some 0) 5 2 (Some None) (Some 0) ?env :: (unit, unit) session_call"
  obtain f where f: "rvrt_build_sync_payload_frame (Some demo_artifact) 0 5 (Some zero_frame) =
      (RVRT_CODEC_STATUS_OK, Some f)" using demo_sync_frame [of 5] by auto
  obtain rxf rxc w1 where "run_control_barrier 0 f 2 True (Some None) (Some 0) None None ?env w =
      Some (RVRT_SESSION_TIMEOUT, rxf, rxc, w1)"
    using run_control_barrier_silent [of ?env 2 w 0 f True "Some None" "Some 0" None None] w(4)
    by (auto simp: silent_poll_def wait_limit_def)
  with f w(2,3) have "sync_wait_until_impl (Some 0) 5 2 (Some None) (Some 0) None None ?env w =
      Some (RVRT_SESSION_TIMEOUT, rxf, rxc, w1) \<or> se_sync_mode (w_session w 0) \<noteq> RVRT_SESSION_SYNC_MODE_UNSET"
    by (auto simp: sync_wait_until_impl_def sync_wait_payload_impl_def ready_def)
  moreover have "se_sync_mode (w_session w 0) = RVRT_SESSION_SYNC_MODE_UNSET"
    using w(1) by (auto simp: rvrt_session_init_def register_irq_def demo_boot_def demo_config_def Let_def
        upd_hw_def zero_session_def clear_sync_epoch_def split: if_splits)
  ultimately have wait: "perform ?c w = Some (RVRT_SESSION_TIMEOUT, w1)"
    by (simp add: rvrt_session_sync_wait_until_def)
  have r: "session_reachable w" using w(1) demo_boot_reachable call by blast
  let ?up = "w1\<lparr>w_hw := (w_hw w1)\<lparr>hw_up := hw_up (w_hw w1) @ [1, 2], hw_pending := 1\<rparr>\<rparr>"
  have "sessions_ok ?up" using reachable_ok [OF call [OF r wait]] by (simp add: sessions_ok_def)
  from stray_interrupt_eq [OF this, of True] obtain w2 where
    w2: "perform_all [Chip_Sends [1, 2], Stray_Interrupt] w1 = Some w2" by auto
  have "waits_for_chip ?c" "transport_of ?c = Some 0" by simp_all
  from fault_is_final [OF r this wait, of "[Chip_Sends [1, 2], Stray_Interrupt]" w2 "Call_Load_Config (Some 0)"] w2
  obtain st where "se_faulted (w_session w1 0)" "se_faulted (w_session w2 0)"
    "perform (Call_Load_Config (Some 0)) w2 = Some (st, w2)" "st \<noteq> RVRT_SESSION_OK" by auto
  moreover have "\<not> se_faulted (w_session w 0)" using w(3) by (simp add: ready_def)
  ultimately show ?thesis using r wait w2 by blast
qed

end
