(* ===== verification/Session_Epoch.thy ===== *)
theory Session_Epoch
  imports Session_Calls
begin

text \<open>
  What the applications of a session share: claiming and releasing the chip, a live session on thread 0
  of an artifact, and the barriers of one synchronization epoch, from the model reset on.
\<close>

section \<open>Claiming and releasing\<close>

text \<open>The chip is free, or owned by this session with no open barrier.\<close>

definition claimable :: "nat \<Rightarrow> ('u, 'm) world \<Rightarrow> bool" where
  "claimable p w \<longleftrightarrow> w_active w = None \<or> w_active w = Some p \<and> \<not> bar_active (barrier_of w p)"

text \<open>The chip is free, the session cleared, nothing was sent or received and no memory written.\<close>

definition cleared :: "nat \<Rightarrow> ('u, 'm) world \<Rightarrow> ('u, 'm) world \<Rightarrow> bool" where
  "cleared p w w' \<longleftrightarrow> w_active w' = None \<and> w_session w' p = zero_session \<and>
     (\<forall>q. q \<noteq> p \<longrightarrow> w_session w' q = w_session w q) \<and> hw_down (w_hw w') = hw_down (w_hw w) \<and>
     hw_up (w_hw w') = hw_up (w_hw w) \<and>
     w_buf w' = w_buf w \<and> w_mem w' = w_mem w \<and> w_clock w' = w_clock w"

lemma deinit_claimable:
  assumes "claimable p w"
  shows "\<exists>w'. rvrt_session_deinit (Some p) w = (RVRT_SESSION_OK, w') \<and> cleared p w w'"
  using assms
  by (auto simp: claimable_def rvrt_session_deinit_def cleared_def Let_def upd_hw_def noc_irq_defs)

lemma deinit_busy: "\<not> claimable p w \<Longrightarrow> rvrt_session_deinit (Some p) w = (RVRT_SESSION_BUSY, w)"
  by (auto simp: claimable_def rvrt_session_deinit_def)

lemma cleared_trans: "cleared p w1 w2 \<Longrightarrow> cleared p w2 w3 \<Longrightarrow> cleared p w1 w3"
  by (simp add: cleared_def)

lemma cleared_set: "cleared p w w' \<Longrightarrow> cleared p w (set_session p zero_session w')"
  by (simp add: cleared_def)

text \<open>A world in which the session owns the chip and nothing else has changed.\<close>

definition claims ::
    "nat \<Rightarrow> nat \<times> rvrt_artifact \<Rightarrow> nat option \<Rightarrow> u32 \<Rightarrow> ('u, 'm) world \<Rightarrow> ('u, 'm) world \<Rightarrow> bool" where
  "claims p art buf cap w w' \<longleftrightarrow> w_active w' = Some p \<and> se_artifact (w_session w' p) = Some art \<and>
     se_thread_index (w_session w' p) = 0 \<and> se_rx_frames (w_session w' p) = buf \<and>
     se_rx_capacity (w_session w' p) = cap \<and> \<not> se_faulted (w_session w' p) \<and>
     \<not> bar_active (barrier_of w' p) \<and> hw_mstatus (w_hw w') AND MSTATUS_MIE \<noteq> 0 \<and>
     (\<forall>q. q \<noteq> p \<longrightarrow> w_session w' q = w_session w q) \<and> hw_down (w_hw w') = hw_down (w_hw w) \<and>
     hw_up (w_hw w') = hw_up (w_hw w) \<and>
     w_buf w' = w_buf w \<and> w_mem w' = w_mem w \<and> w_clock w' = w_clock w"

lemma mie_set: "(x OR 8) AND 8 \<noteq> (0 :: u32)"
proof -
  have "(x OR 8) AND 8 = (8 :: u32)" by (rule bit_word_eqI) (auto simp: bit_simps)
  then show ?thesis by simp
qed

lemma session_init_claims:
  assumes "w_active w = None" "w_session w p = zero_session"
    and "cfg_artifact c = Some art" "cfg_thread_index c = 0" "cfg_rx_frames c = buf"
      "cfg_rx_capacity c = cap"
  shows "\<exists>st w'. rvrt_session_init rr (Some p) (Some c) w = (st, w') \<and>
     (if st = RVRT_SESSION_OK then claims p art buf cap w w' else cleared p w w')"
  using assms mie_set
  by (auto simp: rvrt_session_init_def register_irq_def Let_def upd_hw_def claims_def cleared_def
      clear_sync_epoch_def clear_rx_barrier_def noc_irq_defs enable_irq_def zero_session_def)

lemma claimed_sent: "claims p art buf cap w w1 \<Longrightarrow> sent [] w1 w2 \<Longrightarrow> claims p art buf cap w w2"
  by (auto simp: claims_def sent_def)

lemma claimed_idle: "claims p art buf cap w w1 \<Longrightarrow> idle p w1"
  by (simp add: claims_def idle_def)

lemma claimed_cleared: "cleared p w w1 \<Longrightarrow> claims p art buf cap w1 w2 \<Longrightarrow> claims p art buf cap w w2"
  by (simp add: cleared_def claims_def)


section \<open>Barriers of a timeline\<close>

definition root_ok :: "rvrt_artifact \<Rightarrow> u32 \<Rightarrow> bool" where
  "root_ok a t \<longleftrightarrow>
     (case rvrt_artifact_thread_root_core_offset (Some a) t (Some zero_core_offset) of
        (st, Some c) \<Rightarrow> st = RVRT_ARTIFACT_OK \<and> dest_ok c zero_copy_count
      | _ \<Rightarrow> False)"

text \<open>The control frames of a thread.\<close>

definition sync_frame :: "rvrt_artifact \<Rightarrow> u32 \<Rightarrow> u32 \<Rightarrow> rvrt_frame" where
  "sync_frame a t d = the (snd (rvrt_build_sync_payload_frame (Some a) t d (Some zero_frame)))"

definition init_frame :: "rvrt_artifact \<Rightarrow> u32 \<Rightarrow> rvrt_frame" where
  "init_frame a t = the (snd (rvrt_build_init_frame (Some a) t (Some zero_frame)))"

lemma control_frame_built:
  assumes "root_ok a t" "payload \<le> FC_CTRL_PAYLOAD_MASK"
  shows "\<exists>f. build_control_frame (Some a) t header payload (Some f0) = (RVRT_CODEC_STATUS_OK, Some f)"
proof -
  from assms(1) obtain c where
    "rvrt_artifact_thread_root_core_offset (Some a) t (Some zero_core_offset) = (RVRT_ARTIFACT_OK, Some c)"
    "dest_ok c zero_copy_count"
    by (auto simp: root_ok_def split: prod.splits option.splits)
  with assms(2) show ?thesis by (simp add: build_control_frame_def frame_dest_eq)
qed

lemma sync_frame_built:
  "root_ok a t \<Longrightarrow> d \<le> FC_CTRL_PAYLOAD_MASK \<Longrightarrow>
   rvrt_build_sync_payload_frame (Some a) t d (Some zero_frame) = (RVRT_CODEC_STATUS_OK, Some (sync_frame a t d))"
  using control_frame_built [of a t d FC_HDR_SYNC zero_frame]
  by (auto simp: sync_frame_def rvrt_build_sync_payload_frame_def)

lemma init_frame_built:
  "root_ok a t \<Longrightarrow>
   rvrt_build_init_frame (Some a) t (Some zero_frame) = (RVRT_CODEC_STATUS_OK, Some (init_frame a t))"
  using control_frame_built [of a t 0 FC_HDR_INIT zero_frame]
  by (auto simp: init_frame_def rvrt_build_init_frame_def)

text \<open>A ready session on thread 0 of the runner's artifact.\<close>

definition live_at :: "nat \<Rightarrow> nat \<Rightarrow> rvrt_artifact \<Rightarrow> u32 \<Rightarrow> u32 \<Rightarrow> ('u, 'm) world \<Rightarrow> bool" where
  "live_at p buf a cap clock w \<longleftrightarrow> ready p buf p a w \<and> se_thread_index (w_session w p) = 0 \<and>
     se_rx_capacity (w_session w p) = cap \<and> hw_mstatus (w_hw w) AND MSTATUS_MIE \<noteq> 0 \<and> w_clock w = clock"

text \<open>The timeline of the epoch: not begun, or at a target.\<close>

definition epoch_at :: "nat \<Rightarrow> u32 \<Rightarrow> ('u, 'm) world \<Rightarrow> bool" where
  "epoch_at p n w \<longleftrightarrow>
     (if n = 0 then se_sync_mode (w_session w p) = RVRT_SESSION_SYNC_MODE_UNSET else timeline_at p n w)"

definition env_ok :: "u32 \<Rightarrow> u32 \<Rightarrow> wait_env \<Rightarrow> bool" where
  "env_ok clock timeout env \<longleftrightarrow>
     (\<exists>qs poll rest. we_polls env = qs @ poll # rest \<and> wp_irq poll \<and>
        list_all (\<lambda>q. \<not> wp_irq q \<and> \<not> wp_cycle q - we_start env > ucast (clock div 1000) * ucast timeout) qs)"

lemma env_interrupted: "w_clock w = clock \<Longrightarrow> interrupted_env timeout env w = env_ok clock timeout env"
  by (simp add: interrupted_env_def env_ok_def wait_limit_def)

definition barrier_frames :: "rvrt_frame list \<times> rvrt_frame \<Rightarrow> bool" where
  "barrier_frames b \<longleftrightarrow> list_all (\<lambda>f. \<not> rvrt_frame_is_complete (Some f)) (fst b) \<and>
     rvrt_frame_is_complete (Some (snd b))"

definition script_words :: "(rvrt_frame list \<times> rvrt_frame) list \<Rightarrow> u32 list" where
  "script_words bs = concat (map (\<lambda>b. up_words (fst b @ [snd b])) bs)"

lemma answers_script:
  assumes "hw_up (w_hw w) = script_words (b # bs) @ rest" "barrier_frames b" "live_at p buf a cap clock w"
    and "env_ok clock timeout env"
  shows "answers timeout env w (fst b) (snd b) (script_words bs @ rest)"
  using assms by (simp add: answers_def script_words_def barrier_frames_def live_at_def env_interrupted)

text \<open>A timeline barrier, with a handler or with the out parameters, is its control barrier.\<close>

lemma until_of_barrier:
  assumes live: "live_at p buf a cap clock w" and "root_ok a 0"
    and at: "epoch_at p prev w" "prev < target" "target \<le> FC_CTRL_PAYLOAD_MASK"
    and run: "run_control_barrier p (sync_frame a 0 (target - prev)) timeout True (map_option (\<lambda>_. None) rxf)
       (map_option (\<lambda>_. 0) rxc) h ud env w = Some (st, rxf', rxc', w1)"
    and out: "rxf \<noteq> None \<and> rxc \<noteq> None \<or> (\<exists>f. h = Some f)"
  shows "\<exists>w'. sync_wait_until_impl (Some p) target timeout rxf rxc h ud env w = Some (st, rxf', rxc', w') \<and>
     w_mem w' = w_mem w1 \<and> w_buf w' = w_buf w1 \<and> hw_up (w_hw w') = hw_up (w_hw w1) \<and>
     hw_down (w_hw w') = hw_down (w_hw w) @ frame_words (sync_frame a 0 (target - prev)) \<and>
     (st = RVRT_SESSION_OK \<and> length (w_buf w1 buf) = length (w_buf w buf) \<longrightarrow>
        epoch_at p target w' \<and> live_at p buf a cap clock w')"
proof -
  let ?d = "target - prev"
  have "prev \<le> target" using at(2) by simp
  from order.trans [OF word_sub_le [OF this] at(3)] have "?d \<le> FC_CTRL_PAYLOAD_MASK" .
  from sync_frame_built [OF assms(2) this] have
    f: "rvrt_build_sync_payload_frame (Some a) 0 ?d (Some zero_frame) = (RVRT_CODEC_STATUS_OK, Some (sync_frame a 0 ?d))" .
  have rdy: "ready p buf p a w" "se_thread_index (w_session w p) = 0" using live by (simp_all add: live_at_def)
  have "w_active w = Some p \<or> w_active w = None" using rdy(1) by (simp add: ready_def)
  note eff = run_control_barrier_effect [OF run this]
  have impl: "sync_wait_payload_impl (Some p) ?d timeout rxf rxc h ud env w = Some (st, rxf', rxc', w1)"
    using rdy f run out
    by (cases rxf; cases rxc) (auto simp: sync_wait_payload_impl_def ready_def)
  have d: "(if se_sync_mode (w_session w p) = RVRT_SESSION_SYNC_MODE_TIMELINE
      then target - se_completed_timesteps (w_session w p) else target) = ?d"
    using at(1) by (auto simp: epoch_at_def timeline_at_def split: if_splits)
  have "sync_wait_until_impl (Some p) target timeout rxf rxc h ud env w =
      Some (st, rxf', rxc', if st = RVRT_SESSION_OK
        then upd_session p (\<lambda>s. s\<lparr>se_sync_mode := RVRT_SESSION_SYNC_MODE_TIMELINE,
                                  se_completed_timesteps := target\<rparr>) w1 else w1)"
    using rdy(1) at(1,2) impl unfolding sync_wait_until_impl_def Let_def d
    by (auto simp: ready_def epoch_at_def timeline_at_def not_le split: if_splits)
  moreover have "target \<noteq> 0" using at(2) by auto
  ultimately show ?thesis
    using eff live by (auto simp: epoch_at_def timeline_at_def live_at_def ready_def upd_defs)
qed

lemma sync_handled:
  assumes "live_at p buf a cap clock w" "root_ok a 0" "epoch_at p prev w" "prev < target" "target \<le> FC_CTRL_PAYLOAD_MASK"
    and "answers timeout env w fs c rest"
    and "handler_fold h ud fs (RVRT_SESSION_OK, w_mem w) = Some (st, m)"
  shows "\<exists>w'. rvrt_session_sync_wait_until_with_rx_handler (Some p) target timeout (Some h) ud env w = Some (st, w') \<and>
     w_mem w' = m \<and> w_buf w' = w_buf w \<and> hw_up (w_hw w') = rest \<and>
     hw_down (w_hw w') = hw_down (w_hw w) @ frame_words (sync_frame a 0 (target - prev)) \<and>
     (st = RVRT_SESSION_OK \<longrightarrow> epoch_at p target w' \<and> live_at p buf a cap clock w')"
proof -
  have "ready p buf p a w" using assms(1) by (simp add: live_at_def)
  from barrier_handles [OF this assms(6,7), of "sync_frame a 0 (target - prev)" True None None]
  obtain w1 where run: "run_control_barrier p (sync_frame a 0 (target - prev)) timeout True None None (Some h) ud env w =
      Some (st, None, None, w1)" "w_mem w1 = m" "w_buf w1 = w_buf w" "hw_up (w_hw w1) = rest"
    by auto
  from until_of_barrier [OF assms(1-5), of timeout None None "Some h" ud env st None None w1] run
  show ?thesis by (auto simp: rvrt_session_sync_wait_until_with_rx_handler_def)
qed

lemma sync_collected:
  assumes "live_at p buf a cap clock w" "root_ok a 0" "epoch_at p prev w" "prev < target" "target \<le> FC_CTRL_PAYLOAD_MASK"
    and "answers timeout env w fs c rest" "length fs < unat cap"
  shows "\<exists>w' later. rvrt_session_sync_wait_until (Some p) target timeout (Some x) (Some y) env w =
       Some (RVRT_SESSION_OK, Some (Some buf), Some (of_nat (length fs + 1)), w') \<and>
     w_buf w' buf = (fs @ [c]) @ later \<and> hw_up (w_hw w') = rest \<and> w_mem w' = w_mem w \<and>
     hw_down (w_hw w') = hw_down (w_hw w) @ frame_words (sync_frame a 0 (target - prev)) \<and>
     epoch_at p target w' \<and> live_at p buf a cap clock w'"
proof -
  have rdy: "ready p buf p a w" "length fs < unat (se_rx_capacity (w_session w p))"
    using assms(1,7) by (simp_all add: live_at_def)
  from barrier_collects [OF rdy(1) assms(6) rdy(2), of "sync_frame a 0 (target - prev)" True None 0]
  obtain w1 where run: "run_control_barrier p (sync_frame a 0 (target - prev)) timeout True (Some None) (Some 0) None None env w =
      Some (RVRT_SESSION_OK, Some (Some buf), Some (of_nat (length fs + 1)), w1)"
    "take (length fs + 1) (w_buf w1 buf) = fs @ [c]" "hw_up (w_hw w1) = rest"
    "length (w_buf w1 buf) = length (w_buf w buf)" "w_mem w1 = w_mem w" by blast
  then have buf: "w_buf w1 buf = (fs @ [c]) @ drop (length fs + 1) (w_buf w1 buf)"
    by (metis append_take_drop_id)
  from until_of_barrier [OF assms(1-5), of timeout "Some x" "Some y" None None env] run
  obtain w' where "rvrt_session_sync_wait_until (Some p) target timeout (Some x) (Some y) env w =
      Some (RVRT_SESSION_OK, Some (Some buf), Some (of_nat (length fs + 1)), w')"
    "w_mem w' = w_mem w1" "w_buf w' = w_buf w1" "hw_up (w_hw w') = hw_up (w_hw w1)"
    "hw_down (w_hw w') = hw_down (w_hw w) @ frame_words (sync_frame a 0 (target - prev))"
    "epoch_at p target w'" "live_at p buf a cap clock w'"
    unfolding rvrt_session_sync_wait_until_def by (auto simp: option.map)
  with run(3,5) buf show ?thesis by auto
qed


lemma discard_all: "handler_fold discard_reset_frame ud fs (RVRT_SESSION_OK, m) = Some (RVRT_SESSION_OK, m)"
  by (induction fs) (simp_all add: discard_reset_frame_def)

lemma reset_handled:
  assumes "live_at p buf a cap clock w" "root_ok a 0" "answers timeout env w fs c rest"
  shows "\<exists>w'. rvrt_session_reset_model (Some p) timeout env w = Some (RVRT_SESSION_OK, w') \<and>
     w_mem w' = w_mem w \<and> w_buf w' = w_buf w \<and> hw_up (w_hw w') = rest \<and>
     hw_down (w_hw w') = hw_down (w_hw w) @ frame_words (init_frame a 0) \<and>
     epoch_at p 0 w' \<and> live_at p buf a cap clock w'"
proof -
  have rdy: "ready p buf p a w" "se_thread_index (w_session w p) = 0" using assms(1) by (simp_all add: live_at_def)
  from barrier_handles [OF rdy(1) assms(3) discard_all, of "init_frame a 0" False None None None]
  obtain w1 where run: "run_control_barrier p (init_frame a 0) timeout False None None (Some discard_reset_frame) None env w =
      Some (RVRT_SESSION_OK, None, None, w1)" "w_mem w1 = w_mem w" "w_buf w1 = w_buf w" "hw_up (w_hw w1) = rest"
    by auto
  have "w_active w = Some p \<or> w_active w = None" using rdy(1) by (simp add: ready_def)
  note eff = run_control_barrier_effect [OF run(1) this]
  have "rvrt_session_reset_model (Some p) timeout env w = Some (RVRT_SESSION_OK, upd_session p clear_sync_epoch w1)"
    using rdy init_frame_built [OF assms(2)] run(1) by (simp add: rvrt_session_reset_model_def ready_def)
  then show ?thesis
    using run(2-4) eff assms(1)
    by (auto simp: epoch_at_def live_at_def ready_def upd_defs clear_sync_epoch_def)
qed


lemma sent_up: "sent fs w w' \<Longrightarrow> hw_up (w_hw w') = hw_up (w_hw w)"
  by (auto simp: sent_def)

lemma live_sent: "sent fs w w' \<Longrightarrow> live_at p buf a cap clock w' = live_at p buf a cap clock w"
  by (auto simp: live_at_def ready_def sent_def)

lemma live_buf: "length ws = length (w_buf w buf) \<Longrightarrow>
  live_at p buf a cap clock (w\<lparr>w_buf := (w_buf w)(buf := ws)\<rparr>) = live_at p buf a cap clock w"
  by (auto simp: live_at_def ready_def)

lemma live_mem [simp]: "live_at p buf a cap clock (w\<lparr>w_mem := m\<rparr>) = live_at p buf a cap clock w"
  by (auto simp: live_at_def ready_def)

lemma epoch_sent: "sent fs w w' \<Longrightarrow> epoch_at p n w' = epoch_at p n w"
  by (simp add: epoch_at_def timeline_at_def sent_same)


section \<open>The entries of an input\<close>

text \<open>The entries of a view.\<close>

definition entries_of :: "rvrt_artifact_input_mapping_view \<Rightarrow> fbs_InputEntry list" where
  "entries_of v = (case iv_entries v of None \<Rightarrow> [] | Some es \<Rightarrow> map the (take (unat (iv_entry_count v)) es))"

lemma input_frames_cong:
  "(\<And>e. e \<in> set es \<Longrightarrow> xs ! unat (ie_elem_idx e) = ys ! unat (ie_elem_idx e)) \<Longrightarrow>
   input_frames ts xs es = input_frames ts ys es"
  by (induction es) (simp_all split: option.split prod.split cong: if_cong)

text \<open>Whether an input can be encoded does not depend on the timestep.\<close>

lemma input_status: "fst (input_frames ts input es) = fst (input_frames ts' input es)"
  by (induction es) (auto simp: Let_def split: option.split prod.split)

end
