(* ===== verification/Session_Any.thy ===== *)
theory Session_Any
  imports Session_Epoch
begin

text \<open>
  Barriers with a receive handler in an arbitrary environment: whatever words the chip sends, whenever the
  interrupt strikes and whatever the cycle counter reads, a barrier that returns has kept the memory in the
  order of its handler; and it does return when the counter passes the limit at some poll and, if the
  interrupt may strike, the uplink holds the completion the service routine waits for.
\<close>

section \<open>What every barrier keeps\<close>

context rx_sink begin

definition sinking :: "nat \<Rightarrow> ('u, 'm) world \<Rightarrow> bool" where
  "sinking p w \<longleftrightarrow> bar_handler (barrier_of w p) = Some h \<and> bar_user_data (barrier_of w p) = ud \<and> good (w_mem w)"

lemma sinking_hw [simp]: "sinking p (w\<lparr>w_hw := hw\<rparr>) = sinking p w" "sinking p (upd_hw g w) = sinking p w"
  by (simp_all add: sinking_def upd_hw_def)

lemma sinking_receive:
  assumes "sinking p w" "receive_rx_barrier_frame p f w = Some w'"
  shows "sinking p w' \<and> w_buf w' = w_buf w"
  using assms accepts [of "w_mem w" f]
  by (auto simp: sinking_def receive_rx_barrier_frame_def Let_def upd_defs split: if_splits)

lemma sinking_rx_loop: "noc_rx_loop p w = Some w' \<Longrightarrow> sinking p w \<Longrightarrow> sinking p w' \<and> w_buf w' = w_buf w"
proof (induction p w rule: noc_rx_loop.induct)
  case (1 p w)
  show ?case
  proof (cases "bar_completed (barrier_of w p)")
    case True
    with 1(2,3) show ?thesis by (simp add: noc_rx_loop_completed)
  next
    case False
    with 1(2) obtain hi lo ws where up: "hw_up (w_hw w) = hi # lo # ws"
      by (subst (asm) noc_rx_loop.simps) (auto simp: noc_read_eq split: list.splits)
    let ?f = "\<lparr>fr_high = hi, fr_low = lo\<rparr>"
    from 1(2) False up obtain w1 where
      w1: "receive_rx_barrier_frame p ?f (set_up ws w) = Some w1" "noc_rx_loop p w1 = Some w'"
      by (subst (asm) noc_rx_loop.simps) (auto simp: noc_read_eq split: option.splits)
    have read: "noc_fifo_read_frame_words (Some 0) (Some 0) (w_hw w) =
        Some (0, Some hi, Some lo, (w_hw w)\<lparr>hw_up := ws\<rparr>)" by (simp add: noc_read_eq up)
    have "sinking p (set_up ws w)" using 1(3) by simp
    note keep = sinking_receive [OF this w1(1)]
    from "1.IH" [OF False read refl refl refl, of w1] w1 keep show ?thesis by simp
  qed
qed

lemma sinking_irq_point:
  assumes "irq_point b w = Some w'" "sinking p w" "w_active w = Some p"
  shows "sinking p w' \<and> w_buf w' = w_buf w \<and> w_active w' = Some p"
proof (cases "w' = w")
  case False
  then have run: "paicore_noc_handler w = Some w'" using assms(1) by (auto simp: irq_point_def split: if_splits)
  let ?w = "upd_hw noc_irq_disable (upd_hw noc_irq_ack w)"
  have w: "sinking p ?w" "w_active ?w = Some p" "w_buf ?w = w_buf w"
    using assms(2,3) by (simp_all add: upd_hw_def sinking_def)
  with run assms(3) have "w' = ?w \<or> noc_rx_loop p ?w = Some w'"
    by (auto simp: paicore_noc_handler_def Let_def split: if_splits)
  with w sinking_rx_loop [of p ?w w'] same_active [OF same_rx_loop [of p ?w w']] show ?thesis by auto
qed (use assms in simp)

lemma sinking_finish: "sinking p w \<Longrightarrow> good (w_mem (snd (wait_rx_finish p w))) \<and> w_buf (snd (wait_rx_finish p w)) = w_buf w"
  by (simp add: wait_rx_finish_eq upd_defs sinking_def)

lemma sinking_wait_loop:
  "wait_rx_loop p start limit polls w = Some (st, w') \<Longrightarrow> sinking p w \<Longrightarrow> w_active w = Some p \<Longrightarrow>
   good (w_mem w') \<and> w_buf w' = w_buf w"
proof (induction polls arbitrary: w)
  case (Cons poll polls)
  from Cons.prems(1) obtain w1 where w1: "irq_point (wp_irq poll) w = Some w1" by (auto split: option.splits)
  note k1 = sinking_irq_point [OF w1 Cons.prems(2,3)]
  consider "bar_completed (barrier_of w1 p)"
    | "\<not> bar_completed (barrier_of w1 p)" "wp_cycle poll - start > limit"
    | "\<not> bar_completed (barrier_of w1 p)" "\<not> wp_cycle poll - start > limit" by blast
  then show ?case
  proof cases
    case 1
    with Cons.prems(1) w1 have "w' = snd (wait_rx_finish p w1)" by (simp add: prod_eq_iff)
    then show ?thesis using sinking_finish [of p w1] k1 by simp
  next
    case 2
    with Cons.prems(1) w1 obtain w2 where w2: "irq_point (wp_irq_late poll) w1 = Some w2"
      by (auto split: option.splits)
    note k2 = sinking_irq_point [OF w2, of p]
    let ?w = "upd_hw noc_irq_disable w2"
    from Cons.prems(1) w1 2 w2 have "w' = snd (wait_rx_finish p ?w) \<or>
        w' = upd_barrier p (\<lambda>b. b\<lparr>bar_active := False, bar_hardware_error := True\<rparr>) ?w"
      by (auto simp: Let_def prod_eq_iff split: if_splits)
    moreover have "sinking p ?w" "w_buf ?w = w_buf w" using k1 k2 by (simp_all add: upd_hw_def sinking_def)
    ultimately show ?thesis using sinking_finish [of p ?w] by (auto simp: sinking_def upd_defs)
  next
    case 3
    with Cons.prems(1) w1 have "wait_rx_loop p start limit polls w1 = Some (st, w')" by simp
    from Cons.IH [OF this] k1 show ?thesis by simp
  qed
qed simp

lemma barrier_keeps:
  assumes "run_control_barrier p f timeout sync rxf rxc (Some h) ud env w = Some (st, rxf', rxc', w')"
    and "w_active w = Some p" "good (w_mem w)"
  shows "good (w_mem w') \<and> w_buf w' = w_buf w"
proof -
  let ?w = "armed p (Some h) ud f 1 w"
  from assms(1) obtain w1 where w1: "wait_rx_barrier p timeout env ?w = Some (st, w1)"
    and w': "w' = (if st \<noteq> RVRT_SESSION_OK then
        upd_session p (\<lambda>s. s\<lparr>se_faulted := True\<rparr>)
         (upd_barrier p (\<lambda>b. b\<lparr>bar_active := False, bar_handler := None, bar_user_data := None\<rparr>)
           (upd_hw noc_irq_disable w1)) else w1)"
    unfolding run_control_barrier_def Let_def start_and_send by (auto split: bind_splits)
  have "sinking p ?w" "w_active ?w = Some p" "w_buf ?w = w_buf w"
    using assms(2,3) by (simp_all add: sinking_def armed_def armed_barrier_def)
  with sinking_wait_loop [OF w1 [unfolded wait_rx_barrier_def Let_def]] show ?thesis by (simp add: w' upd_defs)
qed

end


section \<open>When a barrier returns\<close>

text \<open>The uplink holds at least \<open>n\<close> barriers of complete frames.\<close>

definition stocked :: "nat \<Rightarrow> noc_hw \<Rightarrow> bool" where
  "stocked n hw \<longleftrightarrow> (\<exists>bs rest. hw_up hw = script_words bs @ rest \<and> list_all barrier_frames bs \<and> n \<le> length bs)"

lemma stocked_mono: "stocked n hw \<Longrightarrow> k \<le> n \<Longrightarrow> stocked k hw"
  unfolding stocked_def by (meson order.trans)

lemma stocked_up: "hw_up hw' = hw_up hw \<Longrightarrow> stocked n hw' = stocked n hw"
  by (simp add: stocked_def)

lemma stocked_0: "stocked 0 hw"
  unfolding stocked_def by (rule exI [of _ "[]"], rule exI [of _ "hw_up hw"]) (simp add: script_words_def)

text \<open>A wait in which the counter passes the limit, and one in which the interrupt may strike.\<close>

definition wait_ends :: "u32 \<Rightarrow> u32 \<Rightarrow> wait_env \<Rightarrow> bool" where
  "wait_ends clock timeout env \<longleftrightarrow>
     (\<exists>poll \<in> set (we_polls env). wp_cycle poll - we_start env > ucast (clock div 1000) * ucast timeout)"

definition noisy :: "wait_env \<Rightarrow> bool" where
  "noisy env \<longleftrightarrow> \<not> list_all silent_poll (we_polls env)"

definition noisy_waits :: "wait_env list \<Rightarrow> nat" where
  "noisy_waits envs = length (filter noisy envs)"

lemma noisy_waits_simps [simp]: "noisy_waits [] = 0" "noisy_waits (e # es) = of_bool (noisy e) + noisy_waits es"
  "noisy_waits (es @ es') = noisy_waits es + noisy_waits es'"
  by (simp_all add: noisy_waits_def)

context rx_sink begin

text \<open>The service routine, once: it reads exactly one barrier.\<close>

lemma irq_point_total:
  assumes "sinking p w" "w_active w = Some p" "bar_active (barrier_of w p)" "\<not> bar_completed (barrier_of w p)"
    and "stocked (of_bool b + n) (w_hw w)"
  shows "\<exists>w'. irq_point b w = Some w' \<and> (w' = w \<or> bar_completed (barrier_of w' p) \<and> stocked n (w_hw w'))"
proof (cases "b \<and> noc_irq_is_enabled (w_hw w) \<and> hw_mstatus (w_hw w) AND MSTATUS_MIE \<noteq> 0")
  case False
  then show ?thesis by (auto simp: irq_point_def)
next
  case True
  let ?w = "upd_hw noc_irq_disable (upd_hw noc_irq_ack w)"
  from assms(5) True obtain bs rest where up: "hw_up (w_hw w) = script_words bs @ rest" "list_all barrier_frames bs"
    "Suc n \<le> length bs" by (auto simp: stocked_def)
  then obtain b0 bs' where bs: "bs = b0 # bs'" by (cases bs) auto
  have run: "irq_point b w = noc_rx_loop p ?w"
    using True assms(2,3) by (simp add: irq_point_def paicore_noc_handler_def Let_def upd_hw_def)
  have w: "sinking p ?w" "\<not> bar_completed (barrier_of ?w p)" "bar_handler (barrier_of ?w p) = Some h"
    "bar_user_data (barrier_of ?w p) = ud"
    "hw_up (w_hw ?w) = up_words (fst b0 @ [snd b0]) @ script_words bs' @ rest"
    using assms(1,4) up(1) by (simp_all add: upd_hw_def noc_irq_defs sinking_def bs script_words_def)
  have b0: "list_all (\<lambda>f. \<not> rvrt_frame_is_complete (Some f)) (fst b0)" "rvrt_frame_is_complete (Some (snd b0))"
    using up(2) by (simp_all add: bs barrier_frames_def)
  have "good (w_mem ?w)" using w(1) by (simp add: sinking_def)
  then have "\<exists>st m. handler_fold h ud (fst b0) (bar_handler_status (barrier_of ?w p), w_mem ?w) = Some (st, m) \<and> good m"
    by (intro fold_total) simp
  then obtain st m where "handler_fold h (bar_user_data (barrier_of ?w p)) (fst b0)
      (bar_handler_status (barrier_of ?w p), w_mem ?w) = Some (st, m)" unfolding w(4) by blast
  from noc_rx_loop_handles [OF w(2,3,5) b0 this]
  have "noc_rx_loop p ?w = Some (upd_barrier p (\<lambda>b. b\<lparr>bar_handler_status := st, bar_completed := True\<rparr>)
      ((set_up (script_words bs' @ rest) ?w)\<lparr>w_mem := m\<rparr>))" (is "_ = Some ?w'") .
  moreover have "bar_completed (barrier_of ?w' p)" "hw_up (w_hw ?w') = script_words bs' @ rest"
    by (simp_all add: upd_defs)
  moreover have "stocked n (w_hw ?w')"
    unfolding stocked_def by (rule exI [of _ bs'], rule exI [of _ rest]) (use up bs calculation(3) in simp)
  ultimately show ?thesis unfolding run by blast
qed

lemma stocked_finish: "stocked n (w_hw w) \<Longrightarrow> wait_rx_finish p w = (st, w') \<Longrightarrow> stocked n (w_hw w')"
  by (rule stocked_up [THEN iffD2, of _ "w_hw w"]) (auto simp: wait_rx_finish_eq upd_defs noc_irq_defs)

lemma wait_loop_total:
  "\<exists>poll \<in> set polls. wp_cycle poll - start > limit \<Longrightarrow> sinking p w \<Longrightarrow> w_active w = Some p \<Longrightarrow>
   bar_active (barrier_of w p) \<Longrightarrow> \<not> bar_completed (barrier_of w p) \<Longrightarrow>
   stocked (of_bool (\<not> list_all silent_poll polls) + n) (w_hw w) \<Longrightarrow>
   \<exists>st w'. wait_rx_loop p start limit polls w = Some (st, w') \<and> stocked n (w_hw w')"
proof (induction polls)
  case (Cons poll polls)
  note w = Cons.prems(2-5)
  have "stocked (of_bool (wp_irq poll) + n) (w_hw w)"
    by (rule stocked_mono [OF Cons.prems(6)]) (simp add: silent_poll_def)
  from irq_point_total [OF w this] obtain w1 where w1: "irq_point (wp_irq poll) w = Some w1"
    "w1 = w \<or> bar_completed (barrier_of w1 p) \<and> stocked n (w_hw w1)" by blast
  show ?case
  proof (cases "bar_completed (barrier_of w1 p)")
    case True
    with w1 w(4) have s: "stocked n (w_hw w1)" by auto
    obtain st w' where "wait_rx_finish p w1 = (st, w')" by fastforce
    with w1(1) True stocked_finish [OF s] show ?thesis by auto
  next
    case False
    with w1(2) have same: "w1 = w" by simp
    show ?thesis
    proof (cases "wp_cycle poll - start > limit")
      case False
      have "stocked (of_bool (\<not> list_all silent_poll polls) + n) (w_hw w)"
        by (rule stocked_mono [OF Cons.prems(6)]) simp
      with Cons.IH [OF _ w] Cons.prems(1) False w1(1) same w(4) show ?thesis by auto
    next
      case past: True
      have "stocked (of_bool (wp_irq_late poll) + n) (w_hw w)"
        by (rule stocked_mono [OF Cons.prems(6)]) (simp add: silent_poll_def)
      from irq_point_total [OF w this] obtain w2 where w2: "irq_point (wp_irq_late poll) w = Some w2"
        "w2 = w \<or> bar_completed (barrier_of w2 p) \<and> stocked n (w_hw w2)" by blast
      have "stocked n (w_hw w)" by (rule stocked_mono [OF Cons.prems(6)]) simp
      with w2(2) have "stocked n (w_hw w2)" by auto
      then have s: "stocked n (w_hw (upd_hw noc_irq_disable w2))" by (simp add: upd_hw_def noc_irq_defs stocked_def)
      obtain st w' where fin: "wait_rx_finish p (upd_hw noc_irq_disable w2) = (st, w')" by fastforce
      have "stocked n (w_hw (upd_barrier p (\<lambda>b. b\<lparr>bar_active := False, bar_hardware_error := True\<rparr>)
          (upd_hw noc_irq_disable w2)))" using s by (simp add: upd_defs)
      with w1(1) same w(4) past w2(1) fin stocked_finish [OF s fin] show ?thesis by (auto simp: Let_def)
    qed
  qed
qed simp

lemma barrier_ends:
  assumes "w_active w = Some p" "good (w_mem w)" "wait_ends (w_clock w) timeout env"
    and "stocked (of_bool (noisy env) + n) (w_hw w)"
  shows "\<exists>st rxf' rxc' w'. run_control_barrier p f timeout sync rxf rxc (Some h) ud env w = Some (st, rxf', rxc', w') \<and>
    stocked n (w_hw w')"
proof -
  let ?w = "armed p (Some h) ud f 1 w"
  have w: "sinking p ?w" "w_active ?w = Some p" "bar_active (barrier_of ?w p)" "\<not> bar_completed (barrier_of ?w p)"
    using assms(1,2) by (simp_all add: sinking_def armed_def armed_barrier_def)
  have s: "stocked (of_bool (\<not> list_all silent_poll (we_polls env)) + n) (w_hw ?w)"
    using assms(4) by (simp add: stocked_def noisy_def armed_def)
  have "\<exists>poll \<in> set (we_polls env). wp_cycle poll - we_start env > ucast (w_clock ?w div 1000) * ucast timeout"
    using assms(3) by (simp add: wait_ends_def armed_def)
  from wait_loop_total [OF this w s] obtain st w1 where w1: "wait_rx_barrier p timeout env ?w = Some (st, w1)"
    "stocked n (w_hw w1)" unfolding wait_rx_barrier_def Let_def by blast
  then show ?thesis
    unfolding run_control_barrier_def Let_def start_and_send
    by (auto simp: upd_defs noc_irq_defs stocked_def)
qed

end


section \<open>The barriers of an epoch\<close>

text \<open>A synchronization of the timeline, in any environment.\<close>

lemma live_timeline_impl:
  assumes live: "live_at p buf a cap clock w" "root_ok a 0"
    and at: "epoch_at p prev w" "prev < target" "target \<le> FC_CTRL_PAYLOAD_MASK"
  shows "sync_wait_until_impl (Some p) target timeout None None (Some h) ud env w =
    do { (st, rxf', rxc', w1) \<leftarrow> run_control_barrier p (sync_frame a 0 (target - prev)) timeout True None None (Some h) ud env w;
      Some (st, rxf', rxc', if st = RVRT_SESSION_OK
        then upd_session p (\<lambda>s. s\<lparr>se_sync_mode := RVRT_SESSION_SYNC_MODE_TIMELINE, se_completed_timesteps := target\<rparr>) w1
        else w1) }"
proof -
  let ?d = "target - prev"
  have "prev \<le> target" using at(2) by simp
  from order.trans [OF word_sub_le [OF this] at(3)] have "?d \<le> FC_CTRL_PAYLOAD_MASK" .
  from sync_frame_built [OF live(2) this] have
    f: "rvrt_build_sync_payload_frame (Some a) 0 ?d (Some zero_frame) = (RVRT_CODEC_STATUS_OK, Some (sync_frame a 0 ?d))" .
  have rdy: "ready p buf p a w" "se_thread_index (w_session w p) = 0" using live(1) by (simp_all add: live_at_def)
  have impl: "sync_wait_payload_impl (Some p) ?d timeout None None (Some h) ud env w =
      run_control_barrier p (sync_frame a 0 ?d) timeout True None None (Some h) ud env w"
    using rdy f by (auto simp: sync_wait_payload_impl_def ready_def)
  have d: "(if se_sync_mode (w_session w p) = RVRT_SESSION_SYNC_MODE_TIMELINE
      then target - se_completed_timesteps (w_session w p) else target) = ?d"
    using at(1) by (auto simp: epoch_at_def timeline_at_def split: if_splits)
  show ?thesis
    using rdy(1) at(1,2) impl unfolding sync_wait_until_impl_def Let_def d
    by (auto simp: ready_def epoch_at_def timeline_at_def not_le split: if_splits)
qed

context rx_sink begin

lemma sync_keeps:
  assumes live: "live_at p buf a cap clock w" and "root_ok a 0"
    and at: "epoch_at p prev w" "prev < target" "target \<le> FC_CTRL_PAYLOAD_MASK" and "good (w_mem w)"
    and run: "rvrt_session_sync_wait_until_with_rx_handler (Some p) target timeout (Some h) ud env w = Some (st, w')"
  shows "good (w_mem w') \<and> w_buf w' = w_buf w \<and>
    (st = RVRT_SESSION_OK \<longrightarrow> epoch_at p target w' \<and> live_at p buf a cap clock w')"
proof -
  from run obtain rxf rxc w1 where
    b: "run_control_barrier p (sync_frame a 0 (target - prev)) timeout True None None (Some h) ud env w = Some (st, rxf, rxc, w1)"
    unfolding rvrt_session_sync_wait_until_with_rx_handler_def live_timeline_impl [OF live assms(2) at]
    by (auto split: bind_splits)
  have "w_active w = Some p" using live by (simp add: live_at_def ready_def)
  note keep = barrier_keeps [OF b this assms(6)]
  from until_of_barrier [OF live assms(2) at, of timeout None None "Some h" ud env st rxf rxc w1] b obtain w2 where
    w2: "sync_wait_until_impl (Some p) target timeout None None (Some h) ud env w = Some (st, rxf, rxc, w2)"
      "w_mem w2 = w_mem w1" "w_buf w2 = w_buf w1"
      "st = RVRT_SESSION_OK \<and> length (w_buf w1 buf) = length (w_buf w buf) \<longrightarrow>
        epoch_at p target w2 \<and> live_at p buf a cap clock w2" by auto
  then have "w' = w2" using run by (simp add: rvrt_session_sync_wait_until_with_rx_handler_def)
  with w2 keep show ?thesis by simp
qed

lemma sync_ends:
  assumes live: "live_at p buf a cap clock w" and "root_ok a 0"
    and at: "epoch_at p prev w" "prev < target" "target \<le> FC_CTRL_PAYLOAD_MASK" and "good (w_mem w)"
    and ends: "wait_ends clock timeout env" "stocked (of_bool (noisy env) + n) (w_hw w)"
  shows "\<exists>st w'. rvrt_session_sync_wait_until_with_rx_handler (Some p) target timeout (Some h) ud env w = Some (st, w') \<and>
    stocked n (w_hw w')"
proof -
  have w: "w_active w = Some p" "w_clock w = clock" using live by (simp_all add: live_at_def ready_def)
  from barrier_ends [OF w(1) assms(6) ends(1) [folded w(2)] ends(2), of "sync_frame a 0 (target - prev)" True None None]
  obtain st rxf rxc w1 where
    b: "run_control_barrier p (sync_frame a 0 (target - prev)) timeout True None None (Some h) ud env w = Some (st, rxf, rxc, w1)"
      "stocked n (w_hw w1)" by blast
  have "stocked n (w_hw (upd_session p g w1))" for g using b(2) by (simp add: upd_defs)
  with b show ?thesis
    unfolding rvrt_session_sync_wait_until_with_rx_handler_def live_timeline_impl [OF live assms(2) at] by auto
qed

end

text \<open>The model reset, in any environment.\<close>

lemma live_reset_impl:
  assumes "live_at p buf a cap clock w" "root_ok a 0"
  shows "rvrt_session_reset_model (Some p) timeout env w =
    do { (st, _, _, w1) \<leftarrow> run_control_barrier p (init_frame a 0) timeout False None None (Some discard_reset_frame) None env w;
      Some (st, if st = RVRT_SESSION_OK then upd_session p clear_sync_epoch w1 else w1) }"
  using assms init_frame_built [OF assms(2)] by (auto simp: rvrt_session_reset_model_def live_at_def ready_def Let_def)

lemma reset_keeps:
  assumes live: "live_at p buf a cap clock w" "root_ok a 0"
    and run: "rvrt_session_reset_model (Some p) timeout env w = Some (st, w')"
  shows "w_mem w' = w_mem w \<and> w_buf w' = w_buf w \<and>
    (st = RVRT_SESSION_OK \<longrightarrow> epoch_at p 0 w' \<and> live_at p buf a cap clock w')"
proof -
  from run obtain rxf rxc w1 where
    b: "run_control_barrier p (init_frame a 0) timeout False None None (Some discard_reset_frame) None env w = Some (st, rxf, rxc, w1)"
    and w': "w' = (if st = RVRT_SESSION_OK then upd_session p clear_sync_epoch w1 else w1)"
    unfolding live_reset_impl [OF live] by (auto split: bind_splits)
  have act: "w_active w = Some p" using live(1) by (simp add: live_at_def ready_def)
  note keep = discard.barrier_keeps [OF b act refl]
  from act have "w_active w = Some p \<or> w_active w = None" by simp
  note eff = run_control_barrier_effect [OF b this]
  show ?thesis
    using keep eff live(1) by (auto simp: w' epoch_at_def live_at_def ready_def upd_defs clear_sync_epoch_def)
qed

lemma reset_ends:
  assumes live: "live_at p buf a cap clock w" "root_ok a 0"
    and ends: "wait_ends clock timeout env" "stocked (of_bool (noisy env) + n) (w_hw w)"
  shows "\<exists>st w'. rvrt_session_reset_model (Some p) timeout env w = Some (st, w') \<and> stocked n (w_hw w')"
proof -
  have w: "w_active w = Some p" "w_clock w = clock" using live(1) by (simp_all add: live_at_def ready_def)
  from discard.barrier_ends [OF w(1) refl ends(1) [folded w(2)] ends(2), of "init_frame a 0" False None None]
  obtain st rxf rxc w1 where
    b: "run_control_barrier p (init_frame a 0) timeout False None None (Some discard_reset_frame) None env w = Some (st, rxf, rxc, w1)"
      "stocked n (w_hw w1)" by blast
  have "stocked n (w_hw (upd_session p g w1))" for g using b(2) by (simp add: upd_defs)
  with b show ?thesis unfolding live_reset_impl [OF live] by auto
qed

end
