(* ===== verification/Decode_Laws.thy ===== *)
theory Decode_Laws
  imports Frame_Laws
begin

text \<open>
  Decoding of output frames: no frame, whatever its bits, makes the decoders touch memory outside
  the buffers; DATA frames write exactly the mapped element; VOLTAGE lanes assemble the
  little-endian value in any order.
\<close>

section \<open>Accesses to 32-bit elements\<close>

lemma load32_Some: "4 * unat i + 4 \<le> length b \<Longrightarrow>
  load32 b i = Some (le32 (b ! (4 * unat i)) (b ! (4 * unat i + 1)) (b ! (4 * unat i + 2)) (b ! (4 * unat i + 3)))"
  by (simp add: load32_def Let_def)

lemma store32_Some: "4 * unat i + 4 \<le> length b \<Longrightarrow> \<exists>b'. store32 b i v = Some b' \<and> length b' = length b"
  by (simp add: store32_def Let_def)

lemma store32_length: "store32 b i v = Some b' \<Longrightarrow> length b' = length b"
  by (auto simp: store32_def Let_def split: if_splits)

lemma load32_store32:
  assumes "store32 b i v = Some b'"
  shows "load32 b' i = Some v"
proof -
  let ?k = "4 * unat i"
  from assms have k: "?k + 4 \<le> length b" and b': "b' = b[?k := ucast v, ?k + 1 := ucast (drop_bit 8 v),
      ?k + 2 := ucast (drop_bit 16 v), ?k + 3 := ucast (drop_bit 24 v)]"
    by (auto simp: store32_def Let_def split: if_splits)
  from k have "load32 b' i = Some (le32 (b' ! ?k) (b' ! (?k + 1)) (b' ! (?k + 2)) (b' ! (?k + 3)))"
    by (intro load32_Some) (simp add: b')
  also have "\<dots> = Some v" using k by (simp add: b' nth_list_update le32_bytes)
  finally show ?thesis .
qed

lemma load32_store32_other:
  assumes "store32 b i v = Some b'" "j \<noteq> i"
  shows "load32 b' j = load32 b j"
proof -
  let ?k = "4 * unat i" and ?m = "4 * unat j"
  from assms(1) have b': "b' = b[?k := ucast v, ?k + 1 := ucast (drop_bit 8 v),
      ?k + 2 := ucast (drop_bit 16 v), ?k + 3 := ucast (drop_bit 24 v)]"
    by (auto simp: store32_def Let_def split: if_splits)
  have ne: "unat i \<noteq> unat j" using assms(2) by (simp add: word_unat_eq_iff)
  have "b' ! (?m + d) = b ! (?m + d)" if "d < 4" for d
  proof -
    have "?m + d \<noteq> ?k + e" if "e < 4" for e using ne \<open>d < 4\<close> that by presburger
    from this [of 0] this [of 1] this [of 2] this [of 3] show ?thesis by (simp add: b')
  qed
  from this [of 0] this [of 1] this [of 2] this [of 3] show ?thesis
    by (simp add: load32_def Let_def b')
qed

lemma store32_store32:
  assumes "store32 b i v = Some b'"
  shows "store32 b' i w = store32 b i w"
  using assms by (auto simp: store32_def Let_def list_update_swap split: if_splits)


section \<open>No access outside the buffers\<close>

lemma decode_data_safe:
  assumes "unat output_size \<le> length out"
  shows "\<exists>st out' w. decode_data_work_frame v f bits sg tot stride out output_size = Some (st, out', w) \<and>
         length out' = length out"
proof -
  have "i < output_size \<Longrightarrow> wr out i x = Some (out[unat i := x])" for i x
    using assms by (simp add: word_less_nat_alt)
  then show ?thesis
    by (auto simp: decode_data_work_frame_def Let_def not_le split: sum.split prod.split)
qed

lemma decode_data_loop_safe:
  assumes "unat output_size \<le> length out" "n \<le> length fs"
  shows "\<exists>st out'. decode_data_loop v bits sg tot stride output_size fs n out = Some (st, out') \<and>
         length out' = length out"
  using assms
proof (induction fs arbitrary: n out)
  case Nil
  then show ?case by simp
next
  case (Cons f fs)
  show ?case
  proof (cases n)
    case 0
    then show ?thesis by simp
  next
    case (Suc m)
    from decode_data_safe [OF Cons.prems(1), of v f bits sg tot stride] obtain st out' w where
      d: "decode_data_work_frame v f bits sg tot stride out output_size = Some (st, out', w)"
        "length out' = length out" by blast
    show ?thesis
      using Cons.IH [of out m] Cons.IH [of out' m] Cons.prems Suc d by (auto split: if_split)
  qed
qed

lemma store_voltage_lane_safe:
  assumes "4 * unat oc \<le> length out" "unat sc \<le> length st"
  shows "\<exists>s out' st' w'. rvrt_store_voltage_lane out oi oc st si sc lane p w = Some (s, out', st', w') \<and>
         length out' = length out \<and> length st' = length st \<and> (w' = None \<longleftrightarrow> w = None)"
proof (cases "oi \<ge> oc \<or> si \<ge> sc \<or> lane \<ge> 4")
  case True
  then show ?thesis by (simp add: rvrt_store_voltage_lane_def)
next
  case False
  then have si: "unat si < length st" and oi: "4 * unat oi + 4 \<le> length out"
    using assms by (auto simp: not_le word_less_nat_alt)
  let ?out0 = "if st ! unat si = 0 then store32 out oi 0 else Some out"
  from oi obtain o0 where o0: "?out0 = Some o0" "length o0 = length out"
    using store32_Some [of oi out 0] by (cases "st ! unat si = 0") auto
  from oi o0 obtain old where old: "load32 o0 oi = Some old" by (simp add: load32_Some)
  from oi o0 obtain o1 where
    o1: "store32 o0 oi (old OR push_bit (unat (lane * RVRT_VOLT_LANE_BITS)) (ucast p)) = Some o1"
      "length o1 = length out"
    using store32_Some [of oi o0] by fastforce
  show ?thesis
    using False si o0 old o1
    by (auto simp: rvrt_store_voltage_lane_def Let_def not_le split: option.split)
qed


lemma decode_voltage_safe:
  assumes "4 * unat oc \<le> length out" "unat sc \<le> length st" "ov_entries v \<noteq> None"
  shows "\<exists>s out' st' w. decode_voltage_work_frame (Some v) (Some f) tot (Some out) oc stride (Some st) sc
           (Some w0) = Some (s, Some out', Some st', w) \<and>
         length out' = length out \<and> length st' = length st"
proof -
  have lane: "\<exists>s out' st' w'. rvrt_store_voltage_lane out oi oc st si sc lane p (Some False) =
      Some (s, out', st', w') \<and> length out' = length out \<and> length st' = length st" for oi si lane p
    using store_voltage_lane_safe [OF assms(1,2), of oi si lane p "Some False"] by blast
  have bind: "\<exists>s out' st' w. (case r of (status, out, st, written) \<Rightarrow>
        Some (status, Some out, Some st, written)) = Some (s, Some out', Some st', w) \<and>
        length out' = length out \<and> length st' = length st"
    if "length (fst (snd r)) = length out" "length (fst (snd (snd r))) = length st"
    for r :: "codec_status \<times> u8 list \<times> u8 list \<times> bool option"
    using that by (cases r) auto
  show ?thesis
  proof (cases "output_address_for_work_frame v f")
    case (Inl status)
    with assms(3) show ?thesis by (auto simp: decode_voltage_work_frame_def)
  next
    case (Inr r)
    obtain ts ax where r: "r = (ts, ax)" by (cases r)
    obtain ast e' found where find:
      "rvrt_artifact_output_mapping_find (Some v) (ax - (drop_bit 3 ax AND 3) * 8)
        (Some zero_output_entry) (Some False) = (ast, e', found)" by (metis prod_cases3)
    from lane [of "ts * stride + out_elem_idx (the e')"
        "ts * ov_element_count v + out_elem_idx (the e')" "drop_bit 3 ax AND 3"
        "ucast (fr_low f AND RVRT_WF_PAYLOAD_MASK)"]
    obtain s o1 s1 w1 where "rvrt_store_voltage_lane out (ts * stride + out_elem_idx (the e')) oc st
        (ts * ov_element_count v + out_elem_idx (the e')) sc (drop_bit 3 ax AND 3)
        (ucast (fr_low f AND RVRT_WF_PAYLOAD_MASK)) (Some False) = Some (s, o1, s1, w1)"
      "length o1 = length out" "length s1 = length st" by blast
    with Inr r find assms(3) show ?thesis
      by (auto simp: decode_voltage_work_frame_def Let_def)
  qed
qed

lemma decode_voltage_loop_safe:
  assumes "4 * unat oc \<le> length out" "unat sc \<le> length st" "ov_entries v \<noteq> None" "n \<le> length fs"
  shows "\<exists>s out' st'. decode_voltage_loop v tot oc stride sc fs n (Some out) (Some st) =
           Some (s, Some out', Some st') \<and> length out' = length out \<and> length st' = length st"
  using assms
proof (induction fs arbitrary: n out st)
  case Nil
  then show ?case by simp
next
  case (Cons f fs)
  show ?case
  proof (cases n)
    case 0
    then show ?thesis by simp
  next
    case (Suc m)
    from decode_voltage_safe [OF Cons.prems(1-3), of f tot stride False] obtain s out' st' w where
      d: "decode_voltage_work_frame (Some v) (Some f) tot (Some out) oc stride (Some st) sc (Some False) =
           Some (s, Some out', Some st', w)" "length out' = length out" "length st' = length st"
      by blast
    show ?thesis
      using Cons.IH [of out' st' m] Cons.prems Suc d by (auto split: if_split)
  qed
qed

lemma decode_incremental_safe:
  assumes "unat output_size \<le> length out" "unat frame_count \<le> length fs"
    and "unat cap \<le> length st"
  shows "\<exists>s out' st'. rvrt_decode_output_frames_incremental (Some v) (Some fs) frame_count tot (Some out)
           output_size stride (Some st) cap = Some (s, Some out', Some st') \<and>
         length out' = length out \<and> length st' = length st"
proof -
  have "4 * unat (output_size div 4) \<le> length out" using assms(1) by (simp add: unat_div)
  note volt = decode_voltage_loop_safe [OF this assms(3) _ assms(2), of v tot "stride div 4"]
  show ?thesis
  proof (cases "ov_entries v = None \<or> tot = 0")
    case True
    then show ?thesis by (auto simp: rvrt_decode_output_frames_incremental_def)
  next
    case ok: False
    show ?thesis
    proof (cases "ov_kind v = RVRT_OUTPUT_DATA")
      case data: True
      show ?thesis
      proof (cases "dtype_bits (ov_dtype v)")
        case None
        with ok data show ?thesis by (simp add: rvrt_decode_output_frames_incremental_def)
      next
        case (Some bs)
        obtain bits sg where bs: "bs = (bits, sg)" by (cases bs)
        from decode_data_loop_safe [OF assms(1,2), of v bits sg tot stride]
        obtain s out' where "decode_data_loop v bits sg tot stride output_size fs (unat frame_count) out =
            Some (s, out')" "length out' = length out" by blast
        with ok data Some bs show ?thesis by (simp add: rvrt_decode_output_frames_incremental_def)
      qed
    next
      case volt_kind: False
      show ?thesis
      proof (cases "ov_kind v \<noteq> RVRT_OUTPUT_VOLTAGE \<or> output_size mod 4 \<noteq> 0 \<or> stride mod 4 \<noteq> 0")
        case True
        with ok volt_kind show ?thesis by (simp add: rvrt_decode_output_frames_incremental_def Let_def)
      next
        case False
        with ok volt_kind volt show ?thesis
          by (simp add: rvrt_decode_output_frames_incremental_def Let_def)
      qed
    qed
  qed
qed

text \<open>C33.  Whatever bits the received frames carry and whatever the view says, incremental decoding
  of an output window touches only the output buffer, the frame array and the lane state that the
  caller passed: it always returns, and the buffers keep their sizes.\<close>

theorem decode_incremental_memory_safe:
  assumes "unat output_size \<le> length out" "unat frame_count \<le> length fs"
    and "unat cap \<le> length st"
  shows "\<exists>s out' st'. rvrt_decode_output_frames_incremental (Some v) (Some fs) frame_count tot (Some out)
           output_size stride (Some st) cap = Some (s, Some out', Some st') \<and>
         length out' = length out \<and> length st' = length st"
  by (rule decode_incremental_safe [OF assms])

theorem decode_incremental_memory_safe_witness:
  "\<exists>s out' st'. rvrt_decode_output_frames_incremental (Some demo_out_view)
     (Some [\<lparr>fr_high = 0x80000000, fr_low = 0x20307\<rparr>]) 1 2 (Some [0, 0, 0, 0]) 4 2 (Some [0]) 1 =
       Some (s, Some out', Some st') \<and> length out' = length [0, 0, 0, 0 :: u8] \<and> length st' = 1"
  using decode_incremental_memory_safe [of 4 "[0, 0, 0, 0]" 1 "[\<lparr>fr_high = 0x80000000, fr_low = 0x20307\<rparr>]"
      1 "[0]" demo_out_view 2 2] by simp

section \<open>DATA frames\<close>

text \<open>The write a DATA frame stands for: timestep, element and value, or nothing.\<close>

definition data_write ::
    "rvrt_artifact_output_mapping_view \<Rightarrow> u32 \<Rightarrow> bool \<Rightarrow> u32 \<Rightarrow> rvrt_frame \<Rightarrow> (nat \<times> nat \<times> u8) option" where
  "data_write v bits sg tot f =
     (case rvrt_output_frame_address v f of
        Inl _ \<Rightarrow> None
      | Inr (ts, key) \<Rightarrow>
          (case (ov_entries v) of
             None \<Rightarrow> None
           | Some es \<Rightarrow>
               (case find_output_entry es key of
                  None \<Rightarrow> None
                | Some c \<Rightarrow>
                    let payload = fr_low f AND RVRT_WF_PAYLOAD_MASK in
                    if rvrt_frame_is_work_type1 f \<and> ts < tot \<and> (sg \<or> unat payload < 2 ^ unat bits)
                    then Some (unat ts, unat (oe_elem_idx c), decode_payload payload bits sg)
                    else None)))"

definition apply_write :: "nat \<Rightarrow> u8 list \<Rightarrow> (nat \<times> nat \<times> u8) option \<Rightarrow> u8 list" where
  "apply_write stride out w = (case w of None \<Rightarrow> out | Some (ts, idx, val) \<Rightarrow> out[ts * stride + idx := val])"

lemma output_find_eq:
  assumes "ov_entries v = Some es"
  shows "rvrt_artifact_output_mapping_find (Some v) key (Some e0) (Some False) =
     (case find_output_entry es key of
        None \<Rightarrow> (RVRT_ARTIFACT_OK, Some e0, Some False)
      | Some c \<Rightarrow> (RVRT_ARTIFACT_OK, Some \<lparr>out_elem_idx = oe_elem_idx c, out_copy_id = oe_copy_id c,
                     out_axon_bit_idx = oe_axon_bit_idx c\<rparr>, Some True))"
  using assms by (simp add: rvrt_artifact_output_mapping_find_def split: option.split)

lemma and_not_mask_zero:
  assumes "unat bits \<le> 32"
  shows "(p :: u32) AND NOT (bit_mask bits) = 0 \<longleftrightarrow> unat p < 2 ^ unat bits"
proof -
  have "p AND NOT (mask (unat bits)) = 0 \<longleftrightarrow> take_bit (unat bits) p = p"
  proof
    assume "p AND NOT (mask (unat bits)) = 0"
    then have "\<not> bit (p AND NOT (mask (unat bits))) n" for n by simp
    then have "bit p n \<Longrightarrow> n < unat bits" for n
      using bit_imp_le_length [of p n] by (auto simp: bit_simps)
    then show "take_bit (unat bits) p = p"
      by (intro bit_word_eqI) (auto simp: bit_take_bit_iff)
  next
    assume "take_bit (unat bits) p = p"
    then have "bit p n \<Longrightarrow> n < unat bits" for n by (metis bit_take_bit_iff)
    then show "p AND NOT (mask (unat bits)) = 0"
      by (intro bit_word_eqI) (auto simp: bit_simps)
  qed
  also have "\<dots> \<longleftrightarrow> unat p < 2 ^ unat bits"
    using assms by (simp add: word_unat_eq_iff unsigned_take_bit_eq take_bit_nat_eq_self_iff)
  finally show ?thesis by (simp add: bit_mask_eq)
qed

lemma window_index:
  fixes ts stride idx tot :: u32
  assumes "ts < tot" "idx < stride" "unat tot * unat stride \<le> B" "B < 2 ^ 32"
  shows "unat ts * unat stride + unat idx < unat tot * unat stride"
    "unat (ts * stride + idx) = unat ts * unat stride + unat idx"
    "\<not> ts > (SIZE_MAX - idx) div stride" "stride \<noteq> 0"
proof -
  have "unat ts + 1 \<le> unat tot" using assms(1) by (simp add: word_less_nat_alt)
  then have "(unat ts + 1) * unat stride \<le> unat tot * unat stride" by (rule mult_le_mono1)
  moreover have i: "unat idx < unat stride" using assms(2) by (simp add: word_less_nat_alt)
  ultimately show lt: "unat ts * unat stride + unat idx < unat tot * unat stride" by simp
  then have small: "unat ts * unat stride + unat idx < 2 ^ 32" using assms(3,4) by linarith
  then have m: "unat (ts * stride) = unat ts * unat stride" by (intro unat_mult_u32) linarith
  then show "unat (ts * stride + idx) = unat ts * unat stride + unat idx"
    using small unat_add_u32 [of "ts * stride" idx] by simp
  show s0: "stride \<noteq> 0" using i by auto
  have "unat (SIZE_MAX - idx) = 4294967295 - unat idx"
    by (rule unat_SIZE_MAX_diff)
  moreover have "unat ts * unat stride \<le> 4294967295 - unat idx" using small by simp
  ultimately have "unat ts \<le> unat (SIZE_MAX - idx) div unat stride"
    using i by (simp add: less_eq_div_iff_mult_less_eq)
  then show "\<not> ts > (SIZE_MAX - idx) div stride"
    by (simp add: word_less_nat_alt unat_div)
qed

text \<open>Views whose window fits: accepted, DATA, and the output holds \<open>tot\<close> timesteps.\<close>

lemma decode_data_spec:
  assumes v: "output_view_ok v" and bits: "dtype_bits d = Some (bits, sg)"
    and size: "unat tot * unat (ov_element_count v) \<le> unat output_size" "unat output_size \<le> length out"
    and t1: "rvrt_frame_is_work_type1 f"
  shows "decode_data_work_frame v f bits sg tot (ov_element_count v) out output_size =
     Some (RVRT_CODEC_STATUS_OK, apply_write (unat (ov_element_count v)) out (data_write v bits sg tot f),
           data_write v bits sg tot f \<noteq> None)"
proof -
  from v obtain es where es: "ov_entries v = Some es" "unat (ov_target_lcn v) \<le> 7"
      "list_all (output_entry_ok (unat (ov_element_count v))) es"
    by (auto simp: output_view_ok_def split: option.splits)
  then obtain ts key where addr: "rvrt_output_frame_address v f = Inr (ts, key)"
    by (auto simp: rvrt_output_frame_address_def word_less_nat_alt)
  have b32: "unat bits \<le> 32" using dtype_bits_cases [OF bits] by auto
  show ?thesis
  proof (cases "find_output_entry es key")
    case None
    with es addr show ?thesis
      by (simp add: decode_data_work_frame_def output_address_for_work_frame_def output_find_eq
          data_write_def apply_write_def)
  next
    case (Some c)
    then have "output_entry_ok (unat (ov_element_count v)) (Some c)"
      using find_output_entry_Some [OF Some] es(3) by (auto simp: list_all_iff)
    then have idx: "oe_elem_idx c < ov_element_count v"
      by (simp add: output_entry_ok_def word_less_nat_alt)
    show ?thesis
    proof (cases "ts < tot")
      case False
      with es addr Some have "data_write v bits sg tot f = None"
        by (simp add: data_write_def Let_def)
      moreover have "ts \<ge> tot" using False by simp
      ultimately show ?thesis using addr
        by (simp add: decode_data_work_frame_def output_address_for_work_frame_def apply_write_def)
    next
      case True
      have size32: "unat output_size < 2 ^ 32" using unsigned_less [of output_size] by simp
      note w = window_index [OF True idx size(1) size32]
      have "unat (ts * ov_element_count v + oe_elem_idx c) < unat output_size"
        using w(1,2) size(1) by linarith
      then have inside: "\<not> ts * ov_element_count v + oe_elem_idx c \<ge> output_size"
        and wr: "wr out (ts * ov_element_count v + oe_elem_idx c) x =
                 Some (out[unat ts * unat (ov_element_count v) + unat (oe_elem_idx c) := x])" for x
        using size(2) w(2) by (simp_all add: word_le_nat_alt)
      show ?thesis
        using True idx w(3,4) inside wr es addr Some t1 and_not_mask_zero [OF b32]
        by (auto simp: decode_data_work_frame_def output_address_for_work_frame_def output_find_eq
            data_write_def apply_write_def Let_def not_le)
    qed
  qed
qed

lemma apply_write_simps [simp]:
  "apply_write n out None = out"
  "apply_write n out (Some (t, i, x)) = out[t * n + i := x]"
  by (simp_all add: apply_write_def)

lemma apply_write_length [simp]: "length (apply_write stride out w) = length out"
  by (auto simp: apply_write_def split: option.split prod.split)

lemma data_write_other_kind: "\<not> rvrt_frame_is_work_type1 f \<Longrightarrow> data_write v bits sg tot f = None"
  by (auto simp: data_write_def Let_def split: sum.split option.split)

lemma decode_data_loop_spec:
  assumes "output_view_ok v" "dtype_bits d = Some (bits, sg)"
    "unat tot * unat (ov_element_count v) \<le> unat output_size"
  shows "unat output_size \<le> length out \<Longrightarrow>
    decode_data_loop v bits sg tot (ov_element_count v) output_size (fs @ rest) (length fs) out =
      Some (RVRT_CODEC_STATUS_OK,
            foldl (apply_write (unat (ov_element_count v))) out (map (data_write v bits sg tot) fs))"
proof (induction fs arbitrary: out)
  case Nil
  then show ?case by simp
next
  case (Cons f fs)
  show ?case
  proof (cases "rvrt_frame_is_work_type1 f")
    case False
    then show ?thesis using Cons by (simp add: data_write_other_kind apply_write_def)
  next
    case True
    then show ?thesis
      using Cons decode_data_spec [OF assms(1-3) Cons.prems True] by simp
  qed
qed


text \<open>The value the window holds for an element: that of the last write to it, zero without one.\<close>

definition is_write :: "nat \<Rightarrow> nat \<Rightarrow> (nat \<times> nat \<times> u8) option \<Rightarrow> bool" where
  "is_write t i w = (case w of None \<Rightarrow> False | Some (t', i', _) \<Rightarrow> t' = t \<and> i' = i)"

definition last_write :: "nat \<Rightarrow> nat \<Rightarrow> (nat \<times> nat \<times> u8) option list \<Rightarrow> u8 \<Rightarrow> u8" where
  "last_write t i ws dflt =
     (case find (is_write t i) (rev ws) of Some (Some (_, _, val)) \<Rightarrow> val | _ \<Rightarrow> dflt)"

lemma cell_index_unique:
  fixes t i t' i' n :: nat
  assumes "i < n" "i' < n" "t * n + i = t' * n + i'"
  shows "t = t' \<and> i = i'"
proof -
  have "(t * n + i) div n = t" "(t * n + i) mod n = i" using assms(1) by auto
  moreover have "(t' * n + i') div n = t'" "(t' * n + i') mod n = i'" using assms(2) by auto
  ultimately show ?thesis using assms(3) by metis
qed

lemma foldl_apply_write_nth:
  assumes "\<forall>w \<in> set ws. case w of None \<Rightarrow> True | Some (_, i', _) \<Rightarrow> i' < n"
    and "i < n" "t * n + i < length out"
  shows "foldl (apply_write n) out ws ! (t * n + i) = last_write t i ws (out ! (t * n + i))"
  using assms(1)
proof (induction ws rule: rev_induct)
  case Nil
  then show ?case by (simp add: last_write_def)
next
  case (snoc w ws)
  have len: "length (foldl (apply_write n) out ws) = length out" for ws
    by (induction ws rule: rev_induct) simp_all
  show ?case
  proof (cases w)
    case None
    with snoc show ?thesis by (simp add: last_write_def is_write_def)
  next
    case (Some tiv)
    obtain t' i' x where w: "tiv = (t', i', x)" by (cases tiv)
    have "i' < n" using snoc.prems Some w by simp
    then have "t' * n + i' = t * n + i \<longleftrightarrow> t' = t \<and> i' = i"
      using cell_index_unique [of i' n i t' t] assms(2) by auto
    with snoc Some w assms(3) show ?thesis
      by (auto simp: last_write_def is_write_def len nth_list_update)
  qed
qed

definition stream_runtime :: "rvrt_artifact_runtime \<Rightarrow> bool" where
  "stream_runtime rt \<longleftrightarrow>
     rt_output_time_encoding rt = RVRT_OUTPUT_TIME_ENCODING_STREAM \<and> rt_timesteps rt \<noteq> 0 \<and>
     rt_pipeline_latency rt \<noteq> 0 \<and>
     unat (rt_completion_sync_timestep rt) + 1 = unat (rt_pipeline_latency rt) + unat (rt_timesteps rt)"

lemma stream_runtime_checks:
  assumes "stream_runtime rt"
  shows "\<not> rt_timesteps rt > UINT32_MAX - rt_pipeline_latency rt + 1"
    "rt_completion_sync_timestep rt = rt_pipeline_latency rt + rt_timesteps rt - 1"
proof -
  let ?t = "rt_timesteps rt" and ?p = "rt_pipeline_latency rt" and ?c = "rt_completion_sync_timestep rt"
  have p: "1 \<le> unat ?p" "1 \<le> unat ?t" and c: "unat ?c + 1 = unat ?p + unat ?t"
    using assms by (auto simp: stream_runtime_def Suc_le_eq unat_gt_0)
  have "of_nat (unat ?c + 1) = (of_nat (unat ?p + unat ?t) :: u32)" using c by simp
  then have "?c + 1 = ?p + ?t" by (simp only: of_nat_add word_of_nat_unat of_nat_1)
  then show "?c = ?p + ?t - 1" by (simp add: eq_diff_eq add.commute)
  have "unat (UINT32_MAX - ?p) + unat (1 :: u32) < 2 ^ 32"
    using p by (simp add: unat_SIZE_MAX_diff)
  then have "unat (UINT32_MAX - ?p + 1) = 4294967295 - unat ?p + 1"
    using unat_add_u32 [of "UINT32_MAX - ?p" 1] by (simp add: unat_SIZE_MAX_diff)
  moreover have "unat ?t \<le> 4294967295 - unat ?p + 1"
    using c unat_lt_2_32 [of ?c] by linarith
  ultimately show "\<not> ?t > UINT32_MAX - ?p + 1" by (simp add: word_less_nat_alt)
qed

lemma data_write_index:
  assumes "output_view_ok v" "data_write v bits sg tot f = Some (t, i, x)"
  shows "i < unat (ov_element_count v)"
proof -
  from assms obtain es c key where es: "ov_entries v = Some es"
      "list_all (output_entry_ok (unat (ov_element_count v))) es"
      and c: "find_output_entry es key = Some c" "i = unat (oe_elem_idx c)"
    by (auto simp: output_view_ok_def data_write_def Let_def split: option.splits sum.splits if_splits)
  from find_output_entry_Some [OF c(1)] es(2) c(2) show ?thesis
    by (auto simp: list_all_iff output_entry_ok_def)
qed

text \<open>The writes of accepted frames stay inside the window.\<close>

lemma foldl_apply_write_length [simp]: "length (foldl (apply_write n) out ws) = length out"
  by (induction ws arbitrary: out) simp_all

lemma data_write_inside:
  assumes "output_view_ok v"
  shows "\<forall>w \<in> set (map (data_write v bits sg tot) fs).
    case w of None \<Rightarrow> True | Some (t, i, _) \<Rightarrow> t < unat tot \<and> i < unat (ov_element_count v)"
  using data_write_index [OF assms]
  by (fastforce simp: data_write_def Let_def word_less_nat_alt split: option.splits sum.splits if_splits)

text \<open>The window the frames stand for, and the code that decodes it: \<open>frames\<close> may be followed by more.\<close>

definition stream_window :: "rvrt_artifact_output_mapping_view \<Rightarrow> u32 \<Rightarrow> bool \<Rightarrow> u32 \<Rightarrow> rvrt_frame list \<Rightarrow> u8 list" where
  "stream_window v bits sg tot fs =
     foldl (apply_write (unat (ov_element_count v))) (replicate (unat tot * unat (ov_element_count v)) 0)
       (map (data_write v bits sg tot) fs)"

lemma length_stream_window [simp]:
  "length (stream_window v bits sg tot fs) = unat tot * unat (ov_element_count v)"
  by (simp add: stream_window_def)

lemma foldl_apply_write_append:
  assumes "\<forall>w \<in> set ws. case w of None \<Rightarrow> True | Some (t, i, _) \<Rightarrow> t < T \<and> i < n" "length out = T * n"
  shows "foldl (apply_write n) (out @ later) ws = foldl (apply_write n) out ws @ later"
  using assms
proof (induction ws arbitrary: out)
  case (Cons w ws)
  have "apply_write n (out @ later) w = apply_write n out w @ later"
  proof (cases w)
    case (Some tix)
    obtain t i x where w: "tix = (t, i, x)" by (cases tix)
    with Some Cons.prems have "t < T" "i < n" by auto
    then have "(t + 1) * n \<le> T * n" by (intro mult_le_mono1) simp
    with \<open>i < n\<close> Cons.prems(2) have "t * n + i < length out" by simp
    with Some w show ?thesis by (simp add: apply_write_def list_update_append)
  qed (simp add: apply_write_def)
  with Cons show ?case by simp
qed simp

lemma stream_window_lemma:
  assumes "output_view_ok v" "ov_kind v = RVRT_OUTPUT_DATA" "dtype_bits (ov_dtype v) = Some (bits, sg)"
    and "ov_element_count v \<noteq> 0" "stream_runtime rt"
    and "unat (rt_timesteps rt) * unat (ov_element_count v) \<le> unat output_size"
      "unat output_size \<le> length out" "length fs = unat frame_count"
  shows "rvrt_decode_output_frames (Some v) (Some rt) (Some (fs @ later)) frame_count (Some out) output_size =
     Some (RVRT_CODEC_STATUS_OK, Some (stream_window v bits sg (rt_timesteps rt) fs @
       drop (unat (rt_timesteps rt) * unat (ov_element_count v)) out))"
proof -
  let ?n = "unat (ov_element_count v)" and ?T = "unat (rt_timesteps rt)"
  let ?zero = "replicate (?T * ?n) 0 @ drop (?T * ?n) out"
  let ?ws = "map (data_write v bits sg (rt_timesteps rt)) fs"
  have small: "?T * ?n < 2 ^ 32" using le_less_trans [OF assms(6) unat_lt_2_32] by simp
  then have req: "unat (rt_timesteps rt * ov_element_count v) = ?T * ?n" by (simp add: unat_mult_u32)
  have "0 < ?T" using assms(5) by (simp add: stream_runtime_def unat_gt_0)
  from mult_overflow_guard [OF this, of "ov_element_count v"] small
  have guard: "\<not> ov_element_count v > SIZE_MAX div rt_timesteps rt" by (simp add: mult.commute)
  have "\<not> output_size < rt_timesteps rt * ov_element_count v"
    using assms(6) req by (simp add: word_less_nat_alt)
  moreover have "decode_data_loop v bits sg (rt_timesteps rt) (ov_element_count v) output_size (fs @ later)
      (unat frame_count) ?zero = Some (RVRT_CODEC_STATUS_OK, foldl (apply_write ?n) ?zero ?ws)"
    using decode_data_loop_spec [OF assms(1,3,6), of ?zero fs later] assms(6-8) by simp
  moreover obtain es where "ov_entries v = Some es"
    using assms(1) by (auto simp: output_view_ok_def split: option.splits)
  moreover have "foldl (apply_write ?n) ?zero ?ws = stream_window v bits sg (rt_timesteps rt) fs @ drop (?T * ?n) out"
    unfolding stream_window_def by (rule foldl_apply_write_append [OF data_write_inside [OF assms(1)]]) simp
  ultimately show ?thesis
    using assms(2-7) guard req stream_runtime_checks [OF assms(5)]
    by (simp add: rvrt_decode_output_frames_def rvrt_decode_output_frames_incremental_def
        stream_runtime_def Let_def)
qed

lemma stream_window_nth:
  assumes "output_view_ok v" "t < unat tot" "i < unat (ov_element_count v)"
  shows "stream_window v bits sg tot fs ! (t * unat (ov_element_count v) + i) =
     last_write t i (map (data_write v bits sg tot) fs) 0"
proof -
  let ?n = "unat (ov_element_count v)"
  have "\<forall>w \<in> set (map (data_write v bits sg tot) fs). case w of None \<Rightarrow> True | Some (_, i', _) \<Rightarrow> i' < ?n"
    using data_write_index [OF assms(1)] by (auto split: option.splits)
  moreover have "(t + 1) * ?n \<le> unat tot * ?n" using assms(2) by (intro mult_le_mono1) simp
  then have "t * ?n + i < unat tot * ?n" using assms(3) by simp
  ultimately show ?thesis using assms(3)
    by (simp add: stream_window_def foldl_apply_write_nth)
qed

text \<open>Decoding a complete DATA window of an accepted view: with a consistent STREAM runtime and a
  buffer that holds the window, \<open>rvrt_decode_output_frames\<close> succeeds whatever frames were received, and
  each element of each timestep holds the payload of the last DATA frame mapped to it, or zero when
  there was none; the buffer beyond the window is unchanged.\<close>

theorem decode_stream_window:
  assumes "output_view_ok v" "ov_kind v = RVRT_OUTPUT_DATA" "dtype_bits (ov_dtype v) = Some (bits, sg)"
    and "ov_element_count v \<noteq> 0" "stream_runtime rt"
    and "unat (rt_timesteps rt) * unat (ov_element_count v) \<le> unat output_size"
      "unat output_size \<le> length out" "length fs = unat frame_count"
  defines "n \<equiv> unat (ov_element_count v)" and "T \<equiv> unat (rt_timesteps rt)"
  shows "\<exists>out'. rvrt_decode_output_frames (Some v) (Some rt) (Some fs) frame_count (Some out) output_size =
           Some (RVRT_CODEC_STATUS_OK, Some out') \<and> length out' = length out \<and>
         (\<forall>t i. t < T \<longrightarrow> i < n \<longrightarrow>
            out' ! (t * n + i) = last_write t i (map (data_write v bits sg (rt_timesteps rt)) fs) 0) \<and>
         (\<forall>k. T * n \<le> k \<longrightarrow> k < length out \<longrightarrow> out' ! k = out ! k)"
proof -
  let ?win = "stream_window v bits sg (rt_timesteps rt) fs"
  have fit: "T * n \<le> length out" using assms(6,7) by (simp add: T_def n_def)
  have "?win ! (t * n + i) = last_write t i (map (data_write v bits sg (rt_timesteps rt)) fs) 0"
    "t * n + i < T * n" if "t < T" "i < n" for t i
  proof -
    have "(t + 1) * n \<le> T * n" using that by (intro mult_le_mono1) simp
    then show "t * n + i < T * n" using that by simp
  qed (use stream_window_nth [OF assms(1)] that in \<open>simp add: T_def n_def\<close>)
  then show ?thesis
    using stream_window_lemma [OF assms(1-8), of "[]"] fit
    by (intro exI [of _ "?win @ drop (T * n) out"]) (auto simp: nth_append n_def T_def)
qed


text \<open>The window of the small artifact, two timesteps of two elements.\<close>

lemma demo_out_view_ok: "output_view_ok demo_out_view"
  by (simp add: demo_out_view_def demo_out_entries_def demo_out_entry_def output_view_ok_def
      output_entry_ok_def output_keys_def word_less_nat_alt)

definition demo_stream_runtime :: rvrt_artifact_runtime where
  "demo_stream_runtime = \<lparr>rt_timesteps = 2, rt_pipeline_latency = 3, rt_completion_sync_timestep = 4,
                          rt_output_time_encoding = 0\<rparr>"

theorem decode_stream_window_witness:
  "\<exists>out'. rvrt_decode_output_frames (Some demo_out_view) (Some demo_stream_runtime)
     (Some [\<lparr>fr_high = 0x80000000, fr_low = 0x307\<rparr>]) 1 (Some [9, 9, 9, 9, 9]) 5 =
       Some (RVRT_CODEC_STATUS_OK, Some out') \<and> length out' = 5 \<and> out' ! 4 = 9"
proof -
  have d: "dtype_bits (ov_dtype demo_out_view) = Some (8, False)"
    by (simp add: demo_out_view_def dtype_bits_def k_dtype_info_def)
  have "\<exists>out'. rvrt_decode_output_frames (Some demo_out_view) (Some demo_stream_runtime)
     (Some [\<lparr>fr_high = 0x80000000, fr_low = 0x307\<rparr>]) 1 (Some [9, 9, 9, 9, 9]) 5 =
       Some (RVRT_CODEC_STATUS_OK, Some out') \<and> length out' = length [9, 9, 9, 9, 9 :: u8] \<and>
       (\<forall>k. unat (rt_timesteps demo_stream_runtime) * unat (ov_element_count demo_out_view) \<le> k \<longrightarrow>
          k < length [9, 9, 9, 9, 9 :: u8] \<longrightarrow> out' ! k = [9, 9, 9, 9, 9] ! k)"
    using decode_stream_window [OF demo_out_view_ok _ d, of demo_stream_runtime 5 "[9, 9, 9, 9, 9]"
        "[\<lparr>fr_high = 0x80000000, fr_low = 0x307\<rparr>]" 1]
    by (simp add: demo_out_view_def demo_stream_runtime_def stream_runtime_def) blast
  then obtain out' where "rvrt_decode_output_frames (Some demo_out_view) (Some demo_stream_runtime)
     (Some [\<lparr>fr_high = 0x80000000, fr_low = 0x307\<rparr>]) 1 (Some [9, 9, 9, 9, 9]) 5 =
       Some (RVRT_CODEC_STATUS_OK, Some out')" "length out' = length [9, 9, 9, 9, 9 :: u8]"
     "unat (rt_timesteps demo_stream_runtime) * unat (ov_element_count demo_out_view) \<le> 4 \<longrightarrow>
      out' ! 4 = [9, 9, 9, 9, 9 :: u8] ! 4"
    by auto
  then show ?thesis by (auto simp: demo_out_view_def demo_stream_runtime_def)
qed

section \<open>VOLTAGE lanes\<close>

text \<open>The value assembled from the lanes whose bit is set in the mask.\<close>

definition lane_part :: "u8 \<Rightarrow> (nat \<Rightarrow> u8) \<Rightarrow> nat \<Rightarrow> u32" where
  "lane_part m bs l = (if bit m l then push_bit (8 * l) (ucast (bs l)) else 0)"

definition lane_val :: "u8 \<Rightarrow> (nat \<Rightarrow> u8) \<Rightarrow> u32" where
  "lane_val m bs = lane_part m bs 0 OR lane_part m bs 1 OR lane_part m bs 2 OR lane_part m bs 3"

lemma lane_val_0 [simp]: "lane_val 0 bs = 0"
  by (simp add: lane_val_def lane_part_def)

lemma lane_val_15: "lane_val 15 bs = le32 (bs 0) (bs 1) (bs 2) (bs 3)"
  by (simp add: lane_val_def lane_part_def le32_def or.assoc)

lemma lane_val_insert:
  assumes "l < 4"
  shows "lane_val (m OR 2 ^ l) bs = lane_val m bs OR push_bit (8 * l) (ucast (bs l))"
proof -
  have part: "lane_part (m OR 2 ^ l) bs k =
      lane_part m bs k OR (if k = l then push_bit (8 * l) (ucast (bs l)) else 0)" for k
    using assms by (auto simp: lane_part_def bit_or_iff bit_exp_iff)
  from assms consider "l = 0" | "l = 1" | "l = 2" | "l = 3" by linarith
  then show ?thesis
    unfolding lane_val_def part by cases (simp_all add: or.assoc or.commute or.left_commute)
qed

definition slot_after :: "u8 \<Rightarrow> u8" where
  "slot_after m = (if m = RVRT_VOLT_COMPLETE_MASK then 0 else m)"

lemma lane_step:
  assumes "oi < oc" "4 * unat oc \<le> length out" "si < sc" "unat sc \<le> length st" "l < 4"
  shows "bit (st ! unat si) l \<Longrightarrow>
      rvrt_store_voltage_lane out oi oc st si sc (of_nat l) p w = Some (RVRT_CODEC_STATUS_BAD_VALUE, out, st, w)"
    and "\<not> bit (st ! unat si) l \<Longrightarrow> st ! unat si = 0 \<or> load32 out oi = Some old \<Longrightarrow> \<exists>out'.
      rvrt_store_voltage_lane out oi oc st si sc (of_nat l) p (Some False) =
        Some (RVRT_CODEC_STATUS_OK, out', st[unat si := slot_after (st ! unat si OR 2 ^ l)],
              Some (st ! unat si OR 2 ^ l = RVRT_VOLT_COMPLETE_MASK)) \<and>
      length out' = length out \<and>
      load32 out' oi = Some ((if st ! unat si = 0 then 0 else old) OR push_bit (8 * l) (ucast p)) \<and>
      (\<forall>j. j \<noteq> oi \<longrightarrow> load32 out' j = load32 out j)"
proof -
  have si: "unat si < length st" and oi: "4 * unat oi + 4 \<le> length out"
    using assms by (auto simp: word_less_nat_alt)
  have l: "unat (of_nat l :: u32) = l" using assms(5) by (simp add: unat_of_nat)
  then have lt: "\<not> (of_nat l :: u32) \<ge> 4" using assms(5) by (simp add: word_le_nat_alt)
  have mask: "ucast (push_bit l (1 :: u32)) = (2 ^ l :: u8)"
  proof -
    from assms(5) consider "l = 0" | "l = 1" | "l = 2" | "l = 3" by linarith
    then show ?thesis by cases simp_all
  qed
  have shift: "unat ((of_nat l :: u32) * 8) = 8 * l"
  proof -
    have "unat (of_nat l :: u32) * unat (8 :: u32) < 2 ^ 32" using assms(5) l by simp
    from unat_mult_u32 [OF this] l show ?thesis by simp
  qed
  have set_iff: "st ! unat si AND 2 ^ l = 0 \<longleftrightarrow> \<not> bit (st ! unat si) l"
    using assms(5) by (auto simp: and_exp_eq_0_iff_not_bit)
  show "rvrt_store_voltage_lane out oi oc st si sc (of_nat l) p w = Some (RVRT_CODEC_STATUS_BAD_VALUE, out, st, w)"
    if "bit (st ! unat si) l"
    using that assms(1,3) lt si l mask set_iff by (simp add: rvrt_store_voltage_lane_def Let_def not_le)
  assume nb: "\<not> bit (st ! unat si) l" and prev: "st ! unat si = 0 \<or> load32 out oi = Some old"
  let ?old = "if st ! unat si = 0 then 0 else old"
  obtain o0 where o0: "(if st ! unat si = 0 then store32 out oi 0 else Some out) = Some o0"
      "length o0 = length out"
    using oi store32_Some [of oi out 0] by (cases "st ! unat si = 0") auto
  have old: "load32 o0 oi = Some ?old"
    using o0 prev by (cases "st ! unat si = 0") (auto simp: load32_store32)
  have other: "load32 o0 j = load32 out j" if "j \<noteq> oi" for j
    using o0 that by (cases "st ! unat si = 0") (auto simp: load32_store32_other)
  obtain o1 where o1: "store32 o0 oi (?old OR push_bit (8 * l) (ucast p)) = Some o1" "length o1 = length out"
    using oi o0 store32_Some [of oi o0] by metis
  have "load32 o1 oi = Some (?old OR push_bit (8 * l) (ucast p))" using o1(1) by (rule load32_store32)
  moreover have "\<forall>j. j \<noteq> oi \<longrightarrow> load32 o1 j = load32 out j"
    using load32_store32_other [OF o1(1)] other by simp
  ultimately show "\<exists>out'.
      rvrt_store_voltage_lane out oi oc st si sc (of_nat l) p (Some False) =
        Some (RVRT_CODEC_STATUS_OK, out', st[unat si := slot_after (st ! unat si OR 2 ^ l)],
              Some (st ! unat si OR 2 ^ l = RVRT_VOLT_COMPLETE_MASK)) \<and>
      length out' = length out \<and>
      load32 out' oi = Some ((if st ! unat si = 0 then 0 else old) OR push_bit (8 * l) (ucast p)) \<and>
      (\<forall>j. j \<noteq> oi \<longrightarrow> load32 out' j = load32 out j)"
    using assms(1,3) lt si l mask set_iff nb o0 old o1 shift
    by (intro exI [of _ o1]) (simp add: rvrt_store_voltage_lane_def Let_def not_le slot_after_def)
qed

text \<open>Lanes stored one after the other, stopping at the first error.\<close>

fun store_lanes ::
    "u8 list \<Rightarrow> u32 \<Rightarrow> u32 \<Rightarrow> u8 list \<Rightarrow> u32 \<Rightarrow> u32 \<Rightarrow> (nat \<Rightarrow> u8) \<Rightarrow> nat list \<Rightarrow> bool option
       \<Rightarrow> (codec_status \<times> u8 list \<times> u8 list \<times> bool option) option" where
  "store_lanes out oi oc st si sc bs [] w = Some (RVRT_CODEC_STATUS_OK, out, st, w)"
| "store_lanes out oi oc st si sc bs (l # ls) w =
     (case rvrt_store_voltage_lane out oi oc st si sc (of_nat l) (bs l) (Some False) of
        None \<Rightarrow> None
      | Some (s, out', st', w') \<Rightarrow>
          if s \<noteq> RVRT_CODEC_STATUS_OK then Some (s, out', st', w')
          else store_lanes out' oi oc st' si sc bs ls w')"

definition lanes_mask :: "nat list \<Rightarrow> u8 \<Rightarrow> u8" where
  "lanes_mask ls m = foldl (\<lambda>m l. m OR 2 ^ l) m ls"

lemma bit_lanes_mask: "\<forall>l \<in> set ls. l < 8 \<Longrightarrow> bit (lanes_mask ls m) k \<longleftrightarrow> bit m k \<or> k \<in> set ls"
  unfolding lanes_mask_def by (induction ls arbitrary: m) (auto simp: bit_or_iff bit_exp_iff)

lemma bit_15_u8: "bit (15 :: u8) k \<longleftrightarrow> k < 4"
  by (auto simp: bit_mask_numerals)

lemma lanes_mask_15:
  assumes "\<forall>k. bit m k \<longrightarrow> k < 4" "\<forall>l \<in> set ls. l < 4" "\<forall>k < 4. bit m k \<or> k \<in> set ls"
  shows "lanes_mask ls m = 15"
proof (rule bit_word_eqI)
  fix k assume "k < LENGTH(8)"
  have "\<forall>l \<in> set ls. l < 8" using assms(2) by auto
  then show "bit (lanes_mask ls m) k = bit (15 :: u8) k"
    using assms by (auto simp only: bit_lanes_mask bit_15_u8)
qed

lemma store_lanes_fold:
  assumes "oi < oc" "si < sc"
  shows "4 * unat oc \<le> length out \<Longrightarrow> unat sc \<le> length st \<Longrightarrow> distinct ls \<Longrightarrow>
    \<forall>l \<in> set ls. l < 4 \<and> \<not> bit (st ! unat si) l \<Longrightarrow>
    st ! unat si = 0 \<or> load32 out oi = Some (lane_val (st ! unat si) bs) \<Longrightarrow> ls \<noteq> [] \<Longrightarrow>
    \<forall>k. bit (st ! unat si) k \<longrightarrow> k < 4 \<Longrightarrow>
    \<exists>out'. store_lanes out oi oc st si sc bs ls w =
       Some (RVRT_CODEC_STATUS_OK, out', st[unat si := slot_after (lanes_mask ls (st ! unat si))],
             Some (lanes_mask ls (st ! unat si) = RVRT_VOLT_COMPLETE_MASK)) \<and>
     length out' = length out \<and> load32 out' oi = Some (lane_val (lanes_mask ls (st ! unat si)) bs) \<and>
     (\<forall>j. j \<noteq> oi \<longrightarrow> load32 out' j = load32 out j)"
proof (induction ls arbitrary: out st w)
  case Nil
  then show ?case by simp
next
  case (Cons l ls)
  let ?m = "st ! unat si" and ?m' = "st ! unat si OR 2 ^ l"
  have l: "l < 4" "\<not> bit ?m l" and dist: "l \<notin> set ls" "distinct ls" using Cons.prems(3,4) by auto
  have si: "unat si < length st" using assms(2) Cons.prems(2) by (simp add: word_less_nat_alt)
  from lane_step(2) [OF assms(1) Cons.prems(1) assms(2) Cons.prems(2) l(1), of "lane_val ?m bs" "bs l"]
    l(2) Cons.prems(5)
  obtain out1 where step:
    "rvrt_store_voltage_lane out oi oc st si sc (of_nat l) (bs l) (Some False) =
       Some (RVRT_CODEC_STATUS_OK, out1, st[unat si := slot_after ?m'], Some (?m' = RVRT_VOLT_COMPLETE_MASK))"
    "length out1 = length out"
    "load32 out1 oi = Some ((if ?m = 0 then 0 else lane_val ?m bs) OR push_bit (8 * l) (ucast (bs l)))"
    "\<forall>j. j \<noteq> oi \<longrightarrow> load32 out1 j = load32 out j"
    by metis
  have val: "load32 out1 oi = Some (lane_val ?m' bs)"
    using step(3) lane_val_insert [OF l(1), of ?m bs] by (simp split: if_splits)
  show ?case
  proof (cases "ls = []")
    case True
    with step val show ?thesis by (auto simp: lanes_mask_def)
  next
    case False
    have m': "bit ?m' k \<longleftrightarrow> bit ?m k \<or> k = l" for k
      using l(1) by (auto simp: bit_or_iff bit_exp_iff)
    have "?m' \<noteq> 15"
    proof
      assume eq: "?m' = 15"
      from False obtain l' where "l' \<in> set ls" by (cases ls) auto
      then have "l' < 4" "\<not> bit ?m' l'" using Cons.prems(3,4) m' by auto
      then show False unfolding eq bit_15_u8 by simp
    qed
    then have slot: "slot_after ?m' = ?m'" by (simp add: slot_after_def)
    let ?st = "st[unat si := ?m']"
    have prems: "4 * unat oc \<le> length out1" "unat sc \<le> length ?st"
      "\<forall>l \<in> set ls. l < 4 \<and> \<not> bit (?st ! unat si) l"
      "?st ! unat si = 0 \<or> load32 out1 oi = Some (lane_val (?st ! unat si) bs)"
      "\<forall>k. bit (?st ! unat si) k \<longrightarrow> k < 4"
      using Cons.prems dist m' val step(2) si l by auto
    from Cons.IH [OF prems(1,2) dist(2) prems(3,4) False prems(5), of "Some (?m' = RVRT_VOLT_COMPLETE_MASK)"]
      step slot si
    show ?thesis by (auto simp: lanes_mask_def)
  qed
qed

text \<open>C32.  A VOLTAGE value is complete exactly when its four lanes have arrived, in whatever order:
  starting from a clear slot, storing the lanes of any permutation succeeds, reports the value
  written with the last lane, leaves the slot clear for the next value, and the element holds
  the little-endian value of the four payload bytes; no other element of the output changes.\<close>

theorem voltage_lanes_any_order:
  assumes "oi < oc" "4 * unat oc \<le> length out" "si < sc" "unat sc \<le> length st" "st ! unat si = 0"
    and "distinct ls" "set ls = {0, 1, 2, 3}"
  shows "\<exists>out'. store_lanes out oi oc st si sc bs ls (Some False) =
            Some (RVRT_CODEC_STATUS_OK, out', st, Some True) \<and>
         length out' = length out \<and> load32 out' oi = Some (le32 (bs 0) (bs 1) (bs 2) (bs 3)) \<and>
         (\<forall>j. j \<noteq> oi \<longrightarrow> load32 out' j = load32 out j)"
proof -
  have full: "lanes_mask ls 0 = 15"
    by (rule lanes_mask_15) (use assms(7) in auto)
  have "st[unat si := 0] = st" using assms(5) by (metis list_update_id)
  moreover have "ls \<noteq> []" using assms(7) by auto
  ultimately show ?thesis
    using store_lanes_fold [OF assms(1,3,2,4,6), of bs "Some False"] assms(5,7) full
    by (auto simp: slot_after_def lane_val_15)
qed

theorem voltage_lanes_any_order_witness:
  "\<exists>out'. store_lanes [1, 1, 1, 1, 7, 7, 7, 7] 1 2 [0] 0 1 (\<lambda>l. of_nat (l + 1)) [2, 0, 3, 1] (Some False) =
       Some (RVRT_CODEC_STATUS_OK, out', [0], Some True) \<and> load32 out' 1 = Some 0x04030201 \<and>
     load32 out' 0 = Some 0x01010101"
proof -
  obtain out' where "store_lanes [1, 1, 1, 1, 7, 7, 7, 7] 1 2 [0] 0 1 (\<lambda>l. of_nat (l + 1)) [2, 0, 3, 1]
       (Some False) = Some (RVRT_CODEC_STATUS_OK, out', [0], Some True)"
    "load32 out' 1 = Some (le32 1 2 3 4)" "\<forall>j. j \<noteq> 1 \<longrightarrow> load32 out' j = load32 [1, 1, 1, 1, 7, 7, 7, 7] j"
    using voltage_lanes_any_order [of 1 2 "[1, 1, 1, 1, 7, 7, 7, 7]" 0 1 "[0]" "[2, 0, 3, 1]"
        "\<lambda>l. of_nat (l + 1)"] by (auto simp: word_less_nat_alt)
  moreover have "load32 [1, 1, 1, 1, 7, 7, 7, 7] 0 = Some 0x01010101" by (simp add: load32_def le32_def)
  ultimately show ?thesis by (simp add: le32_def)
qed

text \<open>A lane that arrives twice before the value is complete is rejected with \<open>BAD_VALUE\<close> and
  changes neither the output nor the lane state.\<close>

theorem voltage_lane_repeated:
  assumes "oi < oc" "4 * unat oc \<le> length out" "si < sc" "unat sc \<le> length st" "l < 4"
    and "bit (st ! unat si) l"
  shows "rvrt_store_voltage_lane out oi oc st si sc (of_nat l) p w =
         Some (RVRT_CODEC_STATUS_BAD_VALUE, out, st, w)"
  by (rule lane_step(1) [OF assms])

theorem voltage_lane_repeated_witness:
  "rvrt_store_voltage_lane [1, 2, 3, 4] 0 1 [4] 0 1 2 9 None =
     Some (RVRT_CODEC_STATUS_BAD_VALUE, [1, 2, 3, 4], [4], None)"
  using voltage_lane_repeated [of 0 1 "[1, 2, 3, 4]" 0 1 "[4]" 2 9 None]
  by (simp add: word_less_nat_alt)

end
