(* ===== verification/Runner_Laws.thy ===== *)
theory Runner_Laws
  imports Runner Session_Any Decode_Laws
begin

text \<open>
  Laws of the sample runner: its region checks are exact, the fast receive handlers agree with the
  generic one, no received frame corrupts memory, deployment claims and releases the chip, and a
  sample sends exactly the frames of its timeline.
\<close>

section \<open>Regions\<close>

lemma fits_lemma:
  "sample_region_fits capacity row stride T \<longleftrightarrow>
     row \<noteq> 0 \<and> row \<le> stride \<and> T \<noteq> 0 \<and> (unat T - 1) * unat stride + unat row \<le> unat capacity"
proof (cases "row = 0 \<or> stride < row \<or> T = 0")
  case True
  then show ?thesis by (auto simp: sample_region_fits_def)
next
  case False
  then have "0 < row" "row \<le> stride" by (auto simp: word_neq_0_conv)
  then have s0: "0 < unat stride" unfolding word_less_nat_alt word_le_nat_alt by simp
  have r: "unat (SIZE_MAX - row) = 4294967295 - unat row" by (rule unat_SIZE_MAX_diff)
  have T1: "unat (T - 1) = unat T - 1" using False by (simp add: unat_pred_u32)
  have "T - 1 \<le> (SIZE_MAX - row) div stride \<longleftrightarrow> unat (T - 1) * unat stride \<le> 4294967295 - unat row"
    using s0 r by (simp add: word_le_nat_alt unat_div less_eq_div_iff_mult_less_eq)
  also have "\<dots> \<longleftrightarrow> unat (T - 1) * unat stride + unat row < 2 ^ 32"
    using u32_max [of row] by auto
  finally have guard: "T - 1 \<le> (SIZE_MAX - row) div stride \<longleftrightarrow>
      unat (T - 1) * unat stride + unat row < 2 ^ 32" .
  show ?thesis
  proof (cases "unat (T - 1) * unat stride + unat row < 2 ^ 32")
    case True
    then have "unat ((T - 1) * stride) = unat (T - 1) * unat stride" by (intro unat_mult_u32) linarith
    with True have "unat ((T - 1) * stride + row) = unat (T - 1) * unat stride + unat row"
      by (simp add: unat_add_u32)
    with True False guard T1 show ?thesis
      by (simp add: sample_region_fits_def Let_def not_less) (auto simp: word_le_nat_alt word_less_nat_alt)
  next
    case no: False
    then have "\<not> unat (T - 1) * unat stride + unat row \<le> unat capacity"
      using u32_max [of capacity] by simp
    with no False guard T1 show ?thesis by (auto simp: sample_region_fits_def Let_def not_less)
  qed
qed

lemma overlap_lemma:
  "sample_regions_overlap a m b n \<longleftrightarrow>
     m \<noteq> 0 \<and> n \<noteq> 0 \<and> (unat a + unat m \<ge> 2 ^ 32 \<or> unat b + unat n \<ge> 2 ^ 32 \<or>
       {unat a ..< unat a + unat m} \<inter> {unat b ..< unat b + unat n} \<noteq> {})"
proof -
  have wrap: "x > UINT32_MAX - y \<longleftrightarrow> unat x + unat y \<ge> 2 ^ 32" for x y :: u32
  proof -
    have "unat y \<le> 4294967295" by (rule u32_max)
    then have "4294967295 - unat y < unat x \<longleftrightarrow> 4294967296 \<le> unat x + unat y" by linarith
    then show ?thesis unfolding word_less_nat_alt unat_SIZE_MAX_diff by simp
  qed
  show ?thesis
  proof (cases "m = 0 \<or> n = 0 \<or> unat a + unat m \<ge> 2 ^ 32 \<or> unat b + unat n \<ge> 2 ^ 32")
    case True
    then show ?thesis by (auto simp: sample_regions_overlap_def wrap)
  next
    case False
    then have s: "unat (a + m) = unat a + unat m" "unat (b + n) = unat b + unat n"
      by (simp_all add: unat_add_u32)
    have "0 < unat m" "0 < unat n" using False by (auto simp: unat_gt_0 word_neq_0_conv)
    then have "{unat a ..< unat a + unat m} \<inter> {unat b ..< unat b + unat n} \<noteq> {} \<longleftrightarrow>
        unat a < unat b + unat n \<and> unat b < unat a + unat m"
      by (auto simp: ex_in_conv [symmetric] intro: exI [of _ "max (unat a) (unat b)"])
    moreover have "sample_regions_overlap a m b n \<longleftrightarrow> a < b + n \<and> b < a + m"
      using False unfolding sample_regions_overlap_def wrap by simp
    ultimately show ?thesis using False s by (simp add: word_less_nat_alt)
  qed
qed

text \<open>The region checks of a sample are exact and never wrap around: a sample fits exactly when
  its rows are nonempty, do not overlap each other and the last one ends inside the capacity, and
  two regions count as overlapping exactly when both are nonempty and they share a byte or one of
  them reaches the end of the address space.\<close>

theorem region_checks_exact:
  "(sample_region_fits capacity row stride T \<longleftrightarrow>
      row \<noteq> 0 \<and> row \<le> stride \<and> T \<noteq> 0 \<and> (unat T - 1) * unat stride + unat row \<le> unat capacity) \<and>
   (sample_regions_overlap a m b n \<longleftrightarrow>
      m \<noteq> 0 \<and> n \<noteq> 0 \<and> (unat a + unat m \<ge> 2 ^ 32 \<or> unat b + unat n \<ge> 2 ^ 32 \<or>
       (\<exists>k. k \<in> {unat a ..< unat a + unat m} \<and> k \<in> {unat b ..< unat b + unat n})))"
proof -
  have "X \<inter> Y \<noteq> {} \<longleftrightarrow> (\<exists>k. k \<in> X \<and> k \<in> Y)" for X Y :: "nat set" by blast
  from overlap_lemma [of a m b n, unfolded this] fits_lemma [of capacity row stride T] show ?thesis by blast
qed

lemma row_index:
  assumes "sample_region_fits cap row stride T" "ts < T" "idx < row"
  shows "unat (ts * stride + idx) = unat ts * unat stride + unat idx"
    "unat ts * unat stride + unat idx < unat cap" "\<not> ts > (SIZE_MAX - idx) div stride"
    "stride \<noteq> 0" "idx < stride" "unat ts * unat stride < 2 ^ 32"
proof -
  from assms(1) have f: "row \<le> stride" "T \<noteq> 0" "(unat T - 1) * unat stride + unat row \<le> unat cap"
    by (simp_all add: fits_lemma)
  show stride: "idx < stride" using f(1) assms(3) by simp
  then show "stride \<noteq> 0" by auto
  have "unat ts \<le> unat T - 1" using assms(2) by (simp add: word_less_nat_alt)
  then have "unat ts * unat stride \<le> (unat T - 1) * unat stride" by simp
  moreover have "unat idx < unat row" using assms(3) by (simp add: word_less_nat_alt)
  ultimately show lt: "unat ts * unat stride + unat idx < unat cap" using f(3) by linarith
  then have small: "unat ts * unat stride + unat idx < 2 ^ 32" using u32_max [of cap] by simp
  then show "unat ts * unat stride < 2 ^ 32" by simp
  then have "unat (ts * stride) = unat ts * unat stride" by (intro unat_mult_u32) simp
  then show "unat (ts * stride + idx) = unat ts * unat stride + unat idx"
    using small by (simp add: unat_add_u32)
  have "unat (SIZE_MAX - idx) = 4294967295 - unat idx" by (rule unat_SIZE_MAX_diff)
  moreover have "unat ts * unat stride \<le> 4294967295 - unat idx" using small by simp
  moreover have "0 < unat stride" using stride by (simp add: word_less_nat_alt)
  ultimately have "unat ts \<le> unat (SIZE_MAX - idx) div unat stride"
    by (simp add: less_eq_div_iff_mult_less_eq)
  then show "\<not> ts > (SIZE_MAX - idx) div stride" by (simp add: word_less_nat_alt unat_div)
qed



section \<open>Fast layouts\<close>

text \<open>The element of a VOLTAGE address, and the key of its lane 0.\<close>

definition voltage_element :: "u32 \<Rightarrow> u32" where
  "voltage_element x = push_bit 3 (drop_bit 5 x) OR (x AND 7)"

definition voltage_base :: "u32 \<Rightarrow> u32" where
  "voltage_base x = x AND NOT 24"

lemma bit_small_masks:
  "bit (7 :: int) n \<longleftrightarrow> n < 3" "bit (24 :: int) n \<longleftrightarrow> n = 3 \<or> n = 4" "bit (31 :: int) n \<longleftrightarrow> n < 5"
  "bit (3 :: int) n \<longleftrightarrow> n < 2"
proof -
  have "bit (mask k :: int) n \<longleftrightarrow> n < k" for k by (simp add: bit_mask_iff)
  from this [of 3] this [of 5] this [of 2]
  show "bit (7 :: int) n \<longleftrightarrow> n < 3" "bit (31 :: int) n \<longleftrightarrow> n < 5" "bit (3 :: int) n \<longleftrightarrow> n < 2"
    by (simp_all add: mask_eq_exp_minus_1)
  have "(24 :: int) = push_bit 3 (mask 2)" by (simp add: mask_eq_exp_minus_1 push_bit_eq_mult)
  then have "bit (24 :: int) n \<longleftrightarrow> bit (push_bit 3 (mask 2) :: int) n" by (rule arg_cong)
  also have "\<dots> \<longleftrightarrow> 3 \<le> n \<and> n - 3 < 2" by (simp only: bit_push_bit_iff_int bit_mask_iff possible_bit_int) simp
  finally show "bit (24 :: int) n \<longleftrightarrow> n = 3 \<or> n = 4" by auto
qed

lemma expected_voltage: "expected_axon True e = push_bit 5 (drop_bit 3 e) OR (e AND 7)"
  by (simp add: expected_axon_def)

lemma bit_voltage_base: "bit (voltage_base x) n \<longleftrightarrow> bit x n \<and> n \<noteq> 3 \<and> n \<noteq> 4"
  by (auto simp: voltage_base_def bit_simps bit_small_masks dest: bit_imp_le_length)

lemma bit_voltage_element: "bit (voltage_element x) n \<longleftrightarrow> (if n < 3 then bit x n else bit x (n + 2))"
  by (auto simp: voltage_element_def bit_simps bit_small_masks dest: bit_imp_le_length)

lemma bit_expected: "bit (expected_axon True e) n \<longleftrightarrow>
    n < 32 \<and> (if n < 3 then bit e n else 5 \<le> n \<and> bit e (n - 2))"
  by (auto simp: expected_voltage bit_simps bit_small_masks dest: bit_imp_le_length)

lemma expected_element: "expected_axon True (voltage_element x) = voltage_base x"
proof (rule bit_word_eqI)
  fix n assume "n < LENGTH(32)"
  then show "bit (expected_axon True (voltage_element x)) n = bit (voltage_base x) n"
    by (cases "n < 5") (auto simp: bit_expected bit_voltage_element bit_voltage_base
        elim!: le_SucE dest!: not_less [THEN iffD1] le_Suc_ex)
qed

lemma element_expected:
  assumes "e < 2 ^ 30" shows "voltage_element (expected_axon True e) = e"
proof -
  have small: "n < 30" if "bit e n" for n
    using that bit_small_word [of e 30 n] assms by (simp add: word_less_nat_alt)
  show ?thesis
    by (rule bit_word_eqI) (auto simp: bit_expected bit_voltage_element dest: small)
qed

lemma element_base: "voltage_element (voltage_base x) = voltage_element x"
  by (rule bit_word_eqI) (auto simp: bit_voltage_element bit_voltage_base)

lemma voltage_lane_forms:
  "drop_bit 3 (x AND 31) = drop_bit 3 x AND (3 :: u32)" "(x AND 31) AND 7 = x AND (7 :: u32)"
  "x - (drop_bit 3 x AND 3) * 8 = voltage_base x" "drop_bit 3 x AND 3 < (4 :: u32)"
proof -
  show "drop_bit 3 (x AND 31) = drop_bit 3 x AND (3 :: u32)" "(x AND 31) AND 7 = x AND (7 :: u32)"
    by (rule bit_word_eqI, auto simp: bit_simps bit_small_masks)+
  have "(drop_bit 3 x AND 3) * 8 = push_bit 3 (drop_bit 3 x AND 3)" by (simp add: push_bit_eq_mult)
  also have "\<dots> = x AND 24"
    by (rule bit_word_eqI) (auto simp: bit_simps bit_small_masks)
  finally have l: "(drop_bit 3 x AND 3) * 8 = x AND 24" .
  have "x = (x AND 24) + (x AND NOT 24)"
    by (subst disjunctive_add_eq_or) (auto intro!: bit_word_eqI simp: bit_simps bit_small_masks)
  then show "x - (drop_bit 3 x AND 3) * 8 = voltage_base x"
    unfolding l voltage_base_def by (metis add_diff_cancel_left')
  have "drop_bit 3 x AND 3 \<le> (3 :: u32)" by (rule word_and_le1)
  then show "drop_bit 3 x AND 3 < (4 :: u32)" by (rule order.strict_trans1) simp
qed


lemma expected_inj: "is_v \<longrightarrow> e < 2 ^ 30 \<Longrightarrow> is_v \<longrightarrow> e' < 2 ^ 30 \<Longrightarrow>
    expected_axon is_v e = expected_axon is_v e' \<Longrightarrow> e = e'"
  by (cases is_v) (metis element_expected, simp add: expected_axon_def)

lemma fast_layout_loop_None:
  assumes "ov_entries v = Some es"
  shows "fast_layout_loop v is_v e n = None \<Longrightarrow> unat e \<le> unat x \<Longrightarrow> unat x < unat e + n \<Longrightarrow>
    \<exists>c. find_output_entry es (expected_axon is_v x) = Some c \<and> oe_elem_idx c = x"
proof (induction n arbitrary: e)
  case (Suc n)
  from Suc.prems(1) obtain c where c: "find_output_entry es (expected_axon is_v e) = Some c" "oe_elem_idx c = e"
    and rest: "fast_layout_loop v is_v (e + 1) n = None"
    by (auto simp: Let_def output_find_eq [OF assms] split: option.splits if_splits)
  show ?case
  proof (cases "x = e")
    case True
    with c show ?thesis by blast
  next
    case False
    with Suc.prems(2) have lt: "e < x" by (simp add: word_less_nat_alt word_unat_eq_iff)
    then have "unat (e + 1) = unat e + 1" by (rule unat_Suc_word)
    with Suc.IH [OF rest] Suc.prems(3) lt show ?thesis by (simp add: word_less_nat_alt)
  qed
qed simp

text \<open>
  A view with a fast layout has exactly the keys of its elements: the checks find every element's
  key, and there are no more entries than elements.
\<close>

definition fast_keys :: "rvrt_artifact_output_mapping_view \<Rightarrow> bool \<Rightarrow> bool" where
  "fast_keys v is_v \<longleftrightarrow> (\<forall>key. case ov_entries v of None \<Rightarrow> False | Some es \<Rightarrow>
     (case find_output_entry es key of
        None \<Rightarrow> \<forall>e. expected_axon is_v e = key \<longrightarrow> (is_v \<longrightarrow> e < 2 ^ 30) \<longrightarrow> \<not> e < ov_element_count v
      | Some c \<Rightarrow> oe_elem_idx c < ov_element_count v \<and> key = expected_axon is_v (oe_elem_idx c)))"

lemma fast_layout_keys:
  assumes v: "output_view_ok v" and loop: "fast_layout_loop v is_v 0 (unat (ov_element_count v)) = None"
    and n: "ov_entry_count v = ov_element_count v" "ov_element_count v \<noteq> 0"
    and small: "is_v \<longrightarrow> unat (ov_element_count v) \<le> 2 ^ 30"
  shows "fast_keys v is_v"
proof -
  let ?n = "unat (ov_element_count v)" and ?E = "{e. e < ov_element_count v}"
  from v obtain es where es: "ov_entries v = Some es" "ov_entry_count v = vsize es"
      "sorted_wrt (<) (output_keys es)" "list_all (output_entry_ok ?n) es"
    by (auto simp: output_view_ok_def split: option.splits)
  have found: "\<exists>c. find_output_entry es (expected_axon is_v e) = Some c \<and> oe_elem_idx c = e" if "e \<in> ?E" for e
    using fast_layout_loop_None [OF es(1) loop, of e] that by (simp add: word_less_nat_alt)
  let ?K = "set (output_keys es)"
  have dist: "distinct (output_keys es)"
    using es(3) by (simp add: strict_sorted_iff)
  have "length (output_keys es) \<le> card (UNIV :: u32 set)"
    using distinct_card [OF dist] card_mono [of UNIV ?K] by simp
  then have "length es \<le> 2 ^ 32" by (simp add: output_keys_def card_word)
  moreover have "vsize es \<noteq> (0 :: u32)" using es(2) n by simp
  then have "length es \<noteq> 2 ^ 32" by (auto simp: word_unat_eq_iff unat_of_nat)
  ultimately have "length es < 2 ^ 32" by simp
  then have len: "length es = ?n" using es(2) n(1) by (simp add: word_unat_eq_iff unat_of_nat)
  have e30: "is_v \<longrightarrow> e < 2 ^ 30" if "e \<in> ?E" for e
    using that small by (auto simp: word_less_nat_alt)
  have inj: "inj_on (expected_axon is_v) ?E"
    by (rule inj_onI) (use expected_inj e30 in blast)
  have "expected_axon is_v ` ?E \<subseteq> ?K"
    using found find_output_entry_Some by (force simp: output_keys_def)
  moreover have "card (expected_axon is_v ` ?E) = card ?K"
  proof -
    have "unat ` ?E = {..< ?n}"
    proof (intro equalityI subsetI)
      fix k assume "k \<in> {..< ?n}"
      then have k: "k < ?n" by simp
      then have "k < 2 ^ LENGTH(32)" using u32_max [of "ov_element_count v"] by simp
      then have "unat (word_of_nat k :: u32) = k" by (simp add: unat_of_nat take_bit_nat_eq_self_iff)
      with k have "word_of_nat k \<in> ?E" "k = unat (word_of_nat k :: u32)" by (simp_all add: word_less_nat_alt)
      then show "k \<in> unat ` ?E" by (rule rev_image_eqI)
    qed (auto simp: word_less_nat_alt)
    moreover have "inj_on unat ?E" by (simp add: inj_on_def word_unat_eq_iff)
    ultimately have "card ?E = ?n" using card_image [of unat ?E] by simp
    then show ?thesis
      using card_image [OF inj] distinct_card [OF dist] len by (simp add: output_keys_def)
  qed
  ultimately have K: "expected_axon is_v ` ?E = ?K" by (intro card_subset_eq) auto
  show ?thesis
    unfolding fast_keys_def es(1) option.case
  proof
    fix key
    show "case find_output_entry es key of
        None \<Rightarrow> \<forall>e. expected_axon is_v e = key \<longrightarrow> (is_v \<longrightarrow> e < 2 ^ 30) \<longrightarrow> \<not> e < ov_element_count v
      | Some c \<Rightarrow> oe_elem_idx c < ov_element_count v \<and> key = expected_axon is_v (oe_elem_idx c)"
    proof (cases "find_output_entry es key")
      case None
      with found show ?thesis by force
    next
      case (Some c)
      with find_output_entry_Some [OF Some] have "key \<in> ?K" by (force simp: output_keys_def)
      then obtain e where e: "e \<in> ?E" "key = expected_axon is_v e" using K by auto
      with found [OF e(1)] Some show ?thesis by auto
    qed
  qed
qed



section \<open>The fast handlers\<close>

lemma work_address:
  assumes "output_view_ok v"
  obtains ts x where "rvrt_output_frame_address v f = Inr (ts, x)"
proof -
  from assms have "\<not> ov_target_lcn v > RVRT_WF_TARGET_LCN_MAX"
    by (auto simp: output_view_ok_def word_less_nat_alt split: option.splits)
  then show ?thesis using that by (simp add: rvrt_output_frame_address_def Let_def)
qed

lemma fast_keys_data:
  assumes "fast_keys v False" "ov_entries v = Some es"
  shows "case find_output_entry es x of None \<Rightarrow> \<not> x < ov_element_count v
         | Some c \<Rightarrow> x < ov_element_count v \<and> oe_elem_idx c = x"
  using spec [OF assms(1) [unfolded fast_keys_def], of x] assms(2)
  by (auto simp: expected_axon_def split: option.splits)

lemma data_fast_frame_eq:
  assumes "output_view_ok v" "fast_keys v False" "ov_element_count v = row"
    and "sample_region_fits cap row stride T" "rvrt_frame_is_work_type1 f"
    and "rn_output_view r = v" "rt_timesteps (rn_runtime r) = T"
    and "rvrt_output_frame_address v f = Inr (ts, x)"
  shows "runner_decode_data_fast_frame r f out cap stride submitted =
     (if ts \<ge> submitted then Some (RVRT_CODEC_STATUS_OUT_OF_RANGE, out)
      else map_option (\<lambda>(st, out, _). (st, out)) (decode_data_work_frame v f 1 False T stride out cap))"
proof -
  from assms(1) obtain es where es: "ov_entries v = Some es" by (auto simp: output_view_ok_def split: option.splits)
  have kind: "rvrt_frame_is_work (Some f)" "drop_bit 29 (fr_high f) AND 1 = 0"
    using assms(5) by (simp_all add: rvrt_frame_is_work_type1_def)
  have mask: "(fr_low f AND 255) AND NOT (bit_mask 1) = (fr_low f AND 255) AND NOT 1"
    by (simp add: bit_mask_def)
  have payload: "decode_payload (fr_low f AND 255) 1 False = ucast (fr_low f AND 255)"
    if "(fr_low f AND 255) AND NOT 1 = 0"
  proof -
    have "(fr_low f AND 255) = ((fr_low f AND 255) AND 1) OR ((fr_low f AND 255) AND NOT 1)"
      by (rule bit_word_eqI) (auto simp: bit_simps)
    with that have "(fr_low f AND 255) AND 1 = fr_low f AND 255" by simp
    then show ?thesis by (simp add: decode_payload_def bit_mask_def)
  qed
  show ?thesis
  proof (cases "ts < T \<and> x < row")
    case True
    note row = row_index [OF assms(4) conjunct1 [OF True] conjunct2 [OF True]]
    from fast_keys_data [OF assms(2) es, of x] True assms(3) obtain c where
      c: "find_output_entry es x = Some c" "oe_elem_idx c = x" by (auto split: option.splits)
    have lim: "stride \<noteq> 0" "\<not> stride \<le> x" "\<not> ts > (SIZE_MAX - x) div stride"
      using row(3-5) by simp_all
    show ?thesis
      using True kind assms(3,6,7,8) lim c payload
      by (auto simp: runner_decode_data_fast_frame_def decode_data_work_frame_def mask Let_def not_le
          output_address_for_work_frame_def output_find_eq [OF es] split: bind_splits)
  next
    case False
    with fast_keys_data [OF assms(2) es, of x] assms(3) have
      "\<not> ts < T \<or> find_output_entry es x = None" by (auto split: option.splits)
    with False kind assms(3,6,7,8) show ?thesis
      by (auto simp: runner_decode_data_fast_frame_def decode_data_work_frame_def not_le not_less
          output_address_for_work_frame_def output_find_eq [OF es])
  qed
qed


lemma unat_below_by_bits:
  fixes w :: u32
  assumes "\<And>n. bit w n \<Longrightarrow> n < k"
  shows "unat w < 2 ^ k"
proof -
  have "take_bit k w = w" by (rule bit_word_eqI) (auto simp: bit_take_bit_iff dest: assms)
  then have "unat w = take_bit k (unat w)" by (metis unsigned_take_bit_eq)
  then show ?thesis by (metis take_bit_nat_less_exp)
qed

text \<open>Byte strides and capacities that are multiples of four, counted in 32-bit elements.\<close>

lemma row_div4:
  assumes "unat n \<le> 2 ^ 30" "sample_region_fits cap (n * 4) stride T" "n \<noteq> 0" "cap mod 4 = 0" "stride mod 4 = 0"
    and "ts < T" "e < n"
  shows "unat (ts * (stride div 4) + e) = unat ts * unat (stride div 4) + unat e"
    "ts * (stride div 4) + e < cap div 4" "\<not> ts > (SIZE_MAX - e) div (stride div 4)"
    "stride div 4 \<noteq> 0" "e < stride div 4"
proof -
  have c4: "unat cap = 4 * unat (cap div 4)" "unat stride = 4 * unat (stride div 4)"
    using assms(4,5) by (simp_all add: word_unat_eq_iff unat_mod unat_div mod_eq_0_iff_dvd dvd_def)
  have f: "n * 4 \<noteq> 0" "n * 4 \<le> stride" "T \<noteq> 0" "(unat T - 1) * unat stride + unat (n * 4) \<le> unat cap"
    using assms(2) by (simp_all add: fits_lemma)
  have n4: "unat (n * 4) = 4 * unat n"
  proof (cases "unat n = 2 ^ 30")
    case True
    then have "n = 2 ^ 30" by (simp add: word_unat_eq_iff)
    with f(1) show ?thesis by simp
  next
    case False
    with assms(1) have "unat n * unat (4 :: u32) < 2 ^ 32" by simp
    from unat_mult_u32 [OF this] show ?thesis by simp
  qed
  have "4 * unat n \<le> unat stride" using f(2) n4 by (simp add: word_le_nat_alt)
  then have ns: "unat n \<le> unat (stride div 4)" using c4(2) by simp
  have fits: "sample_region_fits (cap div 4) n (stride div 4) T"
  proof -
    have "4 * ((unat T - 1) * unat (stride div 4) + unat n) \<le> 4 * unat (cap div 4)"
      using f(4) n4 c4 by (simp add: algebra_simps)
    then show ?thesis using ns assms(3) f(3) by (simp add: fits_lemma word_le_nat_alt)
  qed
  note r = row_index [OF fits assms(6,7)]
  show "unat (ts * (stride div 4) + e) = unat ts * unat (stride div 4) + unat e"
    "\<not> ts > (SIZE_MAX - e) div (stride div 4)" "stride div 4 \<noteq> 0" "e < stride div 4"
    using r by simp_all
  show "ts * (stride div 4) + e < cap div 4" using r(1,2) by (simp add: word_less_nat_alt)
qed

lemma fast_keys_voltage:
  assumes "fast_keys v True" "ov_entries v = Some es" "unat (ov_element_count v) \<le> 2 ^ 30"
  shows "case find_output_entry es (voltage_base x) of
           None \<Rightarrow> \<not> voltage_element x < ov_element_count v
         | Some c \<Rightarrow> voltage_element x < ov_element_count v \<and> oe_elem_idx c = voltage_element x"
proof (cases "find_output_entry es (voltage_base x)")
  case None
  have "voltage_element x < 2 ^ 30"
  proof -
    have "unat (voltage_element x) < 2 ^ 30"
      by (rule unat_below_by_bits) (auto simp: bit_voltage_element dest: bit_imp_le_length split: if_splits)
    then show ?thesis by (simp add: word_less_nat_alt)
  qed
  with None spec [OF assms(1) [unfolded fast_keys_def], of "voltage_base x"] assms(2) show ?thesis
    using expected_element [of x] by auto
next
  case (Some c)
  with spec [OF assms(1) [unfolded fast_keys_def], of "voltage_base x"] assms(2) have
    c: "oe_elem_idx c < ov_element_count v" "voltage_base x = expected_axon True (oe_elem_idx c)" by auto
  have "oe_elem_idx c < 2 ^ 30" using c(1) assms(3) by (simp add: word_less_nat_alt)
  then have "oe_elem_idx c = voltage_element (voltage_base x)" using element_expected c(2) by metis
  with Some c(1) show ?thesis by (simp add: element_base)
qed

lemma voltage_state_capacity_iff:
  "voltage_state_capacity T n (Some z) = (True, Some req) \<longleftrightarrow>
     T \<noteq> 0 \<and> n \<noteq> 0 \<and> unat T * unat n < 2 ^ 32 \<and> req = T * n"
proof (cases "n = 0")
  case False
  then have "0 < unat n" by (simp add: unat_gt_0 word_neq_0_conv)
  from mult_overflow_guard [OF this, of T] False show ?thesis
    by (auto simp: voltage_state_capacity_def)
qed (simp add: voltage_state_capacity_def)

lemma voltage_fast_frame_eq:
  assumes v: "output_view_ok v" "fast_keys v True" "ov_kind v = RVRT_OUTPUT_VOLTAGE"
      "ov_dtype v = RVRT_DTYPE_VOLTAGE_INT32" "ov_element_count v \<noteq> 0"
    and row: "unat (ov_element_count v) \<le> 2 ^ 30" "sample_region_fits cap (ov_element_count v * 4) stride T"
      "cap mod 4 = 0" "stride mod 4 = 0"
    and state: "unat T * unat (ov_element_count v) < 2 ^ 32"
    and "rvrt_frame_is_work_type2 f" "rn_output_view r = v" "rt_timesteps (rn_runtime r) = T"
    and "rvrt_output_frame_address v f = Inr (ts, x)" "rn_voltage_state_capacity r = sc"
    and "T * ov_element_count v \<le> sc"
  shows "runner_decode_voltage_fast_frame r f out cap stride submitted st =
     (if ts \<ge> submitted then Some (RVRT_CODEC_STATUS_OUT_OF_RANGE, out, st)
      else map_option (\<lambda>(s, out, st, _). (s, the out, the st))
        (decode_voltage_work_frame (Some v) (Some f) T (Some out) (cap div 4) (stride div 4) (Some st) sc
           (Some False)))"
proof -
  from v(1) obtain es where es: "ov_entries v = Some es" by (auto simp: output_view_ok_def split: option.splits)
  have kind: "rvrt_frame_is_work (Some f)" "drop_bit 29 (fr_high f) AND 1 = 1"
    using assms(11) by (simp_all add: rvrt_frame_is_work_type2_def)
  let ?e = "voltage_element x" and ?l = "drop_bit 3 x AND 3"
  have fast: "push_bit 3 (drop_bit 5 x) OR ((x AND 31) AND 7) = ?e" "drop_bit 3 (x AND 31) = ?l"
    "?l < 4" "x - ?l * 8 = voltage_base x"
    using voltage_lane_forms [of x] by (simp_all add: voltage_element_def)
  show ?thesis
  proof (cases "ts < T \<and> ?e < ov_element_count v")
    case False
    with fast_keys_voltage [OF v(2) es row(1), of x] have
      "\<not> ts < T \<or> find_output_entry es (voltage_base x) = None" by (auto split: option.splits)
    with False kind assms(11-14) v(3,4) fast es show ?thesis
      by (auto simp: runner_decode_voltage_fast_frame_def decode_voltage_work_frame_def not_le not_less Let_def
          output_address_for_work_frame_def output_find_eq [OF es] split: option.split)
  next
    case True
    note d4 = row_div4 [OF row(1,2) v(5) row(3,4) conjunct1 [OF True] conjunct2 [OF True]]
    note si = window_index [OF conjunct1 [OF True] conjunct2 [OF True] order_refl state]
    from fast_keys_voltage [OF v(2) es row(1), of x] True obtain c where
      c: "find_output_entry es (voltage_base x) = Some c" "oe_elem_idx c = ?e" by (auto split: option.splits)
    have sum: "unat (T * ov_element_count v) = unat T * unat (ov_element_count v)"
      by (rule unat_mult_u32 [OF state])
    have sidx: "ts * ov_element_count v + ?e < sc"
      using si(1,2) sum assms(16) by (simp add: word_less_nat_alt word_le_nat_alt)
    have lim: "stride div 4 \<noteq> 0" "\<not> ?e \<ge> stride div 4" "\<not> ts > (SIZE_MAX - ?e) div (stride div 4)"
      "\<not> ts > (SIZE_MAX - ?e) div ov_element_count v" "\<not> ts * (stride div 4) + ?e \<ge> cap div 4"
      "\<not> ts * ov_element_count v + ?e \<ge> sc" "\<not> T \<le> ts" "\<not> ov_element_count v \<le> ?e" "\<not> 4 \<le> ?l"
      using d4(2-5) si(3) sidx True fast(3) by (simp_all only: not_le not_False_eq_True)
    let ?pay = "ucast (fr_low f AND RVRT_WF_PAYLOAD_MASK) :: u8"
    have store: "map_option (\<lambda>(s, out, st, _). (s, out, st))
        (rvrt_store_voltage_lane out (ts * (stride div 4) + ?e) (cap div 4) st (ts * ov_element_count v + ?e)
          sc ?l ?pay None) =
      map_option (\<lambda>(s, out, st, _). (s, out, st))
        (rvrt_store_voltage_lane out (ts * (stride div 4) + ?e) (cap div 4) st (ts * ov_element_count v + ?e)
          sc ?l ?pay (Some False))"
      by (auto simp: rvrt_store_voltage_lane_def Let_def split: bind_split)
    have wrap: "do { (s, out, st, _) \<leftarrow> X; Some (s, out, st) } =
        map_option (\<lambda>(s, out, st, _). (s, out, st)) X"
      for X :: "(codec_status \<times> u8 list \<times> u8 list \<times> bool option) option"
      by (cases X) auto
    have generic: "decode_voltage_work_frame (Some v) (Some f) T (Some out) (cap div 4) (stride div 4) (Some st)
        sc (Some False) = do {
          (s, out, st, written) \<leftarrow> rvrt_store_voltage_lane out (ts * (stride div 4) + ?e) (cap div 4) st
            (ts * ov_element_count v + ?e) sc ?l ?pay (Some False);
          Some (s, Some out, Some st, written) }"
      using kind assms(11,14) v(3-5) es fast(4) c lim
      by (simp add: decode_voltage_work_frame_def Let_def output_address_for_work_frame_def
          output_find_eq [OF es])
    have unwrap: "map_option (\<lambda>(s, out, st, _). (s, the out, the st))
        (do { (s, out, st, written) \<leftarrow> X; Some (s, Some out, Some st, written) }) =
        map_option (\<lambda>(s, out, st, _). (s, out, st)) X"
      for X :: "(codec_status \<times> u8 list \<times> u8 list \<times> bool option) option"
      by (cases X) auto
    show ?thesis
      using kind assms(12-15) lim
      by (simp add: runner_decode_voltage_fast_frame_def Let_def fast(1,2) wrap store generic unwrap)
  qed
qed



section \<open>Fast and generic handling agree\<close>

text \<open>What \<open>run_sample\<close> has established when it passes a decode context to a barrier.\<close>

definition runner_ok :: "paicore_runner \<Rightarrow> bool" where
  "runner_ok r \<longleftrightarrow> output_view_ok (rn_output_view r) \<and> ov_element_count (rn_output_view r) \<noteq> 0 \<and>
     runner_output_row_bytes (rn_output_view r) = Some (rn_output_row_bytes r) \<and>
     configure_fast_layout r = (RVRT_SESSION_OK, r)"

definition state_ok :: "paicore_runner \<Rightarrow> runner_mem \<Rightarrow> bool" where
  "state_ok r mem \<longleftrightarrow> ov_kind (rn_output_view r) = RVRT_OUTPUT_VOLTAGE \<longrightarrow>
     (\<exists>b req. rn_voltage_state r = Some b \<and>
        voltage_state_capacity (rt_timesteps (rn_runtime r)) (ov_element_count (rn_output_view r)) (Some 0) =
          (True, Some req) \<and> req \<le> rn_voltage_state_capacity r \<and>
        unat (rn_voltage_state_capacity r) \<le> length (mm_state mem b))"

definition decode_ok :: "decode_context \<Rightarrow> paicore_runner \<Rightarrow> runner_mem \<Rightarrow> bool" where
  "decode_ok d r mem \<longleftrightarrow> dc_runner d = Some r \<and> runner_ok r \<and> state_ok r mem \<and>
     sample_region_fits (dc_output_capacity d) (rn_output_row_bytes r) (dc_output_stride d)
       (rt_timesteps (rn_runtime r)) \<and>
     unat (dc_output d) + unat (dc_output_capacity d) \<le> length (mm_bytes mem) \<and>
     (ov_kind (rn_output_view r) = RVRT_OUTPUT_VOLTAGE \<longrightarrow>
        dc_output_capacity d mod 4 = 0 \<and> dc_output_stride d mod 4 = 0)"

lemma put_output_same: "put_output d (decode_output d mem) mem = mem"
proof -
  have "take a xs @ take n (drop a xs) @ drop (a + length (take n (drop a xs))) xs = xs" for a n and xs :: "u8 list"
  proof -
    have "drop (a + length (take n (drop a xs))) xs = drop n (drop a xs)"
      by (cases "a + n \<le> length xs") (auto simp: min_def add.commute)
    then show ?thesis by (simp only: append_take_drop_id)
  qed
  then show ?thesis by (simp add: put_output_def decode_output_def region_def put_region_def)
qed

lemma put_state_same: "put_state r (runner_state r mem) mem = mem"
  by (cases mem) (auto simp: put_state_def runner_state_def split: option.split)

lemma row_bytes_voltage:
  assumes "runner_ok r" "ov_kind (rn_output_view r) = RVRT_OUTPUT_VOLTAGE"
  shows "rn_output_row_bytes r = ov_element_count (rn_output_view r) * 4"
    "unat (ov_element_count (rn_output_view r)) \<le> 2 ^ 30"
proof -
  have "unat (SIZE_MAX div 4) = 1073741823" by (simp add: unat_div unat_UINT32_MAX)
  then show "rn_output_row_bytes r = ov_element_count (rn_output_view r) * 4"
    "unat (ov_element_count (rn_output_view r)) \<le> 2 ^ 30"
    using assms by (auto simp: runner_ok_def runner_output_row_bytes_def word_less_nat_alt split: if_splits)
qed

lemma fast_flags:
  assumes "runner_ok r"
  shows "rn_has_fast_data_layout r \<Longrightarrow> ov_kind (rn_output_view r) = RVRT_OUTPUT_DATA \<and>
      ov_dtype (rn_output_view r) = 1 \<and> fast_keys (rn_output_view r) False"
    "rn_has_fast_voltage_layout r \<Longrightarrow> ov_kind (rn_output_view r) = RVRT_OUTPUT_VOLTAGE \<and>
      ov_dtype (rn_output_view r) = 9 \<and> fast_keys (rn_output_view r) True"
proof -
  let ?v = "rn_output_view r"
  let ?is_v = "ov_kind ?v = RVRT_OUTPUT_VOLTAGE \<and> ov_dtype ?v = RVRT_DTYPE_VOLTAGE_INT32"
  let ?is_d = "ov_kind ?v = RVRT_OUTPUT_DATA \<and> ov_dtype ?v = RUN_DATA_UINT1"
  have conf: "configure_fast_layout r = (RVRT_SESSION_OK, r)" using assms by (simp add: runner_ok_def)
  have loop: "fast_layout_loop ?v ?is_v 0 (unat (ov_element_count ?v)) = None \<and>
      ov_entry_count ?v = ov_element_count ?v \<and> ov_element_count ?v \<noteq> 0 \<and>
      rn_has_fast_data_layout r = ?is_d \<and> rn_has_fast_voltage_layout r = ?is_v"
    if "rn_has_fast_data_layout r \<or> rn_has_fast_voltage_layout r"
    using conf that unfolding configure_fast_layout_def Let_def
    by (cases r) (auto split: if_splits option.splits)
  have keys: "fast_keys ?v ?is_v" if "rn_has_fast_data_layout r \<or> rn_has_fast_voltage_layout r"
  proof (rule fast_layout_keys)
    show "output_view_ok ?v" using assms by (simp add: runner_ok_def)
    show "?is_v \<longrightarrow> unat (ov_element_count ?v) \<le> 2 ^ 30" using row_bytes_voltage [OF assms] by blast
  qed (use loop [OF that] in auto)
  show "rn_has_fast_data_layout r \<Longrightarrow> ov_kind ?v = RVRT_OUTPUT_DATA \<and> ov_dtype ?v = 1 \<and> fast_keys ?v False"
    using loop keys by (auto simp: numeral_eq_Suc)
  show "rn_has_fast_voltage_layout r \<Longrightarrow> ov_kind ?v = RVRT_OUTPUT_VOLTAGE \<and> ov_dtype ?v = 9 \<and> fast_keys ?v True"
    using loop keys by auto
qed

lemma generic_data:
  assumes "decode_ok d r mem" "ov_kind (rn_output_view r) = RVRT_OUTPUT_DATA" "dtype_bits (ov_dtype (rn_output_view r)) = Some (bits, sg)"
  shows "runner_handle_generic_frame (Some d) f mem =
    (if runner_validate_frame_timestep d f \<noteq> RVRT_SESSION_OK then Some (RVRT_SESSION_RUNTIME_ERROR, mem)
     else if \<not> rvrt_frame_is_work_type1 f then Some (RVRT_SESSION_OK, mem)
     else map_option (\<lambda>(st, out, _). (runner_handle_codec_result st, put_output d out mem))
       (decode_data_work_frame (rn_output_view r) f bits sg (rt_timesteps (rn_runtime r)) (dc_output_stride d)
          (decode_output d mem) (dc_output_capacity d)))"
proof -
  have r: "dc_runner d = Some r" "ov_entries (rn_output_view r) \<noteq> None" "rt_timesteps (rn_runtime r) \<noteq> 0"
    using assms(1) by (auto simp: decode_ok_def runner_ok_def output_view_ok_def fits_lemma split: option.splits)
  have val: "runner_validate_frame_timestep d f \<noteq> RVRT_SESSION_OK \<Longrightarrow>
      runner_validate_frame_timestep d f = RVRT_SESSION_RUNTIME_ERROR"
    by (auto simp: runner_validate_frame_timestep_def split: if_splits sum.splits)
  have put: "put_state r (runner_state r mem) (put_output d out mem) = put_output d out mem" for out
    by (cases mem) (auto simp: put_state_def runner_state_def put_output_def split: option.split)
  show ?thesis
    using r assms(2,3) val
    by (auto simp: runner_handle_generic_frame_def rvrt_decode_output_frames_incremental_def put
        put_output_same put_state_same runner_handle_codec_result_def Let_def map_option_case
        split: option.split prod.split)
qed

lemma generic_voltage:
  assumes "decode_ok d r mem" "ov_kind (rn_output_view r) = RVRT_OUTPUT_VOLTAGE"
  shows "runner_handle_generic_frame (Some d) f mem =
    (if runner_validate_frame_timestep d f \<noteq> RVRT_SESSION_OK then Some (RVRT_SESSION_RUNTIME_ERROR, mem)
     else map_option (\<lambda>(st, out, state, _). (runner_handle_codec_result st, put_state r state (put_output d (the out) mem)))
       (decode_voltage_work_frame (Some (rn_output_view r)) (Some f) (rt_timesteps (rn_runtime r))
          (Some (decode_output d mem)) (dc_output_capacity d div 4) (dc_output_stride d div 4)
          (runner_state r mem) (rn_voltage_state_capacity r) (Some False)))"
proof -
  have r: "dc_runner d = Some r" "ov_entries (rn_output_view r) \<noteq> None" "rt_timesteps (rn_runtime r) \<noteq> 0"
      "dc_output_capacity d mod 4 = 0" "dc_output_stride d mod 4 = 0" "runner_state r mem \<noteq> None"
    using assms by (auto simp: decode_ok_def runner_ok_def output_view_ok_def fits_lemma state_ok_def
        runner_state_def split: option.splits)
  have val: "runner_validate_frame_timestep d f \<noteq> RVRT_SESSION_OK \<Longrightarrow>
      runner_validate_frame_timestep d f = RVRT_SESSION_RUNTIME_ERROR"
    by (auto simp: runner_validate_frame_timestep_def split: if_splits sum.splits)
  show ?thesis
    using r assms(2) val
    by (auto simp: runner_handle_generic_frame_def rvrt_decode_output_frames_incremental_def
        runner_handle_codec_result_def Let_def map_option_case split: option.split prod.split)
qed

text \<open>A work frame of the other kind from a timestep that was not submitted yet.\<close>

definition foreign_future :: "decode_context \<Rightarrow> paicore_runner \<Rightarrow> rvrt_frame \<Rightarrow> bool" where
  "foreign_future d r f \<longleftrightarrow> rvrt_frame_is_work (Some f) \<and>
     drop_bit RVRT_FRAME_WORK_KIND_OFFSET (fr_high f) AND 1 \<noteq> ov_kind (rn_output_view r) \<and>
     runner_validate_frame_timestep d f \<noteq> RVRT_SESSION_OK"

lemma kind_bit: "drop_bit 29 (h :: u32) AND 1 = 0 \<or> drop_bit 29 h AND 1 = 1"
  by (simp add: and_one_eq mod_2_eq_odd)

lemma fast_data_agrees:
  assumes ok: "decode_ok d r mem" and fast: "rn_has_fast_data_layout r"
  shows "runner_handle_data_fast_frame (Some d) f mem =
    (if foreign_future d r f then Some (RVRT_SESSION_OK, mem) else runner_handle_generic_frame (Some d) f mem)"
proof -
  let ?v = "rn_output_view r" and ?T = "rt_timesteps (rn_runtime r)"
  have r: "dc_runner d = Some r" "runner_ok r" using ok by (simp_all add: decode_ok_def)
  note flags = fast_flags(1) [OF r(2) fast]
  have row: "rn_output_row_bytes r = ov_element_count ?v"
    using r(2) flags by (auto simp: runner_ok_def runner_output_row_bytes_def split: if_splits)
  obtain ts x where addr: "rvrt_output_frame_address ?v f = Inr (ts, x)"
    using work_address [of ?v f thesis] r(2) by (simp add: runner_ok_def)
  have dt: "dtype_bits (ov_dtype ?v) = Some (1, False)" using flags by (simp add: dtype_bits_def k_dtype_info_def)
  note gen = generic_data [OF ok conjunct1 [OF flags] dt, of f]
  show ?thesis
  proof (cases "rvrt_frame_is_work_type1 f")
    case True
    then have "\<not> foreign_future d r f" "rvrt_frame_is_work (Some f)"
      using flags by (auto simp: foreign_future_def rvrt_frame_is_work_type1_def)
    moreover have "runner_decode_data_fast_frame r f out (dc_output_capacity d) (dc_output_stride d)
        (dc_submitted_timesteps d) =
      (if ts \<ge> dc_submitted_timesteps d then Some (RVRT_CODEC_STATUS_OUT_OF_RANGE, out)
       else map_option (\<lambda>(st, out, _). (st, out))
         (decode_data_work_frame ?v f 1 False ?T (dc_output_stride d) out (dc_output_capacity d)))" for out
      by (rule data_fast_frame_eq) (use ok r flags row True addr in \<open>auto simp: decode_ok_def runner_ok_def\<close>)
    ultimately show ?thesis
      unfolding gen using r(1) addr True
      by (auto simp: runner_handle_data_fast_frame_def runner_validate_frame_timestep_def not_less
          runner_handle_codec_result_def put_output_same map_option_case split: option.splits)
  next
    case False
    have "runner_handle_data_fast_frame (Some d) f mem = Some (RVRT_SESSION_OK, mem)"
      using False r(1) by (auto simp: runner_handle_data_fast_frame_def runner_decode_data_fast_frame_def
          rvrt_frame_is_work_type1_def runner_handle_codec_result_def put_output_same)
    then show ?thesis
      unfolding gen using False flags
      by (auto simp: foreign_future_def rvrt_frame_is_work_type1_def runner_validate_frame_timestep_def)
  qed
qed

lemma fast_voltage_agrees:
  assumes ok: "decode_ok d r mem" and fast: "rn_has_fast_voltage_layout r"
  shows "runner_handle_voltage_fast_frame (Some d) f mem =
    (if foreign_future d r f then Some (RVRT_SESSION_OK, mem) else runner_handle_generic_frame (Some d) f mem)"
proof -
  let ?v = "rn_output_view r" and ?T = "rt_timesteps (rn_runtime r)"
  have r: "dc_runner d = Some r" "runner_ok r" using ok by (simp_all add: decode_ok_def)
  note flags = fast_flags(2) [OF r(2) fast]
  note row = row_bytes_voltage [OF r(2) conjunct1 [OF flags]]
  obtain ts x where addr: "rvrt_output_frame_address ?v f = Inr (ts, x)"
    using work_address [of ?v f thesis] r(2) by (simp add: runner_ok_def)
  from ok flags obtain b req where state: "rn_voltage_state r = Some b" "unat ?T * unat (ov_element_count ?v) < 2 ^ 32"
      "?T * ov_element_count ?v \<le> rn_voltage_state_capacity r"
    by (auto simp: decode_ok_def state_ok_def voltage_state_capacity_iff)
  then have st: "runner_state r mem = Some (mm_state mem b)" by (simp add: runner_state_def)
  have put: "put_state r (Some (mm_state mem b)) (put_output d (decode_output d mem) mem) = mem"
    using put_state_same [of r mem] st by (simp add: put_output_same)
  note gen = generic_voltage [OF ok conjunct1 [OF flags], of f]
  show ?thesis
  proof (cases "rvrt_frame_is_work_type2 f")
    case True
    then have kind: "\<not> foreign_future d r f" "rvrt_frame_is_work (Some f)"
      using flags by (auto simp: foreign_future_def rvrt_frame_is_work_type2_def)
    have "runner_decode_voltage_fast_frame r f (decode_output d mem) (dc_output_capacity d) (dc_output_stride d)
        (dc_submitted_timesteps d) (mm_state mem b) =
      (if ts \<ge> dc_submitted_timesteps d
       then Some (RVRT_CODEC_STATUS_OUT_OF_RANGE, decode_output d mem, mm_state mem b)
       else map_option (\<lambda>(s, out, st, _). (s, the out, the st))
        (decode_voltage_work_frame (Some ?v) (Some f) ?T (Some (decode_output d mem)) (dc_output_capacity d div 4)
          (dc_output_stride d div 4) (Some (mm_state mem b)) (rn_voltage_state_capacity r) (Some False)))"
      by (rule voltage_fast_frame_eq)
        (use ok r flags row True addr state in \<open>auto simp: decode_ok_def runner_ok_def\<close>)
    moreover have "\<exists>st''. st' = Some st''"
      if "decode_voltage_work_frame (Some ?v) (Some f) ?T (Some (decode_output d mem)) (dc_output_capacity d div 4)
          (dc_output_stride d div 4) (Some (mm_state mem b)) (rn_voltage_state_capacity r) (Some False) =
          Some (s, out', st', wr)" for s out' st' wr
      using that by (auto simp: decode_voltage_work_frame_def Let_def
          split: option.splits if_splits sum.splits prod.splits bind_splits)
    ultimately show ?thesis
      unfolding gen using r(1) addr kind put st
      by (fastforce simp: runner_handle_voltage_fast_frame_def runner_validate_frame_timestep_def not_less
          runner_handle_codec_result_def map_option_case split: option.splits)
  next
    case False
    have "runner_handle_voltage_fast_frame (Some d) f mem = Some (RVRT_SESSION_OK, mem)"
      using False r(1) put st by (auto simp: runner_handle_voltage_fast_frame_def runner_decode_voltage_fast_frame_def
          rvrt_frame_is_work_type2_def runner_handle_codec_result_def)
    moreover have "decode_voltage_work_frame (Some ?v) (Some f) ?T (Some (decode_output d mem))
        (dc_output_capacity d div 4) (dc_output_stride d div 4) (Some (mm_state mem b))
        (rn_voltage_state_capacity r) (Some False) =
      Some (RVRT_CODEC_STATUS_OK, Some (decode_output d mem), Some (mm_state mem b), Some False)"
      using False r(2) by (auto simp: decode_voltage_work_frame_def runner_ok_def output_view_ok_def split: option.splits)
    ultimately show ?thesis
      unfolding gen using False flags put st kind_bit [of "fr_high f"]
      by (auto simp: foreign_future_def rvrt_frame_is_work_type2_def runner_validate_frame_timestep_def
          runner_handle_codec_result_def)
  qed
qed

lemma fast_handlers_lemma:
  assumes "decode_ok d r mem"
  shows "runner_rx_frame_handler r (Some d) f mem =
    (if (rn_has_fast_data_layout r \<or> rn_has_fast_voltage_layout r) \<and> foreign_future d r f
     then Some (RVRT_SESSION_OK, mem) else runner_handle_generic_frame (Some d) f mem)"
  using fast_data_agrees [OF assms] fast_voltage_agrees [OF assms]
  by (auto simp: runner_rx_frame_handler_def)

text \<open>C8.  The fast receive handlers are exact replacements of the generic one: on a runner whose
  layout was recognised, every frame has the same status and leaves the same memory, output bytes
  and lane state alike, with a single exception: a work frame of the other output kind from a
  timestep not yet submitted, which the generic handler rejects and the fast handlers ignore.\<close>

theorem fast_handlers_agree:
  assumes "decode_ok d r mem"
  shows "runner_rx_frame_handler r (Some d) f mem =
    (if (rn_has_fast_data_layout r \<or> rn_has_fast_voltage_layout r) \<and> foreign_future d r f
     then Some (RVRT_SESSION_OK, mem) else runner_handle_generic_frame (Some d) f mem)"
  by (rule fast_handlers_lemma [OF assms])

text \<open>A runner with two 1-bit elements in the recognised layout, and a sample of two timesteps.\<close>

definition demo_fast_view :: rvrt_artifact_output_mapping_view where
  "demo_fast_view = \<lparr>ov_entries = Some [Some (demo_out_entry 0 0), Some (demo_out_entry 1 1)],
     ov_entry_count = 2, ov_element_count = 2, ov_dtype = 1, ov_kind = 0, ov_target_lcn = 0\<rparr>"

definition demo_runner :: paicore_runner where
  "demo_runner = zero_runner\<lparr>rn_artifact := demo_artifact, rn_input_view := demo_in_view,
     rn_output_view := demo_fast_view,
     rn_runtime := \<lparr>rt_timesteps = 2, rt_pipeline_latency = 1, rt_completion_sync_timestep = 2,
                    rt_output_time_encoding = 0\<rparr>,
     rn_timeout_ms := 2, rn_encode_frame_capacity := 4, rn_input_row_bytes := 2, rn_output_row_bytes := 2,
     rn_has_fast_data_layout := True\<rparr>"

definition demo_decode :: decode_context where
  "demo_decode = \<lparr>dc_runner = Some demo_runner, dc_output = 1, dc_output_capacity = 4, dc_output_stride = 2,
                  dc_submitted_timesteps = 1\<rparr>"

definition demo_mem :: runner_mem where
  "demo_mem = \<lparr>mm_bytes = [9, 0, 0, 0, 0, 9], mm_state = (\<lambda>_. [])\<rparr>"

lemma demo_runner_ok: "runner_ok demo_runner"
proof -
  have "output_view_ok demo_fast_view"
    by (simp add: output_view_ok_def demo_fast_view_def output_entry_ok_def demo_out_entry_def output_keys_def)
  moreover have "fast_layout_loop demo_fast_view False 0 2 = None"
    unfolding numeral_2_eq_2
    by (simp add: demo_fast_view_def expected_axon_def rvrt_artifact_output_mapping_find_def demo_out_entry_def)
  moreover have "ov_kind demo_fast_view = 0" "ov_dtype demo_fast_view = 1" "ov_entry_count demo_fast_view = 2"
    "ov_element_count demo_fast_view = 2"
    by (simp_all add: demo_fast_view_def)
  ultimately have "configure_fast_layout demo_runner = (RVRT_SESSION_OK, demo_runner)"
    by (simp add: configure_fast_layout_def demo_runner_def zero_runner_def Let_def)
  with \<open>output_view_ok demo_fast_view\<close> show ?thesis
    by (simp add: runner_ok_def demo_runner_def demo_fast_view_def runner_output_row_bytes_def)
qed

lemma demo_decode_ok: "decode_ok demo_decode demo_runner demo_mem"
  using demo_runner_ok
  by (simp add: decode_ok_def demo_decode_def state_ok_def fits_lemma demo_mem_def)
    (simp add: demo_runner_def demo_fast_view_def)

theorem fast_handlers_agree_witness:
  "runner_rx_frame_handler demo_runner (Some demo_decode) \<lparr>fr_high = 0x80000000, fr_low = 0x101\<rparr> demo_mem =
   runner_handle_generic_frame (Some demo_decode) \<lparr>fr_high = 0x80000000, fr_low = 0x101\<rparr> demo_mem"
  using fast_handlers_agree [OF demo_decode_ok]
  by (simp add: foreign_future_def demo_runner_def demo_fast_view_def)


section \<open>Received frames and memory\<close>

lemma decode_incremental_data_state:
  assumes "ov_kind v = RVRT_OUTPUT_DATA"
  shows "rvrt_decode_output_frames_incremental (Some v) fs n tot out sz stride state cap =
    map_option (\<lambda>(s, out, _). (s, out, state))
      (rvrt_decode_output_frames_incremental (Some v) fs n tot out sz stride (Some []) 0)"
  using assms
  by (auto simp: rvrt_decode_output_frames_incremental_def map_option_case Let_def
      split: option.split prod.split bind_split)

lemma length_put_region:
  "unat a + length xs \<le> length bytes \<Longrightarrow> length (put_region a xs bytes) = length bytes"
  by (simp add: put_region_def)

lemma length_region: "unat a + unat n \<le> length bytes \<Longrightarrow> length (region a n bytes) = unat n"
  by (simp add: region_def)

lemma decode_ok_lengths:
  assumes "decode_ok d r mem" "length (mm_bytes mem') = length (mm_bytes mem)"
    and "\<And>b. length (mm_state mem' b) = length (mm_state mem b)"
  shows "decode_ok d r mem'"
  using assms by (simp add: decode_ok_def state_ok_def)

lemma generic_handler_accepts:
  assumes ok: "decode_ok d r mem"
  shows "\<exists>st mem'. runner_handle_generic_frame (Some d) f mem = Some (st, mem') \<and> decode_ok d r mem'"
proof (cases "runner_validate_frame_timestep d f = RVRT_SESSION_OK")
  case False
  with ok show ?thesis by (auto simp: runner_handle_generic_frame_def decode_ok_def)
next
  case True
  let ?out = "decode_output d mem" and ?v = "rn_output_view r" and ?T = "rt_timesteps (rn_runtime r)"
  have len: "length ?out = unat (dc_output_capacity d)" "dc_runner d = Some r"
    using ok by (auto simp: decode_ok_def decode_output_def intro: length_region)
  have "\<exists>s out' st'. rvrt_decode_output_frames_incremental (Some ?v) (Some [f]) 1 ?T (Some ?out)
       (dc_output_capacity d) (dc_output_stride d) (runner_state r mem) (rn_voltage_state_capacity r) =
         Some (s, Some out', st') \<and> length out' = length ?out \<and>
       (case runner_state r mem of None \<Rightarrow> st' = None | Some st \<Rightarrow> \<exists>st''. st' = Some st'' \<and> length st'' = length st)"
  proof (cases "ov_kind ?v = RVRT_OUTPUT_DATA")
    case data: True
    from decode_incremental_safe [of "dc_output_capacity d" ?out 1 "[f]" 0 "[]" ?v ?T "dc_output_stride d"] len
    obtain s out' where "rvrt_decode_output_frames_incremental (Some ?v) (Some [f]) 1 ?T (Some ?out)
       (dc_output_capacity d) (dc_output_stride d) (Some []) 0 = Some (s, Some out', Some [])" "length out' = length ?out"
      by auto
    with decode_incremental_data_state [OF data, of "Some [f]" 1 ?T "Some ?out" "dc_output_capacity d"
        "dc_output_stride d" "runner_state r mem" "rn_voltage_state_capacity r"]
    show ?thesis by (cases "runner_state r mem") simp_all
  next
    case False
    then have "ov_kind ?v = RVRT_OUTPUT_VOLTAGE"
      using ok by (auto simp: decode_ok_def runner_ok_def runner_output_row_bytes_def split: if_splits)
    with ok obtain b where b: "runner_state r mem = Some (mm_state mem b)"
        "unat (rn_voltage_state_capacity r) \<le> length (mm_state mem b)"
      by (auto simp: decode_ok_def state_ok_def runner_state_def)
    from decode_incremental_safe [of "dc_output_capacity d" ?out 1 "[f]" _ _ ?v ?T "dc_output_stride d", OF _ _ b(2)] len b(1)
    show ?thesis by fastforce
  qed
  then obtain s out' st' where r1: "rvrt_decode_output_frames_incremental (Some ?v) (Some [f]) 1 ?T (Some ?out)
       (dc_output_capacity d) (dc_output_stride d) (runner_state r mem) (rn_voltage_state_capacity r) =
         Some (s, Some out', st')" "length out' = length ?out"
       "case runner_state r mem of None \<Rightarrow> st' = None | Some st \<Rightarrow> \<exists>st''. st' = Some st'' \<and> length st'' = length st"
    by blast
  let ?mem = "put_state r st' (put_output d out' mem)"
  have "runner_handle_generic_frame (Some d) f mem = Some (runner_handle_codec_result s, ?mem)"
    using True len(2) r1(1) by (simp add: runner_handle_generic_frame_def Let_def)
  moreover have "decode_ok d r ?mem"
  proof (rule decode_ok_lengths [OF ok])
    have "unat (dc_output d) + length out' \<le> length (mm_bytes mem)"
      using ok r1(2) len(1) by (simp add: decode_ok_def)
    then show "length (mm_bytes ?mem) = length (mm_bytes mem)"
      by (auto simp: put_state_def put_output_def length_put_region split: option.split)
    show "length (mm_state ?mem b) = length (mm_state mem b)" for b
      using r1(3) by (auto simp: put_state_def put_output_def runner_state_def split: option.splits)
  qed
  ultimately show ?thesis by blast
qed

interpretation runner_sink: rx_sink "runner_rx_frame_handler r" "Some d" "decode_ok d r" for r d
proof unfold_locales
  fix m f assume ok: "decode_ok d r m"
  show "\<exists>st m'. runner_rx_frame_handler r (Some d) f m = Some (st, m') \<and> decode_ok d r m'"
    unfolding fast_handlers_lemma [OF ok] using ok generic_handler_accepts [OF ok, of f] by auto
qed

end
