(* ===== verification/Runner_Rows.thy ===== *)
theory Runner_Rows
  imports Runner_Laws
begin

text \<open>
  Where the receive handlers write: a received frame changes bytes of output rows that were submitted,
  and the lane state of the runner, and nothing else.
\<close>

section \<open>One frame, in the coordinates of the output region\<close>

text \<open>Two buffers that agree outside row \<open>t\<close>.\<close>

definition agree_off_row :: "nat \<Rightarrow> nat \<Rightarrow> nat \<Rightarrow> u8 list \<Rightarrow> u8 list \<Rightarrow> bool" where
  "agree_off_row stride row t out out' \<longleftrightarrow> length out' = length out \<and>
     (\<forall>i. i < length out \<longrightarrow> \<not> (t * stride \<le> i \<and> i < t * stride + row) \<longrightarrow> out' ! i = out ! i)"

lemma agree_off_row_refl: "agree_off_row stride row t out out"
  by (simp add: agree_off_row_def)

lemma agree_off_row_update: "e < row \<Longrightarrow> agree_off_row stride row t out (out[t * stride + e := x])"
  by (auto simp: agree_off_row_def nth_list_update)

lemma found_element:
  assumes "output_view_ok v" "ov_entries v = Some es" "find_output_entry es key = Some c"
  shows "oe_elem_idx c < ov_element_count v"
  using assms find_output_entry_Some [OF assms(3)]
  by (auto simp: output_view_ok_def list_all_iff output_entry_ok_def word_less_nat_alt)

lemma data_frame_local:
  assumes "output_view_ok v" "sample_region_fits cap (ov_element_count v) stride T"
    and "rvrt_output_frame_address v f = Inr (ts, x)"
    and "decode_data_work_frame v f bits sg T stride out cap = Some (s, out', wrote)"
  shows "agree_off_row (unat stride) (unat (ov_element_count v)) (unat ts) out out'"
proof -
  from assms(1) obtain es where es: "ov_entries v = Some es" by (auto simp: output_view_ok_def split: option.splits)
  show ?thesis
  proof (cases "ts < T \<and> find_output_entry es x \<noteq> None")
    case True
    then obtain c where c: "find_output_entry es x = Some c" by blast
    note e = found_element [OF assms(1) es c]
    note row = row_index [OF assms(2) conjunct1 [OF True] e]
    have "out' = out \<or> (\<exists>y. out' = out[unat (ts * stride + oe_elem_idx c) := y])"
      using assms(3,4) c
      by (auto simp: decode_data_work_frame_def output_address_for_work_frame_def output_find_eq [OF es] Let_def
          wr_eq_Some split: if_splits bind_splits)
    with e row(1) show ?thesis
      by (auto simp: agree_off_row_refl word_less_nat_alt intro: agree_off_row_update)
  next
    case False
    then have "out' = out"
      using assms(3,4)
      by (auto simp: decode_data_work_frame_def output_address_for_work_frame_def output_find_eq [OF es] Let_def
          split: if_splits)
    then show ?thesis by (simp add: agree_off_row_refl)
  qed
qed

lemma store32_local:
  assumes "store32 out i y = Some out'" "unat i = t * s4 + e" "e < n"
  shows "agree_off_row (4 * s4) (4 * n) t out out'"
  using assms
  by (auto simp: agree_off_row_def store32_def Let_def nth_list_update algebra_simps split: if_splits)

lemma agree_off_row_trans:
  "agree_off_row stride row t a b \<Longrightarrow> agree_off_row stride row t b c \<Longrightarrow> agree_off_row stride row t a c"
  by (simp add: agree_off_row_def)

lemma store_lane_local:
  assumes "rvrt_store_voltage_lane out i oc st si sc lane p w0 = Some (s, out', st', w)"
    and "unat i = t * s4 + e" "e < n"
  shows "agree_off_row (4 * s4) (4 * n) t out out'"
  using assms(1) store32_local [OF _ assms(2,3)]
  by (auto simp: rvrt_store_voltage_lane_def Let_def agree_off_row_refl
      split: if_splits bind_splits intro: agree_off_row_trans)

lemma voltage_frame_local:
  assumes v: "output_view_ok v"
    and row: "unat (ov_element_count v) \<le> 2 ^ 30" "sample_region_fits cap (ov_element_count v * 4) stride T"
      "ov_element_count v \<noteq> 0" "cap mod 4 = 0" "stride mod 4 = 0"
    and "rvrt_output_frame_address v f = Inr (ts, x)"
    and "decode_voltage_work_frame (Some v) (Some f) T (Some out) (cap div 4) (stride div 4) (Some st) sc
           (Some False) = Some (s, out', st', wrote)"
  shows "\<exists>out1. out' = Some out1 \<and>
     agree_off_row (unat stride) (4 * unat (ov_element_count v)) (unat ts) out out1"
proof -
  from v obtain es where es: "ov_entries v = Some es" by (auto simp: output_view_ok_def split: option.splits)
  have stride: "4 * unat (stride div 4) = unat stride"
    using row(5) by (simp add: word_unat_eq_iff unat_mod unat_div mod_eq_0_iff_dvd dvd_def)
  let ?base = "x - (drop_bit 3 x AND 3) * 8"
  show ?thesis
  proof (cases "ts < T \<and> find_output_entry es ?base \<noteq> None")
    case True
    then obtain c where c: "find_output_entry es ?base = Some c" by blast
    note e = found_element [OF v es c]
    note idx = row_div4 [OF row(1-5) conjunct1 [OF True] e]
    have "out' = Some out \<or> (\<exists>si lane p out1 st1 w. out' = Some out1 \<and>
        rvrt_store_voltage_lane out (ts * (stride div 4) + oe_elem_idx c) (cap div 4) st si sc lane p (Some False) =
          Some (s, out1, st1, w))"
      using assms(7,8) c
      by (auto simp: decode_voltage_work_frame_def output_address_for_work_frame_def output_find_eq [OF es] Let_def
          split: if_splits bind_splits prod.splits)
    then show ?thesis
    proof (elim disjE exE conjE)
      fix si lane p out1 st1 w
      assume "out' = Some out1" and st: "rvrt_store_voltage_lane out (ts * (stride div 4) + oe_elem_idx c)
          (cap div 4) st si sc lane p (Some False) = Some (s, out1, st1, w)"
      with store_lane_local [OF st idx(1), of "unat (ov_element_count v)"] e stride show ?thesis
        by (simp add: word_less_nat_alt)
    qed (simp add: agree_off_row_refl)
  next
    case False
    then have "out' = Some out"
      using assms(7,8)
      by (auto simp: decode_voltage_work_frame_def output_address_for_work_frame_def output_find_eq [OF es] Let_def
          split: if_splits option.splits)
    then show ?thesis by (simp add: agree_off_row_refl)
  qed
qed



section \<open>One frame, in memory\<close>

text \<open>The addresses of the first \<open>n\<close> output rows.\<close>

definition row_addrs :: "decode_context \<Rightarrow> paicore_runner \<Rightarrow> nat \<Rightarrow> nat set" where
  "row_addrs d r n = (\<Union>t<n. {unat (dc_output d) + t * unat (dc_output_stride d) ..<
     unat (dc_output d) + t * unat (dc_output_stride d) + unat (rn_output_row_bytes r)})"

text \<open>Memory that is unchanged outside some addresses and the lane state of the runner.\<close>

definition same_off :: "nat set \<Rightarrow> paicore_runner \<Rightarrow> runner_mem \<Rightarrow> runner_mem \<Rightarrow> bool" where
  "same_off A r m m' \<longleftrightarrow> length (mm_bytes m') = length (mm_bytes m) \<and>
     (\<forall>i. i \<notin> A \<longrightarrow> i < length (mm_bytes m) \<longrightarrow> mm_bytes m' ! i = mm_bytes m ! i) \<and>
     (\<forall>b. length (mm_state m' b) = length (mm_state m b)) \<and>
     (\<forall>b. rn_voltage_state r \<noteq> Some b \<longrightarrow> mm_state m' b = mm_state m b)"

lemma same_off_refl: "same_off A r m m"
  by (simp add: same_off_def)

lemma same_off_trans: "same_off A r m1 m2 \<Longrightarrow> same_off A r m2 m3 \<Longrightarrow> same_off A r m1 m3"
  by (simp add: same_off_def)

lemma same_off_mono: "same_off A r m m' \<Longrightarrow> A \<subseteq> B \<Longrightarrow> same_off B r m m'"
  unfolding same_off_def by blast

lemma decode_ok_same_off: "decode_ok d r m \<Longrightarrow> same_off A r m m' \<Longrightarrow> decode_ok d r m'"
  by (rule decode_ok_lengths) (simp_all add: same_off_def)

lemma put_output_local:
  assumes "unat (dc_output d) + unat (dc_output_capacity d) \<le> length (mm_bytes m)"
    and "agree_off_row (unat (dc_output_stride d)) (unat (rn_output_row_bytes r)) t (decode_output d m) out"
    and "t < n"
  shows "same_off (row_addrs d r n) r m (put_output d out m)"
proof -
  let ?a = "unat (dc_output d)" and ?s = "unat (dc_output_stride d)" and ?b = "mm_bytes m"
  have len: "length (decode_output d m) = unat (dc_output_capacity d)"
    using assms(1) by (simp add: decode_output_def length_region)
  then have lo: "length out = unat (dc_output_capacity d)" using assms(2) by (simp add: agree_off_row_def)
  have "put_region (dc_output d) out ?b ! i = ?b ! i" if i: "i \<notin> row_addrs d r n" "i < length ?b" for i
  proof (cases "?a \<le> i \<and> i < ?a + length out")
    case True
    then obtain j where j: "i = ?a + j" "j < length out" by (metis add_less_cancel_left le_iff_add)
    have "\<not> (t * ?s \<le> j \<and> j < t * ?s + unat (rn_output_row_bytes r))"
      using i(1) j(1) assms(3) by (auto simp: row_addrs_def)
    then have "out ! j = decode_output d m ! j" using assms(2) j(2) by (simp add: agree_off_row_def)
    then show ?thesis
      using j lo assms(1) by (simp add: put_region_def nth_append decode_output_def region_def)
  next
    case False
    then show ?thesis using i(2) lo assms(1) by (auto simp: put_region_def nth_append)
  qed
  moreover have "length (put_region (dc_output d) out ?b) = length ?b"
    using lo assms(1) by (simp add: length_put_region)
  ultimately show ?thesis by (auto simp: same_off_def put_output_def)
qed

lemma put_state_local:
  assumes "same_off A r m m1"
    and "\<And>st st'. runner_state r m = Some st \<Longrightarrow> state = Some st' \<Longrightarrow> length st' = length st"
  shows "same_off A r m (put_state r state m1)"
  using assms by (auto simp: same_off_def put_state_def runner_state_def split: option.splits)

lemma unat_times4:
  assumes "unat (n :: u32) \<le> 2 ^ 30" "n * 4 \<noteq> 0"
  shows "unat (n * 4) = 4 * unat n"
proof (cases "unat n = 2 ^ 30")
  case True
  then have "n = 2 ^ 30" by (simp add: word_unat_eq_iff)
  with assms(2) show ?thesis by simp
next
  case False
  with assms(1) have "unat n * unat (4 :: u32) < 2 ^ 32" by simp
  from unat_mult_u32 [OF this] show ?thesis by simp
qed

text \<open>A frame that is not a work frame of a submitted timestep is without effect.\<close>

lemma generic_idle:
  assumes "runner_handle_generic_frame (Some d) f m = Some (st, m')" "decode_ok d r m"
    and "\<not> (runner_validate_frame_timestep d f = RVRT_SESSION_OK \<and> rvrt_frame_is_work (Some f))"
  shows "m' = m"
proof (cases "runner_validate_frame_timestep d f = RVRT_SESSION_OK")
  case False
  with assms(1,2) show ?thesis by (auto simp: runner_handle_generic_frame_def decode_ok_def)
next
  case True
  with assms(3) have nowork: "\<not> rvrt_frame_is_work_type1 f" "\<not> rvrt_frame_is_work_type2 f"
    by (simp_all add: rvrt_frame_is_work_type1_def rvrt_frame_is_work_type2_def)
  let ?v = "rn_output_view r"
  have r: "dc_runner d = Some r" "ov_entries ?v \<noteq> None" "rt_timesteps (rn_runtime r) \<noteq> 0"
    using assms(2) by (auto simp: decode_ok_def runner_ok_def output_view_ok_def fits_lemma split: option.splits)
  consider "ov_kind ?v = RVRT_OUTPUT_DATA" | "ov_kind ?v = RVRT_OUTPUT_VOLTAGE"
    using assms(2) by (auto simp: decode_ok_def runner_ok_def runner_output_row_bytes_def split: if_splits)
  then show ?thesis
  proof cases
    case 1
    with r True nowork assms(1) show ?thesis
      by (auto simp: runner_handle_generic_frame_def rvrt_decode_output_frames_incremental_def Let_def
          put_output_same put_state_same split: option.splits)
  next
    case 2
    with assms(2) obtain b where b: "runner_state r m = Some (mm_state m b)"
      by (auto simp: decode_ok_def state_ok_def runner_state_def)
    then have put: "put_state r (Some (mm_state m b)) m = m" by (metis put_state_same)
    have "m' = put_state r (Some (mm_state m b)) (put_output d (decode_output d m) m)"
      using generic_voltage [OF assms(2) 2, of f] True nowork b r(2) assms(1)
      by (auto simp: decode_voltage_work_frame_def)
    then show ?thesis by (simp add: put_output_same put)
  qed
qed

text \<open>A work frame of a submitted timestep, on a DATA runner and on a VOLTAGE runner.\<close>

lemma generic_data_local:
  assumes ok: "decode_ok d r m" and run: "runner_handle_generic_frame (Some d) f m = Some (st, m')"
    and work: "runner_validate_frame_timestep d f = RVRT_SESSION_OK" "rvrt_frame_is_work (Some f)"
    and addr: "rvrt_output_frame_address (rn_output_view r) f = Inr (ts, x)" "unat ts < unat (dc_submitted_timesteps d)"
    and data: "ov_kind (rn_output_view r) = RVRT_OUTPUT_DATA"
  shows "same_off (row_addrs d r (unat (dc_submitted_timesteps d))) r m m'"
proof -
  let ?v = "rn_output_view r" and ?T = "rt_timesteps (rn_runtime r)"
  have r: "dc_runner d = Some r" "runner_ok r" "output_view_ok ?v" using ok by (simp_all add: decode_ok_def runner_ok_def)
  have fits: "sample_region_fits (dc_output_capacity d) (rn_output_row_bytes r) (dc_output_stride d) ?T"
    "unat (dc_output d) + unat (dc_output_capacity d) \<le> length (mm_bytes m)"
    using ok by (simp_all add: decode_ok_def)
  have row: "rn_output_row_bytes r = ov_element_count ?v"
    using r(2) data by (simp add: runner_ok_def runner_output_row_bytes_def)
  show ?thesis
  proof (cases "dtype_bits (ov_dtype ?v)")
    case None
    have "?T \<noteq> 0" "ov_entries ?v \<noteq> None"
      using fits(1) r(3) by (auto simp: fits_lemma output_view_ok_def split: option.splits)
    with None data work r(1) run have "m' = m"
      by (auto simp: runner_handle_generic_frame_def rvrt_decode_output_frames_incremental_def Let_def
          put_output_same put_state_same)
    then show ?thesis by (simp add: same_off_refl)
  next
    case (Some b)
    obtain bits sg where b: "b = (bits, sg)" by (cases b)
    from run work generic_data [OF ok data Some [unfolded b], of f] show ?thesis
      using put_output_local [OF fits(2) _ addr(2), of r] data_frame_local [OF r(3) fits(1) [unfolded row] addr(1)] row
      by (auto simp: same_off_refl split: if_splits)
  qed
qed

lemma generic_voltage_local:
  assumes ok: "decode_ok d r m" and run: "runner_handle_generic_frame (Some d) f m = Some (st, m')"
    and work: "runner_validate_frame_timestep d f = RVRT_SESSION_OK" "rvrt_frame_is_work (Some f)"
    and addr: "rvrt_output_frame_address (rn_output_view r) f = Inr (ts, x)" "unat ts < unat (dc_submitted_timesteps d)"
    and v: "ov_kind (rn_output_view r) = RVRT_OUTPUT_VOLTAGE"
  shows "same_off (row_addrs d r (unat (dc_submitted_timesteps d))) r m m'"
proof -
  let ?v = "rn_output_view r" and ?T = "rt_timesteps (rn_runtime r)"
  have r: "runner_ok r" "output_view_ok ?v" using ok by (simp_all add: decode_ok_def runner_ok_def)
  have fits: "sample_region_fits (dc_output_capacity d) (rn_output_row_bytes r) (dc_output_stride d) ?T"
    "unat (dc_output d) + unat (dc_output_capacity d) \<le> length (mm_bytes m)"
    using ok by (simp_all add: decode_ok_def)
  note row = row_bytes_voltage [OF r(1) v]
  have "rn_output_row_bytes r \<noteq> 0" using fits(1) by (simp add: fits_lemma)
  then have row4: "unat (rn_output_row_bytes r) = 4 * unat (ov_element_count ?v)" using row by (simp add: unat_times4)
  have mods: "dc_output_capacity d mod 4 = 0" "dc_output_stride d mod 4 = 0" "ov_element_count ?v \<noteq> 0"
    using ok v by (simp_all add: decode_ok_def runner_ok_def)
  obtain b where b: "runner_state r m = Some (mm_state m b)"
      "unat (rn_voltage_state_capacity r) \<le> length (mm_state m b)"
    using ok v by (auto simp: decode_ok_def state_ok_def runner_state_def)
  from run work generic_voltage [OF ok v, of f] obtain s out state w where
    dec: "decode_voltage_work_frame (Some ?v) (Some f) ?T (Some (decode_output d m)) (dc_output_capacity d div 4)
        (dc_output_stride d div 4) (Some (mm_state m b)) (rn_voltage_state_capacity r) (Some False) =
          Some (s, out, state, w)"
    and m': "m' = put_state r state (put_output d (the out) m)"
    using b(1) by auto
  from voltage_frame_local [OF r(2) row(2) fits(1) [unfolded row(1)] mods(3,1,2) addr(1) dec] obtain out1 where
    out: "out = Some out1" "agree_off_row (unat (dc_output_stride d)) (unat (rn_output_row_bytes r)) (unat ts)
      (decode_output d m) out1" using row4 by auto
  have "4 * unat (dc_output_capacity d div 4) \<le> length (decode_output d m)"
    using fits(2) by (simp add: decode_output_def length_region unat_div)
  from decode_voltage_safe [OF this b(2), of ?v f ?T "dc_output_stride d div 4" False] r(2) dec
  have "\<exists>st'. state = Some st' \<and> length st' = length (mm_state m b)"
    by (auto simp: output_view_ok_def split: option.splits)
  with put_output_local [OF fits(2) out(2) addr(2)] out(1) b(1) m' show ?thesis by (auto intro: put_state_local)
qed

lemma generic_frame_local:
  assumes ok: "decode_ok d r m" and run: "runner_handle_generic_frame (Some d) f m = Some (st, m')"
  shows "same_off (row_addrs d r (unat (dc_submitted_timesteps d))) r m m'"
proof (cases "runner_validate_frame_timestep d f = RVRT_SESSION_OK \<and> rvrt_frame_is_work (Some f)")
  case True
  have r: "dc_runner d = Some r" "runner_ok r" "output_view_ok (rn_output_view r)"
    using ok by (simp_all add: decode_ok_def runner_ok_def)
  obtain ts x where addr: "rvrt_output_frame_address (rn_output_view r) f = Inr (ts, x)" using work_address [OF r(3)] .
  with True r(1) have ts: "unat ts < unat (dc_submitted_timesteps d)"
    by (auto simp: runner_validate_frame_timestep_def word_less_nat_alt split: if_splits)
  have "ov_kind (rn_output_view r) = RVRT_OUTPUT_DATA \<or> ov_kind (rn_output_view r) = RVRT_OUTPUT_VOLTAGE"
    using r(2) by (auto simp: runner_ok_def runner_output_row_bytes_def split: if_splits)
  with True generic_data_local [OF ok run _ _ addr ts] generic_voltage_local [OF ok run _ _ addr ts]
  show ?thesis by blast
next
  case False
  then have "m' = m"
    using run ok generic_idle by blast
  then show ?thesis by (simp add: same_off_refl)
qed


text \<open>The handlers of the runner as a receive sink that never leaves the submitted rows.\<close>

definition rows_ok :: "decode_context \<Rightarrow> paicore_runner \<Rightarrow> runner_mem \<Rightarrow> runner_mem \<Rightarrow> bool" where
  "rows_ok d r m0 m \<longleftrightarrow> decode_ok d r m \<and>
     same_off (row_addrs d r (unat (dc_submitted_timesteps d))) r m0 m"

lemma handler_local:
  assumes "decode_ok d r m" "runner_rx_frame_handler r (Some d) f m = Some (st, m')"
  shows "same_off (row_addrs d r (unat (dc_submitted_timesteps d))) r m m'"
  using assms(2) generic_frame_local [OF assms(1)]
  unfolding fast_handlers_lemma [OF assms(1)] by (auto simp: same_off_refl split: if_splits)

interpretation rows_sink: rx_sink "runner_rx_frame_handler r" "Some d" "rows_ok d r m0" for r d m0
proof unfold_locales
  fix m f assume ok: "rows_ok d r m0 m"
  then have "decode_ok d r m" by (simp add: rows_ok_def)
  from runner_sink.accepts [OF this, of f] handler_local [OF this] ok
  show "\<exists>st m'. runner_rx_frame_handler r (Some d) f m = Some (st, m') \<and> rows_ok d r m0 m'"
    by (fastforce simp: rows_ok_def intro: same_off_trans)
qed

end
