(* ===== verification/Runner_Sample.thy ===== *)
theory Runner_Sample
  imports Runner_Rows
begin

text \<open>
  A whole sample: what it sends and what it leaves in memory, as a function of the frames the chip
  returns, and the safety of every run.
\<close>

section \<open>A timestep\<close>

text \<open>The entries of the input, the row of a timestep, and what it stands for.\<close>

definition input_entries :: "paicore_runner \<Rightarrow> fbs_InputEntry list" where
  "input_entries r = (case iv_entries (rn_input_view r) of
     None \<Rightarrow> [] | Some es \<Rightarrow> map the (take (unat (iv_entry_count (rn_input_view r))) es))"

definition row_frames :: "paicore_runner \<Rightarrow> u32 \<Rightarrow> u32 \<Rightarrow> u32 \<Rightarrow> runner_mem \<Rightarrow> codec_status \<times> rvrt_frame list" where
  "row_frames r input stride t m =
     input_frames t (region (input + t * stride) (rn_input_row_bytes r) (mm_bytes m)) (input_entries r)"

text \<open>What the session and the runner need for a sample.\<close>

definition input_ok :: "paicore_runner \<Rightarrow> nat \<Rightarrow> bool" where
  "input_ok r rounds \<longleftrightarrow> input_view_ok (rn_input_view r) \<and> rn_encode_frame_capacity r \<noteq> 0 \<and>
     iv_element_count (rn_input_view r) \<le> rn_input_row_bytes r \<and>
     (case iv_entries (rn_input_view r) of None \<Rightarrow> False | Some es \<Rightarrow> length es < rounds) \<and>
     rt_timesteps (rn_runtime r) \<le> FC_CTRL_PAYLOAD_MASK \<and> root_ok (rn_artifact r) 0"

lemma runner_timestep_result:
  assumes live: "live_at p buf (rn_artifact r) (rn_encode_frame_capacity r) clock w" and "epoch_at p t w"
    and inp: "input_ok r rounds" "t < rt_timesteps (rn_runtime r)"
      "unat (input + t * istride) + unat (rn_input_row_bytes r) \<le> length (mm_bytes (w_mem w))"
    and env: "env_ok clock (rn_timeout_ms r) (sv_sync env (unat t))"
    and up: "hw_up (w_hw w) = script_words (b # bs) @ rest" "barrier_frames b"
    and zero: "zero_region (dc_output d + t * dc_output_stride d) (rn_output_row_bytes r) (mm_bytes (w_mem w)) = Some zeroed"
    and fold: "handler_fold (runner_rx_frame_handler r) (Some (d\<lparr>dc_submitted_timesteps := t + 1\<rparr>)) (fst b)
       (RVRT_SESSION_OK, (w_mem w)\<lparr>mm_bytes := zeroed\<rparr>) = Some (st, m)"
  shows "\<exists>w'. (if fst (row_frames r input istride t (w_mem w)) = RVRT_CODEC_STATUS_DONE
     then runner_timestep rounds env p r input istride d t w = Some (st, d\<lparr>dc_submitted_timesteps := t + 1\<rparr>, w') \<and>
       w_mem w' = m \<and> hw_up (w_hw w') = script_words bs @ rest \<and>
       hw_down (w_hw w') = hw_down (w_hw w) @
         concat (map frame_words (snd (row_frames r input istride t (w_mem w)))) @
         frame_words (sync_frame (rn_artifact r) 0 1) \<and>
       (st = RVRT_SESSION_OK \<longrightarrow> epoch_at p (t + 1) w' \<and>
          live_at p buf (rn_artifact r) (rn_encode_frame_capacity r) clock w')
     else runner_timestep rounds env p r input istride d t w = Some (RVRT_SESSION_RUNTIME_ERROR, d, w') \<and>
       w_mem w' = w_mem w)"
proof -
  let ?v = "rn_input_view r" and ?a = "rn_artifact r" and ?cap = "rn_encode_frame_capacity r"
  let ?row = "region (input + t * istride) (rn_input_row_bytes r) (mm_bytes (w_mem w))"
  let ?d = "d\<lparr>dc_submitted_timesteps := t + 1\<rparr>" and ?fs = "row_frames r input istride t (w_mem w)"
  obtain es where es: "input_view_ok ?v" "iv_entries ?v = Some es" "iv_element_count ?v \<le> rn_input_row_bytes r"
      "?cap \<noteq> 0" "length es < rounds"
    using inp(1) by (auto simp: input_ok_def split: option.splits)
  have rdy: "ready p buf p ?a w" "unat ?cap \<le> length (w_buf w buf)" "se_rx_frames (w_session w p) = Some buf"
    using live by (auto simp: live_at_def ready_def)
  have idle: "idle p w" using rdy(1) by (simp add: idle_def ready_def)
  have row: "unat (rn_input_row_bytes r) \<le> length ?row" using inp(3) by (simp add: length_region)
  have ent: "input_entries r = map the (take (unat (iv_entry_count ?v)) es)" by (simp add: input_entries_def es(2))
  from send_input_lemma [OF idle es(1-3) row es(4) rdy(2) es(5), of t, folded ent, folded row_frames_def]
  obtain st' ws' w1 k where
    send: "rvrt_session_send_input_timestep rounds (Some p) (Some ?v) t (Some ?row) (rn_input_row_bytes r)
        (Some (w_buf w buf)) ?cap w = Some (st', Some ws', w1)" "length ws' = length (w_buf w buf)"
      "sent (take k (snd ?fs)) w w1"
      "if fst ?fs = RVRT_CODEC_STATUS_DONE then st' = RVRT_SESSION_OK \<and> take k (snd ?fs) = snd ?fs
       else st' = RVRT_SESSION_RUNTIME_ERROR"
    by (cases ?fs) auto
  let ?w2 = "w1\<lparr>w_buf := (w_buf w1)(buf := ws')\<rparr>"
  note same = sent_same [OF send(3)]
  show ?thesis
  proof (cases "fst ?fs = RVRT_CODEC_STATUS_DONE")
    case False
    with send rdy(3) show ?thesis
      by (auto simp: runner_timestep_def Let_def same runner_session_failure_def)
  next
    case True
    let ?w3 = "?w2\<lparr>w_mem := (w_mem w)\<lparr>mm_bytes := zeroed\<rparr>\<rparr>"
    have live3: "live_at p buf ?a ?cap clock ?w3"
      unfolding live_mem using live send(2) live_buf [of ws' w1 buf p] by (simp add: live_sent [OF send(3)] same)
    have up3: "hw_up (w_hw ?w3) = script_words (b # bs) @ rest" using up(1) send(3) by (auto simp: sent_def)
    have next_t: "t < t + 1" "t + 1 \<le> FC_CTRL_PAYLOAD_MASK"
      using inp(1,2) unat_Suc_word [OF inp(2)] by (simp_all add: input_ok_def word_less_nat_alt word_le_nat_alt)
    have "epoch_at p t ?w3" using assms(2) by (auto simp: epoch_at_def timeline_at_def same split: if_splits)
    from sync_handled [OF live3 _ this next_t answers_script [OF up3 up(2) live3 env], of
        "runner_rx_frame_handler r" "Some ?d" st m] inp(1) fold
    obtain w4 where w4: "rvrt_session_sync_wait_until_with_rx_handler (Some p) (t + 1) (rn_timeout_ms r)
          (Some (runner_rx_frame_handler r)) (Some ?d) (sv_sync env (unat t)) ?w3 = Some (st, w4)"
        "w_mem w4 = m" "hw_up (w_hw w4) = script_words bs @ rest"
        "hw_down (w_hw w4) = hw_down (w_hw ?w3) @ frame_words (sync_frame ?a 0 1)"
        "st = RVRT_SESSION_OK \<longrightarrow> epoch_at p (t + 1) w4 \<and> live_at p buf ?a ?cap clock w4"
      by (auto simp: input_ok_def)
    have "runner_timestep rounds env p r input istride d t w = Some (st, ?d, w4)"
      using send(1,4) True rdy(3) zero w4(1)
      by (simp add: runner_timestep_def Let_def same runner_session_failure_def)
    moreover have "hw_down (w_hw ?w3) = hw_down (w_hw w) @ concat (map frame_words (snd ?fs))"
      using send(3,4) True by (auto simp: sent_def)
    ultimately show ?thesis using True w4 by auto
  qed
qed


section \<open>The rows of a sample\<close>

text \<open>
  The reference: row by row, an input row that cannot be encoded ends the sample, otherwise the output
  row is cleared and the frames of its barrier are handled in order; the first error ends the sample.
\<close>

fun sample_rows ::
    "paicore_runner \<Rightarrow> (u32 \<Rightarrow> bool) \<Rightarrow> decode_context \<Rightarrow> u32 \<Rightarrow> (rvrt_frame list \<times> rvrt_frame) list \<Rightarrow> runner_mem
       \<Rightarrow> (session_status \<times> runner_mem) option" where
  "sample_rows r enc d t [] m = Some (RVRT_SESSION_OK, m)"
| "sample_rows r enc d t (b # bs) m =
     (if \<not> enc t then Some (RVRT_SESSION_RUNTIME_ERROR, m)
      else do {
        bytes \<leftarrow> zero_region (dc_output d + t * dc_output_stride d) (rn_output_row_bytes r) (mm_bytes m);
        (st, m) \<leftarrow> handler_fold (runner_rx_frame_handler r) (Some (d\<lparr>dc_submitted_timesteps := t + 1\<rparr>)) (fst b)
          (RVRT_SESSION_OK, m\<lparr>mm_bytes := bytes\<rparr>);
        if st \<noteq> RVRT_SESSION_OK then Some (st, m) else sample_rows r enc d (t + 1) bs m
      })"

lemma row_addrs_submitted [simp]: "row_addrs (d\<lparr>dc_submitted_timesteps := k\<rparr>) r n = row_addrs d r n"
  by (simp add: row_addrs_def)

lemma sample_rows_submitted [simp]:
  "sample_rows r enc (d\<lparr>dc_submitted_timesteps := k\<rparr>) t bs m = sample_rows r enc d t bs m"
  by (induction bs arbitrary: t m) (simp_all cong: if_cong)

lemma decode_ok_submitted [simp]: "decode_ok (d\<lparr>dc_submitted_timesteps := k\<rparr>) r m = decode_ok d r m"
  by (simp add: decode_ok_def)

lemma row_addrs_mono: "n \<le> k \<Longrightarrow> row_addrs d r n \<subseteq> row_addrs d r k"
  unfolding row_addrs_def by (rule UN_mono) auto

lemma row_addrs_intro:
  "t < n \<Longrightarrow> unat (dc_output d) + t * unat (dc_output_stride d) \<le> i \<Longrightarrow>
   i < unat (dc_output d) + t * unat (dc_output_stride d) + unat (rn_output_row_bytes r) \<Longrightarrow> i \<in> row_addrs d r n"
  by (auto simp: row_addrs_def)

text \<open>The row of a timestep lies in memory.\<close>

lemma fitting_row:
  assumes "sample_region_fits cap row stride T" "t < T" "unat base + unat cap \<le> n" "n \<le> 2 ^ 32"
  shows "unat (base + t * stride) = unat base + unat t * unat stride"
    "unat base + unat t * unat stride + unat row \<le> unat base + unat cap"
proof -
  have f: "row \<noteq> 0" "(unat T - 1) * unat stride + unat row \<le> unat cap" using assms(1) by (simp_all add: fits_lemma)
  have "unat t \<le> unat T - 1" using assms(2) by (simp add: word_less_nat_alt)
  then have "unat t * unat stride \<le> (unat T - 1) * unat stride" by simp
  with f(2) show le: "unat base + unat t * unat stride + unat row \<le> unat base + unat cap" by linarith
  have "0 < unat row" using f(1) by (simp add: unat_gt_0)
  then have "unat base + unat t * unat stride < 2 ^ 32" using le assms(3,4) by linarith
  then show "unat (base + t * stride) = unat base + unat t * unat stride"
    by (simp add: unat_add_u32 unat_mult_u32)
qed

definition mem_ok :: "runner_mem \<Rightarrow> bool" where
  "mem_ok m \<longleftrightarrow> length (mm_bytes m) \<le> 2 ^ 32"

lemma same_off_mem_ok: "same_off A r m m' \<Longrightarrow> mem_ok m' = mem_ok m"
  by (simp add: same_off_def mem_ok_def)

lemma zero_row:
  assumes "decode_ok d r m" "mem_ok m" "t < rt_timesteps (rn_runtime r)" "unat t < n"
  shows "\<exists>bytes. zero_region (dc_output d + t * dc_output_stride d) (rn_output_row_bytes r) (mm_bytes m) = Some bytes \<and>
     same_off (row_addrs d r n) r m (m\<lparr>mm_bytes := bytes\<rparr>)"
proof -
  have "sample_region_fits (dc_output_capacity d) (rn_output_row_bytes r) (dc_output_stride d) (rt_timesteps (rn_runtime r))"
    and len: "unat (dc_output d) + unat (dc_output_capacity d) \<le> length (mm_bytes m)"
    using assms(1) by (simp_all add: decode_ok_def)
  note row = fitting_row [OF this(1) assms(3) this(2) assms(2) [unfolded mem_ok_def]]
  have "same_off (row_addrs d r n) r m (m\<lparr>mm_bytes := put_region (dc_output d + t * dc_output_stride d)
      (replicate (unat (rn_output_row_bytes r)) 0) (mm_bytes m)\<rparr>)"
    using row len row_addrs_intro [OF assms(4), of d _ r]
    by (auto simp: same_off_def put_region_def nth_append)
  then show ?thesis using row len by (simp add: zero_region_def)
qed

lemma rows_step:
  assumes "decode_ok d r m" "mem_ok m" "t < rt_timesteps (rn_runtime r)"
  shows "\<exists>bytes st m'. zero_region (dc_output d + t * dc_output_stride d) (rn_output_row_bytes r) (mm_bytes m) = Some bytes \<and>
     handler_fold (runner_rx_frame_handler r) (Some (d\<lparr>dc_submitted_timesteps := t + 1\<rparr>)) fs
       (RVRT_SESSION_OK, m\<lparr>mm_bytes := bytes\<rparr>) = Some (st, m') \<and>
     decode_ok d r m' \<and> mem_ok m' \<and> same_off (row_addrs d r (unat t + 1)) r m m'"
proof -
  from zero_row [OF assms(1-3), of "unat t + 1"] obtain bytes where
    z: "zero_region (dc_output d + t * dc_output_stride d) (rn_output_row_bytes r) (mm_bytes m) = Some bytes"
      "same_off (row_addrs d r (unat t + 1)) r m (m\<lparr>mm_bytes := bytes\<rparr>)" by auto
  let ?d = "d\<lparr>dc_submitted_timesteps := t + 1\<rparr>"
  have "rows_ok ?d r m (m\<lparr>mm_bytes := bytes\<rparr>)"
    using z(2) decode_ok_same_off [OF assms(1) z(2)] unat_Suc_word [OF assms(3)] by (simp add: rows_ok_def)
  then obtain st m' where "handler_fold (runner_rx_frame_handler r) (Some ?d) fs (RVRT_SESSION_OK, m\<lparr>mm_bytes := bytes\<rparr>) =
      Some (st, m')" "rows_ok ?d r m m'"
    using rows_sink.fold_total [of ?d r m "(RVRT_SESSION_OK, m\<lparr>mm_bytes := bytes\<rparr>)" fs] by auto
  with z(1) unat_Suc_word [OF assms(3)] same_off_mem_ok [of "row_addrs d r (unat t + 1)" r m m'] assms(2)
  show ?thesis by (auto simp: rows_ok_def)
qed

lemma sample_rows_total:
  "decode_ok d r m \<Longrightarrow> mem_ok m \<Longrightarrow> unat t + length bs \<le> unat (rt_timesteps (rn_runtime r)) \<Longrightarrow>
   \<exists>st m'. sample_rows r enc d t bs m = Some (st, m') \<and> decode_ok d r m' \<and> mem_ok m' \<and>
     same_off (row_addrs d r (unat t + length bs)) r m m'"
proof (induction bs arbitrary: t m)
  case Nil
  then show ?case by (simp add: same_off_refl)
next
  case (Cons b bs)
  then have t: "t < rt_timesteps (rn_runtime r)" by (simp add: word_less_nat_alt)
  from rows_step [OF Cons.prems(1,2) t, of "fst b"] obtain bytes st m1 where
    s: "zero_region (dc_output d + t * dc_output_stride d) (rn_output_row_bytes r) (mm_bytes m) = Some bytes"
      "handler_fold (runner_rx_frame_handler r) (Some (d\<lparr>dc_submitted_timesteps := t + 1\<rparr>)) (fst b)
        (RVRT_SESSION_OK, m\<lparr>mm_bytes := bytes\<rparr>) = Some (st, m1)"
      "decode_ok d r m1" "mem_ok m1" "same_off (row_addrs d r (unat t + 1)) r m m1" by blast
  have off: "same_off (row_addrs d r (unat t + length (b # bs))) r m m1"
    by (rule same_off_mono [OF s(5) row_addrs_mono]) simp
  show ?case
  proof (cases "enc t \<and> st = RVRT_SESSION_OK")
    case True
    from Cons.IH [OF s(3,4), of "t + 1"] Cons.prems(3) unat_Suc_word [OF t] obtain st' m2 where
      "sample_rows r enc d (t + 1) bs m1 = Some (st', m2)" "decode_ok d r m2" "mem_ok m2"
      "same_off (row_addrs d r (unat t + length (b # bs))) r m1 m2" by auto
    with True s(1,2) same_off_trans [OF off] show ?thesis by auto
  next
    case False
    then show ?thesis using s(1-4) off Cons.prems(1,2) by (auto simp: same_off_refl)
  qed
qed


text \<open>The input row of each timestep is out of reach of the output rows before it.\<close>

definition inputs_apart :: "decode_context \<Rightarrow> paicore_runner \<Rightarrow> u32 \<Rightarrow> u32 \<Rightarrow> bool" where
  "inputs_apart d r input istride \<longleftrightarrow>
     (\<forall>t < rt_timesteps (rn_runtime r). \<forall>i. unat (input + t * istride) \<le> i \<longrightarrow>
        i < unat (input + t * istride) + unat (rn_input_row_bytes r) \<longrightarrow> i \<notin> row_addrs d r (unat t))"

definition inputs_inside :: "paicore_runner \<Rightarrow> u32 \<Rightarrow> u32 \<Rightarrow> runner_mem \<Rightarrow> bool" where
  "inputs_inside r input istride m \<longleftrightarrow>
     (\<forall>t < rt_timesteps (rn_runtime r).
        unat (input + t * istride) + unat (rn_input_row_bytes r) \<le> length (mm_bytes m))"

lemma row_frames_kept:
  assumes "same_off (row_addrs d r (unat t)) r m0 m" "inputs_apart d r input istride" "inputs_inside r input istride m0"
    and "t < rt_timesteps (rn_runtime r)"
  shows "row_frames r input istride t m = row_frames r input istride t m0"
proof -
  let ?a = "unat (input + t * istride)"
  have in_mem: "?a + unat (rn_input_row_bytes r) \<le> length (mm_bytes m0)"
    using assms(3,4) by (simp add: inputs_inside_def)
  have "region (input + t * istride) (rn_input_row_bytes r) (mm_bytes m) =
        region (input + t * istride) (rn_input_row_bytes r) (mm_bytes m0)"
    using assms(1,2,4) in_mem
    by (intro nth_equalityI) (auto simp: region_def same_off_def inputs_apart_def)
  then show ?thesis by (simp add: row_frames_def)
qed

definition encodable :: "paicore_runner \<Rightarrow> u32 \<Rightarrow> u32 \<Rightarrow> runner_mem \<Rightarrow> u32 \<Rightarrow> bool" where
  "encodable r input istride m t \<longleftrightarrow> fst (row_frames r input istride t m) = RVRT_CODEC_STATUS_DONE"

text \<open>The words a timestep sends: its input frames, then one synchronization frame of payload 1.\<close>

definition row_words :: "paicore_runner \<Rightarrow> u32 \<Rightarrow> u32 \<Rightarrow> runner_mem \<Rightarrow> u32 \<Rightarrow> u32 list" where
  "row_words r input istride m t = concat (map frame_words (snd (row_frames r input istride t m))) @
     frame_words (sync_frame (rn_artifact r) 0 1)"

lemma inputs_apart_submitted [simp]:
  "inputs_apart (d\<lparr>dc_submitted_timesteps := k\<rparr>) r input istride = inputs_apart d r input istride"
  by (simp add: inputs_apart_def)

lemma map_upt_shift:
  "map (\<lambda>k. f (t + of_nat k)) [0..<Suc n] = f (t :: u32) # map (\<lambda>k. f (t + 1 + of_nat k)) [0..<n]"
  by (simp add: upt_conv_Cons map_Suc_upt [symmetric] comp_def algebra_simps del: upt_Suc)

text \<open>The rows a loop has encoded and sent: the first one, then those of the rest.\<close>

definition rows_sent :: "paicore_runner \<Rightarrow> u32 \<Rightarrow> u32 \<Rightarrow> runner_mem \<Rightarrow> u32 \<Rightarrow> nat \<Rightarrow> u32 list \<Rightarrow> u32 list \<Rightarrow> bool" where
  "rows_sent r input istride m0 t n down down' \<longleftrightarrow>
     (\<forall>k < n. encodable r input istride m0 (t + of_nat k)) \<and>
     down' = down @ concat (map (\<lambda>k. row_words r input istride m0 (t + of_nat k)) [0..<n])"

lemma rows_sent_Suc:
  assumes "encodable r input istride m0 t"
    and "rows_sent r input istride m0 (t + 1) n (down @ row_words r input istride m0 t) down'"
  shows "rows_sent r input istride m0 t (Suc n) down down'"
proof -
  have "encodable r input istride m0 (t + of_nat k)" if "k < Suc n" for k
    using that assms by (cases k) (auto simp: rows_sent_def algebra_simps)
  then show ?thesis
    using assms(2) map_upt_shift [of "row_words r input istride m0" t n] by (simp add: rows_sent_def del: upt_Suc)
qed

lemma timestep_loop_refines:
  assumes inp: "input_ok r rounds" "inputs_inside r input istride m0"
    and env: "\<And>k. env_ok clock (rn_timeout_ms r) (sv_sync env k)"
  shows "inputs_apart d r input istride \<Longrightarrow> unat t + length bs = unat (rt_timesteps (rn_runtime r)) \<Longrightarrow>
    live_at p buf (rn_artifact r) (rn_encode_frame_capacity r) clock w \<Longrightarrow> epoch_at p t w \<Longrightarrow>
    hw_up (w_hw w) = script_words bs @ rest \<Longrightarrow> list_all barrier_frames bs \<Longrightarrow>
    decode_ok d r (w_mem w) \<Longrightarrow> mem_ok (w_mem w) \<Longrightarrow> same_off (row_addrs d r (unat t)) r m0 (w_mem w) \<Longrightarrow>
    sample_rows r (encodable r input istride m0) d t bs (w_mem w) = Some (st, m) \<Longrightarrow>
    \<exists>d' w'. runner_timestep_loop rounds env p r input istride d t (length bs) w = Some (st, d', w') \<and> w_mem w' = m \<and>
      (st = RVRT_SESSION_OK \<longrightarrow>
         d' = (if bs = [] then d else d\<lparr>dc_submitted_timesteps := rt_timesteps (rn_runtime r)\<rparr>) \<and>
         live_at p buf (rn_artifact r) (rn_encode_frame_capacity r) clock w' \<and>
         epoch_at p (rt_timesteps (rn_runtime r)) w' \<and> hw_up (w_hw w') = rest \<and>
         rows_sent r input istride m0 t (length bs) (hw_down (w_hw w)) (hw_down (w_hw w')))"
proof (induction bs arbitrary: t d w)
  case Nil
  then have "t = rt_timesteps (rn_runtime r)" by (simp add: word_unat_eq_iff)
  with Nil show ?case by (auto simp: script_words_def rows_sent_def)
next
  case (Cons b bs)
  let ?T = "rt_timesteps (rn_runtime r)" and ?m = "w_mem w" and ?d = "d\<lparr>dc_submitted_timesteps := t + 1\<rparr>"
  let ?live = "live_at p buf (rn_artifact r) (rn_encode_frame_capacity r) clock"
  have t: "t < ?T" using Cons.prems(2) by (simp add: word_less_nat_alt)
  note Suc_t = unat_Suc_word [OF t]
  from rows_step [OF Cons.prems(7,8) t, of "fst b"] obtain bytes st1 m1 where
    s: "zero_region (dc_output d + t * dc_output_stride d) (rn_output_row_bytes r) (mm_bytes ?m) = Some bytes"
      "handler_fold (runner_rx_frame_handler r) (Some ?d) (fst b) (RVRT_SESSION_OK, ?m\<lparr>mm_bytes := bytes\<rparr>) =
        Some (st1, m1)"
      "decode_ok d r m1" "mem_ok m1" "same_off (row_addrs d r (unat t + 1)) r ?m m1" by blast
  have len: "length (mm_bytes ?m) = length (mm_bytes m0)" using Cons.prems(9) by (simp add: same_off_def)
  then have inside: "unat (input + t * istride) + unat (rn_input_row_bytes r) \<le> length (mm_bytes ?m)"
    using inp(2) t by (simp add: inputs_inside_def)
  note kept = row_frames_kept [OF Cons.prems(9,1) inp(2) t]
  have "barrier_frames b" using Cons.prems(6) by simp
  from runner_timestep_result [OF Cons.prems(3,4) inp(1) t inside env Cons.prems(5) this s(1,2), unfolded kept]
  obtain w1 where
    step: "if fst (row_frames r input istride t m0) = RVRT_CODEC_STATUS_DONE
     then runner_timestep rounds env p r input istride d t w = Some (st1, ?d, w1) \<and>
       w_mem w1 = m1 \<and> hw_up (w_hw w1) = script_words bs @ rest \<and>
       hw_down (w_hw w1) = hw_down (w_hw w) @
         concat (map frame_words (snd (row_frames r input istride t m0))) @
         frame_words (sync_frame (rn_artifact r) 0 1) \<and>
       (st1 = RVRT_SESSION_OK \<longrightarrow> epoch_at p (t + 1) w1 \<and> ?live w1)
     else runner_timestep rounds env p r input istride d t w = Some (RVRT_SESSION_RUNTIME_ERROR, d, w1) \<and>
       w_mem w1 = ?m" by blast
  show ?case
  proof (cases "encodable r input istride m0 t \<and> st1 = RVRT_SESSION_OK")
    case False
    then show ?thesis using step s(1,2) Cons.prems(10) by (auto simp: encodable_def split: if_splits)
  next
    case True
    then have run: "runner_timestep rounds env p r input istride d t w = Some (RVRT_SESSION_OK, ?d, w1)"
       "w_mem w1 = m1" "hw_up (w_hw w1) = script_words bs @ rest" "?live w1" "epoch_at p (t + 1) w1"
       "hw_down (w_hw w1) = hw_down (w_hw w) @ row_words r input istride m0 t"
      using step by (simp_all add: encodable_def row_words_def)
    have off: "same_off (row_addrs d r (unat (t + 1))) r m0 m1"
      using same_off_trans [OF same_off_mono [OF Cons.prems(9) row_addrs_mono] s(5)] Suc_t by simp
    have spec: "sample_rows r (encodable r input istride m0) ?d (t + 1) bs (w_mem w1) = Some (st, m)"
      using Cons.prems(10) True s(1,2) run(2) by simp
    from Cons.IH [of ?d "t + 1" w1] Cons.prems(1,2,6) run s(3,4) off spec Suc_t obtain d' w' where
      ih: "runner_timestep_loop rounds env p r input istride ?d (t + 1) (length bs) w1 = Some (st, d', w')"
        "w_mem w' = m"
        "st = RVRT_SESSION_OK \<longrightarrow> d' = (if bs = [] then ?d else ?d\<lparr>dc_submitted_timesteps := ?T\<rparr>) \<and> ?live w' \<and>
         epoch_at p ?T w' \<and> hw_up (w_hw w') = rest \<and>
         rows_sent r input istride m0 (t + 1) (length bs) (hw_down (w_hw w1)) (hw_down (w_hw w'))"
      by auto
    have "bs = [] \<Longrightarrow> t + 1 = ?T" using Cons.prems(2) Suc_t by (simp add: word_unat_eq_iff)
    then have d': "st = RVRT_SESSION_OK \<Longrightarrow> d' = d\<lparr>dc_submitted_timesteps := ?T\<rparr>" using ih(3) by auto
    have sent: "rows_sent r input istride m0 t (length (b # bs)) (hw_down (w_hw w)) (hw_down (w_hw w'))"
      if "st = RVRT_SESSION_OK"
      using rows_sent_Suc [of r input istride m0 t "length bs"] True ih(3) that run(6) by simp
    show ?thesis
    proof (intro exI conjI impI)
      show "runner_timestep_loop rounds env p r input istride d t (length (b # bs)) w = Some (st, d', w')"
        using run(1) ih(1) by simp
      show "w_mem w' = m" by (rule ih(2))
    next
      assume ok: "st = RVRT_SESSION_OK"
      show "d' = (if b # bs = [] then d else d\<lparr>dc_submitted_timesteps := ?T\<rparr>)" using d' [OF ok] by simp
      show "?live w'" "epoch_at p ?T w'" "hw_up (w_hw w') = rest" using ih(3) ok by blast+
      show "rows_sent r input istride m0 t (length (b # bs)) (hw_down (w_hw w)) (hw_down (w_hw w'))" by (rule sent [OF ok])
    qed
  qed
qed

end
