(* ===== verification/Runner_Run.thy ===== *)
theory Runner_Run
  imports Runner_Sample
begin

text \<open>
  \<open>rvrt_paicore_runner_run_sample\<close> as a whole: the argument checks, and the refinement of a sample to its
  rows when the chip answers.
\<close>

section \<open>Accepted arguments\<close>

definition stride_of :: "u32 \<Rightarrow> u32 \<Rightarrow> u32" where
  "stride_of stride row = (if stride = 0 then row else stride)"

definition region_size :: "u32 \<Rightarrow> u32 \<Rightarrow> u32 \<Rightarrow> u32" where
  "region_size T stride row = (T - 1) * stride + row"

text \<open>The checks on the regions and on the lane state; strides are the effective ones.\<close>

definition regions_ok :: "paicore_runner \<Rightarrow> u32 \<Rightarrow> u32 \<Rightarrow> u32 \<Rightarrow> u32 \<Rightarrow> u32 \<Rightarrow> u32 \<Rightarrow> bool" where
  "regions_ok r inp incap istride out outcap ostride \<longleftrightarrow>
     (let T = rt_timesteps (rn_runtime r) in
      sample_region_fits incap (rn_input_row_bytes r) istride T \<and>
      sample_region_fits outcap (rn_output_row_bytes r) ostride T \<and>
      (sample_regions_overlap inp (region_size T istride (rn_input_row_bytes r)) out
         (region_size T ostride (rn_output_row_bytes r)) \<longrightarrow> inp = out \<and> istride = ostride))"

definition lanes_ok :: "paicore_runner \<Rightarrow> u32 \<Rightarrow> u32 \<Rightarrow> u32 \<Rightarrow> bool" where
  "lanes_ok r out outcap ostride \<longleftrightarrow>
     (ov_kind (rn_output_view r) = RVRT_OUTPUT_VOLTAGE \<longrightarrow>
        out mod 4 = 0 \<and> outcap mod 4 = 0 \<and> ostride mod 4 = 0 \<and>
        (case voltage_state_capacity (rt_timesteps (rn_runtime r)) (ov_element_count (rn_output_view r)) (Some 0) of
           (fits, required) \<Rightarrow> fits \<and> rn_voltage_state r \<noteq> None \<and> \<not> rn_voltage_state_capacity r < the required))"

lemma unat_region_size:
  assumes "sample_region_fits cap row stride T"
  shows "unat (region_size T stride row) = (unat T - 1) * unat stride + unat row"
proof -
  from assms have f: "T \<noteq> 0" "(unat T - 1) * unat stride + unat row \<le> unat cap" by (simp_all add: fits_lemma)
  then have "(unat T - 1) * unat stride + unat row < 2 ^ 32" using u32_max [of cap] by simp
  then show ?thesis
    using f(1) by (simp add: region_size_def unat_add_u32 unat_mult_u32 unat_pred_u32)
qed

lemma row_inside_region:
  assumes "unat t < unat (T :: u32)" "i < s + unat t * n + row"
  shows "i < s + ((unat T - 1) * n + row)"
proof -
  have "unat t \<le> unat T - 1" using assms(1) by simp
  then have "unat t * n \<le> (unat T - 1) * n" by simp
  with assms(2) show ?thesis by linarith
qed

text \<open>The overlap rule keeps every input row intact until it has been read.\<close>

lemma regions_apart:
  assumes ok: "regions_ok r inp incap istride (dc_output d) outcap (dc_output_stride d)"
    and mem: "unat inp + unat incap \<le> n" "unat (dc_output d) + unat outcap \<le> n" "n \<le> 2 ^ 32"
  shows "inputs_apart d r inp istride"
  unfolding inputs_apart_def
proof (intro allI impI)
  let ?T = "rt_timesteps (rn_runtime r)" and ?in = "rn_input_row_bytes r" and ?out = "rn_output_row_bytes r"
  let ?s = "unat (dc_output_stride d)" and ?o = "unat (dc_output d)"
  fix t i
  assume t: "t < ?T" and i: "unat (inp + t * istride) \<le> i" "i < unat (inp + t * istride) + unat ?in"
  have fits: "sample_region_fits incap ?in istride ?T" "sample_region_fits outcap ?out (dc_output_stride d) ?T"
    using ok by (simp_all add: regions_ok_def Let_def)
  note addr = fitting_row(1) [OF fits(1) t mem(1,3)]
  show "i \<notin> row_addrs d r (unat t)"
  proof
    assume "i \<in> row_addrs d r (unat t)"
    then obtain k where k: "k < unat t" "?o + k * ?s \<le> i" "i < ?o + k * ?s + unat ?out"
      by (auto simp: row_addrs_def)
    show False
    proof (cases "inp = dc_output d \<and> istride = dc_output_stride d")
      case True
      have "?out \<le> dc_output_stride d" using fits(2) by (simp add: fits_lemma)
      then have "?o + k * ?s + unat ?out \<le> ?o + Suc k * ?s" by (simp add: word_le_nat_alt)
      also have "Suc k * ?s \<le> unat t * ?s" using k(1) by (intro mult_le_mono1) simp
      finally have "?o + k * ?s + unat ?out \<le> unat (inp + t * istride)" using addr True by simp
      with k(3) i(1) show False by linarith
    next
      case False
      have "unat (of_nat k :: u32) = k" using k(1) u32_max [of t] by (simp add: unat_of_nat)
      then have kT: "unat (of_nat k :: u32) < unat ?T" using k(1) t by (simp add: word_less_nat_alt)
      have "i < ?o + unat (of_nat k :: u32) * ?s + unat ?out" using k(3) \<open>unat (of_nat k :: u32) = k\<close> by simp
      from row_inside_region [OF kT this] have "i < ?o + unat (region_size ?T (dc_output_stride d) ?out)"
        by (simp add: unat_region_size [OF fits(2)])
      moreover have "?o \<le> i" using k(2) by linarith
      moreover have "i < unat inp + unat (region_size ?T istride ?in)"
        using row_inside_region [of t ?T i "unat inp" "unat istride"] i(2) t addr
        by (simp add: unat_region_size [OF fits(1)] word_less_nat_alt)
      moreover have "unat inp \<le> i" using i(1) addr by simp
      moreover have "region_size ?T istride ?in \<noteq> 0" "region_size ?T (dc_output_stride d) ?out \<noteq> 0"
        using calculation by (auto simp: not_less)
      ultimately have "sample_regions_overlap inp (region_size ?T istride ?in) (dc_output d)
          (region_size ?T (dc_output_stride d) ?out)"
        unfolding overlap_lemma by auto
      with False ok show False by (simp add: regions_ok_def Let_def)
    qed
  qed
qed

lemma regions_inside:
  assumes "regions_ok r inp incap istride out outcap ostride" "unat inp + unat incap \<le> length (mm_bytes m)" "mem_ok m"
  shows "inputs_inside r inp istride m"
  unfolding inputs_inside_def
proof (intro allI impI)
  fix t assume t: "t < rt_timesteps (rn_runtime r)"
  have "sample_region_fits incap (rn_input_row_bytes r) istride (rt_timesteps (rn_runtime r))"
    using assms(1) by (simp add: regions_ok_def Let_def)
  from fitting_row [OF this t assms(2) assms(3) [unfolded mem_ok_def]] assms(2)
  show "unat (inp + t * istride) + unat (rn_input_row_bytes r) \<le> length (mm_bytes m)" by linarith
qed



section \<open>A sample as its rows\<close>

text \<open>The rows, then what the completion barrier still brings.\<close>

definition sample_spec ::
    "paicore_runner \<Rightarrow> (u32 \<Rightarrow> bool) \<Rightarrow> decode_context \<Rightarrow> (rvrt_frame list \<times> rvrt_frame) list
       \<Rightarrow> (rvrt_frame list \<times> rvrt_frame) list \<Rightarrow> runner_mem \<Rightarrow> (session_status \<times> runner_mem) option" where
  "sample_spec r enc d bs extra m = do {
     (st, m) \<leftarrow> sample_rows r enc d 0 bs m;
     if st \<noteq> RVRT_SESSION_OK then Some (st, m)
     else (case extra of
             [] \<Rightarrow> Some (RVRT_SESSION_OK, m)
           | b # _ \<Rightarrow> handler_fold (runner_rx_frame_handler r)
               (Some (d\<lparr>dc_submitted_timesteps := rt_timesteps (rn_runtime r)\<rparr>)) (fst b) (RVRT_SESSION_OK, m))
   }"

text \<open>The answers of the chip to a whole sample: one barrier for the reset, one for each timestep, and
  one more when the completion lies beyond the last timestep.\<close>

definition answers_ok ::
    "paicore_runner \<Rightarrow> (rvrt_frame list \<times> rvrt_frame) list \<Rightarrow> (rvrt_frame list \<times> rvrt_frame) list \<Rightarrow> bool" where
  "answers_ok r bs extra \<longleftrightarrow> list_all barrier_frames (bs @ extra) \<and> length bs = unat (rt_timesteps (rn_runtime r)) \<and>
     length extra = (if rt_completion_sync_timestep (rn_runtime r) > rt_timesteps (rn_runtime r) then 1 else 0)"

definition env_prompt :: "u32 \<Rightarrow> u32 \<Rightarrow> sample_env \<Rightarrow> bool" where
  "env_prompt clock timeout env \<longleftrightarrow> env_ok clock timeout (sv_reset env) \<and> (\<forall>k. env_ok clock timeout (sv_sync env k))"

text \<open>What a successful sample sends.\<close>

definition sample_words :: "paicore_runner \<Rightarrow> u32 \<Rightarrow> u32 \<Rightarrow> runner_mem \<Rightarrow> u32 list" where
  "sample_words r input istride m =
     frame_words (init_frame (rn_artifact r) 0) @
     concat (map (\<lambda>k. row_words r input istride m (of_nat k)) [0..<unat (rt_timesteps (rn_runtime r))]) @
     (if rt_completion_sync_timestep (rn_runtime r) > rt_timesteps (rn_runtime r)
      then frame_words (sync_frame (rn_artifact r) 0
             (rt_completion_sync_timestep (rn_runtime r) - rt_timesteps (rn_runtime r)))
      else [])"

definition all_encodable :: "paicore_runner \<Rightarrow> u32 \<Rightarrow> u32 \<Rightarrow> runner_mem \<Rightarrow> bool" where
  "all_encodable r input istride m \<longleftrightarrow>
     (\<forall>k < unat (rt_timesteps (rn_runtime r)). encodable r input istride m (of_nat k))"

lemma script_words_append: "script_words (as @ bs) = script_words as @ script_words bs"
  by (simp add: script_words_def)

lemma decode_ok_runtime: "decode_ok d r m \<Longrightarrow> rt_timesteps (rn_runtime r) \<noteq> 0"
  by (simp add: decode_ok_def fits_lemma)

lemma sample_spec_total:
  assumes "decode_ok d r m" "mem_ok m" "length bs = unat (rt_timesteps (rn_runtime r))"
  shows "\<exists>st m'. sample_spec r enc d bs extra m = Some (st, m') \<and> decode_ok d r m' \<and>
     same_off (row_addrs d r (unat (rt_timesteps (rn_runtime r)))) r m m'"
proof -
  let ?T = "rt_timesteps (rn_runtime r)" and ?A = "row_addrs d r (unat (rt_timesteps (rn_runtime r)))"
  from sample_rows_total [OF assms(1,2), of 0 bs enc] assms(3) obtain st m1 where
    rows: "sample_rows r enc d 0 bs m = Some (st, m1)" "decode_ok d r m1" "same_off ?A r m m1" by auto
  have "rows_ok (d\<lparr>dc_submitted_timesteps := ?T\<rparr>) r m m1" using rows by (simp add: rows_ok_def)
  then have "\<exists>st m2. handler_fold (runner_rx_frame_handler r) (Some (d\<lparr>dc_submitted_timesteps := ?T\<rparr>)) fs
      (RVRT_SESSION_OK, m1) = Some (st, m2) \<and> decode_ok d r m2 \<and> same_off ?A r m m2" for fs
    using rows_sink.fold_total [of "d\<lparr>dc_submitted_timesteps := ?T\<rparr>" r m "(RVRT_SESSION_OK, m1)" fs]
    by (auto simp: rows_ok_def)
  with rows show ?thesis by (auto simp: sample_spec_def split: list.split)
qed

lemma sample_body_refines:
  assumes inp: "input_ok r rounds" "inputs_apart d r input istride" "inputs_inside r input istride (w_mem w)"
    and d: "d = \<lparr>dc_runner = Some r, dc_output = out, dc_output_capacity = outcap, dc_output_stride = ostride,
              dc_submitted_timesteps = 0\<rparr>"
    and ok: "decode_ok d r (w_mem w)" "mem_ok (w_mem w)"
      "rt_completion_sync_timestep (rn_runtime r) \<le> FC_CTRL_PAYLOAD_MASK"
    and env: "env_prompt clock (rn_timeout_ms r) env"
    and live: "live_at p buf (rn_artifact r) (rn_encode_frame_capacity r) clock w"
    and up: "hw_up (w_hw w) = script_words (b0 # bs @ extra) @ rest" "barrier_frames b0" "answers_ok r bs extra"
    and spec: "sample_spec r (encodable r input istride (w_mem w)) d bs extra (w_mem w) = Some (st, m)"
  shows "\<exists>w'. runner_sample_body rounds env p r input istride out outcap ostride w = Some (st, w') \<and> w_mem w' = m \<and>
     (st = RVRT_SESSION_OK \<longrightarrow> live_at p buf (rn_artifact r) (rn_encode_frame_capacity r) clock w' \<and>
        hw_up (w_hw w') = rest \<and> all_encodable r input istride (w_mem w) \<and>
        hw_down (w_hw w') = hw_down (w_hw w) @ sample_words r input istride (w_mem w))"
proof -
  let ?T = "rt_timesteps (rn_runtime r)" and ?C = "rt_completion_sync_timestep (rn_runtime r)"
  let ?live = "live_at p buf (rn_artifact r) (rn_encode_frame_capacity r) clock"
  let ?d = "d\<lparr>dc_submitted_timesteps := ?T\<rparr>"
  have root: "root_ok (rn_artifact r) 0" using inp(1) by (simp add: input_ok_def)
  have envs: "env_ok clock (rn_timeout_ms r) (sv_reset env)" "\<And>k. env_ok clock (rn_timeout_ms r) (sv_sync env k)"
    using env by (simp_all add: env_prompt_def)
  have bs: "list_all barrier_frames bs" "length bs = unat ?T" "bs \<noteq> []"
    using up(3) decode_ok_runtime [OF ok(1)] by (auto simp: answers_ok_def unat_eq_0)
  from reset_handled [OF live root answers_script [OF up(1,2) live envs(1)]] obtain w1 where
    reset: "rvrt_session_reset_model (Some p) (rn_timeout_ms r) (sv_reset env) w = Some (RVRT_SESSION_OK, w1)"
      "w_mem w1 = w_mem w" "hw_up (w_hw w1) = script_words bs @ (script_words extra @ rest)"
      "hw_down (w_hw w1) = hw_down (w_hw w) @ frame_words (init_frame (rn_artifact r) 0)"
      "epoch_at p 0 w1" "?live w1"
    by (auto simp: script_words_append)
  obtain st1 m1 where rows: "sample_rows r (encodable r input istride (w_mem w)) d 0 bs (w_mem w) = Some (st1, m1)"
    using spec by (auto simp: sample_spec_def split: bind_splits)
  from timestep_loop_refines [OF inp(1,3) envs(2) inp(2), of 0 bs p buf w1 "script_words extra @ rest" st1 m1] bs(1,2) reset ok(1,2) rows
  obtain d' w2 where
    loop: "runner_timestep_loop rounds env p r input istride d 0 (unat ?T) w1 = Some (st1, d', w2)" "w_mem w2 = m1"
      "st1 = RVRT_SESSION_OK \<longrightarrow> d' = ?d \<and> ?live w2 \<and> epoch_at p ?T w2 \<and>
         hw_up (w_hw w2) = script_words extra @ rest \<and> all_encodable r input istride (w_mem w) \<and>
         hw_down (w_hw w2) = hw_down (w_hw w1) @
           concat (map (\<lambda>k. row_words r input istride (w_mem w) (of_nat k)) [0..<unat ?T])"
    using bs(3) by (auto simp: same_off_refl all_encodable_def rows_sent_def)
  have body: "runner_sample_body rounds env p r input istride out outcap ostride w =
      (if st1 \<noteq> RVRT_SESSION_OK then Some (st1, w2)
       else if ?C > ?T then do {
         (status, w) \<leftarrow> rvrt_session_sync_wait_until_with_rx_handler (Some p) ?C (rn_timeout_ms r)
           (Some (runner_rx_frame_handler r)) (Some d') (sv_sync env (unat ?T)) w2;
         Some (if status \<noteq> RVRT_SESSION_OK then runner_session_failure ''completion sync'' ?C status
               else RVRT_SESSION_OK, w)
       } else Some (RVRT_SESSION_OK, w2))"
    using reset(1) loop(1) by (simp add: runner_sample_body_def Let_def d)
  consider "st1 \<noteq> RVRT_SESSION_OK" | "st1 = RVRT_SESSION_OK" "\<not> ?C > ?T" | "st1 = RVRT_SESSION_OK" "?C > ?T"
    by blast
  then show ?thesis
  proof cases
    case 1
    then show ?thesis using spec rows body loop(2) by (auto simp: sample_spec_def)
  next
    case 2
    then have "extra = []" using up(3) by (simp add: answers_ok_def)
    with 2 show ?thesis
      using spec rows body loop(2,3) reset(4) by (auto simp: sample_spec_def sample_words_def script_words_def)
  next
    case 3
    then obtain b where extra: "extra = [b]" "barrier_frames b"
      using up(3) by (cases extra) (auto simp: answers_ok_def)
    with spec rows 3 loop(2) have fold: "handler_fold (runner_rx_frame_handler r) (Some ?d) (fst b)
        (RVRT_SESSION_OK, w_mem w2) = Some (st, m)" by (simp add: sample_spec_def)
    have l2: "?live w2" "epoch_at p ?T w2" "hw_up (w_hw w2) = script_words (b # []) @ rest" "d' = ?d"
      using loop(3) 3 extra(1) by auto
    from sync_handled [OF l2(1) root l2(2) 3(2) ok(3) answers_script [OF l2(3) extra(2) l2(1) envs(2)] fold]
    obtain w3 where w3: "rvrt_session_sync_wait_until_with_rx_handler (Some p) ?C (rn_timeout_ms r)
          (Some (runner_rx_frame_handler r)) (Some ?d) (sv_sync env (unat ?T)) w2 = Some (st, w3)"
        "w_mem w3 = m" "hw_up (w_hw w3) = rest"
        "hw_down (w_hw w3) = hw_down (w_hw w2) @ frame_words (sync_frame (rn_artifact r) 0 (?C - ?T))"
        "st = RVRT_SESSION_OK \<longrightarrow> epoch_at p ?C w3 \<and> ?live w3"
      by (auto simp: script_words_def)
    then show ?thesis
      using 3 body l2(4) loop(3) reset(4)
      by (auto simp: runner_session_failure_def sample_words_def)
  qed
qed



section \<open>The whole call\<close>

definition sample_decode :: "paicore_runner \<Rightarrow> u32 \<Rightarrow> u32 \<Rightarrow> u32 \<Rightarrow> decode_context" where
  "sample_decode r out outcap ostride =
     \<lparr>dc_runner = Some r, dc_output = out, dc_output_capacity = outcap,
      dc_output_stride = stride_of ostride (rn_output_row_bytes r), dc_submitted_timesteps = 0\<rparr>"

text \<open>The lane state is cleared for the elements of the sample.\<close>

definition lanes_cleared :: "paicore_runner \<Rightarrow> runner_mem \<Rightarrow> runner_mem" where
  "lanes_cleared r m =
     (case rn_voltage_state r of
        Some b \<Rightarrow>
          if ov_kind (rn_output_view r) = RVRT_OUTPUT_VOLTAGE then
            (let n = unat (rt_timesteps (rn_runtime r) * ov_element_count (rn_output_view r)) in
             m\<lparr>mm_state := (mm_state m)(b := replicate n 0 @ drop n (mm_state m b))\<rparr>)
          else m
      | None \<Rightarrow> m)"

definition sample_ok :: "paicore_runner \<Rightarrow> u32 \<Rightarrow> u32 \<Rightarrow> u32 \<Rightarrow> u32 \<Rightarrow> u32 \<Rightarrow> u32 \<Rightarrow> bool" where
  "sample_ok r inp incap istride out outcap ostride \<longleftrightarrow>
     regions_ok r inp incap (stride_of istride (rn_input_row_bytes r)) out outcap
       (stride_of ostride (rn_output_row_bytes r)) \<and>
     lanes_ok r out outcap (stride_of ostride (rn_output_row_bytes r))"

text \<open>The caller's buffers are as large as it says.\<close>

definition buffers_ok :: "paicore_runner \<Rightarrow> u32 \<Rightarrow> u32 \<Rightarrow> u32 \<Rightarrow> u32 \<Rightarrow> runner_mem \<Rightarrow> bool" where
  "buffers_ok r inp incap out outcap m \<longleftrightarrow> mem_ok m \<and>
     unat inp + unat incap \<le> length (mm_bytes m) \<and> unat out + unat outcap \<le> length (mm_bytes m) \<and>
     (case rn_voltage_state r of None \<Rightarrow> True
      | Some b \<Rightarrow> unat (rn_voltage_state_capacity r) \<le> length (mm_state m b))"

lemma lanes_cleared_bytes [simp]: "mm_bytes (lanes_cleared r m) = mm_bytes m"
  by (simp add: lanes_cleared_def Let_def split: option.split)

lemma lanes_ok_voltage:
  assumes "lanes_ok r out outcap ostride" "ov_kind (rn_output_view r) = RVRT_OUTPUT_VOLTAGE"
  obtains b where "rn_voltage_state r = Some b"
    "voltage_state_capacity (rt_timesteps (rn_runtime r)) (ov_element_count (rn_output_view r)) (Some 0) =
       (True, Some (rt_timesteps (rn_runtime r) * ov_element_count (rn_output_view r)))"
    "rt_timesteps (rn_runtime r) * ov_element_count (rn_output_view r) \<le> rn_voltage_state_capacity r"
    "out mod 4 = 0" "outcap mod 4 = 0" "ostride mod 4 = 0"
proof -
  let ?c = "voltage_state_capacity (rt_timesteps (rn_runtime r)) (ov_element_count (rn_output_view r)) (Some 0)"
  have "fst ?c \<Longrightarrow> ?c = (True, Some (rt_timesteps (rn_runtime r) * ov_element_count (rn_output_view r)))"
    by (simp add: voltage_state_capacity_def split: if_splits)
  with assms that show ?thesis
    by (cases "rn_voltage_state r") (auto simp: lanes_ok_def split: prod.splits)
qed

lemma lanes_cleared_off:
  assumes "lanes_ok r out outcap ostride" "buffers_ok r inp incap out outcap m"
  shows "same_off A r m (lanes_cleared r m)"
proof (cases "ov_kind (rn_output_view r) = RVRT_OUTPUT_VOLTAGE")
  case True
  from lanes_ok_voltage [OF assms(1) True] obtain b where b: "rn_voltage_state r = Some b"
      "rt_timesteps (rn_runtime r) * ov_element_count (rn_output_view r) \<le> rn_voltage_state_capacity r" by metis
  then have "unat (rt_timesteps (rn_runtime r) * ov_element_count (rn_output_view r)) \<le> length (mm_state m b)"
    using assms(2) by (simp add: buffers_ok_def word_le_nat_alt)
  with b(1) show ?thesis by (auto simp: lanes_cleared_def same_off_def Let_def)
next
  case False
  then show ?thesis by (simp add: lanes_cleared_def same_off_refl split: option.split)
qed

lemma buffers_off: "buffers_ok r inp incap out outcap m \<Longrightarrow> same_off A r m m' \<Longrightarrow> buffers_ok r inp incap out outcap m'"
  by (auto simp: buffers_ok_def same_off_def mem_ok_def split: option.splits)

lemma decode_ok_sample:
  assumes "runner_ok r" "sample_ok r inp incap istride out outcap ostride" "buffers_ok r inp incap out outcap m"
  shows "decode_ok (sample_decode r out outcap ostride) r m"
proof -
  have "state_ok r m"
  proof (cases "ov_kind (rn_output_view r) = RVRT_OUTPUT_VOLTAGE")
    case True
    have "lanes_ok r out outcap (stride_of ostride (rn_output_row_bytes r))"
      using assms(2) by (simp add: sample_ok_def)
    from lanes_ok_voltage [OF this True] obtain b where b: "rn_voltage_state r = Some b"
      "voltage_state_capacity (rt_timesteps (rn_runtime r)) (ov_element_count (rn_output_view r)) (Some 0) =
         (True, Some (rt_timesteps (rn_runtime r) * ov_element_count (rn_output_view r)))"
      "rt_timesteps (rn_runtime r) * ov_element_count (rn_output_view r) \<le> rn_voltage_state_capacity r" by metis
    moreover have "unat (rn_voltage_state_capacity r) \<le> length (mm_state m b)"
      using assms(3) b(1) by (simp add: buffers_ok_def)
    ultimately show ?thesis unfolding state_ok_def by blast
  qed (simp add: state_ok_def)
  then show ?thesis
    using assms by (auto simp: decode_ok_def sample_decode_def sample_ok_def regions_ok_def lanes_ok_def
        buffers_ok_def Let_def)
qed

lemma run_sample_accepts:
  assumes "runner_deployed p w" "input_ok r rounds" "runner_ok r" "sample_ok r inp incap istride out outcap ostride"
    and "buffers_ok r inp incap out outcap (w_mem w)"
  shows "rvrt_paicore_runner_run_sample rounds env (Some (p, r)) (Some inp) incap istride (Some out) outcap ostride w =
    runner_sample_body rounds env p r inp (stride_of istride (rn_input_row_bytes r)) out outcap
      (stride_of ostride (rn_output_row_bytes r)) (w\<lparr>w_mem := lanes_cleared r (w_mem w)\<rparr>)"
proof -
  have views: "iv_entries (rn_input_view r) \<noteq> None" "ov_entries (rn_output_view r) \<noteq> None"
      "rn_encode_frame_capacity r \<noteq> 0"
    using assms(2,3) by (auto simp: input_ok_def runner_ok_def output_view_ok_def split: option.splits)
  have lanes: "lanes_ok r out outcap (stride_of ostride (rn_output_row_bytes r))"
    using assms(4) by (simp add: sample_ok_def)
  let ?is = "stride_of istride (rn_input_row_bytes r)" and ?os = "stride_of ostride (rn_output_row_bytes r)"
  let ?T = "rt_timesteps (rn_runtime r)"
  have regions: "sample_region_fits incap (rn_input_row_bytes r) ?is ?T"
    "sample_region_fits outcap (rn_output_row_bytes r) ?os ?T"
    "\<not> (sample_regions_overlap inp (region_size ?T ?is (rn_input_row_bytes r)) out
        (region_size ?T ?os (rn_output_row_bytes r)) \<and> (inp \<noteq> out \<or> ?is \<noteq> ?os))"
    using assms(4) by (auto simp: sample_ok_def regions_ok_def Let_def)
  have run: "rvrt_paicore_runner_run_sample rounds env (Some (p, r)) (Some inp) incap istride (Some out) outcap ostride w =
     (if ov_kind (rn_output_view r) = RVRT_OUTPUT_VOLTAGE then
       (let (fits, required) = voltage_state_capacity ?T (ov_element_count (rn_output_view r)) (Some 0)
        in if out mod 4 \<noteq> 0 \<or> outcap mod 4 \<noteq> 0 \<or> ?os mod 4 \<noteq> 0 \<or> \<not> fits \<or> rn_voltage_state r = None \<or>
              rn_voltage_state_capacity r < the required
           then Some (RVRT_SESSION_RUNTIME_ERROR, w)
           else do {
             let b = the (rn_voltage_state r);
             st \<leftarrow> zero_prefix (the required) (mm_state (w_mem w) b);
             let w = w\<lparr>w_mem := (w_mem w)\<lparr>mm_state := (mm_state (w_mem w))(b := st)\<rparr>\<rparr>;
             runner_sample_body rounds env p r inp ?is out outcap ?os w
           })
      else runner_sample_body rounds env p r inp ?is out outcap ?os w)"
    using views assms(1) regions
    unfolding rvrt_paicore_runner_run_sample_def rvrt_paicore_runner_run_sample_profiled_def
      Let_def stride_of_def [symmetric] region_size_def [symmetric]
    by auto
  show ?thesis
  proof (cases "ov_kind (rn_output_view r) = RVRT_OUTPUT_VOLTAGE")
    case True
    from lanes_ok_voltage [OF lanes True] obtain b where b: "rn_voltage_state r = Some b"
      "voltage_state_capacity ?T (ov_element_count (rn_output_view r)) (Some 0) =
         (True, Some (?T * ov_element_count (rn_output_view r)))"
      "?T * ov_element_count (rn_output_view r) \<le> rn_voltage_state_capacity r"
      "out mod 4 = 0" "outcap mod 4 = 0" "?os mod 4 = 0" by metis
    have "unat (?T * ov_element_count (rn_output_view r)) \<le> length (mm_state (w_mem w) b)"
      using b(1,3) assms(5) by (simp add: buffers_ok_def word_le_nat_alt)
    moreover have "\<not> rn_voltage_state_capacity r < ?T * ov_element_count (rn_output_view r)" using b(3) by simp
    ultimately show ?thesis
      unfolding run using True b(1,2,4-6)
      by (simp add: zero_prefix_def lanes_cleared_def Let_def)
  next
    case False
    then have "lanes_cleared r (w_mem w) = w_mem w" by (simp add: lanes_cleared_def split: option.split)
    with False show ?thesis unfolding run by simp
  qed
qed

lemma sample_lemma:
  assumes live: "live_at p buf (rn_artifact r) (rn_encode_frame_capacity r) clock w"
    and r: "input_ok r rounds" "runner_ok r" "rt_completion_sync_timestep (rn_runtime r) \<le> FC_CTRL_PAYLOAD_MASK"
    and args: "sample_ok r inp incap istride out outcap ostride" "buffers_ok r inp incap out outcap (w_mem w)"
    and env: "env_prompt clock (rn_timeout_ms r) env"
    and up: "hw_up (w_hw w) = script_words (b0 # bs @ extra) @ rest" "barrier_frames b0" "answers_ok r bs extra"
  shows "\<exists>st w'. rvrt_paicore_runner_run_sample rounds env (Some (p, r)) (Some inp) incap istride (Some out) outcap
      ostride w = Some (st, w') \<and>
    sample_spec r (encodable r inp (stride_of istride (rn_input_row_bytes r)) (w_mem w))
      (sample_decode r out outcap ostride) bs extra (lanes_cleared r (w_mem w)) = Some (st, w_mem w') \<and>
    same_off (row_addrs (sample_decode r out outcap ostride) r (unat (rt_timesteps (rn_runtime r)))) r
      (w_mem w) (w_mem w') \<and>
    (st = RVRT_SESSION_OK \<longrightarrow>
       live_at p buf (rn_artifact r) (rn_encode_frame_capacity r) clock w' \<and> hw_up (w_hw w') = rest \<and>
       all_encodable r inp (stride_of istride (rn_input_row_bytes r)) (w_mem w) \<and>
       hw_down (w_hw w') = hw_down (w_hw w) @
         sample_words r inp (stride_of istride (rn_input_row_bytes r)) (w_mem w))"
proof -
  let ?is = "stride_of istride (rn_input_row_bytes r)" and ?os = "stride_of ostride (rn_output_row_bytes r)"
  let ?d = "sample_decode r out outcap ostride" and ?m = "lanes_cleared r (w_mem w)" and ?T = "rt_timesteps (rn_runtime r)"
  have lanes: "lanes_ok r out outcap ?os" and regions: "regions_ok r inp incap ?is out outcap ?os"
    using args(1) by (simp_all add: sample_ok_def)
  note off = lanes_cleared_off [OF lanes args(2)]
  note buf = buffers_off [OF args(2) off]
  have mem: "mem_ok ?m" "unat inp + unat incap \<le> length (mm_bytes ?m)" "unat out + unat outcap \<le> length (mm_bytes ?m)"
    "length (mm_bytes ?m) \<le> 2 ^ 32"
    using buf by (simp_all add: buffers_ok_def mem_ok_def)
  have d: "dc_output ?d = out" "dc_output_stride ?d = ?os" by (simp_all add: sample_decode_def)
  have apart: "inputs_apart ?d r inp ?is"
    by (rule regions_apart [where outcap = outcap]) (use regions mem d in simp_all)
  note inside = regions_inside [OF regions mem(2,1)]
  note dok = decode_ok_sample [OF r(2) args(1) buf]
  have same: "encodable r inp ?is ?m = encodable r inp ?is (w_mem w)"
    "all_encodable r inp ?is ?m = all_encodable r inp ?is (w_mem w)"
    "sample_words r inp ?is ?m = sample_words r inp ?is (w_mem w)"
    by (simp_all add: encodable_def all_encodable_def sample_words_def row_words_def row_frames_def fun_eq_iff)
  have "length bs = unat ?T" using up(3) by (simp add: answers_ok_def)
  from sample_spec_total [OF dok mem(1) this, of "encodable r inp ?is (w_mem w)" extra] obtain st m where
    spec: "sample_spec r (encodable r inp ?is (w_mem w)) ?d bs extra ?m = Some (st, m)"
      "same_off (row_addrs ?d r (unat ?T)) r ?m m" by blast
  let ?w = "w\<lparr>w_mem := ?m\<rparr>"
  have "runner_deployed p w" using live by (simp add: live_at_def ready_def runner_deployed_def)
  note run = run_sample_accepts [OF this r(1,2) args]
  from sample_body_refines [of r rounds ?d inp ?is ?w out outcap ?os clock env p buf b0 bs extra rest st m]
    r apart inside dok mem(1) env live up spec(1) same
  obtain w' where "runner_sample_body rounds env p r inp ?is out outcap ?os ?w = Some (st, w')" "w_mem w' = m"
    "st = RVRT_SESSION_OK \<longrightarrow> live_at p buf (rn_artifact r) (rn_encode_frame_capacity r) clock w' \<and>
        hw_up (w_hw w') = rest \<and> all_encodable r inp ?is (w_mem w) \<and>
        hw_down (w_hw w') = hw_down (w_hw w) @ sample_words r inp ?is (w_mem w)"
    by (auto simp: sample_decode_def)
  with run spec same_off_trans [OF off spec(2)] show ?thesis by (auto cong: conj_cong)
qed


text \<open>C2.  A sample is its rows.  On a deployed runner with accepted arguments, whatever the chip sends
  before it completes each barrier, a sample returns the status of the reference row by row and
  leaves exactly its memory, where every input row is the one the caller passed, also when the sample
  runs in place; a successful sample has sent the initialisation frame, then for each timestep its
  input frames and one synchronization frame of payload 1, then the synchronization frame of the
  pipeline's remaining latency, and the session is ready for the next one.\<close>

theorem sample_refines_rows:
  assumes "live_at p buf (rn_artifact r) (rn_encode_frame_capacity r) clock w"
    and "input_ok r rounds" "runner_ok r" "rt_completion_sync_timestep (rn_runtime r) \<le> FC_CTRL_PAYLOAD_MASK"
    and "sample_ok r inp incap istride out outcap ostride" "buffers_ok r inp incap out outcap (w_mem w)"
    and "env_prompt clock (rn_timeout_ms r) env"
    and "hw_up (w_hw w) = script_words (b0 # bs @ extra) @ rest" "barrier_frames b0" "answers_ok r bs extra"
  shows "\<exists>st w'. rvrt_paicore_runner_run_sample rounds env (Some (p, r)) (Some inp) incap istride (Some out) outcap
      ostride w = Some (st, w') \<and>
    sample_spec r (encodable r inp (stride_of istride (rn_input_row_bytes r)) (w_mem w))
      (sample_decode r out outcap ostride) bs extra (lanes_cleared r (w_mem w)) = Some (st, w_mem w') \<and>
    (st = RVRT_SESSION_OK \<longrightarrow>
       live_at p buf (rn_artifact r) (rn_encode_frame_capacity r) clock w' \<and> hw_up (w_hw w') = rest \<and>
       hw_down (w_hw w') = hw_down (w_hw w) @
         sample_words r inp (stride_of istride (rn_input_row_bytes r)) (w_mem w))"
  using sample_lemma [OF assms] by blast


section \<open>A small sample\<close>

text \<open>Two timesteps of two 1-bit elements; the chip answers each barrier.\<close>

definition demo_data :: "u32 \<Rightarrow> u32 \<Rightarrow> u32 \<Rightarrow> rvrt_frame" where
  "demo_data t axon payload =
     \<lparr>fr_high = 0x80000000, fr_low = push_bit RVRT_WF_AX_OFFSET axon OR push_bit RVRT_WF_TS_LO_OFFSET t OR payload\<rparr>"

definition demo_script :: "(rvrt_frame list \<times> rvrt_frame) list" where
  "demo_script = [([], demo_complete), ([demo_data 0 0 1], demo_complete),
                  ([demo_data 0 1 1, demo_data 1 0 1], demo_complete)]"

definition demo_sample_mem :: runner_mem where
  "demo_sample_mem = \<lparr>mm_bytes = [1, 2, 0, 4, 9, 9, 9, 9, 9], mm_state = (\<lambda>_. [])\<rparr>"

definition demo_rworld :: rworld where
  "demo_rworld =
     \<lparr>w_hw = \<lparr>hw_down = [], hw_up = script_words demo_script, hw_pending = 0, hw_irq_enable = 0, hw_mstatus = 8\<rparr>,
      w_active = Some 0,
      w_session = (\<lambda>_. zero_session)(0 := zero_session\<lparr>se_artifact := Some (0, demo_artifact),
                                       se_rx_frames := Some 0, se_rx_capacity := 4\<rparr>),
      w_buf = (\<lambda>_. replicate 4 zero_frame), w_mem = demo_sample_mem, w_clock = 16000000\<rparr>"

definition demo_sample_env :: sample_env where
  "demo_sample_env = \<lparr>sv_reset = demo_env, sv_sync = (\<lambda>_. demo_env)\<rparr>"

lemma demo_env_prompt: "env_prompt 16000000 2 demo_sample_env"
proof -
  have "env_ok 16000000 2 demo_env"
    unfolding env_ok_def
    by (rule exI [of _ "[hd (we_polls demo_env)]"], rule exI [of _ "we_polls demo_env ! 1"])
      (simp add: demo_env_def)
  then show ?thesis by (simp add: env_prompt_def demo_sample_env_def)
qed

lemma demo_runner_fields [simp]:
  "rn_artifact demo_runner = demo_artifact" "rn_input_view demo_runner = demo_in_view"
  "rn_output_view demo_runner = demo_fast_view" "rn_timeout_ms demo_runner = 2"
  "rn_encode_frame_capacity demo_runner = 4" "rn_input_row_bytes demo_runner = 2"
  "rn_output_row_bytes demo_runner = 2" "rt_timesteps (rn_runtime demo_runner) = 2"
  "rt_completion_sync_timestep (rn_runtime demo_runner) = 2" "rn_voltage_state demo_runner = None"
  by (simp_all add: demo_runner_def zero_runner_def)

lemma demo_live: "live_at 0 0 demo_artifact 4 16000000 demo_rworld"
  by (simp add: live_at_def ready_def demo_rworld_def zero_session_def zero_barrier_def)

lemma demo_root_ok: "root_ok demo_artifact 0"
proof -
  have "\<exists>c. rvrt_artifact_thread_root_core_offset (Some demo_artifact) 0 (Some zero_core_offset) =
      (RVRT_ARTIFACT_OK, Some c) \<and> dest_ok c zero_copy_count"
    by (simp add: rvrt_artifact_thread_root_core_offset_def thread_at_def vector_at_def demo_defs
        fill_core_offset_def dest_ok_def sm6_range_def zero_copy_count_def)
  then show ?thesis by (auto simp: root_ok_def)
qed

lemma demo_input_ok: "input_ok demo_runner 5"
  by (simp add: input_ok_def demo_in_view_ok demo_root_ok) (simp add: demo_in_view_def demo_in_entries_def)

lemma demo_sample_ok: "sample_ok demo_runner 0 4 0 4 4 0"
  by (simp add: sample_ok_def regions_ok_def lanes_ok_def stride_of_def region_size_def fits_lemma
      sample_regions_overlap_def demo_fast_view_def)

lemma demo_buffers_ok: "buffers_ok demo_runner 0 4 4 4 (w_mem demo_rworld)"
  by (simp add: buffers_ok_def mem_ok_def demo_rworld_def demo_sample_mem_def)

lemma demo_answers_ok:
  "barrier_frames ([], demo_complete)" "answers_ok demo_runner (tl demo_script) []"
  "hw_up (w_hw demo_rworld) = script_words (([], demo_complete) # tl demo_script @ []) @ []"
  by (simp_all add: barrier_frames_def answers_ok_def demo_script_def demo_complete_def demo_data_def
      rvrt_frame_is_complete_def demo_rworld_def)

lemmas demo_sample = demo_live demo_input_ok demo_runner_ok demo_sample_ok demo_buffers_ok demo_env_prompt
  demo_answers_ok

theorem sample_refines_rows_witness:
  "\<exists>st w'. rvrt_paicore_runner_run_sample 5 demo_sample_env (Some (0, demo_runner)) (Some 0) 4 0 (Some 4) 4 0 demo_rworld =
     Some (st, w') \<and>
   sample_spec demo_runner (encodable demo_runner 0 2 demo_sample_mem) (sample_decode demo_runner 4 4 0)
     (tl demo_script) [] demo_sample_mem = Some (st, w_mem w')"
proof -
  have "stride_of 0 2 = 2" "w_mem demo_rworld = demo_sample_mem" "lanes_cleared demo_runner demo_sample_mem = demo_sample_mem"
    by (simp_all add: stride_of_def demo_rworld_def lanes_cleared_def)
  moreover note sample_refines_rows [of 0 0 demo_runner 16000000 demo_rworld 5 0 4 0 4 4 0 demo_sample_env
      "([], demo_complete)" "tl demo_script" "[]" "[]"]
  ultimately show ?thesis using demo_sample by simp blast
qed

end
