(* ===== verification/Runner_Stream.thy ===== *)
theory Runner_Stream
  imports Runner_Run
begin

text \<open>
  The output of a DATA sample, end to end: handling the frames barrier by barrier leaves in the output
  what decoding all of them at once would leave there.
\<close>

section \<open>One frame\<close>

lemma decode_data_stride:
  assumes v: "output_view_ok v" and bits: "dtype_bits d = Some (bits, sg)"
    and size: "sample_region_fits cap (ov_element_count v) stride T" "unat cap \<le> length out"
    and t1: "rvrt_frame_is_work_type1 f"
  shows "decode_data_work_frame v f bits sg T stride out cap =
     Some (RVRT_CODEC_STATUS_OK, apply_write (unat stride) out (data_write v bits sg T f),
           data_write v bits sg T f \<noteq> None)"
proof -
  from v obtain es where es: "ov_entries v = Some es" by (auto simp: output_view_ok_def split: option.splits)
  obtain ts key where addr: "rvrt_output_frame_address v f = Inr (ts, key)" using work_address [OF v] .
  have b32: "unat bits \<le> 32" using dtype_bits_cases [OF bits] by auto
  show ?thesis
  proof (cases "find_output_entry es key")
    case None
    with es addr show ?thesis
      by (simp add: decode_data_work_frame_def output_address_for_work_frame_def output_find_eq
          data_write_def apply_write_def)
  next
    case (Some c)
    show ?thesis
    proof (cases "ts < T")
      case False
      with es addr Some have "data_write v bits sg T f = None" by (simp add: data_write_def Let_def)
      moreover have "ts \<ge> T" using False by simp
      ultimately show ?thesis using addr
        by (simp add: decode_data_work_frame_def output_address_for_work_frame_def apply_write_def)
    next
      case True
      note row = row_index [OF size(1) True found_element [OF v es Some]]
      have inside: "\<not> ts * stride + oe_elem_idx c \<ge> cap"
        and wr: "wr out (ts * stride + oe_elem_idx c) x = Some (out[unat ts * unat stride + unat (oe_elem_idx c) := x])" for x
        using row(1,2) size(2) by (simp_all add: word_le_nat_alt)
      show ?thesis
        using True row(3-5) inside wr es addr Some t1 and_not_mask_zero [OF b32]
        by (auto simp: decode_data_work_frame_def output_address_for_work_frame_def output_find_eq
            data_write_def apply_write_def Let_def not_le)
    qed
  qed
qed

text \<open>A frame whose timestep is among the first \<open>n\<close>.\<close>

definition timely :: "rvrt_artifact_output_mapping_view \<Rightarrow> nat \<Rightarrow> rvrt_frame list \<Rightarrow> bool" where
  "timely v n fs \<longleftrightarrow> list_all (\<lambda>f. rvrt_frame_is_work (Some f) \<longrightarrow>
     (case rvrt_output_frame_address v f of Inl _ \<Rightarrow> True | Inr (ts, _) \<Rightarrow> unat ts < n)) fs"

text \<open>A runner with DATA outputs of a supported type.\<close>

definition data_runner :: "paicore_runner \<Rightarrow> u32 \<Rightarrow> bool \<Rightarrow> bool" where
  "data_runner r bits sg \<longleftrightarrow> runner_ok r \<and> ov_kind (rn_output_view r) = RVRT_OUTPUT_DATA \<and>
     dtype_bits (ov_dtype (rn_output_view r)) = Some (bits, sg)"

lemma data_runner_row: "data_runner r bits sg \<Longrightarrow> rn_output_row_bytes r = ov_element_count (rn_output_view r)"
  by (auto simp: data_runner_def runner_ok_def runner_output_row_bytes_def)

abbreviation write_of :: "paicore_runner \<Rightarrow> u32 \<Rightarrow> bool \<Rightarrow> rvrt_frame \<Rightarrow> (nat \<times> nat \<times> u8) option" where
  "write_of r bits sg \<equiv> data_write (rn_output_view r) bits sg (rt_timesteps (rn_runtime r))"

lemma decode_output_put:
  assumes "unat (dc_output d) + unat (dc_output_capacity d) \<le> length (mm_bytes m)"
    and "length out = unat (dc_output_capacity d)"
  shows "decode_output d (put_output d out m) = out"
  using assms by (simp add: decode_output_def put_output_def region_def put_region_def)

lemma data_frame_handled:
  assumes ok: "decode_ok d r m" and r: "data_runner r bits sg"
    and "timely (rn_output_view r) (unat (dc_submitted_timesteps d)) [f]"
  shows "\<exists>m'. runner_rx_frame_handler r (Some d) f m = Some (RVRT_SESSION_OK, m') \<and>
     decode_output d m' = apply_write (unat (dc_output_stride d)) (decode_output d m) (write_of r bits sg f)"
proof -
  let ?v = "rn_output_view r"
  have v: "output_view_ok ?v" "ov_kind ?v = RVRT_OUTPUT_DATA" "dtype_bits (ov_dtype ?v) = Some (bits, sg)"
    using r by (simp_all add: data_runner_def runner_ok_def)
  have d: "dc_runner d = Some r" "unat (dc_output d) + unat (dc_output_capacity d) \<le> length (mm_bytes m)"
    "sample_region_fits (dc_output_capacity d) (ov_element_count ?v) (dc_output_stride d) (rt_timesteps (rn_runtime r))"
    using ok data_runner_row [OF r] by (simp_all add: decode_ok_def)
  have valid: "runner_validate_frame_timestep d f = RVRT_SESSION_OK"
    using assms(3) d(1) by (auto simp: runner_validate_frame_timestep_def timely_def word_less_nat_alt split: sum.split)
  have len: "length (decode_output d m) = unat (dc_output_capacity d)"
    using d(2) by (simp add: decode_output_def length_region)
  show ?thesis
  proof (cases "rvrt_frame_is_work_type1 f")
    case True
    from decode_data_stride [OF v(1,3) d(3) _ True, of "decode_output d m"] len
    have "runner_rx_frame_handler r (Some d) f m = Some (RVRT_SESSION_OK, put_output d
        (apply_write (unat (dc_output_stride d)) (decode_output d m) (write_of r bits sg f)) m)"
      unfolding fast_handlers_lemma [OF ok] generic_data [OF ok v(2,3)]
      using True valid by (simp add: foreign_future_def runner_handle_codec_result_def)
    then show ?thesis using decode_output_put [OF d(2)] len by simp
  next
    case False
    then have "runner_rx_frame_handler r (Some d) f m = Some (RVRT_SESSION_OK, m)"
      unfolding fast_handlers_lemma [OF ok] generic_data [OF ok v(2,3)] using valid by (simp add: foreign_future_def)
    then show ?thesis using False by (simp add: data_write_other_kind)
  qed
qed

lemma data_frames_handled:
  assumes r: "data_runner r bits sg"
  shows "decode_ok d r m \<Longrightarrow> timely (rn_output_view r) (unat (dc_submitted_timesteps d)) fs \<Longrightarrow>
    \<exists>m'. handler_fold (runner_rx_frame_handler r) (Some d) fs (RVRT_SESSION_OK, m) = Some (RVRT_SESSION_OK, m') \<and>
      decode_output d m' = foldl (apply_write (unat (dc_output_stride d))) (decode_output d m) (map (write_of r bits sg) fs)"
proof (induction fs arbitrary: m)
  case Nil
  then show ?case by simp
next
  case (Cons f fs)
  from Cons.prems(2) have t: "timely (rn_output_view r) (unat (dc_submitted_timesteps d)) [f]"
      "timely (rn_output_view r) (unat (dc_submitted_timesteps d)) fs" by (simp_all add: timely_def)
  from data_frame_handled [OF Cons.prems(1) r t(1)] obtain m1 where
    m1: "runner_rx_frame_handler r (Some d) f m = Some (RVRT_SESSION_OK, m1)"
      "decode_output d m1 = apply_write (unat (dc_output_stride d)) (decode_output d m) (write_of r bits sg f)" by blast
  then have "decode_ok d r m1" using runner_sink.accepts [OF Cons.prems(1), of f] by auto
  from Cons.IH [OF this t(2)] m1 show ?case by auto
qed


section \<open>One row\<close>

lemma last_write_append: "last_write t i (us @ ws) x = last_write t i ws (last_write t i us x)"
proof (induction ws rule: rev_induct)
  case (snoc w ws)
  then show ?case
    by (cases w) (auto simp: last_write_def is_write_def append_assoc [symmetric] simp del: append_assoc)
qed (simp add: last_write_def)

text \<open>Writes to earlier rows only.\<close>

definition writes_below :: "nat \<Rightarrow> (nat \<times> nat \<times> u8) option list \<Rightarrow> bool" where
  "writes_below n ws \<longleftrightarrow> list_all (\<lambda>w. case w of None \<Rightarrow> True | Some (t, _, _) \<Rightarrow> t < n) ws"

lemma writes_below_append: "writes_below n (us @ ws) \<longleftrightarrow> writes_below n us \<and> writes_below n ws"
  by (simp add: writes_below_def)

lemma writes_below_mono: "writes_below n ws \<Longrightarrow> n \<le> k \<Longrightarrow> writes_below k ws"
  unfolding writes_below_def by (erule list.pred_mono_strong) (auto split: option.splits)

lemma last_write_below: "writes_below n ws \<Longrightarrow> last_write n i ws x = x"
proof -
  assume "writes_below n ws"
  then have "find (is_write n i) (rev ws) = None"
    by (auto simp: find_None_iff writes_below_def list_all_iff is_write_def split: option.splits)
  then show ?thesis by (simp add: last_write_def)
qed

lemma timely_writes:
  assumes "timely v n fs"
  shows "writes_below n (map (data_write v bits sg T) fs)"
  using assms
  by (auto simp: timely_def writes_below_def list_all_iff data_write_def Let_def rvrt_frame_is_work_type1_def
      split: sum.splits option.splits)

lemma zero_region_output:
  assumes "zero_region (dc_output d + t * dc_output_stride d) row (mm_bytes m) = Some bytes"
    and "decode_ok d r m" "mem_ok m" "t < rt_timesteps (rn_runtime r)" "row = rn_output_row_bytes r"
    and "j < unat (dc_output_capacity d)"
  shows "decode_output d (m\<lparr>mm_bytes := bytes\<rparr>) ! j =
     (if unat t * unat (dc_output_stride d) \<le> j \<and> j < unat t * unat (dc_output_stride d) + unat row
      then 0 else decode_output d m ! j)"
proof -
  have fits: "sample_region_fits (dc_output_capacity d) row (dc_output_stride d) (rt_timesteps (rn_runtime r))"
    and len: "unat (dc_output d) + unat (dc_output_capacity d) \<le> length (mm_bytes m)"
    using assms(2,5) by (simp_all add: decode_ok_def)
  note a = fitting_row [OF fits assms(4) len assms(3) [unfolded mem_ok_def]]
  have "bytes = put_region (dc_output d + t * dc_output_stride d) (replicate (unat row) 0) (mm_bytes m)"
    using assms(1) by (simp add: zero_region_def split: if_splits)
  then show ?thesis
    using a len assms(6) by (auto simp: decode_output_def region_def put_region_def nth_append)
qed



section \<open>All rows\<close>

text \<open>The first \<open>n\<close> rows hold the last writes of a stream.\<close>

definition rows_hold :: "decode_context \<Rightarrow> paicore_runner \<Rightarrow> nat \<Rightarrow> (nat \<times> nat \<times> u8) option list \<Rightarrow> runner_mem \<Rightarrow> bool"
  where
  "rows_hold d r n ws m \<longleftrightarrow> (\<forall>t < n. \<forall>e < unat (ov_element_count (rn_output_view r)).
     decode_output d m ! (t * unat (dc_output_stride d) + e) = last_write t e ws 0)"

lemma row_cell_inside:
  assumes "decode_ok d r m" "data_runner r bits sg" "t < unat (rt_timesteps (rn_runtime r))"
    and "e < unat (ov_element_count (rn_output_view r))"
  shows "t * unat (dc_output_stride d) + e < unat (dc_output_capacity d)" "e < unat (dc_output_stride d)"
proof -
  have fits: "sample_region_fits (dc_output_capacity d) (ov_element_count (rn_output_view r)) (dc_output_stride d)
      (rt_timesteps (rn_runtime r))"
    using assms(1) data_runner_row [OF assms(2)] by (simp add: decode_ok_def)
  then have f: "unat (ov_element_count (rn_output_view r)) \<le> unat (dc_output_stride d)"
    "(unat (rt_timesteps (rn_runtime r)) - 1) * unat (dc_output_stride d) + unat (ov_element_count (rn_output_view r))
       \<le> unat (dc_output_capacity d)"
    by (simp_all add: fits_lemma word_le_nat_alt)
  show "e < unat (dc_output_stride d)" using f(1) assms(4) by linarith
  have "t \<le> unat (rt_timesteps (rn_runtime r)) - 1" using assms(3) by linarith
  then have "t * unat (dc_output_stride d) \<le> (unat (rt_timesteps (rn_runtime r)) - 1) * unat (dc_output_stride d)"
    by (rule mult_le_mono1)
  then show "t * unat (dc_output_stride d) + e < unat (dc_output_capacity d)" using f(2) assms(4) by linarith
qed

lemma rows_hold_frames:
  assumes "decode_ok d r m" "data_runner r bits sg" "n \<le> unat (rt_timesteps (rn_runtime r))"
    and "rows_hold d r n ws m"
    and "decode_output d m' = foldl (apply_write (unat (dc_output_stride d))) (decode_output d m) (map (write_of r bits sg) fs)"
  shows "rows_hold d r n (ws @ map (write_of r bits sg) fs) m'"
  unfolding rows_hold_def
proof (intro allI impI)
  fix t e assume te: "t < n" "e < unat (ov_element_count (rn_output_view r))"
  have v: "output_view_ok (rn_output_view r)" using assms(2) by (simp add: data_runner_def runner_ok_def)
  have "t < unat (rt_timesteps (rn_runtime r))" using te(1) assms(3) by simp
  note cell = row_cell_inside [OF assms(1,2) this te(2)]
  have len: "length (decode_output d m) = unat (dc_output_capacity d)"
    using assms(1) by (simp add: decode_output_def length_region decode_ok_def)
  have "\<forall>w \<in> set (map (write_of r bits sg) fs). case w of None \<Rightarrow> True | Some (_, i, _) \<Rightarrow> i < unat (dc_output_stride d)"
  proof
    fix w assume "w \<in> set (map (write_of r bits sg) fs)"
    then obtain f where w: "w = write_of r bits sg f" by auto
    show "case w of None \<Rightarrow> True | Some (_, i, _) \<Rightarrow> i < unat (dc_output_stride d)"
    proof (cases w)
      case (Some x)
      obtain t' i y where x: "x = (t', i, y)" by (cases x)
      from data_write_index [OF v] w Some x have "i < unat (ov_element_count (rn_output_view r))" by metis
      from row_cell_inside(2) [OF assms(1,2) \<open>t < unat (rt_timesteps (rn_runtime r))\<close> this] Some x show ?thesis by simp
    qed simp
  qed
  from foldl_apply_write_nth [OF this cell(2)] cell(1) len assms(4,5) te
  show "decode_output d m' ! (t * unat (dc_output_stride d) + e) = last_write t e (ws @ map (write_of r bits sg) fs) 0"
    by (simp add: rows_hold_def last_write_append)
qed

lemma rows_hold_zero:
  assumes "decode_ok d r m" "mem_ok m" "data_runner r bits sg" "t < rt_timesteps (rn_runtime r)"
    and "rows_hold d r (unat t) ws m" "writes_below (unat t) ws"
    and "zero_region (dc_output d + t * dc_output_stride d) (rn_output_row_bytes r) (mm_bytes m) = Some bytes"
  shows "rows_hold d r (unat t + 1) ws (m\<lparr>mm_bytes := bytes\<rparr>)"
  unfolding rows_hold_def
proof (intro allI impI)
  fix k e assume ke: "k < unat t + 1" "e < unat (ov_element_count (rn_output_view r))"
  have kT: "k < unat (rt_timesteps (rn_runtime r))" using ke(1) assms(4) by (simp add: word_less_nat_alt)
  note cell = row_cell_inside [OF assms(1,3) kT ke(2)]
  note row = data_runner_row [OF assms(3)]
  note z = zero_region_output [OF assms(7,1,2,4) refl cell(1), unfolded row]
  show "decode_output d (m\<lparr>mm_bytes := bytes\<rparr>) ! (k * unat (dc_output_stride d) + e) = last_write k e ws 0"
  proof (cases "k = unat t")
    case True
    then show ?thesis using z ke(2) last_write_below [OF assms(6)] by simp
  next
    case False
    then have "k < unat t" using ke(1) by simp
    then have "k * unat (dc_output_stride d) + unat (dc_output_stride d) \<le> unat t * unat (dc_output_stride d)"
      by (metis Suc_leI add.commute mult_Suc mult_le_mono1)
    then have "k * unat (dc_output_stride d) + e < unat t * unat (dc_output_stride d)" using cell(2) by linarith
    then show ?thesis using z \<open>k < unat t\<close> ke(2) assms(5) by (simp add: rows_hold_def)
  qed
qed

lemma sample_rows_stream:
  assumes r: "data_runner r bits sg" and enc: "\<And>t. t < rt_timesteps (rn_runtime r) \<Longrightarrow> enc t"
  shows "decode_ok d r m \<Longrightarrow> mem_ok m \<Longrightarrow> unat t + length bs \<le> unat (rt_timesteps (rn_runtime r)) \<Longrightarrow>
    \<forall>j < length bs. timely (rn_output_view r) (unat t + j + 1) (fst (bs ! j)) \<Longrightarrow>
    rows_hold d r (unat t) ws m \<Longrightarrow> writes_below (unat t) ws \<Longrightarrow>
    \<exists>m'. sample_rows r enc d t bs m = Some (RVRT_SESSION_OK, m') \<and> decode_ok d r m' \<and>
      rows_hold d r (unat t + length bs) (ws @ map (write_of r bits sg) (concat (map fst bs))) m'"
proof (induction bs arbitrary: t m ws)
  case Nil
  then show ?case by simp
next
  case (Cons b bs)
  then have t: "t < rt_timesteps (rn_runtime r)" by (simp add: word_less_nat_alt)
  note Suc_t = unat_Suc_word [OF t]
  let ?d = "d\<lparr>dc_submitted_timesteps := t + 1\<rparr>"
  from rows_step [OF Cons.prems(1,2) t, of "fst b"] obtain bytes st m1 where
    s: "zero_region (dc_output d + t * dc_output_stride d) (rn_output_row_bytes r) (mm_bytes m) = Some bytes"
      "handler_fold (runner_rx_frame_handler r) (Some ?d) (fst b) (RVRT_SESSION_OK, m\<lparr>mm_bytes := bytes\<rparr>) = Some (st, m1)"
      "decode_ok d r m1" "mem_ok m1" by blast
  let ?m0 = "m\<lparr>mm_bytes := bytes\<rparr>"
  have z: "decode_ok d r ?m0" using zero_row [OF Cons.prems(1,2) t, of "unat t + 1"] s(1)
    decode_ok_same_off [OF Cons.prems(1)] by auto
  have timely0: "timely (rn_output_view r) (unat t + 1) (fst b)"
    using Cons.prems(4) [rule_format, of 0] by simp
  then have "timely (rn_output_view r) (unat (dc_submitted_timesteps ?d)) (fst b)" using Suc_t by simp
  from data_frames_handled [OF r, of ?d ?m0 "fst b"] z this s(2) have
    m1: "st = RVRT_SESSION_OK"
      "decode_output ?d m1 = foldl (apply_write (unat (dc_output_stride d))) (decode_output ?d ?m0) (map (write_of r bits sg) (fst b))"
    by auto
  have out_d: "decode_output ?d x = decode_output d x" for x by (simp add: decode_output_def)
  have hold: "rows_hold d r (unat (t + 1)) (ws @ map (write_of r bits sg) (fst b)) m1"
    unfolding Suc_t
    by (rule rows_hold_frames [OF z r _ rows_hold_zero [OF Cons.prems(1,2) r t Cons.prems(5,6) s(1)]])
      (use t m1(2) in \<open>simp_all add: out_d word_less_nat_alt\<close>)
  have below: "writes_below (unat (t + 1)) (ws @ map (write_of r bits sg) (fst b))"
    unfolding Suc_t writes_below_append
    using writes_below_mono [OF Cons.prems(6)] timely_writes [OF timely0] by simp
  have later: "\<forall>j < length bs. timely (rn_output_view r) (unat (t + 1) + j + 1) (fst (bs ! j))"
  proof (intro allI impI)
    fix j assume "j < length bs"
    then show "timely (rn_output_view r) (unat (t + 1) + j + 1) (fst (bs ! j))"
      using Cons.prems(4) [rule_format, of "Suc j"] Suc_t by simp
  qed
  have "unat (t + 1) + length bs \<le> unat (rt_timesteps (rn_runtime r))" using Cons.prems(3) Suc_t by simp
  from Cons.IH [OF s(3,4) this later hold below] enc [OF t] s(1,2) m1(1) Suc_t show ?case by auto
qed



section \<open>The whole sample\<close>

text \<open>Every frame arrives once its timestep was submitted.\<close>

definition timely_script ::
    "rvrt_artifact_output_mapping_view \<Rightarrow> (rvrt_frame list \<times> rvrt_frame) list \<Rightarrow> (rvrt_frame list \<times> rvrt_frame) list \<Rightarrow> bool"
  where
  "timely_script v bs extra \<longleftrightarrow> (\<forall>j < length bs. timely v (j + 1) (fst (bs ! j))) \<and>
     list_all (\<lambda>b. timely v (length bs) (fst b)) extra"

lemma sample_spec_stream:
  assumes r: "data_runner r bits sg" and enc: "all_encodable r inp istride m0"
    and ok: "decode_ok d r m" "mem_ok m" "answers_ok r bs extra" "timely_script (rn_output_view r) bs extra"
  shows "\<exists>m'. sample_spec r (encodable r inp istride m0) d bs extra m = Some (RVRT_SESSION_OK, m') \<and>
     rows_hold d r (unat (rt_timesteps (rn_runtime r))) (map (write_of r bits sg) (concat (map fst (bs @ extra)))) m'"
proof -
  let ?T = "rt_timesteps (rn_runtime r)" and ?v = "rn_output_view r"
  let ?d = "d\<lparr>dc_submitted_timesteps := ?T\<rparr>"
  have bs: "length bs = unat ?T" using ok(3) by (simp add: answers_ok_def)
  have e: "encodable r inp istride m0 t" if "t < ?T" for t
    using enc [unfolded all_encodable_def, rule_format, of "unat t"] that by (simp add: word_less_nat_alt)
  have start: "rows_hold d r (unat 0) [] m" "writes_below (unat 0) []" by (simp_all add: rows_hold_def writes_below_def)
  from sample_rows_stream [where enc = "encodable r inp istride m0" and t = 0 and bs = bs and ws = "[]",
      OF r e ok(1,2)] start ok(4) bs
  obtain m1 where rows: "sample_rows r (encodable r inp istride m0) d 0 bs m = Some (RVRT_SESSION_OK, m1)"
      "decode_ok d r m1" "rows_hold d r (unat ?T) (map (write_of r bits sg) (concat (map fst bs))) m1"
    by (auto simp: timely_script_def)
  show ?thesis
  proof (cases extra)
    case Nil
    with rows show ?thesis by (simp add: sample_spec_def)
  next
    case (Cons b rest)
    then have extra: "extra = [b]" using ok(3) by (auto simp: answers_ok_def split: if_splits)
    then have "timely ?v (unat (dc_submitted_timesteps ?d)) (fst b)"
      using ok(4) bs by (simp add: timely_script_def)
    from data_frames_handled [OF r, of ?d m1 "fst b"] rows(2) this obtain m2 where
      m2: "handler_fold (runner_rx_frame_handler r) (Some ?d) (fst b) (RVRT_SESSION_OK, m1) = Some (RVRT_SESSION_OK, m2)"
        "decode_output d m2 = foldl (apply_write (unat (dc_output_stride d))) (decode_output d m1) (map (write_of r bits sg) (fst b))"
      by (auto simp: decode_output_def)
    from rows_hold_frames [OF rows(2) r order.refl rows(3) m2(2)] m2(1) rows(1) extra show ?thesis
      by (simp add: sample_spec_def)
  qed
qed

text \<open>C1.  The output of a DATA sample.  On a deployed DATA runner, when the input is encodable and no
  frame arrives before its timestep was submitted, the sample succeeds, and each element of each
  timestep holds the payload of the last DATA frame that the chip sent for it in the whole sample,
  or zero when there was none: scattering the frames barrier by barrier, over rows cleared one by
  one, is the one-shot decoding of the stream.\<close>

theorem sample_streams_data:
  assumes "live_at p buf (rn_artifact r) (rn_encode_frame_capacity r) clock w"
    and "input_ok r rounds" "data_runner r bits sg" "rt_completion_sync_timestep (rn_runtime r) \<le> FC_CTRL_PAYLOAD_MASK"
    and "sample_ok r inp incap istride out outcap ostride" "buffers_ok r inp incap out outcap (w_mem w)"
    and "env_prompt clock (rn_timeout_ms r) env"
    and "hw_up (w_hw w) = script_words (b0 # bs @ extra) @ rest" "barrier_frames b0" "answers_ok r bs extra"
    and "all_encodable r inp (stride_of istride (rn_input_row_bytes r)) (w_mem w)"
    and "timely_script (rn_output_view r) bs extra"
  shows "\<exists>w'. rvrt_paicore_runner_run_sample rounds env (Some (p, r)) (Some inp) incap istride (Some out) outcap
      ostride w = Some (RVRT_SESSION_OK, w') \<and>
    (\<forall>t < unat (rt_timesteps (rn_runtime r)). \<forall>e < unat (ov_element_count (rn_output_view r)).
       mm_bytes (w_mem w') ! (unat out + (t * unat (stride_of ostride (rn_output_row_bytes r)) + e)) =
       last_write t e (map (data_write (rn_output_view r) bits sg (rt_timesteps (rn_runtime r)))
         (concat (map fst (bs @ extra)))) 0)"
proof -
  let ?d = "sample_decode r out outcap ostride" and ?m = "lanes_cleared r (w_mem w)"
  have r: "runner_ok r" using assms(3) by (simp add: data_runner_def)
  from sample_lemma [OF assms(1,2) r assms(4-10)] obtain st w' where
    run: "rvrt_paicore_runner_run_sample rounds env (Some (p, r)) (Some inp) incap istride (Some out) outcap ostride w =
        Some (st, w')"
      "sample_spec r (encodable r inp (stride_of istride (rn_input_row_bytes r)) (w_mem w)) ?d bs extra ?m = Some (st, w_mem w')"
      "same_off (row_addrs ?d r (unat (rt_timesteps (rn_runtime r)))) r (w_mem w) (w_mem w')" by blast
  have "lanes_ok r out outcap (stride_of ostride (rn_output_row_bytes r))" using assms(5) by (simp add: sample_ok_def)
  note buf = buffers_off [OF assms(6) lanes_cleared_off [OF this assms(6)]]
  note dok = decode_ok_sample [OF r assms(5) buf]
  have "mem_ok ?m" using buf by (simp add: buffers_ok_def)
  from sample_spec_stream [OF assms(3,11) dok this assms(10,12)] run(2) have
    hold: "st = RVRT_SESSION_OK" "rows_hold ?d r (unat (rt_timesteps (rn_runtime r)))
      (map (write_of r bits sg) (concat (map fst (bs @ extra)))) (w_mem w')" by auto
  have out: "unat out + unat outcap \<le> length (mm_bytes (w_mem w'))"
    using assms(6) run(3) by (simp add: buffers_ok_def same_off_def)
  have "mm_bytes (w_mem w') ! (unat out + (t * unat (stride_of ostride (rn_output_row_bytes r)) + e)) =
      decode_output ?d (w_mem w') ! (t * unat (dc_output_stride ?d) + e)"
    if "t < unat (rt_timesteps (rn_runtime r))" "e < unat (ov_element_count (rn_output_view r))" for t e
    using row_cell_inside(1) [OF dok assms(3) that] out
    by (simp add: sample_decode_def decode_output_def region_def)
  with hold run(1) show ?thesis by (auto simp: rows_hold_def)
qed

lemma demo_data_runner: "data_runner demo_runner 1 False"
  using demo_runner_ok by (simp add: data_runner_def demo_fast_view_def dtype_bits_def k_dtype_info_def)

theorem sample_streams_data_witness:
  "\<exists>w'. rvrt_paicore_runner_run_sample 5 demo_sample_env (Some (0, demo_runner)) (Some 0) 4 0 (Some 4) 4 0 demo_rworld =
     Some (RVRT_SESSION_OK, w') \<and> mm_bytes (w_mem w') ! 5 = 1 \<and> mm_bytes (w_mem w') ! 7 = 0"
proof -
  have mem: "w_mem demo_rworld = demo_sample_mem" "stride_of 0 2 = (2 :: u32)"
    by (simp_all add: demo_rworld_def stride_of_def)
  have ent: "input_entries demo_runner = [demo_in_entry 0 5, demo_in_entry 1 6]"
    by (simp add: input_entries_def demo_in_view_def demo_in_entries_def)
  have e01: "encodable demo_runner 0 2 demo_sample_mem 0" "encodable demo_runner 0 2 demo_sample_mem 1"
    by (simp_all add: encodable_def row_frames_def ent region_def demo_sample_mem_def demo_in_entry_def
        dtype_bits_def k_dtype_info_def dtype_range_def payload_of_def work_entry_ok_def entry_of_def dest_ok_def
        sm6_range_def Let_def)
  have enc: "all_encodable demo_runner 0 2 demo_sample_mem"
    unfolding all_encodable_def
  proof (intro allI impI)
    fix k assume "k < unat (rt_timesteps (rn_runtime demo_runner))"
    then consider "k = 0" | "k = 1" by fastforce
    then show "encodable demo_runner 0 2 demo_sample_mem (of_nat k)" using e01 by cases simp_all
  qed
  have timely: "timely_script demo_fast_view (tl demo_script) []"
    by (simp add: timely_script_def demo_script_def less_Suc_eq timely_def demo_data_def demo_fast_view_def
        rvrt_output_frame_address_def)
  from sample_streams_data [of 0 0 demo_runner 16000000 demo_rworld 5 1 False 0 4 0 4 4 0 demo_sample_env
      "([], demo_complete)" "tl demo_script" "[]" "[]"] demo_sample demo_data_runner enc timely mem
  obtain w' where w': "rvrt_paicore_runner_run_sample 5 demo_sample_env (Some (0, demo_runner)) (Some 0) 4 0 (Some 4) 4 0
       demo_rworld = Some (RVRT_SESSION_OK, w')"
     "\<And>t e. t < 2 \<Longrightarrow> e < 2 \<Longrightarrow> mm_bytes (w_mem w') ! (4 + (t * 2 + e)) =
       last_write t e (map (data_write demo_fast_view 1 False 2) (concat (map fst (tl demo_script)))) 0"
    by (auto simp: demo_fast_view_def)
  have "last_write 0 1 (map (data_write demo_fast_view 1 False 2) (concat (map fst (tl demo_script)))) 0 = 1"
    "last_write 1 1 (map (data_write demo_fast_view 1 False 2) (concat (map fst (tl demo_script)))) 0 = 0"
    by (simp_all add: demo_script_def demo_data_def data_write_def demo_fast_view_def rvrt_output_frame_address_def
        demo_out_entry_def last_write_def is_write_def decode_payload_def bit_mask_def
        rvrt_frame_is_work_type1_def rvrt_frame_is_work_def)
  with w'(1) w'(2) [of 0 1] w'(2) [of 1 1] show ?thesis by auto
qed

end
