(* ===== verification/Runner_Deploy.thy ===== *)
theory Runner_Deploy
  imports Runner_Stream
begin

text \<open>
  Deployment of a runner: what a deployed runner satisfies, that everything else releases the chip, and
  which status a rejected artifact is reported with.
\<close>

section \<open>Claiming and releasing\<close>

text \<open>The session owns the chip with the buffer of the deployment.\<close>

abbreviation claimed :: "nat \<Rightarrow> nat \<times> rvrt_artifact \<Rightarrow> deploy_config \<Rightarrow> ('u, 'm) world \<Rightarrow> ('u, 'm) world \<Rightarrow> bool" where
  "claimed p art cfg \<equiv> claims p art (dp_frame_buffer cfg) (dp_frame_capacity cfg)"

lemma deploy_fail_cleared:
  assumes "claimed p art cfg w w1"
  shows "\<exists>w'. runner_deploy_fail p True st w1 = (st, zero_runner, w') \<and> cleared p w w'"
proof -
  have "claimable p w1" using assms by (simp add: claims_def claimable_def)
  from deinit_claimable [OF this] obtain w2 where "rvrt_session_deinit (Some p) w1 = (RVRT_SESSION_OK, w2)"
    "cleared p w1 w2" by blast
  then show ?thesis using assms by (auto simp: runner_deploy_fail_def cleared_def claims_def)
qed

section \<open>The input schedule\<close>

text \<open>The timestamps of an entry's frames: \<open>tick + ts * 2 ^ lcn\<close> in eight bits for every timestep.\<close>

definition window_ok :: "nat \<Rightarrow> fbs_InputEntry \<Rightarrow> bool" where
  "window_ok T e \<longleftrightarrow> unat (ie_tick_relative e) < 2 ^ unat (ie_target_lcn e) \<and> T * 2 ^ unat (ie_target_lcn e) \<le> 256"

lemma window_checks:
  fixes lcn tick T :: u32
  assumes "unat lcn \<le> 7"
  shows "(tick \<ge> push_bit (unat lcn) (1 :: u32)) = (\<not> unat tick < 2 ^ unat lcn)"
    "(T > push_bit (unat (8 - lcn)) (1 :: u32)) = (\<not> unat T * 2 ^ unat lcn \<le> 256)"
proof -
  have p: "unat (push_bit n 1 :: u32) = 2 ^ n" if "n \<le> 8" for n
    using that unat_2p [of n] by (simp add: push_bit_eq_mult)
  show "(tick \<ge> push_bit (unat lcn) (1 :: u32)) = (\<not> unat tick < 2 ^ unat lcn)"
    using p [of "unat lcn"] assms by (simp add: word_le_nat_alt not_less)
  have l: "lcn \<le> 8" using assms by (simp add: word_le_nat_alt)
  then have s: "unat (8 - lcn) = 8 - unat lcn" by (simp add: unat_sub)
  have "(2 :: nat) ^ (8 - unat lcn) * 2 ^ unat lcn = 2 ^ 8"
    using assms by (simp add: power_add [symmetric])
  then have "unat T \<le> 2 ^ (8 - unat lcn) \<longleftrightarrow> unat T * 2 ^ unat lcn \<le> 256"
    using mult_le_cancel2 [of "unat T" "2 ^ unat lcn" "2 ^ (8 - unat lcn)"] by simp
  then show "(T > push_bit (unat (8 - lcn)) (1 :: u32)) = (\<not> unat T * 2 ^ unat lcn \<le> 256)"
    using p [of "8 - unat lcn"] s unfolding word_less_nat_alt linorder_not_le [symmetric] by simp
qed

lemma input_schedule_loop_result:
  assumes v: "input_view_ok v"
  shows "unat i + n = unat (iv_entry_count v) \<Longrightarrow>
    \<exists>st. input_schedule_loop v T i n = Some st \<and>
      (st = RVRT_SESSION_OK \<longleftrightarrow> list_all (window_ok (unat T)) (drop (unat i) (entries_of v)))"
proof (induction n arbitrary: i)
  case 0
  then show ?case by (auto simp: entries_of_def split: option.split)
next
  case (Suc n)
  then have i: "i < iv_entry_count v" by (simp add: word_less_nat_alt)
  from input_mapping_entry_ok [OF v i, of zero_input_entry] obtain es s where
    e: "iv_entries v = Some es" "es ! unat i = Some s" "unat i < length es"
      "rvrt_artifact_input_mapping_entry (Some v) i (Some zero_input_entry) = Some (RVRT_ARTIFACT_OK, Some (entry_of s))"
      "entry_in_range v (entry_of s)" by metis
  from e(5) have lcn: "unat (ie_target_lcn s) \<le> 7" "\<not> ie_target_lcn s \<ge> 8"
    by (simp_all add: entry_in_range_def entry_of_def word_le_nat_alt)
  have drop: "drop (unat i) (entries_of v) = s # drop (unat i + 1) (entries_of v)"
    using e(1-3) i by (simp add: entries_of_def word_less_nat_alt Cons_nth_drop_Suc [symmetric])
  from Suc.IH [of "i + 1"] Suc.prems unat_Suc_word [OF i] obtain st where
    "input_schedule_loop v T (i + 1) n = Some st"
    "st = RVRT_SESSION_OK \<longleftrightarrow> list_all (window_ok (unat T)) (drop (unat i + 1) (entries_of v))" by auto
  then show ?case
    using e(4) lcn(2) window_checks [OF lcn(1)] window_ok_def [of "unat T" s]
    by (auto simp: drop entry_of_def)
qed

lemma schedule_lemma:
  assumes "input_view_ok v"
  shows "\<exists>st. validate_input_schedule (Some v) T = Some st \<and>
    (st = RVRT_SESSION_OK \<longleftrightarrow> entries_of v \<noteq> [] \<and> list_all (window_ok (unat T)) (entries_of v))"
proof -
  from assms obtain es where es: "iv_entries v = Some es" "iv_entry_count v = vsize es"
    by (auto simp: input_view_ok_def split: option.splits)
  have "entries_of v = [] \<longleftrightarrow> iv_entry_count v = 0"
    using es le_unat_uoi [of "length es" "vsize es :: u32"]
    by (auto simp: entries_of_def unat_eq_0 [symmetric])
  with es input_schedule_loop_result [OF assms, of 0 "unat (iv_entry_count v)" T] show ?thesis
    by (auto simp: validate_input_schedule_def)
qed



section \<open>A prepared runner\<close>

definition prepared :: "deploy_config \<Rightarrow> paicore_runner \<Rightarrow> bool" where
  "prepared cfg r \<longleftrightarrow>
     rvrt_artifact_thread_runtime (Some (rn_artifact r)) 0 (Some zero_runtime) = (RVRT_ARTIFACT_OK, Some (rn_runtime r)) \<and>
     rvrt_artifact_get_input_mapping_view (Some (rn_artifact r)) 0 0 (Some zero_input_view) =
       (RVRT_ARTIFACT_OK, Some (rn_input_view r)) \<and>
     rvrt_artifact_get_output_mapping_view (Some (rn_artifact r)) 0 0 (Some zero_output_view) =
       Some (RVRT_ARTIFACT_OK, Some (rn_output_view r)) \<and>
     runner_ok r \<and> input_view_ok (rn_input_view r) \<and>
     rn_input_row_bytes r = iv_element_count (rn_input_view r) \<and> rn_input_row_bytes r \<noteq> 0 \<and>
     rn_encode_frame_capacity r = dp_frame_capacity cfg \<and> rn_timeout_ms r = dp_timeout_ms cfg \<and>
     rn_voltage_state r = dp_voltage_state cfg \<and> rn_voltage_state_capacity r = dp_voltage_state_capacity cfg \<and>
     rt_timesteps (rn_runtime r) \<noteq> 0 \<and> rt_pipeline_latency (rn_runtime r) \<noteq> 0 \<and>
     unat (rt_completion_sync_timestep (rn_runtime r)) + 1 =
       unat (rt_pipeline_latency (rn_runtime r)) + unat (rt_timesteps (rn_runtime r)) \<and>
     rt_completion_sync_timestep (rn_runtime r) \<le> FC_CTRL_PAYLOAD_MASK \<and>
     entries_of (rn_input_view r) \<noteq> [] \<and>
     list_all (window_ok (unat (rt_timesteps (rn_runtime r)))) (entries_of (rn_input_view r)) \<and>
     (ov_kind (rn_output_view r) = RVRT_OUTPUT_VOLTAGE \<longrightarrow> dp_voltage_state cfg \<noteq> None \<and>
        (\<exists>req. voltage_state_capacity (rt_timesteps (rn_runtime r)) (ov_element_count (rn_output_view r)) (Some 0) =
           (True, Some req) \<and> req \<le> dp_voltage_state_capacity cfg))"

lemma completion_exact:
  assumes "T \<noteq> 0" "L \<noteq> 0" "\<not> T > UINT32_MAX - L + 1" "C = L + T - (1 :: u32)"
  shows "unat C + 1 = unat L + unat T"
proof -
  have "unat (UINT32_MAX - L) = 4294967295 - unat L" by (rule unat_SIZE_MAX_diff)
  moreover have "0 < unat L" using assms(2) by (simp add: unat_gt_0 word_neq_0_conv)
  ultimately have "unat (UINT32_MAX - L + 1) = 4294967296 - unat L"
    using unat_add_u32 [of "UINT32_MAX - L" 1] u32_max [of L] by simp
  then have "unat L + (unat T - 1) < 2 ^ 32" using assms(3) u32_max [of L] \<open>0 < unat L\<close>
    by (simp add: word_less_nat_alt)
  moreover have "C = L + (T - 1)" using assms(4) by simp
  ultimately have "unat C = unat L + (unat T - 1)"
    using unat_add_u32 [of L "T - 1"] unat_pred_u32 [OF assms(1)] by simp
  moreover have "0 < unat T" using assms(1) by (simp add: unat_gt_0 word_neq_0_conv)
  ultimately show ?thesis by simp
qed

text \<open>The layout of a runner does not depend on the buffers set after it was recognised.\<close>

lemma layout_stable:
  fixes vs vc tm fc
  assumes "configure_fast_layout r = (RVRT_SESSION_OK, r1)"
  defines "r2 \<equiv> r1\<lparr>rn_voltage_state := vs, rn_voltage_state_capacity := vc, rn_timeout_ms := tm,
    rn_encode_frame_capacity := fc\<rparr>"
  shows "configure_fast_layout r2 = (RVRT_SESSION_OK, r2)"
    "rn_output_view r2 = rn_output_view r" "rn_input_view r2 = rn_input_view r" "rn_runtime r2 = rn_runtime r"
    "rn_artifact r2 = rn_artifact r" "rn_input_row_bytes r2 = rn_input_row_bytes r"
    "rn_output_row_bytes r2 = rn_output_row_bytes r"
proof -
  from assms(1) obtain a b where r1: "r1 = r\<lparr>rn_has_fast_data_layout := a, rn_has_fast_voltage_layout := b\<rparr>"
    by (auto simp: configure_fast_layout_def Let_def split: if_splits option.splits)
  show "configure_fast_layout r2 = (RVRT_SESSION_OK, r2)"
    using assms(1) unfolding r2_def r1
    by (cases r) (auto simp: configure_fast_layout_def Let_def split: if_splits option.splits)
qed (use assms(1) in \<open>auto simp: r2_def configure_fast_layout_def Let_def split: if_splits option.splits\<close>)

lemma thread_runtime_some: "\<exists>st rt. rvrt_artifact_thread_runtime a t (Some r0) = (st, Some rt)"
  by (auto simp: rvrt_artifact_thread_runtime_def split: sum.split option.split)

lemma input_view_some: "\<exists>st v. rvrt_artifact_get_input_mapping_view a t i (Some v0) = (st, Some v)"
  by (auto simp: rvrt_artifact_get_input_mapping_view_def Let_def split: sum.split option.split)

text \<open>Preparation behind the metadata checks, as one expression.\<close>

abbreviation (input) with_views :: "rvrt_artifact_runtime \<Rightarrow> rvrt_artifact_input_mapping_view \<Rightarrow> rvrt_artifact_output_mapping_view \<Rightarrow> paicore_runner \<Rightarrow> paicore_runner" where
  "with_views rt iv ov r \<equiv>
     r\<lparr>rn_runtime := rt, rn_input_view := iv, rn_output_view := ov, rn_input_row_bytes := iv_element_count iv\<rparr>"

abbreviation (input) with_config :: "deploy_config \<Rightarrow> paicore_runner \<Rightarrow> paicore_runner" where
  "with_config cfg r \<equiv>
     r\<lparr>rn_voltage_state := dp_voltage_state cfg, rn_voltage_state_capacity := dp_voltage_state_capacity cfg,
       rn_timeout_ms := dp_timeout_ms cfg, rn_encode_frame_capacity := dp_frame_capacity cfg\<rparr>"

definition lanes_refused :: "deploy_config \<Rightarrow> rvrt_artifact_runtime \<Rightarrow> rvrt_artifact_output_mapping_view \<Rightarrow> bool" where
  "lanes_refused cfg rt ov \<longleftrightarrow>
     (let req = voltage_state_capacity (rt_timesteps rt) (ov_element_count ov) (Some 0) in
      ov_kind ov = RVRT_OUTPUT_VOLTAGE \<and>
        (\<not> fst req \<or> dp_voltage_state cfg = None \<or> dp_voltage_state_capacity cfg < the (snd req)))"

lemma prepare_run:
  assumes "rvrt_artifact_thread_runtime (Some (rn_artifact r)) 0 (Some (rn_runtime r)) = (RVRT_ARTIFACT_OK, Some rt)"
    and "rvrt_artifact_get_input_mapping_view (Some (rn_artifact r)) 0 0 (Some (rn_input_view r)) = (RVRT_ARTIFACT_OK, Some iv)"
    and "rvrt_artifact_get_output_mapping_view (Some (rn_artifact r)) 0 0 (Some (rn_output_view r)) =
      Some (RVRT_ARTIFACT_OK, Some ov)"
    and "runner_artifact_ok rt iv ov" "validate_input_schedule (Some iv) (rt_timesteps rt) = Some sst"
  shows "runner_deploy_prepare cfg fs r =
    (case runner_output_row_bytes ov of None \<Rightarrow> Some (Inl fs)
     | Some row \<Rightarrow> if sst \<noteq> RVRT_SESSION_OK then Some (Inl sst)
         else if lanes_refused cfg rt ov then Some (Inl RVRT_SESSION_BUFFER_TOO_SMALL)
         else (case configure_fast_layout ((with_views rt iv ov r)\<lparr>rn_output_row_bytes := row\<rparr>) of (layout_status, r) \<Rightarrow>
           if layout_status \<noteq> RVRT_SESSION_OK then Some (Inl fs) else Some (Inr (with_config cfg r))))"
  using assms by (simp add: runner_deploy_prepare_def lanes_refused_def Let_def split: option.split)

text \<open>What the accessors give does not depend on the old contents of the views.\<close>

lemma views_fresh:
  assumes "accepted a"
    and "rvrt_artifact_thread_runtime (Some a) 0 (Some rt0) = (RVRT_ARTIFACT_OK, Some rt)"
    and "rvrt_artifact_get_input_mapping_view (Some a) 0 0 (Some iv0) = (RVRT_ARTIFACT_OK, Some iv)"
    and "rvrt_artifact_get_output_mapping_view (Some a) 0 0 (Some ov0) = Some (RVRT_ARTIFACT_OK, Some ov)"
  shows "rvrt_artifact_thread_runtime (Some a) 0 (Some zero_runtime) = (RVRT_ARTIFACT_OK, Some rt)"
    and "rvrt_artifact_get_input_mapping_view (Some a) 0 0 (Some zero_input_view) = (RVRT_ARTIFACT_OK, Some iv)"
    and "rvrt_artifact_get_output_mapping_view (Some a) 0 0 (Some zero_output_view) = Some (RVRT_ARTIFACT_OK, Some ov)"
proof -
  show "rvrt_artifact_thread_runtime (Some a) 0 (Some zero_runtime) = (RVRT_ARTIFACT_OK, Some rt)"
    using assms(2) thread_at_ok(2) [OF assms(1), of 0]
    by (auto simp: rvrt_artifact_thread_runtime_def split: sum.splits option.splits)
  show "rvrt_artifact_get_input_mapping_view (Some a) 0 0 (Some zero_input_view) = (RVRT_ARTIFACT_OK, Some iv)"
    using assms(3) by (simp add: rvrt_artifact_get_input_mapping_view_def)
  show "rvrt_artifact_get_output_mapping_view (Some a) 0 0 (Some zero_output_view) = Some (RVRT_ARTIFACT_OK, Some ov)"
    using assms(4) by (simp add: rvrt_artifact_get_output_mapping_view_def)
qed

lemma prepare_accepted:
  assumes acc: "accepted (rn_artifact r)"
    and rt: "rvrt_artifact_thread_runtime (Some (rn_artifact r)) 0 (Some (rn_runtime r)) = (RVRT_ARTIFACT_OK, Some rt)"
    and iv: "rvrt_artifact_get_input_mapping_view (Some (rn_artifact r)) 0 0 (Some (rn_input_view r)) = (RVRT_ARTIFACT_OK, Some iv)"
    and ov: "rvrt_artifact_get_output_mapping_view (Some (rn_artifact r)) 0 0 (Some (rn_output_view r)) =
      Some (RVRT_ARTIFACT_OK, Some ov)"
    and v: "input_view_ok iv" "output_view_ok ov" and meta: "runner_artifact_ok rt iv ov"
  shows "\<exists>res. runner_deploy_prepare cfg fs r = Some res \<and>
    (case res of Inl st \<Rightarrow> True | Inr r' \<Rightarrow> prepared cfg r' \<and> rn_artifact r' = rn_artifact r)"
proof -
  note m = meta [unfolded runner_artifact_ok_def]
  have C: "unat (rt_completion_sync_timestep rt) + 1 = unat (rt_pipeline_latency rt) + unat (rt_timesteps rt)"
    by (rule completion_exact) (use m in auto)
  from schedule_lemma [OF v(1), of "rt_timesteps rt"] obtain sst where
    sch: "validate_input_schedule (Some iv) (rt_timesteps rt) = Some sst"
      "sst = RVRT_SESSION_OK \<longleftrightarrow> entries_of iv \<noteq> [] \<and> list_all (window_ok (unat (rt_timesteps rt))) (entries_of iv)"
    by blast
  note run = prepare_run [OF rt iv ov meta sch(1), of cfg fs]
  show ?thesis
  proof (cases "runner_output_row_bytes ov")
    case (Some row)
    obtain lst r1 where lay: "configure_fast_layout ((with_views rt iv ov r)\<lparr>rn_output_row_bytes := row\<rparr>) = (lst, r1)"
      by fastforce
    show ?thesis
    proof (cases "sst = RVRT_SESSION_OK \<and> \<not> lanes_refused cfg rt ov \<and> lst = RVRT_SESSION_OK")
      case False
      then show ?thesis using run Some lay by auto
    next
      case ok: True
      then have lst: "lst = RVRT_SESSION_OK" by simp
      note stable = layout_stable [OF lay [unfolded lst], where vs = "dp_voltage_state cfg"
          and vc = "dp_voltage_state_capacity cfg" and tm = "dp_timeout_ms cfg" and fc = "dp_frame_capacity cfg"]
      have req: "\<exists>req. voltage_state_capacity (rt_timesteps rt) (ov_element_count ov) (Some 0) = (True, Some req) \<and>
          req \<le> dp_voltage_state_capacity cfg" if "ov_kind ov = RVRT_OUTPUT_VOLTAGE"
        using ok that by (auto simp: lanes_refused_def voltage_state_capacity_def split: if_splits)
      have "prepared cfg (with_config cfg r1) \<and> rn_artifact (with_config cfg r1) = rn_artifact r"
        using stable views_fresh [OF acc rt iv ov] m v C sch(2) ok req Some
        unfolding prepared_def runner_ok_def lanes_refused_def by auto
      moreover have "runner_deploy_prepare cfg fs r = Some (Inr (with_config cfg r1))" using run Some lay ok by auto
      ultimately show ?thesis by simp
    qed
  qed (use run in simp)
qed

text \<open>Preparing either jumps to \<open>runtime_error\<close> or gives a prepared runner of the same artifact.\<close>

lemma prepare_result:
  assumes "accepted (rn_artifact r)"
  shows "\<exists>res. runner_deploy_prepare cfg fs r = Some res \<and>
    (case res of Inl st \<Rightarrow> True | Inr r' \<Rightarrow> prepared cfg r' \<and> rn_artifact r' = rn_artifact r)"
proof -
  let ?a = "rn_artifact r"
  obtain rts rt where rt: "rvrt_artifact_thread_runtime (Some ?a) 0 (Some (rn_runtime r)) = (rts, Some rt)"
    using thread_runtime_some by blast
  obtain ist iv where iv: "rvrt_artifact_get_input_mapping_view (Some ?a) 0 0 (Some (rn_input_view r)) = (ist, Some iv)"
    using input_view_some by blast
  obtain ost ov where ov: "rvrt_artifact_get_output_mapping_view (Some ?a) 0 0 (Some (rn_output_view r)) = Some (ost, Some ov)"
      "ost = RVRT_ARTIFACT_OK \<and> output_view_ok ov \<or> ost = RVRT_ARTIFACT_OUT_OF_RANGE"
    by (rule get_output_mapping_view_ok [OF assms])
  show ?thesis
  proof (cases "rts = RVRT_ARTIFACT_OK \<and> ist = RVRT_ARTIFACT_OK \<and> ost = RVRT_ARTIFACT_OK \<and> runner_artifact_ok rt iv ov")
    case False
    then show ?thesis using rt iv ov by (auto simp: runner_deploy_prepare_def Let_def)
  next
    case True
    then have "input_view_ok iv" "output_view_ok ov"
      using get_input_mapping_view_ok [OF assms iv] ov(2) by auto
    with True rt iv ov(1) show ?thesis using prepare_accepted [OF assms] by blast
  qed
qed


section \<open>Deployment\<close>

text \<open>The word vector of an artifact is shorter than \<open>2 ^ 32\<close>, as the 32-bit length of a FlatBuffers vector says.\<close>

definition words_fit :: "(u8 list \<Rightarrow> fbs_CompileArtifacts) \<Rightarrow> deploy_config \<Rightarrow> bool" where
  "words_fit get_root cfg \<longleftrightarrow>
     (case dp_artifact_data cfg of
        None \<Rightarrow> True
      | Some (_, bytes) \<Rightarrow>
          (case ca_config_frames (get_root bytes) of
             None \<Rightarrow> True
           | Some c \<Rightarrow> (case cf_words c of None \<Rightarrow> True | Some ws \<Rightarrow> length ws < 2 ^ 32)))"

text \<open>The runner and the world after a deployment that took place.\<close>

definition deployed :: "nat \<Rightarrow> deploy_config \<Rightarrow> paicore_runner \<Rightarrow> ('u, 'm) world \<Rightarrow> ('u, 'm) world \<Rightarrow> bool" where
  "deployed p cfg r w w' \<longleftrightarrow> prepared cfg r \<and> accepted (rn_artifact r) \<and>
     (\<exists>w1 c ws. claimed p (p, rn_artifact r) cfg w w1 \<and> config_of (rn_artifact r) c ws \<and>
        sent (config_frames_of c ws) w1 w')"


text \<open>The artifact of a deployed runner is the one in the caller's bytes.\<close>

definition reads_from :: "(u8 list \<Rightarrow> fbs_CompileArtifacts) \<Rightarrow> deploy_config \<Rightarrow> paicore_runner \<Rightarrow> bool" where
  "reads_from get_root cfg r \<longleftrightarrow>
     (\<exists>addr bytes. dp_artifact_data cfg = Some (addr, bytes) \<and> rn_artifact r = artifact_of (get_root bytes))"

text \<open>The end of a deployment that has claimed the chip: preparation and the configuration frames.\<close>

lemma deploy_from_claim:
  assumes own: "claimed p (p, a) cfg w w2" and acc: "accepted a" and conf: "config_of a c ws"
    and run: "\<And>res. runner_deploy_prepare cfg RVRT_SESSION_OK (zero_runner\<lparr>rn_artifact := a\<rparr>) = Some res \<Longrightarrow>
      deployment =
        (case res of
           Inl st \<Rightarrow> (case runner_deploy_fail p True st w2 of (st, r, w) \<Rightarrow> Some (st, Some r, w))
         | Inr r \<Rightarrow> (case rvrt_session_load_config (Some p) w2 of None \<Rightarrow> None
             | Some (st, w) \<Rightarrow> if st \<noteq> RVRT_SESSION_OK
                 then (case runner_deploy_fail p True st w of (st, r, w) \<Rightarrow> Some (st, Some r, w))
                 else Some (RVRT_SESSION_OK, Some r, w)))"
  shows "\<exists>st r w'. deployment = Some (st, Some r, w') \<and>
    (r = zero_runner \<and> cleared p w w' \<or> st = RVRT_SESSION_OK \<and> deployed p cfg r w w' \<and> rn_artifact r = a)"
proof -
  have fail: "\<exists>w'. runner_deploy_fail p True st w3 = (st, zero_runner, w') \<and> cleared p w w'"
    if "sent [] w2 w3" for st w3 using deploy_fail_cleared [OF claimed_sent [OF own that]] .
  have arta: "rn_artifact (zero_runner\<lparr>rn_artifact := a\<rparr>) = a" by simp
  from prepare_result [of "zero_runner\<lparr>rn_artifact := a\<rparr>" cfg RVRT_SESSION_OK, unfolded arta, OF acc]
  obtain res where
    prep: "runner_deploy_prepare cfg RVRT_SESSION_OK (zero_runner\<lparr>rn_artifact := a\<rparr>) = Some res"
      "case res of Inl st \<Rightarrow> True | Inr r' \<Rightarrow> prepared cfg r' \<and> rn_artifact r' = a" by blast
  have "se_artifact (w_session w2 p) = Some (p, a)" using own by (simp add: claims_def)
  from load_config_lemma [OF claimed_idle [OF own] this conf] obtain lst w3 where
    load: "rvrt_session_load_config (Some p) w2 = Some (lst, w3)"
      "lst = RVRT_SESSION_OK \<Longrightarrow> sent (config_frames_of c ws) w2 w3"
      "lst \<noteq> RVRT_SESSION_OK \<Longrightarrow> sent [] w2 w3"
    by (auto split: if_splits)
  show ?thesis
  proof (cases res)
    case (Inl st)
    then show ?thesis using run [OF prep(1)] fail [OF sent_none, of st] by auto
  next
    case (Inr r)
    then show ?thesis
      using run [OF prep(1)] load fail [of w3 lst] own conf acc prep(2)
      by (cases "lst = RVRT_SESSION_OK") (auto simp: deployed_def)
  qed
qed

text \<open>The session of a deployment: initialised, it holds the chip; refused, the chip stays free.\<close>

abbreviation (input) deploy_session_config :: "nat \<Rightarrow> rvrt_artifact \<Rightarrow> deploy_config \<Rightarrow> session_config" where
  "deploy_session_config p a cfg \<equiv> \<lparr>cfg_artifact = Some (p, a), cfg_thread_index = 0,
     cfg_rx_frames = dp_frame_buffer cfg, cfg_rx_capacity = dp_frame_capacity cfg\<rparr>"

lemma deploy_session:
  assumes "cleared p w w1"
  obtains ist w2 where "rvrt_session_init rr (Some p) (Some (deploy_session_config p a cfg)) w1 = (ist, w2)"
    "if ist = RVRT_SESSION_OK then claimed p (p, a) cfg w w2 else cleared p w w2"
proof -
  have free: "w_active w1 = None" "w_session w1 p = zero_session" using assms by (simp_all add: cleared_def)
  from session_init_claims [OF free, of "deploy_session_config p a cfg" "(p, a)" "dp_frame_buffer cfg" "dp_frame_capacity cfg" rr]
  obtain ist w2 where "rvrt_session_init rr (Some p) (Some (deploy_session_config p a cfg)) w1 = (ist, w2)"
    "if ist = RVRT_SESSION_OK then claimed p (p, a) cfg w1 w2 else cleared p w1 w2" by auto
  then show thesis
    using that claimed_cleared [OF assms] cleared_trans [OF assms] by (cases "ist = RVRT_SESSION_OK") auto
qed

lemma deploy_accepted:
  assumes fit: "words_fit get_root cfg" and free: "claimable p w"
    and cfg: "dp_artifact_data cfg = Some (addr, bytes)" "dp_frame_buffer cfg \<noteq> None" "dp_frame_capacity cfg \<noteq> 0"
      "dp_timeout_ms cfg \<noteq> 0"
    and read: "rvrt_artifact_read verify get_root (Some (addr, bytes)) (dp_artifact_size cfg)
      (Some (rn_artifact zero_runner)) = (RVRT_ARTIFACT_OK, Some (artifact_of (get_root bytes)))"
    and acc: "accepted (artifact_of (get_root bytes))"
  shows "\<exists>st r w'. rvrt_paicore_runner_deploy verify get_root rr (Some (p, r0)) (Some cfg) w = Some (st, Some r, w') \<and>
    (r = zero_runner \<and> cleared p w w' \<or> st = RVRT_SESSION_OK \<and> deployed p cfg r w w' \<and> reads_from get_root cfg r)"
proof -
  let ?a = "artifact_of (get_root bytes)"
  from acc obtain c ws where conf: "config_of ?a c ws"
    using fit cfg(1) by (auto simp: accepted_def config_of_def words_fit_def artifact_of_def split: option.splits)
  from deinit_claimable [OF free] obtain w1 where
    w1: "rvrt_session_deinit (Some p) w = (RVRT_SESSION_OK, w1)" "cleared p w w1" by blast
  from deploy_session [OF cleared_set [OF w1(2)], of rr ?a cfg] obtain ist w2 where
    init: "rvrt_session_init rr (Some p) (Some (deploy_session_config p ?a cfg)) (set_session p zero_session w1) = (ist, w2)"
      "if ist = RVRT_SESSION_OK then claimed p (p, ?a) cfg w w2 else cleared p w w2" .
  show ?thesis
  proof (cases "ist = RVRT_SESSION_OK")
    case False
    then show ?thesis
      using w1(1) cfg read init cleared_set by (auto simp: rvrt_paicore_runner_deploy_def runner_deploy_fail_def Let_def)
  next
    case True
    then have own: "claimed p (p, ?a) cfg w w2" using init(2) by simp
    have "rvrt_paicore_runner_deploy verify get_root rr (Some (p, r0)) (Some cfg) w =
      (case res of
         Inl st \<Rightarrow> (case runner_deploy_fail p True st w2 of (st, r, w) \<Rightarrow> Some (st, Some r, w))
       | Inr r \<Rightarrow> (case rvrt_session_load_config (Some p) w2 of None \<Rightarrow> None
           | Some (st, w) \<Rightarrow> if st \<noteq> RVRT_SESSION_OK
               then (case runner_deploy_fail p True st w of (st, r, w) \<Rightarrow> Some (st, Some r, w))
               else Some (RVRT_SESSION_OK, Some r, w)))"
      if "runner_deploy_prepare cfg RVRT_SESSION_OK (zero_runner\<lparr>rn_artifact := ?a\<rparr>) = Some res" for res
      using w1(1) cfg read init(1) True that by (auto simp: rvrt_paicore_runner_deploy_def Let_def split: sum.split)
    from deploy_from_claim [OF own acc conf this] show ?thesis by (auto simp: reads_from_def cfg(1))
  qed
qed

lemma deploy_result:
  assumes fit: "words_fit get_root cfg"
  shows "\<exists>st r w'. rvrt_paicore_runner_deploy verify get_root rr (Some (p, r0)) (Some cfg) w = Some (st, Some r, w') \<and>
    (if claimable p w
     then r = zero_runner \<and> cleared p w w' \<or>
       st = RVRT_SESSION_OK \<and> deployed p cfg r w w' \<and> reads_from get_root cfg r
     else st = RVRT_SESSION_BUSY \<and> r = r0 \<and> w' = w)"
proof (cases "claimable p w")
  case False
  then show ?thesis by (simp add: deinit_busy rvrt_paicore_runner_deploy_def)
next
  case free: True
  from deinit_claimable [OF free] obtain w1 where
    w1: "rvrt_session_deinit (Some p) w = (RVRT_SESSION_OK, w1)" "cleared p w w1" by blast
  note w1' = cleared_set [OF w1(2)]
  show ?thesis
  proof (cases "dp_artifact_data cfg = None \<or> dp_frame_buffer cfg = None \<or> dp_frame_capacity cfg = 0 \<or> dp_timeout_ms cfg = 0")
    case True
    then show ?thesis
      using w1(1) w1' free by (auto simp: rvrt_paicore_runner_deploy_def runner_deploy_fail_def)
  next
    case cfg: False
    then obtain addr bytes where data: "dp_artifact_data cfg = Some (addr, bytes)" by auto
    let ?read = "rvrt_artifact_read verify get_root (Some (addr, bytes)) (dp_artifact_size cfg) (Some (rn_artifact zero_runner))"
    show ?thesis
    proof (cases "fst ?read = RVRT_ARTIFACT_OK")
      case False
      then show ?thesis
        using w1(1) w1' cfg data free
        by (auto simp: rvrt_paicore_runner_deploy_def runner_deploy_fail_def Let_def split_beta)
    next
      case read: True
      from read artifact_read_lemma [of verify get_root addr bytes "dp_artifact_size cfg" "rn_artifact zero_runner"]
      have contract: "read_contract verify get_root addr bytes (dp_artifact_size cfg)"
        "snd ?read = Some (artifact_of (get_root bytes))" by (auto simp: Let_def)
      have "?read = (RVRT_ARTIFACT_OK, Some (artifact_of (get_root bytes)))" using read contract(2) by (auto intro: prod_eqI)
      from deploy_accepted [OF fit free data _ _ _ this read_contract_accepted [OF contract(1)]] cfg free show ?thesis by auto
    qed
  qed
qed


text \<open>C15.  Deployment.  Deploying always returns.  While another runner owns the chip, or a barrier of
  this one is open, it reports BUSY and changes nothing.  Otherwise either the runner is cleared, the
  chip free and nothing was sent, or the status is OK, the runner is prepared (accepted views, exact
  row sizes, a recognised layout, an input window and a completion that fit, lane state for VOLTAGE),
  the session owns the chip, and the configuration frames were sent once and in order.\<close>

theorem deploy_outcome:
  assumes "words_fit get_root cfg"
  shows "\<exists>st r w'. rvrt_paicore_runner_deploy verify get_root rr (Some (p, r0)) (Some cfg) w = Some (st, Some r, w') \<and>
    (if claimable p w then r = zero_runner \<and> cleared p w w' \<or> st = RVRT_SESSION_OK \<and> deployed p cfg r w w'
     else st = RVRT_SESSION_BUSY \<and> r = r0 \<and> w' = w)"
  using deploy_result [OF assms, of verify rr p r0 w] by (auto split: if_splits)

text \<open>The configuration of the witnesses: the small artifact at address 0, its bytes left abstract.\<close>

definition demo_deploy :: deploy_config where
  "demo_deploy = \<lparr>dp_artifact_data = Some (0, [7]), dp_artifact_size = 1, dp_frame_buffer = Some 0,
     dp_frame_capacity = 4, dp_voltage_state = None, dp_voltage_state_capacity = 0, dp_timeout_ms = 2\<rparr>"

definition demo_free :: rworld where
  "demo_free = demo_rworld\<lparr>w_active := None, w_session := (\<lambda>_. zero_session)\<rparr>"

lemma demo_free_claimable: "claimable 0 demo_free"
  by (simp add: claimable_def demo_free_def)

text \<open>A STREAM variant of the small artifact.\<close>

definition demo_stream_root :: fbs_CompileArtifacts where
  "demo_stream_root = demo_root\<lparr>ca_io_mapping := Some \<lparr>io_threads = Some [Some (demo_thread\<lparr>th_runtime :=
     Some \<lparr>rp_timesteps = 2, rp_tick_depth = 1, rp_sync_steps = 2, rp_decode_mode = 0\<rparr>\<rparr>)]\<rparr>\<rparr>"

theorem deploy_outcome_witness:
  "\<exists>st r w'. rvrt_paicore_runner_deploy (\<lambda>_ _. True) (\<lambda>_. demo_stream_root) 0 (Some (0, zero_runner))
     (Some demo_deploy) demo_free = Some (st, Some r, w') \<and>
     (r = zero_runner \<and> w_active w' = None \<or> st = RVRT_SESSION_OK \<and> deployed 0 demo_deploy r demo_free w')"
proof -
  have "words_fit (\<lambda>_. demo_stream_root) demo_deploy"
    by (simp add: words_fit_def demo_deploy_def demo_stream_root_def demo_root_def)
  from deploy_outcome [OF this, of "\<lambda>_ _. True" 0 0 zero_runner demo_free] demo_free_claimable show ?thesis
    by (auto simp: cleared_def)
qed


section \<open>Rejected metadata\<close>

text \<open>C31.  An artifact that the reader accepts but whose metadata the runner refuses (no timesteps, another
  output encoding, a completion timestep that does not match, an empty tensor, a target LCN above 7)
  is reported with status OK: the runner is cleared and the chip free, yet the caller sees success.
  The status variable still holds the OK of the session's initialisation when the code jumps to its
  error label.\<close>

theorem deploy_rejection_reports_ok:
  assumes "claimable p w" "read_contract verify get_root addr bytes n" "cap \<noteq> 0" "timeout \<noteq> 0"
    and "rvrt_artifact_thread_runtime (Some (artifact_of (get_root bytes))) 0 (Some zero_runtime) = (RVRT_ARTIFACT_OK, Some rt)"
    and "rvrt_artifact_get_input_mapping_view (Some (artifact_of (get_root bytes))) 0 0 (Some zero_input_view) =
      (RVRT_ARTIFACT_OK, Some iv)"
    and "rvrt_artifact_get_output_mapping_view (Some (artifact_of (get_root bytes))) 0 0 (Some zero_output_view) =
      Some (RVRT_ARTIFACT_OK, Some ov)"
    and "\<not> runner_artifact_ok rt iv ov"
  shows "\<exists>w'. rvrt_paicore_runner_deploy verify get_root 0 (Some (p, r0))
     (Some \<lparr>dp_artifact_data = Some (addr, bytes), dp_artifact_size = n, dp_frame_buffer = Some buf,
            dp_frame_capacity = cap, dp_voltage_state = vs, dp_voltage_state_capacity = vc, dp_timeout_ms = timeout\<rparr>) w =
       Some (RVRT_SESSION_OK, Some zero_runner, w') \<and> cleared p w w'"
proof -
  let ?a = "artifact_of (get_root bytes)"
  let ?cfg = "\<lparr>dp_artifact_data = Some (addr, bytes), dp_artifact_size = n, dp_frame_buffer = Some buf,
            dp_frame_capacity = cap, dp_voltage_state = vs, dp_voltage_state_capacity = vc, dp_timeout_ms = timeout\<rparr>"
  from deinit_claimable [OF assms(1)] obtain w1 where
    w1: "rvrt_session_deinit (Some p) w = (RVRT_SESSION_OK, w1)" "cleared p w w1" by blast
  let ?w1 = "set_session p zero_session w1"
  have w1': "cleared p w ?w1" using cleared_set [OF w1(2)] .
  have read: "rvrt_artifact_read verify get_root (Some (addr, bytes)) n (Some (rn_artifact zero_runner)) =
      (RVRT_ARTIFACT_OK, Some ?a)"
    using artifact_read_lemma [of verify get_root addr bytes n "rn_artifact zero_runner"] assms(2)
    by (auto simp: Let_def intro: prod_eqI)
  from deploy_session [OF w1', of 0 ?a ?cfg] obtain ist w2 where
    init: "rvrt_session_init 0 (Some p) (Some (deploy_session_config p ?a ?cfg)) ?w1 = (ist, w2)"
      "if ist = RVRT_SESSION_OK then claimed p (p, ?a) ?cfg w w2 else cleared p w w2" .
  have "fst (rvrt_session_init 0 (Some p) (Some (deploy_session_config p ?a ?cfg)) ?w1) = RVRT_SESSION_OK"
    using w1' assms(3,5) by (simp add: rvrt_session_init_def register_irq_def Let_def cleared_def)
  with init have ok: "ist = RVRT_SESSION_OK" and own: "claimed p (p, ?a) ?cfg w w2" by auto
  from deploy_fail_cleared [OF own] obtain w3 where
    w3: "runner_deploy_fail p True RVRT_SESSION_OK w2 = (RVRT_SESSION_OK, zero_runner, w3)" "cleared p w w3" by blast
  have "runner_deploy_prepare ?cfg RVRT_SESSION_OK (zero_runner\<lparr>rn_artifact := ?a\<rparr>) = Some (Inl RVRT_SESSION_OK)"
    using assms(5-8) by (simp add: runner_deploy_prepare_def zero_runner_def)
  then have "rvrt_paicore_runner_deploy verify get_root 0 (Some (p, r0)) (Some ?cfg) w =
      Some (RVRT_SESSION_OK, Some zero_runner, w3)"
    using w1(1) read init(1) ok w3(1) assms(3,4) by (simp add: rvrt_paicore_runner_deploy_def Let_def)
  with w3(2) show ?thesis by blast
qed

theorem deploy_rejection_reports_ok_witness:
  "\<exists>w'. rvrt_paicore_runner_deploy (\<lambda>_ _. True) (\<lambda>_. demo_root) 0 (Some (0, zero_runner)) (Some demo_deploy) demo_free =
     Some (RVRT_SESSION_OK, Some zero_runner, w') \<and> w_active w' = None"
proof -
  have contract: "read_contract (\<lambda>_ _. True) (\<lambda>_. demo_root) 0 [7] 1"
    using demo_accepted by (simp add: read_contract_def accepted_def demo_artifact_def artifact_of_def demo_root_def)
  have rt: "rvrt_artifact_thread_runtime (Some (artifact_of demo_root)) 0 (Some zero_runtime) = (RVRT_ARTIFACT_OK,
      Some \<lparr>rt_timesteps = 2, rt_pipeline_latency = 1, rt_completion_sync_timestep = 3, rt_output_time_encoding = 1\<rparr>)"
    by (simp add: rvrt_artifact_thread_runtime_def thread_at_def vector_at_def demo_defs)
  show ?thesis
    using deploy_rejection_reports_ok [OF demo_free_claimable contract _ _ rt
        demo_input_view [unfolded demo_artifact_def] demo_output_view [unfolded demo_artifact_def], of 4 2 zero_runner 0 None 0]
    by (auto simp: demo_deploy_def runner_artifact_ok_def cleared_def)
qed


section \<open>From deployment to samples\<close>

lemma deployed_ready:
  assumes "deployed p cfg r w w'" "dp_frame_buffer cfg = Some buf" "dp_frame_capacity cfg \<noteq> 0"
    and "unat (dp_frame_capacity cfg) \<le> length (w_buf w buf)" "root_ok (rn_artifact r) 0"
  shows "live_at p buf (rn_artifact r) (rn_encode_frame_capacity r) (w_clock w) w' \<and> runner_ok r \<and>
    rt_completion_sync_timestep (rn_runtime r) \<le> FC_CTRL_PAYLOAD_MASK \<and> w_mem w' = w_mem w \<and>
    input_ok r (Suc (length (the (iv_entries (rn_input_view r)))))"
proof -
  from assms(1) obtain w1 c ws where d: "prepared cfg r" "claimed p (p, rn_artifact r) cfg w w1"
      "sent (config_frames_of c ws) w1 w'" by (auto simp: deployed_def)
  have "unat (rt_timesteps (rn_runtime r)) \<le> unat (rt_completion_sync_timestep (rn_runtime r))"
  proof -
    have "0 < unat (rt_pipeline_latency (rn_runtime r))" using d(1) by (simp add: prepared_def unat_gt_0)
    then show ?thesis using d(1) by (simp add: prepared_def)
  qed
  then have T: "rt_timesteps (rn_runtime r) \<le> FC_CTRL_PAYLOAD_MASK"
    using d(1) by (simp add: prepared_def word_le_nat_alt)
  have "live_at p buf (rn_artifact r) (rn_encode_frame_capacity r) (w_clock w) w1"
    using d(1,2) assms(2-4) by (auto simp: live_at_def ready_def claims_def prepared_def)
  then show ?thesis
    using d T live_sent [OF d(3)] sent_same [OF d(3)] assms(3,5)
    by (auto simp: prepared_def input_ok_def claims_def input_view_ok_def split: option.splits)
qed

text \<open>A deployed runner satisfies everything a sample asks of it: with the frame buffer the caller
  promised and a thread root the frames can address, the session is ready on thread 0, the runner
  and its input are well formed, and the completion fits a synchronization frame.\<close>

theorem deployed_runner_ready:
  assumes "deployed p cfg r w w'" "dp_frame_buffer cfg = Some buf" "dp_frame_capacity cfg \<noteq> 0"
    and "unat (dp_frame_capacity cfg) \<le> length (w_buf w buf)" "root_ok (rn_artifact r) 0"
  shows "live_at p buf (rn_artifact r) (rn_encode_frame_capacity r) (w_clock w) w' \<and> runner_ok r \<and>
    rt_completion_sync_timestep (rn_runtime r) \<le> FC_CTRL_PAYLOAD_MASK \<and> w_mem w' = w_mem w \<and>
    input_ok r (Suc (length (the (iv_entries (rn_input_view r)))))"
  by (rule deployed_ready [OF assms])


text \<open>The small STREAM artifact, deployed.\<close>

definition demo_stream_runner :: paicore_runner where
  "demo_stream_runner = zero_runner\<lparr>rn_artifact := artifact_of demo_stream_root, rn_input_view := demo_in_view,
     rn_output_view := demo_out_view,
     rn_runtime := \<lparr>rt_timesteps = 2, rt_pipeline_latency = 1, rt_completion_sync_timestep = 2,
                    rt_output_time_encoding = 0\<rparr>,
     rn_timeout_ms := 2, rn_encode_frame_capacity := 4, rn_input_row_bytes := 2, rn_output_row_bytes := 2\<rparr>"

definition demo_claimed :: rworld where
  "demo_claimed = demo_rworld\<lparr>w_session := (\<lambda>_. zero_session)(0 := zero_session\<lparr>
     se_artifact := Some (0, artifact_of demo_stream_root), se_rx_frames := Some 0, se_rx_capacity := 4\<rparr>)\<rparr>"

lemma demo_prepared: "prepared demo_deploy demo_stream_runner"
proof -
  note defs = demo_stream_root_def demo_defs
  have "rvrt_artifact_thread_runtime (Some (artifact_of demo_stream_root)) 0 (Some zero_runtime) =
      (RVRT_ARTIFACT_OK, Some (rn_runtime demo_stream_runner))"
    by (simp add: rvrt_artifact_thread_runtime_def thread_at_def vector_at_def defs demo_stream_runner_def)
  moreover have "rvrt_artifact_get_input_mapping_view (Some (artifact_of demo_stream_root)) 0 0 (Some zero_input_view) =
      (RVRT_ARTIFACT_OK, Some demo_in_view)"
    by (simp add: rvrt_artifact_get_input_mapping_view_def input_at_def thread_at_def vector_at_def
        defs copy_shape_def demo_in_view_def demo_in_entries_def)
  moreover have "rvrt_artifact_get_output_mapping_view (Some (artifact_of demo_stream_root)) 0 0 (Some zero_output_view) =
      Some (RVRT_ARTIFACT_OK, Some demo_out_view)"
    by (simp add: rvrt_artifact_get_output_mapping_view_def output_at_def thread_at_def vector_at_def
        defs copy_shape_def demo_out_view_def demo_out_entries_def)
  moreover have "runner_ok demo_stream_runner"
    using demo_out_view_ok by (simp add: runner_ok_def demo_stream_runner_def demo_out_view_def
        runner_output_row_bytes_def configure_fast_layout_def zero_runner_def)
  moreover have "entries_of demo_in_view = [demo_in_entry 0 5, demo_in_entry 1 6]"
    by (simp add: entries_of_def demo_in_view_def demo_in_entries_def)
  moreover have "window_ok 2 (demo_in_entry i a)" for i a by (simp add: window_ok_def demo_in_entry_def)
  ultimately show ?thesis
    using demo_in_view_ok
    by (simp add: prepared_def demo_stream_runner_def demo_deploy_def zero_runner_def)
      (simp add: demo_in_view_def demo_out_view_def)
qed

lemma demo_deployed: "\<exists>w. deployed 0 demo_deploy demo_stream_runner demo_free w"
proof -
  have acc: "accepted (artifact_of demo_stream_root)"
    by (simp add: accepted_def demo_stream_root_def demo_defs io_mapping_ok_def thread_ok_def input_mapping_ok_def
      output_mapping_ok_def shape_count_def dims_ok_def numel_of_def input_entry_ok_def
      output_entry_ok_def output_keys_def dtype_width_def)
  have conf: "config_of (artifact_of demo_stream_root)
      \<lparr>cf_words = Some [1, 2, 3, 4], cf_word_order = WordOrder_HIGH_FIRST\<rparr> [1, 2, 3, 4]"
    by (simp add: config_of_def demo_stream_root_def demo_defs)
  have own: "claimed 0 (0, artifact_of demo_stream_root) demo_deploy demo_free demo_claimed"
    by (simp add: claims_def demo_claimed_def demo_free_def demo_rworld_def demo_deploy_def zero_session_def
        zero_barrier_def)
  have "se_artifact (w_session demo_claimed 0) = Some (0, artifact_of demo_stream_root)" using own by (simp add: claims_def)
  from load_config_lemma [OF claimed_idle [OF own] this conf] obtain w where
    "sent (config_frames_of \<lparr>cf_words = Some [1, 2, 3, 4], cf_word_order = WordOrder_HIGH_FIRST\<rparr> [1, 2, 3, 4])
      demo_claimed w" by auto
  moreover have "rn_artifact demo_stream_runner = artifact_of demo_stream_root" by (simp add: demo_stream_runner_def)
  ultimately have "deployed 0 demo_deploy demo_stream_runner demo_free w"
    using demo_prepared acc own conf unfolding deployed_def by metis
  then show ?thesis by blast
qed

theorem deployed_runner_ready_witness:
  "\<exists>w. deployed 0 demo_deploy demo_stream_runner demo_free w \<and>
     live_at 0 0 (artifact_of demo_stream_root) 4 16000000 w \<and> input_ok demo_stream_runner 3"
proof -
  obtain w where w: "deployed 0 demo_deploy demo_stream_runner demo_free w" using demo_deployed by blast
  have "\<exists>c. rvrt_artifact_thread_root_core_offset (Some (artifact_of demo_stream_root)) 0 (Some zero_core_offset) =
      (RVRT_ARTIFACT_OK, Some c) \<and> dest_ok c zero_copy_count"
    by (simp add: rvrt_artifact_thread_root_core_offset_def thread_at_def vector_at_def demo_stream_root_def demo_defs
        fill_core_offset_def dest_ok_def sm6_range_def zero_copy_count_def)
  then have "root_ok (rn_artifact demo_stream_runner) 0" by (auto simp: root_ok_def demo_stream_runner_def)
  moreover have "dp_frame_buffer demo_deploy = Some 0" "dp_frame_capacity demo_deploy = 4"
    "w_buf demo_free 0 = replicate 4 zero_frame" "w_clock demo_free = 16000000"
    by (simp_all add: demo_deploy_def demo_free_def demo_rworld_def)
  moreover have "rn_artifact demo_stream_runner = artifact_of demo_stream_root"
    "rn_encode_frame_capacity demo_stream_runner = 4"
    "iv_entries (rn_input_view demo_stream_runner) = Some demo_in_entries" "length demo_in_entries = 2"
    by (simp_all add: demo_stream_runner_def demo_in_view_def demo_in_entries_def)
  ultimately show ?thesis using deployed_runner_ready [OF w, of 0] w by (auto simp: numeral_3_eq_3)
qed

end
