(* ===== verification/Runner_Safe.thy ===== *)
theory Runner_Safe
  imports Runner_Run
begin

text \<open>
  A sample in an arbitrary environment: any words in the uplink, any interrupts, any readings of the cycle
  counter.  What it can touch when it returns, and when it does return.
\<close>

section \<open>A timestep\<close>

text \<open>The prefix of a timestep up to its barrier does not depend on the environment.\<close>

lemma timestep_to_barrier:
  assumes live: "live_at p buf (rn_artifact r) (rn_encode_frame_capacity r) clock w" and "epoch_at p t w"
    and inp: "input_ok r rounds" "t < rt_timesteps (rn_runtime r)"
      "unat (input + t * istride) + unat (rn_input_row_bytes r) \<le> length (mm_bytes (w_mem w))"
    and zero: "zero_region (dc_output d + t * dc_output_stride d) (rn_output_row_bytes r) (mm_bytes (w_mem w)) = Some zeroed"
  shows "(\<exists>w1. runner_timestep rounds env p r input istride d t w = Some (RVRT_SESSION_RUNTIME_ERROR, d, w1) \<and>
      w_mem w1 = w_mem w \<and> hw_up (w_hw w1) = hw_up (w_hw w)) \<or>
    (\<exists>w3. runner_timestep rounds env p r input istride d t w =
       do { (st, w') \<leftarrow> rvrt_session_sync_wait_until_with_rx_handler (Some p) (t + 1) (rn_timeout_ms r)
              (Some (runner_rx_frame_handler r)) (Some (d\<lparr>dc_submitted_timesteps := t + 1\<rparr>)) (sv_sync env (unat t)) w3;
            Some (st, d\<lparr>dc_submitted_timesteps := t + 1\<rparr>, w') } \<and>
      w_mem w3 = (w_mem w)\<lparr>mm_bytes := zeroed\<rparr> \<and> hw_up (w_hw w3) = hw_up (w_hw w) \<and> epoch_at p t w3 \<and>
      live_at p buf (rn_artifact r) (rn_encode_frame_capacity r) clock w3)"
proof -
  let ?v = "rn_input_view r" and ?a = "rn_artifact r" and ?cap = "rn_encode_frame_capacity r"
  let ?row = "region (input + t * istride) (rn_input_row_bytes r) (mm_bytes (w_mem w))"
  let ?fs = "row_frames r input istride t (w_mem w)"
  obtain es where es: "input_view_ok ?v" "iv_entries ?v = Some es" "iv_element_count ?v \<le> rn_input_row_bytes r"
      "?cap \<noteq> 0" "length es < rounds"
    using inp(1) by (auto simp: input_ok_def split: option.splits)
  have rdy: "ready p buf p ?a w" "unat ?cap \<le> length (w_buf w buf)" "se_rx_frames (w_session w p) = Some buf"
    using live by (auto simp: live_at_def ready_def)
  have idle: "idle p w" using rdy(1) by (simp add: idle_def ready_def)
  have row: "unat (rn_input_row_bytes r) \<le> length ?row" using inp(3) by (simp add: length_region)
  have ent: "input_entries r = map the (take (unat (iv_entry_count ?v)) es)" by (simp add: input_entries_def es(2))
  from send_input_lemma [OF idle es(1-3) row es(4) rdy(2) es(5), of t, folded ent, folded row_frames_def]
  obtain st' ws' w1 k where
    send: "rvrt_session_send_input_timestep rounds (Some p) (Some ?v) t (Some ?row) (rn_input_row_bytes r)
        (Some (w_buf w buf)) ?cap w = Some (st', Some ws', w1)" "length ws' = length (w_buf w buf)"
      "sent (take k (snd ?fs)) w w1"
      "if fst ?fs = RVRT_CODEC_STATUS_DONE then st' = RVRT_SESSION_OK \<and> take k (snd ?fs) = snd ?fs
       else st' = RVRT_SESSION_RUNTIME_ERROR"
    by (cases ?fs) auto
  let ?w2 = "w1\<lparr>w_buf := (w_buf w1)(buf := ws')\<rparr>"
  note same = sent_same [OF send(3)] and up = sent_up [OF send(3)]
  show ?thesis
  proof (cases "fst ?fs = RVRT_CODEC_STATUS_DONE")
    case False
    with send rdy(3) have "runner_timestep rounds env p r input istride d t w = Some (RVRT_SESSION_RUNTIME_ERROR, d, ?w2) \<and>
      w_mem ?w2 = w_mem w \<and> hw_up (w_hw ?w2) = hw_up (w_hw w)"
      by (auto simp: runner_timestep_def Let_def same up runner_session_failure_def)
    then show ?thesis by blast
  next
    case True
    let ?w3 = "?w2\<lparr>w_mem := (w_mem w)\<lparr>mm_bytes := zeroed\<rparr>\<rparr>"
    have "live_at p buf ?a ?cap clock ?w3"
      unfolding live_mem using live send(2) live_buf [of ws' w1 buf p] by (simp add: live_sent [OF send(3)] same)
    moreover have "epoch_at p t ?w3" using assms(2) by (auto simp: epoch_at_def timeline_at_def same split: if_splits)
    moreover have "runner_timestep rounds env p r input istride d t w =
       do { (st, w') \<leftarrow> rvrt_session_sync_wait_until_with_rx_handler (Some p) (t + 1) (rn_timeout_ms r)
              (Some (runner_rx_frame_handler r)) (Some (d\<lparr>dc_submitted_timesteps := t + 1\<rparr>)) (sv_sync env (unat t)) ?w3;
            Some (st, d\<lparr>dc_submitted_timesteps := t + 1\<rparr>, w') }"
      using send(1,4) True rdy(3) zero
      by (simp add: runner_timestep_def Let_def same runner_session_failure_def cong: if_cong)
    ultimately show ?thesis by (intro disjI2 exI [of _ ?w3]) (simp add: up same)
  qed
qed

lemma next_target:
  assumes "input_ok r rounds" "t < rt_timesteps (rn_runtime r)"
  shows "t < t + 1" "t + 1 \<le> FC_CTRL_PAYLOAD_MASK"
  using assms unat_Suc_word [OF assms(2)] by (simp_all add: input_ok_def word_less_nat_alt word_le_nat_alt)

lemma timestep_any:
  assumes live: "live_at p buf (rn_artifact r) (rn_encode_frame_capacity r) clock w" "epoch_at p t w"
    and inp: "input_ok r rounds" "t < rt_timesteps (rn_runtime r)"
      "unat (input + t * istride) + unat (rn_input_row_bytes r) \<le> length (mm_bytes (w_mem w))"
    and ok: "decode_ok d r (w_mem w)" "mem_ok (w_mem w)"
  shows "runner_timestep rounds env p r input istride d t w = Some (st, d', w') \<Longrightarrow>
      same_off (row_addrs d r (unat t + 1)) r (w_mem w) (w_mem w') \<and>
      (st = RVRT_SESSION_OK \<longrightarrow> d' = d\<lparr>dc_submitted_timesteps := t + 1\<rparr> \<and> epoch_at p (t + 1) w' \<and>
         live_at p buf (rn_artifact r) (rn_encode_frame_capacity r) clock w')"
    and "wait_ends clock (rn_timeout_ms r) (sv_sync env (unat t)) \<Longrightarrow>
      stocked (of_bool (noisy (sv_sync env (unat t))) + n) (w_hw w) \<Longrightarrow>
      \<exists>st d' w'. runner_timestep rounds env p r input istride d t w = Some (st, d', w') \<and> stocked n (w_hw w')"
proof -
  let ?d = "d\<lparr>dc_submitted_timesteps := t + 1\<rparr>" and ?A = "row_addrs d r (unat t + 1)"
  have root: "root_ok (rn_artifact r) 0" using inp(1) by (simp add: input_ok_def)
  from zero_row [OF ok inp(2), of "unat t + 1"] obtain zeroed where
    z: "zero_region (dc_output d + t * dc_output_stride d) (rn_output_row_bytes r) (mm_bytes (w_mem w)) = Some zeroed"
      "same_off ?A r (w_mem w) ((w_mem w)\<lparr>mm_bytes := zeroed\<rparr>)" by auto
  have good: "rows_ok ?d r (w_mem w) ((w_mem w)\<lparr>mm_bytes := zeroed\<rparr>)"
    using z(2) decode_ok_same_off [OF ok(1) z(2)] unat_Suc_word [OF inp(2)] by (simp add: rows_ok_def)
  note aim = next_target [OF inp(1,2)]
  note halves = timestep_to_barrier [OF live inp z(1), of env]
  {
    assume run: "runner_timestep rounds env p r input istride d t w = Some (st, d', w')"
    from halves show "same_off ?A r (w_mem w) (w_mem w') \<and>
      (st = RVRT_SESSION_OK \<longrightarrow> d' = ?d \<and> epoch_at p (t + 1) w' \<and>
         live_at p buf (rn_artifact r) (rn_encode_frame_capacity r) clock w')"
    proof (elim disjE exE conjE)
      fix w1 assume "runner_timestep rounds env p r input istride d t w = Some (RVRT_SESSION_RUNTIME_ERROR, d, w1)"
        "w_mem w1 = w_mem w"
      with run show ?thesis by (simp add: same_off_refl)
    next
      fix w3 assume w3: "runner_timestep rounds env p r input istride d t w =
         do { (st, w') \<leftarrow> rvrt_session_sync_wait_until_with_rx_handler (Some p) (t + 1) (rn_timeout_ms r)
                (Some (runner_rx_frame_handler r)) (Some ?d) (sv_sync env (unat t)) w3; Some (st, ?d, w') }"
        "w_mem w3 = (w_mem w)\<lparr>mm_bytes := zeroed\<rparr>" "epoch_at p t w3"
        "live_at p buf (rn_artifact r) (rn_encode_frame_capacity r) clock w3"
      from run w3(1) have sync: "rvrt_session_sync_wait_until_with_rx_handler (Some p) (t + 1) (rn_timeout_ms r)
          (Some (runner_rx_frame_handler r)) (Some ?d) (sv_sync env (unat t)) w3 = Some (st, w')" "d' = ?d"
        by (auto split: bind_splits)
      from rows_sink.sync_keeps [OF w3(4) root w3(3) aim, of ?d r "w_mem w"] good w3(2) sync
      show ?thesis using unat_Suc_word [OF inp(2)] by (auto simp: rows_ok_def)
    qed
  next
    assume ends: "wait_ends clock (rn_timeout_ms r) (sv_sync env (unat t))"
      "stocked (of_bool (noisy (sv_sync env (unat t))) + n) (w_hw w)"
    from halves show "\<exists>st d' w'. runner_timestep rounds env p r input istride d t w = Some (st, d', w') \<and> stocked n (w_hw w')"
    proof (elim disjE exE conjE)
      fix w1 assume w1: "runner_timestep rounds env p r input istride d t w = Some (RVRT_SESSION_RUNTIME_ERROR, d, w1)"
        "hw_up (w_hw w1) = hw_up (w_hw w)"
      have "stocked n (w_hw w1)" unfolding stocked_up [OF w1(2)] by (rule stocked_mono [OF ends(2)]) simp
      with w1 show ?thesis by blast
    next
      fix w3 assume w3: "runner_timestep rounds env p r input istride d t w =
         do { (st, w') \<leftarrow> rvrt_session_sync_wait_until_with_rx_handler (Some p) (t + 1) (rn_timeout_ms r)
                (Some (runner_rx_frame_handler r)) (Some ?d) (sv_sync env (unat t)) w3; Some (st, ?d, w') }"
        "w_mem w3 = (w_mem w)\<lparr>mm_bytes := zeroed\<rparr>" "hw_up (w_hw w3) = hw_up (w_hw w)" "epoch_at p t w3"
        "live_at p buf (rn_artifact r) (rn_encode_frame_capacity r) clock w3"
      have "stocked (of_bool (noisy (sv_sync env (unat t))) + n) (w_hw w3)" using ends(2) stocked_up [OF w3(3)] by simp
      from rows_sink.sync_ends [OF w3(5) root w3(4) aim _ ends(1) this, of ?d r "w_mem w"] good w3(2)
      obtain st w' where "rvrt_session_sync_wait_until_with_rx_handler (Some p) (t + 1) (rn_timeout_ms r)
          (Some (runner_rx_frame_handler r)) (Some ?d) (sv_sync env (unat t)) w3 = Some (st, w')" "stocked n (w_hw w')"
        by auto
      with w3(1) show ?thesis by auto
    qed
  }
qed


section \<open>The timesteps\<close>

lemma inputs_inside_off: "same_off A r m m' \<Longrightarrow> inputs_inside r input istride m' = inputs_inside r input istride m"
  by (simp add: inputs_inside_def same_off_def)

lemma timestep_loop_any:
  assumes inp: "input_ok r rounds"
  shows "runner_timestep_loop rounds env p r input istride d t n w = Some (st, d', w') \<Longrightarrow>
    unat t + n = unat (rt_timesteps (rn_runtime r)) \<Longrightarrow>
    live_at p buf (rn_artifact r) (rn_encode_frame_capacity r) clock w \<Longrightarrow> epoch_at p t w \<Longrightarrow>
    inputs_inside r input istride (w_mem w) \<Longrightarrow> decode_ok d r (w_mem w) \<Longrightarrow> mem_ok (w_mem w) \<Longrightarrow>
    same_off (row_addrs d r (unat (rt_timesteps (rn_runtime r)))) r (w_mem w) (w_mem w') \<and>
    (st = RVRT_SESSION_OK \<longrightarrow> d' = (if n = 0 then d else d\<lparr>dc_submitted_timesteps := rt_timesteps (rn_runtime r)\<rparr>) \<and>
       live_at p buf (rn_artifact r) (rn_encode_frame_capacity r) clock w' \<and> epoch_at p (rt_timesteps (rn_runtime r)) w')"
proof (induction n arbitrary: t d w)
  case 0
  then have "t = rt_timesteps (rn_runtime r)" by (simp add: word_unat_eq_iff)
  with 0 show ?case by (auto simp: same_off_refl)
next
  case (Suc n)
  let ?T = "rt_timesteps (rn_runtime r)" and ?d = "d\<lparr>dc_submitted_timesteps := t + 1\<rparr>"
  let ?live = "live_at p buf (rn_artifact r) (rn_encode_frame_capacity r) clock" and ?A = "row_addrs d r (unat ?T)"
  have t: "t < ?T" using Suc.prems(2) by (simp add: word_less_nat_alt)
  note Suc_t = unat_Suc_word [OF t]
  have inside: "unat (input + t * istride) + unat (rn_input_row_bytes r) \<le> length (mm_bytes (w_mem w))"
    using Suc.prems(5) t by (simp add: inputs_inside_def)
  from Suc.prems(1) obtain s1 d1 w1 where step: "runner_timestep rounds env p r input istride d t w = Some (s1, d1, w1)"
    and rest: "(if s1 \<noteq> RVRT_SESSION_OK then Some (s1, d1, w1)
       else runner_timestep_loop rounds env p r input istride d1 (t + 1) n w1) = Some (st, d', w')"
    by (auto split: option.splits)
  note one = timestep_any(1) [OF Suc.prems(3,4) inp t inside Suc.prems(6,7) step]
  have off: "same_off ?A r (w_mem w) (w_mem w1)"
    by (rule same_off_mono [OF conjunct1 [OF one] row_addrs_mono]) (use Suc.prems(2) in simp)
  show ?case
  proof (cases "s1 = RVRT_SESSION_OK")
    case False
    then show ?thesis using rest off by simp
  next
    case True
    with one have w1: "d1 = ?d" "epoch_at p (t + 1) w1" "?live w1" by simp_all
    have "decode_ok ?d r (w_mem w1)" "mem_ok (w_mem w1)" "inputs_inside r input istride (w_mem w1)"
      using decode_ok_same_off [OF Suc.prems(6) off] same_off_mem_ok [OF off] inputs_inside_off [OF off] Suc.prems(5,7)
      by simp_all
    with Suc.IH [of ?d "t + 1" w1] rest True w1 Suc.prems(2) Suc_t have ih:
      "same_off ?A r (w_mem w1) (w_mem w')"
      "st = RVRT_SESSION_OK \<longrightarrow> d' = (if n = 0 then ?d else ?d\<lparr>dc_submitted_timesteps := ?T\<rparr>) \<and> ?live w' \<and> epoch_at p ?T w'"
      by auto
    moreover have "n = 0 \<Longrightarrow> t + 1 = ?T" using Suc.prems(2) Suc_t by (simp add: word_unat_eq_iff)
    ultimately show ?thesis using same_off_trans [OF off] by auto
  qed
qed

text \<open>Every wait of a sample passes its limit at some poll.\<close>

definition sample_ends :: "u32 \<Rightarrow> u32 \<Rightarrow> sample_env \<Rightarrow> bool" where
  "sample_ends clock timeout env \<longleftrightarrow> wait_ends clock timeout (sv_reset env) \<and> (\<forall>k. wait_ends clock timeout (sv_sync env k))"

text \<open>The barriers the chip has to complete so that no service routine waits in vain: one for every wait in
  which the interrupt may strike.\<close>

definition sample_noise :: "paicore_runner \<Rightarrow> sample_env \<Rightarrow> nat" where
  "sample_noise r env = noisy_waits (sv_reset env # map (sv_sync env) [0..<Suc (unat (rt_timesteps (rn_runtime r)))])"

lemma timestep_loop_ends:
  assumes inp: "input_ok r rounds" and ends: "sample_ends clock (rn_timeout_ms r) env"
  shows "unat t + n = unat (rt_timesteps (rn_runtime r)) \<Longrightarrow>
    live_at p buf (rn_artifact r) (rn_encode_frame_capacity r) clock w \<Longrightarrow> epoch_at p t w \<Longrightarrow>
    inputs_inside r input istride (w_mem w) \<Longrightarrow> decode_ok d r (w_mem w) \<Longrightarrow> mem_ok (w_mem w) \<Longrightarrow>
    stocked (noisy_waits (map (sv_sync env) [unat t..<unat t + n]) + k) (w_hw w) \<Longrightarrow>
    \<exists>st d' w'. runner_timestep_loop rounds env p r input istride d t n w = Some (st, d', w') \<and> stocked k (w_hw w')"
proof (induction n arbitrary: t d w)
  case 0
  then show ?case by simp
next
  case (Suc n)
  let ?T = "rt_timesteps (rn_runtime r)" and ?d = "d\<lparr>dc_submitted_timesteps := t + 1\<rparr>"
  have t: "t < ?T" using Suc.prems(1) by (simp add: word_less_nat_alt)
  note Suc_t = unat_Suc_word [OF t]
  have inside: "unat (input + t * istride) + unat (rn_input_row_bytes r) \<le> length (mm_bytes (w_mem w))"
    using Suc.prems(4) t by (simp add: inputs_inside_def)
  have end_t: "wait_ends clock (rn_timeout_ms r) (sv_sync env (unat t))" using ends by (simp add: sample_ends_def)
  have upt: "[unat t..<unat t + Suc n] = unat t # [Suc (unat t)..<Suc (unat t) + n]" by (simp add: upt_conv_Cons)
  have "stocked (of_bool (noisy (sv_sync env (unat t))) +
      (noisy_waits (map (sv_sync env) [Suc (unat t)..<Suc (unat t) + n]) + k)) (w_hw w)"
    using Suc.prems(7) unfolding upt by (simp add: add.assoc)
  from timestep_any(2) [OF Suc.prems(2,3) inp t inside Suc.prems(5,6) end_t this] obtain s1 d1 w1 where
    step: "runner_timestep rounds env p r input istride d t w = Some (s1, d1, w1)"
      "stocked (noisy_waits (map (sv_sync env) [Suc (unat t)..<Suc (unat t) + n]) + k) (w_hw w1)" by blast
  note one = timestep_any(1) [OF Suc.prems(2,3) inp t inside Suc.prems(5,6) step(1)]
  show ?case
  proof (cases "s1 = RVRT_SESSION_OK")
    case False
    have "stocked k (w_hw w1)" by (rule stocked_mono [OF step(2)]) simp
    with False step(1) show ?thesis by simp
  next
    case True
    with one have w1: "d1 = ?d" "epoch_at p (t + 1) w1"
      "live_at p buf (rn_artifact r) (rn_encode_frame_capacity r) clock w1"
      and off: "same_off (row_addrs d r (unat t + 1)) r (w_mem w) (w_mem w1)" by simp_all
    have m: "inputs_inside r input istride (w_mem w1)" "decode_ok ?d r (w_mem w1)" "mem_ok (w_mem w1)"
      using decode_ok_same_off [OF Suc.prems(5) off] same_off_mem_ok [OF off] inputs_inside_off [OF off] Suc.prems(4,6)
      by simp_all
    have len: "unat (t + 1) + n = unat ?T" using Suc.prems(1) Suc_t by simp
    have stock: "stocked (noisy_waits (map (sv_sync env) [unat (t + 1)..<unat (t + 1) + n]) + k) (w_hw w1)"
      using step(2) Suc_t by simp
    note Suc.IH [OF len w1(3,2) m stock]
    with True step(1) w1(1) show ?thesis by simp
  qed
qed


section \<open>The whole sample\<close>

lemma sample_body_run:
  assumes "rvrt_session_reset_model (Some p) (rn_timeout_ms r) (sv_reset env) w = Some (st0, w1)"
    and d: "d = \<lparr>dc_runner = Some r, dc_output = out, dc_output_capacity = outcap, dc_output_stride = ostride,
              dc_submitted_timesteps = 0\<rparr>"
  shows "runner_sample_body rounds env p r input istride out outcap ostride w =
    (if st0 \<noteq> RVRT_SESSION_OK then Some (st0, w1)
     else do {
       (st, d', w2) \<leftarrow> runner_timestep_loop rounds env p r input istride d 0 (unat (rt_timesteps (rn_runtime r))) w1;
       if st \<noteq> RVRT_SESSION_OK then Some (st, w2)
       else if rt_completion_sync_timestep (rn_runtime r) > rt_timesteps (rn_runtime r)
       then rvrt_session_sync_wait_until_with_rx_handler (Some p) (rt_completion_sync_timestep (rn_runtime r))
          (rn_timeout_ms r) (Some (runner_rx_frame_handler r)) (Some d') (sv_sync env (unat (rt_timesteps (rn_runtime r)))) w2
       else Some (RVRT_SESSION_OK, w2)
     })"
proof -
  have eta: "do { (status, w) \<leftarrow> X; Some (if status \<noteq> RVRT_SESSION_OK then runner_session_failure s n status
      else RVRT_SESSION_OK, w) } = (X :: (session_status \<times> rworld) option)" for X s n
    by (cases X) (auto simp: runner_session_failure_def)
  show ?thesis
    unfolding runner_sample_body_def assms(1) d Let_def eta by (simp add: runner_session_failure_def cong: if_cong)
qed

lemma sample_body_any:
  assumes inp: "input_ok r rounds" "inputs_inside r input istride (w_mem w)"
    and d: "d = \<lparr>dc_runner = Some r, dc_output = out, dc_output_capacity = outcap, dc_output_stride = ostride,
              dc_submitted_timesteps = 0\<rparr>"
    and ok: "decode_ok d r (w_mem w)" "mem_ok (w_mem w)"
      "rt_completion_sync_timestep (rn_runtime r) \<le> FC_CTRL_PAYLOAD_MASK"
    and live: "live_at p buf (rn_artifact r) (rn_encode_frame_capacity r) clock w"
    and run: "runner_sample_body rounds env p r input istride out outcap ostride w = Some (st, w')"
  shows "same_off (row_addrs d r (unat (rt_timesteps (rn_runtime r)))) r (w_mem w) (w_mem w') \<and>
    (st = RVRT_SESSION_OK \<longrightarrow> live_at p buf (rn_artifact r) (rn_encode_frame_capacity r) clock w')"
proof -
  let ?T = "rt_timesteps (rn_runtime r)" and ?C = "rt_completion_sync_timestep (rn_runtime r)"
  let ?live = "live_at p buf (rn_artifact r) (rn_encode_frame_capacity r) clock"
  let ?d = "d\<lparr>dc_submitted_timesteps := ?T\<rparr>" and ?A = "row_addrs d r (unat ?T)"
  have root: "root_ok (rn_artifact r) 0" using inp(1) by (simp add: input_ok_def)
  from run obtain st0 w1 where reset: "rvrt_session_reset_model (Some p) (rn_timeout_ms r) (sv_reset env) w = Some (st0, w1)"
    by (auto simp: runner_sample_body_def split: bind_splits)
  note r1 = reset_keeps [OF live root reset]
  note body = run [unfolded sample_body_run [OF reset d]]
  show ?thesis
  proof (cases "st0 = RVRT_SESSION_OK")
    case False
    with body r1 show ?thesis by (simp add: same_off_refl)
  next
    case True
    with body obtain st1 d' w2 where
      loop: "runner_timestep_loop rounds env p r input istride d 0 (unat ?T) w1 = Some (st1, d', w2)"
      and rest: "(if st1 \<noteq> RVRT_SESSION_OK then Some (st1, w2)
         else if ?C > ?T then rvrt_session_sync_wait_until_with_rx_handler (Some p) ?C (rn_timeout_ms r)
             (Some (runner_rx_frame_handler r)) (Some d') (sv_sync env (unat ?T)) w2
         else Some (RVRT_SESSION_OK, w2)) = Some (st, w')"
      by (auto split: bind_splits)
    have "unat ?T \<noteq> 0" using decode_ok_runtime [OF ok(1)] by (simp add: unat_eq_0)
    with timestep_loop_any [OF inp(1) loop, of buf clock] r1 True inp(2) ok(1,2) have
      l: "same_off ?A r (w_mem w) (w_mem w2)"
        "st1 = RVRT_SESSION_OK \<longrightarrow> d' = ?d \<and> ?live w2 \<and> epoch_at p ?T w2" by auto
    show ?thesis
    proof (cases "st1 = RVRT_SESSION_OK \<and> ?C > ?T")
      case False
      with rest l show ?thesis by (auto split: if_splits)
    next
      case on: True
      with l(2) rest have sync: "rvrt_session_sync_wait_until_with_rx_handler (Some p) ?C (rn_timeout_ms r)
          (Some (runner_rx_frame_handler r)) (Some ?d) (sv_sync env (unat ?T)) w2 = Some (st, w')"
        and w2: "?live w2" "epoch_at p ?T w2" by simp_all
      have "rows_ok ?d r (w_mem w) (w_mem w2)" using l(1) decode_ok_same_off [OF ok(1) l(1)] by (simp add: rows_ok_def)
      from rows_sink.sync_keeps [OF w2(1) root w2(2) conjunct2 [OF on] ok(3) this sync] show ?thesis
        by (simp add: rows_ok_def)
    qed
  qed
qed

lemma sample_body_ends:
  assumes inp: "input_ok r rounds" "inputs_inside r input istride (w_mem w)"
    and d: "d = \<lparr>dc_runner = Some r, dc_output = out, dc_output_capacity = outcap, dc_output_stride = ostride,
              dc_submitted_timesteps = 0\<rparr>"
    and ok: "decode_ok d r (w_mem w)" "mem_ok (w_mem w)"
      "rt_completion_sync_timestep (rn_runtime r) \<le> FC_CTRL_PAYLOAD_MASK"
    and live: "live_at p buf (rn_artifact r) (rn_encode_frame_capacity r) clock w"
    and ends: "sample_ends clock (rn_timeout_ms r) env" "stocked (sample_noise r env + k) (w_hw w)"
  shows "\<exists>st w'. runner_sample_body rounds env p r input istride out outcap ostride w = Some (st, w') \<and> stocked k (w_hw w')"
proof -
  let ?T = "rt_timesteps (rn_runtime r)" and ?C = "rt_completion_sync_timestep (rn_runtime r)"
  let ?live = "live_at p buf (rn_artifact r) (rn_encode_frame_capacity r) clock"
  let ?d = "d\<lparr>dc_submitted_timesteps := ?T\<rparr>" and ?A = "row_addrs d r (unat ?T)"
  let ?last = "of_bool (noisy (sv_sync env (unat ?T))) + k"
  have root: "root_ok (rn_artifact r) 0" using inp(1) by (simp add: input_ok_def)
  have end_r: "wait_ends clock (rn_timeout_ms r) (sv_reset env)" "wait_ends clock (rn_timeout_ms r) (sv_sync env (unat ?T))"
    using ends(1) by (simp_all add: sample_ends_def)
  have "stocked (of_bool (noisy (sv_reset env)) + (noisy_waits (map (sv_sync env) [0..<unat ?T]) + ?last)) (w_hw w)"
    using ends(2) by (simp add: sample_noise_def ac_simps)
  from reset_ends [OF live root end_r(1) this] obtain st0 w1 where
    reset: "rvrt_session_reset_model (Some p) (rn_timeout_ms r) (sv_reset env) w = Some (st0, w1)"
      "stocked (noisy_waits (map (sv_sync env) [0..<unat ?T]) + ?last) (w_hw w1)" by blast
  note r1 = reset_keeps [OF live root reset(1)]
  note body = sample_body_run [OF reset(1) d, of rounds input istride]
  show ?thesis
  proof (cases "st0 = RVRT_SESSION_OK")
    case False
    have "stocked k (w_hw w1)" by (rule stocked_mono [OF reset(2)]) simp
    with False show ?thesis unfolding body by simp
  next
    case True
    from timestep_loop_ends [OF inp(1) ends(1), of 0 "unat ?T" p buf w1 input istride d ?last] r1 True inp(2) ok(1,2) reset(2)
    obtain st1 d' w2 where loop: "runner_timestep_loop rounds env p r input istride d 0 (unat ?T) w1 = Some (st1, d', w2)"
      "stocked ?last (w_hw w2)" by auto
    have "unat ?T \<noteq> 0" using decode_ok_runtime [OF ok(1)] by (simp add: unat_eq_0)
    with timestep_loop_any [OF inp(1) loop(1), of buf clock] r1 True inp(2) ok(1,2) have
      l: "same_off ?A r (w_mem w) (w_mem w2)"
        "st1 = RVRT_SESSION_OK \<longrightarrow> d' = ?d \<and> ?live w2 \<and> epoch_at p ?T w2" by auto
    have rest: "stocked k (w_hw w2)" by (rule stocked_mono [OF loop(2)]) simp
    show ?thesis
    proof (cases "st1 = RVRT_SESSION_OK \<and> ?C > ?T")
      case False
      with True loop(1) rest show ?thesis unfolding body by auto
    next
      case on: True
      with l(2) have w2: "d' = ?d" "?live w2" "epoch_at p ?T w2" by simp_all
      have "rows_ok ?d r (w_mem w) (w_mem w2)" using l(1) decode_ok_same_off [OF ok(1) l(1)] by (simp add: rows_ok_def)
      from rows_sink.sync_ends [OF w2(2) root w2(3) conjunct2 [OF on] ok(3) this end_r(2) loop(2)] obtain st w' where
        "rvrt_session_sync_wait_until_with_rx_handler (Some p) ?C (rn_timeout_ms r) (Some (runner_rx_frame_handler r))
          (Some ?d) (sv_sync env (unat ?T)) w2 = Some (st, w')" "stocked k (w_hw w')" by blast
      with True on loop(1) w2(1) show ?thesis unfolding body by auto
    qed
  qed
qed


text \<open>A deployed runner and accepted arguments.\<close>

definition sample_accepted ::
    "nat \<Rightarrow> nat \<Rightarrow> paicore_runner \<Rightarrow> nat \<Rightarrow> u32 \<Rightarrow> u32 \<Rightarrow> u32 \<Rightarrow> u32 \<Rightarrow> u32 \<Rightarrow> u32 \<Rightarrow> u32 \<Rightarrow> rworld \<Rightarrow> bool" where
  "sample_accepted p buf r rounds clock inp incap istride out outcap ostride w \<longleftrightarrow>
     live_at p buf (rn_artifact r) (rn_encode_frame_capacity r) clock w \<and>
     input_ok r rounds \<and> runner_ok r \<and> rt_completion_sync_timestep (rn_runtime r) \<le> FC_CTRL_PAYLOAD_MASK \<and>
     sample_ok r inp incap istride out outcap ostride \<and> buffers_ok r inp incap out outcap (w_mem w)"

lemma accepted_body:
  assumes "sample_accepted p buf r rounds clock inp incap istride out outcap ostride w"
  defines "is \<equiv> stride_of istride (rn_input_row_bytes r)" and "os \<equiv> stride_of ostride (rn_output_row_bytes r)"
    and "d \<equiv> sample_decode r out outcap ostride" and "m \<equiv> lanes_cleared r (w_mem w)"
  shows "rvrt_paicore_runner_run_sample rounds env (Some (p, r)) (Some inp) incap istride (Some out) outcap ostride w =
      runner_sample_body rounds env p r inp is out outcap os (w\<lparr>w_mem := m\<rparr>)"
    and "same_off A r (w_mem w) m" "inputs_inside r inp is m" "decode_ok d r m" "mem_ok m"
    and "d = \<lparr>dc_runner = Some r, dc_output = out, dc_output_capacity = outcap, dc_output_stride = os,
              dc_submitted_timesteps = 0\<rparr>"
    and "live_at p buf (rn_artifact r) (rn_encode_frame_capacity r) clock (w\<lparr>w_mem := m\<rparr>)"
proof -
  have live: "live_at p buf (rn_artifact r) (rn_encode_frame_capacity r) clock w"
    and r: "input_ok r rounds" "runner_ok r" and args: "sample_ok r inp incap istride out outcap ostride"
      "buffers_ok r inp incap out outcap (w_mem w)"
    using assms(1) by (simp_all add: sample_accepted_def)
  have lanes: "lanes_ok r out outcap os" and regions: "regions_ok r inp incap is out outcap os"
    using args(1) by (simp_all add: sample_ok_def is_def os_def)
  show off: "same_off A r (w_mem w) m" for A unfolding m_def by (rule lanes_cleared_off [OF lanes args(2)])
  note buf = buffers_off [OF args(2) off]
  have "unat inp + unat incap \<le> length (mm_bytes m)" using buf by (simp add: buffers_ok_def)
  moreover show mem: "mem_ok m" using buf by (simp add: buffers_ok_def)
  ultimately show "inputs_inside r inp is m" using regions_inside [OF regions] by blast
  show "decode_ok d r m" unfolding d_def by (rule decode_ok_sample [OF r(2) args(1) buf])
  have "runner_deployed p w" using live by (simp add: live_at_def ready_def runner_deployed_def)
  from run_sample_accepts [OF this r args] show
    "rvrt_paicore_runner_run_sample rounds env (Some (p, r)) (Some inp) incap istride (Some out) outcap ostride w =
      runner_sample_body rounds env p r inp is out outcap os (w\<lparr>w_mem := m\<rparr>)"
    unfolding is_def os_def m_def .
  show "live_at p buf (rn_artifact r) (rn_encode_frame_capacity r) clock (w\<lparr>w_mem := m\<rparr>)" using live by simp
qed (simp add: d_def os_def sample_decode_def)

lemma sample_any:
  assumes acc: "sample_accepted p buf r rounds clock inp incap istride out outcap ostride w"
    and run: "rvrt_paicore_runner_run_sample rounds env (Some (p, r)) (Some inp) incap istride (Some out) outcap ostride w =
      Some (st, w')"
  shows "same_off (row_addrs (sample_decode r out outcap ostride) r (unat (rt_timesteps (rn_runtime r)))) r (w_mem w) (w_mem w') \<and>
    (st = RVRT_SESSION_OK \<longrightarrow> live_at p buf (rn_artifact r) (rn_encode_frame_capacity r) clock w')"
proof -
  note b = accepted_body [OF acc]
  have r: "input_ok r rounds" "rt_completion_sync_timestep (rn_runtime r) \<le> FC_CTRL_PAYLOAD_MASK"
    using acc by (simp_all add: sample_accepted_def)
  from sample_body_any [OF r(1) _ b(6) _ _ r(2) b(7) run [unfolded b(1)]] b(3-5) same_off_trans [OF b(2)]
  show ?thesis by auto
qed

lemma sample_returns:
  assumes acc: "sample_accepted p buf r rounds clock inp incap istride out outcap ostride w"
    and ends: "sample_ends clock (rn_timeout_ms r) env" "stocked (sample_noise r env + k) (w_hw w)"
  shows "\<exists>st w'. rvrt_paicore_runner_run_sample rounds env (Some (p, r)) (Some inp) incap istride (Some out) outcap ostride w =
      Some (st, w') \<and> stocked k (w_hw w')"
proof -
  note b = accepted_body [OF acc]
  have r: "input_ok r rounds" "rt_completion_sync_timestep (rn_runtime r) \<le> FC_CTRL_PAYLOAD_MASK"
    using acc by (simp_all add: sample_accepted_def)
  show ?thesis
    unfolding b(1) by (rule sample_body_ends [OF r(1) _ b(6) _ _ r(2) b(7) ends(1)]) (use b(3-5) ends(2) in simp_all)
qed

lemma row_addrs_sample:
  assumes "i \<in> row_addrs (sample_decode r out outcap ostride) r (unat (rt_timesteps (rn_runtime r)))"
  shows "\<exists>t < unat (rt_timesteps (rn_runtime r)). \<exists>j < unat (rn_output_row_bytes r).
    i = unat out + t * unat (stride_of ostride (rn_output_row_bytes r)) + j"
proof -
  let ?s = "unat (stride_of ostride (rn_output_row_bytes r))"
  from assms obtain t where "t < unat (rt_timesteps (rn_runtime r))" "unat out + t * ?s \<le> i"
    "i < unat out + t * ?s + unat (rn_output_row_bytes r)" by (auto simp: row_addrs_def sample_decode_def)
  then show ?thesis by (intro exI [of _ t] conjI exI [of _ "i - (unat out + t * ?s)"]) auto
qed

text \<open>C10.  Memory safety of a sample, in every environment.  Nothing is assumed of the words in the uplink,
  of the interrupts or of the cycle counter: the chip may stay silent, answer late, send frames that do
  not belong to the sample, or stop in the middle of a barrier.  A sample that returns, with whatever
  status, has changed no byte outside the rows of the output region, no lane state but the runner's, and
  the size of no buffer.  And it does return if in every wait the counter passes the limit at some poll and
  the uplink holds one complete barrier for every wait in which the interrupt may strike: none at all when
  the chip is silent, so a dead chip ends the sample with a timeout.\<close>

theorem sample_memory_safe:
  assumes "sample_accepted p buf r rounds clock inp incap istride out outcap ostride w"
  shows "(\<forall>st w'. rvrt_paicore_runner_run_sample rounds env (Some (p, r)) (Some inp) incap istride (Some out) outcap
        ostride w = Some (st, w') \<longrightarrow>
      length (mm_bytes (w_mem w')) = length (mm_bytes (w_mem w)) \<and>
      (\<forall>i < length (mm_bytes (w_mem w)). mm_bytes (w_mem w') ! i = mm_bytes (w_mem w) ! i \<or>
         (\<exists>t < unat (rt_timesteps (rn_runtime r)). \<exists>j < unat (rn_output_row_bytes r).
            i = unat out + t * unat (stride_of ostride (rn_output_row_bytes r)) + j)) \<and>
      (\<forall>b. length (mm_state (w_mem w') b) = length (mm_state (w_mem w) b)) \<and>
      (\<forall>b. rn_voltage_state r \<noteq> Some b \<longrightarrow> mm_state (w_mem w') b = mm_state (w_mem w) b)) \<and>
    (sample_ends clock (rn_timeout_ms r) env \<longrightarrow> stocked (sample_noise r env) (w_hw w) \<longrightarrow>
      (\<exists>st w'. rvrt_paicore_runner_run_sample rounds env (Some (p, r)) (Some inp) incap istride (Some out) outcap
        ostride w = Some (st, w')))"
proof (intro conjI allI impI)
  fix st w'
  assume run: "rvrt_paicore_runner_run_sample rounds env (Some (p, r)) (Some inp) incap istride (Some out) outcap
      ostride w = Some (st, w')"
  note off = conjunct1 [OF sample_any [OF assms run], unfolded same_off_def]
  show "length (mm_bytes (w_mem w')) = length (mm_bytes (w_mem w))"
    "length (mm_state (w_mem w') b) = length (mm_state (w_mem w) b)" for b using off by blast+
  show "mm_state (w_mem w') b = mm_state (w_mem w) b" if "rn_voltage_state r \<noteq> Some b" for b using off that by blast
  show "mm_bytes (w_mem w') ! i = mm_bytes (w_mem w) ! i \<or>
         (\<exists>t < unat (rt_timesteps (rn_runtime r)). \<exists>j < unat (rn_output_row_bytes r).
            i = unat out + t * unat (stride_of ostride (rn_output_row_bytes r)) + j)"
    if "i < length (mm_bytes (w_mem w))" for i using off that row_addrs_sample by blast
next
  assume "sample_ends clock (rn_timeout_ms r) env" "stocked (sample_noise r env) (w_hw w)"
  with sample_returns [OF assms, of env 0] show "\<exists>st w'. rvrt_paicore_runner_run_sample rounds env (Some (p, r)) (Some inp)
      incap istride (Some out) outcap ostride w = Some (st, w')" by auto
qed

text \<open>A chip that answers the reset and then falls silent.\<close>

definition demo_silent_env :: sample_env where
  "demo_silent_env =
     \<lparr>sv_reset = \<lparr>we_start = 0, we_polls = [\<lparr>wp_irq = True, wp_cycle = 9, wp_irq_late = False\<rparr>,
                                             \<lparr>wp_irq = False, wp_cycle = 32001, wp_irq_late = False\<rparr>]\<rparr>,
      sv_sync = (\<lambda>_. \<lparr>we_start = 0, we_polls = [\<lparr>wp_irq = False, wp_cycle = 32001, wp_irq_late = False\<rparr>]\<rparr>)\<rparr>"

definition demo_silent_world :: rworld where
  "demo_silent_world = demo_rworld\<lparr>w_hw := (w_hw demo_rworld)\<lparr>hw_up := up_words [demo_data 0 0 1, demo_complete]\<rparr>\<rparr>"

theorem sample_memory_safe_witness:
  "\<exists>st w'. rvrt_paicore_runner_run_sample 5 demo_silent_env (Some (0, demo_runner)) (Some 0) 4 0 (Some 4) 4 0
       demo_silent_world = Some (st, w') \<and> length (mm_bytes (w_mem w')) = 9 \<and> mm_bytes (w_mem w') ! 3 = 4"
proof -
  have acc: "sample_accepted 0 0 demo_runner 5 16000000 0 4 0 4 4 0 demo_silent_world"
    using demo_sample by (auto simp: sample_accepted_def demo_silent_world_def live_at_def ready_def)
  have ends: "sample_ends 16000000 2 demo_silent_env" by (simp add: sample_ends_def wait_ends_def demo_silent_env_def)
  have "sample_noise demo_runner demo_silent_env = 1"
    by (simp add: sample_noise_def demo_silent_env_def noisy_waits_def filter_map o_def noisy_def silent_poll_def)
  moreover have "stocked 1 (w_hw demo_silent_world)"
    unfolding stocked_def
    by (rule exI [of _ "[([demo_data 0 0 1], demo_complete)]"], rule exI [of _ "[]"])
      (simp add: demo_silent_world_def script_words_def barrier_frames_def demo_complete_def demo_data_def
        rvrt_frame_is_complete_def)
  ultimately have stock: "stocked (sample_noise demo_runner demo_silent_env) (w_hw demo_silent_world)" by simp
  have m: "mm_bytes (w_mem demo_silent_world) = [1, 2, 0, 4, 9, 9, 9, 9, 9]"
    by (simp add: demo_silent_world_def demo_rworld_def demo_sample_mem_def)
  note safe = sample_memory_safe [OF acc, of demo_silent_env]
  from safe ends stock obtain st w' where
    run: "rvrt_paicore_runner_run_sample 5 demo_silent_env (Some (0, demo_runner)) (Some 0) 4 0 (Some 4) 4 0
       demo_silent_world = Some (st, w')" by auto
  have len: "length (mm_bytes (w_mem w')) = length (mm_bytes (w_mem demo_silent_world))"
    and rows: "\<forall>i < length (mm_bytes (w_mem demo_silent_world)).
       mm_bytes (w_mem w') ! i = mm_bytes (w_mem demo_silent_world) ! i \<or>
       (\<exists>t < unat (rt_timesteps (rn_runtime demo_runner)). \<exists>j < unat (rn_output_row_bytes demo_runner).
          i = unat (4 :: u32) + t * unat (stride_of 0 (rn_output_row_bytes demo_runner)) + j)"
    using safe run by blast+
  from rows [rule_format, of 3] have "mm_bytes (w_mem w') ! 3 = 4" by (auto simp: m)
  with len run show ?thesis by (auto simp: m)
qed

end
