(* ===== verification/SnnHead_Laws.thy ===== *)
theory SnnHead_Laws
  imports SnnHead Nn_Laws Runner_Deploy Runner_Safe Session_Calls
begin

text \<open>
  Laws of the SNN head: a layer always gives the chip back, the moves in the workspace lose no element, an
  artifact that passes its contract makes a runner whose sample stays inside the workspace, and a chunk
  is the composition of its layers.
\<close>

section \<open>The chip is given back\<close>

text \<open>The session at \<open>p\<close> owns the chip and no barrier is open.\<close>

definition owning :: "nat \<Rightarrow> ('u, 'm) world \<Rightarrow> bool" where
  "owning p w \<longleftrightarrow> sessions_ok w \<and> w_active w = Some p"

lemma tame_owning: "tame p w w' \<Longrightarrow> owning p w \<Longrightarrow> owning p w'"
  using tame_ok [of p w w'] by (simp add: owning_def tame_def)

lemma owning_buf [simp]: "owning p (w\<lparr>w_buf := b\<rparr>) = owning p w" "owning p (w\<lparr>w_mem := m\<rparr>) = owning p w"
  by (simp_all add: owning_def sessions_ok_def)

lemma owning_send:
  assumes "rvrt_session_send_input_timestep rounds (Some p) v ts input n ws cap w = Some (st, ws', w')" "owning p w"
  shows "owning p w'"
  using assms
  by (auto simp: rvrt_session_send_input_timestep_def Let_def split: option.splits if_splits bind_splits
      intro: tame_owning [OF tame_send_input_loop])

lemma owning_sync:
  assumes "rvrt_session_sync_wait_until_with_rx_handler (Some p) n timeout h ud env w = Some (st, w')" "owning p w"
  shows "owning p w'"
proof -
  have "sessions_ok w" using assms(2) by (simp add: owning_def)
  then have "tame p w w'"
    using assms(1)
    by (auto simp: rvrt_session_sync_wait_until_with_rx_handler_def tame_refl split: option.splits bind_splits
        dest: tame_until_impl)
  then show ?thesis using tame_owning assms(2) by blast
qed

lemma owning_reset:
  assumes "rvrt_session_reset_model (Some p) timeout env w = Some (st, w')" "owning p w"
  shows "owning p w'"
  using tame_owning [OF tame_reset [OF assms(1)] assms(2)] assms(2) by (simp add: owning_def)

lemma owning_timestep:
  assumes "runner_timestep rounds env p r inp istride d t w = Some (st, d', w')" "owning p w"
  shows "owning p w'"
proof -
  let ?buf = "se_rx_frames (w_session w p)"
  let ?row = "region (inp + t * istride) (rn_input_row_bytes r) (mm_bytes (w_mem w))"
  from assms(1) obtain s1 ws w1 where send: "rvrt_session_send_input_timestep rounds (Some p) (Some (rn_input_view r)) t
       (Some ?row) (rn_input_row_bytes r) (map_option (w_buf w) ?buf) (rn_encode_frame_capacity r) w = Some (s1, ws, w1)"
    unfolding runner_timestep_def Let_def by (auto split: bind_splits)
  let ?w2 = "case (?buf, ws) of (Some b, Some frames) \<Rightarrow> w1\<lparr>w_buf := (w_buf w1)(b := frames)\<rparr> | _ \<Rightarrow> w1"
  have own: "owning p ?w2" using owning_send [OF send assms(2)] by (auto split: option.split)
  show ?thesis
  proof (cases "s1 = RVRT_SESSION_OK")
    case False
    with assms(1) send own show ?thesis by (simp add: runner_timestep_def Let_def)
  next
    case True
    with assms(1) send obtain bytes s2 where
      "rvrt_session_sync_wait_until_with_rx_handler (Some p) (t + 1) (rn_timeout_ms r) (Some (runner_rx_frame_handler r))
         (Some (d\<lparr>dc_submitted_timesteps := t + 1\<rparr>)) (sv_sync env (unat t))
         (?w2\<lparr>w_mem := (w_mem ?w2)\<lparr>mm_bytes := bytes\<rparr>\<rparr>) = Some (s2, w')"
      by (auto simp: runner_timestep_def Let_def split: bind_splits)
    from owning_sync [OF this] own show ?thesis by simp
  qed
qed

lemma owning_timestep_loop:
  "runner_timestep_loop rounds env p r inp istride d t n w = Some (st, d', w') \<Longrightarrow> owning p w \<Longrightarrow> owning p w'"
proof (induction n arbitrary: d t w)
  case (Suc n)
  from Suc.prems(1) obtain s1 d1 w1 where
    step: "runner_timestep rounds env p r inp istride d t w = Some (s1, d1, w1)"
    and rest: "(if s1 \<noteq> RVRT_SESSION_OK then Some (s1, d1, w1)
       else runner_timestep_loop rounds env p r inp istride d1 (t + 1) n w1) = Some (st, d', w')"
    by (auto split: option.splits)
  from owning_timestep [OF step Suc.prems(2)] rest Suc.IH [of d1 "t + 1" w1] show ?case by (auto split: if_splits)
qed simp

lemma owning_body:
  assumes "runner_sample_body rounds env p r inp istride out outcap ostride w = Some (st, w')" "owning p w"
  shows "owning p w'"
proof -
  from assms(1) obtain s1 w1 where reset: "rvrt_session_reset_model (Some p) (rn_timeout_ms r) (sv_reset env) w = Some (s1, w1)"
    by (auto simp: runner_sample_body_def split: bind_splits)
  note own1 = owning_reset [OF reset assms(2)]
  show ?thesis
  proof (cases "s1 = RVRT_SESSION_OK")
    case False
    with assms(1) reset own1 show ?thesis by (simp add: runner_sample_body_def)
  next
    case True
    with assms(1) reset obtain s2 d2 w2 where loop: "runner_timestep_loop rounds env p r inp istride
        \<lparr>dc_runner = Some r, dc_output = out, dc_output_capacity = outcap, dc_output_stride = ostride,
         dc_submitted_timesteps = 0\<rparr> 0 (unat (rt_timesteps (rn_runtime r))) w1 = Some (s2, d2, w2)"
      by (auto simp: runner_sample_body_def Let_def split: bind_splits)
    from owning_timestep_loop [OF loop own1] assms(1) reset True loop show ?thesis
      by (auto simp: runner_sample_body_def Let_def split: if_splits bind_splits intro: owning_sync)
  qed
qed

text \<open>A sample changes nothing of the ownership: it runs on the owner, or not at all.\<close>

lemma sample_keeps_owner:
  assumes "rvrt_paicore_runner_run_sample rounds env (Some (p, r)) (Some inp) incap istride (Some out) outcap ostride w =
      Some (st, w')" "sessions_ok w"
  shows "owning p w' \<and> owning p w \<or> w' = w"
proof (cases "runner_deployed p w")
  case False
  with assms(1) show ?thesis
    by (simp add: rvrt_paicore_runner_run_sample_def rvrt_paicore_runner_run_sample_profiled_def)
next
  case True
  then have own: "owning p w"
    using sessions_ok_artifact [OF assms(2)] assms(2) by (auto simp: owning_def runner_deployed_def)
  with assms(1) show ?thesis
    by (auto simp: rvrt_paicore_runner_run_sample_def rvrt_paicore_runner_run_sample_profiled_def Let_def
        split: if_splits prod.splits bind_splits intro: owning_body)
qed

text \<open>Nobody owns the chip.\<close>

definition unclaimed :: "('u, 'm) world \<Rightarrow> bool" where
  "unclaimed w \<longleftrightarrow> w_active w = None \<and> w_session w = (\<lambda>_. zero_session)"

lemma unclaimed_ok: "unclaimed w \<Longrightarrow> sessions_ok w"
  by (simp add: unclaimed_def sessions_ok_def)

lemma unclaimed_mem [simp]: "unclaimed (w\<lparr>w_mem := m\<rparr>) = unclaimed w"
  by (simp add: unclaimed_def)

lemma sessions_ok_free: "sessions_ok w \<Longrightarrow> w_active w = None \<Longrightarrow> unclaimed w"
  by (auto simp: sessions_ok_def unclaimed_def)

lemma release_unclaims:
  assumes "owning p w \<or> unclaimed w"
  shows "\<exists>r' w'. rvrt_paicore_runner_release (Some (p, r)) w = (RVRT_SESSION_OK, r', w') \<and> unclaimed w' \<and>
    w_mem w' = w_mem w \<and> w_buf w' = w_buf w \<and> hw_up (w_hw w') = hw_up (w_hw w) \<and> w_clock w' = w_clock w"
proof -
  have "\<not> bar_active (barrier_of w p)"
    using assms no_open_barrier [of w p] unclaimed_ok [of w] by (auto simp: owning_def)
  moreover have "w_active w = None \<or> w_active w = Some p" using assms by (auto simp: owning_def unclaimed_def)
  ultimately show ?thesis
    using assms
    by (auto simp: rvrt_paicore_runner_release_def rvrt_session_deinit_def Let_def upd_hw_def noc_irq_defs unclaimed_def
        owning_def sessions_ok_def fun_eq_iff split: if_splits)
qed


section \<open>What a contract fixes\<close>

text \<open>The contract of a layer in terms of the views.\<close>

definition contract_holds :: "layer_contract \<Rightarrow> rvrt_artifact_runtime \<Rightarrow> rvrt_artifact_input_mapping_view
    \<Rightarrow> rvrt_artifact_output_mapping_view \<Rightarrow> bool" where
  "contract_holds k rt iv ov \<longleftrightarrow>
     rt_timesteps rt = 8 \<and> rt_pipeline_latency rt = 1 \<and> rt_completion_sync_timestep rt = 8 \<and>
     rt_output_time_encoding rt = RVRT_OUTPUT_TIME_ENCODING_STREAM \<and>
     iv_entry_count iv = ct_input_entries k \<and> iv_element_count iv = ct_input_entries k \<and>
     iv_bit_width iv = ct_input_bit_width k \<and>
     ov_entry_count ov = ct_output_entries k \<and> ov_element_count ov = ct_output_elements k \<and>
     ov_kind ov = ct_output_kind k \<and> ov_dtype ov = ct_output_dtype k"

lemma validate_exact:
  "snn_head_validate_layer_artifact (Some c) (Some k) =
     contract_holds k (lc_runtime c) (lc_input_view c) (lc_output_view c)"
  by (auto simp: snn_head_validate_layer_artifact_def contract_holds_def)

lemma layer_artifact_cases:
  "layer_artifact_ok env art k = Some False \<or> layer_artifact_ok env art k = Some True \<and>
   (\<exists>addr bytes rt iv ov. sa_start art = Some (addr, bytes) \<and>
    read_contract (he_verify env) (he_get_root env) addr bytes (sa_size_symbol art) \<and>
    rvrt_artifact_thread_runtime (Some (artifact_of (he_get_root env bytes))) 0 (Some zero_runtime) = (RVRT_ARTIFACT_OK, Some rt) \<and>
    rvrt_artifact_get_input_mapping_view (Some (artifact_of (he_get_root env bytes))) 0 0 (Some zero_input_view) =
      (RVRT_ARTIFACT_OK, Some iv) \<and>
    rvrt_artifact_get_output_mapping_view (Some (artifact_of (he_get_root env bytes))) 0 0 (Some zero_output_view) =
      Some (RVRT_ARTIFACT_OK, Some ov) \<and> contract_holds k rt iv ov)"
proof (cases "sa_start art = None \<or> sa_size_symbol art = 0")
  case True
  then show ?thesis by (auto simp: layer_artifact_ok_def snn_head_read_layer_artifact_def)
next
  case start: False
  then obtain addr bytes where data: "sa_start art = Some (addr, bytes)" by auto
  let ?a = "artifact_of (he_get_root env bytes)"
  let ?read = "rvrt_artifact_read (he_verify env) (he_get_root env) (Some (addr, bytes)) (sa_size_symbol art)
    (Some (lc_artifact zero_context))"
  note read = artifact_read_lemma [of "he_verify env" "he_get_root env" addr bytes "sa_size_symbol art" "lc_artifact zero_context"]
  show ?thesis
  proof (cases "fst ?read = RVRT_ARTIFACT_OK")
    case False
    then show ?thesis using start data
      by (auto simp: layer_artifact_ok_def snn_head_read_layer_artifact_def snn_head_artifact_size_def Let_def
          split: prod.splits)
  next
    case True
    with read have ok: "?read = (RVRT_ARTIFACT_OK, Some ?a)"
      "read_contract (he_verify env) (he_get_root env) addr bytes (sa_size_symbol art)"
      by (auto simp: Let_def intro: prod_eqI)
    obtain rst rt where rt: "rvrt_artifact_thread_runtime (Some ?a) 0 (Some zero_runtime) = (rst, Some rt)"
      using thread_runtime_some by blast
    obtain ist iv where iv: "rvrt_artifact_get_input_mapping_view (Some ?a) 0 0 (Some zero_input_view) = (ist, Some iv)"
      using input_view_some by blast
    from get_output_mapping_view_ok [OF read_contract_accepted [OF ok(2)], of 0 0 zero_output_view] obtain ost ov where
      ov: "rvrt_artifact_get_output_mapping_view (Some ?a) 0 0 (Some zero_output_view) = Some (ost, Some ov)" by metis
    have "layer_artifact_ok env art k =
      (if rst \<noteq> RVRT_ARTIFACT_OK then Some False else if ist \<noteq> RVRT_ARTIFACT_OK then Some False
       else Some (ost = RVRT_ARTIFACT_OK \<and> contract_holds k rt iv ov))"
      using start data ok(1) rt iv ov
      by (simp add: layer_artifact_ok_def snn_head_read_layer_artifact_def snn_head_artifact_size_def zero_context_def
          validate_exact)
    with rt iv ov data ok(2) show ?thesis by (auto split: if_splits)
  qed
qed

text \<open>The prepared runner of an artifact that passed.\<close>

lemma contract_runner:
  assumes "layer_artifact_ok env art k = Some True" "prepared cfg r" "reads_from (he_get_root env) cfg r"
    and "dp_artifact_data cfg = sa_start art"
  shows "contract_holds k (rn_runtime r) (rn_input_view r) (rn_output_view r)"
    "rn_input_row_bytes r = ct_input_entries k"
    "runner_output_row_bytes (rn_output_view r) = Some (rn_output_row_bytes r)"
proof -
  from layer_artifact_cases [of env art k] assms(1) obtain addr bytes rt iv ov where v: "sa_start art = Some (addr, bytes)"
    "rvrt_artifact_thread_runtime (Some (artifact_of (he_get_root env bytes))) 0 (Some zero_runtime) = (RVRT_ARTIFACT_OK, Some rt)"
    "rvrt_artifact_get_input_mapping_view (Some (artifact_of (he_get_root env bytes))) 0 0 (Some zero_input_view) =
      (RVRT_ARTIFACT_OK, Some iv)"
    "rvrt_artifact_get_output_mapping_view (Some (artifact_of (he_get_root env bytes))) 0 0 (Some zero_output_view) =
      Some (RVRT_ARTIFACT_OK, Some ov)" "contract_holds k rt iv ov" by auto
  have "rn_artifact r = artifact_of (he_get_root env bytes)" using assms(3,4) v(1) by (auto simp: reads_from_def)
  with v(2-5) assms(2) show "contract_holds k (rn_runtime r) (rn_input_view r) (rn_output_view r)"
    by (simp add: prepared_def)
  with assms(2) show "rn_input_row_bytes r = ct_input_entries k" by (simp add: prepared_def contract_holds_def)
  from assms(2) show "runner_output_row_bytes (rn_output_view r) = Some (rn_output_row_bytes r)"
    by (simp add: prepared_def runner_ok_def)
qed

text \<open>The arguments a layer passes, checked against the rows its contract gives: eight rows in and out.\<close>

definition rows_fit :: "u32 \<Rightarrow> u32 \<Rightarrow> u32 \<Rightarrow> bool" where
  "rows_fit row stride capacity \<longleftrightarrow> row \<noteq> 0 \<and> row \<le> stride \<and> 7 * unat stride + unat row \<le> unat capacity"

lemma rows_fit_region: "rows_fit row stride cap \<Longrightarrow> sample_region_fits cap row stride 8"
  by (simp add: rows_fit_def fits_lemma)

lemma region_of_rows: "rows_fit row stride cap \<Longrightarrow> unat (region_size 8 stride row) = 7 * unat stride + unat row"
  using unat_region_size [OF rows_fit_region] by simp

lemma rows_inside:
  assumes "rows_fit row stride cap" "t < 8" "i < unat a + t * unat stride + unat row"
  shows "i < unat a + unat cap"
proof -
  have "t * unat stride \<le> 7 * unat stride" using assms(2) by (intro mult_right_mono) auto
  moreover have "7 * unat stride + unat row \<le> unat cap" using assms(1) by (simp add: rows_fit_def)
  ultimately show ?thesis using assms(3) by linarith
qed

lemma no_overlap:
  assumes "rows_fit irow istride incap" "rows_fit orow ostride outcap"
    and "apart (unat inp) (unat incap) (unat out) (unat outcap)"
    and "unat inp + unat incap < 2 ^ 32" "unat out + unat outcap < 2 ^ 32"
  shows "\<not> sample_regions_overlap inp (region_size 8 istride irow) out (region_size 8 ostride orow)"
proof -
  note s = region_of_rows [OF assms(1)] region_of_rows [OF assms(2)]
  have le: "unat (region_size 8 istride irow) \<le> unat incap" "unat (region_size 8 ostride orow) \<le> unat outcap"
    using assms(1,2) s by (simp_all add: rows_fit_def)
  show ?thesis
  proof
    assume "sample_regions_overlap inp (region_size 8 istride irow) out (region_size 8 ostride orow)"
    then show False unfolding overlap_lemma using le assms(3-5) unfolding apart_def by auto
  qed
qed

lemma contract_sample_ok:
  assumes "contract_holds k (rn_runtime r) (rn_input_view r) (rn_output_view r)" "prepared cfg r"
    and "rn_input_row_bytes r = ct_input_entries k"
    and "rows_fit (ct_input_entries k) istride incap" "rows_fit (rn_output_row_bytes r) ostride outcap"
    and "inp = out \<and> istride = ostride \<or> apart (unat inp) (unat incap) (unat out) (unat outcap)"
    and "unat inp + unat incap < 2 ^ 32" "unat out + unat outcap < 2 ^ 32"
    and "ct_output_kind k = RVRT_OUTPUT_VOLTAGE \<Longrightarrow> out mod 4 = 0 \<and> outcap mod 4 = 0 \<and> ostride mod 4 = 0"
  shows "sample_ok r inp incap istride out outcap ostride"
proof -
  have stride: "stride_of istride (rn_input_row_bytes r) = istride" "stride_of ostride (rn_output_row_bytes r) = ostride"
    using assms(3-5) by (auto simp: stride_of_def rows_fit_def)
  have T: "rt_timesteps (rn_runtime r) = 8" "ov_kind (rn_output_view r) = ct_output_kind k"
    using assms(1) by (simp_all add: contract_holds_def)
  have "regions_ok r inp incap istride out outcap ostride"
    using rows_fit_region [OF assms(4)] rows_fit_region [OF assms(5)] assms(3,6)
      no_overlap [OF assms(4,5) _ assms(7,8)]
    by (auto simp: regions_ok_def T)
  moreover have "lanes_ok r out outcap ostride"
    using assms(2,9) by (auto simp: lanes_ok_def T prepared_def not_less)
  ultimately show ?thesis by (simp add: sample_ok_def stride)
qed


section \<open>One layer on the chip\<close>

text \<open>Memory that is unchanged outside a set of addresses and of lane states.\<close>

definition mem_frame :: "nat set \<Rightarrow> nat set \<Rightarrow> runner_mem \<Rightarrow> runner_mem \<Rightarrow> bool" where
  "mem_frame A B m m' \<longleftrightarrow> length (mm_bytes m') = length (mm_bytes m) \<and>
     (\<forall>i < length (mm_bytes m). i \<notin> A \<longrightarrow> mm_bytes m' ! i = mm_bytes m ! i) \<and>
     (\<forall>b. length (mm_state m' b) = length (mm_state m b)) \<and> (\<forall>b. b \<notin> B \<longrightarrow> mm_state m' b = mm_state m b)"

lemma mem_frame_refl [simp]: "mem_frame A B m m"
  by (simp add: mem_frame_def)

lemma mem_frame_trans: "mem_frame A B m1 m2 \<Longrightarrow> mem_frame A B m2 m3 \<Longrightarrow> mem_frame A B m1 m3"
  by (simp add: mem_frame_def)

lemma mem_frame_mono: "mem_frame A B m m' \<Longrightarrow> A \<subseteq> A' \<Longrightarrow> B \<subseteq> B' \<Longrightarrow> mem_frame A' B' m m'"
  unfolding mem_frame_def by blast

lemma mem_frame_same_off: "same_off A r m m' \<Longrightarrow> mem_frame A (set_option (rn_voltage_state r)) m m'"
  by (cases "rn_voltage_state r") (simp_all add: mem_frame_def same_off_def)

lemma unclaimed_new_session: "unclaimed w \<Longrightarrow> set_session p zero_session w = w"
  by (simp add: unclaimed_def fun_upd_def)

lemma unclaimed_claimable: "unclaimed w \<Longrightarrow> claimable p w"
  by (simp add: unclaimed_def claimable_def)

lemma cleared_unclaimed: "cleared p w w' \<Longrightarrow> unclaimed w \<Longrightarrow> unclaimed w'"
  unfolding cleared_def unclaimed_def by (metis ext)

lemma deployed_owning:
  assumes "deployed p cfg r w w'" "unclaimed w" "dp_frame_buffer cfg \<noteq> None" "dp_frame_capacity cfg \<noteq> 0"
  shows "owning p w'"
proof -
  from assms(1) obtain w1 fs where d: "claimed p (p, rn_artifact r) cfg w w1" "sent fs w1 w'"
    by (auto simp: deployed_def)
  have "w_active w' = Some p" "w_session w' = w_session w1" "live (w_session w1 p)"
    using d assms(3,4) sent_same [OF d(2)] by (auto simp: claims_def live_def)
  moreover have "w_session w1 q = zero_session" if "q \<noteq> p" for q
    using d(1) assms(2) that by (simp add: claims_def unclaimed_def)
  ultimately show ?thesis by (auto simp: owning_def sessions_ok_def)
qed

lemma sample_rejected:
  assumes "unclaimed w"
  shows "rvrt_paicore_runner_run_sample rounds env (Some (p, r)) (Some inp) incap istride (Some out) outcap ostride w =
    Some (RVRT_SESSION_RUNTIME_ERROR, w)"
  using assms
  by (simp add: rvrt_paicore_runner_run_sample_def rvrt_paicore_runner_run_sample_profiled_def runner_deployed_def
      unclaimed_def live_zero)

text \<open>What the environment of a layer promises: its artifact can be addressed, its waits are prompt, and
  the chip answers the reset and the eight timesteps.\<close>

definition artifact_fits :: "head_env \<Rightarrow> snn_artifact \<Rightarrow> bool" where
  "artifact_fits env art \<longleftrightarrow>
     (case sa_start art of
        None \<Rightarrow> True
      | Some (_, bytes) \<Rightarrow>
          let root = he_get_root env bytes in
          (case ca_config_frames root of None \<Rightarrow> True
           | Some c \<Rightarrow> (case cf_words c of None \<Rightarrow> True | Some ws \<Rightarrow> length ws < 2 ^ 32)) \<and>
          root_ok (artifact_of root) 0 \<and>
          (case rvrt_artifact_get_input_mapping_view (Some (artifact_of root)) 0 0 (Some zero_input_view) of
             (st, Some iv) \<Rightarrow> length (the (iv_entries iv)) < he_rounds env
           | _ \<Rightarrow> True))"

definition layer_answers :: "(rvrt_frame list \<times> rvrt_frame) list \<Rightarrow> bool" where
  "layer_answers bs \<longleftrightarrow> length bs = 9 \<and> list_all barrier_frames bs"

text \<open>
  What is known of the chip and of the cycle counter during a layer.  Either the chip answers every wait in
  time, with the given barriers and the given words after them; or every wait passes its limit at some
  poll, and the uplink holds a complete barrier for every wait in which the interrupt may strike, and
  \<open>n\<close> more for the layers to come; or nothing is known.
\<close>

datatype chip = Answering "(rvrt_frame list \<times> rvrt_frame) list" "u32 list" | Ending nat | Arbitrary

definition layer_noise :: "sample_env \<Rightarrow> nat" where
  "layer_noise env = noisy_waits (sv_reset env # map (sv_sync env) [0..<9])"

fun chip_env :: "chip \<Rightarrow> u32 \<Rightarrow> sample_env \<Rightarrow> bool" where
  "chip_env (Answering bs rest) clk env = (env_prompt clk 2000 env \<and> layer_answers bs)"
| "chip_env (Ending n) clk env = sample_ends clk 2000 env"
| "chip_env Arbitrary clk env = True"

fun chip_before :: "chip \<Rightarrow> sample_env \<Rightarrow> noc_hw \<Rightarrow> bool" where
  "chip_before (Answering bs rest) env hw = (hw_up hw = script_words bs @ rest)"
| "chip_before (Ending n) env hw = stocked (layer_noise env + n) hw"
| "chip_before Arbitrary env hw = True"

fun chip_after :: "chip \<Rightarrow> noc_hw \<Rightarrow> bool" where
  "chip_after (Answering bs rest) hw = (hw_up hw = rest)"
| "chip_after (Ending n) hw = stocked n hw"
| "chip_after Arbitrary hw = True"

text \<open>What is then known of the result: that there is one, and what it is made of.\<close>

fun chip_returns :: "chip \<Rightarrow> bool" where
  "chip_returns Arbitrary = False"
| "chip_returns _ = True"

fun specified :: "chip \<Rightarrow> ((rvrt_frame list \<times> rvrt_frame) list \<Rightarrow> runner_mem \<Rightarrow> bool) \<Rightarrow> runner_mem \<Rightarrow> bool" where
  "specified (Answering bs rest) spec m = spec bs m"
| "specified _ spec m = True"

lemma chip_before_up: "hw_up hw' = hw_up hw \<Longrightarrow> chip_before c env hw' = chip_before c env hw"
  by (cases c) (simp_all add: stocked_def)

lemma chip_after_up: "hw_up hw' = hw_up hw \<Longrightarrow> chip_after c hw' = chip_after c hw"
  by (cases c) (simp_all add: stocked_def)

lemma specified_mono: "specified c spec m \<Longrightarrow> (\<And>bs. spec bs m \<Longrightarrow> spec' bs m') \<Longrightarrow> specified c spec' m'"
  by (cases c) auto

text \<open>The memory a successful layer leaves.\<close>

definition layer_sample ::
    "head_env \<Rightarrow> deploy_config \<Rightarrow> layer_contract \<Rightarrow> u32 \<Rightarrow> u32 \<Rightarrow> u32 \<Rightarrow> u32 \<Rightarrow> u32 \<Rightarrow> (rvrt_frame list \<times> rvrt_frame) list
       \<Rightarrow> runner_mem \<Rightarrow> runner_mem \<Rightarrow> bool" where
  "layer_sample env cfg k inp istride out outcap ostride bs m m' \<longleftrightarrow>
     (\<exists>r. prepared cfg r \<and> reads_from (he_get_root env) cfg r \<and>
        contract_holds k (rn_runtime r) (rn_input_view r) (rn_output_view r) \<and>
        sample_spec r (encodable r inp (stride_of istride (rn_input_row_bytes r)) m)
          (sample_decode r out outcap ostride) (tl bs) [] (lanes_cleared r m) = Some (RVRT_SESSION_OK, m'))"

text \<open>What the deployed runner of a layer has, from the contract of the layer and the room for its tensors.\<close>

lemma layer_runner_fits:
  fixes w :: rworld
  assumes dep: "deployed p cfg r w w1" "reads_from (he_get_root env) cfg r"
    and art: "layer_artifact_ok env art k = Some True" "artifact_fits env art"
    and cfg: "dp_artifact_data cfg = sa_start art" "dp_frame_buffer cfg = Some buf" "dp_frame_capacity cfg \<noteq> 0"
      "unat (dp_frame_capacity cfg) \<le> length (w_buf w buf)"
    and orow: "\<forall>r. prepared cfg r \<longrightarrow> contract_holds k (rn_runtime r) (rn_input_view r) (rn_output_view r) \<longrightarrow>
        runner_output_row_bytes (rn_output_view r) = Some (rn_output_row_bytes r) \<longrightarrow> rn_output_row_bytes r = orow"
    and fit: "rows_fit (ct_input_entries k) istride incap" "rows_fit orow ostride outcap"
    and ap: "inp = out \<and> istride = ostride \<or> apart (unat inp) (unat incap) (unat out) (unat outcap)"
    and mem: "unat inp + unat incap \<le> length (mm_bytes (w_mem w))" "unat out + unat outcap \<le> length (mm_bytes (w_mem w))"
      "length (mm_bytes (w_mem w)) < 2 ^ 32"
    and volt: "ct_output_kind k = RVRT_OUTPUT_VOLTAGE \<Longrightarrow> out mod 4 = 0 \<and> outcap mod 4 = 0 \<and> ostride mod 4 = 0"
      "case dp_voltage_state cfg of None \<Rightarrow> True
       | Some b \<Rightarrow> unat (dp_voltage_state_capacity cfg) \<le> length (mm_state (w_mem w) b)"
  shows "contract_holds k (rn_runtime r) (rn_input_view r) (rn_output_view r)"
    and "rn_output_row_bytes r = orow"
    and "live_at p buf (rn_artifact r) (rn_encode_frame_capacity r) (w_clock w) w1"
    and "runner_ok r" "rt_completion_sync_timestep (rn_runtime r) \<le> FC_CTRL_PAYLOAD_MASK" "w_mem w1 = w_mem w"
    and "input_ok r (he_rounds env)"
    and "sample_ok r inp incap istride out outcap ostride"
    and "buffers_ok r inp incap out outcap (w_mem w1)"
proof -
  have pr: "prepared cfg r" using dep(1) by (simp add: deployed_def)
  note c = contract_runner [OF art(1) pr dep(2) cfg(1)]
  show contract: "contract_holds k (rn_runtime r) (rn_input_view r) (rn_output_view r)" by (rule c(1))
  show row: "rn_output_row_bytes r = orow" using orow pr c(1,3) by blast
  obtain addr bytes where data: "sa_start art = Some (addr, bytes)" "rn_artifact r = artifact_of (he_get_root env bytes)"
    using dep(2) cfg(1) by (auto simp: reads_from_def)
  have root: "root_ok (rn_artifact r) 0" using art(2) data by (simp add: artifact_fits_def Let_def)
  have "length (the (iv_entries (rn_input_view r))) < he_rounds env"
    using art(2) data pr by (auto simp: artifact_fits_def Let_def prepared_def)
  with deployed_ready [OF dep(1) cfg(2-4) root]
  show "live_at p buf (rn_artifact r) (rn_encode_frame_capacity r) (w_clock w) w1" "runner_ok r"
    "rt_completion_sync_timestep (rn_runtime r) \<le> FC_CTRL_PAYLOAD_MASK" and same: "w_mem w1 = w_mem w"
    and "input_ok r (he_rounds env)" by (auto simp: input_ok_def split: option.splits)
  show "sample_ok r inp incap istride out outcap ostride"
    by (rule contract_sample_ok [OF c(1) pr c(2) fit(1) _ ap]) (use fit(2) row mem volt(1) in auto)
  have "rn_voltage_state r = dp_voltage_state cfg" "rn_voltage_state_capacity r = dp_voltage_state_capacity cfg"
    using pr by (simp_all add: prepared_def)
  then show "buffers_ok r inp incap out outcap (w_mem w1)"
    using mem volt(2) same by (simp add: buffers_ok_def mem_ok_def split: option.splits)
qed

text \<open>The sample of a layer, by what is known of the chip.\<close>

lemma layer_sample_run:
  assumes acc: "sample_accepted p buf r rounds clk inp incap istride out outcap ostride w"
    and k: "rt_timesteps (rn_runtime r) = 8" "rt_completion_sync_timestep (rn_runtime r) = 8" "rn_timeout_ms r = 2000"
    and chip: "chip_env c clk env" "chip_before c env (w_hw w)"
  defines "res \<equiv> rvrt_paicore_runner_run_sample rounds env (Some (p, r)) (Some inp) incap istride (Some out) outcap ostride w"
  shows "chip_returns c \<longrightarrow> res \<noteq> None"
    and "res = Some (st, w') \<Longrightarrow>
      same_off (row_addrs (sample_decode r out outcap ostride) r (unat (rt_timesteps (rn_runtime r)))) r (w_mem w) (w_mem w') \<and>
      (st = RVRT_SESSION_OK \<longrightarrow> live_at p buf (rn_artifact r) (rn_encode_frame_capacity r) clk w' \<and> chip_after c (w_hw w') \<and>
         specified c (\<lambda>bs m'. sample_spec r (encodable r inp (stride_of istride (rn_input_row_bytes r)) (w_mem w))
           (sample_decode r out outcap ostride) (tl bs) [] (lanes_cleared r (w_mem w)) = Some (RVRT_SESSION_OK, m')) (w_mem w'))"
proof -
  note a = acc [unfolded sample_accepted_def]
  have any: "same_off (row_addrs (sample_decode r out outcap ostride) r (unat (rt_timesteps (rn_runtime r)))) r (w_mem w) (w_mem w') \<and>
      (st = RVRT_SESSION_OK \<longrightarrow> live_at p buf (rn_artifact r) (rn_encode_frame_capacity r) clk w')" if "res = Some (st, w')" for st w'
    using sample_any [OF acc] that unfolding res_def by blast
  have by_chip: "(chip_returns c \<longrightarrow> res \<noteq> None) \<and> (\<forall>st w'. res = Some (st, w') \<longrightarrow> st = RVRT_SESSION_OK \<longrightarrow> chip_after c (w_hw w') \<and>
         specified c (\<lambda>bs m'. sample_spec r (encodable r inp (stride_of istride (rn_input_row_bytes r)) (w_mem w))
           (sample_decode r out outcap ostride) (tl bs) [] (lanes_cleared r (w_mem w)) = Some (RVRT_SESSION_OK, m')) (w_mem w'))"
  proof (cases c)
    case (Answering bs rest)
    obtain b0 bs' where bs: "bs = b0 # bs'" "barrier_frames b0" "list_all barrier_frames bs'" "length bs' = 8"
      using chip(1) Answering by (cases bs) (auto simp: layer_answers_def)
    have up: "hw_up (w_hw w) = script_words (b0 # bs' @ []) @ rest" using chip(2) Answering bs by simp
    have ans: "answers_ok r bs' []" using bs k by (simp add: answers_ok_def)
    have prompt: "env_prompt clk (rn_timeout_ms r) env" using chip(1) Answering k by simp
    from sample_lemma [OF _ _ _ _ _ _ prompt up bs(2) ans] a obtain st w' where "res = Some (st, w')"
      "sample_spec r (encodable r inp (stride_of istride (rn_input_row_bytes r)) (w_mem w))
        (sample_decode r out outcap ostride) bs' [] (lanes_cleared r (w_mem w)) = Some (st, w_mem w')"
      "st = RVRT_SESSION_OK \<longrightarrow> hw_up (w_hw w') = rest" unfolding res_def by blast
    then show ?thesis using Answering bs(1) by simp
  next
    case (Ending n)
    have "layer_noise env = sample_noise r env" using k(1) by (simp add: layer_noise_def sample_noise_def del: upt_Suc)
    with sample_returns [OF acc, of env n] chip k(3) Ending obtain st w' where "res = Some (st, w')" "stocked n (w_hw w')"
      unfolding res_def by auto
    then show ?thesis using Ending by simp
  qed simp
  show "chip_returns c \<longrightarrow> res \<noteq> None" using by_chip by blast
  show "same_off (row_addrs (sample_decode r out outcap ostride) r (unat (rt_timesteps (rn_runtime r)))) r (w_mem w) (w_mem w') \<and>
      (st = RVRT_SESSION_OK \<longrightarrow> live_at p buf (rn_artifact r) (rn_encode_frame_capacity r) clk w' \<and> chip_after c (w_hw w') \<and>
         specified c (\<lambda>bs m'. sample_spec r (encodable r inp (stride_of istride (rn_input_row_bytes r)) (w_mem w))
           (sample_decode r out outcap ostride) (tl bs) [] (lanes_cleared r (w_mem w)) = Some (RVRT_SESSION_OK, m')) (w_mem w'))"
    if "res = Some (st, w')" using any [OF that] by_chip that by blast
qed

text \<open>The addresses a layer's sample writes.\<close>

lemma layer_rows_inside:
  assumes "rt_timesteps (rn_runtime r) = 8" "rows_fit (rn_output_row_bytes r) ostride outcap"
  shows "row_addrs (sample_decode r out outcap ostride) r (unat (rt_timesteps (rn_runtime r)))
    \<subseteq> {unat out ..< unat out + unat outcap}"
proof -
  have "stride_of ostride (rn_output_row_bytes r) = ostride"
    using assms(2) by (auto simp: stride_of_def rows_fit_def)
  then show ?thesis using rows_inside [OF assms(2)] by (auto simp: row_addrs_def sample_decode_def assms(1))
qed

text \<open>How the function of a layer goes on after its deployment.\<close>

definition layer_after_deploy ::
    "head_env \<Rightarrow> snn_head_layer_id \<Rightarrow> u32 \<Rightarrow> u32 \<Rightarrow> u32 \<Rightarrow> u32 \<Rightarrow> u32 \<Rightarrow> u32 \<Rightarrow> paicore_runner \<Rightarrow> rworld \<Rightarrow> (bool \<times> rworld) option" where
  "layer_after_deploy env layer inp incap istride out outcap ostride r w1 = do {
     (run_status, w) \<leftarrow> rvrt_paicore_runner_run_sample (he_rounds env) (he_sample env layer)
       (Some (he_runner env layer, r)) (Some inp) incap istride (Some out) outcap ostride w1;
     if run_status \<noteq> RVRT_SESSION_OK
     then (let (_, _, w) = rvrt_paicore_runner_release (Some (he_runner env layer, r)) w in Some (False, w))
     else (let (release_status, _, w) = rvrt_paicore_runner_release (Some (he_runner env layer, r)) w
           in Some (release_status = RVRT_SESSION_OK, w)) }"

lemma layer_after_refusal:
  fixes w1 :: rworld
  assumes "unclaimed w1"
  shows "\<exists>w3. layer_after_deploy env layer inp incap istride out outcap ostride zero_runner w1 = Some (False, w3) \<and>
    unclaimed w3 \<and> w_mem w3 = w_mem w1"
proof -
  obtain r2 w2 where "rvrt_paicore_runner_release (Some (he_runner env layer, zero_runner)) w1 = (RVRT_SESSION_OK, r2, w2)"
    "unclaimed w2" "w_mem w2 = w_mem w1"
    using release_unclaims [of "he_runner env layer" w1 zero_runner] assms by blast
  then show ?thesis unfolding layer_after_deploy_def using sample_rejected [OF assms] by simp
qed

lemma paicore_layer_deploys:
  fixes w :: rworld
  assumes "unclaimed w" "words_fit (he_get_root env) cfg"
  obtains st r w1 where
    "snn_head_run_paicore_layer env layer cfg inp incap istride out outcap ostride w =
       (if st \<noteq> RVRT_SESSION_OK then Some (False, w1)
        else layer_after_deploy env layer inp incap istride out outcap ostride r w1)"
    "r = zero_runner \<and> cleared (he_runner env layer) w w1 \<or>
     st = RVRT_SESSION_OK \<and> deployed (he_runner env layer) cfg r w w1 \<and> reads_from (he_get_root env) cfg r"
proof -
  from deploy_result [OF assms(2), of "he_verify env" "he_register env layer" "he_runner env layer" zero_runner w]
    unclaimed_claimable [OF assms(1)]
  obtain st r w1 where dep: "rvrt_paicore_runner_deploy (he_verify env) (he_get_root env) (he_register env layer)
      (Some (he_runner env layer, zero_runner)) (Some cfg) w = Some (st, Some r, w1)"
    "r = zero_runner \<and> cleared (he_runner env layer) w w1 \<or>
     st = RVRT_SESSION_OK \<and> deployed (he_runner env layer) cfg r w w1 \<and> reads_from (he_get_root env) cfg r" by auto
  have "snn_head_run_paicore_layer env layer cfg inp incap istride out outcap ostride w =
    (if st \<noteq> RVRT_SESSION_OK then Some (False, w1)
     else layer_after_deploy env layer inp incap istride out outcap ostride r w1)"
    unfolding snn_head_run_paicore_layer_def layer_after_deploy_def Let_def unclaimed_new_session [OF assms(1)] dep(1)
      option.sel snn_head_runner_status_ok_def by (simp cong: if_cong)
  then show ?thesis using that dep(2) by blast
qed

text \<open>How the function of a layer ends, by what is known of the chip.\<close>

definition run_outcome ::
    "chip \<Rightarrow> nat \<Rightarrow> u32 \<Rightarrow> nat set \<Rightarrow> nat set \<Rightarrow> ((rvrt_frame list \<times> rvrt_frame) list \<Rightarrow> runner_mem \<Rightarrow> bool) \<Rightarrow> rworld
       \<Rightarrow> (bool \<times> rworld) option \<Rightarrow> bool" where
  "run_outcome c buf cap A B spec w res \<longleftrightarrow> (chip_returns c \<longrightarrow> res \<noteq> None) \<and>
     (\<forall>ok w'. res = Some (ok, w') \<longrightarrow> unclaimed w' \<and> mem_frame A B (w_mem w) (w_mem w') \<and>
        (ok \<longrightarrow> chip_after c (w_hw w') \<and> w_clock w' = w_clock w \<and> unat cap \<le> length (w_buf w' buf) \<and>
           specified c spec (w_mem w')))"

lemma layer_deployed_result:
  fixes w :: rworld
  assumes "unclaimed w" and dep: "deployed (he_runner env layer) cfg r w w1" "reads_from (he_get_root env) cfg r"
    and art: "layer_artifact_ok env art k = Some True" "artifact_fits env art"
    and cfg: "dp_artifact_data cfg = sa_start art" "dp_frame_buffer cfg = Some buf" "dp_frame_capacity cfg \<noteq> 0"
      "unat (dp_frame_capacity cfg) \<le> length (w_buf w buf)" "dp_timeout_ms cfg = 2000"
    and chip: "chip_env c (w_clock w) (he_sample env layer)" "chip_before c (he_sample env layer) (w_hw w)"
    and orow: "\<forall>r. prepared cfg r \<longrightarrow> contract_holds k (rn_runtime r) (rn_input_view r) (rn_output_view r) \<longrightarrow>
        runner_output_row_bytes (rn_output_view r) = Some (rn_output_row_bytes r) \<longrightarrow> rn_output_row_bytes r = orow"
    and fit: "rows_fit (ct_input_entries k) istride incap" "rows_fit orow ostride outcap"
    and ap: "inp = out \<and> istride = ostride \<or> apart (unat inp) (unat incap) (unat out) (unat outcap)"
    and mem: "unat inp + unat incap \<le> length (mm_bytes (w_mem w))" "unat out + unat outcap \<le> length (mm_bytes (w_mem w))"
      "length (mm_bytes (w_mem w)) < 2 ^ 32"
    and volt: "ct_output_kind k = RVRT_OUTPUT_VOLTAGE \<Longrightarrow> out mod 4 = 0 \<and> outcap mod 4 = 0 \<and> ostride mod 4 = 0"
      "case dp_voltage_state cfg of None \<Rightarrow> True
       | Some b \<Rightarrow> unat (dp_voltage_state_capacity cfg) \<le> length (mm_state (w_mem w) b)"
  shows "run_outcome c buf (dp_frame_capacity cfg) {unat out ..< unat out + unat outcap} (set_option (dp_voltage_state cfg))
    (\<lambda>bs. layer_sample env cfg k inp istride out outcap ostride bs (w_mem w)) w
    (layer_after_deploy env layer inp incap istride out outcap ostride r w1)"
proof -
  let ?p = "he_runner env layer" and ?senv = "he_sample env layer"
  let ?rows = "row_addrs (sample_decode r out outcap ostride) r (unat (rt_timesteps (rn_runtime r)))"
  note fits = layer_runner_fits [OF dep art cfg(1-4) orow fit ap mem volt]
  have pr: "prepared cfg r" using dep(1) by (simp add: deployed_def)
  have vs: "rn_voltage_state r = dp_voltage_state cfg" "rn_timeout_ms r = 2000"
    "rn_encode_frame_capacity r = dp_frame_capacity cfg"
    using pr cfg(5) by (simp_all add: prepared_def)
  have k8: "rt_timesteps (rn_runtime r) = 8" "rt_completion_sync_timestep (rn_runtime r) = 8"
    using fits(1) by (simp_all add: contract_holds_def)
  have acc: "sample_accepted ?p buf r (he_rounds env) (w_clock w) inp incap istride out outcap ostride w1"
    using fits by (simp add: sample_accepted_def)
  have "hw_up (w_hw w1) = hw_up (w_hw w)" using dep(1) by (auto simp: deployed_def claims_def sent_def)
  then have before: "chip_before c ?senv (w_hw w1)" using chip(2) chip_before_up by blast
  note sample = layer_sample_run [OF acc k8 vs(2) chip(1) before]
  have sub: "?rows \<subseteq> {unat out ..< unat out + unat outcap}"
    by (rule layer_rows_inside [OF k8(1)]) (simp add: fits(2) fit(2))
  have final: "\<exists>w3. layer_after_deploy env layer inp incap istride out outcap ostride r w1 = Some (st2 = RVRT_SESSION_OK, w3) \<and>
      unclaimed w3 \<and> w_mem w3 = w_mem w2 \<and> w_buf w3 = w_buf w2 \<and> hw_up (w_hw w3) = hw_up (w_hw w2) \<and> w_clock w3 = w_clock w2"
    if run: "rvrt_paicore_runner_run_sample (he_rounds env) ?senv (Some (?p, r)) (Some inp) incap istride
        (Some out) outcap ostride w1 = Some (st2, w2)" for st2 w2
  proof -
    have "owning ?p w2"
      using sample_keeps_owner [OF run] deployed_owning [OF dep(1) assms(1)] cfg(2,3) by (auto simp: owning_def)
    then obtain r3 w3 where rel: "rvrt_paicore_runner_release (Some (?p, r)) w2 = (RVRT_SESSION_OK, r3, w3)" "unclaimed w3"
      "w_mem w3 = w_mem w2" "w_buf w3 = w_buf w2" "hw_up (w_hw w3) = hw_up (w_hw w2)" "w_clock w3 = w_clock w2"
      using release_unclaims by blast
    moreover have "layer_after_deploy env layer inp incap istride out outcap ostride r w1 = Some (st2 = RVRT_SESSION_OK, w3)"
      unfolding layer_after_deploy_def run bind.bind_lunit prod.case rel(1) Let_def by simp
    ultimately show ?thesis by blast
  qed
  show ?thesis
    unfolding run_outcome_def
  proof (intro conjI allI impI)
    assume "chip_returns c"
    with sample(1) final show "layer_after_deploy env layer inp incap istride out outcap ostride r w1 \<noteq> None" by fastforce
  next
    fix ok w' assume run: "layer_after_deploy env layer inp incap istride out outcap ostride r w1 = Some (ok, w')"
    then obtain st2 w2 where smp: "rvrt_paicore_runner_run_sample (he_rounds env) ?senv (Some (?p, r)) (Some inp) incap istride
        (Some out) outcap ostride w1 = Some (st2, w2)" by (auto simp: layer_after_deploy_def split: bind_splits)
    from final [OF smp] run have w': "ok = (st2 = RVRT_SESSION_OK)" "unclaimed w'" "w_mem w' = w_mem w2" "w_buf w' = w_buf w2"
      "hw_up (w_hw w') = hw_up (w_hw w2)" "w_clock w' = w_clock w2" by auto
    note res = sample(2) [OF smp]
    show "unclaimed w'" by (rule w'(2))
    show "mem_frame {unat out ..< unat out + unat outcap} (set_option (dp_voltage_state cfg)) (w_mem w) (w_mem w')"
      using mem_frame_mono [OF mem_frame_same_off [OF conjunct1 [OF res]] sub] vs(1) fits(6) w'(3) by auto
    assume ok
    then have st2: "st2 = RVRT_SESSION_OK" using w'(1) by simp
    with res have live: "live_at ?p buf (rn_artifact r) (rn_encode_frame_capacity r) (w_clock w) w2"
      and after: "chip_after c (w_hw w2)"
      and spec: "specified c (\<lambda>bs m'. sample_spec r (encodable r inp (stride_of istride (rn_input_row_bytes r)) (w_mem w1))
           (sample_decode r out outcap ostride) (tl bs) [] (lanes_cleared r (w_mem w1)) = Some (RVRT_SESSION_OK, m')) (w_mem w2)"
      by blast+
    show "w_clock w' = w_clock w" "unat (dp_frame_capacity cfg) \<le> length (w_buf w' buf)"
      using live w'(4,6) vs(3) by (auto simp: live_at_def ready_def)
    show "chip_after c (w_hw w')" using after chip_after_up [OF w'(5)] by blast
    show "specified c (\<lambda>bs. layer_sample env cfg k inp istride out outcap ostride bs (w_mem w)) (w_mem w')"
      by (rule specified_mono [OF spec]) (use pr dep(2) fits(1,6) w'(3) in \<open>auto simp: layer_sample_def\<close>)
  qed
qed

lemma paicore_layer_result:
  fixes w :: rworld
  assumes "unclaimed w" and art: "layer_artifact_ok env art k = Some True" "artifact_fits env art"
    and cfg: "dp_artifact_data cfg = sa_start art" "dp_frame_buffer cfg = Some buf" "dp_frame_capacity cfg \<noteq> 0"
      "unat (dp_frame_capacity cfg) \<le> length (w_buf w buf)" "dp_timeout_ms cfg = 2000"
    and chip: "chip_env c (w_clock w) (he_sample env layer)" "chip_before c (he_sample env layer) (w_hw w)"
    and orow: "\<And>r. prepared cfg r \<Longrightarrow> contract_holds k (rn_runtime r) (rn_input_view r) (rn_output_view r) \<Longrightarrow>
        runner_output_row_bytes (rn_output_view r) = Some (rn_output_row_bytes r) \<Longrightarrow> rn_output_row_bytes r = orow"
    and fit: "rows_fit (ct_input_entries k) istride incap" "rows_fit orow ostride outcap"
    and ap: "inp = out \<and> istride = ostride \<or> apart (unat inp) (unat incap) (unat out) (unat outcap)"
    and mem: "unat inp + unat incap \<le> length (mm_bytes (w_mem w))" "unat out + unat outcap \<le> length (mm_bytes (w_mem w))"
      "length (mm_bytes (w_mem w)) < 2 ^ 32"
    and volt: "ct_output_kind k = RVRT_OUTPUT_VOLTAGE \<Longrightarrow> out mod 4 = 0 \<and> outcap mod 4 = 0 \<and> ostride mod 4 = 0"
      "case dp_voltage_state cfg of None \<Rightarrow> True
       | Some b \<Rightarrow> unat (dp_voltage_state_capacity cfg) \<le> length (mm_state (w_mem w) b)"
  shows "run_outcome c buf (dp_frame_capacity cfg) {unat out ..< unat out + unat outcap} (set_option (dp_voltage_state cfg))
    (\<lambda>bs. layer_sample env cfg k inp istride out outcap ostride bs (w_mem w)) w
    (snn_head_run_paicore_layer env layer cfg inp incap istride out outcap ostride w)"
proof -
  let ?p = "he_runner env layer"
  have "words_fit (he_get_root env) cfg"
    using art(2) cfg(1) by (auto simp: words_fit_def artifact_fits_def Let_def split: option.splits prod.splits)
  from paicore_layer_deploys [OF assms(1) this]
  obtain st r w1 where run: "snn_head_run_paicore_layer env layer cfg inp incap istride out outcap ostride w =
       (if st \<noteq> RVRT_SESSION_OK then Some (False, w1)
        else layer_after_deploy env layer inp incap istride out outcap ostride r w1)"
    and dep: "r = zero_runner \<and> cleared ?p w w1 \<or>
       st = RVRT_SESSION_OK \<and> deployed ?p cfg r w w1 \<and> reads_from (he_get_root env) cfg r" by metis
  show ?thesis
  proof (cases "r = zero_runner \<and> cleared ?p w w1")
    case True
    then have "unclaimed w1" "w_mem w1 = w_mem w" using cleared_unclaimed assms(1) by (auto simp: cleared_def)
    then have "\<exists>w3. snn_head_run_paicore_layer env layer cfg inp incap istride out outcap ostride w = Some (False, w3) \<and>
        unclaimed w3 \<and> w_mem w3 = w_mem w"
      using run True layer_after_refusal [of w1] by auto
    then show ?thesis by (auto simp: run_outcome_def)
  next
    case False
    with dep have ok: "st = RVRT_SESSION_OK" "deployed ?p cfg r w w1" "reads_from (he_get_root env) cfg r" by auto
    have "\<forall>r. prepared cfg r \<longrightarrow> contract_holds k (rn_runtime r) (rn_input_view r) (rn_output_view r) \<longrightarrow>
        runner_output_row_bytes (rn_output_view r) = Some (rn_output_row_bytes r) \<longrightarrow> rn_output_row_bytes r = orow"
      using orow by blast
    from layer_deployed_result [OF assms(1) ok(2,3) art cfg chip this fit ap mem volt] ok(1) show ?thesis
      unfolding run by simp
  qed
qed

end
