(* ===== verification/SnnHead_Layers.thy ===== *)
theory SnnHead_Layers
  imports SnnHead_Laws
begin

text \<open>
  What each layer of the SNN head puts into the workspace before it runs on the chip and takes out of it
  afterwards, and the chain of the five layers.  The arithmetic works in place; the lemmas show that no
  element is overwritten before it is read, so that the rows the chip gets are the quantised normalised
  rows of the layer's input.
\<close>

section \<open>Rows\<close>

text \<open>Rows of equal length, one after the other.\<close>

lemma length_concat_rows: "(\<And>j. length (f j) = k) \<Longrightarrow> length (concat (map f [0..<n])) = n * k"
  by (induction n) simp_all

lemma concat_row:
  assumes "\<And>j. length (f j) = k" "r < n"
  shows "take k (drop (r * k) (concat (map f [0..<n]))) = f r"
  using assms(2)
proof (induction n)
  case (Suc n)
  note len = length_concat_rows [of f k n, OF assms(1)]
  show ?case
  proof (cases "r = n")
    case True
    then show ?thesis by (simp add: len assms(1))
  next
    case False
    with Suc.prems have r: "r < n" by simp
    then have "r * k + k \<le> n * k" using mult_right_mono [of "r + 1" n k] by simp
    then show ?thesis using Suc.IH [OF r] by (simp add: len)
  qed
qed simp

lemma words_row: "(r + 1) * k \<le> n \<Longrightarrow> take k (drop (r * k) (words_at mem a n)) = words_at mem (a + 4 * (r * k)) k"
  by (rule nth_equalityI) (auto simp: algebra_simps)

lemma take_drop_store:
  assumes "a + length bs \<le> length mem" "i + k \<le> length bs"
  shows "take k (drop (a + i) (store_at a bs mem)) = take k (drop i bs)"
  using assms by (intro nth_equalityI) (auto simp: nth_store_at)

lemma quantized_row: "take k (drop i (quantized fo s ws)) = quantized fo s (take k (drop i ws))"
  by (simp add: quantized_def take_map drop_map)

lemma length_quantized [simp]: "length (quantized fo s ws) = length ws"
  by (simp add: quantized_def)

lemma normalized_row:
  "r < n \<Longrightarrow> take k (drop (r * k) (normalized_rows fo g b eps mem a k 0 n)) =
     normalized fo g b eps (words_at mem (a + 4 * (r * k)) k)"
  unfolding normalized_rows_def add_0 by (rule concat_row) simp_all

text \<open>Words read back after they were stored.\<close>

lemma words_at_put_words:
  assumes "a + 4 * length ws \<le> length mem"
  shows "words_at (put_words a ws mem) a (length ws) = ws"
  by (rule nth_equalityI) (simp_all add: uload32_put_words [OF assms])


section \<open>Moves\<close>

text \<open>A copied block reads as the original.\<close>

lemma memcpy_words:
  assumes "a + n \<le> length mem" "b + n \<le> length mem" "apart a n b n" "4 * (i + k) \<le> n"
  shows "\<exists>mem'. memcpy_bytes a b n mem = Some mem' \<and> mem' = store_at a (take n (drop b mem)) mem \<and>
    words_at mem' (a + 4 * i) k = words_at mem (b + 4 * i) k"
  using assms by (auto simp: memcpy_bytes_def memmove_bytes_def apart_def uload32_def nth_store_at add.assoc
      intro!: nth_equalityI)

text \<open>
  Spreading rows apart: every row arrives as it was although the rows lie over one another, and
  everything outside the new rows stays.
\<close>

definition in_rows :: "nat \<Rightarrow> nat \<Rightarrow> nat \<Rightarrow> nat \<Rightarrow> nat \<Rightarrow> bool" where
  "in_rows base stride n rows j \<longleftrightarrow> (\<exists>r < rows. base + r * stride \<le> j \<and> j < base + r * stride + n)"

lemma spread_rows_result:
  assumes "n \<le> src_stride" "src_stride \<le> dst_stride"
  shows "base + rows * dst_stride \<le> length mem \<Longrightarrow>
    \<exists>mem'. spread_rows base dst_stride src_stride n rows mem = Some mem' \<and> length mem' = length mem \<and>
      (\<forall>r < rows. take n (drop (base + r * dst_stride) mem') = take n (drop (base + r * src_stride) mem)) \<and>
      (\<forall>j < length mem. \<not> in_rows base dst_stride n rows j \<longrightarrow> mem' ! j = mem ! j)"
proof (induction rows arbitrary: mem)
  case 0
  then show ?case by simp
next
  case (Suc rows)
  let ?d = "base + rows * dst_stride" and ?s = "base + rows * src_stride"
  let ?mem = "store_at ?d (take n (drop ?s mem)) mem"
  have sd: "rows * src_stride \<le> rows * dst_stride" using assms(2) by simp
  have fit: "?d + n \<le> length mem" using Suc.prems assms by simp
  with sd have "?s + n \<le> length mem" by linarith
  note fit = fit this
  then have len: "length (take n (drop ?s mem)) = n" "length ?mem = length mem" by simp_all
  from Suc.IH [of ?mem] Suc.prems len obtain mem' where ih:
    "spread_rows base dst_stride src_stride n rows ?mem = Some mem'" "length mem' = length mem"
    "\<forall>r < rows. take n (drop (base + r * dst_stride) mem') = take n (drop (base + r * src_stride) ?mem)"
    "\<forall>j < length mem. \<not> in_rows base dst_stride n rows j \<longrightarrow> mem' ! j = ?mem ! j" by auto
  have below: "base + r * stride + n \<le> base + rows * stride" if "r < rows" "n \<le> stride" for r stride
    using mult_right_mono [of "r + 1" rows stride] that by simp
  have kept: "take n (drop (base + r * src_stride) ?mem) = take n (drop (base + r * src_stride) mem)" if "r < rows" for r
  proof (rule nth_equalityI)
    fix i assume "i < length (take n (drop (base + r * src_stride) ?mem))"
    then have "i < n" by simp
    with below [OF that assms(1)] sd have "base + r * src_stride + i < ?d" by linarith
    then show "take n (drop (base + r * src_stride) ?mem) ! i = take n (drop (base + r * src_stride) mem) ! i"
      using \<open>i < n\<close> fit len by (simp add: nth_store_at)
  qed (use len in simp)
  have last: "take n (drop ?d mem') = take n (drop ?s mem)"
  proof (rule nth_equalityI)
    fix i assume "i < length (take n (drop ?d mem'))"
    then have i: "i < n" by simp
    have "n \<le> dst_stride" using assms by simp
    from below [OF _ this] have "\<not> ?d + i < base + r * dst_stride + n" if "r < rows" for r
      using that [THEN below, OF \<open>n \<le> dst_stride\<close>] by linarith
    then have "\<not> in_rows base dst_stride n rows (?d + i)" unfolding in_rows_def by blast
    then show "take n (drop ?d mem') ! i = take n (drop ?s mem) ! i"
      using ih(4) i fit len by (simp add: nth_store_at ih(2))
  qed (use fit ih(2) in simp)
  have frame: "mem' ! j = mem ! j" if "j < length mem" "\<not> in_rows base dst_stride n (Suc rows) j" for j
  proof -
    have "\<not> in_rows base dst_stride n rows j" "\<not> (?d \<le> j \<and> j < ?d + n)"
      using that(2) by (auto simp: in_rows_def less_Suc_eq)
    then show ?thesis using ih(4) that(1) fit len by (auto simp: nth_store_at)
  qed
  have "take n (drop (base + r * dst_stride) mem') = take n (drop (base + r * src_stride) mem)" if "r < Suc rows" for r
    using that ih(3) kept last by (cases "r = rows") auto
  moreover have "spread_rows base dst_stride src_stride n (Suc rows) mem = Some mem'"
    using fit ih(1) by (simp add: memmove_bytes_def)
  ultimately show ?case using ih(2) frame by blast
qed

text \<open>Widening from the last element keeps the bytes that are still to be read.\<close>

lemma widen_bytes_result:
  assumes "base mod 4 = 0"
  shows "base + 4 * n \<le> length mem \<Longrightarrow>
    widen_bytes fo base n mem = Some (put_words base (map (\<lambda>v. fo_of_u32 fo (ucast v)) (take n (drop base mem))) mem)"
proof (induction n arbitrary: mem)
  case 0
  then show ?case by (simp add: put_words_def)
next
  case (Suc e)
  let ?f = "\<lambda>v :: u8. fo_of_u32 fo (ucast v)"
  let ?b = "bytes32 (?f (mem ! (base + e)))" and ?xs = "map ?f (take e (drop base mem))"
  let ?mem = "store_at (base + 4 * e) ?b mem"
  have al: "(base + 4 * e) mod 4 = 0" using assms by presburger
  have fit: "base + 4 * e + length ?b \<le> length mem" using Suc.prems by simp
  have keep: "take e (drop base ?mem) = take e (drop base mem)"
    using fit by (intro nth_equalityI) (auto simp: nth_store_at)
  have "widen_bytes fo base (Suc e) mem = widen_bytes fo base e ?mem"
    using Suc.prems al by (simp add: mload8_def mstore32_def)
  also have "\<dots> = Some (put_words base ?xs ?mem)" using Suc.IH [of ?mem] fit keep by simp
  also have "put_words base ?xs ?mem = store_at base (concat (map bytes32 ?xs) @ ?b) mem"
  proof -
    have "length ?xs = e" using Suc.prems by simp
    with length_word_bytes [of ?xs] have l: "length (concat (map bytes32 ?xs)) = 4 * e" by metis
    show ?thesis
      using store_at_append(1) [of base "concat (map bytes32 ?xs)" ?b mem, unfolded l] fit by (simp add: put_words_def)
  qed
  also have "concat (map bytes32 ?xs) @ ?b = concat (map bytes32 (map ?f (take (Suc e) (drop base mem))))"
    using Suc.prems by (simp add: take_Suc_conv_app_nth)
  finally show ?case by (simp add: put_words_def)
qed


section \<open>What the chip gets\<close>

text \<open>Bytes that are unchanged outside a set of addresses.\<close>

definition same_bytes :: "nat set \<Rightarrow> u8 list \<Rightarrow> u8 list \<Rightarrow> bool" where
  "same_bytes A m m' \<longleftrightarrow> length m' = length m \<and> (\<forall>i < length m. i \<notin> A \<longrightarrow> m' ! i = m ! i)"

lemma same_bytes_trans: "same_bytes A m1 m2 \<Longrightarrow> same_bytes A m2 m3 \<Longrightarrow> same_bytes A m1 m3"
  by (simp add: same_bytes_def)

lemma same_bytes_mono: "same_bytes A m m' \<Longrightarrow> A \<subseteq> A' \<Longrightarrow> same_bytes A' m m'"
  by (auto simp: same_bytes_def)

lemma same_bytes_store:
  "a + length bs \<le> length mem \<Longrightarrow> same_bytes {a..<a + length bs} mem (store_at a bs mem)"
  by (auto simp: same_bytes_def nth_store_at)

lemma same_bytes_put_words:
  "a + 4 * length ws \<le> length mem \<Longrightarrow> same_bytes {a..<a + 4 * length ws} mem (put_words a ws mem)"
  using same_bytes_store [of a "concat (map bytes32 ws)" mem] by (simp add: put_words_def)

lemma same_bytes_frame: "same_bytes A (mm_bytes m) b \<Longrightarrow> mem_frame A B m (m\<lparr>mm_bytes := b\<rparr>)"
  by (simp add: same_bytes_def mem_frame_def)

lemma in_rows_inside: "in_rows base stride n rows j \<Longrightarrow> n \<le> stride \<Longrightarrow> base \<le> j \<and> j < base + rows * stride"
proof -
  assume "in_rows base stride n rows j" "n \<le> stride"
  then obtain r where r: "r < rows" "base + r * stride \<le> j" "j < base + r * stride + n" by (auto simp: in_rows_def)
  have "r * stride + stride \<le> rows * stride" using mult_right_mono [of "r + 1" rows stride] r(1) by simp
  then show ?thesis using r \<open>n \<le> stride\<close> by linarith
qed

text \<open>The eight rows of the chip's input.\<close>

definition chip_rows :: "nat \<Rightarrow> nat \<Rightarrow> nat \<Rightarrow> (nat \<Rightarrow> u8 list) \<Rightarrow> u8 list \<Rightarrow> bool" where
  "chip_rows base stride n row m \<longleftrightarrow> list_all (\<lambda>r. take n (drop (base + r * stride) m) = row r) [0..<8]"

lemma chip_rows_iff: "chip_rows base stride n row m \<longleftrightarrow> (\<forall>r < 8. take n (drop (base + r * stride) m) = row r)"
  by (auto simp: chip_rows_def list_all_iff)

definition layer_row :: "float_ops \<Rightarrow> u32 list \<Rightarrow> u32 list \<Rightarrow> u32 \<Rightarrow> u32 list \<Rightarrow> u8 list" where
  "layer_row fo weight bias scale xs =
     quantized fo scale (normalized fo (Some weight) (Some bias) RV_LAYERNORM_DEFAULT_EPS xs)"

lemma quantize_rows:
  assumes "ws mod 4 = 0" "unat n = 8 * k" "unat ws + 32 * k \<le> length mem"
  shows "\<exists>m. rv_quantize_s8 fo (Some ws) (Some ws) n scale mem = Some m \<and>
    same_bytes {unat ws ..< unat ws + 32 * k} mem m \<and>
    chip_rows (unat ws) k k (\<lambda>r. quantized fo scale (words_at mem (unat ws + 4 * (r * k)) k)) m"
proof -
  let ?q = "quantized fo scale (words_at mem (unat ws) (unat n))"
  have run: "rv_quantize_s8 fo (Some ws) (Some ws) n scale mem = Some (store_at (unat ws) ?q mem)"
    by (rule quantize_lemma) (use assms in \<open>auto simp: forward_safe_def\<close>)
  have fit: "unat ws + length ?q \<le> length mem" using assms by simp
  have "same_bytes {unat ws ..< unat ws + 32 * k} mem (store_at (unat ws) ?q mem)"
    using same_bytes_mono [OF same_bytes_store [OF fit]] assms(2) by auto
  moreover have "take k (drop (unat ws + r * k) (store_at (unat ws) ?q mem)) =
      quantized fo scale (words_at mem (unat ws + 4 * (r * k)) k)" if "r < 8" for r
  proof -
    have r: "(r + 1) * k \<le> unat n" using mult_right_mono [of "r + 1" 8 k] that assms(2) by simp
    then have "take k (drop (unat ws + r * k) (store_at (unat ws) ?q mem)) = take k (drop (r * k) ?q)"
      using fit by (intro take_drop_store) simp_all
    then show ?thesis using words_row [OF r] by (simp add: quantized_row)
  qed
  ultimately show ?thesis using run by (auto simp: chip_rows_iff)
qed

lemma normalize_quantize:
  assumes "ws mod 4 = 0" "dim \<noteq> 0" "unat n = 8 * unat dim" "unat ws + 32 * unat dim \<le> length mem"
    and "unat dim \<le> length g" "unat dim \<le> length b"
  shows "\<exists>m1 m2. rv_layernorm_f32 fo (Some ws) (Some ws) 8 dim (Some g) (Some b) RV_LAYERNORM_DEFAULT_EPS mem = Some m1 \<and>
    rv_quantize_s8 fo (Some ws) (Some ws) n scale m1 = Some m2 \<and>
    same_bytes {unat ws ..< unat ws + 32 * unat dim} mem m2 \<and>
    chip_rows (unat ws) (unat dim) (unat dim)
      (\<lambda>r. layer_row fo g b scale (words_at mem (unat ws + 4 * (r * unat dim)) (unat dim))) m2"
proof -
  let ?d = "unat dim" and ?a = "unat ws"
  let ?ns = "normalized_rows fo (Some g) (Some b) RV_LAYERNORM_DEFAULT_EPS mem ?a ?d 0 8"
  let ?m1 = "put_words ?a ?ns mem"
  have run: "rv_layernorm_f32 fo (Some ws) (Some ws) 8 dim (Some g) (Some b) RV_LAYERNORM_DEFAULT_EPS mem = Some ?m1"
    using layernorm_lemma [of ws ws dim "Some g" "Some b" 8 mem fo RV_LAYERNORM_DEFAULT_EPS] assms
    by (simp add: table_fits_def forward_safe_def)
  have fit: "?a + 4 * length ?ns \<le> length mem" using assms(4) by simp
  then have "?a + 32 * ?d \<le> length ?m1" using assms(4) by simp
  from quantize_rows [OF assms(1,3) this] obtain m2 where m2:
    "rv_quantize_s8 fo (Some ws) (Some ws) n scale ?m1 = Some m2" "same_bytes {?a..<?a + 32 * ?d} ?m1 m2"
    "chip_rows ?a ?d ?d (\<lambda>r. quantized fo scale (words_at ?m1 (?a + 4 * (r * ?d)) ?d)) m2" by blast
  have "words_at ?m1 (?a + 4 * (r * ?d)) ?d =
      normalized fo (Some g) (Some b) RV_LAYERNORM_DEFAULT_EPS (words_at mem (?a + 4 * (r * ?d)) ?d)" if "r < 8" for r
  proof -
    have r: "(r + 1) * ?d \<le> 8 * ?d" using that by (intro mult_right_mono) simp_all
    have "words_at ?m1 (?a + 4 * (r * ?d)) ?d = take ?d (drop (r * ?d) (words_at ?m1 ?a (length ?ns)))"
      using words_row [OF r] by simp
    also have "\<dots> = take ?d (drop (r * ?d) ?ns)" using words_at_put_words [OF fit] by simp
    finally show ?thesis using normalized_row [OF that] by simp
  qed
  then have "chip_rows ?a ?d ?d (\<lambda>r. layer_row fo g b scale (words_at mem (?a + 4 * (r * ?d)) ?d)) m2"
    using m2(3) by (simp add: chip_rows_iff layer_row_def)
  moreover have "same_bytes {?a..<?a + 32 * ?d} mem m2"
    using same_bytes_trans [OF same_bytes_mono [OF same_bytes_put_words [OF fit]] m2(2)] by auto
  ultimately show ?thesis using run m2(1) by blast
qed

text \<open>Spreading the rows keeps what the chip gets.\<close>

lemma spread_chip_rows:
  assumes "chip_rows base n n row mem" "n \<le> stride" "base + 8 * stride \<le> length mem"
  shows "\<exists>m. spread_rows base stride n n 8 mem = Some m \<and> same_bytes {base..<base + 8 * stride} mem m \<and>
    chip_rows base stride n row m"
proof -
  from spread_rows_result [OF order.refl assms(2,3)] obtain m where m:
    "spread_rows base stride n n 8 mem = Some m" "length m = length mem"
    "\<forall>r < 8. take n (drop (base + r * stride) m) = take n (drop (base + r * n) mem)"
    "\<forall>j < length mem. \<not> in_rows base stride n 8 j \<longrightarrow> m ! j = mem ! j" by blast
  then have "same_bytes {base..<base + 8 * stride} mem m"
    using in_rows_inside [OF _ assms(2), of base 8] by (auto simp: same_bytes_def)
  moreover have "chip_rows base stride n row m" using assms(1) m(3) by (simp add: chip_rows_iff)
  ultimately show ?thesis using m(1) by blast
qed


section \<open>A layer\<close>

text \<open>Whether an artifact passes is always decided.\<close>

lemma layer_artifact_total: "\<exists>ok. layer_artifact_ok env art k = Some ok"
  using layer_artifact_cases [of env art k] by auto

text \<open>The linked objects: aligned, inside the memory, apart, and of the sizes of the source.\<close>

definition head_memory :: "snn_head \<Rightarrow> runner_mem \<Rightarrow> bool" where
  "head_memory h m \<longleftrightarrow> tensor_workspace h mod 4 = 0 \<and> fc3_acc h mod 4 = 0 \<and> length (mm_bytes m) < 2 ^ 32 \<and>
     unat (tensor_workspace h) + 49152 \<le> length (mm_bytes m) \<and> unat (fc3_acc h) + 224 \<le> length (mm_bytes m) \<and>
     apart (unat (tensor_workspace h)) 49152 (unat (fc3_acc h)) 224 \<and>
     12288 \<le> length (mm_state m (fc2_voltage_state h))"

definition head_tables :: "snn_head \<Rightarrow> bool" where
  "head_tables h \<longleftrightarrow> length (ln1_weight h) = 768 \<and> length (ln1_bias h) = 768 \<and>
     length (block0_ln_weight h) = 1536 \<and> length (block0_ln_bias h) = 1536 \<and>
     length (block1_ln_weight h) = 1536 \<and> length (block1_ln_bias h) = 1536 \<and>
     length (ln2_weight h) = 1536 \<and> length (ln2_bias h) = 1536 \<and>
     length (fc2_output_scale h) = 1536 \<and> length (fc3_output_scale h) = 7"

lemma head_memory_frame: "mem_frame A B m m' \<Longrightarrow> head_memory h m' = head_memory h m"
  by (simp add: head_memory_def mem_frame_def)

text \<open>The world between two layers.\<close>

definition head_ready :: "snn_head \<Rightarrow> u32 \<Rightarrow> rworld \<Rightarrow> bool" where
  "head_ready h clk w \<longleftrightarrow> unclaimed w \<and> w_clock w = clk \<and> 256 \<le> length (w_buf w (layer_frame_buf h)) \<and>
     head_memory h (w_mem w)"

definition layer_env :: "head_env \<Rightarrow> u32 \<Rightarrow> snn_head_layer_id \<Rightarrow> snn_artifact \<Rightarrow> bool" where
  "layer_env env clk layer art \<longleftrightarrow> artifact_fits env art \<and> env_prompt clk 2000 (he_sample env layer)"

abbreviation with_bytes :: "u8 list \<Rightarrow> rworld \<Rightarrow> rworld" where
  "with_bytes b w \<equiv> w\<lparr>w_mem := (w_mem w)\<lparr>mm_bytes := b\<rparr>\<rparr>"

lemma on_bytes_run: "f (mm_bytes (w_mem w)) = Some b \<Longrightarrow> on_bytes f w = Some (with_bytes b w)"
  by (simp add: on_bytes_def)

lemma head_ready_bytes:
  "head_ready h clk w \<Longrightarrow> length b = length (mm_bytes (w_mem w)) \<Longrightarrow> head_ready h clk (with_bytes b w)"
  by (simp add: head_ready_def head_memory_def)

text \<open>
  How a layer or the chain ends, by what is known of the chip: if it returns, nobody owns the chip, the
  memory is unchanged outside \<open>A\<close> and the lane states \<open>B\<close>, and after a success the next layer can start
  and the memory is as specified.
\<close>

definition layer_outcome ::
    "snn_head \<Rightarrow> u32 \<Rightarrow> nat set \<Rightarrow> nat set \<Rightarrow> runner_mem \<Rightarrow> chip \<Rightarrow> (runner_mem \<Rightarrow> bool) \<Rightarrow> (bool \<times> rworld) option \<Rightarrow> bool" where
  "layer_outcome h clk A B m c spec res \<longleftrightarrow> (chip_returns c \<longrightarrow> res \<noteq> None) \<and>
     (\<forall>ok w'. res = Some (ok, w') \<longrightarrow> unclaimed w' \<and> mem_frame A B m (w_mem w') \<and>
        (ok \<longrightarrow> head_ready h clk w' \<and> chip_after c (w_hw w') \<and> spec (w_mem w')))"

lemma layer_outcome_mono:
  assumes "layer_outcome h clk A B m1 c spec res" "mem_frame A B m m1" "\<And>m'. spec m' \<Longrightarrow> spec' m'"
  shows "layer_outcome h clk A B m c spec' res"
  using assms mem_frame_trans [OF assms(2)] unfolding layer_outcome_def by blast

lemma layer_outcome_fail: "res = Some (False, w) \<Longrightarrow> unclaimed w \<Longrightarrow> mem_frame A B m (w_mem w) \<Longrightarrow>
  layer_outcome h clk A B m c spec res"
  unfolding layer_outcome_def by simp

text \<open>A layer, and what follows when it succeeds.\<close>

lemma layer_outcome_then:
  assumes "layer_outcome h clk A B m c spec res" "chip_returns c' \<longrightarrow> chip_returns c"
    and "\<And>w. head_ready h clk w \<Longrightarrow> chip_after c (w_hw w) \<Longrightarrow> spec (w_mem w) \<Longrightarrow> mem_frame A B m (w_mem w) \<Longrightarrow>
      layer_outcome h clk A B (w_mem w) c' (spec' (w_mem w)) (next_layer w)"
  shows "layer_outcome h clk A B m c' (\<lambda>m'. \<exists>m1. spec m1 \<and> spec' m1 m') (and_then res next_layer)"
proof (cases res)
  case None
  then show ?thesis using assms(1,2) by (auto simp: layer_outcome_def and_then_def)
next
  case (Some ow)
  obtain ok w where ow: "ow = (ok, w)" by (cases ow)
  with Some assms(1) have w: "unclaimed w" "mem_frame A B m (w_mem w)"
    "ok \<longrightarrow> head_ready h clk w \<and> chip_after c (w_hw w) \<and> spec (w_mem w)" unfolding layer_outcome_def by blast+
  show ?thesis
  proof (cases ok)
    case False
    then show ?thesis using Some ow w by (intro layer_outcome_fail) (simp_all add: and_then_def)
  next
    case True
    with Some ow have "and_then res next_layer = next_layer w" by (simp add: and_then_def)
    moreover have "layer_outcome h clk A B (w_mem w) c' (spec' (w_mem w)) (next_layer w)"
      by (rule assms(3)) (use w True in simp_all)
    ultimately have run: "layer_outcome h clk A B (w_mem w) c' (spec' (w_mem w)) (and_then res next_layer)" by simp
    have "spec (w_mem w)" using w(3) True by simp
    then show ?thesis by (intro layer_outcome_mono [OF run w(2)]) blast
  qed
qed

text \<open>From the check of the artifact to the end of a layer.\<close>

lemma layer_tail:
  fixes w :: rworld
  assumes ready: "head_ready h clk w" "artifact_fits env art"
    and voltage: "voltage = None \<or> voltage = Some (fc2_voltage_state h, 12288)" "fc2_voltage_state h \<in> B"
    and orow: "\<And>ov. ov_kind ov = ct_output_kind k \<Longrightarrow> ov_element_count ov = ct_output_elements k \<Longrightarrow>
        runner_output_row_bytes ov = Some orow"
    and fit: "rows_fit (ct_input_entries k) istride incap" "rows_fit orow ostride outcap"
    and ap: "inp = out \<and> istride = ostride \<or> apart (unat inp) (unat incap) (unat out) (unat outcap)"
    and mem: "unat inp + unat incap \<le> length (mm_bytes (w_mem w))" "unat out + unat outcap \<le> length (mm_bytes (w_mem w))"
    and volt: "ct_output_kind k = RVRT_OUTPUT_VOLTAGE \<Longrightarrow> out mod 4 = 0 \<and> outcap mod 4 = 0 \<and> ostride mod 4 = 0"
    and chip: "chip_env c clk (he_sample env layer)" "chip_before c (he_sample env layer) (w_hw w)"
    and post: "\<And>b. length b = length (mm_bytes (w_mem w)) \<Longrightarrow> post b = Some (pf b) \<and> same_bytes A b (pf b)"
      "{unat out ..< unat out + unat outcap} \<subseteq> A"
  shows "layer_outcome h clk A B (w_mem w) c
    (specified c (\<lambda>bs m'. \<exists>m. layer_sample env (layer_config h art voltage) k inp istride out outcap ostride bs (w_mem w) m \<and>
       mem_frame A B (w_mem w) m \<and> m' = m\<lparr>mm_bytes := pf (mm_bytes m)\<rparr>))
    (do {
       artifact_ok \<leftarrow> layer_artifact_ok env art k;
       if \<not> artifact_ok then Some (False, w)
       else do {
         (layer_ok, w) \<leftarrow> snn_head_run_paicore_layer env layer (layer_config h art voltage) inp incap istride out outcap
           ostride w;
         if \<not> layer_ok then Some (False, w)
         else do { w \<leftarrow> on_bytes post w; Some (True, w) }
       }
     })"
proof -
  let ?cfg = "layer_config h art voltage"
  have free: "unclaimed w" using ready(1) by (simp add: head_ready_def)
  obtain b where b: "layer_artifact_ok env art k = Some b" using layer_artifact_total by blast
  show ?thesis
  proof (cases b)
    case False
    then show ?thesis using b free by (intro layer_outcome_fail [of _ w]) simp_all
  next
    case True
    with b have art: "layer_artifact_ok env art k = Some True" by simp
    have cfg: "dp_artifact_data ?cfg = sa_start art" "dp_frame_buffer ?cfg = Some (layer_frame_buf h)"
      "dp_frame_capacity ?cfg \<noteq> 0" "unat (dp_frame_capacity ?cfg) \<le> length (w_buf w (layer_frame_buf h))"
      "dp_timeout_ms ?cfg = 2000"
      using ready(1) by (simp_all add: layer_config_def head_ready_def)
    have env: "chip_env c (w_clock w) (he_sample env layer)" using ready(1) chip(1) by (simp add: head_ready_def)
    have row: "rn_output_row_bytes r = orow"
      if "prepared ?cfg r" "contract_holds k (rn_runtime r) (rn_input_view r) (rn_output_view r)"
        "runner_output_row_bytes (rn_output_view r) = Some (rn_output_row_bytes r)" for r
      using orow [of "rn_output_view r"] that by (simp add: contract_holds_def)
    have lanes: "case dp_voltage_state ?cfg of None \<Rightarrow> True
       | Some b \<Rightarrow> unat (dp_voltage_state_capacity ?cfg) \<le> length (mm_state (w_mem w) b)"
      "set_option (dp_voltage_state ?cfg) \<subseteq> B"
      using voltage ready(1) by (auto simp: layer_config_def head_ready_def head_memory_def)
    have len: "length (mm_bytes (w_mem w)) < 2 ^ 32" using ready(1) by (simp add: head_ready_def head_memory_def)
    let ?S = "\<lambda>bs. layer_sample env ?cfg k inp istride out outcap ostride bs (w_mem w)"
    let ?res = "snn_head_run_paicore_layer env layer ?cfg inp incap istride out outcap ostride w"
    let ?chain = "do { (layer_ok, w) \<leftarrow> ?res; if \<not> layer_ok then Some (False, w) else do { w \<leftarrow> on_bytes post w; Some (True, w) } }"
    let ?spec = "\<lambda>bs m'. \<exists>m. ?S bs m \<and> mem_frame A B (w_mem w) m \<and> m' = m\<lparr>mm_bytes := pf (mm_bytes m)\<rparr>"
    note outcome = paicore_layer_result [OF free art ready(2) cfg env chip(2) row fit ap mem len volt lanes(1), unfolded run_outcome_def]
    have frame: "mem_frame A B (w_mem w) (w_mem w1)" if "?res = Some (ok, w1)" for ok w1
      using mem_frame_mono [OF _ post(2) lanes(2)] outcome that by blast
    have posted: "on_bytes post w1 = Some (with_bytes (pf (mm_bytes (w_mem w1))) w1)"
      "mem_frame A B (w_mem w) (w_mem (with_bytes (pf (mm_bytes (w_mem w1))) w1))"
      "length (pf (mm_bytes (w_mem w1))) = length (mm_bytes (w_mem w1))"
      if "?res = Some (ok, w1)" for ok w1
    proof -
      have "length (mm_bytes (w_mem w1)) = length (mm_bytes (w_mem w))" using frame [OF that] by (simp add: mem_frame_def)
      note p = post(1) [OF this]
      show "on_bytes post w1 = Some (with_bytes (pf (mm_bytes (w_mem w1))) w1)" by (rule on_bytes_run) (use p in simp)
      show "mem_frame A B (w_mem w) (w_mem (with_bytes (pf (mm_bytes (w_mem w1))) w1))"
        using mem_frame_trans [OF frame [OF that] same_bytes_frame] p by simp
      show "length (pf (mm_bytes (w_mem w1))) = length (mm_bytes (w_mem w1))" using p by (simp add: same_bytes_def)
    qed
    have "layer_outcome h clk A B (w_mem w) c (specified c ?spec) ?chain"
    proof (cases ?res)
      case None
      then have "\<not> chip_returns c" using conjunct1 [OF outcome] by blast
      then show ?thesis unfolding layer_outcome_def None by simp
    next
      case (Some ow)
      obtain ok w1 where run: "?res = Some (ok, w1)" using Some by (cases ow) simp
      note f = frame [OF run] and po = posted [OF run]
      have un: "unclaimed w1" using outcome run by blast
      show ?thesis
      proof (cases ok)
        case False
        then show ?thesis using run un f by (intro layer_outcome_fail [of _ w1]) simp_all
      next
        case True
        let ?w2 = "with_bytes (pf (mm_bytes (w_mem w1))) w1"
        from outcome run True have done1: "chip_after c (w_hw w1)" "w_clock w1 = w_clock w"
          "unat (dp_frame_capacity ?cfg) \<le> length (w_buf w1 (layer_frame_buf h))" "specified c ?S (w_mem w1)" by blast+
        have "?chain = Some (True, ?w2)" using run True po(1) by simp
        moreover have "head_ready h clk ?w2"
          by (rule head_ready_bytes) (use un done1(2,3) ready(1) head_memory_frame [OF f] po(3) in
            \<open>simp_all add: head_ready_def layer_config_def\<close>)
        moreover have "?spec bs (w_mem ?w2)" if "?S bs (w_mem w1)" for bs
          using that f by (intro exI [of _ "w_mem w1"]) simp
        then have "specified c ?spec (w_mem ?w2)" by (rule specified_mono [OF done1(4)])
        ultimately show ?thesis unfolding layer_outcome_def using un po(2) done1(1) by simp
      qed
    qed
    then show ?thesis using art by simp
  qed
qed

end
