(* ===== verification/SnnHead_Chain.thy ===== *)
theory SnnHead_Chain
  imports SnnHead_Layers
begin

text \<open>
  Each layer of the SNN head and the chain of the five: what a run returns, what it leaves in memory, and
  that the chip is free again afterwards, whatever fails.
\<close>

section \<open>What a layer computes\<close>

definition workspace :: "snn_head \<Rightarrow> nat set" where
  "workspace h = {unat (tensor_workspace h) ..< unat (tensor_workspace h) + 49152}"

text \<open>A spiking layer: the rows on the chip, the spikes it returned widened to floats.\<close>

definition spike_layer ::
    "float_ops \<Rightarrow> head_env \<Rightarrow> snn_head \<Rightarrow> snn_artifact \<Rightarrow> layer_contract \<Rightarrow> nat \<Rightarrow> (nat \<Rightarrow> u8 list)
       \<Rightarrow> (rvrt_frame list \<times> rvrt_frame) list \<Rightarrow> runner_mem \<Rightarrow> runner_mem \<Rightarrow> bool" where
  "spike_layer fo env h art k n row bs m m' \<longleftrightarrow>
     (let ws = tensor_workspace h; a = unat ws in
      \<exists>m1 m2. mem_frame (workspace h) {} m m1 \<and> chip_rows a 1536 n row (mm_bytes m1) \<and>
        layer_sample env (layer_config h art None) k ws 1536 ws 12288 1536 bs m1 m2 \<and>
        m' = m2\<lparr>mm_bytes := put_words a (map (\<lambda>v. fo_of_u32 fo (ucast v)) (take 12288 (drop a (mm_bytes m2))))
               (mm_bytes m2)\<rparr>)"

text \<open>A voltage layer: the rows on the chip, the voltages it returned scaled to floats.\<close>

definition voltage_layer ::
    "float_ops \<Rightarrow> head_env \<Rightarrow> snn_head \<Rightarrow> snn_artifact \<Rightarrow> layer_contract \<Rightarrow> u32 \<Rightarrow> u32 \<Rightarrow> u32 \<Rightarrow> u32 \<Rightarrow> nat \<Rightarrow> u32 \<Rightarrow> u32 list
       \<Rightarrow> (nat \<Rightarrow> u8 list) \<Rightarrow> (rvrt_frame list \<times> rvrt_frame) list \<Rightarrow> runner_mem \<Rightarrow> runner_mem \<Rightarrow> bool" where
  "voltage_layer fo env h art k istride acc acc_capacity acc_stride count result scale row bs m m' \<longleftrightarrow>
     (let ws = tensor_workspace h in
      \<exists>m1 m2. mem_frame (workspace h) {} m m1 \<and> chip_rows (unat ws) (unat istride) 1536 row (mm_bytes m1) \<and>
        layer_sample env (layer_config h art (Some (fc2_voltage_state h, 12288))) k ws istride acc acc_capacity acc_stride
          bs m1 m2 \<and>
        m' = m2\<lparr>mm_bytes := put_words (unat result) (dequantized fo scale (words_at (mm_bytes m2) (unat acc) count))
               (mm_bytes m2)\<rparr>)"

definition fc1_spec :: "float_ops \<Rightarrow> head_env \<Rightarrow> snn_head \<Rightarrow> u32 \<Rightarrow> (rvrt_frame list \<times> rvrt_frame) list
    \<Rightarrow> runner_mem \<Rightarrow> runner_mem \<Rightarrow> bool" where
  "fc1_spec fo env h input bs m =
     spike_layer fo env h (fc1_lif_artifact h) SNN_HEAD_FC1_LIF_CONTRACT 768
       (\<lambda>r. layer_row fo (ln1_weight h) (ln1_bias h) (fc1_activation_scale h)
              (words_at (mm_bytes m) (unat input + 4 * (r * 768)) 768)) bs m"

definition block_spec :: "float_ops \<Rightarrow> head_env \<Rightarrow> snn_head \<Rightarrow> u32 list \<Rightarrow> u32 list \<Rightarrow> u32 \<Rightarrow> snn_artifact
    \<Rightarrow> (rvrt_frame list \<times> rvrt_frame) list \<Rightarrow> runner_mem \<Rightarrow> runner_mem \<Rightarrow> bool" where
  "block_spec fo env h weight bias scale art bs m =
     spike_layer fo env h art SNN_HEAD_BLOCK_LIF_CONTRACT 1536
       (\<lambda>r. layer_row fo weight bias scale (words_at (mm_bytes m) (unat (tensor_workspace h) + 4 * (r * 1536)) 1536)) bs m"

definition fc2_spec :: "float_ops \<Rightarrow> head_env \<Rightarrow> snn_head \<Rightarrow> (rvrt_frame list \<times> rvrt_frame) list
    \<Rightarrow> runner_mem \<Rightarrow> runner_mem \<Rightarrow> bool" where
  "fc2_spec fo env h bs m =
     voltage_layer fo env h (fc2_artifact h) SNN_HEAD_FC2_CONTRACT 6144 (tensor_workspace h) 49152 6144 12288
       (tensor_workspace h) (fc2_output_scale h)
       (\<lambda>r. layer_row fo (ln2_weight h) (ln2_bias h) (fc2_activation_scale h)
              (words_at (mm_bytes m) (unat (tensor_workspace h) + 4 * (r * 1536)) 1536)) bs m"

definition fc3_spec :: "float_ops \<Rightarrow> head_env \<Rightarrow> snn_head \<Rightarrow> u32 \<Rightarrow> (rvrt_frame list \<times> rvrt_frame) list
    \<Rightarrow> runner_mem \<Rightarrow> runner_mem \<Rightarrow> bool" where
  "fc3_spec fo env h action bs m =
     voltage_layer fo env h (fc3_artifact h) SNN_HEAD_FC3_CONTRACT 1536 (fc3_acc h) 224 28 56 action (fc3_output_scale h)
       (\<lambda>r. quantized fo (fc3_activation_scale h)
              (words_at (mm_bytes m) (unat (tensor_workspace h) + 4 * (r * 1536)) 1536)) bs m"


section \<open>The layers\<close>

text \<open>What the prepared rows change.\<close>

lemma prepared_world:
  assumes "head_ready h clk w" "same_bytes (workspace h) (mm_bytes (w_mem w)) b"
  shows "head_ready h clk (with_bytes b w)" "mem_frame (workspace h) {} (w_mem w) (w_mem (with_bytes b w))"
    "length b = length (mm_bytes (w_mem w))"
  using head_ready_bytes [OF assms(1)] same_bytes_frame [OF assms(2)] assms(2) by (simp_all add: same_bytes_def)

text \<open>The two kinds of postprocessing, on the workspace.\<close>

lemma widen_post:
  assumes "head_memory h m" "length b = length (mm_bytes m)"
  shows "widen_bytes fo (unat (tensor_workspace h)) 12288 b =
      Some (put_words (unat (tensor_workspace h))
        (map (\<lambda>v. fo_of_u32 fo (ucast v)) (take 12288 (drop (unat (tensor_workspace h)) b))) b) \<and>
    same_bytes (workspace h) b (put_words (unat (tensor_workspace h))
        (map (\<lambda>v. fo_of_u32 fo (ucast v)) (take 12288 (drop (unat (tensor_workspace h)) b))) b)"
proof -
  let ?ws = "map (\<lambda>v. fo_of_u32 fo (ucast v)) (take 12288 (drop (unat (tensor_workspace h)) b))"
  have al: "unat (tensor_workspace h) mod 4 = 0" using assms(1) aligned_u32 by (simp add: head_memory_def)
  have fit: "unat (tensor_workspace h) + 49152 \<le> length b" using assms by (simp add: head_memory_def)
  then have len: "length ?ws = 12288" by simp
  then have "same_bytes (workspace h) b (put_words (unat (tensor_workspace h)) ?ws b)"
    using same_bytes_mono [OF same_bytes_put_words [of "unat (tensor_workspace h)" ?ws b]] fit by (simp add: workspace_def)
  then show ?thesis using widen_bytes_result [OF al, of 12288 b fo] fit by simp
qed

lemma dequantize_post:
  assumes "acc mod 4 = 0" "y mod 4 = 0" "length scale = unat cols" "cols \<noteq> 0"
    and "unat acc + 32 * unat cols \<le> length b" "unat y + 32 * unat cols \<le> length b"
    and "forward_safe (unat acc) (unat y) (8 * unat cols)"
  shows "rv_dequantize_s32 fo (Some acc) (Some y) 8 cols (Some scale) b =
      Some (put_words (unat y) (dequantized fo scale (words_at b (unat acc) (8 * unat cols))) b) \<and>
    same_bytes {unat y ..< unat y + 32 * unat cols} b
      (put_words (unat y) (dequantized fo scale (words_at b (unat acc) (8 * unat cols))) b)"
  using dequantize_lemma [of acc y scale cols 8 b fo] assms
    same_bytes_put_words [of "unat y" "dequantized fo scale (words_at b (unat acc) (8 * unat cols))" b]
  by (simp add: mult.assoc)

text \<open>From the prepared rows to the end of a spiking layer.\<close>

lemma spike_tail:
  assumes ready: "head_ready h clk w" "artifact_fits env art"
    and rows: "same_bytes (workspace h) (mm_bytes (w_mem w)) b" "chip_rows (unat (tensor_workspace h)) 1536 n row b"
    and k: "ct_output_kind k = RVRT_OUTPUT_DATA" "ct_output_elements k = 1536" "ct_input_entries k \<noteq> 0"
      "ct_input_entries k \<le> 1536"
    and chip: "chip_env c clk (he_sample env layer)" "chip_before c (he_sample env layer) (w_hw w)"
  shows "layer_outcome h clk (workspace h) {fc2_voltage_state h} (w_mem w) c
    (specified c (\<lambda>bs. spike_layer fo env h art k n row bs (w_mem w)))
    (do {
       artifact_ok \<leftarrow> layer_artifact_ok env art k;
       if \<not> artifact_ok then Some (False, with_bytes b w)
       else do {
         (layer_ok, w) \<leftarrow> snn_head_run_paicore_layer env layer (layer_config h art None) (tensor_workspace h) 12288 1536
           (tensor_workspace h) 12288 1536 (with_bytes b w);
         if \<not> layer_ok then Some (False, w)
         else do { w \<leftarrow> on_bytes (widen_bytes fo (unat (tensor_workspace h)) 12288) w; Some (True, w) }
       }
     })" (is "layer_outcome _ _ _ _ _ _ _ ?run")
proof -
  let ?ws = "tensor_workspace h"
  let ?wide = "\<lambda>b. put_words (unat ?ws) (map (\<lambda>v. fo_of_u32 fo (ucast v)) (take 12288 (drop (unat ?ws) b))) b"
  note w1 = prepared_world [OF ready(1) rows(1)]
  have ws: "unat ?ws + 49152 \<le> length (mm_bytes (w_mem w))" using ready(1) by (simp add: head_ready_def head_memory_def)
  have chip1: "chip_before c (he_sample env layer) (w_hw (with_bytes b w))" using chip(2) by simp
  note post = widen_post [of h "w_mem (with_bytes b w)", where fo = fo]
  have tail: "layer_outcome h clk (workspace h) {fc2_voltage_state h} (w_mem (with_bytes b w)) c
    (specified c (\<lambda>bs m'. \<exists>m. layer_sample env (layer_config h art None) k ?ws 1536 ?ws 12288 1536 bs (w_mem (with_bytes b w)) m \<and>
       mem_frame (workspace h) {fc2_voltage_state h} (w_mem (with_bytes b w)) m \<and>
       m' = m\<lparr>mm_bytes := ?wide (mm_bytes m)\<rparr>)) ?run"
  proof (rule layer_tail [OF w1(1) ready(2) _ _ _ _ _ _ _ _ _ chip(1) chip1])
    show "runner_output_row_bytes ov = Some 1536"
      if "ov_kind ov = ct_output_kind k" "ov_element_count ov = ct_output_elements k" for ov
      using that k by (simp add: runner_output_row_bytes_def)
  next
    fix m :: "u8 list" assume "length m = length (mm_bytes (w_mem (with_bytes b w)))"
    with post w1(1) show "widen_bytes fo (unat ?ws) 12288 m = Some (?wide m) \<and> same_bytes (workspace h) m (?wide m)"
      by (simp add: head_ready_def)
  next
    show "rows_fit (ct_input_entries k) 1536 12288" using k(3,4) by (simp add: rows_fit_def word_le_nat_alt)
  qed (use w1(3) ws k in \<open>auto simp: rows_fit_def workspace_def\<close>)
  show ?thesis
  proof (rule layer_outcome_mono [OF tail])
    show "mem_frame (workspace h) {fc2_voltage_state h} (w_mem w) (w_mem (with_bytes b w))"
      by (rule mem_frame_mono [OF w1(2)]) simp_all
    show "specified c (\<lambda>bs. spike_layer fo env h art k n row bs (w_mem w)) m'" if s: "specified c
      (\<lambda>bs m'. \<exists>m. layer_sample env (layer_config h art None) k ?ws 1536 ?ws 12288 1536 bs (w_mem (with_bytes b w)) m \<and>
         mem_frame (workspace h) {fc2_voltage_state h} (w_mem (with_bytes b w)) m \<and>
         m' = m\<lparr>mm_bytes := ?wide (mm_bytes m)\<rparr>) m'" for m'
      by (rule specified_mono [OF s]) (use w1(2) rows(2) in \<open>auto simp: spike_layer_def Let_def\<close>)
  qed
qed

lemmas contract_defs = SNN_HEAD_FC1_LIF_CONTRACT_def SNN_HEAD_BLOCK_LIF_CONTRACT_def SNN_HEAD_FC2_CONTRACT_def
  SNN_HEAD_FC3_CONTRACT_def

lemma block_lif_outcome:
  assumes "head_ready h clk w" "artifact_fits env art"
    and "length ln_weight = 1536" "length ln_bias = 1536"
    and "chip_env c clk (he_sample env layer)" "chip_before c (he_sample env layer) (w_hw w)"
  shows "layer_outcome h clk (workspace h) {fc2_voltage_state h} (w_mem w) c
    (specified c (\<lambda>bs. block_spec fo env h ln_weight ln_bias scale art bs (w_mem w)))
    (snn_head_run_block_lif fo env h ln_weight ln_bias layer scale art SNN_HEAD_BLOCK_LIF_CONTRACT w)"
proof -
  let ?ws = "tensor_workspace h" and ?m = "mm_bytes (w_mem w)"
  have ws: "?ws mod 4 = 0" "unat ?ws + 49152 \<le> length ?m"
    using assms(1) by (simp_all add: head_ready_def head_memory_def)
  from normalize_quantize [OF ws(1), of 1536 12288 ?m ln_weight ln_bias fo scale] ws(2) assms(3,4) obtain b1 b2 where
    prep: "rv_layernorm_f32 fo (Some ?ws) (Some ?ws) 8 1536 (Some ln_weight) (Some ln_bias) RV_LAYERNORM_DEFAULT_EPS ?m = Some b1"
      "rv_quantize_s8 fo (Some ?ws) (Some ?ws) 12288 scale b1 = Some b2" "same_bytes (workspace h) ?m b2"
      "chip_rows (unat ?ws) 1536 1536 (\<lambda>r. layer_row fo ln_weight ln_bias scale
         (words_at ?m (unat ?ws + 4 * (r * 1536)) 1536)) b2"
    by (auto simp: workspace_def)
  show ?thesis
    using spike_tail [OF assms(1,2) prep(3,4) _ _ _ _ assms(5,6), of SNN_HEAD_BLOCK_LIF_CONTRACT fo] prep(1,2)
    by (simp add: snn_head_run_block_lif_def on_bytes_run Let_def contract_defs block_spec_def)
qed

text \<open>The input of the chain and its result.\<close>

definition head_args :: "snn_head \<Rightarrow> u32 \<Rightarrow> u32 \<Rightarrow> runner_mem \<Rightarrow> bool" where
  "head_args h input action m \<longleftrightarrow>
     unat input + 24576 \<le> length (mm_bytes m) \<and> apart (unat (tensor_workspace h)) 49152 (unat input) 24576 \<and>
     action mod 4 = 0 \<and> unat action + 224 \<le> length (mm_bytes m) \<and> apart (unat (fc3_acc h)) 224 (unat action) 224"

lemma fc1_lif_outcome:
  assumes "head_ready h clk w" "artifact_fits env (fc1_lif_artifact h)" "head_tables h" "head_args h input action (w_mem w)"
    and "chip_env c clk (he_sample env SNN_HEAD_LAYER_FC1_LIF)" "chip_before c (he_sample env SNN_HEAD_LAYER_FC1_LIF) (w_hw w)"
  shows "layer_outcome h clk (workspace h) {fc2_voltage_state h} (w_mem w) c
    (specified c (\<lambda>bs. fc1_spec fo env h input bs (w_mem w)))
    (snn_head_run_fc1_lif fo env h input w)"
proof -
  let ?ws = "tensor_workspace h" and ?m = "mm_bytes (w_mem w)" and ?s = "fc1_activation_scale h"
  have ws: "?ws mod 4 = 0" "unat ?ws + 49152 \<le> length ?m" "unat input + 24576 \<le> length ?m"
    "apart (unat ?ws) 49152 (unat input) 24576"
    using assms(1,4) by (simp_all add: head_ready_def head_memory_def head_args_def)
  have far: "unat ?ws + 24576 \<le> length ?m" "apart (unat ?ws) 24576 (unat input) 24576"
    using ws(2,4) by (auto simp: apart_def)
  let ?b0 = "store_at (unat ?ws) (take 24576 (drop (unat input) ?m)) ?m"
  have copy: "memcpy_bytes (unat ?ws) (unat input) 24576 ?m = Some ?b0"
    "words_at ?b0 (unat ?ws + 4 * i) n = words_at ?m (unat input + 4 * i) n" if "i + n \<le> 6144" for i n
    using memcpy_words [OF far(1) ws(3) far(2), of i n] that by auto
  have len: "length ?b0 = length ?m" using far(1) ws(3) by simp
  have "same_bytes (workspace h) ?m ?b0"
    by (rule same_bytes_mono [OF same_bytes_store]) (use ws(2,3) in \<open>auto simp: workspace_def\<close>)
  have tables: "768 \<le> length (ln1_weight h)" "768 \<le> length (ln1_bias h)" using assms(3) by (simp_all add: head_tables_def)
  from normalize_quantize [OF ws(1), of 768 6144 ?b0 "ln1_weight h" "ln1_bias h" fo ?s] far(1) len tables obtain b1 b2 where
    prep: "rv_layernorm_f32 fo (Some ?ws) (Some ?ws) 8 768 (Some (ln1_weight h)) (Some (ln1_bias h)) RV_LAYERNORM_DEFAULT_EPS
        ?b0 = Some b1" "rv_quantize_s8 fo (Some ?ws) (Some ?ws) 6144 ?s b1 = Some b2"
      "same_bytes {unat ?ws ..< unat ?ws + 24576} ?b0 b2"
      "chip_rows (unat ?ws) 768 768 (\<lambda>r. layer_row fo (ln1_weight h) (ln1_bias h) ?s
         (words_at ?b0 (unat ?ws + 4 * (r * 768)) 768)) b2"
    by auto
  have rows: "chip_rows (unat ?ws) 768 768 (\<lambda>r. layer_row fo (ln1_weight h) (ln1_bias h) ?s
         (words_at ?m (unat input + 4 * (r * 768)) 768)) b2"
  proof -
    have "words_at ?b0 (unat ?ws + 4 * (r * 768)) 768 = words_at ?m (unat input + 4 * (r * 768)) 768" if "r < 8" for r
      using copy(2) [of "r * 768" 768] that by simp
    then show ?thesis using prep(4) by (simp add: chip_rows_iff)
  qed
  have "length b2 = length ?m" using prep(3) len by (simp add: same_bytes_def)
  from spread_chip_rows [OF rows, of 1536] this ws(2) obtain b3 where
    spread: "spread_rows (unat ?ws) 1536 768 768 8 b2 = Some b3" "same_bytes {unat ?ws ..< unat ?ws + 12288} b2 b3"
      "chip_rows (unat ?ws) 1536 768 (\<lambda>r. layer_row fo (ln1_weight h) (ln1_bias h) ?s
         (words_at ?m (unat input + 4 * (r * 768)) 768)) b3" by auto
  have frame: "same_bytes (workspace h) ?m b3"
    using \<open>same_bytes (workspace h) ?m ?b0\<close> same_bytes_mono [OF prep(3), of "workspace h"]
      same_bytes_mono [OF spread(2), of "workspace h"] by (auto simp: workspace_def intro: same_bytes_trans)
  show ?thesis
    using spike_tail [OF assms(1,2) frame spread(3) _ _ _ _ assms(5,6), of SNN_HEAD_FC1_LIF_CONTRACT fo]
      copy(1) [of 0 0] prep(1,2) spread(1)
    by (simp add: snn_head_run_fc1_lif_def on_bytes_run Let_def contract_defs fc1_spec_def)
qed


text \<open>From the prepared rows to the end of a voltage layer.\<close>

lemma voltage_tail:
  assumes ready: "head_ready h clk w" "artifact_fits env art"
    and rows: "same_bytes (workspace h) (mm_bytes (w_mem w)) b"
      "chip_rows (unat (tensor_workspace h)) (unat istride) 1536 row b"
    and k: "ct_output_kind k = RVRT_OUTPUT_VOLTAGE" "ct_output_elements k = cols" "ct_input_entries k = 1536"
      "\<not> cols > SIZE_MAX div 4" "cols \<noteq> 0" "n = 8 * unat cols"
    and fit: "rows_fit 1536 istride incap" "rows_fit (cols * 4) ostride outcap" "unat outcap = 32 * unat cols"
      "tensor_workspace h = acc \<and> istride = ostride \<or> apart (unat (tensor_workspace h)) (unat incap) (unat acc) (unat outcap)"
      "unat incap \<le> 49152" "unat acc + 32 * unat cols \<le> length (mm_bytes (w_mem w))"
    and align: "acc mod 4 = 0" "outcap mod 4 = 0" "ostride mod 4 = 0" "result mod 4 = 0"
    and out: "length scale = unat cols" "unat result + 32 * unat cols \<le> length (mm_bytes (w_mem w))"
      "forward_safe (unat acc) (unat result) (8 * unat cols)"
    and A: "workspace h \<subseteq> A" "{unat acc ..< unat acc + unat outcap} \<subseteq> A" "{unat result ..< unat result + 32 * unat cols} \<subseteq> A"
    and chip: "chip_env c clk (he_sample env layer)" "chip_before c (he_sample env layer) (w_hw w)"
  shows "layer_outcome h clk A {fc2_voltage_state h} (w_mem w) c
    (specified c (\<lambda>bs. voltage_layer fo env h art k istride acc outcap ostride n result scale row bs (w_mem w)))
    (do {
       artifact_ok \<leftarrow> layer_artifact_ok env art k;
       if \<not> artifact_ok then Some (False, with_bytes b w)
       else do {
         (layer_ok, w) \<leftarrow> snn_head_run_paicore_layer env layer (layer_config h art (Some (fc2_voltage_state h, 12288)))
           (tensor_workspace h) incap istride acc outcap ostride (with_bytes b w);
         if \<not> layer_ok then Some (False, w)
         else do { w \<leftarrow> on_bytes (rv_dequantize_s32 fo (Some acc) (Some result) 8 cols (Some scale)) w; Some (True, w) }
       }
     })" (is "layer_outcome _ _ _ _ _ _ _ ?run")
proof -
  let ?ws = "tensor_workspace h" and ?cfg = "layer_config h art (Some (fc2_voltage_state h, 12288))"
  let ?deq = "\<lambda>b. put_words (unat result) (dequantized fo scale (words_at b (unat acc) (8 * unat cols))) b"
  note w1 = prepared_world [OF ready(1) rows(1)]
  have ws: "unat ?ws + 49152 \<le> length (mm_bytes (w_mem w))" using ready(1) by (simp add: head_ready_def head_memory_def)
  have chip1: "chip_before c (he_sample env layer) (w_hw (with_bytes b w))" using chip(2) by simp
  have tail: "layer_outcome h clk A {fc2_voltage_state h} (w_mem (with_bytes b w)) c
    (specified c (\<lambda>bs m'. \<exists>m. layer_sample env ?cfg k ?ws istride acc outcap ostride bs (w_mem (with_bytes b w)) m \<and>
       mem_frame A {fc2_voltage_state h} (w_mem (with_bytes b w)) m \<and> m' = m\<lparr>mm_bytes := ?deq (mm_bytes m)\<rparr>)) ?run"
  proof (rule layer_tail [OF w1(1) ready(2) _ _ _ _ _ fit(4) _ _ _ chip(1) chip1])
    show "runner_output_row_bytes ov = Some (cols * 4)"
      if "ov_kind ov = ct_output_kind k" "ov_element_count ov = ct_output_elements k" for ov
      using that k(1,2,4) by (simp add: runner_output_row_bytes_def)
  next
    fix m :: "u8 list" assume m: "length m = length (mm_bytes (w_mem (with_bytes b w)))"
    have "rv_dequantize_s32 fo (Some acc) (Some result) 8 cols (Some scale) m = Some (?deq m) \<and>
        same_bytes {unat result ..< unat result + 32 * unat cols} m (?deq m)"
      by (rule dequantize_post) (use m w1(3) align k(5) out fit(6) in simp_all)
    with same_bytes_mono [OF _ A(3)]
    show "rv_dequantize_s32 fo (Some acc) (Some result) 8 cols (Some scale) m = Some (?deq m) \<and> same_bytes A m (?deq m)"
      by blast
  qed (use w1(3) ws k(3) fit align A(2) in auto)
  show ?thesis
  proof (rule layer_outcome_mono [OF tail])
    show "mem_frame A {fc2_voltage_state h} (w_mem w) (w_mem (with_bytes b w))"
      by (rule mem_frame_mono [OF w1(2) A(1)]) simp
    show "specified c (\<lambda>bs. voltage_layer fo env h art k istride acc outcap ostride n result scale row bs (w_mem w)) m'"
      if s: "specified c (\<lambda>bs m'. \<exists>m. layer_sample env ?cfg k ?ws istride acc outcap ostride bs (w_mem (with_bytes b w)) m \<and>
         mem_frame A {fc2_voltage_state h} (w_mem (with_bytes b w)) m \<and> m' = m\<lparr>mm_bytes := ?deq (mm_bytes m)\<rparr>) m'" for m'
      by (rule specified_mono [OF s]) (use w1(2) rows(2) k(6) in \<open>auto simp: voltage_layer_def Let_def\<close>)
  qed
qed


lemma SIZE_MAX_lanes: "SIZE_MAX div 4 = (1073741823 :: u32)"
  by code_simp

lemma fc2_outcome:
  assumes "head_ready h clk w" "artifact_fits env (fc2_artifact h)" "head_tables h"
    and "chip_env c clk (he_sample env SNN_HEAD_LAYER_FC2)" "chip_before c (he_sample env SNN_HEAD_LAYER_FC2) (w_hw w)"
  shows "layer_outcome h clk (workspace h) {fc2_voltage_state h} (w_mem w) c
    (specified c (\<lambda>bs. fc2_spec fo env h bs (w_mem w)))
    (snn_head_run_fc2 fo env h w)"
proof -
  let ?ws = "tensor_workspace h" and ?m = "mm_bytes (w_mem w)" and ?s = "fc2_activation_scale h"
  have ws: "?ws mod 4 = 0" "unat ?ws + 49152 \<le> length ?m"
    using assms(1) by (simp_all add: head_ready_def head_memory_def)
  have tables: "1536 \<le> length (ln2_weight h)" "1536 \<le> length (ln2_bias h)" "length (fc2_output_scale h) = 1536"
    using assms(3) by (simp_all add: head_tables_def)
  let ?row = "\<lambda>r. layer_row fo (ln2_weight h) (ln2_bias h) ?s (words_at ?m (unat ?ws + 4 * (r * 1536)) 1536)"
  from normalize_quantize [OF ws(1), of 1536 12288 ?m "ln2_weight h" "ln2_bias h" fo ?s] ws(2) tables obtain b1 b2 where
    prep: "rv_layernorm_f32 fo (Some ?ws) (Some ?ws) 8 1536 (Some (ln2_weight h)) (Some (ln2_bias h))
        RV_LAYERNORM_DEFAULT_EPS ?m = Some b1"
      "rv_quantize_s8 fo (Some ?ws) (Some ?ws) 12288 ?s b1 = Some b2" "same_bytes (workspace h) ?m b2"
      "chip_rows (unat ?ws) 1536 1536 ?row b2"
    by (auto simp: workspace_def)
  have "length b2 = length ?m" using prep(3) by (simp add: same_bytes_def)
  from spread_chip_rows [OF prep(4), of 6144] this ws(2) obtain b3 where
    spread: "spread_rows (unat ?ws) 6144 1536 1536 8 b2 = Some b3" "same_bytes (workspace h) b2 b3"
      "chip_rows (unat ?ws) 6144 1536 ?row b3" by (auto simp: workspace_def)
  note frame = same_bytes_trans [OF prep(3) spread(2)]
  have tail: "chip_rows (unat ?ws) (unat (6144 :: u32)) 1536 ?row b3" using spread(3) by simp
  show ?thesis
    using voltage_tail [OF assms(1,2) frame tail, where k = SNN_HEAD_FC2_CONTRACT and cols = 1536 and n = 12288
        and incap = 49152 and acc = ?ws and outcap = 49152 and ostride = 6144 and result = ?ws
        and scale = "fc2_output_scale h" and A = "workspace h" and c = c and fo = fo]
      prep(1,2) spread(1) tables ws assms(4,5)
    by (simp add: snn_head_run_fc2_def on_bytes_run Let_def contract_defs fc2_spec_def rows_fit_def forward_safe_def
        workspace_def SIZE_MAX_lanes)
qed

definition result_addrs :: "snn_head \<Rightarrow> u32 \<Rightarrow> nat set" where
  "result_addrs h action = workspace h \<union> {unat (fc3_acc h) ..< unat (fc3_acc h) + 224} \<union>
     {unat action ..< unat action + 224}"

lemma fc3_outcome:
  assumes "head_ready h clk w" "artifact_fits env (fc3_artifact h)" "head_tables h" "head_args h input action (w_mem w)"
    and "chip_env c clk (he_sample env SNN_HEAD_LAYER_FC3)" "chip_before c (he_sample env SNN_HEAD_LAYER_FC3) (w_hw w)"
  shows "layer_outcome h clk (result_addrs h action) {fc2_voltage_state h} (w_mem w) c
    (specified c (\<lambda>bs. fc3_spec fo env h action bs (w_mem w))) (snn_head_run_fc3 fo env h action w)"
proof -
  let ?ws = "tensor_workspace h" and ?m = "mm_bytes (w_mem w)" and ?s = "fc3_activation_scale h" and ?acc = "fc3_acc h"
  have ws: "?ws mod 4 = 0" "unat ?ws + 49152 \<le> length ?m" "?acc mod 4 = 0" "unat ?acc + 224 \<le> length ?m"
    "apart (unat ?ws) 49152 (unat ?acc) 224"
    using assms(1) by (simp_all add: head_ready_def head_memory_def)
  have act: "action mod 4 = 0" "unat action + 224 \<le> length ?m" "forward_safe (unat ?acc) (unat action) 56"
    using assms(4) by (auto simp: head_args_def apart_def forward_safe_def)
  have near: "apart (unat ?ws) 12288 (unat ?acc) 224" using ws(5) by (auto simp: apart_def)
  let ?row = "\<lambda>r. quantized fo ?s (words_at ?m (unat ?ws + 4 * (r * 1536)) 1536)"
  from quantize_rows [OF ws(1), of 12288 1536 ?m fo ?s] ws(2) obtain b where
    prep: "rv_quantize_s8 fo (Some ?ws) (Some ?ws) 12288 ?s ?m = Some b" "same_bytes (workspace h) ?m b"
      "chip_rows (unat ?ws) 1536 1536 ?row b" by (auto simp: workspace_def)
  have tail: "chip_rows (unat ?ws) (unat (1536 :: u32)) 1536 ?row b" using prep(3) by simp
  have tables: "length (fc3_output_scale h) = 7" using assms(3) by (simp add: head_tables_def)
  have sub: "workspace h \<subseteq> result_addrs h action" "{unat ?acc ..< unat ?acc + 224} \<subseteq> result_addrs h action"
    "{unat action ..< unat action + 224} \<subseteq> result_addrs h action" by (auto simp: result_addrs_def)
  show ?thesis
    using voltage_tail [OF assms(1,2) prep(2) tail, where k = SNN_HEAD_FC3_CONTRACT and cols = 7 and n = 56
        and incap = 12288 and acc = ?acc and outcap = 224 and ostride = 28 and result = action
        and scale = "fc3_output_scale h" and A = "result_addrs h action" and c = c and fo = fo]
      prep(1) tables ws act near assms(5,6) sub
    by (simp add: snn_head_run_fc3_def on_bytes_run Let_def contract_defs fc3_spec_def rows_fit_def
        SIZE_MAX_lanes)
qed


section \<open>The chain\<close>

text \<open>The memory after a successful chain, layer by layer, from the frames the chip returned to each.\<close>

definition chunk_spec :: "float_ops \<Rightarrow> head_env \<Rightarrow> snn_head \<Rightarrow> u32 \<Rightarrow> u32 \<Rightarrow> (rvrt_frame list \<times> rvrt_frame) list list
    \<Rightarrow> runner_mem \<Rightarrow> runner_mem \<Rightarrow> bool" where
  "chunk_spec fo env h input action bss m m' \<longleftrightarrow>
     (\<exists>m1. fc1_spec fo env h input (bss ! 0) m m1 \<and>
     (\<exists>m2. block_spec fo env h (block0_ln_weight h) (block0_ln_bias h) (block0_activation_scale h)
            (block0_lif_artifact h) (bss ! 1) m1 m2 \<and>
     (\<exists>m3. block_spec fo env h (block1_ln_weight h) (block1_ln_bias h) (block1_activation_scale h)
            (block1_lif_artifact h) (bss ! 2) m2 m3 \<and>
     (\<exists>m4. fc2_spec fo env h (bss ! 3) m3 m4 \<and> fc3_spec fo env h action (bss ! 4) m4 m'))))"

definition head_env_ok :: "head_env \<Rightarrow> u32 \<Rightarrow> snn_head \<Rightarrow> bool" where
  "head_env_ok env clk h \<longleftrightarrow> layer_env env clk SNN_HEAD_LAYER_FC1_LIF (fc1_lif_artifact h) \<and>
     layer_env env clk SNN_HEAD_LAYER_BLOCK0 (block0_lif_artifact h) \<and>
     layer_env env clk SNN_HEAD_LAYER_BLOCK1 (block1_lif_artifact h) \<and>
     layer_env env clk SNN_HEAD_LAYER_FC2 (fc2_artifact h) \<and> layer_env env clk SNN_HEAD_LAYER_FC3 (fc3_artifact h)"

text \<open>Every layer's artifact can be addressed.\<close>

definition head_artifacts :: "head_env \<Rightarrow> snn_head \<Rightarrow> bool" where
  "head_artifacts env h \<longleftrightarrow> artifact_fits env (fc1_lif_artifact h) \<and> artifact_fits env (block0_lif_artifact h) \<and>
     artifact_fits env (block1_lif_artifact h) \<and> artifact_fits env (fc2_artifact h) \<and> artifact_fits env (fc3_artifact h)"

lemma layer_outcome_wider:
  "layer_outcome h clk A B m c spec res \<Longrightarrow> A \<subseteq> A' \<Longrightarrow> layer_outcome h clk A' B m c spec res"
  using mem_frame_mono [of A B _ _ A' B] unfolding layer_outcome_def by blast

lemma head_args_frame: "mem_frame A B m m' \<Longrightarrow> head_args h input action m' = head_args h input action m"
  by (simp add: head_args_def mem_frame_def)

text \<open>What is known of the chip during each layer, where what one layer leaves is what the next one needs.\<close>

definition chips_fit :: "head_env \<Rightarrow> u32 \<Rightarrow> (snn_head_layer_id \<Rightarrow> chip) \<Rightarrow> bool" where
  "chips_fit env clk ch \<longleftrightarrow> (\<forall>l. chip_env (ch l) clk (he_sample env l)) \<and>
     (\<forall>(l, l') \<in> {(SNN_HEAD_LAYER_FC1_LIF, SNN_HEAD_LAYER_BLOCK0), (SNN_HEAD_LAYER_BLOCK0, SNN_HEAD_LAYER_BLOCK1),
         (SNN_HEAD_LAYER_BLOCK1, SNN_HEAD_LAYER_FC2), (SNN_HEAD_LAYER_FC2, SNN_HEAD_LAYER_FC3)}.
       (chip_returns (ch l') \<longrightarrow> chip_returns (ch l)) \<and>
       (\<forall>hw. chip_after (ch l) hw \<longrightarrow> chip_before (ch l') (he_sample env l') hw))"

definition chunk_chain :: "float_ops \<Rightarrow> head_env \<Rightarrow> snn_head \<Rightarrow> u32 \<Rightarrow> u32 \<Rightarrow> (snn_head_layer_id \<Rightarrow> chip) \<Rightarrow> runner_mem
    \<Rightarrow> runner_mem \<Rightarrow> bool" where
  "chunk_chain fo env h input action ch m m' \<longleftrightarrow>
     (\<exists>m1. specified (ch SNN_HEAD_LAYER_FC1_LIF) (\<lambda>bs. fc1_spec fo env h input bs m) m1 \<and>
     (\<exists>m2. specified (ch SNN_HEAD_LAYER_BLOCK0) (\<lambda>bs. block_spec fo env h (block0_ln_weight h) (block0_ln_bias h)
            (block0_activation_scale h) (block0_lif_artifact h) bs m1) m2 \<and>
     (\<exists>m3. specified (ch SNN_HEAD_LAYER_BLOCK1) (\<lambda>bs. block_spec fo env h (block1_ln_weight h) (block1_ln_bias h)
            (block1_activation_scale h) (block1_lif_artifact h) bs m2) m3 \<and>
     (\<exists>m4. specified (ch SNN_HEAD_LAYER_FC2) (\<lambda>bs. fc2_spec fo env h bs m3) m4 \<and>
        specified (ch SNN_HEAD_LAYER_FC3) (\<lambda>bs. fc3_spec fo env h action bs m4) m'))))"

lemma chain_outcome:
  assumes ready: "head_ready h clk w" "head_artifacts env h" "head_tables h" "head_args h input action (w_mem w)"
    and chips: "chips_fit env clk ch"
      "chip_before (ch SNN_HEAD_LAYER_FC1_LIF) (he_sample env SNN_HEAD_LAYER_FC1_LIF) (w_hw w)"
  shows "layer_outcome h clk (result_addrs h action) {fc2_voltage_state h} (w_mem w) (ch SNN_HEAD_LAYER_FC3)
    (chunk_chain fo env h input action ch (w_mem w)) (snn_head_run_chunk fo env h (Some input) (Some action) w)"
proof -
  let ?A = "result_addrs h action" and ?B = "{fc2_voltage_state h}"
  let ?out = "layer_outcome h clk ?A ?B"
  let ?fc2 = "\<lambda>m m4. specified (ch SNN_HEAD_LAYER_FC2) (\<lambda>bs. fc2_spec fo env h bs m) m4"
  let ?fc3 = "\<lambda>m m'. specified (ch SNN_HEAD_LAYER_FC3) (\<lambda>bs. fc3_spec fo env h action bs m) m'"
  let ?block0 = "\<lambda>m m'. specified (ch SNN_HEAD_LAYER_BLOCK0) (\<lambda>bs. block_spec fo env h (block0_ln_weight h) (block0_ln_bias h)
     (block0_activation_scale h) (block0_lif_artifact h) bs m) m'"
  let ?block1 = "\<lambda>m m'. specified (ch SNN_HEAD_LAYER_BLOCK1) (\<lambda>bs. block_spec fo env h (block1_ln_weight h) (block1_ln_bias h)
     (block1_activation_scale h) (block1_lif_artifact h) bs m) m'"
  have wide: "workspace h \<subseteq> ?A" by (auto simp: result_addrs_def)
  note art = ready(2) [unfolded head_artifacts_def]
  note tables = ready(3) [unfolded head_tables_def]
  have env: "chip_env (ch l) clk (he_sample env l)" for l using chips(1) by (simp add: chips_fit_def)
  have after: "chip_after (ch SNN_HEAD_LAYER_FC1_LIF) hw \<Longrightarrow> chip_before (ch SNN_HEAD_LAYER_BLOCK0) (he_sample env SNN_HEAD_LAYER_BLOCK0) hw"
    "chip_after (ch SNN_HEAD_LAYER_BLOCK0) hw \<Longrightarrow> chip_before (ch SNN_HEAD_LAYER_BLOCK1) (he_sample env SNN_HEAD_LAYER_BLOCK1) hw"
    "chip_after (ch SNN_HEAD_LAYER_BLOCK1) hw \<Longrightarrow> chip_before (ch SNN_HEAD_LAYER_FC2) (he_sample env SNN_HEAD_LAYER_FC2) hw"
    "chip_after (ch SNN_HEAD_LAYER_FC2) hw \<Longrightarrow> chip_before (ch SNN_HEAD_LAYER_FC3) (he_sample env SNN_HEAD_LAYER_FC3) hw" for hw
    using chips(1) by (simp_all add: chips_fit_def)
  have sooner: "chip_returns (ch SNN_HEAD_LAYER_FC3) \<longrightarrow> chip_returns (ch SNN_HEAD_LAYER_FC1_LIF)"
    "chip_returns (ch SNN_HEAD_LAYER_FC3) \<longrightarrow> chip_returns (ch SNN_HEAD_LAYER_BLOCK0)"
    "chip_returns (ch SNN_HEAD_LAYER_FC3) \<longrightarrow> chip_returns (ch SNN_HEAD_LAYER_BLOCK1)"
    "chip_returns (ch SNN_HEAD_LAYER_FC3) \<longrightarrow> chip_returns (ch SNN_HEAD_LAYER_FC2)"
    using chips(1) by (simp_all add: chips_fit_def)
  have args: "head_args h input action (w_mem v)" if "mem_frame ?A ?B (w_mem u) (w_mem v)" "head_args h input action (w_mem u)"
    for u v :: rworld using head_args_frame [OF that(1)] that(2) by simp
  have fc3: "?out (w_mem v) (ch SNN_HEAD_LAYER_FC3) (?fc3 (w_mem v)) (snn_head_run_fc3 fo env h action v)"
    if "head_ready h clk v" "chip_after (ch SNN_HEAD_LAYER_FC2) (w_hw v)" "head_args h input action (w_mem v)" for v
    by (rule fc3_outcome [OF that(1) _ ready(3) that(3) env after(4) [OF that(2)]]) (use art in simp)
  have fc2: "?out (w_mem v) (ch SNN_HEAD_LAYER_FC2) (?fc2 (w_mem v)) (snn_head_run_fc2 fo env h v)"
    if "head_ready h clk v" "chip_after (ch SNN_HEAD_LAYER_BLOCK1) (w_hw v)" for v
    by (rule layer_outcome_wider [OF fc2_outcome [OF that(1) _ ready(3) env after(3) [OF that(2)]] wide]) (use art in simp)
  have block: "?out (w_mem v) (ch l) (specified (ch l) (\<lambda>bs. block_spec fo env h g b s art bs (w_mem v)))
      (snn_head_run_block_lif fo env h g b l s art SNN_HEAD_BLOCK_LIF_CONTRACT v)"
    if "head_ready h clk v" "artifact_fits env art" "length g = 1536" "length b = 1536" "chip_before (ch l) (he_sample env l) (w_hw v)"
    for v g b s art l
    by (rule layer_outcome_wider [OF block_lif_outcome [OF that(1-4) env that(5)] wide])
  have fc1: "?out (w_mem w) (ch SNN_HEAD_LAYER_FC1_LIF)
      (specified (ch SNN_HEAD_LAYER_FC1_LIF) (\<lambda>bs. fc1_spec fo env h input bs (w_mem w))) (snn_head_run_fc1_lif fo env h input w)"
    by (rule layer_outcome_wider [OF fc1_lif_outcome [OF ready(1) _ ready(3,4) env chips(2)] wide]) (use art in simp)
  have from_fc2: "?out (w_mem v) (ch SNN_HEAD_LAYER_FC3) (\<lambda>m'. \<exists>m4. ?fc2 (w_mem v) m4 \<and> ?fc3 m4 m')
      (and_then (snn_head_run_fc2 fo env h v) (\<lambda>w. snn_head_run_fc3 fo env h action w))"
    if "head_ready h clk v" "chip_after (ch SNN_HEAD_LAYER_BLOCK1) (w_hw v)" "head_args h input action (w_mem v)" for v
    by (rule layer_outcome_then [OF fc2 [OF that(1,2)] sooner(4)]) (rule fc3 [OF _ _ args [OF _ that(3)]], assumption+)
  have from_block1: "?out (w_mem v) (ch SNN_HEAD_LAYER_FC3)
      (\<lambda>m'. \<exists>m3. ?block1 (w_mem v) m3 \<and> (\<exists>m4. ?fc2 m3 m4 \<and> ?fc3 m4 m'))
      (and_then (snn_head_run_block_lif fo env h (block1_ln_weight h) (block1_ln_bias h) SNN_HEAD_LAYER_BLOCK1
          (block1_activation_scale h) (block1_lif_artifact h) SNN_HEAD_BLOCK_LIF_CONTRACT v) (\<lambda>w.
        and_then (snn_head_run_fc2 fo env h w) (\<lambda>w. snn_head_run_fc3 fo env h action w)))"
    if "head_ready h clk v" "chip_after (ch SNN_HEAD_LAYER_BLOCK0) (w_hw v)" "head_args h input action (w_mem v)" for v
    by (rule layer_outcome_then [OF block [OF that(1) _ _ _ after(2) [OF that(2)]] sooner(3)])
      (use art in simp, use tables in simp, use tables in simp, rule from_fc2 [OF _ _ args [OF _ that(3)]], assumption+)
  have from_block0: "?out (w_mem v) (ch SNN_HEAD_LAYER_FC3)
      (\<lambda>m'. \<exists>m2. ?block0 (w_mem v) m2 \<and> (\<exists>m3. ?block1 m2 m3 \<and> (\<exists>m4. ?fc2 m3 m4 \<and> ?fc3 m4 m')))
      (and_then (snn_head_run_block_lif fo env h (block0_ln_weight h) (block0_ln_bias h) SNN_HEAD_LAYER_BLOCK0
          (block0_activation_scale h) (block0_lif_artifact h) SNN_HEAD_BLOCK_LIF_CONTRACT v) (\<lambda>w.
       and_then (snn_head_run_block_lif fo env h (block1_ln_weight h) (block1_ln_bias h) SNN_HEAD_LAYER_BLOCK1
          (block1_activation_scale h) (block1_lif_artifact h) SNN_HEAD_BLOCK_LIF_CONTRACT w) (\<lambda>w.
        and_then (snn_head_run_fc2 fo env h w) (\<lambda>w. snn_head_run_fc3 fo env h action w))))"
    if "head_ready h clk v" "chip_after (ch SNN_HEAD_LAYER_FC1_LIF) (w_hw v)" "head_args h input action (w_mem v)" for v
    by (rule layer_outcome_then [OF block [OF that(1) _ _ _ after(1) [OF that(2)]] sooner(2)])
      (use art in simp, use tables in simp, use tables in simp, rule from_block1 [OF _ _ args [OF _ that(3)]], assumption+)
  show ?thesis
    unfolding snn_head_run_chunk_def chunk_chain_def [abs_def] option.case prod.case
    by (rule layer_outcome_then [OF fc1 sooner(1)]) (rule from_block0 [OF _ _ args [OF _ ready(4)]], assumption+)
qed

text \<open>A chip that answers every layer.\<close>

lemma head_env_artifacts: "head_env_ok env clk h \<Longrightarrow> head_artifacts env h"
  by (simp add: head_env_ok_def head_artifacts_def layer_env_def)

lemma chunk_lemma:
  assumes ready: "head_ready h clk w" "head_env_ok env clk h" "head_tables h" "head_args h input action (w_mem w)"
    and up: "hw_up (w_hw w) = concat (map script_words [b0, b1, b2, b3, b4]) @ rest"
      "layer_answers b0" "layer_answers b1" "layer_answers b2" "layer_answers b3" "layer_answers b4"
  shows "\<exists>ok w'. snn_head_run_chunk fo env h (Some input) (Some action) w = Some (ok, w') \<and>
    (ok \<longrightarrow> hw_up (w_hw w') = rest \<and> chunk_spec fo env h input action [b0, b1, b2, b3, b4] (w_mem w) (w_mem w'))"
proof -
  let ?ch = "\<lambda>l. case l of
      SNN_HEAD_LAYER_FC1_LIF \<Rightarrow> Answering b0 (script_words b1 @ script_words b2 @ script_words b3 @ script_words b4 @ rest)
    | SNN_HEAD_LAYER_BLOCK0 \<Rightarrow> Answering b1 (script_words b2 @ script_words b3 @ script_words b4 @ rest)
    | SNN_HEAD_LAYER_BLOCK1 \<Rightarrow> Answering b2 (script_words b3 @ script_words b4 @ rest)
    | SNN_HEAD_LAYER_FC2 \<Rightarrow> Answering b3 (script_words b4 @ rest)
    | SNN_HEAD_LAYER_FC3 \<Rightarrow> Answering b4 rest"
  have "chip_env (?ch l) clk (he_sample env l)" for l
    using ready(2) up(2-6) by (cases l) (simp_all add: head_env_ok_def layer_env_def)
  then have fit: "chips_fit env clk ?ch" by (simp add: chips_fit_def)
  have "chip_before (?ch SNN_HEAD_LAYER_FC1_LIF) (he_sample env SNN_HEAD_LAYER_FC1_LIF) (w_hw w)" using up(1) by simp
  from chain_outcome [OF ready(1) head_env_artifacts [OF ready(2)] ready(3,4) fit this, of fo]
  have out: "layer_outcome h clk (result_addrs h action) {fc2_voltage_state h} (w_mem w) (Answering b4 rest)
      (chunk_chain fo env h input action ?ch (w_mem w)) (snn_head_run_chunk fo env h (Some input) (Some action) w)" by simp
  have idx: "[b0, b1, b2, b3, b4] ! 0 = b0" "[b0, b1, b2, b3, b4] ! 1 = b1" "[b0, b1, b2, b3, b4] ! 2 = b2"
    "[b0, b1, b2, b3, b4] ! 3 = b3" "[b0, b1, b2, b3, b4] ! 4 = b4" by simp_all
  have "chunk_spec fo env h input action [b0, b1, b2, b3, b4] (w_mem w) m"
    if "chunk_chain fo env h input action ?ch (w_mem w) m" for m
    using that unfolding chunk_spec_def idx by (simp add: chunk_chain_def)
  with out show ?thesis unfolding layer_outcome_def by fastforce
qed

text \<open>The barriers the chip has to complete so that no service routine of the chain waits in vain.\<close>

definition head_noise :: "head_env \<Rightarrow> nat" where
  "head_noise env = layer_noise (he_sample env SNN_HEAD_LAYER_FC1_LIF) + (layer_noise (he_sample env SNN_HEAD_LAYER_BLOCK0) +
     (layer_noise (he_sample env SNN_HEAD_LAYER_BLOCK1) + (layer_noise (he_sample env SNN_HEAD_LAYER_FC2) +
      (layer_noise (he_sample env SNN_HEAD_LAYER_FC3) + 0))))"

lemma chunk_returns:
  assumes ready: "head_ready h clk w" "head_artifacts env h" "head_tables h" "head_args h input action (w_mem w)"
    and ends: "\<forall>l. sample_ends clk 2000 (he_sample env l)" "stocked (head_noise env) (w_hw w)"
  shows "\<exists>ok w'. snn_head_run_chunk fo env h (Some input) (Some action) w = Some (ok, w')"
proof -
  let ?n = "\<lambda>l. layer_noise (he_sample env l)"
  let ?ch = "\<lambda>l. Ending (case l of
      SNN_HEAD_LAYER_FC1_LIF \<Rightarrow> ?n SNN_HEAD_LAYER_BLOCK0 + (?n SNN_HEAD_LAYER_BLOCK1 + (?n SNN_HEAD_LAYER_FC2 + (?n SNN_HEAD_LAYER_FC3 + 0)))
    | SNN_HEAD_LAYER_BLOCK0 \<Rightarrow> ?n SNN_HEAD_LAYER_BLOCK1 + (?n SNN_HEAD_LAYER_FC2 + (?n SNN_HEAD_LAYER_FC3 + 0))
    | SNN_HEAD_LAYER_BLOCK1 \<Rightarrow> ?n SNN_HEAD_LAYER_FC2 + (?n SNN_HEAD_LAYER_FC3 + 0)
    | SNN_HEAD_LAYER_FC2 \<Rightarrow> ?n SNN_HEAD_LAYER_FC3 + 0
    | SNN_HEAD_LAYER_FC3 \<Rightarrow> 0)"
  have fit: "chips_fit env clk ?ch" using ends(1) by (simp add: chips_fit_def)
  have "chip_before (?ch SNN_HEAD_LAYER_FC1_LIF) (he_sample env SNN_HEAD_LAYER_FC1_LIF) (w_hw w)"
    using ends(2) by (simp add: head_noise_def)
  from chain_outcome [OF ready fit this, of fo] show ?thesis unfolding layer_outcome_def by fastforce
qed

lemma chunk_any:
  assumes "head_ready h clk w" "head_artifacts env h" "head_tables h" "head_args h input action (w_mem w)"
    and "snn_head_run_chunk fo env h (Some input) (Some action) w = Some (ok, w')"
  shows "unclaimed w'" "mem_frame (result_addrs h action) {fc2_voltage_state h} (w_mem w) (w_mem w')"
proof -
  have "chips_fit env clk (\<lambda>_. Arbitrary)" by (simp add: chips_fit_def)
  from chain_outcome [OF assms(1-4) this, of fo] assms(5)
  show "unclaimed w'" "mem_frame (result_addrs h action) {fc2_voltage_state h} (w_mem w) (w_mem w')"
    unfolding layer_outcome_def by simp_all
qed


text \<open>C3.  A run of the SNN head always returns, and when it returns true, the memory is the one the layers
  specify, one after the other: each put the quantised (and, before fc3, normalised) rows of its input
  on the chip, ran one sample there, and widened or scaled what the chip returned; the action holds the
  scaled accumulators of fc3.\<close>

theorem snn_chunk_refines_layers:
  assumes "head_ready h clk w" "head_env_ok env clk h" "head_tables h" "head_args h input action (w_mem w)"
    and "hw_up (w_hw w) = concat (map script_words [b0, b1, b2, b3, b4]) @ rest"
      "layer_answers b0" "layer_answers b1" "layer_answers b2" "layer_answers b3" "layer_answers b4"
  shows "\<exists>ok w'. snn_head_run_chunk fo env h (Some input) (Some action) w = Some (ok, w') \<and>
    (ok \<longrightarrow> hw_up (w_hw w') = rest \<and> chunk_spec fo env h input action [b0, b1, b2, b3, b4] (w_mem w) (w_mem w'))"
  by (rule chunk_lemma [OF assms])

text \<open>C20.  Whatever fails, and wherever the chain stops, afterwards nobody owns the chip, every session is
  cleared, and the memory is unchanged outside the workspace, the accumulator of fc3, the action and the
  lane state: the next run starts from the same situation.  Nothing is assumed of the chip, of the
  interrupts or of the cycle counter, so the run may end with a refused artifact, a timeout in the
  middle of a layer, a frame that the receive handler rejects, or a complete chain.  And a run does
  return when every wait passes its limit at some poll and the uplink holds one complete barrier for
  every wait in which the interrupt may strike; with a dead chip that is no barrier at all.\<close>

theorem snn_chunk_frees_chip:
  assumes "head_ready h clk w" "head_artifacts env h" "head_tables h" "head_args h input action (w_mem w)"
  shows "(\<forall>ok w'. snn_head_run_chunk fo env h (Some input) (Some action) w = Some (ok, w') \<longrightarrow>
      unclaimed w' \<and> head_memory h (w_mem w') \<and>
      mem_frame (result_addrs h action) {fc2_voltage_state h} (w_mem w) (w_mem w')) \<and>
    ((\<forall>l. sample_ends clk 2000 (he_sample env l)) \<longrightarrow> stocked (head_noise env) (w_hw w) \<longrightarrow>
      (\<exists>ok w'. snn_head_run_chunk fo env h (Some input) (Some action) w = Some (ok, w')))"
proof (intro conjI allI impI)
  fix ok w' assume run: "snn_head_run_chunk fo env h (Some input) (Some action) w = Some (ok, w')"
  note any = chunk_any [OF assms run]
  show "unclaimed w'" "mem_frame (result_addrs h action) {fc2_voltage_state h} (w_mem w) (w_mem w')" by (rule any)+
  show "head_memory h (w_mem w')" using head_memory_frame [OF any(2)] assms(1) by (simp add: head_ready_def)
qed (rule chunk_returns [OF assms])

text \<open>A head whose layers share the small artifact, in 200000 bytes of memory.\<close>

definition demo_head_artifact :: snn_artifact where
  "demo_head_artifact = \<lparr>sa_start = Some (0, [7]), sa_size_symbol = 1\<rparr>"

definition demo_table :: "nat \<Rightarrow> u32 list" where
  "demo_table n = replicate n F32_ONE"

definition demo_head :: snn_head where
  "demo_head = \<lparr>tensor_workspace = 0, fc3_acc = 80000, layer_frame_buf = 0, fc2_voltage_state = 1,
     ln1_weight = demo_table 768, ln1_bias = demo_table 768, fc1_activation_scale = F32_ONE,
     block0_ln_weight = demo_table 1536, block0_ln_bias = demo_table 1536, block0_activation_scale = F32_ONE,
     block1_ln_weight = demo_table 1536, block1_ln_bias = demo_table 1536, block1_activation_scale = F32_ONE,
     ln2_weight = demo_table 1536, ln2_bias = demo_table 1536, fc2_activation_scale = F32_ONE,
     fc2_output_scale = demo_table 1536, fc3_activation_scale = F32_ONE, fc3_output_scale = demo_table 7,
     fc1_lif_artifact = demo_head_artifact, block0_lif_artifact = demo_head_artifact,
     block1_lif_artifact = demo_head_artifact, fc2_artifact = demo_head_artifact, fc3_artifact = demo_head_artifact\<rparr>"

definition demo_head_env :: head_env where
  "demo_head_env = \<lparr>he_verify = (\<lambda>_ _. True), he_get_root = (\<lambda>_. demo_stream_root), he_runner = (\<lambda>_. 0),
     he_register = (\<lambda>_. 0), he_rounds = 5, he_sample = (\<lambda>_. demo_sample_env)\<rparr>"

definition demo_answers :: "(rvrt_frame list \<times> rvrt_frame) list" where
  "demo_answers = [([], demo_complete), ([], demo_complete), ([], demo_complete), ([], demo_complete), ([], demo_complete),
     ([], demo_complete), ([], demo_complete), ([], demo_complete), ([], demo_complete)]"

definition demo_bytes :: "nat \<Rightarrow> u8 list" where
  "demo_bytes n = replicate n 0"

definition demo_lanes :: "nat \<Rightarrow> u8 list" where
  "demo_lanes n = replicate n 0"

definition demo_frames :: "nat \<Rightarrow> rvrt_frame list" where
  "demo_frames n = replicate n zero_frame"

definition demo_head_world :: rworld where
  "demo_head_world =
     \<lparr>w_hw = \<lparr>hw_down = [], hw_up = concat (map script_words [demo_answers, demo_answers, demo_answers, demo_answers,
        demo_answers]), hw_pending = 0, hw_irq_enable = 0, hw_mstatus = 8\<rparr>,
      w_active = None, w_session = (\<lambda>_. zero_session), w_buf = (\<lambda>_. demo_frames 256),
      w_mem = \<lparr>mm_bytes = demo_bytes 200000, mm_state = (\<lambda>_. demo_lanes 12288)\<rparr>, w_clock = 16000000\<rparr>"

lemma length_demo [simp]: "length (demo_table n) = n" "length (demo_bytes n) = n" "length (demo_lanes n) = n"
  "length (demo_frames n) = n"
  by (simp_all add: demo_table_def demo_bytes_def demo_lanes_def demo_frames_def)

lemma demo_answers_complete: "layer_answers demo_answers"
  by (simp add: layer_answers_def demo_answers_def barrier_frames_def demo_complete_def rvrt_frame_is_complete_def)

lemma demo_layer_env: "layer_env demo_head_env 16000000 layer demo_head_artifact"
proof -
  have "env_ok 16000000 2000 demo_env"
    unfolding env_ok_def
    by (rule exI [of _ "[hd (we_polls demo_env)]"], rule exI [of _ "we_polls demo_env ! 1"])
      (simp add: demo_env_def)
  moreover have "artifact_fits demo_head_env demo_head_artifact"
  proof -
    have "\<exists>c. rvrt_artifact_thread_root_core_offset (Some (artifact_of demo_stream_root)) 0 (Some zero_core_offset) =
        (RVRT_ARTIFACT_OK, Some c) \<and> dest_ok c zero_copy_count"
      by (simp add: rvrt_artifact_thread_root_core_offset_def thread_at_def vector_at_def demo_stream_root_def demo_defs
          fill_core_offset_def dest_ok_def sm6_range_def zero_copy_count_def)
    then have "root_ok (artifact_of demo_stream_root) 0" by (auto simp: root_ok_def)
    then show ?thesis
      by (simp add: artifact_fits_def demo_head_artifact_def demo_head_env_def rvrt_artifact_get_input_mapping_view_def
          input_at_def thread_at_def vector_at_def demo_stream_root_def demo_defs copy_shape_def)
  qed
  ultimately show ?thesis
    by (simp add: layer_env_def env_prompt_def demo_head_env_def demo_sample_env_def)
qed

lemma demo_head_ok:
  "head_ready demo_head 16000000 demo_head_world" "head_env_ok demo_head_env 16000000 demo_head" "head_tables demo_head"
  "head_args demo_head 100000 160000 (w_mem demo_head_world)"
  "hw_up (w_hw demo_head_world) =
     concat (map script_words [demo_answers, demo_answers, demo_answers, demo_answers, demo_answers]) @ []"
proof -
  show "head_ready demo_head 16000000 demo_head_world"
    by (simp add: head_ready_def unclaimed_def head_memory_def demo_head_def demo_head_world_def apart_def)
  show "head_env_ok demo_head_env 16000000 demo_head"
    using demo_layer_env by (simp add: head_env_ok_def demo_head_def)
  show "head_tables demo_head" by (simp add: head_tables_def demo_head_def)
  show "head_args demo_head 100000 160000 (w_mem demo_head_world)"
    by (simp add: head_args_def demo_head_def demo_head_world_def apart_def)
qed (simp add: demo_head_world_def)

theorem snn_chunk_refines_layers_witness:
  "\<exists>ok w'. snn_head_run_chunk demo_floats demo_head_env demo_head (Some 100000) (Some 160000) demo_head_world = Some (ok, w') \<and>
     (ok \<longrightarrow> hw_up (w_hw w') = [])"
  using snn_chunk_refines_layers [OF demo_head_ok demo_answers_complete demo_answers_complete demo_answers_complete
      demo_answers_complete demo_answers_complete] by blast

text \<open>The same head on a dead chip.\<close>

definition demo_dead_env :: head_env where
  "demo_dead_env = demo_head_env\<lparr>he_sample := (\<lambda>_.
     \<lparr>sv_reset = \<lparr>we_start = 0, we_polls = [\<lparr>wp_irq = False, wp_cycle = 40000000, wp_irq_late = False\<rparr>]\<rparr>,
      sv_sync = (\<lambda>_. \<lparr>we_start = 0, we_polls = [\<lparr>wp_irq = False, wp_cycle = 40000000, wp_irq_late = False\<rparr>]\<rparr>)\<rparr>)\<rparr>"

theorem snn_chunk_frees_chip_witness:
  "\<exists>ok w'. snn_head_run_chunk demo_floats demo_dead_env demo_head (Some 100000) (Some 160000) demo_head_world = Some (ok, w') \<and>
     w_active w' = None \<and> mm_bytes (w_mem w') ! 100000 = mm_bytes (w_mem demo_head_world) ! 100000"
proof -
  have same: "he_get_root demo_dead_env = he_get_root demo_head_env" "he_rounds demo_dead_env = he_rounds demo_head_env"
    by (simp_all add: demo_dead_env_def)
  have "artifact_fits demo_dead_env art = artifact_fits demo_head_env art" for art
    unfolding artifact_fits_def same ..
  then have art: "head_artifacts demo_dead_env demo_head"
    using head_env_artifacts [OF demo_head_ok(2)] by (simp add: head_artifacts_def)
  have ends: "\<forall>l. sample_ends 16000000 2000 (he_sample demo_dead_env l)"
    by (simp add: sample_ends_def wait_ends_def demo_dead_env_def)
  have "layer_noise (he_sample demo_dead_env l) = 0" for l
    by (simp add: layer_noise_def demo_dead_env_def noisy_waits_def filter_map o_def noisy_def silent_poll_def)
  then have stock: "stocked (head_noise demo_dead_env) (w_hw demo_head_world)" by (simp add: head_noise_def stocked_0)
  note safe = snn_chunk_frees_chip [OF demo_head_ok(1) art demo_head_ok(3,4), of demo_floats]
  from safe ends stock obtain ok w' where
    r: "snn_head_run_chunk demo_floats demo_dead_env demo_head (Some 100000) (Some 160000) demo_head_world = Some (ok, w')"
    by blast
  with safe have w': "unclaimed w'"
    "mem_frame (result_addrs demo_head 160000) {fc2_voltage_state demo_head} (w_mem demo_head_world) (w_mem w')" by blast+
  have "100000 \<notin> result_addrs demo_head 160000" "length (mm_bytes (w_mem demo_head_world)) = 200000"
    by (simp_all add: result_addrs_def workspace_def demo_head_def demo_head_world_def)
  with w'(2) have "mm_bytes (w_mem w') ! 100000 = mm_bytes (w_mem demo_head_world) ! 100000"
    unfolding mem_frame_def by simp
  with r w'(1) show ?thesis by (auto simp: unclaimed_def)
qed

end
