(* ===== verification/SnnBoard.thy ===== *)
theory SnnBoard
  imports SnnService SnnHead_Chain
begin

text \<open>
  The SNN Head board: the service of \<open>main.c\<close> running the layers of \<open>snn_head.c\<close>.  The buffers of
  \<open>main.c\<close> are regions of the memory the layers work on; the state the service passes along is the world.
\<close>

definition board_chain :: "float_ops \<Rightarrow> head_env \<Rightarrow> snn_head \<Rightarrow> u32 \<Rightarrow> u32 \<Rightarrow> rworld \<Rightarrow> u32 list \<Rightarrow> u32 list
    \<Rightarrow> bool \<times> u32 list \<times> rworld" where
  "board_chain fo env h input_buffer action_buffer w input action =
     (let bytes = put_words (unat action_buffer) action (put_words (unat input_buffer) input (mm_bytes (w_mem w)));
          w = with_bytes bytes w
      in case snn_head_run_chunk fo env h (Some input_buffer) (Some action_buffer) w of
           None \<Rightarrow> (False, action, w)
         | Some (success, w) \<Rightarrow> (success, words_at (mm_bytes (w_mem w)) (unat action_buffer) 56, w))"

text \<open>\<open>main\<close> without banner: the start, and one round of its loop, which ignores the status.\<close>

abbreviation SNN_HEAD_UART_IO_TIMEOUT_MS :: u32 where "SNN_HEAD_UART_IO_TIMEOUT_MS \<equiv> 1000"
abbreviation SOC_DEBUG_UART_BAUDRATE :: u32 where "SOC_DEBUG_UART_BAUDRATE \<equiv> 3000000"

definition snn_head_main_start :: "u32 \<Rightarrow> uart_dev \<Rightarrow> uart_dev option" where
  "snn_head_main_start SystemCoreClock d = do {
     (_, d) \<leftarrow> uart_init SystemCoreClock (Some d) SOC_DEBUG_UART_BAUDRATE;
     d
   }"

definition snn_head_main_round ::
    "nat \<Rightarrow> u32 \<Rightarrow> ('i \<Rightarrow> u32 list \<Rightarrow> u32 list \<Rightarrow> bool \<times> u32 list \<times> 'i) \<Rightarrow> 'i uart_bufs \<Rightarrow> uart_dev
       \<Rightarrow> (uart_result \<times> 'i uart_bufs \<times> uart_dev) option" where
  "snn_head_main_round rounds SystemCoreClock chain b d = do {
     (status, b, d) \<leftarrow> snn_head_uart_process_one rounds (Some (snn_head_io SystemCoreClock)) (Some b)
       (Some (run_complete_chain chain)) SNN_HEAD_UART_IO_TIMEOUT_MS d;
     Some (status, the b, d)
   }"

text \<open>The start touches neither what arrives nor what was sent.\<close>

lemma main_start_line:
  "\<exists>d'. snn_head_main_start SystemCoreClock d = Some d' \<and> arrivals d' = arrivals d \<and> ud_sent d' = ud_sent d \<and>
     uart_timely SystemCoreClock t lo hi d' = uart_timely SystemCoreClock t lo hi d"
  by (simp add: snn_head_main_start_def uart_init_def arrivals_def uart_timely_def)

text \<open>The tensors are where the layers expect them.\<close>

lemma words_at_put_apart:
  assumes "a + 4 * length ws \<le> length mem" "b + 4 * n \<le> length mem" "apart b (4 * n) a (4 * length ws)"
  shows "words_at (put_words a ws mem) b n = words_at mem b n"
  using assms unfolding put_words_def apart_def by (intro words_at_off) auto

lemma board_memory:
  assumes "head_args h input action (w_mem w)" "apart (unat input) 24576 (unat action) 224"
    and "length xs = 6144" "length acts = 56" "head_ready h clk w"
  defines "bytes \<equiv> put_words (unat action) acts (put_words (unat input) xs (mm_bytes (w_mem w)))"
  shows "head_ready h clk (with_bytes bytes w)" "head_args h input action (w_mem (with_bytes bytes w))"
    "words_at bytes (unat input) 6144 = xs" "length bytes = length (mm_bytes (w_mem w))"
proof -
  have fit: "unat input + 24576 \<le> length (mm_bytes (w_mem w))" "unat action + 224 \<le> length (mm_bytes (w_mem w))"
    using assms(1) by (simp_all add: head_args_def)
  then show len: "length bytes = length (mm_bytes (w_mem w))" by (simp add: bytes_def assms(3,4))
  with assms(1) show "head_args h input action (w_mem (with_bytes bytes w))" by (simp add: head_args_def)
  show "head_ready h clk (with_bytes bytes w)" using head_ready_bytes [OF assms(5) len] .
  have "words_at bytes (unat input) 6144 = words_at (put_words (unat input) xs (mm_bytes (w_mem w))) (unat input) 6144"
    unfolding bytes_def using fit assms(2-4) by (intro words_at_put_apart) simp_all
  also have "\<dots> = xs" using words_at_put_words [of "unat input" xs "mm_bytes (w_mem w)"] fit assms(3) by simp
  finally show "words_at bytes (unat input) 6144 = xs" .
qed

text \<open>The world the layers start from: the received tensor in the input buffer, and in the action buffer what
  the last request left there.\<close>

definition board_start :: "u32 \<Rightarrow> u32 \<Rightarrow> u32 list \<Rightarrow> rworld uart_bufs \<Rightarrow> rworld" where
  "board_start input action xs b =
     with_bytes (put_words (unat action) (ub_action b) (put_words (unat input) xs (mm_bytes (w_mem (ub_infer b))))) (ub_infer b)"

text \<open>C19.  The board, from the wire to the chip and back: a well-formed request, also behind noise, is
  acknowledged, and the five layers run on the tensor it carried, which is in the input buffer when they
  start.  The answer is decided by that very run: if it returned true and the action it left in memory is
  finite, the board answers with the result frame that carries exactly this action, and the memory is
  the one the layers specify; otherwise, and only then, with the error frame.\<close>

theorem board_answers_request:
  assumes "uart_timely SystemCoreClock 1000 lo hi d" "length (arrivals d) < rounds" "SystemCoreClock \<noteq> 0"
    and "length (ub_input b) = 24576" "length (ub_wire b) = 224" "length (ub_action b) = 56"
    and "arrivals d = noise @ request seq payload @ after"
    and "\<forall>k < length noise. take 4 (drop k (arrivals d)) \<noteq> uart_magic"
    and "length payload = 24576" "list_all isfinite32 (floats_of payload SNN_HEAD_INPUT_FLOAT_COUNT)"
    and "head_ready h clk (ub_infer b)" "head_env_ok env clk h" "head_tables h"
    and "head_args h input action (w_mem (ub_infer b))" "apart (unat input) 24576 (unat action) 224"
    and "hw_up (w_hw (ub_infer b)) = concat (map script_words [b0, b1, b2, b3, b4]) @ rest"
    and "layer_answers b0" "layer_answers b1" "layer_answers b2" "layer_answers b3" "layer_answers b4"
    and "w0 = board_start input action (floats_of payload SNN_HEAD_INPUT_FLOAT_COUNT) b"
  shows "\<exists>ok w' b' d' st d0. snn_head_main_start SystemCoreClock d = Some d0 \<and>
    words_at (mm_bytes (w_mem w0)) (unat input) 6144 = floats_of payload SNN_HEAD_INPUT_FLOAT_COUNT \<and>
    snn_head_run_chunk fo env h (Some input) (Some action) w0 = Some (ok, w') \<and>
    (ok \<longrightarrow> chunk_spec fo env h input action [b0, b1, b2, b3, b4] (w_mem w0) (w_mem w')) \<and>
    snn_head_main_round rounds SystemCoreClock (board_chain fo env h input action) b d0 = Some (st, b', d') \<and>
    (if ok \<and> list_all isfinite32 (words_at (mm_bytes (w_mem w')) (unat action) 56)
     then st = SNN_HEAD_UART_OK \<and> ud_sent d' = ud_sent d @ ack_frame seq @
       result_frame seq (words_at (mm_bytes (w_mem w')) (unat action) 56) 0 SystemCoreClock
     else st = SNN_HEAD_UART_ERR_INFERENCE \<and> ud_sent d' = ud_sent d @ ack_frame seq @
       error_frame seq SNN_HEAD_UART_STATUS_INFERENCE_FAILED)"
proof -
  from main_start_line [of SystemCoreClock d 1000 lo hi] obtain d0 where start: "snn_head_main_start SystemCoreClock d = Some d0"
    "arrivals d0 = arrivals d" "ud_sent d0 = ud_sent d" "uart_timely SystemCoreClock 1000 lo hi d0" using assms(1) by auto
  let ?xs = "floats_of payload SNN_HEAD_INPUT_FLOAT_COUNT" and ?w = "ub_infer b" and ?acts = "ub_action b"
  let ?bytes = "put_words (unat action) ?acts (put_words (unat input) ?xs (mm_bytes (w_mem ?w)))"
  let ?chain = "board_chain fo env h input action" and ?start = "with_bytes ?bytes ?w"
  have xs: "length ?xs = 6144" by (simp add: floats_of_def)
  note mem = board_memory [OF assms(14,15) xs assms(6,11)]
  have up: "hw_up (w_hw ?start) = concat (map script_words [b0, b1, b2, b3, b4]) @ rest" using assms(16) by simp
  have w0: "w0 = ?start" using assms(22) by (simp add: board_start_def)
  from chunk_lemma [OF mem(1) assms(12,13) mem(2) up assms(17-21), of fo] obtain ok w' where run:
    "snn_head_run_chunk fo env h (Some input) (Some action) ?start = Some (ok, w')"
    "ok \<longrightarrow> chunk_spec fo env h input action [b0, b1, b2, b3, b4] (w_mem ?start) (w_mem w')" by blast
  let ?result = "words_at (mm_bytes (w_mem w')) (unat action) 56"
  have inf: "run_complete_chain ?chain ?w ?xs ?acts = (ok, ?result, 0, w')"
    unfolding run_complete_chain_def board_chain_def Let_def run(1) by simp
  have serve: "nsnn_serve (run_complete_chain ?chain) SystemCoreClock ?w ?acts (arrivals d) =
      (if ok \<and> list_all isfinite32 ?result then (SNN_HEAD_UART_OK, ack_frame seq @ result_frame seq ?result 0 SystemCoreClock)
       else (SNN_HEAD_UART_ERR_INFERENCE, ack_frame seq @ error_frame seq SNN_HEAD_UART_STATUS_INFERENCE_FAILED))"
    unfolding assms(7)
    using serve_request [where infer = "run_complete_chain ?chain" and i = ?w, OF assms(8) [unfolded assms(7)] assms(9,10) inf]
    by simp
  have len: "length (fst (snd (run_complete_chain ?chain i input' action'))) = 56" if "length action' = 56"
    for i input' action'
    using that by (simp add: run_complete_chain_def board_chain_def Let_def split: option.split prod.split)
  have "\<exists>b' d'. snn_head_uart_process_one rounds (Some (snn_head_io SystemCoreClock)) (Some b)
        (Some (run_complete_chain ?chain)) 1000 d0 =
      Some (fst (nsnn_serve (run_complete_chain ?chain) SystemCoreClock ?w ?acts (arrivals d0)), Some b', d') \<and>
    ud_sent d' = ud_sent d0 @ snd (nsnn_serve (run_complete_chain ?chain) SystemCoreClock ?w ?acts (arrivals d0))"
    by (rule main_link.process_serves [OF start(4) _ _ assms(3-6) len]) (use assms(2) start(2) in simp_all)
  with serve start(2,3) obtain b' d' where fin:
    "snn_head_main_round rounds SystemCoreClock ?chain b d0 =
      Some (if ok \<and> list_all isfinite32 ?result then SNN_HEAD_UART_OK else SNN_HEAD_UART_ERR_INFERENCE, b', d')"
    "ud_sent d' = ud_sent d @ (if ok \<and> list_all isfinite32 ?result
       then ack_frame seq @ result_frame seq ?result 0 SystemCoreClock
       else ack_frame seq @ error_frame seq SNN_HEAD_UART_STATUS_INFERENCE_FAILED)"
    by (auto simp: snn_head_main_round_def split: if_splits)
  show ?thesis
    unfolding w0 by (rule exI [of _ ok], rule exI [of _ w'], rule exI [of _ b'], rule exI [of _ d'])
      (use start(1) fin run mem(3) in auto)
qed

text \<open>The demonstration head behind the demonstration line.\<close>

definition demo_board_bufs :: "rworld uart_bufs" where
  "demo_board_bufs = \<lparr>ub_input = replicate 24576 0, ub_action = replicate 56 0, ub_wire = replicate 224 0,
     ub_infer = demo_head_world\<rparr>"

lemma demo_chunk_refused:
  assumes "snn_head_run_chunk fo demo_head_env demo_head (Some input) (Some action) w = Some (ok, w')"
  shows "\<not> ok"
proof -
  have "layer_artifact_ok demo_head_env demo_head_artifact SNN_HEAD_FC1_LIF_CONTRACT \<noteq> Some True"
  proof
    assume "layer_artifact_ok demo_head_env demo_head_artifact SNN_HEAD_FC1_LIF_CONTRACT = Some True"
    with layer_artifact_cases [of demo_head_env demo_head_artifact SNN_HEAD_FC1_LIF_CONTRACT] obtain rt iv ov where
      "rvrt_artifact_thread_runtime (Some (artifact_of demo_stream_root)) 0 (Some zero_runtime) = (RVRT_ARTIFACT_OK, Some rt)"
      "contract_holds SNN_HEAD_FC1_LIF_CONTRACT rt iv ov"
      by (auto simp: demo_head_env_def)
    then show False
      by (auto simp: rvrt_artifact_thread_runtime_def thread_at_def vector_at_def demo_stream_root_def demo_defs
          contract_holds_def split: if_splits)
  qed
  then have "layer_artifact_ok demo_head_env (fc1_lif_artifact demo_head) SNN_HEAD_FC1_LIF_CONTRACT = Some False"
    using layer_artifact_total [of demo_head_env demo_head_artifact SNN_HEAD_FC1_LIF_CONTRACT] by (auto simp: demo_head_def)
  with assms show ?thesis
    by (auto simp: snn_head_run_chunk_def and_then_def snn_head_run_fc1_lif_def Let_def split: bind_splits)
qed

theorem board_answers_request_witness:
  "\<exists>b' d' d0. snn_head_main_start 1000000 request_dev = Some d0 \<and>
     snn_head_main_round 24626 1000000 (board_chain demo_floats demo_head_env demo_head 100000 160000) demo_board_bufs d0 =
       Some (SNN_HEAD_UART_ERR_INFERENCE, b', d') \<and>
     ud_sent d' = ud_sent request_dev @ ack_frame 7 @ error_frame 7 SNN_HEAD_UART_STATUS_INFERENCE_FAILED"
proof -
  have sizes: "length (ub_input demo_board_bufs) = 24576" "length (ub_wire demo_board_bufs) = 224"
    "length (ub_action demo_board_bufs) = 56" "ub_infer demo_board_bufs = demo_head_world"
    by (simp_all add: demo_board_bufs_def)
  have far: "apart (unat (100000 :: u32)) 24576 (unat (160000 :: u32)) 224" by (simp add: apart_def)
  note line = request_dev_line(4,2) _ sizes(1-3) request_dev_line(1,3) length_replicate request_dev_line(5)
  note head = demo_head_ok(1) [folded sizes(4)] demo_head_ok(2,3) demo_head_ok(4) [folded sizes(4)] far
    demo_head_ok(5) [folded sizes(4)]
  note answers = demo_answers_complete demo_answers_complete demo_answers_complete demo_answers_complete
    demo_answers_complete
  show ?thesis
    using board_answers_request [OF line head answers refl, of demo_floats] demo_chunk_refused
    by (fastforce split: if_splits)
qed

end
