(* ===== verification/Debug.thy ===== *)
theory Debug
  imports Prelude
begin

text \<open>
  The debug log, \<open>Lib/debug.{h,c}\<close>: a level that filters the messages, and a sink that the application
  may install in place of the console.  The three static variables are one record; the sink runs on the
  memory of the application.  A format with its arguments is the text it expands to.
\<close>

section \<open>State\<close>

abbreviation RV_DEBUG_OFF :: u32 where "RV_DEBUG_OFF \<equiv> 0"
abbreviation RV_DEBUG_ERROR :: u32 where "RV_DEBUG_ERROR \<equiv> 1"
abbreviation RV_DEBUG_WARN :: u32 where "RV_DEBUG_WARN \<equiv> 2"
abbreviation RV_DEBUG_INFO :: u32 where "RV_DEBUG_INFO \<equiv> 3"
abbreviation RV_DEBUG_DEBUG :: u32 where "RV_DEBUG_DEBUG \<equiv> 4"

abbreviation RV_DEBUG_MSG_MAX :: nat where "RV_DEBUG_MSG_MAX \<equiv> 192"

type_synonym ('u, 'm) debug_sink =
  "u32 \<Rightarrow> string option \<Rightarrow> string option \<Rightarrow> string \<Rightarrow> 'u option \<Rightarrow> 'm \<Rightarrow> 'm"

record ('u, 'm) debug_log =
  g_rv_debug_level :: u32
  g_rv_debug_sink :: "('u, 'm) debug_sink option"
  g_rv_debug_user_data :: "'u option"
  dbg_mem :: 'm
  dbg_console :: string


section \<open>Operations\<close>

definition rv_debug_level_name :: "u32 \<Rightarrow> string" where
  "rv_debug_level_name level =
     (if level = RV_DEBUG_ERROR then ''E'' else if level = RV_DEBUG_WARN then ''W''
      else if level = RV_DEBUG_INFO then ''I'' else if level = RV_DEBUG_DEBUG then ''D'' else ''O'')"

definition rv_debug_default_sink ::
    "u32 \<Rightarrow> string option \<Rightarrow> string option \<Rightarrow> string option \<Rightarrow> ('u, 'm) debug_log \<Rightarrow> ('u, 'm) debug_log" where
  "rv_debug_default_sink level title function_name message d =
     d\<lparr>dbg_console := dbg_console d @
         ''['' @ (case title of Some t \<Rightarrow> t | None \<Rightarrow> ''debug'') @ ''][''  @ rv_debug_level_name level @ ''] '' @
         (case function_name of Some f \<Rightarrow> f | None \<Rightarrow> ''-'') @ '': '' @
         (case message of Some m \<Rightarrow> m | None \<Rightarrow> []) @ [CHR 0x0D, CHR 0x0A]\<rparr>"

definition rv_debug_set_level :: "u32 \<Rightarrow> ('u, 'm) debug_log \<Rightarrow> ('u, 'm) debug_log" where
  "rv_debug_set_level level d = d\<lparr>g_rv_debug_level := level\<rparr>"

definition rv_debug_set_sink ::
    "('u, 'm) debug_sink option \<Rightarrow> 'u option \<Rightarrow> ('u, 'm) debug_log \<Rightarrow> ('u, 'm) debug_log" where
  "rv_debug_set_sink sink user_data d = d\<lparr>g_rv_debug_sink := sink, g_rv_debug_user_data := user_data\<rparr>"

text \<open>\<open>vsnprintf(message, 192, fmt, ap)\<close> keeps the first 191 characters of the expansion.\<close>

definition rv_debug_vlogf ::
    "u32 \<Rightarrow> string option \<Rightarrow> string option \<Rightarrow> string option \<Rightarrow> ('u, 'm) debug_log \<Rightarrow> ('u, 'm) debug_log" where
  "rv_debug_vlogf level title function_name fmt d =
     (case fmt of
        None \<Rightarrow> d
      | Some expansion \<Rightarrow>
          if level \<le> RV_DEBUG_OFF \<or> level > RV_DEBUG_DEBUG \<or> level > g_rv_debug_level d then d
          else
            let message = take (RV_DEBUG_MSG_MAX - 1) expansion in
            (case g_rv_debug_sink d of
               Some sink \<Rightarrow>
                 d\<lparr>dbg_mem := sink level title function_name message (g_rv_debug_user_data d) (dbg_mem d)\<rparr>
             | None \<Rightarrow> rv_debug_default_sink level title function_name (Some message) d))"

definition rv_debug_logf ::
    "u32 \<Rightarrow> string option \<Rightarrow> string option \<Rightarrow> string option \<Rightarrow> ('u, 'm) debug_log \<Rightarrow> ('u, 'm) debug_log" where
  "rv_debug_logf level title function_name fmt d = rv_debug_vlogf level title function_name fmt d"


section \<open>What reaches a sink\<close>

text \<open>A program's calls between two changes of level or sink.\<close>

type_synonym log_call = "u32 \<times> string option \<times> string option \<times> string option"

definition run_log :: "log_call list \<Rightarrow> ('u, 'm) debug_log \<Rightarrow> ('u, 'm) debug_log" where
  "run_log calls d = foldl (\<lambda>d (level, title, func, fmt). rv_debug_logf level title func fmt d) d calls"

definition passes :: "u32 \<Rightarrow> log_call \<Rightarrow> bool" where
  "passes limit = (\<lambda>(level, _, _, fmt). fmt \<noteq> None \<and> 0 < level \<and> level \<le> min 4 limit)"

lemma run_log_settings:
  "g_rv_debug_level (run_log calls d) = g_rv_debug_level d \<and>
   g_rv_debug_sink (run_log calls d) = g_rv_debug_sink d \<and>
   g_rv_debug_user_data (run_log calls d) = g_rv_debug_user_data d"
  unfolding run_log_def
  by (induction calls arbitrary: d)
    (auto simp: rv_debug_logf_def rv_debug_vlogf_def rv_debug_default_sink_def Let_def split: option.split)

text \<open>
  An installed sink gets exactly the calls within the level, in order, each message with at most 191
  characters, and nothing is printed.
\<close>

lemma installed_sink_gets_all:
  assumes "g_rv_debug_sink d = Some sink"
  shows "dbg_console (run_log calls d) = dbg_console d \<and>
    dbg_mem (run_log calls d) =
      foldl (\<lambda>m (level, title, func, fmt). sink level title func (take 191 (the fmt)) (g_rv_debug_user_data d) m)
        (dbg_mem d) (filter (passes (g_rv_debug_level d)) calls)"
  using assms
proof (induction calls arbitrary: d)
  case (Cons call calls)
  obtain level title func fmt where call: "call = (level, title, func, fmt)" by (cases call)
  let ?d = "rv_debug_logf level title func fmt d"
  have keep: "g_rv_debug_sink ?d = Some sink" "g_rv_debug_level ?d = g_rv_debug_level d"
    "g_rv_debug_user_data ?d = g_rv_debug_user_data d" "dbg_console ?d = dbg_console d"
    "dbg_mem ?d = (if passes (g_rv_debug_level d) call
       then sink level title func (take 191 (the fmt)) (g_rv_debug_user_data d) (dbg_mem d) else dbg_mem d)"
    using Cons.prems
    by (auto simp: rv_debug_logf_def rv_debug_vlogf_def Let_def passes_def call not_le word_gt_0 split: option.split)
  have "run_log (call # calls) d = run_log calls ?d" by (simp add: run_log_def call)
  with Cons.IH [OF keep(1)] keep show ?case by (simp add: call)
qed (simp add: run_log_def)

text \<open>With the level off nothing is delivered or printed.\<close>

lemma log_off: "g_rv_debug_level d = RV_DEBUG_OFF \<Longrightarrow> run_log calls d = d"
  unfolding run_log_def
  by (induction calls) (auto simp: rv_debug_logf_def rv_debug_vlogf_def word_gt_0 not_le split: option.split)

end
