(* ===== verification/Mnist.thy ===== *)
theory Mnist
  imports SessionIo Debug
begin

text \<open>
  The MNIST application, \<open>application/runtime/mnist/main.c\<close> and \<open>data.c\<close>: two embedded samples are run
  on the chip over a session, the decoded spikes are compared with the expected ones, and the class with
  the most spikes with the label.
\<close>

section \<open>The embedded samples\<close>

abbreviation MNIST_INPUT_TIMESTEPS :: u32 where "MNIST_INPUT_TIMESTEPS \<equiv> 8"
abbreviation MNIST_INPUT_BYTES :: u32 where "MNIST_INPUT_BYTES \<equiv> 784"
abbreviation MNIST_OUTPUT_ELEMENTS :: u32 where "MNIST_OUTPUT_ELEMENTS \<equiv> 10"
abbreviation MNIST_SAMPLE_COUNT :: u32 where "MNIST_SAMPLE_COUNT \<equiv> 2"
abbreviation MNIST_INPUT_ACTIVE_PIXELS_0 :: u16 where "MNIST_INPUT_ACTIVE_PIXELS_0 \<equiv> 116"
abbreviation MNIST_INPUT_ACTIVE_PIXELS_1 :: u16 where "MNIST_INPUT_ACTIVE_PIXELS_1 \<equiv> 165"

definition mnist_active_pixels_0 :: "u16 list" where
  "mnist_active_pixels_0 = [
      202, 203, 204, 205, 206, 207, 230, 231, 232, 233, 234, 235, 236, 237, 238, 239, 240, 241, 242,
      243, 244, 245, 258, 259, 260, 261, 262, 263, 264, 265, 266, 267, 268, 269, 270, 271, 272,
      273, 291, 292, 293, 294, 295, 296, 297, 298, 299, 300, 301, 326, 327, 328, 329, 353, 354,
      355, 356, 381, 382, 383, 384, 408, 409, 410, 411, 436, 437, 438, 439, 463, 464, 465, 466,
      491, 492, 493, 518, 519, 520, 521, 545, 546, 547, 548, 572, 573, 574, 575, 576, 600, 601,
      602, 603, 627, 628, 629, 630, 631, 655, 656, 657, 658, 682, 683, 684, 685, 686, 710, 711,
      712, 713, 714, 738, 739, 740, 741]"

definition mnist_active_pixels_1 :: "u16 list" where
  "mnist_active_pixels_1 = [
      94, 95, 96, 97, 98, 99, 100, 121, 122, 123, 124, 125, 126, 127, 128, 129, 148, 149, 150, 151,
      152, 153, 154, 155, 156, 157, 175, 176, 177, 178, 179, 180, 182, 183, 184, 185, 203, 204,
      205, 206, 210, 211, 212, 213, 232, 233, 238, 239, 240, 241, 265, 266, 267, 268, 269, 292,
      293, 294, 295, 296, 320, 321, 322, 323, 347, 348, 349, 350, 351, 374, 375, 376, 377, 378,
      402, 403, 404, 405, 429, 430, 431, 432, 433, 456, 457, 458, 459, 460, 484, 485, 486, 487,
      488, 512, 513, 514, 515, 540, 541, 542, 543, 544, 545, 546, 547, 548, 550, 551, 552, 553,
      554, 555, 556, 557, 558, 568, 569, 570, 571, 572, 573, 574, 575, 576, 577, 578, 579, 580,
      581, 582, 583, 584, 585, 586, 596, 597, 598, 599, 600, 601, 602, 603, 604, 605, 606, 607,
      608, 609, 610, 611, 612, 613, 614, 625, 626, 627, 628, 629, 630, 631, 632, 633, 634, 635,
      636]"

definition mnist_active_pixels :: "u16 list list" where
  "mnist_active_pixels = [mnist_active_pixels_0, mnist_active_pixels_1]"

definition mnist_active_pixel_counts :: "u16 list" where
  "mnist_active_pixel_counts = [MNIST_INPUT_ACTIVE_PIXELS_0, MNIST_INPUT_ACTIVE_PIXELS_1]"

definition mnist_expected_labels :: "u8 list" where
  "mnist_expected_labels = [7, 2]"

text \<open>The designated initialisers of \<open>data.c\<close>: an array of zeros with the named elements set.\<close>

definition designated :: "nat \<Rightarrow> (nat \<times> u8) list \<Rightarrow> u8 list" where
  "designated n inits = foldl (\<lambda>xs (i, v). xs[i := v]) (replicate n 0) inits"

definition mnist_expected_output :: "u8 list list" where
  "mnist_expected_output =
     [designated 80 [(7, 1), (17, 1), (27, 1), (37, 1), (47, 1), (57, 1), (67, 1), (77, 1)],
      designated 80 [(2, 1), (12, 1), (22, 1), (32, 1), (42, 1), (52, 1), (62, 1), (72, 1)]]"

fun active_pixel_loop :: "u16 list \<Rightarrow> u32 \<Rightarrow> u32 \<Rightarrow> nat \<Rightarrow> u8 list \<Rightarrow> u8 list option" where
  "active_pixel_loop active_pixels timestep i 0 input = Some input"
| "active_pixel_loop active_pixels timestep i (Suc n) input = do {
     pixel \<leftarrow> rd active_pixels i;
     input \<leftarrow> wr input (timestep * MNIST_INPUT_BYTES + ucast pixel) 1;
     active_pixel_loop active_pixels timestep (i + 1) n input
   }"

fun input_timestep_loop :: "u16 list \<Rightarrow> u32 \<Rightarrow> u32 \<Rightarrow> nat \<Rightarrow> u8 list \<Rightarrow> u8 list option" where
  "input_timestep_loop active_pixels active_count timestep 0 input = Some input"
| "input_timestep_loop active_pixels active_count timestep (Suc n) input = do {
     input \<leftarrow> active_pixel_loop active_pixels timestep 0 (unat active_count) input;
     input_timestep_loop active_pixels active_count (timestep + 1) n input
   }"

definition mnist_build_input :: "u32 \<Rightarrow> u8 list option \<Rightarrow> u8 list option option" where
  "mnist_build_input sample_index input =
     (case input of
        None \<Rightarrow> Some None
      | Some bytes \<Rightarrow>
          if sample_index \<ge> MNIST_SAMPLE_COUNT then Some input
          else
            let size = unat (MNIST_INPUT_TIMESTEPS * MNIST_INPUT_BYTES) in
            if length bytes < size then None
            else do {
              let bytes = replicate size 0 @ drop size bytes;
              active_pixels \<leftarrow> rd mnist_active_pixels sample_index;
              active_count \<leftarrow> rd mnist_active_pixel_counts sample_index;
              bytes \<leftarrow> input_timestep_loop active_pixels (ucast active_count) 0 (unat MNIST_INPUT_TIMESTEPS) bytes;
              Some (Some bytes)
            })"


section \<open>The application\<close>

abbreviation APP_TIMESTEPS :: u32 where "APP_TIMESTEPS \<equiv> MNIST_INPUT_TIMESTEPS"
abbreviation APP_INPUT_BYTES :: u32 where "APP_INPUT_BYTES \<equiv> MNIST_INPUT_BYTES"
abbreviation APP_OUTPUT_ELEMENTS :: u32 where "APP_OUTPUT_ELEMENTS \<equiv> MNIST_OUTPUT_ELEMENTS"
abbreviation APP_TIMEOUT_MS :: u32 where "APP_TIMEOUT_MS \<equiv> 2000"
abbreviation RVRT_APP_RX_FRAMES :: u32 where "RVRT_APP_RX_FRAMES \<equiv> APP_TIMESTEPS * APP_OUTPUT_ELEMENTS + 1"
abbreviation WORKSPACE_CAPACITY :: u32 where "WORKSPACE_CAPACITY \<equiv> 32"

text \<open>What the application prints, by the arguments of the format.\<close>

datatype mnist_msg =
    Mnist_artifact_failed string string
  | Mnist_codec_failed string string
  | Mnist_session_failed string string
  | Mnist_contract_mismatch
  | Mnist_output_mismatch u32
  | Mnist_wrong_prediction u32 u32 u8
  | Mnist_sample_pass u32 u32
  | Mnist_pass u32 u32 u32

text \<open>
  The statics of the application and the world; \<open>g_rx_frames\<close> is a buffer of the world.  The environment
  gives each sample its waits, and the result of registering the interrupt.
\<close>

record ('u, 'm) mnist_state =
  mn_workspace :: "rvrt_frame list"
  mn_input :: "u8 list"
  mn_debug :: "('u, 'm) debug_log"
  mn_printed :: "mnist_msg list"
  mn_world :: "('u, 'm) world"

record mnist_env =
  me_register :: int
  me_reset :: "nat \<Rightarrow> wait_env"
  me_sync :: "nat \<Rightarrow> wait_env"

definition say :: "mnist_msg \<Rightarrow> ('u, 'm) mnist_state \<Rightarrow> ('u, 'm) mnist_state" where
  "say msg s = s\<lparr>mn_printed := mn_printed s @ [msg]\<rparr>"

text \<open>A \<open>return\<close> of \<open>main\<close> is the left side of a sum: the exit code and the state.\<close>

type_synonym ('u, 'm, 'a) mnist_result = "int \<times> ('u, 'm) mnist_state + 'a \<times> ('u, 'm) mnist_state"

definition fail_artifact :: "string \<Rightarrow> artifact_status \<Rightarrow> ('u, 'm) mnist_state \<Rightarrow> int \<times> ('u, 'm) mnist_state" where
  "fail_artifact stage status s = (1, say (Mnist_artifact_failed stage (rvrt_artifact_status_string status)) s)"

definition fail_codec :: "string \<Rightarrow> codec_status \<Rightarrow> ('u, 'm) mnist_state \<Rightarrow> int \<times> ('u, 'm) mnist_state" where
  "fail_codec stage status s = (1, say (Mnist_codec_failed stage (rvrt_codec_status_string status)) s)"

definition fail_session :: "string \<Rightarrow> session_status \<Rightarrow> ('u, 'm) mnist_state \<Rightarrow> int \<times> ('u, 'm) mnist_state" where
  "fail_session stage status s = (1, say (Mnist_session_failed stage (rvrt_session_status_string status)) s)"

text \<open>The check that artifact and application belong to the same model.\<close>

definition mnist_contract ::
    "rvrt_artifact_runtime \<Rightarrow> rvrt_artifact_input_mapping_view \<Rightarrow> rvrt_artifact_output_mapping_view \<Rightarrow> bool" where
  "mnist_contract runtime input_view output_view \<longleftrightarrow>
     \<not> (rt_timesteps runtime \<noteq> APP_TIMESTEPS \<or>
        rt_output_time_encoding runtime \<noteq> RVRT_OUTPUT_TIME_ENCODING_STREAM \<or>
        rt_completion_sync_timestep runtime \<noteq> rt_pipeline_latency runtime + rt_timesteps runtime - 1 \<or>
        iv_entry_count input_view \<noteq> APP_INPUT_BYTES \<or>
        iv_element_count input_view \<noteq> APP_INPUT_BYTES \<or>
        ov_kind output_view \<noteq> RVRT_OUTPUT_DATA \<or>
        ov_entry_count output_view \<noteq> APP_OUTPUT_ELEMENTS \<or>
        ov_element_count output_view \<noteq> APP_OUTPUT_ELEMENTS)"

text \<open>\<open>main\<close> up to the contract check: the artifact, its run parameters and its two mappings.\<close>

definition mnist_read_artifact ::
    "(u8 list \<Rightarrow> u32 \<Rightarrow> bool) \<Rightarrow> (u8 list \<Rightarrow> fbs_CompileArtifacts) \<Rightarrow> u32 \<times> u8 list \<Rightarrow> u32 \<Rightarrow> ('u, 'm) mnist_state
       \<Rightarrow> ('u, 'm, rvrt_artifact \<times> rvrt_artifact_runtime \<times> rvrt_artifact_input_mapping_view
            \<times> rvrt_artifact_output_mapping_view) mnist_result option" where
  "mnist_read_artifact verify get_root artifact_data artifact_size s =
     (let (status, artifact) = rvrt_artifact_read verify get_root (Some artifact_data) artifact_size (Some zero_artifact)
      in if status \<noteq> RVRT_ARTIFACT_OK then Some (Inl (fail_artifact ''read'' status s))
      else
        let (status, runtime) = rvrt_artifact_thread_runtime artifact 0 (Some zero_runtime)
        in if status \<noteq> RVRT_ARTIFACT_OK then Some (Inl (fail_artifact ''runtime'' status s))
        else
          let (status, input_view) = rvrt_artifact_get_input_mapping_view artifact 0 0 (Some zero_input_view)
          in if status \<noteq> RVRT_ARTIFACT_OK then Some (Inl (fail_artifact ''input mapping'' status s))
          else do {
            (status, output_view) \<leftarrow> rvrt_artifact_get_output_mapping_view artifact 0 0 (Some zero_output_view);
            Some (if status \<noteq> RVRT_ARTIFACT_OK then Inl (fail_artifact ''output mapping'' status s)
                  else if \<not> mnist_contract (the runtime) (the input_view) (the output_view)
                  then Inl (1, say Mnist_contract_mismatch s)
                  else Inr ((the artifact, the runtime, the input_view, the output_view), s))
          })"

text \<open>The session: object \<open>p\<close>, frames received into buffer \<open>rx\<close>.\<close>

definition mnist_open_session ::
    "mnist_env \<Rightarrow> nat \<Rightarrow> nat \<Rightarrow> rvrt_artifact \<Rightarrow> ('u, 'm) mnist_state \<Rightarrow> ('u, 'm, unit) mnist_result option" where
  "mnist_open_session env p rx artifact s = (
     let s = s\<lparr>mn_world := set_session p zero_session (mn_world s)\<rparr>;
         config = \<lparr>cfg_artifact = Some (p, artifact), cfg_thread_index = 0, cfg_rx_frames = Some rx,
                   cfg_rx_capacity = RVRT_APP_RX_FRAMES\<rparr>;
         (session_status, w) = rvrt_session_init (me_register env) (Some p) (Some config) (mn_world s);
         s = s\<lparr>mn_world := w\<rparr>
     in if session_status \<noteq> RVRT_SESSION_OK then Some (Inl (fail_session ''init'' session_status s))
     else do {
       (session_status, w) \<leftarrow> rvrt_session_load_config (Some p) (mn_world s);
       let s = s\<lparr>mn_world := w\<rparr>;
       Some (if session_status \<noteq> RVRT_SESSION_OK then Inl (fail_session ''load config'' session_status s)
             else Inr ((), s))
     })"

text \<open>The loop that sends the timesteps of \<open>g_input\<close>; \<open>rounds\<close> bounds the loop of \<open>session_io.c\<close>.\<close>

fun mnist_send_loop ::
    "nat \<Rightarrow> nat \<Rightarrow> rvrt_artifact_input_mapping_view \<Rightarrow> u32 \<Rightarrow> nat \<Rightarrow> ('u, 'm) mnist_state
       \<Rightarrow> ('u, 'm, unit) mnist_result option" where
  "mnist_send_loop rounds p input_view timestep 0 s = Some (Inr ((), s))"
| "mnist_send_loop rounds p input_view timestep (Suc n) s = do {
     (session_status, workspace, w) \<leftarrow> rvrt_session_send_input_timestep rounds (Some p) (Some input_view) timestep
       (Some (drop (unat (timestep * APP_INPUT_BYTES)) (mn_input s))) APP_INPUT_BYTES (Some (mn_workspace s))
       WORKSPACE_CAPACITY (mn_world s);
     let s = s\<lparr>mn_workspace := the workspace, mn_world := w\<rparr>;
     if session_status \<noteq> RVRT_SESSION_OK then Some (Inl (fail_session ''send input'' session_status s))
     else mnist_send_loop rounds p input_view (timestep + 1) n s
   }"

text \<open>The post-processing: spike sums, and the first class with the most spikes.\<close>

fun sum_elem_loop :: "u8 list \<Rightarrow> u32 \<Rightarrow> u32 \<Rightarrow> nat \<Rightarrow> u32 list \<Rightarrow> u32 list option" where
  "sum_elem_loop output timestep elem 0 sums = Some sums"
| "sum_elem_loop output timestep elem (Suc n) sums = do {
     old \<leftarrow> rd sums elem;
     spike \<leftarrow> rd output (timestep * APP_OUTPUT_ELEMENTS + elem);
     sums \<leftarrow> wr sums elem (old + ucast spike);
     sum_elem_loop output timestep (elem + 1) n sums
   }"

fun sum_timestep_loop :: "u8 list \<Rightarrow> u32 \<Rightarrow> nat \<Rightarrow> u32 list \<Rightarrow> u32 list option" where
  "sum_timestep_loop output timestep 0 sums = Some sums"
| "sum_timestep_loop output timestep (Suc n) sums = do {
     sums \<leftarrow> sum_elem_loop output timestep 0 (unat APP_OUTPUT_ELEMENTS) sums;
     sum_timestep_loop output (timestep + 1) n sums
   }"

fun prediction_loop :: "u32 list \<Rightarrow> u32 \<Rightarrow> nat \<Rightarrow> u32 \<Rightarrow> u32 option" where
  "prediction_loop sums elem 0 prediction = Some prediction"
| "prediction_loop sums elem (Suc n) prediction = do {
     x \<leftarrow> rd sums elem;
     best \<leftarrow> rd sums prediction;
     prediction_loop sums (elem + 1) n (if x > best then elem else prediction)
   }"

definition mnist_prediction :: "u8 list \<Rightarrow> u32 option" where
  "mnist_prediction output = do {
     sums \<leftarrow> sum_timestep_loop output 0 (unat APP_TIMESTEPS) (replicate (unat APP_OUTPUT_ELEMENTS) 0);
     prediction_loop sums 1 (unat APP_OUTPUT_ELEMENTS - 1) 0
   }"

text \<open>What follows a decoded output: the comparison with the table, then with the label.\<close>

definition mnist_judge :: "u32 \<Rightarrow> u8 list \<Rightarrow> ('u, 'm) mnist_state \<Rightarrow> ('u, 'm, unit) mnist_result option" where
  "mnist_judge sample output s = do {
     expected \<leftarrow> rd mnist_expected_output sample;
     if output \<noteq> expected then Some (Inl (1, say (Mnist_output_mismatch sample) s))
     else do {
       prediction \<leftarrow> mnist_prediction output;
       label \<leftarrow> rd mnist_expected_labels sample;
       Some (if prediction \<noteq> ucast label then Inl (1, say (Mnist_wrong_prediction sample prediction label) s)
             else Inr ((), say (Mnist_sample_pass sample prediction) s))
     }
   }"

text \<open>One round of the loop over the samples.\<close>

definition mnist_sample ::
    "nat \<Rightarrow> mnist_env \<Rightarrow> nat \<Rightarrow> rvrt_artifact_runtime \<times> rvrt_artifact_input_mapping_view
       \<times> rvrt_artifact_output_mapping_view \<Rightarrow> u32 \<Rightarrow> ('u, 'm) mnist_state \<Rightarrow> ('u, 'm, unit) mnist_result option" where
  "mnist_sample rounds env p = (\<lambda>(runtime, input_view, output_view) sample s. do {
     (session_status, w) \<leftarrow> rvrt_session_reset_model (Some p) APP_TIMEOUT_MS (me_reset env (unat sample)) (mn_world s);
     let s = s\<lparr>mn_world := w\<rparr>;
     if session_status \<noteq> RVRT_SESSION_OK then Some (Inl (fail_session ''reset model'' session_status s))
     else do {
       input \<leftarrow> mnist_build_input sample (Some (mn_input s));
       let s = s\<lparr>mn_input := the input\<rparr>;
       result \<leftarrow> mnist_send_loop rounds p input_view 0 (unat APP_TIMESTEPS) s;
       (case result of
          Inl exit \<Rightarrow> Some (Inl exit)
        | Inr (_, s) \<Rightarrow> do {
            (session_status, rx_frames, rx_frame_count, w) \<leftarrow> rvrt_session_sync_wait_until (Some p)
              (rt_completion_sync_timestep runtime) APP_TIMEOUT_MS (Some None) (Some 0) (me_sync env (unat sample))
              (mn_world s);
            let s = s\<lparr>mn_world := w\<rparr>;
            if session_status \<noteq> RVRT_SESSION_OK then Some (Inl (fail_session ''sync'' session_status s))
            else do {
              (codec_status, output) \<leftarrow> rvrt_decode_output_frames (Some output_view) (Some runtime)
                (map_option (w_buf w) (the rx_frames)) (the rx_frame_count)
                (Some (replicate (unat (APP_TIMESTEPS * APP_OUTPUT_ELEMENTS)) 0)) (APP_TIMESTEPS * APP_OUTPUT_ELEMENTS);
              if codec_status \<noteq> RVRT_CODEC_STATUS_OK then Some (Inl (fail_codec ''decode'' codec_status s))
              else mnist_judge sample (the output) s
            }
          })
     }
   })"

fun mnist_sample_loop ::
    "nat \<Rightarrow> mnist_env \<Rightarrow> nat \<Rightarrow> rvrt_artifact_runtime \<times> rvrt_artifact_input_mapping_view
       \<times> rvrt_artifact_output_mapping_view \<Rightarrow> u32 \<Rightarrow> nat \<Rightarrow> ('u, 'm) mnist_state
       \<Rightarrow> ('u, 'm, unit) mnist_result option" where
  "mnist_sample_loop rounds env p views sample 0 s = Some (Inr ((), s))"
| "mnist_sample_loop rounds env p views sample (Suc n) s = do {
     result \<leftarrow> mnist_sample rounds env p views sample s;
     (case result of
        Inl exit \<Rightarrow> Some (Inl exit)
      | Inr (_, s) \<Rightarrow> mnist_sample_loop rounds env p views (sample + 1) n s)
   }"

text \<open>\<open>main\<close>: \<open>artifact_data\<close> is the address and the contents of the embedded binary, \<open>artifact_size\<close> the
  address of its size symbol.\<close>

definition mnist_main ::
    "(u8 list \<Rightarrow> u32 \<Rightarrow> bool) \<Rightarrow> (u8 list \<Rightarrow> fbs_CompileArtifacts) \<Rightarrow> u32 \<times> u8 list \<Rightarrow> u32 \<Rightarrow> nat \<Rightarrow> mnist_env \<Rightarrow> nat
       \<Rightarrow> nat \<Rightarrow> ('u, 'm) mnist_state \<Rightarrow> (int \<times> ('u, 'm) mnist_state) option" where
  "mnist_main verify get_root artifact_data artifact_size rounds env p rx s = do {
     let s = s\<lparr>mn_debug := rv_debug_set_level RV_DEBUG_ERROR (mn_debug s)\<rparr>;
     result \<leftarrow> mnist_read_artifact verify get_root artifact_data artifact_size s;
     (case result of
        Inl exit \<Rightarrow> Some exit
      | Inr ((artifact, runtime, input_view, output_view), s) \<Rightarrow> do {
          result \<leftarrow> mnist_open_session env p rx artifact s;
          (case result of
             Inl exit \<Rightarrow> Some exit
           | Inr (_, s) \<Rightarrow> do {
               result \<leftarrow> mnist_sample_loop rounds env p (runtime, input_view, output_view) 0
                 (unat MNIST_SAMPLE_COUNT) s;
               Some (case result of
                       Inl exit \<Rightarrow> exit
                     | Inr (_, s) \<Rightarrow>
                         (0, say (Mnist_pass MNIST_SAMPLE_COUNT (rt_timesteps runtime) (ov_element_count output_view)) s))
             })
        })
   }"

end
