(* ===== verification/Mnist_Laws.thy ===== *)
theory Mnist_Laws
  imports Mnist Session_Epoch Decode_Laws
begin

text \<open>
  What the MNIST application shows on its console, as a function of the frames the chip returns, and
  what it has sent to the chip by then.
\<close>

section \<open>The input of a sample\<close>

definition active :: "u32 \<Rightarrow> nat set" where
  "active s = unat ` set (mnist_active_pixels ! unat s)"

text \<open>One timestep of a sample: the pixels of the sample are one, the others zero.\<close>

definition pixel_row :: "u32 \<Rightarrow> u8 list" where
  "pixel_row s = map (\<lambda>k. if k \<in> active s then 1 else 0) [0..<784]"

lemma length_pixel_row [simp]: "length (pixel_row s) = 784"
  by (simp add: pixel_row_def)

definition mnist_input :: "u32 \<Rightarrow> u8 list" where
  "mnist_input s = concat (replicate 8 (pixel_row s))"

lemma unat_pixel: "unat (ucast (x :: u16) :: u32) = unat x"
  using unsigned_less [of x, where ?'a = nat] by (simp add: unsigned_ucast_eq take_bit_nat_eq_self)

lemma pixel_position: "q < n \<Longrightarrow> k = t * n + q \<longleftrightarrow> k div n = t \<and> k mod n = q" for k t q n :: nat
  using div_mult_mod_eq [of k n] by auto

lemma active_pixel_loop_result:
  assumes "list_all (\<lambda>p. unat p < 784) ps" "timestep < 8"
  shows "unat i + n = length ps \<Longrightarrow> length ps < 2 ^ 16 \<Longrightarrow> length input = 6272 \<Longrightarrow>
    active_pixel_loop ps timestep i n input =
      Some (map (\<lambda>k. if k div 784 = unat timestep \<and> k mod 784 \<in> unat ` set (drop (unat i) ps) then 1 else input ! k)
        [0..<6272])"
proof (induction n arbitrary: i input)
  case 0
  then show ?case by (auto intro!: nth_equalityI)
next
  case (Suc n)
  then have i: "unat i < length ps" by simp
  let ?p = "ps ! unat i" and ?pos = "unat timestep * 784 + unat (ps ! unat i)"
  have p: "unat ?p < 784" using assms(1) i by (simp add: list_all_length)
  have t: "unat timestep < 8" using assms(2) by (simp add: word_less_nat_alt)
  have "unat (ucast ?p :: u32) = unat ?p" by (rule unat_pixel)
  moreover have "unat (timestep * 784) = unat timestep * 784" using t by (subst unat_mult_u32) simp_all
  ultimately have pos: "unat (timestep * 784 + ucast ?p) = ?pos"
    using p t by (subst unat_add_u32) simp_all
  have lt: "?pos < 6272" using p t by simp
  have si: "unat (i + 1) = unat i + 1" using i Suc.prems(2) by (subst unat_add_u32) simp_all
  have "active_pixel_loop ps timestep i (Suc n) input = active_pixel_loop ps timestep (i + 1) n (input[?pos := 1])"
    using i lt Suc.prems(3) by (simp add: pos)
  also have "\<dots> = Some (map (\<lambda>k. if k div 784 = unat timestep \<and> k mod 784 \<in> unat ` set (drop (unat i + 1) ps) then 1
      else input[?pos := 1] ! k) [0..<6272])"
    using Suc.IH [of "i + 1" "input[?pos := 1]"] Suc.prems by (simp add: si)
  also have "\<dots> = Some (map (\<lambda>k. if k div 784 = unat timestep \<and> k mod 784 \<in> unat ` set (drop (unat i) ps) then 1
      else input ! k) [0..<6272])"
  proof -
    have drop: "drop (unat i) ps = ?p # drop (unat i + 1) ps" using i by (simp add: Cons_nth_drop_Suc)
    have "input[?pos := 1] ! k = (if k div 784 = unat timestep \<and> k mod 784 = unat ?p then 1 else input ! k)" for k
      unfolding pixel_position [OF p, symmetric] using lt Suc.prems(3) by (simp add: nth_list_update)
    then show ?thesis by (auto simp: drop)
  qed
  finally show ?case .
qed

lemma input_timestep_loop_result:
  assumes "list_all (\<lambda>p. unat p < 784) ps" "length ps < 2 ^ 16" "unat count = length ps"
  shows "unat timestep + n = 8 \<Longrightarrow> length input = 6272 \<Longrightarrow>
    input_timestep_loop ps count timestep n input =
      Some (map (\<lambda>k. if unat timestep \<le> k div 784 \<and> k mod 784 \<in> unat ` set ps then 1 else input ! k) [0..<6272])"
proof (induction n arbitrary: timestep input)
  case 0
  then have "\<not> unat timestep \<le> k div 784" if "k < 6272" for k
    using that by (simp add: div_less_iff_less_mult not_le)
  with 0 show ?case by (auto intro!: nth_equalityI)
next
  case (Suc n)
  then have t: "timestep < 8" "unat (timestep + 1) = unat timestep + 1"
    by (simp_all add: word_less_nat_alt unat_add_u32)
  let ?input = "map (\<lambda>k. if k div 784 = unat timestep \<and> k mod 784 \<in> unat ` set ps then 1 else input ! k) [0..<6272]"
  have "active_pixel_loop ps timestep 0 (unat count) input = Some ?input"
    using active_pixel_loop_result [OF assms(1) t(1), of 0 "unat count" input] assms(2,3) Suc.prems(2) by simp
  with Suc.IH [of "timestep + 1" ?input] Suc.prems(1) t(2)
  have "input_timestep_loop ps count timestep (Suc n) input =
      Some (map (\<lambda>k. if unat timestep + 1 \<le> k div 784 \<and> k mod 784 \<in> unat ` set ps then 1 else ?input ! k) [0..<6272])"
    by simp
  then show ?case by auto
qed

lemma sample_tables:
  assumes "s < MNIST_SAMPLE_COUNT"
  obtains ps count where "rd mnist_active_pixels s = Some ps" "rd mnist_active_pixel_counts s = Some count"
    "list_all (\<lambda>p. unat p < 784) ps" "length ps < 2 ^ 16" "unat count = length ps" "active s = unat ` set ps"
proof -
  from assms have "unat s < 2" by (simp add: word_less_nat_alt)
  then have s: "unat s = 0 \<or> unat s = 1" by linarith
  have "list_all (\<lambda>p. unat p < 784) mnist_active_pixels_0" "list_all (\<lambda>p. unat p < 784) mnist_active_pixels_1"
    "length mnist_active_pixels_0 = 116" "length mnist_active_pixels_1 = 165"
    by (simp_all add: mnist_active_pixels_0_def mnist_active_pixels_1_def)
  with s show ?thesis
    by (intro that [of "mnist_active_pixels ! unat s" "mnist_active_pixel_counts ! unat s"])
      (auto simp: mnist_active_pixels_def mnist_active_pixel_counts_def active_def rd_def)
qed

lemma nth_mnist_input: "k < 6272 \<Longrightarrow> mnist_input s ! k = (if k mod 784 \<in> active s then 1 else 0)"
proof -
  assume k: "k < 6272"
  have "concat (replicate n xs) ! k = xs ! (k mod length xs)" if "k < n * length xs" for n k and xs :: "u8 list"
    using that
  proof (induction n arbitrary: k)
    case (Suc n)
    then show ?case
      by (cases "k < length xs") (simp_all add: nth_append mod_if [of k])
  qed simp
  from this [of k 8 "pixel_row s"] k show ?thesis by (simp add: mnist_input_def pixel_row_def)
qed

lemma length_mnist_input [simp]: "length (mnist_input s) = 6272"
  by (simp add: mnist_input_def length_concat sum_list_replicate)

text \<open>The builder leaves the pixels of the sample in every timestep, whatever was in the buffer.\<close>

lemma mnist_build_input_result:
  assumes "s < MNIST_SAMPLE_COUNT" "length input = 6272"
  shows "mnist_build_input s (Some input) = Some (Some (mnist_input s))"
proof -
  obtain ps count where t: "rd mnist_active_pixels s = Some ps" "rd mnist_active_pixel_counts s = Some count"
    "list_all (\<lambda>p. unat p < 784) ps" "length ps < 2 ^ 16" "unat count = length ps" "active s = unat ` set ps"
    using sample_tables [OF assms(1)] by blast
  have "unat (ucast count :: u32) = length ps" using t(5) by (simp add: unat_pixel)
  note loop = input_timestep_loop_result [OF t(3,4) this, of 0 8]
  obtain z :: "u8 list" where z: "replicate 6272 0 = z" by blast
  have "length z = 6272" "k < 6272 \<Longrightarrow> z ! k = 0" for k using z [symmetric] by (simp_all only: length_replicate nth_replicate)
  with loop [of z] have "input_timestep_loop ps (ucast count) 0 8 z = Some (mnist_input s)"
    by (simp add: t(6) [symmetric] nth_mnist_input list_eq_iff_nth_eq)
  moreover have "unat (MNIST_INPUT_TIMESTEPS * MNIST_INPUT_BYTES) = 6272" by simp
  ultimately show ?thesis
    using assms t(1,2) unfolding mnist_build_input_def Let_def option.case by (simp add: z linorder_not_le [symmetric])
qed


section \<open>The prediction\<close>

text \<open>The spikes of a class over the eight timesteps; as many as 255 a timestep, so the sums do not wrap.\<close>

definition spikes :: "u8 list \<Rightarrow> nat \<Rightarrow> nat" where
  "spikes out e = (\<Sum>t<8. unat (out ! (t * 10 + e)))"

lemma output_position:
  assumes "t < (8 :: u32)" "e < (10 :: u32)"
  shows "unat (t * APP_OUTPUT_ELEMENTS + e) = unat t * 10 + unat e" "unat t * 10 + unat e < 80"
proof -
  have b: "unat t < 8" "unat e < 10" using assms by (simp_all add: word_less_nat_alt)
  then show "unat t * 10 + unat e < 80" by simp
  from b have "unat (t * 10) = unat t * 10" by (subst unat_mult_u32) simp_all
  with b show "unat (t * APP_OUTPUT_ELEMENTS + e) = unat t * 10 + unat e" by (subst unat_add_u32) simp_all
qed

lemma sum_elem_loop_result:
  assumes "t < 8" "length out = 80"
  shows "unat elem + n = 10 \<Longrightarrow> length sums = 10 \<Longrightarrow> sum_elem_loop out t elem n sums =
    Some (map (\<lambda>e. if unat elem \<le> e then sums ! e + ucast (out ! (unat t * 10 + e)) else sums ! e) [0..<10])"
proof (induction n arbitrary: elem sums)
  case 0
  then show ?case by (auto intro!: nth_equalityI)
next
  case (Suc n)
  then have e: "elem < 10" "unat elem < 10" "unat (elem + 1) = unat elem + 1"
    by (simp_all add: word_less_nat_alt unat_add_u32)
  note pos = output_position [OF assms(1) e(1)]
  let ?sums = "sums[unat elem := sums ! unat elem + ucast (out ! (unat t * 10 + unat elem))]"
  have "sum_elem_loop out t elem (Suc n) sums = sum_elem_loop out t (elem + 1) n ?sums"
    using e(2) pos assms(2) Suc.prems(2) by simp
  also have "\<dots> = Some (map (\<lambda>e. if unat elem + 1 \<le> e then ?sums ! e + ucast (out ! (unat t * 10 + e))
      else ?sums ! e) [0..<10])"
    using Suc.IH [of "elem + 1" ?sums] Suc.prems e(3) by simp
  finally show ?case
    using Suc.prems(2) by (auto simp: nth_list_update Suc_le_eq le_less)
qed

lemma sum_timestep_loop_result:
  assumes "length out = 80"
  shows "unat t + n = 8 \<Longrightarrow> length sums = 10 \<Longrightarrow> sum_timestep_loop out t n sums =
    Some (map (\<lambda>e. sums ! e + (\<Sum>t\<in>{unat t ..< 8}. ucast (out ! (t * 10 + e)))) [0..<10])"
proof (induction n arbitrary: t sums)
  case 0
  then show ?case by (auto intro!: nth_equalityI)
next
  case (Suc n)
  then have t: "t < 8" "unat t < 8" "unat (t + 1) = unat t + 1"
    by (simp_all add: word_less_nat_alt unat_add_u32)
  let ?sums = "map (\<lambda>e. sums ! e + ucast (out ! (unat t * 10 + e))) [0..<10]"
  have "sum_elem_loop out t 0 10 sums = Some ?sums"
    using sum_elem_loop_result [OF t(1) assms, of 0 10 sums] Suc.prems(2) by simp
  then have "sum_timestep_loop out t (Suc n) sums =
      Some (map (\<lambda>e. ?sums ! e + (\<Sum>t\<in>{unat t + 1 ..< 8}. ucast (out ! (t * 10 + e)))) [0..<10])"
    using Suc.IH [of "t + 1" ?sums] Suc.prems(1) t(3) by simp
  then show ?case
    using t(2) by (simp add: sum.atLeast_Suc_lessThan [of "unat t" 8] ac_simps)
qed

lemma unat_sum_bytes:
  fixes f :: "nat \<Rightarrow> u8"
  assumes "n \<le> 1000"
  shows "unat (\<Sum>t<n. ucast (f t) :: u32) = (\<Sum>t<n. unat (f t))" "(\<Sum>t<n. unat (f t)) \<le> 255 * n"
proof -
  have "unat (\<Sum>t<n. ucast (f t) :: u32) = (\<Sum>t<n. unat (f t)) \<and> (\<Sum>t<n. unat (f t)) \<le> 255 * n"
    using assms
  proof (induction n)
    case (Suc n)
    have b: "unat (f n) < 256" "unat (ucast (f n) :: u32) = unat (f n)"
      using unsigned_less [of "f n", where ?'a = nat] by (simp_all add: unsigned_ucast_eq take_bit_nat_eq_self)
    with Suc show ?case by (simp add: unat_add_u32)
  qed simp
  then show "unat (\<Sum>t<n. ucast (f t) :: u32) = (\<Sum>t<n. unat (f t))" "(\<Sum>t<n. unat (f t)) \<le> 255 * n" by simp_all
qed

lemma prediction_loop_result:
  assumes "length sums = 10"
  shows "unat elem + n = 10 \<Longrightarrow> prediction < elem \<Longrightarrow>
    (\<And>e. e < unat elem \<Longrightarrow> sums ! e \<le> sums ! unat prediction) \<Longrightarrow>
    (\<And>e. e < unat prediction \<Longrightarrow> sums ! e < sums ! unat prediction) \<Longrightarrow>
    \<exists>p. prediction_loop sums elem n prediction = Some p \<and> unat p < 10 \<and>
      (\<forall>e < 10. sums ! e \<le> sums ! unat p) \<and> (\<forall>e < unat p. sums ! e < sums ! unat p)"
proof (induction n arbitrary: elem prediction)
  case 0
  then show ?case by (simp add: word_less_nat_alt)
next
  case (Suc n)
  then have e: "unat elem < 10" "unat (elem + 1) = unat elem + 1" "unat prediction < unat elem"
    by (simp_all add: word_less_nat_alt unat_add_u32)
  let ?p = "if sums ! unat elem > sums ! unat prediction then elem else prediction"
  have "\<exists>p. prediction_loop sums (elem + 1) n ?p = Some p \<and> unat p < 10 \<and>
      (\<forall>e < 10. sums ! e \<le> sums ! unat p) \<and> (\<forall>e < unat p. sums ! e < sums ! unat p)"
  proof (rule Suc.IH)
    show "unat (elem + 1) + n = 10" using e(2) Suc.prems(1) by simp
    show "?p < elem + 1" using e(2,3) by (simp add: word_less_nat_alt)
    show "sums ! k \<le> sums ! unat ?p" if "k < unat (elem + 1)" for k
      using Suc.prems(3) [of k] that e(2) by (cases "k = unat elem") (auto simp: not_less)
    show "sums ! k < sums ! unat ?p" if "k < unat ?p" for k
      using Suc.prems(3,4) [of k] that by (auto split: if_splits)
  qed
  moreover have "prediction_loop sums elem (Suc n) prediction = prediction_loop sums (elem + 1) n ?p"
    using e assms by simp
  ultimately show ?case by simp
qed

lemma prediction_lemma:
  assumes "length out = 80"
  shows "\<exists>p. mnist_prediction out = Some p \<and> unat p < 10 \<and>
    (\<forall>e < 10. spikes out e \<le> spikes out (unat p)) \<and> (\<forall>e < unat p. spikes out e < spikes out (unat p))"
proof -
  obtain zs :: "u32 list" where zs: "replicate 10 0 = zs" by blast
  have z: "length zs = 10" "k < 10 \<Longrightarrow> zs ! k = 0" for k
    using zs [symmetric] by (simp_all only: length_replicate nth_replicate)
  obtain sums :: "u32 list" where sums: "sums = map (\<lambda>e. \<Sum>t<8. ucast (out ! (t * 10 + e))) [0..<10]" by blast
  have "sum_timestep_loop out 0 8 zs = Some sums"
    using sum_timestep_loop_result [OF assms, of 0 8 zs] z by (simp add: lessThan_atLeast0 sums)
  then have run: "mnist_prediction out = prediction_loop sums 1 9 0"
    by (simp add: mnist_prediction_def zs)
  have unat: "unat (sums ! e) = spikes out e" if "e < 10" for e
    using that unat_sum_bytes(1) [of 8 "\<lambda>t. out ! (t * 10 + e)"] by (simp add: spikes_def sums)
  have len: "length sums = 10" by (simp add: sums)
  have "\<exists>p. prediction_loop sums 1 9 0 = Some p \<and> unat p < 10 \<and>
      (\<forall>e < 10. sums ! e \<le> sums ! unat p) \<and> (\<forall>e < unat p. sums ! e < sums ! unat p)"
    by (rule prediction_loop_result [OF len]) auto
  then obtain p where p: "prediction_loop sums 1 9 0 = Some p" "unat p < 10"
    "\<forall>e < 10. unat (sums ! e) \<le> unat (sums ! unat p)" "\<forall>e < unat p. unat (sums ! e) < unat (sums ! unat p)"
    by (auto simp: word_le_nat_alt word_less_nat_alt)
  have "spikes out e \<le> spikes out (unat p)" if "e < 10" for e
    using p(2,3) that unat by metis
  moreover have "spikes out e < spikes out (unat p)" if "e < unat p" for e
    using p(4) [rule_format, OF that] unat [OF p(2)] unat [OF less_trans [OF that p(2)]] by simp
  ultimately show ?thesis using run p(1,2) by auto
qed


section \<open>A sample\<close>

text \<open>The frames of a sample: those of its row, in each of the eight timesteps.\<close>

definition sample_input_frames :: "rvrt_artifact_input_mapping_view \<Rightarrow> u32 \<Rightarrow> u32 \<Rightarrow> rvrt_frame list" where
  "sample_input_frames iv s t = snd (input_frames t (pixel_row s) (entries_of iv))"

definition sample_encodable :: "rvrt_artifact_input_mapping_view \<Rightarrow> u32 \<Rightarrow> bool" where
  "sample_encodable iv s \<longleftrightarrow> fst (input_frames 0 (pixel_row s) (entries_of iv)) = RVRT_CODEC_STATUS_DONE"

text \<open>What a view of the application satisfies; \<open>rounds\<close> is the bound of the encoding loop.\<close>

definition input_fits :: "nat \<Rightarrow> rvrt_artifact_input_mapping_view \<Rightarrow> bool" where
  "input_fits rounds iv \<longleftrightarrow> input_view_ok iv \<and> iv_element_count iv = 784 \<and> length (the (iv_entries iv)) < rounds"

lemma entries_of_elem:
  assumes "input_view_ok iv" "e \<in> set (entries_of iv)"
  shows "unat (ie_elem_idx e) < unat (iv_element_count iv)"
proof -
  from assms obtain es x where es: "iv_entries iv = Some es" "x \<in> set es" "e = the x"
    "list_all (input_entry_ok (unat (iv_element_count iv)) (unat (iv_bit_width iv))) es"
    by (auto simp: input_view_ok_def entries_of_def dest: in_set_takeD split: option.splits)
  then show ?thesis by (auto simp: list_all_iff input_entry_ok_def split: option.splits)
qed

lemma sent_row:
  assumes "input_fits rounds iv" "t < 8"
  shows "input_frames t (drop (unat (t * APP_INPUT_BYTES)) (mnist_input s)) (entries_of iv) =
    input_frames t (pixel_row s) (entries_of iv)"
proof (rule input_frames_cong)
  fix e assume "e \<in> set (entries_of iv)"
  with assms(1) have e: "unat (ie_elem_idx e) < 784"
    using entries_of_elem [of iv e] by (simp add: input_fits_def)
  have t: "unat t < 8" using assms(2) by (simp add: word_less_nat_alt)
  then have "unat (t * APP_INPUT_BYTES) = unat t * 784" by (subst unat_mult_u32) simp_all
  with e t show "drop (unat (t * APP_INPUT_BYTES)) (mnist_input s) ! unat (ie_elem_idx e) = pixel_row s ! unat (ie_elem_idx e)"
    by (simp add: nth_mnist_input pixel_row_def)
qed

lemma send_loop_result:
  assumes "input_fits rounds iv" "sample_encodable iv k"
  shows "unat t + n = 8 \<Longrightarrow> idle p (mn_world s) \<Longrightarrow> mn_input s = mnist_input k \<Longrightarrow> length (mn_workspace s) = 32 \<Longrightarrow>
    \<exists>ws w'. mnist_send_loop rounds p iv t n s = Some (Inr ((), s\<lparr>mn_workspace := ws, mn_world := w'\<rparr>)) \<and>
      length ws = 32 \<and> sent (concat (map (\<lambda>i. sample_input_frames iv k (of_nat i)) [unat t..<8])) (mn_world s) w'"
proof (induction n arbitrary: t s)
  case 0
  then show ?case by (intro exI [of _ "mn_workspace s"] exI [of _ "mn_world s"]) (simp add: sent_none)
next
  case (Suc n)
  then have t: "t < 8" "unat t < 8" "unat (t + 1) = unat t + 1"
    by (simp_all add: word_less_nat_alt unat_add_u32)
  obtain es where es: "iv_entries iv = Some es" "input_view_ok iv" "length es < rounds" "iv_element_count iv \<le> 784"
    using assms(1) by (auto simp: input_fits_def input_view_ok_def split: option.splits)
  have ent: "map the (take (unat (iv_entry_count iv)) es) = entries_of iv" by (simp add: entries_of_def es(1))
  let ?row = "drop (unat (t * APP_INPUT_BYTES)) (mn_input s)"
  have row: "unat APP_INPUT_BYTES \<le> length ?row"
    using t(2) Suc.prems(3) by (simp add: unat_mult_u32)
  have fs: "input_frames t ?row (entries_of iv) = (RVRT_CODEC_STATUS_DONE, sample_input_frames iv k t)"
    using assms(2) input_status [of t "pixel_row k" "entries_of iv" 0]
    by (simp add: Suc.prems(3) sent_row [OF assms(1) t(1)] sample_input_frames_def sample_encodable_def prod_eq_iff)
  from send_input_lemma [OF Suc.prems(2) es(2,1,4) row, of WORKSPACE_CAPACITY "mn_workspace s" rounds t, unfolded ent fs]
    es(3) Suc.prems(4)
  obtain ws w1 where w1: "rvrt_session_send_input_timestep rounds (Some p) (Some iv) t (Some ?row) APP_INPUT_BYTES
      (Some (mn_workspace s)) WORKSPACE_CAPACITY (mn_world s) = Some (RVRT_SESSION_OK, Some ws, w1)"
    "length ws = 32" "sent (sample_input_frames iv k t) (mn_world s) w1"
    by auto
  let ?s = "s\<lparr>mn_workspace := ws, mn_world := w1\<rparr>"
  have "idle p (mn_world ?s)" using idle_sent [OF w1(3)] Suc.prems(2) by simp
  from Suc.IH [of "t + 1" ?s, OF _ this] Suc.prems(1,3) t(3) w1(2)
  obtain ws' w2 where w2: "mnist_send_loop rounds p iv (t + 1) n ?s = Some (Inr ((), ?s\<lparr>mn_workspace := ws', mn_world := w2\<rparr>))"
    "length ws' = 32" "sent (concat (map (\<lambda>i. sample_input_frames iv k (of_nat i)) [unat t + 1..<8])) w1 w2"
    by auto
  have "mnist_send_loop rounds p iv t (Suc n) s = Some (Inr ((), s\<lparr>mn_workspace := ws', mn_world := w2\<rparr>))"
    using w1(1) w2(1) by simp
  moreover have "[unat t..<8] = unat t # [unat t + 1..<8]" using t(2) by (simp add: upt_conv_Cons)
  with sent_trans [OF w1(3) w2(3)]
  have "sent (concat (map (\<lambda>i. sample_input_frames iv k (of_nat i)) [unat t..<8])) (mn_world s) w2" by simp
  ultimately show ?case using w2(2) by blast
qed

text \<open>The output the frames stand for; the completion at the end of a barrier is not part of it.\<close>

definition mnist_output :: "rvrt_artifact_output_mapping_view \<Rightarrow> rvrt_frame list \<Rightarrow> u8 list" where
  "mnist_output ov fs =
     (case dtype_bits (ov_dtype ov) of
        None \<Rightarrow> []
      | Some (bits, sg) \<Rightarrow> stream_window ov bits sg APP_TIMESTEPS fs)"

text \<open>Run parameters and output view that pass the contract of the application.\<close>

definition output_fits :: "rvrt_artifact_runtime \<Rightarrow> rvrt_artifact_output_mapping_view \<Rightarrow> bool" where
  "output_fits rt ov \<longleftrightarrow> stream_runtime rt \<and> rt_timesteps rt = APP_TIMESTEPS \<and>
     rt_completion_sync_timestep rt \<le> FC_CTRL_PAYLOAD_MASK \<and> output_view_ok ov \<and> ov_kind ov = RVRT_OUTPUT_DATA \<and>
     ov_element_count ov = APP_OUTPUT_ELEMENTS \<and> dtype_bits (ov_dtype ov) \<noteq> None"

lemma complete_not_written:
  assumes "rvrt_frame_is_complete (Some c)"
  shows "\<not> rvrt_frame_is_work_type1 c"
proof
  assume "rvrt_frame_is_work_type1 c"
  then have "drop_bit 30 (fr_high c) AND 3 = 2"
    by (simp add: rvrt_frame_is_work_type1_def rvrt_frame_is_work_def)
  from arg_cong [OF this, of "\<lambda>x. bit x 0"] have "\<not> bit (fr_high c) 30" by (simp add: bit_simps)
  moreover from assms have "drop_bit 28 (fr_high c) AND 0xF = 0xE" by (simp add: rvrt_frame_is_complete_def)
  from arg_cong [OF this, of "\<lambda>x. bit x 2"] have "bit (fr_high c) 30" by (simp add: bit_simps)
  ultimately show False by simp
qed

lemma decoded_output:
  assumes "output_fits rt ov" "rvrt_frame_is_complete (Some c)" "length fs \<le> 80"
  shows "rvrt_decode_output_frames (Some ov) (Some rt) (Some ((fs @ [c]) @ later)) (of_nat (length fs + 1))
     (Some (replicate 80 0)) 80 = Some (RVRT_CODEC_STATUS_OK, Some (mnist_output ov fs)) \<and>
     length (mnist_output ov fs) = 80"
proof -
  obtain bits sg where d: "dtype_bits (ov_dtype ov) = Some (bits, sg)" using assms(1) by (auto simp: output_fits_def)
  obtain z :: "u8 list" where z: "replicate 80 0 = z" by blast
  have len: "length z = 80" using z [symmetric] by (simp only: length_replicate)
  have n: "length (fs @ [c]) = unat (of_nat (length fs + 1) :: u32)" using assms(3)
    by (simp add: unat_of_nat del: of_nat_add of_nat_Suc)
  have fit: "output_view_ok ov" "ov_kind ov = RVRT_OUTPUT_DATA" "ov_element_count ov \<noteq> 0" "stream_runtime rt"
      "unat (rt_timesteps rt) * unat (ov_element_count ov) \<le> unat (80 :: u32)" "unat (80 :: u32) \<le> length z"
      "unat (rt_timesteps rt) * unat (ov_element_count ov) = 80" "rt_timesteps rt = APP_TIMESTEPS"
    using assms(1) by (simp_all add: output_fits_def len)
  from stream_window_lemma [OF fit(1,2) d fit(3-6) n, of later]
  have "rvrt_decode_output_frames (Some ov) (Some rt) (Some ((fs @ [c]) @ later)) (of_nat (length fs + 1)) (Some z) 80 =
      Some (RVRT_CODEC_STATUS_OK, Some (stream_window ov bits sg APP_TIMESTEPS (fs @ [c])))"
    using fit(7,8) len by simp
  moreover have "stream_window ov bits sg APP_TIMESTEPS (fs @ [c]) = mnist_output ov fs"
    by (simp add: mnist_output_def d stream_window_def data_write_other_kind complete_not_written assms(2))
  moreover have "length (mnist_output ov fs) = 80" using fit(7,8) by (simp add: mnist_output_def d)
  ultimately show ?thesis by (simp only: z simp_thms)
qed

text \<open>The expected outputs stand for the expected labels, so the last comparison never fails.\<close>

abbreviation expected :: "u32 \<Rightarrow> u8 list" where "expected s \<equiv> mnist_expected_output ! unat s"
abbreviation label :: "u32 \<Rightarrow> u8" where "label s \<equiv> mnist_expected_labels ! unat s"

lemma expected_label:
  assumes "s < MNIST_SAMPLE_COUNT"
  shows "mnist_prediction (expected s) = Some (ucast (label s))"
proof -
  have "mnist_prediction (mnist_expected_output ! 0) = Some (ucast (mnist_expected_labels ! 0))"
    "mnist_prediction (mnist_expected_output ! 1) = Some (ucast (mnist_expected_labels ! 1))"
    by code_simp+
  moreover have "unat s = 0 \<or> unat s = 1" using assms by (auto simp: word_less_nat_alt)
  ultimately show ?thesis by metis
qed

lemma judge_result:
  assumes "s < MNIST_SAMPLE_COUNT"
  shows "mnist_judge s out st =
    Some (if out = expected s then Inr ((), say (Mnist_sample_pass s (ucast (label s))) st)
          else Inl (1, say (Mnist_output_mismatch s) st))"
proof -
  have "unat s < 2" using assms by (simp add: word_less_nat_alt)
  then have "rd mnist_expected_output s = Some (expected s)" "rd mnist_expected_labels s = Some (label s)"
    by (simp_all add: mnist_expected_output_def mnist_expected_labels_def)
  with expected_label [OF assms] show ?thesis by (simp add: mnist_judge_def)
qed

text \<open>Between two samples: a live session, and the statics at their sizes.\<close>

definition mnist_ready :: "nat \<Rightarrow> nat \<Rightarrow> rvrt_artifact \<Rightarrow> u32 \<Rightarrow> ('u, 'm) mnist_state \<Rightarrow> bool" where
  "mnist_ready p rx a clock s \<longleftrightarrow> live_at p rx a RVRT_APP_RX_FRAMES clock (mn_world s) \<and>
     length (mn_workspace s) = 32 \<and> length (mn_input s) = 6272"

text \<open>The words a sample sends: the reset, the input timestep by timestep, the synchronization.\<close>

definition sample_words :: "rvrt_artifact \<Rightarrow> rvrt_artifact_runtime \<Rightarrow> rvrt_artifact_input_mapping_view \<Rightarrow> u32 \<Rightarrow> u32 list" where
  "sample_words a rt iv s = frame_words (init_frame a 0) @
     concat (map frame_words (concat (map (\<lambda>t. sample_input_frames iv s (of_nat t)) [0..<8]))) @
     frame_words (sync_frame a 0 (rt_completion_sync_timestep rt))"

text \<open>What the chip returns for a sample: the stale frames of the reset, the output frames of the sample.\<close>

type_synonym sample_answer = "(rvrt_frame list \<times> rvrt_frame) \<times> (rvrt_frame list \<times> rvrt_frame)"

definition answer_ok :: "sample_answer \<Rightarrow> bool" where
  "answer_ok b \<longleftrightarrow> barrier_frames (fst b) \<and> barrier_frames (snd b) \<and> length (fst (snd b)) \<le> 80"

abbreviation answer_words :: "sample_answer list \<Rightarrow> u32 list" where
  "answer_words bs \<equiv> script_words (concat (map (\<lambda>b. [fst b, snd b]) bs))"

abbreviation prompt_waits :: "u32 \<Rightarrow> mnist_env \<Rightarrow> u32 \<Rightarrow> bool" where
  "prompt_waits clock env s \<equiv> env_ok clock APP_TIMEOUT_MS (me_reset env (unat s)) \<and>
     env_ok clock APP_TIMEOUT_MS (me_sync env (unat s))"

lemma mnist_sample_result:
  assumes ready: "mnist_ready p rx a clock s" and views: "input_fits rounds iv" "output_fits rt ov" "root_ok a 0"
    and k: "k < MNIST_SAMPLE_COUNT" "sample_encodable iv k"
    and chip: "hw_up (w_hw (mn_world s)) = answer_words (b # bs) @ rest" "answer_ok b" "prompt_waits clock env k"
  shows "\<exists>s'. mnist_sample rounds env p (rt, iv, ov) k s =
       Some (if mnist_output ov (fst (snd b)) = expected k
             then Inr ((), say (Mnist_sample_pass k (ucast (label k))) s')
             else Inl (1, say (Mnist_output_mismatch k) s')) \<and>
     mnist_ready p rx a clock s' \<and> mn_printed s' = mn_printed s \<and>
     hw_up (w_hw (mn_world s')) = answer_words bs @ rest \<and>
     hw_down (w_hw (mn_world s')) = hw_down (w_hw (mn_world s)) @ sample_words a rt iv k"
proof -
  let ?w = "mn_world s" and ?C = "rt_completion_sync_timestep rt"
  obtain b0 b1 where b: "b = (b0, b1)" by (cases b)
  have live: "live_at p rx a RVRT_APP_RX_FRAMES clock ?w" and ws: "length (mn_workspace s) = 32"
    and inp: "length (mn_input s) = 6272" using ready by (simp_all add: mnist_ready_def)
  have up0: "hw_up (w_hw ?w) = script_words (b0 # b1 # concat (map (\<lambda>b. [fst b, snd b]) bs)) @ rest"
    using chip(1) by (simp add: b)
  have bok: "barrier_frames b0" "barrier_frames b1" "length (fst b1) \<le> 80" using chip(2) by (simp_all add: answer_ok_def b)
  from reset_handled [OF live views(3) answers_script [OF up0 bok(1) live, of APP_TIMEOUT_MS "me_reset env (unat k)"]] chip(3)
  obtain w1 where w1: "rvrt_session_reset_model (Some p) APP_TIMEOUT_MS (me_reset env (unat k)) ?w = Some (RVRT_SESSION_OK, w1)"
    "hw_up (w_hw w1) = script_words (b1 # concat (map (\<lambda>b. [fst b, snd b]) bs)) @ rest"
    "hw_down (w_hw w1) = hw_down (w_hw ?w) @ frame_words (init_frame a 0)"
    "epoch_at p 0 w1" "live_at p rx a RVRT_APP_RX_FRAMES clock w1" by blast
  let ?s1 = "s\<lparr>mn_world := w1, mn_input := mnist_input k\<rparr>"
  have "idle p (mn_world ?s1)" using w1(5) by (simp add: live_at_def ready_def idle_def)
  from send_loop_result [OF views(1) k(2), of 0 8 p ?s1, OF _ this] ws
  obtain ws2 w2 where w2: "mnist_send_loop rounds p iv 0 8 ?s1 = Some (Inr ((), ?s1\<lparr>mn_workspace := ws2, mn_world := w2\<rparr>))"
    "length ws2 = 32" "sent (concat (map (\<lambda>t. sample_input_frames iv k (of_nat t)) [0..<8])) w1 w2"
    by auto
  have live2: "live_at p rx a RVRT_APP_RX_FRAMES clock w2" and ep2: "epoch_at p 0 w2"
    and up2: "hw_up (w_hw w2) = script_words (b1 # concat (map (\<lambda>b. [fst b, snd b]) bs)) @ rest"
    using w1(2,4,5) w2(3) live_sent [OF w2(3)] epoch_sent [OF w2(3)] by (simp_all add: sent_up [OF w2(3)])
  have "0 < ?C" "?C \<le> FC_CTRL_PAYLOAD_MASK"
    using views(2) by (auto simp: output_fits_def stream_runtime_def word_gt_0 word_neq_0_conv word_less_nat_alt)
  from sync_collected [OF live2 views(3) ep2 this answers_script [OF up2 bok(2) live2, of APP_TIMEOUT_MS "me_sync env (unat k)"],
      of None 0] chip(3) bok(3)
  obtain w3 later where w3: "rvrt_session_sync_wait_until (Some p) ?C APP_TIMEOUT_MS (Some None) (Some 0) (me_sync env (unat k)) w2 =
      Some (RVRT_SESSION_OK, Some (Some rx), Some (of_nat (length (fst b1) + 1)), w3)"
    "w_buf w3 rx = (fst b1 @ [snd b1]) @ later" "hw_up (w_hw w3) = answer_words bs @ rest"
    "hw_down (w_hw w3) = hw_down (w_hw w2) @ frame_words (sync_frame a 0 ?C)"
    "live_at p rx a RVRT_APP_RX_FRAMES clock w3" by auto
  have dec: "rvrt_decode_output_frames (Some ov) (Some rt) (Some (w_buf w3 rx)) (of_nat (length (fst b1) + 1))
      (Some (replicate (unat (APP_TIMESTEPS * APP_OUTPUT_ELEMENTS)) 0)) (APP_TIMESTEPS * APP_OUTPUT_ELEMENTS) =
      Some (RVRT_CODEC_STATUS_OK, Some (mnist_output ov (fst b1)))"
  proof -
    have "rvrt_frame_is_complete (Some (snd b1))" using bok(2) by (simp add: barrier_frames_def)
    moreover have "unat (APP_TIMESTEPS * APP_OUTPUT_ELEMENTS) = 80" "(APP_TIMESTEPS * APP_OUTPUT_ELEMENTS :: u32) = 80" by simp_all
    ultimately show ?thesis using decoded_output [OF views(2) _ bok(3)] unfolding w3(2) by metis
  qed
  let ?s3 = "s\<lparr>mn_input := mnist_input k, mn_workspace := ws2, mn_world := w3\<rparr>"
  have "mnist_sample rounds env p (rt, iv, ov) k s = mnist_judge k (mnist_output ov (fst b1)) ?s3"
    using w1(1) w2(1) w3(1) dec mnist_build_input_result [OF k(1), of "mn_input s"] inp
    unfolding mnist_sample_def Let_def by simp
  moreover have "mnist_ready p rx a clock ?s3" using w3(5) w2(2) by (simp add: mnist_ready_def)
  moreover have "hw_down (w_hw w3) = hw_down (w_hw ?w) @ sample_words a rt iv k"
    using w1(3) w2(3) w3(4) by (auto simp: sent_def sample_words_def)
  ultimately show ?thesis using w3(3) by (auto simp: judge_result [OF k(1)] b intro!: exI [of _ ?s3])
qed

end
