(* ===== verification/Mnist_Run.thy ===== *)
theory Mnist_Run
  imports Mnist_Laws
begin

text \<open>
  The MNIST application from its first line to its exit code, and an artifact on which it passes.
\<close>

section \<open>The whole run\<close>

text \<open>
  What the chip decides: sample by sample, an output other than the expected one ends the run, and
  otherwise the label is reported.  The first component is the exit code.
\<close>

fun mnist_report :: "rvrt_artifact_output_mapping_view \<Rightarrow> u32 \<Rightarrow> sample_answer list \<Rightarrow> int \<times> mnist_msg list" where
  "mnist_report ov s [] = (0, [Mnist_pass MNIST_SAMPLE_COUNT APP_TIMESTEPS APP_OUTPUT_ELEMENTS])"
| "mnist_report ov s (b # bs) =
     (if mnist_output ov (fst (snd b)) = expected s
      then (let (code, msgs) = mnist_report ov (s + 1) bs in (code, Mnist_sample_pass s (ucast (label s)) # msgs))
      else (1, [Mnist_output_mismatch s]))"

text \<open>The samples that are run: up to the first mismatch.\<close>

fun samples_run :: "rvrt_artifact_output_mapping_view \<Rightarrow> u32 \<Rightarrow> sample_answer list \<Rightarrow> u32 list" where
  "samples_run ov s [] = []"
| "samples_run ov s (b # bs) =
     s # (if mnist_output ov (fst (snd b)) = expected s then samples_run ov (s + 1) bs else [])"

lemma sample_loop_result:
  assumes views: "input_fits rounds iv" "output_fits rt ov" "root_ok a 0"
    and all: "\<forall>k < MNIST_SAMPLE_COUNT. sample_encodable iv k \<and> prompt_waits clock env k"
  shows "mnist_ready p rx a clock s \<Longrightarrow> unat k + length bs = 2 \<Longrightarrow>
    hw_up (w_hw (mn_world s)) = answer_words bs @ rest \<Longrightarrow> list_all answer_ok bs \<Longrightarrow>
    \<exists>code s'. (case mnist_sample_loop rounds env p (rt, iv, ov) k (length bs) s of
        Some (Inl exit) \<Rightarrow> exit = (code, s')
      | Some (Inr (_, st)) \<Rightarrow>
          (code, s') = (0, say (Mnist_pass MNIST_SAMPLE_COUNT (rt_timesteps rt) (ov_element_count ov)) st)
      | None \<Rightarrow> False) \<and>
      (\<exists>msgs. mnist_report ov k bs = (code, msgs) \<and> mn_printed s' = mn_printed s @ msgs) \<and>
      hw_down (w_hw (mn_world s')) = hw_down (w_hw (mn_world s)) @
        concat (map (sample_words a rt iv) (samples_run ov k bs))"
proof (induction bs arbitrary: k s)
  case Nil
  then show ?case using views(2) by (simp add: say_def output_fits_def)
next
  case (Cons b bs)
  then have k: "k < MNIST_SAMPLE_COUNT" "unat (k + 1) = unat k + 1"
    by (simp_all add: word_less_nat_alt unat_add_u32)
  from mnist_sample_result [OF Cons.prems(1) views k(1) _ Cons.prems(3), of env] all k(1) Cons.prems(4)
  obtain s1 where s1: "mnist_sample rounds env p (rt, iv, ov) k s =
       Some (if mnist_output ov (fst (snd b)) = expected k
             then Inr ((), say (Mnist_sample_pass k (ucast (label k))) s1)
             else Inl (1, say (Mnist_output_mismatch k) s1))"
     "mnist_ready p rx a clock s1" "mn_printed s1 = mn_printed s"
     "hw_up (w_hw (mn_world s1)) = answer_words bs @ rest"
     "hw_down (w_hw (mn_world s1)) = hw_down (w_hw (mn_world s)) @ sample_words a rt iv k" by auto
  show ?case
  proof (cases "mnist_output ov (fst (snd b)) = expected k")
    case False
    with s1 show ?thesis by (simp add: say_def)
  next
    case True
    let ?s = "say (Mnist_sample_pass k (ucast (label k))) s1"
    have "mnist_ready p rx a clock ?s" "hw_up (w_hw (mn_world ?s)) = answer_words bs @ rest"
      "unat (k + 1) + length bs = 2" "list_all answer_ok bs"
      using s1(2,4) k(2) Cons.prems(2,4) by (simp_all add: mnist_ready_def say_def)
    from Cons.IH [OF this(1,3,2,4)] obtain code s' msgs where
      ih: "case mnist_sample_loop rounds env p (rt, iv, ov) (k + 1) (length bs) ?s of
          Some (Inl exit) \<Rightarrow> exit = (code, s')
        | Some (Inr (_, st)) \<Rightarrow>
            (code, s') = (0, say (Mnist_pass MNIST_SAMPLE_COUNT (rt_timesteps rt) (ov_element_count ov)) st)
        | None \<Rightarrow> False"
        "mnist_report ov (k + 1) bs = (code, msgs)" "mn_printed s' = mn_printed ?s @ msgs"
        "hw_down (w_hw (mn_world s')) = hw_down (w_hw (mn_world ?s)) @
          concat (map (sample_words a rt iv) (samples_run ov (k + 1) bs))" by blast
    moreover have "mnist_sample_loop rounds env p (rt, iv, ov) k (length (b # bs)) s =
        mnist_sample_loop rounds env p (rt, iv, ov) (k + 1) (length bs) ?s"
      using s1(1) True by simp
    ultimately show ?thesis using True s1(3,5) by (intro exI [of _ code] exI [of _ s']) (simp add: say_def)
  qed
qed

text \<open>An artifact that passes the contract of the application, with run parameters and views.\<close>

definition mnist_artifact ::
    "nat \<Rightarrow> rvrt_artifact \<Rightarrow> rvrt_artifact_runtime \<Rightarrow> rvrt_artifact_input_mapping_view
       \<Rightarrow> rvrt_artifact_output_mapping_view \<Rightarrow> bool" where
  "mnist_artifact rounds a rt iv ov \<longleftrightarrow>
     rvrt_artifact_thread_runtime (Some a) 0 (Some zero_runtime) = (RVRT_ARTIFACT_OK, Some rt) \<and>
     rvrt_artifact_get_input_mapping_view (Some a) 0 0 (Some zero_input_view) = (RVRT_ARTIFACT_OK, Some iv) \<and>
     rvrt_artifact_get_output_mapping_view (Some a) 0 0 (Some zero_output_view) = Some (RVRT_ARTIFACT_OK, Some ov) \<and>
     mnist_contract rt iv ov \<and> root_ok a 0 \<and> length (the (iv_entries iv)) < rounds \<and>
     unat (rt_completion_sync_timestep rt) = unat (rt_pipeline_latency rt) + 7 \<and> rt_pipeline_latency rt \<noteq> 0 \<and>
     rt_completion_sync_timestep rt \<le> FC_CTRL_PAYLOAD_MASK \<and> (\<forall>k < MNIST_SAMPLE_COUNT. sample_encodable iv k)"

text \<open>The configuration an artifact carries, when it can be sent.\<close>

definition configuration :: "rvrt_artifact \<Rightarrow> rvrt_frame list \<Rightarrow> bool" where
  "configuration a fs \<longleftrightarrow> (\<exists>c ws. config_of a c ws \<and> ws \<noteq> [] \<and> even (length ws) \<and>
     (cf_word_order c = WordOrder_HIGH_FIRST \<or> cf_word_order c = WordOrder_LOW_FIRST) \<and> fs = config_frames_of c ws)"

lemma dtype_of_accepted_output:
  assumes "output_view_ok ov" "ov_kind ov = RVRT_OUTPUT_DATA" "ov_entry_count ov = 10"
  shows "dtype_bits (ov_dtype ov) \<noteq> None"
proof -
  from assms have "1 \<le> ov_dtype ov" "ov_dtype ov \<le> 8"
    by (auto simp: output_view_ok_def split: option.splits)
  then have "unat (ov_dtype ov) \<in> {1, 2, 3, 4, 5, 6, 7, 8}" by (auto simp: word_le_nat_alt)
  then show ?thesis by (auto simp: dtype_bits_def k_dtype_info_def)
qed

lemma artifact_views_fit:
  assumes "accepted a" "mnist_artifact rounds a rt iv ov"
  shows "input_fits rounds iv" "output_fits rt ov" "root_ok a 0"
proof -
  have c: "rt_timesteps rt = 8" "iv_element_count iv = 784" "ov_kind ov = RVRT_OUTPUT_DATA" "ov_entry_count ov = 10"
    "ov_element_count ov = 10" "rt_output_time_encoding rt = RVRT_OUTPUT_TIME_ENCODING_STREAM"
    using assms(2) by (auto simp: mnist_artifact_def mnist_contract_def)
  have "rvrt_artifact_get_input_mapping_view (Some a) 0 0 (Some zero_input_view) = (RVRT_ARTIFACT_OK, Some iv)"
    using assms(2) by (simp add: mnist_artifact_def)
  from get_input_mapping_view_ok [OF assms(1) this] have "input_view_ok iv" by simp
  with assms(2) c show "input_fits rounds iv" by (simp add: input_fits_def mnist_artifact_def)
  obtain st v where v: "rvrt_artifact_get_output_mapping_view (Some a) 0 0 (Some zero_output_view) = Some (st, Some v)"
    "st = RVRT_ARTIFACT_OK \<and> output_view_ok v \<or> st = RVRT_ARTIFACT_OUT_OF_RANGE"
    by (rule get_output_mapping_view_ok [OF assms(1)])
  moreover have "rvrt_artifact_get_output_mapping_view (Some a) 0 0 (Some zero_output_view) = Some (RVRT_ARTIFACT_OK, Some ov)"
    using assms(2) by (simp add: mnist_artifact_def)
  ultimately have ov: "output_view_ok ov" by auto
  with assms(2) c dtype_of_accepted_output [OF ov c(3,4)] show "output_fits rt ov"
    by (simp add: output_fits_def mnist_artifact_def stream_runtime_def)
  show "root_ok a 0" using assms(2) by (simp add: mnist_artifact_def)
qed

text \<open>Opening the session claims the chip and sends the configuration.\<close>

lemma open_session_result:
  assumes "mnist_artifact rounds a rt iv ov" "configuration a fs" "me_register env = 0"
    and free: "w_active (mn_world s) = None" "81 \<le> length (w_buf (mn_world s) rx)"
    and statics: "length (mn_workspace s) = 32" "length (mn_input s) = 6272"
  shows "\<exists>s'. mnist_open_session env p rx a s = Some (Inr ((), s')) \<and>
     mnist_ready p rx a (w_clock (mn_world s)) s' \<and> mn_printed s' = mn_printed s \<and>
     hw_up (w_hw (mn_world s')) = hw_up (w_hw (mn_world s)) \<and>
     hw_down (w_hw (mn_world s')) = hw_down (w_hw (mn_world s)) @ concat (map frame_words fs)"
proof -
  let ?w = "set_session p zero_session (mn_world s)"
  let ?cfg = "\<lparr>cfg_artifact = Some (p, a), cfg_thread_index = 0, cfg_rx_frames = Some rx, cfg_rx_capacity = RVRT_APP_RX_FRAMES\<rparr>"
  have rt: "rvrt_artifact_thread_runtime (Some a) 0 (Some zero_runtime) = (RVRT_ARTIFACT_OK, Some rt)"
    using assms(1) by (simp add: mnist_artifact_def)
  from session_init_claims [of ?w p ?cfg "(p, a)" "Some rx" RVRT_APP_RX_FRAMES 0] free(1) obtain st w1 where
    init: "rvrt_session_init 0 (Some p) (Some ?cfg) ?w = (st, w1)"
      "if st = RVRT_SESSION_OK then claims p (p, a) (Some rx) RVRT_APP_RX_FRAMES ?w w1 else cleared p ?w w1" by auto
  have "fst (rvrt_session_init 0 (Some p) (Some ?cfg) ?w) = RVRT_SESSION_OK"
    using free(1) rt by (simp add: rvrt_session_init_def register_irq_def Let_def)
  with init have st: "st = RVRT_SESSION_OK" and own: "claims p (p, a) (Some rx) RVRT_APP_RX_FRAMES ?w w1" by simp_all
  from assms(2) obtain c ws where conf: "config_of a c ws" "ws \<noteq> []" "even (length ws)"
    "cf_word_order c = WordOrder_HIGH_FIRST \<or> cf_word_order c = WordOrder_LOW_FIRST" "fs = config_frames_of c ws"
    by (auto simp: configuration_def)
  have "se_artifact (w_session w1 p) = Some (p, a)" using own by (simp add: claims_def)
  from load_config_lemma [OF claimed_idle [OF own] this conf(1)] conf(2-5) obtain w2 where
    w2: "rvrt_session_load_config (Some p) w1 = Some (RVRT_SESSION_OK, w2)" "sent fs w1 w2" by auto
  have "unat RVRT_APP_RX_FRAMES \<le> length (w_buf w1 rx)"
    using own free(2) by (simp add: claims_def)
  then have "live_at p rx a RVRT_APP_RX_FRAMES (w_clock (mn_world s)) w1"
    using own by (simp add: live_at_def ready_def claims_def)
  then have "mnist_ready p rx a (w_clock (mn_world s)) (s\<lparr>mn_world := w2\<rparr>)"
    using statics by (simp add: mnist_ready_def live_sent [OF w2(2)])
  moreover have "mnist_open_session env p rx a s = Some (Inr ((), s\<lparr>mn_world := w2\<rparr>))"
    using init(1) st w2(1) by (simp add: mnist_open_session_def assms(3))
  moreover have "hw_up (w_hw w2) = hw_up (w_hw (mn_world s))"
    "hw_down (w_hw w2) = hw_down (w_hw (mn_world s)) @ concat (map frame_words fs)"
    using own w2(2) by (auto simp: claims_def sent_def)
  ultimately show ?thesis by (intro exI [of _ "s\<lparr>mn_world := w2\<rparr>"]) simp
qed

text \<open>C6.  On a chip that answers every barrier in time the application ends, and the frames the chip
  returned decide the exit code and everything it prints: a sample whose decoded output is the expected
  one is reported with its label, the first other output ends the run with code 1, and the final line and
  code 0 appear exactly when both samples are as expected.  Until then it has sent the configuration and, for
  every sample run, the reset, the pixels in all eight timesteps and one synchronization.\<close>

theorem mnist_verdict:
  assumes "rvrt_artifact_read verify get_root (Some (addr, bytes)) n (Some zero_artifact) = (RVRT_ARTIFACT_OK, Some a)"
    and "mnist_artifact rounds a rt iv ov" "configuration a fs" "me_register env = 0"
    and "w_active (mn_world s) = None" "81 \<le> length (w_buf (mn_world s) rx)" "length (mn_workspace s) = 32" "length (mn_input s) = 6272"
    and "\<forall>k < MNIST_SAMPLE_COUNT. prompt_waits (w_clock (mn_world s)) env k"
    and "hw_up (w_hw (mn_world s)) = answer_words bs @ rest" "length bs = 2" "list_all answer_ok bs"
  shows "\<exists>code s' msgs. mnist_main verify get_root (addr, bytes) n rounds env p rx s = Some (code, s') \<and>
     mnist_report ov 0 bs = (code, msgs) \<and> mn_printed s' = mn_printed s @ msgs \<and>
     hw_down (w_hw (mn_world s')) = hw_down (w_hw (mn_world s)) @ concat (map frame_words fs) @
       concat (map (sample_words a rt iv) (samples_run ov 0 bs))"
proof -
  let ?s = "s\<lparr>mn_debug := rv_debug_set_level RV_DEBUG_ERROR (mn_debug s)\<rparr>"
  have acc: "accepted a"
    using artifact_read_lemma [of verify get_root addr bytes n zero_artifact] assms(1)
      read_contract_accepted [of verify get_root addr bytes n] by (auto simp: Let_def split: if_splits)
  note views = artifact_views_fit [OF acc assms(2)]
  have read: "mnist_read_artifact verify get_root (addr, bytes) n ?s = Some (Inr ((a, rt, iv, ov), ?s))"
    using assms(1,2) by (simp add: mnist_read_artifact_def mnist_artifact_def)
  from open_session_result [OF assms(2-4), of ?s rx p] assms(5-8) obtain s1 where
    s1: "mnist_open_session env p rx a ?s = Some (Inr ((), s1))" "mnist_ready p rx a (w_clock (mn_world s)) s1"
      "mn_printed s1 = mn_printed s" "hw_up (w_hw (mn_world s1)) = hw_up (w_hw (mn_world s))"
      "hw_down (w_hw (mn_world s1)) = hw_down (w_hw (mn_world s)) @ concat (map frame_words fs)" by auto
  have all: "\<forall>k < MNIST_SAMPLE_COUNT. sample_encodable iv k \<and> prompt_waits (w_clock (mn_world s)) env k"
    using assms(2,9) by (simp add: mnist_artifact_def)
  from sample_loop_result [OF views all s1(2), of 0 bs rest] s1(3-5) assms(10-12) obtain code s' msgs where
    loop: "case mnist_sample_loop rounds env p (rt, iv, ov) 0 2 s1 of
        Some (Inl exit) \<Rightarrow> exit = (code, s')
      | Some (Inr (_, st)) \<Rightarrow>
          (code, s') = (0, say (Mnist_pass MNIST_SAMPLE_COUNT (rt_timesteps rt) (ov_element_count ov)) st)
      | None \<Rightarrow> False"
      "mnist_report ov 0 bs = (code, msgs)" "mn_printed s' = mn_printed s @ msgs"
      "hw_down (w_hw (mn_world s')) = hw_down (w_hw (mn_world s)) @ concat (map frame_words fs) @
        concat (map (sample_words a rt iv) (samples_run ov 0 bs))" by auto
  have "mnist_main verify get_root (addr, bytes) n rounds env p rx s = Some (code, s')"
    using read s1(1) loop(1)
    by (cases "mnist_sample_loop rounds env p (rt, iv, ov) 0 2 s1") (auto simp: mnist_main_def split: sum.splits)
  with loop(2-4) show ?thesis by blast
qed


text \<open>
  An artifact for the application: pixel \<open>i\<close> goes to element \<open>i\<close>, and class \<open>e\<close> is the output with key \<open>e\<close>.
\<close>

definition mnist_in_entries :: "fbs_InputEntry option list" where
  "mnist_in_entries = map (\<lambda>i. Some (demo_in_entry (of_nat i) 5)) [0..<784]"

definition mnist_out_entries :: "fbs_OutputEntry option list" where
  "mnist_out_entries = map (\<lambda>i. Some (demo_out_entry i i)) [0, 1, 2, 3, 4, 5, 6, 7, 8, 9]"

definition mnist_thread :: fbs_ThreadIOMapping where
  "mnist_thread =
     \<lparr>th_root_core_offset = Some \<lparr>fbs_xy = 0, fbs_x = 0, fbs_y = 0\<rparr>,
      th_runtime = Some \<lparr>rp_timesteps = 8, rp_tick_depth = 3, rp_sync_steps = 10, rp_decode_mode = 0\<rparr>,
      th_input_mappings = Some \<lparr>ims_items = Some
        [Some \<lparr>im_shape = Some \<lparr>sh_size = Some [28, 28]\<rparr>, im_bit_width = 8, im_entries = Some mnist_in_entries\<rparr>]\<rparr>,
      th_output_mappings = Some \<lparr>oms_target_lcn = 0, oms_items = Some
        [Some \<lparr>om_shape = Some \<lparr>sh_size = Some [10]\<rparr>, om_kind = OutputKind_DATA, om_bit_width = 8,
               om_entries = Some mnist_out_entries\<rparr>]\<rparr>\<rparr>"

definition mnist_root :: fbs_CompileArtifacts where
  "mnist_root =
     \<lparr>ca_schema_version = 1, ca_io_mapping = Some \<lparr>io_threads = Some [Some mnist_thread]\<rparr>,
      ca_config_frames = Some \<lparr>cf_words = Some [1, 2, 3, 4], cf_word_order = WordOrder_HIGH_FIRST\<rparr>\<rparr>"

definition mnist_in_view :: rvrt_artifact_input_mapping_view where
  "mnist_in_view = \<lparr>iv_entries = Some mnist_in_entries, iv_entry_count = 784, iv_element_count = 784, iv_bit_width = 8\<rparr>"

definition mnist_out_view :: rvrt_artifact_output_mapping_view where
  "mnist_out_view = \<lparr>ov_entries = Some mnist_out_entries, ov_entry_count = 10, ov_element_count = 10,
                     ov_dtype = 7, ov_kind = 0, ov_target_lcn = 0\<rparr>"

definition mnist_runtime :: rvrt_artifact_runtime where
  "mnist_runtime = \<lparr>rt_timesteps = 8, rt_pipeline_latency = 3, rt_completion_sync_timestep = 10, rt_output_time_encoding = 0\<rparr>"

lemma mnist_in_entries_facts: "length mnist_in_entries = 784" "list_all (input_entry_ok 784 8) mnist_in_entries"
proof -
  have "unat (of_nat i :: u32) < 784" if "i < 784" for i using that by (simp add: unat_of_nat)
  then show "list_all (input_entry_ok 784 8) mnist_in_entries"
    by (auto simp: mnist_in_entries_def list_all_iff input_entry_ok_def demo_in_entry_def dtype_width_def)
qed (simp add: mnist_in_entries_def)

lemmas mnist_root_defs = mnist_root_def mnist_thread_def artifact_of_def

lemma mnist_root_contract: "read_contract (\<lambda>_ _. True) (\<lambda>_. mnist_root) 0 [7] 1"
  using mnist_in_entries_facts
  by (simp add: read_contract_def mnist_root_defs io_mapping_ok_def thread_ok_def input_mapping_ok_def
      output_mapping_ok_def shape_count_def dims_ok_def numel_of_def mnist_out_entries_def demo_out_entry_def
      output_entry_ok_def output_keys_def dtype_width_def)

lemma mnist_root_read:
  "rvrt_artifact_read (\<lambda>_ _. True) (\<lambda>_. mnist_root) (Some (0, [7])) 1 (Some zero_artifact) =
   (RVRT_ARTIFACT_OK, Some (artifact_of mnist_root))"
  using artifact_read_lemma [of "\<lambda>_ _. True" "\<lambda>_. mnist_root" 0 "[7]" 1 zero_artifact] mnist_root_contract
  by (simp add: Let_def prod_eq_iff)

lemma input_frames_done:
  "(\<And>e. e \<in> set es \<Longrightarrow> dtype_bits (scast (ie_dtype e)) = Some (8, False) \<and> work_entry_ok (entry_of e)) \<Longrightarrow>
   fst (input_frames ts xs es) = RVRT_CODEC_STATUS_DONE"
proof (induction es)
  case (Cons e es)
  moreover have "unat (xs ! unat (ie_elem_idx e)) < 256" using unsigned_less [of "xs ! unat (ie_elem_idx e)", where ?'a = nat] by simp
  ultimately show ?case by (auto simp: Let_def dtype_range_def split: prod.splits)
qed simp

lemma mnist_root_artifact: "mnist_artifact 785 (artifact_of mnist_root) mnist_runtime mnist_in_view mnist_out_view"
proof -
  have "rvrt_artifact_thread_runtime (Some (artifact_of mnist_root)) 0 (Some zero_runtime) = (RVRT_ARTIFACT_OK, Some mnist_runtime)"
    by (simp add: rvrt_artifact_thread_runtime_def thread_at_def vector_at_def mnist_root_defs mnist_runtime_def)
  moreover have "rvrt_artifact_get_input_mapping_view (Some (artifact_of mnist_root)) 0 0 (Some zero_input_view) =
      (RVRT_ARTIFACT_OK, Some mnist_in_view)"
    by (simp add: rvrt_artifact_get_input_mapping_view_def input_at_def thread_at_def vector_at_def mnist_root_defs
        copy_shape_def mnist_in_view_def mnist_in_entries_facts)
  moreover have "rvrt_artifact_get_output_mapping_view (Some (artifact_of mnist_root)) 0 0 (Some zero_output_view) =
      Some (RVRT_ARTIFACT_OK, Some mnist_out_view)"
    by (simp add: rvrt_artifact_get_output_mapping_view_def output_at_def thread_at_def vector_at_def mnist_root_defs
        copy_shape_def mnist_out_view_def mnist_out_entries_def demo_out_entry_def)
  moreover have "mnist_contract mnist_runtime mnist_in_view mnist_out_view"
    by (simp add: mnist_contract_def mnist_runtime_def mnist_in_view_def mnist_out_view_def)
  moreover have "root_ok (artifact_of mnist_root) 0"
    by (simp add: root_ok_def rvrt_artifact_thread_root_core_offset_def thread_at_def vector_at_def mnist_root_defs
        fill_core_offset_def dest_ok_def sm6_range_def zero_copy_count_def)
  moreover have "sample_encodable mnist_in_view k" for k
  proof -
    have "work_entry_ok (entry_of (demo_in_entry i 5))" "dtype_bits (scast (ie_dtype (demo_in_entry i 5))) = Some (8, False)" for i
      by (simp_all add: work_entry_ok_def entry_of_def demo_in_entry_def dest_ok_def sm6_range_def dtype_bits_def k_dtype_info_def)
    moreover have "set (entries_of mnist_in_view) \<subseteq> the ` set mnist_in_entries"
      by (auto simp: entries_of_def mnist_in_view_def dest: in_set_takeD)
    ultimately show ?thesis
      unfolding sample_encodable_def by (intro input_frames_done) (auto simp: mnist_in_entries_def)
  qed
  ultimately show ?thesis
    by (simp add: mnist_artifact_def mnist_in_view_def mnist_in_entries_facts mnist_runtime_def)
qed

text \<open>A chip that answers each sample with one spike of the right class in every timestep.\<close>

definition spike_frame :: "u32 \<Rightarrow> u32 \<Rightarrow> rvrt_frame" where
  "spike_frame e t = \<lparr>fr_high = 0x80000000, fr_low = push_bit 17 t OR push_bit 8 e OR 1\<rparr>"

definition mnist_answers :: "sample_answer list" where
  "mnist_answers = map (\<lambda>e. (([demo_work], demo_complete), (map (spike_frame e) [0, 1, 2, 3, 4, 5, 6, 7], demo_complete))) [7, 2]"

lemma mnist_answers_report:
  "mnist_report mnist_out_view 0 mnist_answers = (0, [Mnist_sample_pass 0 7, Mnist_sample_pass 1 2, Mnist_pass 2 8 10])"
  by code_simp

definition mnist_demo_env :: mnist_env where
  "mnist_demo_env = \<lparr>me_register = 0, me_reset = (\<lambda>_. demo_env), me_sync = (\<lambda>_. demo_env)\<rparr>"

definition mnist_demo_state :: "(unit, unit) mnist_state" where
  "mnist_demo_state =
     \<lparr>mn_workspace = replicate 32 zero_frame, mn_input = replicate 6272 0,
      mn_debug = \<lparr>g_rv_debug_level = 0, g_rv_debug_sink = None, g_rv_debug_user_data = None, dbg_mem = (), dbg_console = []\<rparr>,
      mn_printed = [],
      mn_world = (demo_world (answer_words mnist_answers))\<lparr>w_active := None, w_buf := (\<lambda>_. replicate 81 zero_frame)\<rparr>\<rparr>"

theorem mnist_verdict_witness:
  "\<exists>s'. mnist_main (\<lambda>_ _. True) (\<lambda>_. mnist_root) (0, [7]) 1 785 mnist_demo_env 0 0 mnist_demo_state = Some (0, s') \<and>
     mn_printed s' = [Mnist_sample_pass 0 7, Mnist_sample_pass 1 2, Mnist_pass 2 8 10]"
proof -
  have state: "length (mn_workspace mnist_demo_state) = 32" "length (mn_input mnist_demo_state) = 6272"
    "w_active (mn_world mnist_demo_state) = None" "81 \<le> length (w_buf (mn_world mnist_demo_state) 0)"
    "w_clock (mn_world mnist_demo_state) = 16000000" "mn_printed mnist_demo_state = []"
    "hw_up (w_hw (mn_world mnist_demo_state)) = answer_words mnist_answers @ []"
    unfolding mnist_demo_state_def by (simp_all only: mnist_state.simps world.simps length_replicate demo_world_def
        noc_hw.simps append_Nil2 order_refl)
  have conf: "configuration (artifact_of mnist_root) [\<lparr>fr_high = 1, fr_low = 2\<rparr>, \<lparr>fr_high = 3, fr_low = 4\<rparr>]"
    unfolding configuration_def
    by (rule exI [of _ "\<lparr>cf_words = Some [1, 2, 3, 4], cf_word_order = WordOrder_HIGH_FIRST\<rparr>"], rule exI [of _ "[1, 2, 3, 4]"])
      (simp add: config_of_def mnist_root_defs)
  have "env_ok 16000000 2000 demo_env"
    unfolding env_ok_def
    by (rule exI [of _ "[hd (we_polls demo_env)]"], rule exI [of _ "we_polls demo_env ! 1"]) (simp add: demo_env_def)
  then have env: "\<forall>k < MNIST_SAMPLE_COUNT. prompt_waits (w_clock (mn_world mnist_demo_state)) mnist_demo_env k"
    by (simp add: state(5) mnist_demo_env_def)
  have "length mnist_answers = 2" "list_all answer_ok mnist_answers" by code_simp+
  from mnist_verdict [OF mnist_root_read mnist_root_artifact conf _ state(3,4,1,2) env state(7) this]
  show ?thesis by (auto simp: mnist_answers_report state(6) mnist_demo_env_def)
qed

end
