(* ===== verification/SnnProfile.thy ===== *)
theory SnnProfile
  imports SnnService UartUtils
begin

text \<open>
  The profiler of the SNN head, \<open>application/baremetal/snn_head/src/snn_head_profile.c\<close>, and the text
  report it writes: the build with \<open>SNN_HEAD_TIMING\<close> set.  The static variables are the record
  \<open>snn_profile\<close>; an operation that reads the cycle counter takes the reading as its argument \<open>now\<close>.
  A text is the list of its bytes.
\<close>

section \<open>State\<close>

abbreviation (input) SNN_HEAD_LAYER_COUNT :: u32 where "SNN_HEAD_LAYER_COUNT \<equiv> 5"

abbreviation (input) SNN_HEAD_PROFILE_CPU_PREPROCESS :: u32 where "SNN_HEAD_PROFILE_CPU_PREPROCESS \<equiv> 0"
abbreviation (input) SNN_HEAD_PROFILE_ARTIFACT_VALIDATE :: u32 where "SNN_HEAD_PROFILE_ARTIFACT_VALIDATE \<equiv> 1"
abbreviation (input) SNN_HEAD_PROFILE_DEPLOY :: u32 where "SNN_HEAD_PROFILE_DEPLOY \<equiv> 2"
abbreviation (input) SNN_HEAD_PROFILE_SAMPLE :: u32 where "SNN_HEAD_PROFILE_SAMPLE \<equiv> 3"
abbreviation (input) SNN_HEAD_PROFILE_RELEASE :: u32 where "SNN_HEAD_PROFILE_RELEASE \<equiv> 4"
abbreviation (input) SNN_HEAD_PROFILE_CPU_POSTPROCESS :: u32 where "SNN_HEAD_PROFILE_CPU_POSTPROCESS \<equiv> 5"

record layer_profile =
  lp_total_cycles :: u64
  lp_cpu_preprocess_cycles :: u64
  lp_artifact_validate_cycles :: u64
  lp_deploy_cycles :: u64
  lp_sample_cycles :: u64
  lp_config_submit_cycles :: u64
  lp_input_encode_cycles :: u64
  lp_input_submit_cycles :: u64
  lp_init_round_trip_cycles :: u64
  lp_sync_round_trip_cycles :: u64
  lp_release_cycles :: u64
  lp_cpu_postprocess_cycles :: u64
  lp_residual_cycles :: u64
  lp_sync_wait_cycles :: u64
  lp_rx_irq_service_cycles :: u64
  lp_sync_round_trip_steps :: "u64 list"
  lp_config_frames :: u32
  lp_input_frames :: u32
  lp_output_work_frames :: u32
  lp_complete_frames :: u32
  lp_rx_irq_count :: u32

record snn_profile =
  pr_layers :: "layer_profile list"
  pr_active_layer :: u32
  pr_active_phase :: u32
  pr_layer_start :: u64
  pr_phase_start :: u64

definition zero_layer_profile :: layer_profile where
  "zero_layer_profile =
     \<lparr>lp_total_cycles = 0, lp_cpu_preprocess_cycles = 0, lp_artifact_validate_cycles = 0,
      lp_deploy_cycles = 0, lp_sample_cycles = 0, lp_config_submit_cycles = 0,
      lp_input_encode_cycles = 0, lp_input_submit_cycles = 0, lp_init_round_trip_cycles = 0,
      lp_sync_round_trip_cycles = 0, lp_release_cycles = 0, lp_cpu_postprocess_cycles = 0,
      lp_residual_cycles = 0, lp_sync_wait_cycles = 0, lp_rx_irq_service_cycles = 0,
      lp_sync_round_trip_steps = replicate 8 0, lp_config_frames = 0, lp_input_frames = 0,
      lp_output_work_frames = 0, lp_complete_frames = 0, lp_rx_irq_count = 0\<rparr>"

text \<open>The initial values of the static variables.\<close>

definition snn_profile_init :: snn_profile where
  "snn_profile_init =
     \<lparr>pr_layers = replicate 5 zero_layer_profile, pr_active_layer = SNN_HEAD_LAYER_COUNT,
      pr_active_phase = 0, pr_layer_start = 0, pr_phase_start = 0\<rparr>"


section \<open>Marks\<close>

text \<open>
  \<open>phase_cycles\<close> returns the address of a field.  It is the update of that field, and the assignments
  through the address apply the update.
\<close>

definition phase_cycles :: "u32 \<Rightarrow> ((u64 \<Rightarrow> u64) \<Rightarrow> layer_profile \<Rightarrow> layer_profile) option" where
  "phase_cycles phase =
     (if phase = SNN_HEAD_PROFILE_CPU_PREPROCESS then Some lp_cpu_preprocess_cycles_update
      else if phase = SNN_HEAD_PROFILE_ARTIFACT_VALIDATE then Some lp_artifact_validate_cycles_update
      else if phase = SNN_HEAD_PROFILE_DEPLOY then Some lp_deploy_cycles_update
      else if phase = SNN_HEAD_PROFILE_SAMPLE then Some lp_sample_cycles_update
      else if phase = SNN_HEAD_PROFILE_RELEASE then Some lp_release_cycles_update
      else if phase = SNN_HEAD_PROFILE_CPU_POSTPROCESS then Some lp_cpu_postprocess_cycles_update
      else None)"

definition upd_layer :: "u32 \<Rightarrow> (layer_profile \<Rightarrow> layer_profile) \<Rightarrow> snn_profile \<Rightarrow> snn_profile" where
  "upd_layer layer f p = p\<lparr>pr_layers := (pr_layers p)[unat layer := f (pr_layers p ! unat layer)]\<rparr>"

definition snn_head_profile_reset :: "snn_profile \<Rightarrow> snn_profile" where
  "snn_head_profile_reset p =
     p\<lparr>pr_layers := replicate 5 zero_layer_profile, pr_active_layer := SNN_HEAD_LAYER_COUNT\<rparr>"

definition snn_head_profile_layer_begin :: "u32 \<Rightarrow> u64 \<Rightarrow> snn_profile \<Rightarrow> snn_profile" where
  "snn_head_profile_layer_begin layer now p =
     (if SNN_HEAD_LAYER_COUNT \<le> layer then p
      else p\<lparr>pr_active_layer := layer, pr_layer_start := now\<rparr>)"

definition accounted_cycles :: "layer_profile \<Rightarrow> u64" where
  "accounted_cycles entry =
     lp_cpu_preprocess_cycles entry + lp_artifact_validate_cycles entry + lp_deploy_cycles entry +
     lp_sample_cycles entry + lp_release_cycles entry + lp_cpu_postprocess_cycles entry"

definition snn_head_profile_layer_end :: "u32 \<Rightarrow> u64 \<Rightarrow> snn_profile \<Rightarrow> snn_profile" where
  "snn_head_profile_layer_end layer now p =
     (if pr_active_layer p \<noteq> layer \<or> SNN_HEAD_LAYER_COUNT \<le> layer then p
      else
        (upd_layer layer
           (\<lambda>entry.
              let entry = entry\<lparr>lp_total_cycles := now - pr_layer_start p\<rparr>;
                  accounted = accounted_cycles entry
              in entry\<lparr>lp_residual_cycles :=
                   if accounted < lp_total_cycles entry then lp_total_cycles entry - accounted else 0\<rparr>) p)
          \<lparr>pr_active_layer := SNN_HEAD_LAYER_COUNT\<rparr>)"

definition snn_head_profile_phase_begin :: "u32 \<Rightarrow> u64 \<Rightarrow> snn_profile \<Rightarrow> snn_profile" where
  "snn_head_profile_phase_begin phase now p =
     (if SNN_HEAD_LAYER_COUNT \<le> pr_active_layer p \<or> SNN_HEAD_PROFILE_CPU_POSTPROCESS + 1 \<le> phase then p
      else p\<lparr>pr_active_phase := phase, pr_phase_start := now\<rparr>)"

definition snn_head_profile_phase_end :: "u32 \<Rightarrow> u64 \<Rightarrow> snn_profile \<Rightarrow> snn_profile" where
  "snn_head_profile_phase_end phase now p =
     (if SNN_HEAD_LAYER_COUNT \<le> pr_active_layer p \<or> pr_active_phase p \<noteq> phase then p
      else
        (case phase_cycles phase of
           None \<Rightarrow> p
         | Some destination \<Rightarrow>
             upd_layer (pr_active_layer p) (destination (\<lambda>cycles. cycles + (now - pr_phase_start p))) p))"

text \<open>The arguments of \<open>snn_head_profile_record_runner\<close>, in their order.\<close>

record runner_record =
  rr_sync_round_trip_cycles :: "u64 list"
  rr_sync_round_trip_count :: u32
  rr_init_round_trip_cycles :: u64
  rr_config_submit_cycles :: u64
  rr_input_encode_cycles :: u64
  rr_input_submit_cycles :: u64
  rr_sync_wait_cycles :: u64
  rr_rx_irq_service_cycles :: u64
  rr_config_frames :: u32
  rr_input_frames :: u32
  rr_output_work_frames :: u32
  rr_complete_frames :: u32
  rr_rx_irq_count :: u32

text \<open>The loop over the timesteps, from \<open>timestep\<close> on; \<open>todo\<close> is what is left of the eight.\<close>

fun record_steps :: "u64 list \<Rightarrow> u32 \<Rightarrow> u32 \<Rightarrow> nat \<Rightarrow> layer_profile \<Rightarrow> layer_profile option" where
  "record_steps cycles sync_count timestep 0 entry = Some entry"
| "record_steps cycles sync_count timestep (Suc todo) entry =
     (if timestep < sync_count then
        do {
          c \<leftarrow> rd cycles timestep;
          steps \<leftarrow> wr (lp_sync_round_trip_steps entry) timestep c;
          record_steps cycles sync_count (timestep + 1) todo
            (entry\<lparr>lp_sync_round_trip_steps := steps,
                   lp_sync_round_trip_cycles := lp_sync_round_trip_cycles entry + c\<rparr>)
        }
      else Some entry)"

definition snn_head_profile_record_runner :: "runner_record \<Rightarrow> snn_profile \<Rightarrow> snn_profile option" where
  "snn_head_profile_record_runner r p =
     (if SNN_HEAD_LAYER_COUNT \<le> pr_active_layer p then Some p
      else
        let entry = pr_layers p ! unat (pr_active_layer p);
            entry = entry\<lparr>lp_init_round_trip_cycles := lp_init_round_trip_cycles entry + rr_init_round_trip_cycles r,
              lp_config_submit_cycles := lp_config_submit_cycles entry + rr_config_submit_cycles r,
              lp_input_encode_cycles := lp_input_encode_cycles entry + rr_input_encode_cycles r,
              lp_input_submit_cycles := lp_input_submit_cycles entry + rr_input_submit_cycles r,
              lp_sync_wait_cycles := lp_sync_wait_cycles entry + rr_sync_wait_cycles r,
              lp_rx_irq_service_cycles := lp_rx_irq_service_cycles entry + rr_rx_irq_service_cycles r,
              lp_config_frames := lp_config_frames entry + rr_config_frames r,
              lp_input_frames := lp_input_frames entry + rr_input_frames r,
              lp_output_work_frames := lp_output_work_frames entry + rr_output_work_frames r,
              lp_complete_frames := lp_complete_frames entry + rr_complete_frames r,
              lp_rx_irq_count := lp_rx_irq_count entry + rr_rx_irq_count r\<rparr>
        in do {
             entry \<leftarrow> record_steps (rr_sync_round_trip_cycles r) (rr_sync_round_trip_count r) 0 8 entry;
             Some (upd_layer (pr_active_layer p) (\<lambda>_. entry) p)
           })"


section \<open>The marks of a run\<close>

text \<open>
  The calls the profiled build makes: \<open>snn_head_run_chunk\<close>, the functions of the layers and
  \<open>snn_head_run_paicore_layer\<close>.  A layer stops at one of four points or passes.
\<close>

datatype profile_call =
    LayerBegin u32
  | LayerEnd u32
  | PhaseBegin u32
  | PhaseEnd u32
  | RecordRunner runner_record
  | ProfileReset

datatype layer_stop = ArtifactRefused | DeployFailed | SampleFailed | ReleaseFailed runner_record | LayerPassed runner_record

definition phase_calls :: "u32 \<Rightarrow> profile_call list" where
  "phase_calls phase = [PhaseBegin phase, PhaseEnd phase]"

definition paicore_layer_calls :: "layer_stop \<Rightarrow> profile_call list" where
  "paicore_layer_calls stop =
     phase_calls SNN_HEAD_PROFILE_DEPLOY @
     (case stop of
        DeployFailed \<Rightarrow> []
      | SampleFailed \<Rightarrow> phase_calls SNN_HEAD_PROFILE_SAMPLE @ phase_calls SNN_HEAD_PROFILE_RELEASE
      | ReleaseFailed r \<Rightarrow>
          phase_calls SNN_HEAD_PROFILE_SAMPLE @ RecordRunner r # phase_calls SNN_HEAD_PROFILE_RELEASE
      | LayerPassed r \<Rightarrow>
          phase_calls SNN_HEAD_PROFILE_SAMPLE @ RecordRunner r # phase_calls SNN_HEAD_PROFILE_RELEASE
      | ArtifactRefused \<Rightarrow> [])"

definition layer_calls :: "layer_stop \<Rightarrow> profile_call list" where
  "layer_calls stop =
     phase_calls SNN_HEAD_PROFILE_CPU_PREPROCESS @ phase_calls SNN_HEAD_PROFILE_ARTIFACT_VALIDATE @
     (if stop = ArtifactRefused then []
      else paicore_layer_calls stop @
        (case stop of LayerPassed r \<Rightarrow> phase_calls SNN_HEAD_PROFILE_CPU_POSTPROCESS | _ \<Rightarrow> []))"

fun chunk_layer_calls :: "(u32 \<Rightarrow> layer_stop) \<Rightarrow> u32 list \<Rightarrow> profile_call list" where
  "chunk_layer_calls stops [] = []"
| "chunk_layer_calls stops (layer # layers) =
     LayerBegin layer # layer_calls (stops layer) @ LayerEnd layer #
     (case stops layer of LayerPassed r \<Rightarrow> chunk_layer_calls stops layers | _ \<Rightarrow> [])"

definition chunk_calls :: "(u32 \<Rightarrow> layer_stop) \<Rightarrow> profile_call list" where
  "chunk_calls stops = ProfileReset # chunk_layer_calls stops [0, 1, 2, 3, 4]"

text \<open>One call, with the reading of the cycle counter it makes.\<close>

fun profile_step :: "profile_call \<Rightarrow> u64 \<Rightarrow> snn_profile \<Rightarrow> snn_profile option" where
  "profile_step (LayerBegin layer) now p = Some (snn_head_profile_layer_begin layer now p)"
| "profile_step (LayerEnd layer) now p = Some (snn_head_profile_layer_end layer now p)"
| "profile_step (PhaseBegin phase) now p = Some (snn_head_profile_phase_begin phase now p)"
| "profile_step (PhaseEnd phase) now p = Some (snn_head_profile_phase_end phase now p)"
| "profile_step (RecordRunner r) now p = snn_head_profile_record_runner r p"
| "profile_step ProfileReset now p = Some (snn_head_profile_reset p)"

fun profile_run :: "(profile_call \<times> u64) list \<Rightarrow> snn_profile \<Rightarrow> snn_profile option" where
  "profile_run [] p = Some p"
| "profile_run ((call, now) # calls) p = do { p \<leftarrow> profile_step call now p; profile_run calls p }"


section \<open>The report\<close>

text \<open>
  \<open>write\<close> is a callback of the caller; it has no result when the trace of its environment ends.
\<close>

type_synonym 'c profile_write_fn = "'c \<Rightarrow> u8 list \<Rightarrow> (bool \<times> 'c) option"

record 'c report_writer =
  rw_write :: "'c profile_write_fn"
  rw_ctx :: 'c
  rw_ok :: bool

definition write_bytes :: "u8 list \<Rightarrow> 'c report_writer \<Rightarrow> 'c report_writer option" where
  "write_bytes data writer =
     (if rw_ok writer then
        do {
          (ok, ctx) \<leftarrow> rw_write writer (rw_ctx writer) data;
          Some (writer\<lparr>rw_ctx := ctx, rw_ok := ok\<rparr>)
        }
      else Some writer)"

definition write_text :: "string \<Rightarrow> 'c report_writer \<Rightarrow> 'c report_writer option" where
  "write_text t writer = write_bytes (ascii t) writer"

text \<open>The loop of \<open>write_u64\<close>: the buffer, the index \<open>first\<close>, the value.\<close>

fun u64_digits :: "u8 list \<Rightarrow> nat \<Rightarrow> u64 \<Rightarrow> (u8 list \<times> nat) option" where
  "u64_digits digits 0 v = None"
| "u64_digits digits (Suc first) v =
     (let digits = digits[first := 48 + ucast (v mod 10)];
          v = v div 10
      in if v \<noteq> 0 then u64_digits digits first v else Some (digits, first))"

definition write_u64 :: "u64 \<Rightarrow> 'c report_writer \<Rightarrow> 'c report_writer option" where
  "write_u64 v writer =
     do {
       (digits, first) \<leftarrow> u64_digits (replicate 20 0) 20 v;
       write_bytes (drop first digits) writer
     }"

definition write_field :: "string \<Rightarrow> u64 \<Rightarrow> 'c report_writer \<Rightarrow> 'c report_writer option" where
  "write_field name v writer =
     do {
       writer \<leftarrow> write_text '' '' writer;
       writer \<leftarrow> write_text name writer;
       writer \<leftarrow> write_text ''='' writer;
       write_u64 v writer
     }"

text \<open>Successive calls of \<open>write_field\<close>.\<close>

fun write_fields :: "(string \<times> u64) list \<Rightarrow> 'c report_writer \<Rightarrow> 'c report_writer option" where
  "write_fields [] writer = Some writer"
| "write_fields ((name, v) # fs) writer =
     do { writer \<leftarrow> write_field name v writer; write_fields fs writer }"

record transport_timing =
  tt_input_payload_rx_cycles :: u64
  tt_input_decode_cycles :: u64
  tt_result_encode_tx_cycles :: u64

definition layer_names :: "string list" where
  "layer_names = [''fc1_lif'', ''block0'', ''block1'', ''fc2'', ''fc3'']"

definition write_transport :: "transport_timing \<Rightarrow> 'c report_writer \<Rightarrow> 'c report_writer option" where
  "write_transport transport writer =
     do {
       writer \<leftarrow> write_text ''SNN_HEAD_TIMING uart_rx_payload'' writer;
       writer \<leftarrow> write_field ''cycles'' (tt_input_payload_rx_cycles transport) writer;
       writer \<leftarrow> write_text (CHR 0x0A # ''SNN_HEAD_TIMING uart_decode_float'') writer;
       writer \<leftarrow> write_field ''cycles'' (tt_input_decode_cycles transport) writer;
       writer \<leftarrow> write_text (CHR 0x0A # ''SNN_HEAD_TIMING uart_result_encode_tx'') writer;
       writer \<leftarrow> write_field ''cycles'' (tt_result_encode_tx_cycles transport) writer;
       write_text [CHR 0x0A] writer
     }"

text \<open>The lines of the timesteps of a layer, from \<open>timestep\<close> on.\<close>

fun write_steps :: "string \<Rightarrow> u64 list \<Rightarrow> u32 \<Rightarrow> nat \<Rightarrow> 'c report_writer \<Rightarrow> 'c report_writer option" where
  "write_steps name steps timestep 0 writer = Some writer"
| "write_steps name steps timestep (Suc todo) writer =
     do {
       writer \<leftarrow> write_text ''SNN_HEAD_TIMING step layer='' writer;
       writer \<leftarrow> write_text name writer;
       writer \<leftarrow> write_field ''timestep'' (ucast timestep) writer;
       cycles \<leftarrow> rd steps timestep;
       writer \<leftarrow> write_field ''sync_round_trip_cycles'' cycles writer;
       writer \<leftarrow> write_text [CHR 0x0A] writer;
       write_steps name steps (timestep + 1) todo writer
     }"

definition layer_fields :: "layer_profile \<Rightarrow> (string \<times> u64) list" where
  "layer_fields entry =
     [(''total_cycles'', lp_total_cycles entry),
      (''cpu_preprocess_cycles'', lp_cpu_preprocess_cycles entry),
      (''artifact_validate_cycles'', lp_artifact_validate_cycles entry),
      (''deploy_cycles'', lp_deploy_cycles entry),
      (''sample_cycles'', lp_sample_cycles entry),
      (''config_submit_cycles'', lp_config_submit_cycles entry),
      (''input_encode_cycles'', lp_input_encode_cycles entry),
      (''input_submit_cycles'', lp_input_submit_cycles entry),
      (''init_round_trip_cycles'', lp_init_round_trip_cycles entry),
      (''sync_round_trip_cycles'', lp_sync_round_trip_cycles entry),
      (''release_cycles'', lp_release_cycles entry),
      (''cpu_postprocess_cycles'', lp_cpu_postprocess_cycles entry),
      (''residual_cycles'', lp_residual_cycles entry),
      (''sync_wait_cycles'', lp_sync_wait_cycles entry),
      (''rx_irq_service_cycles'', lp_rx_irq_service_cycles entry),
      (''config_frames'', ucast (lp_config_frames entry)),
      (''input_frames'', ucast (lp_input_frames entry)),
      (''output_work_frames'', ucast (lp_output_work_frames entry)),
      (''complete_frames'', ucast (lp_complete_frames entry)),
      (''rx_irq_count'', ucast (lp_rx_irq_count entry))]"

definition write_layer :: "string \<Rightarrow> layer_profile \<Rightarrow> 'c report_writer \<Rightarrow> 'c report_writer option" where
  "write_layer name entry writer =
     (if lp_total_cycles entry = 0 then Some writer
      else
        do {
          writer \<leftarrow> write_text ''SNN_HEAD_TIMING layer='' writer;
          writer \<leftarrow> write_text name writer;
          writer \<leftarrow> write_fields (layer_fields entry) writer;
          writer \<leftarrow> write_text [CHR 0x0A] writer;
          write_steps name (lp_sync_round_trip_steps entry) 0 8 writer
        })"

text \<open>The two loops over the layers: the sum of their totals, and their parts of the report.\<close>

fun sum_totals :: "layer_profile list \<Rightarrow> u64 \<Rightarrow> u64" where
  "sum_totals [] chain_cycles = chain_cycles"
| "sum_totals (entry # layers) chain_cycles = sum_totals layers (chain_cycles + lp_total_cycles entry)"

fun write_layers :: "(string \<times> layer_profile) list \<Rightarrow> 'c report_writer \<Rightarrow> 'c report_writer option" where
  "write_layers [] writer = Some writer"
| "write_layers ((name, entry) # layers) writer =
     do { writer \<leftarrow> write_layer name entry writer; write_layers layers writer }"

definition snn_head_profile_write_report ::
    "'c profile_write_fn option \<Rightarrow> 'c \<Rightarrow> u32 \<Rightarrow> u64 \<Rightarrow> transport_timing option \<Rightarrow> snn_profile \<Rightarrow> (bool \<times> 'c) option" where
  "snn_head_profile_write_report write ctx hz chain_cycles transport p =
     (case write of
        None \<Rightarrow> Some (False, ctx)
      | Some write_fn \<Rightarrow>
          do {
            let writer = \<lparr>rw_write = write_fn, rw_ctx = ctx, rw_ok = True\<rparr>;
            let chain_cycles = (if chain_cycles = 0 then sum_totals (pr_layers p) 0 else chain_cycles);
            writer \<leftarrow> write_text ''SNN_HEAD_TIMING_BEGIN'' writer;
            writer \<leftarrow> write_field ''hz'' (ucast hz) writer;
            writer \<leftarrow> write_field ''chain_cycles'' chain_cycles writer;
            writer \<leftarrow> write_text [CHR 0x0A] writer;
            writer \<leftarrow> (case transport of None \<Rightarrow> Some writer | Some tt \<Rightarrow> write_transport tt writer);
            writer \<leftarrow> write_layers (zip layer_names (pr_layers p)) writer;
            writer \<leftarrow> write_text (''SNN_HEAD_TIMING_END'' @ [CHR 0x0A]) writer;
            Some (rw_ok writer, rw_ctx writer)
          })"

text \<open>The variant of the build without timing, and the accessor.\<close>

definition profile_write_report_untimed ::
    "'c profile_write_fn option \<Rightarrow> 'c \<Rightarrow> u32 \<Rightarrow> u64 \<Rightarrow> transport_timing option \<Rightarrow> bool \<times> 'c" where
  "profile_write_report_untimed write ctx hz chain_cycles transport = (False, ctx)"

definition snn_head_profile_get :: "snn_profile \<Rightarrow> layer_profile list" where
  "snn_head_profile_get p = pr_layers p"

text \<open>\<open>timing_write\<close> of \<open>application/baremetal/snn_head/main.c\<close>: the callback of the board.\<close>

definition timing_write :: "u64 \<Rightarrow> uart_dev profile_write_fn" where
  "timing_write deadline uart data =
     map_option (\<lambda>(status, uart). (status = SNN_HEAD_UART_OK, uart)) (uart_write_bytes data deadline uart)"

end
