(* ===== verification/SnnProfile_Laws.thy ===== *)
theory SnnProfile_Laws
  imports SnnProfile
begin

text \<open>
  What the profiler measures and what its report says.  For every way a run of the chain can stop, the
  total of a layer is its six phases and the residual, as the header file promises; the report a callback
  receives is the text \<open>report_text\<close>, all of it exactly when the report succeeds.
\<close>

section \<open>Accounting\<close>

definition phase_total :: "layer_profile \<Rightarrow> nat" where
  "phase_total e =
     unat (lp_cpu_preprocess_cycles e) + unat (lp_artifact_validate_cycles e) + unat (lp_deploy_cycles e) +
     unat (lp_sample_cycles e) + unat (lp_release_cycles e) + unat (lp_cpu_postprocess_cycles e)"

definition balanced :: "layer_profile \<Rightarrow> bool" where
  "balanced e \<longleftrightarrow> unat (lp_total_cycles e) = phase_total e + unat (lp_residual_cycles e)"

text \<open>The arrays of a record are as long as its count says.\<close>

definition record_valid :: "runner_record \<Rightarrow> bool" where
  "record_valid r \<longleftrightarrow> min 8 (unat (rr_sync_round_trip_count r)) \<le> length (rr_sync_round_trip_cycles r)"

text \<open>
  Sequences of calls with the discipline of the chain: the active layer, the open phase and the layers that
  have ended are tracked.  A layer runs once after a reset; a phase may be left open.
\<close>

fun orderly :: "u32 option \<Rightarrow> u32 option \<Rightarrow> u32 set \<Rightarrow> profile_call list \<Rightarrow> bool" where
  "orderly active phase ended [] = (active = None)"
| "orderly active phase ended (LayerBegin l # calls) =
     (active = None \<and> l < 5 \<and> l \<notin> ended \<and> orderly (Some l) None ended calls)"
| "orderly active phase ended (LayerEnd l # calls) =
     (active = Some l \<and> orderly None None (insert l ended) calls)"
| "orderly active phase ended (PhaseBegin ph # calls) =
     (active \<noteq> None \<and> ph < 6 \<and> orderly active (Some ph) ended calls)"
| "orderly active phase ended (PhaseEnd ph # calls) =
     (active \<noteq> None \<and> phase = Some ph \<and> orderly active None ended calls)"
| "orderly active phase ended (RecordRunner r # calls) =
     (active \<noteq> None \<and> record_valid r \<and> orderly active phase ended calls)"
| "orderly active phase ended (ProfileReset # calls) = (active = None \<and> orderly None None {} calls)"

text \<open>What holds after an orderly sequence whose last reading of the counter was \<open>now\<close>.\<close>

definition running :: "nat \<Rightarrow> u32 option \<Rightarrow> snn_profile \<Rightarrow> u32 \<Rightarrow> bool" where
  "running now phase p l \<longleftrightarrow>
     (let spent = unat (pr_layer_start p) + phase_total (pr_layers p ! unat l) in
      case phase of
        None \<Rightarrow> spent \<le> now
      | Some ph \<Rightarrow> pr_active_phase p = ph \<and> ph < 6 \<and> spent \<le> unat (pr_phase_start p) \<and> unat (pr_phase_start p) \<le> now)"

definition accounts :: "nat \<Rightarrow> nat \<Rightarrow> u32 option \<Rightarrow> u32 option \<Rightarrow> u32 set \<Rightarrow> snn_profile \<Rightarrow> bool" where
  "accounts t0 now active phase ended p \<longleftrightarrow>
     length (pr_layers p) = 5 \<and>
     (\<forall>e \<in> set (pr_layers p). length (lp_sync_round_trip_steps e) = 8) \<and>
     pr_active_layer p = (case active of None \<Rightarrow> 5 | Some l \<Rightarrow> l) \<and>
     (\<forall>l. active = Some l \<longrightarrow> l < 5 \<and> l \<notin> ended \<and> running now phase p l) \<and>
     (\<forall>l < 5. active \<noteq> Some l \<longrightarrow> balanced (pr_layers p ! unat l)) \<and>
     (\<forall>l < 5. l \<notin> ended \<longrightarrow> lp_total_cycles (pr_layers p ! unat l) = 0) \<and>
     t0 + (\<Sum>e \<leftarrow> pr_layers p. unat (lp_total_cycles e)) \<le> (if active = None then now else unat (pr_layer_start p))"

lemma accountsD:
  assumes "accounts t0 now active phase ended p"
  shows "length (pr_layers p) = 5"
    and "e \<in> set (pr_layers p) \<Longrightarrow> length (lp_sync_round_trip_steps e) = 8"
    and "pr_active_layer p = (case active of None \<Rightarrow> 5 | Some l \<Rightarrow> l)"
    and "active = Some l \<Longrightarrow> l < 5 \<and> l \<notin> ended \<and> running now phase p l"
    and "l < 5 \<Longrightarrow> active \<noteq> Some l \<Longrightarrow> balanced (pr_layers p ! unat l)"
    and "l < 5 \<Longrightarrow> l \<notin> ended \<Longrightarrow> lp_total_cycles (pr_layers p ! unat l) = 0"
    and "t0 + (\<Sum>e \<leftarrow> pr_layers p. unat (lp_total_cycles e)) \<le> (if active = None then now else unat (pr_layer_start p))"
  using assms unfolding accounts_def by blast+

lemma layer_index: "l < 5 \<Longrightarrow> unat (l :: u32) < 5"
  by (simp add: word_less_nat_alt)

lemma running_now: "running now phase p l \<Longrightarrow> unat (pr_layer_start p) + phase_total (pr_layers p ! unat l) \<le> now"
  by (auto simp: running_def Let_def split: option.splits)

text \<open>Changing the active layer keeps what the others hold.\<close>

lemma accounts_upd:
  assumes a: "accounts t0 now (Some l) phase ended p" and now: "now \<le> now'"
    and f: "lp_total_cycles (f (pr_layers p ! unat l)) = lp_total_cycles (pr_layers p ! unat l)"
      "length (lp_sync_round_trip_steps (f (pr_layers p ! unat l))) = 8"
    and r: "running now' phase' (upd_layer l f p) l"
  shows "accounts t0 now' (Some l) phase' ended (upd_layer l f p)"
proof -
  have l: "l < 5" "l \<notin> ended" using accountsD(4) [OF a, of l] by auto
  note i = layer_index [OF l(1)]
  have len: "length (pr_layers p) = 5" using accountsD(1) [OF a] .
  have other: "k < 5 \<Longrightarrow> k \<noteq> l \<Longrightarrow> pr_layers (upd_layer l f p) ! unat k = pr_layers p ! unat k" for k :: u32
    by (simp add: upd_layer_def word_unat_eq_iff)
  have "map (\<lambda>e. unat (lp_total_cycles e)) (pr_layers (upd_layer l f p)) = map (\<lambda>e. unat (lp_total_cycles e)) (pr_layers p)"
    using i len by (intro nth_equalityI) (auto simp: upd_layer_def nth_list_update f(1))
  note total = arg_cong [OF this, of sum_list]
  have steps: "\<forall>e \<in> set (pr_layers (upd_layer l f p)). length (lp_sync_round_trip_steps e) = 8"
    using accountsD(2) [OF a] f(2) set_update_subset_insert [of "pr_layers p" "unat l"] by (auto simp: upd_layer_def)
  have zero: "k < 5 \<Longrightarrow> k \<notin> ended \<Longrightarrow> lp_total_cycles (pr_layers (upd_layer l f p) ! unat k) = 0" for k :: u32
    using accountsD(6) [OF a, of k] other [of k] i len f(1) by (cases "k = l") (auto simp: upd_layer_def)
  show ?thesis
    unfolding accounts_def
    using len l steps zero r other accountsD(3,5,7) [OF a] total by (auto simp: upd_layer_def)
qed

lemma phase_cycles_adds:
  assumes "ph < 6" and "phase_total e + unat x < 2 ^ 64"
  shows "\<exists>upd. phase_cycles ph = Some upd \<and> phase_total (upd (\<lambda>c. c + x) e) = phase_total e + unat x \<and>
    lp_total_cycles (upd (\<lambda>c. c + x) e) = lp_total_cycles e \<and>
    lp_sync_round_trip_steps (upd (\<lambda>c. c + x) e) = lp_sync_round_trip_steps e"
proof -
  have add: "unat c \<le> phase_total e \<Longrightarrow> unat (c + x) = unat c + unat x" for c
    using assms(2) by (subst unat_add_lem [THEN iffD1]) auto
  have "ph = 0 \<or> ph = 1 \<or> ph = 2 \<or> ph = 3 \<or> ph = 4 \<or> ph = 5"
  proof -
    have "unat ph < 6" using assms(1) by (simp add: word_less_nat_alt)
    then have "unat ph \<in> {0, 1, 2, 3, 4, 5}" by auto
    then show ?thesis by (auto simp: word_unat_eq_iff)
  qed
  then show ?thesis
    by (elim disjE) (simp_all add: phase_cycles_def phase_total_def add)
qed

lemma phase_cycles_bound: "phase_cycles ph = Some upd \<Longrightarrow> ph < 6"
  by (auto simp: phase_cycles_def split: if_splits)

lemma record_steps_ok:
  assumes "length (lp_sync_round_trip_steps e) = 8" "unat t + todo \<le> 8"
    "min (unat t + todo) (unat n) \<le> length cycles"
  shows "\<exists>e'. record_steps cycles n t todo e = Some e' \<and> phase_total e' = phase_total e \<and>
    lp_total_cycles e' = lp_total_cycles e \<and> lp_residual_cycles e' = lp_residual_cycles e \<and>
    length (lp_sync_round_trip_steps e') = 8"
  using assms
proof (induction todo arbitrary: t e)
  case (Suc todo)
  show ?case
  proof (cases "t < n")
    case True
    have t: "unat (t + 1) = Suc (unat t)" using True by (simp add: unat_Suc_word)
    have i: "unat t < length cycles" "unat t < 8"
      using True Suc.prems(2,3) by (auto simp: word_less_nat_alt)
    let ?e = "e\<lparr>lp_sync_round_trip_steps := (lp_sync_round_trip_steps e)[unat t := cycles ! unat t],
      lp_sync_round_trip_cycles := lp_sync_round_trip_cycles e + cycles ! unat t\<rparr>"
    have "\<exists>e'. record_steps cycles n (t + 1) todo ?e = Some e' \<and> phase_total e' = phase_total ?e \<and>
      lp_total_cycles e' = lp_total_cycles ?e \<and> lp_residual_cycles e' = lp_residual_cycles ?e \<and>
      length (lp_sync_round_trip_steps e') = 8"
      using Suc.prems t by (intro Suc.IH) auto
    then show ?thesis using True i Suc.prems(1) by (simp add: phase_total_def)
  qed (use Suc.prems(1) in simp)
qed simp

section \<open>Every call keeps the accounts\<close>

lemma unat_minus_u64: "unat b \<le> unat a \<Longrightarrow> unat (a - b :: u64) = unat a - unat b"
  by (simp add: unat_sub word_le_nat_alt)

lemma layer_begin_accounts:
  assumes a: "accounts t0 now None phase ended p" and l: "l < 5" "l \<notin> ended" and now: "now \<le> unat t"
    and zero: "phase_total (pr_layers p ! unat l) = 0"
  shows "accounts t0 (unat t) (Some l) None ended (snn_head_profile_layer_begin l t p)"
proof -
  have "\<not> 5 \<le> l" using l(1) by (simp add: not_le)
  then show ?thesis
    unfolding accounts_def snn_head_profile_layer_begin_def
    using l now zero accountsD(1,2,5,6,7) [OF a] by (auto simp: running_def)
qed

lemma phase_begin_accounts:
  assumes a: "accounts t0 now (Some l) phase ended p" and ph: "ph < 6" and now: "now \<le> unat t"
  shows "accounts t0 (unat t) (Some l) (Some ph) ended (snn_head_profile_phase_begin ph t p)"
proof -
  have l: "l < 5" "l \<notin> ended" "running now phase p l" using accountsD(4) [OF a, of l] by auto
  have "\<not> 5 \<le> l" "\<not> 6 \<le> ph" using l(1) ph by (simp_all add: not_le)
  then show ?thesis
    unfolding accounts_def snn_head_profile_phase_begin_def
    using l(1,2) ph now running_now [OF l(3)] accountsD(1,2,3,5,6,7) [OF a] by (auto simp: running_def Let_def)
qed

lemma phase_end_accounts:
  assumes a: "accounts t0 now (Some l) (Some ph) ended p" and now: "now \<le> unat t"
  shows "accounts t0 (unat t) (Some l) None ended (snn_head_profile_phase_end ph t p)"
proof -
  have l: "l < 5" "l \<notin> ended" "running now (Some ph) p l" using accountsD(4) [OF a, of l] by auto
  let ?e = "pr_layers p ! unat l" and ?x = "t - pr_phase_start p"
  have r: "pr_active_phase p = ph" "ph < 6"
      "unat (pr_layer_start p) + phase_total ?e \<le> unat (pr_phase_start p)" "unat (pr_phase_start p) \<le> unat t"
    using l(3) now by (auto simp: running_def Let_def)
  have x: "unat ?x = unat t - unat (pr_phase_start p)" using r(4) by (rule unat_minus_u64)
  have "unat t < 2 ^ 64" using unsigned_less [of t] by simp
  then have "phase_total ?e + unat ?x < 2 ^ 64" using x r(3,4) by linarith
  from phase_cycles_adds [OF r(2) this] obtain upd where upd: "phase_cycles ph = Some upd"
    "phase_total (upd (\<lambda>c. c + ?x) ?e) = phase_total ?e + unat ?x"
    "lp_total_cycles (upd (\<lambda>c. c + ?x) ?e) = lp_total_cycles ?e"
    "lp_sync_round_trip_steps (upd (\<lambda>c. c + ?x) ?e) = lp_sync_round_trip_steps ?e" by blast
  have i: "unat l < length (pr_layers p)" using layer_index [OF l(1)] accountsD(1) [OF a] by simp
  have "accounts t0 (unat t) (Some l) None ended (upd_layer l (upd (\<lambda>c. c + ?x)) p)"
    using upd x r(3,4) i accountsD(2) [OF a, of ?e]
    by (intro accounts_upd [OF a now]) (auto simp: running_def upd_layer_def)
  moreover have "\<not> 5 \<le> l" using l(1) by (simp add: not_le)
  ultimately show ?thesis
    using upd(1) r(1) accountsD(3) [OF a] by (simp add: snn_head_profile_phase_end_def)
qed

lemma record_accounts:
  assumes a: "accounts t0 now (Some l) phase ended p" and r: "record_valid r" and now: "now \<le> now'"
  shows "\<exists>q. snn_head_profile_record_runner r p = Some q \<and> accounts t0 now' (Some l) phase ended q"
proof -
  have l: "l < 5" "l \<notin> ended" "running now phase p l" using accountsD(4) [OF a, of l] by auto
  have act: "pr_active_layer p = l" using accountsD(3) [OF a] by simp
  have i: "unat l < length (pr_layers p)" using layer_index [OF l(1)] accountsD(1) [OF a] by simp
  let ?e = "pr_layers p ! unat l"
  let ?e' = "?e\<lparr>lp_init_round_trip_cycles := lp_init_round_trip_cycles ?e + rr_init_round_trip_cycles r,
      lp_config_submit_cycles := lp_config_submit_cycles ?e + rr_config_submit_cycles r,
      lp_input_encode_cycles := lp_input_encode_cycles ?e + rr_input_encode_cycles r,
      lp_input_submit_cycles := lp_input_submit_cycles ?e + rr_input_submit_cycles r,
      lp_sync_wait_cycles := lp_sync_wait_cycles ?e + rr_sync_wait_cycles r,
      lp_rx_irq_service_cycles := lp_rx_irq_service_cycles ?e + rr_rx_irq_service_cycles r,
      lp_config_frames := lp_config_frames ?e + rr_config_frames r,
      lp_input_frames := lp_input_frames ?e + rr_input_frames r,
      lp_output_work_frames := lp_output_work_frames ?e + rr_output_work_frames r,
      lp_complete_frames := lp_complete_frames ?e + rr_complete_frames r,
      lp_rx_irq_count := lp_rx_irq_count ?e + rr_rx_irq_count r\<rparr>"
  have steps: "length (lp_sync_round_trip_steps ?e) = 8" using accountsD(2) [OF a, of ?e] i by simp
  from record_steps_ok [of ?e' 0 8 "rr_sync_round_trip_count r" "rr_sync_round_trip_cycles r"] steps r
  obtain e where e: "record_steps (rr_sync_round_trip_cycles r) (rr_sync_round_trip_count r) 0 8 ?e' = Some e"
    "phase_total e = phase_total ?e" "lp_total_cycles e = lp_total_cycles ?e" "length (lp_sync_round_trip_steps e) = 8"
    by (auto simp: record_valid_def phase_total_def)
  have run: "running now' phase (upd_layer l (\<lambda>_. e) p) l"
    using l(3) now e(2) i by (auto simp: running_def upd_layer_def Let_def split: option.splits)
  have "accounts t0 now' (Some l) phase ended (upd_layer l (\<lambda>_. e) p)"
    using e(3,4) run by (intro accounts_upd [OF a now]) auto
  moreover have "\<not> 5 \<le> l" using l(1) by (simp add: not_le)
  ultimately show ?thesis
    unfolding snn_head_profile_record_runner_def Let_def act using e(1) by simp
qed

lemma layer_end_accounts:
  assumes a: "accounts t0 now (Some l) phase ended p" and now: "now \<le> unat t"
  shows "accounts t0 (unat t) None None (insert l ended) (snn_head_profile_layer_end l t p)"
proof -
  have l: "l < 5" "l \<notin> ended" "running now phase p l" using accountsD(4) [OF a, of l] by auto
  have act: "pr_active_layer p = l" "\<not> 5 \<le> l" using accountsD(3) [OF a] l(1) by (simp_all add: not_le)
  have len: "length (pr_layers p) = 5" using accountsD(1) [OF a] .
  have i: "unat l < length (pr_layers p)" using layer_index [OF l(1)] len by simp
  define e where "e = pr_layers p ! unat l"
  define total where "total = t - pr_layer_start p"
  define e' where "e' = e\<lparr>lp_total_cycles := total,
    lp_residual_cycles := if accounted_cycles e < total then total - accounted_cycles e else 0\<rparr>"
  have spent: "unat (pr_layer_start p) + phase_total e \<le> unat t"
    using running_now [OF l(3)] now by (simp add: e_def)
  have t: "unat total = unat t - unat (pr_layer_start p)"
    using spent by (simp add: total_def unat_minus_u64)
  have "accounted_cycles e = of_nat (phase_total e)" by (simp add: accounted_cycles_def phase_total_def)
  moreover have "phase_total e < 2 ^ 64" using spent unsigned_less [of t, where ?'a = nat] by simp
  ultimately have acc: "unat (accounted_cycles e) = phase_total e"
    by (simp add: unat_of_nat take_bit_nat_eq_self)
  have bal: "balanced e'"
  proof (cases "accounted_cycles e < total")
    case True
    then show ?thesis
      using acc by (simp add: balanced_def e'_def phase_total_def word_less_nat_alt unat_sub word_le_nat_alt)
  next
    case False
    then have "unat total = phase_total e" using spent t acc by (simp add: word_less_nat_alt)
    then show ?thesis using False by (simp add: balanced_def e'_def phase_total_def)
  qed
  have q: "snn_head_profile_layer_end l t p =
      p\<lparr>pr_layers := (pr_layers p)[unat l := e'], pr_active_layer := 5\<rparr>"
    using act by (simp add: snn_head_profile_layer_end_def upd_layer_def e'_def e_def total_def accounted_cycles_def Let_def)
  have old: "unat (lp_total_cycles e) = 0" using accountsD(6) [OF a l(1,2)] by (simp add: e_def)
  have "(\<Sum>x \<leftarrow> (pr_layers p)[unat l := e']. unat (lp_total_cycles x)) =
      (\<Sum>x \<leftarrow> pr_layers p. unat (lp_total_cycles x)) + unat total"
    using i old by (simp add: map_update sum_list_update e'_def e_def)
  then have sum: "t0 + (\<Sum>x \<leftarrow> (pr_layers p)[unat l := e']. unat (lp_total_cycles x)) \<le> unat t"
    using accountsD(7) [OF a] t spent by simp
  have steps: "\<forall>x \<in> set ((pr_layers p)[unat l := e']). length (lp_sync_round_trip_steps x) = 8"
    using accountsD(2) [OF a] set_update_subset_insert [of "pr_layers p" "unat l" e'] i
    by (auto simp: e'_def e_def)
  have nth: "k < 5 \<Longrightarrow> (pr_layers p)[unat l := e'] ! unat k = (if k = l then e' else pr_layers p ! unat k)" for k
    using i by (auto simp: word_unat_eq_iff)
  show ?thesis
    unfolding accounts_def q using len steps sum nth bal accountsD(5,6) [OF a] by auto
qed

lemma reset_accounts: "t0 \<le> now \<Longrightarrow> accounts t0 now None None {} (snn_head_profile_reset p)"
  by (simp add: accounts_def snn_head_profile_reset_def zero_layer_profile_def balanced_def phase_total_def
      layer_index sum_list_replicate)

text \<open>One call of an orderly sequence, and the whole sequence under a counter that never runs back.\<close>

lemma profile_step_accounts:
  assumes a: "accounts t0 now active phase ended p" and o: "orderly active phase ended (call # calls)"
    and now: "now \<le> unat t"
  shows "\<exists>q active' phase' ended'. profile_step call t p = Some q \<and> accounts t0 (unat t) active' phase' ended' q \<and>
    orderly active' phase' ended' calls"
proof (cases call)
  case (LayerBegin l)
  have o': "active = None" "l < 5" "l \<notin> ended" "orderly (Some l) None ended calls" using o LayerBegin by auto
  have "phase_total (pr_layers p ! unat l) = 0"
    using accountsD(5,6) [OF a o'(2)] o'(1,3) by (simp add: balanced_def)
  then show ?thesis using layer_begin_accounts [OF a [unfolded o'(1)] o'(2,3) now] o'(4) LayerBegin by auto
next
  case (LayerEnd l)
  then have o': "active = Some l" "orderly None None (insert l ended) calls" using o by auto
  then show ?thesis using layer_end_accounts [OF a [unfolded o'(1)] now] LayerEnd by auto
next
  case (PhaseBegin ph)
  then obtain l where o': "active = Some l" "ph < 6" "orderly active (Some ph) ended calls" using o by auto
  then show ?thesis using phase_begin_accounts [OF a [unfolded o'(1)] o'(2) now] PhaseBegin by auto
next
  case (PhaseEnd ph)
  then obtain l where o': "active = Some l" "phase = Some ph" "orderly active None ended calls" using o by auto
  then show ?thesis using phase_end_accounts [OF a [unfolded o'(1,2)] now] PhaseEnd by auto
next
  case (RecordRunner r)
  then obtain l where o': "active = Some l" "record_valid r" "orderly active phase ended calls" using o by auto
  then show ?thesis using record_accounts [OF a [unfolded o'(1)] o'(2) now] RecordRunner by auto
next
  case ProfileReset
  then have "orderly None None {} calls" using o by simp
  moreover have "t0 \<le> unat t" using accountsD(7) [OF a] o ProfileReset now by simp
  ultimately show ?thesis using reset_accounts [of t0 "unat t" p] ProfileReset by (auto simp del: orderly.simps)
qed

lemma profile_run_accounts:
  assumes "accounts t0 now active phase ended p" "orderly active phase ended calls"
    and "length readings = length calls" "sorted (now # map unat readings)"
  shows "\<exists>q phase' ended'. profile_run (zip calls readings) p = Some q \<and>
    accounts t0 (last (now # map unat readings)) None phase' ended' q"
  using assms
proof (induction calls arbitrary: now active phase ended p readings)
  case Nil
  then show ?case by auto
next
  case (Cons call calls)
  then obtain t ts where readings: "readings = t # ts" by (cases readings) auto
  from profile_step_accounts [OF Cons.prems(1,2), of t] Cons.prems(4) readings
  obtain q active' phase' ended' where q: "profile_step call t p = Some q"
    "accounts t0 (unat t) active' phase' ended' q" "orderly active' phase' ended' calls" by auto
  from Cons.IH [OF q(2,3), of ts] Cons.prems(3,4) readings q(1) show ?case by (auto split: if_splits)
qed


section \<open>A run of the chain\<close>

fun stop_record_valid :: "layer_stop \<Rightarrow> bool" where
  "stop_record_valid (ReleaseFailed r) = record_valid r"
| "stop_record_valid (LayerPassed r) = record_valid r"
| "stop_record_valid _ = True"

lemma layer_calls_orderly:
  assumes "stop_record_valid stop" "l < 5"
  shows "orderly (Some l) phase ended (layer_calls stop @ LayerEnd l # calls) =
    orderly None None (insert l ended) calls"
  using assms by (cases stop) (simp_all add: layer_calls_def paicore_layer_calls_def phase_calls_def)

lemma chunk_layers_orderly:
  assumes "\<And>l. stop_record_valid (stops l)" "distinct layers" "set layers \<inter> ended = {}" "\<forall>l \<in> set layers. l < 5"
  shows "orderly None phase ended (chunk_layer_calls stops layers)"
  using assms
proof (induction layers arbitrary: phase ended)
  case (Cons l layers)
  have "orderly None None (insert l ended) (case stops l of LayerPassed r \<Rightarrow> chunk_layer_calls stops layers | _ \<Rightarrow> [])"
    using Cons by (cases "stops l") auto
  then show ?case
    using Cons.prems by (simp add: layer_calls_orderly)
qed simp

lemma chunk_calls_orderly:
  "(\<And>l. stop_record_valid (stops l)) \<Longrightarrow> orderly None phase ended (chunk_calls stops)"
  by (simp add: chunk_calls_def chunk_layers_orderly del: chunk_layer_calls.simps)


lemma sum_totals_sum: "sum_totals layers c = c + (\<Sum>e \<leftarrow> layers. lp_total_cycles e)"
  by (induction layers arbitrary: c) (simp_all add: add.assoc)

lemma unat_sum_list: "(\<Sum>e \<leftarrow> xs. unat (f e :: u64)) < 2 ^ 64 \<Longrightarrow> unat (\<Sum>e \<leftarrow> xs. f e) = (\<Sum>e \<leftarrow> xs. unat (f e))"
  by (induction xs) (auto simp: unat_word_ariths)

lemma profile_chunk_lemma:
  assumes "\<And>l. stop_record_valid (stops l)" "length readings = length (chunk_calls stops)"
    and "sorted (map unat readings)"
  shows "\<exists>q phase ended. profile_run (zip (chunk_calls stops) readings) p = Some q \<and>
    accounts (unat (hd readings)) (unat (last readings)) None phase ended q"
proof -
  obtain t ts where r: "readings = t # ts" using assms(2) by (cases readings) (auto simp: chunk_calls_def)
  have o: "orderly None None {} (chunk_layer_calls stops [0, 1, 2, 3, 4])"
    using assms(1) by (intro chunk_layers_orderly) auto
  have "accounts (unat t) (unat t) None None {} (snn_head_profile_reset p)" by (rule reset_accounts) simp
  from profile_run_accounts [OF this o, of ts] assms(2,3) r
  show ?thesis by (auto simp: chunk_calls_def last_map simp del: chunk_layer_calls.simps split: if_splits)
qed

text \<open>C22.  However a run of the chain stops, on a counter that never runs back: the total of every layer is its six
  phases and the residual, the sum of the totals does not wrap, and it is at most the time between the
  first and the last reading.
\<close>

theorem profile_chunk_accounts:
  assumes "\<And>l. stop_record_valid (stops l)" "length readings = length (chunk_calls stops)"
    and "sorted (map unat readings)"
  shows "\<exists>q. profile_run (zip (chunk_calls stops) readings) p = Some q \<and> pr_active_layer q = 5 \<and>
    length (pr_layers q) = 5 \<and>
    (\<forall>e \<in> set (pr_layers q).
       unat (lp_total_cycles e) =
         unat (lp_cpu_preprocess_cycles e) + unat (lp_artifact_validate_cycles e) + unat (lp_deploy_cycles e) +
         unat (lp_sample_cycles e) + unat (lp_release_cycles e) + unat (lp_cpu_postprocess_cycles e) +
         unat (lp_residual_cycles e)) \<and>
    unat (sum_totals (pr_layers q) 0) = (\<Sum>e \<leftarrow> pr_layers q. unat (lp_total_cycles e)) \<and>
    unat (hd readings) + unat (sum_totals (pr_layers q) 0) \<le> unat (last readings)"
proof -
  from profile_chunk_lemma [OF assms] obtain q phase ended
    where q: "profile_run (zip (chunk_calls stops) readings) p = Some q"
      "accounts (unat (hd readings)) (unat (last readings)) None phase ended q" by blast
  note a = accountsD [OF q(2)]
  have bal: "balanced e" if "e \<in> set (pr_layers q)" for e
  proof -
    from that a(1) obtain i where i: "i < 5" "e = pr_layers q ! i" by (auto simp: in_set_conv_nth)
    then have "unat (of_nat i :: u32) = i" by (simp add: unat_of_nat take_bit_nat_eq_self)
    then show ?thesis using a(5) [of "of_nat i"] i by (simp add: word_less_nat_alt)
  qed
  have le: "unat (hd readings) + (\<Sum>e \<leftarrow> pr_layers q. unat (lp_total_cycles e)) \<le> unat (last readings)"
    using a(7) by simp
  then have sum: "unat (sum_totals (pr_layers q) 0) = (\<Sum>e \<leftarrow> pr_layers q. unat (lp_total_cycles e))"
    using unsigned_less [of "last readings", where ?'a = nat] by (simp add: sum_totals_sum unat_sum_list)
  show ?thesis using q(1) a(1,3) bal le sum by (auto simp: balanced_def phase_total_def)
qed


text \<open>A chain whose second layer fails in its sample, on a counter that advances ten cycles a call.\<close>

definition demo_record :: runner_record where
  "demo_record = \<lparr>rr_sync_round_trip_cycles = [4, 5], rr_sync_round_trip_count = 2, rr_init_round_trip_cycles = 1,
     rr_config_submit_cycles = 2, rr_input_encode_cycles = 3, rr_input_submit_cycles = 4, rr_sync_wait_cycles = 5,
     rr_rx_irq_service_cycles = 6, rr_config_frames = 7, rr_input_frames = 8, rr_output_work_frames = 9,
     rr_complete_frames = 2, rr_rx_irq_count = 3\<rparr>"

definition demo_stops :: "u32 \<Rightarrow> layer_stop" where
  "demo_stops layer = (if layer = 0 then LayerPassed demo_record else SampleFailed)"

definition demo_readings :: "u64 list" where
  "demo_readings = map (\<lambda>i. 10 * of_nat i) [0..<28]"

lemma demo_totals:
  "map_option (\<lambda>q. map (\<lambda>e. (lp_total_cycles e, lp_sample_cycles e, lp_residual_cycles e)) (pr_layers q))
     (profile_run (zip (chunk_calls demo_stops) demo_readings) snn_profile_init) =
   Some [(140, 10, 80), (110, 10, 60), (0, 0, 0), (0, 0, 0), (0, 0, 0)]"
  by code_simp

theorem profile_chunk_accounts_witness:
  "\<exists>q. profile_run (zip (chunk_calls demo_stops) demo_readings) snn_profile_init = Some q \<and>
     pr_active_layer q = 5 \<and> unat (hd demo_readings) + unat (sum_totals (pr_layers q) 0) \<le> unat (last demo_readings)"
proof -
  have "stop_record_valid (demo_stops l)" for l
    by (simp add: demo_stops_def record_valid_def demo_record_def)
  moreover have "length demo_readings = length (chunk_calls demo_stops)" by code_simp
  moreover have "sorted (map unat demo_readings)" by code_simp
  ultimately show ?thesis using profile_chunk_accounts [of demo_stops demo_readings snn_profile_init] by blast
qed

text \<open>A layer that passes: every field holds the cycles between its two marks.\<close>

lemma record_steps_keep:
  "record_steps cycles n t todo e = Some e' \<Longrightarrow>
     lp_cpu_preprocess_cycles e' = lp_cpu_preprocess_cycles e \<and> lp_artifact_validate_cycles e' = lp_artifact_validate_cycles e \<and>
     lp_deploy_cycles e' = lp_deploy_cycles e \<and> lp_sample_cycles e' = lp_sample_cycles e \<and>
     lp_release_cycles e' = lp_release_cycles e \<and> lp_cpu_postprocess_cycles e' = lp_cpu_postprocess_cycles e"
proof (induction todo arbitrary: t e)
  case (Suc todo)
  then show ?case by (fastforce split: if_splits bind_splits)
qed simp

definition phases_of :: "layer_profile \<Rightarrow> u64 list" where
  "phases_of e = [lp_cpu_preprocess_cycles e, lp_artifact_validate_cycles e, lp_deploy_cycles e, lp_sample_cycles e,
     lp_release_cycles e, lp_cpu_postprocess_cycles e]"

lemma record_keeps:
  assumes "snn_head_profile_record_runner r p = Some q" "pr_active_layer p < 5" "length (pr_layers p) = 5"
  shows "\<exists>e. q = upd_layer (pr_active_layer p) (\<lambda>_. e) p \<and> phases_of e = phases_of (pr_layers p ! unat (pr_active_layer p))"
  using assms by (fastforce simp: snn_head_profile_record_runner_def Let_def phases_of_def not_le
      dest!: record_steps_keep split: bind_splits if_splits)

lemma phase_marks:
  assumes "pr_active_layer p < 5" "ph < 6"
  shows "snn_head_profile_phase_end ph b (snn_head_profile_phase_begin ph a p) =
    upd_layer (pr_active_layer p) (the (phase_cycles ph) (\<lambda>c. c + (b - a))) (p\<lparr>pr_active_phase := ph, pr_phase_start := a\<rparr>)"
proof -
  have "\<not> 6 \<le> ph" "\<not> 5 \<le> pr_active_layer p" using assms by (simp_all add: not_le)
  moreover obtain upd where "phase_cycles ph = Some upd"
    using phase_cycles_adds [OF assms(2), of zero_layer_profile 0] by (auto simp: phase_total_def zero_layer_profile_def)
  ultimately show ?thesis
    by (simp add: snn_head_profile_phase_begin_def snn_head_profile_phase_end_def upd_layer_def)
qed

lemma layer_passed_fields:
  assumes "l < 5" "pr_layers p ! unat l = zero_layer_profile" "length (pr_layers p) = 5"
    and "profile_run (zip (LayerBegin l # layer_calls (LayerPassed r) @ [LayerEnd l])
        [b, a1, a2, v1, v2, d1, d2, s1, s2, n, r1, r2, c1, c2, e]) p = Some q"
  shows "lp_total_cycles (pr_layers q ! unat l) = e - b \<and>
    phases_of (pr_layers q ! unat l) = [a2 - a1, v2 - v1, d2 - d1, s2 - s1, r2 - r1, c2 - c1]"
proof -
  note i = layer_index [OF assms(1)]
  have l: "\<not> 5 \<le> l" using assms(1) by (simp add: not_le)
  define z where "z = zero_layer_profile\<lparr>lp_cpu_preprocess_cycles := a2 - a1, lp_artifact_validate_cycles := v2 - v1,
    lp_deploy_cycles := d2 - d1, lp_sample_cycles := s2 - s1\<rparr>"
  let ?s = "p\<lparr>pr_active_layer := l, pr_layer_start := b, pr_active_phase := 3, pr_phase_start := s1,
    pr_layers := (pr_layers p)[unat l := z]\<rparr>"
  have "profile_run ((RecordRunner r, n) # zip (phase_calls 4 @ phase_calls 5 @ [LayerEnd l]) [r1, r2, c1, c2, e]) ?s = Some q"
    using assms(2-) i l by (simp add: layer_calls_def paicore_layer_calls_def phase_calls_def
        snn_head_profile_layer_begin_def phase_marks phase_cycles_def upd_layer_def z_def zero_layer_profile_def)
  then obtain m where m: "snn_head_profile_record_runner r ?s = Some m"
    "profile_run (zip (phase_calls 4 @ phase_calls 5 @ [LayerEnd l]) [r1, r2, c1, c2, e]) m = Some q"
    by (auto split: bind_splits)
  from record_keeps [OF m(1)] assms(1,3) i obtain y where y: "m = upd_layer l (\<lambda>_. y) ?s" "phases_of y = phases_of z"
    by auto
  show ?thesis
    using m(2) y(2) i l assms(1,3) unfolding y(1)
    by (auto simp: phase_calls_def phase_marks phase_cycles_def upd_layer_def
        snn_head_profile_layer_end_def Let_def phases_of_def z_def zero_layer_profile_def)
qed

end
