(* ===== verification/SnnProfile_Report.thy ===== *)
theory SnnProfile_Report
  imports SnnProfile_Laws
begin

text \<open>
  The text of the profile report.  The locale \<open>report_sink\<close> is what the report needs of its callback; a
  report succeeds exactly when all of \<open>report_text\<close> has been delivered, and otherwise a prefix has been.
  The callback of the board is its interpretation.
\<close>

section \<open>Decimal numerals\<close>

fun decimal :: "nat \<Rightarrow> u8 list" where
  "decimal n = (if n < 10 then [48 + of_nat n] else decimal (n div 10) @ [48 + of_nat (n mod 10)])"

declare decimal.simps [simp del]

lemma digit_char:
  assumes "d < 10"
  shows "is_digit 10 (48 + of_nat d)" and "digit_value (48 + of_nat d) = Some d"
proof -
  have "d \<in> {0, 1, 2, 3, 4, 5, 6, 7, 8, 9}" using assms by auto
  then show "is_digit 10 (48 + of_nat d)" "digit_value (48 + of_nat d) = Some d"
    by (auto simp: is_digit_def digit_value_def)
qed

lemma decimal_digits: "list_all (is_digit 10) (decimal n) \<and> decimal n \<noteq> []"
  by (induction n rule: decimal.induct) (subst (1 2) decimal.simps, auto simp: digit_char)

text \<open>A numeral stands for its number.\<close>

lemma decimal_value: "digits_value 10 (decimal n) = n"
proof (induction n rule: decimal.induct)
  case (1 n)
  show ?case
  proof (cases "n < 10")
    case True
    then show ?thesis by (subst decimal.simps) (simp add: digits_value_def digit_char)
  next
    case False
    then have "digits_value 10 (decimal (n div 10)) = n div 10" by (rule "1.IH")
    then show ?thesis using False by (subst decimal.simps) (simp add: digits_value_snoc digit_char)
  qed
qed

text \<open>The loop of \<open>write_u64\<close> fills the end of its buffer with the numeral.\<close>

lemma u64_digits_decimal:
  assumes "first \<le> length buf" "unat v < 10 ^ first" "0 < first"
  shows "\<exists>buf' first'. u64_digits buf first v = Some (buf', first') \<and>
    drop first' buf' = decimal (unat v) @ drop first buf"
  using assms
proof (induction first arbitrary: buf v)
  case (Suc first)
  let ?buf = "buf[first := 48 + ucast (v mod 10)]"
  have "unat (v mod 10) = unat v mod 10" by (simp add: unat_mod_distrib)
  then have c: "48 + ucast (v mod 10) = (48 + of_nat (unat v mod 10) :: u8)"
    by (metis of_nat_unat)
  have f: "first < length buf" using Suc.prems(1) by simp
  have d: "drop first ?buf = (48 + of_nat (unat v mod 10)) # drop (Suc first) buf"
    using f c by (simp add: Cons_nth_drop_Suc [symmetric] drop_update_cancel)
  have div: "unat (v div 10) = unat v div 10" by (simp add: unat_div_distrib)
  show ?case
  proof (cases "v div 10 = 0")
    case True
    then have "unat v < 10" using div by simp
    then show ?thesis using True d by (simp add: decimal.simps [of "unat v"] Let_def)
  next
    case False
    then have big: "\<not> unat v < 10" using div by (simp add: word_unat_eq_iff)
    have "unat (v div 10) < 10 ^ first" using Suc.prems(2) div by (simp add: div_less_iff_less_mult mult.commute)
    moreover from this False have "0 < first" by (cases first) (auto simp: word_unat_eq_iff)
    ultimately obtain buf' first' where r: "u64_digits ?buf first (v div 10) = Some (buf', first')"
      "drop first' buf' = decimal (unat (v div 10)) @ drop first ?buf"
      using Suc.IH [of ?buf "v div 10"] f by auto
    then show ?thesis using False d div big by (simp add: decimal.simps [of "unat v"] Let_def)
  qed
qed simp


section \<open>The text\<close>

definition field_text :: "string \<Rightarrow> u64 \<Rightarrow> u8 list" where
  "field_text name v = ascii ('' '' @ name @ ''='') @ decimal (unat v)"

definition step_text :: "string \<Rightarrow> u64 list \<Rightarrow> nat \<Rightarrow> u8 list" where
  "step_text name steps t =
     ascii (''SNN_HEAD_TIMING step layer='' @ name) @ field_text ''timestep'' (of_nat t) @
     field_text ''sync_round_trip_cycles'' (steps ! t) @ [10]"

definition layer_text :: "string \<Rightarrow> layer_profile \<Rightarrow> u8 list" where
  "layer_text name entry =
     (if lp_total_cycles entry = 0 then []
      else ascii (''SNN_HEAD_TIMING layer='' @ name) @
        concat (map (\<lambda>(field, v). field_text field v) (layer_fields entry)) @ [10] @
        concat (map (step_text name (lp_sync_round_trip_steps entry)) [0..<8]))"

definition transport_text :: "transport_timing \<Rightarrow> u8 list" where
  "transport_text tt =
     ascii ''SNN_HEAD_TIMING uart_rx_payload'' @ field_text ''cycles'' (tt_input_payload_rx_cycles tt) @ [10] @
     ascii ''SNN_HEAD_TIMING uart_decode_float'' @ field_text ''cycles'' (tt_input_decode_cycles tt) @ [10] @
     ascii ''SNN_HEAD_TIMING uart_result_encode_tx'' @ field_text ''cycles'' (tt_result_encode_tx_cycles tt) @ [10]"

definition report_text :: "u32 \<Rightarrow> u64 \<Rightarrow> transport_timing option \<Rightarrow> snn_profile \<Rightarrow> u8 list" where
  "report_text hz chain_cycles transport p =
     ascii ''SNN_HEAD_TIMING_BEGIN'' @ field_text ''hz'' (ucast hz) @
     field_text ''chain_cycles''
       (if chain_cycles = 0 then \<Sum>e \<leftarrow> pr_layers p. lp_total_cycles e else chain_cycles) @ [10] @
     (case transport of None \<Rightarrow> [] | Some tt \<Rightarrow> transport_text tt) @
     concat (map (\<lambda>(name, e). layer_text name e) (zip layer_names (pr_layers p))) @
     ascii ''SNN_HEAD_TIMING_END'' @ [10]"

text \<open>
  What a function on the writer sends through the callback \<open>write\<close>: nothing after a failure, otherwise
  a prefix of \<open>s\<close>, all of it if it leaves the writer in order, as it does in a \<open>good\<close> state of the sink.
\<close>

definition emits :: "'c profile_write_fn \<Rightarrow> ('c \<Rightarrow> u8 list) \<Rightarrow> ('c \<Rightarrow> bool) \<Rightarrow> ('c report_writer \<Rightarrow> 'c report_writer option) \<Rightarrow> u8 list \<Rightarrow> bool" where
  "emits write_fn sent good f s \<longleftrightarrow>
     (\<forall>w. rw_write w = write_fn \<longrightarrow>
        (\<exists>w'. f w = Some w' \<and> rw_write w' = write_fn \<and>
           (if rw_ok w
            then \<exists>k. sent (rw_ctx w') = sent (rw_ctx w) @ take k s \<and> (rw_ok w' \<longrightarrow> length s \<le> k) \<and>
              (good (rw_ctx w) \<longrightarrow> rw_ok w' \<and> good (rw_ctx w'))
            else w' = w)))"

lemma emitsD:
  assumes "emits write_fn sent good f s" "rw_write w = write_fn"
  obtains w' where "f w = Some w'" "rw_write w' = write_fn" "\<not> rw_ok w \<Longrightarrow> w' = w"
    "rw_ok w \<Longrightarrow> \<exists>k. sent (rw_ctx w') = sent (rw_ctx w) @ take k s \<and> (rw_ok w' \<longrightarrow> length s \<le> k) \<and>
      (good (rw_ctx w) \<longrightarrow> rw_ok w' \<and> good (rw_ctx w'))"
  using assms unfolding emits_def by (auto split: if_splits)

lemma emits_bind:
  fixes write_fn :: "'c profile_write_fn"
  assumes f: "emits write_fn sent good f s" and g: "emits write_fn sent good g t"
  shows "emits write_fn sent good (\<lambda>w. f w \<bind> g) (s @ t)"
  unfolding emits_def
proof (intro allI impI)
  fix w :: "'c report_writer" assume w: "rw_write w = write_fn"
  from emitsD [OF f w] obtain m where m: "f w = Some m" "rw_write m = write_fn" "\<not> rw_ok w \<Longrightarrow> m = w"
    "rw_ok w \<Longrightarrow> \<exists>k. sent (rw_ctx m) = sent (rw_ctx w) @ take k s \<and> (rw_ok m \<longrightarrow> length s \<le> k) \<and>
      (good (rw_ctx w) \<longrightarrow> rw_ok m \<and> good (rw_ctx m))" by blast
  from emitsD [OF g m(2)] obtain w' where w': "g m = Some w'" "rw_write w' = write_fn" "\<not> rw_ok m \<Longrightarrow> w' = m"
    "rw_ok m \<Longrightarrow> \<exists>k. sent (rw_ctx w') = sent (rw_ctx m) @ take k t \<and> (rw_ok w' \<longrightarrow> length t \<le> k) \<and>
      (good (rw_ctx m) \<longrightarrow> rw_ok w' \<and> good (rw_ctx w'))" by blast
  have "\<exists>k. sent (rw_ctx w') = sent (rw_ctx w) @ take k (s @ t) \<and> (rw_ok w' \<longrightarrow> length (s @ t) \<le> k) \<and>
      (good (rw_ctx w) \<longrightarrow> rw_ok w' \<and> good (rw_ctx w'))" if ok: "rw_ok w"
  proof -
    from m(4) [OF ok] obtain k where k: "sent (rw_ctx m) = sent (rw_ctx w) @ take k s" "rw_ok m \<longrightarrow> length s \<le> k"
      "good (rw_ctx w) \<longrightarrow> rw_ok m \<and> good (rw_ctx m)" by blast
    show ?thesis
    proof (cases "rw_ok m")
      case True
      with w'(4) obtain j where "sent (rw_ctx w') = sent (rw_ctx m) @ take j t" "rw_ok w' \<longrightarrow> length t \<le> j"
        "good (rw_ctx m) \<longrightarrow> rw_ok w' \<and> good (rw_ctx w')" by blast
      then show ?thesis using True k by (intro exI [of _ "length s + j"]) auto
    next
      case False
      then have "sent (rw_ctx w') = sent (rw_ctx w) @ take (min k (length s)) (s @ t)"
        using k(1) w'(3) by (cases "k \<le> length s") (auto simp: min_def)
      then show ?thesis using False w'(3) k(3) by (intro exI [of _ "min k (length s)"]) auto
    qed
  qed
  then show "\<exists>w'. f w \<bind> g = Some w' \<and> rw_write w' = write_fn \<and>
      (if rw_ok w then \<exists>k. sent (rw_ctx w') = sent (rw_ctx w) @ take k (s @ t) \<and> (rw_ok w' \<longrightarrow> length (s @ t) \<le> k) \<and>
        (good (rw_ctx w) \<longrightarrow> rw_ok w' \<and> good (rw_ctx w')) else w' = w)"
    using m(1-3) w'(1-3) by auto
qed

lemma emits_start:
  assumes "emits write_fn sent good f s"
  shows "\<exists>w' k. f \<lparr>rw_write = write_fn, rw_ctx = c, rw_ok = True\<rparr> = Some w' \<and>
    sent (rw_ctx w') = sent c @ take k s \<and> (rw_ok w' \<longrightarrow> length s \<le> k) \<and> (good c \<longrightarrow> rw_ok w')"
  using assms [unfolded emits_def, rule_format, of "\<lparr>rw_write = write_fn, rw_ctx = c, rw_ok = True\<rparr>"] by auto

lemma emits_none: "emits write_fn sent good Some []"
  by (simp add: emits_def)

lemma emits_eq: "emits write_fn sent good f s \<Longrightarrow> s = t \<Longrightarrow> emits write_fn sent good f t"
  by simp


section \<open>The writer over any sink\<close>

locale report_sink =
  fixes write_fn :: "'c profile_write_fn" and sent :: "'c \<Rightarrow> u8 list" and good :: "'c \<Rightarrow> bool"
  assumes sink_law: "\<exists>ok c' k. write_fn c data = Some (ok, c') \<and> sent c' = sent c @ take k data \<and>
    (ok \<longrightarrow> length data \<le> k) \<and> (good c \<longrightarrow> ok \<and> good c')"
begin

lemma bytes_emitted: "emits write_fn sent good (write_bytes data) data"
  unfolding emits_def
proof (intro allI impI)
  fix w :: "'c report_writer" assume w: "rw_write w = write_fn"
  obtain ok c' k where "write_fn (rw_ctx w) data = Some (ok, c')" "sent c' = sent (rw_ctx w) @ take k data"
    "ok \<longrightarrow> length data \<le> k" "good (rw_ctx w) \<longrightarrow> ok \<and> good c'" using sink_law [of "rw_ctx w" data] by blast
  then show "\<exists>w'. write_bytes data w = Some w' \<and> rw_write w' = write_fn \<and>
      (if rw_ok w then \<exists>k. sent (rw_ctx w') = sent (rw_ctx w) @ take k data \<and> (rw_ok w' \<longrightarrow> length data \<le> k) \<and>
        (good (rw_ctx w) \<longrightarrow> rw_ok w' \<and> good (rw_ctx w')) else w' = w)"
    using w by (auto simp: write_bytes_def)
qed

lemma text_emitted: "emits write_fn sent good (write_text t) (ascii t)"
  unfolding write_text_def by (rule bytes_emitted)

lemma u64_emitted: "emits write_fn sent good (write_u64 v) (decimal (unat v))"
proof -
  have "unat v < 10 ^ 20" using unsigned_less [of v, where ?'a = nat] by simp
  then obtain digits first where "u64_digits (replicate 20 0) 20 v = Some (digits, first)"
    "drop first digits = decimal (unat v)"
    using u64_digits_decimal [of 20 "replicate 20 0" v] by auto
  then have "write_u64 v = (write_bytes (decimal (unat v)) :: 'c report_writer \<Rightarrow> 'c report_writer option)"
    by (intro ext) (simp add: write_u64_def)
  then show ?thesis using bytes_emitted by simp
qed

lemma field_emitted: "emits write_fn sent good (write_field name v) (field_text name v)"
proof -
  have "emits write_fn sent good (write_field name v) (ascii '' '' @ ascii name @ ascii ''='' @ decimal (unat v))"
    unfolding write_field_def by (intro emits_bind text_emitted u64_emitted)
  then show ?thesis by (simp add: field_text_def ascii_def)
qed

lemma fields_emitted: "emits write_fn sent good (write_fields fs) (concat (map (\<lambda>(field, v). field_text field v) fs))"
proof (induction fs)
  case (Cons f fs)
  obtain name v where f: "f = (name, v)" by (cases f)
  have "write_fields ((name, v) # fs) = (\<lambda>w :: 'c report_writer. write_field name v w \<bind> write_fields fs)"
    by (intro ext) simp
  then show ?case using emits_bind [OF field_emitted Cons.IH] by (simp add: f)
qed (simp add: emits_none [simplified emits_def] emits_def)

lemma steps_emitted:
  assumes "length steps = 8" "unat t + todo = 8"
  shows "emits write_fn sent good (write_steps name steps t todo) (concat (map (step_text name steps) [unat t..<8]))"
  using assms(2)
proof (induction todo arbitrary: t)
  case 0
  then show ?case by (simp add: emits_def)
next
  case (Suc todo)
  have t: "unat t < 8" "unat (t + 1) = Suc (unat t)" using Suc.prems by (simp_all add: unat_add_u32)
  have "write_steps name steps t (Suc todo) = (\<lambda>w :: 'c report_writer.
      write_text ''SNN_HEAD_TIMING step layer='' w \<bind> (\<lambda>w. write_text name w \<bind>
      (\<lambda>w. write_field ''timestep'' (ucast t) w \<bind>
      (\<lambda>w. write_field ''sync_round_trip_cycles'' (steps ! unat t) w \<bind>
      (\<lambda>w. write_text [CHR 0x0A] w \<bind> write_steps name steps (t + 1) todo)))))"
    using t(1) assms(1) by (intro ext) simp
  moreover have "emits write_fn sent good \<dots> (ascii ''SNN_HEAD_TIMING step layer='' @ ascii name @
      field_text ''timestep'' (ucast t) @ field_text ''sync_round_trip_cycles'' (steps ! unat t) @ ascii [CHR 0x0A] @
      concat (map (step_text name steps) [unat (t + 1)..<8]))"
    by (intro emits_bind text_emitted field_emitted Suc.IH) (use Suc.prems t(2) in simp)
  moreover have "concat (map (step_text name steps) [unat t..<8]) =
      step_text name steps (unat t) @ concat (map (step_text name steps) [unat (t + 1)..<8])"
    by (simp add: upt_conv_Cons t)
  moreover have "step_text name steps (unat t) = ascii ''SNN_HEAD_TIMING step layer='' @ ascii name @
      field_text ''timestep'' (ucast t) @ field_text ''sync_round_trip_cycles'' (steps ! unat t) @ ascii [CHR 0x0A]"
    by (simp add: step_text_def ascii_def)
  ultimately show ?case by (simp only: append_assoc)
qed

lemma layer_emitted:
  assumes "length (lp_sync_round_trip_steps e) = 8"
  shows "emits write_fn sent good (write_layer name e) (layer_text name e)"
proof (cases "lp_total_cycles e = 0")
  case False
  have "write_layer name e = (\<lambda>w :: 'c report_writer. write_text ''SNN_HEAD_TIMING layer='' w \<bind>
      (\<lambda>w. write_text name w \<bind> (\<lambda>w. write_fields (layer_fields e) w \<bind>
      (\<lambda>w. write_text [CHR 0x0A] w \<bind> write_steps name (lp_sync_round_trip_steps e) 0 8))))"
    using False by (intro ext) (simp add: write_layer_def)
  moreover have "emits write_fn sent good \<dots> (ascii ''SNN_HEAD_TIMING layer='' @ ascii name @
      concat (map (\<lambda>(field, v). field_text field v) (layer_fields e)) @ ascii [CHR 0x0A] @
      concat (map (step_text name (lp_sync_round_trip_steps e)) [unat (0 :: u32)..<8]))"
    by (intro emits_bind text_emitted fields_emitted steps_emitted) (use assms in simp_all)
  moreover have "ascii ''SNN_HEAD_TIMING layer='' @ ascii name = ascii (''SNN_HEAD_TIMING layer='' @ name)"
    by (simp add: ascii_def)
  moreover have "ascii [CHR 0x0A] = [10]" by (simp add: ascii_def)
  ultimately show ?thesis using False by (simp add: layer_text_def flip: append_assoc)
qed (simp add: write_layer_def layer_text_def emits_def)

lemma layers_emitted:
  assumes "\<forall>(name, e) \<in> set ls. length (lp_sync_round_trip_steps e) = 8"
  shows "emits write_fn sent good (write_layers ls) (concat (map (\<lambda>(name, e). layer_text name e) ls))"
  using assms
proof (induction ls)
  case (Cons l ls)
  obtain name e where l: "l = (name, e)" by (cases l)
  have "write_layers ((name, e) # ls) = (\<lambda>w :: 'c report_writer. write_layer name e w \<bind> write_layers ls)"
    by (intro ext) simp
  then show ?case using Cons emits_bind [OF layer_emitted] by (simp add: l)
qed (simp add: emits_def)

lemma transport_emitted: "emits write_fn sent good (write_transport tt) (transport_text tt)"
proof -
  have "emits write_fn sent good (write_transport tt) (ascii ''SNN_HEAD_TIMING uart_rx_payload'' @
      field_text ''cycles'' (tt_input_payload_rx_cycles tt) @ ascii (CHR 0x0A # ''SNN_HEAD_TIMING uart_decode_float'') @
      field_text ''cycles'' (tt_input_decode_cycles tt) @ ascii (CHR 0x0A # ''SNN_HEAD_TIMING uart_result_encode_tx'') @
      field_text ''cycles'' (tt_result_encode_tx_cycles tt) @ ascii [CHR 0x0A])"
    unfolding write_transport_def by (intro emits_bind text_emitted field_emitted)
  then show ?thesis by (simp add: transport_text_def ascii_def)
qed

text \<open>The whole report.\<close>

lemma report_delivered:
  assumes steps: "\<forall>e \<in> set (pr_layers p). length (lp_sync_round_trip_steps e) = 8"
  shows "\<exists>ok c' k. snn_head_profile_write_report (Some write_fn) c hz chain transport p = Some (ok, c') \<and>
    sent c' = sent c @ take k (report_text hz chain transport p) \<and>
    (ok \<longrightarrow> sent c' = sent c @ report_text hz chain transport p) \<and> (good c \<longrightarrow> ok)"
proof -
  let ?chain = "if chain = 0 then sum_totals (pr_layers p) 0 else chain"
  let ?transport = "\<lambda>w :: 'c report_writer. case transport of None \<Rightarrow> Some w | Some tt \<Rightarrow> write_transport tt w"
  let ?body = "\<lambda>w :: 'c report_writer. write_text ''SNN_HEAD_TIMING_BEGIN'' w \<bind>
    (\<lambda>w. write_field ''hz'' (ucast hz) w \<bind> (\<lambda>w. write_field ''chain_cycles'' ?chain w \<bind>
    (\<lambda>w. write_text [CHR 0x0A] w \<bind> (\<lambda>w. ?transport w \<bind> (\<lambda>w. write_layers (zip layer_names (pr_layers p)) w \<bind>
    write_text (''SNN_HEAD_TIMING_END'' @ [CHR 0x0A]))))))"
  have tt: "emits write_fn sent good ?transport (case transport of None \<Rightarrow> [] | Some tt \<Rightarrow> transport_text tt)"
    by (cases transport) (simp_all add: emits_none transport_emitted)
  have "emits write_fn sent good ?body (ascii ''SNN_HEAD_TIMING_BEGIN'' @ field_text ''hz'' (ucast hz) @
      field_text ''chain_cycles'' ?chain @ ascii [CHR 0x0A] @
      (case transport of None \<Rightarrow> [] | Some tt \<Rightarrow> transport_text tt) @
      concat (map (\<lambda>(name, e). layer_text name e) (zip layer_names (pr_layers p))) @
      ascii (''SNN_HEAD_TIMING_END'' @ [CHR 0x0A]))"
    by (intro emits_bind text_emitted field_emitted tt layers_emitted) (use steps in \<open>auto dest: set_zip_rightD\<close>)
  moreover have "ascii (''SNN_HEAD_TIMING_END'' @ [CHR 0x0A]) = ascii ''SNN_HEAD_TIMING_END'' @ [10]"
    "ascii [CHR 0x0A] = [10]" by (simp_all add: ascii_def)
  ultimately have e: "emits write_fn sent good ?body (report_text hz chain transport p)"
    by (simp only: report_text_def sum_totals_sum add_0)
  have r: "snn_head_profile_write_report (Some write_fn) c hz chain transport p =
      ?body \<lparr>rw_write = write_fn, rw_ctx = c, rw_ok = True\<rparr> \<bind> (\<lambda>w. Some (rw_ok w, rw_ctx w))"
    by (simp add: snn_head_profile_write_report_def Let_def)
  from e obtain w' k where "?body \<lparr>rw_write = write_fn, rw_ctx = c, rw_ok = True\<rparr> = Some w'"
    "sent (rw_ctx w') = sent c @ take k (report_text hz chain transport p)"
    "rw_ok w' \<longrightarrow> length (report_text hz chain transport p) \<le> k" "good c \<longrightarrow> rw_ok w'"
    using emits_start [OF e, of c] by blast
  then show ?thesis unfolding r by auto
qed

end


section \<open>The board\<close>

definition drains_before :: "u64 \<Rightarrow> uart_dev \<Rightarrow> bool" where
  "drains_before deadline d \<longleftrightarrow> (\<forall>(reg, t) \<in> set (ud_tx d). t < deadline)"

lemma uart_wait_drains:
  "uart_wait_room polls deadline = (room, polls') \<Longrightarrow> \<forall>(reg, t) \<in> set polls. t < deadline \<Longrightarrow>
     room \<and> (\<forall>(reg, t) \<in> set polls'. t < deadline)"
  by (induction polls deadline rule: uart_wait_room.induct) (auto split: if_splits simp: not_le)

lemma uart_write_prefix:
  "\<exists>status d' k. uart_write_bytes data deadline d = Some (status, d') \<and> ud_sent d' = ud_sent d @ take k data \<and>
     (status = SNN_HEAD_UART_OK \<longrightarrow> length data \<le> k) \<and>
     (drains_before deadline d \<longrightarrow> status = SNN_HEAD_UART_OK \<and> drains_before deadline d')"
proof (induction data arbitrary: d)
  case (Cons x data)
  obtain room polls where r: "uart_wait_room (ud_tx d) deadline = (room, polls)" by fastforce
  note drains = uart_wait_drains [OF r]
  show ?case
  proof (cases room)
    case True
    let ?d = "d\<lparr>ud_tx := polls, ud_sent := ud_sent d @ [x]\<rparr>"
    have "drains_before deadline d \<longrightarrow> drains_before deadline ?d" using drains by (simp add: drains_before_def)
    moreover from Cons.IH [of ?d] obtain status d' k where
      "uart_write_bytes data deadline ?d = Some (status, d')"
      "ud_sent d' = ud_sent d @ take (Suc k) (x # data)" "status = SNN_HEAD_UART_OK \<longrightarrow> length data \<le> k"
      "drains_before deadline ?d \<longrightarrow> status = SNN_HEAD_UART_OK \<and> drains_before deadline d'" by auto
    ultimately show ?thesis using r True by (intro exI [of _ status] exI [of _ d'] exI [of _ "Suc k"]) simp
  next
    case False
    then have "\<not> drains_before deadline d" using drains by (auto simp: drains_before_def)
    then show ?thesis using r False
      by (intro exI [of _ SNN_HEAD_UART_ERR_TIMEOUT] exI [of _ "d\<lparr>ud_tx := polls\<rparr>"] exI [of _ 0]) simp
  qed
qed simp

interpretation board_report: report_sink "timing_write deadline" ud_sent "drains_before deadline"
  for deadline
proof
  fix c data
  show "\<exists>ok c' k. timing_write deadline c data = Some (ok, c') \<and> ud_sent c' = ud_sent c @ take k data \<and>
      (ok \<longrightarrow> length data \<le> k) \<and> (drains_before deadline c \<longrightarrow> ok \<and> drains_before deadline c')"
    using uart_write_prefix [of data deadline c] by (auto simp: timing_write_def)
qed

text \<open>C23.  The report on the UART after a run of the chain: what has been sent is a prefix of the text, all of it when
  the report returns true, and it returns true when the UART drains before the deadline.
\<close>

theorem board_report_complete:
  assumes "\<And>l. stop_record_valid (stops l)" "length readings = length (chunk_calls stops)"
    and "sorted (map unat readings)" "profile_run (zip (chunk_calls stops) readings) p = Some q"
  shows "\<exists>ok uart' k. snn_head_profile_write_report (Some (timing_write deadline)) uart hz chain_cycles transport q =
      Some (ok, uart') \<and>
    ud_sent uart' = ud_sent uart @ take k (report_text hz chain_cycles transport q) \<and>
    (ok \<longrightarrow> ud_sent uart' = ud_sent uart @ report_text hz chain_cycles transport q) \<and>
    (drains_before deadline uart \<longrightarrow> ok)"
proof -
  from profile_chunk_lemma [OF assms(1-3), of p] assms(4) obtain phase ended
    where "accounts (unat (hd readings)) (unat (last readings)) None phase ended q" by auto
  then have "\<forall>e \<in> set (pr_layers q). length (lp_sync_round_trip_steps e) = 8" using accountsD(2) by blast
  then show ?thesis by (rule board_report.report_delivered)
qed

text \<open>The chain of \<open>demo_stops\<close>, reported to a UART that always has room.\<close>

definition report_dev :: uart_dev where
  "report_dev = \<lparr>ud_rx = [], ud_tx = [], ud_sent = [], TXCTRL = 0, RXCTRL = 0, IE = 0, IP = 0, DIV = 0,
     ud_clock = (\<lambda>_. 0), ud_reads = 0\<rparr>"

lemma report_first_line:
  "map_option (\<lambda>q. take 47 (report_text 1000 0 None q)) (profile_run (zip (chunk_calls demo_stops) demo_readings) snn_profile_init) =
     Some (ascii (''SNN_HEAD_TIMING_BEGIN hz=1000 chain_cycles=250'' @ [CHR 0x0A]))"
  by code_simp

theorem board_report_complete_witness:
  "\<exists>q uart'. profile_run (zip (chunk_calls demo_stops) demo_readings) snn_profile_init = Some q \<and>
     snn_head_profile_write_report (Some (timing_write 7)) report_dev 1000 0 None q = Some (True, uart') \<and>
     ud_sent uart' = report_text 1000 0 None q \<and>
     take 47 (ud_sent uart') = ascii (''SNN_HEAD_TIMING_BEGIN hz=1000 chain_cycles=250'' @ [CHR 0x0A])"
proof -
  have valid: "stop_record_valid (demo_stops l)" for l
    by (simp add: demo_stops_def record_valid_def demo_record_def)
  have len: "length demo_readings = length (chunk_calls demo_stops)" by code_simp
  have sorted: "sorted (map unat demo_readings)" by code_simp
  obtain q where q: "profile_run (zip (chunk_calls demo_stops) demo_readings) snn_profile_init = Some q"
    "take 47 (report_text 1000 0 None q) = ascii (''SNN_HEAD_TIMING_BEGIN hz=1000 chain_cycles=250'' @ [CHR 0x0A])"
    using report_first_line by auto
  have "drains_before 7 report_dev" "ud_sent report_dev = []" by (simp_all add: drains_before_def report_dev_def)
  then show ?thesis
    using board_report_complete [OF valid len sorted q(1), of 7 report_dev 1000 0 None] q by auto
qed

end
