(* ===== verification/Eclic.thy ===== *)
theory Eclic
  imports Session
begin

text \<open>
  The interrupt controller as the runtime uses it: the machine-mode accessors of
  \<open>NMSIS/Core/Include/core_feature_eclic.h\<close> and \<open>ECLIC_Register_IRQ\<close> and the ECLIC part of the start-up in
  \<open>SoC/evalsoc/Common/Source/system_evalsoc.c\<close>, with the constants of this SoC (\<open>cpufeature.h\<close>).
  The registers are a record; the vector table behind \<open>mtvt\<close> is the list of its words.  An interrupt number
  outside the register block or the table has no result.  Writing an \<open>INTCTRL\<close> register leaves what the
  hardware holds of the value, the parameter \<open>held\<close>: bits that are not implemented need not read back.
\<close>

section \<open>Registers\<close>

record clic_ctrl =
  INTIP :: u8
  INTIE :: u8
  INTATTR :: u8
  INTCTRL :: u8

record clic =
  CLIC_CFG :: u8
  CLIC_INFO :: u32
  CLIC_MTH :: u8
  CLIC_CTRL :: "clic_ctrl list"
  mtvt_table :: "u32 list"
  csr_mtvt :: u32
  csr_mtvt2 :: u32
  csr_mtvec :: u32

abbreviation (input) CLIC_CLICCFG_NLBIT_Pos :: nat where "CLIC_CLICCFG_NLBIT_Pos \<equiv> 1"
abbreviation (input) CLIC_CLICINFO_CTLBIT_Pos :: nat where "CLIC_CLICINFO_CTLBIT_Pos \<equiv> 21"
abbreviation (input) CLIC_CLICINFO_VER_Pos :: nat where "CLIC_CLICINFO_VER_Pos \<equiv> 13"
abbreviation (input) CLIC_CLICINFO_NUM_Pos :: nat where "CLIC_CLICINFO_NUM_Pos \<equiv> 0"
abbreviation (input) CLIC_CLICINFO_SHD_NUM_Pos :: nat where "CLIC_CLICINFO_SHD_NUM_Pos \<equiv> 25"
abbreviation (input) CLIC_INTATTR_TRIG_Pos :: nat where "CLIC_INTATTR_TRIG_Pos \<equiv> 1"
abbreviation (input) CLIC_INTATTR_SHV_Pos :: nat where "CLIC_INTATTR_SHV_Pos \<equiv> 0"

definition CLIC_CLICCFG_NLBIT_Msk :: u32 where "CLIC_CLICCFG_NLBIT_Msk = push_bit CLIC_CLICCFG_NLBIT_Pos 0xF"
definition CLIC_CLICINFO_CTLBIT_Msk :: u32 where "CLIC_CLICINFO_CTLBIT_Msk = push_bit CLIC_CLICINFO_CTLBIT_Pos 0xF"
definition CLIC_CLICINFO_VER_Msk :: u32 where "CLIC_CLICINFO_VER_Msk = push_bit CLIC_CLICINFO_VER_Pos 0xFF"
definition CLIC_CLICINFO_NUM_Msk :: u32 where "CLIC_CLICINFO_NUM_Msk = push_bit CLIC_CLICINFO_NUM_Pos 0x1FFF"
definition CLIC_CLICINFO_SHD_NUM_Msk :: u32 where "CLIC_CLICINFO_SHD_NUM_Msk = push_bit CLIC_CLICINFO_SHD_NUM_Pos 0xF"
definition CLIC_INTIP_IP_Msk :: u32 where "CLIC_INTIP_IP_Msk = 1"
definition CLIC_INTIE_IE_Msk :: u32 where "CLIC_INTIE_IE_Msk = 1"
definition CLIC_INTATTR_TRIG_Msk :: u32 where "CLIC_INTATTR_TRIG_Msk = push_bit CLIC_INTATTR_TRIG_Pos 0x3"
definition CLIC_INTATTR_SHV_Msk :: u32 where "CLIC_INTATTR_SHV_Msk = push_bit CLIC_INTATTR_SHV_Pos 0x1"

abbreviation (input) ECLIC_MAX_NLBITS :: u8 where "ECLIC_MAX_NLBITS \<equiv> 8"
abbreviation (input) ECLIC_NON_VECTOR_INTERRUPT :: u8 where "ECLIC_NON_VECTOR_INTERRUPT \<equiv> 0"
abbreviation (input) ECLIC_VECTOR_INTERRUPT :: u8 where "ECLIC_VECTOR_INTERRUPT \<equiv> 1"
abbreviation (input) ECLIC_LEVEL_TRIGGER :: u32 where "ECLIC_LEVEL_TRIGGER \<equiv> 0"
abbreviation (input) ECLIC_NEGTIVE_EDGE_TRIGGER :: u32 where "ECLIC_NEGTIVE_EDGE_TRIGGER \<equiv> 3"

text \<open>\<open>CFG_CLICINTCTLBITS\<close>, and \<open>CFG_IRQ_NUM\<close> external interrupts after the 19 of the core.\<close>

definition ECLIC_INTCTLBITS :: u8 where "ECLIC_INTCTLBITS = 3"
definition SOC_INT_MAX :: u32 where "SOC_INT_MAX = 32 + 19"
definition PAICORE_NOC_IRQn :: u32 where "PAICORE_NOC_IRQn = 47"
definition UART0_IRQn :: u32 where "UART0_IRQn = 46"

text \<open>Reading and writing \<open>ECLIC->CTRL[IRQn]\<close>.\<close>

definition ctrl_upd :: "u32 \<Rightarrow> (clic_ctrl \<Rightarrow> clic_ctrl) \<Rightarrow> clic \<Rightarrow> clic option" where
  "ctrl_upd irq f e =
     do {
       r \<leftarrow> rd (CLIC_CTRL e) irq;
       regs \<leftarrow> wr (CLIC_CTRL e) irq (f r);
       Some (e\<lparr>CLIC_CTRL := regs\<rparr>)
     }"


section \<open>Global configuration\<close>

definition ECLIC_SetCfgNlbits :: "u32 \<Rightarrow> clic \<Rightarrow> clic" where
  "ECLIC_SetCfgNlbits nlbits e =
     (let temp = CLIC_CFG e in
      e\<lparr>CLIC_CFG := ucast ((ucast temp AND NOT CLIC_CLICCFG_NLBIT_Msk) OR
          ucast (ucast (push_bit CLIC_CLICCFG_NLBIT_Pos nlbits AND CLIC_CLICCFG_NLBIT_Msk) :: u8))\<rparr>)"

definition ECLIC_GetCfgNlbits :: "clic \<Rightarrow> u32" where
  "ECLIC_GetCfgNlbits e = drop_bit CLIC_CLICCFG_NLBIT_Pos (ucast (CLIC_CFG e) AND CLIC_CLICCFG_NLBIT_Msk)"

definition ECLIC_GetInfoVer :: "clic \<Rightarrow> u32" where
  "ECLIC_GetInfoVer e = drop_bit CLIC_CLICINFO_VER_Pos (CLIC_INFO e AND CLIC_CLICINFO_VER_Msk)"

definition ECLIC_GetInfoCtlbits :: "clic \<Rightarrow> u32" where
  "ECLIC_GetInfoCtlbits e = drop_bit CLIC_CLICINFO_CTLBIT_Pos (CLIC_INFO e AND CLIC_CLICINFO_CTLBIT_Msk)"

definition ECLIC_GetInfoNum :: "clic \<Rightarrow> u32" where
  "ECLIC_GetInfoNum e = drop_bit CLIC_CLICINFO_NUM_Pos (CLIC_INFO e AND CLIC_CLICINFO_NUM_Msk)"

definition ECLIC_GetInfoShadowNum :: "clic \<Rightarrow> u32" where
  "ECLIC_GetInfoShadowNum e = drop_bit CLIC_CLICINFO_SHD_NUM_Pos (CLIC_INFO e AND CLIC_CLICINFO_SHD_NUM_Msk)"

definition ECLIC_SetMth :: "u8 \<Rightarrow> clic \<Rightarrow> clic" where
  "ECLIC_SetMth mth e = e\<lparr>CLIC_MTH := mth\<rparr>"

definition ECLIC_GetMth :: "clic \<Rightarrow> u8" where
  "ECLIC_GetMth e = CLIC_MTH e"


section \<open>One interrupt\<close>

definition ECLIC_EnableIRQ :: "u32 \<Rightarrow> clic \<Rightarrow> clic option" where
  "ECLIC_EnableIRQ irq = ctrl_upd irq (\<lambda>r. r\<lparr>INTIE := ucast (ucast (INTIE r) OR CLIC_INTIE_IE_Msk)\<rparr>)"

definition ECLIC_GetEnableIRQ :: "u32 \<Rightarrow> clic \<Rightarrow> u32 option" where
  "ECLIC_GetEnableIRQ irq e = map_option (\<lambda>r. ucast (INTIE r) AND CLIC_INTIE_IE_Msk) (rd (CLIC_CTRL e) irq)"

definition ECLIC_DisableIRQ :: "u32 \<Rightarrow> clic \<Rightarrow> clic option" where
  "ECLIC_DisableIRQ irq = ctrl_upd irq (\<lambda>r. r\<lparr>INTIE := ucast (ucast (INTIE r) AND NOT CLIC_INTIE_IE_Msk)\<rparr>)"

definition ECLIC_GetPendingIRQ :: "u32 \<Rightarrow> clic \<Rightarrow> i32 option" where
  "ECLIC_GetPendingIRQ irq e = map_option (\<lambda>r. ucast (INTIP r) AND CLIC_INTIP_IP_Msk) (rd (CLIC_CTRL e) irq)"

definition ECLIC_SetPendingIRQ :: "u32 \<Rightarrow> clic \<Rightarrow> clic option" where
  "ECLIC_SetPendingIRQ irq = ctrl_upd irq (\<lambda>r. r\<lparr>INTIP := ucast (ucast (INTIP r) OR CLIC_INTIP_IP_Msk)\<rparr>)"

definition ECLIC_ClearPendingIRQ :: "u32 \<Rightarrow> clic \<Rightarrow> clic option" where
  "ECLIC_ClearPendingIRQ irq = ctrl_upd irq (\<lambda>r. r\<lparr>INTIP := ucast (ucast (INTIP r) AND NOT CLIC_INTIP_IP_Msk)\<rparr>)"

definition ECLIC_SetTrigIRQ :: "u32 \<Rightarrow> u32 \<Rightarrow> clic \<Rightarrow> clic option" where
  "ECLIC_SetTrigIRQ irq trig =
     ctrl_upd irq (\<lambda>r. r\<lparr>INTATTR := ucast ((ucast (INTATTR r) AND NOT CLIC_INTATTR_TRIG_Msk) OR
        ucast (ucast (push_bit CLIC_INTATTR_TRIG_Pos trig) :: u8))\<rparr>)"

definition ECLIC_GetTrigIRQ :: "u32 \<Rightarrow> clic \<Rightarrow> u32 option" where
  "ECLIC_GetTrigIRQ irq e =
     map_option (\<lambda>r. drop_bit CLIC_INTATTR_TRIG_Pos (ucast (INTATTR r) AND CLIC_INTATTR_TRIG_Msk)) (rd (CLIC_CTRL e) irq)"

definition ECLIC_SetShvIRQ :: "u32 \<Rightarrow> u32 \<Rightarrow> clic \<Rightarrow> clic option" where
  "ECLIC_SetShvIRQ irq shv =
     ctrl_upd irq (\<lambda>r. r\<lparr>INTATTR := ucast ((ucast (INTATTR r) AND NOT CLIC_INTATTR_SHV_Msk) OR
        ucast (ucast (push_bit CLIC_INTATTR_SHV_Pos shv) :: u8))\<rparr>)"

definition ECLIC_GetShvIRQ :: "u32 \<Rightarrow> clic \<Rightarrow> u32 option" where
  "ECLIC_GetShvIRQ irq e =
     map_option (\<lambda>r. drop_bit CLIC_INTATTR_SHV_Pos (ucast (INTATTR r) AND CLIC_INTATTR_SHV_Msk)) (rd (CLIC_CTRL e) irq)"

definition ECLIC_SetCtrlIRQ :: "(u8 \<Rightarrow> u8) \<Rightarrow> u32 \<Rightarrow> u8 \<Rightarrow> clic \<Rightarrow> clic option" where
  "ECLIC_SetCtrlIRQ held irq intctrl = ctrl_upd irq (\<lambda>r. r\<lparr>INTCTRL := held intctrl\<rparr>)"

definition ECLIC_GetCtrlIRQ :: "u32 \<Rightarrow> clic \<Rightarrow> u8 option" where
  "ECLIC_GetCtrlIRQ irq e = map_option INTCTRL (rd (CLIC_CTRL e) irq)"


section \<open>Level and priority\<close>

text \<open>
  The top \<open>nlbits\<close> bits of \<open>INTCTRL\<close> are the level, the implemented bits below them the priority.  A
  shift computes in 32 bits; assigning it to a \<open>uint8_t\<close> keeps the low eight.
\<close>

definition shl8 :: "u8 \<Rightarrow> u8 \<Rightarrow> u8" where
  "shl8 v n = ucast (push_bit (unat n) (ucast v :: u32))"

definition shr8 :: "u8 \<Rightarrow> u8 \<Rightarrow> u8" where
  "shr8 v n = ucast (drop_bit (unat n) (ucast v :: u32))"

definition ones8 :: "u8 \<Rightarrow> u8" where
  "ones8 n = ucast (push_bit (unat n) (1 :: u32) - 1)"

definition ECLIC_SetLevelIRQ :: "(u8 \<Rightarrow> u8) \<Rightarrow> u32 \<Rightarrow> u8 \<Rightarrow> clic \<Rightarrow> clic option" where
  "ECLIC_SetLevelIRQ held irq lvl_abs e =
     (let nlbits = ucast (ECLIC_GetCfgNlbits e); intctlbits = ECLIC_INTCTLBITS in
      if nlbits = 0 then Some e
      else
        let nlbits = (if intctlbits < nlbits then intctlbits else nlbits);
            maxlvl = ones8 nlbits;
            lvl_abs = (if maxlvl < lvl_abs then maxlvl else lvl_abs);
            lvl = shl8 lvl_abs (ECLIC_MAX_NLBITS - nlbits)
        in do {
             cur_ctrl \<leftarrow> ECLIC_GetCtrlIRQ irq e;
             let cur_ctrl = shl8 cur_ctrl nlbits;
             let cur_ctrl = shr8 cur_ctrl nlbits;
             ECLIC_SetCtrlIRQ held irq (cur_ctrl OR lvl) e
           })"

definition ECLIC_GetLevelIRQ :: "u32 \<Rightarrow> clic \<Rightarrow> u8 option" where
  "ECLIC_GetLevelIRQ irq e =
     (let nlbits = ucast (ECLIC_GetCfgNlbits e); intctlbits = ECLIC_INTCTLBITS in
      if nlbits = 0 then Some 0
      else
        let nlbits = (if intctlbits < nlbits then intctlbits else nlbits)
        in do {
             intctrl \<leftarrow> ECLIC_GetCtrlIRQ irq e;
             Some (shr8 intctrl (ECLIC_MAX_NLBITS - nlbits))
           })"

definition ECLIC_SetPriorityIRQ :: "(u8 \<Rightarrow> u8) \<Rightarrow> u32 \<Rightarrow> u8 \<Rightarrow> clic \<Rightarrow> clic option" where
  "ECLIC_SetPriorityIRQ held irq pri e =
     (let nlbits = ucast (ECLIC_GetCfgNlbits e); intctlbits = ECLIC_INTCTLBITS in
      if nlbits < intctlbits then
        let maxpri = ones8 (intctlbits - nlbits);
            pri = (if maxpri < pri then maxpri else pri);
            pri = shl8 pri (ECLIC_MAX_NLBITS - intctlbits);
            mask = shr8 (- 1) intctlbits;
            pri = pri OR mask
        in do {
             cur_ctrl \<leftarrow> ECLIC_GetCtrlIRQ irq e;
             let cur_ctrl = shr8 cur_ctrl (ECLIC_MAX_NLBITS - nlbits);
             let cur_ctrl = shl8 cur_ctrl (ECLIC_MAX_NLBITS - nlbits);
             ECLIC_SetCtrlIRQ held irq (cur_ctrl OR pri) e
           }
      else Some e)"

definition ECLIC_GetPriorityIRQ :: "u32 \<Rightarrow> clic \<Rightarrow> u8 option" where
  "ECLIC_GetPriorityIRQ irq e =
     (let nlbits = ucast (ECLIC_GetCfgNlbits e); intctlbits = ECLIC_INTCTLBITS in
      if nlbits < intctlbits then
        do {
          cur_ctrl \<leftarrow> ECLIC_GetCtrlIRQ irq e;
          let pri = shl8 cur_ctrl nlbits;
          let pri = shr8 pri nlbits;
          let pri = shr8 pri (ECLIC_MAX_NLBITS - intctlbits);
          Some pri
        }
      else Some 0)"


section \<open>Vectors and registration\<close>

text \<open>The words of the table at \<open>mtvt\<close>; the cache operations have no effect on them.\<close>

definition ECLIC_SetVector :: "u32 \<Rightarrow> u32 \<Rightarrow> clic \<Rightarrow> clic option" where
  "ECLIC_SetVector irq vector e = do { t \<leftarrow> wr (mtvt_table e) irq vector; Some (e\<lparr>mtvt_table := t\<rparr>) }"

definition ECLIC_GetVector :: "u32 \<Rightarrow> clic \<Rightarrow> u32 option" where
  "ECLIC_GetVector irq e = rd (mtvt_table e) irq"

definition ECLIC_Register_IRQ ::
    "(u8 \<Rightarrow> u8) \<Rightarrow> u32 \<Rightarrow> u8 \<Rightarrow> u32 \<Rightarrow> u8 \<Rightarrow> u8 \<Rightarrow> u32 option \<Rightarrow> clic \<Rightarrow> (i32 \<times> clic) option" where
  "ECLIC_Register_IRQ held irq shv trig_mode lvl priority handler e =
     (if SOC_INT_MAX < irq \<or> ECLIC_VECTOR_INTERRUPT < shv \<or> ECLIC_NEGTIVE_EDGE_TRIGGER < trig_mode
      then Some (- 1, e)
      else
        do {
          e \<leftarrow> ECLIC_SetShvIRQ irq (ucast shv) e;
          e \<leftarrow> ECLIC_SetTrigIRQ irq trig_mode e;
          e \<leftarrow> ECLIC_SetLevelIRQ held irq lvl e;
          e \<leftarrow> ECLIC_SetPriorityIRQ held irq priority e;
          e \<leftarrow> (case handler of None \<Rightarrow> Some e | Some h \<Rightarrow> ECLIC_SetVector irq h e);
          e \<leftarrow> ECLIC_EnableIRQ irq e;
          Some (0, e)
        })"

text \<open>
  \<open>ECLIC_Interrupt_Init\<close> on this core: the entries of the handlers, then the threshold and the number of
  level bits.  \<open>MCFG_INFO_CLIC\<close> of \<open>mcfg_info\<close> says that an ECLIC is present.
\<close>

definition ECLIC_Interrupt_Init :: "bool \<Rightarrow> u32 \<Rightarrow> u32 \<Rightarrow> u32 \<Rightarrow> clic \<Rightarrow> clic" where
  "ECLIC_Interrupt_Init mcfg_info_clic vector_base irq_entry exc_entry e =
     (if mcfg_info_clic then
        let e = e\<lparr>csr_mtvt := vector_base, csr_mtvt2 := irq_entry OR 1, csr_mtvec := exc_entry OR 3\<rparr>
        in ECLIC_SetCfgNlbits (ucast ECLIC_INTCTLBITS) (ECLIC_SetMth 0 e)
      else e\<lparr>csr_mtvec := exc_entry\<rparr>)"

text \<open>The entries of exceptions and of non-vectored interrupts.\<close>

definition set_exc_entry :: "u32 \<Rightarrow> clic \<Rightarrow> clic" where
  "set_exc_entry addr e = e\<lparr>csr_mtvec := (addr AND NOT 0x3F) OR 3\<rparr>"

definition get_exc_entry :: "clic \<Rightarrow> u32" where
  "get_exc_entry e = csr_mtvec e AND NOT 3"

definition set_nonvec_entry :: "u32 \<Rightarrow> clic \<Rightarrow> clic" where
  "set_nonvec_entry addr e =
     (if csr_mtvt2 e AND 1 \<noteq> 0 then e\<lparr>csr_mtvt2 := addr OR 1\<rparr>
      else e\<lparr>csr_mtvec := (addr AND NOT 0x3F) OR 3\<rparr>)"

definition get_nonvec_entry :: "clic \<Rightarrow> u32" where
  "get_nonvec_entry e =
     (if csr_mtvt2 e AND 1 \<noteq> 0 then csr_mtvt2 e AND NOT 1 else csr_mtvec e AND NOT 3)"

end
