(* ===== verification/Eclic_Laws.thy ===== *)
theory Eclic_Laws
  imports Eclic
begin

text \<open>
  What registering an interrupt leaves in the controller: every setting reads back, the level and the
  priority capped to the bits the configuration gives them, and no other interrupt is touched.  The
  registration of the chip's interrupt by the session succeeds.
\<close>

section \<open>Bytes\<close>

lemma shl8_push: "shl8 v n = push_bit (unat n) v"
  unfolding shl8_def by (rule bit_eqI) (auto simp: bit_simps)

lemma shr8_drop: "shr8 v n = drop_bit (unat n) v"
  unfolding shr8_def by (rule bit_eqI) (auto simp: bit_simps dest: bit_imp_le_length)

lemma ones8_mask: "unat n \<le> 8 \<Longrightarrow> ones8 n = mask (unat n)"
  unfolding ones8_def mask_eq_exp_minus_1 [symmetric] push_bit_of_1 by (rule bit_eqI) (auto simp: bit_simps)

text \<open>Reading the level bits, and reading the priority bits, of what is written.\<close>

lemma level_read:
  assumes "n \<le> 8" "take_bit n lvl = (lvl :: u8)"
  shows "drop_bit (8 - n) (drop_bit n (push_bit n cur) OR push_bit (8 - n) lvl) = lvl"
proof (rule bit_eqI)
  fix k
  have "bit lvl k \<Longrightarrow> k < n" using assms(2) by (metis bit_take_bit_iff)
  then show "bit (drop_bit (8 - n) (drop_bit n (push_bit n cur) OR push_bit (8 - n) lvl)) k \<longleftrightarrow> bit lvl k"
    using assms(1) by (auto simp: bit_simps)
qed

lemma level_kept:
  assumes "m \<le> 5" "n = 3 - m" "m \<le> 3" "take_bit n pri = (pri :: u8)"
  shows "drop_bit (8 - m) (push_bit (8 - m) (drop_bit (8 - m) x) OR (push_bit 5 pri OR drop_bit 3 (- 1))) =
    drop_bit (8 - m) x"
proof (rule bit_eqI)
  fix k
  have "bit pri j \<Longrightarrow> j < n" for j using assms(4) by (metis bit_take_bit_iff)
  then have "\<not> bit pri (3 + k - m)" using assms(2,3) by force
  then
  show "bit (drop_bit (8 - m) (push_bit (8 - m) (drop_bit (8 - m) x) OR (push_bit 5 pri OR drop_bit 3 (- 1)))) k \<longleftrightarrow>
      bit (drop_bit (8 - m) x) k"
    using assms(2,3) by (auto simp: bit_simps dest: bit_imp_le_length)
qed

lemma priority_read:
  assumes "m \<le> 3" "take_bit (3 - m) pri = (pri :: u8)"
  shows "take_bit (3 - m) (drop_bit 5 (push_bit (8 - m) (drop_bit (8 - m) x) OR (push_bit 5 pri OR drop_bit 3 (- 1)))) = pri"
proof (rule bit_eqI)
  fix k
  have "bit pri k \<Longrightarrow> k < 3 - m" using assms(2) by (metis bit_take_bit_iff)
  then show "bit (take_bit (3 - m) (drop_bit 5 (push_bit (8 - m) (drop_bit (8 - m) x) OR
      (push_bit 5 pri OR drop_bit 3 (- 1))))) k \<longleftrightarrow> bit pri k"
    using assms(1) by (auto simp: bit_simps)
qed

lemma priority_bits: "m \<le> 3 \<Longrightarrow> drop_bit 5 (drop_bit m (push_bit m (c :: u8))) = take_bit (3 - m) (drop_bit 5 c)"
  by (rule bit_eqI) (auto simp: bit_simps)

lemma min_mask:
  assumes "n \<le> 3"
  shows "take_bit n (if mask n < v then mask n else v) = (if mask n < v then mask n else (v :: u8))"
proof -
  have "take_bit n w = w" if "w \<le> mask n" for w :: u8
  proof -
    have "n = 0 \<or> n = 1 \<or> n = 2 \<or> n = 3" using assms by auto
    then have "unat w < 2 ^ n" using that by (elim disjE) (simp_all add: mask_eq_exp_minus_1 word_le_nat_alt)
    then have "take_bit n (unat w) = unat w" by (rule take_bit_nat_eq_self)
    then show ?thesis by (simp add: word_unat_eq_iff unsigned_take_bit_eq)
  qed
  then show ?thesis by simp
qed


section \<open>Level and priority\<close>

text \<open>The bits of \<open>INTCTRL\<close> that hold the level, and what the hardware keeps of a write: the implemented bits.\<close>

definition level_bits :: "clic \<Rightarrow> nat" where
  "level_bits e = min 3 (unat (ECLIC_GetCfgNlbits e))"

definition keeps_implemented :: "(u8 \<Rightarrow> u8) \<Rightarrow> bool" where
  "keeps_implemented held \<longleftrightarrow> (\<forall>v. drop_bit 5 (held v) = drop_bit 5 v)"

lemma held_drop: "keeps_implemented held \<Longrightarrow> m \<le> 3 \<Longrightarrow> drop_bit (8 - m) (held v) = drop_bit (8 - m) v"
proof -
  assume "keeps_implemented held" "m \<le> 3"
  then have "drop_bit (3 - m) (drop_bit 5 (held v)) = drop_bit (3 - m) (drop_bit 5 v)"
    by (simp add: keeps_implemented_def)
  then show ?thesis using \<open>m \<le> 3\<close> by (simp add: drop_bit_drop_bit)
qed

lemma nlbits_byte:
  shows "unat (ucast (ECLIC_GetCfgNlbits e) :: u8) = unat (ECLIC_GetCfgNlbits e)"
proof -
  have "unat (ucast (CLIC_CFG e) AND CLIC_CLICCFG_NLBIT_Msk) \<le> unat (ucast (CLIC_CFG e) :: u32)"
    using word_and_le2 [of "ucast (CLIC_CFG e)" CLIC_CLICCFG_NLBIT_Msk] by (simp add: word_le_nat_alt)
  also have "unat (ucast (CLIC_CFG e) :: u32) = unat (CLIC_CFG e)"
    using unsigned_less [of "CLIC_CFG e", where ?'a = nat] by (simp add: unsigned_ucast_eq take_bit_nat_eq_self)
  also have "unat (CLIC_CFG e) < 2 ^ 8" using unsigned_less [of "CLIC_CFG e", where ?'a = nat] by simp
  finally have "unat (ucast (CLIC_CFG e) AND CLIC_CLICCFG_NLBIT_Msk) < 2 ^ 8" .
  then have "unat (ECLIC_GetCfgNlbits e) < 2 ^ 8"
    unfolding ECLIC_GetCfgNlbits_def unat_drop_bit_eq by (simp add: drop_bit_eq_div)
  then show ?thesis by (simp add: unsigned_ucast_eq take_bit_nat_eq_self)
qed

lemma level_bits_byte:
  fixes e :: clic
  defines "b \<equiv> ucast (ECLIC_GetCfgNlbits e) :: u8"
  shows "b = 0 \<longleftrightarrow> level_bits e = 0" and "unat (if 3 < b then 3 else b) = level_bits e"
    and "b < 3 \<longleftrightarrow> level_bits e < 3" and "b < 3 \<Longrightarrow> unat b = level_bits e"
  using nlbits_byte [of e]
  by (auto simp: b_def level_bits_def word_less_nat_alt word_unat_eq_iff)

lemma level_bits_le: "level_bits e \<le> 3"
  by (simp add: level_bits_def)

definition with_ctrl :: "u32 \<Rightarrow> u8 \<Rightarrow> clic \<Rightarrow> clic" where
  "with_ctrl irq c e = e\<lparr>CLIC_CTRL := (CLIC_CTRL e)[unat irq := (CLIC_CTRL e ! unat irq)\<lparr>INTCTRL := c\<rparr>]\<rparr>"

lemma ctrl_upd_Some:
  "unat irq < length (CLIC_CTRL e) \<Longrightarrow>
     ctrl_upd irq f e = Some (e\<lparr>CLIC_CTRL := (CLIC_CTRL e)[unat irq := f (CLIC_CTRL e ! unat irq)]\<rparr>)"
  by (simp add: ctrl_upd_def)

lemma unat_8_minus: "unat n \<le> 3 \<Longrightarrow> unat (8 - n :: u8) = 8 - unat n"
  by (simp add: unat_sub word_le_nat_alt)

lemma set_level:
  assumes "unat irq < length (CLIC_CTRL e)" "keeps_implemented held"
  shows "\<exists>c. ECLIC_SetLevelIRQ held irq lvl e = Some (with_ctrl irq c e) \<and>
    (0 < level_bits e \<longrightarrow> drop_bit (8 - level_bits e) c = min lvl (mask (level_bits e)))"
proof (cases "level_bits e = 0")
  case True
  then show ?thesis
    by (intro exI [of _ "INTCTRL (CLIC_CTRL e ! unat irq)"])
      (simp add: ECLIC_SetLevelIRQ_def level_bits_byte(1) with_ctrl_def)
next
  case False
  define b where "b = (ucast (ECLIC_GetCfgNlbits e) :: u8)"
  define n where "n = (if 3 < b then 3 else b)"
  define m where "m = level_bits e"
  have n: "unat n = m" "b \<noteq> 0"
    using False by (simp_all only: n_def b_def m_def level_bits_byte(1,2) not_False_eq_True)
  have m: "m \<le> 3" by (simp add: m_def level_bits_le)
  define l where "l = (if mask m < lvl then mask m else lvl)"
  define c where "c = held (drop_bit m (push_bit m (INTCTRL (CLIC_CTRL e ! unat irq))) OR push_bit (8 - m) l)"
  have "ones8 n = mask m" using n(1) m by (simp add: ones8_mask)
  then have "ECLIC_SetLevelIRQ held irq lvl e = Some (with_ctrl irq c e)"
    using n m assms(1)
    by (simp add: ECLIC_SetLevelIRQ_def ECLIC_INTCTLBITS_def n_def [symmetric] b_def [symmetric] Let_def shl8_push shr8_drop
        unat_8_minus ECLIC_GetCtrlIRQ_def ECLIC_SetCtrlIRQ_def ctrl_upd_Some with_ctrl_def c_def l_def)
  moreover have "drop_bit (8 - m) c = l"
    unfolding c_def held_drop [OF assms(2) m] by (rule level_read) (use m min_mask l_def in auto)
  moreover have "l = min lvl (mask m)" by (auto simp: l_def min_def)
  ultimately show ?thesis by (auto simp: m_def)
qed

lemma set_priority:
  assumes "unat irq < length (CLIC_CTRL e)" "keeps_implemented held"
  shows "\<exists>c. ECLIC_SetPriorityIRQ held irq pri e = Some (with_ctrl irq c e) \<and>
    drop_bit (8 - level_bits e) c = drop_bit (8 - level_bits e) (INTCTRL (CLIC_CTRL e ! unat irq)) \<and>
    (level_bits e < 3 \<longrightarrow> take_bit (3 - level_bits e) (drop_bit 5 c) = min pri (mask (3 - level_bits e)))"
proof (cases "level_bits e < 3")
  case False
  then show ?thesis
    by (intro exI [of _ "INTCTRL (CLIC_CTRL e ! unat irq)"])
      (simp add: ECLIC_SetPriorityIRQ_def ECLIC_INTCTLBITS_def level_bits_byte(3) with_ctrl_def)
next
  case True
  define b where "b = (ucast (ECLIC_GetCfgNlbits e) :: u8)"
  define m where "m = level_bits e"
  have b: "b < 3" "unat b = m" using level_bits_byte(3,4) [of e] True by (simp_all add: b_def m_def)
  have m: "m \<le> 3" by (simp add: m_def level_bits_le)
  define p where "p = (if mask (3 - m) < pri then mask (3 - m) else pri)"
  define x where "x = INTCTRL (CLIC_CTRL e ! unat irq)"
  define c where "c = held (push_bit (8 - m) (drop_bit (8 - m) x) OR (push_bit 5 p OR drop_bit 3 (- 1)))"
  have s: "unat (3 - b) = 3 - m" "unat (8 - b) = 8 - m" "unat (8 - 3 :: u8) = 5"
    using b m by (simp_all add: unat_sub word_le_nat_alt word_less_nat_alt)
  then have "ones8 (3 - b) = mask (3 - m)" by (simp add: ones8_mask)
  then have "ECLIC_SetPriorityIRQ held irq pri e = Some (with_ctrl irq c e)"
    using b(1) s assms(1)
    by (simp add: ECLIC_SetPriorityIRQ_def ECLIC_INTCTLBITS_def b_def [symmetric] Let_def shl8_push shr8_drop
        ECLIC_GetCtrlIRQ_def ECLIC_SetCtrlIRQ_def ctrl_upd_Some with_ctrl_def c_def p_def x_def)
  moreover have tp: "take_bit (3 - m) p = p" unfolding p_def by (rule min_mask) simp
  have "drop_bit (8 - m) c = drop_bit (8 - m) x"
    unfolding c_def held_drop [OF assms(2) m] by (rule level_kept [OF _ refl m tp]) (use m in simp)
  moreover have "take_bit (3 - m) (drop_bit 5 c) = p"
    using assms(2) priority_read [OF m tp, of x] by (simp add: c_def keeps_implemented_def)
  moreover have "p = min pri (mask (3 - m))" by (auto simp: p_def min_def)
  ultimately show ?thesis by (auto simp: m_def x_def)
qed


section \<open>Registration\<close>

text \<open>The attribute byte with its two fields set.\<close>

lemma attr_masks:
  shows "CLIC_INTATTR_TRIG_Msk = push_bit 1 (mask 2)" and "CLIC_INTATTR_SHV_Msk = mask 1"
  by (simp_all add: CLIC_INTATTR_TRIG_Msk_def CLIC_INTATTR_SHV_Msk_def mask_eq_exp_minus_1)

lemma small_bits:
  "unat (w :: 'a :: len word) < 2 ^ n \<Longrightarrow> bit w k \<Longrightarrow> k < n"
  by (metis bit_take_bit_iff take_bit_nat_eq_self unsigned_take_bit_eq word_unat_eq_iff)

lemma attr_shv:
  assumes "shv \<le> 1"
  shows "drop_bit 0 (ucast (ucast ((ucast (a :: u8) AND NOT CLIC_INTATTR_SHV_Msk) OR
      ucast (ucast (push_bit 0 (ucast (shv :: u8) :: u32)) :: u8)) :: u8) AND CLIC_INTATTR_SHV_Msk) = (ucast shv :: u32)"
proof (rule bit_eqI)
  fix k
  have "bit shv k \<Longrightarrow> k < 1"
    by (rule small_bits [of shv]) (use assms in \<open>simp_all add: word_le_nat_alt\<close>)
  then show "bit (drop_bit 0 (ucast (ucast ((ucast (a :: u8) AND NOT CLIC_INTATTR_SHV_Msk) OR
      ucast (ucast (push_bit 0 (ucast (shv :: u8) :: u32)) :: u8)) :: u8) AND CLIC_INTATTR_SHV_Msk)) k \<longleftrightarrow>
      bit (ucast shv :: u32) k"
    unfolding attr_masks by (auto simp: bit_simps)
qed

lemma attr_trig:
  assumes "trig \<le> 3"
  shows "drop_bit 1 (ucast (ucast ((ucast (a :: u8) AND NOT CLIC_INTATTR_TRIG_Msk) OR
      ucast (ucast (push_bit 1 (trig :: u32)) :: u8)) :: u8) AND CLIC_INTATTR_TRIG_Msk) = trig"
proof (rule bit_eqI)
  fix k
  obtain p where one: "1 = p" and p: "p \<le> (1 :: nat)" by simp
  have "bit trig k \<Longrightarrow> k < 2"
    by (rule small_bits [of trig]) (use assms in \<open>simp_all add: word_le_nat_alt\<close>)
  then show "bit (drop_bit 1 (ucast (ucast ((ucast (a :: u8) AND NOT CLIC_INTATTR_TRIG_Msk) OR
      ucast (ucast (push_bit 1 (trig :: u32)) :: u8)) :: u8) AND CLIC_INTATTR_TRIG_Msk)) k \<longleftrightarrow> bit trig k"
    unfolding attr_masks one using p by (auto simp: bit_simps)
qed

lemma attr_trig_keeps_shv:
  "ucast (ucast ((ucast (a :: u8) AND NOT CLIC_INTATTR_TRIG_Msk) OR
      ucast (ucast (push_bit 1 (trig :: u32)) :: u8)) :: u8) AND CLIC_INTATTR_SHV_Msk =
   (ucast a AND CLIC_INTATTR_SHV_Msk :: u32)"
proof -
  obtain p where one: "push_bit 1 = (push_bit p :: u32 \<Rightarrow> u32)" and p: "1 \<le> (p :: nat)" by blast
  show ?thesis unfolding attr_masks one by (rule bit_eqI) (use p in \<open>auto simp: bit_simps\<close>)
qed

text \<open>The other bits of the two bytes.\<close>

lemma attr_rest:
  assumes "shv \<le> 1" "trig \<le> 3"
  shows "(ucast ((ucast (ucast ((ucast (a :: u8) AND NOT CLIC_INTATTR_SHV_Msk) OR
      ucast (ucast (push_bit 0 (ucast (shv :: u8) :: u32)) :: u8)) :: u8) AND NOT CLIC_INTATTR_TRIG_Msk) OR
      ucast (ucast (push_bit 1 (trig :: u32)) :: u8)) :: u8) AND NOT 7 = a AND NOT 7"
proof (rule bit_eqI)
  fix k
  obtain p where one: "1 = p" and p: "p \<le> (1 :: nat)" "1 \<le> p" by simp
  have seven: "(7 :: u8) = mask 3" by (simp add: mask_eq_exp_minus_1)
  have "bit shv k \<Longrightarrow> k < 1"
    by (rule small_bits [of shv]) (use assms in \<open>simp_all add: word_le_nat_alt\<close>)
  moreover have "bit trig (k - 1) \<Longrightarrow> k - 1 < 2"
    by (rule small_bits [of trig]) (use assms in \<open>simp_all add: word_le_nat_alt\<close>)
  ultimately show "bit ((ucast ((ucast (ucast ((ucast (a :: u8) AND NOT CLIC_INTATTR_SHV_Msk) OR
      ucast (ucast (push_bit 0 (ucast (shv :: u8) :: u32)) :: u8)) :: u8) AND NOT CLIC_INTATTR_TRIG_Msk) OR
      ucast (ucast (push_bit 1 (trig :: u32)) :: u8)) :: u8) AND NOT 7) k \<longleftrightarrow> bit (a AND NOT 7) k"
    unfolding seven attr_masks one using p by (auto simp: bit_simps)
qed

lemma enable_rest: "ucast (ucast (a :: u8) OR CLIC_INTIE_IE_Msk) AND NOT 1 = (a AND NOT 1 :: u8)"
  unfolding CLIC_INTIE_IE_Msk_def by (rule bit_eqI) (auto simp: bit_simps)

lemma enable_bit: "ucast (ucast (ucast (a :: u8) OR CLIC_INTIE_IE_Msk) :: u8) AND CLIC_INTIE_IE_Msk = (1 :: u32)"
  unfolding CLIC_INTIE_IE_Msk_def by (rule bit_eqI) (auto simp: bit_simps)

lemmas eclic_accessors = ECLIC_SetShvIRQ_def ECLIC_SetTrigIRQ_def ECLIC_EnableIRQ_def ECLIC_SetVector_def
  ECLIC_GetShvIRQ_def ECLIC_GetTrigIRQ_def ECLIC_GetEnableIRQ_def ECLIC_GetVector_def

lemma nlbits_ctrl [simp]: "ECLIC_GetCfgNlbits (e\<lparr>CLIC_CTRL := regs\<rparr>) = ECLIC_GetCfgNlbits e"
  "ECLIC_GetCfgNlbits (e\<lparr>mtvt_table := t\<rparr>) = ECLIC_GetCfgNlbits e"
  by (simp_all add: ECLIC_GetCfgNlbits_def)

lemma level_bits_ctrl [simp]: "level_bits (e\<lparr>CLIC_CTRL := regs\<rparr>) = level_bits e"
  "level_bits (e\<lparr>mtvt_table := t\<rparr>) = level_bits e"
  by (simp_all add: level_bits_def)

text \<open>What a registration leaves: one register block changed, and its \<open>INTCTRL\<close> as the level and priority demand.\<close>

lemma register_effect:
  assumes "irq \<le> SOC_INT_MAX" "shv \<le> 1" "trig \<le> 3"
    and "unat irq < length (CLIC_CTRL e)" "unat irq < length (mtvt_table e)" "keeps_implemented held"
  obtains r t where
    "ECLIC_Register_IRQ held irq shv trig lvl pri handler e =
       Some (0, e\<lparr>CLIC_CTRL := (CLIC_CTRL e)[unat irq := r], mtvt_table := t\<rparr>)"
    "t = (case handler of None \<Rightarrow> mtvt_table e | Some h \<Rightarrow> (mtvt_table e)[unat irq := h])"
    "ucast (INTIE r) AND CLIC_INTIE_IE_Msk = 1"
    "drop_bit 0 (ucast (INTATTR r) AND CLIC_INTATTR_SHV_Msk) = (ucast shv :: u32)"
    "drop_bit 1 (ucast (INTATTR r) AND CLIC_INTATTR_TRIG_Msk) = trig"
    "INTIP r = INTIP (CLIC_CTRL e ! unat irq)"
    "INTATTR r AND NOT 7 = INTATTR (CLIC_CTRL e ! unat irq) AND NOT 7"
    "INTIE r AND NOT 1 = INTIE (CLIC_CTRL e ! unat irq) AND NOT 1"
    "0 < level_bits e \<Longrightarrow> drop_bit (8 - level_bits e) (INTCTRL r) = min lvl (mask (level_bits e))"
    "level_bits e < 3 \<Longrightarrow> take_bit (3 - level_bits e) (drop_bit 5 (INTCTRL r)) = min pri (mask (3 - level_bits e))"
proof -
  define r0 where "r0 = CLIC_CTRL e ! unat irq"
  define a1 where "a1 = (ucast ((ucast (INTATTR r0) AND NOT CLIC_INTATTR_SHV_Msk) OR
      ucast (ucast (push_bit 0 (ucast shv :: u32)) :: u8)) :: u8)"
  define a2 where "a2 = (ucast ((ucast a1 AND NOT CLIC_INTATTR_TRIG_Msk) OR
      ucast (ucast (push_bit 1 trig) :: u8)) :: u8)"
  define e1 where "e1 = e\<lparr>CLIC_CTRL := (CLIC_CTRL e)[unat irq := r0\<lparr>INTATTR := a2\<rparr>]\<rparr>"
  note i = assms(4)
  have e1: "do { e \<leftarrow> ECLIC_SetShvIRQ irq (ucast shv) e; ECLIC_SetTrigIRQ irq trig e } = Some e1"
    using i by (simp add: eclic_accessors ctrl_upd_Some e1_def r0_def a1_def a2_def)
  have i1: "unat irq < length (CLIC_CTRL e1)" using i by (simp add: e1_def)
  from set_level [OF i1 assms(6), of lvl] obtain c where c: "ECLIC_SetLevelIRQ held irq lvl e1 = Some (with_ctrl irq c e1)"
    "0 < level_bits e \<longrightarrow> drop_bit (8 - level_bits e) c = min lvl (mask (level_bits e))"
    by (auto simp: e1_def)
  define e2 where "e2 = e\<lparr>CLIC_CTRL := (CLIC_CTRL e)[unat irq := r0\<lparr>INTATTR := a2, INTCTRL := c\<rparr>]\<rparr>"
  have e2: "with_ctrl irq c e1 = e2" using i by (simp add: with_ctrl_def e1_def e2_def)
  have i2: "unat irq < length (CLIC_CTRL e2)" using i by (simp add: e2_def)
  from set_priority [OF i2 assms(6), of pri] obtain d where d: "ECLIC_SetPriorityIRQ held irq pri e2 = Some (with_ctrl irq d e2)"
    "drop_bit (8 - level_bits e) d = drop_bit (8 - level_bits e) c"
    "level_bits e < 3 \<longrightarrow> take_bit (3 - level_bits e) (drop_bit 5 d) = min pri (mask (3 - level_bits e))"
    using i by (auto simp: e2_def)
  define r where "r = r0\<lparr>INTATTR := a2, INTCTRL := d, INTIE := ucast (ucast (INTIE r0) OR CLIC_INTIE_IE_Msk)\<rparr>"
  define t where "t = (case handler of None \<Rightarrow> mtvt_table e | Some h \<Rightarrow> (mtvt_table e)[unat irq := h])"
  have "ECLIC_Register_IRQ held irq shv trig lvl pri handler e =
      do { e \<leftarrow> do { e \<leftarrow> ECLIC_SetShvIRQ irq (ucast shv) e; ECLIC_SetTrigIRQ irq trig e };
           e \<leftarrow> ECLIC_SetLevelIRQ held irq lvl e;
           e \<leftarrow> ECLIC_SetPriorityIRQ held irq pri e;
           e \<leftarrow> (case handler of None \<Rightarrow> Some e | Some h \<Rightarrow> ECLIC_SetVector irq h e);
           e \<leftarrow> ECLIC_EnableIRQ irq e; Some (0, e) }"
    using assms(1-3) unfolding ECLIC_Register_IRQ_def linorder_not_less [symmetric] by simp
  also have "\<dots> = Some (0, e\<lparr>CLIC_CTRL := (CLIC_CTRL e)[unat irq := r], mtvt_table := t\<rparr>)"
    unfolding e1 bind.bind_lunit c(1) e2 d(1)
    using i assms(5)
    by (cases handler) (simp_all add: with_ctrl_def e2_def eclic_accessors ctrl_upd_Some r_def t_def)
  finally show ?thesis
    using c(2) d(2,3) attr_shv [OF assms(2), of "INTATTR r0"] attr_trig [OF assms(3), of a1]
      attr_trig_keeps_shv [of a1 trig]
      attr_rest [OF assms(2,3), of "INTATTR r0"] enable_rest [of "INTIE r0"]
    by (intro that [of t r]) (auto simp: r_def t_def r0_def a2_def a1_def enable_bit)
qed

text \<open>Reading the level and the priority of a register block.\<close>

lemma get_level:
  assumes "unat irq < length (CLIC_CTRL e)"
  shows "ECLIC_GetLevelIRQ irq e =
    Some (if level_bits e = 0 then 0 else drop_bit (8 - level_bits e) (INTCTRL (CLIC_CTRL e ! unat irq)))"
proof -
  define b where "b = (ucast (ECLIC_GetCfgNlbits e) :: u8)"
  define n where "n = (if 3 < b then 3 else b)"
  have n: "unat n = level_bits e" "b = 0 \<longleftrightarrow> level_bits e = 0" by (simp_all only: n_def b_def level_bits_byte(1,2))
  then show ?thesis
    using assms level_bits_le [of e]
    by (simp add: ECLIC_GetLevelIRQ_def ECLIC_INTCTLBITS_def n_def [symmetric] b_def [symmetric] Let_def shr8_drop
        unat_8_minus ECLIC_GetCtrlIRQ_def)
qed

lemma get_priority:
  assumes "unat irq < length (CLIC_CTRL e)"
  shows "ECLIC_GetPriorityIRQ irq e =
    Some (if level_bits e < 3 then take_bit (3 - level_bits e) (drop_bit 5 (INTCTRL (CLIC_CTRL e ! unat irq))) else 0)"
proof -
  define b where "b = (ucast (ECLIC_GetCfgNlbits e) :: u8)"
  have b: "b < 3 \<longleftrightarrow> level_bits e < 3" "b < 3 \<Longrightarrow> unat b = level_bits e"
    by (simp_all only: b_def level_bits_byte(3,4))
  have "unat (8 - 3 :: u8) = 5" by simp
  then show ?thesis
    using assms b level_bits_le [of e]
    by (simp add: ECLIC_GetPriorityIRQ_def ECLIC_INTCTLBITS_def b_def [symmetric] Let_def shr8_drop shl8_push
        ECLIC_GetCtrlIRQ_def priority_bits [simplified])
qed

lemma register_configures:
  assumes held: "keeps_implemented held"
    and regs: "unat SOC_INT_MAX < length (CLIC_CTRL e)" "unat SOC_INT_MAX < length (mtvt_table e)"
    and args: "irq \<le> SOC_INT_MAX" "shv \<le> 1" "trig \<le> 3"
  shows "\<exists>e'. ECLIC_Register_IRQ held irq shv trig lvl pri handler e = Some (0, e') \<and>
    ECLIC_GetShvIRQ irq e' = Some (ucast shv) \<and> ECLIC_GetTrigIRQ irq e' = Some trig \<and>
    ECLIC_GetLevelIRQ irq e' = Some (min lvl (mask (level_bits e))) \<and>
    ECLIC_GetPriorityIRQ irq e' = Some (min pri (mask (3 - level_bits e))) \<and>
    ECLIC_GetEnableIRQ irq e' = Some 1 \<and> ECLIC_GetPendingIRQ irq e' = ECLIC_GetPendingIRQ irq e \<and>
    (\<forall>h. handler = Some h \<longrightarrow> ECLIC_GetVector irq e' = Some h) \<and>
    (\<forall>k. k \<noteq> irq \<longrightarrow> rd (CLIC_CTRL e') k = rd (CLIC_CTRL e) k \<and> ECLIC_GetVector k e' = ECLIC_GetVector k e) \<and>
    (\<exists>r. e' = e\<lparr>CLIC_CTRL := (CLIC_CTRL e)[unat irq := r],
             mtvt_table := (case handler of None \<Rightarrow> mtvt_table e | Some h \<Rightarrow> (mtvt_table e)[unat irq := h])\<rparr> \<and>
       INTIP r = INTIP (CLIC_CTRL e ! unat irq) \<and>
       INTATTR r AND NOT 7 = INTATTR (CLIC_CTRL e ! unat irq) AND NOT 7 \<and>
       INTIE r AND NOT 1 = INTIE (CLIC_CTRL e ! unat irq) AND NOT 1)"
proof -
  have i: "unat irq < length (CLIC_CTRL e)" "unat irq < length (mtvt_table e)"
    using regs args(1) by (simp_all add: word_le_nat_alt)
  from register_effect [OF args i held, of lvl pri handler] obtain r t where r:
    "ECLIC_Register_IRQ held irq shv trig lvl pri handler e =
       Some (0, e\<lparr>CLIC_CTRL := (CLIC_CTRL e)[unat irq := r], mtvt_table := t\<rparr>)"
    "t = (case handler of None \<Rightarrow> mtvt_table e | Some h \<Rightarrow> (mtvt_table e)[unat irq := h])"
    "ucast (INTIE r) AND CLIC_INTIE_IE_Msk = 1"
    "drop_bit 0 (ucast (INTATTR r) AND CLIC_INTATTR_SHV_Msk) = (ucast shv :: u32)"
    "drop_bit 1 (ucast (INTATTR r) AND CLIC_INTATTR_TRIG_Msk) = trig"
    "INTIP r = INTIP (CLIC_CTRL e ! unat irq)"
    "INTATTR r AND NOT 7 = INTATTR (CLIC_CTRL e ! unat irq) AND NOT 7"
    "INTIE r AND NOT 1 = INTIE (CLIC_CTRL e ! unat irq) AND NOT 1"
    "0 < level_bits e \<Longrightarrow> drop_bit (8 - level_bits e) (INTCTRL r) = min lvl (mask (level_bits e))"
    "level_bits e < 3 \<Longrightarrow> take_bit (3 - level_bits e) (drop_bit 5 (INTCTRL r)) = min pri (mask (3 - level_bits e))"
    by metis
  let ?e' = "e\<lparr>CLIC_CTRL := (CLIC_CTRL e)[unat irq := r], mtvt_table := t\<rparr>"
  have "ECLIC_GetLevelIRQ irq ?e' = Some (min lvl (mask (level_bits e)))"
    using i r(9) by (simp add: get_level)
  moreover have "ECLIC_GetPriorityIRQ irq ?e' = Some (min pri (mask (3 - level_bits e)))"
    using i r(10) level_bits_le [of e] by (simp add: get_priority)
  moreover have "rd (CLIC_CTRL ?e') k = rd (CLIC_CTRL e) k \<and> ECLIC_GetVector k ?e' = ECLIC_GetVector k e"
    if "k \<noteq> irq" for k
    using that r(2) by (auto simp: rd_def ECLIC_GetVector_def word_unat_eq_iff split: option.splits)
  moreover have "ECLIC_GetVector irq ?e' = Some h" if "handler = Some h" for h
    using that r(2) i by (simp add: ECLIC_GetVector_def)
  moreover have "ECLIC_GetPendingIRQ irq ?e' = ECLIC_GetPendingIRQ irq e"
    using i r(6) by (simp add: ECLIC_GetPendingIRQ_def)
  moreover have "ECLIC_GetShvIRQ irq ?e' = Some (ucast shv)" "ECLIC_GetTrigIRQ irq ?e' = Some trig"
    "ECLIC_GetEnableIRQ irq ?e' = Some 1"
    using i r(3-5) by (simp_all add: eclic_accessors)
  moreover have "?e' = e\<lparr>CLIC_CTRL := (CLIC_CTRL e)[unat irq := r],
      mtvt_table := (case handler of None \<Rightarrow> mtvt_table e | Some h \<Rightarrow> (mtvt_table e)[unat irq := h])\<rparr>"
    by (simp only: r(2))
  ultimately show ?thesis using r(1,6-8) by (intro exI [of _ ?e']) blast
qed

text \<open>C24.  Registering an interrupt.  An interrupt number up to and including \<open>SOC_INT_MAX\<close>, which is 51, a mode up to 1
  and a trigger up to 3 are accepted: the call returns 0, the mode, the trigger, the level and the priority (capped
  to their bits) and the enable bit read back, with a handler the vector too, and the controller is otherwise as it
  was: without a handler the vector table, the configuration, the threshold, the handler entries, every other
  interrupt, the pending bit, and the bits of the two bytes that hold neither mode, trigger nor enable.  Any other
  argument is refused with -1, and then the controller is as it was.  The documentation of the function wants -1
  for 51 too, which is no interrupt of this chip: it is configured.\<close>

theorem eclic_register_configures:
  assumes "keeps_implemented held"
    and "unat SOC_INT_MAX < length (CLIC_CTRL e)" "unat SOC_INT_MAX < length (mtvt_table e)"
  shows "\<exists>result e'. ECLIC_Register_IRQ held irq shv trig lvl pri handler e = Some (result, e') \<and>
    (if irq \<le> SOC_INT_MAX \<and> shv \<le> 1 \<and> trig \<le> 3
     then result = 0 \<and>
       ECLIC_GetShvIRQ irq e' = Some (ucast shv) \<and> ECLIC_GetTrigIRQ irq e' = Some trig \<and>
       ECLIC_GetLevelIRQ irq e' = Some (min lvl (mask (level_bits e))) \<and>
       ECLIC_GetPriorityIRQ irq e' = Some (min pri (mask (3 - level_bits e))) \<and>
       ECLIC_GetEnableIRQ irq e' = Some 1 \<and> ECLIC_GetPendingIRQ irq e' = ECLIC_GetPendingIRQ irq e \<and>
       (\<forall>h. handler = Some h \<longrightarrow> ECLIC_GetVector irq e' = Some h) \<and>
       (\<forall>k. k \<noteq> irq \<longrightarrow> rd (CLIC_CTRL e') k = rd (CLIC_CTRL e) k \<and> ECLIC_GetVector k e' = ECLIC_GetVector k e) \<and>
       (\<exists>r. e' = e\<lparr>CLIC_CTRL := (CLIC_CTRL e)[unat irq := r],
                mtvt_table := (case handler of None \<Rightarrow> mtvt_table e | Some h \<Rightarrow> (mtvt_table e)[unat irq := h])\<rparr> \<and>
          INTIP r = INTIP (CLIC_CTRL e ! unat irq) \<and>
          INTATTR r AND NOT 7 = INTATTR (CLIC_CTRL e ! unat irq) AND NOT 7 \<and>
          INTIE r AND NOT 1 = INTIE (CLIC_CTRL e ! unat irq) AND NOT 1)
     else result = - 1 \<and> e' = e)"
proof (cases "irq \<le> SOC_INT_MAX \<and> shv \<le> 1 \<and> trig \<le> 3")
  case True
  then show ?thesis using register_configures [OF assms, of irq shv trig lvl pri handler] by auto
next
  case False
  then have "ECLIC_Register_IRQ held irq shv trig lvl pri handler e = Some (- 1, e)"
    unfolding ECLIC_Register_IRQ_def linorder_not_le [symmetric] by simp
  then show ?thesis using False by simp
qed


section \<open>Switches and entries\<close>

lemma clear_bit0: "ucast (ucast (ucast (a :: u8) AND NOT 1 :: u32) :: u8) AND 1 = (0 :: u32)"
  by (rule bit_eqI) (auto simp: bit_simps)

lemma set_bit0: "ucast (ucast (ucast (a :: u8) OR 1 :: u32) :: u8) AND 1 = (1 :: u32)"
  by (rule bit_eqI) (auto simp: bit_simps)

lemma switches_read_back:
  assumes "unat irq < length (CLIC_CTRL e)"
  shows "\<exists>e'. ECLIC_EnableIRQ irq e = Some e' \<and> ECLIC_GetEnableIRQ irq e' = Some 1"
    and "\<exists>e'. ECLIC_DisableIRQ irq e = Some e' \<and> ECLIC_GetEnableIRQ irq e' = Some 0"
    and "\<exists>e'. ECLIC_SetPendingIRQ irq e = Some e' \<and> ECLIC_GetPendingIRQ irq e' = Some 1"
    and "\<exists>e'. ECLIC_ClearPendingIRQ irq e = Some e' \<and> ECLIC_GetPendingIRQ irq e' = Some 0"
  using assms by (simp_all add: ECLIC_EnableIRQ_def ECLIC_DisableIRQ_def ECLIC_SetPendingIRQ_def ECLIC_ClearPendingIRQ_def
      ECLIC_GetEnableIRQ_def ECLIC_GetPendingIRQ_def ctrl_upd_Some CLIC_INTIE_IE_Msk_def CLIC_INTIP_IP_Msk_def
      clear_bit0 [simplified] set_bit0)

text \<open>
  An entry reads back without its low bits: six for an exception entry, one for an entry in \<open>mtvt2\<close>.
  Setting one entry keeps the other while \<open>mtvt2\<close> is in use, as the start-up leaves it.
\<close>

lemma exc_entry_reads_back: "get_exc_entry (set_exc_entry addr e) = addr AND NOT 0x3F"
proof -
  have masks: "(0x3F :: u32) = mask 6" "(3 :: u32) = mask 2" by (simp_all add: mask_eq_exp_minus_1)
  show ?thesis
    unfolding get_exc_entry_def set_exc_entry_def masks by (rule bit_eqI) (auto simp: bit_simps)
qed

lemma nonvec_entry_reads_back:
  assumes "csr_mtvt2 e AND 1 \<noteq> 0"
  shows "get_nonvec_entry (set_nonvec_entry addr e) = addr AND NOT 1"
    and "get_exc_entry (set_nonvec_entry addr e) = get_exc_entry e"
    and "get_nonvec_entry (set_exc_entry addr e) = get_nonvec_entry e"
proof -
  have "(addr OR 1) AND 1 \<noteq> 0"
  proof -
    have "bit ((addr OR 1) AND 1) 0" by (simp add: bit_simps)
    then show ?thesis by auto
  qed
  moreover have "(addr OR 1) AND NOT 1 = addr AND NOT 1" by (rule bit_eqI) (auto simp: bit_simps)
  ultimately show "get_nonvec_entry (set_nonvec_entry addr e) = addr AND NOT 1"
    using assms by (simp add: get_nonvec_entry_def set_nonvec_entry_def)
qed (use assms in \<open>simp_all add: get_nonvec_entry_def set_nonvec_entry_def get_exc_entry_def set_exc_entry_def\<close>)


section \<open>The interrupt of the chip\<close>

text \<open>The start-up gives every implemented bit to the level.\<close>

lemma cfg_field:
  "p \<le> 4 \<Longrightarrow> drop_bit p (ucast (ucast ((ucast (t :: u8) AND NOT (push_bit p (mask 4)) :: u32) OR
     ucast (ucast (push_bit p v AND push_bit p (mask 4) :: u32) :: u8)) :: u8) AND push_bit p (mask 4)) =
   (take_bit 4 v :: u32)"
  by (rule bit_eqI) (auto simp: bit_simps)

lemma nlbits_read: "ECLIC_GetCfgNlbits (ECLIC_SetCfgNlbits nlbits e) = take_bit 4 nlbits"
proof -
  have "CLIC_CLICCFG_NLBIT_Msk = push_bit 1 (mask 4)"
    by (simp add: CLIC_CLICCFG_NLBIT_Msk_def mask_eq_exp_minus_1)
  then show ?thesis
    unfolding ECLIC_GetCfgNlbits_def ECLIC_SetCfgNlbits_def Let_def
    using cfg_field [of 1 "CLIC_CFG e" nlbits] by simp
qed

lemma init_level_bits: "level_bits (ECLIC_Interrupt_Init True vectors entry exc e) = 3"
proof -
  have "take_bit 4 (ucast ECLIC_INTCTLBITS) = (3 :: u32)" by (simp add: ECLIC_INTCTLBITS_def)
  then show ?thesis by (simp add: level_bits_def ECLIC_Interrupt_Init_def nlbits_read)
qed

lemma init_keeps:
  "CLIC_CTRL (ECLIC_Interrupt_Init clic vectors entry exc e) = CLIC_CTRL e"
  "mtvt_table (ECLIC_Interrupt_Init clic vectors entry exc e) = mtvt_table e"
  by (simp_all add: ECLIC_Interrupt_Init_def ECLIC_SetCfgNlbits_def ECLIC_SetMth_def Let_def)

text \<open>
  The registration of \<open>Session.register_irq\<close> after the start-up: it succeeds, so that a session that finds
  the chip free owns it, and the interrupt of the chip has level 1 and its handler.
\<close>

lemma session_registers_noc:
  assumes "keeps_implemented held"
    and "unat SOC_INT_MAX < length (CLIC_CTRL e)" "unat SOC_INT_MAX < length (mtvt_table e)"
  shows "\<exists>result e'. ECLIC_Register_IRQ held PAICORE_NOC_IRQn ECLIC_NON_VECTOR_INTERRUPT ECLIC_LEVEL_TRIGGER 1 0
      (Some handler) (ECLIC_Interrupt_Init True vectors entry exc e) = Some (result, e') \<and>
    ECLIC_GetLevelIRQ PAICORE_NOC_IRQn e' = Some 1 \<and> ECLIC_GetEnableIRQ PAICORE_NOC_IRQn e' = Some 1 \<and>
    ECLIC_GetVector PAICORE_NOC_IRQn e' = Some handler \<and>
    (\<forall>p w. w_active w = None \<longrightarrow> fst (register_irq (sint result) p w) = RVRT_SESSION_OK \<and>
       w_active (snd (register_irq (sint result) p w)) = Some p)"
proof -
  let ?e = "ECLIC_Interrupt_Init True vectors entry exc e"
  have "unat SOC_INT_MAX < length (CLIC_CTRL ?e)" "unat SOC_INT_MAX < length (mtvt_table ?e)"
    using assms(2,3) by (simp_all add: init_keeps)
  moreover have "PAICORE_NOC_IRQn \<le> SOC_INT_MAX" by (simp add: PAICORE_NOC_IRQn_def SOC_INT_MAX_def)
  moreover have "min 1 (mask 3) = (1 :: u8)" by (simp add: mask_eq_exp_minus_1)
  ultimately obtain e' where "ECLIC_Register_IRQ held PAICORE_NOC_IRQn 0 0 1 0 (Some handler) ?e = Some (0, e')"
    "ECLIC_GetLevelIRQ PAICORE_NOC_IRQn e' = Some 1" "ECLIC_GetEnableIRQ PAICORE_NOC_IRQn e' = Some 1"
    "ECLIC_GetVector PAICORE_NOC_IRQn e' = Some handler"
    using register_configures [OF assms(1), of ?e PAICORE_NOC_IRQn 0 0 1 0 "Some handler"]
    by (auto simp: init_level_bits)
  then show ?thesis by (auto simp: register_irq_def Let_def upd_hw_def)
qed

text \<open>A controller whose unimplemented bits read as ones, and the interrupt of the chip at level 9, of 8 levels.\<close>

definition demo_clic :: clic where
  "demo_clic = \<lparr>CLIC_CFG = 0, CLIC_INFO = 0, CLIC_MTH = 0,
     CLIC_CTRL = replicate 64 \<lparr>INTIP = 0, INTIE = 0, INTATTR = 0, INTCTRL = 31\<rparr>,
     mtvt_table = replicate 64 0, csr_mtvt = 0, csr_mtvt2 = 0, csr_mtvec = 0\<rparr>"

theorem eclic_register_configures_witness:
  "\<exists>e'. ECLIC_Register_IRQ (\<lambda>v. v OR 31) PAICORE_NOC_IRQn 0 0 9 5 (Some 256)
      (ECLIC_Interrupt_Init True 0 0 0 demo_clic) = Some (0, e') \<and>
    ECLIC_GetLevelIRQ PAICORE_NOC_IRQn e' = Some 7 \<and> ECLIC_GetPriorityIRQ PAICORE_NOC_IRQn e' = Some 0 \<and>
    ECLIC_GetVector PAICORE_NOC_IRQn e' = Some 256"
proof -
  let ?e = "ECLIC_Interrupt_Init True 0 0 0 demo_clic"
  have "drop_bit 5 (v OR 31) = drop_bit 5 v" for v :: u8
  proof (rule bit_eqI)
    fix k
    have "(31 :: u8) = mask 5" by (simp add: mask_eq_exp_minus_1)
    then show "bit (drop_bit 5 (v OR 31)) k = bit (drop_bit 5 v) k" by (simp add: bit_simps)
  qed
  then have "keeps_implemented (\<lambda>v. v OR 31)" by (simp add: keeps_implemented_def)
  moreover have "unat SOC_INT_MAX < length (CLIC_CTRL ?e)" "unat SOC_INT_MAX < length (mtvt_table ?e)"
    by (simp_all add: init_keeps demo_clic_def SOC_INT_MAX_def)
  moreover have "min 9 (mask 3) = (7 :: u8)" "min 5 (mask 0) = (0 :: u8)" by (simp_all add: mask_eq_exp_minus_1)
  moreover have "PAICORE_NOC_IRQn \<le> SOC_INT_MAX" by (simp add: PAICORE_NOC_IRQn_def SOC_INT_MAX_def)
  ultimately show ?thesis
    using eclic_register_configures [of "\<lambda>v. v OR 31" ?e PAICORE_NOC_IRQn 0 0 9 5 "Some 256"]
    by (auto simp: init_level_bits)
qed

end
