(* ===== verification/RvCounter.thy ===== *)
theory RvCounter
  imports Prelude
begin

text \<open>
  The 64-bit counters of the core on RV32, \<open>NMSIS/Core/Include/core_feature_base.h\<close>: \<open>__get_rv_cycle\<close> and
  \<open>__set_rv_cycle\<close>, with the twins for retired instructions and time.  A counter is read in two halves
  while it runs; \<open>c i\<close> is its value at the \<open>i\<close>-th access.
\<close>

section \<open>Reading\<close>

definition csr_low :: "u64 \<Rightarrow> u32" where
  "csr_low v = ucast v"

definition csr_high :: "u64 \<Rightarrow> u32" where
  "csr_high v = ucast (drop_bit 32 v)"

definition join_halves :: "u32 \<Rightarrow> u32 \<Rightarrow> u64" where
  "join_halves high low = push_bit 32 (ucast high) OR ucast low"

definition get_rv_cycle :: "(nat \<Rightarrow> u64) \<Rightarrow> u64" where
  "get_rv_cycle mcycle =
     (let high0 = csr_high (mcycle 0);
          low = csr_low (mcycle 1);
          high = csr_high (mcycle 2);
          low = (if high0 \<noteq> high then csr_low (mcycle 3) else low)
      in join_halves high low)"

definition get_rv_instret :: "(nat \<Rightarrow> u64) \<Rightarrow> u64" where
  "get_rv_instret minstret =
     (let high0 = csr_high (minstret 0);
          low = csr_low (minstret 1);
          high = csr_high (minstret 2);
          low = (if high0 \<noteq> high then csr_low (minstret 3) else low)
      in join_halves high low)"

definition get_rv_time :: "(nat \<Rightarrow> u64) \<Rightarrow> u64" where
  "get_rv_time time =
     (let high0 = csr_high (time 0);
          low = csr_low (time 1);
          high = csr_high (time 2);
          low = (if high0 \<noteq> high then csr_low (time 3) else low)
      in join_halves high low)"


section \<open>Writing\<close>

definition write_low :: "u32 \<Rightarrow> u64 \<Rightarrow> u64" where
  "write_low v c = join_halves (csr_high c) v"

definition write_high :: "u32 \<Rightarrow> u64 \<Rightarrow> u64" where
  "write_high v c = join_halves v (csr_low c)"

text \<open>The counter advances by \<open>a\<close> and by \<open>b\<close> between the three writes.\<close>

definition set_rv_cycle :: "u64 \<Rightarrow> u64 \<Rightarrow> u64 \<Rightarrow> u64 \<Rightarrow> u64" where
  "set_rv_cycle cycle a b c =
     (let c = write_low 0 c;
          c = write_high (ucast (drop_bit 32 cycle)) (c + a);
          c = write_low (ucast cycle) (c + b)
      in c)"

definition set_rv_instret :: "u64 \<Rightarrow> u64 \<Rightarrow> u64 \<Rightarrow> u64 \<Rightarrow> u64" where
  "set_rv_instret instret a b c =
     (let c = write_low 0 c;
          c = write_high (ucast (drop_bit 32 instret)) (c + a);
          c = write_low (ucast instret) (c + b)
      in c)"


section \<open>Halves\<close>

lemma unat_halves:
  shows "unat (csr_low v) = unat v mod 2 ^ 32" and "unat (csr_high v) = unat v div 2 ^ 32"
proof -
  show "unat (csr_low v) = unat v mod 2 ^ 32"
    by (simp add: csr_low_def unsigned_ucast_eq take_bit_eq_mod)
  have "unat v div 2 ^ 32 < 2 ^ 32" using unsigned_less [of v, where ?'a = nat] by (simp add: less_mult_imp_div_less)
  then have "take_bit 32 (unat v div 2 ^ 32) = unat v div 2 ^ 32" by (rule take_bit_nat_eq_self)
  moreover have "unat (drop_bit 32 v) = unat v div 2 ^ 32" by (subst unat_drop_bit_eq) (rule drop_bit_eq_div)
  ultimately show "unat (csr_high v) = unat v div 2 ^ 32"
    by (simp add: csr_high_def unsigned_ucast_eq)
qed

lemma join_bound: "x < 4294967296 \<Longrightarrow> unat (h :: u32) * 4294967296 + x < 18446744073709551616"
  using u32_max [of h] by linarith

lemma unat_join: "unat (join_halves high low) = unat high * 2 ^ 32 + unat low"
proof -
  have "join_halves high low = push_bit 32 (ucast high) + ucast low"
    unfolding join_halves_def
    by (rule disjunctive_add [symmetric]) (auto simp: bit_simps dest: bit_imp_le_length)
  also have "\<dots> = of_nat (unat high * 2 ^ 32 + unat low)"
    by (simp add: push_bit_eq_mult)
  finally have j: "join_halves high low = of_nat (unat high * 2 ^ 32 + unat low)" .
  have of_nat: "x < 2 ^ 64 \<Longrightarrow> unat (of_nat x :: u64) = x" for x by (simp add: unat_of_nat take_bit_nat_eq_self)
  have "unat high * 2 ^ 32 + unat low < 2 ^ 64" using join_bound [of "unat low" high] by simp
  then show ?thesis unfolding j by (rule of_nat)
qed

lemma join_same: "join_halves (csr_high v) (csr_low v) = v"
  by (simp add: word_unat_eq_iff unat_join unat_halves)

lemma high_eq: "csr_high v = csr_high w \<longleftrightarrow> unat v div 2 ^ 32 = unat w div 2 ^ 32"
  by (simp add: word_unat_eq_iff unat_halves)

text \<open>
  The reading is the value at the second or at the fourth access, whichever the high half calls for.
\<close>

lemma get_rv_cycle_moment:
  assumes mono: "unat (c 0) \<le> unat (c 1)" "unat (c 1) \<le> unat (c 2)" "unat (c 2) \<le> unat (c 3)"
    and short: "unat (c 3) < unat (c 0) + 2 ^ 32"
  shows "get_rv_cycle c = (if csr_high (c 0) = csr_high (c 2) then c 1 else c 3)"
proof (cases "csr_high (c 0) = csr_high (c 2)")
  case True
  then have eq: "unat (c 0) div 2 ^ 32 = unat (c 2) div 2 ^ 32" by (simp only: high_eq)
  have "unat (c 0) div 2 ^ 32 \<le> unat (c 1) div 2 ^ 32" "unat (c 1) div 2 ^ 32 \<le> unat (c 2) div 2 ^ 32"
    using mono by (simp_all only: div_le_mono)
  then have "csr_high (c 2) = csr_high (c 1)" using eq by (simp only: high_eq)
  then show ?thesis using True join_same [of "c 1"] by (simp add: get_rv_cycle_def)
next
  case False
  then have ne: "unat (c 0) div 2 ^ 32 \<noteq> unat (c 2) div 2 ^ 32" by (simp only: high_eq not_False_eq_True)
  have le: "unat (c 0) div 2 ^ 32 \<le> unat (c 2) div 2 ^ 32" "unat (c 2) div 2 ^ 32 \<le> unat (c 3) div 2 ^ 32"
    using mono by (auto intro!: div_le_mono)
  have "unat (c 3) div 2 ^ 32 \<le> (unat (c 0) + 2 ^ 32) div 2 ^ 32" using short by (intro div_le_mono) simp
  also have "\<dots> = unat (c 0) div 2 ^ 32 + 1" by simp
  finally have "unat (c 2) div 2 ^ 32 = unat (c 3) div 2 ^ 32" using ne le by linarith
  then have "csr_high (c 2) = csr_high (c 3)" by (simp only: high_eq)
  then show ?thesis using False join_same [of "c 3"] by (simp add: get_rv_cycle_def Let_def)
qed

lemma get_rv_twins: "get_rv_instret = get_rv_cycle" "get_rv_time = get_rv_cycle"
  by (rule ext, simp add: get_rv_instret_def get_rv_cycle_def get_rv_time_def)+

text \<open>C25.  Two readings of a running counter, one after the other, none of them as long as the low half takes to wrap:
  each is the value of the counter at one of its own accesses, and the second is not below the first.
\<close>

theorem rv_cycle_reading_exact:
  assumes "sorted (map (\<lambda>i. unat (c i)) [0..<4] @ map (\<lambda>i. unat (d i)) [0..<4])"
    and "unat (c 3) < unat (c 0) + 2 ^ 32" "unat (d 3) < unat (d 0) + 2 ^ 32"
  shows "get_rv_cycle c \<in> {c 1, c 3} \<and> get_rv_cycle d \<in> {d 1, d 3} \<and>
    unat (get_rv_cycle c) \<le> unat (get_rv_cycle d)"
proof -
  have "[0..<4] = [0, 1, 2, 3 :: nat]" by (simp add: upt_rec)
  then have c: "unat (c 0) \<le> unat (c 1)" "unat (c 1) \<le> unat (c 2)" "unat (c 2) \<le> unat (c 3)"
    and d: "unat (d 0) \<le> unat (d 1)" "unat (d 1) \<le> unat (d 2)" "unat (d 2) \<le> unat (d 3)"
    and cd: "unat (c 3) \<le> unat (d 0)"
    using assms(1) by (simp_all del: upt_Suc)
  show ?thesis
    using get_rv_cycle_moment [of c, OF c assms(2)] get_rv_cycle_moment [of d, OF d assms(3)] c d cd by auto
qed

text \<open>A reading across the carry into the high half, and the one after it.\<close>

definition demo_counter :: "u64 \<Rightarrow> nat \<Rightarrow> u64" where
  "demo_counter start i = start + of_nat i"

theorem rv_cycle_reading_exact_witness:
  "get_rv_cycle (demo_counter 0x1FFFFFFFE) = 0x200000001 \<and>
   unat (get_rv_cycle (demo_counter 0x1FFFFFFFE)) \<le> unat (get_rv_cycle (demo_counter 0x200000002))"
proof -
  have "get_rv_cycle (demo_counter 0x1FFFFFFFE) = 0x200000001" by code_simp
  moreover have "sorted (map (\<lambda>i. unat (demo_counter 0x1FFFFFFFE i)) [0..<4] @
      map (\<lambda>i. unat (demo_counter 0x200000002 i)) [0..<4])"
    by (simp add: demo_counter_def upt_rec)
  moreover have "unat (demo_counter 0x1FFFFFFFE 3) < unat (demo_counter 0x1FFFFFFFE 0) + 2 ^ 32"
    "unat (demo_counter 0x200000002 3) < unat (demo_counter 0x200000002 0) + 2 ^ 32"
    by (simp_all add: demo_counter_def)
  ultimately show ?thesis using rv_cycle_reading_exact [of "demo_counter 0x1FFFFFFFE" "demo_counter 0x200000002"] by blast
qed

text \<open>
  Setting: clearing the low half first leaves no carry into the high half, however far below its wrap the
  counter advances meanwhile.
\<close>

lemma set_rv_cycle_exact:
  assumes "unat a + unat b < 2 ^ 32"
  shows "set_rv_cycle v a b c = v"
proof -
  let ?c1 = "write_low 0 c" and ?h = "csr_high v"
  have "unat ?c1 = unat (csr_high c) * 2 ^ 32" by (simp add: write_low_def unat_join)
  moreover have "unat (?c1 + a) = unat ?c1 + unat a"
  proof -
    have "unat (csr_high c) * 2 ^ 32 + unat a < 2 ^ 64" using assms join_bound [of "unat a" "csr_high c"] by simp
    then show ?thesis using calculation by (subst unat_add_lem [THEN iffD1]) auto
  qed
  ultimately have low: "unat (csr_low (?c1 + a)) = unat a" using assms by (simp add: unat_halves)
  let ?c2 = "write_high ?h (?c1 + a)"
  have c2: "unat ?c2 = unat ?h * 2 ^ 32 + unat a" by (simp add: write_high_def unat_join low)
  have "unat ?h * 2 ^ 32 + unat a + unat b < 2 ^ 64" using assms join_bound [of "unat a + unat b" ?h] by (simp add: add.assoc)
  then have "unat (?c2 + b) = unat ?h * 2 ^ 32 + (unat a + unat b)"
    using c2 by (subst unat_add_lem [THEN iffD1]) auto
  then have "csr_high (?c2 + b) = ?h" using assms by (simp add: word_unat_eq_iff unat_halves)
  then show ?thesis
    using join_same [of v] by (simp add: set_rv_cycle_def write_low_def csr_high_def csr_low_def Let_def)
qed

lemma set_rv_instret_exact: "unat a + unat b < 2 ^ 32 \<Longrightarrow> set_rv_instret v a b c = v"
  using set_rv_cycle_exact [of a b v c] by (simp add: set_rv_cycle_def set_rv_instret_def)

end
