(* ===== verification/SessionStats.thy ===== *)
theory SessionStats
  imports Session_Calls
begin

text \<open>
  The session in the build with statistics, \<open>RVRT_ENABLE_STATS == 1\<close> in \<open>Lib/runtime/session.c\<close> and
  \<open>session_io.c\<close>.

  The counters are members that this build adds to the session and to its barrier: a world of the
  build is a world of the default build with the statistics and the barrier counters of every
  session object.  Every operation is written out as this build has it.  The readings of the cycle
  counter that only this build makes are arguments.
\<close>

section \<open>State\<close>

record bar_counts =
  bc_received_count :: u32
  bc_output_work_count :: u32
  bc_complete_count :: u32

definition zero_counts :: bar_counts where
  "zero_counts = \<lparr>bc_received_count = 0, bc_output_work_count = 0, bc_complete_count = 0\<rparr>"

record ('u, 'm) stats_world =
  sw_world :: "('u, 'm) world"
  sw_stats :: "nat \<Rightarrow> session_stats"
  sw_counts :: "nat \<Rightarrow> bar_counts"

definition on_world ::
    "(('u, 'm) world \<Rightarrow> ('u, 'm) world) \<Rightarrow> ('u, 'm) stats_world \<Rightarrow> ('u, 'm) stats_world" where
  "on_world f sw = sw\<lparr>sw_world := f (sw_world sw)\<rparr>"

definition upd_stats ::
    "nat \<Rightarrow> (session_stats \<Rightarrow> session_stats) \<Rightarrow> ('u, 'm) stats_world \<Rightarrow> ('u, 'm) stats_world" where
  "upd_stats p f sw = sw\<lparr>sw_stats := (sw_stats sw)(p := f (sw_stats sw p))\<rparr>"

definition upd_counts ::
    "nat \<Rightarrow> (bar_counts \<Rightarrow> bar_counts) \<Rightarrow> ('u, 'm) stats_world \<Rightarrow> ('u, 'm) stats_world" where
  "upd_counts p f sw = sw\<lparr>sw_counts := (sw_counts sw)(p := f (sw_counts sw p))\<rparr>"

abbreviation session_of :: "('u, 'm) stats_world \<Rightarrow> nat \<Rightarrow> ('u, 'm) session" where
  "session_of sw p \<equiv> w_session (sw_world sw) p"

text \<open>\<open>memset(session, 0, sizeof *session)\<close> clears the added members too.\<close>

definition clear_session :: "nat \<Rightarrow> ('u, 'm) stats_world \<Rightarrow> ('u, 'm) stats_world" where
  "clear_session p sw =
     upd_counts p (\<lambda>_. zero_counts) (upd_stats p (\<lambda>_. zero_stats) (on_world (set_session p zero_session) sw))"

text \<open>Every interrupt reads the cycle counter twice more, every wait once more at its end.\<close>

record stats_poll = wait_poll +
  sp_irq_start :: u64
  sp_irq_end :: u64
  sp_late_start :: u64
  sp_late_end :: u64

record stats_env =
  sn_start :: u64
  sn_polls :: "stats_poll list"
  sn_end :: u64

record chunk_cycles =
  ck_encode_start :: u64
  ck_encode_end :: u64
  ck_submit_start :: u64
  ck_submit_end :: u64


section \<open>Ownership\<close>

definition clear_rx_barrier_counted :: "nat \<Rightarrow> ('u, 'm) stats_world \<Rightarrow> ('u, 'm) stats_world" where
  "clear_rx_barrier_counted p sw =
     upd_counts p (\<lambda>c. c\<lparr>bc_received_count := 0, bc_output_work_count := 0, bc_complete_count := 0\<rparr>)
       (on_world (upd_barrier p clear_rx_barrier) sw)"

definition rvrt_session_init_counted ::
    "int \<Rightarrow> nat option \<Rightarrow> session_config option \<Rightarrow> ('u, 'm) stats_world
       \<Rightarrow> session_status \<times> ('u, 'm) stats_world" where
  "rvrt_session_init_counted register_result session config sw =
     (case (session, config) of
        (Some p, Some c) \<Rightarrow>
          (case cfg_artifact c of
             None \<Rightarrow> (RVRT_SESSION_RUNTIME_ERROR, sw)
           | Some art \<Rightarrow>
               if cfg_rx_frames c = None \<or> cfg_rx_capacity c = 0 then (RVRT_SESSION_RUNTIME_ERROR, sw)
               else if w_active (sw_world sw) \<noteq> None then (RVRT_SESSION_BUSY, sw)
               else if fst (rvrt_artifact_thread_runtime (Some (snd art)) (cfg_thread_index c)
                              (Some zero_runtime)) \<noteq> RVRT_ARTIFACT_OK
               then (RVRT_SESSION_RUNTIME_ERROR, sw)
               else
                 let sw = clear_session p sw;
                     sw = on_world (upd_session p (\<lambda>s. s\<lparr>se_artifact := Some art,
                            se_thread_index := cfg_thread_index c, se_rx_frames := cfg_rx_frames c,
                            se_rx_capacity := cfg_rx_capacity c, se_faulted := False\<rparr>)) sw;
                     sw = on_world (upd_session p clear_sync_epoch) sw;
                     sw = upd_stats p (\<lambda>s. s\<lparr>st_enabled := True\<rparr>) sw;
                     sw = clear_rx_barrier_counted p sw;
                     (status, w) = register_irq register_result p (sw_world sw);
                     sw = sw\<lparr>sw_world := w\<rparr>
                 in if status \<noteq> RVRT_SESSION_OK then (status, clear_session p sw)
                    else (status, sw))
      | _ \<Rightarrow> (RVRT_SESSION_RUNTIME_ERROR, sw))"

definition rvrt_session_deinit_counted ::
    "nat option \<Rightarrow> ('u, 'm) stats_world \<Rightarrow> session_status \<times> ('u, 'm) stats_world" where
  "rvrt_session_deinit_counted session sw =
     (case session of
        None \<Rightarrow> (RVRT_SESSION_RUNTIME_ERROR, sw)
      | Some p \<Rightarrow>
          if w_active (sw_world sw) \<noteq> None \<and> w_active (sw_world sw) \<noteq> Some p then (RVRT_SESSION_BUSY, sw)
          else if w_active (sw_world sw) = Some p \<and> bar_active (se_barrier (session_of sw p))
          then (RVRT_SESSION_BUSY, sw)
          else
            let sw = on_world (upd_hw noc_irq_disable) sw;
                sw = on_world (upd_hw noc_irq_ack) sw;
                sw = (if w_active (sw_world sw) = Some p then on_world (\<lambda>w. w\<lparr>w_active := None\<rparr>) sw else sw)
            in (RVRT_SESSION_OK, clear_session p sw))"


section \<open>The interrupt service routine\<close>

definition receive_rx_barrier_frame_counted ::
    "nat \<Rightarrow> rvrt_frame \<Rightarrow> ('u, 'm) stats_world \<Rightarrow> ('u, 'm) stats_world option" where
  "receive_rx_barrier_frame_counted p frame sw =
     (let sw = upd_counts p (\<lambda>c. c\<lparr>bc_received_count := bc_received_count c + 1\<rparr>) sw;
          sw = (if rvrt_frame_is_work (Some frame)
                then upd_counts p (\<lambda>c. c\<lparr>bc_output_work_count := bc_output_work_count c + 1\<rparr>) sw else sw);
          is_complete = rvrt_frame_is_complete (Some frame);
          sw = (if is_complete
                then upd_counts p (\<lambda>c. c\<lparr>bc_complete_count := bc_complete_count c + 1\<rparr>) sw else sw);
          b = se_barrier (session_of sw p)
      in case bar_handler b of
           Some handler \<Rightarrow>
             if \<not> is_complete then
               (if bar_handler_status b = RVRT_SESSION_OK then do {
                  (status, mem) \<leftarrow> handler (bar_user_data b) frame (w_mem (sw_world sw));
                  let sw = on_world (\<lambda>w. w\<lparr>w_mem := mem\<rparr>) sw;
                  Some (on_world (upd_barrier p (\<lambda>b. b\<lparr>bar_handler_status := status\<rparr>)) sw)
                } else Some sw)
             else Some (on_world (upd_barrier p (\<lambda>b. b\<lparr>bar_completed := True\<rparr>)) sw)
         | None \<Rightarrow>
             let index = bar_rx_count b in
             if index \<ge> se_rx_capacity (session_of sw p)
             then Some (on_world (upd_barrier p (\<lambda>b. b\<lparr>bar_overflow := True, bar_hardware_error := True,
                                                       bar_completed := True\<rparr>)) sw)
             else do {
               buf \<leftarrow> se_rx_frames (session_of sw p);
               frames \<leftarrow> wr (w_buf (sw_world sw) buf) index frame;
               let sw = on_world (\<lambda>w. w\<lparr>w_buf := (w_buf w)(buf := frames)\<rparr>) sw;
               let sw = on_world (upd_barrier p (\<lambda>b. b\<lparr>bar_rx_count := index + 1\<rparr>)) sw;
               Some (if is_complete then on_world (upd_barrier p (\<lambda>b. b\<lparr>bar_completed := True\<rparr>)) sw else sw)
             })"

lemmas sw_defs = on_world_def upd_stats_def upd_counts_def

lemma receive_counted_keeps_hw:
  "receive_rx_barrier_frame_counted p f sw = Some sw' \<Longrightarrow> w_hw (sw_world sw') = w_hw (sw_world sw)"
  by (auto simp: receive_rx_barrier_frame_counted_def Let_def sw_defs upd_barrier_def upd_session_def
      split: option.splits if_splits bind_splits)

function noc_rx_loop_counted :: "nat \<Rightarrow> ('u, 'm) stats_world \<Rightarrow> ('u, 'm) stats_world option" where
  "noc_rx_loop_counted p sw =
     (if bar_completed (se_barrier (session_of sw p)) then Some sw
      else
        (case noc_fifo_read_frame_words (Some 0) (Some 0) (w_hw (sw_world sw)) of
           None \<Rightarrow> None
         | Some (result, high, low, hw) \<Rightarrow>
             let sw = on_world (\<lambda>w. w\<lparr>w_hw := hw\<rparr>) sw in
             if result \<noteq> 0
             then Some (on_world (upd_barrier p (\<lambda>b. b\<lparr>bar_hardware_error := True, bar_completed := True\<rparr>)) sw)
             else
               (case receive_rx_barrier_frame_counted p \<lparr>fr_high = the high, fr_low = the low\<rparr> sw of
                  None \<Rightarrow> None
                | Some sw \<Rightarrow> noc_rx_loop_counted p sw)))"
  by pat_completeness auto
termination
  by (relation "measure (\<lambda>(p, sw). length (hw_up (w_hw (sw_world sw))))")
    (auto simp: noc_read_eq receive_counted_keeps_hw on_world_def split: list.splits)

declare noc_rx_loop_counted.simps [simp del]

definition add_irq_service :: "u64 \<Rightarrow> session_stats \<Rightarrow> session_stats" where
  "add_irq_service cycles s =
     s\<lparr>st_rx_irq_service_cycles := st_rx_irq_service_cycles s + cycles, st_rx_irq_count := st_rx_irq_count s + 1\<rparr>"

definition paicore_noc_handler_counted ::
    "u64 \<Rightarrow> u64 \<Rightarrow> ('u, 'm) stats_world \<Rightarrow> ('u, 'm) stats_world option" where
  "paicore_noc_handler_counted cycle_at_entry cycle_at_end sw =
     (let session = w_active (sw_world sw);
          count_irq = (case session of None \<Rightarrow> False | Some p \<Rightarrow> bar_active (se_barrier (session_of sw p)));
          irq_start = (if count_irq then cycle_at_entry else 0);
          sw = on_world (upd_hw noc_irq_ack) sw;
          sw = on_world (upd_hw noc_irq_disable) sw
      in case session of
           None \<Rightarrow> Some sw
         | Some p \<Rightarrow>
             if \<not> bar_active (se_barrier (session_of sw p)) then Some sw
             else do {
               sw \<leftarrow> noc_rx_loop_counted p sw;
               Some (if count_irq
                     then upd_stats p (add_irq_service (cycle_at_end - irq_start)) sw else sw)
             })"

definition irq_point_counted ::
    "bool \<Rightarrow> u64 \<Rightarrow> u64 \<Rightarrow> ('u, 'm) stats_world \<Rightarrow> ('u, 'm) stats_world option" where
  "irq_point_counted irq cycle_at_entry cycle_at_end sw =
     (if irq \<and> noc_irq_is_enabled (w_hw (sw_world sw)) \<and> hw_mstatus (w_hw (sw_world sw)) AND MSTATUS_MIE \<noteq> 0
      then paicore_noc_handler_counted cycle_at_entry cycle_at_end sw else Some sw)"


section \<open>The receive barrier\<close>

definition start_rx_barrier_counted ::
    "nat \<Rightarrow> ('u, 'm) rx_handler option \<Rightarrow> 'u option \<Rightarrow> ('u, 'm) stats_world \<Rightarrow> ('u, 'm) stats_world" where
  "start_rx_barrier_counted p handler user_data sw =
     (let sw = on_world (upd_hw noc_irq_disable) sw;
          sw = on_world (upd_hw noc_irq_ack) sw;
          sw = clear_rx_barrier_counted p sw;
          sw = on_world (upd_barrier p (\<lambda>b. b\<lparr>bar_handler := handler, bar_user_data := user_data\<rparr>)) sw;
          sw = on_world (upd_barrier p (\<lambda>b. b\<lparr>bar_active := True\<rparr>)) sw
      in on_world (upd_hw noc_irq_enable) sw)"

text \<open>The end of a wait that saw \<open>completed\<close>; \<open>*cycles_out\<close> is written before the status is chosen.\<close>

definition wait_rx_finish_counted ::
    "nat \<Rightarrow> u64 \<Rightarrow> u64 \<Rightarrow> u64 option \<Rightarrow> ('u, 'm) stats_world
       \<Rightarrow> session_status \<times> u64 option \<times> ('u, 'm) stats_world" where
  "wait_rx_finish_counted p start_cycles end_cycles cycles_out sw =
     (let sw = on_world (upd_hw noc_irq_disable) sw;
          sw = on_world (upd_barrier p (\<lambda>b. b\<lparr>bar_active := False\<rparr>)) sw;
          cycles_out = (case cycles_out of None \<Rightarrow> None | Some _ \<Rightarrow> Some (end_cycles - start_cycles));
          b = se_barrier (session_of sw p)
      in if bar_overflow b then (RVRT_SESSION_OVERFLOW, cycles_out, sw)
         else if bar_hardware_error b then (RVRT_SESSION_HARDWARE_ERROR, cycles_out, sw)
         else if bar_handler_status b \<noteq> RVRT_SESSION_OK then (bar_handler_status b, cycles_out, sw)
         else (RVRT_SESSION_OK, cycles_out, sw))"

fun wait_rx_loop_counted ::
    "nat \<Rightarrow> u64 \<Rightarrow> u64 \<Rightarrow> u64 \<Rightarrow> u64 option \<Rightarrow> stats_poll list \<Rightarrow> ('u, 'm) stats_world
       \<Rightarrow> (session_status \<times> u64 option \<times> ('u, 'm) stats_world) option" where
  "wait_rx_loop_counted p start_cycles limit_cycles end_cycles cycles_out [] sw = None"
| "wait_rx_loop_counted p start_cycles limit_cycles end_cycles cycles_out (poll # polls) sw =
     (case irq_point_counted (wp_irq poll) (sp_irq_start poll) (sp_irq_end poll) sw of
        None \<Rightarrow> None
      | Some sw \<Rightarrow>
          if bar_completed (se_barrier (session_of sw p))
          then Some (wait_rx_finish_counted p start_cycles end_cycles cycles_out sw)
          else if wp_cycle poll - start_cycles > limit_cycles then
            (case irq_point_counted (wp_irq_late poll) (sp_late_start poll) (sp_late_end poll) sw of
               None \<Rightarrow> None
             | Some sw \<Rightarrow>
                 let sw = on_world (upd_hw noc_irq_disable) sw in
                 if bar_completed (se_barrier (session_of sw p))
                 then Some (wait_rx_finish_counted p start_cycles end_cycles cycles_out sw)
                 else Some (RVRT_SESSION_TIMEOUT, cycles_out,
                   on_world (upd_barrier p (\<lambda>b. b\<lparr>bar_active := False, bar_hardware_error := True\<rparr>)) sw))
          else wait_rx_loop_counted p start_cycles limit_cycles end_cycles cycles_out polls sw)"

definition wait_rx_barrier_counted ::
    "nat \<Rightarrow> u32 \<Rightarrow> u64 option \<Rightarrow> stats_env \<Rightarrow> ('u, 'm) stats_world
       \<Rightarrow> (session_status \<times> u64 option \<times> ('u, 'm) stats_world) option" where
  "wait_rx_barrier_counted p timeout_ms cycles_out env sw =
     (let start_cycles = sn_start env;
          limit_cycles = ucast (w_clock (sw_world sw) div 1000) * ucast timeout_ms
      in wait_rx_loop_counted p start_cycles limit_cycles (sn_end env) cycles_out (sn_polls env) sw)"

definition add_wait_cycles :: "bool \<Rightarrow> u64 \<Rightarrow> session_stats \<Rightarrow> session_stats" where
  "add_wait_cycles is_sync_barrier cycles s =
     (if is_sync_barrier then s\<lparr>st_sync_wait_cycles := st_sync_wait_cycles s + cycles\<rparr>
      else s\<lparr>st_init_wait_cycles := st_init_wait_cycles s + cycles\<rparr>)"

definition add_barrier :: "('u, 'm) rx_barrier \<Rightarrow> bar_counts \<Rightarrow> session_stats \<Rightarrow> session_stats" where
  "add_barrier b c s =
     s\<lparr>st_sent_frames := st_sent_frames s + 1,
       st_rx_frames := st_rx_frames s + bc_received_count c,
       st_output_work_frames := st_output_work_frames s + bc_output_work_count c,
       st_complete_frames := st_complete_frames s + bc_complete_count c,
       st_overflow := (st_overflow s \<or> bar_overflow b),
       st_hardware_error := (st_hardware_error s \<or> bar_hardware_error b)\<rparr>"

definition run_control_barrier_counted ::
    "nat \<Rightarrow> rvrt_frame \<Rightarrow> u32 \<Rightarrow> bool \<Rightarrow> nat option option \<Rightarrow> u32 option \<Rightarrow> ('u, 'm) rx_handler option
       \<Rightarrow> 'u option \<Rightarrow> stats_env \<Rightarrow> ('u, 'm) stats_world
       \<Rightarrow> (session_status \<times> nat option option \<times> u32 option \<times> ('u, 'm) stats_world) option" where
  "run_control_barrier_counted p control_frame timeout_ms is_sync_barrier rx_frames rx_frame_count handler
       user_data env sw = do {
     let sw = start_rx_barrier_counted p handler user_data sw;
     let sw = on_world (upd_hw (noc_fifo_write_frame_words (fr_high control_frame) (fr_low control_frame))) sw;
     let barrier_cycles = 0;
     (status, cycles_out, sw) \<leftarrow> wait_rx_barrier_counted p timeout_ms (Some barrier_cycles) env sw;
     let sw = upd_stats p (add_wait_cycles is_sync_barrier (the cycles_out)) sw;
     let rx_frames = (case rx_frames of None \<Rightarrow> None | Some _ \<Rightarrow> Some (se_rx_frames (session_of sw p)));
     let rx_frame_count = (case rx_frame_count of None \<Rightarrow> None
                             | Some _ \<Rightarrow> Some (bar_rx_count (se_barrier (session_of sw p))));
     let sw = upd_stats p (add_barrier (se_barrier (session_of sw p)) (sw_counts sw p)) sw;
     let sw = (if status \<noteq> RVRT_SESSION_OK then
                 let sw = on_world (upd_hw noc_irq_disable) sw;
                     sw = on_world (upd_barrier p (\<lambda>b. b\<lparr>bar_active := False, bar_handler := None,
                                                          bar_user_data := None\<rparr>)) sw
                 in on_world (upd_session p (\<lambda>s. s\<lparr>se_faulted := True\<rparr>)) sw
               else sw);
     Some (status, rx_frames, rx_frame_count, sw)
   }"


section \<open>Transport operations\<close>

definition rvrt_session_load_config_counted ::
    "nat option \<Rightarrow> u64 \<Rightarrow> u64 \<Rightarrow> ('u, 'm) stats_world \<Rightarrow> (session_status \<times> ('u, 'm) stats_world) option" where
  "rvrt_session_load_config_counted session config_submit_start config_submit_end sw =
     (case session of
        None \<Rightarrow> Some (RVRT_SESSION_RUNTIME_ERROR, sw)
      | Some p \<Rightarrow>
          let s = session_of sw p in
          (case se_artifact s of
             None \<Rightarrow> Some (RVRT_SESSION_RUNTIME_ERROR, sw)
           | Some (addr, artifact) \<Rightarrow>
               if se_faulted s then Some (RVRT_SESSION_FAULTED, sw)
               else if bar_active (se_barrier s) then Some (RVRT_SESSION_RUNTIME_ERROR, sw)
               else
                 let (artifact_status, count) = rvrt_artifact_config_word_count (Some artifact) (Some 0);
                     word_count = the count
                 in if artifact_status \<noteq> RVRT_ARTIFACT_OK \<or> word_count = 0 \<or> word_count mod 2 \<noteq> 0
                    then Some (RVRT_SESSION_RUNTIME_ERROR, sw)
                    else
                      let irq_was_enabled = noc_irq_is_enabled (w_hw (sw_world sw));
                          hw = noc_irq_disable (w_hw (sw_world sw));
                          frame_count = word_count div 2
                      in (case load_config_loop (Some artifact) 0 (unat frame_count) hw of
                            None \<Rightarrow> None
                          | Some (status, hw) \<Rightarrow>
                              let hw = (if irq_was_enabled then noc_irq_enable hw else hw);
                                  sw = on_world (\<lambda>w. w\<lparr>w_hw := hw\<rparr>) sw
                              in if status \<noteq> RVRT_ARTIFACT_OK then Some (RVRT_SESSION_RUNTIME_ERROR, sw)
                                 else Some (RVRT_SESSION_OK, upd_stats p (\<lambda>s.
                                   s\<lparr>st_sent_frames := st_sent_frames s + frame_count,
                                     st_config_frames := st_config_frames s + frame_count,
                                     st_config_submit_cycles := st_config_submit_cycles s +
                                       (config_submit_end - config_submit_start)\<rparr>) sw))))"

definition rvrt_session_send_frames_counted ::
    "nat option \<Rightarrow> rvrt_frame list option \<Rightarrow> u32 \<Rightarrow> ('u, 'm) stats_world
       \<Rightarrow> (session_status \<times> ('u, 'm) stats_world) option" where
  "rvrt_session_send_frames_counted session frames frame_count sw =
     (case session of
        None \<Rightarrow> Some (RVRT_SESSION_RUNTIME_ERROR, sw)
      | Some p \<Rightarrow>
          let s = session_of sw p in
          if se_artifact s = None \<or> (frame_count \<noteq> 0 \<and> frames = None)
          then Some (RVRT_SESSION_RUNTIME_ERROR, sw)
          else if se_faulted s then Some (RVRT_SESSION_FAULTED, sw)
          else if bar_active (se_barrier s) then Some (RVRT_SESSION_RUNTIME_ERROR, sw)
          else
            let irq_was_enabled = noc_irq_is_enabled (w_hw (sw_world sw));
                hw = noc_irq_disable (w_hw (sw_world sw))
            in (case send_frames_loop (case frames of None \<Rightarrow> [] | Some fs \<Rightarrow> fs) (unat frame_count) hw of
                  None \<Rightarrow> None
                | Some hw \<Rightarrow>
                    let hw = (if irq_was_enabled then noc_irq_enable hw else hw);
                        sw = on_world (\<lambda>w. w\<lparr>w_hw := hw\<rparr>) sw
                    in Some (RVRT_SESSION_OK,
                         upd_stats p (\<lambda>s. s\<lparr>st_sent_frames := st_sent_frames s + frame_count\<rparr>) sw)))"

text \<open>The input loop runs once for every element of the list of cycle readings.\<close>

fun send_input_loop_counted ::
    "chunk_cycles list \<Rightarrow> nat \<Rightarrow> rvrt_artifact_input_mapping_view \<Rightarrow> rvrt_input_cursor \<Rightarrow> u8 list \<Rightarrow> u32
       \<Rightarrow> rvrt_frame list \<Rightarrow> u32 \<Rightarrow> ('u, 'm) stats_world
       \<Rightarrow> (session_status \<times> rvrt_frame list \<times> ('u, 'm) stats_world) option" where
  "send_input_loop_counted [] p mapping cursor input input_size workspace workspace_capacity sw = None"
| "send_input_loop_counted (ck # cks) p mapping cursor input input_size workspace workspace_capacity sw =
     (case rvrt_encode_input_chunk (Some mapping) (Some cursor) (Some input) input_size (Some workspace)
             workspace_capacity (Some 0) of
        None \<Rightarrow> None
      | Some (codec_status, cursor', workspace', count) \<Rightarrow>
          let frame_count = the count;
              sw = upd_stats p (\<lambda>s. s\<lparr>st_input_encode_cycles :=
                     st_input_encode_cycles s + (ck_encode_end ck - ck_encode_start ck)\<rparr>) sw in
          if (codec_status \<noteq> RVRT_CODEC_STATUS_DONE \<and> codec_status \<noteq> RVRT_CODEC_STATUS_BUFFER_FULL) \<or>
             (codec_status = RVRT_CODEC_STATUS_BUFFER_FULL \<and> frame_count = 0)
          then Some (RVRT_SESSION_RUNTIME_ERROR, the workspace', sw)
          else
            (case rvrt_session_send_frames_counted (Some p) workspace' frame_count sw of
               None \<Rightarrow> None
             | Some (send_status, sw) \<Rightarrow>
                 let sw = upd_stats p (\<lambda>s. s\<lparr>st_input_submit_cycles :=
                            st_input_submit_cycles s + (ck_submit_end ck - ck_submit_start ck)\<rparr>) sw;
                     sw = (if send_status = RVRT_SESSION_OK
                           then upd_stats p (\<lambda>s. s\<lparr>st_input_frames := st_input_frames s + frame_count\<rparr>) sw
                           else sw)
                 in if send_status \<noteq> RVRT_SESSION_OK then Some (send_status, the workspace', sw)
                    else if codec_status = RVRT_CODEC_STATUS_DONE
                    then Some (RVRT_SESSION_OK, the workspace', sw)
                    else send_input_loop_counted cks p mapping (the cursor') input input_size (the workspace')
                           workspace_capacity sw))"

definition rvrt_session_send_input_timestep_counted ::
    "chunk_cycles list \<Rightarrow> nat option \<Rightarrow> rvrt_artifact_input_mapping_view option \<Rightarrow> u32 \<Rightarrow> u8 list option
       \<Rightarrow> u32 \<Rightarrow> rvrt_frame list option \<Rightarrow> u32 \<Rightarrow> ('u, 'm) stats_world
       \<Rightarrow> (session_status \<times> rvrt_frame list option \<times> ('u, 'm) stats_world) option" where
  "rvrt_session_send_input_timestep_counted cks session mapping timestep input input_size workspace
       workspace_capacity sw =
     (case (session, mapping, input, workspace) of
        (Some p, Some m, Some i, Some ws) \<Rightarrow>
          if workspace_capacity = 0 then Some (RVRT_SESSION_RUNTIME_ERROR, workspace, sw)
          else if se_faulted (session_of sw p) then Some (RVRT_SESSION_FAULTED, workspace, sw)
          else do {
            let cursor = the (rvrt_input_cursor_init (Some \<lparr>cu_entry_index = 0, cu_timestep = 0\<rparr>) timestep);
            (status, ws, sw) \<leftarrow> send_input_loop_counted cks p m cursor i input_size ws workspace_capacity sw;
            Some (status, Some ws, sw)
          }
      | _ \<Rightarrow> Some (RVRT_SESSION_RUNTIME_ERROR, workspace, sw))"


section \<open>Barriers\<close>

definition rvrt_session_reset_model_counted ::
    "nat option \<Rightarrow> u32 \<Rightarrow> stats_env \<Rightarrow> ('u, 'm) stats_world \<Rightarrow> (session_status \<times> ('u, 'm) stats_world) option"
  where
  "rvrt_session_reset_model_counted session timeout_ms env sw =
     (case session of
        None \<Rightarrow> Some (RVRT_SESSION_RUNTIME_ERROR, sw)
      | Some p \<Rightarrow>
          let s = session_of sw p in
          (case se_artifact s of
             None \<Rightarrow> Some (RVRT_SESSION_RUNTIME_ERROR, sw)
           | Some (addr, artifact) \<Rightarrow>
               if se_rx_frames s = None \<or> se_rx_capacity s = 0 then Some (RVRT_SESSION_RUNTIME_ERROR, sw)
               else if se_faulted s then Some (RVRT_SESSION_FAULTED, sw)
               else if bar_active (se_barrier s) then Some (RVRT_SESSION_RUNTIME_ERROR, sw)
               else
                 (case rvrt_build_init_frame (Some artifact) (se_thread_index s) (Some zero_frame) of
                    (codec_status, init_frame) \<Rightarrow>
                      if codec_status \<noteq> RVRT_CODEC_STATUS_OK then Some (RVRT_SESSION_RUNTIME_ERROR, sw)
                      else do {
                        (status, _, _, sw) \<leftarrow> run_control_barrier_counted p (the init_frame) timeout_ms False
                          None None (Some discard_reset_frame) None env sw;
                        Some (status, if status = RVRT_SESSION_OK
                                      then on_world (upd_session p clear_sync_epoch) sw else sw)
                      })))"

definition sync_wait_payload_impl_counted ::
    "nat option \<Rightarrow> u32 \<Rightarrow> u32 \<Rightarrow> nat option option \<Rightarrow> u32 option \<Rightarrow> ('u, 'm) rx_handler option \<Rightarrow> 'u option
       \<Rightarrow> stats_env \<Rightarrow> ('u, 'm) stats_world
       \<Rightarrow> (session_status \<times> nat option option \<times> u32 option \<times> ('u, 'm) stats_world) option" where
  "sync_wait_payload_impl_counted session sync_payload timeout_ms rx_frames rx_frame_count handler user_data
       env sw =
     (case session of
        None \<Rightarrow> Some (RVRT_SESSION_RUNTIME_ERROR, rx_frames, rx_frame_count, sw)
      | Some p \<Rightarrow>
          let s = session_of sw p in
          (case se_artifact s of
             None \<Rightarrow> Some (RVRT_SESSION_RUNTIME_ERROR, rx_frames, rx_frame_count, sw)
           | Some (addr, artifact) \<Rightarrow>
               if se_rx_frames s = None \<or> se_rx_capacity s = 0 \<or>
                  ((rx_frames = None \<or> rx_frame_count = None) \<and> (case handler of None \<Rightarrow> True | Some _ \<Rightarrow> False))
               then Some (RVRT_SESSION_RUNTIME_ERROR, rx_frames, rx_frame_count, sw)
               else if se_faulted s then Some (RVRT_SESSION_FAULTED, rx_frames, rx_frame_count, sw)
               else if bar_active (se_barrier s)
               then Some (RVRT_SESSION_RUNTIME_ERROR, rx_frames, rx_frame_count, sw)
               else
                 let rx_frames = (case rx_frames of None \<Rightarrow> None | Some _ \<Rightarrow> Some None);
                     rx_frame_count = (case rx_frame_count of None \<Rightarrow> None | Some _ \<Rightarrow> Some 0)
                 in (case rvrt_build_sync_payload_frame (Some artifact) (se_thread_index s) sync_payload
                            (Some zero_frame) of
                       (codec_status, sync_frame) \<Rightarrow>
                         if codec_status \<noteq> RVRT_CODEC_STATUS_OK
                         then Some (RVRT_SESSION_RUNTIME_ERROR, rx_frames, rx_frame_count, sw)
                         else do {
                           (status, rx_frames, rx_frame_count, sw) \<leftarrow>
                             run_control_barrier_counted p (the sync_frame) timeout_ms True rx_frames
                               rx_frame_count handler user_data env sw;
                           Some (status, rx_frames, rx_frame_count,
                             if status = RVRT_SESSION_OK
                             then upd_stats p (\<lambda>s. s\<lparr>st_sync_barriers := st_sync_barriers s + 1\<rparr>) sw else sw)
                         })))"

definition rvrt_session_sync_wait_payload_counted ::
    "nat option \<Rightarrow> u32 \<Rightarrow> u32 \<Rightarrow> nat option option \<Rightarrow> u32 option \<Rightarrow> stats_env \<Rightarrow> ('u, 'm) stats_world
       \<Rightarrow> (session_status \<times> nat option option \<times> u32 option \<times> ('u, 'm) stats_world) option" where
  "rvrt_session_sync_wait_payload_counted session sync_payload timeout_ms rx_frames rx_frame_count env sw =
     (case session of
        None \<Rightarrow> Some (RVRT_SESSION_RUNTIME_ERROR, rx_frames, rx_frame_count, sw)
      | Some p \<Rightarrow>
          if se_faulted (session_of sw p) then Some (RVRT_SESSION_FAULTED, rx_frames, rx_frame_count, sw)
          else if se_sync_mode (session_of sw p) = RVRT_SESSION_SYNC_MODE_TIMELINE
          then Some (RVRT_SESSION_SYNC_MODE_ERROR, rx_frames, rx_frame_count, sw)
          else do {
            (status, rx_frames, rx_frame_count, sw) \<leftarrow>
              sync_wait_payload_impl_counted session sync_payload timeout_ms rx_frames rx_frame_count None None
                env sw;
            Some (status, rx_frames, rx_frame_count,
                  if status = RVRT_SESSION_OK
                  then on_world (upd_session p (\<lambda>s. s\<lparr>se_sync_mode := RVRT_SESSION_SYNC_MODE_RAW_PAYLOAD\<rparr>)) sw
                  else sw)
          })"

definition sync_wait_until_impl_counted ::
    "nat option \<Rightarrow> u32 \<Rightarrow> u32 \<Rightarrow> nat option option \<Rightarrow> u32 option \<Rightarrow> ('u, 'm) rx_handler option \<Rightarrow> 'u option
       \<Rightarrow> stats_env \<Rightarrow> ('u, 'm) stats_world
       \<Rightarrow> (session_status \<times> nat option option \<times> u32 option \<times> ('u, 'm) stats_world) option" where
  "sync_wait_until_impl_counted session completed_timesteps timeout_ms rx_frames rx_frame_count handler
       user_data env sw =
     (case session of
        None \<Rightarrow> Some (RVRT_SESSION_RUNTIME_ERROR, rx_frames, rx_frame_count, sw)
      | Some p \<Rightarrow>
          let s = session_of sw p in
          if se_faulted s then Some (RVRT_SESSION_FAULTED, rx_frames, rx_frame_count, sw)
          else if se_sync_mode s = RVRT_SESSION_SYNC_MODE_RAW_PAYLOAD \<or>
                  (se_sync_mode s = RVRT_SESSION_SYNC_MODE_TIMELINE \<and>
                   completed_timesteps \<le> se_completed_timesteps s)
          then Some (RVRT_SESSION_SYNC_MODE_ERROR, rx_frames, rx_frame_count, sw)
          else do {
            let sync_payload = (if se_sync_mode s = RVRT_SESSION_SYNC_MODE_TIMELINE
                                then completed_timesteps - se_completed_timesteps s
                                else completed_timesteps);
            (status, rx_frames, rx_frame_count, sw) \<leftarrow>
              sync_wait_payload_impl_counted session sync_payload timeout_ms rx_frames rx_frame_count handler
                user_data env sw;
            Some (status, rx_frames, rx_frame_count,
                  if status = RVRT_SESSION_OK
                  then on_world (upd_session p (\<lambda>s. s\<lparr>se_sync_mode := RVRT_SESSION_SYNC_MODE_TIMELINE,
                                                      se_completed_timesteps := completed_timesteps\<rparr>)) sw
                  else sw)
          })"

definition rvrt_session_sync_wait_until_counted ::
    "nat option \<Rightarrow> u32 \<Rightarrow> u32 \<Rightarrow> nat option option \<Rightarrow> u32 option \<Rightarrow> stats_env \<Rightarrow> ('u, 'm) stats_world
       \<Rightarrow> (session_status \<times> nat option option \<times> u32 option \<times> ('u, 'm) stats_world) option" where
  "rvrt_session_sync_wait_until_counted session completed_timesteps timeout_ms rx_frames rx_frame_count env sw =
     sync_wait_until_impl_counted session completed_timesteps timeout_ms rx_frames rx_frame_count None None
       env sw"

definition rvrt_session_sync_wait_until_with_rx_handler_counted ::
    "nat option \<Rightarrow> u32 \<Rightarrow> u32 \<Rightarrow> ('u, 'm) rx_handler option \<Rightarrow> 'u option \<Rightarrow> stats_env \<Rightarrow> ('u, 'm) stats_world
       \<Rightarrow> (session_status \<times> ('u, 'm) stats_world) option" where
  "rvrt_session_sync_wait_until_with_rx_handler_counted session completed_timesteps timeout_ms handler
       user_data env sw =
     (case handler of
        None \<Rightarrow> Some (RVRT_SESSION_RUNTIME_ERROR, sw)
      | Some _ \<Rightarrow> do {
          (status, _, _, sw) \<leftarrow>
            sync_wait_until_impl_counted session completed_timesteps timeout_ms None None handler user_data
              env sw;
          Some (status, sw)
        })"

definition rvrt_session_get_stats_counted ::
    "nat option \<Rightarrow> session_stats option \<Rightarrow> ('u, 'm) stats_world \<Rightarrow> session_status \<times> session_stats option" where
  "rvrt_session_get_stats_counted session stats sw =
     (case (session, stats) of
        (Some p, Some _) \<Rightarrow>
          if se_artifact (session_of sw p) = None then (RVRT_SESSION_RUNTIME_ERROR, stats)
          else let snapshot = sw_stats sw p in (RVRT_SESSION_OK, Some snapshot)
      | _ \<Rightarrow> (RVRT_SESSION_RUNTIME_ERROR, stats))"


section \<open>Calls\<close>

text \<open>The calls of a program in this build, with what the environment of each supplies.\<close>

datatype ('u, 'm) counted_call =
    Counted_Init int "nat option" "session_config option"
  | Counted_Deinit "nat option"
  | Counted_Load_Config "nat option" u64 u64
  | Counted_Send_Frames "nat option" "rvrt_frame list option" u32
  | Counted_Send_Input "chunk_cycles list" "nat option" "rvrt_artifact_input_mapping_view option" u32
      "u8 list option" u32 "rvrt_frame list option" u32
  | Counted_Reset_Model "nat option" u32 stats_env
  | Counted_Sync_Payload "nat option" u32 u32 "nat option option" "u32 option" stats_env
  | Counted_Sync_Until "nat option" u32 u32 "nat option option" "u32 option" stats_env
  | Counted_Sync_Handler "nat option" u32 u32 "('u, 'm) rx_handler option" "'u option" stats_env
  | Counted_Stray_Interrupt u64 u64
  | Counted_Chip_Sends "u32 list"

fun perform_counted ::
    "('u, 'm) counted_call \<Rightarrow> ('u, 'm) stats_world \<Rightarrow> (session_status \<times> ('u, 'm) stats_world) option" where
  "perform_counted (Counted_Init r p cfg) sw = Some (rvrt_session_init_counted r p cfg sw)"
| "perform_counted (Counted_Deinit p) sw = Some (rvrt_session_deinit_counted p sw)"
| "perform_counted (Counted_Load_Config p a b) sw = rvrt_session_load_config_counted p a b sw"
| "perform_counted (Counted_Send_Frames p frames n) sw = rvrt_session_send_frames_counted p frames n sw"
| "perform_counted (Counted_Send_Input cks p v ts input n ws cap) sw =
     map_option (\<lambda>(st, _, sw'). (st, sw')) (rvrt_session_send_input_timestep_counted cks p v ts input n ws cap sw)"
| "perform_counted (Counted_Reset_Model p timeout env) sw = rvrt_session_reset_model_counted p timeout env sw"
| "perform_counted (Counted_Sync_Payload p d timeout rxf rxc env) sw =
     map_option (\<lambda>(st, _, _, sw'). (st, sw')) (rvrt_session_sync_wait_payload_counted p d timeout rxf rxc env sw)"
| "perform_counted (Counted_Sync_Until p n timeout rxf rxc env) sw =
     map_option (\<lambda>(st, _, _, sw'). (st, sw')) (rvrt_session_sync_wait_until_counted p n timeout rxf rxc env sw)"
| "perform_counted (Counted_Sync_Handler p n timeout h ud env) sw =
     rvrt_session_sync_wait_until_with_rx_handler_counted p n timeout h ud env sw"
| "perform_counted (Counted_Stray_Interrupt a b) sw = map_option (Pair RVRT_SESSION_OK) (irq_point_counted True a b sw)"
| "perform_counted (Counted_Chip_Sends ws) sw =
     Some (RVRT_SESSION_OK, on_world (\<lambda>w. w\<lparr>w_hw := (w_hw w)\<lparr>hw_up := hw_up (w_hw w) @ ws, hw_pending := 1\<rparr>\<rparr>) sw)"

end
