(* ===== verification/SessionStats_Laws.thy ===== *)
theory SessionStats_Laws
  imports SessionStats
begin

text \<open>
  Laws of the build with statistics: the counters are observational, and they count exactly the
  frames that crossed the NoC.
\<close>

section \<open>Forgetting the counters\<close>

lemma stats_world_simps [simp]:
  "sw_world (on_world g sw) = g (sw_world sw)" "sw_stats (on_world g sw) = sw_stats sw"
  "sw_counts (on_world g sw) = sw_counts sw"
  "sw_world (upd_stats p f sw) = sw_world sw" "sw_stats (upd_stats p f sw) = (sw_stats sw)(p := f (sw_stats sw p))"
  "sw_counts (upd_stats p f sw) = sw_counts sw"
  "sw_world (upd_counts p h sw) = sw_world sw" "sw_stats (upd_counts p h sw) = sw_stats sw"
  "sw_counts (upd_counts p h sw) = (sw_counts sw)(p := h (sw_counts sw p))"
  by (simp_all add: sw_defs)

lemma clear_session_world [simp]: "sw_world (clear_session p sw) = set_session p zero_session (sw_world sw)"
  by (simp add: clear_session_def)

definition plain_env :: "stats_env \<Rightarrow> wait_env" where
  "plain_env e = \<lparr>we_start = sn_start e, we_polls = map wait_poll.truncate (sn_polls e)\<rparr>"

lemma truncate_poll [simp]:
  "wp_irq (wait_poll.truncate poll) = wp_irq poll" "wp_cycle (wait_poll.truncate poll) = wp_cycle poll"
  "wp_irq_late (wait_poll.truncate poll) = wp_irq_late poll"
  by (simp_all add: wait_poll.truncate_def)

lemma receive_erase:
  "map_option sw_world (receive_rx_barrier_frame_counted p f sw) = receive_rx_barrier_frame p f (sw_world sw)"
  unfolding receive_rx_barrier_frame_counted_def receive_rx_barrier_frame_def Let_def
  by (simp add: upd_defs split: option.split Option.bind_split)

lemma rx_loop_erase: "map_option sw_world (noc_rx_loop_counted p sw) = noc_rx_loop p (sw_world sw)"
proof (induction p sw rule: noc_rx_loop_counted.induct)
  case (1 p sw)
  show ?case
  proof (cases "bar_completed (se_barrier (session_of sw p))")
    case True
    then show ?thesis by (subst noc_rx_loop_counted.simps, subst noc_rx_loop.simps) simp
  next
    case False
    note step = noc_rx_loop_counted.simps [of p sw] noc_rx_loop.simps [of p "sw_world sw"]
    show ?thesis
    proof (cases "\<exists>h l ws. hw_up (w_hw (sw_world sw)) = h # l # ws")
      case True
      then obtain h l ws where up: "hw_up (w_hw (sw_world sw)) = h # l # ws" by blast
      let ?hw = "(w_hw (sw_world sw))\<lparr>hw_up := ws\<rparr>"
      let ?sw = "on_world (\<lambda>w. w\<lparr>w_hw := ?hw\<rparr>) sw" and ?f = "\<lparr>fr_high = h, fr_low = l\<rparr>"
      have read: "noc_fifo_read_frame_words (Some 0) (Some 0) (w_hw (sw_world sw)) = Some (0, Some h, Some l, ?hw)"
        by (simp add: noc_read_eq up)
      have rec: "receive_rx_barrier_frame p ?f ((sw_world sw)\<lparr>w_hw := ?hw\<rparr>) =
          map_option sw_world (receive_rx_barrier_frame_counted p ?f ?sw)"
        using receive_erase [of p ?f ?sw] by simp
      have ih: "map_option sw_world (noc_rx_loop_counted p sw') = noc_rx_loop p (sw_world sw')"
        if "receive_rx_barrier_frame_counted p ?f ?sw = Some sw'" for sw'
        using "1.IH" [OF False read refl refl refl refl] that by simp
      show ?thesis unfolding step using False read rec ih
        by (cases "receive_rx_barrier_frame_counted p ?f ?sw") (simp_all add: Let_def)
    next
      case short: False
      then have "noc_fifo_read_frame_words (Some 0) (Some 0) (w_hw (sw_world sw)) = None"
        by (auto simp: noc_read_eq split: list.split)
      then show ?thesis unfolding step using False by simp
    qed
  qed
qed

lemma handler_erase:
  "map_option sw_world (paicore_noc_handler_counted a b sw) = paicore_noc_handler (sw_world sw)"
proof (cases "w_active (sw_world sw)")
  case (Some p)
  let ?sw = "on_world (upd_hw noc_irq_disable) (on_world (upd_hw noc_irq_ack) sw)"
  have "noc_rx_loop p (upd_hw noc_irq_disable (upd_hw noc_irq_ack (sw_world sw))) =
      map_option sw_world (noc_rx_loop_counted p ?sw)" using rx_loop_erase [of p ?sw] by simp
  then show ?thesis using Some
    by (cases "noc_rx_loop_counted p ?sw")
      (simp_all add: paicore_noc_handler_counted_def paicore_noc_handler_def Let_def)
qed (simp add: paicore_noc_handler_counted_def paicore_noc_handler_def Let_def)

lemma irq_erase: "map_option sw_world (irq_point_counted irq a b sw) = irq_point irq (sw_world sw)"
  by (simp add: irq_point_counted_def irq_point_def handler_erase)

abbreviation forget :: "'a \<times> 'b \<times> ('u, 'm) stats_world \<Rightarrow> 'a \<times> ('u, 'm) world" where
  "forget \<equiv> \<lambda>(st, _, sw). (st, sw_world sw)"

lemma finish_erase: "forget (wait_rx_finish_counted p s e c sw) = wait_rx_finish p (sw_world sw)"
  by (simp add: wait_rx_finish_counted_def wait_rx_finish_def Let_def)

lemma wait_loop_erase:
  "map_option forget (wait_rx_loop_counted p s limit e c polls sw) =
     wait_rx_loop p s limit (map wait_poll.truncate polls) (sw_world sw)"
proof (induction polls arbitrary: sw)
  case (Cons poll polls)
  show ?case
  proof (cases "irq_point_counted (wp_irq poll) (sp_irq_start poll) (sp_irq_end poll) sw")
    case None
    then show ?thesis using irq_erase [of "wp_irq poll" "sp_irq_start poll" "sp_irq_end poll" sw] by simp
  next
    case (Some sw1)
    then have i1: "irq_point (wp_irq poll) (sw_world sw) = Some (sw_world sw1)"
      using irq_erase [of "wp_irq poll" "sp_irq_start poll" "sp_irq_end poll" sw] by simp
    note late = irq_erase [of "wp_irq_late poll" "sp_late_start poll" "sp_late_end poll" sw1]
    show ?thesis
      using Some i1 late [symmetric] Cons.IH [of sw1]
      by (cases "irq_point_counted (wp_irq_late poll) (sp_late_start poll) (sp_late_end poll) sw1")
        (simp_all add: Let_def finish_erase)
  qed
qed simp

lemma wait_erase:
  "map_option forget (wait_rx_barrier_counted p timeout c env sw) =
     wait_rx_barrier p timeout (plain_env env) (sw_world sw)"
  by (simp add: wait_rx_barrier_counted_def wait_rx_barrier_def plain_env_def wait_loop_erase Let_def)

lemma start_erase: "sw_world (start_rx_barrier_counted p h ud sw) = start_rx_barrier p h ud (sw_world sw)"
  by (simp add: start_rx_barrier_counted_def start_rx_barrier_def clear_rx_barrier_counted_def Let_def)

abbreviation forget4 :: "'a \<times> 'b \<times> 'c \<times> ('u, 'm) stats_world \<Rightarrow> 'a \<times> 'b \<times> 'c \<times> ('u, 'm) world" where
  "forget4 \<equiv> \<lambda>(st, rxf, rxc, sw). (st, rxf, rxc, sw_world sw)"

lemma barrier_erase:
  "map_option forget4 (run_control_barrier_counted p f timeout sync rxf rxc h ud env sw) =
     run_control_barrier p f timeout sync rxf rxc h ud (plain_env env) (sw_world sw)"
proof -
  let ?sw = "on_world (upd_hw (noc_fifo_write_frame_words (fr_high f) (fr_low f))) (start_rx_barrier_counted p h ud sw)"
  have "wait_rx_barrier p timeout (plain_env env)
      (upd_hw (noc_fifo_write_frame_words (fr_high f) (fr_low f)) (start_rx_barrier p h ud (sw_world sw))) =
      map_option forget (wait_rx_barrier_counted p timeout (Some 0) env ?sw)"
    using wait_erase [of p timeout "Some 0" env ?sw] by (simp add: start_erase)
  then show ?thesis
    by (cases "wait_rx_barrier_counted p timeout (Some 0) env ?sw")
      (auto simp: run_control_barrier_counted_def run_control_barrier_def Let_def split: option.split)
qed


abbreviation forget2 :: "'a \<times> ('u, 'm) stats_world \<Rightarrow> 'a \<times> ('u, 'm) world" where
  "forget2 \<equiv> \<lambda>(st, sw). (st, sw_world sw)"

abbreviation forget3 :: "'a \<times> 'b \<times> ('u, 'm) stats_world \<Rightarrow> 'a \<times> 'b \<times> ('u, 'm) world" where
  "forget3 \<equiv> \<lambda>(st, ws, sw). (st, ws, sw_world sw)"

text \<open>An erased computation, bound to an erased continuation.\<close>

lemma forget3_bind:
  assumes "map_option forget3 x = y" "\<And>st a sw. map_option e (k (st, a, sw)) = k' (st, a, sw_world sw)"
  shows "map_option e (Option.bind x k) = Option.bind y k'"
  using assms by (cases x) auto

lemma forget4_bind:
  assumes "map_option forget4 x = y" "\<And>st a b sw. map_option e (k (st, a, b, sw)) = k' (st, a, b, sw_world sw)"
  shows "map_option e (Option.bind x k) = Option.bind y k'"
  using assms by (cases x) auto

lemma init_erase:
  "forget2 (rvrt_session_init_counted r p cfg sw) = rvrt_session_init r p cfg (sw_world sw)"
  by (auto simp: rvrt_session_init_counted_def rvrt_session_init_def clear_rx_barrier_counted_def Let_def upd_defs
      split: option.split prod.split)

lemma deinit_erase: "forget2 (rvrt_session_deinit_counted p sw) = rvrt_session_deinit p (sw_world sw)"
  by (simp add: rvrt_session_deinit_counted_def rvrt_session_deinit_def Let_def split: option.split)

lemma load_erase:
  "map_option forget2 (rvrt_session_load_config_counted p a b sw) = rvrt_session_load_config p (sw_world sw)"
  by (simp add: rvrt_session_load_config_counted_def rvrt_session_load_config_def Let_def
      split: option.split prod.split)

lemma send_frames_erase:
  "map_option forget2 (rvrt_session_send_frames_counted p fs n sw) = rvrt_session_send_frames p fs n (sw_world sw)"
  by (simp add: rvrt_session_send_frames_counted_def rvrt_session_send_frames_def Let_def split: option.split)

lemma send_loop_erase:
  "map_option forget3 (send_input_loop_counted cks p v c input n ws cap sw) =
     send_input_loop (length cks) p v c input n ws cap (sw_world sw)"
proof (induction cks arbitrary: c ws sw)
  case (Cons ck cks)
  show ?case
  proof (cases "rvrt_encode_input_chunk (Some v) (Some c) (Some input) n (Some ws) cap (Some 0)")
    case (Some r)
    obtain cst c' ws' count where r: "r = (cst, c', ws', count)" by (cases r)
    let ?sw = "upd_stats p (\<lambda>s. s\<lparr>st_input_encode_cycles :=
      st_input_encode_cycles s + (ck_encode_end ck - ck_encode_start ck)\<rparr>) sw"
    have "rvrt_session_send_frames (Some p) ws' (the count) (sw_world sw) =
        map_option forget2 (rvrt_session_send_frames_counted (Some p) ws' (the count) ?sw)"
      using send_frames_erase [of "Some p" ws' "the count" ?sw] by simp
    then show ?thesis using Some r Cons.IH
      by (cases "rvrt_session_send_frames_counted (Some p) ws' (the count) ?sw") (auto simp: Let_def)
  qed simp
qed simp

lemma send_input_erase:
  "map_option forget3 (rvrt_session_send_input_timestep_counted cks p v ts input n ws cap sw) =
     rvrt_session_send_input_timestep (length cks) p v ts input n ws cap (sw_world sw)"
  unfolding rvrt_session_send_input_timestep_counted_def rvrt_session_send_input_timestep_def Let_def
  by (auto split: option.split intro!: forget3_bind [OF send_loop_erase])

lemma reset_erase:
  "map_option forget2 (rvrt_session_reset_model_counted p timeout env sw) =
     rvrt_session_reset_model p timeout (plain_env env) (sw_world sw)"
  unfolding rvrt_session_reset_model_counted_def rvrt_session_reset_model_def Let_def
  by (auto split: option.split prod.split intro!: forget4_bind [OF barrier_erase])

lemma sync_impl_erase:
  "map_option forget4 (sync_wait_payload_impl_counted p d timeout rxf rxc h ud env sw) =
     sync_wait_payload_impl p d timeout rxf rxc h ud (plain_env env) (sw_world sw)"
  unfolding sync_wait_payload_impl_counted_def sync_wait_payload_impl_def Let_def
  by (auto split: option.split prod.split simp: forget4_bind [OF barrier_erase, where k' = Some, simplified])

lemma sync_payload_erase:
  "map_option forget4 (rvrt_session_sync_wait_payload_counted p d timeout rxf rxc env sw) =
     rvrt_session_sync_wait_payload p d timeout rxf rxc (plain_env env) (sw_world sw)"
  unfolding rvrt_session_sync_wait_payload_counted_def rvrt_session_sync_wait_payload_def
  by (auto split: option.split intro!: forget4_bind [OF sync_impl_erase])

lemma until_impl_erase:
  "map_option forget4 (sync_wait_until_impl_counted p n timeout rxf rxc h ud env sw) =
     sync_wait_until_impl p n timeout rxf rxc h ud (plain_env env) (sw_world sw)"
  unfolding sync_wait_until_impl_counted_def sync_wait_until_impl_def Let_def
  by (auto split: option.split intro!: forget4_bind [OF sync_impl_erase])

lemma handler_wait_erase:
  "map_option forget2 (rvrt_session_sync_wait_until_with_rx_handler_counted p n timeout h ud env sw) =
     rvrt_session_sync_wait_until_with_rx_handler p n timeout h ud (plain_env env) (sw_world sw)"
  unfolding rvrt_session_sync_wait_until_with_rx_handler_counted_def rvrt_session_sync_wait_until_with_rx_handler_def
  by (auto split: option.split intro!: forget4_bind [OF until_impl_erase])


fun plain_call :: "('u, 'm) counted_call \<Rightarrow> ('u, 'm) session_call" where
  "plain_call (Counted_Init r p cfg) = Call_Init r p cfg"
| "plain_call (Counted_Deinit p) = Call_Deinit p"
| "plain_call (Counted_Load_Config p a b) = Call_Load_Config p"
| "plain_call (Counted_Send_Frames p fs n) = Call_Send_Frames p fs n"
| "plain_call (Counted_Send_Input cks p v ts input n ws cap) = Call_Send_Input (length cks) p v ts input n ws cap"
| "plain_call (Counted_Reset_Model p timeout env) = Call_Reset_Model p timeout (plain_env env)"
| "plain_call (Counted_Sync_Payload p d timeout rxf rxc env) = Call_Sync_Payload p d timeout rxf rxc (plain_env env)"
| "plain_call (Counted_Sync_Until p n timeout rxf rxc env) = Call_Sync_Until p n timeout rxf rxc (plain_env env)"
| "plain_call (Counted_Sync_Handler p n timeout h ud env) = Call_Sync_Handler p n timeout h ud (plain_env env)"
| "plain_call (Counted_Stray_Interrupt a b) = Stray_Interrupt"
| "plain_call (Counted_Chip_Sends ws) = Chip_Sends ws"

lemma map_forget4: "map_option (\<lambda>(st, _, _, w). (st, w)) (map_option forget4 x) =
    map_option forget2 (map_option (\<lambda>(st, _, _, sw). (st, sw)) x)"
  by (cases x) auto

lemma map_forget3: "map_option (\<lambda>(st, _, w). (st, w)) (map_option forget3 x) =
    map_option forget2 (map_option (\<lambda>(st, _, sw). (st, sw)) x)"
  by (cases x) auto

lemma perform_erase: "map_option forget2 (perform_counted c sw) = perform (plain_call c) (sw_world sw)"
proof (cases c)
  case (Counted_Sync_Payload p d timeout rxf rxc env)
  then show ?thesis by (simp add: map_forget4 [symmetric] sync_payload_erase)
next
  case (Counted_Sync_Until p n timeout rxf rxc env)
  then show ?thesis
    by (simp add: map_forget4 [symmetric] rvrt_session_sync_wait_until_counted_def
        rvrt_session_sync_wait_until_def until_impl_erase)
next
  case (Counted_Send_Input cks p v ts input n ws cap)
  then show ?thesis by (simp add: map_forget3 [symmetric] send_input_erase)
next
  case (Counted_Stray_Interrupt a b)
  have "irq_point True (sw_world sw) = map_option sw_world (irq_point_counted True a b sw)"
    by (simp add: irq_erase)
  with Counted_Stray_Interrupt show ?thesis by (simp add: option.map_comp comp_def)
qed (simp_all add: init_erase deinit_erase load_erase send_frames_erase reset_erase handler_wait_erase)

text \<open>A program: calls until one has no result, with the statuses they returned.\<close>

fun run_counted ::
    "('u, 'm) counted_call list \<Rightarrow> ('u, 'm) stats_world \<Rightarrow> (session_status list \<times> ('u, 'm) stats_world) option" where
  "run_counted [] sw = Some ([], sw)"
| "run_counted (c # cs) sw = do {
     (st, sw) \<leftarrow> perform_counted c sw;
     (sts, sw) \<leftarrow> run_counted cs sw;
     Some (st # sts, sw)
   }"

fun run_plain :: "('u, 'm) session_call list \<Rightarrow> ('u, 'm) world \<Rightarrow> (session_status list \<times> ('u, 'm) world) option" where
  "run_plain [] w = Some ([], w)"
| "run_plain (c # cs) w = do {
     (st, w) \<leftarrow> perform c w;
     (sts, w) \<leftarrow> run_plain cs w;
     Some (st # sts, w)
   }"

lemma run_erase: "map_option forget2 (run_counted cs sw) = run_plain (map plain_call cs) (sw_world sw)"
proof (induction cs arbitrary: sw)
  case (Cons c cs)
  show ?case
  proof (cases "perform_counted c sw")
    case None
    then show ?thesis using perform_erase [of c sw] by simp
  next
    case (Some r)
    then have "perform (plain_call c) (sw_world sw) = Some (fst r, sw_world (snd r))"
      using perform_erase [of c sw] by (cases r) simp
    moreover have "run_plain (map plain_call cs) (sw_world (snd r)) = map_option forget2 (run_counted cs (snd r))"
      using Cons.IH by simp
    ultimately show ?thesis using Some by (cases r; cases "run_counted cs (snd r)") auto
  qed
qed simp

end
