(* ===== verification/RunnerTiming.thy ===== *)
theory RunnerTiming
  imports SessionStats_Laws Runner
begin

text \<open>
  The sample with timing, \<open>rvrt_paicore_runner_run_sample_profiled\<close> of \<open>Lib/runtime/paicore_runner.c\<close> in
  the build with statistics: the sample runs on the counted session, the round trip of the reset and of
  every synchronization is stored in the caller's \<open>timing\<close>, and storage that is too short is
  refused before anything is sent.
\<close>

section \<open>The model\<close>

text \<open>\<open>sync_round_trip_cycles\<close> is the caller's array, \<open>None\<close> for \<open>NULL\<close>.\<close>

record sample_timing =
  tm_init_round_trip_cycles :: u64
  tm_sync_round_trip_cycles :: "u64 list option"
  tm_sync_round_trip_capacity :: u32
  tm_sync_round_trip_count :: u32

type_synonym rstats_world = "(decode_context, runner_mem) stats_world"

text \<open>The environment of a profiled sample: those of its waits, and what the cycle counter reads around
  the chunks, the reset and the synchronizations.\<close>

record timing_env =
  te_reset :: stats_env
  te_sync :: "nat \<Rightarrow> stats_env"
  te_chunk :: "nat \<Rightarrow> nat \<Rightarrow> chunk_cycles"
  te_reset_start :: u64
  te_reset_end :: u64
  te_sync_start :: "nat \<Rightarrow> u64"
  te_sync_end :: "nat \<Rightarrow> u64"

text \<open>\<open>timing->sync_round_trip_cycles[timing->sync_round_trip_count++] = cycles\<close> for a timing that is not
  \<open>NULL\<close>; a store past the array has no result.\<close>

definition put_sync_cycles :: "u64 \<Rightarrow> sample_timing option \<Rightarrow> sample_timing option option" where
  "put_sync_cycles cycles timing =
     (case timing of
        None \<Rightarrow> Some None
      | Some t \<Rightarrow> do {
          stored \<leftarrow> tm_sync_round_trip_cycles t;
          stored \<leftarrow> wr stored (tm_sync_round_trip_count t) cycles;
          Some (Some (t\<lparr>tm_sync_round_trip_cycles := Some stored,
                        tm_sync_round_trip_count := tm_sync_round_trip_count t + 1\<rparr>))
        })"

definition runner_timestep_timed ::
    "nat \<Rightarrow> timing_env \<Rightarrow> nat \<Rightarrow> paicore_runner \<Rightarrow> u32 \<Rightarrow> u32 \<Rightarrow> decode_context \<Rightarrow> sample_timing option \<Rightarrow> u32
       \<Rightarrow> rstats_world \<Rightarrow> (session_status \<times> decode_context \<times> sample_timing option \<times> rstats_world) option" where
  "runner_timestep_timed rounds env p runner input input_stride decode timing timestep sw = do {
     let input_row = region (input + timestep * input_stride) (rn_input_row_bytes runner)
       (mm_bytes (w_mem (sw_world sw)));
     let buf = se_rx_frames (session_of sw p);
     (status, ws, sw) \<leftarrow> rvrt_session_send_input_timestep_counted
       (map (te_chunk env (unat timestep)) [0..<rounds]) (Some p) (Some (rn_input_view runner)) timestep
       (Some input_row) (rn_input_row_bytes runner) (map_option (w_buf (sw_world sw)) buf)
       (rn_encode_frame_capacity runner) sw;
     let sw = on_world (\<lambda>w. case (buf, ws) of (Some b, Some frames) \<Rightarrow> w\<lparr>w_buf := (w_buf w)(b := frames)\<rparr> | _ \<Rightarrow> w) sw;
     if status \<noteq> RVRT_SESSION_OK
     then Some (runner_session_failure ''send'' timestep status, decode, timing, sw)
     else do {
       bytes \<leftarrow> zero_region (dc_output decode + timestep * dc_output_stride decode)
         (rn_output_row_bytes runner) (mm_bytes (w_mem (sw_world sw)));
       let sw = on_world (\<lambda>w. w\<lparr>w_mem := (w_mem w)\<lparr>mm_bytes := bytes\<rparr>\<rparr>) sw;
       let completed_timesteps = timestep + 1;
       let decode = decode\<lparr>dc_submitted_timesteps := completed_timesteps\<rparr>;
       (status, sw) \<leftarrow> rvrt_session_sync_wait_until_with_rx_handler_counted (Some p) completed_timesteps
         (rn_timeout_ms runner) (Some (runner_rx_frame_handler runner)) (Some decode)
         (te_sync env (unat timestep)) sw;
       timing \<leftarrow> put_sync_cycles (te_sync_end env (unat timestep) - te_sync_start env (unat timestep)) timing;
       Some (if status \<noteq> RVRT_SESSION_OK then runner_session_failure ''sync'' completed_timesteps status
             else status, decode, timing, sw)
     }
   }"

fun runner_timestep_loop_timed ::
    "nat \<Rightarrow> timing_env \<Rightarrow> nat \<Rightarrow> paicore_runner \<Rightarrow> u32 \<Rightarrow> u32 \<Rightarrow> decode_context \<Rightarrow> sample_timing option \<Rightarrow> u32 \<Rightarrow> nat
       \<Rightarrow> rstats_world \<Rightarrow> (session_status \<times> decode_context \<times> sample_timing option \<times> rstats_world) option" where
  "runner_timestep_loop_timed rounds env p runner input input_stride decode timing timestep 0 sw =
     Some (RVRT_SESSION_OK, decode, timing, sw)"
| "runner_timestep_loop_timed rounds env p runner input input_stride decode timing timestep (Suc n) sw =
     (case runner_timestep_timed rounds env p runner input input_stride decode timing timestep sw of
        None \<Rightarrow> None
      | Some (status, decode, timing, sw) \<Rightarrow>
          if status \<noteq> RVRT_SESSION_OK then Some (status, decode, timing, sw)
          else runner_timestep_loop_timed rounds env p runner input input_stride decode timing (timestep + 1) n sw)"

definition runner_sample_body_timed ::
    "nat \<Rightarrow> timing_env \<Rightarrow> nat \<Rightarrow> paicore_runner \<Rightarrow> u32 \<Rightarrow> u32 \<Rightarrow> u32 \<Rightarrow> u32 \<Rightarrow> u32 \<Rightarrow> sample_timing option
       \<Rightarrow> rstats_world \<Rightarrow> (session_status \<times> sample_timing option \<times> rstats_world) option" where
  "runner_sample_body_timed rounds env p runner input input_stride output output_capacity output_stride timing sw = do {
     (status, sw) \<leftarrow> rvrt_session_reset_model_counted (Some p) (rn_timeout_ms runner) (te_reset env) sw;
     let timing = map_option (\<lambda>t. t\<lparr>tm_init_round_trip_cycles := te_reset_end env - te_reset_start env\<rparr>) timing;
     if status \<noteq> RVRT_SESSION_OK then Some (runner_session_failure ''reset'' 0 status, timing, sw)
     else do {
       let decode = \<lparr>dc_runner = Some runner, dc_output = output, dc_output_capacity = output_capacity,
                     dc_output_stride = output_stride, dc_submitted_timesteps = 0\<rparr>;
       let rt = rn_runtime runner;
       (status, decode, timing, sw) \<leftarrow> runner_timestep_loop_timed rounds env p runner input input_stride decode
         timing 0 (unat (rt_timesteps rt)) sw;
       if status \<noteq> RVRT_SESSION_OK then Some (status, timing, sw)
       else if rt_completion_sync_timestep rt > rt_timesteps rt then do {
         (status, sw) \<leftarrow> rvrt_session_sync_wait_until_with_rx_handler_counted (Some p)
           (rt_completion_sync_timestep rt) (rn_timeout_ms runner) (Some (runner_rx_frame_handler runner))
           (Some decode) (te_sync env (unat (rt_timesteps rt))) sw;
         timing \<leftarrow> put_sync_cycles (te_sync_end env (unat (rt_timesteps rt)) - te_sync_start env (unat (rt_timesteps rt)))
           timing;
         Some (if status \<noteq> RVRT_SESSION_OK
               then runner_session_failure ''completion sync'' (rt_completion_sync_timestep rt) status
               else RVRT_SESSION_OK, timing, sw)
       }
       else Some (RVRT_SESSION_OK, timing, sw)
     }
   }"

definition sync_count :: "paicore_runner \<Rightarrow> u32" where
  "sync_count r = rt_timesteps (rn_runtime r) +
     (if rt_completion_sync_timestep (rn_runtime r) > rt_timesteps (rn_runtime r) then 1 else 0)"

definition rvrt_paicore_runner_run_sample_timed ::
    "nat \<Rightarrow> timing_env \<Rightarrow> (nat \<times> paicore_runner) option \<Rightarrow> u32 option \<Rightarrow> u32 \<Rightarrow> u32 \<Rightarrow> u32 option \<Rightarrow> u32 \<Rightarrow> u32
       \<Rightarrow> sample_timing option \<Rightarrow> rstats_world \<Rightarrow> (session_status \<times> sample_timing option \<times> rstats_world) option" where
  "rvrt_paicore_runner_run_sample_timed rounds env runner input input_capacity input_stride output
       output_capacity output_stride timing sw =
     (case (runner, input, output) of
        (Some (p, r), Some inp, Some out) \<Rightarrow>
          if \<not> runner_deployed p (sw_world sw) \<or> iv_entries (rn_input_view r) = None \<or>
             ov_entries (rn_output_view r) = None \<or> rn_encode_frame_capacity r = 0
          then Some (RVRT_SESSION_RUNTIME_ERROR, timing, sw)
          else if case timing of None \<Rightarrow> False
               | Some t \<Rightarrow> tm_sync_round_trip_cycles t = None \<or> tm_sync_round_trip_capacity t < sync_count r
          then Some (RVRT_SESSION_BUFFER_TOO_SMALL, timing, sw)
          else
            let timing = map_option (\<lambda>t. t\<lparr>tm_init_round_trip_cycles := 0, tm_sync_round_trip_count := 0\<rparr>) timing;
                in_stride = (if input_stride = 0 then rn_input_row_bytes r else input_stride);
                out_stride = (if output_stride = 0 then rn_output_row_bytes r else output_stride);
                timesteps = rt_timesteps (rn_runtime r)
            in if \<not> sample_region_fits input_capacity (rn_input_row_bytes r) in_stride timesteps \<or>
                  \<not> sample_region_fits output_capacity (rn_output_row_bytes r) out_stride timesteps
               then Some (RVRT_SESSION_BUFFER_TOO_SMALL, timing, sw)
               else
                 let input_region_size = (timesteps - 1) * in_stride + rn_input_row_bytes r;
                     output_region_size = (timesteps - 1) * out_stride + rn_output_row_bytes r
                 in if sample_regions_overlap inp input_region_size out output_region_size \<and>
                       (inp \<noteq> out \<or> in_stride \<noteq> out_stride)
                    then Some (RVRT_SESSION_RUNTIME_ERROR, timing, sw)
                    else if ov_kind (rn_output_view r) = RVRT_OUTPUT_VOLTAGE then
                      (let (fits, required) = voltage_state_capacity timesteps
                             (ov_element_count (rn_output_view r)) (Some 0)
                       in if out mod 4 \<noteq> 0 \<or> output_capacity mod 4 \<noteq> 0 \<or> out_stride mod 4 \<noteq> 0 \<or>
                             \<not> fits \<or> rn_voltage_state r = None \<or>
                             rn_voltage_state_capacity r < the required
                          then Some (RVRT_SESSION_RUNTIME_ERROR, timing, sw)
                          else do {
                            let b = the (rn_voltage_state r);
                            st \<leftarrow> zero_prefix (the required) (mm_state (w_mem (sw_world sw)) b);
                            let sw = on_world (\<lambda>w. w\<lparr>w_mem := (w_mem w)\<lparr>mm_state := (mm_state (w_mem w))(b := st)\<rparr>\<rparr>) sw;
                            runner_sample_body_timed rounds env p r inp in_stride out output_capacity out_stride
                              timing sw
                          })
                    else runner_sample_body_timed rounds env p r inp in_stride out output_capacity out_stride
                           timing sw
      | _ \<Rightarrow> Some (RVRT_SESSION_RUNTIME_ERROR, timing, sw))"


section \<open>The plain sample behind it\<close>

definition plain_sample_env :: "timing_env \<Rightarrow> sample_env" where
  "plain_sample_env env = \<lparr>sv_reset = plain_env (te_reset env), sv_sync = (\<lambda>k. plain_env (te_sync env k))\<rparr>"

text \<open>The measurements of the first \<open>n\<close> synchronizations in an array that held \<open>l0\<close>.\<close>

definition sync_cycles :: "timing_env \<Rightarrow> nat \<Rightarrow> u64" where
  "sync_cycles env k = te_sync_end env k - te_sync_start env k"

definition timed :: "timing_env \<Rightarrow> u64 list \<Rightarrow> nat \<Rightarrow> sample_timing option \<Rightarrow> bool" where
  "timed env l0 n timing \<longleftrightarrow>
     (case timing of
        None \<Rightarrow> True
      | Some t \<Rightarrow> unat (tm_sync_round_trip_count t) = n \<and>
          tm_sync_round_trip_cycles t = Some (map (sync_cycles env) [0..<n] @ drop n l0))"

definition room :: "u64 list \<Rightarrow> nat \<Rightarrow> sample_timing option \<Rightarrow> bool" where
  "room l0 n timing \<longleftrightarrow> timing = None \<or> n \<le> length l0 \<and> n < 2 ^ 32"

definition same_storage :: "sample_timing option \<Rightarrow> sample_timing option \<Rightarrow> bool" where
  "same_storage timing timing' \<longleftrightarrow>
     map_option (\<lambda>t. (tm_init_round_trip_cycles t, tm_sync_round_trip_capacity t)) timing' =
     map_option (\<lambda>t. (tm_init_round_trip_cycles t, tm_sync_round_trip_capacity t)) timing"

lemma same_storage_simps [simp]: "same_storage timing timing"
  "same_storage t1 t2 \<Longrightarrow> same_storage t2 t3 \<Longrightarrow> same_storage t1 t3"
  by (simp_all add: same_storage_def)

lemma room_same: "same_storage timing timing' \<Longrightarrow> room l0 n timing' = room l0 n timing"
  by (cases timing; cases timing') (auto simp: same_storage_def room_def)

lemma put_timed:
  assumes "timed env l0 n timing" "room l0 (Suc n) timing"
  shows "\<exists>timing'. put_sync_cycles (sync_cycles env n) timing = Some timing' \<and> timed env l0 (Suc n) timing' \<and>
    same_storage timing timing'"
proof (cases timing)
  case None
  then show ?thesis by (simp add: put_sync_cycles_def timed_def)
next
  case (Some t)
  with assms have n: "unat (tm_sync_round_trip_count t) = n" "n < length l0" "Suc n < 2 ^ 32"
    "tm_sync_round_trip_cycles t = Some (map (sync_cycles env) [0..<n] @ drop n l0)"
    by (simp_all add: timed_def room_def)
  have "unat (tm_sync_round_trip_count t + 1) = Suc n" using n(1,3) by (simp add: unat_word_ariths)
  moreover have "wr (map (sync_cycles env) [0..<n] @ drop n l0) (tm_sync_round_trip_count t) (sync_cycles env n) =
      Some (map (sync_cycles env) [0..<Suc n] @ drop (Suc n) l0)"
    using n(1,2) by (simp add: wr_def list_update_append drop_update_swap Cons_nth_drop_Suc [symmetric])
  ultimately show ?thesis using Some n(4) by (auto simp: put_sync_cycles_def timed_def same_storage_def)
qed


abbreviation forget_timing :: "'a \<times> 'b \<times> 'c \<times> ('u, 'm) stats_world \<Rightarrow> 'a \<times> 'b \<times> ('u, 'm) world" where
  "forget_timing \<equiv> \<lambda>(st, d, _, sw). (st, d, sw_world sw)"

text \<open>Measurements up to \<open>n\<close>, all of them when the run succeeded.\<close>

definition measured ::
    "timing_env \<Rightarrow> u64 list \<Rightarrow> nat \<Rightarrow> session_status \<Rightarrow> sample_timing option \<Rightarrow> sample_timing option \<Rightarrow> bool" where
  "measured env l0 n st timing timing' \<longleftrightarrow> same_storage timing timing' \<and>
     (\<exists>k \<le> n. timed env l0 k timing' \<and> (st = RVRT_SESSION_OK \<longrightarrow> k = n))"

lemma measured_put:
  assumes "timed env l0 n timing" "room l0 (Suc n) timing" "same_storage timing0 timing"
  obtains timing' where "put_sync_cycles (te_sync_end env n - te_sync_start env n) timing = Some timing'"
    "\<And>st. measured env l0 (Suc n) st timing0 timing'"
proof -
  from put_timed [OF assms(1,2)] obtain timing' where t: "put_sync_cycles (sync_cycles env n) timing = Some timing'"
    "timed env l0 (Suc n) timing'" "same_storage timing timing'" by blast
  then have "measured env l0 (Suc n) st timing0 timing'" for st
    using assms(3) by (auto simp: measured_def intro!: exI [of _ "Suc n"])
  with t(1) show thesis using that by (simp add: sync_cycles_def)
qed

lemma timestep_erase:
  assumes "timed env l0 (unat t) timing" "room l0 (Suc (unat t)) timing"
  shows "map_option forget_timing (runner_timestep_timed rounds env p r input istride d timing t sw) =
      runner_timestep rounds (plain_sample_env env) p r input istride d t (sw_world sw) \<and>
    (\<forall>st d' timing' sw'. runner_timestep_timed rounds env p r input istride d timing t sw = Some (st, d', timing', sw') \<longrightarrow>
       measured env l0 (Suc (unat t)) st timing timing')"
proof -
  let ?row = "region (input + t * istride) (rn_input_row_bytes r) (mm_bytes (w_mem (sw_world sw)))"
  let ?buf = "se_rx_frames (session_of sw p)"
  let ?send = "rvrt_session_send_input_timestep_counted (map (te_chunk env (unat t)) [0..<rounds]) (Some p)
    (Some (rn_input_view r)) t (Some ?row) (rn_input_row_bytes r) (map_option (w_buf (sw_world sw)) ?buf)
    (rn_encode_frame_capacity r) sw"
  note defs = runner_timestep_timed_def runner_timestep_def Let_def
  have send: "rvrt_session_send_input_timestep rounds (Some p) (Some (rn_input_view r)) t (Some ?row)
      (rn_input_row_bytes r) (map_option (w_buf (sw_world sw)) ?buf) (rn_encode_frame_capacity r) (sw_world sw) =
      map_option forget3 ?send" by (simp add: send_input_erase)
  from measured_put [OF assms same_storage_simps(1)] obtain timing1 where
    put: "put_sync_cycles (te_sync_end env (unat t) - te_sync_start env (unat t)) timing = Some timing1"
      "\<And>st. measured env l0 (Suc (unat t)) st timing timing1" by blast
  show ?thesis
  proof (cases ?send)
    case None
    then show ?thesis using send by (simp add: defs)
  next
    case (Some x)
    obtain st ws sw1 where x: "x = (st, ws, sw1)" by (cases x)
    let ?sw = "on_world (\<lambda>w. case (?buf, ws) of (Some b, Some frames) \<Rightarrow> w\<lparr>w_buf := (w_buf w)(b := frames)\<rparr> | _ \<Rightarrow> w) sw1"
    show ?thesis
    proof (cases "st = RVRT_SESSION_OK")
      case False
      then show ?thesis using send Some x assms(1)
        by (auto simp: defs measured_def runner_session_failure_def intro!: exI [of _ "unat t"] split: option.split)
    next
      case ok: True
      show ?thesis
      proof (cases "zero_region (dc_output d + t * dc_output_stride d) (rn_output_row_bytes r) (mm_bytes (w_mem (sw_world ?sw)))")
        case None
        then show ?thesis using send Some x ok by (simp add: defs)
      next
        case bytes: (Some bytes)
        let ?sw2 = "on_world (\<lambda>w. w\<lparr>w_mem := (w_mem w)\<lparr>mm_bytes := bytes\<rparr>\<rparr>) ?sw"
        let ?sync = "rvrt_session_sync_wait_until_with_rx_handler_counted (Some p) (t + 1) (rn_timeout_ms r)
          (Some (runner_rx_frame_handler r)) (Some (d\<lparr>dc_submitted_timesteps := t + 1\<rparr>)) (te_sync env (unat t)) ?sw2"
        have sync: "rvrt_session_sync_wait_until_with_rx_handler (Some p) (t + 1) (rn_timeout_ms r)
            (Some (runner_rx_frame_handler r)) (Some (d\<lparr>dc_submitted_timesteps := t + 1\<rparr>))
            (plain_env (te_sync env (unat t))) (sw_world ?sw2) = map_option forget2 ?sync"
          by (simp add: handler_wait_erase)
        show ?thesis using send Some x ok bytes sync put
          by (cases ?sync) (auto simp: defs plain_sample_env_def)
      qed
    qed
  qed
qed


lemma measured_mono:
  "measured env l0 m st1 timing timing1 \<Longrightarrow> measured env l0 n st timing1 timing2 \<Longrightarrow> measured env l0 n st timing timing2"
  by (auto simp: measured_def)

lemma measured_le:
  assumes "measured env l0 m st timing timing'" "st \<noteq> RVRT_SESSION_OK" "m \<le> n"
  shows "measured env l0 n st timing timing'"
proof -
  from assms obtain k where "same_storage timing timing'" "k \<le> m" "timed env l0 k timing'" by (auto simp: measured_def)
  then have "same_storage timing timing' \<and> k \<le> n \<and> timed env l0 k timing'" using assms(3) by simp
  then show ?thesis using assms(2) by (auto simp: measured_def)
qed

lemma loop_erase:
  "timed env l0 (unat t) timing \<Longrightarrow> room l0 (unat t + n) timing \<Longrightarrow> unat t + n < 2 ^ 32 \<Longrightarrow>
   map_option forget_timing (runner_timestep_loop_timed rounds env p r input istride d timing t n sw) =
     runner_timestep_loop rounds (plain_sample_env env) p r input istride d t n (sw_world sw) \<and>
   (\<forall>st d' timing' sw'. runner_timestep_loop_timed rounds env p r input istride d timing t n sw =
        Some (st, d', timing', sw') \<longrightarrow> measured env l0 (unat t + n) st timing timing')"
proof (induction n arbitrary: t d timing sw)
  case 0
  then show ?case by (auto simp: measured_def)
next
  case (Suc n)
  have room: "room l0 (Suc (unat t)) timing" using Suc.prems(2) by (auto simp: room_def)
  note step = timestep_erase [OF Suc.prems(1) room, of rounds p r input istride d sw]
  show ?case
  proof (cases "runner_timestep_timed rounds env p r input istride d timing t sw")
    case None
    then show ?thesis using step by simp
  next
    case (Some x)
    obtain st d1 timing1 sw1 where x: "x = (st, d1, timing1, sw1)" by (cases x)
    have plain: "runner_timestep rounds (plain_sample_env env) p r input istride d t (sw_world sw) = Some (st, d1, sw_world sw1)"
      and m: "measured env l0 (Suc (unat t)) st timing timing1" using step Some x by auto
    show ?thesis
    proof (cases "st = RVRT_SESSION_OK")
      case False
      have "measured env l0 (unat t + Suc n) st timing timing1" by (rule measured_le [OF m False]) simp
      then show ?thesis using Some x plain False by simp
    next
      case True
      have t: "unat (t + 1) = Suc (unat t)" using Suc.prems(3) by (simp add: unat_word_ariths)
      have "timed env l0 (unat (t + 1)) timing1" "same_storage timing timing1" using m True t by (auto simp: measured_def)
      moreover have "room l0 (unat (t + 1) + n) timing1" using Suc.prems(2) t room_same calculation(2) by simp
      ultimately have "map_option forget_timing (runner_timestep_loop_timed rounds env p r input istride d1 timing1 (t + 1) n sw1) =
          runner_timestep_loop rounds (plain_sample_env env) p r input istride d1 (t + 1) n (sw_world sw1)"
        "\<forall>st d' timing' sw'. runner_timestep_loop_timed rounds env p r input istride d1 timing1 (t + 1) n sw1 =
          Some (st, d', timing', sw') \<longrightarrow> measured env l0 (unat (t + 1) + n) st timing1 timing'"
        using Suc.IH [of "t + 1" timing1 d1 sw1] Suc.prems(3) t by simp_all
      then show ?thesis using Some x plain True t measured_mono [OF m] by auto
    qed
  qed
qed

definition with_init :: "timing_env \<Rightarrow> sample_timing option \<Rightarrow> sample_timing option" where
  "with_init env timing =
     map_option (\<lambda>t. t\<lparr>tm_init_round_trip_cycles := te_reset_end env - te_reset_start env\<rparr>) timing"

lemma timed_with_init: "timed env l0 n (with_init env timing) = timed env l0 n timing"
  "room l0 n (with_init env timing) = room l0 n timing"
  by (cases timing; simp add: timed_def with_init_def room_def)+

abbreviation forget_mid :: "'a \<times> 'b \<times> ('u, 'm) stats_world \<Rightarrow> 'a \<times> ('u, 'm) world" where
  "forget_mid \<equiv> \<lambda>(st, _, sw). (st, sw_world sw)"

lemma unat_sync_count:
  "unat (sync_count r) = unat (rt_timesteps (rn_runtime r)) +
     (if rt_completion_sync_timestep (rn_runtime r) > rt_timesteps (rn_runtime r) then 1 else 0)"
  using unat_Suc_word [of "rt_timesteps (rn_runtime r)" "rt_completion_sync_timestep (rn_runtime r)"]
  by (simp add: sync_count_def)

lemma body_erase:
  assumes "timed env l0 0 timing" "room l0 (unat (sync_count r)) timing"
  shows "map_option forget_mid (runner_sample_body_timed rounds env p r input istride out outcap ostride timing sw) =
      runner_sample_body rounds (plain_sample_env env) p r input istride out outcap ostride (sw_world sw) \<and>
    (\<forall>st timing' sw'. runner_sample_body_timed rounds env p r input istride out outcap ostride timing sw =
        Some (st, timing', sw') \<longrightarrow> measured env l0 (unat (sync_count r)) st (with_init env timing) timing')"
proof -
  let ?T = "rt_timesteps (rn_runtime r)" and ?C = "rt_completion_sync_timestep (rn_runtime r)"
  let ?tm = "with_init env timing"
  let ?d = "\<lparr>dc_runner = Some r, dc_output = out, dc_output_capacity = outcap, dc_output_stride = ostride,
    dc_submitted_timesteps = 0\<rparr>"
  note defs = runner_sample_body_timed_def runner_sample_body_def Let_def with_init_def [symmetric]
  have reset: "rvrt_session_reset_model (Some p) (rn_timeout_ms r) (sv_reset (plain_sample_env env)) (sw_world sw) =
      map_option forget2 (rvrt_session_reset_model_counted (Some p) (rn_timeout_ms r) (te_reset env) sw)"
    by (simp add: reset_erase plain_sample_env_def)
  show ?thesis
  proof (cases "rvrt_session_reset_model_counted (Some p) (rn_timeout_ms r) (te_reset env) sw")
    case None
    then show ?thesis using reset by (simp add: defs)
  next
    case (Some x)
    obtain st sw1 where x: "x = (st, sw1)" by (cases x)
    show ?thesis
    proof (cases "st = RVRT_SESSION_OK")
      case False
      then show ?thesis using Some x reset assms(1)
        by (auto simp: defs measured_def runner_session_failure_def timed_with_init)
    next
      case ok: True
      let ?loop = "runner_timestep_loop_timed rounds env p r input istride ?d ?tm 0 (unat ?T) sw1"
      have "room l0 (unat ?T) timing" using assms(2) by (auto simp: room_def unat_sync_count split: if_splits)
      then have room: "room l0 (unat ?T) ?tm" by (simp add: timed_with_init)
      have loop: "map_option forget_timing ?loop =
          runner_timestep_loop rounds (plain_sample_env env) p r input istride ?d 0 (unat ?T) (sw_world sw1)"
        "\<forall>st d' timing' sw'. ?loop = Some (st, d', timing', sw') \<longrightarrow> measured env l0 (unat ?T) st ?tm timing'"
        using loop_erase [of env l0 0 ?tm "unat ?T" rounds p r input istride ?d sw1] assms(1) room unat_lt_2_32 [of ?T]
        by (simp_all add: timed_with_init)
      show ?thesis
      proof (cases ?loop)
        case None
        then show ?thesis using Some x ok reset loop(1) by (simp add: defs)
      next
        case y: (Some y)
        obtain st2 d2 tm2 sw2 where "y = (st2, d2, tm2, sw2)" by (cases y)
        then have y2: "?loop = Some (st2, d2, tm2, sw2)" using y by simp
        then have m: "measured env l0 (unat ?T) st2 ?tm tm2" using loop(2) by blast
        have plain: "runner_timestep_loop rounds (plain_sample_env env) p r input istride ?d 0 (unat ?T) (sw_world sw1) =
            Some (st2, d2, sw_world sw2)" using loop(1) y2 by simp
        show ?thesis
        proof (cases "st2 = RVRT_SESSION_OK \<and> ?C > ?T")
          case False
          have "measured env l0 (unat (sync_count r)) st2 ?tm tm2"
            by (cases "st2 = RVRT_SESSION_OK") (use m False measured_le in \<open>force simp: unat_sync_count\<close>)+
          then show ?thesis using Some x ok reset plain y2 False by (auto simp: defs)
        next
          case last: True
          then have n: "unat (sync_count r) = Suc (unat ?T)" by (simp add: unat_sync_count)
          have "timed env l0 (unat ?T) tm2" "same_storage ?tm tm2" using m last by (auto simp: measured_def)
          moreover from this have "room l0 (Suc (unat ?T)) tm2" using assms(2) n by (simp add: room_same timed_with_init)
          ultimately obtain tm3 where
            put: "put_sync_cycles (te_sync_end env (unat ?T) - te_sync_start env (unat ?T)) tm2 = Some tm3"
            and m3: "\<And>st. measured env l0 (unat (sync_count r)) st ?tm tm3"
            using measured_put [of env l0 "unat ?T" tm2 ?tm] n by metis
          let ?sync = "rvrt_session_sync_wait_until_with_rx_handler_counted (Some p) ?C (rn_timeout_ms r)
            (Some (runner_rx_frame_handler r)) (Some d2) (te_sync env (unat ?T)) sw2"
          have sync: "rvrt_session_sync_wait_until_with_rx_handler (Some p) ?C (rn_timeout_ms r)
            (Some (runner_rx_frame_handler r)) (Some d2) (plain_env (te_sync env (unat ?T))) (sw_world sw2) =
            map_option forget2 ?sync" by (simp add: handler_wait_erase)
          show ?thesis using Some x ok reset plain y2 last put m3 sync
            by (cases ?sync) (auto simp: defs plain_sample_env_def)
        qed
      qed
    qed
  qed
qed

end
