(* ===== verification/SessionStats_Count.thy ===== *)
theory SessionStats_Count
  imports SessionStats_Laws
begin

text \<open>What the counters of a session count: the frames that crossed the NoC during its lifetime.\<close>

section \<open>Receiving\<close>

definition work_frames :: "rvrt_frame list \<Rightarrow> rvrt_frame list" where
  "work_frames gs = filter (\<lambda>g. rvrt_frame_is_work (Some g)) gs"

definition complete_frames :: "rvrt_frame list \<Rightarrow> rvrt_frame list" where
  "complete_frames gs = filter (\<lambda>g. rvrt_frame_is_complete (Some g)) gs"

lemma frame_kinds_simps [simp]:
  "work_frames [] = []" "work_frames (gs @ hs) = work_frames gs @ work_frames hs"
  "complete_frames [] = []" "complete_frames (gs @ hs) = complete_frames gs @ complete_frames hs"
  by (simp_all add: work_frames_def complete_frames_def)

definition counts_after :: "rvrt_frame list \<Rightarrow> bar_counts \<Rightarrow> bar_counts" where
  "counts_after gs c = \<lparr>bc_received_count = bc_received_count c + of_nat (length gs),
     bc_output_work_count = bc_output_work_count c + of_nat (length (work_frames gs)),
     bc_complete_count = bc_complete_count c + of_nat (length (complete_frames gs))\<rparr>"

lemma counts_after_simps [simp]: "counts_after [] c = c" "counts_after hs (counts_after gs c) = counts_after (gs @ hs) c"
  by (simp_all add: counts_after_def)

text \<open>The counters of frames and barriers.\<close>

definition tally :: "session_stats \<Rightarrow> bool \<times> u32 \<times> u32 \<times> u32 \<times> u32 \<times> u32" where
  "tally s = (st_enabled s, st_sent_frames s, st_rx_frames s, st_output_work_frames s, st_complete_frames s,
     st_sync_barriers s)"

definition received :: "nat \<Rightarrow> rvrt_frame list \<Rightarrow> ('u, 'm) stats_world \<Rightarrow> ('u, 'm) stats_world \<Rightarrow> bool" where
  "received p gs sw sw' \<longleftrightarrow>
     w_active (sw_world sw') = w_active (sw_world sw) \<and>
     hw_down (w_hw (sw_world sw')) = hw_down (w_hw (sw_world sw)) \<and>
     hw_up (w_hw (sw_world sw)) = up_words gs @ hw_up (w_hw (sw_world sw')) \<and>
     (\<forall>q. tally (sw_stats sw' q) = tally (sw_stats sw q)) \<and>
     sw_counts sw' p = counts_after gs (sw_counts sw p)"

lemma received_refl: "received p [] sw sw"
  by (simp add: received_def)

lemma received_trans: "received p gs sw1 sw2 \<Longrightarrow> received p hs sw2 sw3 \<Longrightarrow> received p (gs @ hs) sw1 sw3"
  by (simp add: received_def)

lemma received_world:
  assumes "w_active (g (sw_world sw)) = w_active (sw_world sw)" "hw_down (w_hw (g (sw_world sw))) = hw_down (w_hw (sw_world sw))"
    "hw_up (w_hw (g (sw_world sw))) = hw_up (w_hw (sw_world sw))"
  shows "received p [] sw (on_world g sw)"
  using assms by (simp add: received_def)

lemma received_irq:
  "received p [] sw (on_world (upd_hw noc_irq_disable) sw)" "received p [] sw (on_world (upd_hw noc_irq_ack) sw)"
  "received p [] sw (on_world (upd_barrier p h) sw)"
  by (rule received_world; simp add: upd_defs noc_irq_defs)+

lemma received_nil: "received p [] sw1 sw2 \<Longrightarrow> received p gs sw2 sw3 \<Longrightarrow> received p gs sw1 sw3"
  using received_trans [of p "[]"] by simp

lemma nil_received: "received p gs sw1 sw2 \<Longrightarrow> received p [] sw2 sw3 \<Longrightarrow> received p gs sw1 sw3"
  using received_trans [of p gs sw1 sw2 "[]"] by simp

lemma receive_counts:
  assumes "receive_rx_barrier_frame_counted p f sw = Some sw'"
  shows "w_active (sw_world sw') = w_active (sw_world sw)" "w_hw (sw_world sw') = w_hw (sw_world sw)"
    "sw_stats sw' = sw_stats sw" "sw_counts sw' p = counts_after [f] (sw_counts sw p)"
  using assms
  by (auto simp: receive_rx_barrier_frame_counted_def Let_def upd_defs counts_after_def work_frames_def
      complete_frames_def split: option.splits if_splits bind_splits)

lemma rx_loop_received: "noc_rx_loop_counted p sw = Some sw' \<Longrightarrow> \<exists>gs. received p gs sw sw'"
proof (induction p sw rule: noc_rx_loop_counted.induct)
  case (1 p sw)
  show ?case
  proof (cases "bar_completed (se_barrier (session_of sw p))")
    case True
    with 1(2) have "sw' = sw" by (subst (asm) noc_rx_loop_counted.simps) simp
    then show ?thesis using received_refl by blast
  next
    case False
    with 1(2) obtain h l ws where up: "hw_up (w_hw (sw_world sw)) = h # l # ws"
      by (subst (asm) noc_rx_loop_counted.simps) (auto simp: noc_read_eq split: list.splits)
    let ?f = "\<lparr>fr_high = h, fr_low = l\<rparr>" and ?hw = "(w_hw (sw_world sw))\<lparr>hw_up := ws\<rparr>"
    let ?sw = "on_world (\<lambda>w. w\<lparr>w_hw := ?hw\<rparr>) sw"
    have read: "noc_fifo_read_frame_words (Some 0) (Some 0) (w_hw (sw_world sw)) = Some (0, Some h, Some l, ?hw)"
      by (simp add: noc_read_eq up)
    from 1(2) False read obtain sw1 where
      sw1: "receive_rx_barrier_frame_counted p ?f ?sw = Some sw1" "noc_rx_loop_counted p sw1 = Some sw'"
      by (subst (asm) noc_rx_loop_counted.simps) (auto simp: Let_def split: option.splits)
    have "received p [?f] sw sw1"
      using receive_counts [OF sw1(1)] up by (simp add: received_def)
    moreover from "1.IH" [OF False read refl refl refl refl, of sw1] sw1 obtain gs where "received p gs sw1 sw'"
      by auto
    ultimately show ?thesis using received_trans by blast
  qed
qed

lemma handler_received:
  assumes "paicore_noc_handler_counted a b sw = Some sw'" "w_active (sw_world sw) = Some p"
  shows "\<exists>gs. received p gs sw sw'"
proof -
  let ?sw = "on_world (upd_hw noc_irq_disable) (on_world (upd_hw noc_irq_ack) sw)"
  have irq: "received p [] sw ?sw" by (rule received_nil [OF received_irq(2) received_irq(1)])
  have same: "received p [] sw1 (upd_stats p (add_irq_service d) sw1)" for sw1 d
    by (simp add: received_def tally_def add_irq_service_def)
  from assms consider "sw' = ?sw" | sw1 where "noc_rx_loop_counted p ?sw = Some sw1" "sw' = sw1 \<or>
      (\<exists>d. sw' = upd_stats p (add_irq_service d) sw1)"
    unfolding paicore_noc_handler_counted_def Let_def by (auto split: if_splits bind_splits)
  then show ?thesis
  proof cases
    case 2
    from rx_loop_received [OF 2(1)] obtain gs where "received p gs sw sw1" using received_nil [OF irq] by blast
    then show ?thesis using 2(2) nil_received [OF _ same] by blast
  qed (use irq in blast)
qed

lemma irq_received:
  assumes "irq_point_counted irq a b sw = Some sw'" "w_active (sw_world sw) = Some p"
  shows "\<exists>gs. received p gs sw sw'"
proof (cases "irq \<and> noc_irq_is_enabled (w_hw (sw_world sw)) \<and> hw_mstatus (w_hw (sw_world sw)) AND MSTATUS_MIE \<noteq> 0")
  case True
  then have "paicore_noc_handler_counted a b sw = Some sw'" using assms(1) by (simp add: irq_point_counted_def)
  from handler_received [OF this assms(2)] show ?thesis .
next
  case False
  then have "sw' = sw" using assms(1) by (auto simp: irq_point_counted_def)
  then show ?thesis using received_refl by blast
qed

lemma finish_received: "received p [] sw (snd (snd (wait_rx_finish_counted p s e c sw)))"
proof -
  have "snd (snd (wait_rx_finish_counted p s e c sw)) =
      on_world (upd_barrier p (\<lambda>b. b\<lparr>bar_active := False\<rparr>)) (on_world (upd_hw noc_irq_disable) sw)"
    by (simp add: wait_rx_finish_counted_def Let_def)
  then show ?thesis using received_nil [OF received_irq(1) received_irq(3)] by simp
qed

lemma wait_received:
  "wait_rx_loop_counted p s limit e c polls sw = Some (st, c', sw') \<Longrightarrow> w_active (sw_world sw) = Some p \<Longrightarrow>
   \<exists>gs. received p gs sw sw'"
proof (induction polls arbitrary: sw)
  case (Cons poll polls)
  from Cons.prems(1) obtain sw1 where
    i1: "irq_point_counted (wp_irq poll) (sp_irq_start poll) (sp_irq_end poll) sw = Some sw1"
    by (auto split: option.splits)
  from irq_received [OF i1 Cons.prems(2)] obtain gs where gs: "received p gs sw sw1" by blast
  then have a1: "w_active (sw_world sw1) = Some p" using Cons.prems(2) by (simp add: received_def)
  consider (ended) "bar_completed (se_barrier (session_of sw1 p))"
    | (late) "\<not> bar_completed (se_barrier (session_of sw1 p))" "wp_cycle poll - s > limit"
    | (again) "\<not> bar_completed (se_barrier (session_of sw1 p))" "\<not> wp_cycle poll - s > limit" by blast
  then show ?case
  proof cases
    case ended
    then have "sw' = snd (snd (wait_rx_finish_counted p s e c sw1))" using Cons.prems(1) i1 by (simp add: prod_eq_iff)
    then show ?thesis using nil_received [OF gs finish_received] by blast
  next
    case late
    with Cons.prems(1) i1 obtain sw2 where
      i2: "irq_point_counted (wp_irq_late poll) (sp_late_start poll) (sp_late_end poll) sw1 = Some sw2"
      by (auto split: option.splits)
    let ?sw = "on_world (upd_hw noc_irq_disable) sw2"
    from irq_received [OF i2 a1] obtain hs where hs: "received p hs sw1 sw2" by blast
    have all: "received p (gs @ hs) sw ?sw" by (rule nil_received [OF received_trans [OF gs hs] received_irq(1)])
    have "sw' = snd (snd (wait_rx_finish_counted p s e c ?sw)) \<or>
        sw' = on_world (upd_barrier p (\<lambda>b. b\<lparr>bar_active := False, bar_hardware_error := True\<rparr>)) ?sw"
      using Cons.prems(1) i1 i2 late by (auto simp: Let_def prod_eq_iff split: if_splits)
    then show ?thesis using nil_received [OF all finish_received] nil_received [OF all received_irq(3)] by blast
  next
    case again
    with Cons.prems(1) i1 have "wait_rx_loop_counted p s limit e c polls sw1 = Some (st, c', sw')" by simp
    from Cons.IH [OF this a1] show ?thesis using received_trans [OF gs] by blast
  qed
qed simp


section \<open>Traffic\<close>

text \<open>What a call moves for the owner \<open>p\<close>: \<open>k\<close> sync barriers that succeeded, words \<open>ws\<close> that the chip
  put into the uplink, frames \<open>fs\<close> sent and frames \<open>gs\<close> received.\<close>

definition tally_after ::
    "nat \<Rightarrow> rvrt_frame list \<Rightarrow> rvrt_frame list \<Rightarrow> session_stats \<Rightarrow> bool \<times> u32 \<times> u32 \<times> u32 \<times> u32 \<times> u32" where
  "tally_after k fs gs s = (st_enabled s, st_sent_frames s + of_nat (length fs), st_rx_frames s + of_nat (length gs),
     st_output_work_frames s + of_nat (length (work_frames gs)),
     st_complete_frames s + of_nat (length (complete_frames gs)), st_sync_barriers s + of_nat k)"

definition moved ::
    "nat \<Rightarrow> nat \<Rightarrow> u32 list \<Rightarrow> rvrt_frame list \<Rightarrow> rvrt_frame list \<Rightarrow> ('u, 'm) stats_world \<Rightarrow> ('u, 'm) stats_world
       \<Rightarrow> bool" where
  "moved p k ws fs gs sw sw' \<longleftrightarrow>
     w_active (sw_world sw') = w_active (sw_world sw) \<and>
     hw_down (w_hw (sw_world sw')) = hw_down (w_hw (sw_world sw)) @ concat (map frame_words fs) \<and>
     hw_up (w_hw (sw_world sw)) @ ws = up_words gs @ hw_up (w_hw (sw_world sw')) \<and>
     (\<forall>q. q \<noteq> p \<longrightarrow> tally (sw_stats sw' q) = tally (sw_stats sw q)) \<and>
     tally (sw_stats sw' p) = tally_after k fs gs (sw_stats sw p)"

lemma tally_after_nil [simp]: "tally_after 0 [] [] s = tally s"
  by (simp add: tally_after_def tally_def)

lemma moved_refl: "moved p 0 [] [] [] sw sw"
  by (simp add: moved_def)

lemma moved_trans:
  assumes "moved p k ws fs gs sw1 sw2" "moved p k' ws' fs' gs' sw2 sw3"
  shows "moved p (k + k') (ws @ ws') (fs @ fs') (gs @ gs') sw1 sw3"
proof -
  have "hw_up (w_hw (sw_world sw1)) @ ws @ ws' = up_words (gs @ gs') @ hw_up (w_hw (sw_world sw3))"
    using assms unfolding moved_def by (metis append_assoc up_words_simps(3))
  with assms show ?thesis by (auto simp: moved_def tally_after_def tally_def algebra_simps)
qed

lemma moved_world:
  assumes "w_active (g (sw_world sw)) = w_active (sw_world sw)"
    "hw_down (w_hw (g (sw_world sw))) = hw_down (w_hw (sw_world sw)) @ concat (map frame_words fs)"
    "hw_up (w_hw (sw_world sw)) @ ws = hw_up (w_hw (g (sw_world sw)))"
    "\<And>q. q \<noteq> p \<Longrightarrow> tally (f q) = tally (sw_stats sw q)" "tally (f p) = tally_after k fs [] (sw_stats sw p)"
  shows "moved p k ws fs [] sw (sw\<lparr>sw_world := g (sw_world sw), sw_stats := f\<rparr>)"
  using assms by (simp add: moved_def)

lemma moved_quiet:
  assumes "moved p k ws fs gs sw sw1" "w_active (sw_world sw2) = w_active (sw_world sw1)"
    "hw_down (w_hw (sw_world sw2)) = hw_down (w_hw (sw_world sw1))" "hw_up (w_hw (sw_world sw2)) = hw_up (w_hw (sw_world sw1))"
    "\<And>q. tally (sw_stats sw2 q) = tally (sw_stats sw1 q)"
  shows "moved p k ws fs gs sw sw2"
  using assms by (simp add: moved_def)

lemma barrier_moved:
  assumes "run_control_barrier_counted p f timeout sync rxf rxc h ud env sw = Some (st, rxf', rxc', sw')"
    and act: "w_active (sw_world sw) = Some p"
  shows "\<exists>gs. moved p 0 [] [f] gs sw sw'"
proof -
  let ?sw = "on_world (upd_hw (noc_fifo_write_frame_words (fr_high f) (fr_low f))) (start_rx_barrier_counted p h ud sw)"
  from assms(1) obtain c sw1 where
    wait: "wait_rx_barrier_counted p timeout (Some 0) env ?sw = Some (st, c, sw1)"
    and sw': "w_active (sw_world sw') = w_active (sw_world sw1)" "hw_down (w_hw (sw_world sw')) = hw_down (w_hw (sw_world sw1))"
      "hw_up (w_hw (sw_world sw')) = hw_up (w_hw (sw_world sw1))"
      "sw_stats sw' = (sw_stats sw1)(p := add_barrier (se_barrier (session_of sw1 p)) (sw_counts sw1 p)
        (add_wait_cycles sync (the c) (sw_stats sw1 p)))"
    unfolding run_control_barrier_counted_def Let_def
    by (auto simp: upd_defs noc_irq_defs split: bind_splits if_splits)
  have "sw_world ?sw = armed p h ud f 1 (sw_world sw)" by (simp add: start_erase start_and_send)
  then have start: "w_active (sw_world ?sw) = Some p" "hw_up (w_hw (sw_world ?sw)) = hw_up (w_hw (sw_world sw))"
    "hw_down (w_hw (sw_world ?sw)) = hw_down (w_hw (sw_world sw)) @ frame_words f"
    using act by (simp_all add: armed_def)
  have counts: "sw_stats ?sw = sw_stats sw" "sw_counts ?sw p = zero_counts"
    by (simp_all add: start_rx_barrier_counted_def clear_rx_barrier_counted_def Let_def zero_counts_def)
  from wait_received [OF wait [unfolded wait_rx_barrier_counted_def Let_def] start(1)] obtain gs where
    gs: "received p gs ?sw sw1" by blast
  have "sw_counts sw1 p = counts_after gs zero_counts" using gs counts(2) by (simp add: received_def)
  then have "tally (sw_stats sw' p) = tally_after 0 [f] gs (sw_stats sw p)"
    using gs counts(1) sw'(4)
    by (simp add: received_def tally_def tally_after_def add_barrier_def add_wait_cycles_def counts_after_def zero_counts_def)
  moreover have "tally (sw_stats sw' q) = tally (sw_stats sw q)" if "q \<noteq> p" for q
    using gs counts(1) sw'(4) that by (simp add: received_def)
  ultimately show ?thesis using gs start sw' act by (auto simp: moved_def received_def intro!: exI [of _ gs])
qed


section \<open>Calls\<close>

lemma foreign_session:
  "sessions_ok w \<Longrightarrow> w_active w = Some p \<Longrightarrow> q \<noteq> p \<Longrightarrow> w_session w q = zero_session"
  by (auto simp: sessions_ok_def dest!: spec [of _ q])

lemma quiet_world:
  assumes "w_active (g (sw_world sw)) = w_active (sw_world sw)" "hw_down (w_hw (g (sw_world sw))) = hw_down (w_hw (sw_world sw))"
    "hw_up (w_hw (g (sw_world sw))) = hw_up (w_hw (sw_world sw))"
  shows "moved p k ws fs gs sw0 sw \<Longrightarrow> moved p k ws fs gs sw0 (on_world g sw)"
  by (erule moved_quiet) (use assms in simp_all)

lemma quiet_upd_session: "moved p k ws fs gs sw0 sw \<Longrightarrow> moved p k ws fs gs sw0 (on_world (upd_session q g) sw)"
  by (rule quiet_world) (simp_all add: upd_session_def)

lemma reset_moved:
  assumes "rvrt_session_reset_model_counted (Some q) timeout env sw = Some (st, sw')"
    and "sessions_ok (sw_world sw)" "w_active (sw_world sw) = Some p"
  shows "\<exists>fs gs. moved p 0 [] fs gs sw sw'"
proof (cases "q = p")
  case False
  then have "sw' = sw" using assms(1) foreign_session [OF assms(2,3)]
    by (simp add: rvrt_session_reset_model_counted_def zero_session_def)
  then show ?thesis using moved_refl by blast
next
  case True
  with assms(1) consider "sw' = sw" | f st1 a b sw1 where
    "run_control_barrier_counted p f timeout False None None (Some discard_reset_frame) None env sw = Some (st1, a, b, sw1)"
    "sw' = sw1 \<or> sw' = on_world (upd_session p clear_sync_epoch) sw1"
    by (auto simp: rvrt_session_reset_model_counted_def Let_def split: option.splits if_splits prod.splits bind_splits)
  then show ?thesis
  proof cases
    case 2
    from barrier_moved [OF 2(1) assms(3)] obtain gs where "moved p 0 [] [f] gs sw sw1" by blast
    then show ?thesis using 2(2) quiet_upd_session by blast
  qed (use moved_refl in blast)
qed

abbreviation passed :: "session_status \<Rightarrow> nat" where
  "passed st \<equiv> if st = RVRT_SESSION_OK then 1 else 0"

lemma sync_impl_moved:
  assumes "sync_wait_payload_impl_counted (Some q) d timeout rxf rxc h ud env sw = Some (st, rxf', rxc', sw')"
    and "sessions_ok (sw_world sw)" "w_active (sw_world sw) = Some p"
  shows "\<exists>fs gs. moved p (passed st) [] fs gs sw sw'"
proof (cases "q = p")
  case False
  then have "sw' = sw" "st = RVRT_SESSION_RUNTIME_ERROR" using assms(1) foreign_session [OF assms(2,3)]
    by (simp_all add: sync_wait_payload_impl_counted_def zero_session_def)
  then show ?thesis using moved_refl by force
next
  case True
  with assms(1) consider "sw' = sw" "st \<noteq> RVRT_SESSION_OK" | f rxf1 rxc1 a b sw1 where
    "run_control_barrier_counted p f timeout True rxf1 rxc1 h ud env sw = Some (st, a, b, sw1)"
    "sw' = (if st = RVRT_SESSION_OK then upd_stats p (\<lambda>s. s\<lparr>st_sync_barriers := st_sync_barriers s + 1\<rparr>) sw1 else sw1)"
    by (auto simp: sync_wait_payload_impl_counted_def Let_def split: option.splits if_splits prod.splits bind_splits)
  then show ?thesis
  proof cases
    case 2
    from barrier_moved [OF 2(1) assms(3)] obtain gs where gs: "moved p 0 [] [f] gs sw sw1" by blast
    then have "moved p (passed st) [] [f] gs sw sw'"
      using 2(2) by (auto simp: moved_def tally_after_def tally_def)
    then show ?thesis by blast
  qed (use moved_refl in force)
qed

lemma until_moved:
  assumes "sync_wait_until_impl_counted (Some q) n timeout rxf rxc h ud env sw = Some (st, rxf', rxc', sw')"
    and "sessions_ok (sw_world sw)" "w_active (sw_world sw) = Some p"
  shows "\<exists>fs gs. moved p (passed st) [] fs gs sw sw'"
proof -
  from assms(1) consider "sw' = sw" "st \<noteq> RVRT_SESSION_OK" | d a b sw1 where
    "sync_wait_payload_impl_counted (Some q) d timeout rxf rxc h ud env sw = Some (st, a, b, sw1)"
    "sw' = (if st = RVRT_SESSION_OK then on_world (upd_session q (\<lambda>s. s\<lparr>se_sync_mode := RVRT_SESSION_SYNC_MODE_TIMELINE,
       se_completed_timesteps := n\<rparr>)) sw1 else sw1)"
    by (auto simp: sync_wait_until_impl_counted_def Let_def split: if_splits bind_splits)
  then show ?thesis
  proof cases
    case 2
    from sync_impl_moved [OF 2(1) assms(2,3)] obtain fs gs where "moved p (passed st) [] fs gs sw sw1" by blast
    then have "moved p (passed st) [] fs gs sw sw'" unfolding 2(2) by (cases "st = RVRT_SESSION_OK") (simp_all add: quiet_upd_session)
    then show ?thesis by blast
  qed (use moved_refl in force)
qed

lemma payload_moved:
  assumes "rvrt_session_sync_wait_payload_counted (Some q) d timeout rxf rxc env sw = Some (st, rxf', rxc', sw')"
    and "sessions_ok (sw_world sw)" "w_active (sw_world sw) = Some p"
  shows "\<exists>fs gs. moved p (passed st) [] fs gs sw sw'"
proof -
  from assms(1) consider "sw' = sw" "st \<noteq> RVRT_SESSION_OK" | a b sw1 where
    "sync_wait_payload_impl_counted (Some q) d timeout rxf rxc None None env sw = Some (st, a, b, sw1)"
    "sw' = (if st = RVRT_SESSION_OK
       then on_world (upd_session q (\<lambda>s. s\<lparr>se_sync_mode := RVRT_SESSION_SYNC_MODE_RAW_PAYLOAD\<rparr>)) sw1 else sw1)"
    by (auto simp: rvrt_session_sync_wait_payload_counted_def Let_def split: if_splits bind_splits)
  then show ?thesis
  proof cases
    case 2
    from sync_impl_moved [OF 2(1) assms(2,3)] obtain fs gs where "moved p (passed st) [] fs gs sw sw1" by blast
    then have "moved p (passed st) [] fs gs sw sw'" unfolding 2(2) by (cases "st = RVRT_SESSION_OK") (simp_all add: quiet_upd_session)
    then show ?thesis by blast
  qed (use moved_refl in force)
qed

lemma send_frames_loop_short: "length fs < n \<Longrightarrow> send_frames_loop fs n hw = None"
  by (induction fs n hw rule: send_frames_loop.induct) auto

lemma send_frames_moved:
  assumes "rvrt_session_send_frames_counted (Some q) fs n sw = Some (st, sw')"
    and "sessions_ok (sw_world sw)" "w_active (sw_world sw) = Some p"
  shows "\<exists>fs. moved p 0 [] fs [] sw sw'"
proof (cases "sw' = sw")
  case True
  then show ?thesis using moved_refl by blast
next
  case False
  with assms foreign_session [OF assms(2,3), of q] have q: "q = p"
    by (cases "q = p") (auto simp: rvrt_session_send_frames_counted_def zero_session_def split: if_splits)
  let ?fs = "case fs of None \<Rightarrow> [] | Some fs \<Rightarrow> fs" and ?hw = "noc_irq_disable (w_hw (sw_world sw))"
  from assms(1) q False obtain hw where
    hw: "send_frames_loop ?fs (unat n) ?hw = Some hw"
    and sw': "sw' = upd_stats p (\<lambda>s. s\<lparr>st_sent_frames := st_sent_frames s + n\<rparr>)
      (on_world (\<lambda>w. w\<lparr>w_hw := (if noc_irq_is_enabled (w_hw (sw_world sw)) then noc_irq_enable hw else hw)\<rparr>) sw)"
    by (auto simp: rvrt_session_send_frames_counted_def Let_def split: if_splits option.splits)
  have n: "unat n \<le> length ?fs" using hw send_frames_loop_short [of ?fs "unat n" ?hw]
    by (cases "length ?fs < unat n") auto
  then have "hw = ?hw\<lparr>hw_down := hw_down ?hw @ concat (map frame_words (take (unat n) ?fs))\<rparr>"
    using hw by (simp add: send_frames_loop_eq)
  then have "moved p 0 [] (take (unat n) ?fs) [] sw sw'"
    using n by (simp add: moved_def sw' noc_irq_defs tally_def tally_after_def min_absorb2)
  then show ?thesis by blast
qed


lemma load_loop_moved:
  assumes "config_frames (Some a) = Inr config" "cf_words config = Some words"
  shows "unat i + n \<le> unat (vsize words div 2 :: u32) \<Longrightarrow> load_config_loop (Some a) i n hw = Some (st, hw') \<Longrightarrow>
    if cf_word_order config = WordOrder_HIGH_FIRST \<or> cf_word_order config = WordOrder_LOW_FIRST
    then st = RVRT_ARTIFACT_OK \<and> (\<exists>fs. length fs = n \<and> hw' = hw\<lparr>hw_down := hw_down hw @ concat (map frame_words fs)\<rparr>)
    else hw' = hw \<and> (n \<noteq> 0 \<longrightarrow> st \<noteq> RVRT_ARTIFACT_OK)"
proof (induction n arbitrary: i hw)
  case 0
  then show ?case by simp
next
  case (Suc n)
  have i: "i < vsize words div 2" using Suc.prems(1) by (simp add: word_less_nat_alt)
  show ?case
  proof (cases "cf_word_order config = WordOrder_HIGH_FIRST \<or> cf_word_order config = WordOrder_LOW_FIRST")
    case False
    with Suc.prems(2) i assms show ?thesis
      by (auto simp: rvrt_artifact_config_frame_words_def Let_def split: option.splits if_splits bind_splits)
  next
    case True
    with Suc.prems(2) i assms obtain h l where
      step: "load_config_loop (Some a) (i + 1) n (noc_fifo_write_frame_words_unlocked h l hw) = Some (st, hw')"
      by (auto simp: rvrt_artifact_config_frame_words_def Let_def not_le split: option.splits if_splits bind_splits)
    have "unat (i + 1) + n \<le> unat (vsize words div 2 :: u32)" using Suc.prems(1) unat_Suc_word [OF i] by simp
    from Suc.IH [OF this step] True obtain fs where "st = RVRT_ARTIFACT_OK" "length fs = n"
      "hw' = hw\<lparr>hw_down := hw_down hw @ concat (map frame_words (\<lparr>fr_high = h, fr_low = l\<rparr> # fs))\<rparr>"
      by (auto simp: noc_write_unlocked_eq frame_words_def)
    then show ?thesis using True by (auto intro!: exI [of _ "\<lparr>fr_high = h, fr_low = l\<rparr> # fs"])
  qed
qed


lemma load_moved:
  assumes "rvrt_session_load_config_counted (Some q) x y sw = Some (st, sw')"
    and "sessions_ok (sw_world sw)" "w_active (sw_world sw) = Some p"
  shows "\<exists>fs. moved p 0 [] fs [] sw sw'"
proof (cases "sw' = sw")
  case True
  then show ?thesis using moved_refl by blast
next
  case False
  with assms foreign_session [OF assms(2,3), of q] have q: "q = p"
    by (cases "q = p") (auto simp: rvrt_session_load_config_counted_def zero_session_def)
  let ?hw = "noc_irq_disable (w_hw (sw_world sw))"
  let ?n = "\<lambda>words. vsize words div 2 :: u32"
  let ?sent = "\<lambda>hw. on_world (\<lambda>w. w\<lparr>w_hw := (if noc_irq_is_enabled (w_hw (sw_world sw)) then noc_irq_enable hw else hw)\<rparr>) sw"
  let ?add = "\<lambda>n s. s\<lparr>st_sent_frames := st_sent_frames s + n, st_config_frames := st_config_frames s + n,
            st_config_submit_cycles := st_config_submit_cycles s + (y - x)\<rparr>"
  from assms(1) q False obtain addr a count where
    a: "se_artifact (session_of sw p) = Some (addr, a)"
      "rvrt_artifact_config_word_count (Some a) (Some 0) = (RVRT_ARTIFACT_OK, count)" "the count mod 2 = 0" "the count \<noteq> 0"
    by (auto simp: rvrt_session_load_config_counted_def Let_def split: if_splits option.splits prod.splits)
  then obtain config words where
    c: "config_frames (Some a) = Inr config" "cf_words config = Some words" "count = Some (vsize words)"
    by (auto simp: rvrt_artifact_config_word_count_def config_words_def split: sum.splits option.splits)
  from assms(1) q False a c obtain hw lst where
    run: "load_config_loop (Some a) 0 (unat (?n words)) ?hw = Some (lst, hw)"
    and sw': "sw' = (if lst \<noteq> RVRT_ARTIFACT_OK then ?sent hw else upd_stats p (?add (?n words)) (?sent hw))"
    by (auto simp: rvrt_session_load_config_counted_def Let_def split: if_splits option.splits prod.splits)
  have n0: "?n words \<noteq> 0"
  proof
    assume "?n words = 0"
    then have "unat (vsize words :: u32) div 2 = 0" by (simp add: word_unat_eq_iff unat_div)
    moreover have "unat (vsize words :: u32) mod 2 = 0" using a(3) c(3) by (simp add: word_unat_eq_iff unat_mod)
    ultimately have "unat (vsize words :: u32) = 0" by presburger
    then show False using a(4) c(3) by (simp add: word_unat_eq_iff)
  qed
  note loop = load_loop_moved [OF c(1,2) _ run, simplified]
  show ?thesis
  proof (cases "cf_word_order config = WordOrder_HIGH_FIRST \<or> cf_word_order config = WordOrder_LOW_FIRST")
    case True
    with loop obtain fs where "lst = RVRT_ARTIFACT_OK" "length fs = unat (?n words)"
      "hw = ?hw\<lparr>hw_down := hw_down ?hw @ concat (map frame_words fs)\<rparr>" by auto
    then have "moved p 0 [] fs [] sw sw'"
      by (simp add: moved_def sw' noc_irq_defs tally_def tally_after_def)
    then show ?thesis by blast
  next
    case False
    with loop n0 have "lst \<noteq> RVRT_ARTIFACT_OK" "hw = ?hw" by (auto simp: unat_eq_0)
    then have "moved p 0 [] [] [] sw sw'"
      by (auto simp: moved_def sw' noc_irq_defs tally_def tally_after_def Let_def)
    then show ?thesis by blast
  qed
qed


lemma quiet_stats:
  assumes "moved p k ws fs gs sw0 sw" "\<And>s. tally (g s) = tally s"
  shows "moved p k ws fs gs sw0 (upd_stats q g sw)"
  by (rule moved_quiet [OF assms(1)]) (simp_all add: assms(2))

lemma perform_counted_ok:
  assumes "perform_counted c sw = Some (st, sw')" "sessions_ok (sw_world sw)"
  shows "sessions_ok (sw_world sw')"
proof -
  have "perform (plain_call c) (sw_world sw) = Some (st, sw_world sw')" using perform_erase [of c sw] assms(1) by simp
  from perform_ok [OF assms(2) this] show ?thesis .
qed

text \<open>Every chunk encodes, sends and counts; the cycles do not matter.\<close>

lemma send_loop_moved:
  "send_input_loop_counted cks q v c input n ws cap sw = Some (st, ws', sw') \<Longrightarrow> sessions_ok (sw_world sw) \<Longrightarrow>
   w_active (sw_world sw) = Some p \<Longrightarrow> \<exists>fs. moved p 0 [] fs [] sw sw'"
proof (induction cks arbitrary: c ws sw)
  case (Cons ck cks)
  let ?enc = "\<lambda>s. s\<lparr>st_input_encode_cycles := st_input_encode_cycles s + (ck_encode_end ck - ck_encode_start ck)\<rparr>"
  let ?sub = "\<lambda>s. s\<lparr>st_input_submit_cycles := st_input_submit_cycles s + (ck_submit_end ck - ck_submit_start ck)\<rparr>"
  let ?sw = "upd_stats q ?enc sw"
  have enc: "moved p 0 [] [] [] sw ?sw" by (rule quiet_stats [OF moved_refl]) (simp add: tally_def)
  from Cons.prems(1) obtain cst c' w' count where
    chunk: "rvrt_encode_input_chunk (Some v) (Some c) (Some input) n (Some ws) cap (Some 0) = Some (cst, c', w', count)"
    by (auto split: option.splits)
  let ?inp = "\<lambda>s. s\<lparr>st_input_frames := st_input_frames s + the count\<rparr>"
  show ?case
  proof (cases "sw' = ?sw")
    case True
    then show ?thesis using enc by blast
  next
    case False
    with Cons.prems(1) chunk obtain sst sw1 where
      send: "rvrt_session_send_frames_counted (Some q) w' (the count) ?sw = Some (sst, sw1)"
      by (auto simp: Let_def split: if_splits option.splits)
    let ?sw2 = "if sst = RVRT_SESSION_OK then upd_stats q ?inp (upd_stats q ?sub sw1) else upd_stats q ?sub sw1"
    have ok: "sessions_ok (sw_world ?sw2)"
      using perform_counted_ok [of "Counted_Send_Frames (Some q) w' (the count)" ?sw sst sw1] send Cons.prems(2) by simp
    from send_frames_moved [OF send] Cons.prems(2,3) obtain fs where "moved p 0 [] fs [] ?sw sw1" by auto
    from moved_trans [OF enc this] have "moved p 0 [] fs [] sw (upd_stats q ?sub sw1)"
      by (intro quiet_stats) (simp_all add: tally_def)
    then have m: "moved p 0 [] fs [] sw ?sw2" by (auto intro!: quiet_stats simp: tally_def)
    then have act: "w_active (sw_world ?sw2) = Some p" using Cons.prems(3) by (simp add: moved_def)
    from Cons.prems(1) chunk send False consider "sw' = ?sw2"
      | "send_input_loop_counted cks q v (the c') input n (the w') cap ?sw2 = Some (st, ws', sw')"
      by (auto simp: Let_def split: if_splits)
    then show ?thesis
    proof cases
      case 2
      from Cons.IH [OF 2 ok act] obtain hs where "moved p 0 [] hs [] ?sw2 sw'" by blast
      from moved_trans [OF m this] show ?thesis by auto
    qed (use m in blast)
  qed
qed simp

lemma send_input_moved:
  assumes "rvrt_session_send_input_timestep_counted cks q v ts input n ws cap sw = Some (st, ws', sw')"
    and "sessions_ok (sw_world sw)" "w_active (sw_world sw) = Some p"
  shows "\<exists>fs. moved p 0 [] fs [] sw sw'"
proof (cases "sw' = sw")
  case True
  then show ?thesis using moved_refl by blast
next
  case False
  with assms(1) obtain q' m c i frames ws1 where "send_input_loop_counted cks q' m c i n frames cap sw = Some (st, ws1, sw')"
    by (auto simp: rvrt_session_send_input_timestep_counted_def Let_def split: option.splits if_splits bind_splits)
  from send_loop_moved [OF this assms(2,3)] show ?thesis .
qed

fun is_sync :: "('u, 'm) counted_call \<Rightarrow> bool" where
  "is_sync (Counted_Sync_Payload p d timeout rxf rxc env) = True"
| "is_sync (Counted_Sync_Until p n timeout rxf rxc env) = True"
| "is_sync (Counted_Sync_Handler p n timeout h ud env) = True"
| "is_sync _ = False"

fun chip_words :: "('u, 'm) counted_call \<Rightarrow> u32 list" where
  "chip_words (Counted_Chip_Sends ws) = ws"
| "chip_words _ = []"

definition synced :: "('u, 'm) counted_call \<Rightarrow> session_status \<Rightarrow> nat" where
  "synced c st = (if is_sync c \<and> st = RVRT_SESSION_OK then 1 else 0)"

lemma stray_moved:
  assumes "irq_point_counted irq a b sw = Some sw'" "sessions_ok (sw_world sw)" "w_active (sw_world sw) = Some p"
  shows "moved p 0 [] [] [] sw sw'"
proof -
  have "sw' = sw \<or> sw' = on_world (upd_hw noc_irq_disable) (on_world (upd_hw noc_irq_ack) sw)"
    using assms(1,3) no_open_barrier [OF assms(2), of p]
    by (auto simp: irq_point_counted_def paicore_noc_handler_counted_def Let_def upd_hw_def split: if_splits)
  then show ?thesis using moved_refl by (auto simp: upd_defs noc_irq_defs intro!: quiet_world)
qed

lemma perform_moved:
  assumes run: "perform_counted c sw = Some (st, sw')" and ok: "sessions_ok (sw_world sw)" "w_active (sw_world sw) = Some p"
    and c: "c \<noteq> Counted_Deinit (Some p)"
  shows "\<exists>fs gs. moved p (synced c st) (chip_words c) fs gs sw sw'"
proof -
  have same: ?thesis if "sw' = sw" "synced c st = 0" "chip_words c = []" using that moved_refl by metis
  show ?thesis
  proof (cases c)
    case (Counted_Init r q cfg)
    then show ?thesis using same run ok(2)
      by (auto simp: rvrt_session_init_counted_def synced_def split: option.splits if_splits)
  next
    case (Counted_Deinit q)
    then show ?thesis using same run ok(2) c
      by (auto simp: rvrt_session_deinit_counted_def synced_def split: option.splits)
  next
    case (Counted_Load_Config q x y)
    then show ?thesis using same run load_moved [OF _ ok]
      by (cases q) (fastforce simp: rvrt_session_load_config_counted_def synced_def)+
  next
    case (Counted_Send_Frames q fs n)
    then show ?thesis using same run send_frames_moved [OF _ ok]
      by (cases q) (fastforce simp: rvrt_session_send_frames_counted_def synced_def)+
  next
    case (Counted_Send_Input cks q v ts input n ws cap)
    then show ?thesis using run send_input_moved [OF _ ok] by (fastforce simp: synced_def)
  next
    case (Counted_Reset_Model q timeout env)
    then show ?thesis using same run reset_moved [OF _ ok]
      by (cases q) (fastforce simp: rvrt_session_reset_model_counted_def synced_def)+
  next
    case (Counted_Sync_Payload q d timeout rxf rxc env)
    then show ?thesis using same run payload_moved [OF _ ok]
      by (cases q) (fastforce simp: rvrt_session_sync_wait_payload_counted_def synced_def)+
  next
    case (Counted_Sync_Until q n timeout rxf rxc env)
    then show ?thesis using same run until_moved [OF _ ok]
      by (cases q) (fastforce simp: rvrt_session_sync_wait_until_counted_def sync_wait_until_impl_counted_def [of None] synced_def)+
  next
    case (Counted_Sync_Handler q n timeout h ud env)
    then show ?thesis using same run until_moved [OF _ ok]
      by (cases q; cases h) (fastforce simp: rvrt_session_sync_wait_until_with_rx_handler_counted_def
        sync_wait_until_impl_counted_def [of None] synced_def split: bind_splits)+
  next
    case (Counted_Stray_Interrupt a b)
    then show ?thesis using run stray_moved [OF _ ok] by (fastforce simp: synced_def)
  next
    case (Counted_Chip_Sends ws)
    then have "moved p 0 ws [] [] sw sw'" using run by (auto simp: moved_def tally_def tally_after_def)
    then show ?thesis using Counted_Chip_Sends by (auto simp: synced_def)
  qed
qed

text \<open>A program that does not end the session of \<open>p\<close>.\<close>

lemma run_moved:
  "run_counted cs sw = Some (sts, sw') \<Longrightarrow> sessions_ok (sw_world sw) \<Longrightarrow> w_active (sw_world sw) = Some p \<Longrightarrow>
   Counted_Deinit (Some p) \<notin> set cs \<Longrightarrow>
   sessions_ok (sw_world sw') \<and>
   (\<exists>fs gs. moved p (sum_list (map2 synced cs sts)) (concat (map chip_words cs)) fs gs sw sw')"
proof (induction cs arbitrary: sw sts)
  case Nil
  then show ?case using moved_refl by auto
next
  case (Cons c cs)
  from Cons.prems(1) obtain st sts' sw1 where
    step: "perform_counted c sw = Some (st, sw1)" "run_counted cs sw1 = Some (sts', sw')" "sts = st # sts'"
    by (auto split: bind_splits)
  note ok1 = perform_counted_ok [OF step(1) Cons.prems(2)]
  from perform_moved [OF step(1) Cons.prems(2,3)] Cons.prems(4) obtain fs gs where
    m: "moved p (synced c st) (chip_words c) fs gs sw sw1" by auto
  then have act: "w_active (sw_world sw1) = Some p" using Cons.prems(3) by (simp add: moved_def)
  from Cons.IH [OF step(2) ok1 act] Cons.prems(4) obtain hs ks where
    rest: "sessions_ok (sw_world sw')" "moved p (sum_list (map2 synced cs sts')) (concat (map chip_words cs)) hs ks sw1 sw'"
    by auto
  from moved_trans [OF m rest(2)] show ?case using rest(1) step(3) by auto
qed

text \<open>The session as it is when \<open>rvrt_session_init\<close> has claimed the chip.\<close>

lemma init_counted:
  assumes "rvrt_session_init_counted r (Some p) cfg sw = (RVRT_SESSION_OK, sw')" "sessions_ok (sw_world sw)"
  shows "sessions_ok (sw_world sw')" "w_active (sw_world sw') = Some p"
    "sw_stats sw' p = zero_stats\<lparr>st_enabled := True\<rparr>"
proof -
  show "sessions_ok (sw_world sw')"
    using perform_counted_ok [of "Counted_Init r (Some p) cfg" sw RVRT_SESSION_OK sw'] assms by simp
  show "w_active (sw_world sw') = Some p" "sw_stats sw' p = zero_stats\<lparr>st_enabled := True\<rparr>"
    using assms(1)
    by (auto simp: rvrt_session_init_counted_def Let_def register_irq_def upd_hw_def clear_rx_barrier_counted_def
        clear_session_def upd_session_def upd_barrier_def split: option.splits if_splits prod.splits)
qed



section \<open>The promises of the statistics\<close>

text \<open>C12.  Statistics are observational: a program that runs on the build with statistics gets the same
  statuses, leaves the same sessions, buffers, memory and hardware, and is undefined exactly when it is
  on the default build, and every operation hands the same results to its caller; only the snapshot
  of the counters differs.\<close>

theorem stats_are_observational:
  "map_option (\<lambda>(sts, sw). (sts, sw_world sw)) (run_counted cs sw) = run_plain (map plain_call cs) (sw_world sw) \<and>
   map_option (\<lambda>(st, ws, sw). (st, ws, sw_world sw))
       (rvrt_session_send_input_timestep_counted cks p v ts input n ws cap sw) =
     rvrt_session_send_input_timestep (length cks) p v ts input n ws cap (sw_world sw) \<and>
   map_option (\<lambda>(st, rxf, rxc, sw). (st, rxf, rxc, sw_world sw))
       (rvrt_session_sync_wait_payload_counted p d timeout rxf rxc env sw) =
     rvrt_session_sync_wait_payload p d timeout rxf rxc (plain_env env) (sw_world sw) \<and>
   map_option (\<lambda>(st, rxf, rxc, sw). (st, rxf, rxc, sw_world sw))
       (rvrt_session_sync_wait_until_counted p d timeout rxf rxc env sw) =
     rvrt_session_sync_wait_until p d timeout rxf rxc (plain_env env) (sw_world sw)"
  by (simp add: run_erase send_input_erase sync_payload_erase until_impl_erase
      rvrt_session_sync_wait_until_counted_def rvrt_session_sync_wait_until_def)

text \<open>C13.  From the initialisation that claims the chip on, whatever calls follow short of the end of the
  session, with stray interrupts, timeouts and other sessions in between, the statistics count the
  traffic of the NoC modulo \<open>2 ^ 32\<close>: the frames sent are those in the downlink, the frames received are
  those taken from the uplink, of which the work and completion counters count theirs, and
  the synchronization barriers are the calls that returned OK.\<close>

theorem stats_count_traffic:
  assumes "session_reachable (sw_world sw0)"
    and "rvrt_session_init_counted r (Some p) cfg sw0 = (RVRT_SESSION_OK, sw1)"
    and "run_counted cs sw1 = Some (sts, sw)" "Counted_Deinit (Some p) \<notin> set cs"
  shows "\<exists>fs gs s. rvrt_session_get_stats_counted (Some p) (Some zero_stats) sw = (RVRT_SESSION_OK, Some s) \<and>
     st_enabled s \<and>
     hw_down (w_hw (sw_world sw)) = hw_down (w_hw (sw_world sw1)) @ concat (map frame_words fs) \<and>
     hw_up (w_hw (sw_world sw1)) @ concat (map chip_words cs) = up_words gs @ hw_up (w_hw (sw_world sw)) \<and>
     st_sent_frames s = of_nat (length fs) \<and> st_rx_frames s = of_nat (length gs) \<and>
     st_output_work_frames s = of_nat (length (work_frames gs)) \<and>
     st_complete_frames s = of_nat (length (complete_frames gs)) \<and>
     st_sync_barriers s = of_nat (sum_list (map2 synced cs sts))"
proof -
  note init = init_counted [OF assms(2) reachable_ok [OF assms(1)]]
  from run_moved [OF assms(3) init(1,2) assms(4)] obtain fs gs where
    ok: "sessions_ok (sw_world sw)"
    and m: "moved p (sum_list (map2 synced cs sts)) (concat (map chip_words cs)) fs gs sw1 sw" by blast
  have "w_active (sw_world sw) = Some p" using m init(2) by (simp add: moved_def)
  then have "se_artifact (session_of sw p) \<noteq> None" using ok by (auto simp: sessions_ok_def live_def dest!: spec [of _ p])
  then have "rvrt_session_get_stats_counted (Some p) (Some zero_stats) sw = (RVRT_SESSION_OK, Some (sw_stats sw p))"
    by (simp add: rvrt_session_get_stats_counted_def)
  with m init(3) show ?thesis
    by (intro exI [of _ fs] exI [of _ gs] exI [of _ "sw_stats sw p"])
      (simp add: moved_def tally_def tally_after_def zero_stats_def)
qed

text \<open>A chip that has answered a work frame and a completion before the sync is sent.\<close>

definition demo_stats_boot :: "(unit, unit) stats_world" where
  "demo_stats_boot = \<lparr>sw_world = (demo_world (up_words [demo_work, demo_complete] @ [9, 9]))\<lparr>w_active := None,
     w_session := (\<lambda>_. zero_session)\<rparr>, sw_stats = (\<lambda>_. zero_stats), sw_counts = (\<lambda>_. zero_counts)\<rparr>"

definition demo_stats_poll :: "bool \<Rightarrow> stats_poll" where
  "demo_stats_poll irq = \<lparr>wp_irq = irq, wp_cycle = 9, wp_irq_late = False, sp_irq_start = 10, sp_irq_end = 15,
     sp_late_start = 0, sp_late_end = 0\<rparr>"

definition demo_stats_env :: stats_env where
  "demo_stats_env = \<lparr>sn_start = 0, sn_polls = [demo_stats_poll False, demo_stats_poll True], sn_end = 20\<rparr>"

lemma demo_stats_init:
  "\<exists>sw1. rvrt_session_init_counted 0 (Some 0) (Some demo_config) demo_stats_boot = (RVRT_SESSION_OK, sw1) \<and>
     ready 0 0 0 demo_artifact (sw_world sw1) \<and> se_rx_capacity (session_of sw1 0) = 4 \<and>
     se_sync_mode (session_of sw1 0) = RVRT_SESSION_SYNC_MODE_UNSET \<and> se_thread_index (session_of sw1 0) = 0 \<and>
     answers 2 (plain_env demo_stats_env) (sw_world sw1) [demo_work] demo_complete [9, 9]"
proof -
  have "fst (rvrt_artifact_thread_runtime (Some demo_artifact) 0 (Some zero_runtime)) = RVRT_ARTIFACT_OK"
    by (simp add: rvrt_artifact_thread_runtime_def thread_at_def vector_at_def demo_defs)
  moreover have env: "interrupted_env 2 (plain_env demo_stats_env) w" if "w_clock w = 16000000" for w :: "(unit, unit) world"
    unfolding interrupted_env_def
    by (rule exI [of _ "[wait_poll.truncate (demo_stats_poll False)]"], rule exI [of _ "wait_poll.truncate (demo_stats_poll True)"])
      (simp add: plain_env_def demo_stats_env_def demo_stats_poll_def wait_limit_def that)
  ultimately show ?thesis
    by (simp add: rvrt_session_init_counted_def register_irq_def demo_stats_boot_def demo_config_def demo_world_def Let_def
        upd_defs zero_session_def zero_barrier_def clear_sync_epoch_def clear_rx_barrier_def clear_rx_barrier_counted_def
        clear_session_def ready_def enable_irq_def noc_irq_defs answers_def demo_work_def demo_complete_def
        rvrt_frame_is_complete_def)
qed

theorem stats_count_traffic_witness:
  "\<exists>(sw1 :: (unit, unit) stats_world) env sw s.
     rvrt_session_init_counted 0 (Some 0) (Some demo_config) demo_stats_boot = (RVRT_SESSION_OK, sw1) \<and>
     run_counted [Counted_Sync_Payload (Some 0) 3 2 (Some None) (Some 0) env] sw1 = Some ([RVRT_SESSION_OK], sw) \<and>
     rvrt_session_get_stats_counted (Some 0) (Some zero_stats) sw = (RVRT_SESSION_OK, Some s) \<and> st_rx_frames s = 2"
proof -
  obtain sw1 :: "(unit, unit) stats_world" where
    init: "rvrt_session_init_counted 0 (Some 0) (Some demo_config) demo_stats_boot = (RVRT_SESSION_OK, sw1)"
    and w1: "ready 0 0 0 demo_artifact (sw_world sw1)" "se_rx_capacity (session_of sw1 0) = 4"
      "se_sync_mode (session_of sw1 0) = RVRT_SESSION_SYNC_MODE_UNSET" "se_thread_index (session_of sw1 0) = 0"
      "answers 2 (plain_env demo_stats_env) (sw_world sw1) [demo_work] demo_complete [9, 9]"
    using demo_stats_init by blast
  obtain f where "rvrt_build_sync_payload_frame (Some demo_artifact) (se_thread_index (session_of sw1 0)) 3 (Some zero_frame) =
      (RVRT_CODEC_STATUS_OK, Some f)" using demo_sync_frame [of 3] w1(4) by auto
  with sync_payload_collects [OF w1(1,5) _ _ this, of None 0] w1(2,3) obtain a b w2 where
    w2: "rvrt_session_sync_wait_payload (Some 0) 3 2 (Some None) (Some 0) (plain_env demo_stats_env) (sw_world sw1) =
      Some (RVRT_SESSION_OK, a, b, w2)" "hw_up (w_hw w2) = [9, 9]" by auto
  let ?cs = "[Counted_Sync_Payload (Some 0) 3 2 (Some None) (Some 0) demo_stats_env]"
  from w2(1) obtain sw where run: "run_counted ?cs sw1 = Some ([RVRT_SESSION_OK], sw)" "sw_world sw = w2"
    using sync_payload_erase [of "Some 0" 3 2 "Some None" "Some 0" demo_stats_env sw1] by auto
  have "session_reachable (sw_world demo_stats_boot)" by (rule boot) (simp_all add: demo_stats_boot_def)
  from stats_count_traffic [OF this init run(1)] obtain fs gs s where
    s: "rvrt_session_get_stats_counted (Some 0) (Some zero_stats) sw = (RVRT_SESSION_OK, Some s)"
      "hw_up (w_hw (sw_world sw1)) = up_words gs @ [9, 9]" "st_rx_frames s = of_nat (length gs)"
    using run(2) w2(2) by auto
  have "hw_up (w_hw (sw_world sw1)) = up_words [demo_work, demo_complete] @ [9, 9]" using w1(5) by (simp add: answers_def)
  then have "up_words gs = up_words [demo_work, demo_complete]" using s(2) by simp
  moreover have "length (up_words gs) = 2 * length gs" by (induction gs) simp_all
  ultimately have "length gs = 2" by simp
  with init run(1) s show ?thesis by force
qed

end
