(* ===== verification/RunnerTiming_Laws.thy ===== *)
theory RunnerTiming_Laws
  imports RunnerTiming SessionStats_Count Runner_Run
begin

text \<open>What the timing of a sample promises: the sample itself does not change, and the caller's array gets one
  measurement per synchronization, in order, and is never written past its end.\<close>

section \<open>The whole call\<close>

definition timing_too_short :: "paicore_runner \<Rightarrow> sample_timing option \<Rightarrow> bool" where
  "timing_too_short r timing \<longleftrightarrow> (case timing of None \<Rightarrow> False
     | Some t \<Rightarrow> tm_sync_round_trip_cycles t = None \<or> tm_sync_round_trip_capacity t < sync_count r)"

definition timing_started :: "sample_timing option \<Rightarrow> sample_timing option" where
  "timing_started timing = map_option (\<lambda>t. t\<lparr>tm_init_round_trip_cycles := 0, tm_sync_round_trip_count := 0\<rparr>) timing"

text \<open>The array of the caller is as long as it says.\<close>

definition storage_ok :: "sample_timing option \<Rightarrow> bool" where
  "storage_ok timing \<longleftrightarrow> (case timing of None \<Rightarrow> True
     | Some t \<Rightarrow> (case tm_sync_round_trip_cycles t of None \<Rightarrow> True
         | Some l \<Rightarrow> unat (tm_sync_round_trip_capacity t) \<le> length l))"

definition stored_cycles :: "sample_timing option \<Rightarrow> u64 list" where
  "stored_cycles timing = (case timing of None \<Rightarrow> [] | Some t \<Rightarrow> the (tm_sync_round_trip_cycles t))"

lemma started_timed:
  assumes "\<not> timing_too_short r timing" "storage_ok timing"
  shows "timed env (stored_cycles timing) 0 (timing_started timing)"
    "room (stored_cycles timing) (unat (sync_count r)) (timing_started timing)"
  using assms unat_lt_2_32 [of "sync_count r"]
  by (auto simp: timing_too_short_def storage_ok_def timed_def room_def timing_started_def stored_cycles_def
      word_less_nat_alt split: option.splits)

text \<open>A sample that was not refused is the reset of the timing, then a refusal or the body: the plan that the
  timed and the plain sample share.\<close>

definition sample_plan ::
    "paicore_runner \<Rightarrow> u32 \<Rightarrow> u32 \<Rightarrow> u32 \<Rightarrow> u32 \<Rightarrow> u32 \<Rightarrow> u32 \<Rightarrow> rworld \<Rightarrow> (session_status + rworld) option" where
  "sample_plan r inp incap is out outcap os w =
     (let T = rt_timesteps (rn_runtime r);
          (fits, required) = voltage_state_capacity T (ov_element_count (rn_output_view r)) (Some 0) in
      if \<not> sample_region_fits incap (rn_input_row_bytes r) is T \<or> \<not> sample_region_fits outcap (rn_output_row_bytes r) os T
      then Some (Inl RVRT_SESSION_BUFFER_TOO_SMALL)
      else if sample_regions_overlap inp ((T - 1) * is + rn_input_row_bytes r) out ((T - 1) * os + rn_output_row_bytes r) \<and>
              (inp \<noteq> out \<or> is \<noteq> os)
      then Some (Inl RVRT_SESSION_RUNTIME_ERROR)
      else if ov_kind (rn_output_view r) = RVRT_OUTPUT_VOLTAGE then
        if out mod 4 \<noteq> 0 \<or> outcap mod 4 \<noteq> 0 \<or> os mod 4 \<noteq> 0 \<or> \<not> fits \<or> rn_voltage_state r = None \<or>
           rn_voltage_state_capacity r < the required
        then Some (Inl RVRT_SESSION_RUNTIME_ERROR)
        else map_option (\<lambda>st. Inr (w\<lparr>w_mem := (w_mem w)\<lparr>mm_state := (mm_state (w_mem w))(the (rn_voltage_state r) := st)\<rparr>\<rparr>))
          (zero_prefix (the required) (mm_state (w_mem w) (the (rn_voltage_state r))))
      else Some (Inr w))"

lemma sample_plan_refuses: "sample_plan r inp incap is out outcap os w = Some (Inl st) \<Longrightarrow> st \<noteq> RVRT_SESSION_OK"
  by (auto simp: sample_plan_def Let_def case_prod_unfold split: if_splits)

lemma plan_bind:
  "(if a then f (Inl x) else if b then f (Inl y) else if c then if d then f (Inl y) else Option.bind z (\<lambda>st. f (Inr (g st))) else f (Inr w)) =
   Option.bind (if a then Some (Inl x) else if b then Some (Inl y) else if c then
     if d then Some (Inl y) else map_option (\<lambda>st. Inr (g st)) z else Some (Inr w)) f"
  by (cases z) auto

abbreviation runnable :: "nat \<Rightarrow> paicore_runner \<Rightarrow> ('u, 'm) world \<Rightarrow> bool" where
  "runnable p r w \<equiv> runner_deployed p w \<and> iv_entries (rn_input_view r) \<noteq> None \<and> ov_entries (rn_output_view r) \<noteq> None \<and>
     rn_encode_frame_capacity r \<noteq> 0"

lemma plain_sample_plan:
  assumes "runnable p r w"
  shows "rvrt_paicore_runner_run_sample_profiled rounds env (Some (p, r)) (Some inp) incap istride (Some out) outcap ostride w =
    Option.bind (sample_plan r inp incap (stride_of istride (rn_input_row_bytes r)) out outcap
        (stride_of ostride (rn_output_row_bytes r)) w)
      (\<lambda>x. case x of Inl st \<Rightarrow> Some (st, w)
         | Inr w1 \<Rightarrow> runner_sample_body rounds env p r inp (stride_of istride (rn_input_row_bytes r)) out outcap
             (stride_of ostride (rn_output_row_bytes r)) w1)"
proof -
  from assms obtain es fs where "iv_entries (rn_input_view r) = Some es" "ov_entries (rn_output_view r) = Some fs" by auto
  then show ?thesis
    unfolding rvrt_paicore_runner_run_sample_profiled_def sample_plan_def Let_def case_prod_unfold stride_of_def [symmetric]
      plan_bind [symmetric]
    using assms by (simp cong: if_cong split del: if_split)
qed

lemma timed_sample_plan:
  assumes "runnable p r (sw_world sw)" "\<not> timing_too_short r timing"
  shows "rvrt_paicore_runner_run_sample_timed rounds env (Some (p, r)) (Some inp) incap istride (Some out) outcap ostride
      timing sw =
    Option.bind (sample_plan r inp incap (stride_of istride (rn_input_row_bytes r)) out outcap
        (stride_of ostride (rn_output_row_bytes r)) (sw_world sw))
      (\<lambda>x. case x of Inl st \<Rightarrow> Some (st, timing_started timing, sw)
         | Inr w1 \<Rightarrow> runner_sample_body_timed rounds env p r inp (stride_of istride (rn_input_row_bytes r)) out outcap
             (stride_of ostride (rn_output_row_bytes r)) (timing_started timing) (sw\<lparr>sw_world := w1\<rparr>))"
proof -
  from assms obtain es fs where "iv_entries (rn_input_view r) = Some es" "ov_entries (rn_output_view r) = Some fs" by auto
  then show ?thesis
    unfolding rvrt_paicore_runner_run_sample_timed_def sample_plan_def Let_def case_prod_unfold stride_of_def [symmetric]
      plan_bind [symmetric] timing_too_short_def [symmetric] timing_started_def [symmetric]
    using assms by (simp add: on_world_def cong: if_cong split del: if_split)
qed


text \<open>What a run that was not refused has stored.\<close>

definition stored :: "timing_env \<Rightarrow> paicore_runner \<Rightarrow> session_status \<Rightarrow> sample_timing option \<Rightarrow> sample_timing option \<Rightarrow> bool" where
  "stored env r st timing timing' \<longleftrightarrow>
     (case (timing, timing') of
        (None, None) \<Rightarrow> True
      | (Some t, Some t') \<Rightarrow>
          (\<exists>n \<le> unat (sync_count r). unat (tm_sync_round_trip_count t') = n \<and>
             tm_sync_round_trip_cycles t' =
               Some (map (sync_cycles env) [0..<n] @ drop n (the (tm_sync_round_trip_cycles t))) \<and>
             (st = RVRT_SESSION_OK \<longrightarrow> n = unat (sync_count r) \<and>
                tm_init_round_trip_cycles t' = te_reset_end env - te_reset_start env))
      | _ \<Rightarrow> False)"

lemma measured_stored:
  assumes "measured env (stored_cycles timing) (unat (sync_count r)) st (with_init env (timing_started timing)) timing'"
  shows "stored env r st timing timing'"
  using assms
  by (cases timing; cases timing')
    (auto simp: measured_def stored_def timed_def same_storage_def with_init_def timing_started_def stored_cycles_def)

lemma timed_sample_lemma:
  assumes "runnable p r (sw_world sw)" "\<not> timing_too_short r timing" "storage_ok timing"
  shows "map_option forget_mid (rvrt_paicore_runner_run_sample_timed rounds env (Some (p, r)) (Some inp) incap istride
       (Some out) outcap ostride timing sw) =
     rvrt_paicore_runner_run_sample_profiled rounds (plain_sample_env env) (Some (p, r)) (Some inp) incap istride
       (Some out) outcap ostride (sw_world sw) \<and>
    (\<forall>st timing' sw'. rvrt_paicore_runner_run_sample_timed rounds env (Some (p, r)) (Some inp) incap istride
       (Some out) outcap ostride timing sw = Some (st, timing', sw') \<longrightarrow> stored env r st timing timing')"
proof -
  let ?plan = "sample_plan r inp incap (stride_of istride (rn_input_row_bytes r)) out outcap
    (stride_of ostride (rn_output_row_bytes r)) (sw_world sw)"
  note start = started_timed [OF assms(2,3)]
  have refused: "stored env r st timing (timing_started timing)" if "st \<noteq> RVRT_SESSION_OK" for st
    using that assms(2)
    by (auto simp: stored_def timing_started_def timing_too_short_def split: option.split intro!: exI [of _ 0])
  show ?thesis
  proof (cases ?plan)
    case None
    then show ?thesis by (simp add: plain_sample_plan [OF assms(1)] timed_sample_plan [OF assms(1,2)])
  next
    case (Some x)
    show ?thesis
    proof (cases x)
      case (Inl st)
      with Some sample_plan_refuses have "st \<noteq> RVRT_SESSION_OK" by blast
      then show ?thesis using Some Inl refused
        by (simp add: plain_sample_plan [OF assms(1)] timed_sample_plan [OF assms(1,2)])
    next
      case (Inr w1)
      then show ?thesis
        using Some body_erase [OF start, where rounds = rounds and p = p and sw = "sw\<lparr>sw_world := w1\<rparr>" and input = inp and istride = "stride_of istride (rn_input_row_bytes r)" and out = out and outcap = outcap
          and ostride = "stride_of ostride (rn_output_row_bytes r)"] measured_stored
        by (auto simp: plain_sample_plan [OF assms(1)] timed_sample_plan [OF assms(1,2)])
    qed
  qed
qed

text \<open>C14.  A sample with timing is the sample without it: storage that is missing or shorter than the
  synchronizations of the sample is refused before anything changes; otherwise the status and the
  world are those of the default build, nothing is stored past the caller's array, and the array begins with
  the round trips of the synchronizations in order, all of them and the
  round trip of the reset when the sample succeeds.\<close>

theorem timed_sample_is_sample:
  assumes "runnable p r (sw_world sw)" "storage_ok timing"
  shows "if timing_too_short r timing
     then rvrt_paicore_runner_run_sample_timed rounds env (Some (p, r)) (Some inp) incap istride (Some out) outcap ostride
       timing sw = Some (RVRT_SESSION_BUFFER_TOO_SMALL, timing, sw)
     else map_option (\<lambda>(st, _, sw). (st, sw_world sw)) (rvrt_paicore_runner_run_sample_timed rounds env (Some (p, r))
         (Some inp) incap istride (Some out) outcap ostride timing sw) =
       rvrt_paicore_runner_run_sample_profiled rounds (plain_sample_env env) (Some (p, r)) (Some inp) incap istride
         (Some out) outcap ostride (sw_world sw) \<and>
      (\<forall>st timing' sw'. rvrt_paicore_runner_run_sample_timed rounds env (Some (p, r)) (Some inp) incap istride
         (Some out) outcap ostride timing sw = Some (st, timing', sw') \<longrightarrow> stored env r st timing timing')"
proof (cases "timing_too_short r timing")
  case True
  then show ?thesis
    using assms(1) unfolding rvrt_paicore_runner_run_sample_timed_def timing_too_short_def by simp
next
  case False
  with timed_sample_lemma [OF assms(1) False assms(2)] show ?thesis by simp
qed

definition demo_timing_env :: timing_env where
  "demo_timing_env = \<lparr>te_reset = demo_stats_env, te_sync = (\<lambda>_. demo_stats_env),
     te_chunk = (\<lambda>_ _. \<lparr>ck_encode_start = 0, ck_encode_end = 1, ck_submit_start = 1, ck_submit_end = 2\<rparr>),
     te_reset_start = 0, te_reset_end = 30, te_sync_start = (\<lambda>_. 40), te_sync_end = (\<lambda>k. 50 + of_nat k)\<rparr>"

definition demo_timing :: sample_timing where
  "demo_timing = \<lparr>tm_init_round_trip_cycles = 7, tm_sync_round_trip_cycles = Some [1, 2, 3],
     tm_sync_round_trip_capacity = 3, tm_sync_round_trip_count = 9\<rparr>"

definition demo_stats_rworld :: rstats_world where
  "demo_stats_rworld = \<lparr>sw_world = demo_rworld, sw_stats = (\<lambda>_. zero_stats), sw_counts = (\<lambda>_. zero_counts)\<rparr>"

lemma demo_timing_prompt: "env_prompt 16000000 2 (plain_sample_env demo_timing_env)"
proof -
  have "env_ok 16000000 2 (plain_env demo_stats_env)"
    unfolding env_ok_def
    by (rule exI [of _ "[wait_poll.truncate (demo_stats_poll False)]"], rule exI [of _ "wait_poll.truncate (demo_stats_poll True)"])
      (simp add: plain_env_def demo_stats_env_def demo_stats_poll_def)
  then show ?thesis by (simp add: env_prompt_def plain_sample_env_def demo_timing_env_def)
qed

theorem timed_sample_is_sample_witness:
  "\<exists>st timing' sw'. rvrt_paicore_runner_run_sample_timed 5 demo_timing_env (Some (0, demo_runner)) (Some 0) 4 0 (Some 4) 4 0
     (Some demo_timing) demo_stats_rworld = Some (st, timing', sw') \<and>
   stored demo_timing_env demo_runner st (Some demo_timing) timing'"
proof -
  from demo_live have run: "runnable 0 demo_runner (sw_world demo_stats_rworld)"
    by (simp add: runner_deployed_def demo_stats_rworld_def live_at_def ready_def demo_in_view_def demo_fast_view_def)
  have store: "storage_ok (Some demo_timing)" "\<not> timing_too_short demo_runner (Some demo_timing)"
    by (simp_all add: storage_ok_def demo_timing_def timing_too_short_def sync_count_def)
  obtain st w' where "rvrt_paicore_runner_run_sample 5 (plain_sample_env demo_timing_env) (Some (0, demo_runner)) (Some 0) 4 0
      (Some 4) 4 0 demo_rworld = Some (st, w')"
    using sample_lemma [of 0 0 demo_runner 16000000 demo_rworld 5 0 4 0 4 4 0 "plain_sample_env demo_timing_env"
      "([], demo_complete)" "tl demo_script" "[]" "[]"] demo_sample demo_timing_prompt by simp blast
  with timed_sample_is_sample [OF run store(1), of 5 demo_timing_env 0 4 0 4 4 0] store(2) show ?thesis
    by (fastforce simp: rvrt_paicore_runner_run_sample_def demo_stats_rworld_def)
qed

end
