(* ===== verification/Spec2Isabelle.thy ===== *)
theory Spec2Isabelle
  imports UartShell_Laws Relay_Laws SnnBoard Mnist_Run SnnProfile_Report Eclic_Laws RvCounter RunnerTiming_Laws
begin

text \<open>
  PAIRV: the PAICORE runtime and its applications on the RV32 host.

  \<^bold>\<open>The program.\<close>  A host CPU drives the PAICORE neuromorphic chip through a pair of memory-mapped
  FIFOs.  A compiled model arrives as a FlatBuffers artifact: configuration frames, and for every thread
  the tables that map tensor elements to frame addresses.  The runtime reads the artifact, claims the
  chip, sends the configuration, turns input tensors into work frames, waits for the frames the chip
  returns and decodes them into output tensors.  Three applications use these parts: a service that
  runs a five-layer network on tensors received over the UART, an interactive shell, and a relay that
  passes frames between a host and the chip.

  \<^bold>\<open>Theories and sources\<close> (under \<open>src/\<close>), bottom up.

  \<^item> \<open>Prelude\<close>: C integer types, checked array accesses, little-endian loads and stores, word facts.
  \<^item> \<open>Ringbuf\<close>: \<open>Lib/ringbuf.{h,c}\<close>.  The struct is a record; every operation refines a byte queue;
    the locale \<open>byte_queue\<close> is what a client relies on, interpreted on the ring, and \<open>queue_spec\<close> is the
    bounded list that gives the exact status and byte of every operation of a sequence; \<open>spsc_step\<close> interleaves
    a reader and an interrupting writer access by access.
  \<^item> \<open>Artifact\<close>, \<open>Artifact_Laws\<close>: \<open>Lib/runtime/artifact_reader.{h,cpp}\<close>.  The artifact is a tree of
    records with the fields of the generated binding; the verifier and the root accessor of FlatBuffers
    are parameters of \<open>rvrt_artifact_read\<close>.  The laws give the exact contract of an accepted artifact
    and of the views borrowed from it.
  \<^item> \<open>FrameCodec\<close>, \<open>Frame_Fields\<close>, \<open>Frame_Laws\<close>, \<open>Decode_Laws\<close>: \<open>Lib/runtime/frame_codec.{h,c}\<close> and
    \<open>frame_codec_internal.h\<close>.  Frames are two words; buffers of \<open>int32_t\<close> are kept as bytes.  The laws
    give the bit layout, the payload and address round trips, chunked encoding against one-shot
    encoding, the effect of decoding a window, and memory safety on any frame.
  \<^item> \<open>Noc\<close>: \<open>SoC/evalsoc/Common/Source/Drivers/evalsoc_noc.c\<close> and \<open>evalsoc_noc.h\<close>.  The registers are
    the record \<open>noc_hw\<close>.
  \<^item> \<open>Session\<close>, \<open>SessionIo\<close> with \<open>Session_Laws\<close>, \<open>Session_Api\<close>, \<open>SessionIo_Laws\<close>, \<open>Session_Calls\<close>, \<open>Session_Epoch\<close>,
    \<open>Session_Any\<close>: \<open>Lib/runtime/session.{h,c}\<close> and \<open>session_io.c\<close>.  A world holds the session objects by address,
    \<open>g_active_session\<close>, the hardware and the caller's memory; a wait is driven by a trace of interrupts,
    polls and counter readings.  \<open>Session_Calls\<close> is the module as a transition system under any calling
    program; exclusive ownership is an invariant of its reachable worlds, and a wait that fails faults its
    session until the deinitialisation, over any sequence of calls.
    \<open>Session_Epoch\<close> holds what every application uses: claiming the chip, the reset, the timeline barriers;
    \<open>Session_Any\<close> runs the barriers in an arbitrary environment: what they keep when they return, and when
    they return (\<open>wait_ends\<close>, \<open>stocked\<close>).
  \<^item> \<open>Runner\<close> with \<open>Runner_Laws\<close>, \<open>Runner_Rows\<close>, \<open>Runner_Sample\<close>, \<open>Runner_Run\<close>, \<open>Runner_Safe\<close>,
    \<open>Runner_Stream\<close>, \<open>Runner_Deploy\<close>: \<open>Lib/runtime/paicore_runner.{h,c}\<close>.  Tensors are regions of one flat byte memory,
    so aliasing of input and output is part of the model.  The laws: the region checks are exact, the
    fast receive handlers equal the generic one, a sample on a chip that answers refines a row-by-row reference
    and streams its output, every sample in every environment is memory safe and ends when its waits end, and deployment claims the chip or leaves it free.
  \<^item> \<open>SessionStats\<close>, \<open>SessionStats_Laws\<close>, \<open>SessionStats_Count\<close>: the session in the build with statistics
    (\<open>RVRT_ENABLE_STATS == 1\<close>), every operation written out with its counters under the name of the code and
    the suffix \<open>_counted\<close>.  Forgetting the counters gives the default build call by call, and the counters
    are those of the frames that crossed the NoC (\<open>moved\<close>).
  \<^item> \<open>RunnerTiming\<close>, \<open>RunnerTiming_Laws\<close>: the sample with timing of that build.  \<open>sample_plan\<close> is what the timed
    and the plain sample share, \<open>stored\<close> what the caller's array holds afterwards.
  \<^item> \<open>EvalUart\<close>: \<open>SoC/evalsoc/Common/Source/Drivers/evalsoc_uart.c\<close>, and the receive interrupt of the
    shell, which connects the driver to the ring.
  \<^item> \<open>SnnUart\<close>, \<open>SnnUart_Laws\<close>: \<open>application/baremetal/snn_head/src/snn_head_uart.c\<close>, the NSNN framing,
    with its callbacks as parameters.  The laws: headers survive the wire, the CRC rejects every change
    of up to four consecutive bytes, the Knuth-Morris-Pratt scan is the naive search.
  \<^item> \<open>SnnService\<close>: \<open>application/baremetal/snn_head/main.c\<close>.  The locale \<open>uart_link\<close> states what the
    framing needs of its callbacks; a transaction is proved over it to answer as the protocol function
    \<open>nsnn_serve\<close> says, and the callbacks of \<open>main.c\<close> are its interpretation.
  \<^item> \<open>UartUtils\<close>: \<open>application/baremetal/uart/src/utils.c\<close> and \<open>uart_frame.c\<close>.  The parser of 64-bit
    values accepts exactly the numerals of the help text.
  \<^item> \<open>UartShell\<close>, \<open>UartShell_Laws\<close>: \<open>application/baremetal/uart/src/uart_app.c\<close> and \<open>main.c\<close>.  Polling is
    an abstract line editor; \<open>shell_step\<close> interleaves commands, typing, chip and interrupts, and the
    state of the awaited response is an invariant of its reachable states.

  \<^item> \<open>Relay\<close>, \<open>Relay_Laws\<close>: \<open>application/baremetal/relay/main.c\<close>.  \<open>relay_step\<close> interleaves the main
    loop, access by access, with the two interrupts, the host and the chip.  What the chip is sent are, in
    order, the bytes of the host that found room in the ring; a byte is lost exactly when the overflow flag
    is or was found set, and without overflow nothing is lost, doubled or reordered in either direction;
    after a SYNC the relay holds back until the chip has answered.
  \<^item> \<open>Nn\<close>, \<open>Nn_Laws\<close>: \<open>Lib/nn_quant.c\<close>, \<open>nn_fc.c\<close> and \<open>nn_layernorm.c\<close>.  The kernels work on one byte
    memory; the operations on floats are the record \<open>float_ops\<close>.  The laws give what each kernel leaves
    in memory when it works in place, and that the integer layer does not overflow.
  \<^item> \<open>SnnHead\<close>, \<open>SnnHead_Laws\<close>, \<open>SnnHead_Layers\<close>, \<open>SnnHead_Chain\<close>: \<open>snn_head.c\<close> and the four files of
    layers in \<open>application/baremetal/snn_head/src\<close>.  The record \<open>snn_head\<close> holds the linked tables,
    artifacts and addresses.  A layer deploys a runner, runs one sample in the shared workspace and
    releases the chip; \<open>layer_outcome\<close> is how every layer ends by what is known of the chip (the datatype
    \<open>chip\<close>: it answers, or every wait ends, or nothing is known), and the chain composes it five times.
  \<^item> \<open>Debug\<close>: \<open>Lib/debug.{h,c}\<close>, the level filter and the sinks of the debug log.
  \<^item> \<open>Mnist\<close>, \<open>Mnist_Laws\<close>, \<open>Mnist_Run\<close>: \<open>application/runtime/mnist\<close>, the tables of \<open>data.c\<close> included.  The
    input builder repeats the pixels of a sample in every timestep, the prediction is the first class with
    the most spikes, and \<open>mnist_report\<close> is the whole run as a function of the frames of the chip.
  \<^item> \<open>SnnBoard\<close>: the service running the layers, from the bytes on the wire, through the run of the
    chain on the received tensor, to the bytes of the answer that this run decides.
  \<^item> \<open>SnnProfile\<close>, \<open>SnnProfile_Laws\<close>, \<open>SnnProfile_Report\<close>: \<open>snn_head_profile.{h,c}\<close>, the profiler of the
    build with \<open>SNN_HEAD_TIMING\<close>.  \<open>chunk_calls\<close> lists the marks the chain makes for every way it can stop, written from the sources of the
    layers and not derived from \<open>snn_head_run_chunk\<close>, whose build has no marks;
    \<open>accounts\<close> is the invariant that splits the total of a layer into phases and residual.  The locale
    \<open>report_sink\<close> is what the report needs of its callback, interpreted on the UART of the board.
  \<^item> \<open>Eclic\<close>, \<open>Eclic_Laws\<close>: the machine-mode accessors of \<open>NMSIS/Core/Include/core_feature_eclic.h\<close> and
    \<open>ECLIC_Register_IRQ\<close> of \<open>system_evalsoc.c\<close>.  What is set reads back, capped to the configured bits;
    \<open>session_registers_noc\<close> shows that the registration which \<open>Session\<close> takes as a parameter succeeds.
  \<^item> \<open>RvCounter\<close>: the 64-bit counters of \<open>core_feature_base.h\<close>, read and written in halves while they run.

  \<^bold>\<open>Conventions.\<close>  Operations keep the names of the code.  Integers are words of their width, \<open>size_t\<close>
  has 32 bits.  \<open>NULL\<close> is \<open>None\<close>, an out parameter is passed old and returned new.  A whole function that
  returns \<open>None\<close> has left its objects, divided by zero, or outlived the trace of its environment; a law that
  gives \<open>Some\<close> says that this does not happen.  The default build is modelled: \<open>RVRT_ENABLE_STATS\<close>,
  debug logging, \<open>SNN_HEAD_TIMING\<close> and \<open>NOC_FREERTOS_CRITICAL\<close> are off.  The statistics and the profiler,
  which this build leaves out, have theories of their own.

  \<^bold>\<open>Bounds.\<close>  Loops whose end is not structural carry a number of rounds, and a law says how many are
  enough: \<open>send_input_loop\<close>, one per mapped element and one more; \<open>magic_scan\<close>, one per arriving byte and
  one more; \<open>poll_loop\<close>, one per waiting byte and one more.  Waits for the hardware run on a finite
  trace of what the registers return and have no result beyond it; \<open>wait_silent_times_out\<close>, \<open>wait_ends\<close> and the
  timely devices of \<open>SnnService\<close> are the traces on which they are shown to end.

  \<^bold>\<open>Interruptions.\<close>  In \<open>spsc_step\<close> the ring is interleaved at every volatile access.  In \<open>Session\<close> the
  receive interrupt may run between the polls of a wait.  In \<open>shell_step\<close> the operations of the main
  loop are single steps: they run with the NoC interrupt disabled, and the UART interrupt touches
  only the ring, whose interleaving \<open>spsc_step\<close> covers.  In \<open>relay_step\<close> a step of the main loop is one
  access to what it shares with the interrupts, and the NoC handler forwards one frame a step; the receive
  interrupt, of the higher level, may come between any two steps and runs as one, since nothing preempts
  it.  The history of \<open>relay_transparent\<close> begins at the loop of \<open>main\<close>, and bytes that the UART itself
  drops when its hardware FIFO is full never reach the program and are not counted.  A service routine
  that finds the uplink empty in the middle of a barrier waits there, as the code does: such a run has no
  result, and \<open>stocked\<close> is the condition under which it does not happen.

  \<^bold>\<open>Parameters.\<close>  Code that is not in the repository is an argument: the FlatBuffers verifier and root
  accessor, the generated frame tables of the shell, what the hardware keeps of a written interrupt control
  byte (\<open>keeps_implemented\<close>: the implemented bits), and the
  arithmetic of the FPU (\<open>float_ops\<close>; the theorems hold for every choice, rounding modes and contracted
  products included; its conversions are total functions, so the value of a NaN as an integer, which C
  leaves undefined, is whatever \<open>fo_to_s8\<close> says).

  \<^bold>\<open>Not modelled.\<close>  The logging calls of the other parts, which are not in the build that is modelled;
  supervisor mode and the shadow registers of the interrupt controller, which this SoC does not have; the
  board and RTOS demonstrations, which call the modelled parts and print; the
  endless loops of the \<open>main\<close> functions, of which one round is modelled; the generated artifact binding;
  tests and tools; and the vendored code: FlatBuffers, the rest of NMSIS and of the start-up code of the
  SoC, FreeRTOS, RT-Thread and the benchmarks.
\<close>

end
